(* ===== verification/Prelude.thy ===== *)
theory Prelude
  imports Complex_Main "HOL-Library.AList" "HOL-Library.Char_ord" "HOL-Library.List_Lexorder"
    "HOL-Library.Product_Lexorder" "HOL-Library.Sublist"
begin

text \<open>
  What every component of the development shares: Python's floats, dynamic values and
  exceptions, insertion-ordered dictionaries, bounded keyset pages over a dictionary, and the
  interface of a store whose operations keep an invariant.

  A Python \<^verbatim>\<open>dict\<close> is an association list with distinct keys, in insertion order:
  \<^verbatim>\<open>d.get(k)\<close> is \<open>map_of d k\<close>, \<^verbatim>\<open>d[k] = v\<close> is \<open>AList.update k v d\<close> (an existing key
  keeps its position, a new key goes last), \<^verbatim>\<open>d.pop(k, None)\<close> is \<open>AList.delete k d\<close>, and
  \<^verbatim>\<open>d.values()\<close> is \<open>map snd d\<close>.
\<close>

named_theorems store_defs \<open>definitions of the store operations, unfolded to prove a frame or an invariant\<close>
named_theorems inv_intros \<open>an operation keeps the invariant of its component\<close>


section \<open>Floats\<close>

text \<open>
  A Python float: a finite value, kept as an exact rational (the rounding of an addition is
  not modelled), an infinity or a NaN. The linear order puts NaN last and is the one
  \<open>sort_key\<close> uses; the comparisons of the language are \<open>f_le\<close>, \<open>f_lt\<close> and \<open>f_eq\<close>, which
  are false as soon as one side is a NaN.
\<close>

datatype pyfloat = NegInf | Fin rat | PosInf | NaN

instantiation pyfloat :: linorder
begin

fun less_eq_pyfloat :: "pyfloat \<Rightarrow> pyfloat \<Rightarrow> bool" where
  "less_eq_pyfloat NegInf _ = True"
| "less_eq_pyfloat (Fin a) (Fin b) = (a \<le> b)"
| "less_eq_pyfloat (Fin _) PosInf = True"
| "less_eq_pyfloat (Fin _) NaN = True"
| "less_eq_pyfloat PosInf PosInf = True"
| "less_eq_pyfloat PosInf NaN = True"
| "less_eq_pyfloat NaN NaN = True"
| "less_eq_pyfloat _ _ = False"

definition less_pyfloat :: "pyfloat \<Rightarrow> pyfloat \<Rightarrow> bool" where
  "less_pyfloat a b \<longleftrightarrow> a \<le> b \<and> \<not> b \<le> a"

instance
proof
  fix x y z :: pyfloat
  show "x < y \<longleftrightarrow> x \<le> y \<and> \<not> y \<le> x" by (simp add: less_pyfloat_def)
  show "x \<le> x" by (cases x) auto
  show "x \<le> y \<Longrightarrow> y \<le> z \<Longrightarrow> x \<le> z" by (cases x; cases y; cases z) auto
  show "x \<le> y \<Longrightarrow> y \<le> x \<Longrightarrow> x = y" by (cases x; cases y) auto
  show "x \<le> y \<or> y \<le> x" by (cases x; cases y) auto
qed

end

lemma less_pyfloat_Fin [simp]: "Fin a < Fin b \<longleftrightarrow> a < b"
  by (auto simp: less_pyfloat_def)

definition isfinite :: "pyfloat \<Rightarrow> bool" where
  "isfinite x = (case x of Fin _ \<Rightarrow> True | _ \<Rightarrow> False)"

definition f_le :: "pyfloat \<Rightarrow> pyfloat \<Rightarrow> bool" where
  "f_le a b \<longleftrightarrow> a \<noteq> NaN \<and> b \<noteq> NaN \<and> a \<le> b"

definition f_lt :: "pyfloat \<Rightarrow> pyfloat \<Rightarrow> bool" where
  "f_lt a b \<longleftrightarrow> a \<noteq> NaN \<and> b \<noteq> NaN \<and> a < b"

definition f_eq :: "pyfloat \<Rightarrow> pyfloat \<Rightarrow> bool" where
  "f_eq a b \<longleftrightarrow> a \<noteq> NaN \<and> a = b"

fun f_add :: "pyfloat \<Rightarrow> pyfloat \<Rightarrow> pyfloat" where
  "f_add (Fin a) (Fin b) = Fin (a + b)"
| "f_add NaN _ = NaN"
| "f_add _ NaN = NaN"
| "f_add PosInf NegInf = NaN"
| "f_add NegInf PosInf = NaN"
| "f_add PosInf _ = PosInf"
| "f_add NegInf _ = NegInf"
| "f_add _ PosInf = PosInf"
| "f_add _ NegInf = NegInf"

fun f_neg :: "pyfloat \<Rightarrow> pyfloat" where
  "f_neg (Fin a) = Fin (- a)"
| "f_neg PosInf = NegInf"
| "f_neg NegInf = PosInf"
| "f_neg NaN = NaN"

definition f_sub :: "pyfloat \<Rightarrow> pyfloat \<Rightarrow> pyfloat" where
  "f_sub a b = f_add a (f_neg b)"

lemma isfinite_Fin [simp]: "isfinite (Fin a)"
  and isfinite_others [simp]: "\<not> isfinite PosInf" "\<not> isfinite NegInf" "\<not> isfinite NaN"
  by (simp_all add: isfinite_def)

lemma isfinite_iff: "isfinite x \<longleftrightarrow> (\<exists>a. x = Fin a)"
  by (cases x) auto

lemma f_le_Fin [simp]: "f_le (Fin a) (Fin b) \<longleftrightarrow> a \<le> b"
  and f_lt_Fin [simp]: "f_lt (Fin a) (Fin b) \<longleftrightarrow> a < b"
  and f_eq_Fin [simp]: "f_eq (Fin a) (Fin b) \<longleftrightarrow> a = b"
  by (auto simp: f_le_def f_lt_def f_eq_def)

lemma f_sub_Fin [simp]: "f_sub (Fin a) (Fin b) = Fin (a - b)"
  by (simp add: f_sub_def)

lemma f_le_imp_le: "f_le a b \<Longrightarrow> a \<le> b"
  by (simp add: f_le_def)

text \<open>The two tests that fence a lease, at one instant, exclude each other.\<close>

lemma f_lt_not_f_le: "f_lt a b \<Longrightarrow> \<not> f_le b a"
  by (auto simp: f_lt_def f_le_def)

lemma f_le_trans: "f_le a b \<Longrightarrow> f_le b c \<Longrightarrow> f_le a c"
  by (auto simp: f_le_def)


section \<open>Dynamic values and exceptions\<close>

text \<open>
  The values a caller hands to a store (arguments, results, states). Dictionary keys are
  values too, because the code tests that they are strings. \<open>PyObject\<close> is an instance of any
  other class, known by the name of its type.
\<close>

datatype pyval =
    PyNone
  | PyBool bool
  | PyInt int
  | PyFloat pyfloat
  | PyStr string
  | PyList "pyval list"
  | PyTuple "pyval list"
  | PyDict "(pyval \<times> pyval) list"
  | PyObject string

text \<open>Exceptions, by class; the string is the message where the code fixes one.\<close>

datatype exc =
    ValueError string
  | TypeError string
  | KeyError string
  | RuntimeError string
  | PermissionError string
  | TaskStoreConflictError string
  | CronStoreConflictError string
  | CronConflictError string
  | CronNotFoundError string
  | CronUnavailableError string
  | CronRuntimeError string
  | TaskRuntimeError string
  | TaskUnavailableError string
  | TaskExecutionError string
  | CheckpointConflictError string
  | ContinuationConflictError string
  | ContinuationValidationError string
  | A2ATaskConflictError string
  | A2ATaskCursorError string
  | SessionConflictError string
  | ApprovalEnforcementError string
  | ApprovalDenied string
  | ApprovalExpired string
  | ApprovalRequired string
  | ClientToolError string
  | ResponseStatusCapacityError string
  | TransientMediaError string
  | ChannelStoreConflictError string
  | CancelledError string
  | IndexError string
  | StructError string
  | OverflowError string
  | AttributeError string
  | MemoryConflictError string
  | MemoryStorageError string
  | TokenPolicyError string
  | TokenBudgetExceeded string int int
  | ZeroDivisionError string
  | DecisionTimeoutError string
  | DecisionProviderError string
  | DecisionValidationError string
  | ContextUnavailableError string
  | SkillValidationError string
  | SkillNotFoundError string
  | SkillResourceNotSupported string
  | SkillSourceExecutionError string
  | SkillSelectionError string
  | ContextResourceError string
  | ServerConfigError string
  | ProvisionError string
  | MCPResourceError string
  | ExternalContinuationUnavailableError string
  | ExternalContinuationFailed string
  | LifecycleError string
  | ContentError string
  | AuthenticationError string
  | EvaluationError string
  | ModelOutputError string
  | StorageError string
  | AssetInspectionError string
  | AssetStoreError string
  | AssetNotFoundError string
  | AssetQuotaError string
  | AssetValidationError string

text \<open>
  A stateful operation returns its value or the exception it raises, and the state it leaves:
  an exception does not undo what was written before it.
\<close>

type_synonym ('s, 'a) outcome = "(exc + 'a) \<times> 's"

definition raised :: "('s, 'a) outcome \<Rightarrow> bool" where
  "raised r = (case fst r of Inl _ \<Rightarrow> True | Inr _ \<Rightarrow> False)"

text \<open>
  A pure step returns its value or the exception it raises; \<open>sum_bind\<close> runs the next step on
  the value, \<open>guard_that\<close> is an early \<^verbatim>\<open>raise\<close>.
\<close>

definition sum_bind :: "'e + 'a \<Rightarrow> ('a \<Rightarrow> 'e + 'b) \<Rightarrow> 'e + 'b" where
  "sum_bind x f = (case x of Inl e \<Rightarrow> Inl e | Inr v \<Rightarrow> f v)"

definition guard_that :: "bool \<Rightarrow> 'e \<Rightarrow> 'e + unit" where
  "guard_that ok e = (if ok then Inr () else Inl e)"

lemma sum_bind_simps [simp]: "sum_bind (Inl e) f = Inl e" "sum_bind (Inr v) f = f v"
  by (simp_all add: sum_bind_def)

lemma sum_bind_cong [fundef_cong]:
  "x = y \<Longrightarrow> (\<And>v. y = Inr v \<Longrightarrow> f v = g v) \<Longrightarrow> sum_bind x f = sum_bind y g"
  by (cases y) auto

lemma sum_bind_Inr: "sum_bind x f = Inr w \<longleftrightarrow> (\<exists>v. x = Inr v \<and> f v = Inr w)"
  by (cases x) auto

lemma sum_bind_Inl: "sum_bind x f = Inl e \<longleftrightarrow> x = Inl e \<or> (\<exists>v. x = Inr v \<and> f v = Inl e)"
  by (cases x) auto

lemma guard_that_Inr [simp]: "guard_that ok e = Inr u \<longleftrightarrow> ok"
  and guard_that_Inl [simp]: "guard_that ok e = Inl e' \<longleftrightarrow> \<not> ok \<and> e' = e"
  by (auto simp: guard_that_def)

text \<open>The truth value of a dynamic value, and whether it can be hashed.\<close>

fun truthy :: "pyval \<Rightarrow> bool" where
  "truthy PyNone = False"
| "truthy (PyBool b) = b"
| "truthy (PyInt n) = (n \<noteq> 0)"
| "truthy (PyFloat x) = (x \<noteq> Fin 0)"
| "truthy (PyStr s) = (s \<noteq> [])"
| "truthy (PyList vs) = (vs \<noteq> [])"
| "truthy (PyTuple vs) = (vs \<noteq> [])"
| "truthy (PyDict d) = (d \<noteq> [])"
| "truthy (PyObject _) = True"

fun hashable :: "pyval \<Rightarrow> bool" where
  "hashable (PyList _) = False"
| "hashable (PyDict _) = False"
| "hashable (PyTuple vs) = list_all hashable vs"
| "hashable _ = True"

text \<open>A comprehension and an \<^verbatim>\<open>any\<close> whose element test may raise.\<close>

fun map_each :: "('a \<Rightarrow> exc + 'b) \<Rightarrow> 'a list \<Rightarrow> exc + 'b list" where
  "map_each f [] = Inr []"
| "map_each f (x # xs) = sum_bind (f x) (\<lambda>y. sum_bind (map_each f xs) (\<lambda>ys. Inr (y # ys)))"

fun any_each :: "('a \<Rightarrow> exc + bool) \<Rightarrow> 'a list \<Rightarrow> exc + bool" where
  "any_each f [] = Inr False"
| "any_each f (x # xs) = sum_bind (f x) (\<lambda>b. if b then Inr True else any_each f xs)"

lemma map_each_nth:
  "map_each f xs = Inr ys \<Longrightarrow> length ys = length xs \<and> (\<forall>i < length xs. f (xs ! i) = Inr (ys ! i))"
proof (induction xs arbitrary: ys)
  case (Cons x xs)
  then obtain y zs where y: "f x = Inr y" "map_each f xs = Inr zs" "ys = y # zs" by (auto simp: sum_bind_Inr)
  from Cons.IH [OF y(2)] y show ?case by (auto simp: nth_Cons split: nat.splits)
qed simp

text \<open>\<^verbatim>\<open>str.strip()\<close> is non-empty exactly when some character is not whitespace (Latin-1).\<close>

definition is_space :: "char \<Rightarrow> bool" where
  "is_space c \<longleftrightarrow> of_char c \<in> {9, 10, 11, 12, 13, 28, 29, 30, 31, 32, 133, 160 :: nat}"

definition lstrip :: "string \<Rightarrow> string" where
  "lstrip s = dropWhile is_space s"

definition strip :: "string \<Rightarrow> string" where
  "strip s = rev (lstrip (rev (lstrip s)))"

definition blank :: "string \<Rightarrow> bool" where
  "blank s = list_all is_space s"

lemma strip_empty_iff: "strip s = [] \<longleftrightarrow> blank s"
proof
  assume "strip s = []"
  then have "\<forall>c\<in>set (lstrip s). is_space c"
    by (simp add: strip_def lstrip_def)
  then have "lstrip s = []"
    unfolding lstrip_def by (metis hd_dropWhile hd_in_set)
  then show "blank s" by (simp add: lstrip_def blank_def list_all_iff)
next
  assume "blank s"
  then have "lstrip s = []" by (simp add: lstrip_def blank_def list_all_iff)
  then show "strip s = []" by (simp add: strip_def) (simp add: lstrip_def)
qed

text \<open>\<^verbatim>\<open>str.split()\<close>: the words between white space.\<close>

function split_spaces :: "string \<Rightarrow> string list" where
  "split_spaces s = (let t = dropWhile is_space s in if t = [] then []
     else takeWhile (\<lambda>c. \<not> is_space c) t # split_spaces (dropWhile (\<lambda>c. \<not> is_space c) t))"
  by pat_completeness auto
termination
proof (relation "measure length")
  fix s t :: string
  assume t: "t = dropWhile is_space s" "t \<noteq> []"
  then have "\<not> is_space (hd t)" using hd_dropWhile by metis
  then have "dropWhile (\<lambda>c. \<not> is_space c) t = dropWhile (\<lambda>c. \<not> is_space c) (tl t)" using t(2) by (cases t) auto
  then have "length (dropWhile (\<lambda>c. \<not> is_space c) t) \<le> length (tl t)" by (metis length_dropWhile_le)
  moreover have "length (tl t) < length t" "length t \<le> length s" using t by (auto simp: length_dropWhile_le)
  ultimately show "(dropWhile (\<lambda>c. \<not> is_space c) t, s) \<in> measure length" by simp
qed simp

declare split_spaces.simps [simp del]


section \<open>Dictionaries\<close>

abbreviation dict_ok :: "('k \<times> 'v) list \<Rightarrow> bool" where
  "dict_ok d \<equiv> distinct (map fst d)"

text \<open>Lookups stay lookups: no rewriting of \<open>map_of\<close> into membership.\<close>

declare map_of_eq_Some_iff [simp del]

lemma dict_values_iff:
  assumes "dict_ok d"
  shows "v \<in> set (map snd d) \<longleftrightarrow> (\<exists>k. map_of d k = Some v)"
  using assms by (force simp: map_of_eq_Some_iff)

lemma dict_ok_update [simp]: "dict_ok d \<Longrightarrow> dict_ok (AList.update k v d)"
  by (rule AList.distinct_update)

lemma dict_ok_delete [simp]: "dict_ok d \<Longrightarrow> dict_ok (AList.delete k d)"
  by (rule AList.distinct_delete)

lemma map_of_update [simp]: "map_of (AList.update k v d) k' = (if k' = k then Some v else map_of d k')"
  by (simp add: AList.update_conv')

lemma map_of_delete [simp]: "map_of (AList.delete k d) k' = (if k' = k then None else map_of d k')"
  by (simp add: AList.delete_conv')

lemma dict_ok_filter [simp]: "dict_ok d \<Longrightarrow> dict_ok (filter P d)"
  by (simp add: distinct_map_filter)

lemma map_of_filter_pred:
  assumes "dict_ok d"
  shows "map_of (filter P d) k = (case map_of d k of None \<Rightarrow> None | Some v \<Rightarrow> if P (k, v) then Some v else None)"
  using assms
proof (induction d)
  case Nil
  then show ?case by simp
next
  case (Cons p d)
  obtain k' v where p: "p = (k', v)" by (cases p)
  show ?case
  proof (cases "k = k'")
    case True
    with Cons.prems p have "map_of d k = None" by (auto simp: map_of_eq_None_iff)
    moreover with Cons p True have "map_of (filter P d) k = None" by simp
    ultimately show ?thesis using p True by simp
  next
    case False
    with Cons p show ?thesis by simp
  qed
qed

lemma update_same:
  assumes "map_of d k = Some v"
  shows "AList.update k v d = d"
  using assms by (induction d) (auto split: if_splits)

lemma length_update:
  "length (AList.update k v d) = (if map_of d k = None then Suc (length d) else length d)"
  by (induction d) auto


lemma map_enumerate_snd: "map (\<lambda>x. g (snd x)) (enumerate n xs) = map g xs"
  by (metis (no_types, lifting) comp_apply map_eq_conv map_map map_snd_enumerate)


section \<open>Bounded keyset pages\<close>

text \<open>
  Every listing of the stores is one shape: the values of a dictionary that satisfy the
  owner's predicate, sorted by a unique key, the first \<open>limit\<close> of them. The predicate holds
  the exclusive cursor.
\<close>

definition page :: "('v \<Rightarrow> 'o::linorder) \<Rightarrow> ('v \<Rightarrow> bool) \<Rightarrow> int \<Rightarrow> 'v list \<Rightarrow> 'v list" where
  "page f P limit vs = take (nat limit) (sort_key f (filter P vs))"

lemma length_page: "0 \<le> limit \<Longrightarrow> int (length (page f P limit vs)) \<le> limit"
  by (simp add: page_def)

lemma set_page: "v \<in> set (page f P limit vs) \<Longrightarrow> v \<in> set vs \<and> P v"
  by (auto simp: page_def dest: in_set_takeD)

lemma sorted_page: "sorted (map f (page f P limit vs))"
  by (simp add: page_def take_map[symmetric] sorted_wrt_take)

lemma page_short_complete:
  assumes "int (length (page f P limit vs)) < limit"
  shows "set (page f P limit vs) = {v \<in> set vs. P v}"
proof -
  from assms have "length (sort_key f (filter P vs)) \<le> nat limit"
    by (simp add: page_def)
  then show ?thesis by (auto simp: page_def)
qed

text \<open>
  A full page is a prefix of the selection: what it leaves out has a key beyond the last one
  it holds, which is where the next page starts.
\<close>

lemma page_prefix:
  assumes "v \<in> set vs" "P v" "v \<notin> set (page f P limit vs)" "u \<in> set (page f P limit vs)"
  shows "f u \<le> f v"
proof -
  let ?xs = "sort_key f (filter P vs)"
  have sp: "?xs = page f P limit vs @ drop (nat limit) ?xs" by (simp add: page_def)
  have "v \<in> set ?xs" using assms by simp
  with assms(3) sp have v: "v \<in> set (drop (nat limit) ?xs)" by (metis Un_iff set_append)
  have "sorted (map f (page f P limit vs) @ map f (drop (nat limit) ?xs))"
    using sorted_sort_key[of f "filter P vs"] sp by (metis map_append)
  with v assms(4) show ?thesis by (auto simp: sorted_append)
qed

lemma page_cong:
  assumes "\<And>v. v \<in> set vs \<Longrightarrow> P v = Q v"
  shows "page f P limit vs = page f Q limit vs"
  unfolding page_def using assms by (metis (mono_tags, lifting) filter_cong)


text \<open>
  With distinct keys, the page after a full page is the next slice of the sorted selection, so
  following the cursor until a short page enumerates the selection: exactly once, in order.
\<close>

lemma filter_after_take:
  fixes f :: "'v \<Rightarrow> 'o::linorder"
  assumes "sorted_wrt (\<lambda>a b. f a < f b) xs" "0 < n" "xs \<noteq> []"
  shows "filter (\<lambda>v. f (last (take n xs)) < f v) xs = drop n xs"
proof -
  let ?p = "take n xs" and ?q = "drop n xs"
  have "sorted_wrt (\<lambda>a b. f a < f b) (?p @ ?q)" using assms(1) by simp
  then have p: "sorted_wrt (\<lambda>a b. f a < f b) ?p" and pq: "\<forall>a\<in>set ?p. \<forall>b\<in>set ?q. f a < f b"
    by (auto simp only: sorted_wrt_append)
  have ne: "?p \<noteq> []" using assms by simp
  then have last: "last ?p \<in> set ?p" by simp
  have "filter (\<lambda>v. f (last ?p) < f v) ?q = ?q" using pq last by (simp add: filter_id_conv)
  moreover have "\<not> f (last ?p) < f v" if "v \<in> set ?p" for v
  proof -
    from ne have "sorted_wrt (\<lambda>a b. f a < f b) (butlast ?p @ [last ?p])" using p by simp
    then have "\<forall>a\<in>set (butlast ?p). f a < f (last ?p)" by (simp add: sorted_wrt_append)
    moreover have "v \<in> set (butlast ?p) \<or> v = last ?p"
      using that ne append_butlast_last_id by (metis Un_iff empty_iff insert_iff list.set(1) list.set(2) set_append)
    ultimately show ?thesis by (auto dest: less_asym)
  qed
  then have "filter (\<lambda>v. f (last ?p) < f v) ?p = []" by (simp add: filter_empty_conv)
  ultimately show ?thesis by (metis append_Nil append_take_drop_id filter_append)
qed

lemma sort_key_strict:
  assumes "distinct (map f xs)"
  shows "sorted_wrt (\<lambda>a b. f a < f b) (sort_key f xs)"
proof -
  have "distinct (map f (sort_key f xs))" using assms by (simp add: distinct_map)
  then have "sorted_wrt (<) (map f (sort_key f xs))"
    using sorted_sort_key [of f xs] by (simp add: strict_sorted_iff)
  then show ?thesis by (simp add: sorted_wrt_map)
qed

lemma page_resume:
  assumes "distinct (map f vs)" "0 < limit" "page f P limit vs \<noteq> []"
  shows "page f (\<lambda>v. P v \<and> f (last (page f P limit vs)) < f v) limit vs =
         take (nat limit) (drop (nat limit) (sort_key f (filter P vs)))"
proof -
  let ?xs = "sort_key f (filter P vs)" and ?l = "last (page f P limit vs)"
  have "sorted_wrt (\<lambda>a b. f a < f b) ?xs"
    by (rule sort_key_strict) (rule distinct_map_filter [OF assms(1)])
  then have drop: "filter (\<lambda>v. f ?l < f v) ?xs = drop (nat limit) ?xs"
    unfolding page_def by (rule filter_after_take) (use assms in \<open>auto simp: page_def\<close>)
  have "filter (\<lambda>v. P v \<and> f ?l < f v) vs = filter (\<lambda>v. f ?l < f v) (filter P vs)"
    by (simp add: conj_commute)
  then have "sort_key f (filter (\<lambda>v. P v \<and> f ?l < f v) vs) = drop (nat limit) ?xs"
    using drop by (simp add: filter_sort)
  then show ?thesis by (simp add: page_def)
qed

text \<open>The reader's loop: \<open>get after\<close> is one page, a short page is the last.\<close>

fun follow :: "nat \<Rightarrow> ('o option \<Rightarrow> 'v list) \<Rightarrow> ('v \<Rightarrow> 'o) \<Rightarrow> int \<Rightarrow> 'o option \<Rightarrow> 'v list" where
  "follow 0 get f limit after = []"
| "follow (Suc fuel) get f limit after =
     (let p = get after in
      if int (length p) < limit then p else p @ follow fuel get f limit (Some (f (last p))))"

definition after_cursor :: "('v \<Rightarrow> 'o::linorder) \<Rightarrow> 'o option \<Rightarrow> 'v \<Rightarrow> bool" where
  "after_cursor f after v = (case after of None \<Rightarrow> True | Some a \<Rightarrow> a < f v)"

lemma follow_complete:
  assumes "distinct (map f vs)" "0 < limit" "length (filter (\<lambda>v. P v \<and> after_cursor f after v) vs) < fuel"
  shows "follow fuel (\<lambda>a. page f (\<lambda>v. P v \<and> after_cursor f a v) limit vs) f limit after =
         sort_key f (filter (\<lambda>v. P v \<and> after_cursor f after v) vs)"
  using assms(3)
proof (induction fuel arbitrary: after)
  case (Suc fuel)
  let ?P = "\<lambda>v. P v \<and> after_cursor f after v"
  let ?p = "page f ?P limit vs" and ?xs = "sort_key f (filter ?P vs)"
  show ?case
  proof (cases "int (length ?p) < limit")
    case True
    then have "length ?xs \<le> nat limit" by (simp add: page_def)
    then have "?p = ?xs" by (simp add: page_def)
    with True show ?thesis by (simp add: Let_def)
  next
    case False
    with assms(2) have ne: "?p \<noteq> []" by auto
    let ?l = "f (last ?p)"
    have last: "last ?p \<in> set ?p" using ne by simp
    then have lP: "?P (last ?p)" using set_page [of "last ?p" f ?P limit vs] by simp
    have eq: "?P v \<and> ?l < f v \<longleftrightarrow> P v \<and> after_cursor f (Some ?l) v" for v
      using lP by (auto simp: after_cursor_def split: option.splits)
    have rest: "sort_key f (filter (\<lambda>v. P v \<and> after_cursor f (Some ?l) v) vs) = drop (nat limit) ?xs"
    proof -
      have "sorted_wrt (\<lambda>a b. f a < f b) ?xs"
        by (rule sort_key_strict) (rule distinct_map_filter [OF assms(1)])
      then have "filter (\<lambda>v. ?l < f v) ?xs = drop (nat limit) ?xs"
        unfolding page_def by (rule filter_after_take) (use assms(2) ne in \<open>auto simp: page_def\<close>)
      then show ?thesis by (simp add: filter_sort eq conj_commute flip: eq)
    qed
    have len: "length (filter (\<lambda>v. P v \<and> after_cursor f (Some ?l) v) vs) < fuel"
    proof -
      have "length (sort_key f (filter (\<lambda>v. P v \<and> after_cursor f (Some ?l) v) vs)) < length ?xs"
        unfolding rest length_drop using assms(2) ne
        by (intro diff_less) (auto simp: page_def simp flip: length_greater_0_conv)
      with Suc.prems show ?thesis by simp
    qed
    have "?p @ drop (nat limit) ?xs = ?xs" by (simp add: page_def)
    with False Suc.IH [OF len] rest show ?thesis by (simp add: Let_def)
  qed
qed simp


text \<open>Only the cursors the loop can reach matter: the first, and keys of listed values.\<close>

lemma follow_cong:
  assumes "\<And>a. C a \<Longrightarrow> get a = get' a" "C after" "0 < limit"
    and "\<And>a v. C a \<Longrightarrow> v \<in> set (get a) \<Longrightarrow> C (Some (f v))"
  shows "follow fuel get f limit after = follow fuel get' f limit after"
  using assms(2)
proof (induction fuel arbitrary: after)
  case (Suc fuel)
  show ?case
  proof (cases "int (length (get after)) < limit")
    case True
    then show ?thesis using assms(1) [OF Suc.prems] by (simp add: Let_def)
  next
    case False
    then have "get after \<noteq> []" using assms(3) by auto
    then have "C (Some (f (last (get after))))" using assms(4) [OF Suc.prems] by simp
    from Suc.IH [OF this] False assms(1) [OF Suc.prems] show ?thesis by (simp add: Let_def)
  qed
qed simp


section \<open>Stores that keep an invariant\<close>

text \<open>
  The interface between a component and the claims about its runs. \<open>step\<close> is one operation
  under the store's lock, \<open>inv\<close> what the component promises between operations. A run is a
  fold of the step over a list of operations.
\<close>

locale guarded_store =
  fixes init :: 's and step :: "'op \<Rightarrow> 's \<Rightarrow> 's" and ok :: "'op \<Rightarrow> bool" and inv :: "'s \<Rightarrow> bool"
  assumes inv_init: "inv init"
    and inv_step: "inv s \<Longrightarrow> ok op \<Longrightarrow> inv (step op s)"
begin

lemma inv_fold: "inv s \<Longrightarrow> list_all ok ops \<Longrightarrow> inv (fold step ops s)"
  by (induction ops arbitrary: s) (auto intro: inv_step)

lemma inv_run: "list_all ok ops \<Longrightarrow> inv (fold step ops init)"
  by (rule inv_fold [OF inv_init])

lemma stable_fold:
  assumes "inv s" "list_all ok ops" "Q s"
    and "\<And>t op. inv t \<Longrightarrow> ok op \<Longrightarrow> Q t \<Longrightarrow> Q (step op t)"
  shows "Q (fold step ops s)"
  using assms(1-3)
proof (induction ops arbitrary: s)
  case (Cons op ops)
  then show ?case using assms(4) inv_step by (simp add: list_all_iff)
qed simp

end

end
