(* ===== verification/Task_Records.thy ===== *)
theory Task_Records
  imports Prelude
begin

text \<open>
  The persisted records of the task and cron queues (\<^verbatim>\<open>_task_storage.py\<close>,
  \<^verbatim>\<open>_cron_storage.py\<close>), the copies the in-memory provider makes of them, and the
  fingerprints that decide whether two submissions define the same work. \<^verbatim>\<open>json.dumps\<close> is
  written out; what it needs from the interpreter (the text of a float, the SHA-256 digest) is
  the argument \<open>lib\<close> of the definitions.
\<close>


section \<open>Values: copies, plain JSON, equality\<close>

fun copy_value :: "pyval \<Rightarrow> pyval" where
  "copy_value (PyDict kvs) = PyDict (map (\<lambda>(k, v). (k, copy_value v)) kvs)"
| "copy_value (PyList vs) = PyList (map copy_value vs)"
| "copy_value (PyTuple vs) = PyTuple (map copy_value vs)"
| "copy_value v = v"

lemma copy_value_id [simp]: "copy_value v = v"
proof (induction v rule: copy_value.induct)
  case (1 kvs)
  have "map (\<lambda>(k, v). (k, copy_value v)) kvs = kvs"
    by (rule map_idI) (use 1 in auto)
  then show ?case by simp
qed (auto intro: map_idI)

fun plain_json :: "pyval \<Rightarrow> pyval" where
  "plain_json (PyDict kvs) = PyDict (map (\<lambda>(k, v). (k, plain_json v)) kvs)"
| "plain_json (PyList vs) = PyList (map plain_json vs)"
| "plain_json (PyTuple vs) = PyList (map plain_json vs)"
| "plain_json v = v"

text \<open>Python's \<^verbatim>\<open>==\<close>: numbers compare by value across types, dictionaries without order.\<close>

fun num_value :: "pyval \<Rightarrow> pyfloat option" where
  "num_value (PyBool b) = Some (Fin (if b then 1 else 0))"
| "num_value (PyInt i) = Some (Fin (of_int i))"
| "num_value (PyFloat x) = Some x"
| "num_value _ = None"

function (sequential) py_eq :: "pyval \<Rightarrow> pyval \<Rightarrow> bool"
  and py_list_eq :: "pyval list \<Rightarrow> pyval list \<Rightarrow> bool"
  and py_items_in :: "(pyval \<times> pyval) list \<Rightarrow> (pyval \<times> pyval) list \<Rightarrow> bool" where
  "py_eq PyNone b = (b = PyNone)"
| "py_eq (PyStr s) b = (b = PyStr s)"
| "py_eq (PyObject n) b = (b = PyObject n)"
| "py_eq (PyList xs) b = (case b of PyList ys \<Rightarrow> py_list_eq xs ys | _ \<Rightarrow> False)"
| "py_eq (PyTuple xs) b = (case b of PyTuple ys \<Rightarrow> py_list_eq xs ys | _ \<Rightarrow> False)"
| "py_eq (PyDict xs) b =
     (case b of PyDict ys \<Rightarrow> length xs = length ys \<and> py_items_in xs ys | _ \<Rightarrow> False)"
| "py_eq a b = (case (num_value a, num_value b) of (Some x, Some y) \<Rightarrow> f_eq x y | _ \<Rightarrow> False)"
| "py_list_eq [] ys = (ys = [])"
| "py_list_eq (x # xs) ys = (case ys of [] \<Rightarrow> False | y # ys' \<Rightarrow> py_eq x y \<and> py_list_eq xs ys')"
| "py_items_in [] ys = True"
| "py_items_in ((k, v) # xs) ys =
     (list_ex (\<lambda>(k', v'). py_eq k k' \<and> py_eq v v') ys \<and> py_items_in xs ys)"
  by pat_completeness auto
termination
  by (relation "measure (case_sum (\<lambda>(a, b). size a)
       (case_sum (\<lambda>(xs, ys). size_list size xs) (\<lambda>(xs, ys). size_list (size_prod size size) xs)))") auto


section \<open>json.dumps with sorted keys and compact separators\<close>

record pylib =
  float_repr :: "rat \<Rightarrow> string"
  sha256_hex :: "string \<Rightarrow> string"

text \<open>One such library, for the worked instances: a digest that is the text itself.\<close>

definition sample_lib :: pylib where
  "sample_lib = \<lparr>float_repr = (\<lambda>_. ''0.0''), sha256_hex = (\<lambda>s. s)\<rparr>"

fun digits_of :: "nat \<Rightarrow> string" where
  "digits_of n = (if n < 10 then [char_of (48 + n)] else digits_of (n div 10) @ [char_of (48 + n mod 10)])"

declare digits_of.simps [simp del]

definition int_text :: "int \<Rightarrow> string" where
  "int_text i = (if i < 0 then CHR ''-'' # digits_of (nat (- i)) else digits_of (nat i))"

definition hex_digit :: "nat \<Rightarrow> char" where
  "hex_digit n = (if n < 10 then char_of (48 + n) else char_of (87 + n))"

definition escape_char :: "char \<Rightarrow> string" where
  "escape_char c = (let n = of_char c :: nat in
     if n = 34 \<or> n = 92 then [CHR 0x5C, c]
     else if n = 8 then [CHR 0x5C, CHR ''b''] else if n = 9 then [CHR 0x5C, CHR ''t'']
     else if n = 10 then [CHR 0x5C, CHR ''n''] else if n = 12 then [CHR 0x5C, CHR ''f'']
     else if n = 13 then [CHR 0x5C, CHR ''r'']
     else if 32 \<le> n \<and> n \<le> 126 then [c]
     else [CHR 0x5C, CHR ''u'', CHR ''0'', CHR ''0'', hex_digit (n div 16), hex_digit (n mod 16)])"

definition json_string :: "string \<Rightarrow> string" where
  "json_string s = [CHR 0x22] @ concat (map escape_char s) @ [CHR 0x22]"

fun join_with :: "string \<Rightarrow> string list \<Rightarrow> string" where
  "join_with sep [] = []"
| "join_with sep [x] = x"
| "join_with sep (x # xs) = x @ sep @ join_with sep xs"

definition json_object :: "(string \<times> string) list \<Rightarrow> string" where
  "json_object ps = ''{'' @ join_with '','' (map (\<lambda>(k, t). json_string k @ '':'' @ t) (sort_key fst ps)) @ ''}''"

function (sequential) json_dumps :: "pylib \<Rightarrow> pyval \<Rightarrow> exc + string"
  and json_list :: "pylib \<Rightarrow> pyval list \<Rightarrow> exc + string list"
  and json_items :: "pylib \<Rightarrow> (pyval \<times> pyval) list \<Rightarrow> exc + (string \<times> string) list" where
  "json_dumps lib PyNone = Inr ''null''"
| "json_dumps lib (PyBool b) = Inr (if b then ''true'' else ''false'')"
| "json_dumps lib (PyInt i) = Inr (int_text i)"
| "json_dumps lib (PyFloat x) = (case x of Fin q \<Rightarrow> Inr (float_repr lib q)
     | _ \<Rightarrow> Inl (ValueError ''Out of range float values are not JSON compliant''))"
| "json_dumps lib (PyStr s) = Inr (json_string s)"
| "json_dumps lib (PyList vs) = (case json_list lib vs of Inl e \<Rightarrow> Inl e
     | Inr ts \<Rightarrow> Inr (''['' @ join_with '','' ts @ '']''))"
| "json_dumps lib (PyTuple vs) = (case json_list lib vs of Inl e \<Rightarrow> Inl e
     | Inr ts \<Rightarrow> Inr (''['' @ join_with '','' ts @ '']''))"
| "json_dumps lib (PyDict kvs) = (case json_items lib kvs of Inl e \<Rightarrow> Inl e
     | Inr ps \<Rightarrow> Inr (json_object ps))"
| "json_dumps lib (PyObject n) = Inl (TypeError (''Object of type '' @ n @ '' is not JSON serializable''))"
| "json_list lib [] = Inr []"
| "json_list lib (v # vs) = (case json_dumps lib v of Inl e \<Rightarrow> Inl e
     | Inr t \<Rightarrow> (case json_list lib vs of Inl e \<Rightarrow> Inl e | Inr ts \<Rightarrow> Inr (t # ts)))"
| "json_items lib [] = Inr []"
| "json_items lib ((k, v) # kvs) = (case k of
       PyStr s \<Rightarrow> (case json_dumps lib v of Inl e \<Rightarrow> Inl e
         | Inr t \<Rightarrow> (case json_items lib kvs of Inl e \<Rightarrow> Inl e | Inr ps \<Rightarrow> Inr ((s, t) # ps)))
     | _ \<Rightarrow> Inl (TypeError ''keys must be strings''))"
  by pat_completeness auto
termination
  by (relation "measure (case_sum (\<lambda>(lib, v). size v)
       (case_sum (\<lambda>(lib, vs). size_list size vs) (\<lambda>(lib, kvs). size_list (size_prod size size) kvs)))") auto

lemma json_list_plain:
  assumes "\<And>v. v \<in> set vs \<Longrightarrow> json_dumps lib (plain_json v) = json_dumps lib v"
  shows "json_list lib (map plain_json vs) = json_list lib vs"
  using assms by (induction vs) (simp_all split: sum.split)

lemma json_items_plain:
  assumes "\<forall>p\<in>set kvs. json_dumps lib (plain_json (snd p)) = json_dumps lib (snd p)"
  shows "json_items lib (map (\<lambda>(k, v). (k, plain_json v)) kvs) = json_items lib kvs"
  using assms by (induction kvs) (auto split: pyval.split sum.split)

text \<open>The text of a value does not tell a tuple from a list: normalizing it first changes nothing.\<close>

lemma json_dumps_plain [simp]: "json_dumps lib (plain_json v) = json_dumps lib v"
proof (induction v rule: plain_json.induct)
  case (1 kvs)
  then have "json_items lib (map (\<lambda>(k, v). (k, plain_json v)) kvs) = json_items lib kvs"
    by (intro json_items_plain) auto
  then show ?case by simp
qed (simp_all add: json_list_plain)


section \<open>Task records\<close>

record task_record =
  t_job_id :: string
  t_application_id :: string
  t_user_id :: string
  t_task_name :: string
  t_queue :: string
  t_arguments :: pyval
  t_invocation :: pyval
  t_agent_permissions :: "string list option"
  t_trigger :: string
  t_status :: string
  t_scheduled_at :: pyfloat
  t_max_retries :: int
  t_attempt :: int
  t_lease_token :: "string option"
  t_lease_expires_at :: "pyfloat option"
  t_result :: pyval
  t_failure_code :: "string option"
  t_idempotency_key :: "string option"
  t_created_at :: pyfloat
  t_updated_at :: pyfloat
  t_cron_schedule_id :: "string option"

text \<open>The record that only gives the fields without a default.\<close>

definition new_task :: "string \<Rightarrow> string \<Rightarrow> string \<Rightarrow> string \<Rightarrow> string \<Rightarrow> pyval \<Rightarrow> task_record" where
  "new_task job_id application_id user_id task_name queue arguments =
     \<lparr>t_job_id = job_id, t_application_id = application_id, t_user_id = user_id,
      t_task_name = task_name, t_queue = queue, t_arguments = arguments, t_invocation = PyNone,
      t_agent_permissions = None, t_trigger = ''agent'', t_status = ''pending'',
      t_scheduled_at = Fin 0, t_max_retries = 3, t_attempt = 0, t_lease_token = None,
      t_lease_expires_at = None, t_result = PyNone, t_failure_code = None,
      t_idempotency_key = None, t_created_at = Fin 0, t_updated_at = Fin 0,
      t_cron_schedule_id = None\<rparr>"

definition perms_value :: "string list option \<Rightarrow> pyval" where
  "perms_value p = (case p of None \<Rightarrow> PyNone | Some ps \<Rightarrow> PyTuple (map PyStr ps))"

definition task_fingerprint :: "pylib \<Rightarrow> task_record \<Rightarrow> exc + string" where
  "task_fingerprint lib r =
     (let value = PyDict [(PyStr ''task_name'', PyStr (t_task_name r)), (PyStr ''queue'', PyStr (t_queue r)),
        (PyStr ''arguments'', t_arguments r), (PyStr ''agent_permissions'', perms_value (t_agent_permissions r)),
        (PyStr ''max_retries'', PyInt (t_max_retries r))]
      in case json_dumps lib (plain_json value) of Inl e \<Rightarrow> Inl e
       | Inr encoded \<Rightarrow> Inr (sha256_hex lib encoded))"

definition copy_task :: "task_record \<Rightarrow> task_record" where
  "copy_task r = r\<lparr>t_arguments := copy_value (t_arguments r), t_invocation := copy_value (t_invocation r),
                  t_result := copy_value (t_result r)\<rparr>"

lemma copy_task_id [simp]: "copy_task r = r"
  by (simp add: copy_task_def)

definition task_identity :: "task_record \<Rightarrow> string \<times> string \<times> string \<times> string" where
  "task_identity r = (t_application_id r, t_user_id r, t_task_name r,
     (case t_idempotency_key r of None \<Rightarrow> [] | Some k \<Rightarrow> k))"

definition task_key :: "task_record \<Rightarrow> string \<times> string" where
  "task_key r = (t_application_id r, t_job_id r)"


section \<open>Cron records\<close>

record cron_record =
  c_schedule_id :: string
  c_application_id :: string
  c_user_id :: string
  c_key :: string
  c_expression :: string
  c_task_name :: string
  c_arguments :: pyval
  c_next_run_at :: pyfloat
  c_status :: string
  c_revision :: int
  c_timezone :: string
  c_created_at :: pyfloat
  c_updated_at :: pyfloat
  c_max_runs :: "int option"
  c_max_consecutive_failures :: "int option"
  c_run_count :: int
  c_consecutive_failures :: int

definition int_or_none :: "int option \<Rightarrow> pyval" where
  "int_or_none x = (case x of None \<Rightarrow> PyNone | Some i \<Rightarrow> PyInt i)"

definition cron_fingerprint :: "pylib \<Rightarrow> cron_record \<Rightarrow> exc + string" where
  "cron_fingerprint lib r =
     (let definition' = PyDict [(PyStr ''expression'', PyStr (c_expression r)), (PyStr ''task_name'', PyStr (c_task_name r)),
        (PyStr ''arguments'', c_arguments r), (PyStr ''timezone'', PyStr (c_timezone r)),
        (PyStr ''max_runs'', int_or_none (c_max_runs r)),
        (PyStr ''max_consecutive_failures'', int_or_none (c_max_consecutive_failures r))]
      in case json_dumps lib (plain_json definition') of Inl e \<Rightarrow> Inl e
       | Inr encoded \<Rightarrow> Inr (sha256_hex lib encoded))"

definition copy_cron :: "cron_record \<Rightarrow> cron_record" where
  "copy_cron r = r\<lparr>c_arguments := copy_value (c_arguments r)\<rparr>"

lemma copy_cron_id [simp]: "copy_cron r = r"
  by (simp add: copy_cron_def)

definition cron_identity :: "cron_record \<Rightarrow> string \<times> string \<times> string" where
  "cron_identity r = (c_application_id r, c_user_id r, c_key r)"

definition cron_id_key :: "cron_record \<Rightarrow> string \<times> string" where
  "cron_id_key r = (c_application_id r, c_schedule_id r)"

text \<open>Equality of two schedule records: every field, the arguments as dictionaries.\<close>

definition cron_record_eq :: "cron_record \<Rightarrow> cron_record \<Rightarrow> bool" where
  "cron_record_eq a b \<longleftrightarrow> a\<lparr>c_arguments := PyNone\<rparr> = b\<lparr>c_arguments := PyNone\<rparr> \<and>
     py_eq (c_arguments a) (c_arguments b)"

end
