(* ===== verification/Task_Store.thy ===== *)
theory Task_Store
  imports Task_Records
begin

text \<open>
  \<^verbatim>\<open>task_store_memory.py\<close>: the reference provider of the task and cron queues. Each method
  runs under the store's lock, so each is one function from the state to a result and the next
  state. The five dictionaries of the object are the five fields of the state. The tokens
  \<^verbatim>\<open>uuid.uuid4()\<close> gives during one claim are the values of the argument \<open>uuid\<close>.
\<close>

record task_store =
  s_tasks :: "((string \<times> string) \<times> task_record) list"
  s_fingerprints :: "((string \<times> string) \<times> string) list"
  s_idempotency :: "((string \<times> string \<times> string \<times> string) \<times> (string \<times> string)) list"
  s_crons :: "((string \<times> string) \<times> cron_record) list"
  s_cron_keys :: "((string \<times> string \<times> string) \<times> (string \<times> string)) list"

definition empty_task_store :: task_store where
  "empty_task_store = \<lparr>s_tasks = [], s_fingerprints = [], s_idempotency = [], s_crons = [], s_cron_keys = []\<rparr>"

abbreviation put_task :: "string \<times> string \<Rightarrow> task_record \<Rightarrow> task_store \<Rightarrow> task_store" where
  "put_task k r s \<equiv> s\<lparr>s_tasks := AList.update k r (s_tasks s)\<rparr>"

abbreviation put_cron :: "string \<times> string \<Rightarrow> cron_record \<Rightarrow> task_store \<Rightarrow> task_store" where
  "put_cron k c s \<equiv> s\<lparr>s_crons := AList.update k c (s_crons s)\<rparr>"

abbreviation task_at :: "task_store \<Rightarrow> string \<times> string \<Rightarrow> task_record option" where
  "task_at s k \<equiv> map_of (s_tasks s) k"

abbreviation cron_at :: "task_store \<Rightarrow> string \<times> string \<Rightarrow> cron_record option" where
  "cron_at s k \<equiv> map_of (s_crons s) k"


section \<open>Validation and record transitions\<close>

definition validate_limit :: "int \<Rightarrow> exc option" where
  "validate_limit limit = (if 1 \<le> limit \<and> limit \<le> 1000 then None
     else Some (ValueError ''limit must be an integer from 1 to 1000''))"

definition validate_claim_options :: "pyfloat \<Rightarrow> pyfloat \<Rightarrow> int \<Rightarrow> exc option" where
  "validate_claim_options now lease_seconds limit =
     (case validate_limit limit of Some e \<Rightarrow> Some e
      | None \<Rightarrow> if \<not> isfinite now \<or> \<not> isfinite lease_seconds \<or> f_le lease_seconds (Fin 0)
                then Some (ValueError ''lease requires finite now and positive lease_seconds'') else None)"

definition validate_finish :: "string \<Rightarrow> pyfloat \<Rightarrow> pyfloat option \<Rightarrow> exc option" where
  "validate_finish status now retry_at =
     (if status \<notin> {''pending'', ''completed'', ''failed''}
      then Some (ValueError ''finish status must be pending, completed or failed'')
      else if status = ''pending'' \<and> (case retry_at of None \<Rightarrow> True | Some r \<Rightarrow> f_lt r now)
      then Some (ValueError ''retry requires retry_at >= now'') else None)"

definition is_due :: "task_record \<Rightarrow> pyfloat \<Rightarrow> bool" where
  "is_due r now =
     (if t_status r = ''pending'' then f_le (t_scheduled_at r) now
      else t_status r = ''running'' \<and> (case t_lease_expires_at r of None \<Rightarrow> False | Some x \<Rightarrow> f_le x now))"

definition owns_lease :: "task_record option \<Rightarrow> string \<Rightarrow> pyfloat \<Rightarrow> bool" where
  "owns_lease record token now = (case record of None \<Rightarrow> False
     | Some r \<Rightarrow> t_status r = ''running'' \<and> t_lease_token r = Some token \<and>
         (case t_lease_expires_at r of None \<Rightarrow> False | Some x \<Rightarrow> f_lt now x))"

definition terminal_task :: "task_record \<Rightarrow> string \<Rightarrow> pyfloat \<Rightarrow> pyval \<Rightarrow> string option \<Rightarrow> task_record" where
  "terminal_task r status now result failure_code =
     r\<lparr>t_status := status, t_result := copy_value result, t_failure_code := failure_code,
       t_arguments := PyDict [], t_invocation := PyNone, t_agent_permissions := None,
       t_lease_token := None, t_lease_expires_at := None, t_updated_at := now\<rparr>"

text \<open>\<^verbatim>\<open>retry_at\<close> is present whenever the status is pending: \<open>validate_finish\<close> has tested it.\<close>

definition finish_record :: "task_record \<Rightarrow> string \<Rightarrow> pyfloat \<Rightarrow> pyval \<Rightarrow> string option \<Rightarrow> pyfloat option \<Rightarrow> task_record" where
  "finish_record r status now result failure_code retry_at =
     (if status \<noteq> ''pending'' then terminal_task r status now result failure_code
      else if t_attempt r > t_max_retries r then terminal_task r ''failed'' now PyNone (Some ''task_failed'')
      else r\<lparr>t_status := ''pending'', t_scheduled_at := (case retry_at of None \<Rightarrow> t_scheduled_at r | Some x \<Rightarrow> x),
             t_lease_token := None, t_lease_expires_at := None, t_updated_at := now\<rparr>)"

definition claim_record :: "task_record \<Rightarrow> string \<Rightarrow> pyfloat \<Rightarrow> pyfloat \<Rightarrow> task_record" where
  "claim_record r token now lease_seconds =
     r\<lparr>t_status := ''running'', t_attempt := t_attempt r + 1, t_lease_token := Some token,
       t_lease_expires_at := Some (f_add now lease_seconds), t_updated_at := now\<rparr>"

definition record_cron_outcome :: "task_record \<Rightarrow> string \<Rightarrow> pyfloat \<Rightarrow> task_store \<Rightarrow> task_store" where
  "record_cron_outcome task status now s =
     (case t_cron_schedule_id task of None \<Rightarrow> s
      | Some sid \<Rightarrow> (let key = (t_application_id task, sid) in
         case cron_at s key of None \<Rightarrow> s
         | Some record \<Rightarrow> if c_user_id record \<noteq> t_user_id task then s else
             (let failures = (if status = ''completed'' then 0 else c_consecutive_failures record + 1);
                  capped = (case c_max_consecutive_failures record of None \<Rightarrow> False | Some m \<Rightarrow> failures \<ge> m)
              in put_cron key (record\<lparr>c_consecutive_failures := failures,
                    c_status := (if capped then ''cancelled'' else c_status record),
                    c_revision := c_revision record + 1, c_updated_at := now\<rparr>) s)))"


section \<open>Task operations\<close>

definition enqueue_locked :: "pylib \<Rightarrow> task_record \<Rightarrow> task_store \<Rightarrow> (task_store, task_record) outcome" where
  "enqueue_locked lib record s =
     (let key = task_key record; identity = task_identity record;
          target = (case map_of (s_idempotency s) identity of None \<Rightarrow> key | Some k \<Rightarrow> k)
      in case task_fingerprint lib record of Inl e \<Rightarrow> (Inl e, s)
       | Inr fingerprint \<Rightarrow> (case task_at s target of
           Some existing \<Rightarrow>
             if t_user_id existing \<noteq> t_user_id record
             then (Inl (TaskStoreConflictError ''task identity has a different definition''), s)
             else (case map_of (s_fingerprints s) target of None \<Rightarrow> (Inl (KeyError ''task fingerprint''), s)
               | Some fp \<Rightarrow> if fp \<noteq> fingerprint
                   then (Inl (TaskStoreConflictError ''task identity has a different definition''), s)
                   else (Inr existing, s))
         | None \<Rightarrow>
             if task_at s key \<noteq> None then (Inl (TaskStoreConflictError ''task ID already exists''), s)
             else (Inr (copy_task record),
                   s\<lparr>s_tasks := AList.update key (copy_task record) (s_tasks s),
                     s_fingerprints := AList.update key fingerprint (s_fingerprints s),
                     s_idempotency := (if t_idempotency_key record \<noteq> None
                       then AList.update identity key (s_idempotency s) else s_idempotency s)\<rparr>)))"

definition enqueue_task :: "pylib \<Rightarrow> task_record \<Rightarrow> task_store \<Rightarrow> (task_store, task_record) outcome" where
  "enqueue_task lib record s = (case enqueue_locked lib record s of
      (Inl e, s') \<Rightarrow> (Inl e, s') | (Inr r, s') \<Rightarrow> (Inr (copy_task r), s'))"

definition get_task :: "string \<Rightarrow> string \<Rightarrow> string option \<Rightarrow> task_store \<Rightarrow> task_record option" where
  "get_task application_id job_id user_id s = (case task_at s (application_id, job_id) of None \<Rightarrow> None
     | Some r \<Rightarrow> if user_id \<noteq> None \<and> Some (t_user_id r) \<noteq> user_id then None else Some (copy_task r))"

fun claim_candidates :: "(nat \<Rightarrow> string) \<Rightarrow> pyfloat \<Rightarrow> pyfloat \<Rightarrow> int \<Rightarrow> task_record list \<Rightarrow> task_record list
    \<Rightarrow> task_store \<Rightarrow> task_record list \<times> task_store" where
  "claim_candidates uuid now lease_seconds limit [] claimed s = (claimed, s)"
| "claim_candidates uuid now lease_seconds limit (record # rest) claimed s =
     (let key = task_key record in
      if t_attempt record \<ge> t_max_retries record + 1
      then claim_candidates uuid now lease_seconds limit rest claimed
             (record_cron_outcome record ''failed'' now
               (put_task key (terminal_task record ''failed'' now PyNone (Some ''task_failed'')) s))
      else (let record' = claim_record record (uuid (length claimed)) now lease_seconds;
                s' = put_task key record' s; claimed' = claimed @ [copy_task record']
            in if int (length claimed') = limit then (claimed', s')
               else claim_candidates uuid now lease_seconds limit rest claimed' s'))"

definition due_candidates :: "string \<Rightarrow> string list \<Rightarrow> pyfloat \<Rightarrow> task_store \<Rightarrow> task_record list" where
  "due_candidates application_id queues now s =
     sort_key (\<lambda>r. (t_scheduled_at r, t_job_id r))
       (filter (\<lambda>r. t_application_id r = application_id \<and> t_queue r \<in> set queues \<and> is_due r now)
         (map snd (s_tasks s)))"

definition claim_tasks :: "(nat \<Rightarrow> string) \<Rightarrow> string \<Rightarrow> string list \<Rightarrow> pyfloat \<Rightarrow> pyfloat \<Rightarrow> int
    \<Rightarrow> task_store \<Rightarrow> (task_store, task_record list) outcome" where
  "claim_tasks uuid application_id queues now lease_seconds limit s =
     (case validate_claim_options now lease_seconds limit of Some e \<Rightarrow> (Inl e, s)
      | None \<Rightarrow> (case claim_candidates uuid now lease_seconds limit
                   (due_candidates application_id queues now s) [] s of
                 (claimed, s') \<Rightarrow> (Inr claimed, s')))"

definition renew_task_lease :: "string \<Rightarrow> string \<Rightarrow> string \<Rightarrow> pyfloat \<Rightarrow> pyfloat \<Rightarrow> task_store
    \<Rightarrow> (task_store, bool) outcome" where
  "renew_task_lease application_id job_id lease_token now lease_seconds s =
     (case validate_claim_options now lease_seconds 1 of Some e \<Rightarrow> (Inl e, s)
      | None \<Rightarrow> (let key = (application_id, job_id); record = task_at s key in
          if \<not> owns_lease record lease_token now then (Inr False, s)
          else (Inr True, put_task key ((the record)\<lparr>t_lease_expires_at := Some (f_add now lease_seconds),
                                                   t_updated_at := now\<rparr>) s)))"

definition finish_task :: "string \<Rightarrow> string \<Rightarrow> string \<Rightarrow> pyfloat \<Rightarrow> string \<Rightarrow> pyval \<Rightarrow> string option
    \<Rightarrow> pyfloat option \<Rightarrow> task_store \<Rightarrow> (task_store, bool) outcome" where
  "finish_task application_id job_id lease_token now status result failure_code retry_at s =
     (case validate_finish status now retry_at of Some e \<Rightarrow> (Inl e, s)
      | None \<Rightarrow> (let key = (application_id, job_id); record = task_at s key in
          if \<not> owns_lease record lease_token now then (Inr False, s)
          else (let finished = finish_record (the record) status now result failure_code retry_at;
                    s' = put_task key finished s
                in (Inr True, if t_status finished \<in> {''completed'', ''failed''}
                              then record_cron_outcome (the record) (t_status finished) now s' else s'))))"

definition cancel_task :: "string \<Rightarrow> string \<Rightarrow> string \<Rightarrow> pyfloat \<Rightarrow> task_store \<Rightarrow> (task_store, bool) outcome" where
  "cancel_task application_id user_id job_id now s =
     (let key = (application_id, job_id) in case task_at s key of None \<Rightarrow> (Inr False, s)
      | Some record \<Rightarrow> if t_user_id record \<noteq> user_id \<or> t_status record \<notin> {''pending'', ''running''}
          then (Inr False, s)
          else (Inr True, put_task key (terminal_task record ''cancelled'' now PyNone (Some ''task_cancelled'')) s))"


section \<open>Cron operations\<close>

definition create_cron :: "pylib \<Rightarrow> cron_record \<Rightarrow> task_store \<Rightarrow> (task_store, cron_record) outcome" where
  "create_cron lib record s =
     (let key = cron_id_key record; identity = cron_identity record;
          target = (case map_of (s_cron_keys s) identity of None \<Rightarrow> key | Some k \<Rightarrow> k)
      in case cron_at s target of
         Some existing \<Rightarrow>
           if cron_identity existing \<noteq> cron_identity record
           then (Inl (CronStoreConflictError ''cron identity has a different definition''), s)
           else (case cron_fingerprint lib existing of Inl e \<Rightarrow> (Inl e, s)
             | Inr f1 \<Rightarrow> (case cron_fingerprint lib record of Inl e \<Rightarrow> (Inl e, s)
               | Inr f2 \<Rightarrow> if f1 \<noteq> f2
                   then (Inl (CronStoreConflictError ''cron identity has a different definition''), s)
                   else (Inr (copy_cron existing), s)))
       | None \<Rightarrow> (Inr (copy_cron record),
                  s\<lparr>s_crons := AList.update key (copy_cron record) (s_crons s),
                    s_cron_keys := AList.update identity key (s_cron_keys s)\<rparr>))"

definition get_cron :: "string \<Rightarrow> string \<Rightarrow> string \<Rightarrow> task_store \<Rightarrow> cron_record option" where
  "get_cron application_id user_id schedule_id s = (case cron_at s (application_id, schedule_id) of None \<Rightarrow> None
     | Some r \<Rightarrow> if c_user_id r \<noteq> user_id then None else Some (copy_cron r))"

definition list_crons :: "string \<Rightarrow> string \<Rightarrow> string option \<Rightarrow> int \<Rightarrow> task_store \<Rightarrow> exc + cron_record list" where
  "list_crons application_id user_id after limit s = (case validate_limit limit of Some e \<Rightarrow> Inl e
     | None \<Rightarrow> Inr (map copy_cron (page c_schedule_id
         (\<lambda>r. c_application_id r = application_id \<and> c_user_id r = user_id \<and>
              c_schedule_id r > (case after of None \<Rightarrow> [] | Some a \<Rightarrow> a))
         limit (map snd (s_crons s)))))"

definition validate_cron_update :: "cron_record option \<Rightarrow> cron_record \<Rightarrow> int \<Rightarrow> exc option" where
  "validate_cron_update existing incoming expected_revision = (case existing of
       None \<Rightarrow> Some (KeyError (c_schedule_id incoming))
     | Some e \<Rightarrow>
         if c_user_id e \<noteq> c_user_id incoming then Some (KeyError (c_schedule_id incoming))
         else if cron_identity e \<noteq> cron_identity incoming \<or> c_task_name e \<noteq> c_task_name incoming
         then Some (CronStoreConflictError ''cron identity is immutable'')
         else if c_revision e \<noteq> expected_revision then Some (CronStoreConflictError ''cron revision changed'')
         else if c_status e = ''cancelled'' \<and> \<not> cron_record_eq incoming e
         then Some (CronStoreConflictError ''cancelled cron cannot change'') else None)"

definition update_cron :: "cron_record \<Rightarrow> int \<Rightarrow> task_store \<Rightarrow> (task_store, cron_record) outcome" where
  "update_cron record expected_revision s =
     (let key = cron_id_key record; existing = cron_at s key in
      case validate_cron_update existing record expected_revision of Some e \<Rightarrow> (Inl e, s)
      | None \<Rightarrow> if c_status (the existing) = ''cancelled'' then (Inr (copy_cron (the existing)), s)
          else (let updated = record\<lparr>c_revision := c_revision (the existing) + 1\<rparr>
                in (Inr (copy_cron updated), put_cron key (copy_cron updated) s)))"

definition delete_cron :: "string \<Rightarrow> string \<Rightarrow> string \<Rightarrow> task_store \<Rightarrow> (task_store, bool) outcome" where
  "delete_cron application_id user_id schedule_id s =
     (let key = (application_id, schedule_id) in case cron_at s key of None \<Rightarrow> (Inr False, s)
      | Some record \<Rightarrow> if c_user_id record \<noteq> user_id then (Inr False, s)
          else (let s' = s\<lparr>s_crons := AList.delete key (s_crons s)\<rparr> in
            case map_of (s_cron_keys s') (cron_identity record) of
              None \<Rightarrow> (Inl (KeyError (c_key record)), s')
            | Some _ \<Rightarrow> (Inr True, s'\<lparr>s_cron_keys := AList.delete (cron_identity record) (s_cron_keys s')\<rparr>)))"

definition cron_is_due :: "cron_record \<Rightarrow> string \<Rightarrow> pyfloat \<Rightarrow> (pyfloat \<times> string) option \<Rightarrow> bool" where
  "cron_is_due r application_id now after \<longleftrightarrow>
     c_application_id r = application_id \<and> c_status r = ''active'' \<and> f_le (c_next_run_at r) now \<and>
     (case after of None \<Rightarrow> True | Some a \<Rightarrow> (c_next_run_at r, c_schedule_id r) > a)"

definition list_due_crons :: "string \<Rightarrow> pyfloat \<Rightarrow> (pyfloat \<times> string) option \<Rightarrow> int \<Rightarrow> task_store
    \<Rightarrow> exc + cron_record list" where
  "list_due_crons application_id now after limit s = (case validate_limit limit of Some e \<Rightarrow> Inl e
     | None \<Rightarrow> Inr (map copy_cron (page (\<lambda>r. (c_next_run_at r, c_schedule_id r))
         (\<lambda>r. cron_is_due r application_id now after) limit (map snd (s_crons s)))))"

definition below_limit :: "int \<Rightarrow> int option \<Rightarrow> bool" where
  "below_limit n limit = (case limit of None \<Rightarrow> True | Some m \<Rightarrow> n < m)"

definition matches_occurrence :: "cron_record option \<Rightarrow> string \<Rightarrow> int \<Rightarrow> pyfloat \<Rightarrow> bool" where
  "matches_occurrence record user_id revision due_at = (case record of None \<Rightarrow> False
     | Some r \<Rightarrow> c_user_id r = user_id \<and> c_status r = ''active'' \<and> c_revision r = revision \<and>
         f_eq (c_next_run_at r) due_at \<and> below_limit (c_run_count r) (c_max_runs r) \<and>
         below_limit (c_consecutive_failures r) (c_max_consecutive_failures r))"

definition validate_occurrence_task :: "cron_record \<Rightarrow> task_record \<Rightarrow> exc option" where
  "validate_occurrence_task record task =
     (if (c_application_id record, c_user_id record, c_task_name record)
           \<noteq> (t_application_id task, t_user_id task, t_task_name task)
      then Some (CronStoreConflictError ''cron occurrence task has different ownership'')
      else if \<not> py_eq (c_arguments record) (t_arguments task)
      then Some (CronStoreConflictError ''cron occurrence task has different arguments'')
      else if t_cron_schedule_id task \<noteq> Some (c_schedule_id record)
      then Some (CronStoreConflictError ''cron occurrence task has different schedule'') else None)"

definition advance_cron :: "cron_record \<Rightarrow> pyfloat \<Rightarrow> pyfloat \<Rightarrow> cron_record" where
  "advance_cron record next_run_at now =
     (let runs = c_run_count record + 1 in
      record\<lparr>c_next_run_at := next_run_at, c_revision := c_revision record + 1, c_updated_at := now,
             c_run_count := runs,
             c_status := (if \<not> below_limit runs (c_max_runs record) then ''cancelled'' else c_status record)\<rparr>)"

definition commit_cron_occurrence :: "pylib \<Rightarrow> string \<Rightarrow> string \<Rightarrow> string \<Rightarrow> int \<Rightarrow> pyfloat \<Rightarrow> pyfloat
    \<Rightarrow> task_record \<Rightarrow> task_store \<Rightarrow> (task_store, task_record option) outcome" where
  "commit_cron_occurrence lib application_id user_id schedule_id expected_revision due_at next_run_at task s =
     (if f_le next_run_at due_at then (Inl (ValueError ''cron next_run_at must advance''), s)
      else (let key = (application_id, schedule_id); record = cron_at s key in
        if \<not> matches_occurrence record user_id expected_revision due_at then (Inr None, s)
        else (case validate_occurrence_task (the record) task of Some e \<Rightarrow> (Inl e, s)
          | None \<Rightarrow> (case enqueue_locked lib task s of (Inl e, s') \<Rightarrow> (Inl e, s')
            | (Inr queued, s') \<Rightarrow>
                (Inr (Some (copy_task queued)),
                 put_cron key (advance_cron (the record) next_run_at (t_created_at task)) s')))))"


section \<open>Administration pages\<close>

record task_meta =
  m_job_id :: string
  m_task_name :: string
  m_queue :: string
  m_status :: string
  m_scheduled_at :: pyfloat
  m_attempt :: int
  m_max_retries :: int
  m_created_at :: pyfloat
  m_updated_at :: pyfloat
  m_failure_code :: "string option"

definition task_metadata :: "task_record \<Rightarrow> task_meta" where
  "task_metadata r = \<lparr>m_job_id = t_job_id r, m_task_name = t_task_name r, m_queue = t_queue r,
     m_status = t_status r, m_scheduled_at = t_scheduled_at r, m_attempt = t_attempt r,
     m_max_retries = t_max_retries r, m_created_at = t_created_at r, m_updated_at = t_updated_at r,
     m_failure_code = t_failure_code r\<rparr>"

definition validate_page :: "int \<Rightarrow> exc option" where
  "validate_page limit = (if 1 \<le> limit \<and> limit \<le> 100 then None
     else Some (ValueError ''limit must be between 1 and 100''))"

record 'a task_page_result =
  p_items :: "'a list"
  p_after :: "string option"

definition task_page :: "task_meta list \<Rightarrow> int \<Rightarrow> task_meta task_page_result" where
  "task_page items limit = \<lparr>p_items = items,
     p_after = (if int (length items) = limit then Some (m_job_id (last items)) else None)\<rparr>"

definition list_task_metadata :: "string \<Rightarrow> string \<Rightarrow> string option \<Rightarrow> int \<Rightarrow> task_store
    \<Rightarrow> exc + task_meta task_page_result" where
  "list_task_metadata application_id user_id after limit s = (case validate_page limit of Some e \<Rightarrow> Inl e
     | None \<Rightarrow> Inr (task_page (map task_metadata (page t_job_id
         (\<lambda>r. t_application_id r = application_id \<and> t_user_id r = user_id \<and>
              (case after of None \<Rightarrow> True | Some a \<Rightarrow> t_job_id r > a))
         limit (map snd (s_tasks s)))) limit))"

lemmas [store_defs] = enqueue_locked_def enqueue_task_def claim_tasks_def renew_task_lease_def
  finish_task_def cancel_task_def create_cron_def update_cron_def delete_cron_def
  commit_cron_occurrence_def

end
