(* ===== verification/Task_Machine.thy ===== *)
theory Task_Machine
  imports Task_Store
begin

text \<open>
  The life of one job as a step relation, the operations of the store as one step function,
  and the two invariants: the indexes of the store agree with each other (\<open>store_inv\<close>) and
  every stored job is well formed (\<open>task_wf\<close>). Every operation moves every stored job along
  the step relation or leaves it (\<open>task_step_refines\<close>); what holds of the relation then holds of
  the store.
\<close>

section \<open>The store's operations as one step function\<close>

datatype task_op =
    Enqueue task_record
  | Claim "nat \<Rightarrow> string" string "string list" pyfloat pyfloat int
  | Renew string string string pyfloat pyfloat
  | Finish string string string pyfloat string pyval "string option" "pyfloat option"
  | Cancel string string string pyfloat
  | Create_Cron cron_record
  | Update_Cron cron_record int
  | Delete_Cron string string string
  | Commit_Occurrence string string string int pyfloat pyfloat task_record

fun task_step :: "pylib \<Rightarrow> task_op \<Rightarrow> task_store \<Rightarrow> task_store" where
  "task_step lib (Enqueue r) s = snd (enqueue_task lib r s)"
| "task_step lib (Claim uuid app queues now lease limit) s = snd (claim_tasks uuid app queues now lease limit s)"
| "task_step lib (Renew app job tok now lease) s = snd (renew_task_lease app job tok now lease s)"
| "task_step lib (Finish app job tok now status res fc retry) s = snd (finish_task app job tok now status res fc retry s)"
| "task_step lib (Cancel app user job now) s = snd (cancel_task app user job now s)"
| "task_step lib (Create_Cron c) s = snd (create_cron lib c s)"
| "task_step lib (Update_Cron c v) s = snd (update_cron c v s)"
| "task_step lib (Delete_Cron app user sid) s = snd (delete_cron app user sid s)"
| "task_step lib (Commit_Occurrence app user sid v due nxt t) s =
     snd (commit_cron_occurrence lib app user sid v due nxt t s)"


section \<open>The life of one job\<close>

inductive task_move :: "task_record \<Rightarrow> task_record \<Rightarrow> bool" where
  stay: "task_move r r"
| claimed: "is_due r now \<Longrightarrow> t_attempt r < t_max_retries r + 1 \<Longrightarrow>
     task_move r (claim_record r tok now lease)"
| retired: "is_due r now \<Longrightarrow> t_attempt r \<ge> t_max_retries r + 1 \<Longrightarrow>
     task_move r (terminal_task r ''failed'' now PyNone (Some ''task_failed''))"
| renewed: "owns_lease (Some r) tok now \<Longrightarrow>
     task_move r (r\<lparr>t_lease_expires_at := Some expiry, t_updated_at := now\<rparr>)"
| finished: "owns_lease (Some r) tok now \<Longrightarrow> validate_finish status now retry_at = None \<Longrightarrow>
     task_move r (finish_record r status now result fc retry_at)"
| cancelled: "t_status r \<in> {''pending'', ''running''} \<Longrightarrow>
     task_move r (terminal_task r ''cancelled'' now PyNone (Some ''task_cancelled''))"

definition terminal_status :: "string \<Rightarrow> bool" where
  "terminal_status st \<longleftrightarrow> st \<in> {''completed'', ''failed'', ''cancelled''}"

definition scrubbed :: "task_record \<Rightarrow> bool" where
  "scrubbed r \<longleftrightarrow> t_arguments r = PyDict [] \<and> t_invocation r = PyNone \<and> t_agent_permissions r = None"

text \<open>What the runtime submits: a pending job that nobody has claimed.\<close>

definition fresh_task :: "task_record \<Rightarrow> bool" where
  "fresh_task r \<longleftrightarrow> t_status r = ''pending'' \<and> t_attempt r = 0 \<and> 0 \<le> t_max_retries r \<and>
     t_lease_token r = None \<and> t_lease_expires_at r = None"

definition task_wf :: "task_record \<Rightarrow> bool" where
  "task_wf r \<longleftrightarrow> (t_status r \<in> {''pending'', ''running''} \<or> terminal_status (t_status r)) \<and>
     0 \<le> t_attempt r \<and> t_attempt r \<le> t_max_retries r + 1 \<and>
     (t_status r = ''pending'' \<longrightarrow> t_attempt r \<le> t_max_retries r) \<and>
     (t_status r = ''running'' \<longrightarrow> 1 \<le> t_attempt r) \<and>
     (t_lease_token r = None \<longleftrightarrow> t_status r \<noteq> ''running'') \<and>
     (t_lease_expires_at r = None \<longleftrightarrow> t_status r \<noteq> ''running'') \<and>
     (terminal_status (t_status r) \<longrightarrow> scrubbed r)"

lemma fresh_task_wf: "fresh_task r \<Longrightarrow> task_wf r"
  by (auto simp: fresh_task_def task_wf_def terminal_status_def)

lemmas record_moves = claim_record_def terminal_task_def finish_record_def

lemma task_move_identity:
  assumes "task_move r r'"
  shows "task_key r' = task_key r" "task_identity r' = task_identity r" "t_user_id r' = t_user_id r"
    "t_max_retries r' = t_max_retries r" "t_cron_schedule_id r' = t_cron_schedule_id r"
  using assms
  by (induction rule: task_move.induct) (auto simp: record_moves task_key_def task_identity_def)

lemma task_move_attempt: "task_move r r' \<Longrightarrow> t_attempt r \<le> t_attempt r' \<and> t_attempt r' \<le> t_attempt r + 1"
  by (induction rule: task_move.induct) (auto simp: record_moves)

lemma validate_finish_status:
  "validate_finish status now retry_at = None \<Longrightarrow> status = ''pending'' \<or> status = ''completed'' \<or> status = ''failed''"
  by (auto simp: validate_finish_def split: if_splits)

lemma owns_lease_running: "owns_lease (Some r) tok now \<Longrightarrow> t_status r = ''running'' \<and> t_lease_token r = Some tok"
  by (simp add: owns_lease_def)

lemma is_due_live: "is_due r now \<Longrightarrow> t_status r \<in> {''pending'', ''running''}"
  by (auto simp: is_due_def split: if_splits)

lemma task_move_wf: "task_move r r' \<Longrightarrow> task_wf r \<Longrightarrow> task_wf r'"
proof (induction rule: task_move.induct)
  case (claimed r now tok lease)
  then show ?case by (simp add: claim_record_def task_wf_def terminal_status_def)
next
  case (renewed r tok now expiry)
  then show ?case by (simp add: task_wf_def terminal_status_def scrubbed_def owns_lease_def)
next
  case (finished r tok now status retry_at result fc)
  then show ?case
    using validate_finish_status [OF finished(2)] owns_lease_running [OF finished(1)]
    by (auto simp: task_wf_def terminal_status_def scrubbed_def finish_record_def terminal_task_def)
qed (auto simp: task_wf_def terminal_status_def scrubbed_def terminal_task_def)

lemma task_move_terminal: "task_move r r' \<Longrightarrow> terminal_status (t_status r) \<Longrightarrow> r' = r"
  by (induction rule: task_move.induct)
    (auto simp: terminal_status_def dest: is_due_live owns_lease_running)


section \<open>Frames of the operations\<close>

lemma record_cron_outcome_tasks [simp]:
  "s_tasks (record_cron_outcome t st now s) = s_tasks s"
  "s_fingerprints (record_cron_outcome t st now s) = s_fingerprints s"
  "s_idempotency (record_cron_outcome t st now s) = s_idempotency s"
  "s_cron_keys (record_cron_outcome t st now s) = s_cron_keys s"
  by (simp_all add: record_cron_outcome_def Let_def split: option.split)

lemma claim_candidates_indexes [simp]:
  "s_fingerprints (snd (claim_candidates u now l n cs cl s)) = s_fingerprints s"
  "s_idempotency (snd (claim_candidates u now l n cs cl s)) = s_idempotency s"
  "s_cron_keys (snd (claim_candidates u now l n cs cl s)) = s_cron_keys s"
  by (induction u now l n cs cl s rule: claim_candidates.induct) (simp_all add: Let_def)

lemma claim_candidates_frame:
  "k \<notin> task_key ` set cs \<Longrightarrow> task_at (snd (claim_candidates u now l n cs cl s)) k = task_at s k"
  by (induction u now l n cs cl s rule: claim_candidates.induct) (simp_all add: Let_def)

lemma claim_candidates_move:
  assumes "\<forall>r\<in>set cs. task_at s (task_key r) = Some r \<and> is_due r now"
    and "distinct (map task_key cs)" and "task_at s k = Some r"
  shows "\<exists>r'. task_at (snd (claim_candidates u now l n cs cl s)) k = Some r' \<and> task_move r r'"
  using assms
proof (induction u now l n cs cl s rule: claim_candidates.induct)
  case (1 u now l n cl s)
  then show ?case by (auto intro: task_move.stay)
next
  case (2 u now l n c cs cl s)
  from "2.prems" have c: "task_at s (task_key c) = Some c" "is_due c now"
    and fresh: "task_key c \<notin> task_key ` set cs" "distinct (map task_key cs)" by auto
  show ?case
  proof (cases "k = task_key c")
    case True
    with c "2.prems"(3) have r: "r = c" by simp
    show ?thesis
      using True fresh(1) c(2) unfolding r
      by (auto simp: Let_def claim_candidates_frame intro: task_move.claimed task_move.retired)
  next
    case False
    have "\<forall>r\<in>set cs. task_key r \<noteq> task_key c" using fresh(1) by (metis imageI)
    with "2.prems"(1) have rest: "task_at (put_task (task_key c) q s) (task_key r) = Some r \<and> is_due r now"
      if "r \<in> set cs" for r q using that by auto
    show ?thesis
    proof (cases "t_attempt c \<ge> t_max_retries c + 1")
      case True
      with "2.IH"(1) [OF refl True] rest fresh False "2.prems"(3) show ?thesis
        by (simp add: Let_def)
    next
      case exhausted: False
      with "2.IH"(2) [OF refl exhausted refl refl refl] rest fresh False "2.prems"(3) show ?thesis
        by (auto simp: Let_def intro: task_move.stay)
    qed
  qed
qed


section \<open>The invariant of the indexes\<close>

definition store_inv :: "task_store \<Rightarrow> bool" where
  "store_inv s \<longleftrightarrow>
     dict_ok (s_tasks s) \<and> dict_ok (s_fingerprints s) \<and> dict_ok (s_idempotency s) \<and>
     dict_ok (s_crons s) \<and> dict_ok (s_cron_keys s) \<and>
     (\<forall>k r. task_at s k = Some r \<longrightarrow> task_key r = k) \<and>
     (\<forall>k. task_at s k = None \<longleftrightarrow> map_of (s_fingerprints s) k = None) \<and>
     (\<forall>i k. map_of (s_idempotency s) i = Some k \<longrightarrow> (\<exists>r. task_at s k = Some r \<and> task_identity r = i)) \<and>
     (\<forall>k c. cron_at s k = Some c \<longrightarrow> cron_id_key c = k \<and> map_of (s_cron_keys s) (cron_identity c) = Some k) \<and>
     (\<forall>i k. map_of (s_cron_keys s) i = Some k \<longrightarrow> (\<exists>c. cron_at s k = Some c \<and> cron_identity c = i))"

lemma store_invD:
  assumes "store_inv s"
  shows "dict_ok (s_tasks s)" "dict_ok (s_crons s)"
    and "task_at s k = Some r \<Longrightarrow> task_key r = k"
    and "task_at s k = None \<longleftrightarrow> map_of (s_fingerprints s) k = None"
    and "map_of (s_idempotency s) i = Some k \<Longrightarrow> \<exists>r. task_at s k = Some r \<and> task_identity r = i"
    and "cron_at s k = Some c \<Longrightarrow> cron_id_key c = k \<and> map_of (s_cron_keys s) (cron_identity c) = Some k"
    and "map_of (s_cron_keys s) j = Some k \<Longrightarrow> \<exists>c. cron_at s k = Some c \<and> cron_identity c = j"
  using assms unfolding store_inv_def by blast+

lemma store_inv_empty: "store_inv empty_task_store"
  by (simp add: store_inv_def empty_task_store_def)

text \<open>Rewriting a stored job or schedule under its own identity keeps the indexes.\<close>

lemma put_task_inv:
  assumes inv: "store_inv s" and r: "task_at s k = Some r"
    and same: "task_key r' = task_key r" "task_identity r' = task_identity r"
  shows "store_inv (put_task k r' s)"
proof -
  have "task_key r' = k" using store_invD(3) [OF inv r] same by simp
  moreover have "map_of (s_fingerprints s) k \<noteq> None" using store_invD(4) [OF inv, of k] r by simp
  moreover have "\<exists>q. (if k' = k then Some r' else task_at s k') = Some q \<and> task_identity q = i"
    if "map_of (s_idempotency s) i = Some k'" for i k'
    using store_invD(5) [OF inv that] r same(2) by (cases "k' = k") auto
  ultimately show ?thesis using inv unfolding store_inv_def by auto
qed

lemma put_cron_at_inv:
  assumes inv: "store_inv s" and c: "cron_at s k = Some c"
    and same: "cron_id_key c' = k" "cron_identity c' = cron_identity c"
  shows "store_inv (put_cron k c' s)"
proof -
  have "map_of (s_cron_keys s) (cron_identity c') = Some k"
    using store_invD(6) [OF inv c] same by simp
  moreover have "\<exists>q. (if k' = k then Some c' else cron_at s k') = Some q \<and> cron_identity q = i"
    if "map_of (s_cron_keys s) i = Some k'" for i k'
    using store_invD(7) [OF inv that] c same(2) by (cases "k' = k") auto
  ultimately show ?thesis using inv same(1) unfolding store_inv_def by auto
qed

lemma put_cron_inv:
  assumes inv: "store_inv s" and c: "cron_at s k = Some c"
    and same: "cron_id_key c' = cron_id_key c" "cron_identity c' = cron_identity c"
  shows "store_inv (put_cron k c' s)"
  using put_cron_at_inv [OF inv c _ same(2)] store_invD(6) [OF inv c] same(1) by simp

end
