(* ===== verification/Task_Safety.thy ===== *)
theory Task_Safety
  imports Task_Machine
begin

text \<open>
  Every operation of the in-memory task store keeps the invariant of its indexes, and moves
  every stored job along \<open>task_move\<close>. The interpretation at the end turns both into facts about
  arbitrary sequences of operations.
\<close>

section \<open>Claims start from consistent candidates\<close>

lemma due_candidates_member:
  assumes inv: "store_inv s" and r: "r \<in> set (due_candidates app qs now s)"
  shows "task_at s (task_key r) = Some r" "is_due r now" "t_application_id r = app" "t_queue r \<in> set qs"
proof -
  from r have "r \<in> set (map snd (s_tasks s))" and p: "is_due r now" "t_application_id r = app" "t_queue r \<in> set qs"
    by (auto simp: due_candidates_def)
  then obtain k where k: "task_at s k = Some r"
    using dict_values_iff [OF store_invD(1) [OF inv]] by blast
  with store_invD(3) [OF inv k] show "task_at s (task_key r) = Some r" by simp
  from p show "is_due r now" "t_application_id r = app" "t_queue r \<in> set qs" by auto
qed

lemma map_key_tasks:
  assumes inv: "store_inv s"
  shows "map task_key (map snd (s_tasks s)) = map fst (s_tasks s)"
proof -
  have "task_key r = k" if "(k, r) \<in> set (s_tasks s)" for k r
    using that store_invD(1,3) [OF inv] by (metis map_of_eq_Some_iff)
  then show ?thesis by auto
qed

lemma due_candidates_distinct:
  assumes inv: "store_inv s"
  shows "distinct (map task_key (due_candidates app qs now s))"
proof -
  have "distinct (map task_key (map snd (s_tasks s)))"
    unfolding map_key_tasks [OF inv] by (rule store_invD(1) [OF inv])
  then have "distinct (map task_key (filter P (map snd (s_tasks s))))" for P
    by (rule distinct_map_filter)
  then show ?thesis by (simp add: due_candidates_def distinct_map)
qed

lemma claim_candidates_due_move:
  assumes "store_inv s" "task_at s k = Some r"
  shows "\<exists>r'. task_at (snd (claim_candidates u now l n (due_candidates app qs now s) cl s)) k = Some r' \<and> task_move r r'"
  using assms due_candidates_member [OF assms(1)] due_candidates_distinct [OF assms(1)]
  by (intro claim_candidates_move) auto


section \<open>Every operation keeps the invariant\<close>

lemma record_cron_outcome_inv [inv_intros]: "store_inv s \<Longrightarrow> store_inv (record_cron_outcome t st now s)"
  by (auto simp: record_cron_outcome_def Let_def cron_id_key_def cron_identity_def
      split: option.split intro!: put_cron_inv)

lemma claim_candidates_inv:
  assumes "store_inv s" "\<forall>r\<in>set cs. task_at s (task_key r) = Some r" "distinct (map task_key cs)"
  shows "store_inv (snd (claim_candidates u now l n cs cl s))"
  using assms
proof (induction u now l n cs cl s rule: claim_candidates.induct)
  case (2 u now l n c cs cl s)
  then have c: "task_at s (task_key c) = Some c" by simp
  have put: "store_inv (put_task (task_key c) q s)"
    if "task_key q = task_key c" "task_identity q = task_identity c" for q
    using put_task_inv [OF "2.prems"(1) c that] .
  have put': "store_inv (put_task (task_key c) (terminal_task c st now res fc) s)"
    "store_inv (put_task (task_key c) (claim_record c tok now l) s)" for st res fc tok
    by (rule put; simp add: record_moves task_key_def task_identity_def)+
  have "\<forall>r\<in>set cs. task_key r \<noteq> task_key c" using "2.prems"(3) by (auto simp: image_iff)
  then show ?case
    using "2.IH" "2.prems" put' by (simp add: Let_def record_cron_outcome_inv)
qed simp

lemma claim_tasks_inv [inv_intros]: "store_inv s \<Longrightarrow> store_inv (snd (claim_tasks u app qs now l n s))"
  using claim_candidates_inv [of s "due_candidates app qs now s"]
    due_candidates_member [of s _ app qs now] due_candidates_distinct [of s app qs now]
  by (auto simp: claim_tasks_def split: option.split prod.split) (metis snd_conv)

lemma enqueue_target:
  assumes inv: "store_inv s" and free: "task_at s target = None"
    and target: "target = (case map_of (s_idempotency s) i of None \<Rightarrow> k | Some j \<Rightarrow> j)"
  shows "map_of (s_idempotency s) i = None" "target = k"
  using store_invD(5) [OF inv, of i] assms by (auto split: option.splits)

definition enqueue_insert :: "task_record \<Rightarrow> string \<Rightarrow> task_store \<Rightarrow> task_store" where
  "enqueue_insert r fp s = s\<lparr>s_tasks := AList.update (task_key r) r (s_tasks s),
     s_fingerprints := AList.update (task_key r) fp (s_fingerprints s),
     s_idempotency := (if t_idempotency_key r \<noteq> None
       then AList.update (task_identity r) (task_key r) (s_idempotency s) else s_idempotency s)\<rparr>"

abbreviation enqueue_slot :: "task_store \<Rightarrow> task_record \<Rightarrow> string \<times> string" where
  "enqueue_slot s r \<equiv> (case map_of (s_idempotency s) (task_identity r) of None \<Rightarrow> task_key r | Some k \<Rightarrow> k)"

text \<open>A submission either changes nothing or inserts the job in a free slot.\<close>

lemma enqueue_locked_cases:
  obtains (unchanged) "snd (enqueue_locked lib r s) = s"
  | (inserted) fp where "task_fingerprint lib r = Inr fp" "task_at s (task_key r) = None"
      "task_at s (enqueue_slot s r) = None" "enqueue_locked lib r s = (Inr r, enqueue_insert r fp s)"
proof (cases "task_fingerprint lib r")
  case (Inl e)
  then show thesis by (intro unchanged) (simp add: enqueue_locked_def Let_def)
next
  case (Inr fp)
  show thesis
  proof (cases "task_at s (enqueue_slot s r)")
    case (Some q)
    then show thesis by (intro unchanged) (simp add: enqueue_locked_def Let_def Inr split: option.split)
  next
    case None
    show thesis
    proof (cases "task_at s (task_key r)")
      case free: None
      from Inr None free show thesis
        by (intro inserted) (simp_all add: enqueue_locked_def Let_def enqueue_insert_def)
    qed (intro unchanged, simp add: enqueue_locked_def Let_def Inr None)
  qed
qed

lemma enqueue_insert_inv:
  assumes inv: "store_inv s" and free: "task_at s (task_key r) = None"
    and idem: "map_of (s_idempotency s) (task_identity r) = None"
  shows "store_inv (enqueue_insert r fp s)"
proof -
  have "k \<noteq> task_key r" if "map_of (s_idempotency s) i = Some k" for i k
    using store_invD(5) [OF inv that] free by auto
  then show ?thesis using inv unfolding store_inv_def enqueue_insert_def by (auto; blast)
qed

lemma enqueue_locked_inv [inv_intros]:
  assumes inv: "store_inv s"
  shows "store_inv (snd (enqueue_locked lib r s))"
proof (cases rule: enqueue_locked_cases [of lib r s])
  case (inserted fp)
  with enqueue_target(1) [OF inv inserted(3) refl] show ?thesis
    by (simp add: enqueue_insert_inv [OF inv])
qed (simp add: inv)

lemma enqueue_task_snd [simp]: "snd (enqueue_task lib r s) = snd (enqueue_locked lib r s)"
  by (simp add: enqueue_task_def split: prod.split sum.split)

lemma renew_task_lease_inv [inv_intros]: "store_inv s \<Longrightarrow> store_inv (snd (renew_task_lease app job tok now l s))"
  by (auto simp: renew_task_lease_def Let_def owns_lease_def task_key_def task_identity_def
      split: option.split intro!: put_task_inv)

lemma finish_record_identity:
  "task_key (finish_record r st now res fc ra) = task_key r"
  "task_identity (finish_record r st now res fc ra) = task_identity r"
  "task_key (terminal_task r st now res fc) = task_key r"
  "task_identity (terminal_task r st now res fc) = task_identity r"
  by (simp_all add: record_moves task_key_def task_identity_def)

lemma finish_task_inv [inv_intros]: "store_inv s \<Longrightarrow> store_inv (snd (finish_task app job tok now st res fc ra s))"
  by (auto simp: finish_task_def Let_def owns_lease_def finish_record_identity
      split: option.split intro!: put_task_inv record_cron_outcome_inv)

lemma cancel_task_inv [inv_intros]: "store_inv s \<Longrightarrow> store_inv (snd (cancel_task app user job now s))"
  by (auto simp: cancel_task_def Let_def finish_record_identity split: option.split intro!: put_task_inv)

lemma enqueue_locked_crons [simp]:
  "s_crons (snd (enqueue_locked lib r s)) = s_crons s"
  "s_cron_keys (snd (enqueue_locked lib r s)) = s_cron_keys s"
  by (cases rule: enqueue_locked_cases [of lib r s]; simp add: enqueue_insert_def)+

lemma create_cron_inv [inv_intros]:
  assumes inv: "store_inv s"
  shows "store_inv (snd (create_cron lib c s))"
proof -
  let ?target = "case map_of (s_cron_keys s) (cron_identity c) of None \<Rightarrow> cron_id_key c | Some j \<Rightarrow> j"
  show ?thesis
  proof (cases "cron_at s ?target")
    case None
    have idem: "map_of (s_cron_keys s) (cron_identity c) = None"
      using None store_invD(7) [OF inv, of "cron_identity c"] by (auto split: option.splits)
    with None have free: "cron_at s (cron_id_key c) = None" by simp
    have "k \<noteq> cron_id_key c" if "map_of (s_cron_keys s) i = Some k" for i k
      using store_invD(7) [OF inv that] free by auto
    moreover have "cron_identity c' \<noteq> cron_identity c" if "cron_at s k = Some c'" for k c'
      using store_invD(6) [OF inv that] idem by auto
    ultimately show ?thesis
      using None inv idem unfolding store_inv_def
      by (auto simp: create_cron_def Let_def)
  next
    case (Some existing)
    with inv show ?thesis
      by (auto simp: create_cron_def Let_def split: sum.split)
  qed
qed

lemma update_cron_inv [inv_intros]: "store_inv s \<Longrightarrow> store_inv (snd (update_cron c v s))"
  by (auto simp: update_cron_def Let_def validate_cron_update_def cron_identity_def cron_id_key_def
      split: option.splits if_splits intro!: put_cron_at_inv)

lemma delete_cron_inv [inv_intros]:
  assumes inv: "store_inv s"
  shows "store_inv (snd (delete_cron app user sid s))"
proof (cases "cron_at s (app, sid)")
  case (Some c)
  have c: "cron_id_key c = (app, sid)" "map_of (s_cron_keys s) (cron_identity c) = Some (app, sid)"
    using store_invD(6) [OF inv Some] by auto
  have ids: "cron_identity c' \<noteq> cron_identity c" if "cron_at s k = Some c'" "k \<noteq> (app, sid)" for k c'
    using store_invD(6) [OF inv that(1)] that(2) c by auto
  have keys: "\<exists>c'. k \<noteq> (app, sid) \<and> cron_at s k = Some c' \<and> cron_identity c' = i"
    if "map_of (s_cron_keys s) i = Some k" "i \<noteq> cron_identity c" for i k
    using store_invD(7) [OF inv that(1)] that(2) Some by auto
  let ?s = "s\<lparr>s_crons := AList.delete (app, sid) (s_crons s),
             s_cron_keys := AList.delete (cron_identity c) (s_cron_keys s)\<rparr>"
  have "store_inv ?s"
    unfolding store_inv_def using inv [unfolded store_inv_def] ids keys
    by (intro conjI allI impI) (auto split: if_splits)
  with c(2) Some inv show ?thesis by (simp add: delete_cron_def Let_def)
qed (simp add: delete_cron_def Let_def inv)

lemma matches_occurrence_Some: "matches_occurrence x user v due \<Longrightarrow> \<exists>c. x = Some c"
  by (cases x) (simp_all add: matches_occurrence_def)

lemma advance_cron_identity [simp]:
  "cron_id_key (advance_cron c nxt now) = cron_id_key c"
  "cron_identity (advance_cron c nxt now) = cron_identity c"
  by (simp_all add: advance_cron_def Let_def cron_id_key_def cron_identity_def)

lemma commit_cron_occurrence_inv [inv_intros]:
  assumes inv: "store_inv s"
  shows "store_inv (snd (commit_cron_occurrence lib app user sid v due nxt t s))"
proof -
  obtain res s' where e: "enqueue_locked lib t s = (res, s')" by fastforce
  have inv': "store_inv s'" and same: "s_crons s' = s_crons s"
    using enqueue_locked_inv [OF inv, of lib t] enqueue_locked_crons(1) [of lib t s] by (simp_all add: e)
  have "store_inv (put_cron (app, sid) (advance_cron c nxt now) s')"
    if "cron_at s (app, sid) = Some c" for c now
    using put_cron_inv [OF inv', of "(app, sid)" c] that by (simp add: same)
  with inv inv' show ?thesis
    by (auto simp: commit_cron_occurrence_def Let_def e split: option.split sum.split
        dest: matches_occurrence_Some)
qed

lemma task_step_inv: "store_inv s \<Longrightarrow> store_inv (task_step lib op s)"
  by (cases op) (auto intro: inv_intros)


section \<open>Every operation refines the job's step relation\<close>

lemma enqueue_locked_keeps: "task_at s k = Some r \<Longrightarrow> task_at (snd (enqueue_locked lib q s)) k = Some r"
  by (cases rule: enqueue_locked_cases [of lib q s]) (auto simp: enqueue_insert_def)

lemma cron_ops_tasks [simp]:
  "s_tasks (snd (create_cron lib c s)) = s_tasks s"
  "s_tasks (snd (update_cron c v s)) = s_tasks s"
  "s_tasks (snd (delete_cron app user sid s)) = s_tasks s"
  by (simp_all add: create_cron_def update_cron_def delete_cron_def Let_def split: sum.split option.split)

lemma commit_cron_occurrence_tasks:
  "s_tasks (snd (commit_cron_occurrence lib app user sid v due nxt t s)) \<in>
     {s_tasks s, s_tasks (snd (enqueue_locked lib t s))}"
  by (auto simp: commit_cron_occurrence_def Let_def split: option.split prod.split sum.split)

lemma task_step_refines:
  assumes inv: "store_inv s" and r: "task_at s k = Some r"
  shows "\<exists>r'. task_at (task_step lib op s) k = Some r' \<and> task_move r r'"
proof (cases op)
  case (Enqueue q)
  then show ?thesis using enqueue_locked_keeps [OF r] by (auto intro: task_move.stay)
next
  case (Claim u app qs now l n)
  obtain cl s' where eq: "claim_candidates u now l n (due_candidates app qs now s) [] s = (cl, s')"
    by fastforce
  with claim_candidates_due_move [OF inv r, of u now l n app qs "[]"] r Claim show ?thesis
    by (auto simp: claim_tasks_def split: option.split intro: task_move.stay)
next
  case (Renew app job tok now l)
  with r show ?thesis
    by (cases "k = (app, job)") (auto simp: renew_task_lease_def Let_def split: option.split
        intro: task_move.stay task_move.renewed)
next
  case (Finish app job tok now st res fc ra)
  with r show ?thesis
    by (cases "k = (app, job)") (auto simp: finish_task_def Let_def split: option.split
        intro: task_move.stay task_move.finished)
next
  case (Cancel app user job now)
  with r show ?thesis
    by (cases "k = (app, job)") (auto simp: cancel_task_def Let_def split: option.split
        intro: task_move.stay task_move.cancelled)
next
  case (Commit_Occurrence app user sid v due nxt t)
  with r enqueue_locked_keeps [OF r, of lib t] show ?thesis
    using commit_cron_occurrence_tasks [of lib app user sid v due nxt t s]
    by (auto intro: task_move.stay)
qed (use r in \<open>auto intro: task_move.stay\<close>)

text \<open>A job appears only by being submitted, under its own key and as submitted.\<close>

definition submitted :: "task_op \<Rightarrow> task_record option" where
  "submitted op = (case op of Enqueue r \<Rightarrow> Some r
     | Commit_Occurrence app user sid v due nxt t \<Rightarrow> Some t | _ \<Rightarrow> None)"

lemma enqueue_locked_new:
  assumes "task_at s k = None" "task_at (snd (enqueue_locked lib q s)) k = Some r"
  shows "r = q"
  using assms
  by (cases rule: enqueue_locked_cases [of lib q s]) (auto simp: enqueue_insert_def split: if_splits)

lemma claim_candidates_dom:
  assumes "\<forall>r\<in>set cs. task_at s (task_key r) \<noteq> None" "task_at s k = None"
  shows "task_at (snd (claim_candidates u now l n cs cl s)) k = None"
proof -
  have "k \<notin> task_key ` set cs" using assms by auto
  then show ?thesis using assms by (simp add: claim_candidates_frame)
qed

lemma task_step_new:
  assumes inv: "store_inv s" and none: "task_at s k = None" and new: "task_at (task_step lib op s) k = Some r"
  shows "submitted op = Some r"
proof (cases op)
  case (Enqueue q)
  with enqueue_locked_new [OF none, of lib q r] new show ?thesis by (simp add: submitted_def)
next
  case (Claim u app qs now l n)
  have "\<forall>q\<in>set (due_candidates app qs now s). task_at s (task_key q) \<noteq> None"
    using due_candidates_member(1) [OF inv] by auto
  then have "task_at (snd (claim_candidates u now l n (due_candidates app qs now s) [] s)) k = None"
    by (rule claim_candidates_dom) (rule none)
  with Claim new none show ?thesis
    by (auto simp: claim_tasks_def split: option.splits prod.splits)
next
  case (Renew app job tok now l)
  with none new show ?thesis
    by (auto simp: renew_task_lease_def Let_def owns_lease_def split: option.splits if_splits)
next
  case (Finish app job tok now st res fc ra)
  with none new show ?thesis
    by (auto simp: finish_task_def Let_def owns_lease_def split: option.splits if_splits)
next
  case (Cancel app user job now)
  with none new show ?thesis by (auto simp: cancel_task_def Let_def split: option.splits if_splits)
next
  case (Commit_Occurrence app user sid v due nxt t)
  with none new enqueue_locked_new [OF none, of lib t r] show ?thesis
    using commit_cron_occurrence_tasks [of lib app user sid v due nxt t s]
    by (auto simp: submitted_def)
qed (use none new in auto)

end
