(* ===== verification/Task_Claims.thy ===== *)
theory Task_Claims
  imports Task_Safety
begin

text \<open>
  What a claim returns and what it leaves in the store, as equations about the loop over the
  due candidates; which lease tokens an operation can introduce; and the compare-and-swap
  discipline of the schedule records.
\<close>

section \<open>The claim loop\<close>

abbreviation attempts_left :: "task_record \<Rightarrow> bool" where
  "attempts_left r \<equiv> t_attempt r < t_max_retries r + 1"

lemma claim_record_simps [simp]:
  "task_key (claim_record r tok now l) = task_key r"
  "t_job_id (claim_record r tok now l) = t_job_id r"
  "t_scheduled_at (claim_record r tok now l) = t_scheduled_at r"
  by (simp_all add: claim_record_def task_key_def)

lemma claim_candidates_claimed:
  assumes "int (length cl) < n"
  shows "fst (claim_candidates u now l n cs cl s) =
    cl @ map (\<lambda>(i, r). claim_record r (u i) now l)
           (enumerate (length cl) (take (nat (n - int (length cl))) (filter attempts_left cs)))"
  using assms
proof (induction u now l n cs cl s rule: claim_candidates.induct)
  case (2 u now l n c cs cl s)
  show ?case
  proof (cases "t_attempt c \<ge> t_max_retries c + 1")
    case True
    with "2.IH"(1) [OF refl True] "2.prems" show ?thesis by (simp add: Let_def)
  next
    case left: False
    then have sel: "filter attempts_left (c # cs) = c # filter attempts_left cs" by simp
    show ?thesis
    proof (cases "int (length cl) + 1 = n")
      case True
      then have "nat (n - int (length cl)) = Suc 0" by simp
      with left True show ?thesis by (simp add: Let_def sel)
    next
      case False
      with "2.prems" have less: "int (length (cl @ [claim_record c (u (length cl)) now l])) < n" by simp
      have "nat (n - int (length cl)) = Suc (nat (n - (1 + int (length cl))))" using "2.prems" by simp
      with left False "2.IH"(2) [OF refl left refl refl refl] less show ?thesis
        by (simp add: Let_def sel add.commute)
    qed
  qed
qed simp

lemma claim_candidates_stored:
  assumes "distinct (map task_key cs)" "task_key ` set cl \<inter> task_key ` set cs = {}"
    and "\<forall>r\<in>set cl. task_at s (task_key r) = Some r"
    and "r \<in> set (fst (claim_candidates u now l n cs cl s))"
  shows "task_at (snd (claim_candidates u now l n cs cl s)) (task_key r) = Some r"
  using assms
proof (induction u now l n cs cl s rule: claim_candidates.induct)
  case (2 u now l n c cs cl s)
  from "2.prems"(1,2) have fresh: "task_key c \<notin> task_key ` set cl" "distinct (map task_key cs)"
    and disj: "task_key ` set cl \<inter> task_key ` set cs = {}" "task_key c \<notin> task_key ` set cs" by auto
  have keep: "task_at (put_task (task_key c) q s) (task_key r') = Some r'" if "r' \<in> set cl" for q r'
  proof -
    from that fresh(1) have "task_key r' \<noteq> task_key c" by (metis imageI)
    with that "2.prems"(3) show ?thesis by simp
  qed
  show ?case
  proof (cases "t_attempt c \<ge> t_max_retries c + 1")
    case True
    with "2.IH"(1) [OF refl True] fresh disj keep "2.prems"(4) show ?thesis by (simp add: Let_def)
  next
    case left: False
    let ?c = "claim_record c (u (length cl)) now l"
    show ?thesis
    proof (cases "int (length cl) + 1 = n")
      case True
      with "2.prems"(4) left have "r = ?c \<or> r \<in> set cl" by (auto simp: Let_def)
      with left True keep show ?thesis by (elim disjE) (simp_all add: Let_def)
    next
      case False
      with "2.IH"(2) [OF refl left refl refl refl] left fresh disj keep "2.prems"(4) show ?thesis
        by (simp add: Let_def add.commute)
    qed
  qed
qed simp

text \<open>A claim that comes back short has dealt with every candidate.\<close>

definition settled :: "pyfloat \<Rightarrow> pyfloat \<Rightarrow> task_record \<Rightarrow> task_record \<Rightarrow> bool" where
  "settled now l r r' \<longleftrightarrow> (if attempts_left r then \<exists>tok. r' = claim_record r tok now l
     else r' = terminal_task r ''failed'' now PyNone (Some ''task_failed''))"

lemma settledI [simp]:
  "attempts_left r \<Longrightarrow> settled now l r (claim_record r tok now l)"
  "t_max_retries r + 1 \<le> t_attempt r \<Longrightarrow>
     settled now l r (terminal_task r ''failed'' now PyNone (Some ''task_failed''))"
  by (auto simp: settled_def)

lemma claim_candidates_exhausts:
  assumes "distinct (map task_key cs)" "int (length (fst (claim_candidates u now l n cs cl s))) < n"
    and "r \<in> set cs"
  shows "\<exists>r'. task_at (snd (claim_candidates u now l n cs cl s)) (task_key r) = Some r' \<and> settled now l r r'"
  using assms
proof (induction u now l n cs cl s rule: claim_candidates.induct)
  case (2 u now l n c cs cl s)
  show ?case
  proof (cases "t_attempt c \<ge> t_max_retries c + 1")
    case True
    with "2.IH"(1) [OF refl True] "2.prems" show ?thesis
      by (auto simp: Let_def claim_candidates_frame)
  next
    case left: False
    with "2.prems"(2) have "int (length cl) + 1 \<noteq> n" by (auto simp: Let_def)
    with left "2.IH"(2) [OF refl left refl refl refl] "2.prems" show ?thesis
      by (auto simp: Let_def claim_candidates_frame add.commute)
  qed
qed simp

lemma claim_candidates_tokens:
  assumes "task_at (snd (claim_candidates u now l n cs cl s)) k = Some r"
  shows "task_at s k = Some r \<or> t_lease_token r = None \<or> (\<exists>i. t_lease_token r = Some (u i))"
  using assms
proof (induction u now l n cs cl s rule: claim_candidates.induct)
  case (2 u now l n c cs cl s)
  show ?case
  proof (cases "t_attempt c \<ge> t_max_retries c + 1")
    case True
    with "2.IH"(1) [OF refl True] "2.prems" show ?thesis
      by (auto simp: Let_def terminal_task_def split: if_splits)
  next
    case left: False
    with "2.IH"(2) [OF refl left refl refl refl] "2.prems" show ?thesis
      by (auto simp: Let_def claim_record_def split: if_splits)
  qed
qed simp


section \<open>Lease tokens\<close>

text \<open>An operation that cannot bring \<open>tok\<close> back: no claim draws it, no submission carries it.\<close>

definition never_issues :: "string \<Rightarrow> task_op \<Rightarrow> bool" where
  "never_issues tok op = (case op of Claim u app qs now l n \<Rightarrow> (\<forall>i. u i \<noteq> tok)
     | _ \<Rightarrow> (case submitted op of None \<Rightarrow> True | Some r \<Rightarrow> t_lease_token r \<noteq> Some tok))"

definition unleased :: "string \<Rightarrow> string \<times> string \<Rightarrow> task_store \<Rightarrow> bool" where
  "unleased tok k s \<longleftrightarrow> (\<forall>r. task_at s k = Some r \<longrightarrow> t_lease_token r \<noteq> Some tok)"

lemma unleased_step:
  assumes inv: "store_inv s" and un: "unleased tok k s" and op: "never_issues tok op"
  shows "unleased tok k (task_step lib op s)"
proof (cases "task_at s k")
  case None
  show ?thesis
  proof (cases op)
    case (Claim u app qs now l n)
    have "task_at (task_step lib op s) k \<noteq> Some r" for r
      using task_step_new [OF inv None, of lib op r] Claim by (auto simp: submitted_def)
    then show ?thesis by (simp add: unleased_def)
  qed (use task_step_new [OF inv None, of lib op] op in \<open>auto simp: unleased_def never_issues_def\<close>)
next
  case (Some r)
  with un have r: "t_lease_token r \<noteq> Some tok" by (simp add: unleased_def)
  show ?thesis
  proof (cases op)
    case (Claim u app qs now l n)
    then show ?thesis
      using claim_candidates_tokens [of u now l n "due_candidates app qs now s" "[]" s k] un op
      by (auto simp: unleased_def never_issues_def claim_tasks_def case_prod_beta split: option.split)
  next
    case (Renew app job t now l)
    with Some r show ?thesis
      by (auto simp: unleased_def renew_task_lease_def Let_def split: option.split)
  next
    case (Finish app job t now st res fc ra)
    with Some r show ?thesis
      by (auto simp: unleased_def finish_task_def Let_def record_moves split: option.split)
  next
    case (Cancel app user job now)
    with Some r show ?thesis
      by (auto simp: unleased_def cancel_task_def Let_def terminal_task_def split: option.split)
  next
    case (Commit_Occurrence app user sid v due nxt t)
    with Some r enqueue_locked_keeps [OF Some, of lib t]
      commit_cron_occurrence_tasks [of lib app user sid v due nxt t s] show ?thesis
      by (auto simp: unleased_def)
  qed (use Some r enqueue_locked_keeps [OF Some, of lib] in \<open>auto simp: unleased_def\<close>)
qed

lemma unleased_not_owner: "unleased tok k s \<Longrightarrow> \<not> owns_lease (task_at s k) tok now"
  by (auto simp: unleased_def owns_lease_def split: option.split)


section \<open>Schedules change by compare-and-swap\<close>

definition cron_advance :: "cron_record \<Rightarrow> cron_record \<Rightarrow> bool" where
  "cron_advance c c' \<longleftrightarrow> cron_id_key c' = cron_id_key c \<and> cron_identity c' = cron_identity c \<and>
     c_task_name c' = c_task_name c \<and> c_revision c \<le> c_revision c' \<and>
     (c' \<noteq> c \<longrightarrow> c_revision c < c_revision c') \<and>
     (c_status c = ''cancelled'' \<longrightarrow> c_status c' = ''cancelled'')"

lemma cron_advance_refl [simp]: "cron_advance c c"
  by (simp add: cron_advance_def)

lemma cron_advance_trans [trans]: "cron_advance a b \<Longrightarrow> cron_advance b c \<Longrightarrow> cron_advance a c"
  by (auto simp: cron_advance_def)

lemma record_cron_outcome_advance:
  assumes "cron_at s k = Some c"
  shows "\<exists>c'. cron_at (record_cron_outcome t st now s) k = Some c' \<and> cron_advance c c'"
  using assms
  by (auto simp: record_cron_outcome_def Let_def cron_advance_def cron_id_key_def cron_identity_def
      split: option.split)

lemma claim_candidates_advance:
  "cron_at s k = Some c \<Longrightarrow>
   \<exists>c'. cron_at (snd (claim_candidates u now l n cs cl s)) k = Some c' \<and> cron_advance c c'"
proof (induction u now l n cs cl s arbitrary: c rule: claim_candidates.induct)
  case (2 u now l n r cs cl s)
  show ?case
  proof (cases "t_attempt r \<ge> t_max_retries r + 1")
    case True
    let ?s = "put_task (task_key r) (terminal_task r ''failed'' now PyNone (Some ''task_failed'')) s"
    from "2.prems" have "cron_at ?s k = Some c" by simp
    from record_cron_outcome_advance [OF this, of r "''failed''" now] obtain c1
      where c1: "cron_at (record_cron_outcome r ''failed'' now ?s) k = Some c1" "cron_advance c c1" by blast
    from "2.IH"(1) [OF refl True c1(1)] c1(2) True show ?thesis
      by (auto simp: Let_def intro: cron_advance_trans)
  next
    case left: False
    with "2.IH"(2) [OF refl left refl refl refl] "2.prems" show ?thesis
      by (auto simp: Let_def)
  qed
qed simp

text \<open>Every operation but the deletion of the schedule itself advances it or leaves it.\<close>

definition keeps_schedule :: "string \<times> string \<Rightarrow> task_op \<Rightarrow> bool" where
  "keeps_schedule k op = (case op of Delete_Cron app user sid \<Rightarrow> (app, sid) \<noteq> k | _ \<Rightarrow> True)"

lemma update_cron_advance:
  assumes inv: "store_inv s" and c: "cron_at s k = Some c"
  shows "\<exists>c'. cron_at (snd (update_cron q v s)) k = Some c' \<and> cron_advance c c'"
proof (cases "k = cron_id_key q")
  case True
  have "cron_id_key c = cron_id_key q" using store_invD(6) [OF inv c] True by simp
  with True c show ?thesis
    by (auto simp: update_cron_def Let_def validate_cron_update_def cron_advance_def cron_identity_def
        cron_id_key_def split: option.split)
qed (use c in \<open>auto simp: update_cron_def Let_def split: option.split\<close>)

lemma advance_cron_advance: "c_status c = ''active'' \<Longrightarrow> cron_advance c (advance_cron c nxt now)"
  by (simp add: cron_advance_def) (simp add: advance_cron_def Let_def)

lemma commit_cron_occurrence_advance:
  assumes c: "cron_at s k = Some c"
  shows "\<exists>c'. cron_at (snd (commit_cron_occurrence lib app user sid v due nxt t s)) k = Some c' \<and> cron_advance c c'"
proof -
  obtain res s' where e: "enqueue_locked lib t s = (res, s')" by fastforce
  have same: "s_crons s' = s_crons s" using enqueue_locked_crons(1) [of lib t s] by (simp add: e)
  have "c_status (the (cron_at s (app, sid))) = ''active''" if "matches_occurrence (cron_at s (app, sid)) user v due"
    using that by (auto simp: matches_occurrence_def split: option.splits)
  with c show ?thesis
    by (auto simp: commit_cron_occurrence_def Let_def e same advance_cron_advance split: option.split sum.split)
qed

lemma task_step_cron_advance:
  assumes inv: "store_inv s" and c: "cron_at s k = Some c" and op: "keeps_schedule k op"
  shows "\<exists>c'. cron_at (task_step lib op s) k = Some c' \<and> cron_advance c c'"
proof (cases op)
  case (Claim u app qs now l n)
  with claim_candidates_advance [OF c, of u now l n "due_candidates app qs now s" "[]"] c show ?thesis
    by (auto simp: claim_tasks_def case_prod_beta split: option.split)
next
  case (Finish app job tok now st res fc ra)
  let ?r = "the (task_at s (app, job))" and ?f = "finish_record (the (task_at s (app, job))) st now res fc ra"
  have "cron_at (put_task (app, job) ?f s) k = Some c" using c by simp
  from record_cron_outcome_advance [OF this, of ?r "t_status ?f" now] c Finish show ?thesis
    by (auto simp: finish_task_def Let_def split: option.split)
next
  case (Update_Cron q v)
  with update_cron_advance [OF inv c] show ?thesis by simp
next
  case (Create_Cron q)
  let ?slot = "case map_of (s_cron_keys s) (cron_identity q) of None \<Rightarrow> cron_id_key q | Some j \<Rightarrow> j"
  have "k \<noteq> cron_id_key q" if "cron_at s ?slot = None"
    using that c store_invD(7) [OF inv, of "cron_identity q"] by (auto split: option.splits)
  with c Create_Cron show ?thesis
    by (cases "cron_at s ?slot") (auto simp: create_cron_def Let_def split: sum.split)
next
  case (Commit_Occurrence app user sid v due nxt t)
  with commit_cron_occurrence_advance [OF c] show ?thesis by simp
qed (use c op in \<open>auto simp: renew_task_lease_def cancel_task_def delete_cron_def
       keeps_schedule_def Let_def split: option.split\<close>)

end
