(* ===== verification/Task_Props.thy ===== *)
theory Task_Props
  imports Task_Claims
begin

text \<open>
  The contract of the task queue over arbitrary sequences of operations: consistency of the
  indexes, the life of a job, deduplication of submissions, fencing of stale workers, what a
  claim returns and leaves behind, and which error branches cannot be reached.
\<close>

section \<open>The interpretation on the store's operations\<close>

definition fresh_op :: "task_op \<Rightarrow> bool" where
  "fresh_op op = (case submitted op of None \<Rightarrow> True | Some r \<Rightarrow> fresh_task r)"

definition jobs_ok :: "task_store \<Rightarrow> bool" where
  "jobs_ok s \<longleftrightarrow> store_inv s \<and> (\<forall>k r. task_at s k = Some r \<longrightarrow> task_wf r)"

lemma jobs_ok_step:
  assumes "jobs_ok s" "fresh_op op"
  shows "jobs_ok (task_step lib op s)"
proof -
  have inv: "store_inv s" using assms(1) by (simp add: jobs_ok_def)
  have "task_wf r'" if r': "task_at (task_step lib op s) k = Some r'" for k r'
  proof (cases "task_at s k")
    case None
    then have "submitted op = Some r'" by (rule task_step_new [OF inv _ r'])
    with assms(2) show ?thesis by (simp add: fresh_op_def fresh_task_wf)
  next
    case (Some r)
    then have "task_move r r'" using task_step_refines [OF inv Some, of lib op] r' by auto
    moreover have "task_wf r" using assms(1) Some unfolding jobs_ok_def by blast
    ultimately show ?thesis by (rule task_move_wf)
  qed
  then show ?thesis using task_step_inv [OF inv] by (simp add: jobs_ok_def)
qed

interpretation ts: guarded_store empty_task_store "task_step lib" "\<lambda>_. True" store_inv for lib
  by unfold_locales (auto intro: store_inv_empty task_step_inv)

interpretation jobs: guarded_store empty_task_store "task_step lib" fresh_op jobs_ok for lib
  by unfold_locales (auto simp: jobs_ok_def [of empty_task_store] store_inv_empty intro: jobs_ok_step,
      simp add: empty_task_store_def)

abbreviation task_run :: "pylib \<Rightarrow> task_op list \<Rightarrow> task_store \<Rightarrow> task_store" where
  "task_run lib ops s \<equiv> fold (task_step lib) ops s"

text \<open>What every operation keeps from a consistent state, it keeps over a run.\<close>

lemma run_inv: "store_inv s \<Longrightarrow> store_inv (task_run lib ops s)"
  by (rule ts.inv_fold) (simp_all add: list_all_iff)

lemma run_stable:
  assumes "store_inv s" "Q s" "list_all P ops"
    and "\<And>t op. store_inv t \<Longrightarrow> P op \<Longrightarrow> Q t \<Longrightarrow> Q (task_step lib op t)"
  shows "Q (task_run lib ops s)"
  using assms(1-3)
proof (induction ops arbitrary: s)
  case (Cons op ops)
  then show ?case using assms(4) task_step_inv by simp
qed simp


section \<open>Consistency and the life of a job\<close>

text \<open>
  C1. However the operations of the store are interleaved, its five dictionaries agree: every
  job sits under its own key and has a fingerprint, every idempotency entry names a stored job
  of that identity, and schedules and authored keys index each other.
\<close>

theorem task_store_consistent: "store_inv (fold (task_step lib) ops empty_task_store)"
  by (rule ts.inv_run) (simp add: list_all_iff)

text \<open>
  If only fresh jobs are submitted, every stored job is well formed in every reachable
  state: a known status, a lease exactly while running, at most \<^verbatim>\<open>max_retries + 1\<close>
  attempts (a pending one still has an attempt left), and no arguments, invocation or
  permissions once it is terminal.
\<close>

theorem stored_jobs_well_formed:
  assumes "list_all fresh_op ops" and "task_at (fold (task_step lib) ops empty_task_store) k = Some r"
  shows "task_wf r"
  using jobs.inv_run [OF assms(1), of lib] assms(2) unfolding jobs_ok_def by blast

text \<open>
  C2. A completed, failed or cancelled job never changes again, whatever operations follow:
  no claim, renewal, outcome, cancellation or resubmission touches its record.
\<close>

theorem terminal_job_frozen:
  assumes inv: "store_inv s" and r: "task_at s k = Some r" and terminal: "terminal_status (t_status r)"
  shows "task_at (fold (task_step lib) ops s) k = Some r"
  using inv r
proof (rule run_stable [where Q = "\<lambda>t. task_at t k = Some r" and P = "\<lambda>_. True"])
  show "list_all (\<lambda>_. True) ops" by (simp add: list_all_iff)
  show "task_at (task_step lib op t) k = Some r" if "store_inv t" "task_at t k = Some r" for t op
    using task_step_refines [OF that, of lib op] task_move_terminal [OF _ terminal] by auto
qed


section \<open>Deduplication\<close>

lemma enqueue_locked_indexes:
  assumes inv: "store_inv s" and i: "map_of (s_idempotency s) i = Some k"
  shows "map_of (s_idempotency (snd (enqueue_locked lib q s))) i = Some k"
proof (cases rule: enqueue_locked_cases [of lib q s])
  case (inserted fp)
  with enqueue_target(1) [OF inv inserted(3) refl] i show ?thesis by (auto simp: enqueue_insert_def)
qed (simp add: i)

lemma enqueue_locked_fp:
  assumes inv: "store_inv s" and k: "map_of (s_fingerprints s) k = Some f"
  shows "map_of (s_fingerprints (snd (enqueue_locked lib q s))) k = Some f"
proof (cases rule: enqueue_locked_cases [of lib q s])
  case (inserted fp)
  with k store_invD(4) [OF inv, of k] show ?thesis by (auto simp: enqueue_insert_def)
qed (simp add: k)

lemma task_ops_indexes [simp]:
  "s_idempotency (snd (claim_tasks u app qs now l n s)) = s_idempotency s"
  "s_fingerprints (snd (claim_tasks u app qs now l n s)) = s_fingerprints s"
  "s_idempotency (snd (renew_task_lease app job tok now l s)) = s_idempotency s"
  "s_fingerprints (snd (renew_task_lease app job tok now l s)) = s_fingerprints s"
  "s_idempotency (snd (finish_task app job tok now st res fc ra s)) = s_idempotency s"
  "s_fingerprints (snd (finish_task app job tok now st res fc ra s)) = s_fingerprints s"
  "s_idempotency (snd (cancel_task app user job now s)) = s_idempotency s"
  "s_fingerprints (snd (cancel_task app user job now s)) = s_fingerprints s"
  by (simp_all add: claim_tasks_def renew_task_lease_def finish_task_def cancel_task_def Let_def case_prod_beta
      split: option.split)

lemma cron_ops_indexes [simp]:
  "s_idempotency (snd (create_cron lib c s)) = s_idempotency s"
  "s_fingerprints (snd (create_cron lib c s)) = s_fingerprints s"
  "s_idempotency (snd (update_cron c v s)) = s_idempotency s"
  "s_fingerprints (snd (update_cron c v s)) = s_fingerprints s"
  "s_idempotency (snd (delete_cron app user sid s)) = s_idempotency s"
  "s_fingerprints (snd (delete_cron app user sid s)) = s_fingerprints s"
  by (simp_all add: create_cron_def update_cron_def delete_cron_def Let_def split: option.split sum.split)

lemma commit_indexes:
  "s_idempotency (snd (commit_cron_occurrence lib app user sid v due nxt t s))
     \<in> {s_idempotency s, s_idempotency (snd (enqueue_locked lib t s))}"
  "s_fingerprints (snd (commit_cron_occurrence lib app user sid v due nxt t s))
     \<in> {s_fingerprints s, s_fingerprints (snd (enqueue_locked lib t s))}"
  by (simp_all add: commit_cron_occurrence_def Let_def case_prod_beta split: option.split sum.split)

lemma step_indexes:
  assumes inv: "store_inv s"
  shows "map_of (s_idempotency s) i = Some k \<Longrightarrow> map_of (s_idempotency (task_step lib op s)) i = Some k"
    and "map_of (s_fingerprints s) k = Some f \<Longrightarrow> map_of (s_fingerprints (task_step lib op s)) k = Some f"
proof -
  show "map_of (s_idempotency (task_step lib op s)) i = Some k" if i: "map_of (s_idempotency s) i = Some k"
  proof (cases op)
    case (Commit_Occurrence app user sid v due nxt t)
    with i enqueue_locked_indexes [OF inv i, of lib t] commit_indexes(1) [of lib app user sid v due nxt t s]
    show ?thesis by auto
  qed (use i enqueue_locked_indexes [OF inv i, of lib] in simp_all)
  show "map_of (s_fingerprints (task_step lib op s)) k = Some f" if f: "map_of (s_fingerprints s) k = Some f"
  proof (cases op)
    case (Commit_Occurrence app user sid v due nxt t)
    with f enqueue_locked_fp [OF inv f, of lib t] commit_indexes(2) [of lib app user sid v due nxt t s]
    show ?thesis by auto
  qed (use f enqueue_locked_fp [OF inv f, of lib] in simp_all)
qed

text \<open>What the store remembers of an accepted keyed submission.\<close>

definition admitted :: "task_store \<Rightarrow> string \<times> string \<times> string \<times> string \<Rightarrow> string \<times> string \<Rightarrow> string \<Rightarrow> bool" where
  "admitted s i k f \<longleftrightarrow> map_of (s_idempotency s) i = Some k \<and> map_of (s_fingerprints s) k = Some f"

lemma admitted_run: "store_inv s \<Longrightarrow> admitted s i k f \<Longrightarrow> admitted (task_run lib ops s) i k f"
  by (rule run_stable [where P = "\<lambda>_. True"])
    (auto simp: admitted_def list_all_iff intro: step_indexes)

lemma enqueue_admits:
  assumes inv: "store_inv s" and new: "task_at s (task_key r) = None" and keyed: "t_idempotency_key r \<noteq> None"
    and ok: "enqueue_task lib r s = (Inr q, s')"
  shows "\<exists>f. task_fingerprint lib r = Inr f \<and> admitted s' (task_identity r) (task_key q) f"
proof -
  have ok': "enqueue_locked lib r s = (Inr q, s')"
    using ok by (auto simp: enqueue_task_def split: prod.splits sum.splits)
  show ?thesis
  proof (cases "map_of (s_idempotency s) (task_identity r)")
    case None
    with ok' new keyed show ?thesis
      by (auto simp: enqueue_locked_def Let_def admitted_def split: sum.splits)
  next
    case (Some k)
    then obtain e where "task_at s k = Some e" using store_invD(5) [OF inv] by blast
    moreover from this have "task_key e = k" by (rule store_invD(3) [OF inv])
    ultimately show ?thesis using ok' Some
      by (auto simp: enqueue_locked_def Let_def admitted_def split: sum.splits option.splits if_splits)
  qed
qed

lemma enqueue_admitted:
  assumes inv: "store_inv s" and adm: "admitted s (task_identity r) k f" and fp: "task_fingerprint lib r = Inr f"
  obtains q where "task_at s k = Some q" "enqueue_task lib r s = (Inr q, s)"
proof -
  from adm have i: "map_of (s_idempotency s) (task_identity r) = Some k" by (simp add: admitted_def)
  then obtain q where q: "task_at s k = Some q" "task_identity q = task_identity r"
    using store_invD(5) [OF inv] by blast
  then have "t_user_id q = t_user_id r" by (simp add: task_identity_def)
  with q(1) i adm fp have "enqueue_task lib r s = (Inr q, s)"
    by (simp add: enqueue_task_def enqueue_locked_def Let_def admitted_def)
  with q(1) show ?thesis by (rule that)
qed

text \<open>
  C3. Deduplication outlives the job. Once a keyed submission is accepted, then after any
  operations (claims, retries, completion and the scrubbing of its payload, cancellation) a
  submission with the same identity and the same definition returns that job, whatever new job
  ID it carries, and changes nothing.
\<close>

theorem submission_deduplicated:
  assumes "store_inv s" and "task_at s (task_key r) = None" and "t_idempotency_key r \<noteq> None"
    and "enqueue_task lib r s = (Inr q, s1)"
    and "task_identity r' = task_identity r" and "task_fingerprint lib r' = task_fingerprint lib r"
  shows "\<exists>q'. enqueue_task lib r' (fold (task_step lib) ops s1) = (Inr q', fold (task_step lib) ops s1) \<and>
              task_key q' = task_key q"
proof -
  from enqueue_admits [OF assms(1-4)] obtain f where
    f: "task_fingerprint lib r = Inr f" "admitted s1 (task_identity r) (task_key q) f" by blast
  have s1: "store_inv s1"
    using task_step_inv [OF assms(1), of lib "Enqueue r"] assms(4) by (metis snd_conv task_step.simps(1))
  have s2: "store_inv (task_run lib ops s1)" by (rule run_inv [OF s1])
  have adm: "admitted (task_run lib ops s1) (task_identity r') (task_key q) f"
    using admitted_run [OF s1 f(2)] assms(5) by simp
  have "task_fingerprint lib r' = Inr f" using assms(6) f(1) by simp
  then obtain q' where q': "task_at (task_run lib ops s1) (task_key q) = Some q'"
    and res: "enqueue_task lib r' (task_run lib ops s1) = (Inr q', task_run lib ops s1)"
    by (rule enqueue_admitted [OF s2 adm])
  from store_invD(3) [OF s2 q'] res show ?thesis by blast
qed


section \<open>Leases\<close>


lemma claim_options_lease:
  "validate_claim_options now lease limit = None \<Longrightarrow> \<exists>a b. now = Fin a \<and> lease = Fin b \<and> 0 < b \<and> 1 \<le> limit"
  by (auto simp: validate_claim_options_def validate_limit_def isfinite_iff split: option.splits if_splits)

lemma claim_tasks_result:
  assumes "claim_tasks uuid app queues now lease limit s = (Inr claimed, s')"
  shows "validate_claim_options now lease limit = None" "0 < limit"
    "claimed = fst (claim_candidates uuid now lease limit (due_candidates app queues now s) [] s)"
    "s' = snd (claim_candidates uuid now lease limit (due_candidates app queues now s) [] s)"
  using assms by (auto simp: claim_tasks_def validate_claim_options_def validate_limit_def
      split: option.splits prod.splits if_splits)

text \<open>
  A claim returns exactly the first \<^verbatim>\<open>limit\<close> due jobs of the requested queues that have
  an attempt left, earliest schedule first, each as a new attempt under its own token.
\<close>

theorem claim_returns_earliest_due:
  assumes "claim_tasks uuid app queues now lease limit s = (Inr claimed, s')"
  shows "claimed = map (\<lambda>(i, r). claim_record r (uuid i) now lease)
           (enumerate 0 (take (nat limit) (filter (\<lambda>r. t_attempt r < t_max_retries r + 1)
             (due_candidates app queues now s)))) \<and>
         int (length claimed) \<le> limit \<and>
         sorted (map (\<lambda>r. (t_scheduled_at r, t_job_id r)) claimed)"
proof (intro conjI)
  note r = claim_tasks_result [OF assms]
  let ?sel = "take (nat limit) (filter attempts_left (due_candidates app queues now s))"
  let ?key = "\<lambda>r. (t_scheduled_at r, t_job_id r)"
  show eq: "claimed = map (\<lambda>(i, r). claim_record r (uuid i) now lease) (enumerate 0 ?sel)"
    using r(2) by (simp add: r(3) claim_candidates_claimed)
  then show "int (length claimed) \<le> limit" using r(2) by simp
  have "map ?key claimed = map ?key ?sel"
    unfolding eq using map_enumerate_snd [of ?key 0 ?sel] by (simp add: case_prod_beta o_def)
  moreover have "sorted (map ?key (filter attempts_left (due_candidates app queues now s)))"
    by (simp add: due_candidates_def filter_sort)
  ultimately show "sorted (map ?key claimed)" by (simp add: sorted_wrt_take flip: take_map)
qed

text \<open>
  Every claimed job is stored as returned, its worker owns the lease, and nobody else can
  claim it at that time.
\<close>

theorem claimed_jobs_leased:
  assumes inv: "store_inv s" and claim: "claim_tasks uuid app queues now lease limit s = (Inr claimed, s')"
    and r: "r \<in> set claimed"
  shows "task_at s' (task_key r) = Some r \<and> \<not> is_due r now \<and>
         (\<exists>i. t_lease_token r = Some (uuid i) \<and> owns_lease (Some r) (uuid i) now)"
proof (intro conjI)
  note c = claim_tasks_result [OF claim]
  show "task_at s' (task_key r) = Some r"
    using claim_candidates_stored [OF due_candidates_distinct [OF inv], of "[]"] r by (simp add: c(3,4))
  obtain a b where ab: "now = Fin a" "lease = Fin b" "0 < b"
    using claim_options_lease [OF c(1)] by blast
  obtain i q where q: "r = claim_record q (uuid i) now lease"
    using r c(2) by (auto simp: c(3) claim_candidates_claimed)
  show "\<not> is_due r now" using ab by (simp add: q is_due_def claim_record_def)
  show "\<exists>i. t_lease_token r = Some (uuid i) \<and> owns_lease (Some r) (uuid i) now"
    using ab by (auto simp: q owns_lease_def claim_record_def)
qed

text \<open>
  A claim that comes back with fewer jobs than asked leaves no due work behind: every
  candidate is now running under a new lease or, its attempts spent, failed; so no job
  of these queues is due any more.
\<close>

theorem short_claim_drains:
  assumes inv: "store_inv s" and claim: "claim_tasks uuid app queues now lease limit s = (Inr claimed, s')"
    and short: "int (length claimed) < limit"
    and r: "task_at s' k = Some r" "t_application_id r = app" "t_queue r \<in> set queues"
  shows "\<not> is_due r now"
proof
  assume due: "is_due r now"
  note c = claim_tasks_result [OF claim]
  let ?cs = "due_candidates app queues now s"
  obtain a b where ab: "now = Fin a" "lease = Fin b" "0 < b"
    using claim_options_lease [OF c(1)] by blast
  have inv': "store_inv s'" using claim_tasks_inv [OF inv, of uuid app queues now lease limit] claim by simp
  have key: "task_key r = k" by (rule store_invD(3) [OF inv' r(1)])
  show False
  proof (cases "k \<in> task_key ` set ?cs")
    case True
    then obtain q where "q \<in> set ?cs" "task_key q = k" by blast
    with claim_candidates_exhausts [OF due_candidates_distinct [OF inv] short [unfolded c(3)], of q]
    have "settled now lease q r" using r(1) c(4) by auto
    with due ab show False
      by (auto simp: settled_def is_due_def claim_record_def terminal_task_def split: if_splits)
  next
    case False
    then have "task_at s k = Some r"
      using r(1) claim_candidates_frame [OF False, of uuid now lease limit "[]" s] by (simp add: c(4))
    then have "r \<in> set (map snd (s_tasks s))"
      using dict_values_iff [OF store_invD(1) [OF inv]] by blast
    with due r have "r \<in> set ?cs" by (simp add: due_candidates_def)
    with False key show False by blast
  qed
qed


section \<open>Schedules\<close>

lemma schedule_advances:
  assumes "store_inv s" and "cron_at s k = Some c" and "list_all (keeps_schedule k) ops"
  shows "\<exists>c'. cron_at (task_run lib ops s) k = Some c' \<and> cron_advance c c'"
proof (rule run_stable [where Q = "\<lambda>t. \<exists>c'. cron_at t k = Some c' \<and> cron_advance c c'", OF assms(1) _ assms(3)])
  show "\<exists>c'. cron_at s k = Some c' \<and> cron_advance c c'" using assms(2) by simp
  show "\<exists>c'. cron_at (task_step lib op t) k = Some c' \<and> cron_advance c c'"
    if "store_inv t" "keeps_schedule k op" "\<exists>c'. cron_at t k = Some c' \<and> cron_advance c c'" for t op
    using that task_step_cron_advance [OF that(1) _ that(2)] by (blast intro: cron_advance_trans)
qed

text \<open>
  Schedules change by compare-and-swap only: as long as nobody deletes it, a schedule keeps
  its identity and target over any operations, its revision never decreases and grows with
  every change, and a cancelled schedule stays cancelled. So an unchanged revision means an
  unchanged record.
\<close>

theorem schedule_compare_and_swap:
  assumes "store_inv s" and "cron_at s k = Some c" and "list_all (keeps_schedule k) ops"
  shows "\<exists>c'. cron_at (fold (task_step lib) ops s) k = Some c' \<and> cron_advance c c'"
  using assms by (rule schedule_advances)


text \<open>
  In every reachable state the defensive errors of the provider are dead code: a
  submission never finds its own key taken behind the deduplication index or a job without
  a fingerprint, and deleting a schedule never misses its authored key.
\<close>

theorem dead_error_branches:
  fixes lib ops
  defines "s \<equiv> fold (task_step lib) ops empty_task_store"
  shows "fst (enqueue_task lib r s) \<noteq> Inl (TaskStoreConflictError ''task ID already exists'') \<and>
         fst (enqueue_task lib r s) \<noteq> Inl (KeyError ''task fingerprint'') \<and>
         (\<exists>b. fst (delete_cron app user sid s) = Inr b)"
proof (intro conjI)
  have inv: "store_inv s" unfolding s_def by (rule ts.inv_run) (simp add: list_all_iff)
  have fp: "task_fingerprint lib r \<noteq> Inl (TaskStoreConflictError m)"
    "task_fingerprint lib r \<noteq> Inl (KeyError m)" for m
  proof -
    have json: "json_dumps lib v \<noteq> Inl (TaskStoreConflictError m) \<and> json_dumps lib v \<noteq> Inl (KeyError m)"
      "json_list lib vs \<noteq> Inl (TaskStoreConflictError m) \<and> json_list lib vs \<noteq> Inl (KeyError m)"
      "json_items lib kvs \<noteq> Inl (TaskStoreConflictError m) \<and> json_items lib kvs \<noteq> Inl (KeyError m)"
      for v vs kvs
      by (induction lib v and lib vs and lib kvs rule: json_dumps_json_list_json_items.induct)
        (auto split: sum.split pyval.split pyfloat.split)
    show "task_fingerprint lib r \<noteq> Inl (TaskStoreConflictError m)" "task_fingerprint lib r \<noteq> Inl (KeyError m)"
      using json by (simp_all only: task_fingerprint_def Let_def split: sum.split) blast+
  qed
  let ?slot = "enqueue_slot s r"
  have slot: "map_of (s_fingerprints s) ?slot \<noteq> None" if "task_at s ?slot \<noteq> None"
    using that store_invD(4) [OF inv, of ?slot] by simp
  have free: "task_at s (task_key r) = None" if "task_at s ?slot = None"
    using that enqueue_target(2) [OF inv that refl] by simp
  show "fst (enqueue_task lib r s) \<noteq> Inl (TaskStoreConflictError ''task ID already exists'')"
    using fp free by (cases "task_at s ?slot") (auto simp: enqueue_task_def enqueue_locked_def Let_def split: sum.split option.split)
  show "fst (enqueue_task lib r s) \<noteq> Inl (KeyError ''task fingerprint'')"
    using fp slot by (cases "task_at s ?slot") (auto simp: enqueue_task_def enqueue_locked_def Let_def split: sum.split option.split)
  show "\<exists>b. fst (delete_cron app user sid s) = Inr b"
    using store_invD(6) [OF inv, of "(app, sid)"] by (auto simp: delete_cron_def Let_def split: option.split)
qed


section \<open>Witnesses\<close>

text \<open>
  A worked queue: one keyed job, claimed at time 1 under the token \<open>tok\<close>, completed at time
  2; and a schedule with one committed occurrence. The theorems above are applied to it.
\<close>

definition sample_task :: task_record where
  "sample_task = (new_task ''j'' ''app'' ''u'' ''t'' ''q'' (PyDict [(PyStr ''x'', PyInt 1)]))
     \<lparr>t_idempotency_key := Some ''k''\<rparr>"

definition sample_claim :: task_op where
  "sample_claim = Claim (\<lambda>_. ''tok'') ''app'' [''q''] (Fin 1) (Fin 30) 5"

definition sample_finish :: task_op where
  "sample_finish = Finish ''app'' ''j'' ''tok'' (Fin 2) ''completed'' (PyInt 7) None None"

definition sample_queued :: task_store where
  "sample_queued = snd (enqueue_task sample_lib sample_task empty_task_store)"

definition sample_running :: task_store where
  "sample_running = task_step sample_lib sample_claim sample_queued"

definition sample_done :: task_store where
  "sample_done = task_step sample_lib sample_finish sample_running"

definition sample_cron :: cron_record where
  "sample_cron = \<lparr>c_schedule_id = ''s'', c_application_id = ''app'', c_user_id = ''u'', c_key = ''key'',
     c_expression = ''* * * * *'', c_task_name = ''t'', c_arguments = PyDict [], c_next_run_at = Fin 60,
     c_status = ''active'', c_revision = 0, c_timezone = ''UTC'', c_created_at = Fin 0, c_updated_at = Fin 0,
     c_max_runs = None, c_max_consecutive_failures = None, c_run_count = 0, c_consecutive_failures = 0\<rparr>"

definition sample_occurrence :: task_record where
  "sample_occurrence = (new_task ''o'' ''app'' ''u'' ''t'' ''q'' (PyDict []))\<lparr>t_cron_schedule_id := Some ''s''\<rparr>"

definition sample_scheduled :: task_store where
  "sample_scheduled = snd (create_cron sample_lib sample_cron empty_task_store)"

definition sample_committed :: task_store where
  "sample_committed = snd (commit_cron_occurrence sample_lib ''app'' ''u'' ''s'' 0 (Fin 60) (Fin 120)
     sample_occurrence sample_scheduled)"

lemma sample_inv: "store_inv sample_queued" "store_inv sample_running" "store_inv sample_done"
  "store_inv sample_scheduled" "store_inv sample_committed"
  by (simp_all add: sample_queued_def sample_running_def sample_done_def sample_scheduled_def sample_committed_def
      store_inv_empty enqueue_locked_inv task_step_inv create_cron_inv commit_cron_occurrence_inv)

theorem stored_jobs_well_formed_witness:
  "\<exists>r. task_at (fold (task_step sample_lib) [Enqueue sample_task, sample_claim] empty_task_store) (''app'', ''j'')
         = Some r \<and> task_wf r"
proof -
  let ?ops = "[Enqueue sample_task, sample_claim]"
  have "list_all fresh_op ?ops"
    by (simp add: fresh_op_def submitted_def sample_claim_def sample_task_def new_task_def fresh_task_def)
  moreover have "\<exists>r. task_at (fold (task_step sample_lib) ?ops empty_task_store) (''app'', ''j'') = Some r"
    by (rule not_None_eq [THEN iffD1]) code_simp
  ultimately show ?thesis using stored_jobs_well_formed by blast
qed

theorem terminal_job_frozen_witness:
  "\<exists>r. t_status r = ''completed'' \<and>
     task_at (fold (task_step sample_lib) [sample_claim, Cancel ''app'' ''u'' ''j'' (Fin 9)] sample_done) (''app'', ''j'') = Some r"
proof -
  have "map_option t_status (task_at sample_done (''app'', ''j'')) = Some ''completed''" by code_simp
  then obtain r where r: "task_at sample_done (''app'', ''j'') = Some r" "t_status r = ''completed''" by auto
  then have "terminal_status (t_status r)" by (simp add: terminal_status_def)
  from terminal_job_frozen [OF sample_inv(3) r(1) this] r(2) show ?thesis by blast
qed

theorem submission_deduplicated_witness:
  "\<exists>q. enqueue_task sample_lib (sample_task\<lparr>t_job_id := ''other''\<rparr>)
         (fold (task_step sample_lib) [sample_claim, sample_finish] sample_queued)
       = (Inr q, fold (task_step sample_lib) [sample_claim, sample_finish] sample_queued) \<and>
     task_key q = task_key sample_task"
proof (rule submission_deduplicated [OF store_inv_empty])
  show "task_at empty_task_store (task_key sample_task) = None" by code_simp
  show "t_idempotency_key sample_task \<noteq> None" by code_simp
  show "enqueue_task sample_lib sample_task empty_task_store = (Inr sample_task, sample_queued)" by code_simp
  show "task_identity (sample_task\<lparr>t_job_id := ''other''\<rparr>) = task_identity sample_task" by code_simp
  show "task_fingerprint sample_lib (sample_task\<lparr>t_job_id := ''other''\<rparr>) = task_fingerprint sample_lib sample_task"
    by code_simp
qed


theorem claim_returns_earliest_due_witness:
  "[claim_record sample_task ''tok'' (Fin 1) (Fin 30)] = map (\<lambda>(i, r). claim_record r ''tok'' (Fin 1) (Fin 30))
     (enumerate 0 (take (nat 5) (filter (\<lambda>r. t_attempt r < t_max_retries r + 1)
       (due_candidates ''app'' [''q''] (Fin 1) sample_queued))))"
proof -
  have c: "claim_tasks (\<lambda>_. ''tok'') ''app'' [''q''] (Fin 1) (Fin 30) 5 sample_queued
      = (Inr [claim_record sample_task ''tok'' (Fin 1) (Fin 30)], sample_running)" by code_simp
  show ?thesis by (rule claim_returns_earliest_due [OF c, THEN conjunct1])
qed

theorem claimed_jobs_leased_witness:
  "\<not> is_due (claim_record sample_task ''tok'' (Fin 1) (Fin 30)) (Fin 1)"
proof -
  have "claim_tasks (\<lambda>_. ''tok'') ''app'' [''q''] (Fin 1) (Fin 30) 5 sample_queued
      = (Inr [claim_record sample_task ''tok'' (Fin 1) (Fin 30)], sample_running)" by code_simp
  from claimed_jobs_leased [OF sample_inv(1) this, of "claim_record sample_task ''tok'' (Fin 1) (Fin 30)"]
  show ?thesis by simp
qed

theorem short_claim_drains_witness:
  "\<exists>r. task_at sample_running (''app'', ''j'') = Some r \<and> \<not> is_due r (Fin 1)"
proof -
  have c: "claim_tasks (\<lambda>_. ''tok'') ''app'' [''q''] (Fin 1) (Fin 30) 5 sample_queued
      = (Inr [claim_record sample_task ''tok'' (Fin 1) (Fin 30)], sample_running)" by code_simp
  have "task_at sample_running (''app'', ''j'') = Some (claim_record sample_task ''tok'' (Fin 1) (Fin 30))" by code_simp
  moreover from short_claim_drains [OF sample_inv(1) c _ this]
  have "\<not> is_due (claim_record sample_task ''tok'' (Fin 1) (Fin 30)) (Fin 1)"
    by (simp add: claim_record_def sample_task_def new_task_def)
  ultimately show ?thesis by blast
qed

theorem schedule_compare_and_swap_witness:
  "\<exists>c. cron_at (fold (task_step sample_lib)
         [Commit_Occurrence ''app'' ''u'' ''s'' 0 (Fin 60) (Fin 120) sample_occurrence] sample_scheduled) (''app'', ''s'')
         = Some c \<and> cron_advance sample_cron c"
proof (rule schedule_compare_and_swap [OF sample_inv(4)])
  show "cron_at sample_scheduled (''app'', ''s'') = Some sample_cron" by code_simp
qed (simp add: keeps_schedule_def)


end
