(* ===== verification/Json_Value.thy ===== *)
theory Json_Value
  imports Task_Records
begin

text \<open>
  \<^verbatim>\<open>_json.py\<close>: the one place where a result or a durable state becomes JSON. A value that
  reaches it is a tree of Python objects; a container, a dataclass and a model carry the
  identity \<^verbatim>\<open>id(owner)\<close> that the cycle check compares, so a cyclic object is its unrolling
  down to the first repetition. What \<^verbatim>\<open>model_dump(mode="json")\<close> of a third-party model returns is
  part of the tree: an object, an array, a text, or another scalar.
\<close>

datatype source =
    SNone
  | SBool bool
  | SInt int
  | SFloat pyfloat
  | SStr string
  | SDecimal string
  | STime string
  | SPath string
  | SEnum source
  | SModel nat dump
  | SDataclass nat "(string \<times> source) list"
  | SMapping nat "(source \<times> source) list"
  | SList nat "source list"
  | STuple nat "source list"
  | SOther string string
  and dump = DObject "(string \<times> source) list" | DArray "source list" | DText string | DScalar string

text \<open>The type of a value by name, for the two messages that quote it.\<close>

fun type_name :: "source \<Rightarrow> string" where
  "type_name SNone = ''NoneType''" | "type_name (SBool _) = ''bool''" | "type_name (SInt _) = ''int''"
| "type_name (SFloat _) = ''float''" | "type_name (SStr _) = ''str''" | "type_name (SDecimal _) = ''Decimal''"
| "type_name (STime _) = ''datetime''" | "type_name (SPath _) = ''PosixPath''" | "type_name (SEnum _) = ''Enum''"
| "type_name (SModel _ _) = ''model''" | "type_name (SDataclass _ _) = ''dataclass''"
| "type_name (SMapping _ _) = ''dict''" | "type_name (SList _ _) = ''list''" | "type_name (STuple _ _) = ''tuple''"
| "type_name (SOther n _) = n"

text \<open>\<open>None\<close> is the sentinel \<^verbatim>\<open>_NOT_SCALAR\<close>.\<close>

definition scalar_value :: "source \<Rightarrow> (exc + pyval) option" where
  "scalar_value v = (case v of
       SNone \<Rightarrow> Some (Inr PyNone)
     | SStr s \<Rightarrow> Some (Inr (PyStr s))
     | SInt i \<Rightarrow> Some (Inr (PyInt i))
     | SBool b \<Rightarrow> Some (Inr (PyBool b))
     | SFloat x \<Rightarrow> Some (if \<not> isfinite x then Inl (TypeError ''JSON numbers must be finite'') else Inr (PyFloat x))
     | SDecimal s \<Rightarrow> Some (Inr (PyStr s))
     | STime s \<Rightarrow> Some (Inr (PyStr s))
     | SPath s \<Rightarrow> Some (Inr (PyStr s))
     | _ \<Rightarrow> None)"

fun is_text :: "source \<Rightarrow> bool" where
  "is_text (SStr _) = True"
| "is_text _ = False"

definition mapping_contents :: "(source \<times> source) list \<Rightarrow> exc + unit" where
  "mapping_contents kvs = (case find (\<lambda>kv. \<not> is_text (fst kv)) kvs of
       Some kv \<Rightarrow> Inl (TypeError (''JSON object keys must be strings; got '' @ type_name (fst kv)))
     | None \<Rightarrow> Inr ())"

definition recursion_error :: exc where
  "recursion_error = TypeError ''recursive values cannot cross a JSON boundary''"

function (sequential) normalize :: "bool \<Rightarrow> nat set \<Rightarrow> source \<Rightarrow> exc + pyval"
  and normalize_list :: "bool \<Rightarrow> nat set \<Rightarrow> source list \<Rightarrow> exc + pyval list"
  and normalize_items :: "bool \<Rightarrow> nat set \<Rightarrow> (string \<times> source) list \<Rightarrow> exc + (pyval \<times> pyval) list"
  and normalize_mapping :: "bool \<Rightarrow> nat set \<Rightarrow> (source \<times> source) list \<Rightarrow> exc + (pyval \<times> pyval) list" where
  "normalize str active (SEnum v) = normalize str active v"
| "normalize str active (SModel i d) =
     (if i \<in> active then Inl recursion_error else (case d of
        DObject kvs \<Rightarrow> map_sum id PyDict (normalize_items str (insert i active) kvs)
      | DArray vs \<Rightarrow> map_sum id PyList (normalize_list str (insert i active) vs)
      | DText s \<Rightarrow> Inr (PyList (map (\<lambda>c. PyStr [c]) s))
      | DScalar n \<Rightarrow> Inl (TypeError (n @ '' object is not iterable''))))"
| "normalize str active (SDataclass i kvs) =
     (if i \<in> active then Inl recursion_error
      else map_sum id PyDict (normalize_items str (insert i active) kvs))"
| "normalize str active (SMapping i kvs) = (case mapping_contents kvs of Inl e \<Rightarrow> Inl e
      | Inr _ \<Rightarrow> if i \<in> active then Inl recursion_error
                 else map_sum id PyDict (normalize_mapping str (insert i active) kvs))"
| "normalize str active (SList i vs) =
     (if i \<in> active then Inl recursion_error
      else map_sum id PyList (normalize_list str (insert i active) vs))"
| "normalize str active (STuple i vs) =
     (if i \<in> active then Inl recursion_error
      else map_sum id PyList (normalize_list str (insert i active) vs))"
| "normalize str active (SOther n text) =
     (if str then Inr (PyStr text) else Inl (TypeError (''unsupported JSON value type '' @ n @
        ''; return JSON values, a dataclass, or a model with model_dump()'')))"
| "normalize str active v = (case scalar_value v of Some r \<Rightarrow> r | None \<Rightarrow> Inr PyNone)"
| "normalize_list str active [] = Inr []"
| "normalize_list str active (v # vs) = (case normalize str active v of Inl e \<Rightarrow> Inl e
     | Inr w \<Rightarrow> (case normalize_list str active vs of Inl e \<Rightarrow> Inl e | Inr ws \<Rightarrow> Inr (w # ws)))"
| "normalize_items str active [] = Inr []"
| "normalize_items str active ((k, v) # kvs) = (case normalize str active v of Inl e \<Rightarrow> Inl e
     | Inr w \<Rightarrow> (case normalize_items str active kvs of Inl e \<Rightarrow> Inl e | Inr ws \<Rightarrow> Inr ((PyStr k, w) # ws)))"
| "normalize_mapping str active [] = Inr []"
| "normalize_mapping str active ((k, v) # kvs) = (case normalize str active v of Inl e \<Rightarrow> Inl e
     | Inr w \<Rightarrow> (case normalize_mapping str active kvs of Inl e \<Rightarrow> Inl e
         | Inr ws \<Rightarrow> Inr (((case k of SStr s \<Rightarrow> PyStr s | _ \<Rightarrow> PyNone), w) # ws)))"
  by pat_completeness auto
termination
  by (relation "measure (case_sum
       (case_sum (\<lambda>(s, a, v). size v) (\<lambda>(s, a, vs). size_list size vs))
       (case_sum (\<lambda>(s, a, kvs). size_list (size_prod (\<lambda>_. 0) size) kvs)
                 (\<lambda>(s, a, kvs). size_list (size_prod size size) kvs)))") auto

definition json_value_of :: "string \<Rightarrow> source \<Rightarrow> exc + pyval" where
  "json_value_of unsupported v =
     (if unsupported \<notin> {''error'', ''string''}
      then Inl (ValueError ''unsupported JSON policy must be error or string'')
      else normalize (unsupported = ''string'') {} v)"


section \<open>Values that are JSON\<close>

fun is_json :: "pyval \<Rightarrow> bool" where
  "is_json (PyFloat x) = isfinite x"
| "is_json (PyList vs) = (\<forall>v\<in>set vs. is_json v)"
| "is_json (PyDict kvs) = (\<forall>kv\<in>set kvs. (case fst kv of PyStr _ \<Rightarrow> True | _ \<Rightarrow> False) \<and> is_json (snd kv))"
| "is_json (PyTuple vs) = False"
| "is_json (PyObject n) = False"
| "is_json _ = True"

lemma is_text_iff: "is_text k \<longleftrightarrow> (\<exists>s. k = SStr s)"
  by (cases k) auto

lemma mapping_contents_ok: "mapping_contents kvs = Inr u \<Longrightarrow> \<forall>kv\<in>set kvs. is_text (fst kv)"
  by (auto simp: mapping_contents_def find_None_iff split: option.splits)

lemma map_sum_Inr [simp]: "map_sum id f x = Inr w \<longleftrightarrow> (\<exists>y. x = Inr y \<and> w = f y)"
  by (cases x) auto

lemma normalize_json_aux:
  shows "normalize str active v = Inr w \<Longrightarrow> is_json w"
    and "normalize_list str active vs = Inr ws \<Longrightarrow> is_json (PyList ws)"
    and "normalize_items str active kvs = Inr ps \<Longrightarrow> is_json (PyDict ps)"
    and "normalize_mapping str active ms = Inr qs \<Longrightarrow> (\<forall>kv\<in>set ms. is_text (fst kv)) \<Longrightarrow> is_json (PyDict qs)"
proof (induction str active v and str active vs and str active kvs and str active ms
    arbitrary: w and ws and ps and qs
    rule: normalize_normalize_list_normalize_items_normalize_mapping.induct)
  case (2 str active i d)
  then show ?case
    by (cases d) (auto split: if_splits sum.splits simp: map_sum_def)
next
  case (4 str active i kvs)
  then show ?case
    by (cases "normalize_mapping str (insert i active) kvs")
      (auto split: if_splits sum.splits dest: mapping_contents_ok)
next
  case (10 str active v vs)
  then show ?case by (cases "normalize str active v"; cases "normalize_list str active vs") auto
next
  case (12 str active k v kvs)
  then show ?case by (cases "normalize str active v"; cases "normalize_items str active kvs") fastforce+
next
  case (14 str active k v kvs)
  then show ?case
    by (cases "normalize str active v"; cases "normalize_mapping str active kvs"; cases k) fastforce+
qed (auto simp: scalar_value_def split: if_splits sum.splits)


lemma is_json_dumps:
  shows "is_json v \<Longrightarrow> \<exists>t. json_dumps lib v = Inr t"
    and "is_json (PyList vs) \<Longrightarrow> \<exists>ts. json_list lib vs = Inr ts"
    and "is_json (PyDict kvs) \<Longrightarrow> \<exists>ps. json_items lib kvs = Inr ps"
proof (induction lib v and lib vs and lib kvs rule: json_dumps_json_list_json_items.induct)
  case (4 lib x)
  then show ?case by (auto simp: isfinite_iff)
next
  case (13 lib k v kvs)
  then show ?case by (cases k; cases "json_dumps lib v"; cases "json_items lib kvs") auto
qed auto


section \<open>Normalizing a dynamic value\<close>

text \<open>
  The stores hand their dynamic values to \<^verbatim>\<open>json_value\<close> in its strict mode. A dynamic value is
  an acyclic tree: \<open>source_of\<close> gives each container the identity of its depth.
\<close>

function (sequential) source_of :: "nat \<Rightarrow> pyval \<Rightarrow> source" where
  "source_of n PyNone = SNone"
| "source_of n (PyBool b) = SBool b"
| "source_of n (PyInt i) = SInt i"
| "source_of n (PyFloat x) = SFloat x"
| "source_of n (PyStr s) = SStr s"
| "source_of n (PyList vs) = SList n (map (source_of (Suc n)) vs)"
| "source_of n (PyTuple vs) = STuple n (map (source_of (Suc n)) vs)"
| "source_of n (PyDict kvs) = SMapping n (map (\<lambda>kv. (source_of (Suc n) (fst kv), source_of (Suc n) (snd kv))) kvs)"
| "source_of n (PyObject name) = SOther name name"
  by pat_completeness auto
termination
proof (relation "measure (\<lambda>(n, v). size v)")
  show "\<And>n kvs kv. kv \<in> set kvs \<Longrightarrow> ((Suc n, fst kv), n, PyDict kvs) \<in> measure (\<lambda>(n, v). size v)"
    by (auto dest!: size_list_estimation' [where f = "size_prod size size", OF _ order_refl])
  show "\<And>n kvs kv. kv \<in> set kvs \<Longrightarrow> ((Suc n, snd kv), n, PyDict kvs) \<in> measure (\<lambda>(n, v). size v)"
    by (auto dest!: size_list_estimation' [where f = "size_prod size size", OF _ order_refl])
qed (auto dest!: size_list_estimation' [where f = size, OF _ order_refl])

definition json_value :: "pyval \<Rightarrow> exc + pyval" where
  "json_value v = json_value_of ''error'' (source_of 0 v)"

lemma json_value_json: "json_value v = Inr w \<Longrightarrow> is_json w"
  by (simp add: json_value_def json_value_of_def normalize_json_aux(1))

lemma json_value_None [simp]: "json_value PyNone = Inr PyNone"
  by (simp add: json_value_def json_value_of_def scalar_value_def)

lemma normalize_list_map:
  assumes "\<And>v. v \<in> set vs \<Longrightarrow> normalize str active (f v) = Inr v"
  shows "normalize_list str active (map f vs) = Inr vs"
  using assms by (induction vs) simp_all

lemma normalize_mapping_map:
  assumes "\<And>kv. kv \<in> set kvs \<Longrightarrow> (\<exists>s. f (fst kv) = SStr s \<and> fst kv = PyStr s) \<and> normalize str active (f (snd kv)) = Inr (snd kv)"
  shows "normalize_mapping str active (map (\<lambda>kv. (f (fst kv), f (snd kv))) kvs) = Inr kvs"
  using assms
proof (induction kvs)
  case (Cons kv kvs)
  then show ?case by (cases kv) force
qed simp

lemma mapping_contents_map:
  assumes "\<And>kv. kv \<in> set kvs \<Longrightarrow> is_text (f (fst kv))"
  shows "mapping_contents (map (\<lambda>kv. (f (fst kv), f (snd kv))) kvs) = Inr ()"
proof -
  have "find (\<lambda>kv. \<not> is_text (fst kv)) (map (\<lambda>kv. (f (fst kv), f (snd kv))) kvs) = None"
    using assms by (auto simp: find_None_iff)
  then show ?thesis by (simp add: mapping_contents_def)
qed

lemma normalize_json_id:
  assumes "is_json w" "\<forall>i\<in>active. i < n"
  shows "normalize str active (source_of n w) = Inr w"
  using assms
proof (induction w arbitrary: n active rule: is_json.induct)
  case (2 vs)
  then have "normalize_list str (insert n active) (map (source_of (Suc n)) vs) = Inr vs"
    by (intro normalize_list_map) (auto simp: less_Suc_eq)
  with 2 show ?case by auto
next
  case (3 kvs)
  have keys: "\<exists>s. fst kv = PyStr s" if "kv \<in> set kvs" for kv
    using "3.prems"(1) that by (cases "fst kv") auto
  have "normalize_mapping str (insert n active)
      (map (\<lambda>kv. (source_of (Suc n) (fst kv), source_of (Suc n) (snd kv))) kvs) = Inr kvs"
  proof (rule normalize_mapping_map)
    fix kv assume kv: "kv \<in> set kvs"
    then have "normalize str (insert n active) (source_of (Suc n) (snd kv)) = Inr (snd kv)"
      using "3.prems" by (intro "3.IH") (auto simp: less_Suc_eq)
    with keys [OF kv] show "(\<exists>s. source_of (Suc n) (fst kv) = SStr s \<and> fst kv = PyStr s) \<and>
        normalize str (insert n active) (source_of (Suc n) (snd kv)) = Inr (snd kv)" by auto
  qed
  moreover have "mapping_contents (map (\<lambda>kv. (source_of (Suc n) (fst kv), source_of (Suc n) (snd kv))) kvs) = Inr ()"
    using keys by (intro mapping_contents_map) force
  ultimately show ?case using "3.prems"(2) by auto
qed (auto simp: scalar_value_def)

lemma json_value_id: "is_json w \<Longrightarrow> json_value w = Inr w"
  by (simp add: json_value_def json_value_of_def normalize_json_id)

lemma json_value_dict:
  assumes "json_value (PyDict kvs) = Inr w"
  shows "\<exists>ps. w = PyDict ps"
  using assms by (auto simp: json_value_def json_value_of_def map_sum_def split: sum.splits if_splits)

end
