(* ===== verification/Continuation_Records.thy ===== *)
theory Continuation_Records
  imports Json_Value
begin

text \<open>
  The records of a durable wait and their validation at construction
  (\<^verbatim>\<open>continuation.py\<close>, \<^verbatim>\<open>durable.py\<close>, the grants of \<^verbatim>\<open>agent_principal.py\<close>). A dataclass
  with a \<^verbatim>\<open>__post_init__\<close> is a record and a \<open>check_...\<close> function that returns the exception
  the constructor raises; \<^verbatim>\<open>dataclasses.replace\<close> runs the constructor again.
\<close>

section \<open>Identifiers\<close>

definition lower_case :: "char \<Rightarrow> bool" where
  "lower_case c \<longleftrightarrow> (let n = of_char c :: nat in 97 \<le> n \<and> n \<le> 122)"

definition upper_case :: "char \<Rightarrow> bool" where
  "upper_case c \<longleftrightarrow> (let n = of_char c :: nat in 65 \<le> n \<and> n \<le> 90)"

definition digit :: "char \<Rightarrow> bool" where
  "digit c \<longleftrightarrow> (let n = of_char c :: nat in 48 \<le> n \<and> n \<le> 57)"

definition alnum :: "char \<Rightarrow> bool" where
  "alnum c \<longleftrightarrow> lower_case c \<or> upper_case c \<or> digit c"

text \<open>\<^verbatim>\<open>fullmatch\<close> of a pattern \<^verbatim>\<open>^[first][rest]{0,n}$\<close>.\<close>

definition matches :: "(char \<Rightarrow> bool) \<Rightarrow> (char \<Rightarrow> bool) \<Rightarrow> nat \<Rightarrow> string \<Rightarrow> bool" where
  "matches first rest n s = (case s of [] \<Rightarrow> False | c # cs \<Rightarrow> first c \<and> list_all rest cs \<and> length cs \<le> n)"

definition name_pattern :: "string \<Rightarrow> bool" where
  "name_pattern s = matches lower_case (\<lambda>c. lower_case c \<or> digit c \<or> c \<in> set ''_.-'') 127 s"

definition schema_pattern :: "string \<Rightarrow> bool" where
  "schema_pattern s = matches alnum (\<lambda>c. alnum c \<or> c \<in> set ''_.:/+-'') 255 s"

definition identifier_pattern :: "string \<Rightarrow> bool" where
  "identifier_pattern s = matches alnum (\<lambda>c. alnum c \<or> c \<in> set ''._:/+-'') 255 s"

definition native_identifier_pattern :: "string \<Rightarrow> bool" where
  "native_identifier_pattern s = matches alnum (\<lambda>c. alnum c \<or> c \<in> set ''._:/+-'') 2047 s"

definition permission_pattern :: "string \<Rightarrow> bool" where
  "permission_pattern s = matches (\<lambda>c. lower_case c \<or> upper_case c) (\<lambda>c. alnum c \<or> c \<in> set ''._:-'') 127 s"

text \<open>A check returns the exception raised, if any; \<open>check_all\<close> is a sequence of them.\<close>

fun check_all :: "exc option list \<Rightarrow> exc option" where
  "check_all [] = None"
| "check_all (None # cs) = check_all cs"
| "check_all (Some e # cs) = Some e"

lemma check_all_None [simp]: "check_all cs = None \<longleftrightarrow> (\<forall>c\<in>set cs. c = None)"
  by (induction cs rule: check_all.induct) auto

definition require :: "bool \<Rightarrow> exc \<Rightarrow> exc option" where
  "require ok e = (if ok then None else Some e)"

lemma require_None [simp]: "require ok e = None \<longleftrightarrow> ok"
  by (simp add: require_def)

definition require_name :: "string \<Rightarrow> string \<Rightarrow> exc option" where
  "require_name value name = require (name_pattern value) (ValueError (name @ '' must be a lowercase stable identifier''))"

definition require_text :: "string \<Rightarrow> string \<Rightarrow> exc option" where
  "require_text value name = require (\<not> blank value) (ValueError (name @ '' must be a non-empty string''))"

definition require_external_id :: "string \<Rightarrow> exc option" where
  "require_external_id value = check_all [require_text value ''external_id'',
     require (length value \<le> 1024) (ValueError ''external_id cannot exceed 1024 characters'')]"

definition require_continuation_page :: "string option \<Rightarrow> int \<Rightarrow> exc option" where
  "require_continuation_page after limit = check_all
     [case after of None \<Rightarrow> None | Some a \<Rightarrow> require_text a ''after'',
      require (1 \<le> limit \<and> limit \<le> 1000) (ValueError ''continuation list limit must be between 1 and 1000'')]"

definition external_id_key :: "pylib \<Rightarrow> string \<Rightarrow> string \<Rightarrow> exc + string" where
  "external_id_key lib provider external_id =
     (case check_all [require_name provider ''provider'', require_external_id external_id] of
        Some e \<Rightarrow> Inl e
      | None \<Rightarrow> Inr (sha256_hex lib (provider @ [CHR 0x00] @ external_id)))"

lemma pattern_no_nul:
  assumes "name_pattern s"
  shows "CHR 0x00 \<notin> set s"
proof -
  obtain c cs where s: "s = c # cs" "lower_case c"
      "\<forall>d\<in>set cs. lower_case d \<or> digit d \<or> d \<in> set ''_.-''"
    using assms unfolding name_pattern_def matches_def list_all_iff by (cases s) auto
  have "\<not> lower_case (CHR 0x00)" "\<not> digit (CHR 0x00)"
    by (simp_all add: lower_case_def digit_def)
  with s show ?thesis by auto
qed


section \<open>Run ownership\<close>

record run_scope =
  sc_application_id :: string
  sc_user_id :: string
  sc_session_id :: string
  sc_run_id :: string

definition require_fields :: "string list \<Rightarrow> exc option" where
  "require_fields values = require (list_all (\<lambda>v. \<not> blank v) values)
     (ValueError ''checkpoint run identifiers must be non-empty strings'')"

definition check_run_scope :: "run_scope \<Rightarrow> exc option" where
  "check_run_scope sc = require_fields [sc_application_id sc, sc_user_id sc, sc_session_id sc, sc_run_id sc]"

record pending_action =
  pa_type :: string
  pa_action_id :: string
  pa_capability :: string


section \<open>The framework's resume artifact\<close>

record resume_artifact =
  ra_framework :: string
  ra_native_invocation_id :: string
  ra_tool_call_id :: string
  ra_tool_name :: string
  ra_version :: string

definition artifact_version :: string where
  "artifact_version = ''harnest-continuation/v1''"

definition check_resume_artifact :: "resume_artifact \<Rightarrow> exc option" where
  "check_resume_artifact a = check_all
     [require (ra_framework a \<in> {''adk'', ''langgraph''}) (ValueError ''durable resume framework must be adk or langgraph''),
      require (identifier_pattern (ra_tool_call_id a)) (ValueError ''durable resume tool_call_id is invalid''),
      require (identifier_pattern (ra_tool_name a)) (ValueError ''durable resume tool_name is invalid''),
      require (identifier_pattern (ra_version a)) (ValueError ''durable resume version is invalid''),
      require (native_identifier_pattern (ra_native_invocation_id a))
        (ValueError ''durable resume native_invocation_id is invalid'')]"

definition artifact_public_dict :: "resume_artifact \<Rightarrow> (string \<times> string) list" where
  "artifact_public_dict a =
     [(''framework'', ra_framework a), (''native_invocation_id'', ra_native_invocation_id a),
      (''tool_call_id'', ra_tool_call_id a), (''tool_name'', ra_tool_name a), (''version'', ra_version a)]"

text \<open>\<^verbatim>\<open>cls(**dict(value))\<close>: the five keys are there, in any order, and no other.\<close>

definition artifact_from_mapping :: "(string \<times> string) list \<Rightarrow> exc + resume_artifact" where
  "artifact_from_mapping value =
     (if set (map fst value) \<noteq> {''framework'', ''native_invocation_id'', ''tool_call_id'', ''tool_name'', ''version''}
      then Inl (ValueError ''durable resume artifact fields are invalid'')
      else (let get = (\<lambda>k. the (map_of value k));
                a = \<lparr>ra_framework = get ''framework'', ra_native_invocation_id = get ''native_invocation_id'',
                     ra_tool_call_id = get ''tool_call_id'', ra_tool_name = get ''tool_name'',
                     ra_version = get ''version''\<rparr>
            in case check_resume_artifact a of Some e \<Rightarrow> Inl e | None \<Rightarrow> Inr a))"

text \<open>The bytes \<^verbatim>\<open>NativeDurableCall.submission_key\<close> hashes, and the key.\<close>

definition submission_fields :: "resume_artifact \<Rightarrow> run_scope \<Rightarrow> string \<Rightarrow> string \<Rightarrow> string list" where
  "submission_fields a sc provider capability =
     [sc_application_id sc, sc_user_id sc, sc_session_id sc, sc_run_id sc, provider, capability,
      ra_framework a, ra_native_invocation_id a, ra_tool_call_id a]"

definition submission_key :: "pylib \<Rightarrow> resume_artifact \<Rightarrow> run_scope \<Rightarrow> string \<Rightarrow> string \<Rightarrow> string" where
  "submission_key lib a sc provider capability =
     ''harnest-submission-v1.'' @ sha256_hex lib (join_with [CHR 0x00] (submission_fields a sc provider capability))"


section \<open>Grants kept across a wait\<close>

text \<open>\<^verbatim>\<open>AgentRuntimePrincipal\<close>: a frozen set of permissions and a generated identity.\<close>

record principal =
  p_permissions :: "string list"
  p_id :: string

definition validate_permission :: "string \<Rightarrow> exc option" where
  "validate_permission value = require (permission_pattern value)
     (ValueError ''permission must start with a letter and contain only letters, numbers, '.', '_', ':', or '-'')"

definition create_principal :: "string \<Rightarrow> string list \<Rightarrow> exc + principal" where
  "create_principal ident permissions =
     (if blank ident then Inl (ValueError ''Agent Runtime Principal id must be non-empty'')
      else case check_all (map validate_permission (remdups permissions)) of Some e \<Rightarrow> Inl e
       | None \<Rightarrow> Inr \<lparr>p_permissions = remdups permissions, p_id = ident\<rparr>)"

definition restrict_principal :: "string \<Rightarrow> principal \<Rightarrow> string list \<Rightarrow> exc + principal" where
  "restrict_principal ident p permissions =
     (if \<not> set permissions \<subseteq> set (p_permissions p)
      then Inl (PermissionError ''a derived Agent Runtime Principal cannot add permissions'')
      else create_principal ident permissions)"

record grant_snapshot =
  g_permissions :: "string list"
  g_version :: int

text \<open>The constructor sorts the normalized permissions; \<open>ident\<close> is the identity it discards.\<close>

definition create_snapshot :: "string \<Rightarrow> string list \<Rightarrow> int \<Rightarrow> exc + grant_snapshot" where
  "create_snapshot ident permissions version =
     (if version \<noteq> 1 then Inl (ValueError ''principal grant snapshot version is unsupported'')
      else case create_principal ident permissions of Inl e \<Rightarrow> Inl e
       | Inr p \<Rightarrow> Inr \<lparr>g_permissions = sort (p_permissions p), g_version = version\<rparr>)"

definition capture_grants :: "string \<Rightarrow> principal option \<Rightarrow> exc + grant_snapshot option" where
  "capture_grants ident p0 = (case p0 of None \<Rightarrow> Inr None
     | Some p \<Rightarrow> map_sum id Some (create_snapshot ident (sort (p_permissions p)) 1))"

definition snapshot_private_dict :: "grant_snapshot \<Rightarrow> pyval" where
  "snapshot_private_dict g = PyDict [(PyStr ''version'', PyInt (g_version g)),
     (PyStr ''permissions'', PyList (map PyStr (g_permissions g)))]"

fun text_of :: "pyval \<Rightarrow> string option" where
  "text_of (PyStr s) = Some s"
| "text_of _ = None"

text \<open>
  \<^verbatim>\<open>from_mapping\<close>. A permission that is not a string fails \<^verbatim>\<open>validate_permission\<close>, or is
  unhashable and fails \<^verbatim>\<open>frozenset\<close>: both happen before a snapshot exists.
\<close>

definition snapshot_from_mapping :: "string \<Rightarrow> pyval \<Rightarrow> exc + grant_snapshot" where
  "snapshot_from_mapping ident value = (case value of
     PyDict kvs \<Rightarrow>
       (if set (map fst kvs) \<noteq> {PyStr ''permissions'', PyStr ''version''}
        then Inl (ValueError ''principal grant snapshot fields are invalid'')
        else (case (the (map_of kvs (PyStr ''permissions'')), the (map_of kvs (PyStr ''version''))) of
           (perms, version) \<Rightarrow>
            (case (case perms of PyList vs \<Rightarrow> Some vs | PyTuple vs \<Rightarrow> Some vs | _ \<Rightarrow> None) of
               None \<Rightarrow> Inl (TypeError ''principal grant snapshot permissions must be an array'')
             | Some vs \<Rightarrow> (case version of
                 PyInt n \<Rightarrow> if n \<noteq> 1 then Inl (ValueError ''principal grant snapshot version is unsupported'')
                   else if list_ex (\<lambda>v. text_of v = None) vs
                   then Inl (ValueError ''permission must start with a letter and contain only letters, numbers, '.', '_', ':', or '-'')
                   else create_snapshot ident (List.map_filter text_of vs) n
               | _ \<Rightarrow> Inl (ValueError ''principal grant snapshot version is unsupported'')))))
   | _ \<Rightarrow> Inl (ValueError ''principal grant snapshot fields are invalid''))"

definition restore_principal :: "string \<Rightarrow> grant_snapshot \<Rightarrow> exc + principal" where
  "restore_principal ident g = create_principal ident (g_permissions g)"


section \<open>The continuation record\<close>

record cont_failure =
  f_code :: string
  f_retryable :: bool

definition check_cont_failure :: "cont_failure \<Rightarrow> exc option" where
  "check_cont_failure f = require_name (f_code f) ''failure code''"

record continuation =
  k_continuation_id :: string
  k_application_id :: string
  k_user_id :: string
  k_session_id :: string
  k_run_id :: string
  k_provider :: string
  k_capability :: string
  k_schema_id :: string
  k_resume :: "resume_artifact option"
  k_principal_grants :: "grant_snapshot option"
  k_status :: string
  k_ready :: bool
  k_revision :: int
  k_result :: pyval
  k_failure :: "cont_failure option"
  k_created_at :: string
  k_updated_at :: string

definition k_scope :: "continuation \<Rightarrow> run_scope" where
  "k_scope c = \<lparr>sc_application_id = k_application_id c, sc_user_id = k_user_id c,
     sc_session_id = k_session_id c, sc_run_id = k_run_id c\<rparr>"

definition k_pending_action :: "continuation \<Rightarrow> pending_action" where
  "k_pending_action c = \<lparr>pa_type = ''external_continuation'', pa_action_id = k_continuation_id c,
     pa_capability = k_capability c\<rparr>"

definition validate_pending_payload :: "pyval \<Rightarrow> cont_failure option \<Rightarrow> exc option" where
  "validate_pending_payload result failure = require (\<not> (result \<noteq> PyNone \<or> failure \<noteq> None))
     (ValueError ''pending continuation cannot contain an outcome'')"

definition validate_completed_payload :: "pyval \<Rightarrow> cont_failure option \<Rightarrow> exc option" where
  "validate_completed_payload result failure = require (\<not> failure \<noteq> None)
     (ValueError ''completed continuation cannot contain a failure'')"

definition validate_failed_payload :: "pyval \<Rightarrow> cont_failure option \<Rightarrow> exc option" where
  "validate_failed_payload result failure = require (\<not> (failure = None \<or> result \<noteq> PyNone))
     (ValueError ''failed continuation requires only a failure'')"

definition validate_claimed_payload :: "pyval \<Rightarrow> cont_failure option \<Rightarrow> exc option" where
  "validate_claimed_payload result failure = require (\<not> (result \<noteq> PyNone \<and> failure \<noteq> None))
     (ValueError ''claimed continuation cannot contain both outcome lanes'')"

definition validate_record_payload :: "string \<Rightarrow> pyval \<Rightarrow> cont_failure option \<Rightarrow> exc option" where
  "validate_record_payload status result failure =
     (case map_of [(''pending'', validate_pending_payload), (''completed'', validate_completed_payload),
                   (''failed'', validate_failed_payload), (''claimed'', validate_claimed_payload)] status of
        None \<Rightarrow> Some (ValueError ''unsupported continuation status'')
      | Some validator \<Rightarrow> validator result failure)"

definition check_continuation :: "continuation \<Rightarrow> exc option" where
  "check_continuation c = check_all
     [require_text (k_continuation_id c) ''continuation_id'',
      require_text (k_application_id c) ''application_id'', require_text (k_user_id c) ''user_id'',
      require_text (k_session_id c) ''session_id'', require_text (k_run_id c) ''run_id'',
      require_name (k_provider c) ''provider'', require_name (k_capability c) ''capability'',
      require (schema_pattern (k_schema_id c)) (ValueError ''schema_id must be a stable non-empty identifier''),
      require (0 \<le> k_revision c) (ValueError ''continuation revision must be a non-negative integer''),
      validate_record_payload (k_status c) (k_result c) (k_failure c)]"

text \<open>The constructor, and \<^verbatim>\<open>replace\<close>, of a record that checks itself.\<close>

definition continuation_of :: "continuation \<Rightarrow> exc + continuation" where
  "continuation_of c = (case check_continuation c of Some e \<Rightarrow> Inl e | None \<Rightarrow> Inr c)"

definition validated_resolution :: "pyval \<Rightarrow> cont_failure option \<Rightarrow> exc + pyval \<times> cont_failure option" where
  "validated_resolution result failure =
     (if failure \<noteq> None \<and> result \<noteq> PyNone
      then Inl (ContinuationValidationError ''failure cannot include a result'')
      else case json_value result of
        Inl _ \<Rightarrow> Inl (ContinuationValidationError ''external continuation result is invalid'')
      | Inr v \<Rightarrow> Inr (v, failure))"

text \<open>\<open>validate\<close> is the provider's callable; \<open>None\<close> is a raise.\<close>

definition validated_result :: "pyval \<Rightarrow> (pyval \<Rightarrow> pyval option) \<Rightarrow> exc + pyval" where
  "validated_result value validate = (case validate value of
       None \<Rightarrow> Inl (ContinuationValidationError ''external continuation result is invalid'')
     | Some normalized \<Rightarrow> (case json_value normalized of
         Inl _ \<Rightarrow> Inl (ContinuationValidationError ''external continuation result is invalid'')
       | Inr v \<Rightarrow> Inr v))"

definition continuation_schema_id :: "pylib \<Rightarrow> pyval \<Rightarrow> exc + string" where
  "continuation_schema_id lib schema =
     (case (case json_value schema of Inl e \<Rightarrow> Inl e | Inr v \<Rightarrow> json_dumps lib v) of
        Inl _ \<Rightarrow> Inl (ContinuationValidationError ''result schema must be JSON serializable'')
      | Inr encoded \<Rightarrow> Inr (''sha256:'' @ sha256_hex lib encoded))"

text \<open>What the constructor accepts.\<close>

lemma record_payload_iff:
  "validate_record_payload st res f = None \<longleftrightarrow>
     st = ''pending'' \<and> res = PyNone \<and> f = None \<or> st = ''completed'' \<and> f = None \<or>
     st = ''failed'' \<and> f \<noteq> None \<and> res = PyNone \<or> st = ''claimed'' \<and> (res = PyNone \<or> f = None)"
  by (auto simp: validate_record_payload_def validate_pending_payload_def validate_completed_payload_def
      validate_failed_payload_def validate_claimed_payload_def split: if_splits)

lemma continuation_of_Inr [simp]: "continuation_of c = Inr d \<longleftrightarrow> d = c \<and> check_continuation c = None"
  by (auto simp: continuation_of_def split: option.splits)

lemma k_scope_eq_iff: "k_scope c = sc \<longleftrightarrow> k_application_id c = sc_application_id sc \<and>
    k_user_id c = sc_user_id sc \<and> k_session_id c = sc_session_id sc \<and> k_run_id c = sc_run_id sc"
  by (cases sc) (auto simp: k_scope_def)

end
