(* ===== verification/Record_Props.thy ===== *)
theory Record_Props
  imports Continuation_Records
begin

text \<open>
  Properties of the boundary functions the durable records rest on: JSON normalization, the
  serialized resume artifact and grant snapshot, and the submission key.
\<close>

section \<open>JSON normalization\<close>

text \<open>
  What crosses the JSON boundary, under either policy, is a JSON value: normalizing it again
  gives it back, and encoding it never raises.
\<close>

theorem normalized_value_is_json:
  assumes "json_value_of policy v = Inr w"
  shows "is_json w \<and> json_value w = Inr w \<and> (\<exists>t. json_dumps lib w = Inr t)"
proof -
  have "is_json w" using assms by (auto simp: json_value_of_def normalize_json_aux(1) split: if_splits)
  then show ?thesis by (simp add: json_value_id is_json_dumps(1))
qed

theorem normalized_value_is_json_witness:
  "json_value (PyDict [(PyStr ''k'', PyList [PyInt 1])]) = Inr (PyDict [(PyStr ''k'', PyList [PyInt 1])])"
proof -
  have "json_value_of ''error'' (SMapping 1 [(SStr ''k'', STuple 2 [SInt 1])]) = Inr (PyDict [(PyStr ''k'', PyList [PyInt 1])])"
    by (simp add: json_value_of_def mapping_contents_def scalar_value_def)
  from normalized_value_is_json [OF this] show ?thesis by blast
qed

text \<open>
  A model whose dump is a text (a root model of a string) is walked like a sequence: the text
  becomes the list of its characters.
\<close>

lemma root_text_model_is_split:
  assumes "policy \<in> {''error'', ''string''}"
  shows "json_value_of policy (SModel i (DText s)) = Inr (PyList (map (\<lambda>c. PyStr [c]) s))"
  using assms by (auto simp: json_value_of_def)


section \<open>Serialized identities\<close>

lemma map_of_perm:
  assumes "distinct (map fst xs)" "distinct (map fst ys)" "set xs = set ys"
  shows "map_of xs = map_of ys"
  using assms by (metis map_of_inject_set)

text \<open>
  A resume artifact survives storage: reading back the stored fields, in whatever order the
  backend returns them, gives the artifact; a mapping with a missing or an extra field is
  refused.
\<close>

theorem resume_artifact_roundtrip:
  assumes "distinct (map fst value)"
  shows "(check_resume_artifact a = None \<and> set value = set (artifact_public_dict a) \<longrightarrow> artifact_from_mapping value = Inr a) \<and>
    (set (map fst value) \<noteq> set (map fst (artifact_public_dict a)) \<longrightarrow>
       artifact_from_mapping value = Inl (ValueError ''durable resume artifact fields are invalid''))"
proof (intro conjI impI; (elim conjE)?)
  assume ok: "check_resume_artifact a = None" and same: "set value = set (artifact_public_dict a)"
  have "distinct (map fst (artifact_public_dict a))" by (simp add: artifact_public_dict_def)
  from map_of_perm [OF assms this same] have m: "map_of value = map_of (artifact_public_dict a)" .
  have "set (map fst value) = set (map fst (artifact_public_dict a))" using same by (simp only: set_map)
  then show "artifact_from_mapping value = Inr a"
    using ok by (cases a) (simp add: artifact_from_mapping_def m, simp add: artifact_public_dict_def Let_def)
qed (simp add: artifact_from_mapping_def artifact_public_dict_def)

theorem resume_artifact_roundtrip_witness:
  "\<exists>a. artifact_from_mapping [(''version'', ''v1''), (''framework'', ''adk''), (''native_invocation_id'', ''n''),
     (''tool_call_id'', ''c''), (''tool_name'', ''t'')] = Inr a \<and> ra_tool_name a = ''t''"
proof -
  let ?a = "\<lparr>ra_framework = ''adk'', ra_native_invocation_id = ''n'', ra_tool_call_id = ''c'', ra_tool_name = ''t'', ra_version = ''v1''\<rparr>"
  let ?v = "[(''version'', ''v1''), (''framework'', ''adk''), (''native_invocation_id'', ''n''), (''tool_call_id'', ''c''), (''tool_name'', ''t'')]"
  have "distinct (map fst ?v)" by simp
  moreover have "check_resume_artifact ?a = None" by code_simp
  moreover have "set ?v = set (artifact_public_dict ?a)" by (auto simp: artifact_public_dict_def)
  ultimately have "artifact_from_mapping ?v = Inr ?a" using resume_artifact_roundtrip [of ?v ?a] by blast
  then show ?thesis by simp
qed

lemma create_principal_perms: "create_principal i ps = Inr p \<Longrightarrow> set (p_permissions p) = set ps \<and> distinct (p_permissions p)"
  by (auto simp: create_principal_def split: if_splits option.splits)

lemma create_principal_ok:
  "create_principal i ps = Inr p \<Longrightarrow> \<not> blank j \<Longrightarrow> set qs \<subseteq> set ps \<Longrightarrow> create_principal j qs = Inr \<lparr>p_permissions = remdups qs, p_id = j\<rparr>"
  by (auto simp: create_principal_def split: if_splits option.splits)

lemma map_filter_texts: "List.map_filter text_of (map PyStr ps) = ps"
  by (induction ps) (simp_all add: List.map_filter_simps)

text \<open>
  The grants of a principal survive a durable wait unchanged: the snapshot read back from its
  stored form is the snapshot that was captured, and the principal restored from it has exactly
  the captured permissions and a new identity.
\<close>

theorem grants_survive_a_wait:
  assumes p: "create_principal i ps = Inr p" and ids: "\<not> blank j" "\<not> blank k" "\<not> blank l"
  shows "\<exists>g. capture_grants j (Some p) = Inr (Some g) \<and>
    snapshot_from_mapping k (snapshot_private_dict g) = Inr g \<and>
    (\<exists>q. restore_principal l g = Inr q \<and> set (p_permissions q) = set ps \<and> p_id q = l)"
proof -
  note perms = create_principal_perms [OF p]
  let ?g = "\<lparr>g_permissions = sort (p_permissions p), g_version = 1\<rparr>"
  have remdups: "remdups (sort (p_permissions p)) = sort (p_permissions p)"
    using perms by (simp add: distinct_remdups_id)
  have made: "create_principal n (sort (p_permissions p)) = Inr \<lparr>p_permissions = sort (p_permissions p), p_id = n\<rparr>"
    if "\<not> blank n" for n
    using create_principal_ok [OF p that, of "sort (p_permissions p)"] perms remdups by simp
  have snap: "create_snapshot n (sort (p_permissions p)) 1 = Inr ?g" if "\<not> blank n" for n
    using made [OF that] by (simp add: create_snapshot_def sorted_sort_id)
  have texts: "\<not> list_ex (\<lambda>v. text_of v = None) (map PyStr qs)" for qs by (induction qs) simp_all
  have "capture_grants j (Some p) = Inr (Some ?g)" using snap [OF ids(1)] by (simp add: capture_grants_def)
  moreover have "snapshot_from_mapping k (snapshot_private_dict ?g) = Inr ?g"
    using snap [OF ids(2)] texts
    by (simp add: snapshot_from_mapping_def snapshot_private_dict_def map_filter_texts insert_commute)
  moreover have "\<exists>q. restore_principal l ?g = Inr q \<and> set (p_permissions q) = set ps \<and> p_id q = l"
    using made [OF ids(3)] perms by (simp add: restore_principal_def)
  ultimately show ?thesis by blast
qed

theorem grants_survive_a_wait_witness:
  "\<exists>p g. create_principal ''arp_1'' [''mail.read'', ''a'', ''a''] = Inr p \<and> capture_grants ''arp_2'' (Some p) = Inr (Some g)"
proof -
  have p: "create_principal ''arp_1'' [''mail.read'', ''a'', ''a''] =
      Inr \<lparr>p_permissions = remdups [''mail.read'', ''a'', ''a''], p_id = ''arp_1''\<rparr>" by code_simp
  have "\<not> blank ''arp_2''" by code_simp
  from grants_survive_a_wait [OF p this this this] p show ?thesis by blast
qed


section \<open>The submission key\<close>

lemma split_at_separator:
  "x @ n # r = y @ n # t \<Longrightarrow> n \<notin> set x \<Longrightarrow> n \<notin> set y \<Longrightarrow> x = y \<and> r = t"
proof (induction x arbitrary: y)
  case Nil
  then show ?case by (cases y) auto
next
  case (Cons a x)
  then show ?case by (cases y) auto
qed

lemma join_nul_inject:
  assumes "length xs = length ys" "\<forall>x\<in>set xs. n \<notin> set x" "\<forall>y\<in>set ys. n \<notin> set y"
    and "join_with [n] xs = join_with [n] ys"
  shows "xs = ys"
  using assms
proof (induction "[n]" xs arbitrary: ys rule: join_with.induct)
  case (3 x x' xs)
  then obtain y y' zs where ys: "ys = y # y' # zs" by (metis length_Suc_conv)
  have eq: "x @ n # join_with [n] (x' # xs) = y @ n # join_with [n] (y' # zs)" using "3.prems"(4) ys by simp
  have "n \<notin> set x" "n \<notin> set y" using "3.prems" ys by simp_all
  with eq have "x = y \<and> join_with [n] (x' # xs) = join_with [n] (y' # zs)"
    by (auto dest: split_at_separator)
  moreover from this have "x' # xs = y' # zs" using "3.prems" ys by (intro "3.hyps") auto
  ultimately show ?case by (simp add: ys)
qed (auto simp: length_Suc_conv Suc_length_conv)

text \<open>
  Two calls share a submission key only if they agree on every ownership field, the provider,
  the capability, the framework and the native call: with identifiers free of NUL and a digest
  that does not collide on the two texts, no provider can merge the work of two tenants.
\<close>

theorem submission_key_separates:
  assumes key: "submission_key lib a sc p c = submission_key lib b sc' p' c'"
    and digest: "\<And>x y. x \<in> {join_with [CHR 0x00] (submission_fields a sc p c), join_with [CHR 0x00] (submission_fields b sc' p' c')} \<Longrightarrow>
      y \<in> {join_with [CHR 0x00] (submission_fields a sc p c), join_with [CHR 0x00] (submission_fields b sc' p' c')} \<Longrightarrow>
      sha256_hex lib x = sha256_hex lib y \<Longrightarrow> x = y"
    and nul: "\<forall>f\<in>set (submission_fields a sc p c) \<union> set (submission_fields b sc' p' c'). CHR 0x00 \<notin> set f"
  shows "sc = sc' \<and> p = p' \<and> c = c' \<and> ra_framework a = ra_framework b \<and>
    ra_native_invocation_id a = ra_native_invocation_id b \<and> ra_tool_call_id a = ra_tool_call_id b"
proof -
  have "join_with [CHR 0x00] (submission_fields a sc p c) = join_with [CHR 0x00] (submission_fields b sc' p' c')"
    by (rule digest) (use key in \<open>simp_all add: submission_key_def\<close>)
  then have "submission_fields a sc p c = submission_fields b sc' p' c'"
    by (intro join_nul_inject [where n = "CHR 0x00"]) (use nul in \<open>auto simp: submission_fields_def\<close>)
  then show ?thesis by (cases sc; cases sc') (simp add: submission_fields_def)
qed

definition sample_artifact :: resume_artifact where
  "sample_artifact = \<lparr>ra_framework = ''adk'', ra_native_invocation_id = ''n'', ra_tool_call_id = ''c'',
     ra_tool_name = ''t'', ra_version = ''v1''\<rparr>"

definition tenant :: "string \<Rightarrow> run_scope" where
  "tenant user = \<lparr>sc_application_id = ''app'', sc_user_id = user, sc_session_id = ''s'', sc_run_id = ''r''\<rparr>"

theorem submission_key_separates_witness:
  "submission_key sample_lib sample_artifact (tenant ''ann'') ''p'' ''c'' \<noteq>
   submission_key sample_lib sample_artifact (tenant ''bob'') ''p'' ''c''"
proof
  assume key: "submission_key sample_lib sample_artifact (tenant ''ann'') ''p'' ''c'' =
    submission_key sample_lib sample_artifact (tenant ''bob'') ''p'' ''c''"
  have "tenant ''ann'' = tenant ''bob''"
    using submission_key_separates [OF key]
    by (auto simp: sample_lib_def submission_fields_def sample_artifact_def tenant_def)
  then show False by (simp add: tenant_def)
qed

end
