(* ===== verification/Checkpoint_Store.thy ===== *)
theory Checkpoint_Store
  imports Continuation_Records
begin

text \<open>
  \<^verbatim>\<open>MemoryStore\<close> of \<^verbatim>\<open>checkpoint.py\<close>: runs, framework checkpoints, pending writes, durable
  continuations and A2A task snapshots. Every method holds the store's lock, so each is one
  function from the state to a result and the next state. \<open>now\<close> is the text \<^verbatim>\<open>_timestamp()\<close>
  returns during the call; \<open>parse_iso\<close> is \<^verbatim>\<open>datetime.fromisoformat\<close>: the instant and whether the
  text has a timezone, or \<open>None\<close> when it raises.
\<close>

section \<open>Records and state\<close>

datatype run_status = Running | Waiting | Completed | Failed | Cancelled

datatype framework = Adk | Langgraph

fun status_text :: "run_status \<Rightarrow> string" where
  "status_text Running = ''running''" | "status_text Waiting = ''waiting''"
| "status_text Completed = ''completed''" | "status_text Failed = ''failed''"
| "status_text Cancelled = ''cancelled''"

definition terminal_run :: "run_status \<Rightarrow> bool" where
  "terminal_run st \<longleftrightarrow> st \<in> {Completed, Failed, Cancelled}"

record run_record =
  r_application_id :: string
  r_user_id :: string
  r_session_id :: string
  r_run_id :: string
  r_framework :: framework
  r_status :: run_status
  r_revision :: int
  r_pending_action :: "pending_action option"
  r_created_at :: string
  r_updated_at :: string

definition r_scope :: "run_record \<Rightarrow> run_scope" where
  "r_scope r = \<lparr>sc_application_id = r_application_id r, sc_user_id = r_user_id r,
     sc_session_id = r_session_id r, sc_run_id = r_run_id r\<rparr>"

definition run_key :: "run_record \<Rightarrow> string \<times> string \<times> string" where
  "run_key r = (r_application_id r, r_user_id r, r_session_id r)"

record checkpoint_write =
  w_task_id :: string
  w_channel :: string
  w_type_name :: string
  w_payload :: string
  w_task_path :: string

record checkpoint_record =
  p_run_id :: string
  p_checkpoint_id :: string
  p_namespace :: string
  p_framework :: framework
  p_type_name :: string
  p_payload :: string
  p_metadata_type :: string
  p_metadata :: string
  p_versions_type :: string
  p_versions :: string
  p_parent_checkpoint_id :: "string option"
  p_revision :: int
  p_created_at :: string

record a2a_task =
  x_application_id :: string
  x_user_id :: string
  x_task_id :: string
  x_context_id :: string
  x_status :: int
  x_payload :: string
  x_status_timestamp :: "string option"
  x_created_at :: string
  x_updated_at :: string

record memory_state =
  m_runs :: "(string \<times> run_record) list"
  m_active :: "((string \<times> string \<times> string) \<times> string) list"
  m_checkpoints :: "((string \<times> string \<times> string) \<times> checkpoint_record) list"
  m_writes :: "((string \<times> string) \<times> checkpoint_write list) list"
  m_continuations :: "(string \<times> continuation) list"
  m_external_ids :: "(string \<times> string) list"
  m_external_keys :: "((string \<times> string \<times> string) \<times> string) list"
  m_a2a_tasks :: "((string \<times> string \<times> string) \<times> a2a_task) list"

definition empty_memory :: memory_state where
  "empty_memory = \<lparr>m_runs = [], m_active = [], m_checkpoints = [], m_writes = [], m_continuations = [],
     m_external_ids = [], m_external_keys = [], m_a2a_tasks = []\<rparr>"

abbreviation run_at :: "memory_state \<Rightarrow> string \<Rightarrow> run_record option" where
  "run_at s k \<equiv> map_of (m_runs s) k"

abbreviation cont_at :: "memory_state \<Rightarrow> string \<Rightarrow> continuation option" where
  "cont_at s k \<equiv> map_of (m_continuations s) k"

abbreviation put_run :: "run_record \<Rightarrow> memory_state \<Rightarrow> memory_state" where
  "put_run r s \<equiv> s\<lparr>m_runs := AList.update (r_run_id r) r (m_runs s)\<rparr>"

abbreviation put_cont :: "string \<Rightarrow> continuation \<Rightarrow> memory_state \<Rightarrow> memory_state" where
  "put_cont k c s \<equiv> s\<lparr>m_continuations := AList.update k c (m_continuations s)\<rparr>"


section \<open>Ownership and validation\<close>

definition owned_run :: "run_record option \<Rightarrow> run_scope \<Rightarrow> run_record option" where
  "owned_run record sc = (case record of None \<Rightarrow> None | Some r \<Rightarrow> if r_scope r \<noteq> sc then None else Some r)"

definition require_owned_run :: "run_record option \<Rightarrow> run_scope \<Rightarrow> exc + run_record" where
  "require_owned_run record sc = (case owned_run record sc of
     None \<Rightarrow> Inl (KeyError ''checkpoint run not found'') | Some r \<Rightarrow> Inr r)"

definition require_running :: "run_record \<Rightarrow> exc option" where
  "require_running r = require (r_status r \<in> {Running, Waiting})
     (CheckpointConflictError ''checkpoint run is already terminal'')"

definition validate_same_run :: "run_record \<Rightarrow> string \<Rightarrow> string \<Rightarrow> string \<Rightarrow> framework \<Rightarrow> exc + run_record" where
  "validate_same_run r application_id user_id session_id framework =
     (if (run_key r, r_framework r) \<noteq> ((application_id, user_id, session_id), framework)
      then Inl (CheckpointConflictError ''run_id belongs to another execution'') else Inr r)"

definition allowed_transitions :: "run_status \<Rightarrow> run_status set" where
  "allowed_transitions current = (case current of
     Running \<Rightarrow> {Waiting, Completed, Failed, Cancelled}
   | Waiting \<Rightarrow> {Running, Failed, Cancelled}
   | _ \<Rightarrow> {})"

definition validate_transition :: "run_status \<Rightarrow> run_status \<Rightarrow> pending_action option \<Rightarrow> exc option" where
  "validate_transition current target pending =
     (if target \<notin> allowed_transitions current
      then Some (CheckpointConflictError (''invalid run transition '' @ status_text current @ '' -> '' @ status_text target))
      else if (target = Waiting) \<noteq> (pending \<noteq> None)
      then Some (ValueError ''pending_action is required only for waiting runs'') else None)"

definition pending_id :: "run_record \<Rightarrow> string option" where
  "pending_id r = map_option pa_action_id (r_pending_action r)"

definition valid_continuation_claim :: "continuation \<Rightarrow> run_record \<Rightarrow> string \<Rightarrow> int \<Rightarrow> bool" where
  "valid_continuation_claim c run continuation_id expected_revision \<longleftrightarrow>
     k_status c \<in> {''completed'', ''failed''} \<and> k_ready c \<and> k_revision c = expected_revision \<and>
     r_status run = Waiting \<and> pending_id run = Some continuation_id"

definition valid_continuation_cancel ::
    "continuation option \<Rightarrow> run_record option \<Rightarrow> string \<Rightarrow> string \<Rightarrow> int \<Rightarrow> bool" where
  "valid_continuation_cancel record run provider continuation_id expected_revision =
     (case (record, run) of
        (Some c, Some r) \<Rightarrow> k_scope c = r_scope r \<and> k_provider c = provider \<and> k_status c = ''pending'' \<and>
          k_revision c = expected_revision \<and> r_status r = Waiting \<and> pending_id r = Some continuation_id
      | _ \<Rightarrow> False)"


section \<open>Runs\<close>

definition begin_run :: "string \<Rightarrow> string \<Rightarrow> string \<Rightarrow> string \<Rightarrow> string \<Rightarrow> framework \<Rightarrow> memory_state
    \<Rightarrow> (memory_state, run_record) outcome" where
  "begin_run now application_id user_id session_id run_id framework s =
     (case require_fields [application_id, user_id, session_id, run_id] of Some e \<Rightarrow> (Inl e, s)
      | None \<Rightarrow> (let key = (application_id, user_id, session_id) in
         case run_at s run_id of
           Some existing \<Rightarrow> (validate_same_run existing application_id user_id session_id framework, s)
         | None \<Rightarrow> (case map_of (m_active s) key of
             Some active \<Rightarrow> (Inl (CheckpointConflictError (''session already has active checkpoint run '' @ active)), s)
           | None \<Rightarrow> (let record = \<lparr>r_application_id = application_id, r_user_id = user_id,
                 r_session_id = session_id, r_run_id = run_id, r_framework = framework, r_status = Running,
                 r_revision = 0, r_pending_action = None, r_created_at = now, r_updated_at = now\<rparr>
               in (Inr record, s\<lparr>m_runs := AList.update run_id record (m_runs s),
                                 m_active := AList.update key run_id (m_active s)\<rparr>)))))"

definition get_run :: "run_scope \<Rightarrow> memory_state \<Rightarrow> run_record option" where
  "get_run sc s = owned_run (run_at s (sc_run_id sc)) sc"

definition transition :: "string \<Rightarrow> run_scope \<Rightarrow> run_status \<Rightarrow> run_status \<Rightarrow> pending_action option
    \<Rightarrow> memory_state \<Rightarrow> (memory_state, run_record) outcome" where
  "transition now sc expected_status status pending s =
     (case validate_transition expected_status status pending of Some e \<Rightarrow> (Inl e, s)
      | None \<Rightarrow> (case require_owned_run (run_at s (sc_run_id sc)) sc of Inl e \<Rightarrow> (Inl e, s)
        | Inr current \<Rightarrow>
            if r_status current \<noteq> expected_status
            then (Inl (CheckpointConflictError ''checkpoint run status changed''), s)
            else (let updated = current\<lparr>r_status := status, r_pending_action := pending,
                        r_revision := r_revision current + 1, r_updated_at := now\<rparr>
                  in (Inr updated,
                      s\<lparr>m_runs := AList.update (sc_run_id sc) updated (m_runs s),
                        m_active := (if terminal_run status then AList.delete (run_key current) (m_active s)
                                     else m_active s)\<rparr>))))"

definition remove_continuation :: "pylib \<Rightarrow> string \<Rightarrow> memory_state \<Rightarrow> memory_state" where
  "remove_continuation lib continuation_id s =
     (let s' = s\<lparr>m_continuations := AList.delete continuation_id (m_continuations s),
                 m_external_ids := AList.delete continuation_id (m_external_ids s)\<rparr>
      in case (cont_at s continuation_id, map_of (m_external_ids s) continuation_id) of
           (Some c, Some external_id) \<Rightarrow>
             (case external_id_key lib (k_provider c) external_id of Inl _ \<Rightarrow> s'
              | Inr key \<Rightarrow> s'\<lparr>m_external_keys := AList.delete (k_application_id c, k_provider c, key) (m_external_keys s)\<rparr>)
         | _ \<Rightarrow> s')"

definition delete_run :: "pylib \<Rightarrow> run_scope \<Rightarrow> memory_state \<Rightarrow> memory_state" where
  "delete_run lib sc s =
     (case owned_run (run_at s (sc_run_id sc)) sc of None \<Rightarrow> s
      | Some record \<Rightarrow>
         (let s1 = s\<lparr>m_runs := AList.delete (sc_run_id sc) (m_runs s),
                     m_active := AList.delete (run_key record) (m_active s),
                     m_checkpoints := filter (\<lambda>(k, _). fst k \<noteq> sc_run_id sc) (m_checkpoints s),
                     m_writes := filter (\<lambda>(k, _). fst k \<noteq> sc_run_id sc) (m_writes s)\<rparr>;
              ids = map k_continuation_id (filter (\<lambda>c. k_run_id c = sc_run_id sc) (map snd (m_continuations s)))
          in fold (remove_continuation lib) ids s1))"


section \<open>Checkpoints and pending writes\<close>

text \<open>\<^verbatim>\<open>max(matches, key=...)\<close> is the first maximum, \<^verbatim>\<open>sorted(..., reverse=True)\<close> is stable.\<close>

fun first_max :: "('v \<Rightarrow> int) \<Rightarrow> 'v list \<Rightarrow> 'v option" where
  "first_max f [] = None"
| "first_max f (v # vs) = (case first_max f vs of None \<Rightarrow> Some v | Some w \<Rightarrow> if f w > f v then Some w else Some v)"

definition sort_desc :: "('v \<Rightarrow> 'o::linorder) \<Rightarrow> 'v list \<Rightarrow> 'v list" where
  "sort_desc f xs = rev (sort_key f (rev xs))"

definition get_checkpoint :: "run_scope \<Rightarrow> string option \<Rightarrow> string \<Rightarrow> memory_state \<Rightarrow> checkpoint_record option" where
  "get_checkpoint sc checkpoint_id namespace s =
     (if owned_run (run_at s (sc_run_id sc)) sc = None then None
      else case checkpoint_id of
        Some cid \<Rightarrow> map_of (m_checkpoints s) (sc_run_id sc, namespace, cid)
      | None \<Rightarrow> first_max p_revision (map snd (filter (\<lambda>(k, _). fst k = sc_run_id sc \<and> fst (snd k) = namespace) (m_checkpoints s))))"

definition list_checkpoints :: "run_scope \<Rightarrow> string option \<Rightarrow> string option \<Rightarrow> int \<Rightarrow> memory_state
    \<Rightarrow> exc + checkpoint_record list" where
  "list_checkpoints sc namespace before limit s =
     (if limit < 1 then Inl (ValueError ''checkpoint list limit must be positive'')
      else if owned_run (run_at s (sc_run_id sc)) sc = None then Inr []
      else Inr (take (nat limit) (sort_desc p_revision (map snd (filter
        (\<lambda>(k, v). fst k = sc_run_id sc \<and> (case namespace of None \<Rightarrow> True | Some n \<Rightarrow> fst (snd k) = n) \<and>
           (case before of None \<Rightarrow> True | Some b \<Rightarrow> p_checkpoint_id v < b)) (m_checkpoints s))))))"

definition checkpoint_key :: "checkpoint_record \<Rightarrow> string \<times> string \<times> string" where
  "checkpoint_key c = (p_run_id c, p_namespace c, p_checkpoint_id c)"

definition last_revision :: "string \<Rightarrow> string \<Rightarrow> checkpoint_record list \<Rightarrow> int" where
  "last_revision run_id namespace cs =
     foldr max (map p_revision (filter (\<lambda>c. p_run_id c = run_id \<and> p_namespace c = namespace) cs)) (-1)"

definition put_checkpoint :: "checkpoint_record \<Rightarrow> run_scope \<Rightarrow> int option \<Rightarrow> memory_state
    \<Rightarrow> (memory_state, checkpoint_record) outcome" where
  "put_checkpoint checkpoint sc expected_revision s =
     (if p_run_id checkpoint \<noteq> sc_run_id sc
      then (Inl (ValueError ''checkpoint run_id does not match ownership scope''), s)
      else case require_owned_run (run_at s (p_run_id checkpoint)) sc of Inl e \<Rightarrow> (Inl e, s)
       | Inr record \<Rightarrow> (case require_running record of Some e \<Rightarrow> (Inl e, s)
         | None \<Rightarrow>
            (let key = checkpoint_key checkpoint;
                 current_revision = (case map_of (m_checkpoints s) key of None \<Rightarrow> -1 | Some c \<Rightarrow> p_revision c)
             in if current_revision \<noteq> (case expected_revision of None \<Rightarrow> -1 | Some v \<Rightarrow> v)
                then (Inl (CheckpointConflictError ''checkpoint revision changed''), s)
                else (let revision = last_revision (p_run_id checkpoint) (p_namespace checkpoint) (map snd (m_checkpoints s));
                          stored = checkpoint\<lparr>p_revision := revision + 1\<rparr>
                      in (Inr stored, s\<lparr>m_checkpoints := AList.update key stored (m_checkpoints s)\<rparr>)))))"

abbreviation writes_at :: "memory_state \<Rightarrow> string \<times> string \<Rightarrow> checkpoint_write list" where
  "writes_at s k \<equiv> (case map_of (m_writes s) k of None \<Rightarrow> [] | Some ws \<Rightarrow> ws)"

definition write_slot :: "checkpoint_write \<Rightarrow> string \<times> string" where
  "write_slot w = (w_task_id w, w_channel w)"

definition put_writes :: "run_scope \<Rightarrow> string \<Rightarrow> checkpoint_write list \<Rightarrow> memory_state
    \<Rightarrow> (memory_state, unit) outcome" where
  "put_writes sc checkpoint_id writes s =
     (case require_owned_run (run_at s (sc_run_id sc)) sc of Inl e \<Rightarrow> (Inl e, s)
      | Inr record \<Rightarrow> (case require_running record of Some e \<Rightarrow> (Inl e, s)
        | None \<Rightarrow> (let key = (sc_run_id sc, checkpoint_id); target = writes_at s key;
                      existing = set (map write_slot target)
                  in (Inr (), s\<lparr>m_writes := AList.update key
                        (target @ filter (\<lambda>w. write_slot w \<notin> existing) writes) (m_writes s)\<rparr>))))"

definition get_writes :: "run_scope \<Rightarrow> string \<Rightarrow> memory_state \<Rightarrow> checkpoint_write list" where
  "get_writes sc checkpoint_id s = (if owned_run (run_at s (sc_run_id sc)) sc = None then []
     else writes_at s (sc_run_id sc, checkpoint_id))"

definition get_writes_batch :: "run_scope \<Rightarrow> string list \<Rightarrow> memory_state \<Rightarrow> (string \<times> checkpoint_write list) list" where
  "get_writes_batch sc checkpoint_ids s = (if owned_run (run_at s (sc_run_id sc)) sc = None then []
     else fold (\<lambda>cid d. AList.update cid (writes_at s (sc_run_id sc, cid)) d) checkpoint_ids [])"

end
