(* ===== verification/Continuation_Store.thy ===== *)
theory Continuation_Store
  imports Checkpoint_Store
begin

text \<open>
  The second half of \<^verbatim>\<open>MemoryStore\<close>: durable waits (suspend, resolve, arm, claim, cancel and
  the lookups) and the A2A task snapshots. A record is rewritten with \<^verbatim>\<open>dataclasses.replace\<close>,
  which validates it again.
\<close>

section \<open>Durable waits\<close>

definition changed :: "string \<Rightarrow> exc" where
  "changed what = ContinuationConflictError (''continuation '' @ what)"

definition suspend_continuation :: "pylib \<Rightarrow> string \<Rightarrow> continuation \<Rightarrow> string \<Rightarrow> memory_state
    \<Rightarrow> (memory_state, continuation) outcome" where
  "suspend_continuation lib now record external_id s =
     (case external_id_key lib (k_provider record) external_id of Inl e \<Rightarrow> (Inl e, s)
      | Inr digest \<Rightarrow>
         (let key = (k_application_id record, k_provider record, digest) in
          case owned_run (run_at s (k_run_id record)) (k_scope record) of
            None \<Rightarrow> (Inl (changed ''run is not running''), s)
          | Some run \<Rightarrow>
             if r_status run \<noteq> Running then (Inl (changed ''run is not running''), s)
             else if cont_at s (k_continuation_id record) \<noteq> None \<or> map_of (m_external_keys s) key \<noteq> None
             then (Inl (changed ''already exists''), s)
             else (Inr record,
                   s\<lparr>m_continuations := AList.update (k_continuation_id record) record (m_continuations s),
                     m_external_ids := AList.update (k_continuation_id record) external_id (m_external_ids s),
                     m_external_keys := AList.update key (k_continuation_id record) (m_external_keys s),
                     m_runs := AList.update (r_run_id run)
                       (run\<lparr>r_status := Waiting, r_pending_action := Some (k_pending_action record),
                            r_revision := r_revision run + 1, r_updated_at := now\<rparr>) (m_runs s)\<rparr>)))"

definition get_continuation :: "run_scope \<Rightarrow> string \<Rightarrow> memory_state \<Rightarrow> continuation option" where
  "get_continuation sc continuation_id s = (case cont_at s continuation_id of None \<Rightarrow> None
     | Some c \<Rightarrow> if k_scope c = sc then Some c else None)"

type_synonym provider_pending = "continuation \<times> string"

definition get_provider_continuation :: "run_scope \<Rightarrow> string \<Rightarrow> string \<Rightarrow> memory_state
    \<Rightarrow> exc + provider_pending option" where
  "get_provider_continuation sc provider continuation_id s =
     (case require_fields [provider, continuation_id] of Some e \<Rightarrow> Inl e
      | None \<Rightarrow> Inr (case (cont_at s continuation_id, map_of (m_external_ids s) continuation_id) of
          (Some c, Some external_id) \<Rightarrow>
            if k_scope c \<noteq> sc \<or> k_provider c \<noteq> provider then None else Some (c, external_id)
        | _ \<Rightarrow> None))"

text \<open>\<^verbatim>\<open>continuations.get(keys.get(key) or "")\<close>: an index miss reads the empty identifier.\<close>

definition indexed_continuation :: "string \<times> string \<times> string \<Rightarrow> memory_state \<Rightarrow> continuation option" where
  "indexed_continuation key s =
     cont_at s (case map_of (m_external_keys s) key of None \<Rightarrow> [] | Some k \<Rightarrow> k)"

definition get_continuation_by_external_id :: "pylib \<Rightarrow> string \<Rightarrow> string \<Rightarrow> string \<Rightarrow> memory_state
    \<Rightarrow> exc + provider_pending option" where
  "get_continuation_by_external_id lib application_id provider external_id s =
     (case require_fields [application_id, provider, external_id] of Some e \<Rightarrow> Inl e
      | None \<Rightarrow> (case external_id_key lib provider external_id of Inl e \<Rightarrow> Inl e
        | Inr digest \<Rightarrow> Inr (case indexed_continuation (application_id, provider, digest) s of None \<Rightarrow> None
            | Some c \<Rightarrow> map_option (\<lambda>stored. (c, stored)) (map_of (m_external_ids s) (k_continuation_id c)))))"

text \<open>The stored external identity of a listed record is present (\<open>memory_inv\<close>): it is read with \<^verbatim>\<open>[]\<close>.\<close>

definition list_pending_continuations :: "string \<Rightarrow> string \<Rightarrow> string option \<Rightarrow> int \<Rightarrow> memory_state
    \<Rightarrow> exc + provider_pending list" where
  "list_pending_continuations application_id provider after limit s =
     (case check_all [require_fields [application_id, provider], require_continuation_page after limit] of
        Some e \<Rightarrow> Inl e
      | None \<Rightarrow> Inr (map (\<lambda>c. (c, the (map_of (m_external_ids s) (k_continuation_id c))))
          (page k_continuation_id (\<lambda>c. (k_application_id c = application_id \<and> k_provider c = provider \<and>
             k_status c = ''pending'') \<and> after_cursor k_continuation_id after c) limit (map snd (m_continuations s)))))"

definition resolve_continuation :: "pylib \<Rightarrow> string \<Rightarrow> run_scope \<Rightarrow> string \<Rightarrow> string \<Rightarrow> string \<Rightarrow> pyval
    \<Rightarrow> cont_failure option \<Rightarrow> memory_state \<Rightarrow> (memory_state, continuation) outcome" where
  "resolve_continuation lib now sc provider external_id schema_id result failure s =
     (case validated_resolution result failure of Inl e \<Rightarrow> (Inl e, s)
      | Inr (result, failure) \<Rightarrow>
        (case external_id_key lib provider external_id of Inl e \<Rightarrow> (Inl e, s)
         | Inr digest \<Rightarrow>
            (case indexed_continuation (sc_application_id sc, provider, digest) s of
                None \<Rightarrow> (Inl (changed ''state changed''), s)
              | Some c \<Rightarrow>
                 if k_scope c \<noteq> sc then (Inl (changed ''state changed''), s)
                 else if k_status c \<noteq> ''pending'' \<or> k_schema_id c \<noteq> schema_id then (Inl (changed ''state changed''), s)
                 else (case continuation_of (c\<lparr>k_status := (if failure \<noteq> None then ''failed'' else ''completed''),
                          k_result := result, k_failure := failure, k_revision := k_revision c + 1,
                          k_updated_at := now\<rparr>) of
                     Inl e \<Rightarrow> (Inl e, s)
                   | Inr updated \<Rightarrow> (Inr updated, put_cont (k_continuation_id c) updated s)))))"

definition cancel_continuation :: "string \<Rightarrow> run_scope \<Rightarrow> string \<Rightarrow> string \<Rightarrow> int \<Rightarrow> cont_failure \<Rightarrow> memory_state
    \<Rightarrow> (memory_state, continuation) outcome" where
  "cancel_continuation now sc provider continuation_id expected_revision failure s =
     (let record = cont_at s continuation_id; run = owned_run (run_at s (sc_run_id sc)) sc in
      if \<not> valid_continuation_cancel record run provider continuation_id expected_revision
      then (Inl (changed ''cancellation changed''), s)
      else case (record, run) of
        (Some c, Some r) \<Rightarrow>
          (case continuation_of (c\<lparr>k_status := ''failed'', k_failure := Some failure,
                  k_revision := k_revision c + 1, k_updated_at := now\<rparr>) of
             Inl e \<Rightarrow> (Inl e, s)
           | Inr updated \<Rightarrow> (Inr updated,
               s\<lparr>m_continuations := AList.update continuation_id updated (m_continuations s),
                 m_runs := AList.update (r_run_id r) (r\<lparr>r_status := Cancelled, r_pending_action := None,
                   r_revision := r_revision r + 1, r_updated_at := now\<rparr>) (m_runs s),
                 m_active := AList.delete (run_key r) (m_active s)\<rparr>))
      | _ \<Rightarrow> (Inl (changed ''cancellation changed''), s))"

definition claim_continuation :: "string \<Rightarrow> run_scope \<Rightarrow> string \<Rightarrow> string \<Rightarrow> int \<Rightarrow> memory_state
    \<Rightarrow> (memory_state, continuation) outcome" where
  "claim_continuation now sc provider continuation_id expected_revision s =
     (case (cont_at s continuation_id, owned_run (run_at s (sc_run_id sc)) sc) of
        (Some c, Some r) \<Rightarrow>
          if k_scope c \<noteq> sc \<or> k_provider c \<noteq> provider then (Inl (changed ''claim changed''), s)
          else if \<not> valid_continuation_claim c r continuation_id expected_revision
          then (Inl (changed ''claim changed''), s)
          else (case continuation_of (c\<lparr>k_status := ''claimed'', k_revision := k_revision c + 1, k_updated_at := now\<rparr>) of
             Inl e \<Rightarrow> (Inl e, s)
           | Inr updated \<Rightarrow> (Inr updated,
               s\<lparr>m_continuations := AList.update continuation_id updated (m_continuations s),
                 m_runs := AList.update (r_run_id r) (r\<lparr>r_status := Running, r_pending_action := None,
                   r_revision := r_revision r + 1, r_updated_at := now\<rparr>) (m_runs s)\<rparr>))
      | _ \<Rightarrow> (Inl (changed ''claim changed''), s))"

definition arm_continuation :: "string \<Rightarrow> run_scope \<Rightarrow> string \<Rightarrow> string \<Rightarrow> int \<Rightarrow> memory_state
    \<Rightarrow> (memory_state, continuation) outcome" where
  "arm_continuation now sc provider continuation_id expected_revision s =
     (case cont_at s continuation_id of
        None \<Rightarrow> (Inl (changed ''arm changed''), s)
      | Some c \<Rightarrow>
          if \<not> (k_scope c = sc \<and> k_provider c = provider \<and> k_revision c = expected_revision \<and> \<not> k_ready c \<and>
                 k_status c \<in> {''pending'', ''completed'', ''failed''})
          then (Inl (changed ''arm changed''), s)
          else (case continuation_of (c\<lparr>k_ready := True, k_revision := k_revision c + 1, k_updated_at := now\<rparr>) of
             Inl e \<Rightarrow> (Inl e, s)
           | Inr updated \<Rightarrow> (Inr updated, put_cont continuation_id updated s)))"


section \<open>A2A task snapshots\<close>

type_synonym iso_parser = "string \<Rightarrow> (rat \<times> bool) option"

definition zulu :: "string \<Rightarrow> string" where
  "zulu s = concat (map (\<lambda>c. if c = CHR ''Z'' then ''+00:00'' else [c]) s)"

definition parse_optional_timestamp :: "iso_parser \<Rightarrow> string option \<Rightarrow> exc + rat option" where
  "parse_optional_timestamp parse_iso value = (case value of None \<Rightarrow> Inr None
     | Some v \<Rightarrow> if blank v then Inl (ValueError ''A2A task timestamp must be a non-empty ISO timestamp'')
        else (case parse_iso (zulu v) of
           None \<Rightarrow> Inl (ValueError ''A2A task timestamp must be valid ISO-8601'')
         | Some (t, aware) \<Rightarrow> if \<not> aware then Inl (ValueError ''A2A task timestamp must include a timezone'')
             else Inr (Some t)))"

definition check_timestamp :: "iso_parser \<Rightarrow> string option \<Rightarrow> exc option" where
  "check_timestamp parse_iso value = (case parse_optional_timestamp parse_iso value of Inl e \<Rightarrow> Some e | Inr _ \<Rightarrow> None)"

definition check_a2a_task :: "iso_parser \<Rightarrow> a2a_task \<Rightarrow> exc option" where
  "check_a2a_task parse_iso x = check_all
     [require_fields [x_application_id x, x_user_id x, x_task_id x, x_context_id x],
      require (\<not> x_status x < 0) (ValueError ''A2A task status must be a non-negative integer''),
      check_timestamp parse_iso (x_status_timestamp x), check_timestamp parse_iso (Some (x_created_at x)),
      check_timestamp parse_iso (Some (x_updated_at x))]"

definition a2a_task_key :: "a2a_task \<Rightarrow> string \<times> string \<times> string" where
  "a2a_task_key x = (x_application_id x, x_user_id x, x_task_id x)"

definition put_a2a_task :: "iso_parser \<Rightarrow> string \<Rightarrow> a2a_task \<Rightarrow> memory_state \<Rightarrow> (memory_state, a2a_task) outcome" where
  "put_a2a_task parse_iso now record s =
     (let key = a2a_task_key record; current = map_of (m_a2a_tasks s) key in
      if (case current of None \<Rightarrow> False | Some c \<Rightarrow> x_context_id c \<noteq> x_context_id record)
      then (Inl (A2ATaskConflictError ''A2A task context cannot change after creation''), s)
      else (let stored = record\<lparr>x_created_at := (case current of None \<Rightarrow> x_created_at record | Some c \<Rightarrow> x_created_at c),
                                x_updated_at := now\<rparr>
            in case check_a2a_task parse_iso stored of Some e \<Rightarrow> (Inl e, s)
             | None \<Rightarrow> (Inr stored, s\<lparr>m_a2a_tasks := AList.update key stored (m_a2a_tasks s)\<rparr>)))"

definition get_a2a_task :: "string \<Rightarrow> string \<Rightarrow> string \<Rightarrow> memory_state \<Rightarrow> exc + a2a_task option" where
  "get_a2a_task application_id user_id task_id s =
     (case require_fields [application_id, user_id, task_id] of Some e \<Rightarrow> Inl e
      | None \<Rightarrow> Inr (map_of (m_a2a_tasks s) (application_id, user_id, task_id)))"

definition delete_a2a_task :: "string \<Rightarrow> string \<Rightarrow> string \<Rightarrow> memory_state \<Rightarrow> (memory_state, bool) outcome" where
  "delete_a2a_task application_id user_id task_id s =
     (case require_fields [application_id, user_id, task_id] of Some e \<Rightarrow> (Inl e, s)
      | None \<Rightarrow> (Inr (map_of (m_a2a_tasks s) (application_id, user_id, task_id) \<noteq> None),
          s\<lparr>m_a2a_tasks := AList.delete (application_id, user_id, task_id) (m_a2a_tasks s)\<rparr>))"

text \<open>
  The instant of a stored record: its timestamps were parsed when it was built, so parsing
  them again does not raise. A record without one sorts last whatever the second component.
\<close>

definition status_instant :: "iso_parser \<Rightarrow> a2a_task \<Rightarrow> rat option" where
  "status_instant parse_iso x = (case parse_optional_timestamp parse_iso (x_status_timestamp x) of Inl _ \<Rightarrow> None | Inr t \<Rightarrow> t)"

definition a2a_sort_key :: "iso_parser \<Rightarrow> a2a_task \<Rightarrow> bool \<times> rat \<times> string" where
  "a2a_sort_key parse_iso x = (case status_instant parse_iso x of None \<Rightarrow> (False, 0, x_task_id x) | Some t \<Rightarrow> (True, t, x_task_id x))"

definition matches_a2a_task :: "iso_parser \<Rightarrow> string \<Rightarrow> string \<Rightarrow> string option \<Rightarrow> int option \<Rightarrow> rat option
    \<Rightarrow> a2a_task \<Rightarrow> bool" where
  "matches_a2a_task parse_iso application_id user_id context_id status after x =
     (if x_application_id x \<noteq> application_id \<or> x_user_id x \<noteq> user_id then False
      else if context_id \<noteq> None \<and> Some (x_context_id x) \<noteq> context_id then False
      else if status \<noteq> None \<and> Some (x_status x) \<noteq> status then False
      else (case after of None \<Rightarrow> True
        | Some a \<Rightarrow> (case status_instant parse_iso x of None \<Rightarrow> False | Some t \<Rightarrow> t \<ge> a)))"

definition select_a2a_tasks :: "iso_parser \<Rightarrow> string \<Rightarrow> string \<Rightarrow> string option \<Rightarrow> int option \<Rightarrow> rat option
    \<Rightarrow> a2a_task list \<Rightarrow> a2a_task list" where
  "select_a2a_tasks parse_iso application_id user_id context_id status after xs =
     sort_desc (a2a_sort_key parse_iso) (filter (matches_a2a_task parse_iso application_id user_id context_id status after) xs)"

fun a2a_cursor_offset :: "a2a_task list \<Rightarrow> string \<Rightarrow> exc + nat" where
  "a2a_cursor_offset [] cursor = Inl (A2ATaskCursorError ''A2A task cursor is not valid for this list'')"
| "a2a_cursor_offset (x # xs) cursor =
     (if x_task_id x = cursor then Inr 0 else map_sum id Suc (a2a_cursor_offset xs cursor))"

definition require_a2a_list_options :: "iso_parser \<Rightarrow> string \<Rightarrow> string \<Rightarrow> string option \<Rightarrow> int option
    \<Rightarrow> string option \<Rightarrow> string option \<Rightarrow> int \<Rightarrow> exc option" where
  "require_a2a_list_options parse_iso application_id user_id context_id status after cursor limit = check_all
     [require_fields [application_id, user_id],
      (case context_id of None \<Rightarrow> None | Some v \<Rightarrow> require_fields [v]),
      (case cursor of None \<Rightarrow> None | Some v \<Rightarrow> require_fields [v]),
      (case status of None \<Rightarrow> None
        | Some st \<Rightarrow> require (\<not> st < 0) (ValueError ''A2A task status filter must be non-negative'')),
      check_timestamp parse_iso after,
      require (\<not> limit < 1) (ValueError ''A2A task list limit must be positive'')]"

text \<open>\<open>A2ATaskPage\<close> is the page and the size of the whole selection.\<close>

definition list_a2a_tasks :: "iso_parser \<Rightarrow> string \<Rightarrow> string \<Rightarrow> string option \<Rightarrow> int option
    \<Rightarrow> string option \<Rightarrow> string option \<Rightarrow> int \<Rightarrow> memory_state \<Rightarrow> exc + a2a_task list \<times> int" where
  "list_a2a_tasks parse_iso application_id user_id context_id status after cursor limit s =
     (case require_a2a_list_options parse_iso application_id user_id context_id status after cursor limit of
        Some e \<Rightarrow> Inl e
      | None \<Rightarrow> (case parse_optional_timestamp parse_iso after of Inl e \<Rightarrow> Inl e
        | Inr instant \<Rightarrow>
            (let selected = select_a2a_tasks parse_iso application_id user_id context_id status instant (map snd (m_a2a_tasks s))
             in case (case cursor of None \<Rightarrow> Inr 0 | Some c \<Rightarrow> a2a_cursor_offset selected c) of
                  Inl e \<Rightarrow> Inl e
                | Inr start \<Rightarrow> Inr (take (nat limit) (drop start selected), int (length selected)))))"

end
