(* ===== verification/Checkpoint_Machine.thy ===== *)
theory Checkpoint_Machine
  imports Continuation_Store
begin

text \<open>
  The operations of \<^verbatim>\<open>MemoryStore\<close> as one step function and the invariant its dictionaries
  keep. The invariant is stated per group of dictionaries, over the dictionaries themselves,
  so that an operation only meets the groups it writes.
\<close>

section \<open>The operations as one step function\<close>

datatype memory_op =
    Begin_Run string string string string string framework
  | Transition string run_scope run_status run_status "pending_action option"
  | Put_Checkpoint checkpoint_record run_scope "int option"
  | Put_Writes run_scope string "checkpoint_write list"
  | Suspend_Wait string continuation string
  | Resolve_Wait string run_scope string string string pyval "cont_failure option"
  | Cancel_Wait string run_scope string string int cont_failure
  | Claim_Wait string run_scope string string int
  | Arm_Wait string run_scope string string int
  | Delete_Run run_scope
  | Put_A2A string a2a_task
  | Delete_A2A string string string

fun memory_step :: "pylib \<Rightarrow> iso_parser \<Rightarrow> memory_op \<Rightarrow> memory_state \<Rightarrow> memory_state" where
  "memory_step lib parse (Begin_Run now app user sess run fw) s = snd (begin_run now app user sess run fw s)"
| "memory_step lib parse (Transition now sc old new pend) s = snd (transition now sc old new pend s)"
| "memory_step lib parse (Put_Checkpoint c sc v) s = snd (put_checkpoint c sc v s)"
| "memory_step lib parse (Put_Writes sc cid ws) s = snd (put_writes sc cid ws s)"
| "memory_step lib parse (Suspend_Wait now c ext) s = snd (suspend_continuation lib now c ext s)"
| "memory_step lib parse (Resolve_Wait now sc p ext schema res f) s = snd (resolve_continuation lib now sc p ext schema res f s)"
| "memory_step lib parse (Cancel_Wait now sc p cid v f) s = snd (cancel_continuation now sc p cid v f s)"
| "memory_step lib parse (Claim_Wait now sc p cid v) s = snd (claim_continuation now sc p cid v s)"
| "memory_step lib parse (Arm_Wait now sc p cid v) s = snd (arm_continuation now sc p cid v s)"
| "memory_step lib parse (Delete_Run sc) s = delete_run lib sc s"
| "memory_step lib parse (Put_A2A now x) s = snd (put_a2a_task parse now x s)"
| "memory_step lib parse (Delete_A2A app user task) s = snd (delete_a2a_task app user task s)"

text \<open>What a caller can pass: a continuation record has passed its constructor.\<close>

definition valid_op :: "memory_op \<Rightarrow> bool" where
  "valid_op op = (case op of Suspend_Wait now c ext \<Rightarrow> check_continuation c = None | _ \<Rightarrow> True)"


section \<open>The invariant\<close>

definition runs_inv :: "(string \<times> run_record) list \<Rightarrow> ((string \<times> string \<times> string) \<times> string) list \<Rightarrow> bool" where
  "runs_inv R A \<longleftrightarrow> dict_ok R \<and> dict_ok A \<and>
     (\<forall>k r. map_of R k = Some r \<longrightarrow> r_run_id r = k \<and> (r_pending_action r \<noteq> None \<longleftrightarrow> r_status r = Waiting)) \<and>
     (\<forall>key k. map_of A key = Some k \<longrightarrow>
        (\<exists>r. map_of R k = Some r \<and> run_key r = key \<and> \<not> terminal_run (r_status r)))"

definition checkpoints_inv :: "(string \<times> run_record) list \<Rightarrow> ((string \<times> string \<times> string) \<times> checkpoint_record) list \<Rightarrow> bool" where
  "checkpoints_inv R C \<longleftrightarrow> dict_ok C \<and>
     (\<forall>k c. map_of C k = Some c \<longrightarrow> checkpoint_key c = k \<and> map_of R (p_run_id c) \<noteq> None \<and> 0 \<le> p_revision c) \<and>
     (\<forall>k k' c c'. map_of C k = Some c \<and> map_of C k' = Some c' \<and> p_run_id c = p_run_id c' \<and>
        p_namespace c = p_namespace c' \<and> p_revision c = p_revision c' \<longrightarrow> k = k')"

definition writes_inv :: "(string \<times> run_record) list \<Rightarrow> ((string \<times> string) \<times> checkpoint_write list) list \<Rightarrow> bool" where
  "writes_inv R W \<longleftrightarrow> dict_ok W \<and> (\<forall>k ws. map_of W k = Some ws \<longrightarrow> map_of R (fst k) \<noteq> None)"

text \<open>The index entry a stored wait owns: its application, provider and identifier digest.\<close>

definition wait_key :: "pylib \<Rightarrow> (string \<times> continuation) list \<Rightarrow> (string \<times> string) list \<Rightarrow> string
    \<Rightarrow> (string \<times> string \<times> string) option" where
  "wait_key lib C I k = (case (map_of C k, map_of I k) of
       (Some c, Some ext) \<Rightarrow> (case external_id_key lib (k_provider c) ext of
          Inl _ \<Rightarrow> None | Inr d \<Rightarrow> Some (k_application_id c, k_provider c, d))
     | _ \<Rightarrow> None)"

definition waits_inv :: "pylib \<Rightarrow> (string \<times> continuation) list \<Rightarrow> (string \<times> string) list
    \<Rightarrow> ((string \<times> string \<times> string) \<times> string) list \<Rightarrow> bool" where
  "waits_inv lib C I K \<longleftrightarrow> dict_ok C \<and> dict_ok I \<and> dict_ok K \<and>
     (\<forall>k. map_of C k = None \<longleftrightarrow> wait_key lib C I k = None) \<and>
     (\<forall>k. map_of C k = None \<longleftrightarrow> map_of I k = None) \<and>
     (\<forall>key k. map_of K key = Some k \<longleftrightarrow> wait_key lib C I k = Some key) \<and>
     (\<forall>k c. map_of C k = Some c \<longrightarrow> k_continuation_id c = k \<and> check_continuation c = None)"

definition owners_inv :: "(string \<times> run_record) list \<Rightarrow> (string \<times> continuation) list \<Rightarrow> bool" where
  "owners_inv R C \<longleftrightarrow> (\<forall>k c. map_of C k = Some c \<longrightarrow> (\<exists>r. map_of R (k_run_id c) = Some r \<and> r_scope r = k_scope c))"

definition a2a_inv :: "((string \<times> string \<times> string) \<times> a2a_task) list \<Rightarrow> bool" where
  "a2a_inv X \<longleftrightarrow> dict_ok X \<and> (\<forall>k x. map_of X k = Some x \<longrightarrow> a2a_task_key x = k)"

definition memory_inv :: "pylib \<Rightarrow> memory_state \<Rightarrow> bool" where
  "memory_inv lib s \<longleftrightarrow> runs_inv (m_runs s) (m_active s) \<and> checkpoints_inv (m_runs s) (m_checkpoints s) \<and>
     writes_inv (m_runs s) (m_writes s) \<and> waits_inv lib (m_continuations s) (m_external_ids s) (m_external_keys s) \<and>
     owners_inv (m_runs s) (m_continuations s) \<and> a2a_inv (m_a2a_tasks s)"

lemma memory_inv_empty: "memory_inv lib empty_memory"
  by (simp add: memory_inv_def empty_memory_def runs_inv_def checkpoints_inv_def writes_inv_def
      waits_inv_def owners_inv_def a2a_inv_def wait_key_def)

lemma runs_invD:
  assumes "runs_inv R A"
  shows "dict_ok R" "map_of R k = Some r \<Longrightarrow> r_run_id r = k"
    "map_of R k = Some r \<Longrightarrow> r_pending_action r \<noteq> None \<longleftrightarrow> r_status r = Waiting"
    "map_of A key = Some k \<Longrightarrow> \<exists>r. map_of R k = Some r \<and> run_key r = key \<and> \<not> terminal_run (r_status r)"
  using assms unfolding runs_inv_def by blast+

lemma waits_invD:
  assumes "waits_inv lib C I K"
  shows "map_of C k = None \<longleftrightarrow> wait_key lib C I k = None" "map_of C k = None \<longleftrightarrow> map_of I k = None"
    "map_of K key = Some k \<longleftrightarrow> wait_key lib C I k = Some key"
    "map_of C k = Some c \<Longrightarrow> k_continuation_id c = k \<and> check_continuation c = None"
  using assms unfolding waits_inv_def by blast+


section \<open>Rewriting one record\<close>

lemma r_scope_eq_iff: "r_scope r = sc \<longleftrightarrow> r_application_id r = sc_application_id sc \<and>
    r_user_id r = sc_user_id sc \<and> r_session_id r = sc_session_id sc \<and> r_run_id r = sc_run_id sc"
  by (cases sc) (auto simp: r_scope_def)

lemma same_scope: "r_scope r' = r_scope r \<Longrightarrow> r_run_id r' = r_run_id r \<and> run_key r' = run_key r"
  by (simp add: r_scope_def run_key_def)

lemma owned_run_Some [simp]: "owned_run x sc = Some r \<longleftrightarrow> x = Some r \<and> r_scope r = sc"
  by (auto simp: owned_run_def split: option.splits)

lemma owned_run_None: "owned_run x sc = None \<longleftrightarrow> (\<forall>r. x = Some r \<longrightarrow> r_scope r \<noteq> sc)"
  by (auto simp: owned_run_def split: option.splits)

lemma require_owned_run_Inr [simp]: "require_owned_run x sc = Inr r \<longleftrightarrow> x = Some r \<and> r_scope r = sc"
  by (auto simp: require_owned_run_def owned_run_def split: option.splits)

lemma owned_run_own [simp]: "r_scope r = sc \<Longrightarrow> owned_run (Some r) sc = Some r"
  "r_scope r = sc \<Longrightarrow> require_owned_run (Some r) sc = Inr r"
  by (simp_all add: owned_run_def require_owned_run_def)

text \<open>
  A rewritten run keeps its owner; its session's entry goes when it becomes terminal (\<open>A'\<close> is
  the new index), and stays otherwise.
\<close>

lemma runs_inv_update:
  assumes inv: "runs_inv R A" and r: "map_of R k = Some r" and same: "r_scope r' = r_scope r"
    and pend: "r_pending_action r' \<noteq> None \<longleftrightarrow> r_status r' = Waiting"
    and A': "A' = (if terminal_run (r_status r') then AList.delete (run_key r) A else A)"
  shows "runs_inv (AList.update k r' R) A'"
proof -
  have k: "r_run_id r' = k" using runs_invD(2) [OF inv r] same_scope [OF same] by simp
  have "\<exists>q. (if j = k then Some r' else map_of R j) = Some q \<and> run_key q = key \<and> \<not> terminal_run (r_status q)"
    if "map_of A' key = Some j" for key j
  proof -
    have A: "map_of A key = Some j" and live: "terminal_run (r_status r') \<Longrightarrow> key \<noteq> run_key r"
      using that A' by (auto split: if_splits)
    from runs_invD(4) [OF inv A] obtain q where q: "map_of R j = Some q" "run_key q = key" "\<not> terminal_run (r_status q)"
      by blast
    show ?thesis
    proof (cases "j = k")
      case True
      with q r have "q = r" by simp
      with q live same_scope [OF same] show ?thesis using True by auto
    qed (use q in simp)
  qed
  moreover have "dict_ok A'" using inv A' by (simp add: runs_inv_def)
  ultimately show ?thesis using inv k pend unfolding runs_inv_def by simp
qed

lemma keep_runs:
  assumes "map_of R k = Some r" "r_scope r' = r_scope r"
  shows "checkpoints_inv (AList.update k r' R) C = checkpoints_inv R C"
    "writes_inv (AList.update k r' R) W = writes_inv R W"
    "owners_inv (AList.update k r' R) K = owners_inv R K"
proof -
  have "map_of (AList.update k r' R) j = None \<longleftrightarrow> map_of R j = None" for j
    using assms(1) by simp
  then show "checkpoints_inv (AList.update k r' R) C = checkpoints_inv R C"
    "writes_inv (AList.update k r' R) W = writes_inv R W"
    by (simp_all only: checkpoints_inv_def writes_inv_def)
  have "(\<exists>q. map_of (AList.update k r' R) j = Some q \<and> r_scope q = sc) \<longleftrightarrow> (\<exists>q. map_of R j = Some q \<and> r_scope q = sc)" for j sc
    using assms by simp
  then show "owners_inv (AList.update k r' R) K = owners_inv R K"
    by (simp only: owners_inv_def)
qed

text \<open>A rewritten wait keeps its identifier, its provider and its owner.\<close>

definition same_wait :: "continuation \<Rightarrow> continuation \<Rightarrow> bool" where
  "same_wait c d \<longleftrightarrow> k_continuation_id d = k_continuation_id c \<and> k_provider d = k_provider c \<and> k_scope d = k_scope c"

lemma wait_key_update:
  assumes "map_of C k = Some c" "same_wait c d"
  shows "wait_key lib (AList.update k d C) I j = wait_key lib C I j"
  using assms by (auto simp: wait_key_def same_wait_def k_scope_def split: option.split sum.split)

lemma waits_inv_update:
  assumes inv: "waits_inv lib C I K" and c: "map_of C k = Some c" and same: "same_wait c d"
    and ok: "check_continuation d = None"
  shows "waits_inv lib (AList.update k d C) I K"
proof -
  have "k_continuation_id d = k" using waits_invD(4) [OF inv c] same by (simp add: same_wait_def)
  moreover have "map_of C k \<noteq> None" using c by simp
  ultimately show ?thesis
    using inv ok waits_invD(1,2) [OF inv, of k]
    unfolding waits_inv_def wait_key_update [OF c same] by auto
qed

lemma owners_inv_update:
  assumes "owners_inv R C" "map_of C k = Some c" "same_wait c d"
  shows "owners_inv R (AList.update k d C)"
  using assms unfolding owners_inv_def same_wait_def k_scope_eq_iff
  by (auto simp: k_scope_def)

end
