(* ===== verification/Checkpoint_Safety.thy ===== *)
theory Checkpoint_Safety
  imports Checkpoint_Machine
begin

text \<open>
  Every operation of \<^verbatim>\<open>MemoryStore\<close> keeps \<open>memory_inv\<close>. Each operation first gets a case rule:
  it raises and leaves the state, or it succeeds, with what its guards established and the
  state it leaves.
\<close>

section \<open>What each operation does\<close>

lemma begin_run_cases:
  obtains (unchanged) "snd (begin_run now app user sess run fw s) = s"
      "\<And>r. fst (begin_run now app user sess run fw s) = Inr r \<Longrightarrow> run_at s run = Some r"
  | (begun) r where "run_at s run = None" "map_of (m_active s) (app, user, sess) = None"
      "r = \<lparr>r_application_id = app, r_user_id = user, r_session_id = sess, r_run_id = run,
            r_framework = fw, r_status = Running, r_revision = 0, r_pending_action = None,
            r_created_at = now, r_updated_at = now\<rparr>"
      "begin_run now app user sess run fw s =
         (Inr r, s\<lparr>m_runs := AList.update run r (m_runs s), m_active := AList.update (app, user, sess) run (m_active s)\<rparr>)"
proof (cases "require_fields [app, user, sess, run]")
  case None
  show ?thesis
  proof (cases "run_at s run")
    case empty: None
    show ?thesis
    proof (cases "map_of (m_active s) (app, user, sess)")
      case free: None
      show ?thesis by (rule begun [OF empty free refl]) (simp add: begin_run_def Let_def None empty free)
    next
      case (Some q)
      show ?thesis by (rule unchanged) (simp_all add: begin_run_def Let_def None empty Some)
    qed
  qed (use None in \<open>auto simp: begin_run_def validate_same_run_def Let_def split: if_splits intro!: unchanged\<close>)
qed (auto simp: begin_run_def intro: unchanged)

lemma transition_cases:
  obtains (unchanged) e where "transition now sc old new pend s = (Inl e, s)"
  | (moved) r r' where "run_at s (sc_run_id sc) = Some r" "r_scope r = sc" "r_status r = old"
      "new \<in> allowed_transitions old" "new = Waiting \<longleftrightarrow> pend \<noteq> None"
      "r' = r\<lparr>r_status := new, r_pending_action := pend, r_revision := r_revision r + 1, r_updated_at := now\<rparr>"
      "transition now sc old new pend s =
         (Inr r', s\<lparr>m_runs := AList.update (sc_run_id sc) r' (m_runs s),
            m_active := (if terminal_run new then AList.delete (run_key r) (m_active s) else m_active s)\<rparr>)"
proof (cases "validate_transition old new pend")
  case None
  then have ok: "new \<in> allowed_transitions old" "new = Waiting \<longleftrightarrow> pend \<noteq> None"
    by (auto simp: validate_transition_def split: if_splits)
  show ?thesis
  proof (cases "require_owned_run (run_at s (sc_run_id sc)) sc")
    case (Inr r)
    show ?thesis
    proof (cases "r_status r = old")
      case True
      then show ?thesis using None Inr ok by (intro moved) (auto simp: transition_def Let_def)
    qed (use None Inr in \<open>auto simp: transition_def intro: unchanged\<close>)
  qed (use None in \<open>auto simp: transition_def intro: unchanged\<close>)
qed (auto simp: transition_def intro: unchanged)

lemma put_checkpoint_cases:
  obtains (unchanged) e where "put_checkpoint c sc v s = (Inl e, s)"
  | (stored) r c' where "run_at s (p_run_id c) = Some r" "r_scope r = sc" "\<not> terminal_run (r_status r)"
      "c' = c\<lparr>p_revision := last_revision (p_run_id c) (p_namespace c) (map snd (m_checkpoints s)) + 1\<rparr>"
      "(case map_of (m_checkpoints s) (checkpoint_key c) of None \<Rightarrow> -1 | Some q \<Rightarrow> p_revision q) = (case v of None \<Rightarrow> -1 | Some n \<Rightarrow> n)"
      "put_checkpoint c sc v s = (Inr c', s\<lparr>m_checkpoints := AList.update (checkpoint_key c) c' (m_checkpoints s)\<rparr>)"
proof (cases "p_run_id c \<noteq> sc_run_id sc")
  case False
  show ?thesis
  proof (cases "require_owned_run (run_at s (p_run_id c)) sc")
    case (Inr r)
    show ?thesis
    proof (cases "require_running r")
      case None
      then have "\<not> terminal_run (r_status r)" by (auto simp: require_running_def terminal_run_def)
      then show ?thesis
        using False Inr None by (cases rule: disjE [OF excluded_middle
          [of "(case map_of (m_checkpoints s) (checkpoint_key c) of None \<Rightarrow> -1 | Some q \<Rightarrow> p_revision q) =
            (case v of None \<Rightarrow> -1 | Some n \<Rightarrow> n)"]])
          (auto simp: put_checkpoint_def Let_def intro: unchanged stored)
    qed (use False Inr in \<open>auto simp: put_checkpoint_def intro: unchanged\<close>)
  qed (use False in \<open>auto simp: put_checkpoint_def intro: unchanged\<close>)
qed (auto simp: put_checkpoint_def intro: unchanged)

lemma put_writes_cases:
  obtains (unchanged) e where "put_writes sc cid ws s = (Inl e, s)"
  | (stored) r where "run_at s (sc_run_id sc) = Some r" "r_scope r = sc" "\<not> terminal_run (r_status r)"
      "put_writes sc cid ws s = (Inr (), s\<lparr>m_writes := AList.update (sc_run_id sc, cid)
         (writes_at s (sc_run_id sc, cid) @
          filter (\<lambda>w. write_slot w \<notin> set (map write_slot (writes_at s (sc_run_id sc, cid)))) ws) (m_writes s)\<rparr>)"
proof (cases "require_owned_run (run_at s (sc_run_id sc)) sc")
  case (Inr r)
  show ?thesis
  proof (cases "require_running r")
    case None
    then have "\<not> terminal_run (r_status r)" by (auto simp: require_running_def terminal_run_def)
    then show ?thesis using Inr None by (intro stored) (auto simp: put_writes_def Let_def)
  qed (use Inr in \<open>auto simp: put_writes_def intro: unchanged\<close>)
qed (auto simp: put_writes_def intro: unchanged)

lemma suspend_cases:
  obtains (unchanged) e where "suspend_continuation lib now c ext s = (Inl e, s)"
  | (suspended) r r' d where "external_id_key lib (k_provider c) ext = Inr d"
      "run_at s (k_run_id c) = Some r" "r_scope r = k_scope c" "r_status r = Running"
      "cont_at s (k_continuation_id c) = None" "map_of (m_external_keys s) (k_application_id c, k_provider c, d) = None"
      "r' = r\<lparr>r_status := Waiting, r_pending_action := Some (k_pending_action c),
             r_revision := r_revision r + 1, r_updated_at := now\<rparr>"
      "suspend_continuation lib now c ext s = (Inr c,
         s\<lparr>m_continuations := AList.update (k_continuation_id c) c (m_continuations s),
           m_external_ids := AList.update (k_continuation_id c) ext (m_external_ids s),
           m_external_keys := AList.update (k_application_id c, k_provider c, d) (k_continuation_id c) (m_external_keys s),
           m_runs := AList.update (r_run_id r) r' (m_runs s)\<rparr>)"
proof (cases "external_id_key lib (k_provider c) ext")
  case (Inr d)
  show ?thesis
  proof (cases "owned_run (run_at s (k_run_id c)) (k_scope c)")
    case (Some r)
    show ?thesis
    proof (cases "r_status r = Running \<and> cont_at s (k_continuation_id c) = None \<and>
        map_of (m_external_keys s) (k_application_id c, k_provider c, d) = None")
      case True
      then show ?thesis using Inr Some by (intro suspended) (auto simp: suspend_continuation_def Let_def)
    next
      case False
      then have "\<exists>e. suspend_continuation lib now c ext s = (Inl e, s)" using Inr Some
        by (auto simp: suspend_continuation_def Let_def)
      then show ?thesis using unchanged by blast
    qed
  qed (use Inr in \<open>auto simp: suspend_continuation_def Let_def intro: unchanged\<close>)
qed (auto simp: suspend_continuation_def intro: unchanged)

text \<open>The four rewrites of a stored wait, by what they do to it and to its run.\<close>

definition settled_wait :: "string \<Rightarrow> pyval \<Rightarrow> cont_failure option \<Rightarrow> continuation \<Rightarrow> continuation" where
  "settled_wait now result failure c = c\<lparr>k_status := (if failure \<noteq> None then ''failed'' else ''completed''),
     k_result := result, k_failure := failure, k_revision := k_revision c + 1, k_updated_at := now\<rparr>"

lemma resolve_cases:
  obtains (unchanged) e where "resolve_continuation lib now sc p ext schema res f s = (Inl e, s)"
  | (resolved) c d v where "json_value res = Inr v" "f \<noteq> None \<Longrightarrow> v = PyNone" "external_id_key lib p ext = Inr d"
      "indexed_continuation (sc_application_id sc, p, d) s = Some c" "k_scope c = sc" "k_status c = ''pending''"
      "k_schema_id c = schema" "check_continuation (settled_wait now v f c) = None"
      "resolve_continuation lib now sc p ext schema res f s =
         (Inr (settled_wait now v f c), put_cont (k_continuation_id c) (settled_wait now v f c) s)"
proof (cases "validated_resolution res f")
  case (Inr vf)
  then obtain v where v: "json_value res = Inr v" "vf = (v, f)" "f \<noteq> None \<Longrightarrow> v = PyNone"
    by (auto simp: validated_resolution_def split: if_splits sum.splits)
  show ?thesis
  proof (cases "external_id_key lib p ext")
    case d: (Inr d)
    show ?thesis
    proof (cases "indexed_continuation (sc_application_id sc, p, d) s")
      case (Some c)
      show ?thesis
      proof (cases "k_scope c = sc \<and> k_status c = ''pending'' \<and> k_schema_id c = schema \<and>
          check_continuation (settled_wait now v f c) = None")
        case True
        then show ?thesis using Inr v d Some
          by (intro resolved) (auto simp: resolve_continuation_def settled_wait_def continuation_of_def)
      next
        case False
        then have "\<exists>e. resolve_continuation lib now sc p ext schema res f s = (Inl e, s)" using Inr v(2) d Some
          by (auto simp: resolve_continuation_def settled_wait_def continuation_of_def)
        then show ?thesis using unchanged by blast
      qed
    qed (use Inr v d in \<open>auto simp: resolve_continuation_def intro: unchanged\<close>)
  qed (use Inr v in \<open>auto simp: resolve_continuation_def intro: unchanged\<close>)
qed (auto simp: resolve_continuation_def intro: unchanged)

lemma cancel_cases:
  obtains (unchanged) e where "cancel_continuation now sc p cid v f s = (Inl e, s)"
  | (cancelled) c r d r' where "cont_at s cid = Some c" "run_at s (sc_run_id sc) = Some r" "r_scope r = sc" "k_scope c = sc"
      "k_provider c = p" "k_status c = ''pending''" "k_revision c = v" "r_status r = Waiting" "pending_id r = Some cid"
      "check_continuation d = None"
      "d = c\<lparr>k_status := ''failed'', k_failure := Some f, k_revision := k_revision c + 1, k_updated_at := now\<rparr>"
      "r' = r\<lparr>r_status := Cancelled, r_pending_action := None, r_revision := r_revision r + 1, r_updated_at := now\<rparr>"
      "cancel_continuation now sc p cid v f s = (Inr d,
         s\<lparr>m_continuations := AList.update cid d (m_continuations s),
           m_runs := AList.update (r_run_id r) r' (m_runs s), m_active := AList.delete (run_key r) (m_active s)\<rparr>)"
proof (cases "valid_continuation_cancel (cont_at s cid) (owned_run (run_at s (sc_run_id sc)) sc) p cid v")
  case True
  then obtain c r where cr: "cont_at s cid = Some c" "owned_run (run_at s (sc_run_id sc)) sc = Some r"
    and ok: "k_scope c = r_scope r" "k_provider c = p" "k_status c = ''pending''" "k_revision c = v"
      "r_status r = Waiting" "pending_id r = Some cid"
    by (auto simp: valid_continuation_cancel_def split: option.splits)
  define d where "d = c\<lparr>k_status := ''failed'', k_failure := Some f, k_revision := k_revision c + 1, k_updated_at := now\<rparr>"
  show ?thesis
  proof (cases "check_continuation d")
    case None
    then show ?thesis using True cr ok
      by (intro cancelled [of c r d]) (auto simp: cancel_continuation_def Let_def d_def continuation_of_def)
  qed (use True cr in \<open>auto simp: cancel_continuation_def Let_def d_def continuation_of_def intro: unchanged\<close>)
qed (auto simp: cancel_continuation_def Let_def intro: unchanged)

lemma claim_cases:
  obtains (unchanged) e where "claim_continuation now sc p cid v s = (Inl e, s)"
  | (claimed) c r d r' where "cont_at s cid = Some c" "run_at s (sc_run_id sc) = Some r" "r_scope r = sc" "k_scope c = sc"
      "k_provider c = p" "valid_continuation_claim c r cid v" "check_continuation d = None"
      "d = c\<lparr>k_status := ''claimed'', k_revision := k_revision c + 1, k_updated_at := now\<rparr>"
      "r' = r\<lparr>r_status := Running, r_pending_action := None, r_revision := r_revision r + 1, r_updated_at := now\<rparr>"
      "claim_continuation now sc p cid v s = (Inr d,
         s\<lparr>m_continuations := AList.update cid d (m_continuations s), m_runs := AList.update (r_run_id r) r' (m_runs s)\<rparr>)"
proof (cases "cont_at s cid")
  case (Some c)
  show ?thesis
  proof (cases "owned_run (run_at s (sc_run_id sc)) sc")
    case r: (Some r)
    define d where "d = c\<lparr>k_status := ''claimed'', k_revision := k_revision c + 1, k_updated_at := now\<rparr>"
    show ?thesis
    proof (cases "k_scope c = sc \<and> k_provider c = p \<and> valid_continuation_claim c r cid v \<and> check_continuation d = None")
      case True
      then show ?thesis using Some r
        by (intro claimed [of c r d]) (auto simp: claim_continuation_def d_def continuation_of_def)
    next
      case False
      then have "\<exists>e. claim_continuation now sc p cid v s = (Inl e, s)" using Some r
        by (auto simp: claim_continuation_def d_def continuation_of_def)
      then show ?thesis using unchanged by blast
    qed
  qed (use Some in \<open>auto simp: claim_continuation_def intro: unchanged\<close>)
qed (auto simp: claim_continuation_def intro: unchanged)

lemma arm_cases:
  obtains (unchanged) e where "arm_continuation now sc p cid v s = (Inl e, s)"
  | (armed) c d where "cont_at s cid = Some c" "k_scope c = sc" "k_provider c = p" "k_revision c = v" "\<not> k_ready c"
      "k_status c \<in> {''pending'', ''completed'', ''failed''}" "check_continuation d = None"
      "d = c\<lparr>k_ready := True, k_revision := k_revision c + 1, k_updated_at := now\<rparr>"
      "arm_continuation now sc p cid v s = (Inr d, put_cont cid d s)"
proof (cases "cont_at s cid")
  case (Some c)
  define d where "d = c\<lparr>k_ready := True, k_revision := k_revision c + 1, k_updated_at := now\<rparr>"
  show ?thesis
  proof (cases "k_scope c = sc \<and> k_provider c = p \<and> k_revision c = v \<and> \<not> k_ready c \<and>
      k_status c \<in> {''pending'', ''completed'', ''failed''} \<and> check_continuation d = None")
    case True
    then show ?thesis using Some
      by (intro armed [of c d]) (auto simp: arm_continuation_def d_def continuation_of_def)
  next
    case False
    then have "\<exists>e. arm_continuation now sc p cid v s = (Inl e, s)" using Some
      by (auto simp: arm_continuation_def d_def continuation_of_def)
    then show ?thesis using unchanged by blast
  qed
qed (auto simp: arm_continuation_def intro: unchanged)


section \<open>Every operation keeps the invariant\<close>

lemma memory_invD:
  assumes "memory_inv lib s"
  shows "runs_inv (m_runs s) (m_active s)" "checkpoints_inv (m_runs s) (m_checkpoints s)"
    "writes_inv (m_runs s) (m_writes s)" "waits_inv lib (m_continuations s) (m_external_ids s) (m_external_keys s)"
    "owners_inv (m_runs s) (m_continuations s)" "a2a_inv (m_a2a_tasks s)"
  using assms unfolding memory_inv_def by blast+

lemma memory_inv_put_run:
  assumes inv: "memory_inv lib s" and r: "run_at s k = Some r" and same: "r_scope r' = r_scope r"
    and pend: "r_pending_action r' \<noteq> None \<longleftrightarrow> r_status r' = Waiting"
  shows "memory_inv lib (s\<lparr>m_runs := AList.update k r' (m_runs s),
    m_active := (if terminal_run (r_status r') then AList.delete (run_key r) (m_active s) else m_active s)\<rparr>)"
  unfolding memory_inv_def
  using memory_invD [OF inv] runs_inv_update [OF memory_invD(1) [OF inv] r same pend refl] keep_runs [OF r same]
  by simp

lemma memory_inv_put_cont:
  assumes inv: "memory_inv lib s" and c: "cont_at s k = Some c" and same: "same_wait c d" and ok: "check_continuation d = None"
  shows "memory_inv lib (put_cont k d s)"
  unfolding memory_inv_def
  using memory_invD [OF inv] waits_inv_update [OF memory_invD(4) [OF inv] c same ok] owners_inv_update [OF memory_invD(5) [OF inv] c same]
  by simp

lemma begin_run_inv [inv_intros]:
  assumes inv: "memory_inv lib s"
  shows "memory_inv lib (snd (begin_run now app user sess run fw s))"
proof (cases rule: begin_run_cases [of now app user sess run fw s])
  case (begun r)
  note R = memory_invD [OF inv]
  have dom: "map_of (AList.update run r (m_runs s)) j = None \<Longrightarrow> map_of (m_runs s) j = None" for j
    by (auto split: if_splits)
  have absent: "map_of (m_active s) key \<noteq> Some run" for key
    using runs_invD(4) [OF R(1)] begun(1) by fastforce
  have "runs_inv (AList.update run r (m_runs s)) (AList.update (app, user, sess) run (m_active s))"
    using R(1) absent unfolding runs_inv_def begun(3) by (auto simp: run_key_def terminal_run_def)
  moreover have "checkpoints_inv (AList.update run r (m_runs s)) (m_checkpoints s)"
    using R(2) dom unfolding checkpoints_inv_def by blast
  moreover have "writes_inv (AList.update run r (m_runs s)) (m_writes s)"
    using R(3) dom unfolding writes_inv_def by blast
  moreover have "owners_inv (AList.update run r (m_runs s)) (m_continuations s)"
    using R(5) begun(1) unfolding owners_inv_def by fastforce
  ultimately show ?thesis using R by (simp add: begun(4) memory_inv_def)
qed (simp add: inv)

lemma transition_inv [inv_intros]:
  assumes inv: "memory_inv lib s"
  shows "memory_inv lib (snd (transition now sc old new pend s))"
proof (cases rule: transition_cases [of now sc old new pend s])
  case (moved r r')
  have "memory_inv lib (s\<lparr>m_runs := AList.update (sc_run_id sc) r' (m_runs s),
    m_active := (if terminal_run (r_status r') then AList.delete (run_key r) (m_active s) else m_active s)\<rparr>)"
    by (rule memory_inv_put_run [OF inv moved(1)]) (use moved(5) in \<open>simp_all add: moved(6) r_scope_def\<close>)
  moreover have "r_status r' = new" by (simp add: moved(6))
  ultimately show ?thesis by (simp add: moved(7))
qed (simp add: inv)

lemma last_revision_ge:
  "c \<in> set cs \<Longrightarrow> p_revision c \<le> last_revision (p_run_id c) (p_namespace c) cs"
  by (induction cs) (auto simp: last_revision_def)

lemma last_revision_ge_minus_one: "-1 \<le> last_revision run ns cs"
  by (induction cs) (auto simp: last_revision_def)

lemma put_checkpoint_inv [inv_intros]:
  assumes inv: "memory_inv lib s"
  shows "memory_inv lib (snd (put_checkpoint c sc v s))"
proof (cases rule: put_checkpoint_cases [of c sc v s])
  case (stored r c')
  let ?C = "m_checkpoints s" and ?k = "checkpoint_key c"
  note R = memory_invD [OF inv]
  have dict: "dict_ok ?C" and ok: "\<And>k q. map_of ?C k = Some q \<Longrightarrow> checkpoint_key q = k \<and> map_of (m_runs s) (p_run_id q) \<noteq> None \<and> 0 \<le> p_revision q"
    and inj: "\<And>k k' q q'. map_of ?C k = Some q \<Longrightarrow> map_of ?C k' = Some q' \<Longrightarrow> p_run_id q = p_run_id q' \<Longrightarrow>
      p_namespace q = p_namespace q' \<Longrightarrow> p_revision q = p_revision q' \<Longrightarrow> k = k'"
    using R(2) unfolding checkpoints_inv_def by blast+
  have key: "checkpoint_key c' = ?k" "p_run_id c' = p_run_id c" "p_namespace c' = p_namespace c" "0 \<le> p_revision c'"
    using last_revision_ge_minus_one [of "p_run_id c" "p_namespace c" "map snd ?C"]
    by (simp_all add: stored(4) checkpoint_key_def)
  have above: "p_revision q < p_revision c'"
    if "map_of ?C k = Some q" "p_run_id q = p_run_id c" "p_namespace q = p_namespace c" for k q
  proof -
    have "q \<in> set (map snd ?C)" using dict_values_iff [OF dict] that(1) by blast
    from last_revision_ge [OF this] that show ?thesis by (simp add: stored(4))
  qed
  have "checkpoints_inv (m_runs s) (AList.update ?k c' ?C)"
    unfolding checkpoints_inv_def
  proof (intro conjI allI impI)
    show "dict_ok (AList.update ?k c' ?C)" using dict by simp
    fix k q assume "map_of (AList.update ?k c' ?C) k = Some q"
    then show "checkpoint_key q = k" "map_of (m_runs s) (p_run_id q) \<noteq> None" "0 \<le> p_revision q"
      using ok [of k q] key stored(1) by (auto split: if_splits)
  next
    fix k k' q q'
    assume a: "map_of (AList.update ?k c' ?C) k = Some q \<and> map_of (AList.update ?k c' ?C) k' = Some q' \<and>
      p_run_id q = p_run_id q' \<and> p_namespace q = p_namespace q' \<and> p_revision q = p_revision q'"
    then show "k = k'"
      using inj [of k q k' q'] above [of k q] above [of k' q'] key by (auto split: if_splits)
  qed
  then show ?thesis using R by (simp add: stored(6) memory_inv_def)
qed (simp add: inv)

lemma put_writes_inv [inv_intros]:
  assumes inv: "memory_inv lib s"
  shows "memory_inv lib (snd (put_writes sc cid ws s))"
proof (cases rule: put_writes_cases [of sc cid ws s])
  case (stored r)
  have "writes_inv (m_runs s) (AList.update (sc_run_id sc, cid) qs (m_writes s))" for qs
    using memory_invD(3) [OF inv] stored(1) unfolding writes_inv_def by auto
  then show ?thesis using memory_invD [OF inv] by (simp add: stored(4) memory_inv_def)
qed (simp add: inv)

lemma suspend_waits:
  assumes inv: "waits_inv lib C I K" and c: "map_of C (k_continuation_id c) = None" "check_continuation c = None"
    and d: "external_id_key lib (k_provider c) ext = Inr d" "map_of K (k_application_id c, k_provider c, d) = None"
  shows "waits_inv lib (AList.update (k_continuation_id c) c C) (AList.update (k_continuation_id c) ext I)
    (AList.update (k_application_id c, k_provider c, d) (k_continuation_id c) K)"
proof -
  let ?k = "k_continuation_id c"
  have wk: "wait_key lib (AList.update ?k c C) (AList.update ?k ext I) j =
      (if j = ?k then Some (k_application_id c, k_provider c, d) else wait_key lib C I j)" for j
    using d(1) by (simp add: wait_key_def)
  have none: "wait_key lib C I ?k = None" using waits_invD(1) [OF inv] c(1) by blast
  have other: "wait_key lib C I j \<noteq> Some (k_application_id c, k_provider c, d)" for j
    using waits_invD(3) [OF inv, of "(k_application_id c, k_provider c, d)" j] d(2) by auto
  have keys: "map_of (AList.update (k_application_id c, k_provider c, d) ?k K) key = Some j \<longleftrightarrow>
      (if j = ?k then Some (k_application_id c, k_provider c, d) else wait_key lib C I j) = Some key" for key j
  proof (cases "key = (k_application_id c, k_provider c, d)")
    case True
    then show ?thesis using other [of j] by auto
  next
    case False
    then show ?thesis using waits_invD(3) [OF inv, of key j] none by auto
  qed
  have "map_of (AList.update ?k c C) j = None \<longleftrightarrow>
      (if j = ?k then Some (k_application_id c, k_provider c, d) else wait_key lib C I j) = None"
    "map_of (AList.update ?k c C) j = None \<longleftrightarrow> map_of (AList.update ?k ext I) j = None" for j
    using waits_invD(1,2) [OF inv, of j] by auto
  with inv c(2) keys show ?thesis
    unfolding waits_inv_def wk by simp
qed

lemma suspend_inv [inv_intros]:
  assumes inv: "memory_inv lib s" and ok: "check_continuation c = None"
  shows "memory_inv lib (snd (suspend_continuation lib now c ext s))"
proof (cases rule: suspend_cases [of lib now c ext s])
  case (suspended r r' d)
  have id: "r_run_id r = k_run_id c" using runs_invD(2) [OF memory_invD(1) [OF inv] suspended(2)] .
  have "memory_inv lib (s\<lparr>m_runs := AList.update (k_run_id c) r' (m_runs s),
    m_active := (if terminal_run (r_status r') then AList.delete (run_key r) (m_active s) else m_active s)\<rparr>)"
    by (rule memory_inv_put_run [OF inv suspended(2)]) (simp_all add: suspended(7) r_scope_def)
  moreover have "\<not> terminal_run (r_status r')" by (simp add: suspended(7) terminal_run_def)
  ultimately have run: "memory_inv lib (s\<lparr>m_runs := AList.update (k_run_id c) r' (m_runs s)\<rparr>)" by simp
  have "owners_inv (AList.update (k_run_id c) r' (m_runs s)) (AList.update (k_continuation_id c) c (m_continuations s))"
    using memory_invD(5) [OF run] suspended(3) unfolding owners_inv_def
    by (auto simp: suspended(7) r_scope_def)
  then show ?thesis
    using memory_invD [OF run] suspend_waits [OF memory_invD(4) [OF inv] suspended(5) ok suspended(1,6)]
    by (simp add: suspended(8) id memory_inv_def)
qed (simp add: inv)

lemma indexed_at:
  assumes inv: "memory_inv lib s" and c: "indexed_continuation key s = Some c"
  shows "cont_at s (k_continuation_id c) = Some c" "map_of (m_external_keys s) key = Some (k_continuation_id c)"
proof -
  note W = waits_invD [OF memory_invD(4) [OF inv]]
  obtain k where k: "cont_at s k = Some c" "k = (case map_of (m_external_keys s) key of None \<Rightarrow> [] | Some k \<Rightarrow> k)"
    using c by (simp add: indexed_continuation_def)
  have id: "k_continuation_id c = k" "check_continuation c = None" using W(4) [OF k(1)] by simp_all
  then have "\<not> blank k" by (auto simp: check_continuation_def require_text_def)
  then have "k \<noteq> []" by (auto simp: blank_def)
  with k id show "cont_at s (k_continuation_id c) = Some c" "map_of (m_external_keys s) key = Some (k_continuation_id c)"
    by (auto split: option.splits)
qed

lemma resolve_inv [inv_intros]:
  assumes inv: "memory_inv lib s"
  shows "memory_inv lib (snd (resolve_continuation lib now sc p ext schema res f s))"
proof (cases rule: resolve_cases [of lib now sc p ext schema res f s])
  case (resolved c d v)
  have "memory_inv lib (put_cont (k_continuation_id c) (settled_wait now v f c) s)"
    by (rule memory_inv_put_cont [OF inv indexed_at(1) [OF inv resolved(4)] _ resolved(8)])
      (simp add: same_wait_def settled_wait_def k_scope_def)
  then show ?thesis by (simp add: resolved(9))
qed (simp add: inv)

lemma cancel_wait_inv [inv_intros]:
  assumes inv: "memory_inv lib s"
  shows "memory_inv lib (snd (cancel_continuation now sc p cid v f s))"
proof (cases rule: cancel_cases [of now sc p cid v f s])
  case (cancelled c r d r')
  have "memory_inv lib (put_cont cid d s)"
    by (rule memory_inv_put_cont [OF inv cancelled(1)])
      (use cancelled(10) in \<open>simp_all add: cancelled(11) same_wait_def k_scope_def\<close>)
  then have "memory_inv lib ((put_cont cid d s)\<lparr>m_runs := AList.update (sc_run_id sc) r' (m_runs (put_cont cid d s)),
    m_active := (if terminal_run (r_status r') then AList.delete (run_key r) (m_active (put_cont cid d s)) else m_active (put_cont cid d s))\<rparr>)"
    by (rule memory_inv_put_run) (use cancelled(2) in \<open>simp_all add: cancelled(12) r_scope_def\<close>)
  moreover have "terminal_run (r_status r')" by (simp add: cancelled(12) terminal_run_def)
  moreover have "r_run_id r = sc_run_id sc" using runs_invD(2) [OF memory_invD(1) [OF inv] cancelled(2)] .
  ultimately show ?thesis by (simp add: cancelled(13))
qed (simp add: inv)

lemma claim_wait_inv [inv_intros]:
  assumes inv: "memory_inv lib s"
  shows "memory_inv lib (snd (claim_continuation now sc p cid v s))"
proof (cases rule: claim_cases [of now sc p cid v s])
  case (claimed c r d r')
  have "memory_inv lib (put_cont cid d s)"
    by (rule memory_inv_put_cont [OF inv claimed(1)])
      (use claimed(7) in \<open>simp_all add: claimed(8) same_wait_def k_scope_def\<close>)
  then have "memory_inv lib ((put_cont cid d s)\<lparr>m_runs := AList.update (sc_run_id sc) r' (m_runs (put_cont cid d s)),
    m_active := (if terminal_run (r_status r') then AList.delete (run_key r) (m_active (put_cont cid d s)) else m_active (put_cont cid d s))\<rparr>)"
    by (rule memory_inv_put_run) (use claimed(2) in \<open>simp_all add: claimed(9) r_scope_def\<close>)
  moreover have "\<not> terminal_run (r_status r')" by (simp add: claimed(9) terminal_run_def)
  moreover have "r_run_id r = sc_run_id sc" using runs_invD(2) [OF memory_invD(1) [OF inv] claimed(2)] .
  ultimately show ?thesis by (simp add: claimed(10))
qed (simp add: inv)

lemma arm_inv [inv_intros]:
  assumes inv: "memory_inv lib s"
  shows "memory_inv lib (snd (arm_continuation now sc p cid v s))"
proof (cases rule: arm_cases [of now sc p cid v s])
  case (armed c d)
  have "memory_inv lib (put_cont cid d s)"
    by (rule memory_inv_put_cont [OF inv armed(1)])
      (use armed(7) in \<open>simp_all add: armed(8) same_wait_def k_scope_def\<close>)
  then show ?thesis by (simp add: armed(9))
qed (simp add: inv)


section \<open>Deleting a run\<close>

lemma remove_continuation_frame [simp]:
  "m_runs (remove_continuation lib k s) = m_runs s" "m_active (remove_continuation lib k s) = m_active s"
  "m_checkpoints (remove_continuation lib k s) = m_checkpoints s" "m_writes (remove_continuation lib k s) = m_writes s"
  "m_a2a_tasks (remove_continuation lib k s) = m_a2a_tasks s"
  "m_continuations (remove_continuation lib k s) = AList.delete k (m_continuations s)"
  "m_external_ids (remove_continuation lib k s) = AList.delete k (m_external_ids s)"
  by (simp_all add: remove_continuation_def Let_def split: option.split sum.split)

lemma remove_continuation_waits:
  assumes inv: "waits_inv lib (m_continuations s) (m_external_ids s) (m_external_keys s)"
  shows "waits_inv lib (AList.delete k (m_continuations s)) (AList.delete k (m_external_ids s))
    (m_external_keys (remove_continuation lib k s))"
proof -
  let ?C = "m_continuations s" and ?I = "m_external_ids s" and ?K = "m_external_keys s"
  let ?K' = "m_external_keys (remove_continuation lib k s)"
  have wk: "wait_key lib (AList.delete k ?C) (AList.delete k ?I) j = (if j = k then None else wait_key lib ?C ?I j)" for j
    by (simp add: wait_key_def)
  have K': "?K' = (case wait_key lib ?C ?I k of None \<Rightarrow> ?K | Some key \<Rightarrow> AList.delete key ?K)"
    by (simp add: remove_continuation_def wait_key_def Let_def split: option.split sum.split)
  have "map_of ?K' key = Some j \<longleftrightarrow> j \<noteq> k \<and> wait_key lib ?C ?I j = Some key" for key j
  proof (cases "wait_key lib ?C ?I k")
    case None
    then show ?thesis using waits_invD(3) [OF inv, of key j] by (auto simp: K')
  next
    case (Some key')
    then have "map_of ?K key' = Some k" using waits_invD(3) [OF inv] by blast
    then show ?thesis using waits_invD(3) [OF inv, of key j] Some by (auto simp: K')
  qed
  moreover have "dict_ok ?K'" using inv by (auto simp: K' waits_inv_def split: option.split)
  ultimately show ?thesis using inv unfolding waits_inv_def wk by auto
qed

lemma fold_remove [simp]:
  "m_runs (fold (remove_continuation lib) ids s) = m_runs s"
  "m_active (fold (remove_continuation lib) ids s) = m_active s"
  "m_checkpoints (fold (remove_continuation lib) ids s) = m_checkpoints s"
  "m_writes (fold (remove_continuation lib) ids s) = m_writes s"
  "m_a2a_tasks (fold (remove_continuation lib) ids s) = m_a2a_tasks s"
  "cont_at (fold (remove_continuation lib) ids s) k = (if k \<in> set ids then None else cont_at s k)"
  by (induction ids arbitrary: s) auto

lemma fold_remove_waits:
  "waits_inv lib (m_continuations s) (m_external_ids s) (m_external_keys s) \<Longrightarrow>
   waits_inv lib (m_continuations (fold (remove_continuation lib) ids s))
     (m_external_ids (fold (remove_continuation lib) ids s)) (m_external_keys (fold (remove_continuation lib) ids s))"
proof (induction ids arbitrary: s)
  case (Cons k ids)
  then show ?case using remove_continuation_waits [OF Cons.prems, of k] by simp
qed simp

text \<open>What \<open>delete_run\<close> leaves: everything of the run is gone, everything else is as it was.\<close>

lemma delete_run_cases:
  assumes inv: "memory_inv lib s"
  obtains (unchanged) "get_run sc s = None" "delete_run lib sc s = s"
  | (deleted) r t where "run_at s (sc_run_id sc) = Some r" "r_scope r = sc" "delete_run lib sc s = t"
      "m_runs t = AList.delete (sc_run_id sc) (m_runs s)" "m_active t = AList.delete (run_key r) (m_active s)"
      "m_checkpoints t = filter (\<lambda>(k, _). fst k \<noteq> sc_run_id sc) (m_checkpoints s)"
      "m_writes t = filter (\<lambda>(k, _). fst k \<noteq> sc_run_id sc) (m_writes s)" "m_a2a_tasks t = m_a2a_tasks s"
      "\<And>k. cont_at t k = (case cont_at s k of None \<Rightarrow> None | Some c \<Rightarrow> if k_run_id c = sc_run_id sc then None else Some c)"
      "waits_inv lib (m_continuations t) (m_external_ids t) (m_external_keys t)"
proof (cases "get_run sc s")
  case (Some r)
  then have r: "run_at s (sc_run_id sc) = Some r" "r_scope r = sc" by (simp_all add: get_run_def)
  let ?ids = "map k_continuation_id (filter (\<lambda>c. k_run_id c = sc_run_id sc) (map snd (m_continuations s)))"
  have dict: "dict_ok (m_continuations s)" using memory_invD(4) [OF inv] by (simp add: waits_inv_def)
  have ids: "k \<in> set ?ids \<longleftrightarrow> (\<exists>c. cont_at s k = Some c \<and> k_run_id c = sc_run_id sc)" for k
  proof -
    have "k \<in> set ?ids \<longleftrightarrow> (\<exists>c j. cont_at s j = Some c \<and> k_run_id c = sc_run_id sc \<and> k = k_continuation_id c)"
      using dict_values_iff [OF dict] by (fastforce simp del: set_map simp: set_map [of k_continuation_id])
    then show ?thesis using waits_invD(4) [OF memory_invD(4) [OF inv]] by metis
  qed
  let ?s1 = "s\<lparr>m_runs := AList.delete (sc_run_id sc) (m_runs s), m_active := AList.delete (run_key r) (m_active s),
      m_checkpoints := filter (\<lambda>(k, _). fst k \<noteq> sc_run_id sc) (m_checkpoints s),
      m_writes := filter (\<lambda>(k, _). fst k \<noteq> sc_run_id sc) (m_writes s)\<rparr>"
  have eq: "delete_run lib sc s = fold (remove_continuation lib) ?ids ?s1"
    by (simp add: delete_run_def r Let_def)
  have cont: "cont_at (fold (remove_continuation lib) ?ids ?s1) k =
      (case cont_at s k of None \<Rightarrow> None | Some c \<Rightarrow> if k_run_id c = sc_run_id sc then None else Some c)" for k
    using ids [of k] by (auto simp del: set_map split: option.split)
  have "waits_inv lib (m_continuations ?s1) (m_external_ids ?s1) (m_external_keys ?s1)"
    using memory_invD(4) [OF inv] by simp
  from fold_remove_waits [OF this, of ?ids] show ?thesis
    by (intro deleted [OF r eq _ _ _ _ _ cont]) simp_all
qed (auto simp: get_run_def delete_run_def intro: unchanged)


lemma map_of_filter_key:
  "map_of (filter (\<lambda>(k, _). P k) d) k = (if P k then map_of d k else None)"
  by (induction d) auto

lemma checkpoints_invD:
  assumes "checkpoints_inv R C"
  shows "dict_ok C" "map_of C k = Some c \<Longrightarrow> checkpoint_key c = k" "map_of C k = Some c \<Longrightarrow> map_of R (p_run_id c) \<noteq> None"
    "map_of C k = Some c \<Longrightarrow> map_of C k' = Some c' \<Longrightarrow> p_run_id c = p_run_id c' \<Longrightarrow>
      p_namespace c = p_namespace c' \<Longrightarrow> p_revision c = p_revision c' \<Longrightarrow> k = k'"
    "map_of C k = Some c \<Longrightarrow> 0 \<le> p_revision c"
  using assms unfolding checkpoints_inv_def by blast+

lemma checkpoints_inv_sub:
  assumes inv: "checkpoints_inv R C" and "dict_ok C'"
    and sub: "\<And>k c. map_of C' k = Some c \<Longrightarrow> map_of C k = Some c \<and> map_of R' (p_run_id c) \<noteq> None"
  shows "checkpoints_inv R' C'"
  unfolding checkpoints_inv_def
proof (intro conjI allI impI)
  fix k c assume c: "map_of C' k = Some c"
  then show "map_of R' (p_run_id c) \<noteq> None" using sub by blast
  from c sub have "map_of C k = Some c" by blast
  then show "checkpoint_key c = k" "0 \<le> p_revision c" by (fact checkpoints_invD(2,5) [OF inv])+
next
  fix k k' c c'
  assume "map_of C' k = Some c \<and> map_of C' k' = Some c' \<and> p_run_id c = p_run_id c' \<and>
    p_namespace c = p_namespace c' \<and> p_revision c = p_revision c'"
  then show "k = k'" using sub [of k c] sub [of k' c'] checkpoints_invD(4) [OF inv, of k c k' c'] by blast
qed (fact assms)

lemma delete_run_inv [inv_intros]:
  assumes inv: "memory_inv lib s"
  shows "memory_inv lib (delete_run lib sc s)"
  using inv
proof (cases rule: delete_run_cases [of lib s sc, case_names unchanged deleted])
  case (deleted r t)
  note R = memory_invD [OF inv]
  have id: "r_run_id r = sc_run_id sc" using runs_invD(2) [OF R(1) deleted(1)] .
  have "runs_inv (m_runs t) (m_active t)"
    unfolding runs_inv_def
  proof (intro conjI allI impI)
    fix key k assume "map_of (m_active t) key = Some k"
    then have A: "map_of (m_active s) key = Some k" "key \<noteq> run_key r" by (auto simp: deleted(5) split: if_splits)
    from runs_invD(4) [OF R(1) A(1)] obtain q where q: "run_at s k = Some q" "run_key q = key" "\<not> terminal_run (r_status q)" by blast
    with A(2) deleted(1) have "k \<noteq> sc_run_id sc" by auto
    with q show "\<exists>q. map_of (m_runs t) k = Some q \<and> run_key q = key \<and> \<not> terminal_run (r_status q)"
      by (simp add: deleted(4))
  qed (use R(1) runs_invD(2,3) [OF R(1)] in \<open>auto simp: deleted(4,5) runs_inv_def split: if_splits\<close>)
  moreover have "checkpoints_inv (m_runs t) (m_checkpoints t)"
  proof -
    have "map_of (m_checkpoints s) k = Some c \<and> map_of (m_runs t) (p_run_id c) \<noteq> None"
      if "map_of (m_checkpoints t) k = Some c" for k c
    proof -
      from that have c: "map_of (m_checkpoints s) k = Some c" "fst k \<noteq> sc_run_id sc"
        unfolding deleted(6) map_of_filter_key by (auto split: if_splits)
      with checkpoints_invD(2,3) [OF R(2) c(1)] show ?thesis
        by (auto simp: deleted(4) checkpoint_key_def)
    qed
    moreover have "dict_ok (m_checkpoints t)" using checkpoints_invD(1) [OF R(2)] by (simp add: deleted(6))
    ultimately show ?thesis by (intro checkpoints_inv_sub [OF R(2)]) blast+
  qed
  moreover have "writes_inv (m_runs t) (m_writes t)"
    using R(3) unfolding writes_inv_def deleted(4,7) map_of_filter_key by (auto split: if_splits)
  moreover have "owners_inv (m_runs t) (m_continuations t)"
    using R(5) unfolding owners_inv_def deleted(4,9) by (auto split: option.splits if_splits)
  moreover have "a2a_inv (m_a2a_tasks t)" using R(6) by (simp add: deleted(8))
  ultimately show ?thesis using deleted(3,10) by (simp add: memory_inv_def)
qed (use inv in simp_all)

lemma put_a2a_inv [inv_intros]:
  assumes inv: "memory_inv lib s"
  shows "memory_inv lib (snd (put_a2a_task parse now x s))"
proof -
  have "a2a_inv (AList.update (a2a_task_key x) y (m_a2a_tasks s))" if "a2a_task_key y = a2a_task_key x" for y
    using memory_invD(6) [OF inv] that by (simp add: a2a_inv_def)
  then show ?thesis using inv memory_invD [OF inv]
    by (auto simp: put_a2a_task_def Let_def a2a_task_key_def memory_inv_def split: option.split)
qed

lemma delete_a2a_inv [inv_intros]:
  assumes inv: "memory_inv lib s"
  shows "memory_inv lib (snd (delete_a2a_task app user task s))"
  using inv memory_invD [OF inv]
  by (auto simp: delete_a2a_task_def memory_inv_def a2a_inv_def split: option.split)

lemma memory_step_inv:
  assumes "memory_inv lib s" "valid_op op"
  shows "memory_inv lib (memory_step lib parse op s)"
  using assms by (cases op) (auto intro: inv_intros simp: valid_op_def)

interpretation mem: guarded_store empty_memory "memory_step lib parse" valid_op "memory_inv lib" for lib parse
  by unfold_locales (auto intro: memory_inv_empty memory_step_inv)

end
