(* ===== verification/Checkpoint_Waits.thy ===== *)
theory Checkpoint_Waits
  imports Checkpoint_Safety
begin

text \<open>
  The life of a durable wait as a step relation, and what the operations of the store leave
  alone. Every operation moves every stored wait along the relation, or deletes it with the
  run that owns it.
\<close>

section \<open>Frames\<close>

lemma keeps_continuations [simp]:
  "m_continuations (snd (begin_run now app user sess run fw s)) = m_continuations s"
  "m_continuations (snd (transition now sc old new pend s)) = m_continuations s"
  "m_continuations (snd (put_checkpoint cp sc v s)) = m_continuations s"
  "m_continuations (snd (put_writes sc cid ws s)) = m_continuations s"
  "m_continuations (snd (put_a2a_task parse now x s)) = m_continuations s"
  "m_continuations (snd (delete_a2a_task app user task s)) = m_continuations s"
  subgoal by (cases rule: begin_run_cases [of now app user sess run fw s]) simp_all
  subgoal by (cases rule: transition_cases [of now sc old new pend s]) simp_all
  subgoal by (cases rule: put_checkpoint_cases [of cp sc v s]) simp_all
  subgoal by (cases rule: put_writes_cases [of sc cid ws s]) simp_all
  subgoal by (simp add: put_a2a_task_def Let_def split: option.split)
  subgoal by (simp add: delete_a2a_task_def split: option.split)
  done

lemma keeps_indexes [simp]:
  "m_external_ids (snd (begin_run now app user sess run fw s)) = m_external_ids s"
  "m_external_ids (snd (transition now sc old new pend s)) = m_external_ids s"
  "m_external_ids (snd (put_checkpoint cp sc v s)) = m_external_ids s"
  "m_external_ids (snd (put_writes sc cid ws s)) = m_external_ids s"
  "m_external_ids (snd (put_a2a_task parse now x s)) = m_external_ids s"
  "m_external_ids (snd (delete_a2a_task app user task s)) = m_external_ids s"
  "m_external_ids (snd (resolve_continuation lib now sc p ext schema res f s)) = m_external_ids s"
  "m_external_ids (snd (cancel_continuation now sc p cid n fl s)) = m_external_ids s"
  "m_external_ids (snd (claim_continuation now sc p cid n s)) = m_external_ids s"
  "m_external_ids (snd (arm_continuation now sc p cid n s)) = m_external_ids s"
  subgoal by (cases rule: begin_run_cases [of now app user sess run fw s]) simp_all
  subgoal by (cases rule: transition_cases [of now sc old new pend s]) simp_all
  subgoal by (cases rule: put_checkpoint_cases [of cp sc v s]) simp_all
  subgoal by (cases rule: put_writes_cases [of sc cid ws s]) simp_all
  subgoal by (simp add: put_a2a_task_def Let_def split: option.split)
  subgoal by (simp add: delete_a2a_task_def split: option.split)
  subgoal by (cases rule: resolve_cases [of lib now sc p ext schema res f s]) simp_all
  subgoal by (cases rule: cancel_cases [of now sc p cid n fl s]) simp_all
  subgoal by (cases rule: claim_cases [of now sc p cid n s]) simp_all
  subgoal by (cases rule: arm_cases [of now sc p cid n s]) simp_all
  done


text \<open>Deleting a run drops waits and identifiers together, so a wait that stays keeps its own.\<close>

lemma fold_remove_external_id:
  "cont_at (fold (remove_continuation lib) ids s) k \<noteq> None \<Longrightarrow>
   map_of (m_external_ids (fold (remove_continuation lib) ids s)) k = map_of (m_external_ids s) k"
  by (induction ids arbitrary: s) (auto split: if_splits)

lemma delete_run_external_id:
  "cont_at (delete_run lib sc s) k = Some c \<Longrightarrow>
   map_of (m_external_ids (delete_run lib sc s)) k = map_of (m_external_ids s) k"
  unfolding delete_run_def Let_def
  by (auto split: option.splits simp del: fold_remove simp: fold_remove_external_id)


section \<open>The life of a wait\<close>

inductive wait_move :: "continuation \<Rightarrow> continuation \<Rightarrow> bool" where
  stay: "wait_move c c"
| settled: "k_status c = ''pending'' \<Longrightarrow> (f \<noteq> None \<Longrightarrow> v = PyNone) \<Longrightarrow> wait_move c (settled_wait now v f c)"
| armed: "\<not> k_ready c \<Longrightarrow> k_status c \<in> {''pending'', ''completed'', ''failed''} \<Longrightarrow>
     wait_move c (c\<lparr>k_ready := True, k_revision := k_revision c + 1, k_updated_at := now\<rparr>)"
| claimed: "k_ready c \<Longrightarrow> k_status c \<in> {''completed'', ''failed''} \<Longrightarrow>
     wait_move c (c\<lparr>k_status := ''claimed'', k_revision := k_revision c + 1, k_updated_at := now\<rparr>)"

inductive_cases wait_moveE: "wait_move c d"

lemma wait_move_identity:
  assumes "wait_move c d"
  shows "same_wait c d" "k_schema_id d = k_schema_id c" "k_resume d = k_resume c" "k_principal_grants d = k_principal_grants c"
  using assms by (induction rule: wait_move.induct) (auto simp: same_wait_def settled_wait_def k_scope_def)

lemma wait_move_revision: "wait_move c d \<Longrightarrow> d = c \<or> k_revision d = k_revision c + 1"
  by (induction rule: wait_move.induct) (auto simp: settled_wait_def)

lemma wait_move_outcome:
  "wait_move c d \<Longrightarrow> k_status c \<noteq> ''pending'' \<Longrightarrow>
   k_status d \<noteq> ''pending'' \<and> k_result d = k_result c \<and> k_failure d = k_failure c"
  by (induction rule: wait_move.induct) auto

lemma wait_move_claimed: "wait_move c d \<Longrightarrow> k_status c = ''claimed'' \<Longrightarrow> d = c"
  by (induction rule: wait_move.induct) auto

text \<open>A cancellation is a settlement with a failure: a pending wait has no result.\<close>

lemma cancel_settles:
  assumes "check_continuation c = None" "k_status c = ''pending''"
  shows "c\<lparr>k_status := ''failed'', k_failure := Some f, k_revision := k_revision c + 1, k_updated_at := now\<rparr> =
    settled_wait now PyNone (Some f) c"
  using assms by (auto simp: check_continuation_def record_payload_iff settled_wait_def)

lemma wait_step:
  assumes inv: "memory_inv lib s" and c: "cont_at s k = Some c"
  shows "(\<exists>d. cont_at (memory_step lib parse op s) k = Some d \<and> wait_move c d) \<or> op = Delete_Run (k_scope c)"
proof (cases op)
  case (Suspend_Wait now q ext)
  then show ?thesis using c
    by (cases rule: suspend_cases [of lib now q ext s]) (auto intro: wait_move.stay)
next
  case (Resolve_Wait now sc p ext schema res f)
  show ?thesis
  proof (cases rule: resolve_cases [of lib now sc p ext schema res f s])
    case (resolved q d v)
    have "wait_move q (settled_wait now v f q)" by (rule wait_move.settled [OF resolved(6,2)])
    with indexed_at [OF inv resolved(4)] c resolved(9) Resolve_Wait show ?thesis
      by (auto intro: wait_move.stay)
  qed (use c Resolve_Wait in \<open>auto intro: wait_move.stay\<close>)
next
  case (Cancel_Wait now sc p cid v f)
  show ?thesis
  proof (cases rule: cancel_cases [of now sc p cid v f s])
    case (cancelled q r d r')
    have "check_continuation q = None" using waits_invD(4) [OF memory_invD(4) [OF inv] cancelled(1)] by simp
    from cancel_settles [OF this cancelled(6)] c cancelled(1,6,11,13) Cancel_Wait show ?thesis
      by (auto intro: wait_move.stay wait_move.settled)
  qed (use c Cancel_Wait in \<open>auto intro: wait_move.stay\<close>)
next
  case (Claim_Wait now sc p cid v)
  show ?thesis
  proof (cases rule: claim_cases [of now sc p cid v s])
    case (claimed q r d r')
    then show ?thesis using c Claim_Wait
      by (auto simp: valid_continuation_claim_def intro: wait_move.stay wait_move.claimed)
  qed (use c Claim_Wait in \<open>auto intro: wait_move.stay\<close>)
next
  case (Arm_Wait now sc p cid v)
  show ?thesis
  proof (cases rule: arm_cases [of now sc p cid v s])
    case (armed q d)
    then show ?thesis using c Arm_Wait by (auto intro: wait_move.stay wait_move.armed)
  qed (use c Arm_Wait in \<open>auto intro: wait_move.stay\<close>)
next
  case (Delete_Run sc)
  show ?thesis
    using inv
  proof (cases rule: delete_run_cases [of lib s sc, case_names unchanged deleted])
    case (deleted r t)
    from memory_invD(5) [OF inv] c obtain q where q: "run_at s (k_run_id c) = Some q" "r_scope q = k_scope c"
      unfolding owners_inv_def by blast
    show ?thesis
    proof (cases "k_run_id c = sc_run_id sc")
      case True
      with q deleted(1,2) have "k_scope c = sc" by simp
      with Delete_Run show ?thesis by simp
    qed (use c Delete_Run deleted(3,9) in \<open>auto intro: wait_move.stay\<close>)
  qed (use c Delete_Run in \<open>auto intro: wait_move.stay\<close>)
qed (use c in \<open>auto intro: wait_move.stay\<close>)


section \<open>Runs of the store that keep a wait\<close>

definition keeps_run :: "run_scope \<Rightarrow> memory_op \<Rightarrow> bool" where
  "keeps_run sc op \<longleftrightarrow> valid_op op \<and> op \<noteq> Delete_Run sc"

abbreviation memory_run :: "pylib \<Rightarrow> iso_parser \<Rightarrow> memory_op list \<Rightarrow> memory_state \<Rightarrow> memory_state" where
  "memory_run lib parse ops s \<equiv> fold (memory_step lib parse) ops s"

lemma memory_run_inv:
  assumes "memory_inv lib s" "list_all (keeps_run sc) ops"
  shows "memory_inv lib (memory_run lib parse ops s)"
  using assms(1) by (rule mem.inv_fold) (use assms(2) in \<open>auto simp: list_all_iff keeps_run_def\<close>)

lemma wait_run:
  assumes "memory_inv lib s" "cont_at s k = Some c" "list_all (keeps_run (k_scope c)) ops"
  shows "\<exists>d. cont_at (memory_run lib parse ops s) k = Some d \<and> wait_move\<^sup>*\<^sup>* c d"
  using assms
proof (induction ops arbitrary: s c)
  case (Cons op ops)
  then have op: "valid_op op" "op \<noteq> Delete_Run (k_scope c)" by (simp_all add: keeps_run_def)
  from wait_step [OF Cons.prems(1,2), of parse op] op(2)
  obtain d where d: "cont_at (memory_step lib parse op s) k = Some d" "wait_move c d" by blast
  have "k_scope d = k_scope c" using wait_move_identity(1) [OF d(2)] by (simp add: same_wait_def)
  with Cons.IH [OF memory_step_inv [OF Cons.prems(1) op(1)] d(1)] Cons.prems(3) obtain q
    where "cont_at (memory_run lib parse ops (memory_step lib parse op s)) k = Some q" "wait_move\<^sup>*\<^sup>* d q" by auto
  with d(2) show ?case by (auto intro: converse_rtranclp_into_rtranclp)
qed auto

lemma wait_moves_identity: "wait_move\<^sup>*\<^sup>* c d \<Longrightarrow> same_wait c d"
  by (induction rule: rtranclp_induct) (auto simp: same_wait_def dest: wait_move_identity(1))

lemma wait_moves_outcome:
  assumes "wait_move\<^sup>*\<^sup>* c d" "k_status c \<noteq> ''pending''"
  shows "k_status d \<noteq> ''pending'' \<and> k_result d = k_result c \<and> k_failure d = k_failure c"
  using assms by (induction rule: rtranclp_induct) (auto dest: wait_move_outcome)

lemma wait_moves_claimed: "wait_move\<^sup>*\<^sup>* c d \<Longrightarrow> k_status c = ''claimed'' \<Longrightarrow> d = c"
  by (induction rule: rtranclp_induct) (auto dest: wait_move_claimed)

lemma wait_moves_revision: "wait_move\<^sup>*\<^sup>* c d \<Longrightarrow> d = c \<or> k_revision c < k_revision d"
  by (induction rule: rtranclp_induct) (auto dest: wait_move_revision)

end
