(* ===== verification/Continuation_Provider.thy ===== *)
theory Continuation_Provider
  imports Checkpoint_Waits
begin

text \<open>
  \<^verbatim>\<open>ContinuationProvider\<close>: the facade the host hands to a plugin, bound to one application and
  one provider. It is written against an interface, the store of durable waits, whose law is
  that an operation issued for an application and a provider leaves the waits of every other
  one alone; \<^verbatim>\<open>MemoryStore\<close> satisfies it.
\<close>

section \<open>The facade\<close>

record provider =
  pv_application_id :: string
  pv_provider :: string

definition provider_of :: "string \<Rightarrow> string \<Rightarrow> exc + provider" where
  "provider_of application_id name =
     (case check_all [require_text application_id ''application_id'', require_name name ''provider''] of
        Some e \<Rightarrow> Inl e
      | None \<Rightarrow> Inr \<lparr>pv_application_id = application_id, pv_provider = name\<rparr>)"

definition provider_scope :: "provider \<Rightarrow> string \<Rightarrow> string \<Rightarrow> string \<Rightarrow> exc + run_scope" where
  "provider_scope p user_id session_id run_id =
     (let sc = \<lparr>sc_application_id = pv_application_id p, sc_user_id = user_id, sc_session_id = session_id, sc_run_id = run_id\<rparr>
      in case check_run_scope sc of Some e \<Rightarrow> Inl e | None \<Rightarrow> Inr sc)"

definition owned_by :: "provider \<Rightarrow> continuation \<Rightarrow> bool" where
  "owned_by p c \<longleftrightarrow> k_application_id c = pv_application_id p \<and> k_provider c = pv_provider p"

text \<open>\<open>token\<close> is \<^verbatim>\<open>secrets.token_urlsafe(24)\<close>; \<open>store\<close> is \<^verbatim>\<open>suspend_continuation\<close> of the store.\<close>

definition provider_suspend :: "(string \<Rightarrow> continuation \<Rightarrow> string \<Rightarrow> 's \<Rightarrow> ('s, continuation) outcome) \<Rightarrow> provider
    \<Rightarrow> string \<Rightarrow> string \<Rightarrow> string \<Rightarrow> string \<Rightarrow> string \<Rightarrow> string \<Rightarrow> string \<Rightarrow> string \<Rightarrow> resume_artifact
    \<Rightarrow> grant_snapshot option \<Rightarrow> 's \<Rightarrow> ('s, continuation) outcome" where
  "provider_suspend store p now token user_id session_id run_id external_id capability schema_id resume grants s =
     (case require_external_id external_id of Some e \<Rightarrow> (Inl e, s)
      | None \<Rightarrow> (case continuation_of \<lparr>k_continuation_id = token, k_application_id = pv_application_id p,
            k_user_id = user_id, k_session_id = session_id, k_run_id = run_id, k_provider = pv_provider p,
            k_capability = capability, k_schema_id = schema_id, k_resume = Some resume, k_principal_grants = grants,
            k_status = ''pending'', k_ready = False, k_revision = 0, k_result = PyNone, k_failure = None,
            k_created_at = now, k_updated_at = now\<rparr> of
          Inl e \<Rightarrow> (Inl e, s)
        | Inr record \<Rightarrow> store now record external_id s))"

text \<open>\<^verbatim>\<open>_resolve\<close>, shared by success and failure.\<close>

definition provider_resolve :: "(string \<Rightarrow> run_scope \<Rightarrow> string \<Rightarrow> string \<Rightarrow> string \<Rightarrow> pyval \<Rightarrow> cont_failure option \<Rightarrow> 's
    \<Rightarrow> ('s, continuation) outcome) \<Rightarrow> provider \<Rightarrow> string \<Rightarrow> string \<Rightarrow> string \<Rightarrow> string \<Rightarrow> string \<Rightarrow> string \<Rightarrow> pyval
    \<Rightarrow> cont_failure option \<Rightarrow> 's \<Rightarrow> ('s, continuation) outcome" where
  "provider_resolve store p now user_id session_id run_id external_id schema_id result failure s =
     (case require_external_id external_id of Some e \<Rightarrow> (Inl e, s)
      | None \<Rightarrow> (case provider_scope p user_id session_id run_id of Inl e \<Rightarrow> (Inl e, s)
        | Inr sc \<Rightarrow> store now sc (pv_provider p) external_id schema_id result failure s))"

definition provider_complete :: "(string \<Rightarrow> run_scope \<Rightarrow> string \<Rightarrow> string \<Rightarrow> string \<Rightarrow> pyval \<Rightarrow> cont_failure option \<Rightarrow> 's
    \<Rightarrow> ('s, continuation) outcome) \<Rightarrow> provider \<Rightarrow> string \<Rightarrow> string \<Rightarrow> string \<Rightarrow> string \<Rightarrow> string \<Rightarrow> string \<Rightarrow> pyval
    \<Rightarrow> (pyval \<Rightarrow> pyval option) \<Rightarrow> 's \<Rightarrow> ('s, continuation) outcome" where
  "provider_complete store p now user_id session_id run_id external_id schema_id result validate s =
     (case validated_result result validate of Inl e \<Rightarrow> (Inl e, s)
      | Inr normalized \<Rightarrow> provider_resolve store p now user_id session_id run_id external_id schema_id normalized None s)"

definition provider_fail :: "(string \<Rightarrow> run_scope \<Rightarrow> string \<Rightarrow> string \<Rightarrow> string \<Rightarrow> pyval \<Rightarrow> cont_failure option \<Rightarrow> 's
    \<Rightarrow> ('s, continuation) outcome) \<Rightarrow> provider \<Rightarrow> string \<Rightarrow> string \<Rightarrow> string \<Rightarrow> string \<Rightarrow> string \<Rightarrow> string
    \<Rightarrow> cont_failure \<Rightarrow> 's \<Rightarrow> ('s, continuation) outcome" where
  "provider_fail store p now user_id session_id run_id external_id schema_id failure s =
     provider_resolve store p now user_id session_id run_id external_id schema_id PyNone (Some failure) s"

definition provider_claim :: "(string \<Rightarrow> run_scope \<Rightarrow> string \<Rightarrow> string \<Rightarrow> int \<Rightarrow> 's \<Rightarrow> ('s, continuation) outcome)
    \<Rightarrow> provider \<Rightarrow> string \<Rightarrow> string \<Rightarrow> string \<Rightarrow> string \<Rightarrow> string \<Rightarrow> int \<Rightarrow> 's \<Rightarrow> ('s, continuation) outcome" where
  "provider_claim store p now user_id session_id run_id continuation_id expected_revision s =
     (if expected_revision < 1 then (Inl (ValueError ''expected_revision must be a positive integer''), s)
      else case provider_scope p user_id session_id run_id of Inl e \<Rightarrow> (Inl e, s)
       | Inr sc \<Rightarrow> store now sc (pv_provider p) continuation_id expected_revision s)"

definition provider_guard :: "provider \<Rightarrow> continuation \<Rightarrow> exc option" where
  "provider_guard p record = check_all
     [require (k_application_id record = pv_application_id p) (ContinuationConflictError ''continuation application changed''),
      require (k_provider record = pv_provider p) (ContinuationConflictError ''continuation provider changed'')]"

definition provider_arm :: "(string \<Rightarrow> run_scope \<Rightarrow> string \<Rightarrow> string \<Rightarrow> int \<Rightarrow> 's \<Rightarrow> ('s, continuation) outcome)
    \<Rightarrow> provider \<Rightarrow> string \<Rightarrow> continuation \<Rightarrow> 's \<Rightarrow> ('s, continuation) outcome" where
  "provider_arm store p now record s = (case provider_guard p record of Some e \<Rightarrow> (Inl e, s)
     | None \<Rightarrow> store now (k_scope record) (pv_provider p) (k_continuation_id record) (k_revision record) s)"

definition provider_cancel :: "(string \<Rightarrow> run_scope \<Rightarrow> string \<Rightarrow> string \<Rightarrow> int \<Rightarrow> cont_failure \<Rightarrow> 's \<Rightarrow> ('s, continuation) outcome)
    \<Rightarrow> provider \<Rightarrow> string \<Rightarrow> continuation \<Rightarrow> cont_failure \<Rightarrow> 's \<Rightarrow> ('s, continuation) outcome" where
  "provider_cancel store p now record failure s = (case provider_guard p record of Some e \<Rightarrow> (Inl e, s)
     | None \<Rightarrow> store now (k_scope record) (pv_provider p) (k_continuation_id record) (k_revision record) failure s)"

definition provider_lookup :: "pylib \<Rightarrow> provider \<Rightarrow> string \<Rightarrow> memory_state \<Rightarrow> exc + provider_pending option" where
  "provider_lookup lib p external_id s = (case require_external_id external_id of Some e \<Rightarrow> Inl e
     | None \<Rightarrow> get_continuation_by_external_id lib (pv_application_id p) (pv_provider p) external_id s)"

definition provider_get :: "provider \<Rightarrow> string \<Rightarrow> string \<Rightarrow> string \<Rightarrow> string \<Rightarrow> memory_state \<Rightarrow> exc + continuation option" where
  "provider_get p user_id session_id run_id continuation_id s =
     (case provider_scope p user_id session_id run_id of Inl e \<Rightarrow> Inl e
      | Inr sc \<Rightarrow> Inr (get_continuation sc continuation_id s))"

definition provider_get_pending :: "provider \<Rightarrow> string \<Rightarrow> string \<Rightarrow> string \<Rightarrow> string \<Rightarrow> memory_state
    \<Rightarrow> exc + provider_pending option" where
  "provider_get_pending p user_id session_id run_id continuation_id s =
     (case provider_scope p user_id session_id run_id of Inl e \<Rightarrow> Inl e
      | Inr sc \<Rightarrow> get_provider_continuation sc (pv_provider p) continuation_id s)"

definition provider_list_pending :: "provider \<Rightarrow> string option \<Rightarrow> int \<Rightarrow> memory_state \<Rightarrow> exc + provider_pending list" where
  "provider_list_pending p after limit s = (case require_continuation_page after limit of Some e \<Rightarrow> Inl e
     | None \<Rightarrow> list_pending_continuations (pv_application_id p) (pv_provider p) after limit s)"


section \<open>The interface of the store\<close>

text \<open>
  \<open>wait_of\<close> reads a wait. The five laws say whose waits an operation may write: the scope names the
  application, the argument names the provider. \<open>ok\<close> is what the store keeps of its state.
\<close>

locale wait_store =
  fixes ok :: "'s \<Rightarrow> bool" and wait_of :: "'s \<Rightarrow> string \<Rightarrow> continuation option"
    and suspend :: "string \<Rightarrow> continuation \<Rightarrow> string \<Rightarrow> 's \<Rightarrow> ('s, continuation) outcome"
    and resolve :: "string \<Rightarrow> run_scope \<Rightarrow> string \<Rightarrow> string \<Rightarrow> string \<Rightarrow> pyval \<Rightarrow> cont_failure option \<Rightarrow> 's \<Rightarrow> ('s, continuation) outcome"
    and claim :: "string \<Rightarrow> run_scope \<Rightarrow> string \<Rightarrow> string \<Rightarrow> int \<Rightarrow> 's \<Rightarrow> ('s, continuation) outcome"
    and arm :: "string \<Rightarrow> run_scope \<Rightarrow> string \<Rightarrow> string \<Rightarrow> int \<Rightarrow> 's \<Rightarrow> ('s, continuation) outcome"
    and cancel :: "string \<Rightarrow> run_scope \<Rightarrow> string \<Rightarrow> string \<Rightarrow> int \<Rightarrow> cont_failure \<Rightarrow> 's \<Rightarrow> ('s, continuation) outcome"
  assumes ok_suspend: "ok s \<Longrightarrow> check_continuation c = None \<Longrightarrow> ok (snd (suspend now c ext s))"
    and ok_resolve: "ok s \<Longrightarrow> ok (snd (resolve now sc p ext schema res f s))"
    and ok_claim: "ok s \<Longrightarrow> ok (snd (claim now sc p cid v s))"
    and ok_arm: "ok s \<Longrightarrow> ok (snd (arm now sc p cid v s))"
    and ok_cancel: "ok s \<Longrightarrow> ok (snd (cancel now sc p cid v fl s))"
    and suspend_frame: "ok s \<Longrightarrow> wait_of s k = Some q \<Longrightarrow> wait_of (snd (suspend now c ext s)) k = Some q"
    and resolve_frame: "ok s \<Longrightarrow> wait_of s k = Some q \<Longrightarrow> k_application_id q \<noteq> sc_application_id sc \<or> k_provider q \<noteq> p \<Longrightarrow>
      wait_of (snd (resolve now sc p ext schema res f s)) k = Some q"
    and claim_frame: "ok s \<Longrightarrow> wait_of s k = Some q \<Longrightarrow> k_application_id q \<noteq> sc_application_id sc \<or> k_provider q \<noteq> p \<Longrightarrow>
      wait_of (snd (claim now sc p cid v s)) k = Some q"
    and arm_frame: "ok s \<Longrightarrow> wait_of s k = Some q \<Longrightarrow> k_application_id q \<noteq> sc_application_id sc \<or> k_provider q \<noteq> p \<Longrightarrow>
      wait_of (snd (arm now sc p cid v s)) k = Some q"
    and cancel_frame: "ok s \<Longrightarrow> wait_of s k = Some q \<Longrightarrow> k_application_id q \<noteq> sc_application_id sc \<or> k_provider q \<noteq> p \<Longrightarrow>
      wait_of (snd (cancel now sc p cid v fl s)) k = Some q"

text \<open>A call of the facade, with everything the plugin chooses.\<close>

datatype provider_call =
    P_Suspend string string string string string string string string resume_artifact "grant_snapshot option"
  | P_Complete string string string string string string pyval "pyval \<Rightarrow> pyval option"
  | P_Fail string string string string string string cont_failure
  | P_Claim string string string string string int
  | P_Arm string continuation
  | P_Cancel string continuation cont_failure

fun provider_step where
  "provider_step suspend resolve claim arm cancel p (P_Suspend now tok user sess run ext cap schema art g) s =
     snd (provider_suspend suspend p now tok user sess run ext cap schema art g s)"
| "provider_step suspend resolve claim arm cancel p (P_Complete now user sess run ext schema res val) s =
     snd (provider_complete resolve p now user sess run ext schema res val s)"
| "provider_step suspend resolve claim arm cancel p (P_Fail now user sess run ext schema f) s =
     snd (provider_fail resolve p now user sess run ext schema f s)"
| "provider_step suspend resolve claim arm cancel p (P_Claim now user sess run cid v) s =
     snd (provider_claim claim p now user sess run cid v s)"
| "provider_step suspend resolve claim arm cancel p (P_Arm now c) s = snd (provider_arm arm p now c s)"
| "provider_step suspend resolve claim arm cancel p (P_Cancel now c f) s = snd (provider_cancel cancel p now c f s)"

context wait_store
begin

abbreviation call :: "provider \<Rightarrow> provider_call \<Rightarrow> 's \<Rightarrow> 's" where
  "call \<equiv> provider_step suspend resolve claim arm cancel"

lemma scope_application: "provider_scope p u se r = Inr sc \<Longrightarrow> sc_application_id sc = pv_application_id p"
  by (auto simp: provider_scope_def Let_def split: option.splits)

lemma guard_application: "provider_guard p c = None \<Longrightarrow> sc_application_id (k_scope c) = pv_application_id p"
  by (simp add: provider_guard_def k_scope_def)

lemma call_ok: "ok s \<Longrightarrow> ok (call p op s)"
  by (cases op) (simp_all add: provider_suspend_def provider_complete_def provider_fail_def provider_resolve_def
      provider_claim_def provider_arm_def provider_cancel_def ok_suspend ok_resolve ok_claim ok_arm ok_cancel
      continuation_of_def split: option.split sum.split)

lemma call_frame:
  assumes "ok s" "wait_of s k = Some q" "\<not> owned_by p q"
  shows "wait_of (call p op s) k = Some q"
proof -
  have scoped: "k_application_id q \<noteq> sc_application_id sc \<or> k_provider q \<noteq> pv_provider p"
    if "provider_scope p u se r = Inr sc" for u se r sc
    using assms(3) scope_application [OF that] by (auto simp: owned_by_def)
  have guarded: "k_application_id q \<noteq> sc_application_id (k_scope c) \<or> k_provider q \<noteq> pv_provider p"
    if "provider_guard p c = None" for c
    using assms(3) guard_application [OF that] by (auto simp: owned_by_def)
  note frames = suspend_frame [OF assms(1,2)] resolve_frame [OF assms(1,2) scoped] claim_frame [OF assms(1,2) scoped]
    arm_frame [OF assms(1,2) guarded] cancel_frame [OF assms(1,2) guarded]
  show ?thesis
    using assms(2)
    by (cases op) (auto simp: provider_suspend_def provider_complete_def provider_fail_def provider_resolve_def
        provider_claim_def provider_arm_def provider_cancel_def intro: frames split: option.split sum.split)
qed

lemma calls_frame:
  "ok s \<Longrightarrow> wait_of s k = Some q \<Longrightarrow> \<not> owned_by p q \<Longrightarrow> wait_of (fold (call p) ops s) k = Some q"
  by (induction ops arbitrary: s) (simp_all add: call_ok call_frame)

end


section \<open>The in-memory store provides it\<close>

lemma indexed_provider:
  assumes inv: "memory_inv lib s" and c: "indexed_continuation (app, p, d) s = Some c"
  shows "k_application_id c = app \<and> k_provider c = p"
proof -
  have "wait_key lib (m_continuations s) (m_external_ids s) (k_continuation_id c) = Some (app, p, d)"
    using waits_invD(3) [OF memory_invD(4) [OF inv]] indexed_at(2) [OF inv c] by blast
  with indexed_at(1) [OF inv c] show ?thesis by (auto simp: wait_key_def split: option.splits sum.splits)
qed

lemma resolve_keeps_foreign:
  assumes "memory_inv lib s" "cont_at s k = Some q" "k_application_id q \<noteq> sc_application_id sc \<or> k_provider q \<noteq> p"
  shows "cont_at (snd (resolve_continuation lib now sc p ext schema res f s)) k = Some q"
proof (cases rule: resolve_cases [of lib now sc p ext schema res f s])
  case (resolved c d v)
  have "k \<noteq> k_continuation_id c"
    using indexed_provider [OF assms(1) resolved(4)] indexed_at(1) [OF assms(1) resolved(4)] assms(2,3) by auto
  then show ?thesis using assms(2) by (simp add: resolved(9))
qed (simp add: assms)

lemma keeps_foreign:
  assumes "cont_at s k = Some q" "k_application_id q \<noteq> sc_application_id sc \<or> k_provider q \<noteq> p"
  shows "cont_at (snd (claim_continuation now sc p cid v s)) k = Some q"
    and "cont_at (snd (arm_continuation now sc p cid v s)) k = Some q"
    and "cont_at (snd (cancel_continuation now sc p cid v f s)) k = Some q"
proof -
  have *: "k_scope c = sc \<Longrightarrow> k_application_id c = sc_application_id sc" for c by (auto simp: k_scope_def)
  show "cont_at (snd (claim_continuation now sc p cid v s)) k = Some q"
    using assms * by (cases rule: claim_cases [of now sc p cid v s]) auto
  show "cont_at (snd (arm_continuation now sc p cid v s)) k = Some q"
    using assms * by (cases rule: arm_cases [of now sc p cid v s]) auto
  show "cont_at (snd (cancel_continuation now sc p cid v f s)) k = Some q"
    using assms * by (cases rule: cancel_cases [of now sc p cid v f s]) auto
qed

lemma suspend_keeps:
  assumes "cont_at s k = Some q"
  shows "cont_at (snd (suspend_continuation lib now c ext s)) k = Some q"
  using assms by (cases rule: suspend_cases [of lib now c ext s]) auto

interpretation waits: wait_store "memory_inv lib" cont_at "suspend_continuation lib" "resolve_continuation lib"
    claim_continuation arm_continuation cancel_continuation for lib
  by unfold_locales (simp_all add: inv_intros suspend_keeps resolve_keeps_foreign keeps_foreign)

end
