(* ===== verification/Checkpoint_Props.thy ===== *)
theory Checkpoint_Props
  imports Continuation_Provider
begin

text \<open>
  The contract of \<^verbatim>\<open>MemoryStore\<close> and of the provider facade, over arbitrary sequences of
  operations: consistency, exclusivity of a session, terminal runs, checkpoint compare-and-swap,
  idempotent writes, and the one-time resolution and claim of a durable wait.
\<close>

section \<open>Consistency and exclusivity\<close>

text \<open>
  C6. However the operations of the store are interleaved, its eight dictionaries agree: runs
  have a pending action exactly while waiting, a session's entry names one of its live runs,
  checkpoints and waits belong to stored runs, revisions are unique in their namespace, and the
  external index is exactly the index of the stored waits.
\<close>

theorem checkpoint_store_consistent:
  assumes "list_all valid_op ops"
  shows "memory_inv lib (fold (memory_step lib parse) ops empty_memory)"
  by (rule mem.inv_run [OF assms])

text \<open>
  A deletion of a finished run whose session runs another one; \<open>exclusive\<close>: a live run is the
  one its session's entry names.
\<close>

definition busy_delete :: "memory_op \<Rightarrow> memory_state \<Rightarrow> bool" where
  "busy_delete op s = (case op of
     Delete_Run sc \<Rightarrow> (case get_run sc s of None \<Rightarrow> False
       | Some r \<Rightarrow> (case map_of (m_active s) (run_key r) of None \<Rightarrow> False | Some k \<Rightarrow> k \<noteq> r_run_id r))
   | _ \<Rightarrow> False)"

fun safe_trace :: "pylib \<Rightarrow> iso_parser \<Rightarrow> memory_state \<Rightarrow> memory_op list \<Rightarrow> bool" where
  "safe_trace lib parse s [] = True"
| "safe_trace lib parse s (op # ops) = (valid_op op \<and> \<not> busy_delete op s \<and> safe_trace lib parse (memory_step lib parse op s) ops)"

definition exclusive :: "memory_state \<Rightarrow> bool" where
  "exclusive s \<longleftrightarrow> (\<forall>k r. run_at s k = Some r \<and> \<not> terminal_run (r_status r) \<longrightarrow> map_of (m_active s) (run_key r) = Some k)"

lemma exclusive_put_run:
  assumes inv: "memory_inv lib s" and ex: "exclusive s" and r: "run_at s k = Some r"
    and live: "\<not> terminal_run (r_status r)" and same: "r_scope r' = r_scope r"
    and R: "m_runs t = AList.update k r' (m_runs s)"
    and A: "m_active t = (if terminal_run (r_status r') then AList.delete (run_key r) (m_active s) else m_active s)"
  shows "exclusive t"
  unfolding exclusive_def
proof (intro allI impI, elim conjE)
  fix j q assume q: "run_at t j = Some q" "\<not> terminal_run (r_status q)"
  have rk: "map_of (m_active s) (run_key r) = Some k" using ex r live unfolding exclusive_def by blast
  show "map_of (m_active t) (run_key q) = Some j"
  proof (cases "j = k")
    case True
    then show ?thesis using q R A rk same_scope [OF same] by auto
  next
    case False
    then have "map_of (m_active s) (run_key q) = Some j" using q R ex unfolding exclusive_def by auto
    with rk False A show ?thesis by auto
  qed
qed

lemma exclusive_frame: "exclusive s \<Longrightarrow> m_runs t = m_runs s \<Longrightarrow> m_active t = m_active s \<Longrightarrow> exclusive t"
  by (simp add: exclusive_def)

lemma allowed_live: "new \<in> allowed_transitions old \<Longrightarrow> \<not> terminal_run old"
  by (cases old) (auto simp: allowed_transitions_def terminal_run_def)

lemma exclusive_step:
  assumes inv: "memory_inv lib s" and ex: "exclusive s" and ok: "valid_op op" and safe: "\<not> busy_delete op s"
  shows "exclusive (memory_step lib parse op s)"
proof (cases op)
  case (Begin_Run now app user sess run fw)
  then show ?thesis
  proof (cases rule: begin_run_cases [of now app user sess run fw s])
    case (begun r)
    have "run_key q \<noteq> (app, user, sess)" if "run_at s j = Some q" "\<not> terminal_run (r_status q)" for j q
      using ex that begun(2) unfolding exclusive_def by fastforce
    then show ?thesis using ex Begin_Run begun(1) unfolding exclusive_def
      by (auto simp: begun(3,4) run_key_def)
  qed (use ex Begin_Run in auto)
next
  case (Transition now sc old new pend)
  then show ?thesis
  proof (cases rule: transition_cases [of now sc old new pend s])
    case (moved r r')
    show ?thesis
      by (rule exclusive_put_run [OF inv ex moved(1), of r'])
        (use Transition allowed_live [OF moved(4)] moved(3) in \<open>simp_all add: moved(6,7) r_scope_def\<close>)
  qed (use ex Transition in auto)
next
  case (Put_Checkpoint c sc v)
  then show ?thesis
    by (cases rule: put_checkpoint_cases [of c sc v s]) (auto intro: exclusive_frame [OF ex])
next
  case (Put_Writes sc cid ws)
  then show ?thesis
    by (cases rule: put_writes_cases [of sc cid ws s]) (auto intro: exclusive_frame [OF ex])
next
  case (Suspend_Wait now c ext)
  then show ?thesis
  proof (cases rule: suspend_cases [of lib now c ext s])
    case (suspended r r' d)
    have "r_run_id r = k_run_id c" using runs_invD(2) [OF memory_invD(1) [OF inv] suspended(2)] .
    then show ?thesis
      by (intro exclusive_put_run [OF inv ex suspended(2), of r'])
        (use Suspend_Wait suspended(4) in \<open>simp_all add: suspended(7,8) r_scope_def terminal_run_def\<close>)
  qed (use ex Suspend_Wait in auto)
next
  case (Resolve_Wait now sc p ext schema res f)
  then show ?thesis
    by (cases rule: resolve_cases [of lib now sc p ext schema res f s]) (auto intro: exclusive_frame [OF ex])
next
  case (Cancel_Wait now sc p cid v f)
  then show ?thesis
  proof (cases rule: cancel_cases [of now sc p cid v f s])
    case (cancelled c r d r')
    have "r_run_id r = sc_run_id sc" using runs_invD(2) [OF memory_invD(1) [OF inv] cancelled(2)] .
    then show ?thesis
      by (intro exclusive_put_run [OF inv ex cancelled(2), of r'])
        (use Cancel_Wait cancelled(8) in \<open>simp_all add: cancelled(12,13) r_scope_def terminal_run_def\<close>)
  qed (use ex Cancel_Wait in auto)
next
  case (Claim_Wait now sc p cid v)
  then show ?thesis
  proof (cases rule: claim_cases [of now sc p cid v s])
    case (claimed c r d r')
    have "r_run_id r = sc_run_id sc" using runs_invD(2) [OF memory_invD(1) [OF inv] claimed(2)] .
    then show ?thesis
      by (intro exclusive_put_run [OF inv ex claimed(2), of r'])
        (use Claim_Wait claimed(6) in \<open>simp_all add: claimed(9,10) r_scope_def terminal_run_def valid_continuation_claim_def\<close>)
  qed (use ex Claim_Wait in auto)
next
  case (Arm_Wait now sc p cid v)
  then show ?thesis
    by (cases rule: arm_cases [of now sc p cid v s]) (auto intro: exclusive_frame [OF ex])
next
  case (Delete_Run sc)
  show ?thesis
    using inv
  proof (cases rule: delete_run_cases [of lib s sc, case_names unchanged deleted])
    case (deleted r t)
    have id: "r_run_id r = sc_run_id sc" using runs_invD(2) [OF memory_invD(1) [OF inv] deleted(1)] .
    have own: "map_of (m_active s) (run_key r) = Some j \<Longrightarrow> j = sc_run_id sc" for j
      using safe deleted(1,2) id by (simp add: busy_delete_def Delete_Run get_run_def)
    have "map_of (m_active t) (run_key q) = Some k" if q: "run_at t k = Some q" "\<not> terminal_run (r_status q)" for k q
    proof -
      from q(1) have k: "k \<noteq> sc_run_id sc" "run_at s k = Some q" by (auto simp: deleted(4) split: if_splits)
      with ex q(2) have "map_of (m_active s) (run_key q) = Some k" unfolding exclusive_def by blast
      moreover from this own [of k] k(1) have "run_key q \<noteq> run_key r" by auto
      ultimately show ?thesis by (simp add: deleted(5))
    qed
    then show ?thesis using deleted(3) Delete_Run by (simp add: exclusive_def)
  qed (use ex Delete_Run in auto)
next
  case (Put_A2A now x)
  then show ?thesis using ex
    by (auto simp: put_a2a_task_def Let_def exclusive_def split: option.split)
next
  case (Delete_A2A app user task)
  then show ?thesis using ex by (auto simp: delete_a2a_task_def exclusive_def split: option.split)
qed

lemma safe_run:
  "memory_inv lib s \<Longrightarrow> exclusive s \<Longrightarrow> safe_trace lib parse s ops \<Longrightarrow>
   memory_inv lib (memory_run lib parse ops s) \<and> exclusive (memory_run lib parse ops s)"
  by (induction ops arbitrary: s) (simp_all add: memory_step_inv exclusive_step)

text \<open>
  C7. As long as no finished run is deleted while its session runs another one, a session never
  has two live (running or waiting) runs.
\<close>

theorem one_live_run_per_session:
  assumes "safe_trace lib parse empty_memory ops"
    and "run_at (fold (memory_step lib parse) ops empty_memory) k = Some r"
    and "run_at (fold (memory_step lib parse) ops empty_memory) k' = Some r'"
    and "run_key r = run_key r'" "\<not> terminal_run (r_status r)" "\<not> terminal_run (r_status r')"
  shows "k = k'"
proof -
  have "exclusive empty_memory" by (simp add: exclusive_def empty_memory_def)
  from safe_run [OF memory_inv_empty this assms(1)] assms(2-) show ?thesis
    unfolding exclusive_def by (metis option.inject)
qed

text \<open>
  The hypothesis of the previous property is needed: deleting a finished run clears the
  entry of its session even when the entry names another, live run. A further run of the
  session is then accepted beside the live one.
\<close>

theorem delete_run_frees_busy_session:
  assumes inv: "memory_inv lib s" and finished: "get_run sc s = Some r" "terminal_run (r_status r)"
    and live: "map_of (m_active s) (run_key r) = Some j" "run_at s j = Some q" "\<not> terminal_run (r_status q)"
    and fresh: "run_at s k = None" "\<not> blank k"
    and fields: "require_fields [sc_application_id sc, sc_user_id sc, sc_session_id sc] = None"
  shows "\<exists>n. fst (begin_run now (sc_application_id sc) (sc_user_id sc) (sc_session_id sc) k fw (delete_run lib sc s)) = Inr n \<and>
    run_at (snd (begin_run now (sc_application_id sc) (sc_user_id sc) (sc_session_id sc) k fw (delete_run lib sc s))) k = Some n \<and>
    run_at (snd (begin_run now (sc_application_id sc) (sc_user_id sc) (sc_session_id sc) k fw (delete_run lib sc s))) j = Some q \<and>
    j \<noteq> k \<and> run_key n = run_key q \<and> \<not> terminal_run (r_status n) \<and> \<not> terminal_run (r_status q)"
  using inv
proof (cases rule: delete_run_cases [of lib s sc, case_names unchanged deleted])
  case unchanged
  with finished show ?thesis by simp
next
  case (deleted r0 t)
  have r0: "r0 = r" using deleted(1,2) finished(1) by (simp add: get_run_def)
  have key: "run_key r = (sc_application_id sc, sc_user_id sc, sc_session_id sc)"
    using deleted(2) r0 by (auto simp: run_key_def r_scope_def)
  have q: "run_key q = run_key r" using runs_invD(4) [OF memory_invD(1) [OF inv] live(1)] live(2) by auto
  have "j \<noteq> sc_run_id sc" using live(2,3) deleted(1) finished(2) r0 by auto
  moreover have "j \<noteq> k" using live(2) fresh(1) by auto
  moreover have "require_fields [sc_application_id sc, sc_user_id sc, sc_session_id sc, k] = None"
    using fields fresh(2) by (simp add: require_fields_def)
  ultimately show ?thesis
    using deleted(3-5) fresh(1) key q live(2,3) r0
    by (simp add: begin_run_def Let_def run_key_def terminal_run_def)
qed


section \<open>Terminal runs\<close>

text \<open>What the store holds of one run besides its waits: its record, checkpoints and writes.\<close>

definition run_view :: "string \<Rightarrow> memory_state \<Rightarrow> run_record option \<times>
    (string \<times> string \<Rightarrow> checkpoint_record option) \<times> (string \<Rightarrow> checkpoint_write list option)" where
  "run_view k s = (run_at s k, (\<lambda>key. map_of (m_checkpoints s) (k, key)), (\<lambda>cid. map_of (m_writes s) (k, cid)))"

lemma run_view_eqI:
  assumes "run_at t k = run_at s k" "\<And>key. fst key = k \<Longrightarrow> map_of (m_checkpoints t) key = map_of (m_checkpoints s) key"
    "\<And>key. fst key = k \<Longrightarrow> map_of (m_writes t) key = map_of (m_writes s) key"
  shows "run_view k t = run_view k s"
  using assms by (auto simp: run_view_def)

lemma terminal_run_step:
  assumes inv: "memory_inv lib s" and r: "run_at s k = Some r" "terminal_run (r_status r)"
    and keep: "op \<noteq> Delete_Run (r_scope r)"
  shows "run_view k (memory_step lib parse op s) = run_view k s"
proof (cases op)
  case (Begin_Run now app user sess run fw)
  then show ?thesis using r
    by (cases rule: begin_run_cases [of now app user sess run fw s]) (auto intro!: run_view_eqI)
next
  case (Transition now sc old new pend)
  then show ?thesis
  proof (cases rule: transition_cases [of now sc old new pend s])
    case (moved q q')
    then have "sc_run_id sc \<noteq> k" using allowed_live [OF moved(4)] r by auto
    then show ?thesis using Transition moved by (intro run_view_eqI) auto
  qed (use Transition in simp)
next
  case (Put_Checkpoint c sc v)
  then show ?thesis
  proof (cases rule: put_checkpoint_cases [of c sc v s])
    case (stored q c')
    then have "p_run_id c \<noteq> k" using r by auto
    then show ?thesis using Put_Checkpoint stored(6) by (intro run_view_eqI) (auto simp: checkpoint_key_def)
  qed simp
next
  case (Put_Writes sc cid ws)
  then show ?thesis
  proof (cases rule: put_writes_cases [of sc cid ws s])
    case (stored q)
    then have "sc_run_id sc \<noteq> k" using r by auto
    then show ?thesis using Put_Writes stored(4) by (intro run_view_eqI) auto
  qed simp
next
  case (Suspend_Wait now c ext)
  then show ?thesis
  proof (cases rule: suspend_cases [of lib now c ext s])
    case (suspended q q' d)
    have "r_run_id q = k_run_id c" using runs_invD(2) [OF memory_invD(1) [OF inv] suspended(2)] .
    moreover have "k_run_id c \<noteq> k" using suspended(2,4) r by (auto simp: terminal_run_def)
    ultimately show ?thesis using Suspend_Wait suspended(8) by (intro run_view_eqI) auto
  qed simp
next
  case (Resolve_Wait now sc p ext schema res f)
  then show ?thesis
    by (cases rule: resolve_cases [of lib now sc p ext schema res f s]) (auto intro!: run_view_eqI)
next
  case (Cancel_Wait now sc p cid v f)
  then show ?thesis
  proof (cases rule: cancel_cases [of now sc p cid v f s])
    case (cancelled c q d q')
    have "r_run_id q = sc_run_id sc" using runs_invD(2) [OF memory_invD(1) [OF inv] cancelled(2)] .
    moreover have "sc_run_id sc \<noteq> k" using cancelled(2,8) r by (auto simp: terminal_run_def)
    ultimately show ?thesis using Cancel_Wait cancelled(13) by (intro run_view_eqI) auto
  qed simp
next
  case (Claim_Wait now sc p cid v)
  then show ?thesis
  proof (cases rule: claim_cases [of now sc p cid v s])
    case (claimed c q d q')
    have "r_run_id q = sc_run_id sc" using runs_invD(2) [OF memory_invD(1) [OF inv] claimed(2)] .
    moreover have "sc_run_id sc \<noteq> k" using claimed(2,6) r by (auto simp: terminal_run_def valid_continuation_claim_def)
    ultimately show ?thesis using Claim_Wait claimed(10) by (intro run_view_eqI) auto
  qed simp
next
  case (Arm_Wait now sc p cid v)
  then show ?thesis
    by (cases rule: arm_cases [of now sc p cid v s]) (auto intro!: run_view_eqI)
next
  case (Delete_Run sc)
  show ?thesis
    using inv
  proof (cases rule: delete_run_cases [of lib s sc, case_names unchanged deleted])
    case (deleted q t)
    then have "sc_run_id sc \<noteq> k" using r keep Delete_Run by auto
    then show ?thesis using Delete_Run deleted(3)
      by (intro run_view_eqI) (auto simp: deleted(4,6,7) map_of_filter_key)
  qed (use Delete_Run in simp)
next
  case (Put_A2A now x)
  then show ?thesis by (auto simp: put_a2a_task_def Let_def intro!: run_view_eqI split: option.split)
next
  case (Delete_A2A app user task)
  then show ?thesis by (auto simp: delete_a2a_task_def intro!: run_view_eqI split: option.split)
qed

text \<open>
  A completed, failed or cancelled run is frozen: until it is deleted, no operation changes
  its record, its checkpoints or its pending writes.
\<close>

theorem terminal_run_frozen:
  assumes "memory_inv lib s" "run_at s k = Some r" "terminal_run (r_status r)" "list_all (keeps_run (r_scope r)) ops"
  shows "run_view k (fold (memory_step lib parse) ops s) = run_view k s"
  using assms
proof (induction ops arbitrary: s)
  case (Cons op ops)
  then have op: "valid_op op" "op \<noteq> Delete_Run (r_scope r)" by (simp_all add: keeps_run_def)
  have step: "run_view k (memory_step lib parse op s) = run_view k s"
    by (rule terminal_run_step [OF Cons.prems(1-3) op(2)])
  then have "run_at (memory_step lib parse op s) k = Some r"
    using Cons.prems(2) by (simp add: run_view_def)
  from Cons.IH [OF memory_step_inv [OF Cons.prems(1) op(1)] this Cons.prems(3)] Cons.prems(4) step
  show ?case by simp
qed simp


section \<open>Checkpoints and writes\<close>

lemma first_max_unique:
  assumes "v \<in> set vs" "\<And>w. w \<in> set vs \<Longrightarrow> w \<noteq> v \<Longrightarrow> f w < f v"
  shows "first_max f vs = Some v"
  using assms
proof (induction vs)
  case (Cons w vs)
  have below: "first_max f vs = Some u \<Longrightarrow> u \<in> set vs" for u
    by (induction vs arbitrary: u) (auto split: option.splits if_splits)
  show ?case
  proof (cases "v \<in> set vs")
    case True
    with Cons have "first_max f vs = Some v" by simp
    moreover have "w = v \<or> f w < f v" using Cons.prems by auto
    ultimately show ?thesis by auto
  next
    case False
    with Cons.prems have "w = v" by simp
    then show ?thesis using Cons.prems(2) below False by (fastforce split: option.split)
  qed
qed simp

text \<open>
  A stored checkpoint is the newest of its namespace: it is what a read by identifier and a
  read without one return, and a second writer that still expects the previous revision is
  refused and changes nothing.
\<close>

theorem checkpoint_put_is_latest:
  assumes inv: "memory_inv lib s" and put: "put_checkpoint c sc v s = (Inr c', s')"
  shows "get_checkpoint sc None (p_namespace c) s' = Some c' \<and>
    get_checkpoint sc (Some (p_checkpoint_id c)) (p_namespace c) s' = Some c' \<and>
    (checkpoint_key d = checkpoint_key c \<longrightarrow>
       put_checkpoint d sc v s' = (Inl (CheckpointConflictError ''checkpoint revision changed''), s'))"
proof (cases rule: put_checkpoint_cases [of c sc v s])
  case (stored r c0)
  let ?C = "m_checkpoints s" and ?k = "checkpoint_key c"
  have c0: "c0 = c'" and s': "s' = s\<lparr>m_checkpoints := AList.update ?k c' ?C\<rparr>" using put stored(6) by auto
  have sc: "p_run_id c = sc_run_id sc" using put by (auto simp: put_checkpoint_def split: if_splits)
  note dict = checkpoints_invD(1) [OF memory_invD(2) [OF inv]]
  have above: "p_revision q < p_revision c'"
    if "map_of ?C k = Some q" "p_run_id q = p_run_id c" "p_namespace q = p_namespace c" for k q
  proof -
    have "q \<in> set (map snd ?C)" using dict_values_iff [OF dict] that(1) by blast
    from last_revision_ge [OF this] that show ?thesis using stored(4) c0 by simp
  qed
  let ?ns = "filter (\<lambda>(k, _). fst k = sc_run_id sc \<and> fst (snd k) = p_namespace c) (AList.update ?k c' ?C)"
  have vals: "q \<in> set (map snd ?ns) \<longleftrightarrow> (\<exists>k. fst k = sc_run_id sc \<and> fst (snd k) = p_namespace c \<and>
      map_of (AList.update ?k c' ?C) k = Some q)" for q
    using dict_values_iff [of ?ns q] dict by (auto simp: map_of_filter_key split: if_splits)
  have "first_max p_revision (map snd ?ns) = Some c'"
  proof (rule first_max_unique)
    show "c' \<in> set (map snd ?ns)" unfolding vals using sc by (intro exI [of _ ?k]) (simp add: checkpoint_key_def)
    fix q assume "q \<in> set (map snd ?ns)" "q \<noteq> c'"
    then obtain k where k: "fst k = sc_run_id sc" "fst (snd k) = p_namespace c" "map_of ?C k = Some q"
      unfolding vals by (auto split: if_splits)
    with checkpoints_invD(2) [OF memory_invD(2) [OF inv] k(3)] sc have "p_run_id q = p_run_id c" "p_namespace q = p_namespace c"
      by (auto simp: checkpoint_key_def)
    with above k(3) show "p_revision q < p_revision c'" by blast
  qed
  then have latest: "get_checkpoint sc None (p_namespace c) s' = Some c'"
    using stored(1,2) sc by (simp add: s' get_checkpoint_def owned_run_None)
  have exact: "get_checkpoint sc (Some (p_checkpoint_id c)) (p_namespace c) s' = Some c'"
    using stored(1,2) sc by (simp add: s' get_checkpoint_def owned_run_None checkpoint_key_def)
  have "(case v of None \<Rightarrow> -1 | Some n \<Rightarrow> n) < p_revision c'"
  proof (cases "map_of ?C ?k")
    case None
    then show ?thesis using stored(5) last_revision_ge_minus_one [of "p_run_id c" "p_namespace c" "map snd ?C"]
      by (simp add: stored(4) flip: c0)
  next
    case (Some q)
    with checkpoints_invD(2) [OF memory_invD(2) [OF inv] Some] above [OF Some] stored(5) show ?thesis
      by (simp add: checkpoint_key_def)
  qed
  then have stale: "p_revision c' \<noteq> (case v of None \<Rightarrow> -1 | Some n \<Rightarrow> n)" by simp
  have running: "require_running r = None"
    using stored(3) by (cases "r_status r") (simp_all add: require_running_def terminal_run_def)
  have "put_checkpoint d sc v s' = (Inl (CheckpointConflictError ''checkpoint revision changed''), s')"
    if d: "checkpoint_key d = ?k"
  proof -
    from d sc have "p_run_id d = sc_run_id sc" by (simp add: checkpoint_key_def)
    moreover have "require_owned_run (run_at s' (sc_run_id sc)) sc = Inr r" using stored(1,2) sc by (simp add: s')
    moreover have "map_of (m_checkpoints s') (checkpoint_key d) = Some c'" by (simp add: s' d)
    ultimately show ?thesis using running stale by (simp add: put_checkpoint_def Let_def)
  qed
  with latest exact show ?thesis by blast
qed (use put in simp)


text \<open>
  Pending writes are idempotent per task and channel: a successful \<^verbatim>\<open>put_writes\<close> leaves every
  slot it names filled, keeps every write that was there, and repeating it changes nothing.
\<close>

theorem put_writes_idempotent:
  assumes put: "put_writes sc cid ws s = (Inr (), s')"
  shows "put_writes sc cid ws s' = (Inr (), s') \<and> prefix (get_writes sc cid s) (get_writes sc cid s') \<and>
    write_slot ` set ws \<subseteq> write_slot ` set (get_writes sc cid s')"
proof (cases rule: put_writes_cases [of sc cid ws s])
  case (stored r)
  let ?k = "(sc_run_id sc, cid)"
  let ?old = "writes_at s ?k"
  let ?new = "?old @ filter (\<lambda>w. write_slot w \<notin> set (map write_slot ?old)) ws"
  have s': "s' = s\<lparr>m_writes := AList.update ?k ?new (m_writes s)\<rparr>" using put stored(4) by simp
  have owned: "owned_run (run_at s' (sc_run_id sc)) sc = Some r" "owned_run (run_at s (sc_run_id sc)) sc = Some r"
    using stored(1,2) by (simp_all add: s')
  have filled: "write_slot w \<in> set (map write_slot ?new)" if "w \<in> set ws" for w using that by auto
  then have none: "filter (\<lambda>w. write_slot w \<notin> set (map write_slot ?new)) ws = []" by (simp add: filter_empty_conv)
  have new: "writes_at s' ?k = ?new" by (simp add: s')
  have running: "require_running r = None"
    using stored(3) by (cases "r_status r") (simp_all add: require_running_def terminal_run_def)
  have "map_of (m_writes s') ?k = Some ?new" by (simp add: s')
  then have "AList.update ?k ?new (m_writes s') = m_writes s'" by (rule update_same)
  then have "put_writes sc cid ws s' = (Inr (), s')"
    unfolding put_writes_def require_owned_run_def owned
    by (simp only: option.case sum.case running new none Let_def append_Nil2) simp
  moreover have "get_writes sc cid s = ?old" "get_writes sc cid s' = ?new"
    unfolding get_writes_def owned by (simp_all add: new)
  moreover have "write_slot ` set ws \<subseteq> write_slot ` set ?new"
  proof (rule image_subsetI)
    fix w assume "w \<in> set ws"
    from filled [OF this] show "write_slot w \<in> write_slot ` set ?new" by (simp only: set_map)
  qed
  ultimately show ?thesis by simp
qed (use put in simp)


section \<open>Durable waits\<close>

text \<open>
  The outcome of a wait is committed once: from the moment it is no longer pending, no
  operation short of deleting its run changes its result or its failure, and its revision
  never goes back.
\<close>

theorem wait_outcome_frozen:
  assumes "memory_inv lib s" "cont_at s k = Some c" "k_status c \<noteq> ''pending''" "list_all (keeps_run (k_scope c)) ops"
  shows "\<exists>d. cont_at (fold (memory_step lib parse) ops s) k = Some d \<and> k_status d \<noteq> ''pending'' \<and>
    k_result d = k_result c \<and> k_failure d = k_failure c \<and> k_revision c \<le> k_revision d"
proof -
  obtain d where d: "cont_at (memory_run lib parse ops s) k = Some d" "wait_move\<^sup>*\<^sup>* c d"
    using wait_run [OF assms(1,2,4), of parse] by blast
  from wait_moves_revision [OF d(2)] have "k_revision c \<le> k_revision d" by auto
  with d wait_moves_outcome [OF d(2) assms(3)] show ?thesis by blast
qed

lemma claim_result:
  assumes "claim_continuation now sc p cid v s = (Inr d, s')"
  shows "cont_at s' cid = Some d \<and> k_status d = ''claimed'' \<and> k_scope d = sc"
proof (cases rule: claim_cases [of now sc p cid v s])
  case (claimed c r d' r')
  then show ?thesis using assms by (auto simp: k_scope_def)
qed (use assms in simp)

text \<open>
  A wait is claimed at most once: after a successful claim, whatever operations follow
  short of deleting its run, no claim of that wait by anyone, at any revision, succeeds.
\<close>

theorem wait_claimed_once:
  assumes "memory_inv lib s" and claim: "claim_continuation now sc p cid v s = (Inr d, s')"
    and "list_all (keeps_run sc) ops"
  shows "claim_continuation now' sc' p' cid v' (fold (memory_step lib parse) ops s') =
    (Inl (ContinuationConflictError ''continuation claim changed''), fold (memory_step lib parse) ops s')"
proof -
  have d: "cont_at s' cid = Some d" "k_status d = ''claimed''" "k_scope d = sc" using claim_result [OF claim] by blast+
  have "memory_inv lib s'" using claim_wait_inv [OF assms(1), of now sc p cid v] claim by simp
  from wait_run [OF this d(1), of ops parse] assms(3) d(3) obtain q
    where q: "cont_at (memory_run lib parse ops s') cid = Some q" "wait_move\<^sup>*\<^sup>* d q" by auto
  from wait_moves_claimed [OF q(2) d(2)] d(2) have "k_status q = ''claimed''" by simp
  then show ?thesis using q(1)
    by (auto simp: claim_continuation_def valid_continuation_claim_def changed_def split: option.split)
qed

text \<open>The index entry of a stored wait, read back.\<close>

lemma lookup_stored:
  assumes inv: "memory_inv lib s" and c: "cont_at s k = Some c" and ext: "map_of (m_external_ids s) k = Some ext"
    and d: "external_id_key lib (k_provider c) ext = Inr d"
  shows "indexed_continuation (k_application_id c, k_provider c, d) s = Some c"
proof -
  have "wait_key lib (m_continuations s) (m_external_ids s) k = Some (k_application_id c, k_provider c, d)"
    using c ext d by (simp add: wait_key_def)
  then have "map_of (m_external_keys s) (k_application_id c, k_provider c, d) = Some k"
    using waits_invD(3) [OF memory_invD(4) [OF inv]] by blast
  then show ?thesis by (simp add: indexed_continuation_def c)
qed

lemma external_id_step:
  assumes inv: "memory_inv lib s" and c: "cont_at s k = Some c" and keep: "op \<noteq> Delete_Run (k_scope c)"
  shows "map_of (m_external_ids (memory_step lib parse op s)) k = map_of (m_external_ids s) k"
proof (cases op)
  case (Suspend_Wait now q ext)
  then show ?thesis using c by (cases rule: suspend_cases [of lib now q ext s]) auto
next
  case (Delete_Run sc)
  obtain d where d: "cont_at (memory_step lib parse op s) k = Some d" using wait_step [OF inv c, of parse op] keep by blast
  show ?thesis using d delete_run_external_id [of lib sc s k d] Delete_Run by simp
qed simp_all

lemma external_ids_run:
  assumes "memory_inv lib s" "cont_at s k = Some c" "list_all (keeps_run (k_scope c)) ops"
  shows "map_of (m_external_ids (memory_run lib parse ops s)) k = map_of (m_external_ids s) k"
  using assms
proof (induction ops arbitrary: s c)
  case (Cons op ops)
  then have op: "valid_op op" "op \<noteq> Delete_Run (k_scope c)" by (simp_all add: keeps_run_def)
  from wait_step [OF Cons.prems(1,2), of parse op] op(2)
  obtain d where d: "cont_at (memory_step lib parse op s) k = Some d" "wait_move c d" by blast
  have "k_scope d = k_scope c" using wait_move_identity(1) [OF d(2)] by (simp add: same_wait_def)
  with Cons.IH [OF memory_step_inv [OF Cons.prems(1) op(1)] d(1)] Cons.prems(3)
    external_id_step [OF Cons.prems(1,2) op(2), of parse] show ?case by simp
qed simp

lemma name_not_blank: "name_pattern s \<Longrightarrow> \<not> blank s"
  by (cases s) (auto simp: name_pattern_def matches_def blank_def lower_case_def is_space_def Let_def)

lemma ids_not_blank:
  assumes inv: "memory_inv lib s" and c: "c \<in> set (map snd (m_continuations s))"
  shows "\<not> blank (k_continuation_id c)"
proof -
  have dict: "dict_ok (m_continuations s)" using memory_invD(4) [OF inv] by (simp add: waits_inv_def)
  obtain k where "cont_at s k = Some c" using c dict_values_iff [OF dict] by blast
  then have "check_continuation c = None" using waits_invD(4) [OF memory_invD(4) [OF inv]] by blast
  then show ?thesis by (simp add: check_continuation_def require_text_def)
qed

text \<open>
  The provider's identifier is a durable key of the wait: from the suspension on, whatever
  operations follow short of deleting the run, looking it up returns that wait with its
  identifier, and a second suspension under the same application, provider and identifier is
  refused.
\<close>

theorem external_id_names_the_wait:
  assumes inv: "memory_inv lib s" and ok: "check_continuation c = None"
    and suspend: "suspend_continuation lib now c ext s = (Inr c', s')"
    and ops: "list_all (keeps_run (k_scope c)) ops"
    and same: "k_application_id c2 = k_application_id c" "k_provider c2 = k_provider c"
  shows "\<exists>d. get_continuation_by_external_id lib (k_application_id c) (k_provider c) ext
        (fold (memory_step lib parse) ops s') = Inr (Some (d, ext)) \<and>
      k_continuation_id d = k_continuation_id c \<and>
      (\<exists>e. suspend_continuation lib now2 c2 ext (fold (memory_step lib parse) ops s') =
         (Inl e, fold (memory_step lib parse) ops s'))"
proof (cases rule: suspend_cases [of lib now c ext s])
  case (suspended r r' dg)
  let ?k = "k_continuation_id c" and ?t = "memory_run lib parse ops s'"
  have inv': "memory_inv lib s'" using suspend_inv [OF inv ok, of now ext] suspend by simp
  have c: "cont_at s' ?k = Some c" "map_of (m_external_ids s') ?k = Some ext"
    using suspend suspended(8) by auto
  obtain d where d: "cont_at ?t ?k = Some d" "wait_move\<^sup>*\<^sup>* c d" using wait_run [OF inv' c(1) ops, of parse] by blast
  have same_d: "k_continuation_id d = ?k" "k_provider d = k_provider c" "k_application_id d = k_application_id c"
    using wait_moves_identity [OF d(2)] by (auto simp: same_wait_def k_scope_def)
  have ext: "map_of (m_external_ids ?t) ?k = Some ext"
    using external_ids_run [OF inv' c(1) ops] c(2) by simp
  have inv_t: "memory_inv lib ?t" by (rule memory_run_inv [OF inv' ops])
  have ix: "indexed_continuation (k_application_id c, k_provider c, dg) ?t = Some d"
    using lookup_stored [OF inv_t d(1) ext] suspended(1) same_d by simp
  have fields: "require_fields [k_application_id c, k_provider c, ext] = None"
    using ok suspended(1) name_not_blank [of "k_provider c"]
    by (auto simp: require_fields_def check_continuation_def require_text_def external_id_key_def
        require_external_id_def require_name_def split: option.splits)
  have "map_of (m_external_keys ?t) (k_application_id c, k_provider c, dg) \<noteq> None"
    using indexed_at(2) [OF inv_t ix] by simp
  then have "\<exists>e. suspend_continuation lib now2 c2 ext ?t = (Inl e, ?t)"
    using suspended(1) same by (auto simp: suspend_continuation_def Let_def split: option.split)
  moreover have "get_continuation_by_external_id lib (k_application_id c) (k_provider c) ext ?t = Inr (Some (d, ext))"
    using fields suspended(1) ix ext same_d(1) by (simp add: get_continuation_by_external_id_def)
  ultimately show ?thesis using same_d(1) by blast
qed (use suspend in simp)

text \<open>
  A provider's facade cannot reach beyond its binding: whatever sequence of calls a plugin
  makes with whatever arguments, every wait of another application or another provider is
  left exactly as it was.
\<close>

theorem provider_isolated:
  assumes "memory_inv lib s" "cont_at s k = Some q" "\<not> owned_by p q"
  shows "cont_at (fold (provider_step (suspend_continuation lib) (resolve_continuation lib) claim_continuation
    arm_continuation cancel_continuation p) calls s) k = Some q"
  by (rule waits.calls_frame [OF assms])

lemma distinct_continuation_ids:
  assumes inv: "memory_inv lib s"
  shows "distinct (map k_continuation_id (map snd (m_continuations s)))"
proof -
  have dict: "dict_ok (m_continuations s)" using memory_invD(4) [OF inv] by (simp add: waits_inv_def)
  have "k_continuation_id (snd kc) = fst kc" if "kc \<in> set (m_continuations s)" for kc
  proof -
    have "cont_at s (fst kc) = Some (snd kc)" using that dict by (metis map_of_is_SomeI prod.collapse)
    then show ?thesis using waits_invD(4) [OF memory_invD(4) [OF inv]] by blast
  qed
  then have "map k_continuation_id (map snd (m_continuations s)) = map fst (m_continuations s)" by simp
  with dict show ?thesis by (simp only:)
qed

text \<open>The pages a provider reads at start, following the cursor until a short one.\<close>

definition pending_page :: "provider \<Rightarrow> int \<Rightarrow> memory_state \<Rightarrow> string option \<Rightarrow> continuation list" where
  "pending_page p limit s after = (case provider_list_pending p after limit s of Inl _ \<Rightarrow> [] | Inr ps \<Rightarrow> map fst ps)"

text \<open>
  Reconciliation misses nothing: reading the pages of pending waits of a provider from the
  beginning, each from the last identifier of the one before, yields exactly its pending waits,
  each once, in order of identifier.
\<close>

theorem pending_pages_complete:
  assumes inv: "memory_inv lib s" and limit: "1 \<le> limit" "limit \<le> 1000"
    and p: "\<not> blank (pv_application_id p)" "\<not> blank (pv_provider p)"
    and fuel: "length (m_continuations s) < fuel"
  shows "follow fuel (pending_page p limit s) k_continuation_id limit None =
    sort_key k_continuation_id (filter (\<lambda>c. owned_by p c \<and> k_status c = ''pending'') (map snd (m_continuations s)))"
proof -
  let ?P = "\<lambda>c. k_application_id c = pv_application_id p \<and> k_provider c = pv_provider p \<and> k_status c = ''pending''"
  have eq: "pending_page p limit s after = page k_continuation_id (\<lambda>c. ?P c \<and> after_cursor k_continuation_id after c) limit (map snd (m_continuations s))"
    if "after = None \<or> \<not> blank (the after)" for after
  proof -
    have ok: "require_continuation_page after limit = None"
      "require_fields [pv_application_id p, pv_provider p] = None"
      using that limit p by (auto simp: require_continuation_page_def require_text_def require_fields_def split: option.splits)
    show ?thesis by (simp add: pending_page_def provider_list_pending_def list_pending_continuations_def ok comp_def)
  qed
  have "follow fuel (pending_page p limit s) k_continuation_id limit None =
    follow fuel (\<lambda>a. page k_continuation_id (\<lambda>c. ?P c \<and> after_cursor k_continuation_id a c) limit (map snd (m_continuations s)))
      k_continuation_id limit None"
    by (rule follow_cong [of "\<lambda>a. a = None \<or> \<not> blank (the a)"]) (use eq limit ids_not_blank [OF inv] in \<open>auto dest: set_page\<close>)
  also have "\<dots> = sort_key k_continuation_id (filter (\<lambda>c. ?P c \<and> after_cursor k_continuation_id None c) (map snd (m_continuations s)))"
    by (rule follow_complete [OF distinct_continuation_ids [OF inv]])
      (use limit le_less_trans [OF length_filter_le, of "map snd (m_continuations s)" fuel] fuel in
        \<open>simp_all del: length_map add: length_map [of snd]\<close>)
  finally show ?thesis by (simp add: after_cursor_def owned_by_def conj_assoc)
qed


section \<open>Worked instances\<close>

definition sample_scope :: run_scope where
  "sample_scope = \<lparr>sc_application_id = ''app'', sc_user_id = ''u'', sc_session_id = ''s'', sc_run_id = ''r''\<rparr>"

definition sample_wait :: continuation where
  "sample_wait = \<lparr>k_continuation_id = ''c'', k_application_id = ''app'', k_user_id = ''u'', k_session_id = ''s'',
     k_run_id = ''r'', k_provider = ''jobs'', k_capability = ''wait'', k_schema_id = ''v1'', k_resume = None,
     k_principal_grants = None, k_status = ''pending'', k_ready = False, k_revision = 0, k_result = PyNone,
     k_failure = None, k_created_at = ''t'', k_updated_at = ''t''\<rparr>"

definition sample_checkpoint :: checkpoint_record where
  "sample_checkpoint = \<lparr>p_run_id = ''r'', p_checkpoint_id = ''k1'', p_namespace = [], p_framework = Adk,
     p_type_name = ''json'', p_payload = ''x'', p_metadata_type = ''json'', p_metadata = [], p_versions_type = ''json'',
     p_versions = [], p_parent_checkpoint_id = None, p_revision = 0, p_created_at = ''t''\<rparr>"

definition sample_write :: checkpoint_write where
  "sample_write = \<lparr>w_task_id = ''t1'', w_channel = ''out'', w_type_name = ''json'', w_payload = ''1'', w_task_path = []\<rparr>"

definition no_iso :: iso_parser where
  "no_iso = (\<lambda>_. None)"

definition sample_begin :: memory_op where
  "sample_begin = Begin_Run ''t'' ''app'' ''u'' ''s'' ''r'' Adk"

definition sample_suspend :: memory_op where
  "sample_suspend = Suspend_Wait ''t'' sample_wait ''ext''"

definition sample_resolve :: memory_op where
  "sample_resolve = Resolve_Wait ''t'' sample_scope ''jobs'' ''ext'' ''v1'' (PyInt 5) None"

definition sample_arm :: memory_op where
  "sample_arm = Arm_Wait ''t'' sample_scope ''jobs'' ''c'' 1"

definition sample_finish_run :: memory_op where
  "sample_finish_run = Transition ''t'' sample_scope Running Completed None"

definition memory_after :: "memory_op list \<Rightarrow> memory_state" where
  "memory_after ops = fold (memory_step sample_lib no_iso) ops empty_memory"

lemmas sample_ops = sample_begin_def sample_suspend_def sample_resolve_def sample_arm_def sample_finish_run_def

lemma sample_wait_ok: "check_continuation sample_wait = None"
  by code_simp

lemma sample_valid [simp]: "valid_op sample_begin" "valid_op sample_suspend" "valid_op sample_resolve"
  "valid_op sample_arm" "valid_op sample_finish_run"
  by (simp_all add: valid_op_def sample_ops sample_wait_ok)

lemma memory_after_inv: "list_all valid_op ops \<Longrightarrow> memory_inv sample_lib (memory_after ops)"
  unfolding memory_after_def by (rule mem.inv_run)

lemma keeps_run_simple [simp]: "keeps_run sc (Begin_Run now app user sess run fw)" "keeps_run sc (Claim_Wait now sc' p cid v)"
  "keeps_run sc (Put_Writes sc' cid ws)"
  by (simp_all add: keeps_run_def valid_op_def)

theorem checkpoint_store_consistent_witness:
  "memory_inv sample_lib (fold (memory_step sample_lib no_iso) [sample_begin, sample_suspend, sample_resolve] empty_memory) \<and>
   map_option k_status (cont_at (memory_after [sample_begin, sample_suspend, sample_resolve]) ''c'') = Some ''completed''"
proof
  show "memory_inv sample_lib (fold (memory_step sample_lib no_iso) [sample_begin, sample_suspend, sample_resolve] empty_memory)"
    by (rule checkpoint_store_consistent) simp
  show "map_option k_status (cont_at (memory_after [sample_begin, sample_suspend, sample_resolve]) ''c'') = Some ''completed''"
    by code_simp
qed

theorem one_live_run_per_session_witness:
  "\<exists>r. run_at (fold (memory_step sample_lib no_iso) [sample_begin] empty_memory) ''r'' = Some r \<and>
     \<not> terminal_run (r_status r) \<and> ''r'' = (''r'' :: string)"
proof -
  have "map_option r_status (run_at (memory_after [sample_begin]) ''r'') = Some Running" by code_simp
  then obtain r where r: "run_at (fold (memory_step sample_lib no_iso) [sample_begin] empty_memory) ''r'' = Some r"
    "\<not> terminal_run (r_status r)"
    by (auto simp: memory_after_def terminal_run_def)
  have "safe_trace sample_lib no_iso empty_memory [sample_begin]"
    using sample_valid(1) by (simp add: busy_delete_def sample_begin_def)
  from one_live_run_per_session [OF this r(1) r(1) refl r(2,2)] r show ?thesis by blast
qed

definition sample_other :: run_scope where
  "sample_other = sample_scope\<lparr>sc_run_id := ''q''\<rparr>"

definition sample_busy :: memory_state where
  "sample_busy = memory_after [sample_begin, sample_finish_run, Begin_Run ''t'' ''app'' ''u'' ''s'' ''q'' Adk]"

theorem delete_run_frees_busy_session_witness:
  "\<exists>q n. run_at (snd (begin_run ''t'' ''app'' ''u'' ''s'' ''x'' Adk (delete_run sample_lib sample_scope sample_busy))) ''x'' = Some n \<and>
     run_at (snd (begin_run ''t'' ''app'' ''u'' ''s'' ''x'' Adk (delete_run sample_lib sample_scope sample_busy))) ''q'' = Some q \<and>
     run_key n = run_key q \<and> \<not> terminal_run (r_status n) \<and> \<not> terminal_run (r_status q)"
proof -
  have inv: "memory_inv sample_lib sample_busy"
    unfolding sample_busy_def by (rule memory_after_inv) (use sample_valid in \<open>simp add: valid_op_def\<close>)
  have "map_option r_status (get_run sample_scope sample_busy) = Some Completed" by code_simp
  then obtain r where r: "get_run sample_scope sample_busy = Some r" "terminal_run (r_status r)"
    by (auto simp: terminal_run_def)
  have "map_option r_status (run_at sample_busy ''q'') = Some Running" by code_simp
  then obtain q where q: "run_at sample_busy ''q'' = Some q" "\<not> terminal_run (r_status q)" by (auto simp: terminal_run_def)
  have "map_option run_key (get_run sample_scope sample_busy) = Some (''app'', ''u'', ''s'')" by code_simp
  then have "map_of (m_active sample_busy) (run_key r) = Some ''q''" using r by simp code_simp
  moreover have "run_at sample_busy ''x'' = None" "\<not> blank ''x''"
    "require_fields [sc_application_id sample_scope, sc_user_id sample_scope, sc_session_id sample_scope] = None" by code_simp+
  ultimately have "\<exists>n. fst (begin_run ''t'' (sc_application_id sample_scope) (sc_user_id sample_scope) (sc_session_id sample_scope) ''x'' Adk
      (delete_run sample_lib sample_scope sample_busy)) = Inr n \<and>
    run_at (snd (begin_run ''t'' (sc_application_id sample_scope) (sc_user_id sample_scope) (sc_session_id sample_scope) ''x'' Adk
      (delete_run sample_lib sample_scope sample_busy))) ''x'' = Some n \<and>
    run_at (snd (begin_run ''t'' (sc_application_id sample_scope) (sc_user_id sample_scope) (sc_session_id sample_scope) ''x'' Adk
      (delete_run sample_lib sample_scope sample_busy))) ''q'' = Some q \<and> ''q'' \<noteq> ''x'' \<and>
    run_key n = run_key q \<and> \<not> terminal_run (r_status n) \<and> \<not> terminal_run (r_status q)"
    by (rule delete_run_frees_busy_session [OF inv r _ q])
  then show ?thesis by (auto simp: sample_scope_def)
qed

theorem terminal_run_frozen_witness:
  "run_view ''r'' (fold (memory_step sample_lib no_iso) [Put_Writes sample_scope ''k'' [sample_write]]
     (memory_after [sample_begin, sample_finish_run])) = run_view ''r'' (memory_after [sample_begin, sample_finish_run])"
proof -
  let ?s = "memory_after [sample_begin, sample_finish_run]"
  have "map_option r_status (run_at ?s ''r'') = Some Completed" by code_simp
  then obtain r where r: "run_at ?s ''r'' = Some r" "terminal_run (r_status r)" by (auto simp: terminal_run_def)
  have "memory_inv sample_lib ?s" by (rule memory_after_inv) simp
  then show ?thesis by (rule terminal_run_frozen [OF _ r]) simp
qed

theorem checkpoint_put_is_latest_witness:
  "\<exists>c' s'. put_checkpoint sample_checkpoint sample_scope None (memory_after [sample_begin]) = (Inr c', s') \<and>
     get_checkpoint sample_scope None [] s' = Some c' \<and>
     put_checkpoint sample_checkpoint sample_scope None s' = (Inl (CheckpointConflictError ''checkpoint revision changed''), s')"
proof -
  have "map_sum (\<lambda>_. ()) p_revision (fst (put_checkpoint sample_checkpoint sample_scope None (memory_after [sample_begin]))) = Inr 0"
    by code_simp
  then obtain c' s' where put: "put_checkpoint sample_checkpoint sample_scope None (memory_after [sample_begin]) = (Inr c', s')"
    by (cases "put_checkpoint sample_checkpoint sample_scope None (memory_after [sample_begin])"; cases "fst (put_checkpoint sample_checkpoint sample_scope None (memory_after [sample_begin]))") auto
  have "memory_inv sample_lib (memory_after [sample_begin])" by (rule memory_after_inv) simp
  from checkpoint_put_is_latest [OF this put, of sample_checkpoint] put show ?thesis
    by (auto simp: sample_checkpoint_def)
qed

theorem put_writes_idempotent_witness:
  "\<exists>s'. put_writes sample_scope ''k'' [sample_write] (memory_after [sample_begin]) = (Inr (), s') \<and>
     put_writes sample_scope ''k'' [sample_write] s' = (Inr (), s')"
proof -
  have "fst (put_writes sample_scope ''k'' [sample_write] (memory_after [sample_begin])) = Inr ()" by code_simp
  then obtain s' where put: "put_writes sample_scope ''k'' [sample_write] (memory_after [sample_begin]) = (Inr (), s')"
    by (metis prod.collapse)
  from put_writes_idempotent [OF put] put show ?thesis by blast
qed

theorem wait_outcome_frozen_witness:
  "\<exists>c d. cont_at (memory_after [sample_begin, sample_suspend, sample_resolve]) ''c'' = Some c \<and> k_status c = ''completed'' \<and>
     cont_at (fold (memory_step sample_lib no_iso) [Claim_Wait ''t'' sample_scope ''jobs'' ''c'' 1]
       (memory_after [sample_begin, sample_suspend, sample_resolve])) ''c'' = Some d \<and> k_result d = k_result c"
proof -
  let ?s = "memory_after [sample_begin, sample_suspend, sample_resolve]"
  have "map_option k_status (cont_at ?s ''c'') = Some ''completed''" by code_simp
  then obtain c where c: "cont_at ?s ''c'' = Some c" "k_status c = ''completed''" by auto
  then have "k_status c \<noteq> ''pending''" by simp
  moreover have "memory_inv sample_lib ?s" by (rule memory_after_inv) simp
  ultimately have "\<exists>d. cont_at (fold (memory_step sample_lib no_iso) [Claim_Wait ''t'' sample_scope ''jobs'' ''c'' 1] ?s) ''c'' = Some d \<and>
      k_status d \<noteq> ''pending'' \<and> k_result d = k_result c \<and> k_failure d = k_failure c \<and> k_revision c \<le> k_revision d"
    by (intro wait_outcome_frozen [OF _ c(1)]) simp_all
  with c show ?thesis by blast
qed

theorem wait_claimed_once_witness:
  "\<exists>d s'. claim_continuation ''t'' sample_scope ''jobs'' ''c'' 2 (memory_after [sample_begin, sample_suspend, sample_resolve, sample_arm]) = (Inr d, s') \<and>
     fst (claim_continuation ''t'' sample_scope ''jobs'' ''c'' 3 (fold (memory_step sample_lib no_iso) [] s')) =
       Inl (ContinuationConflictError ''continuation claim changed'')"
proof -
  let ?s = "memory_after [sample_begin, sample_suspend, sample_resolve, sample_arm]"
  have arm: "memory_inv sample_lib ?s" by (rule memory_after_inv) simp
  have "map_sum (\<lambda>_. ()) k_status (fst (claim_continuation ''t'' sample_scope ''jobs'' ''c'' 2 ?s)) = Inr ''claimed''" by code_simp
  then obtain d s' where claim: "claim_continuation ''t'' sample_scope ''jobs'' ''c'' 2 ?s = (Inr d, s')"
    by (cases "claim_continuation ''t'' sample_scope ''jobs'' ''c'' 2 ?s"; cases "fst (claim_continuation ''t'' sample_scope ''jobs'' ''c'' 2 ?s)") auto
  have "list_all (keeps_run sample_scope) []" by simp
  from wait_claimed_once [OF arm claim this, of "''t''" sample_scope "''jobs''" 3 no_iso] claim show ?thesis by auto
qed

theorem external_id_names_the_wait_witness:
  "\<exists>c' s' d. suspend_continuation sample_lib ''t'' sample_wait ''ext'' (memory_after [sample_begin]) = (Inr c', s') \<and>
     get_continuation_by_external_id sample_lib ''app'' ''jobs'' ''ext''
       (fold (memory_step sample_lib no_iso) [Begin_Run ''t'' ''app'' ''u'' ''s2'' ''r2'' Adk] s') = Inr (Some (d, ''ext''))"
proof -
  have "map_sum (\<lambda>_. ()) k_status (fst (suspend_continuation sample_lib ''t'' sample_wait ''ext'' (memory_after [sample_begin]))) = Inr ''pending''"
    by code_simp
  then obtain c' s' where sus: "suspend_continuation sample_lib ''t'' sample_wait ''ext'' (memory_after [sample_begin]) = (Inr c', s')"
    by (cases "suspend_continuation sample_lib ''t'' sample_wait ''ext'' (memory_after [sample_begin])";
        cases "fst (suspend_continuation sample_lib ''t'' sample_wait ''ext'' (memory_after [sample_begin]))") auto
  have "memory_inv sample_lib (memory_after [sample_begin])" by (rule memory_after_inv) simp
  from external_id_names_the_wait [OF this sample_wait_ok sus, of "[Begin_Run ''t'' ''app'' ''u'' ''s2'' ''r2'' Adk]" sample_wait no_iso] sus
  show ?thesis by (auto simp: sample_wait_def)
qed

theorem provider_isolated_witness:
  "\<exists>q. cont_at (memory_after [sample_begin, sample_suspend]) ''c'' = Some q \<and>
     cont_at (fold (provider_step (suspend_continuation sample_lib) (resolve_continuation sample_lib) claim_continuation
       arm_continuation cancel_continuation \<lparr>pv_application_id = ''app'', pv_provider = ''mail''\<rparr>)
       [P_Claim ''t'' ''u'' ''s'' ''r'' ''c'' 1] (memory_after [sample_begin, sample_suspend])) ''c'' = Some q"
proof -
  let ?s = "memory_after [sample_begin, sample_suspend]"
  have "map_option k_provider (cont_at ?s ''c'') = Some ''jobs''" by code_simp
  then obtain q where q: "cont_at ?s ''c'' = Some q" "k_provider q = ''jobs''" by auto
  have inv: "memory_inv sample_lib ?s" by (rule memory_after_inv) simp
  have "\<not> owned_by \<lparr>pv_application_id = ''app'', pv_provider = ''mail''\<rparr> q" using q(2) by (simp add: owned_by_def)
  from provider_isolated [OF inv q(1) this] q(1) show ?thesis by blast
qed

theorem pending_pages_complete_witness:
  "follow 9 (pending_page \<lparr>pv_application_id = ''app'', pv_provider = ''jobs''\<rparr> 1 (memory_after [sample_begin, sample_suspend]))
     k_continuation_id 1 None = [sample_wait]"
proof -
  let ?s = "memory_after [sample_begin, sample_suspend]"
  have "memory_inv sample_lib ?s" by (rule memory_after_inv) simp
  moreover have "length (m_continuations ?s) < 9" by code_simp
  moreover have "\<not> blank ''app''" "\<not> blank ''jobs''" by code_simp+
  moreover have "sort_key k_continuation_id (filter (\<lambda>c. owned_by \<lparr>pv_application_id = ''app'', pv_provider = ''jobs''\<rparr> c \<and>
      k_status c = ''pending'') (map snd (m_continuations ?s))) = [sample_wait]" by code_simp
  ultimately show ?thesis
    by (subst pending_pages_complete [of sample_lib]) simp_all
qed

end
