(* ===== verification/Approval.thy ===== *)
theory Approval
  imports Continuation_Records
begin

text \<open>
  \<^verbatim>\<open>agent/approval.py\<close>: the in-memory approval store and the one-time grant. Approvals are
  Python objects shared by the store, the suspended coroutine and the caller, so they live in
  a heap (\<open>a_objects\<close>, by identifier); \<open>a_items\<close> is the dictionary \<^verbatim>\<open>_items\<close>, whose keys are the
  identifiers of its objects, in insertion order; \<open>a_waiters\<close> maps an identifier to the run that
  waits, \<open>a_futures\<close> to the state of its future, which outlives the waiter. \<open>now\<close> is the reading
  of the store's clock during the call.
\<close>

section \<open>Policies and challenges\<close>

record approval_policy =
  ap_message :: string
  ap_timeout_seconds :: int
  ap_on_timeout :: string
  ap_tools :: "string list option"

definition validate_tool_names :: "string list \<Rightarrow> exc option" where
  "validate_tool_names tools = check_all
     [require (tools \<noteq> []) (TypeError ''approval tools must be a non-empty sequence of names''),
      require (\<not> list_ex blank tools) (ValueError ''approval tool names must be non-empty strings''),
      require (length (remdups tools) = length tools) (ValueError ''approval tool names must be unique'')]"

definition check_approval_policy :: "approval_policy \<Rightarrow> exc option" where
  "check_approval_policy p = check_all
     [require (\<not> blank (ap_message p)) (ValueError ''approval message must be a non-empty string''),
      require (\<not> ap_timeout_seconds p < 1) (ValueError ''approval timeout_seconds must be a positive integer''),
      require (ap_on_timeout p = ''deny'') (ValueError ''approval on_timeout currently supports only deny''),
      (case ap_tools p of None \<Rightarrow> None | Some tools \<Rightarrow> validate_tool_names tools)]"

definition applies_to :: "approval_policy \<Rightarrow> string \<Rightarrow> bool" where
  "applies_to p name = (case ap_tools p of None \<Rightarrow> True | Some tools \<Rightarrow> name \<in> set tools)"

definition validate_dynamic_action :: "string \<Rightarrow> exc option" where
  "validate_dynamic_action action = require
     (matches (\<lambda>c. lower_case c \<or> upper_case c) (\<lambda>c. alnum c \<or> c \<in> set ''_.-'') 127 action)
     (ValueError ''approval action must be a stable identifier containing only letters, numbers, dot, underscore or hyphen'')"

record challenge =
  ch_action :: string
  ch_argument_hash :: string
  ch_message :: string
  ch_policy :: approval_policy

datatype approval_status = Pending | Approved | Denied | Expired | Executed | Execution_Failed | Execution_Cancelled

fun approval_status_text :: "approval_status \<Rightarrow> string" where
  "approval_status_text Pending = ''pending''" | "approval_status_text Approved = ''approved''"
| "approval_status_text Denied = ''denied''" | "approval_status_text Expired = ''expired''"
| "approval_status_text Executed = ''executed''" | "approval_status_text Execution_Failed = ''execution_failed''"
| "approval_status_text Execution_Cancelled = ''execution_cancelled''"

record approval =
  a_id :: string
  a_user_id :: string
  a_session_id :: string
  a_call_id :: string
  a_action :: string
  a_argument_hash :: string
  a_message :: string
  a_expires_at :: rat
  a_status :: approval_status
  a_consumed :: bool
  a_finished_at :: "rat option"

record execution =
  e_user_id :: string
  e_session_id :: string
  e_call_id :: string

text \<open>A future: waiting, settled with a decision or an exception, or cancelled with its task.\<close>

datatype future = Unsettled | Settled string | Failed_With exc

record approvals =
  a_objects :: "(string \<times> approval) list"
  a_items :: "string list"
  a_waiters :: "(string \<times> string) list"
  a_futures :: "(string \<times> future) list"

record approval_config =
  max_pending :: nat
  tombstone_seconds :: rat

definition empty_approvals :: approvals where
  "empty_approvals = \<lparr>a_objects = [], a_items = [], a_waiters = [], a_futures = []\<rparr>"

definition check_approval_config :: "int \<Rightarrow> rat \<Rightarrow> exc option" where
  "check_approval_config pending seconds = check_all
     [require (\<not> pending < 1) (ValueError ''approval max_pending must be at least one''),
      require (\<not> seconds < 0) (ValueError ''approval tombstone_seconds cannot be negative'')]"

abbreviation approval_at :: "approvals \<Rightarrow> string \<Rightarrow> approval option" where
  "approval_at s k \<equiv> map_of (a_objects s) k"

abbreviation put_approval :: "string \<Rightarrow> approval \<Rightarrow> approvals \<Rightarrow> approvals" where
  "put_approval k a s \<equiv> s\<lparr>a_objects := AList.update k a (a_objects s)\<rparr>"

definition waiting_on :: "approvals \<Rightarrow> string \<Rightarrow> bool" where
  "waiting_on s k \<longleftrightarrow> map_of (a_waiters s) k \<noteq> None"

definition finished_at :: "approvals \<Rightarrow> string \<Rightarrow> rat option" where
  "finished_at s k = (case approval_at s k of None \<Rightarrow> None | Some a \<Rightarrow> a_finished_at a)"


section \<open>Retention\<close>

definition active_approval :: "approvals \<Rightarrow> string \<Rightarrow> bool" where
  "active_approval s k = (case approval_at s k of None \<Rightarrow> False | Some a \<Rightarrow> a_status a \<in> {Pending, Approved})"

definition active_count :: "approvals \<Rightarrow> nat" where
  "active_count s = length (filter (active_approval s) (a_items s))"

text \<open>\<^verbatim>\<open>terminal[:-max_pending]\<close>: all but the last \<^verbatim>\<open>max_pending\<close>.\<close>

definition cap_tombstones :: "approval_config \<Rightarrow> approvals \<Rightarrow> approvals" where
  "cap_tombstones cfg s =
     (let terminal = sort_key (\<lambda>k. case finished_at s k of None \<Rightarrow> 0 | Some t \<Rightarrow> t)
            (filter (\<lambda>k. finished_at s k \<noteq> None \<and> \<not> waiting_on s k) (a_items s));
          dropped = take (length terminal - max_pending cfg) terminal
      in s\<lparr>a_items := filter (\<lambda>k. k \<notin> set dropped) (a_items s)\<rparr>)"

definition prune :: "approval_config \<Rightarrow> rat \<Rightarrow> approvals \<Rightarrow> approvals" where
  "prune cfg now s = cap_tombstones cfg (s\<lparr>a_items := filter (\<lambda>k. \<not> (case finished_at s k of None \<Rightarrow> False
     | Some t \<Rightarrow> now - t \<ge> tombstone_seconds cfg \<and> \<not> waiting_on s k)) (a_items s)\<rparr>)"

definition retained_count :: "approval_config \<Rightarrow> rat \<Rightarrow> approvals \<Rightarrow> nat \<times> approvals" where
  "retained_count cfg now s = (let s' = prune cfg now s in (length (a_items s'), s'))"

definition release_waiter :: "approval_config \<Rightarrow> rat \<Rightarrow> string \<Rightarrow> approvals \<Rightarrow> approvals" where
  "release_waiter cfg now k s = prune cfg now (s\<lparr>a_waiters := AList.delete k (a_waiters s)\<rparr>)"


section \<open>Requests and suspensions\<close>

definition request_approval :: "approval_config \<Rightarrow> rat \<Rightarrow> string \<Rightarrow> challenge \<Rightarrow> execution \<Rightarrow> approvals
    \<Rightarrow> (approvals, approval) outcome" where
  "request_approval cfg now ident ch ex s =
     (let pending = \<lparr>a_id = ident, a_user_id = e_user_id ex, a_session_id = e_session_id ex, a_call_id = e_call_id ex,
            a_action = ch_action ch, a_argument_hash = ch_argument_hash ch, a_message = ch_message ch,
            a_expires_at = now + of_int (ap_timeout_seconds (ch_policy ch)), a_status = Pending, a_consumed = False,
            a_finished_at = None\<rparr>;
          s' = prune cfg now s
      in if active_count s' \<ge> max_pending cfg
         then (Inl (ApprovalEnforcementError ''approval capacity is exhausted''), s')
         else (Inr pending, s'\<lparr>a_objects := AList.update ident pending (a_objects s'),
                               a_items := (if ident \<in> set (a_items s') then a_items s' else a_items s' @ [ident])\<rparr>))"

definition request_waiter :: "approval_config \<Rightarrow> rat \<Rightarrow> string \<Rightarrow> string \<Rightarrow> challenge \<Rightarrow> execution \<Rightarrow> approvals
    \<Rightarrow> (approvals, approval) outcome" where
  "request_waiter cfg now ident run ch ex s =
     (case request_approval cfg now ident ch ex s of
        (Inl e, s') \<Rightarrow> (Inl e, s')
      | (Inr pending, s') \<Rightarrow> (Inr pending,
          s'\<lparr>a_waiters := AList.update ident run (a_waiters s'), a_futures := AList.update ident Unsettled (a_futures s')\<rparr>))"


section \<open>Decisions and expiry\<close>

definition mark_expired :: "rat \<Rightarrow> string \<Rightarrow> approval \<Rightarrow> approvals \<Rightarrow> bool \<times> approvals" where
  "mark_expired now k a s =
     (if a_status a = Pending \<and> now \<ge> a_expires_at a
      then (True, put_approval k (a\<lparr>a_status := Expired, a_finished_at := Some now\<rparr>) s) else (False, s))"

text \<open>A future is settled once: \<^verbatim>\<open>future.done()\<close> is tested before.\<close>

definition settle :: "string \<Rightarrow> future \<Rightarrow> approvals \<Rightarrow> approvals" where
  "settle k f s = (if map_of (a_futures s) k = Some Unsettled then s\<lparr>a_futures := AList.update k f (a_futures s)\<rparr> else s)"

definition complete_expiry :: "approval_config \<Rightarrow> rat \<Rightarrow> string \<Rightarrow> approvals \<Rightarrow> approvals" where
  "complete_expiry cfg now k s = release_waiter cfg now k
     (if waiting_on s k then settle k (Failed_With (ApprovalExpired ''approval expired'')) s else s)"

definition deliver_decision :: "string \<Rightarrow> string \<Rightarrow> approvals \<Rightarrow> approvals" where
  "deliver_decision k decision s =
     (if \<not> waiting_on s k then s
      else settle k (if decision = ''approve'' then Settled ''approve''
                     else Failed_With (ApprovalDenied ''approval was denied'')) s)"

text \<open>
  \<open>authority\<close> is what \<^verbatim>\<open>run._accept_resume_authority()\<close> of the waiting run raises, if it raises a
  \<^verbatim>\<open>PermissionError\<close>.
\<close>

definition decide :: "approval_config \<Rightarrow> rat \<Rightarrow> string \<Rightarrow> string \<Rightarrow> string \<Rightarrow> string option \<Rightarrow> bool \<Rightarrow> approvals
    \<Rightarrow> (approvals, approval) outcome" where
  "decide cfg now k user decision authority deliver s =
     (if decision \<notin> {''approve'', ''deny''} then (Inl (ValueError ''approval decision must be approve or deny''), s)
      else case (if k \<in> set (a_items s) then approval_at s k else None) of
        None \<Rightarrow> (Inl (KeyError ''approval not found''), s)
      | Some a \<Rightarrow>
         (if a_user_id a \<noteq> user then (Inl (KeyError ''approval not found''), s)
          else case mark_expired now k a s of
            (True, s') \<Rightarrow> (Inl (ApprovalEnforcementError ''approval is already expired''), complete_expiry cfg now k s')
          | (False, s') \<Rightarrow>
             if a_status a \<noteq> Pending
             then (Inl (ApprovalEnforcementError (''approval is already '' @ approval_status_text (a_status a))), s')
             else if waiting_on s k \<and> authority \<noteq> None
             then (Inl (ApprovalEnforcementError (the authority)), s')
             else (let a' = a\<lparr>a_status := (if decision = ''approve'' then Approved else Denied),
                              a_finished_at := (if decision = ''deny'' then Some now else a_finished_at a)\<rparr>;
                       s'' = put_approval k a' s'
                   in (Inr a', if waiting_on s k \<and> deliver then deliver_decision k decision s'' else s''))))"

definition expire :: "approval_config \<Rightarrow> rat \<Rightarrow> string \<Rightarrow> approvals \<Rightarrow> approvals" where
  "expire cfg now k s =
     (case (if k \<in> set (a_items s) then approval_at s k else None) of
        None \<Rightarrow> s
      | Some a \<Rightarrow> if a_status a \<noteq> Pending then s
          else (case mark_expired now k a s of (False, s') \<Rightarrow> s' | (True, s') \<Rightarrow> complete_expiry cfg now k s'))"


section \<open>The grant\<close>

definition consume_grant :: "rat \<Rightarrow> string \<Rightarrow> challenge \<Rightarrow> execution \<Rightarrow> approvals \<Rightarrow> (approvals, approval) outcome" where
  "consume_grant now k ch ex s =
     (case approval_at s k of None \<Rightarrow> (Inl (KeyError ''approval not found''), s)
      | Some g \<Rightarrow>
          if a_consumed g then (Inl (ApprovalEnforcementError ''approval grant was already consumed''), s)
          else if a_status g \<noteq> Approved
          then (Inl (ApprovalEnforcementError (''approval is '' @ approval_status_text (a_status g) @ '', not approved'')), s)
          else if now \<ge> a_expires_at g
          then (Inl (ApprovalExpired ''approval expired before protected execution''),
                put_approval k (g\<lparr>a_status := Expired, a_finished_at := Some now\<rparr>) s)
          else if a_user_id g \<noteq> e_user_id ex \<or> a_session_id g \<noteq> e_session_id ex \<or> a_call_id g \<noteq> e_call_id ex \<or>
                  a_action g \<noteq> ch_action ch \<or> a_argument_hash g \<noteq> ch_argument_hash ch
          then (Inl (ApprovalEnforcementError ''approved action did not match the suspended invocation''), s)
          else (Inr (g\<lparr>a_consumed := True\<rparr>), put_approval k (g\<lparr>a_consumed := True\<rparr>) s))"

text \<open>
  What \<^verbatim>\<open>suspend\<close> does once its future is done, the \<^verbatim>\<open>finally\<close> clause included; \<open>None\<close> while the
  coroutine is still suspended.
\<close>

definition resume_suspended :: "approval_config \<Rightarrow> rat \<Rightarrow> string \<Rightarrow> challenge \<Rightarrow> execution \<Rightarrow> approvals
    \<Rightarrow> (approvals, approval) outcome option" where
  "resume_suspended cfg now k ch ex s =
     (let finally = (\<lambda>t. case approval_at t k of None \<Rightarrow> t
            | Some a \<Rightarrow> if a_status a \<in> {Denied, Expired} then release_waiter cfg now k t else t);
          outcome = (case map_of (a_futures s) k of
              None \<Rightarrow> None | Some Unsettled \<Rightarrow> None
            | Some (Failed_With e) \<Rightarrow> Some (Inl e, s)
            | Some (Settled decision) \<Rightarrow>
                if decision \<noteq> ''approve'' then Some (Inl (ApprovalDenied ''approval was denied''), s)
                else Some (consume_grant now k ch ex s))
      in map_option (\<lambda>(r, t). (r, finally t)) outcome)"

definition assert_consumed :: "approval \<Rightarrow> exc option" where
  "assert_consumed a = require (a_consumed a)
     (ApprovalEnforcementError ''approved action was not reached during resumed execution'')"

definition finish_approval :: "approval_status \<Rightarrow> approval_config \<Rightarrow> rat \<Rightarrow> string \<Rightarrow> approvals \<Rightarrow> approvals" where
  "finish_approval status cfg now k s =
     (case approval_at s k of None \<Rightarrow> s
      | Some a \<Rightarrow> release_waiter cfg now k (put_approval k (a\<lparr>a_status := status, a_finished_at := Some now\<rparr>) s))"

definition executed :: "approval_config \<Rightarrow> rat \<Rightarrow> string \<Rightarrow> approvals \<Rightarrow> approvals" where
  "executed = finish_approval Executed"

definition failed :: "approval_config \<Rightarrow> rat \<Rightarrow> string \<Rightarrow> approvals \<Rightarrow> approvals" where
  "failed = finish_approval Execution_Failed"

text \<open>
  Cancelling a run cancels its task, hence the future the task waits on. Its resume authority
  is closed by the object that holds it.
\<close>

definition cancel_one :: "rat \<Rightarrow> string \<Rightarrow> approvals \<Rightarrow> approvals" where
  "cancel_one now k s =
     (case approval_at s k of None \<Rightarrow> s
      | Some a \<Rightarrow> settle k (Failed_With (CancelledError [])) (s\<lparr>a_waiters := AList.delete k (a_waiters s),
          a_objects := AList.update k (a\<lparr>a_status := Execution_Cancelled, a_finished_at := Some now\<rparr>) (a_objects s)\<rparr>))"

definition cancel_run :: "approval_config \<Rightarrow> rat \<Rightarrow> string \<Rightarrow> approvals \<Rightarrow> approvals" where
  "cancel_run cfg now run s =
     prune cfg now (fold (cancel_one now) (map fst (filter (\<lambda>w. snd w = run) (a_waiters s))) s)"

definition run_for :: "string \<Rightarrow> approvals \<Rightarrow> string option" where
  "run_for k s = map_of (a_waiters s) k"

definition pending_for :: "string \<Rightarrow> string \<Rightarrow> approvals \<Rightarrow> approval list" where
  "pending_for user session s = filter (\<lambda>a. a_user_id a = user \<and> a_session_id a = session \<and> a_status a = Pending)
     (List.map_filter (\<lambda>w. approval_at s (fst w)) (a_waiters s))"

end
