(* ===== verification/Approval_Props.thy ===== *)
theory Approval_Props
  imports Approval
begin

text \<open>
  The contract of the approval store over arbitrary sequences of operations: an approval moves
  along one step relation, it is consumed at most once and only after its owner approved it,
  capacity and retention are bounded, and an undecided approval stays decidable.
\<close>

section \<open>The operations as one step function\<close>

datatype approval_op =
    A_Request rat string challenge execution
  | A_Suspend rat string string challenge execution
  | A_Decide rat string string string "string option" bool
  | A_Deliver string string
  | A_Expire rat string
  | A_Resume rat string challenge execution
  | A_Consume rat string challenge execution
  | A_Executed rat string
  | A_Failed rat string
  | A_Cancel_Run rat string
  | A_Prune rat

fun approval_step :: "approval_config \<Rightarrow> approval_op \<Rightarrow> approvals \<Rightarrow> approvals" where
  "approval_step cfg (A_Request now k ch ex) s = snd (request_approval cfg now k ch ex s)"
| "approval_step cfg (A_Suspend now k run ch ex) s = snd (request_waiter cfg now k run ch ex s)"
| "approval_step cfg (A_Decide now k user dec auth deliver) s = snd (decide cfg now k user dec auth deliver s)"
| "approval_step cfg (A_Deliver k dec) s = deliver_decision k dec s"
| "approval_step cfg (A_Expire now k) s = expire cfg now k s"
| "approval_step cfg (A_Resume now k ch ex) s = (case resume_suspended cfg now k ch ex s of None \<Rightarrow> s | Some r \<Rightarrow> snd r)"
| "approval_step cfg (A_Consume now k ch ex) s = snd (consume_grant now k ch ex s)"
| "approval_step cfg (A_Executed now k) s = executed cfg now k s"
| "approval_step cfg (A_Failed now k) s = failed cfg now k s"
| "approval_step cfg (A_Cancel_Run now run) s = cancel_run cfg now run s"
| "approval_step cfg (A_Prune now) s = prune cfg now s"

definition requests :: "approval_op \<Rightarrow> string \<Rightarrow> bool" where
  "requests op k \<longleftrightarrow> (\<exists>now ch ex. op = A_Request now k ch ex) \<or> (\<exists>now run ch ex. op = A_Suspend now k run ch ex)"

definition live_status :: "approval_status \<Rightarrow> bool" where
  "live_status st \<longleftrightarrow> st \<in> {Pending, Approved}"

inductive approval_move :: "approval \<Rightarrow> approval \<Rightarrow> bool" where
  stay: "approval_move a a"
| approved: "a_status a = Pending \<Longrightarrow> approval_move a (a\<lparr>a_status := Approved\<rparr>)"
| denied: "a_status a = Pending \<Longrightarrow> approval_move a (a\<lparr>a_status := Denied, a_finished_at := Some now\<rparr>)"
| expired: "live_status (a_status a) \<Longrightarrow> approval_move a (a\<lparr>a_status := Expired, a_finished_at := Some now\<rparr>)"
| consumed: "a_status a = Approved \<Longrightarrow> \<not> a_consumed a \<Longrightarrow> approval_move a (a\<lparr>a_consumed := True\<rparr>)"
| ended: "st \<in> {Executed, Execution_Failed, Execution_Cancelled} \<Longrightarrow>
     approval_move a (a\<lparr>a_status := st, a_finished_at := Some now\<rparr>)"

inductive_cases approval_moveE: "approval_move a b"


section \<open>Frames\<close>

lemma prune_frame [simp]:
  "a_objects (prune cfg now s) = a_objects s" "a_waiters (prune cfg now s) = a_waiters s"
  "a_futures (prune cfg now s) = a_futures s"
  by (simp_all add: prune_def cap_tombstones_def Let_def)

lemma release_frame [simp]:
  "a_objects (release_waiter cfg now k s) = a_objects s"
  "a_waiters (release_waiter cfg now k s) = AList.delete k (a_waiters s)"
  by (simp_all add: release_waiter_def)

lemma settle_frame [simp]:
  "a_objects (settle k f s) = a_objects s" "a_items (settle k f s) = a_items s" "a_waiters (settle k f s) = a_waiters s"
  by (simp_all add: settle_def)

lemma deliver_frame [simp]:
  "a_objects (deliver_decision k d s) = a_objects s" "a_items (deliver_decision k d s) = a_items s"
  "a_waiters (deliver_decision k d s) = a_waiters s"
  by (simp_all add: deliver_decision_def)

lemma complete_expiry_frame [simp]: "a_objects (complete_expiry cfg now k s) = a_objects s"
  by (simp add: complete_expiry_def)


section \<open>One step of one approval\<close>

lemma mark_expired_cases:
  obtains (live) "mark_expired now k a s = (False, s)"
  | (expired) "a_status a = Pending" "mark_expired now k a s = (True, put_approval k (a\<lparr>a_status := Expired, a_finished_at := Some now\<rparr>) s)"
proof (cases "a_status a = Pending \<and> now \<ge> a_expires_at a")
  case True
  then show ?thesis by (intro expired) (simp_all add: mark_expired_def)
qed (auto simp: mark_expired_def intro: live)

text \<open>What a decision does to the objects.\<close>

lemma decide_objects:
  obtains (same) "a_objects (snd (decide cfg now k user dec auth deliver s)) = a_objects s"
  | (moved) a b where "approval_at s k = Some a" "k \<in> set (a_items s)" "a_user_id a = user" "a_status a = Pending"
      "a_objects (snd (decide cfg now k user dec auth deliver s)) = AList.update k b (a_objects s)"
      "b = a\<lparr>a_status := Expired, a_finished_at := Some now\<rparr> \<or> (dec = ''approve'' \<and> b = a\<lparr>a_status := Approved\<rparr>) \<or>
       b = a\<lparr>a_status := Denied, a_finished_at := Some now\<rparr>"
proof (cases "dec \<in> {''approve'', ''deny''} \<and> k \<in> set (a_items s)")
  case ok: True
  show ?thesis
  proof (cases "approval_at s k")
    case (Some a)
    show ?thesis
    proof (cases "a_user_id a = user")
      case True
      show ?thesis
      proof (cases rule: mark_expired_cases [of now k a s])
        case live
        show ?thesis
        proof (cases "a_status a = Pending \<and> \<not> (waiting_on s k \<and> auth \<noteq> None)")
          case False
          then show ?thesis using ok Some True live by (intro same) (auto simp: decide_def)
        next
          case pend: True
          then show ?thesis using ok Some True live
            by (intro moved [of a "a\<lparr>a_status := (if dec = ''approve'' then Approved else Denied),
                 a_finished_at := (if dec = ''deny'' then Some now else a_finished_at a)\<rparr>"])
              (auto simp: decide_def Let_def)
        qed
      next
        case expired
        then show ?thesis using ok Some True by (intro moved [of a]) (auto simp: decide_def)
      qed
    qed (use ok Some in \<open>auto simp: decide_def intro: same\<close>)
  qed (use ok in \<open>auto simp: decide_def intro: same\<close>)
qed (auto simp: decide_def intro: same)

lemma consume_cases:
  obtains (refused) e where "consume_grant now k ch ex s = (Inl e, s)"
  | (late) g e where "approval_at s k = Some g" "a_status g = Approved"
      "consume_grant now k ch ex s = (Inl e, put_approval k (g\<lparr>a_status := Expired, a_finished_at := Some now\<rparr>) s)"
  | (used) g where "approval_at s k = Some g" "a_status g = Approved" "\<not> a_consumed g" "now < a_expires_at g"
      "a_user_id g = e_user_id ex" "a_session_id g = e_session_id ex" "a_call_id g = e_call_id ex"
      "a_action g = ch_action ch" "a_argument_hash g = ch_argument_hash ch"
      "consume_grant now k ch ex s = (Inr (g\<lparr>a_consumed := True\<rparr>), put_approval k (g\<lparr>a_consumed := True\<rparr>) s)"
proof (cases "approval_at s k")
  case (Some g)
  show ?thesis
  proof (cases "a_consumed g \<or> a_status g \<noteq> Approved")
    case True
    then have "\<exists>e. consume_grant now k ch ex s = (Inl e, s)" using Some by (auto simp: consume_grant_def)
    then show ?thesis using refused by blast
  next
    case ok: False
    show ?thesis
    proof (cases "now \<ge> a_expires_at g")
      case True
      then show ?thesis using ok Some by (intro late [of g]) (auto simp: consume_grant_def)
    next
      case False
      show ?thesis
      proof (cases "a_user_id g = e_user_id ex \<and> a_session_id g = e_session_id ex \<and> a_call_id g = e_call_id ex \<and>
          a_action g = ch_action ch \<and> a_argument_hash g = ch_argument_hash ch")
        case True
        then show ?thesis using ok Some False by (intro used [of g]) (auto simp: consume_grant_def)
      next
        case no: False
        then have "\<exists>e. consume_grant now k ch ex s = (Inl e, s)" using ok Some False by (auto simp: consume_grant_def)
        then show ?thesis using refused by blast
      qed
    qed
  qed
qed (auto simp: consume_grant_def intro: refused)

lemma consume_moves:
  assumes "approval_at s k = Some a"
  shows "\<exists>b. approval_at (snd (consume_grant now j ch ex s)) k = Some b \<and> approval_move a b"
proof (cases rule: consume_cases [of now j ch ex s])
  case (late g e)
  have "approval_move g (g\<lparr>a_status := Expired, a_finished_at := Some now\<rparr>)"
    by (rule approval_move.expired) (simp add: live_status_def late(2))
  with late assms show ?thesis by (auto intro: approval_move.stay)
next
  case (used g)
  have "approval_move g (g\<lparr>a_consumed := True\<rparr>)" by (rule approval_move.consumed) (fact used)+
  with used assms show ?thesis by (auto intro: approval_move.stay)
qed (use assms in \<open>auto intro: approval_move.stay\<close>)

text \<open>Resuming a suspended call is a consumption, or leaves the objects.\<close>

lemma resume_objects:
  obtains (same) "a_objects (approval_step cfg (A_Resume now k ch ex) s) = a_objects s"
  | (consume) "map_of (a_futures s) k = Some (Settled ''approve'')"
      "a_objects (approval_step cfg (A_Resume now k ch ex) s) = a_objects (snd (consume_grant now k ch ex s))"
proof (cases "map_of (a_futures s) k = Some (Settled ''approve'')")
  case True
  then show ?thesis
    by (intro consume) (simp_all add: resume_suspended_def Let_def split_beta split: option.split)
next
  case False
  then show ?thesis
    by (intro same) (auto simp: resume_suspended_def Let_def split_beta split: option.splits future.splits if_splits)
qed

lemma cancel_one_at [simp]:
  "approval_at (cancel_one now j s) k = (if j = k
     then map_option (\<lambda>a. a\<lparr>a_status := Execution_Cancelled, a_finished_at := Some now\<rparr>) (approval_at s k) else approval_at s k)"
  by (auto simp: cancel_one_def split: option.split)

lemma cancel_fold_at:
  "approval_at (fold (cancel_one now) ks s) k = (if k \<in> set ks
     then map_option (\<lambda>a. a\<lparr>a_status := Execution_Cancelled, a_finished_at := Some now\<rparr>) (approval_at s k) else approval_at s k)"
  by (induction ks arbitrary: s) (auto simp: option.map_comp comp_def)

lemma cancel_run_at:
  "approval_at (cancel_run cfg now run s) k = (if k \<in> fst ` {w \<in> set (a_waiters s). snd w = run}
     then map_option (\<lambda>a. a\<lparr>a_status := Execution_Cancelled, a_finished_at := Some now\<rparr>) (approval_at s k) else approval_at s k)"
  by (simp add: cancel_run_def cancel_fold_at)

lemma finish_at:
  "approval_at (finish_approval st cfg now j s) k = (if j = k
     then map_option (\<lambda>a. a\<lparr>a_status := st, a_finished_at := Some now\<rparr>) (approval_at s k) else approval_at s k)"
  by (auto simp: finish_approval_def split: option.split)

lemma request_objects:
  "k \<noteq> k' \<Longrightarrow> approval_at (snd (request_approval cfg now k' ch ex s)) k = approval_at s k"
  by (auto simp: request_approval_def Let_def split: if_splits)

lemma request_waiter_objects [simp]:
  "a_objects (snd (request_waiter cfg now k run ch ex s)) = a_objects (snd (request_approval cfg now k ch ex s))"
  "a_items (snd (request_waiter cfg now k run ch ex s)) = a_items (snd (request_approval cfg now k ch ex s))"
  by (simp_all add: request_waiter_def split_beta split: sum.split prod.split)

lemma approval_step_moves:
  assumes a: "approval_at s k = Some a" and fresh: "\<not> requests op k"
  shows "\<exists>b. approval_at (approval_step cfg op s) k = Some b \<and> approval_move a b"
proof (cases op)
  case (A_Request now j ch ex)
  then show ?thesis using a fresh by (auto simp: requests_def request_objects intro: approval_move.stay)
next
  case (A_Suspend now j run ch ex)
  then show ?thesis using a fresh by (auto simp: requests_def request_objects intro: approval_move.stay)
next
  case (A_Decide now j user dec auth deliver)
  show ?thesis
  proof (cases rule: decide_objects [of cfg now j user dec auth deliver s])
    case (moved c b)
    then have "approval_move c b" by (auto intro: approval_move.intros simp: live_status_def)
    then show ?thesis using a A_Decide moved by (auto intro: approval_move.stay)
  qed (use a A_Decide in \<open>auto intro: approval_move.stay\<close>)
next
  case (A_Expire now j)
  show ?thesis
  proof (cases "approval_at s j")
    case (Some c)
    show ?thesis
      by (cases rule: mark_expired_cases [of now j c s])
        (use a A_Expire Some approval_move.expired [of c now] in \<open>auto simp: expire_def live_status_def intro: approval_move.stay\<close>)
  qed (use a A_Expire in \<open>auto simp: expire_def intro: approval_move.stay\<close>)
next
  case (A_Consume now j ch ex)
  then show ?thesis using consume_moves [OF a] by simp
next
  case (A_Resume now j ch ex)
  show ?thesis
  proof (cases rule: resume_objects [of cfg now j ch ex s])
    case consume
    then show ?thesis using consume_moves [OF a] A_Resume by simp
  qed (use a A_Resume in \<open>auto intro: approval_move.stay\<close>)
next
  case (A_Executed now j)
  then show ?thesis using a by (auto simp: executed_def finish_at intro: approval_move.stay approval_move.ended)
next
  case (A_Failed now j)
  then show ?thesis using a by (auto simp: failed_def finish_at intro: approval_move.stay approval_move.ended)
next
  case (A_Cancel_Run now run)
  then show ?thesis using a by (auto simp: cancel_run_at intro: approval_move.stay approval_move.ended)
qed (use a in \<open>auto intro: approval_move.stay\<close>)

lemma move_consumed: "approval_move a b \<Longrightarrow> a_consumed a \<Longrightarrow> a_consumed b"
  by (induction rule: approval_move.induct) auto

lemma consumed_run:
  "approval_at s k = Some a \<Longrightarrow> a_consumed a \<Longrightarrow> list_all (\<lambda>op. \<not> requests op k) ops \<Longrightarrow>
   \<exists>b. approval_at (fold (approval_step cfg) ops s) k = Some b \<and> a_consumed b"
proof (induction ops arbitrary: s a)
  case (Cons op ops)
  then obtain b where "approval_at (approval_step cfg op s) k = Some b" "approval_move a b"
    using approval_step_moves [OF Cons.prems(1), of op cfg] by auto
  with Cons move_consumed show ?case by auto
qed simp


section \<open>One-time use\<close>

text \<open>
  An approval authorizes one protected call: once it has been consumed, every later attempt
  to consume it is refused, whatever operations of the store happen in between.
\<close>

theorem approval_used_once:
  assumes used: "consume_grant now k ch ex s = (Inr g, s')" and "list_all (\<lambda>op. \<not> requests op k) ops"
  shows "consume_grant now' k ch' ex' (fold (approval_step cfg) ops s') =
    (Inl (ApprovalEnforcementError ''approval grant was already consumed''), fold (approval_step cfg) ops s')"
proof (cases rule: consume_cases [of now k ch ex s])
  case (used g0)
  then have "approval_at s' k = Some g" "a_consumed g" using assms(1) by auto
  from consumed_run [OF this assms(2), of cfg] show ?thesis by (auto simp: consume_grant_def)
qed (use assms(1) in auto)

definition granted :: "approval \<Rightarrow> bool" where
  "granted a \<longleftrightarrow> a_consumed a \<or> a_status a = Approved"

definition owner_approves :: "string \<Rightarrow> string \<Rightarrow> approval_op \<Rightarrow> bool" where
  "owner_approves k user op = (case op of A_Decide now j u dec auth deliver \<Rightarrow> j = k \<and> u = user \<and> dec = ''approve'' | _ \<Rightarrow> False)"

lemma move_granted: "approval_move a b \<Longrightarrow> a_user_id b = a_user_id a \<and> (granted b \<longrightarrow> granted a \<or> (a_status a = Pending \<and> b = a\<lparr>a_status := Approved\<rparr>))"
  by (induction rule: approval_move.induct) (auto simp: granted_def)

lemma granted_step:
  assumes b: "approval_at (approval_step cfg op s) k = Some b" "granted b"
  shows "(\<exists>a. approval_at s k = Some a \<and> granted a \<and> a_user_id a = a_user_id b) \<or> owner_approves k (a_user_id b) op"
proof (cases "approval_at s k")
  case None
  have "a_status b = Pending \<and> \<not> a_consumed b" if "requests op k"
    using b(1) None that by (auto simp: requests_def request_approval_def Let_def split: if_splits)
  moreover have "requests op k"
  proof (rule ccontr)
    assume no: "\<not> requests op k"
    show False
    proof (cases op)
      case (A_Decide now j user dec auth deliver)
      then show ?thesis using b(1) None
        by (cases rule: decide_objects [of cfg now j user dec auth deliver s]) (auto split: if_splits)
    next
      case (A_Resume now j ch ex)
      then show ?thesis using b(1) None
        by (cases rule: resume_objects [of cfg now j ch ex s]; cases rule: consume_cases [of now j ch ex s]) (auto split: if_splits)
    next
      case (A_Consume now j ch ex)
      then show ?thesis using b(1) None by (cases rule: consume_cases [of now j ch ex s]) (auto split: if_splits)
    next
      case (A_Expire now j)
      then show ?thesis using b(1) None
        by (cases "approval_at s j") (auto simp: expire_def mark_expired_def split: if_splits)
    qed (use b(1) None no in \<open>auto simp: requests_def request_objects executed_def failed_def finish_at
          cancel_run_at split: if_splits\<close>)
  qed
  ultimately show ?thesis using b(2) by (simp add: granted_def)
next
  case (Some a)
  show ?thesis
  proof (cases "requests op k")
    case True
    then have "b = a \<or> (a_status b = Pending \<and> \<not> a_consumed b)"
      using b(1) Some by (auto simp: requests_def request_approval_def Let_def split: if_splits)
    then show ?thesis using b(2) Some by (auto simp: granted_def)
  next
    case False
    from approval_step_moves [OF Some False, of cfg] b(1) have move: "approval_move a b" by simp
    show ?thesis
    proof (cases "granted a")
      case no: False
      with move_granted [OF move] b(2) have pend: "a_status a = Pending" "a_status b = Approved" "a_user_id b = a_user_id a"
        by auto
      have "owner_approves k (a_user_id b) op"
      proof (cases op)
        case (A_Decide now j user dec auth deliver)
        show ?thesis
        proof (cases rule: decide_objects [of cfg now j user dec auth deliver s])
          case (moved c d)
          then show ?thesis using A_Decide b(1) Some pend
            by (auto simp: owner_approves_def approval.defs split: if_splits)
        qed (use A_Decide b(1) Some pend in auto)
      next
        case (A_Resume now j ch ex)
        then show ?thesis using b(1) Some pend
          by (cases rule: resume_objects [of cfg now j ch ex s]; cases rule: consume_cases [of now j ch ex s]) (auto split: if_splits)
      next
        case (A_Consume now j ch ex)
        then show ?thesis using b(1) Some pend by (cases rule: consume_cases [of now j ch ex s]) (auto split: if_splits)
      next
        case (A_Expire now j)
        then show ?thesis using b(1) Some pend
          by (cases "approval_at s j") (auto simp: expire_def mark_expired_def split: if_splits)
      next
        case (A_Cancel_Run now run)
        then show ?thesis using b(1) Some pend by (auto simp: cancel_run_at split: if_splits)
      qed (use b(1) Some pend False in \<open>auto simp: requests_def request_objects executed_def failed_def finish_at
            split: if_splits\<close>)
      then show ?thesis by simp
    qed (use Some move_granted [OF move] in auto)
  qed
qed

lemma granted_run:
  assumes "approval_at (fold (approval_step cfg) ops empty_approvals) k = Some b" "granted b"
  shows "\<exists>op\<in>set ops. owner_approves k (a_user_id b) op"
  using assms
proof (induction ops arbitrary: b rule: rev_induct)
  case (snoc op ops)
  from granted_step [of cfg op "fold (approval_step cfg) ops empty_approvals" k b] snoc.prems snoc.IH
  show ?case by auto
qed (simp add: empty_approvals_def)

text \<open>
  C8. No protected call runs without its owner: if, after any sequence of operations of the
  store, a suspended call is resumed with a grant, then that sequence contains an approval of
  this very challenge by the user of the call, the deadline has not passed, and the grant
  carries the call's own identity, action and argument hash.
\<close>

theorem protected_call_needs_owner_approval:
  assumes "resume_suspended cfg now k ch ex (fold (approval_step cfg) ops empty_approvals) = Some (Inr g, s')"
  shows "(\<exists>op\<in>set ops. owner_approves k (e_user_id ex) op) \<and> now < a_expires_at g \<and> a_session_id g = e_session_id ex \<and>
    a_call_id g = e_call_id ex \<and> a_action g = ch_action ch \<and> a_argument_hash g = ch_argument_hash ch"
proof -
  let ?s = "fold (approval_step cfg) ops empty_approvals"
  have "fst (consume_grant now k ch ex ?s) = Inr g"
    using assms by (auto simp: resume_suspended_def Let_def split_beta split: option.splits future.splits if_splits)
  then show ?thesis
  proof (cases rule: consume_cases [of now k ch ex ?s])
    case (used g0)
    have "granted g0" using used(2) by (simp add: granted_def)
    from granted_run [OF used(1) this] used \<open>fst (consume_grant now k ch ex ?s) = Inr g\<close> show ?thesis by auto
  qed auto
qed



section \<open>Capacity and retention\<close>

definition approvals_inv :: "approval_config \<Rightarrow> approvals \<Rightarrow> bool" where
  "approvals_inv cfg s \<longleftrightarrow> distinct (a_items s) \<and> (\<forall>k\<in>set (a_items s). approval_at s k \<noteq> None) \<and>
     (\<forall>k a. approval_at s k = Some a \<longrightarrow> (a_finished_at a = None \<longleftrightarrow> live_status (a_status a)) \<and>
        (live_status (a_status a) \<longrightarrow> k \<in> set (a_items s))) \<and> active_count s \<le> max_pending cfg"

lemma active_iff: "active_approval s k \<longleftrightarrow> (\<exists>a. approval_at s k = Some a \<and> live_status (a_status a))"
  by (simp add: active_approval_def live_status_def split: option.split)

lemma move_finished:
  "approval_move a b \<Longrightarrow> (a_finished_at a = None \<longleftrightarrow> live_status (a_status a)) \<Longrightarrow>
   (a_finished_at b = None \<longleftrightarrow> live_status (a_status b)) \<and> (live_status (a_status b) \<longrightarrow> live_status (a_status a))"
  by (induction rule: approval_move.induct) (auto simp: live_status_def)

text \<open>The items an operation keeps: a part of them that holds every unfinished one.\<close>

definition shrinks :: "approvals \<Rightarrow> approvals \<Rightarrow> bool" where
  "shrinks s s' \<longleftrightarrow> (\<exists>R. a_items s' = filter R (a_items s) \<and> (\<forall>k. finished_at s' k = None \<longrightarrow> R k))"

lemma shrinks_same: "a_items s' = a_items s \<Longrightarrow> shrinks s s'"
  unfolding shrinks_def by (rule exI [of _ "\<lambda>_. True"]) simp

lemma finished_at_prune [simp]: "finished_at (prune cfg now s) = finished_at s"
  by (rule ext) (simp add: finished_at_def)

lemma shrinks_prune:
  assumes "a_items t = a_items s"
  shows "shrinks s (prune cfg now t)"
proof -
  let ?u = "t\<lparr>a_items := filter (\<lambda>k. \<not> (case finished_at t k of None \<Rightarrow> False
     | Some x \<Rightarrow> now - x \<ge> tombstone_seconds cfg \<and> \<not> waiting_on t k)) (a_items t)\<rparr>"
  have u: "finished_at ?u k = finished_at t k" "waiting_on ?u k = waiting_on t k" for k
    by (simp_all add: finished_at_def waiting_on_def)
  define terminal where "terminal = sort_key (\<lambda>k. case finished_at t k of None \<Rightarrow> 0 | Some x \<Rightarrow> x)
     (filter (\<lambda>k. finished_at t k \<noteq> None \<and> \<not> waiting_on t k) (a_items ?u))"
  define dropped where "dropped = take (length terminal - max_pending cfg) terminal"
  have "set dropped \<subseteq> {k. finished_at t k \<noteq> None}"
    unfolding dropped_def terminal_def by (auto dest: in_set_takeD)
  moreover have "a_items (prune cfg now t) = filter (\<lambda>k. k \<notin> set dropped) (a_items ?u)"
    by (simp add: prune_def cap_tombstones_def Let_def dropped_def terminal_def u)
  ultimately show ?thesis
    unfolding shrinks_def using assms
    by (intro exI [of _ "\<lambda>k. \<not> (case finished_at t k of None \<Rightarrow> False
       | Some x \<Rightarrow> now - x \<ge> tombstone_seconds cfg \<and> \<not> waiting_on t k) \<and> k \<notin> set dropped"]) auto
qed

lemma tombstones_capped:
  "length (filter (\<lambda>k. finished_at s k \<noteq> None \<and> \<not> waiting_on s k) (a_items (prune cfg now s))) \<le> max_pending cfg"
proof -
  let ?D = "\<lambda>k. finished_at s k \<noteq> None \<and> \<not> waiting_on s k"
  let ?u = "s\<lparr>a_items := filter (\<lambda>k. \<not> (case finished_at s k of None \<Rightarrow> False
     | Some x \<Rightarrow> now - x \<ge> tombstone_seconds cfg \<and> \<not> waiting_on s k)) (a_items s)\<rparr>"
  have u: "finished_at ?u k = finished_at s k" "waiting_on ?u k = waiting_on s k" for k
    by (simp_all add: finished_at_def waiting_on_def)
  define terminal where "terminal = sort_key (\<lambda>k. case finished_at s k of None \<Rightarrow> 0 | Some x \<Rightarrow> x) (filter ?D (a_items ?u))"
  let ?n = "length terminal - max_pending cfg"
  have items: "a_items (prune cfg now s) = filter (\<lambda>k. k \<notin> set (take ?n terminal)) (a_items ?u)"
    by (simp add: prune_def cap_tombstones_def Let_def terminal_def u)
  have "length (filter ?D (a_items (prune cfg now s))) = length (filter (\<lambda>k. k \<notin> set (take ?n terminal)) (filter ?D (a_items ?u)))"
    unfolding items filter_filter by (rule arg_cong [of _ _ length], rule filter_cong) auto
  also have "\<dots> = length (filter (\<lambda>k. k \<notin> set (take ?n terminal)) terminal)"
    unfolding terminal_def by (metis (no_types, lifting) length_sort filter_sort)
  also have "\<dots> = length (filter (\<lambda>k. k \<notin> set (take ?n terminal)) (take ?n terminal @ drop ?n terminal))" by simp
  also have "\<dots> = length (filter (\<lambda>k. k \<notin> set (take ?n terminal)) (drop ?n terminal))"
    unfolding filter_append by (simp add: filter_empty_conv)
  also have "\<dots> \<le> length (drop ?n terminal)" by (rule length_filter_le)
  finally show ?thesis by simp
qed

lemma shrinks_release: "a_items t = a_items s \<Longrightarrow> shrinks s (release_waiter cfg now k t)"
  unfolding release_waiter_def by (rule shrinks_prune) simp

lemma shrinks_expiry: "a_items t = a_items s \<Longrightarrow> shrinks s (complete_expiry cfg now k t)"
  unfolding complete_expiry_def by (rule shrinks_release) simp

lemmas shrinks_intros = shrinks_same shrinks_prune shrinks_release shrinks_expiry

lemma consume_items [simp]: "a_items (snd (consume_grant now k ch ex s)) = a_items s"
  by (cases rule: consume_cases [of now k ch ex s]) simp_all

lemma cancel_fold_items [simp]: "a_items (fold (cancel_one now) ks s) = a_items s"
  by (induction ks arbitrary: s) (simp_all add: cancel_one_def split: option.split)

lemma mark_expired_items: "mark_expired now k a s = (b, s') \<Longrightarrow> a_items s' = a_items s"
  by (auto simp: mark_expired_def split: if_splits)

lemma resume_shrinks: "shrinks s (approval_step cfg (A_Resume now k ch ex) s)"
proof (cases "resume_suspended cfg now k ch ex s")
  case (Some r)
  define fin where "fin = (\<lambda>t. case approval_at t k of None \<Rightarrow> t
      | Some a \<Rightarrow> if a_status a \<in> {Denied, Expired} then release_waiter cfg now k t else t)"
  have "snd r = fin s \<or> snd r = fin (snd (consume_grant now k ch ex s))"
    using Some by (auto simp: resume_suspended_def Let_def fin_def [symmetric] split_beta split: option.splits future.splits if_splits)
  then obtain t where t: "a_items t = a_items s" "snd r = fin t"
    using consume_items [of now k ch ex s] by blast
  have "fin t = t \<or> fin t = release_waiter cfg now k t" by (simp add: fin_def split: option.split)
  then show ?thesis using Some t shrinks_intros by auto
qed (simp add: shrinks_same)

lemma step_shrinks:
  assumes "\<And>k. \<not> requests op k"
  shows "shrinks s (approval_step cfg op s)"
proof (cases op)
  case (A_Decide now k user dec auth deliver)
  show ?thesis unfolding A_Decide approval_step.simps decide_def
    by (auto simp: Let_def split: option.split prod.split bool.split
        dest: mark_expired_items intro!: shrinks_intros)
next
  case (A_Expire now k)
  show ?thesis unfolding A_Expire approval_step.simps expire_def
    by (auto split: option.split prod.split bool.split dest: mark_expired_items intro!: shrinks_intros)
next
  case (A_Resume now k ch ex)
  then show ?thesis using resume_shrinks by simp
next
  case (A_Cancel_Run now run)
  then show ?thesis by (auto simp: cancel_run_def intro: shrinks_intros)
qed (use assms in \<open>auto simp: requests_def executed_def failed_def finish_approval_def intro!: shrinks_intros split: option.split\<close>)

lemma filter_length_mono: "(\<And>x. x \<in> set xs \<Longrightarrow> P x \<Longrightarrow> Q x) \<Longrightarrow> length (filter P xs) \<le> length (filter Q xs)"
  by (induction xs) auto

lemma inv_shrink:
  assumes inv: "approvals_inv cfg s" and shr: "shrinks s s'"
    and moves: "\<And>k a. approval_at s k = Some a \<Longrightarrow> \<exists>b. approval_at s' k = Some b \<and> approval_move a b"
    and none: "\<And>k. approval_at s k = None \<Longrightarrow> approval_at s' k = None"
  shows "approvals_inv cfg s'"
proof -
  obtain R where R: "a_items s' = filter R (a_items s)" "\<And>k. finished_at s' k = None \<Longrightarrow> R k"
    using shr unfolding shrinks_def by blast
  have orig: "\<exists>a. approval_at s k = Some a \<and> (a_finished_at b = None \<longleftrightarrow> live_status (a_status b)) \<and>
      (live_status (a_status b) \<longrightarrow> live_status (a_status a) \<and> k \<in> set (a_items s'))" if b: "approval_at s' k = Some b" for k b
  proof -
    obtain a where a: "approval_at s k = Some a" using none b by fastforce
    then have "approval_move a b" using moves b by fastforce
    with inv a have m: "(a_finished_at b = None \<longleftrightarrow> live_status (a_status b)) \<and> (live_status (a_status b) \<longrightarrow> live_status (a_status a))"
      and items: "live_status (a_status a) \<longrightarrow> k \<in> set (a_items s)"
      using move_finished unfolding approvals_inv_def by blast+
    then show ?thesis using a b R by (auto simp: finished_at_def)
  qed
  have "active_count s' \<le> active_count s"
    unfolding active_count_def R(1) filter_filter
    by (rule filter_length_mono) (use orig in \<open>auto simp: active_iff\<close>)
  moreover have "approval_at s' k \<noteq> None" if "k \<in> set (a_items s')" for k
    using that R(1) inv moves unfolding approvals_inv_def by fastforce
  ultimately show ?thesis using inv orig R(1) unfolding approvals_inv_def by auto
qed

lemma step_none:
  assumes "approval_at s k = None" "\<not> requests op k"
  shows "approval_at (approval_step cfg op s) k = None"
proof (rule ccontr)
  assume "approval_at (approval_step cfg op s) k \<noteq> None"
  then obtain b where b: "approval_at (approval_step cfg op s) k = Some b" by auto
  show False
  proof (cases op)
    case (A_Decide now j user dec auth deliver)
    then show ?thesis using b assms(1)
      by (cases rule: decide_objects [of cfg now j user dec auth deliver s]) (auto split: if_splits)
  next
    case (A_Resume now j ch ex)
    then show ?thesis using b assms(1)
      by (cases rule: resume_objects [of cfg now j ch ex s]; cases rule: consume_cases [of now j ch ex s]) (auto split: if_splits)
  next
    case (A_Consume now j ch ex)
    then show ?thesis using b assms(1) by (cases rule: consume_cases [of now j ch ex s]) (auto split: if_splits)
  next
    case (A_Expire now j)
    then show ?thesis using b assms(1)
      by (cases "approval_at s j") (auto simp: expire_def mark_expired_def split: if_splits)
  qed (use b assms in \<open>auto simp: requests_def request_objects executed_def failed_def finish_at
        cancel_run_at split: if_splits\<close>)
qed

lemma request_inv:
  assumes inv: "approvals_inv cfg s"
  shows "approvals_inv cfg (snd (request_approval cfg now ident ch ex s))"
proof -
  let ?s = "prune cfg now s"
  have pruned: "approvals_inv cfg ?s"
    by (rule inv_shrink [OF inv shrinks_prune [OF refl]]) (auto intro: approval_move.stay)
  show ?thesis
  proof (cases "active_count ?s \<ge> max_pending cfg")
    case True
    then show ?thesis using pruned by (simp add: request_approval_def Let_def)
  next
    case False
    let ?t = "snd (request_approval cfg now ident ch ex s)"
    let ?items = "if ident \<in> set (a_items ?s) then a_items ?s else a_items ?s @ [ident]"
    obtain p where p: "a_objects ?t = AList.update ident p (a_objects ?s)" "a_items ?t = ?items"
        "a_status p = Pending" "a_finished_at p = None"
      using False by (auto simp: request_approval_def Let_def)
    have dist: "distinct ?items" using pruned by (simp add: approvals_inv_def)
    have "length (filter (active_approval ?t) ?items) \<le> length (filter (\<lambda>k. k = ident \<or> active_approval ?s k) ?items)"
      by (rule filter_length_mono) (auto simp: active_approval_def p split: if_split_asm)
    also have "\<dots> = card {k \<in> set ?items. k = ident \<or> active_approval ?s k}"
      using distinct_card [OF distinct_filter [OF dist], of "\<lambda>k. k = ident \<or> active_approval ?s k"] by simp
    also have "\<dots> \<le> card (insert ident {k \<in> set (a_items ?s). active_approval ?s k})"
      by (rule card_mono) (auto split: if_splits)
    also have "\<dots> \<le> Suc (card {k \<in> set (a_items ?s). active_approval ?s k})" by (rule card_insert_le_m1) simp_all
    also have "card {k \<in> set (a_items ?s). active_approval ?s k} = active_count ?s"
      unfolding active_count_def using distinct_card [OF distinct_filter, of "a_items ?s" "active_approval ?s"] pruned
      by (simp add: approvals_inv_def)
    finally have "active_count ?t \<le> max_pending cfg" using False by (simp add: active_count_def p)
    then show ?thesis using pruned dist p
      unfolding approvals_inv_def by (auto simp: live_status_def split: if_splits)
  qed
qed

lemma approvals_inv_cong:
  assumes "a_objects t = a_objects s" "a_items t = a_items s"
  shows "approvals_inv cfg t = approvals_inv cfg s"
proof -
  have "active_approval t = active_approval s" using assms(1) by (intro ext) (simp add: active_approval_def)
  then show ?thesis using assms by (simp add: approvals_inv_def active_count_def)
qed

lemma approval_step_inv:
  assumes inv: "approvals_inv cfg s"
  shows "approvals_inv cfg (approval_step cfg op s)"
proof (cases "\<exists>k. requests op k")
  case True
  then obtain k where "requests op k" by blast
  then show ?thesis
    using request_inv [OF inv] approvals_inv_cong [OF request_waiter_objects] by (auto simp: requests_def)
next
  case False
  then show ?thesis
    by (intro inv_shrink [OF inv step_shrinks]) (auto intro: approval_step_moves step_none)
qed

lemma approvals_inv_empty: "approvals_inv cfg empty_approvals"
  by (simp add: approvals_inv_def empty_approvals_def active_count_def)

interpretation approvals: guarded_store empty_approvals "approval_step cfg" "\<lambda>_. True" "approvals_inv cfg" for cfg
  by unfold_locales (rule approvals_inv_empty, rule approval_step_inv)

text \<open>
  The store is bounded and loses no decision: in every reachable state at most
  \<^verbatim>\<open>max_pending\<close> approvals are pending or approved, each of them is still among the items a
  decision can name, and what is retained after a prune is at most twice that number plus
  the live waiters.
\<close>

theorem approvals_bounded:
  "active_count (fold (approval_step cfg) ops empty_approvals) \<le> max_pending cfg \<and>
   {k. active_approval (fold (approval_step cfg) ops empty_approvals) k} \<subseteq> set (a_items (fold (approval_step cfg) ops empty_approvals)) \<and>
   fst (retained_count cfg now (fold (approval_step cfg) ops empty_approvals)) \<le>
     2 * max_pending cfg + card {k. waiting_on (fold (approval_step cfg) ops empty_approvals) k}"
proof (intro conjI)
  let ?s = "fold (approval_step cfg) ops empty_approvals"
  have inv: "approvals_inv cfg ?s" by (rule approvals.inv_run) (simp add: list_all_iff)
  then show "active_count ?s \<le> max_pending cfg" by (simp add: approvals_inv_def)
  show "{k. active_approval ?s k} \<subseteq> set (a_items ?s)" using inv by (auto simp: active_iff approvals_inv_def)
  let ?t = "prune cfg now ?s"
  have pruned: "approvals_inv cfg ?t" using approval_step_inv [OF inv, of "A_Prune now"] by simp
  have dist: "distinct (a_items ?t)" using pruned by (simp add: approvals_inv_def)
  have fin: "finite {k. waiting_on ?s k}" by (rule finite_subset [OF _ finite_dom_map_of [of "a_waiters ?s"]]) (auto simp: waiting_on_def)
  let ?dead = "filter (\<lambda>k. finished_at ?s k \<noteq> None \<and> \<not> waiting_on ?s k) (a_items ?t)"
  have "set (a_items ?t) \<subseteq> set (filter (active_approval ?t) (a_items ?t)) \<union> {k. waiting_on ?s k} \<union> set ?dead"
  proof
    fix k assume k: "k \<in> set (a_items ?t)"
    then obtain a where a: "approval_at ?t k = Some a" using pruned unfolding approvals_inv_def by blast
    show "k \<in> set (filter (active_approval ?t) (a_items ?t)) \<union> {k. waiting_on ?s k} \<union> set ?dead"
    proof (cases "live_status (a_status a)")
      case True
      then show ?thesis using k a by (auto simp: active_iff)
    next
      case False
      then have "a_finished_at a \<noteq> None" using pruned a unfolding approvals_inv_def by blast
      then show ?thesis using k a by (auto simp: finished_at_def)
    qed
  qed
  then have "card (set (a_items ?t)) \<le> card (set (filter (active_approval ?t) (a_items ?t)) \<union> {k. waiting_on ?s k} \<union> set ?dead)"
    using fin by (intro card_mono) simp_all
  also have "\<dots> \<le> card (set (filter (active_approval ?t) (a_items ?t))) + card {k. waiting_on ?s k} + card (set ?dead)"
    by (rule order_trans [OF card_Un_le add_right_mono [OF card_Un_le]])
  also have "card (set (filter (active_approval ?t) (a_items ?t))) = active_count ?t"
    unfolding active_count_def by (rule distinct_card [OF distinct_filter [OF dist]])
  also have "active_count ?t \<le> max_pending cfg" using pruned by (simp add: approvals_inv_def)
  also have "card (set ?dead) \<le> max_pending cfg" using tombstones_capped [of ?s cfg now] le_trans [OF card_length] by blast
  finally show "fst (retained_count cfg now ?s) \<le> 2 * max_pending cfg + card {k. waiting_on ?s k}"
    using dist by (simp add: retained_count_def Let_def distinct_card)
qed

text \<open>
  Only the owner decides, and once: a decision by anyone else changes nothing and is told the
  approval does not exist; a second decision is refused. A pending approval whose deadline has
  not passed can be decided by its owner in every reachable state.
\<close>

theorem owner_decides_once:
  assumes "approvals_inv cfg s" "approval_at s k = Some a" "dec \<in> {''approve'', ''deny''}"
  shows "(user \<noteq> a_user_id a \<longrightarrow> decide cfg now k user dec auth deliver s = (Inl (KeyError ''approval not found''), s)) \<and>
    (a_status a = Pending \<and> now < a_expires_at a \<longrightarrow>
       (\<exists>b t. decide cfg now k (a_user_id a) dec None deliver s = (Inr b, t) \<and>
          a_status b = (if dec = ''approve'' then Approved else Denied) \<and> approval_at t k = Some b \<and>
          (\<forall>later dec' auth' del'. \<exists>e. decide cfg later k (a_user_id a) dec' auth' del' t = (Inl e, t))))"
proof (intro conjI impI; (elim conjE)?)
  assume "user \<noteq> a_user_id a"
  then show "decide cfg now k user dec auth deliver s = (Inl (KeyError ''approval not found''), s)"
    using assms(2,3) by (auto simp: decide_def)
next
  assume pend: "a_status a = Pending" "now < a_expires_at a"
  then have item: "k \<in> set (a_items s)"
    using assms(1,2) unfolding approvals_inv_def live_status_def by blast
  let ?b = "a\<lparr>a_status := (if dec = ''approve'' then Approved else Denied),
              a_finished_at := (if dec = ''deny'' then Some now else a_finished_at a)\<rparr>"
  let ?t = "if waiting_on s k \<and> deliver then deliver_decision k dec (put_approval k ?b s) else put_approval k ?b s"
  have eq: "decide cfg now k (a_user_id a) dec None deliver s = (Inr ?b, ?t)"
    using assms(2,3) item pend by (simp add: decide_def mark_expired_def Let_def)
  have t: "approval_at ?t k = Some ?b" "a_items ?t = a_items s" by simp_all
  have "\<exists>e. decide cfg later k (a_user_id a) dec' auth' del' ?t = (Inl e, ?t)" for later dec' auth' del'
  proof (cases "dec' \<in> {''approve'', ''deny''}")
    case True
    have "mark_expired later k ?b ?t = (False, ?t)" by (simp add: mark_expired_def)
    with True show ?thesis unfolding decide_def t using item by simp
  qed (simp add: decide_def)
  with eq t(1) show "\<exists>b t. decide cfg now k (a_user_id a) dec None deliver s = (Inr b, t) \<and>
      a_status b = (if dec = ''approve'' then Approved else Denied) \<and> approval_at t k = Some b \<and>
      (\<forall>later dec' auth' del'. \<exists>e. decide cfg later k (a_user_id a) dec' auth' del' t = (Inl e, t))"
    by (intro exI [of _ ?b] exI [of _ ?t]) simp
qed


section \<open>Worked instances\<close>

definition sample_config :: approval_config where
  "sample_config = \<lparr>max_pending = 2, tombstone_seconds = 60\<rparr>"

definition sample_challenge :: challenge where
  "sample_challenge = \<lparr>ch_action = ''tool:pay'', ch_argument_hash = ''h'', ch_message = ''Pay?'',
     ch_policy = \<lparr>ap_message = ''Pay?'', ap_timeout_seconds = 900, ap_on_timeout = ''deny'', ap_tools = None\<rparr>\<rparr>"

definition sample_execution :: execution where
  "sample_execution = \<lparr>e_user_id = ''u'', e_session_id = ''s'', e_call_id = ''c''\<rparr>"

definition sample_approval_ops :: "approval_op list" where
  "sample_approval_ops = [A_Suspend 0 ''a1'' ''run'' sample_challenge sample_execution,
     A_Decide 10 ''a1'' ''u'' ''approve'' None True]"

definition sample_approvals :: approvals where
  "sample_approvals = fold (approval_step sample_config) sample_approval_ops empty_approvals"

theorem approval_used_once_witness:
  "\<exists>g s'. consume_grant 20 ''a1'' sample_challenge sample_execution sample_approvals = (Inr g, s') \<and>
     fst (consume_grant 30 ''a1'' sample_challenge sample_execution (fold (approval_step sample_config) [A_Prune 25] s')) =
       Inl (ApprovalEnforcementError ''approval grant was already consumed'')"
proof -
  have "map_sum (\<lambda>_. ()) a_consumed (fst (consume_grant 20 ''a1'' sample_challenge sample_execution sample_approvals)) = Inr True"
    by code_simp
  then obtain g s' where c: "consume_grant 20 ''a1'' sample_challenge sample_execution sample_approvals = (Inr g, s')"
    by (cases "consume_grant 20 ''a1'' sample_challenge sample_execution sample_approvals";
        cases "fst (consume_grant 20 ''a1'' sample_challenge sample_execution sample_approvals)") auto
  have "list_all (\<lambda>op. \<not> requests op ''a1'') [A_Prune 25]" by (simp add: requests_def)
  from approval_used_once [OF c this, of 30 sample_challenge sample_execution sample_config] c show ?thesis by auto
qed

theorem protected_call_needs_owner_approval_witness:
  "\<exists>op\<in>set sample_approval_ops. owner_approves ''a1'' ''u'' op"
proof -
  let ?r = "resume_suspended sample_config 20 ''a1'' sample_challenge sample_execution sample_approvals"
  have "map_option (\<lambda>r. map_sum (\<lambda>_. ()) a_consumed (fst r)) ?r = Some (Inr True)" by code_simp
  then obtain g s' where r: "?r = Some (Inr g, s')"
    by (cases ?r; cases "fst (the ?r)") auto
  from protected_call_needs_owner_approval [OF r [unfolded sample_approvals_def]] show ?thesis
    by (simp add: sample_execution_def)
qed

theorem owner_decides_once_witness:
  "\<exists>s a. approval_at s ''a1'' = Some a \<and> a_status a = Pending \<and>
     decide sample_config 10 ''a1'' ''mallory'' ''approve'' None True s = (Inl (KeyError ''approval not found''), s) \<and>
     (\<exists>b t. decide sample_config 10 ''a1'' ''u'' ''approve'' None True s = (Inr b, t) \<and> a_status b = Approved)"
proof -
  let ?ops = "[A_Suspend 0 ''a1'' ''run'' sample_challenge sample_execution]"
  let ?s = "fold (approval_step sample_config) ?ops empty_approvals"
  have inv: "approvals_inv sample_config ?s" by (rule approvals.inv_run) (simp add: list_all_iff)
  have "map_option (\<lambda>a. (a_status a, a_user_id a, a_expires_at a)) (approval_at ?s ''a1'') = Some (Pending, ''u'', 900)" by code_simp
  then obtain a where a: "approval_at ?s ''a1'' = Some a" "a_status a = Pending" "a_user_id a = ''u''" "a_expires_at a = 900"
    by auto
  have dec: "''approve'' \<in> {''approve'', ''deny''}" by simp
  note D = owner_decides_once [OF inv a(1) dec, where user = "''mallory''" and now = 10
    and auth = None and deliver = True]
  from D a(3) have "decide sample_config 10 ''a1'' ''mallory'' ''approve'' None True ?s = (Inl (KeyError ''approval not found''), ?s)"
    by simp
  moreover from D a(2-4) have "\<exists>b t. decide sample_config 10 ''a1'' ''u'' ''approve'' None True ?s = (Inr b, t) \<and> a_status b = Approved"
    by force
  ultimately show ?thesis using a(1,2) by blast
qed

end
