(* ===== verification/Transient_Media.thy ===== *)
theory Transient_Media
  imports Task_Records "HOL-Library.Multiset"
begin

text \<open>
  \<^verbatim>\<open>transient_media.py\<close>: the process-local store of inline media bytes, its per-invocation
  access object, and the markers and placeholders that stand for the bytes in history. Bytes
  are strings; the inspected metadata of a lease is opaque. The tokens \<^verbatim>\<open>secrets.token_urlsafe\<close>
  gives are the values of the argument \<open>token\<close>, one after the other.
\<close>

declare map_of_eq_Some_iff [simp del]


section \<open>The lease store\<close>

record media_scope =
  ms_user_id :: string
  ms_session_id :: string
  ms_call_id :: string

definition check_media_scope :: "media_scope \<Rightarrow> exc option" where
  "check_media_scope sc = (if blank (ms_user_id sc) \<or> blank (ms_session_id sc) \<or> blank (ms_call_id sc)
     then Some (ValueError ''transient media scope values must be non-empty strings'') else None)"

record media_lease =
  l_lease_id :: string
  l_kind :: string
  l_media_type :: string
  l_data :: string
  l_metadata :: pyval

record media_store =
  tm_max_total_bytes :: int
  tm_total_bytes :: int
  tm_leases :: "(string \<times> (media_scope \<times> media_lease)) list"

definition media_store_of :: "int \<Rightarrow> exc + media_store" where
  "media_store_of max_total_bytes =
     (if max_total_bytes < 1 then Inl (ValueError ''max_total_bytes must be a positive integer'')
      else Inr \<lparr>tm_max_total_bytes = max_total_bytes, tm_total_bytes = 0, tm_leases = []\<rparr>)"

abbreviation lease_at :: "media_store \<Rightarrow> string \<Rightarrow> (media_scope \<times> media_lease) option" where
  "lease_at s k \<equiv> map_of (tm_leases s) k"

definition lease_name :: "string \<Rightarrow> string" where
  "lease_name token = ''transient_media_'' @ token"

partial_function (option) new_id :: "(nat \<Rightarrow> string) \<Rightarrow> string list \<Rightarrow> nat \<Rightarrow> string option" where
  "new_id token taken i =
     (if lease_name (token i) \<notin> set taken then Some (lease_name (token i)) else new_id token taken (Suc i))"

text \<open>\<open>None\<close>: the generator never gives a fresh token, so \<^verbatim>\<open>_new_id_locked\<close> does not return.\<close>

definition stage :: "(nat \<Rightarrow> string) \<Rightarrow> media_scope \<Rightarrow> string \<Rightarrow> string \<Rightarrow> string \<Rightarrow> pyval \<Rightarrow> media_store
    \<Rightarrow> (media_store, media_lease) outcome option" where
  "stage token sc kind media_type data metadata s =
     (if tm_total_bytes s + int (length data) > tm_max_total_bytes s
      then Some (Inl (TransientMediaError ''transient media capacity exceeded''), s)
      else case new_id token (map fst (tm_leases s)) 0 of None \<Rightarrow> None
       | Some lease_id \<Rightarrow>
          (let lease = \<lparr>l_lease_id = lease_id, l_kind = kind, l_media_type = media_type, l_data = data, l_metadata = metadata\<rparr>
           in Some (Inr lease, s\<lparr>tm_leases := AList.update lease_id (sc, lease) (tm_leases s),
                                tm_total_bytes := tm_total_bytes s + int (length data)\<rparr>)))"

definition peek :: "media_scope \<Rightarrow> string \<Rightarrow> media_store \<Rightarrow> media_lease option" where
  "peek sc lease_id s = (case lease_at s lease_id of None \<Rightarrow> None
     | Some (owner, lease) \<Rightarrow> if owner \<noteq> sc then None else Some lease)"

definition pending_leases :: "media_scope \<Rightarrow> media_store \<Rightarrow> media_lease list" where
  "pending_leases sc s = map snd (filter (\<lambda>stored. fst stored = sc) (map snd (tm_leases s)))"

definition discard :: "string \<Rightarrow> media_lease \<Rightarrow> media_store \<Rightarrow> media_store" where
  "discard lease_id lease s = s\<lparr>tm_leases := AList.delete lease_id (tm_leases s),
     tm_total_bytes := tm_total_bytes s - int (length (l_data lease))\<rparr>"

definition commit_one :: "media_scope \<Rightarrow> string \<Rightarrow> media_store \<Rightarrow> media_store" where
  "commit_one sc lease_id s = (case lease_at s lease_id of None \<Rightarrow> s
     | Some (owner, lease) \<Rightarrow> if owner = sc then discard lease_id lease s else s)"

text \<open>\<^verbatim>\<open>set(lease_ids)\<close>: each identifier once, in an order that does not matter.\<close>

definition commit_leases :: "media_scope \<Rightarrow> string list \<Rightarrow> media_store \<Rightarrow> media_store" where
  "commit_leases sc lease_ids s = fold (commit_one sc) (remdups lease_ids) s"

definition clear_leases :: "media_scope \<Rightarrow> media_store \<Rightarrow> media_store" where
  "clear_leases sc s = fold (\<lambda>(lease_id, stored). discard lease_id (snd stored))
     (filter (\<lambda>(_, stored). fst stored = sc) (tm_leases s)) s"


section \<open>Markers and placeholders\<close>

definition py_get :: "(pyval \<times> pyval) list \<Rightarrow> string \<Rightarrow> pyval option" where
  "py_get kvs k = map_of kvs (PyStr k)"

definition media_kinds :: "string set" where
  "media_kinds = {''image'', ''audio'', ''video'', ''file''}"

definition starts_with :: "string \<Rightarrow> string \<Rightarrow> bool" where
  "starts_with p s \<longleftrightarrow> take (length p) s = p"

fun str_of :: "pyval option \<Rightarrow> string option" where
  "str_of (Some (PyStr s)) = Some s"
| "str_of _ = None"

definition transient_media_lease_id :: "pyval \<Rightarrow> string option" where
  "transient_media_lease_id value = (case value of
     PyDict kvs \<Rightarrow> (case py_get kvs ''harnestTransient'' of
         Some (PyDict marker) \<Rightarrow>
           if set (map fst marker) \<noteq> {PyStr ''leaseId''} then None
           else (case str_of (py_get marker ''leaseId'') of None \<Rightarrow> None
             | Some lease_id \<Rightarrow>
                if \<not> starts_with ''transient_media_'' lease_id then None
                else (case str_of (py_get kvs ''type'') of None \<Rightarrow> None
                  | Some kind \<Rightarrow> if kind \<notin> media_kinds then None
                      else (case str_of (py_get kvs ''mediaType'') of None \<Rightarrow> None | Some _ \<Rightarrow> Some lease_id)))
       | _ \<Rightarrow> None)
   | _ \<Rightarrow> None)"

definition transient_media_placeholder :: "string \<Rightarrow> string \<Rightarrow> pyval" where
  "transient_media_placeholder kind media_type =
     PyDict [(PyStr ''type'', PyStr kind), (PyStr ''mediaType'', PyStr media_type), (PyStr ''content'', PyStr ''attached'')]"

definition is_transient_media_placeholder :: "pyval \<Rightarrow> bool" where
  "is_transient_media_placeholder value = (case value of
     PyDict kvs \<Rightarrow> (case str_of (py_get kvs ''type'') of None \<Rightarrow> False | Some k \<Rightarrow> k \<in> media_kinds) \<and>
       str_of (py_get kvs ''mediaType'') \<noteq> None \<and> py_get kvs ''content'' = Some (PyStr ''attached'') \<and>
       py_get kvs ''harnestTransient'' = None \<and> py_get kvs ''leaseId'' = None
   | _ \<Rightarrow> False)"

text \<open>The value without its markers, and the identifiers met, in order.\<close>

definition marked :: "pyval \<Rightarrow> pyval \<times> string list \<Rightarrow> pyval \<times> string list" where
  "marked item rest = (case transient_media_lease_id item of None \<Rightarrow> rest
     | Some lease_id \<Rightarrow> (case item of
         PyDict kvs \<Rightarrow> (PyDict [(PyStr ''type'', the (py_get kvs ''type'')),
            (PyStr ''mediaType'', the (py_get kvs ''mediaType'')), (PyStr ''content'', PyStr ''attached'')], [lease_id])
       | _ \<Rightarrow> rest))"

function (sequential) walk :: "pyval \<Rightarrow> pyval \<times> string list"
  and walk_list :: "pyval list \<Rightarrow> pyval list \<times> string list"
  and walk_items :: "(pyval \<times> pyval) list \<Rightarrow> (pyval \<times> pyval) list \<times> string list" where
  "walk (PyDict kvs) = marked (PyDict kvs) (apfst PyDict (walk_items kvs))"
| "walk (PyList vs) = apfst PyList (walk_list vs)"
| "walk (PyTuple vs) = apfst PyList (walk_list vs)"
| "walk v = (v, [])"
| "walk_list [] = ([], [])"
| "walk_list (v # vs) = (fst (walk v) # fst (walk_list vs), snd (walk v) @ snd (walk_list vs))"
| "walk_items [] = ([], [])"
| "walk_items ((k, v) # kvs) = ((k, fst (walk v)) # fst (walk_items kvs), snd (walk v) @ snd (walk_items kvs))"
  by pat_completeness auto
termination
  by (relation "measure (case_sum size (case_sum (size_list size) (size_list (size_prod size size))))") auto

text \<open>\<^verbatim>\<open>dict.fromkeys\<close>: each identifier once, at its first place.\<close>

definition first_once :: "'a list \<Rightarrow> 'a list" where
  "first_once xs = rev (remdups (rev xs))"

definition sanitize_transient_media :: "pyval \<Rightarrow> pyval \<times> string list" where
  "sanitize_transient_media value = apsnd first_once (walk value)"

function (sequential) placeholders :: "pyval \<Rightarrow> (string \<times> string) list"
  and placeholders_list :: "pyval list \<Rightarrow> (string \<times> string) list"
  and placeholders_items :: "(pyval \<times> pyval) list \<Rightarrow> (string \<times> string) list" where
  "placeholders (PyDict kvs) =
     (if is_transient_media_placeholder (PyDict kvs)
      then [(the (str_of (py_get kvs ''type'')), the (str_of (py_get kvs ''mediaType'')))]
      else placeholders_items kvs)"
| "placeholders (PyList vs) = placeholders_list vs"
| "placeholders (PyTuple vs) = placeholders_list vs"
| "placeholders v = []"
| "placeholders_list [] = []"
| "placeholders_list (v # vs) = placeholders v @ placeholders_list vs"
| "placeholders_items [] = []"
| "placeholders_items ((k, v) # kvs) = placeholders v @ placeholders_items kvs"
  by pat_completeness auto
termination
  by (relation "measure (case_sum size (case_sum (size_list size) (size_list (size_prod size size))))") auto

definition signature :: "media_lease \<Rightarrow> string \<times> string" where
  "signature lease = (l_kind lease, l_media_type lease)"

fun matching_transient_leases :: "(string \<times> string) list \<Rightarrow> media_lease list \<Rightarrow> media_lease list" where
  "matching_transient_leases available [] = []"
| "matching_transient_leases available (lease # leases) =
     (if signature lease \<in> set available
      then lease # matching_transient_leases (remove1 (signature lease) available) leases
      else matching_transient_leases available leases)"


section \<open>Access of one invocation\<close>

text \<open>
  \<^verbatim>\<open>_BINDINGS\<close> of the current context, for this store: the identifiers staged per scope.
\<close>

type_synonym bindings = "(media_scope \<times> string list) list"

definition bind_leases :: "media_scope \<Rightarrow> string list \<Rightarrow> bindings \<Rightarrow> bindings" where
  "bind_leases sc lease_ids b = (let values = first_once lease_ids in
     if values = [] then b
     else AList.update sc ((case map_of b sc of None \<Rightarrow> [] | Some ids \<Rightarrow> ids) @ values) b)"

definition forget :: "media_scope \<Rightarrow> string list option \<Rightarrow> bindings \<Rightarrow> bindings" where
  "forget sc lease_ids b = (case map_of b sc of None \<Rightarrow> b
     | Some bound \<Rightarrow> (case lease_ids of None \<Rightarrow> AList.delete sc b
         | Some ids \<Rightarrow> (let remaining = filter (\<lambda>i. i \<notin> set ids) bound
                        in if remaining \<noteq> [] then AList.update sc remaining b else AList.delete sc b)))"

definition coerce_lease_id :: "pyval \<Rightarrow> string option" where
  "coerce_lease_id value = (case value of
     PyStr s \<Rightarrow> if starts_with ''transient_media_'' s then Some s else transient_media_lease_id value
   | _ \<Rightarrow> transient_media_lease_id value)"

definition access_peek :: "media_scope \<Rightarrow> pyval \<Rightarrow> media_store \<Rightarrow> media_lease option" where
  "access_peek sc marker s = (case coerce_lease_id marker of None \<Rightarrow> None | Some lease_id \<Rightarrow> peek sc lease_id s)"

definition access_pending :: "media_scope \<Rightarrow> bindings \<Rightarrow> media_store \<Rightarrow> media_lease list" where
  "access_pending sc b s = List.map_filter (\<lambda>lease_id. peek sc lease_id s) (case map_of b sc of None \<Rightarrow> [] | Some ids \<Rightarrow> ids)"

text \<open>The argument of \<^verbatim>\<open>commit\<close>: absent, one string or mapping, an iterable, or any other value.\<close>

definition commit_values :: "media_scope \<Rightarrow> pyval \<Rightarrow> bindings \<Rightarrow> media_store \<Rightarrow> pyval list" where
  "commit_values sc markers b s = (case markers of
     PyNone \<Rightarrow> map (PyStr \<circ> l_lease_id) (access_pending sc b s)
   | PyList vs \<Rightarrow> vs | PyTuple vs \<Rightarrow> vs | v \<Rightarrow> [v])"

definition access_commit :: "media_scope \<Rightarrow> pyval \<Rightarrow> bindings \<times> media_store \<Rightarrow> bindings \<times> media_store" where
  "access_commit sc markers bs = (case bs of (b, s) \<Rightarrow>
     (let lease_ids = List.map_filter coerce_lease_id (commit_values sc markers b s)
      in (forget sc (Some lease_ids) b, commit_leases sc lease_ids s)))"

definition access_clear :: "media_scope \<Rightarrow> bindings \<times> media_store \<Rightarrow> bindings \<times> media_store" where
  "access_clear sc bs = (case bs of (b, s) \<Rightarrow> (forget sc None b, clear_leases sc s))"

end
