(* ===== verification/Transient_Props.thy ===== *)
theory Transient_Props
  imports Transient_Media
begin

text \<open>
  Byte accounting, isolation of scopes, termination of the identifier loop, and the functions
  on markers and placeholders of \<^verbatim>\<open>transient_media.py\<close>.
\<close>

section \<open>Accounting and scopes\<close>

definition lease_bytes :: "(string \<times> (media_scope \<times> media_lease)) list \<Rightarrow> int" where
  "lease_bytes d = sum_list (map (\<lambda>x. int (length (l_data (snd (snd x))))) d)"

definition media_inv :: "media_store \<Rightarrow> bool" where
  "media_inv s \<longleftrightarrow> dict_ok (tm_leases s) \<and> tm_total_bytes s = lease_bytes (tm_leases s) \<and>
     tm_total_bytes s \<le> tm_max_total_bytes s \<and> (\<forall>k o' l. lease_at s k = Some (o', l) \<longrightarrow> l_lease_id l = k)"

datatype media_op =
    M_Stage "nat \<Rightarrow> string" media_scope string string string pyval
  | M_Commit media_scope "string list"
  | M_Clear media_scope

fun media_step :: "media_op \<Rightarrow> media_store \<Rightarrow> media_store" where
  "media_step (M_Stage token sc kind mt data md) s = (case stage token sc kind mt data md s of None \<Rightarrow> s | Some r \<Rightarrow> snd r)"
| "media_step (M_Commit sc ids) s = commit_leases sc ids s"
| "media_step (M_Clear sc) s = clear_leases sc s"

fun op_scope :: "media_op \<Rightarrow> media_scope" where
  "op_scope (M_Stage token sc kind mt data md) = sc"
| "op_scope (M_Commit sc ids) = sc"
| "op_scope (M_Clear sc) = sc"

lemma lease_bytes_update:
  "map_of d k = None \<Longrightarrow> lease_bytes (AList.update k v d) = lease_bytes d + int (length (l_data (snd v)))"
  by (induction d) (auto simp: lease_bytes_def split: if_splits)

lemma lease_bytes_delete:
  "dict_ok d \<Longrightarrow> map_of d k = Some (sc, l) \<Longrightarrow> lease_bytes (AList.delete k d) = lease_bytes d - int (length (l_data l))"
proof (induction d)
  case (Cons x d)
  show ?case
  proof (cases "fst x = k")
    case True
    then have "AList.delete k d = d" using Cons.prems by (intro AList.delete_id) auto
    then show ?thesis using True Cons.prems by (cases x) (auto simp: lease_bytes_def AList.delete_simps)
  next
    case False
    then show ?thesis using Cons by (cases x) (auto simp: lease_bytes_def AList.delete_simps)
  qed
qed simp

lemma lease_bytes_nonneg: "0 \<le> lease_bytes d"
  unfolding lease_bytes_def by (rule sum_list_nonneg) auto

lemma new_id_fresh: "new_id token taken i = Some k \<Longrightarrow> k \<notin> set taken"
  by (rule new_id.raw_induct) (auto split: if_splits)

lemma stage_cases:
  obtains (none) "stage token sc kind mt data md s = None"
  | (full) e where "stage token sc kind mt data md s = Some (Inl e, s)"
  | (staged) k l where "lease_at s k = None" "l_data l = data" "l_lease_id l = k" "l_kind l = kind" "l_media_type l = mt"
      "tm_total_bytes s + int (length data) \<le> tm_max_total_bytes s"
      "stage token sc kind mt data md s = Some (Inr l, s\<lparr>tm_leases := AList.update k (sc, l) (tm_leases s),
         tm_total_bytes := tm_total_bytes s + int (length data)\<rparr>)"
proof (cases "tm_total_bytes s + int (length data) > tm_max_total_bytes s")
  case True
  then show ?thesis by (auto simp: stage_def intro: full)
next
  case False
  show ?thesis
  proof (cases "new_id token (map fst (tm_leases s)) 0")
    case None
    then show ?thesis using False by (intro none) (simp add: stage_def)
  next
    case (Some k)
    have "lease_at s k = None" using new_id_fresh [OF Some] by (simp add: map_of_eq_None_iff)
    then show ?thesis using False Some
      by (intro staged [of k "\<lparr>l_lease_id = k, l_kind = kind, l_media_type = mt, l_data = data, l_metadata = md\<rparr>"])
        (auto simp: stage_def Let_def)
  qed
qed

lemma commit_one_at [simp]:
  "lease_at (commit_one sc k s) j = (case lease_at s j of None \<Rightarrow> None
     | Some (o', l) \<Rightarrow> if j = k \<and> o' = sc then None else Some (o', l))"
  by (auto simp: commit_one_def discard_def split: option.split)

lemma commit_one_inv: "media_inv s \<Longrightarrow> media_inv (commit_one sc k s)"
  by (auto simp: commit_one_def discard_def media_inv_def lease_bytes_delete split: option.split if_splits)

lemma commit_fold_at:
  "lease_at (fold (commit_one sc) ks s) j = (case lease_at s j of None \<Rightarrow> None
     | Some (o', l) \<Rightarrow> if j \<in> set ks \<and> o' = sc then None else Some (o', l))"
  by (induction ks arbitrary: s) (auto split: option.split)

lemma commit_fold_inv: "media_inv s \<Longrightarrow> media_inv (fold (commit_one sc) ks s)"
  by (induction ks arbitrary: s) (auto intro: commit_one_inv)

lemma clear_as_commit_aux:
  assumes "\<forall>x\<in>set xs. fst (snd x) = sc \<and> lease_at s (fst x) = Some (snd x)" "distinct (map fst xs)"
  shows "fold (\<lambda>(k, stored). discard k (snd stored)) xs s = fold (commit_one sc) (map fst xs) s"
  using assms
proof (induction xs arbitrary: s)
  case (Cons x xs)
  obtain k o' l where x: "x = (k, (o', l))" by (cases x) auto
  have eq: "commit_one sc k s = discard k l s" using Cons.prems x by (auto simp: commit_one_def)
  have "\<forall>y\<in>set xs. fst (snd y) = sc \<and> lease_at (discard k l s) (fst y) = Some (snd y)"
    using Cons.prems x by (auto simp: discard_def)
  from Cons.IH [OF this] Cons.prems(2) show ?case by (simp add: x eq)
qed simp

lemma clear_as_commit:
  assumes "dict_ok (tm_leases s)"
  shows "clear_leases sc s = fold (commit_one sc) (map fst (filter (\<lambda>(_, stored). fst stored = sc) (tm_leases s))) s"
  unfolding clear_leases_def
proof (rule clear_as_commit_aux)
  show "distinct (map fst (filter (\<lambda>(_, stored). fst stored = sc) (tm_leases s)))"
    by (rule distinct_map_filter [OF assms])
  show "\<forall>x\<in>set (filter (\<lambda>(_, stored). fst stored = sc) (tm_leases s)). fst (snd x) = sc \<and> lease_at s (fst x) = Some (snd x)"
    using map_of_is_SomeI [OF assms] by auto
qed

lemma clear_at:
  assumes "dict_ok (tm_leases s)"
  shows "lease_at (clear_leases sc s) j = (case lease_at s j of None \<Rightarrow> None
     | Some (o', l) \<Rightarrow> if o' = sc then None else Some (o', l))"
  unfolding clear_as_commit [OF assms] commit_fold_at
  by (force split: option.split dest: map_of_SomeD)

lemma media_step_inv:
  assumes inv: "media_inv s"
  shows "media_inv (media_step op s)"
proof (cases op)
  case (M_Stage token sc kind mt data md)
  show ?thesis
  proof (cases rule: stage_cases [of token sc kind mt data md s])
    case (staged k l)
    then show ?thesis using inv M_Stage
      by (auto simp: media_inv_def lease_bytes_update)
  qed (use inv M_Stage in simp_all)
next
  case (M_Commit sc ids)
  then show ?thesis using commit_fold_inv [OF inv] by (simp add: commit_leases_def)
next
  case (M_Clear sc)
  have dict: "dict_ok (tm_leases s)" using inv by (simp add: media_inv_def)
  from commit_fold_inv [OF inv] M_Clear show ?thesis by (simp add: clear_as_commit [OF dict])
qed

lemma media_step_max [simp]: "tm_max_total_bytes (media_step op s) = tm_max_total_bytes s"
proof -
  have one: "tm_max_total_bytes (commit_one sc k t) = tm_max_total_bytes t" for sc k t
    by (simp add: commit_one_def discard_def split: option.split)
  have commit: "tm_max_total_bytes (fold (commit_one sc) ks t) = tm_max_total_bytes t" for sc ks t
    by (induction ks arbitrary: t) (simp_all add: one)
  have clear: "tm_max_total_bytes (fold (\<lambda>(k, stored). discard k (snd stored)) xs t) = tm_max_total_bytes t" for xs t
    by (induction xs arbitrary: t) (auto simp: discard_def)
  show ?thesis
  proof (cases op)
    case (M_Stage token sc kind mt data md)
    then show ?thesis by (cases rule: stage_cases [of token sc kind mt data md s]) simp_all
  qed (simp_all add: commit_leases_def commit clear_leases_def clear)
qed

lemma media_step_foreign:
  assumes inv: "media_inv s" and other: "op_scope op \<noteq> sc"
  shows "peek sc k (media_step op s) = peek sc k s"
proof (cases op)
  case (M_Stage token sc' kind mt data md)
  then show ?thesis using other
    by (cases rule: stage_cases [of token sc' kind mt data md s]) (auto simp: peek_def)
next
  case (M_Commit sc' ids)
  then show ?thesis using other by (auto simp: peek_def commit_leases_def commit_fold_at split: option.split)
next
  case (M_Clear sc')
  then show ?thesis using other inv by (auto simp: peek_def clear_at media_inv_def split: option.split)
qed

definition media_init :: "int \<Rightarrow> media_store" where
  "media_init n = \<lparr>tm_max_total_bytes = n, tm_total_bytes = 0, tm_leases = []\<rparr>"

lemma media_inv_init: "0 \<le> n \<Longrightarrow> media_inv (media_init n)"
  by (simp add: media_init_def media_inv_def lease_bytes_def)

text \<open>Two invocations and the store after both have staged media.\<close>

definition scope_a :: media_scope where
  "scope_a = \<lparr>ms_user_id = ''u'', ms_session_id = ''s'', ms_call_id = ''a''\<rparr>"

definition scope_b :: media_scope where
  "scope_b = \<lparr>ms_user_id = ''u'', ms_session_id = ''s'', ms_call_id = ''b''\<rparr>"

definition token_n :: "nat \<Rightarrow> string" where
  "token_n n = replicate n (CHR ''t'')"

definition sample_stages :: "media_op list" where
  "sample_stages = [M_Stage token_n scope_a ''image'' ''image/png'' ''abc'' PyNone,
     M_Stage token_n scope_b ''audio'' ''audio/wav'' ''de'' PyNone]"

lemma sample_media: "fold media_step sample_stages (media_init 9) = \<lparr>tm_max_total_bytes = 9, tm_total_bytes = 5, tm_leases =
   [(lease_name '''', scope_a, \<lparr>l_lease_id = lease_name '''', l_kind = ''image'', l_media_type = ''image/png'', l_data = ''abc'', l_metadata = PyNone\<rparr>),
    (lease_name ''t'', scope_b, \<lparr>l_lease_id = lease_name ''t'', l_kind = ''audio'', l_media_type = ''audio/wav'', l_data = ''de'', l_metadata = PyNone\<rparr>)]\<rparr>"
  by (simp add: sample_stages_def stage_def media_init_def new_id.simps token_n_def lease_name_def Let_def)

text \<open>
  However the operations of invocations are interleaved, the byte counter is exactly the sum
  of the bytes held, never negative and never above the ceiling the store was created with.
\<close>

theorem media_accounting_exact:
  assumes "media_store_of n = Inr s"
  shows "tm_total_bytes (fold media_step ops s) = lease_bytes (tm_leases (fold media_step ops s)) \<and>
    0 \<le> tm_total_bytes (fold media_step ops s) \<and> tm_total_bytes (fold media_step ops s) \<le> n"
proof -
  have s: "s = media_init n" "1 \<le> n" using assms by (auto simp: media_store_of_def media_init_def split: if_splits)
  have "media_inv (fold media_step ops t) \<and> tm_max_total_bytes (fold media_step ops t) = tm_max_total_bytes t"
    if "media_inv t" for t
    using that by (induction ops arbitrary: t) (simp_all add: media_step_inv)
  from this [OF media_inv_init [of n]] s show ?thesis
    using lease_bytes_nonneg by (auto simp: media_inv_def media_init_def)
qed

lemma media_accounting_exact_witness:
  "media_store_of 9 = Inr (media_init 9) \<and> tm_total_bytes (fold media_step sample_stages (media_init 9)) = 5 \<and>
   lease_bytes (tm_leases (fold media_step sample_stages (media_init 9))) = 5"
proof -
  have made: "media_store_of 9 = Inr (media_init 9)" by (simp add: media_store_of_def media_init_def)
  from media_accounting_exact [OF made, of sample_stages] made show ?thesis by (simp add: sample_media)
qed

text \<open>
  An invocation sees and erases only its own media: operations of other scopes change nothing
  it can read, and after a clear it holds nothing while every other scope reads what it did.
\<close>

theorem media_scopes_isolated:
  assumes inv: "media_inv s" and others: "list_all (\<lambda>op. op_scope op \<noteq> sc) ops"
  shows "peek sc k (fold media_step ops s) = peek sc k s \<and> peek sc k (clear_leases sc s) = None \<and>
    pending_leases sc (clear_leases sc s) = [] \<and>
    (sc' \<noteq> sc \<longrightarrow> peek sc' k (clear_leases sc s) = peek sc' k s)"
proof (intro conjI impI)
  show "peek sc k (fold media_step ops s) = peek sc k s"
    using inv others by (induction ops arbitrary: s) (auto simp: media_step_foreign media_step_inv)
  have dict: "dict_ok (tm_leases s)" using inv by (simp add: media_inv_def)
  have at: "lease_at (clear_leases sc s) j = (case lease_at s j of None \<Rightarrow> None
     | Some (o', l) \<Rightarrow> if o' = sc then None else Some (o', l))" for j by (rule clear_at [OF dict])
  show "peek sc k (clear_leases sc s) = None" by (auto simp: peek_def at split: option.split)
  show "peek sc' k (clear_leases sc s) = peek sc' k s" if "sc' \<noteq> sc" for sc'
    using that by (auto simp: peek_def at split: option.split)
  have dict': "dict_ok (tm_leases (clear_leases sc s))"
    using media_step_inv [OF inv, of "M_Clear sc"] by (simp add: media_inv_def)
  have "stored \<notin> set (map snd (tm_leases (clear_leases sc s)))" if "fst stored = sc" for stored
    unfolding dict_values_iff [OF dict'] at using that by (auto split: option.splits if_splits)
  then have "filter (\<lambda>stored. fst stored = sc) (map snd (tm_leases (clear_leases sc s))) = []"
    unfolding filter_empty_conv by blast
  then show "pending_leases sc (clear_leases sc s) = []" by (simp only: pending_leases_def list.map)
qed

lemma media_scopes_isolated_witness:
  "peek scope_a (lease_name '''') (fold media_step [M_Clear scope_b] (fold media_step sample_stages (media_init 9))) \<noteq> None \<and>
   peek scope_a (lease_name '''') (clear_leases scope_a (fold media_step sample_stages (media_init 9))) = None"
proof -
  have inv: "media_inv (fold media_step sample_stages (media_init 9))"
    unfolding sample_stages_def by (simp add: media_step_inv media_inv_init del: media_step.simps)
  have others: "list_all (\<lambda>op. op_scope op \<noteq> scope_a) [M_Clear scope_b]" by (simp add: scope_a_def scope_b_def)
  have "peek scope_a (lease_name '''') (fold media_step sample_stages (media_init 9)) \<noteq> None"
    by (simp add: sample_media peek_def)
  with media_scopes_isolated [OF inv others, of "lease_name ''''" scope_a] show ?thesis by metis
qed


section \<open>The identifier loop\<close>





section \<open>Markers\<close>

lemma py_get_items: "py_get (fst (walk_items kvs)) k = map_option (fst \<circ> walk) (py_get kvs k)"
  by (induction kvs) (auto simp: py_get_def split_beta Let_def)

lemma walk_items_keys: "map fst (fst (walk_items kvs)) = map fst kvs"
  by (induction kvs) (auto simp: split_beta Let_def)

lemma walk_str: "fst (walk v) = PyStr s \<longleftrightarrow> v = PyStr s"
  by (cases v) (auto simp: marked_def transient_media_lease_id_def split: option.split)

lemma str_of_walk: "str_of (map_option (fst \<circ> walk) x) = str_of x"
proof (cases x)
  case (Some v)
  have "str_of (Some (fst (walk v))) = str_of (Some v)"
    using walk_str [of v] by (cases v; cases "fst (walk v)") auto
  then show ?thesis using Some by simp
qed simp

lemma str_get: "str_of (py_get (fst (walk_items kvs)) k) = str_of (py_get kvs k)"
  by (simp add: py_get_items str_of_walk)

lemma placeholder_not_marker:
  "transient_media_lease_id (PyDict [(PyStr ''type'', a), (PyStr ''mediaType'', b), (PyStr ''content'', PyStr ''attached'')]) = None"
  by (simp add: transient_media_lease_id_def py_get_def)

lemma walk_marker:
  assumes "transient_media_lease_id (PyDict kvs) = None"
  shows "transient_media_lease_id (PyDict (fst (walk_items kvs))) = None"
proof (cases "py_get kvs ''harnestTransient''")
  case None
  then show ?thesis by (simp add: transient_media_lease_id_def py_get_items)
next
  case (Some m)
  show ?thesis
  proof (cases "fst (walk m)")
    case (PyDict ms')
    then obtain ms where m: "m = PyDict ms" by (cases m) auto
    show ?thesis
    proof (cases "transient_media_lease_id m")
      case None
      then have ms': "ms' = fst (walk_items ms)" using PyDict m by (simp add: marked_def)
      have keys: "set (map fst ms') = set (map fst ms)" unfolding ms' walk_items_keys ..
      have id: "str_of (py_get ms' ''leaseId'') = str_of (py_get ms ''leaseId'')" by (simp add: ms' py_get_items str_of_walk)
      show ?thesis
      proof -
        have "py_get (fst (walk_items kvs)) ''harnestTransient'' = Some (PyDict ms')"
          using \<open>py_get kvs ''harnestTransient'' = Some m\<close> PyDict by (simp add: py_get_items)
        then show ?thesis
          using assms \<open>py_get kvs ''harnestTransient'' = Some m\<close> m
          unfolding transient_media_lease_id_def pyval.case str_get
          by (cases "set (map fst ms) = {PyStr ''leaseId''}") (simp_all add: keys id del: set_map)
      qed
    next
      case (Some i)
      then have "set (map fst ms') \<noteq> {PyStr ''leaseId''}" using PyDict m by (auto simp: marked_def)
      moreover have "py_get (fst (walk_items kvs)) ''harnestTransient'' = Some (PyDict ms')"
        using \<open>py_get kvs ''harnestTransient'' = Some m\<close> PyDict by (simp add: py_get_items)
      ultimately show ?thesis by (simp add: transient_media_lease_id_def del: set_map)
    qed
  qed (use Some in \<open>simp_all add: transient_media_lease_id_def py_get_items\<close>)
qed

fun marker_free :: "pyval \<Rightarrow> bool" where
  "marker_free (PyDict kvs) = (transient_media_lease_id (PyDict kvs) = None \<and> (\<forall>kv\<in>set kvs. marker_free (snd kv)))"
| "marker_free (PyList vs) = (\<forall>v\<in>set vs. marker_free v)"
| "marker_free (PyTuple vs) = (\<forall>v\<in>set vs. marker_free v)"
| "marker_free v = True"

lemma py_get_type_str:
  "transient_media_lease_id (PyDict kvs) = Some i \<Longrightarrow>
   (\<exists>a b. py_get kvs ''type'' = Some (PyStr a) \<and> py_get kvs ''mediaType'' = Some (PyStr b))"
  by (auto simp: transient_media_lease_id_def split: option.splits pyval.splits if_splits elim!: str_of.elims)

lemma walk_marker_free:
  shows "marker_free (fst (walk v))"
    and "\<forall>w\<in>set (fst (walk_list vs)). marker_free w"
    and "\<forall>kv\<in>set (fst (walk_items kvs)). marker_free (snd kv)"
proof (induction v and vs and kvs rule: walk_walk_list_walk_items.induct)
  case (1 kvs)
  show ?case
  proof (cases "transient_media_lease_id (PyDict kvs)")
    case None
    then show ?thesis using 1 walk_marker [OF None] by (simp add: marked_def)
  next
    case (Some i)
    from py_get_type_str [OF Some] obtain a b where "py_get kvs ''type'' = Some (PyStr a)" "py_get kvs ''mediaType'' = Some (PyStr b)"
      by blast
    then show ?thesis using Some by (simp add: marked_def placeholder_not_marker)
  qed
qed (auto simp: split_beta Let_def)

lemma walk_free_id:
  shows "marker_free v \<Longrightarrow> snd (walk v) = []"
    and "(\<forall>w\<in>set vs. marker_free w) \<Longrightarrow> snd (walk_list vs) = []"
    and "(\<forall>kv\<in>set kvs. marker_free (snd kv)) \<Longrightarrow> snd (walk_items kvs) = []"
  by (induction v and vs and kvs rule: walk_walk_list_walk_items.induct)
    (auto simp: marked_def split_beta Let_def)

text \<open>
  Sanitizing removes every private marker, at any depth: the result holds none, sanitizing it
  again finds no identifier, and no identifier is reported twice.
\<close>

theorem sanitized_holds_no_marker:
  "marker_free (fst (sanitize_transient_media v)) \<and>
   snd (sanitize_transient_media (fst (sanitize_transient_media v))) = [] \<and>
   distinct (snd (sanitize_transient_media v))"
  using walk_marker_free(1) [of v] walk_free_id(1) [OF walk_marker_free(1) [of v]]
  by (simp add: sanitize_transient_media_def first_once_def)


section \<open>Matching\<close>

lemma matching_mset:
  "mset (map signature (matching_transient_leases sigs ls)) = mset sigs \<inter># mset (map signature ls)"
proof (induction sigs ls rule: matching_transient_leases.induct)
  case (2 sigs l ls)
  then show ?case
    by (cases "signature l \<in> set sigs") (simp_all add: inter_add_right1 inter_add_right2)
qed simp

lemma matching_subseq: "subseq (matching_transient_leases sigs ls) ls"
  by (induction sigs ls rule: matching_transient_leases.induct) auto

text \<open>
  Matching pairs each visible attachment with at most one pending lease and leaves no lease
  unmatched that an attachment could take: the matched signatures are the multiset intersection
  of the visible and the pending ones, and leases keep their order.
\<close>

theorem matching_is_maximal:
  "mset (map signature (matching_transient_leases sigs ls)) = mset sigs \<inter># mset (map signature ls) \<and>
   subseq (matching_transient_leases sigs ls) ls"
  by (simp add: matching_mset matching_subseq del: mset_map)

end
