(* ===== verification/Channel_Worker.thy ===== *)
theory Channel_Worker
  imports Task_Claims
begin

text \<open>
  \<^verbatim>\<open>channel_worker.py\<close> and the records of \<^verbatim>\<open>channel_storage.py\<close>: intake and delivery of chat
  messages as jobs of the task store. Every \<^verbatim>\<open>await\<close> of the store is one step on the shared
  store; between two of them other activities, other workers and the environment move. An
  activity is one run of \<^verbatim>\<open>_execute\<close>; its phase says which \<^verbatim>\<open>await\<close> it stands at. The calls of
  the \<^verbatim>\<open>invoke\<close> and \<^verbatim>\<open>send\<close> callbacks and the answers of \<^verbatim>\<open>invoke\<close> are recorded as effects.
\<close>

section \<open>Events and replies\<close>

record channel_event =
  ce_platform :: string
  ce_installation_id :: string
  ce_provider_event_id :: string
  ce_kind :: string
  ce_sender_id :: string
  ce_conversation_id :: string
  ce_message_id :: string
  ce_occurred_at :: pyfloat
  ce_delivery_id :: string
  ce_thread_id :: "string option"
  ce_content :: string
  ce_reply_to :: pyval

record channel_reply =
  cr_reply_id :: string
  cr_platform :: string
  cr_installation_id :: string
  cr_conversation_id :: string
  cr_reply_to :: pyval
  cr_content :: string
  cr_status :: string
  cr_receipt :: pyval
  cr_created_at :: pyfloat
  cr_updated_at :: pyfloat

definition opt_str :: "string option \<Rightarrow> pyval" where
  "opt_str x = (case x of None \<Rightarrow> PyNone | Some s \<Rightarrow> PyStr s)"

definition event_dict :: "channel_event \<Rightarrow> pyval" where
  "event_dict e = PyDict [(PyStr ''platform'', PyStr (ce_platform e)), (PyStr ''installation_id'', PyStr (ce_installation_id e)),
     (PyStr ''provider_event_id'', PyStr (ce_provider_event_id e)), (PyStr ''kind'', PyStr (ce_kind e)),
     (PyStr ''sender_id'', PyStr (ce_sender_id e)), (PyStr ''conversation_id'', PyStr (ce_conversation_id e)),
     (PyStr ''message_id'', PyStr (ce_message_id e)), (PyStr ''occurred_at'', PyFloat (ce_occurred_at e)),
     (PyStr ''delivery_id'', PyStr (ce_delivery_id e)), (PyStr ''thread_id'', opt_str (ce_thread_id e)),
     (PyStr ''content'', PyStr (ce_content e)), (PyStr ''reply_to'', ce_reply_to e)]"

definition reply_dict :: "channel_reply \<Rightarrow> pyval" where
  "reply_dict r = PyDict [(PyStr ''reply_id'', PyStr (cr_reply_id r)), (PyStr ''platform'', PyStr (cr_platform r)),
     (PyStr ''installation_id'', PyStr (cr_installation_id r)), (PyStr ''conversation_id'', PyStr (cr_conversation_id r)),
     (PyStr ''reply_to'', cr_reply_to r), (PyStr ''content'', PyStr (cr_content r)), (PyStr ''status'', PyStr (cr_status r)),
     (PyStr ''receipt'', cr_receipt r), (PyStr ''created_at'', PyFloat (cr_created_at r)),
     (PyStr ''updated_at'', PyFloat (cr_updated_at r))]"

text \<open>
  \<^verbatim>\<open>ChannelEvent(**d)\<close> and \<^verbatim>\<open>ChannelReply(**d)\<close>: an unknown or a missing keyword is a
  TypeError, an absent optional field takes its default. The fields are typed here: a stored
  value of another type, which no code writes, is refused as well.
\<close>

definition text_at :: "(pyval \<times> pyval) list \<Rightarrow> string option \<Rightarrow> string \<Rightarrow> string option" where
  "text_at kvs dflt k = (case map_of kvs (PyStr k) of None \<Rightarrow> dflt | Some (PyStr s) \<Rightarrow> Some s | Some _ \<Rightarrow> None)"

definition opt_text_at :: "(pyval \<times> pyval) list \<Rightarrow> string \<Rightarrow> string option option" where
  "opt_text_at kvs k = (case map_of kvs (PyStr k) of None \<Rightarrow> Some None | Some PyNone \<Rightarrow> Some None
     | Some (PyStr s) \<Rightarrow> Some (Some s) | Some _ \<Rightarrow> None)"

definition float_at :: "(pyval \<times> pyval) list \<Rightarrow> pyfloat option \<Rightarrow> string \<Rightarrow> pyfloat option" where
  "float_at kvs dflt k = (case map_of kvs (PyStr k) of None \<Rightarrow> dflt | Some (PyFloat x) \<Rightarrow> Some x
     | Some (PyInt i) \<Rightarrow> Some (Fin (of_int i)) | Some _ \<Rightarrow> None)"

definition value_at :: "(pyval \<times> pyval) list \<Rightarrow> pyval \<Rightarrow> string \<Rightarrow> pyval" where
  "value_at kvs dflt k = (case map_of kvs (PyStr k) of None \<Rightarrow> dflt | Some v \<Rightarrow> v)"

definition event_of :: "pyval \<Rightarrow> exc + channel_event" where
  "event_of value = (case value of
     PyDict kvs \<Rightarrow>
       if \<not> set (map fst kvs) \<subseteq> set (map PyStr [''platform'', ''installation_id'', ''provider_event_id'', ''kind'', ''sender_id'',
            ''conversation_id'', ''message_id'', ''occurred_at'', ''delivery_id'', ''thread_id'', ''content'', ''reply_to''])
       then Inl (TypeError ''unexpected keyword argument'')
       else (case (those (map (text_at kvs None) [''platform'', ''installation_id'', ''provider_event_id'', ''kind'',
                    ''sender_id'', ''conversation_id'', ''message_id'']),
                  float_at kvs None ''occurred_at'', text_at kvs (Some '''') ''delivery_id'',
                  opt_text_at kvs ''thread_id'', text_at kvs (Some '''') ''content'') of
           (Some [p, i, e, k, s, c, m], Some occ, Some d, Some th, Some t) \<Rightarrow>
             Inr \<lparr>ce_platform = p, ce_installation_id = i, ce_provider_event_id = e, ce_kind = k, ce_sender_id = s,
               ce_conversation_id = c, ce_message_id = m, ce_occurred_at = occ, ce_delivery_id = d, ce_thread_id = th,
               ce_content = t, ce_reply_to = value_at kvs (PyDict []) ''reply_to''\<rparr>
         | _ \<Rightarrow> Inl (TypeError ''missing required keyword argument''))
   | _ \<Rightarrow> Inl (TypeError ''argument after ** must be a mapping''))"

definition reply_of :: "pyval \<Rightarrow> exc + channel_reply" where
  "reply_of value = (case value of
     PyDict kvs \<Rightarrow>
       if \<not> set (map fst kvs) \<subseteq> set (map PyStr [''reply_id'', ''platform'', ''installation_id'', ''conversation_id'', ''reply_to'',
            ''content'', ''status'', ''receipt'', ''created_at'', ''updated_at''])
       then Inl (TypeError ''unexpected keyword argument'')
       else (case (those (map (text_at kvs None) [''reply_id'', ''platform'', ''installation_id'', ''conversation_id'', ''content'']),
                  map_of kvs (PyStr ''reply_to''), text_at kvs (Some ''pending'') ''status'',
                  float_at kvs (Some (Fin 0)) ''created_at'', float_at kvs (Some (Fin 0)) ''updated_at'') of
           (Some [r, p, i, c, t], Some to', Some st, Some created, Some updated) \<Rightarrow>
             Inr \<lparr>cr_reply_id = r, cr_platform = p, cr_installation_id = i, cr_conversation_id = c, cr_reply_to = to',
               cr_content = t, cr_status = st, cr_receipt = value_at kvs PyNone ''receipt'', cr_created_at = created, cr_updated_at = updated\<rparr>
         | _ \<Rightarrow> Inl (TypeError ''missing required keyword argument''))
   | _ \<Rightarrow> Inl (TypeError ''argument after ** must be a mapping''))"

lemma event_of_dict [simp]: "event_of (event_dict e) = Inr e"
  by (cases e) (simp add: event_of_def event_dict_def text_at_def float_at_def opt_text_at_def value_at_def opt_str_def
      split: option.split)

lemma reply_of_dict [simp]: "reply_of (reply_dict r) = Inr r"
  by (cases r) (simp add: reply_of_def reply_dict_def text_at_def float_at_def value_at_def)


section \<open>Configuration and policy\<close>

definition channel_identity :: "pylib \<Rightarrow> string list \<Rightarrow> string" where
  "channel_identity lib parts = sha256_hex lib (''['' @ join_with '','' (map json_string parts) @ '']'')"

record channel_worker =
  cw_scope :: string
  cw_platform :: string
  cw_allowed_installations :: "string list"
  cw_allowed_conversations :: "string list"
  cw_allowed_senders :: "string list"
  cw_allowed_kinds :: "string list"
  cw_timeout :: pyfloat
  cw_not_before :: pyfloat

definition channel_worker_of :: "pylib \<Rightarrow> string \<Rightarrow> string \<Rightarrow> string \<Rightarrow> string list \<Rightarrow> string list \<Rightarrow> string list \<Rightarrow> string list
    \<Rightarrow> pyfloat \<Rightarrow> pyfloat \<Rightarrow> exc + channel_worker" where
  "channel_worker_of lib application_id binding_id platform installations conversations senders kinds timeout not_before =
     (if application_id = [] \<or> binding_id = [] \<or> senders = []
      then Inl (ValueError ''application_id, binding_id, and allowed_senders are required'')
      else if installations = [] \<or> conversations = [] \<or> kinds = []
      then Inl (ValueError ''channel installation, conversation, and event allowlists are required'')
      else if \<not> (f_lt (Fin 0) timeout \<and> f_le timeout (Fin 3600))
      then Inl (ValueError ''timeout must be positive and at most 3600 seconds'')
      else if \<not> isfinite not_before \<or> f_lt not_before (Fin 0)
      then Inl (ValueError ''not_before must be a finite non-negative Unix timestamp'')
      else Inr \<lparr>cw_scope = ''channel:'' @ channel_identity lib [application_id, binding_id], cw_platform = platform,
        cw_allowed_installations = installations, cw_allowed_conversations = conversations, cw_allowed_senders = senders,
        cw_allowed_kinds = kinds, cw_timeout = timeout, cw_not_before = not_before\<rparr>)"

definition accepts :: "channel_worker \<Rightarrow> channel_event \<Rightarrow> bool" where
  "accepts w e \<longleftrightarrow> ce_platform e = cw_platform w \<and> ce_installation_id e \<in> set (cw_allowed_installations w) \<and>
     ce_conversation_id e \<in> set (cw_allowed_conversations w) \<and> ce_sender_id e \<in> set (cw_allowed_senders w) \<and>
     ce_kind e \<in> set (cw_allowed_kinds w) \<and> f_le (cw_not_before w) (ce_occurred_at e) \<and> \<not> blank (ce_content e)"

definition event_identity :: "pylib \<Rightarrow> channel_worker \<Rightarrow> channel_event \<Rightarrow> string" where
  "event_identity lib w e = channel_identity lib [cw_scope w, ce_platform e, ce_installation_id e, ce_provider_event_id e]"

definition event_actor :: "pylib \<Rightarrow> channel_worker \<Rightarrow> channel_event \<Rightarrow> string" where
  "event_actor lib w e = channel_identity lib [cw_scope w, ce_platform e, ce_installation_id e, ce_sender_id e]"

definition thread_of :: "channel_event \<Rightarrow> string" where
  "thread_of e = (case ce_thread_id e of None \<Rightarrow> ce_message_id e | Some t \<Rightarrow> if t = [] then ce_message_id e else t)"

definition event_session :: "pylib \<Rightarrow> channel_worker \<Rightarrow> channel_event \<Rightarrow> string" where
  "event_session lib w e = channel_identity lib [cw_scope w, ce_platform e, ce_installation_id e, ce_conversation_id e,
     thread_of e, ce_sender_id e]"

definition inbox_job :: "pylib \<Rightarrow> channel_worker \<Rightarrow> channel_event \<Rightarrow> task_record" where
  "inbox_job lib w e = (new_task (event_identity lib w e) (cw_scope w) (event_actor lib w e) ''channel.invoke'' ''channel.inbox''
     (PyDict [(PyStr ''event'', event_dict e)]))
     \<lparr>t_max_retries := 0, t_idempotency_key := Some (event_identity lib w e), t_trigger := ''channel'', t_created_at := ce_occurred_at e\<rparr>"

definition admit :: "pylib \<Rightarrow> channel_worker \<Rightarrow> channel_event \<Rightarrow> task_store \<Rightarrow> (task_store, string option) outcome" where
  "admit lib w event s =
     (if \<not> accepts w event then (Inr None, s)
      else (let e = event\<lparr>ce_delivery_id := ''''\<rparr>
            in case enqueue_task lib (inbox_job lib w e) s of (Inl err, s') \<Rightarrow> (Inl err, s')
                 | (Inr _, s') \<Rightarrow> (Inr (Some (event_identity lib w e)), s')))"

definition reply_for :: "string \<Rightarrow> channel_event \<Rightarrow> string \<Rightarrow> channel_reply" where
  "reply_for job_id e content = \<lparr>cr_reply_id = job_id, cr_platform = ce_platform e, cr_installation_id = ce_installation_id e,
     cr_conversation_id = ce_conversation_id e, cr_reply_to = PyDict [(PyStr ''thread_id'', PyStr (thread_of e))],
     cr_content = content, cr_status = ''pending'', cr_receipt = PyNone, cr_created_at = Fin 0, cr_updated_at = Fin 0\<rparr>"

definition reply_job :: "channel_worker \<Rightarrow> task_record \<Rightarrow> channel_event \<Rightarrow> string \<Rightarrow> task_record" where
  "reply_job w job e content = (new_task (''reply:'' @ t_job_id job) (cw_scope w) (t_user_id job) ''channel.reply'' ''channel.outbox''
     (PyDict [(PyStr ''event'', event_dict e), (PyStr ''reply'', reply_dict (reply_for (t_job_id job) e content))]))
     \<lparr>t_max_retries := 0, t_idempotency_key := Some (t_job_id job), t_trigger := ''channel''\<rparr>"


section \<open>One activity\<close>

text \<open>
  What an activity did outside: it called \<^verbatim>\<open>invoke\<close> for a job with an event, a session and an
  actor; \<^verbatim>\<open>invoke\<close> answered a text; it called \<^verbatim>\<open>send\<close> for a job with a reply.
\<close>

datatype effect =
    Invoked string channel_event string string
  | Answered string string
  | Sent string channel_reply

text \<open>
  Where an activity stands: before \<^verbatim>\<open>_perform\<close>, waiting for \<^verbatim>\<open>invoke\<close>, before the renewal of
  its lease, before it queues the reply, waiting for \<^verbatim>\<open>send\<close>, with the result of \<^verbatim>\<open>_perform\<close>,
  and in \<^verbatim>\<open>_finish\<close> with a status, a result and a failure code.
\<close>

datatype phase =
    Ready
  | Invoking channel_event
  | Renewing channel_event string
  | Queueing channel_event string
  | Sending
  | Returning pyval
  | Ending string pyval "string option"

definition outcome_dict :: "string \<Rightarrow> (pyval \<times> pyval) list \<Rightarrow> pyval" where
  "outcome_dict outcome rest = PyDict ((PyStr ''outcome'', PyStr outcome) # rest)"

definition failing :: "task_record \<Rightarrow> phase" where
  "failing job = Ending ''failed'' PyNone
     (Some (if t_queue job = ''channel.outbox'' then ''delivery_unknown'' else ''execution_unknown''))"

definition job_argument :: "task_record \<Rightarrow> string \<Rightarrow> exc + pyval" where
  "job_argument job k = (case t_arguments job of
     PyDict kvs \<Rightarrow> (case map_of kvs (PyStr k) of None \<Rightarrow> Inl (KeyError k) | Some v \<Rightarrow> Inr v)
   | _ \<Rightarrow> Inl (TypeError ''arguments must be a mapping''))"

definition job_event :: "task_record \<Rightarrow> exc + channel_event" where
  "job_event job = (case job_argument job ''event'' of Inl e \<Rightarrow> Inl e | Inr v \<Rightarrow> event_of v)"

definition job_reply :: "task_record \<Rightarrow> exc + channel_reply" where
  "job_reply job = (case job_argument job ''reply'' of Inl e \<Rightarrow> Inl e | Inr v \<Rightarrow> reply_of v)"

text \<open>\<^verbatim>\<open>_perform\<close> and \<^verbatim>\<open>_invoke\<close> up to the callback.\<close>

definition perform :: "pylib \<Rightarrow> channel_worker \<Rightarrow> task_record \<Rightarrow> phase \<times> effect list" where
  "perform lib w job = (case job_event job of Inl _ \<Rightarrow> (failing job, [])
     | Inr e \<Rightarrow>
        if \<not> accepts w e then (Returning (outcome_dict ''policy_rejected'' []), [])
        else if t_queue job = ''channel.outbox''
        then (case job_reply job of Inl _ \<Rightarrow> (failing job, []) | Inr r \<Rightarrow> (Sending, [Sent (t_job_id job) r]))
        else (Invoking e, [Invoked (t_job_id job) e (event_session lib w e) (t_user_id job)]))"

text \<open>The answer of \<^verbatim>\<open>invoke\<close>: \<open>None\<close> when it raised or gave no string.\<close>

definition answered :: "task_record \<Rightarrow> channel_event \<Rightarrow> string option \<Rightarrow> phase \<times> effect list" where
  "answered job e answer = (case answer of None \<Rightarrow> (failing job, [])
     | Some t \<Rightarrow> if blank t then (failing job, []) else (Renewing e t, [Answered (t_job_id job) t]))"

text \<open>A claimed job carries its token.\<close>

definition job_token :: "task_record \<Rightarrow> string" where
  "job_token job = (case t_lease_token job of None \<Rightarrow> [] | Some t \<Rightarrow> t)"

definition renew_for_reply :: "channel_worker \<Rightarrow> task_record \<Rightarrow> channel_event \<Rightarrow> string \<Rightarrow> pyfloat \<Rightarrow> task_store \<Rightarrow> phase \<times> task_store" where
  "renew_for_reply w job e content now s = (case renew_task_lease (cw_scope w) (t_job_id job) (job_token job) now (Fin 30) s of
     (Inr True, s') \<Rightarrow> (Queueing e content, s') | (_, s') \<Rightarrow> (failing job, s'))"

definition queue_reply :: "pylib \<Rightarrow> channel_worker \<Rightarrow> task_record \<Rightarrow> channel_event \<Rightarrow> string \<Rightarrow> task_store \<Rightarrow> phase \<times> task_store" where
  "queue_reply lib w job e content s = (case enqueue_task lib (reply_job w job e content) s of
     (Inr _, s') \<Rightarrow> (Returning (outcome_dict ''reply_queued'' []), s') | (Inl _, s') \<Rightarrow> (failing job, s'))"

text \<open>The receipt of \<^verbatim>\<open>send\<close>: \<open>None\<close> when it raised.\<close>

definition receipt_phase :: "task_record \<Rightarrow> pyval option \<Rightarrow> phase" where
  "receipt_phase job receipt = (case receipt of None \<Rightarrow> failing job
     | Some v \<Rightarrow> Returning (outcome_dict ''sent'' [(PyStr ''receipt'', v)]))"


section \<open>The worker\<close>

record channel_state =
  cs_store :: task_store
  cs_active :: "(task_record \<times> phase) list"
  cs_effects :: "effect list"

datatype channel_op =
    Admit channel_event
  | Claim_Queue "nat \<Rightarrow> string" string pyfloat
  | Perform nat
  | Answer nat "string option"
  | Renew_Lease nat pyfloat
  | Queue_Reply nat
  | Receipt nat "pyval option"
  | Return nat
  | Interrupt nat
  | Finish_Job nat pyfloat
  | Lost nat
  | Environment task_op

definition activity :: "nat \<Rightarrow> channel_state \<Rightarrow> (task_record \<times> phase) option" where
  "activity i c = (if i < length (cs_active c) then Some (cs_active c ! i) else None)"

definition move_to :: "nat \<Rightarrow> phase \<Rightarrow> effect list \<Rightarrow> channel_state \<Rightarrow> channel_state" where
  "move_to i ph effs c = c\<lparr>cs_active := (cs_active c)[i := (fst (cs_active c ! i), ph)], cs_effects := cs_effects c @ effs\<rparr>"

definition drop_activity :: "nat \<Rightarrow> channel_state \<Rightarrow> channel_state" where
  "drop_activity i c = c\<lparr>cs_active := take i (cs_active c) @ drop (Suc i) (cs_active c)\<rparr>"

text \<open>The claim of \<^verbatim>\<open>step\<close> on one queue.\<close>

definition claim_queue :: "channel_worker \<Rightarrow> (nat \<Rightarrow> string) \<Rightarrow> string \<Rightarrow> pyfloat \<Rightarrow> channel_state \<Rightarrow> channel_state" where
  "claim_queue w uuid queue now c =
     (case claim_tasks uuid (cw_scope w) [queue] now (f_add (cw_timeout w) (Fin 30)) 1 (cs_store c) of
        (Inl _, s') \<Rightarrow> c\<lparr>cs_store := s'\<rparr>
      | (Inr jobs, s') \<Rightarrow> c\<lparr>cs_store := s', cs_active := cs_active c @ map (\<lambda>job. (job, Ready)) jobs\<rparr>)"

text \<open>
  \<open>Interrupt\<close> is the timeout or the cancellation of \<^verbatim>\<open>_perform\<close>, which \<^verbatim>\<open>_execute\<close> turns into a
  failure; \<open>Lost\<close> the end of the process that ran the activity; \<open>Environment\<close> an operation of
  anyone else on the store.
\<close>

fun channel_step :: "pylib \<Rightarrow> channel_worker \<Rightarrow> channel_op \<Rightarrow> channel_state \<Rightarrow> channel_state" where
  "channel_step lib w (Admit e) c = c\<lparr>cs_store := snd (admit lib w e (cs_store c))\<rparr>"
| "channel_step lib w (Claim_Queue uuid queue now) c =
     (if queue \<in> {''channel.outbox'', ''channel.inbox''} then claim_queue w uuid queue now c else c)"
| "channel_step lib w (Perform i) c = (case activity i c of
     Some (job, Ready) \<Rightarrow> (case perform lib w job of (ph, effs) \<Rightarrow> move_to i ph effs c) | _ \<Rightarrow> c)"
| "channel_step lib w (Answer i answer) c = (case activity i c of
     Some (job, Invoking e) \<Rightarrow> (case answered job e answer of (ph, effs) \<Rightarrow> move_to i ph effs c) | _ \<Rightarrow> c)"
| "channel_step lib w (Renew_Lease i now) c = (case activity i c of
     Some (job, Renewing e t) \<Rightarrow> (case renew_for_reply w job e t now (cs_store c) of
       (ph, s') \<Rightarrow> move_to i ph [] (c\<lparr>cs_store := s'\<rparr>)) | _ \<Rightarrow> c)"
| "channel_step lib w (Queue_Reply i) c = (case activity i c of
     Some (job, Queueing e t) \<Rightarrow> (case queue_reply lib w job e t (cs_store c) of
       (ph, s') \<Rightarrow> move_to i ph [] (c\<lparr>cs_store := s'\<rparr>)) | _ \<Rightarrow> c)"
| "channel_step lib w (Receipt i receipt) c = (case activity i c of
     Some (job, Sending) \<Rightarrow> move_to i (receipt_phase job receipt) [] c | _ \<Rightarrow> c)"
| "channel_step lib w (Return i) c = (case activity i c of
     Some (job, Returning v) \<Rightarrow> move_to i (Ending ''completed'' v None) [] c | _ \<Rightarrow> c)"
| "channel_step lib w (Interrupt i) c = (case activity i c of
     None \<Rightarrow> c | Some (job, Ending st v fc) \<Rightarrow> c | Some (job, ph) \<Rightarrow> move_to i (failing job) [] c)"
| "channel_step lib w (Finish_Job i now) c = (case activity i c of
     Some (job, Ending st v fc) \<Rightarrow> drop_activity i (c\<lparr>cs_store :=
        snd (finish_task (cw_scope w) (t_job_id job) (job_token job) now st v fc None (cs_store c))\<rparr>) | _ \<Rightarrow> c)"
| "channel_step lib w (Lost i) c = drop_activity i c"
| "channel_step lib w (Environment op) c = c\<lparr>cs_store := task_step lib op (cs_store c)\<rparr>"

definition idle_channel :: channel_state where
  "idle_channel = \<lparr>cs_store = empty_task_store, cs_active = [], cs_effects = []\<rparr>"

end
