(* ===== verification/Channel_Safety.thy ===== *)
theory Channel_Safety
  imports Channel_Worker
begin

text \<open>
  The invariant of the channel worker: what the jobs of its scope hold, what an activity may
  do at its phase, which effects the trace may contain, and that every start of a callback was
  paid for by an attempt of its job. Every step keeps it, whatever the environment does to the
  store outside the scope.
\<close>

section \<open>Operations on the task store\<close>

lemma task_move_content:
  assumes "task_move r r'"
  shows "t_queue r' = t_queue r" "t_job_id r' = t_job_id r" "t_application_id r' = t_application_id r"
    "t_task_name r' = t_task_name r" "t_idempotency_key r' = t_idempotency_key r"
    "t_arguments r' = t_arguments r \<or> terminal_status (t_status r')"
  using assms by (induction rule: task_move.induct) (auto simp: record_moves terminal_status_def
      dest: validate_finish_status)

lemma claim_one:
  assumes inv: "store_inv s" and claim: "claim_tasks uuid app [q] now l 1 s = (Inr jobs, s')"
  shows "jobs = [] \<or> (\<exists>r tok. jobs = [claim_record r tok now l] \<and> task_at s (task_key r) = Some r \<and> attempts_left r \<and>
    is_due r now \<and> t_application_id r = app \<and> t_queue r = q \<and> task_at s' (task_key r) = Some (claim_record r tok now l))"
proof -
  let ?cs = "due_candidates app [q] now s"
  have run: "claim_candidates uuid now l 1 ?cs [] s = (jobs, s')"
    using claim by (auto simp: claim_tasks_def split: option.splits prod.splits)
  have jobs: "jobs = map (\<lambda>(i, r). claim_record r (uuid i) now l) (enumerate 0 (take 1 (filter attempts_left ?cs)))"
    using claim_candidates_claimed [of "[]" 1 uuid now l ?cs s] by (simp add: run)
  show ?thesis
  proof (cases "filter attempts_left ?cs")
    case Nil
    then show ?thesis using jobs by simp
  next
    case (Cons r rs)
    then have r: "r \<in> set ?cs" "attempts_left r" by (auto dest: filter_eq_ConsD)
    have one: "jobs = [claim_record r (uuid 0) now l]" using jobs Cons by simp
    have "task_at s' (task_key (claim_record r (uuid 0) now l)) = Some (claim_record r (uuid 0) now l)"
      using claim_candidates_stored [OF due_candidates_distinct [OF inv], where cl = "[]" and s = s and u = uuid and l = l and n = 1
        and now = now and r = "claim_record r (uuid 0) now l" and app1 = app and qs1 = "[q]" and now1 = now]
      by (simp add: run one)
    with due_candidates_member [OF inv r(1)] r(2) one show ?thesis by auto
  qed
qed

lemma enqueue_found:
  assumes inv: "store_inv s" and ok: "enqueue_task lib r s = (Inr q, s')"
  shows "task_at s' (task_key r) = Some r \<or> (\<exists>k q'. task_at s k = Some q' \<and> s' = s \<and> (k = task_key r \<or> task_identity q' = task_identity r))"
proof (cases "task_at s (enqueue_slot s r)")
  case (Some q')
  then have "s' = s"
    using ok by (auto simp: enqueue_task_def enqueue_locked_def Let_def split: sum.splits option.splits if_splits)
  with Some show ?thesis using store_invD(5) [OF inv, of "task_identity r"]
    by (cases "map_of (s_idempotency s) (task_identity r)") (auto; metis surj_pair)+
next
  case None
  then show ?thesis
    using ok by (auto simp: enqueue_task_def enqueue_locked_def Let_def split: sum.splits option.splits if_splits)
qed

text \<open>A job becomes completed only by a \<open>Finish\<close> of its lease holder, with the result given there.\<close>

lemma completed_by_finish:
  assumes inv: "store_inv s" and r: "task_at s k = Some r" and r': "task_at (task_step lib op s) k = Some r'"
    and completed: "t_status r' = ''completed''"
  shows "r' = r \<or> (\<exists>tok now st v fc ra. op = Finish (fst k) (snd k) tok now st v fc ra \<and> t_result r' = v)"
proof (cases op)
  case (Finish app job tok now st v fc ra)
  then show ?thesis using r r' completed
    by (cases "k = (app, job)") (auto simp: finish_task_def Let_def finish_record_def terminal_task_def
        split: option.splits if_splits)
next
  case (Claim u app qs now l n)
  have shape: "task_at s k = Some r \<Longrightarrow> task_at (snd (claim_candidates u now l n cs cl s)) k = Some r' \<Longrightarrow> r' = r" for cs cl
    using completed
  proof (induction u now l n cs cl s arbitrary: r rule: claim_candidates.induct)
    case (2 u now l n c cs cl s)
    show ?case
    proof (cases "t_attempt c \<ge> t_max_retries c + 1")
      case True
      let ?t = "terminal_task c ''failed'' now PyNone (Some ''task_failed'')"
      have "t_status ?t \<noteq> ''completed''" by (simp add: terminal_task_def)
      with "2.IH"(1) [OF refl True, of ?t] "2.IH"(1) [OF refl True, of r] "2.prems" True show ?thesis
        by (cases "k = task_key c") (auto simp: Let_def)
    next
      case left: False
      let ?t = "claim_record c (u (length cl)) now l"
      have t: "t_status ?t \<noteq> ''completed''" by (simp add: claim_record_def)
      show ?thesis
      proof (cases "int (length (cl @ [?t])) = n")
        case True
        with t left "2.prems" show ?thesis by (cases "k = task_key c") (auto simp: Let_def)
      next
        case False
        with t left "2.IH"(2) [OF refl left refl refl refl, of ?t] "2.IH"(2) [OF refl left refl refl refl, of r] "2.prems" show ?thesis
          by (cases "k = task_key c") (auto simp: Let_def)
      qed
    qed
  qed simp
  from shape [OF r, of "due_candidates app qs now s" "[]"] r' Claim r show ?thesis by (auto simp: claim_tasks_def split: option.splits prod.splits)
next
  case (Enqueue q)
  then show ?thesis using r r' enqueue_locked_keeps [OF r, of lib q] by simp
next
  case (Renew app job tok now l)
  then show ?thesis using r r' completed
    by (cases "k = (app, job)") (auto simp: renew_task_lease_def Let_def owns_lease_def split: option.splits if_splits)
next
  case (Cancel app user job now)
  then show ?thesis using r r' completed
    by (cases "k = (app, job)") (auto simp: cancel_task_def Let_def terminal_task_def split: option.splits if_splits)
next
  case (Commit_Occurrence app user sid v due nxt t)
  then show ?thesis using r r' enqueue_locked_keeps [OF r, of lib t] commit_cron_occurrence_tasks [of lib app user sid v due nxt t s]
    by auto
qed (use r r' in auto)


section \<open>The jobs of the scope\<close>

definition invoked_for :: "pylib \<Rightarrow> channel_worker \<Rightarrow> channel_event \<Rightarrow> effect" where
  "invoked_for lib w e = Invoked (event_identity lib w e) e (event_session lib w e) (event_actor lib w e)"

definition inbox_of :: "pylib \<Rightarrow> channel_worker \<Rightarrow> task_record \<Rightarrow> channel_event \<Rightarrow> bool" where
  "inbox_of lib w r e \<longleftrightarrow> t_queue r = ''channel.inbox'' \<and> t_job_id r = event_identity lib w e \<and> t_user_id r = event_actor lib w e \<and>
     t_arguments r = PyDict [(PyStr ''event'', event_dict e)] \<and> accepts w e"

definition backed :: "pylib \<Rightarrow> channel_worker \<Rightarrow> effect list \<Rightarrow> channel_event \<Rightarrow> string \<Rightarrow> bool" where
  "backed lib w effs e t \<longleftrightarrow> accepts w e \<and> invoked_for lib w e \<in> set effs \<and> Answered (event_identity lib w e) t \<in> set effs"

definition outbox_of :: "pylib \<Rightarrow> channel_worker \<Rightarrow> effect list \<Rightarrow> task_record \<Rightarrow> channel_event \<Rightarrow> string \<Rightarrow> bool" where
  "outbox_of lib w effs r e t \<longleftrightarrow> t_queue r = ''channel.outbox'' \<and> t_job_id r = ''reply:'' @ event_identity lib w e \<and>
     t_arguments r = PyDict [(PyStr ''event'', event_dict e), (PyStr ''reply'', reply_dict (reply_for (event_identity lib w e) e t))] \<and>
     backed lib w effs e t"

definition described :: "pylib \<Rightarrow> channel_worker \<Rightarrow> effect list \<Rightarrow> task_record \<Rightarrow> bool" where
  "described lib w effs r \<longleftrightarrow> (\<exists>e. inbox_of lib w r e) \<or> (\<exists>e t. outbox_of lib w effs r e t)"

definition single_shot :: "task_record \<Rightarrow> bool" where
  "single_shot r \<longleftrightarrow> t_max_retries r = 0 \<and> 0 \<le> t_attempt r \<and> t_attempt r \<le> 1"

definition named_job :: "task_record \<Rightarrow> bool" where
  "named_job r \<longleftrightarrow> t_task_name r = ''channel.invoke'' \<or>
     t_task_name r = ''channel.reply'' \<and> (\<exists>j. t_idempotency_key r = Some j \<and> t_job_id r = ''reply:'' @ j)"

definition channel_job :: "pylib \<Rightarrow> channel_worker \<Rightarrow> effect list \<Rightarrow> task_record \<Rightarrow> bool" where
  "channel_job lib w effs r \<longleftrightarrow> single_shot r \<and> named_job r \<and> (terminal_status (t_status r) \<or> described lib w effs r)"

lemma task_move_single_shot: "task_move r r' \<Longrightarrow> single_shot r \<Longrightarrow> single_shot r'"
  by (induction rule: task_move.induct) (auto simp: single_shot_def record_moves)

lemma described_cong:
  assumes "t_queue r' = t_queue r" "t_job_id r' = t_job_id r" "t_user_id r' = t_user_id r" "t_arguments r' = t_arguments r"
  shows "described lib w effs r' = described lib w effs r"
  using assms by (simp add: described_def inbox_of_def outbox_of_def)

lemma channel_job_move:
  assumes move: "task_move r r'" and job: "channel_job lib w effs r"
  shows "channel_job lib w effs r'"
proof (cases "terminal_status (t_status r')")
  case True
  then show ?thesis using job task_move_single_shot [OF move] task_move_content [OF move]
    by (auto simp: channel_job_def named_job_def)
next
  case False
  then have "\<not> terminal_status (t_status r)" using task_move_terminal [OF move] by blast
  moreover have "described lib w effs r' = described lib w effs r"
    using False task_move_content [OF move] task_move_identity(3) [OF move] by (intro described_cong) auto
  ultimately show ?thesis using job task_move_single_shot [OF move] task_move_content [OF move]
    by (auto simp: channel_job_def named_job_def)
qed

lemma described_grows: "described lib w effs r \<Longrightarrow> described lib w (effs @ effs') r"
  by (auto simp: described_def outbox_of_def backed_def)

lemma channel_job_grows: "channel_job lib w effs r \<Longrightarrow> channel_job lib w (effs @ effs') r"
  by (auto simp: channel_job_def described_grows)


section \<open>The invariant\<close>

abbreviation reply_queued :: pyval where
  "reply_queued \<equiv> outcome_dict ''reply_queued'' []"

definition reply_stored :: "channel_worker \<Rightarrow> string \<Rightarrow> task_store \<Rightarrow> bool" where
  "reply_stored w j s \<longleftrightarrow> task_at s (cw_scope w, ''reply:'' @ j) \<noteq> None"

definition jobs_inv :: "pylib \<Rightarrow> channel_worker \<Rightarrow> effect list \<Rightarrow> task_store \<Rightarrow> bool" where
  "jobs_inv lib w effs s \<longleftrightarrow> store_inv s \<and> (\<forall>j r. task_at s (cw_scope w, j) = Some r \<longrightarrow> channel_job lib w effs r \<and>
     (t_status r = ''completed'' \<longrightarrow> t_result r = reply_queued \<longrightarrow> reply_stored w j s))"

definition attempts_of :: "channel_worker \<Rightarrow> string \<Rightarrow> task_store \<Rightarrow> nat" where
  "attempts_of w j s = (case task_at s (cw_scope w, j) of None \<Rightarrow> 0 | Some r \<Rightarrow> nat (t_attempt r))"

text \<open>What an operation on the store may do to the scope.\<close>

definition may_do :: "pylib \<Rightarrow> channel_worker \<Rightarrow> effect list \<Rightarrow> task_op \<Rightarrow> task_store \<Rightarrow> bool" where
  "may_do lib w effs op s \<longleftrightarrow>
     (\<forall>r. submitted op = Some r \<longrightarrow> t_application_id r = cw_scope w \<longrightarrow> channel_job lib w effs r \<and> t_attempt r = 0 \<and> t_status r = ''pending'') \<and>
     (\<forall>j tok now st v fc ra. op = Finish (cw_scope w) j tok now st v fc ra \<longrightarrow> v = reply_queued \<longrightarrow> reply_stored w j s)"

lemma reply_stored_step: "store_inv s \<Longrightarrow> reply_stored w j s \<Longrightarrow> reply_stored w j (task_step lib op s)"
  using task_step_refines by (fastforce simp: reply_stored_def)

lemma jobs_inv_step:
  assumes inv: "jobs_inv lib w effs s" and may: "may_do lib w effs op s"
  shows "jobs_inv lib w effs (task_step lib op s)"
  unfolding jobs_inv_def
proof (intro conjI allI impI)
  have store: "store_inv s" using inv by (simp add: jobs_inv_def)
  then show store': "store_inv (task_step lib op s)" by (rule task_step_inv)
  fix j r'
  assume r': "task_at (task_step lib op s) (cw_scope w, j) = Some r'"
  show "channel_job lib w effs r'"
  proof (cases "task_at s (cw_scope w, j)")
    case None
    from task_step_new [OF store None r'] have "submitted op = Some r'" .
    moreover have "t_application_id r' = cw_scope w" using store_invD(3) [OF store' r'] by (simp add: task_key_def)
    ultimately show ?thesis using may by (auto simp: may_do_def)
  next
    case (Some r)
    with task_step_refines [OF store Some, of lib op] r' have "task_move r r'" by auto
    then show ?thesis using inv Some by (auto simp: jobs_inv_def intro: channel_job_move)
  qed
  assume completed: "t_status r' = ''completed''" and queued: "t_result r' = reply_queued"
  show "reply_stored w j (task_step lib op s)"
  proof (cases "task_at s (cw_scope w, j)")
    case None
    from task_step_new [OF store None r'] have "submitted op = Some r'" .
    moreover have "t_application_id r' = cw_scope w" using store_invD(3) [OF store' r'] by (simp add: task_key_def)
    ultimately show ?thesis using may completed by (auto simp: may_do_def)
  next
    case (Some r)
    from completed_by_finish [OF store Some r' completed] have "reply_stored w j s"
    proof
      assume "r' = r"
      then show ?thesis using inv Some completed queued by (auto simp: jobs_inv_def)
    next
      assume "\<exists>tok now st v fc ra. op = Finish (fst (cw_scope w, j)) (snd (cw_scope w, j)) tok now st v fc ra \<and> t_result r' = v"
      then show ?thesis using may queued by (auto simp: may_do_def)
    qed
    then show ?thesis by (rule reply_stored_step [OF store])
  qed
qed

lemma attempts_mono:
  assumes "store_inv s"
  shows "attempts_of w j s \<le> attempts_of w j (task_step lib op s)"
proof (cases "task_at s (cw_scope w, j)")
  case None
  then show ?thesis by (simp add: attempts_of_def)
next
  case (Some r)
  from task_step_refines [OF assms Some, of lib op] obtain r' where
    "task_at (task_step lib op s) (cw_scope w, j) = Some r'" "task_move r r'" by blast
  with Some task_move_attempt [of r r'] show ?thesis by (auto simp: attempts_of_def intro: nat_mono)
qed

lemma attempts_le_1:
  assumes "jobs_inv lib w effs s"
  shows "attempts_of w j s \<le> 1"
proof (cases "task_at s (cw_scope w, j)")
  case (Some r)
  then have "t_attempt r \<le> 1" using assms by (auto simp: jobs_inv_def channel_job_def single_shot_def)
  then show ?thesis by (simp add: attempts_of_def Some nat_le_iff)
qed (simp add: attempts_of_def)

definition activity_ok :: "pylib \<Rightarrow> channel_worker \<Rightarrow> effect list \<Rightarrow> task_store \<Rightarrow> task_record \<Rightarrow> phase \<Rightarrow> bool" where
  "activity_ok lib w effs s job ph \<longleftrightarrow> described lib w effs job \<and> (case ph of
     Ready \<Rightarrow> True | Sending \<Rightarrow> True
   | Invoking e \<Rightarrow> inbox_of lib w job e \<and> invoked_for lib w e \<in> set effs
   | Renewing e t \<Rightarrow> inbox_of lib w job e \<and> backed lib w effs e t
   | Queueing e t \<Rightarrow> inbox_of lib w job e \<and> backed lib w effs e t
   | Returning v \<Rightarrow> v = reply_queued \<longrightarrow> reply_stored w (t_job_id job) s
   | Ending st v fc \<Rightarrow> v = reply_queued \<longrightarrow> reply_stored w (t_job_id job) s)"

definition effect_ok :: "pylib \<Rightarrow> channel_worker \<Rightarrow> effect list \<Rightarrow> effect \<Rightarrow> bool" where
  "effect_ok lib w before ef = (case ef of
     Invoked j e session actor \<Rightarrow> ef = invoked_for lib w e \<and> accepts w e
   | Answered j t \<Rightarrow> \<exists>e. j = event_identity lib w e \<and> invoked_for lib w e \<in> set before
   | Sent j r \<Rightarrow> \<exists>e t. j = ''reply:'' @ event_identity lib w e \<and> r = reply_for (event_identity lib w e) e t \<and> backed lib w before e t)"

definition effects_ok :: "pylib \<Rightarrow> channel_worker \<Rightarrow> effect list \<Rightarrow> bool" where
  "effects_ok lib w effs \<longleftrightarrow> (\<forall>i<length effs. effect_ok lib w (take i effs) (effs ! i))"

definition starts :: "string \<Rightarrow> effect list \<Rightarrow> nat" where
  "starts j effs = length (filter (\<lambda>ef. case ef of Invoked k e session actor \<Rightarrow> k = j | Answered k t \<Rightarrow> False | Sent k r \<Rightarrow> k = j) effs)"

definition readies :: "string \<Rightarrow> (task_record \<times> phase) list \<Rightarrow> nat" where
  "readies j acts = length (filter (\<lambda>(job, ph). ph = Ready \<and> t_job_id job = j) acts)"

definition channel_inv :: "pylib \<Rightarrow> channel_worker \<Rightarrow> channel_state \<Rightarrow> bool" where
  "channel_inv lib w c \<longleftrightarrow> jobs_inv lib w (cs_effects c) (cs_store c) \<and> effects_ok lib w (cs_effects c) \<and>
     (\<forall>(job, ph)\<in>set (cs_active c). activity_ok lib w (cs_effects c) (cs_store c) job ph) \<and>
     (\<forall>j. readies j (cs_active c) + starts j (cs_effects c) \<le> attempts_of w j (cs_store c))"

lemma channel_inv_idle: "channel_inv lib w idle_channel"
  by (simp add: channel_inv_def idle_channel_def jobs_inv_def store_inv_empty effects_ok_def readies_def starts_def)
    (simp add: empty_task_store_def)

lemma effects_ok_snoc [simp]: "effects_ok lib w (effs @ [ef]) \<longleftrightarrow> effects_ok lib w effs \<and> effect_ok lib w effs ef"
  by (auto simp: effects_ok_def nth_append less_Suc_eq)

lemma starts_append [simp]: "starts j (effs @ effs') = starts j effs + starts j effs'"
  by (simp add: starts_def)

lemma readies_append [simp]: "readies j (acts @ acts') = readies j acts + readies j acts'"
  by (simp add: readies_def)

lemma readies_at:
  assumes "i < length acts"
  shows "readies j acts = readies j (take i acts) + readies j [acts ! i] + readies j (drop (Suc i) acts)"
proof -
  have "readies j acts = readies j (take i acts @ [acts ! i] @ drop (Suc i) acts)"
    using id_take_nth_drop [OF assms] by simp
  then show ?thesis by (simp only: readies_append)
qed

lemma readies_update:
  assumes "i < length acts" "ph \<noteq> Ready"
  shows "readies j (acts[i := (job, ph)]) = readies j (take i acts) + readies j (drop (Suc i) acts)"
proof -
  have "readies j (acts[i := (job, ph)]) = readies j (take i acts @ [(job, ph)] @ drop (Suc i) acts)"
    using upd_conv_take_nth_drop [OF assms(1)] by simp
  then show ?thesis using assms(2) by (simp add: readies_def)
qed

lemma activity_ok_grows: "activity_ok lib w effs s job ph \<Longrightarrow> activity_ok lib w (effs @ effs') s job ph"
  by (auto simp: activity_ok_def described_grows backed_def split: phase.splits)

lemma activity_ok_step: "store_inv s \<Longrightarrow> activity_ok lib w effs s job ph \<Longrightarrow> activity_ok lib w effs (task_step lib' op s) job ph"
  by (auto simp: activity_ok_def reply_stored_step split: phase.splits)

lemma activity_Some: "activity i c = Some x \<longleftrightarrow> i < length (cs_active c) \<and> cs_active c ! i = x"
  by (auto simp: activity_def)

lemma jobs_inv_grows: "jobs_inv lib w effs s \<Longrightarrow> jobs_inv lib w (effs @ effs') s"
  by (auto simp: jobs_inv_def channel_job_grows)


section \<open>Frames of a step\<close>

lemma channel_inv_store:
  assumes inv: "channel_inv lib w c" and may: "may_do lib w (cs_effects c) op (cs_store c)"
  shows "channel_inv lib w (c\<lparr>cs_store := task_step lib op (cs_store c)\<rparr>)"
proof -
  have store: "store_inv (cs_store c)" using inv by (simp add: channel_inv_def jobs_inv_def)
  have "readies j (cs_active c) + starts j (cs_effects c) \<le> attempts_of w j (task_step lib op (cs_store c))" for j
    using inv attempts_mono [OF store, of w j lib op] by (auto simp: channel_inv_def intro: order_trans)
  then show ?thesis
    using inv jobs_inv_step [OF _ may] activity_ok_step [OF store] by (auto simp: channel_inv_def)
qed

lemma channel_inv_move:
  assumes inv: "channel_inv lib w c" and act: "activity i c = Some (job, ph0)" and ph: "ph \<noteq> Ready"
    and ok: "activity_ok lib w (cs_effects c @ effs) (cs_store c) job ph" "effects_ok lib w (cs_effects c @ effs)"
    and starts: "\<And>j. starts j effs \<le> readies j [(job, ph0)]"
  shows "channel_inv lib w (move_to i ph effs c)"
proof -
  have i: "i < length (cs_active c)" "cs_active c ! i = (job, ph0)" using act by (auto simp: activity_Some)
  have "activity_ok lib w (cs_effects c @ effs) (cs_store c) (fst x) (snd x)" if "x \<in> set ((cs_active c)[i := (job, ph)])" for x
  proof (cases "x = (job, ph)")
    case False
    then have "x \<in> set (cs_active c)" using that set_update_subset_insert [of "cs_active c" i "(job, ph)"] by auto
    then show ?thesis using inv by (cases x) (auto simp: channel_inv_def intro!: activity_ok_grows)
  qed (simp add: ok(1))
  then have "\<forall>x\<in>set ((cs_active c)[i := (job, ph)]). case x of (job, ph) \<Rightarrow> activity_ok lib w (cs_effects c @ effs) (cs_store c) job ph"
    by (auto simp: case_prod_beta)
  moreover have "readies j ((cs_active c)[i := (job, ph)]) + starts j (cs_effects c @ effs) \<le> attempts_of w j (cs_store c)" for j
    using inv starts [of j] readies_at [OF i(1), of j] readies_update [OF i(1) ph, of j job] i(2)
    by (auto simp: channel_inv_def dest: spec [of _ j])
  ultimately show ?thesis using inv ok(2) i by (auto simp: channel_inv_def move_to_def jobs_inv_grows)
qed

lemma channel_inv_drop:
  assumes inv: "channel_inv lib w c"
  shows "channel_inv lib w (drop_activity i c)"
proof -
  have sub: "set (take i (cs_active c) @ drop (Suc i) (cs_active c)) \<subseteq> set (cs_active c)"
    using set_take_subset set_drop_subset by (metis Un_least set_append)
  have "readies j (take i (cs_active c) @ drop (Suc i) (cs_active c)) \<le> readies j (cs_active c)" for j
  proof (cases "i < length (cs_active c)")
    case True
    then show ?thesis by (simp add: readies_at [OF True])
  qed simp
  moreover have "readies j (cs_active c) + starts j (cs_effects c) \<le> attempts_of w j (cs_store c)" for j
    using inv by (simp add: channel_inv_def)
  ultimately have "readies j (take i (cs_active c) @ drop (Suc i) (cs_active c)) + starts j (cs_effects c) \<le> attempts_of w j (cs_store c)" for j
    by (meson add_right_mono order_trans)
  then show ?thesis using inv sub by (auto simp: channel_inv_def drop_activity_def)
qed

end
