(* ===== verification/Channel_Props.thy ===== *)
theory Channel_Props
  imports Channel_Safety
begin

text \<open>
  Every step of the channel worker keeps its invariant, and what follows for the people who
  write to it: no message is answered by two model runs, no reply is sent twice, and every
  reply that is sent was computed for an accepted message of the conversation it goes to.
\<close>

section \<open>Every step keeps the invariant\<close>

text \<open>Others share the store, but the scope of the worker is its own: they may claim, renew or cancel there, not submit or finish.\<close>

definition outside :: "channel_worker \<Rightarrow> channel_op \<Rightarrow> bool" where
  "outside w op = (case op of
     Environment store_op \<Rightarrow> (case submitted store_op of None \<Rightarrow> True | Some r \<Rightarrow> t_application_id r \<noteq> cw_scope w) \<and>
       (case store_op of Finish app job tok now st v fc ra \<Rightarrow> app \<noteq> cw_scope w | _ \<Rightarrow> True)
   | _ \<Rightarrow> True)"

lemma step_admit:
  assumes inv: "channel_inv lib w c"
  shows "channel_inv lib w (channel_step lib w (Admit e) c)"
proof (cases "accepts w e")
  case True
  let ?e = "e\<lparr>ce_delivery_id := ''''\<rparr>"
  have store: "snd (admit lib w e (cs_store c)) = task_step lib (Enqueue (inbox_job lib w ?e)) (cs_store c)"
    using True by (auto simp: admit_def Let_def enqueue_task_def split: prod.split sum.split)
  have "accepts w ?e" using True by (simp add: accepts_def)
  then have "inbox_of lib w (inbox_job lib w ?e) ?e"
    by (simp add: inbox_of_def inbox_job_def new_task_def event_identity_def event_actor_def)
  then have "channel_job lib w (cs_effects c) (inbox_job lib w ?e)"
    by (auto simp: channel_job_def described_def single_shot_def named_job_def inbox_job_def new_task_def)
  then have "may_do lib w (cs_effects c) (Enqueue (inbox_job lib w ?e)) (cs_store c)"
    by (auto simp: may_do_def submitted_def inbox_job_def new_task_def)
  from channel_inv_store [OF inv this] show ?thesis by (simp add: store)
qed (use inv in \<open>simp add: admit_def\<close>)

lemma step_claim:
  assumes inv: "channel_inv lib w c"
  shows "channel_inv lib w (claim_queue w uuid q now c)"
proof (cases "claim_tasks uuid (cw_scope w) [q] now (f_add (cw_timeout w) (Fin 30)) 1 (cs_store c)")
  case (Pair res s')
  have jobs: "jobs_inv lib w (cs_effects c) (cs_store c)" and store: "store_inv (cs_store c)"
    using inv by (auto simp: channel_inv_def jobs_inv_def)
  let ?op = "Claim uuid (cw_scope w) [q] now (f_add (cw_timeout w) (Fin 30)) 1"
  have s': "s' = task_step lib ?op (cs_store c)" using Pair by simp
  have "may_do lib w (cs_effects c) ?op (cs_store c)" by (simp add: may_do_def submitted_def)
  from channel_inv_store [OF inv this] have inv': "channel_inv lib w (c\<lparr>cs_store := s'\<rparr>)" by (simp only: s')
  show ?thesis
  proof (cases res)
    case (Inl e)
    with Pair inv' show ?thesis by (simp add: claim_queue_def)
  next
    case (Inr claimed)
    from claim_one [OF store Pair [unfolded Inr]] consider "claimed = []"
      | r tok l where "claimed = [claim_record r tok now l]" "task_at (cs_store c) (task_key r) = Some r" "attempts_left r"
          "is_due r now" "t_application_id r = cw_scope w" "task_at s' (task_key r) = Some (claim_record r tok now l)"
      by blast
    then show ?thesis
    proof cases
      case 1
      with Pair Inr inv' show ?thesis by (simp add: claim_queue_def)
    next
      case 2
      let ?r = "claim_record r tok now l" and ?j = "t_job_id r"
      have key: "task_key r = (cw_scope w, ?j)" using 2 by (simp add: task_key_def)
      have ok: "channel_job lib w (cs_effects c) r" using jobs 2 key by (auto simp: jobs_inv_def)
      moreover have "\<not> terminal_status (t_status r)" using is_due_live [OF 2(4)] by (auto simp: terminal_status_def)
      ultimately have desc: "described lib w (cs_effects c) r" and att: "t_attempt r = 0"
        using 2(3) by (auto simp: channel_job_def single_shot_def)
      have desc': "described lib w (cs_effects c) ?r"
        using desc described_cong [of ?r r] by (simp add: claim_record_def)
      have "attempts_of w ?j (cs_store c) = 0" "attempts_of w ?j s' = 1"
        using 2 key att by (simp_all add: attempts_of_def claim_record_def)
      then have "readies j (cs_active c @ [(?r, Ready)]) + starts j (cs_effects c) \<le> attempts_of w j s'" for j
        using inv inv' by (cases "j = ?j") (auto simp: channel_inv_def readies_def dest: spec [of _ j])
      moreover have "activity_ok lib w (cs_effects c) s' ?r Ready" using desc' by (simp add: activity_ok_def)
      ultimately show ?thesis using Pair Inr 2(1) inv' by (auto simp: claim_queue_def channel_inv_def)
    qed
  qed
qed

lemma failing_ok: "described lib w effs job \<Longrightarrow> activity_ok lib w effs s job (failing job)"
  by (simp add: activity_ok_def failing_def outcome_dict_def)

lemma failing_not_ready [simp]: "failing job \<noteq> Ready"
  by (simp add: failing_def)

lemma starts_Nil [simp]: "starts j [] = 0"
  by (simp add: starts_def)

lemma active_ok: "channel_inv lib w c \<Longrightarrow> activity i c = Some (job, ph) \<Longrightarrow> activity_ok lib w (cs_effects c) (cs_store c) job ph"
  using nth_mem [of i "cs_active c"] by (fastforce simp: channel_inv_def activity_Some)

text \<open>A move without effects.\<close>

lemma quiet_move:
  assumes "channel_inv lib w c" "activity i c = Some (job, ph0)" "ph \<noteq> Ready" "activity_ok lib w (cs_effects c) (cs_store c) job ph"
  shows "channel_inv lib w (move_to i ph [] c)"
  using channel_inv_move [of lib w c i job ph0 ph "[]"] assms by (simp add: channel_inv_def)

lemma fail_move:
  assumes "channel_inv lib w c" "activity i c = Some (job, ph0)"
  shows "channel_inv lib w (move_to i (failing job) [] c)"
  using quiet_move [OF assms] active_ok [OF assms] failing_ok [of lib w "cs_effects c" job "cs_store c"]
  by (simp add: activity_ok_def)

lemma step_perform:
  assumes inv: "channel_inv lib w c"
  shows "channel_inv lib w (channel_step lib w (Perform i) c)"
proof (cases "\<exists>job. activity i c = Some (job, Ready)")
  case True
  then obtain job where act: "activity i c = Some (job, Ready)" by blast
  have "described lib w (cs_effects c) job" using active_ok [OF inv act] by (simp add: activity_ok_def)
  then consider e where "inbox_of lib w job e" | e t where "outbox_of lib w (cs_effects c) job e t"
    by (auto simp: described_def)
  then show ?thesis
  proof cases
    case 1
    let ?ef = "invoked_for lib w e"
    have run: "perform lib w job = (Invoking e, [?ef])"
      using 1 by (simp add: perform_def job_event_def job_argument_def inbox_of_def invoked_for_def)
    have "channel_inv lib w (move_to i (Invoking e) [?ef] c)"
    proof (rule channel_inv_move [OF inv act])
      show "activity_ok lib w (cs_effects c @ [?ef]) (cs_store c) job (Invoking e)"
        using 1 by (auto simp: activity_ok_def described_def)
      show "effects_ok lib w (cs_effects c @ [?ef])"
        using inv 1 by (simp add: channel_inv_def effect_ok_def invoked_for_def inbox_of_def)
      show "starts j [?ef] \<le> readies j [(job, Ready)]" for j
        using 1 by (simp add: starts_def readies_def invoked_for_def inbox_of_def)
    qed simp
    then show ?thesis by (simp add: act run)
  next
    case 2
    let ?r = "reply_for (event_identity lib w e) e t" and ?j = "''reply:'' @ event_identity lib w e"
    have run: "perform lib w job = (Sending, [Sent ?j ?r])"
      using 2 by (simp add: perform_def job_event_def job_reply_def job_argument_def outbox_of_def backed_def)
    have "channel_inv lib w (move_to i Sending [Sent ?j ?r] c)"
    proof (rule channel_inv_move [OF inv act])
      show "activity_ok lib w (cs_effects c @ [Sent ?j ?r]) (cs_store c) job Sending"
        using active_ok [OF inv act] by (simp add: activity_ok_def described_grows)
      show "effects_ok lib w (cs_effects c @ [Sent ?j ?r])"
        using inv 2 by (auto simp: channel_inv_def effect_ok_def outbox_of_def)
      show "starts j [Sent ?j ?r] \<le> readies j [(job, Ready)]" for j
        using 2 by (simp add: starts_def readies_def outbox_of_def)
    qed simp
    then show ?thesis by (simp add: act run)
  qed
qed (use inv in \<open>auto split: option.split phase.split\<close>)

lemma step_answer:
  assumes inv: "channel_inv lib w c"
  shows "channel_inv lib w (channel_step lib w (Answer i answer) c)"
proof (cases "\<exists>job e. activity i c = Some (job, Invoking e)")
  case True
  then obtain job e where act: "activity i c = Some (job, Invoking e)" by blast
  have ok: "activity_ok lib w (cs_effects c) (cs_store c) job (Invoking e)" by (rule active_ok [OF inv act])
  show ?thesis
  proof (cases "\<exists>t. answer = Some t \<and> \<not> blank t")
    case True
    then obtain t where t: "answered job e answer = (Renewing e t, [Answered (t_job_id job) t])"
      by (auto simp: answered_def)
    have "channel_inv lib w (move_to i (Renewing e t) [Answered (t_job_id job) t] c)"
    proof (rule channel_inv_move [OF inv act])
      show "activity_ok lib w (cs_effects c @ [Answered (t_job_id job) t]) (cs_store c) job (Renewing e t)"
        using ok by (auto simp: activity_ok_def described_grows backed_def inbox_of_def)
      show "effects_ok lib w (cs_effects c @ [Answered (t_job_id job) t])"
        using inv ok by (auto simp: channel_inv_def effect_ok_def activity_ok_def inbox_of_def)
    qed (simp_all add: starts_def)
    then show ?thesis by (simp add: act t)
  next
    case False
    then have "answered job e answer = (failing job, [])" by (auto simp: answered_def split: option.split)
    then show ?thesis using fail_move [OF inv act] by (simp add: act)
  qed
qed (use inv in \<open>auto split: option.split phase.split\<close>)

lemma step_renew:
  assumes inv: "channel_inv lib w c"
  shows "channel_inv lib w (channel_step lib w (Renew_Lease i now) c)"
proof (cases "\<exists>job e t. activity i c = Some (job, Renewing e t)")
  case True
  then obtain job e t where act: "activity i c = Some (job, Renewing e t)" by blast
  let ?op = "Renew (cw_scope w) (t_job_id job) (job_token job) now (Fin 30)"
  let ?c = "c\<lparr>cs_store := task_step lib ?op (cs_store c)\<rparr>"
  have "may_do lib w (cs_effects c) ?op (cs_store c)" by (simp add: may_do_def submitted_def)
  from channel_inv_store [OF inv this] have inv': "channel_inv lib w ?c" .
  have act': "activity i ?c = Some (job, Renewing e t)" using act by (simp add: activity_Some)
  have "channel_inv lib w (move_to i (Queueing e t) [] ?c)"
    using active_ok [OF inv' act'] by (intro quiet_move [OF inv' act']) (simp_all add: activity_ok_def)
  moreover have "renew_for_reply w job e t now (cs_store c) \<in> {(Queueing e t, cs_store ?c), (failing job, cs_store ?c)}"
    by (auto simp: renew_for_reply_def split: prod.split sum.split bool.split)
  ultimately show ?thesis using fail_move [OF inv' act'] by (auto simp: act)
qed (use inv in \<open>auto split: option.split phase.split\<close>)

lemma queued_reply_stored:
  assumes jobs: "jobs_inv lib w effs s" and ok: "enqueue_task lib (reply_job w job e t) s = (Inr q, s')"
  shows "reply_stored w (t_job_id job) s'"
proof -
  have store: "store_inv s" using jobs by (simp add: jobs_inv_def)
  have key: "task_key (reply_job w job e t) = (cw_scope w, ''reply:'' @ t_job_id job)"
    by (simp add: task_key_def reply_job_def new_task_def)
  from enqueue_found [OF store ok] consider "task_at s' (task_key (reply_job w job e t)) = Some (reply_job w job e t)"
    | k q' where "task_at s k = Some q'" "s' = s" "k = task_key (reply_job w job e t)"
    | k q' where "task_at s k = Some q'" "s' = s" "task_identity q' = task_identity (reply_job w job e t)"
    by blast
  then show ?thesis
  proof cases
    case 3
    have k: "k = (t_application_id q', t_job_id q')" using store_invD(3) [OF store 3(1)] by (simp add: task_key_def)
    have id: "t_application_id q' = cw_scope w" "t_task_name q' = ''channel.reply''"
      "(case t_idempotency_key q' of None \<Rightarrow> [] | Some x \<Rightarrow> x) = t_job_id job"
      using 3(3) by (simp_all add: task_identity_def reply_job_def new_task_def)
    have "named_job q'" using jobs 3(1) k id by (auto simp: jobs_inv_def channel_job_def)
    then have "t_job_id q' = ''reply:'' @ t_job_id job" using id by (auto simp: named_job_def)
    then show ?thesis using 3 k id by (simp add: reply_stored_def)
  qed (auto simp: reply_stored_def key)
qed

lemma step_queue:
  assumes inv: "channel_inv lib w c"
  shows "channel_inv lib w (channel_step lib w (Queue_Reply i) c)"
proof (cases "\<exists>job e t. activity i c = Some (job, Queueing e t)")
  case True
  then obtain job e t where act: "activity i c = Some (job, Queueing e t)" by blast
  let ?op = "Enqueue (reply_job w job e t)" and ?r = "reply_job w job e t"
  let ?c = "c\<lparr>cs_store := task_step lib ?op (cs_store c)\<rparr>"
  have jobs: "jobs_inv lib w (cs_effects c) (cs_store c)" using inv by (simp add: channel_inv_def)
  have ok: "inbox_of lib w job e" "backed lib w (cs_effects c) e t" "described lib w (cs_effects c) job"
    using active_ok [OF inv act] by (auto simp: activity_ok_def)
  then have "outbox_of lib w (cs_effects c) ?r e t"
    by (simp add: outbox_of_def inbox_of_def reply_job_def new_task_def)
  then have "channel_job lib w (cs_effects c) ?r"
    by (auto simp: channel_job_def described_def single_shot_def named_job_def reply_job_def new_task_def)
  then have "may_do lib w (cs_effects c) ?op (cs_store c)"
    by (auto simp: may_do_def submitted_def reply_job_def new_task_def)
  from channel_inv_store [OF inv this] have inv': "channel_inv lib w ?c" .
  have act': "activity i ?c = Some (job, Queueing e t)" using act by (simp add: activity_Some)
  show ?thesis
  proof (cases "enqueue_task lib ?r (cs_store c)")
    case (Pair res s')
    have s': "?c = c\<lparr>cs_store := s'\<rparr>" using Pair enqueue_task_snd [of lib ?r "cs_store c"] by simp
    show ?thesis
    proof (cases res)
      case (Inl err)
      then show ?thesis using fail_move [OF inv' act'] Pair s' by (simp add: act queue_reply_def)
    next
      case (Inr q)
      have "reply_stored w (t_job_id job) s'" using queued_reply_stored [OF jobs Pair [unfolded Inr]] .
      then have "channel_inv lib w (move_to i (Returning reply_queued) [] ?c)"
        using ok s' by (intro quiet_move [OF inv' act']) (simp_all add: activity_ok_def)
      then show ?thesis using Pair Inr s' by (simp add: act queue_reply_def)
    qed
  qed
qed (use inv in \<open>auto split: option.split phase.split\<close>)

lemma step_receipt:
  assumes inv: "channel_inv lib w c"
  shows "channel_inv lib w (channel_step lib w (Receipt i receipt) c)"
proof (cases "\<exists>job. activity i c = Some (job, Sending)")
  case True
  then obtain job where act: "activity i c = Some (job, Sending)" by blast
  have "activity_ok lib w (cs_effects c) (cs_store c) job (receipt_phase job receipt)" "receipt_phase job receipt \<noteq> Ready"
    using active_ok [OF inv act]
    by (auto simp: receipt_phase_def activity_ok_def outcome_dict_def failing_def split: option.split)
  from quiet_move [OF inv act this(2,1)] show ?thesis by (simp add: act)
qed (use inv in \<open>auto split: option.split phase.split\<close>)

lemma step_return:
  assumes inv: "channel_inv lib w c"
  shows "channel_inv lib w (channel_step lib w (Return i) c)"
proof (cases "\<exists>job v. activity i c = Some (job, Returning v)")
  case True
  then obtain job v where act: "activity i c = Some (job, Returning v)" by blast
  have "activity_ok lib w (cs_effects c) (cs_store c) job (Ending ''completed'' v None)"
    using active_ok [OF inv act] by (auto simp: activity_ok_def)
  from quiet_move [OF inv act _ this] show ?thesis by (simp add: act)
qed (use inv in \<open>auto split: option.split phase.split\<close>)

lemma step_finish:
  assumes inv: "channel_inv lib w c"
  shows "channel_inv lib w (channel_step lib w (Finish_Job i now) c)"
proof (cases "\<exists>job st v fc. activity i c = Some (job, Ending st v fc)")
  case True
  then obtain job st v fc where act: "activity i c = Some (job, Ending st v fc)" by blast
  let ?op = "Finish (cw_scope w) (t_job_id job) (job_token job) now st v fc None"
  have "may_do lib w (cs_effects c) ?op (cs_store c)"
    using active_ok [OF inv act] by (auto simp: may_do_def submitted_def activity_ok_def)
  from channel_inv_drop [OF channel_inv_store [OF inv this]] show ?thesis by (simp add: act)
qed (use inv in \<open>auto split: option.split phase.split\<close>)

lemma step_interrupt:
  assumes inv: "channel_inv lib w c"
  shows "channel_inv lib w (channel_step lib w (Interrupt i) c)"
proof (cases "activity i c")
  case (Some x)
  then show ?thesis using fail_move [OF inv, of i "fst x" "snd x"] inv
    by (cases x; cases "snd x") auto
qed (use inv in simp)

lemma channel_step_inv:
  assumes inv: "channel_inv lib w c" and op: "outside w op"
  shows "channel_inv lib w (channel_step lib w op c)"
proof (cases op)
  case (Environment store_op)
  have "may_do lib w (cs_effects c) store_op (cs_store c)"
    using op Environment by (auto simp: outside_def may_do_def split: option.splits)
  then show ?thesis using channel_inv_store [OF inv] Environment by simp
next
  case (Lost i)
  then show ?thesis using channel_inv_drop [OF inv] by simp
qed (use inv in \<open>simp_all add: step_claim step_admit step_perform step_answer step_renew step_queue step_receipt step_return
       step_interrupt step_finish del: channel_step.simps(1,3-10)\<close>)

interpretation channel: guarded_store idle_channel "channel_step lib w" "outside w" "channel_inv lib w"
  by unfold_locales (auto intro: channel_inv_idle channel_step_inv)

section \<open>What users see\<close>

abbreviation channel_run :: "pylib \<Rightarrow> channel_worker \<Rightarrow> channel_op list \<Rightarrow> channel_state" where
  "channel_run lib w ops \<equiv> fold (channel_step lib w) ops idle_channel"

definition invokes_event :: "string \<Rightarrow> string \<Rightarrow> string \<Rightarrow> effect \<Rightarrow> bool" where
  "invokes_event platform installation_id provider_event_id ef = (case ef of
     Invoked j e session actor \<Rightarrow> ce_platform e = platform \<and> ce_installation_id e = installation_id \<and> ce_provider_event_id e = provider_event_id
   | _ \<Rightarrow> False)"

definition sends_reply :: "string \<Rightarrow> effect \<Rightarrow> bool" where
  "sends_reply reply_id ef = (case ef of Sent j r \<Rightarrow> cr_reply_id r = reply_id | _ \<Rightarrow> False)"

lemma filter_within: "\<forall>x\<in>set xs. P x \<longrightarrow> Q x \<Longrightarrow> length (filter P xs) \<le> length (filter Q xs)"
  by (induction xs) auto

lemma starts_le_1: "channel_inv lib w c \<Longrightarrow> starts j (cs_effects c) \<le> 1"
  using attempts_le_1 [of lib w "cs_effects c" "cs_store c" j] by (force simp: channel_inv_def dest: spec [of _ j])

lemma effect_at: "channel_inv lib w c \<Longrightarrow> ef \<in> set (cs_effects c) \<Longrightarrow> \<exists>before. effect_ok lib w before ef \<and> set before \<subseteq> set (cs_effects c)"
  unfolding channel_inv_def effects_ok_def by (metis in_set_conv_nth set_take_subset)

text \<open>Two workers, an event, and a run in which the event is delivered twice and its reply is sent.\<close>

definition sample_worker :: channel_worker where
  "sample_worker = \<lparr>cw_scope = ''channel:1'', cw_platform = ''slack'', cw_allowed_installations = [''T''], cw_allowed_conversations = [''C''],
     cw_allowed_senders = [''U''], cw_allowed_kinds = [''app_mention''], cw_timeout = Fin 120, cw_not_before = Fin 0\<rparr>"

definition sample_event :: channel_event where
  "sample_event = \<lparr>ce_platform = ''slack'', ce_installation_id = ''T'', ce_provider_event_id = ''E'', ce_kind = ''app_mention'',
     ce_sender_id = ''U'', ce_conversation_id = ''C'', ce_message_id = ''M'', ce_occurred_at = Fin 5, ce_delivery_id = [],
     ce_thread_id = None, ce_content = ''hello'', ce_reply_to = PyDict []\<rparr>"

definition sample_ops :: "channel_op list" where
  "sample_ops = [Admit sample_event, Admit (sample_event\<lparr>ce_delivery_id := ''again''\<rparr>), Claim_Queue (\<lambda>_. ''k'') ''channel.inbox'' (Fin 10),
     Perform 0, Answer 0 (Some ''hi''), Renew_Lease 0 (Fin 20), Queue_Reply 0, Return 0, Finish_Job 0 (Fin 21),
     Claim_Queue (\<lambda>_. ''l'') ''channel.inbox'' (Fin 900), Claim_Queue (\<lambda>_. ''m'') ''channel.outbox'' (Fin 900), Perform 0]"

lemma sample_ops_outside: "list_all (outside sample_worker) sample_ops"
  by (simp add: sample_ops_def outside_def)

text \<open>
  C10. One message, one model run and one reply: whatever crashes, timeouts, redeliveries, lease
  expiries and operations of others happen in between, \<^verbatim>\<open>invoke\<close> is called at most once for a
  provider event and \<^verbatim>\<open>send\<close> at most once for a reply.
\<close>

theorem channel_acts_at_most_once:
  assumes others: "list_all (outside w) ops"
  shows "length (filter (invokes_event p i ev) (cs_effects (channel_run lib w ops))) \<le> 1 \<and>
    length (filter (sends_reply rid) (cs_effects (channel_run lib w ops))) \<le> 1"
proof
  let ?c = "channel_run lib w ops"
  let ?j = "channel_identity lib [cw_scope w, p, i, ev]"
  have inv: "channel_inv lib w ?c" by (rule channel.inv_run [OF others])
  have "length (filter (invokes_event p i ev) (cs_effects ?c)) \<le> starts ?j (cs_effects ?c)"
    unfolding starts_def using effect_at [OF inv]
    by (intro filter_within) (fastforce simp: invokes_event_def effect_ok_def invoked_for_def event_identity_def split: effect.splits)
  then show "length (filter (invokes_event p i ev) (cs_effects ?c)) \<le> 1"
    using starts_le_1 [OF inv, of ?j] by simp
  have "length (filter (sends_reply rid) (cs_effects ?c)) \<le> starts (''reply:'' @ rid) (cs_effects ?c)"
    unfolding starts_def using effect_at [OF inv]
    by (intro filter_within) (fastforce simp: sends_reply_def effect_ok_def reply_for_def split: effect.splits)
  then show "length (filter (sends_reply rid) (cs_effects ?c)) \<le> 1"
    using starts_le_1 [OF inv, of "''reply:'' @ rid"] by simp
qed

lemma sample_effects: "(let effs = cs_effects (channel_run sample_lib sample_worker sample_ops) in
   length (filter (invokes_event ''slack'' ''T'' ''E'') effs) = 1 \<and> effs \<noteq> [] \<and>
   (case last effs of Sent j r \<Rightarrow> cr_content r = ''hi'' | _ \<Rightarrow> False)) = True"
  by code_simp

lemma channel_acts_at_most_once_witness:
  "length (filter (invokes_event ''slack'' ''T'' ''E'') (cs_effects (channel_run sample_lib sample_worker sample_ops))) = 1 \<and>
   length (filter (sends_reply []) (cs_effects (channel_run sample_lib sample_worker sample_ops))) \<le> 1"
  using channel_acts_at_most_once [OF sample_ops_outside, of "''slack''" "''T''" "''E''" sample_lib "[]"] sample_effects
  by (simp only: Let_def) blast

text \<open>
  Every reply that is sent was computed: before it, \<^verbatim>\<open>invoke\<close> ran for an event the policy
  accepts, in the session and for the actor of that event, and answered the text that is sent,
  to the conversation and thread of that event. An inbox job that is recorded as answered has
  its reply queued in the store.
\<close>

theorem channel_replies_are_answers:
  assumes others: "list_all (outside w) ops"
  shows "(\<forall>before j r after. cs_effects (channel_run lib w ops) = before @ Sent j r # after \<longrightarrow>
      (\<exists>e t. accepts w e \<and> r = reply_for (event_identity lib w e) e t \<and>
         Invoked (event_identity lib w e) e (event_session lib w e) (event_actor lib w e) \<in> set before \<and>
         Answered (event_identity lib w e) t \<in> set before)) \<and>
    (\<forall>j q. task_at (cs_store (channel_run lib w ops)) (cw_scope w, j) = Some q \<and> t_status q = ''completed'' \<and>
         t_result q = outcome_dict ''reply_queued'' [] \<longrightarrow>
       task_at (cs_store (channel_run lib w ops)) (cw_scope w, ''reply:'' @ j) \<noteq> None)"
proof (intro conjI allI impI)
  let ?c = "channel_run lib w ops"
  have inv: "channel_inv lib w ?c" by (rule channel.inv_run [OF others])
  fix before j r after
  assume "cs_effects ?c = before @ Sent j r # after"
  then have "effect_ok lib w before (Sent j r)"
    using inv by (auto simp: channel_inv_def effects_ok_def dest!: spec [of _ "length before"])
  then show "\<exists>e t. accepts w e \<and> r = reply_for (event_identity lib w e) e t \<and>
         Invoked (event_identity lib w e) e (event_session lib w e) (event_actor lib w e) \<in> set before \<and>
         Answered (event_identity lib w e) t \<in> set before"
    by (auto simp: effect_ok_def backed_def invoked_for_def)
next
  let ?c = "channel_run lib w ops"
  have inv: "channel_inv lib w ?c" by (rule channel.inv_run [OF others])
  fix j q
  assume "task_at (cs_store ?c) (cw_scope w, j) = Some q \<and> t_status q = ''completed'' \<and> t_result q = outcome_dict ''reply_queued'' []"
  then show "task_at (cs_store ?c) (cw_scope w, ''reply:'' @ j) \<noteq> None"
    using inv by (auto simp: channel_inv_def jobs_inv_def reply_stored_def)
qed

lemma channel_replies_are_answers_witness:
  "\<exists>r e t. Sent (''reply:'' @ cr_reply_id r) r \<in> set (cs_effects (channel_run sample_lib sample_worker sample_ops)) \<and>
     cr_content r = ''hi'' \<and> accepts sample_worker e \<and> r = reply_for (event_identity sample_lib sample_worker e) e t"
proof -
  let ?effs = "cs_effects (channel_run sample_lib sample_worker sample_ops)"
  from sample_effects obtain j r where last: "?effs \<noteq> []" "last ?effs = Sent j r" "cr_content r = ''hi''"
    by (simp only: Let_def) (auto split: effect.splits)
  then have "?effs = butlast ?effs @ Sent j r # []" by (metis append_butlast_last_id)
  with channel_replies_are_answers [OF sample_ops_outside, of sample_lib] obtain e t
    where "accepts sample_worker e" "r = reply_for (event_identity sample_lib sample_worker e) e t" by blast
  moreover have "Sent j r \<in> set ?effs" using last by (metis last_in_set)
  moreover have "j = ''reply:'' @ cr_reply_id r"
    using effect_at [OF channel.inv_run [OF sample_ops_outside] \<open>Sent j r \<in> set ?effs\<close>]
    by (auto simp: effect_ok_def reply_for_def)
  ultimately show ?thesis using last(3) by blast
qed

end
