(* ===== verification/Channel_Store.thy ===== *)
theory Channel_Store
  imports Channel_Worker
begin

text \<open>
  \<^verbatim>\<open>channel_store_memory.py\<close>: the in-process provider of the channel contract. Each method runs
  under the store's lock: one function from the state to a result and the next state.
\<close>

record channel_store =
  ch_events :: "((string \<times> string \<times> string) \<times> channel_event) list"
  ch_sessions :: "((string \<times> string \<times> string \<times> string) \<times> string) list"
  ch_replies :: "(string \<times> channel_reply) list"

definition empty_channel_store :: channel_store where
  "empty_channel_store = \<lparr>ch_events = [], ch_sessions = [], ch_replies = []\<rparr>"

definition event_key :: "channel_event \<Rightarrow> string \<times> string \<times> string" where
  "event_key e = (ce_platform e, ce_installation_id e, ce_provider_event_id e)"

definition session_key :: "string \<Rightarrow> string \<Rightarrow> string \<Rightarrow> string option \<Rightarrow> string \<times> string \<times> string \<times> string" where
  "session_key platform installation_id conversation_id thread_id =
     (platform, installation_id, conversation_id, case thread_id of None \<Rightarrow> [] | Some t \<Rightarrow> t)"

text \<open>Equality of two events: every field, the reply address as a dictionary.\<close>

definition event_eq :: "channel_event \<Rightarrow> channel_event \<Rightarrow> bool" where
  "event_eq a b \<longleftrightarrow> a\<lparr>ce_reply_to := PyNone\<rparr> = b\<lparr>ce_reply_to := PyNone\<rparr> \<and> py_eq (ce_reply_to a) (ce_reply_to b)"

definition admit_event :: "channel_event \<Rightarrow> channel_store \<Rightarrow> (channel_store, channel_event \<times> bool) outcome" where
  "admit_event event s = (case map_of (ch_events s) (event_key event) of
     Some existing \<Rightarrow>
       if \<not> event_eq existing event
       then (Inl (ChannelStoreConflictError ''channel event identity has a different definition''), s)
       else (Inr (existing, False), s)
   | None \<Rightarrow> (Inr (event, True), s\<lparr>ch_events := AList.update (event_key event) event (ch_events s)\<rparr>))"

definition get_event :: "string \<Rightarrow> string \<Rightarrow> string \<Rightarrow> channel_store \<Rightarrow> channel_event option" where
  "get_event platform installation_id provider_event_id s = map_of (ch_events s) (platform, installation_id, provider_event_id)"

definition bind_session :: "string \<Rightarrow> string \<Rightarrow> string \<Rightarrow> string option \<Rightarrow> string \<Rightarrow> channel_store \<Rightarrow> channel_store" where
  "bind_session platform installation_id conversation_id thread_id session_id s =
     (let key = session_key platform installation_id conversation_id thread_id in
      case map_of (ch_sessions s) key of Some _ \<Rightarrow> s
      | None \<Rightarrow> s\<lparr>ch_sessions := AList.update key session_id (ch_sessions s)\<rparr>)"

definition get_session_binding :: "string \<Rightarrow> string \<Rightarrow> string \<Rightarrow> string option \<Rightarrow> channel_store \<Rightarrow> string option" where
  "get_session_binding platform installation_id conversation_id thread_id s =
     map_of (ch_sessions s) (session_key platform installation_id conversation_id thread_id)"

definition enqueue_reply :: "channel_reply \<Rightarrow> channel_store \<Rightarrow> channel_reply \<times> channel_store" where
  "enqueue_reply reply s = (reply, s\<lparr>ch_replies := AList.update (cr_reply_id reply) reply (ch_replies s)\<rparr>)"

definition check_reply_limit :: "int \<Rightarrow> exc option" where
  "check_reply_limit limit = (if 1 \<le> limit \<and> limit \<le> 1000 then None
     else Some (ValueError ''limit must be an integer from 1 to 1000''))"

definition claim_replies :: "string \<Rightarrow> string \<Rightarrow> int \<Rightarrow> channel_store \<Rightarrow> (channel_store, channel_reply list) outcome" where
  "claim_replies platform installation_id limit s = (case check_reply_limit limit of Some e \<Rightarrow> (Inl e, s)
     | None \<Rightarrow> (Inr (page (\<lambda>r. (cr_created_at r, cr_reply_id r))
         (\<lambda>r. cr_platform r = platform \<and> cr_installation_id r = installation_id \<and> cr_status r = ''pending'')
         limit (map snd (ch_replies s))), s))"

definition check_reply_status :: "string \<Rightarrow> exc option" where
  "check_reply_status status = (if status \<in> {''sent'', ''failed'', ''delivery_unknown''} then None
     else Some (ValueError ''finish status must be sent, failed, or delivery_unknown''))"

definition finish_reply :: "string \<Rightarrow> string \<Rightarrow> pyval \<Rightarrow> channel_store \<Rightarrow> (channel_store, bool) outcome" where
  "finish_reply reply_id status receipt s = (case check_reply_status status of Some e \<Rightarrow> (Inl e, s)
     | None \<Rightarrow> (case map_of (ch_replies s) reply_id of None \<Rightarrow> (Inr False, s)
         | Some reply \<Rightarrow> (Inr True, s\<lparr>ch_replies := AList.update reply_id (reply\<lparr>cr_status := status, cr_receipt := receipt\<rparr>) (ch_replies s)\<rparr>)))"


section \<open>Runs\<close>

datatype channel_store_op =
    Op_Admit channel_event
  | Op_Bind string string string "string option" string
  | Op_Enqueue channel_reply
  | Op_Claim string string int
  | Op_Finish string string pyval

fun channel_store_step :: "channel_store_op \<Rightarrow> channel_store \<Rightarrow> channel_store" where
  "channel_store_step (Op_Admit e) s = snd (admit_event e s)"
| "channel_store_step (Op_Bind p i c t sid) s = bind_session p i c t sid s"
| "channel_store_step (Op_Enqueue r) s = snd (enqueue_reply r s)"
| "channel_store_step (Op_Claim p i n) s = snd (claim_replies p i n s)"
| "channel_store_step (Op_Finish j st rc) s = snd (finish_reply j st rc s)"

text \<open>What was admitted or bound first stays; a reply is where its identifier says.\<close>

definition channel_store_inv :: "channel_store \<Rightarrow> bool" where
  "channel_store_inv s \<longleftrightarrow> dict_ok (ch_events s) \<and> dict_ok (ch_sessions s) \<and> dict_ok (ch_replies s) \<and>
     (\<forall>k e. map_of (ch_events s) k = Some e \<longrightarrow> event_key e = k) \<and> (\<forall>k r. map_of (ch_replies s) k = Some r \<longrightarrow> cr_reply_id r = k)"

lemma channel_store_step_inv: "channel_store_inv s \<Longrightarrow> channel_store_inv (channel_store_step op s)"
  by (cases op) (auto simp: channel_store_inv_def admit_event_def bind_session_def enqueue_reply_def claim_replies_def
      finish_reply_def Let_def split: option.split)

lemma channel_store_inv_empty: "channel_store_inv empty_channel_store"
  by (simp add: channel_store_inv_def empty_channel_store_def)

interpretation channel_store: guarded_store empty_channel_store channel_store_step "\<lambda>_. True" channel_store_inv
  by unfold_locales (rule channel_store_inv_empty, rule channel_store_step_inv)

lemma admitted_stays: "map_of (ch_events s) k = Some e \<Longrightarrow> map_of (ch_events (fold channel_store_step ops s)) k = Some e"
proof (induction ops arbitrary: s)
  case (Cons op ops)
  then have "map_of (ch_events (channel_store_step op s)) k = Some e"
    by (cases op) (auto simp: admit_event_def bind_session_def enqueue_reply_def claim_replies_def finish_reply_def Let_def
        split: option.split)
  from Cons.IH [OF this] show ?case by simp
qed simp

lemma binding_stays: "map_of (ch_sessions s) k = Some sid \<Longrightarrow> map_of (ch_sessions (fold channel_store_step ops s)) k = Some sid"
proof (induction ops arbitrary: s)
  case (Cons op ops)
  then have "map_of (ch_sessions (channel_store_step op s)) k = Some sid"
    by (cases op) (auto simp: admit_event_def bind_session_def enqueue_reply_def claim_replies_def finish_reply_def Let_def
        split: option.split)
  from Cons.IH [OF this] show ?case by simp
qed simp

text \<open>An event is admitted once: whatever happens in between, the same delivery again is told so and another one is refused.\<close>

lemma event_admitted_once:
  assumes "map_of (ch_events s) (event_key e) = Some e" "event_key e' = event_key e"
  shows "fst (admit_event e' (fold channel_store_step ops s)) =
    (if event_eq e e' then Inr (e, False) else Inl (ChannelStoreConflictError ''channel event identity has a different definition''))"
  using admitted_stays [OF assms(1)] assms(2) by (simp add: admit_event_def)

text \<open>A claim marks nothing: a second sender is given the same replies.\<close>

lemma claim_replies_not_fenced: "snd (claim_replies p i n s) = s"
  "fst (claim_replies p i n (snd (claim_replies p i n s))) = fst (claim_replies p i n s)"
  by (simp_all add: claim_replies_def split: option.split)

lemma claim_replies_pending:
  assumes "fst (claim_replies p i n s) = Inr rs" "r \<in> set rs"
  shows "cr_platform r = p \<and> cr_installation_id r = i \<and> cr_status r = ''pending'' \<and> r \<in> set (map snd (ch_replies s))"
  using assms by (auto simp: claim_replies_def split: option.splits dest!: set_page)

text \<open>Once finished, a reply is not claimed again unless it is enqueued again.\<close>

lemma finished_not_claimed:
  assumes inv: "channel_store_inv s" and fin: "finish_reply j st rc s = (Inr True, s')"
    and claim: "fst (claim_replies p i n s') = Inr rs"
  shows "j \<notin> cr_reply_id ` set rs"
proof
  assume "j \<in> cr_reply_id ` set rs"
  then obtain r where r: "r \<in> set rs" "cr_reply_id r = j" by auto
  have inv': "channel_store_inv s'" using channel_store_step_inv [OF inv, of "Op_Finish j st rc"] fin by simp
  from claim_replies_pending [OF claim r(1)] have p: "cr_status r = ''pending''" "r \<in> set (map snd (ch_replies s'))" by auto
  then obtain k where "map_of (ch_replies s') k = Some r"
    using dict_values_iff [of "ch_replies s'"] inv' by (auto simp: channel_store_inv_def)
  with inv' r(2) have "map_of (ch_replies s') j = Some r" by (auto simp: channel_store_inv_def)
  then show False using fin p(1)
    by (auto simp: finish_reply_def check_reply_status_def split: option.splits if_splits)
qed

end
