(* ===== verification/Session_Store.thy ===== *)
theory Session_Store
  imports Json_Value
begin

text \<open>
  \<^verbatim>\<open>session.py\<close>: the in-process session store with one \<^verbatim>\<open>asyncio.Lock\<close> per session. A stored
  session is an object of a heap, because a call keeps the object it looked up while it waits
  for its lock: \<open>se_index\<close> is the dictionary \<^verbatim>\<open>_sessions\<close>, \<open>se_objects\<close> the heap, \<open>se_locks\<close> the
  task that holds each lock, \<open>se_waiting\<close> the calls that wait for one. Which waiting call gets
  a free lock is not determined, which includes the order asyncio gives. The store's own lock is
  never held across an \<^verbatim>\<open>await\<close>, so it needs no state.
\<close>

section \<open>State\<close>

record stored_session =
  sv_user_id :: string
  sv_state :: "(pyval \<times> pyval) list"
  sv_application_data :: "(pyval \<times> pyval) list"
  sv_created_at :: string
  sv_updated_at :: string

record session_record =
  sr_id :: string
  sr_user_id :: string
  sr_state :: pyval
  sr_application_data :: pyval
  sr_created_at :: string
  sr_updated_at :: string

datatype session_call =
    Get_Session
  | Update_Session "(pyval \<times> pyval) list"
  | Delete_Session
  | Acquire_Session

record session_store =
  se_index :: "((string \<times> string) \<times> nat) list"
  se_objects :: "(nat \<times> stored_session) list"
  se_locks :: "(nat \<times> nat) list"
  se_waiting :: "(nat \<times> ((string \<times> string) \<times> nat \<times> session_call)) list"
  se_next :: nat

definition empty_session_store :: session_store where
  "empty_session_store = \<lparr>se_index = [], se_objects = [], se_locks = [], se_waiting = [], se_next = 0\<rparr>"

abbreviation session_at :: "session_store \<Rightarrow> nat \<Rightarrow> stored_session option" where
  "session_at s i \<equiv> map_of (se_objects s) i"

abbreviation put_session :: "nat \<Rightarrow> stored_session \<Rightarrow> session_store \<Rightarrow> session_store" where
  "put_session i v s \<equiv> s\<lparr>se_objects := AList.update i v (se_objects s)\<rparr>"

definition require_session_text :: "string \<Rightarrow> string \<Rightarrow> exc option" where
  "require_session_text value name = (if blank value then Some (ValueError (name @ '' must be a non-empty string'')) else None)"

definition require_list_options :: "string option \<Rightarrow> int option \<Rightarrow> exc option" where
  "require_list_options after limit =
     (case (case after of None \<Rightarrow> None | Some a \<Rightarrow> require_session_text a ''after'') of Some e \<Rightarrow> Some e
      | None \<Rightarrow> (case limit of None \<Rightarrow> None
          | Some n \<Rightarrow> if n < 1 then Some (ValueError ''limit must be a positive integer'') else None))"

text \<open>\<^verbatim>\<open>_record\<close>: a serialized snapshot, or the bare dictionaries for the holder of a lease.\<close>

definition session_snapshot :: "string \<Rightarrow> stored_session \<Rightarrow> exc + session_record" where
  "session_snapshot sid v = (case json_value (PyDict (sv_state v)) of Inl e \<Rightarrow> Inl e
     | Inr st \<Rightarrow> (case json_value (PyDict (sv_application_data v)) of Inl e \<Rightarrow> Inl e
        | Inr app \<Rightarrow> Inr \<lparr>sr_id = sid, sr_user_id = sv_user_id v, sr_state = st, sr_application_data = app,
            sr_created_at = sv_created_at v, sr_updated_at = sv_updated_at v\<rparr>))"

definition lease_snapshot :: "string \<Rightarrow> stored_session \<Rightarrow> session_record" where
  "lease_snapshot sid v = \<lparr>sr_id = sid, sr_user_id = sv_user_id v, sr_state = PyDict (sv_state v),
     sr_application_data = PyDict (sv_application_data v), sr_created_at = sv_created_at v, sr_updated_at = sv_updated_at v\<rparr>"


section \<open>Operations\<close>

definition create_session :: "string \<Rightarrow> string \<Rightarrow> (pyval \<times> pyval) list \<Rightarrow> string \<Rightarrow> string \<Rightarrow> session_store
    \<Rightarrow> (session_store, session_record) outcome" where
  "create_session sid uid state created updated s =
     (case require_session_text sid ''session_id'' of Some e \<Rightarrow> (Inl e, s)
      | None \<Rightarrow> (case require_session_text uid ''user_id'' of Some e \<Rightarrow> (Inl e, s)
        | None \<Rightarrow> if map_of (se_index s) (uid, sid) \<noteq> None
            then (Inl (SessionConflictError ''session already exists''), s)
            else (let v = \<lparr>sv_user_id = uid, sv_state = state, sv_application_data = [], sv_created_at = created, sv_updated_at = updated\<rparr>
                  in (session_snapshot sid v, s\<lparr>se_index := AList.update (uid, sid) (se_next s) (se_index s),
                        se_objects := AList.update (se_next s) v (se_objects s), se_next := Suc (se_next s)\<rparr>))))"

text \<open>What a call of a task ends with.\<close>

datatype session_result =
    Found session_record
  | Missing
  | Deleted bool
  | Leased
  | Failed exc

fun missing_result :: "session_call \<Rightarrow> session_result" where
  "missing_result Delete_Session = Deleted False"
| "missing_result Acquire_Session = Failed (KeyError ''session not found'')"
| "missing_result _ = Missing"

text \<open>The lookup before the lock: an unknown session ends the call, another one makes it wait.\<close>

definition call_session :: "nat \<Rightarrow> string \<Rightarrow> string \<Rightarrow> session_call \<Rightarrow> session_store \<Rightarrow> session_result option \<times> session_store" where
  "call_session task sid uid call s = (case map_of (se_index s) (uid, sid) of
     None \<Rightarrow> (Some (missing_result call), s)
   | Some i \<Rightarrow> (None, s\<lparr>se_waiting := AList.update task ((uid, sid), i, call) (se_waiting s)\<rparr>))"

definition update_state :: "(pyval \<times> pyval) list \<Rightarrow> string \<Rightarrow> stored_session \<Rightarrow> stored_session" where
  "update_state delta now v = v\<lparr>sv_state := fold (\<lambda>(k, x). AList.update k x) delta (sv_state v), sv_updated_at := now\<rparr>"

definition found_result :: "exc + session_record \<Rightarrow> session_result" where
  "found_result r = (case r of Inl e \<Rightarrow> Failed e | Inr x \<Rightarrow> Found x)"

text \<open>The body under the lock of the object, which no other task holds.\<close>

definition serve_locked :: "nat \<Rightarrow> string \<times> string \<Rightarrow> nat \<Rightarrow> stored_session \<Rightarrow> session_call \<Rightarrow> string \<Rightarrow> session_store
    \<Rightarrow> session_result \<times> session_store" where
  "serve_locked task key i v call now s = (case call of
     Get_Session \<Rightarrow> (found_result (session_snapshot (snd key) v), s)
   | Update_Session delta \<Rightarrow> (let v' = update_state delta now v in (found_result (session_snapshot (snd key) v'), put_session i v' s))
   | Delete_Session \<Rightarrow> if map_of (se_index s) key \<noteq> Some i then (Deleted False, s)
       else (Deleted True, s\<lparr>se_index := AList.delete key (se_index s)\<rparr>)
   | Acquire_Session \<Rightarrow> (Leased, s\<lparr>se_locks := AList.update i task (se_locks s)\<rparr>))"

definition serve_session :: "nat \<Rightarrow> string \<Rightarrow> session_store \<Rightarrow> session_result option \<times> session_store" where
  "serve_session task now s = (case map_of (se_waiting s) task of None \<Rightarrow> (None, s)
     | Some (key, i, call) \<Rightarrow> (case map_of (se_locks s) i of Some _ \<Rightarrow> (None, s)
        | None \<Rightarrow> (case session_at s i of None \<Rightarrow> (None, s)
           | Some v \<Rightarrow> (case serve_locked task key i v call now (s\<lparr>se_waiting := AList.delete task (se_waiting s)\<rparr>) of
               (r, s') \<Rightarrow> (Some r, s')))))"

text \<open>The operations of a lease, by the task that holds it.\<close>

datatype lease_op =
    Patch_State "(pyval \<times> pyval) list"
  | Replace_State "(pyval \<times> pyval) list"
  | Replace_Application_Data "(pyval \<times> pyval) list"

definition lease_write :: "lease_op \<Rightarrow> string \<Rightarrow> stored_session \<Rightarrow> exc + stored_session" where
  "lease_write op now v = (case op of
     Patch_State delta \<Rightarrow> Inr (update_state delta now v)
   | Replace_State st \<Rightarrow> Inr (v\<lparr>sv_state := st, sv_updated_at := now\<rparr>)
   | Replace_Application_Data d \<Rightarrow> (case json_value (PyDict d) of Inl e \<Rightarrow> Inl e
       | Inr (PyDict app) \<Rightarrow> Inr (v\<lparr>sv_application_data := app, sv_updated_at := now\<rparr>)
       | Inr _ \<Rightarrow> Inr v))"

definition use_lease :: "nat \<Rightarrow> nat \<Rightarrow> string \<Rightarrow> lease_op \<Rightarrow> string \<Rightarrow> session_store \<Rightarrow> (session_store, session_record option) outcome" where
  "use_lease task i sid op now s =
     (if map_of (se_locks s) i \<noteq> Some task then (Inr None, s)
      else (case session_at s i of None \<Rightarrow> (Inr None, s)
        | Some v \<Rightarrow> (case lease_write op now v of Inl e \<Rightarrow> (Inl e, s)
           | Inr v' \<Rightarrow> (Inr (Some (lease_snapshot sid v')), put_session i v' s))))"

definition release_lease :: "nat \<Rightarrow> nat \<Rightarrow> session_store \<Rightarrow> session_store" where
  "release_lease task i s = (if map_of (se_locks s) i = Some task then s\<lparr>se_locks := AList.delete i (se_locks s)\<rparr> else s)"

text \<open>A task that is cancelled while it waits leaves the queue.\<close>

definition abandon_call :: "nat \<Rightarrow> session_store \<Rightarrow> session_store" where
  "abandon_call task s = s\<lparr>se_waiting := AList.delete task (se_waiting s)\<rparr>"

definition close_sessions :: "session_store \<Rightarrow> session_store" where
  "close_sessions s = s\<lparr>se_index := []\<rparr>"

fun first_error :: "(exc + 'a) list \<Rightarrow> exc + 'a list" where
  "first_error [] = Inr []"
| "first_error (x # xs) = (case x of Inl e \<Rightarrow> Inl e
     | Inr a \<Rightarrow> (case first_error xs of Inl e \<Rightarrow> Inl e | Inr rest \<Rightarrow> Inr (a # rest)))"

definition session_rows :: "string \<Rightarrow> string option \<Rightarrow> int option \<Rightarrow> session_store \<Rightarrow> ((string \<times> string) \<times> nat) list" where
  "session_rows uid after limit s =
     (let pairs = sort_key (snd \<circ> fst) (filter (\<lambda>((owner, sid), i). owner = uid \<and> (case after of None \<Rightarrow> True | Some a \<Rightarrow> sid > a)) (se_index s))
      in case limit of None \<Rightarrow> pairs | Some n \<Rightarrow> take (nat n) pairs)"

definition list_sessions :: "string \<Rightarrow> string option \<Rightarrow> int option \<Rightarrow> session_store \<Rightarrow> exc + session_record list" where
  "list_sessions uid after limit s = (case require_session_text uid ''user_id'' of Some e \<Rightarrow> Inl e
     | None \<Rightarrow> (case require_list_options after limit of Some e \<Rightarrow> Inl e
       | None \<Rightarrow> first_error (List.map_filter (\<lambda>((owner, sid), i). map_option (session_snapshot sid) (session_at s i))
           (session_rows uid after limit s))))"


section \<open>Runs\<close>

datatype session_op =
    Create string string "(pyval \<times> pyval) list" string string
  | Call nat string string session_call
  | Serve nat string
  | Use_Lease nat nat string lease_op string
  | Release nat nat
  | Abandon nat
  | Close

fun session_step :: "session_op \<Rightarrow> session_store \<Rightarrow> session_store" where
  "session_step (Create sid uid st created updated) s = snd (create_session sid uid st created updated s)"
| "session_step (Call task sid uid call) s = snd (call_session task sid uid call s)"
| "session_step (Serve task now) s = snd (serve_session task now s)"
| "session_step (Use_Lease task i sid op now) s = snd (use_lease task i sid op now s)"
| "session_step (Release task i) s = release_lease task i s"
| "session_step (Abandon task) s = abandon_call task s"
| "session_step Close s = close_sessions s"

end
