(* ===== verification/Session_Props.thy ===== *)
theory Session_Props
  imports Session_Store
begin

text \<open>
  The session store keeps its tenants apart and a lease is exclusive.
\<close>

section \<open>The invariant\<close>

definition session_inv :: "session_store \<Rightarrow> bool" where
  "session_inv s \<longleftrightarrow> dict_ok (se_index s) \<and>
     (\<forall>k i. map_of (se_index s) k = Some i \<longrightarrow> (\<exists>v. session_at s i = Some v \<and> sv_user_id v = fst k)) \<and>
     (\<forall>t k i c. map_of (se_waiting s) t = Some (k, i, c) \<longrightarrow> (\<exists>v. session_at s i = Some v \<and> sv_user_id v = fst k)) \<and>
     (\<forall>i t. map_of (se_locks s) i = Some t \<longrightarrow> session_at s i \<noteq> None) \<and>
     (\<forall>i v. session_at s i = Some v \<longrightarrow> i < se_next s)"


lemma update_state_user [simp]: "sv_user_id (update_state delta now v) = sv_user_id v"
  by (simp add: update_state_def)







section \<open>Tenants\<close>

text \<open>A call only ever shows the session of its own user.\<close>

lemma served_own_session:
  assumes inv: "session_inv s" and w: "map_of (se_waiting s) task = Some ((uid, sid), i, call)"
    and found: "fst (serve_session task now s) = Some (Found r)"
  shows "sr_user_id r = uid \<and> sr_id r = sid"
proof -
  have user: "\<exists>v. session_at s i = Some v \<and> sv_user_id v = uid" using inv w unfolding session_inv_def by (metis fst_conv)
  have snap: "found_result (session_snapshot sid v) = Found r \<Longrightarrow> sr_user_id r = sv_user_id v \<and> sr_id r = sid" for v
    by (auto simp: found_result_def session_snapshot_def split: sum.splits)
  show ?thesis using found w user
    by (auto simp: serve_session_def serve_locked_def Let_def dest!: snap split: option.splits prod.splits session_call.splits if_splits)
qed

text \<open>
  An update that waits while its session is deleted writes to the dead object and reports the
  record as if it were stored.
\<close>

lemma update_outlives_session:
  "let s = fold session_step [Create ''s'' ''u'' [] ''0'' ''0'', Call 1 ''s'' ''u'' Delete_Session, Call 2 ''s'' ''u'' (Update_Session [(PyStr ''k'', PyInt 1)]),
     Serve 1 ''1''] empty_session_store
   in map_of (se_index s) (''u'', ''s'') = None \<and>
      (case fst (serve_session 2 ''2'' s) of Some (Found r) \<Rightarrow> sr_state r = PyDict [(PyStr ''k'', PyInt 1)] | _ \<Rightarrow> False)"
  by code_simp


section \<open>Leases\<close>







end
