(* ===== verification/Client_Tools.thy ===== *)
theory Client_Tools
  imports Transient_Props
begin

text \<open>
  \<^verbatim>\<open>client_tool.py\<close>: calls that suspend an invocation until the connected client answers. A
  pending call is an object shared by the store, the suspended coroutine and the submission in
  flight, so it lives in a heap (\<open>ct_objects\<close>); \<open>ct_items\<close> holds the keys of the dictionary
  \<^verbatim>\<open>_items\<close>. A submission is two steps, because validation awaits: it reserves the call, and
  later prepares and commits its output in one step. What validation of the output gives is an
  argument of that step, as is the answer of the run's resume authority. Durable asset storage
  is not modelled.
\<close>

section \<open>State\<close>

text \<open>What a future delivers: a plain value, a value with its leases, or a private cell.\<close>

datatype delivery =
    Plain pyval
  | Staged pyval "string list"
  | Private "pyval option"

datatype ct_future = Waiting | Result delivery | Error exc | Cancelled

record client_call =
  ct_user_id :: string
  ct_session_id :: string
  ct_call_id :: string
  ct_name :: string
  ct_arguments :: pyval
  ct_has_schema :: bool
  ct_expires_at :: rat
  ct_run :: string
  ct_future :: ct_future
  ct_submitting :: bool
  ct_private :: bool

record client_tools =
  ct_objects :: "(string \<times> client_call) list"
  ct_items :: "string list"
  ct_inflight :: "(nat \<times> string) list"
  ct_media :: media_store
  ct_cleanup :: "(string \<times> media_scope) list"

definition client_tools_of :: "media_store \<Rightarrow> client_tools" where
  "client_tools_of m = \<lparr>ct_objects = [], ct_items = [], ct_inflight = [], ct_media = m, ct_cleanup = []\<rparr>"

abbreviation call_at :: "client_tools \<Rightarrow> string \<Rightarrow> client_call option" where
  "call_at s k \<equiv> map_of (ct_objects s) k"

abbreviation put_call :: "string \<Rightarrow> client_call \<Rightarrow> client_tools \<Rightarrow> client_tools" where
  "put_call k c s \<equiv> s\<lparr>ct_objects := AList.update k c (ct_objects s)\<rparr>"

definition transient_scope :: "client_call \<Rightarrow> media_scope" where
  "transient_scope c = \<lparr>ms_user_id = ct_user_id c, ms_session_id = ct_session_id c, ms_call_id = ct_call_id c\<rparr>"


section \<open>Suspension\<close>

text \<open>\<open>k\<close> is the identifier \<^verbatim>\<open>uuid.uuid4()\<close> gives, fresh in the heap.\<close>

definition open_call :: "string \<Rightarrow> client_call \<Rightarrow> rat \<Rightarrow> int \<Rightarrow> client_tools \<Rightarrow> (client_tools, unit) outcome" where
  "open_call k request now timeout_seconds s =
     (if ct_private request \<and> \<not> ct_has_schema request then (Inl (ClientToolError ''private client input requires a schema''), s)
      else (Inr (), s\<lparr>ct_objects := AList.update k (request\<lparr>ct_expires_at := now + of_int timeout_seconds, ct_future := Waiting,
               ct_submitting := False\<rparr>) (ct_objects s), ct_items := ct_items s @ [k]\<rparr>))"

definition clear_private_delivery :: "client_call \<Rightarrow> client_call" where
  "clear_private_delivery c = (case ct_future c of Result (Private v) \<Rightarrow> if ct_private c then c\<lparr>ct_future := Result (Private None)\<rparr> else c
     | _ \<Rightarrow> c)"

text \<open>The \<^verbatim>\<open>finally\<close> of \<^verbatim>\<open>suspend\<close>.\<close>

definition close_call :: "string \<Rightarrow> client_tools \<Rightarrow> client_tools" where
  "close_call k s = (let s' = s\<lparr>ct_items := filter (\<lambda>j. j \<noteq> k) (ct_items s)\<rparr> in
     case call_at s' k of None \<Rightarrow> s' | Some c \<Rightarrow> put_call k (clear_private_delivery c) s')"

text \<open>The coroutine wakes up with a settled future; \<open>cancelling\<close>: its task was cancelled as well.\<close>

definition deliver_result :: "string \<Rightarrow> bool \<Rightarrow> client_tools \<Rightarrow> (client_tools, delivery) outcome option" where
  "deliver_result k cancelling s = (if k \<notin> set (ct_items s) then None
     else (case call_at s k of None \<Rightarrow> None
       | Some c \<Rightarrow> (case ct_future c of
           Waiting \<Rightarrow> None
         | Error e \<Rightarrow> Some (Inl e, close_call k s)
         | Cancelled \<Rightarrow> Some (Inl (CancelledError ''cancelled''), close_call k s)
         | Result d \<Rightarrow> if \<not> ct_private c then Some (Inr d, close_call k s)
             else if cancelling then Some (Inl (CancelledError ''cancelled''), close_call k s)
             else (case d of Private (Some v) \<Rightarrow> Some (Inr (Plain v), close_call k (put_call k (c\<lparr>ct_future := Result (Private None)\<rparr>) s))
               | _ \<Rightarrow> Some (Inl (ClientToolError ''private client input was already consumed''), close_call k s)))))"

text \<open>The timeout, and the cancellation of the waiting task, cancel the future.\<close>

definition give_up :: "string \<Rightarrow> exc \<Rightarrow> client_tools \<Rightarrow> (client_tools, delivery) outcome option" where
  "give_up k e s = (if k \<notin> set (ct_items s) then None
     else (case call_at s k of None \<Rightarrow> None
       | Some c \<Rightarrow> if ct_future c \<noteq> Waiting then None
           else Some (Inl e, close_call k (put_call k (c\<lparr>ct_future := Cancelled\<rparr>) s))))"


section \<open>Submission\<close>

definition reserve_submission :: "string \<Rightarrow> string \<Rightarrow> rat \<Rightarrow> client_tools \<Rightarrow> (client_tools, client_call) outcome" where
  "reserve_submission k user_id now s =
     (case (if k \<in> set (ct_items s) then call_at s k else None) of
        None \<Rightarrow> (Inl (KeyError ''client tool request not found''), s)
      | Some c \<Rightarrow>
          if ct_user_id c \<noteq> user_id then (Inl (KeyError ''client tool request not found''), s)
          else if now \<ge> ct_expires_at c then (Inl (ClientToolError ''client tool request is expired''), s)
          else if ct_future c \<noteq> Waiting \<or> ct_submitting c then (Inl (ClientToolError ''client tool result was already submitted''), s)
          else (Inr c, put_call k (c\<lparr>ct_submitting := True\<rparr>) s))"

definition release_submission :: "string \<Rightarrow> client_tools \<Rightarrow> client_tools" where
  "release_submission k s = (case call_at s k of None \<Rightarrow> s | Some c \<Rightarrow> put_call k (c\<lparr>ct_submitting := False\<rparr>) s)"

text \<open>
  \<^verbatim>\<open>submit\<close> up to the first await. \<open>authority\<close> is what the check of the resume authority raises;
  \<^verbatim>\<open>client_error\<close> is the translation of its exceptions.
\<close>

definition client_error :: "exc \<Rightarrow> exc" where
  "client_error e = (case e of ValueError m \<Rightarrow> ClientToolError m | PermissionError m \<Rightarrow> ClientToolError m
     | TransientMediaError m \<Rightarrow> ClientToolError m | _ \<Rightarrow> e)"

definition begin_submit :: "nat \<Rightarrow> string \<Rightarrow> string \<Rightarrow> rat \<Rightarrow> exc option \<Rightarrow> client_tools \<Rightarrow> (client_tools, unit) outcome" where
  "begin_submit n k user_id now authority s = (case reserve_submission k user_id now s of
     (Inl e, s') \<Rightarrow> (Inl e, s')
   | (Inr c, s') \<Rightarrow> (case authority of Some e \<Rightarrow> (Inl (client_error e), release_submission k s')
       | None \<Rightarrow> (Inr (), s'\<lparr>ct_inflight := AList.update n k (ct_inflight s')\<rparr>)))"

record media_item =
  mi_kind :: string
  mi_media_type :: string
  mi_data :: string
  mi_metadata :: pyval

text \<open>
  \<^verbatim>\<open>stage_transient_media_batch\<close> over the inline media of an output, in the order they are met:
  a failure gives back what was staged. \<open>None\<close>: the token loop does not end.
\<close>

fun stage_batch :: "(nat \<Rightarrow> string) \<Rightarrow> media_scope \<Rightarrow> media_item list \<Rightarrow> string list \<Rightarrow> media_store
    \<Rightarrow> (media_store, string list) outcome option" where
  "stage_batch token sc [] staged m = Some (Inr staged, m)"
| "stage_batch token sc (i # items) staged m =
     (case stage token sc (mi_kind i) (mi_media_type i) (mi_data i) (mi_metadata i) m of
        None \<Rightarrow> None
      | Some (Inl e, m') \<Rightarrow> Some (Inl e, commit_leases sc staged m')
      | Some (Inr l, m') \<Rightarrow> stage_batch token sc items (staged @ [l_lease_id l]) m')"

text \<open>
  What validating the output gives: an exception, or a value and the inline media found in it.
  The run's completion clears the scope when a batch was staged.
\<close>

definition prepared_output :: "(nat \<Rightarrow> string) \<Rightarrow> client_call \<Rightarrow> pyval \<Rightarrow> exc + (pyval \<times> media_item list) \<Rightarrow> client_tools
    \<Rightarrow> (client_tools, delivery) outcome option" where
  "prepared_output token c output validated s =
     (if ct_private c then (case validated of
          Inl e \<Rightarrow> Some (Inl (ClientToolError ''private client input does not match its declared schema''), s)
        | Inr (v, items) \<Rightarrow> Some (Inr (Private (Some v)), s))
      else if \<not> ct_has_schema c then Some (Inr (Plain output), s)
      else (case validated of Inl e \<Rightarrow> Some (Inl e, s)
        | Inr (v, items) \<Rightarrow> (case stage_batch token (transient_scope c) items [] (ct_media s) of
             None \<Rightarrow> None
           | Some (Inl e, m) \<Rightarrow> Some (Inl e, s\<lparr>ct_media := m\<rparr>)
           | Some (Inr ids, m) \<Rightarrow> Some (Inr (Staged v ids), s\<lparr>ct_media := m,
               ct_cleanup := (if transient_scope c \<in> snd ` set (ct_cleanup s) then ct_cleanup s
                              else ct_cleanup s @ [(ct_run c, transient_scope c)])\<rparr>))))"

definition drop_output :: "client_call \<Rightarrow> delivery \<Rightarrow> client_tools \<Rightarrow> client_tools" where
  "drop_output c d s = (case d of Staged v ids \<Rightarrow> s\<lparr>ct_media := commit_leases (transient_scope c) ids (ct_media s)\<rparr> | _ \<Rightarrow> s)"

definition commit_output :: "string \<Rightarrow> delivery \<Rightarrow> rat \<Rightarrow> exc option \<Rightarrow> client_tools \<Rightarrow> (client_tools, unit) outcome" where
  "commit_output k d now authority s = (case call_at s k of None \<Rightarrow> (Inl (KeyError k), s)
     | Some c \<Rightarrow>
         if ct_future c \<noteq> Waiting then (Inl (ClientToolError ''client tool result was already submitted''), drop_output c d s)
         else if now \<ge> ct_expires_at c then (Inl (ClientToolError ''client tool request is expired''), drop_output c d s)
         else (case authority of Some e \<Rightarrow> (Inl e, drop_output c d s)
           | None \<Rightarrow> (Inr (), put_call k (c\<lparr>ct_future := Result d, ct_submitting := False\<rparr>) s)))"

text \<open>The rest of \<^verbatim>\<open>submit\<close>: preparation and commit run without yielding.\<close>

definition complete_submit :: "nat \<Rightarrow> (nat \<Rightarrow> string) \<Rightarrow> pyval \<Rightarrow> exc + (pyval \<times> media_item list) \<Rightarrow> rat \<Rightarrow> exc option \<Rightarrow> client_tools
    \<Rightarrow> (client_tools, unit) outcome option" where
  "complete_submit n token output validated now authority s = (case map_of (ct_inflight s) n of None \<Rightarrow> None
     | Some k \<Rightarrow> (case call_at s k of None \<Rightarrow> None
        | Some c \<Rightarrow> (let s0 = s\<lparr>ct_inflight := AList.delete n (ct_inflight s)\<rparr> in
            case prepared_output token c output validated s0 of None \<Rightarrow> None
            | Some (Inl e, s1) \<Rightarrow> Some (Inl (client_error e), release_submission k s1)
            | Some (Inr d, s1) \<Rightarrow> (case commit_output k d now authority s1 of
                (Inl e, s2) \<Rightarrow> Some (Inl (client_error e), release_submission k s2)
              | (Inr u, s2) \<Rightarrow> Some (Inr u, s2)))))"

text \<open>The transport task is cancelled while validation awaits.\<close>

definition abort_submit :: "nat \<Rightarrow> client_tools \<Rightarrow> client_tools" where
  "abort_submit n s = (case map_of (ct_inflight s) n of None \<Rightarrow> s
     | Some k \<Rightarrow> release_submission k (s\<lparr>ct_inflight := AList.delete n (ct_inflight s)\<rparr>))"

definition cancel_call :: "string \<Rightarrow> string \<Rightarrow> rat \<Rightarrow> exc option \<Rightarrow> client_tools \<Rightarrow> (client_tools, unit) outcome" where
  "cancel_call k user_id now authority s = (case reserve_submission k user_id now s of
     (Inl e, s') \<Rightarrow> (Inl e, s')
   | (Inr c, s') \<Rightarrow> (case authority of Some e \<Rightarrow> (Inl e, release_submission k s')
       | None \<Rightarrow> (Inr (), put_call k (c\<lparr>ct_future := Error (ClientToolError ''client tool was cancelled''), ct_submitting := False\<rparr>) s')))"

text \<open>The done callback of the run's task.\<close>

definition end_run :: "string \<Rightarrow> client_tools \<Rightarrow> client_tools" where
  "end_run run s = s\<lparr>ct_media := fold (\<lambda>(r, sc). if r = run then clear_leases sc else id) (ct_cleanup s) (ct_media s),
     ct_cleanup := filter (\<lambda>(r, sc). r \<noteq> run) (ct_cleanup s)\<rparr>"

definition pending_calls :: "string \<Rightarrow> string \<Rightarrow> client_tools \<Rightarrow> client_call list" where
  "pending_calls user_id session_id s = filter (\<lambda>c. ct_user_id c = user_id \<and> ct_session_id c = session_id \<and> ct_future c = Waiting)
     (List.map_filter (call_at s) (ct_items s))"


section \<open>Runs\<close>

datatype client_op =
    Open string client_call rat int
  | Deliver string bool
  | Give_Up string exc
  | Begin_Submit nat string string rat "exc option"
  | Complete_Submit nat "nat \<Rightarrow> string" pyval "exc + (pyval \<times> media_item list)" rat "exc option"
  | Abort_Submit nat
  | Cancel_Call string string rat "exc option"
  | End_Run string
  | Media media_op

definition after :: "('s, 'a) outcome option \<Rightarrow> 's \<Rightarrow> 's" where
  "after r s = (case r of None \<Rightarrow> s | Some (_, s') \<Rightarrow> s')"

text \<open>Identifiers are fresh: \<open>Open\<close> with a known one, or a submission number in use, is no step.\<close>

fun client_step :: "client_op \<Rightarrow> client_tools \<Rightarrow> client_tools" where
  "client_step (Open k request now timeout) s = (if call_at s k \<noteq> None then s else snd (open_call k request now timeout s))"
| "client_step (Deliver k cancelling) s = after (deliver_result k cancelling s) s"
| "client_step (Give_Up k e) s = after (give_up k e s) s"
| "client_step (Begin_Submit n k user now authority) s =
     (if map_of (ct_inflight s) n \<noteq> None then s else snd (begin_submit n k user now authority s))"
| "client_step (Complete_Submit n token output validated now authority) s = after (complete_submit n token output validated now authority s) s"
| "client_step (Abort_Submit n) s = abort_submit n s"
| "client_step (Cancel_Call k user now authority) s = snd (cancel_call k user now authority s)"
| "client_step (End_Run run) s = end_run run s"
| "client_step (Media op) s = s\<lparr>ct_media := media_step op (ct_media s)\<rparr>"

end
