(* ===== verification/Client_Props.thy ===== *)
theory Client_Props
  imports Client_Tools
begin

text \<open>
  Only the owner answers a client call, once; a refused answer leaves no media behind; private
  input is not kept after its call has ended.
\<close>

section \<open>How a pending call changes\<close>

definition same_request :: "client_call \<Rightarrow> client_call \<Rightarrow> bool" where
  "same_request c c' \<longleftrightarrow> ct_user_id c' = ct_user_id c \<and> ct_session_id c' = ct_session_id c \<and> ct_call_id c' = ct_call_id c \<and>
     ct_expires_at c' = ct_expires_at c \<and> ct_private c' = ct_private c \<and> ct_has_schema c' = ct_has_schema c"

definition keeps_answer :: "ct_future \<Rightarrow> ct_future \<Rightarrow> bool" where
  "keeps_answer f f' \<longleftrightarrow> f' = f \<or> (\<exists>v. f = Result (Private v) \<and> f' = Result (Private None))"

definition call_advances :: "client_call \<Rightarrow> client_call \<Rightarrow> bool" where
  "call_advances c c' \<longleftrightarrow> same_request c c' \<and> (ct_future c \<noteq> Waiting \<longrightarrow> keeps_answer (ct_future c) (ct_future c'))"

lemma call_advances_refl [simp]: "call_advances c c"
  by (simp add: call_advances_def same_request_def keeps_answer_def)

lemma keeps_answer_trans: "keeps_answer f g \<Longrightarrow> keeps_answer g h \<Longrightarrow> keeps_answer f h"
  by (auto simp: keeps_answer_def)

lemma keeps_answer_settled: "keeps_answer f g \<Longrightarrow> f \<noteq> Waiting \<Longrightarrow> g \<noteq> Waiting"
  by (auto simp: keeps_answer_def)

lemma call_advances_trans: "call_advances a b \<Longrightarrow> call_advances b c \<Longrightarrow> call_advances a c"
  unfolding call_advances_def same_request_def by (auto intro: keeps_answer_trans dest: keeps_answer_settled)

text \<open>Every operation is a change of one object that advances it, or of none.\<close>

definition heap_advances :: "client_tools \<Rightarrow> client_tools \<Rightarrow> bool" where
  "heap_advances s s' \<longleftrightarrow> (\<forall>k c. call_at s k = Some c \<longrightarrow> (\<exists>c'. call_at s' k = Some c' \<and> call_advances c c'))"

lemma heap_advances_same: "ct_objects s' = ct_objects s \<Longrightarrow> heap_advances s s'"
  by (auto simp: heap_advances_def)

lemma heap_advances_trans: "heap_advances a b \<Longrightarrow> heap_advances b c \<Longrightarrow> heap_advances a c"
  unfolding heap_advances_def by (meson call_advances_trans)

lemma heap_advances_put:
  assumes "call_at s k = Some c" "call_advances c c'" "ct_objects s' = AList.update k c' (ct_objects s)"
  shows "heap_advances s s'"
  using assms by (auto simp: heap_advances_def)

lemma clear_private_advances: "call_advances c (clear_private_delivery c)"
  by (auto simp: clear_private_delivery_def call_advances_def same_request_def keeps_answer_def
      split: ct_future.split delivery.split)

lemma close_call_advances: "heap_advances s (close_call k s)"
proof (cases "call_at s k")
  case None
  then show ?thesis by (simp add: close_call_def Let_def heap_advances_same)
next
  case (Some c)
  then show ?thesis by (intro heap_advances_put [OF Some clear_private_advances]) (simp add: close_call_def Let_def)
qed

lemma release_advances: "heap_advances s (release_submission k s)"
proof (cases "call_at s k")
  case None
  then show ?thesis by (simp add: release_submission_def heap_advances_same)
next
  case (Some c)
  then show ?thesis
    by (intro heap_advances_put [OF Some, of "c\<lparr>ct_submitting := False\<rparr>"])
      (simp_all add: release_submission_def call_advances_def same_request_def keeps_answer_def)
qed

lemma deliver_advances: "heap_advances s (after (deliver_result k cancelling s) s)"
proof -
  have "heap_advances s (close_call k (put_call k (c\<lparr>ct_future := Result (Private None)\<rparr>) s))"
    if "call_at s k = Some c" "ct_future c = Result (Private v)" for c v
    using that by (intro heap_advances_trans [OF heap_advances_put close_call_advances])
      (auto simp: call_advances_def same_request_def keeps_answer_def)
  then show ?thesis using close_call_advances [of s k]
    by (auto simp: deliver_result_def after_def heap_advances_same split: option.split ct_future.split delivery.split)
qed

lemma give_up_advances: "heap_advances s (after (give_up k e s) s)"
proof -
  have "heap_advances s (close_call k (put_call k (c\<lparr>ct_future := Cancelled\<rparr>) s))"
    if "call_at s k = Some c" "ct_future c = Waiting" for c
    using that by (intro heap_advances_trans [OF heap_advances_put close_call_advances])
      (auto simp: call_advances_def same_request_def keeps_answer_def)
  then show ?thesis by (auto simp: give_up_def after_def heap_advances_same split: option.split)
qed

lemma reserve_cases:
  obtains (refused) e where "reserve_submission k user now s = (Inl e, s)"
  | (reserved) c where "k \<in> set (ct_items s)" "call_at s k = Some c" "ct_user_id c = user" "now < ct_expires_at c" "ct_future c = Waiting"
      "\<not> ct_submitting c" "reserve_submission k user now s = (Inr c, put_call k (c\<lparr>ct_submitting := True\<rparr>) s)"
proof (cases "if k \<in> set (ct_items s) then call_at s k else None")
  case None
  then show thesis by (intro refused) (simp add: reserve_submission_def)
next
  case (Some c)
  show thesis
  proof (cases "ct_user_id c = user \<and> now < ct_expires_at c \<and> ct_future c = Waiting \<and> \<not> ct_submitting c")
    case True
    then show thesis using Some by (intro reserved [of c]) (auto simp: reserve_submission_def split: if_splits)
  next
    case False
    have "\<exists>e. reserve_submission k user now s = (Inl e, s)" using False Some by (auto simp: reserve_submission_def)
    then show thesis using refused by blast
  qed
qed

lemma begin_advances: "heap_advances s (snd (begin_submit n k user now authority s))"
proof (cases rule: reserve_cases [of k user now s])
  case (refused e)
  then show ?thesis by (simp add: begin_submit_def heap_advances_same)
next
  case (reserved c)
  let ?s = "put_call k (c\<lparr>ct_submitting := True\<rparr>) s"
  have put: "heap_advances s ?s"
    using reserved by (intro heap_advances_put) (auto simp: call_advances_def same_request_def keeps_answer_def)
  have "heap_advances ?s (snd (begin_submit n k user now authority s))"
    using release_advances [of ?s k] reserved(7)
    by (cases authority) (simp_all add: begin_submit_def heap_advances_same)
  with put show ?thesis by (rule heap_advances_trans)
qed

lemma drop_output_objects [simp]: "ct_objects (drop_output c d s) = ct_objects s" "ct_items (drop_output c d s) = ct_items s"
  "ct_inflight (drop_output c d s) = ct_inflight s"
  by (simp_all add: drop_output_def split: delivery.split)

lemma prepared_objects:
  assumes "prepared_output token c out validated s = Some (r, s')"
  shows "ct_objects s' = ct_objects s" "ct_items s' = ct_items s" "ct_inflight s' = ct_inflight s"
  using assms by (auto simp: prepared_output_def split: if_splits sum.splits option.splits prod.splits)

lemma commit_cases:
  assumes "call_at s k = Some c"
  obtains (rejected) e where "commit_output k d now authority s = (Inl e, drop_output c d s)"
  | (committed) "ct_future c = Waiting" "now < ct_expires_at c" "authority = None"
      "commit_output k d now authority s = (Inr (), put_call k (c\<lparr>ct_future := Result d, ct_submitting := False\<rparr>) s)"
proof (cases "ct_future c = Waiting \<and> now < ct_expires_at c \<and> authority = None")
  case True
  then show thesis using assms by (intro committed) (auto simp: commit_output_def)
next
  case False
  have "\<exists>e. commit_output k d now authority s = (Inl e, drop_output c d s)"
    using False assms by (auto simp: commit_output_def split: option.split)
  then show thesis using rejected by blast
qed

text \<open>What completing a submission does: nothing, a refusal, or an answer.\<close>

lemma complete_cases:
  obtains (stuck) "complete_submit n token out validated now authority s = None"
  | (refused) k c e s1 where "map_of (ct_inflight s) n = Some k" "call_at s k = Some c"
      "complete_submit n token out validated now authority s = Some (Inl e, release_submission k s1)"
      "ct_objects s1 = ct_objects s" "ct_items s1 = ct_items s" "ct_inflight s1 = AList.delete n (ct_inflight s)"
      "(\<exists>e'. prepared_output token c out validated (s\<lparr>ct_inflight := AList.delete n (ct_inflight s)\<rparr>) = Some (Inl e', s1)) \<or>
       (\<exists>d s2. prepared_output token c out validated (s\<lparr>ct_inflight := AList.delete n (ct_inflight s)\<rparr>) = Some (Inr d, s2) \<and> s1 = drop_output c d s2)"
  | (answered) k c d s1 where "map_of (ct_inflight s) n = Some k" "call_at s k = Some c" "ct_future c = Waiting"
      "complete_submit n token out validated now authority s =
         Some (Inr (), put_call k (c\<lparr>ct_future := Result d, ct_submitting := False\<rparr>) s1)"
      "ct_objects s1 = ct_objects s" "ct_items s1 = ct_items s" "ct_inflight s1 = AList.delete n (ct_inflight s)"
      "prepared_output token c out validated (s\<lparr>ct_inflight := AList.delete n (ct_inflight s)\<rparr>) = Some (Inr d, s1)"
proof (cases "complete_submit n token out validated now authority s")
  case None
  then show thesis by (rule stuck)
next
  case (Some res)
  then obtain k c where k: "map_of (ct_inflight s) n = Some k" "call_at s k = Some c"
    by (auto simp: complete_submit_def split: option.splits)
  let ?s0 = "s\<lparr>ct_inflight := AList.delete n (ct_inflight s)\<rparr>"
  show thesis
  proof (cases "prepared_output token c out validated ?s0")
    case None
    then show thesis using k by (intro stuck) (simp add: complete_submit_def Let_def)
  next
    case p: (Some ps)
    obtain r s1 where ps: "ps = (r, s1)" by (cases ps)
    have o: "ct_objects s1 = ct_objects s" "ct_items s1 = ct_items s" "ct_inflight s1 = AList.delete n (ct_inflight s)"
      using prepared_objects [OF p [unfolded ps]] by simp_all
    have c1: "call_at s1 k = Some c" using k(2) o(1) by simp
    show thesis
    proof (cases r)
      case (Inl e)
      show thesis
        by (rule refused [of k c "client_error e" s1]) (use k o p ps Inl in \<open>simp_all add: complete_submit_def Let_def\<close>)
    next
      case (Inr d)
      from c1 show thesis
      proof (cases rule: commit_cases [where d = d and now = now and authority = authority])
        case (rejected e)
        show thesis
          by (rule refused [of k c "client_error e" "drop_output c d s1"])
            (use k o p ps Inr rejected in \<open>simp_all add: complete_submit_def Let_def\<close>)
      next
        case committed
        show thesis
          by (rule answered [of k c d s1]) (use k o p ps Inr committed in \<open>simp_all add: complete_submit_def Let_def\<close>)
      qed
    qed
  qed
qed

lemma complete_advances: "heap_advances s (after (complete_submit n token out validated now authority s) s)"
proof (cases rule: complete_cases [where n = n and token = token and out = out and validated = validated and now = now and authority = authority and s = s])
  case stuck
  then show ?thesis by (simp add: after_def heap_advances_same)
next
  case (refused k c e s1)
  have "heap_advances s s1" using refused by (simp add: heap_advances_same)
  from heap_advances_trans [OF this release_advances [of s1 k]] refused show ?thesis by (simp add: after_def)
next
  case (answered k c d s1)
  have "heap_advances s (put_call k (c\<lparr>ct_future := Result d, ct_submitting := False\<rparr>) s1)"
    using answered by (intro heap_advances_put [OF answered(2)]) (auto simp: call_advances_def same_request_def)
  then show ?thesis using answered by (simp add: after_def)
qed

lemma cancel_advances: "heap_advances s (snd (cancel_call k user now authority s))"
proof (cases rule: reserve_cases [of k user now s])
  case (refused e)
  then show ?thesis by (simp add: cancel_call_def heap_advances_same)
next
  case (reserved c)
  let ?s = "put_call k (c\<lparr>ct_submitting := True\<rparr>) s"
  have put: "heap_advances s ?s"
    using reserved by (intro heap_advances_put) (auto simp: call_advances_def same_request_def keeps_answer_def)
  show ?thesis
  proof (cases authority)
    case None
    then show ?thesis using reserved
      by (auto simp: cancel_call_def heap_advances_def call_advances_def same_request_def)
        (auto simp: keeps_answer_def)
  next
    case (Some e)
    then show ?thesis using heap_advances_trans [OF put release_advances [of ?s k]] reserved by (simp add: cancel_call_def)
  qed
qed

lemma abort_advances: "heap_advances s (abort_submit n s)"
  using heap_advances_trans [OF heap_advances_same release_advances]
  by (auto simp: abort_submit_def heap_advances_same split: option.split)

lemma client_step_advances: "heap_advances s (client_step op s)"
proof (cases op)
  case (Open k request now timeout)
  then show ?thesis by (auto simp: heap_advances_def open_call_def)
qed (simp_all add: deliver_advances give_up_advances begin_advances complete_advances abort_advances cancel_advances
       end_run_def heap_advances_same)

lemma client_run_advances: "heap_advances s (fold client_step ops s)"
proof (induction ops arbitrary: s)
  case (Cons op ops)
  from heap_advances_trans [OF client_step_advances Cons] show ?case by simp
qed (simp add: heap_advances_same)

section \<open>The invariant\<close>

definition calls_ok :: "client_tools \<Rightarrow> bool" where
  "calls_ok s \<longleftrightarrow> (\<forall>k c. call_at s k = Some c \<longrightarrow>
     (ct_future c = Waiting \<longrightarrow> k \<in> set (ct_items s)) \<and>
     (\<forall>v. ct_future c = Result (Private (Some v)) \<longrightarrow> ct_private c \<and> k \<in> set (ct_items s)) \<and>
     (ct_private c \<longrightarrow> (\<forall>d. ct_future c = Result d \<longrightarrow> (\<exists>x. d = Private x))))"

text \<open>One object changes, and possibly its membership.\<close>

lemma calls_ok_put:
  assumes "calls_ok s" "ct_objects s' = AList.update k c (ct_objects s)"
    "\<And>j. j \<noteq> k \<Longrightarrow> j \<in> set (ct_items s') \<longleftrightarrow> j \<in> set (ct_items s)"
    "ct_future c = Waiting \<Longrightarrow> k \<in> set (ct_items s')"
    "\<And>v. ct_future c = Result (Private (Some v)) \<Longrightarrow> ct_private c \<and> k \<in> set (ct_items s')"
    "\<And>d. ct_private c \<Longrightarrow> ct_future c = Result d \<Longrightarrow> \<exists>x. d = Private x"
  shows "calls_ok s'"
  using assms unfolding calls_ok_def by auto

lemma calls_ok_put_call:
  assumes "calls_ok s" "ct_future c = Waiting \<Longrightarrow> k \<in> set (ct_items s)"
    "\<And>v. ct_future c = Result (Private (Some v)) \<Longrightarrow> ct_private c \<and> k \<in> set (ct_items s)"
    "\<And>d. ct_private c \<Longrightarrow> ct_future c = Result d \<Longrightarrow> \<exists>x. d = Private x"
  shows "calls_ok (put_call k c s)"
  by (rule calls_ok_put [OF assms(1)]) (use assms(2-) in auto)

lemma calls_okD:
  assumes "calls_ok s" "call_at s k = Some c"
  shows "ct_future c = Waiting \<Longrightarrow> k \<in> set (ct_items s)"
    "ct_future c = Result (Private (Some v)) \<Longrightarrow> ct_private c \<and> k \<in> set (ct_items s)"
    "ct_private c \<Longrightarrow> ct_future c = Result d \<Longrightarrow> \<exists>x. d = Private x"
  using assms unfolding calls_ok_def by blast+

lemma calls_ok_close:
  assumes ok: "calls_ok s" and c: "call_at s k = Some c" and settled: "ct_future c \<noteq> Waiting"
  shows "calls_ok (close_call k s)"
proof (rule calls_ok_put [OF ok, of _ k "clear_private_delivery c"])
  show "ct_objects (close_call k s) = AList.update k (clear_private_delivery c) (ct_objects s)"
    using c by (simp add: close_call_def Let_def)
  show "ct_future (clear_private_delivery c) = Waiting \<Longrightarrow> k \<in> set (ct_items (close_call k s))"
    using settled by (simp add: clear_private_delivery_def split: ct_future.splits delivery.splits if_splits)
  show "\<And>v. ct_future (clear_private_delivery c) = Result (Private (Some v)) \<Longrightarrow>
      ct_private (clear_private_delivery c) \<and> k \<in> set (ct_items (close_call k s))"
    using calls_okD(2) [OF ok c] by (auto simp: clear_private_delivery_def split: ct_future.splits delivery.splits if_splits)
  show "\<And>d. ct_private (clear_private_delivery c) \<Longrightarrow> ct_future (clear_private_delivery c) = Result d \<Longrightarrow> \<exists>x. d = Private x"
    using calls_okD(3) [OF ok c] by (auto simp: clear_private_delivery_def split: ct_future.splits delivery.splits if_splits)
qed (use c in \<open>auto simp: close_call_def Let_def\<close>)

lemma calls_ok_flag:
  assumes "calls_ok s" "call_at s k = Some c" "ct_objects s' = AList.update k (c\<lparr>ct_submitting := b\<rparr>) (ct_objects s)" "ct_items s' = ct_items s"
  shows "calls_ok s'"
  by (rule calls_ok_put [OF assms(1,3)]) (use calls_okD [OF assms(1,2)] in \<open>simp_all add: assms(4)\<close>)

lemma calls_ok_release: "calls_ok s \<Longrightarrow> calls_ok (release_submission k s)"
  by (auto simp: release_submission_def split: option.split intro: calls_ok_flag)

lemma calls_ok_cong: "calls_ok s \<Longrightarrow> ct_objects s' = ct_objects s \<Longrightarrow> ct_items s' = ct_items s \<Longrightarrow> calls_ok s'"
  by (simp add: calls_ok_def)

lemma calls_ok_deliver: "calls_ok s \<Longrightarrow> calls_ok (after (deliver_result k cancelling s) s)"
proof -
  assume ok: "calls_ok s"
  have "calls_ok (close_call k (put_call k (c\<lparr>ct_future := Result (Private None)\<rparr>) s))"
    if "call_at s k = Some c" for c
    by (rule calls_ok_close [where c = "c\<lparr>ct_future := Result (Private None)\<rparr>"], rule calls_ok_put_call [OF ok]) auto
  then show ?thesis using ok calls_ok_close [OF ok, of k]
    by (auto simp: deliver_result_def after_def split: option.split ct_future.split delivery.split)
qed

lemma calls_ok_give_up: "calls_ok s \<Longrightarrow> calls_ok (after (give_up k e s) s)"
proof -
  assume ok: "calls_ok s"
  have "calls_ok (close_call k (put_call k (c\<lparr>ct_future := Cancelled\<rparr>) s))" if "call_at s k = Some c" for c
    by (rule calls_ok_close [where c = "c\<lparr>ct_future := Cancelled\<rparr>"], rule calls_ok_put_call [OF ok]) auto
  then show ?thesis using ok by (auto simp: give_up_def after_def split: option.split)
qed

lemma calls_ok_begin: "calls_ok s \<Longrightarrow> calls_ok (snd (begin_submit n k user now authority s))"
proof (cases rule: reserve_cases [of k user now s])
  case (reserved c)
  assume ok: "calls_ok s"
  have "calls_ok (put_call k (c\<lparr>ct_submitting := True\<rparr>) s)" by (rule calls_ok_flag [OF ok reserved(2), where b = True]) simp_all
  from this calls_ok_release [OF this, of k] show ?thesis using reserved(7)
    by (cases authority) (auto simp: begin_submit_def intro: calls_ok_cong)
qed (simp add: begin_submit_def)

lemma prepared_private:
  assumes "prepared_output token c out validated s = Some (Inr d, s')"
  shows "(\<exists>v. d = Private v) \<longleftrightarrow> ct_private c"
  using assms by (auto simp: prepared_output_def split: if_splits sum.splits option.splits prod.splits)

lemma calls_ok_complete:
  assumes ok: "calls_ok s"
  shows "calls_ok (after (complete_submit n token out validated now authority s) s)"
proof (cases rule: complete_cases [where n = n and token = token and out = out and validated = validated and now = now
      and authority = authority and s = s])
  case stuck
  then show ?thesis using ok by (simp add: after_def)
next
  case (refused k c e s1)
  then have "calls_ok s1" using calls_ok_cong [OF ok] by simp
  then show ?thesis using refused calls_ok_release by (simp add: after_def)
next
  case (answered k c d s1)
  then have ok1: "calls_ok s1" using calls_ok_cong [OF ok] by simp
  have "k \<in> set (ct_items s1)" using calls_okD(1) [OF ok answered(2,3)] answered by simp
  then have "calls_ok (put_call k (c\<lparr>ct_future := Result d, ct_submitting := False\<rparr>) s1)"
    using prepared_private [OF answered(8)] by (intro calls_ok_put_call [OF ok1]) auto
  then show ?thesis using answered by (simp add: after_def)
qed

lemma calls_ok_cancel: "calls_ok s \<Longrightarrow> calls_ok (snd (cancel_call k user now authority s))"
proof (cases rule: reserve_cases [of k user now s])
  case (reserved c)
  assume ok: "calls_ok s"
  have ok': "calls_ok (put_call k (c\<lparr>ct_submitting := True\<rparr>) s)" by (rule calls_ok_flag [OF ok reserved(2), where b = True]) simp_all
  have "calls_ok (put_call k (c\<lparr>ct_future := Error e, ct_submitting := False\<rparr>) (put_call k (c\<lparr>ct_submitting := True\<rparr>) s))" for e
    by (rule calls_ok_put_call [OF ok']) auto
  then show ?thesis using reserved(7) calls_ok_release [OF ok', of k]
    by (cases authority) (auto simp: cancel_call_def)
qed (simp add: cancel_call_def)

lemma calls_ok_step:
  assumes ok: "calls_ok s"
  shows "calls_ok (client_step op s)"
proof (cases op)
  case (Open k request now timeout)
  have "calls_ok (s\<lparr>ct_objects := AList.update k c (ct_objects s), ct_items := ct_items s @ [k]\<rparr>)" if "ct_future c = Waiting" for c
    by (rule calls_ok_put [OF ok]) (use that in auto)
  then show ?thesis using Open ok by (simp add: open_call_def)
next
  case (Abort_Submit n)
  have "calls_ok (s\<lparr>ct_inflight := x\<rparr>)" for x by (rule calls_ok_cong [OF ok]) simp_all
  then show ?thesis using Abort_Submit ok by (auto simp: abort_submit_def split: option.split intro: calls_ok_release)
next
  case (Begin_Submit n k user now authority)
  then show ?thesis using calls_ok_begin [OF ok] ok by simp
next
  case (End_Run run)
  show ?thesis unfolding End_Run by (rule calls_ok_cong [OF ok]) (simp_all add: end_run_def)
next
  case (Media mop)
  show ?thesis unfolding Media by (rule calls_ok_cong [OF ok]) simp_all
qed (simp_all add: ok calls_ok_deliver calls_ok_give_up calls_ok_complete calls_ok_cancel)

lemma calls_ok_run: "calls_ok s \<Longrightarrow> calls_ok (fold client_step ops s)"
proof (induction ops arbitrary: s)
  case (Cons op ops)
  from Cons.IH [OF calls_ok_step [OF Cons.prems]] show ?case by simp
qed simp

text \<open>A private and an ordinary request, and a run in which each is answered.\<close>

definition sample_request :: "bool \<Rightarrow> client_call" where
  "sample_request private = \<lparr>ct_user_id = ''u'', ct_session_id = ''s'', ct_call_id = ''c'', ct_name = ''tool'', ct_arguments = PyDict [],
     ct_has_schema = True, ct_expires_at = 0, ct_run = ''r'', ct_future = Waiting, ct_submitting = False, ct_private = private\<rparr>"

definition sample_answer :: "bool \<Rightarrow> client_op list" where
  "sample_answer private = [Open ''k'' (sample_request private) 0 60, Begin_Submit 1 ''k'' ''u'' 5 None,
     Complete_Submit 1 token_n (PyInt 7) (Inr (PyInt 7, [])) 6 None]"

lemma sample_answer_run:
  "call_at (fold client_step (sample_answer private) (client_tools_of m)) ''k'' =
     Some ((sample_request private)\<lparr>ct_expires_at := 60, ct_future := Result (if private then Private (Some (PyInt 7)) else Staged (PyInt 7) [])\<rparr>)"
  by (simp add: sample_answer_def sample_request_def client_tools_of_def open_call_def begin_submit_def reserve_submission_def
      complete_submit_def prepared_output_def commit_output_def after_def Let_def)

text \<open>
  Private input is not retained: once the call that asked for it has ended - delivered,
  cancelled, timed out, or lost in a race between them - no object of the store holds a private
  value, and a private value can only be held for a call that declared itself private.
\<close>

theorem private_input_not_retained:
  assumes "call_at (fold client_step ops (client_tools_of m)) k = Some c" "ct_future c = Result (Private (Some v))"
  shows "ct_private c \<and> k \<in> set (ct_items (fold client_step ops (client_tools_of m)))"
proof -
  have "calls_ok (fold client_step ops (client_tools_of m))"
    by (rule calls_ok_run) (simp add: calls_ok_def client_tools_of_def)
  from calls_okD(2) [OF this assms] show ?thesis .
qed

lemma private_input_not_retained_witness:
  "\<exists>c. call_at (fold client_step (sample_answer True) (client_tools_of (media_init 9))) ''k'' = Some c \<and> ct_future c = Result (Private (Some (PyInt 7))) \<and>
     ct_private c \<and> ''k'' \<in> set (ct_items (fold client_step (sample_answer True) (client_tools_of (media_init 9))))"
proof -
  let ?c = "(sample_request True)\<lparr>ct_expires_at := 60, ct_future := Result (Private (Some (PyInt 7)))\<rparr>"
  have c: "call_at (fold client_step (sample_answer True) (client_tools_of (media_init 9))) ''k'' = Some ?c" by (simp add: sample_answer_run)
  have f: "ct_future ?c = Result (Private (Some (PyInt 7)))" by simp
  from private_input_not_retained [OF c f] c f show ?thesis by blast
qed


section \<open>Who answers\<close>

definition submitted_by :: "client_op list \<Rightarrow> string \<Rightarrow> client_call \<Rightarrow> bool" where
  "submitted_by ops k c \<longleftrightarrow> (\<exists>n now. Begin_Submit n k (ct_user_id c) now None \<in> set ops \<and> now < ct_expires_at c)"

definition answers_ok :: "client_op list \<Rightarrow> client_tools \<Rightarrow> bool" where
  "answers_ok ops s \<longleftrightarrow> (\<forall>k c. call_at s k = Some c \<longrightarrow>
     (\<exists>n. map_of (ct_inflight s) n = Some k) \<or> (\<exists>d. ct_future c = Result d) \<longrightarrow> submitted_by ops k c) \<and>
     (\<forall>n k. map_of (ct_inflight s) n = Some k \<longrightarrow> call_at s k \<noteq> None)"

lemma submitted_by_same: "same_request c c' \<Longrightarrow> submitted_by ops k c \<Longrightarrow> submitted_by ops k c'"
  by (auto simp: submitted_by_def same_request_def)

lemma submitted_by_grows: "submitted_by ops k c \<Longrightarrow> submitted_by (ops @ ops') k c"
  by (auto simp: submitted_by_def)

text \<open>
  An operation that starts no submission, answers no call and opens none: objects advance, the
  submissions in flight stay or end.
\<close>

lemma answers_ok_quiet:
  assumes ok: "answers_ok ops s" and adv: "heap_advances s s'"
    and flights: "\<And>n k. map_of (ct_inflight s') n = Some k \<Longrightarrow> map_of (ct_inflight s) n = Some k"
    and new: "\<And>k c'. call_at s k = None \<Longrightarrow> call_at s' k = Some c' \<Longrightarrow> ct_future c' = Waiting"
    and result: "\<And>k c c' d. call_at s k = Some c \<Longrightarrow> call_at s' k = Some c' \<Longrightarrow> ct_future c' = Result d \<Longrightarrow>
        (\<exists>d'. ct_future c = Result d') \<or> (\<exists>n. map_of (ct_inflight s) n = Some k)"
  shows "answers_ok (ops @ more_ops) s'"
  unfolding answers_ok_def
proof (intro conjI allI impI)
  fix k c' assume c': "call_at s' k = Some c'" and act: "(\<exists>n. map_of (ct_inflight s') n = Some k) \<or> (\<exists>d. ct_future c' = Result d)"
  show "submitted_by (ops @ more_ops) k c'"
  proof (cases "call_at s k")
    case None
    then have "map_of (ct_inflight s) n \<noteq> Some k" for n using ok unfolding answers_ok_def by blast
    then show ?thesis using act flights new [OF None c'] by auto
  next
    case (Some c)
    with adv c' have "same_request c c'" unfolding heap_advances_def call_advances_def by (metis option.inject)
    moreover have "(\<exists>n. map_of (ct_inflight s) n = Some k) \<or> (\<exists>d. ct_future c = Result d)"
      using act flights result [OF Some c'] by blast
    then have "submitted_by ops k c" using ok Some unfolding answers_ok_def by blast
    ultimately show ?thesis by (blast intro: submitted_by_same submitted_by_grows)
  qed
next
  fix n k assume "map_of (ct_inflight s') n = Some k"
  from flights [OF this] have "call_at s k \<noteq> None" using ok unfolding answers_ok_def by blast
  then show "call_at s' k \<noteq> None" using adv by (auto simp: heap_advances_def)
qed

lemma advances_result: "call_advances c c' \<Longrightarrow> ct_future c' = Result d \<Longrightarrow> ct_future c \<noteq> Waiting \<Longrightarrow> \<exists>d'. ct_future c = Result d'"
  unfolding call_advances_def keeps_answer_def by metis

text \<open>The futures of all calls but those in \<open>K\<close> stay as they are when they wait.\<close>

definition waits_on :: "string set \<Rightarrow> client_tools \<Rightarrow> client_tools \<Rightarrow> bool" where
  "waits_on K s s' \<longleftrightarrow> (\<forall>k c c'. k \<notin> K \<longrightarrow> call_at s k = Some c \<longrightarrow> call_at s' k = Some c' \<longrightarrow> ct_future c = Waiting \<longrightarrow>
     (\<forall>d. ct_future c' \<noteq> Result d))"

lemma waits_on_same: "ct_objects s' = ct_objects s \<Longrightarrow> waits_on {} s s'"
  by (auto simp: waits_on_def)

lemma clear_private_result: "ct_future (clear_private_delivery c) = Result d \<Longrightarrow> \<exists>d'. ct_future c = Result d'"
  by (auto simp: clear_private_delivery_def split: ct_future.splits delivery.splits if_splits)

lemma waits_close: "waits_on {} s (close_call k s)"
  using clear_private_result by (fastforce simp: waits_on_def close_call_def Let_def split: option.split)

lemma waits_deliver: "waits_on {} s (after (deliver_result k cancelling s) s)"
proof -
  have "waits_on {} s (close_call k (put_call k (c\<lparr>ct_future := Result (Private None)\<rparr>) s))"
    if "call_at s k = Some c" "ct_future c = Result d" for c d
    using that by (auto simp: waits_on_def close_call_def Let_def)
  then show ?thesis using waits_close [of s k]
    by (auto simp: deliver_result_def after_def waits_on_same split: option.split ct_future.split delivery.split)
qed

lemma waits_give_up: "waits_on {} s (after (give_up k e s) s)"
  by (auto simp: waits_on_def give_up_def after_def close_call_def Let_def clear_private_delivery_def split: option.split)

lemma waits_begin: "waits_on {} s (snd (begin_submit n k user now authority s))"
  by (cases rule: reserve_cases [of k user now s]; cases authority)
    (auto simp: waits_on_def begin_submit_def release_submission_def)

lemma waits_cancel: "waits_on {} s (snd (cancel_call k user now authority s))"
  by (cases rule: reserve_cases [of k user now s]; cases authority)
    (auto simp: waits_on_def cancel_call_def release_submission_def)

lemma waits_complete:
  "waits_on {k. map_of (ct_inflight s) n = Some k} s (after (complete_submit n token out validated now authority s) s)"
proof (cases rule: complete_cases [where n = n and token = token and out = out and validated = validated and now = now
      and authority = authority and s = s])
  case (refused k c e s1)
  then show ?thesis by (auto simp: after_def waits_on_def release_submission_def split: option.splits)
qed (auto simp: after_def waits_on_def)

lemma begin_flights:
  "map_of (ct_inflight (snd (begin_submit n k user now authority s))) j = Some i \<Longrightarrow>
   map_of (ct_inflight s) j = Some i \<or> (j = n \<and> i = k \<and> authority = None \<and> (\<exists>c. call_at s k = Some c \<and> ct_user_id c = user \<and> now < ct_expires_at c))"
  by (cases rule: reserve_cases [of k user now s]; cases authority)
    (auto simp: begin_submit_def release_submission_def split: if_splits)

lemma cancel_flights: "ct_inflight (snd (cancel_call k user now authority s)) = ct_inflight s"
  by (cases rule: reserve_cases [of k user now s]; cases authority) (auto simp: cancel_call_def release_submission_def)

lemma close_flights [simp]: "ct_inflight (close_call k s) = ct_inflight s"
  by (simp add: close_call_def Let_def split: option.split)

lemma complete_flights:
  "map_of (ct_inflight (after (complete_submit n token out validated now authority s) s)) j = Some i \<Longrightarrow> map_of (ct_inflight s) j = Some i"
proof (cases rule: complete_cases [where n = n and token = token and out = out and validated = validated and now = now
      and authority = authority and s = s])
  case (refused k c e s1)
  moreover assume "map_of (ct_inflight (after (complete_submit n token out validated now authority s) s)) j = Some i"
  ultimately show ?thesis by (auto simp: after_def release_submission_def split: option.splits if_splits)
qed (auto simp: after_def split: if_splits)

lemma step_result:
  assumes "call_at s k = Some c" "call_at (client_step op s) k = Some c'" "ct_future c' = Result d"
  shows "(\<exists>d'. ct_future c = Result d') \<or> (\<exists>n. map_of (ct_inflight s) n = Some k)"
proof (cases "ct_future c = Waiting")
  case True
  have "\<exists>K. waits_on K s (client_step op s) \<and> (k \<in> K \<longrightarrow> (\<exists>n. map_of (ct_inflight s) n = Some k))"
  proof (cases op)
    case (Open j request now timeout)
    show ?thesis unfolding Open by (rule exI [of _ "{}"]) (auto simp: waits_on_def open_call_def)
  next
    case (Complete_Submit n token out validated now authority)
    show ?thesis unfolding Complete_Submit client_step.simps by (rule exI, rule conjI, rule waits_complete) blast
  next
    case (Abort_Submit n)
    show ?thesis unfolding Abort_Submit
      by (rule exI [of _ "{}"]) (auto simp: waits_on_def abort_submit_def release_submission_def split: option.splits)
  next
    case (Begin_Submit n j user now authority)
    then show ?thesis using waits_begin [of s n j user now authority] waits_on_same [of s s] by (intro exI [of _ "{}"]) simp
  next
    case (End_Run run)
    show ?thesis unfolding End_Run by (rule exI [of _ "{}"]) (simp add: waits_on_same end_run_def)
  next
    case (Media mop)
    show ?thesis unfolding Media by (rule exI [of _ "{}"]) (simp add: waits_on_same)
  next
    case (Deliver j cancelling)
    show ?thesis unfolding Deliver by (rule exI [of _ "{}"]) (simp add: waits_deliver)
  next
    case (Give_Up j e)
    show ?thesis unfolding Give_Up by (rule exI [of _ "{}"]) (simp add: waits_give_up)
  next
    case (Cancel_Call j user now authority)
    show ?thesis unfolding Cancel_Call by (rule exI [of _ "{}"]) (simp add: waits_cancel)
  qed
  then show ?thesis using assms True by (auto simp: waits_on_def)
next
  case False
  have "call_advances c c'" using client_step_advances [of s op] assms(1,2) unfolding heap_advances_def by (metis option.inject)
  from advances_result [OF this assms(3) False] show ?thesis by blast
qed

lemma step_flights:
  assumes "map_of (ct_inflight (client_step op s)) j = Some i"
  shows "map_of (ct_inflight s) j = Some i \<or>
    (\<exists>user now c. op = Begin_Submit j i user now None \<and> call_at s i = Some c \<and> ct_user_id c = user \<and> now < ct_expires_at c)"
proof (cases op)
  case (Begin_Submit n k user now authority)
  then show ?thesis using assms begin_flights [of n k user now authority s j i] by (auto split: if_splits)
next
  case (Complete_Submit n token out validated now authority)
  then show ?thesis using assms complete_flights [of n token out validated now authority s j i] by simp
next
  case (Open k request now timeout)
  then show ?thesis using assms by (auto simp: open_call_def split: if_splits)
next
  case (Abort_Submit n)
  then show ?thesis using assms by (auto simp: abort_submit_def release_submission_def split: option.splits if_splits)
next
  case (Deliver k cancelling)
  then show ?thesis using assms
    by (auto simp: deliver_result_def after_def split: option.splits ct_future.splits delivery.splits if_splits)
next
  case (Give_Up k e)
  then show ?thesis using assms by (auto simp: give_up_def after_def split: option.splits if_splits)
qed (use assms in \<open>simp_all add: end_run_def cancel_flights\<close>)

lemma step_new_call:
  assumes "call_at s k = None" "call_at (client_step op s) k = Some c'"
  shows "ct_future c' = Waiting"
proof (cases op)
  case (Open j request now timeout)
  then show ?thesis using assms by (auto simp: open_call_def split: if_splits)
next
  case (Begin_Submit n j user now authority)
  then show ?thesis using assms
    by (cases rule: reserve_cases [of j user now s]; cases authority) (auto simp: begin_submit_def release_submission_def split: if_splits)
next
  case (Cancel_Call j user now authority)
  then show ?thesis using assms
    by (cases rule: reserve_cases [of j user now s]; cases authority) (auto simp: cancel_call_def release_submission_def split: if_splits)
next
  case (Complete_Submit n token out validated now authority)
  then show ?thesis using assms
    by (cases rule: complete_cases [where n = n and token = token and out = out and validated = validated and now = now
          and authority = authority and s = s]) (auto simp: after_def release_submission_def split: option.splits if_splits)
next
  case (Abort_Submit n)
  then show ?thesis using assms by (auto simp: abort_submit_def release_submission_def split: option.splits if_splits)
next
  case (Deliver j cancelling)
  then show ?thesis using assms
    by (auto simp: deliver_result_def after_def close_call_def Let_def split: option.splits ct_future.splits delivery.splits if_splits)
next
  case (Give_Up j e)
  then show ?thesis using assms by (auto simp: give_up_def after_def close_call_def Let_def split: option.splits if_splits)
qed (use assms in \<open>simp_all add: end_run_def cancel_flights\<close>)

lemma answers_ok_step:
  assumes ok: "answers_ok ops s"
  shows "answers_ok (ops @ [op]) (client_step op s)"
proof (cases "\<exists>n k user now c. op = Begin_Submit n k user now None \<and> call_at s k = Some c \<and> ct_user_id c = user \<and> now < ct_expires_at c")
  case False
  show ?thesis
  proof (rule answers_ok_quiet [OF ok client_step_advances])
    show "map_of (ct_inflight (client_step op s)) n = Some k \<Longrightarrow> map_of (ct_inflight s) n = Some k" for n k
      using step_flights False by blast
  qed (use step_new_call step_result in blast)+
next
  case True
  then obtain n k user now c where op: "op = Begin_Submit n k user now None" "call_at s k = Some c" "ct_user_id c = user" "now < ct_expires_at c"
    by blast
  have adv: "\<exists>q. call_at s j = Some q \<and> call_advances q c'" if "call_at (client_step op s) j = Some c'" for j c'
  proof -
    have "call_at s j \<noteq> None"
      using that op by (cases rule: reserve_cases [of k user now s]) (auto simp: begin_submit_def split: if_splits)
    then show ?thesis using client_step_advances [of s op] that unfolding heap_advances_def by (metis option.inject option.exhaust)
  qed
  show ?thesis unfolding answers_ok_def
  proof (intro conjI allI impI)
    fix j c' assume c': "call_at (client_step op s) j = Some c'"
      and act: "(\<exists>n. map_of (ct_inflight (client_step op s)) n = Some j) \<or> (\<exists>d. ct_future c' = Result d)"
    from adv [OF c'] obtain q where q: "call_at s j = Some q" "same_request q c'" by (auto simp: call_advances_def)
    have "submitted_by ops j q \<or> j = k"
      using act step_flights [of op s] step_result [OF q(1) c'] op ok q(1) unfolding answers_ok_def by blast
    moreover have "submitted_by (ops @ [op]) k c" using op by (auto simp: submitted_by_def)
    ultimately show "submitted_by (ops @ [op]) j c'"
      using q op(2) by (auto intro: submitted_by_same submitted_by_grows)
  next
    fix m j assume "map_of (ct_inflight (client_step op s)) m = Some j"
    from step_flights [OF this] have "call_at s j \<noteq> None" using ok unfolding answers_ok_def by auto
    then show "call_at (client_step op s) j \<noteq> None" using client_step_advances [of s op] unfolding heap_advances_def by auto
  qed
qed

lemma answers_ok_run: "answers_ok ops (fold client_step ops (client_tools_of m))"
proof (induction ops rule: rev_induct)
  case Nil
  show ?case by (simp add: answers_ok_def client_tools_of_def)
next
  case (snoc op ops)
  from answers_ok_step [OF this] show ?case by simp
qed

text \<open>
  C12. A client call is answered once and by its owner: a result was submitted by the user the
  call belongs to, before it expired and with the authority of the run; and once a call is
  settled, with a result, an error or a cancellation, nothing that happens later gives it another
  answer - a private result can only be taken away.
\<close>

theorem client_call_answered_once:
  assumes c: "call_at (fold client_step ops (client_tools_of m)) k = Some c" and settled: "ct_future c \<noteq> Waiting"
  shows "(\<forall>d. ct_future c = Result d \<longrightarrow> (\<exists>n now. Begin_Submit n k (ct_user_id c) now None \<in> set ops \<and> now < ct_expires_at c)) \<and>
    (\<exists>c'. call_at (fold client_step (ops @ later) (client_tools_of m)) k = Some c' \<and>
       (ct_future c' = ct_future c \<or> (\<exists>v. ct_future c = Result (Private v) \<and> ct_future c' = Result (Private None))))"
proof
  show "\<forall>d. ct_future c = Result d \<longrightarrow> (\<exists>n now. Begin_Submit n k (ct_user_id c) now None \<in> set ops \<and> now < ct_expires_at c)"
    using answers_ok_run [of ops m] c unfolding answers_ok_def submitted_by_def by blast
  have "heap_advances (fold client_step ops (client_tools_of m)) (fold client_step (ops @ later) (client_tools_of m))"
    using client_run_advances by simp
  then obtain c' where "call_at (fold client_step (ops @ later) (client_tools_of m)) k = Some c'" "call_advances c c'"
    using c unfolding heap_advances_def by blast
  then show "\<exists>c'. call_at (fold client_step (ops @ later) (client_tools_of m)) k = Some c' \<and>
       (ct_future c' = ct_future c \<or> (\<exists>v. ct_future c = Result (Private v) \<and> ct_future c' = Result (Private None)))"
    using settled by (auto simp: call_advances_def keeps_answer_def)
qed

lemma client_call_answered_once_witness:
  "\<exists>c c'. call_at (fold client_step (sample_answer False) (client_tools_of (media_init 9))) ''k'' = Some c \<and> ct_future c = Result (Staged (PyInt 7) []) \<and>
     call_at (fold client_step (sample_answer False @ [Deliver ''k'' False, Begin_Submit 2 ''k'' ''u'' 7 None]) (client_tools_of (media_init 9))) ''k'' = Some c' \<and>
     ct_future c' = ct_future c"
proof -
  let ?c = "(sample_request False)\<lparr>ct_expires_at := 60, ct_future := Result (Staged (PyInt 7) [])\<rparr>"
  have c: "call_at (fold client_step (sample_answer False) (client_tools_of (media_init 9))) ''k'' = Some ?c" by (simp add: sample_answer_run)
  have f: "ct_future ?c \<noteq> Waiting" by simp
  from client_call_answered_once [OF c f, of "[Deliver ''k'' False, Begin_Submit 2 ''k'' ''u'' 7 None]"] c show ?thesis by auto
qed


section \<open>One submission at a time\<close>

definition flights_ok :: "client_tools \<Rightarrow> bool" where
  "flights_ok s \<longleftrightarrow> (\<forall>n k. map_of (ct_inflight s) n = Some k \<longrightarrow> (\<exists>c. call_at s k = Some c \<and> ct_submitting c)) \<and>
     (\<forall>n n' k. map_of (ct_inflight s) n = Some k \<longrightarrow> map_of (ct_inflight s) n' = Some k \<longrightarrow> n = n')"

text \<open>An operation that leaves the flags of the objects and the submissions in flight.\<close>

lemma flights_ok_flags:
  assumes "flights_ok s" "ct_inflight s' = ct_inflight s"
    and "\<And>k c. call_at s k = Some c \<Longrightarrow> ct_submitting c \<Longrightarrow> \<exists>c'. call_at s' k = Some c' \<and> ct_submitting c'"
  shows "flights_ok s'"
  using assms unfolding flights_ok_def by metis

text \<open>A submission ends and its call is released.\<close>

lemma flights_ok_end:
  assumes ok: "flights_ok s" and k: "map_of (ct_inflight s) n = Some k"
    and flights: "ct_inflight s' = AList.delete n (ct_inflight s)"
    and others: "\<And>j. j \<noteq> k \<Longrightarrow> call_at s' j = call_at s j"
  shows "flights_ok s'"
proof -
  have "j \<noteq> k" if "map_of (ct_inflight s') m = Some j" for m j
    using that ok k flights unfolding flights_ok_def by (metis map_of_delete option.distinct(1))
  then show ?thesis using ok flights others unfolding flights_ok_def by (metis map_of_delete option.distinct(1))
qed

lemma clear_private_submitting [simp]: "ct_submitting (clear_private_delivery c) = ct_submitting c"
  by (simp add: clear_private_delivery_def split: ct_future.split delivery.split)

lemma flights_ok_close: "flights_ok s \<Longrightarrow> flights_ok (close_call k s)"
  by (rule flights_ok_flags, assumption, simp) (auto simp: close_call_def Let_def split: option.split)

lemma flights_ok_future: "flights_ok s \<Longrightarrow> call_at s k = Some c \<Longrightarrow> flights_ok (put_call k (c\<lparr>ct_future := f\<rparr>) s)"
  by (rule flights_ok_flags, assumption, simp) auto

lemma flights_ok_step:
  assumes ok: "flights_ok s"
  shows "flights_ok (client_step op s)"
proof (cases op)
  case (Open k request now timeout)
  have "flights_ok (snd (open_call k request now timeout s))" if "call_at s k = None"
    by (rule flights_ok_flags [OF ok]) (use that in \<open>auto simp: open_call_def\<close>)
  then show ?thesis using Open ok by simp
next
  case (Deliver k cancelling)
  then show ?thesis using ok flights_ok_close flights_ok_future [OF ok]
    by (auto simp: deliver_result_def after_def split: option.split ct_future.split delivery.split)
next
  case (Give_Up k e)
  then show ?thesis using ok flights_ok_close flights_ok_future [OF ok] by (auto simp: give_up_def after_def split: option.split)
next
  case (Begin_Submit n k user now authority)
  show ?thesis
  proof (cases rule: reserve_cases [of k user now s])
    case (refused e)
    then show ?thesis using Begin_Submit ok by (simp add: begin_submit_def)
  next
    case (reserved c)
    have none: "map_of (ct_inflight s) j \<noteq> Some k" for j
      using ok reserved(2,6) unfolding flights_ok_def by (metis option.inject)
    have "flights_ok (snd (begin_submit n k user now authority s))"
      using ok none reserved(7) unfolding flights_ok_def
      by (cases authority) (auto simp: begin_submit_def release_submission_def)
    then show ?thesis using Begin_Submit ok by simp
  qed
next
  case (Cancel_Call k user now authority)
  show ?thesis
  proof (cases rule: reserve_cases [of k user now s])
    case (refused e)
    then show ?thesis using Cancel_Call ok by (simp add: cancel_call_def)
  next
    case (reserved c)
    have none: "map_of (ct_inflight s) j \<noteq> Some k" for j
      using ok reserved(2,6) unfolding flights_ok_def by (metis option.inject)
    have "flights_ok (snd (cancel_call k user now authority s))"
      using ok none reserved(7) unfolding flights_ok_def
      by (cases authority) (simp_all add: cancel_call_def release_submission_def)
    then show ?thesis using Cancel_Call by simp
  qed
next
  case (Complete_Submit n token out validated now authority)
  show ?thesis
  proof (cases rule: complete_cases [where n = n and token = token and out = out and validated = validated and now = now
        and authority = authority and s = s])
    case stuck
    then show ?thesis using Complete_Submit ok by (simp add: after_def)
  next
    case (refused k c e s1)
    have "flights_ok (release_submission k s1)"
      by (rule flights_ok_end [OF ok refused(1)]) (use refused in \<open>auto simp: release_submission_def split: option.split\<close>)
    then show ?thesis using Complete_Submit refused by (simp add: after_def)
  next
    case (answered k c d s1)
    have "flights_ok (put_call k (c\<lparr>ct_future := Result d, ct_submitting := False\<rparr>) s1)"
      by (rule flights_ok_end [OF ok answered(1)]) (use answered in auto)
    then show ?thesis using Complete_Submit answered by (simp add: after_def)
  qed
next
  case (Abort_Submit n)
  have "flights_ok (release_submission k (s\<lparr>ct_inflight := AList.delete n (ct_inflight s)\<rparr>))" if "map_of (ct_inflight s) n = Some k" for k
    by (rule flights_ok_end [OF ok that]) (auto simp: release_submission_def split: option.split)
  then show ?thesis using Abort_Submit ok by (simp add: abort_submit_def split: option.split)
next
  case (End_Run run)
  show ?thesis unfolding End_Run by (rule flights_ok_flags [OF ok]) (simp_all add: end_run_def)
next
  case (Media mop)
  show ?thesis unfolding Media by (rule flights_ok_flags [OF ok]) simp_all
qed

lemma flights_ok_init: "flights_ok (client_tools_of m)"
  by (simp add: flights_ok_def client_tools_of_def)

interpretation flights: guarded_store "client_tools_of m" client_step "\<lambda>_. True" flights_ok
  by unfold_locales (rule flights_ok_init, rule flights_ok_step)

lemma one_submission_in_flight:
  assumes "map_of (ct_inflight (fold client_step ops (client_tools_of m))) n = Some k"
    and "map_of (ct_inflight (fold client_step ops (client_tools_of m))) n' = Some k"
  shows "n = n'"
  using flights.inv_run [of ops m] assms unfolding flights_ok_def by (auto simp: list_all_iff)


section \<open>Refused answers leave no media\<close>

text \<open>\<open>m\<close> holds what \<open>m0\<close> holds, and under the identifiers \<open>ids\<close> media of the scope.\<close>

definition staged_over :: "media_scope \<Rightarrow> media_store \<Rightarrow> string list \<Rightarrow> media_store \<Rightarrow> bool" where
  "staged_over sc m0 ids m \<longleftrightarrow> media_inv m \<and> (\<forall>j\<in>set ids. lease_at m0 j = None \<and> (\<exists>l. lease_at m j = Some (sc, l))) \<and>
     (\<forall>j. j \<notin> set ids \<longrightarrow> lease_at m j = lease_at m0 j)"

lemma same_leases_same_bytes:
  assumes "media_inv a" "media_inv b" "\<forall>j. lease_at a j = lease_at b j"
  shows "tm_total_bytes a = tm_total_bytes b"
proof -
  have d: "dict_ok (tm_leases a)" "dict_ok (tm_leases b)" using assms by (auto simp: media_inv_def)
  have "(k, v) \<in> set (tm_leases a) \<longleftrightarrow> (k, v) \<in> set (tm_leases b)" for k v
    using assms(3) map_of_eq_Some_iff [OF d(1), of k v] map_of_eq_Some_iff [OF d(2), of k v] by metis
  then have "set (tm_leases a) = set (tm_leases b)" by (intro set_eqI) (metis surj_pair)
  moreover have "distinct (tm_leases a)" "distinct (tm_leases b)" using d by (auto simp: distinct_map)
  ultimately have "mset (tm_leases a) = mset (tm_leases b)" using set_eq_iff_mset_eq_distinct by blast
  moreover have "lease_bytes d = sum_mset (image_mset (\<lambda>x. int (length (l_data (snd (snd x))))) (mset d))" for d
    unfolding lease_bytes_def by (simp flip: sum_mset_sum_list)
  ultimately have "lease_bytes (tm_leases a) = lease_bytes (tm_leases b)" by simp
  then show ?thesis using assms(1,2) by (simp add: media_inv_def)
qed

lemma staged_over_dropped:
  assumes "staged_over sc m0 ids m" "media_inv m0"
  shows "(\<forall>j. lease_at (commit_leases sc ids m) j = lease_at m0 j) \<and>
    tm_total_bytes (commit_leases sc ids m) = tm_total_bytes m0"
proof -
  have inv: "media_inv (commit_leases sc ids m)"
    using assms commit_fold_inv [of m] by (simp add: staged_over_def commit_leases_def)
  have same: "lease_at (commit_leases sc ids m) j = lease_at m0 j" for j
    using assms(1) by (cases "j \<in> set ids") (auto simp: staged_over_def commit_leases_def commit_fold_at split: option.split)
  with same_leases_same_bytes [OF inv assms(2)] show ?thesis by blast
qed

lemma stage_batch_over:
  assumes "staged_over sc m0 staged m" "media_inv m0" "stage_batch token sc items staged m = Some (r, m')"
  shows "case r of Inl e \<Rightarrow> (\<forall>j. lease_at m' j = lease_at m0 j) \<and> tm_total_bytes m' = tm_total_bytes m0
    | Inr ids \<Rightarrow> staged_over sc m0 ids m'"
  using assms(1,3)
proof (induction token sc items staged m rule: stage_batch.induct)
  case (1 token sc staged m)
  then show ?case by auto
next
  case (2 token sc i items staged m)
  show ?case
  proof (cases rule: stage_cases [of token sc "mi_kind i" "mi_media_type i" "mi_data i" "mi_metadata i" m])
    case none
    then show ?thesis using "2.prems" by simp
  next
    case (full e)
    then show ?thesis using "2.prems" staged_over_dropped [OF "2.prems"(1) assms(2)] by auto
  next
    case (staged k l)
    let ?m = "m\<lparr>tm_leases := AList.update k (sc, l) (tm_leases m), tm_total_bytes := tm_total_bytes m + int (length (mi_data i))\<rparr>"
    have "media_inv ?m"
      using media_step_inv [of m "M_Stage token sc (mi_kind i) (mi_media_type i) (mi_data i) (mi_metadata i)"] "2.prems"(1) staged(7)
      by (simp add: staged_over_def)
    then have "staged_over sc m0 (staged @ [k]) ?m"
      using "2.prems"(1) staged(1) unfolding staged_over_def by auto
    with "2.IH" [OF staged(7) refl] "2.prems"(2) staged show ?thesis by simp
  qed
qed

lemma prepared_rejected:
  assumes inv: "media_inv (ct_media s)" and p: "prepared_output token c out validated s = Some (r, s')"
  shows "case r of Inl e \<Rightarrow> (\<forall>j. lease_at (ct_media s') j = lease_at (ct_media s) j) \<and> tm_total_bytes (ct_media s') = tm_total_bytes (ct_media s)
    | Inr d \<Rightarrow> (\<forall>j. lease_at (ct_media (drop_output c d s')) j = lease_at (ct_media s) j) \<and>
        tm_total_bytes (ct_media (drop_output c d s')) = tm_total_bytes (ct_media s)"
proof (cases "ct_private c \<or> \<not> ct_has_schema c \<or> (\<exists>e. validated = Inl e)")
  case True
  then show ?thesis using p by (auto simp: prepared_output_def drop_output_def split: if_splits sum.splits)
next
  case False
  then obtain v items where v: "validated = Inr (v, items)" by (cases validated) auto
  obtain res m where batch: "stage_batch token (transient_scope c) items [] (ct_media s) = Some (res, m)"
    using p False v by (auto simp: prepared_output_def split: option.splits)
  have "staged_over (transient_scope c) (ct_media s) [] (ct_media s)" using inv by (simp add: staged_over_def)
  from stage_batch_over [OF this inv batch] have over: "case res of
      Inl e \<Rightarrow> (\<forall>j. lease_at m j = lease_at (ct_media s) j) \<and> tm_total_bytes m = tm_total_bytes (ct_media s)
    | Inr ids \<Rightarrow> staged_over (transient_scope c) (ct_media s) ids m" .
  show ?thesis
  proof (cases res)
    case (Inl e)
    then show ?thesis using p False v batch over by (auto simp: prepared_output_def)
  next
    case (Inr ids)
    have s': "r = Inr (Staged v ids)" "ct_media s' = m" using p False v batch Inr by (auto simp: prepared_output_def)
    from over Inr have "staged_over (transient_scope c) (ct_media s) ids m" by simp
    from staged_over_dropped [OF this inv] show ?thesis by (simp add: s' drop_output_def)
  qed
qed

lemma commit_leases_inv: "media_inv m \<Longrightarrow> media_inv (commit_leases sc ids m)"
  by (simp add: commit_leases_def commit_fold_inv)

lemma stage_batch_inv: "media_inv m \<Longrightarrow> stage_batch token sc items staged m = Some (r, m') \<Longrightarrow> media_inv m'"
proof (induction token sc items staged m rule: stage_batch.induct)
  case (2 token sc i items staged m)
  have step: "media_inv (media_step (M_Stage token sc (mi_kind i) (mi_media_type i) (mi_data i) (mi_metadata i)) m)"
    by (rule media_step_inv [OF "2.prems"(1)])
  show ?case
  proof (cases rule: stage_cases [of token sc "mi_kind i" "mi_media_type i" "mi_data i" "mi_metadata i" m])
    case (staged k l)
    with "2.IH" [OF staged(7) refl] "2.prems"(2) step show ?thesis by simp
  qed (use 2 in \<open>auto intro: commit_leases_inv\<close>)
qed auto

lemma drop_output_media_inv: "media_inv (ct_media s) \<Longrightarrow> media_inv (ct_media (drop_output c d s))"
  by (simp add: drop_output_def commit_leases_inv split: delivery.split)

lemma prepared_media_inv: "media_inv (ct_media s) \<Longrightarrow> prepared_output token c out validated s = Some (r, s') \<Longrightarrow> media_inv (ct_media s')"
  by (auto simp: prepared_output_def stage_batch_inv split: if_splits sum.splits option.splits prod.splits)

lemma release_media [simp]: "ct_media (release_submission k s) = ct_media s"
  by (simp add: release_submission_def split: option.split)

lemma close_media [simp]: "ct_media (close_call k s) = ct_media s"
  by (simp add: close_call_def Let_def split: option.split)

lemma client_step_media:
  assumes inv: "media_inv (ct_media s)"
  shows "media_inv (ct_media (client_step op s))"
proof (cases op)
  case (Begin_Submit n k user now authority)
  then show ?thesis using inv
    by (cases rule: reserve_cases [of k user now s]; cases authority) (simp_all add: begin_submit_def)
next
  case (Cancel_Call k user now authority)
  then show ?thesis using inv
    by (cases rule: reserve_cases [of k user now s]; cases authority) (simp_all add: cancel_call_def)
next
  case (Complete_Submit n token out validated now authority)
  let ?s0 = "s\<lparr>ct_inflight := AList.delete n (ct_inflight s)\<rparr>"
  show ?thesis
  proof (cases rule: complete_cases [where n = n and token = token and out = out and validated = validated and now = now
        and authority = authority and s = s])
    case stuck
    then show ?thesis using Complete_Submit inv by (simp add: after_def)
  next
    case (refused k c e s1)
    then have "media_inv (ct_media s1)"
      using inv prepared_media_inv [of ?s0] drop_output_media_inv by auto
    then show ?thesis using Complete_Submit refused by (simp add: after_def)
  next
    case (answered k c d s1)
    then have "media_inv (ct_media s1)" using inv prepared_media_inv [of ?s0] by auto
    then show ?thesis using Complete_Submit answered by (simp add: after_def)
  qed
next
  case (End_Run run)
  have "media_inv (fold (\<lambda>(r, sc). if r = run then clear_leases sc else id) xs m)" if "media_inv m" for xs m
    using that
  proof (induction xs arbitrary: m)
    case (Cons x xs)
    have "media_inv (clear_leases sc m)" for sc using media_step_inv [OF Cons.prems, of "M_Clear sc"] by simp
    then show ?case using Cons by (cases x) simp
  qed simp
  then show ?thesis using End_Run inv by (simp add: end_run_def)
next
  case (Deliver k cancelling)
  then show ?thesis using inv by (auto simp: deliver_result_def after_def split: option.split ct_future.split delivery.split)
next
  case (Give_Up k e)
  then show ?thesis using inv by (auto simp: give_up_def after_def split: option.split)
next
  case (Abort_Submit n)
  then show ?thesis using inv by (simp add: abort_submit_def split: option.split)
qed (use inv in \<open>simp_all add: open_call_def media_step_inv\<close>)

interpretation client_media: guarded_store "client_tools_of (media_init (int n))" client_step "\<lambda>_. True" "\<lambda>s. media_inv (ct_media s)"
  by unfold_locales (simp add: client_tools_of_def media_inv_init, rule client_step_media)

text \<open>
  A refused answer leaves nothing behind: if completing a submission raises, whatever was
  staged for it is gone - every lease of every scope and the byte counter are what they were -
  and the call still waits for an answer if it did before.
\<close>

theorem refused_answer_leaves_no_media:
  assumes run: "s = fold client_step ops (client_tools_of (media_init (int n)))"
    and refused: "complete_submit j token out validated now authority s = Some (Inl e, s')"
  shows "(\<forall>i. lease_at (ct_media s') i = lease_at (ct_media s) i) \<and> tm_total_bytes (ct_media s') = tm_total_bytes (ct_media s) \<and>
    (\<forall>k c. call_at s k = Some c \<longrightarrow> (\<exists>c'. call_at s' k = Some c' \<and> ct_future c' = ct_future c))"
proof -
  have inv: "media_inv (ct_media s)" unfolding run by (rule client_media.inv_run) (simp add: list_all_iff)
  let ?s0 = "s\<lparr>ct_inflight := AList.delete j (ct_inflight s)\<rparr>"
  show ?thesis
  proof (cases rule: complete_cases [where n = j and token = token and out = out and validated = validated and now = now
        and authority = authority and s = s])
    case (refused k c e' s1)
    have s': "s' = release_submission k s1" using refused(3) assms(2) by simp
    have "(\<forall>i. lease_at (ct_media s1) i = lease_at (ct_media s) i) \<and> tm_total_bytes (ct_media s1) = tm_total_bytes (ct_media s)"
      using refused(7) prepared_rejected [of ?s0 token c out validated] inv by fastforce
    moreover have "\<exists>c'. call_at s' k' = Some c' \<and> ct_future c' = ct_future q" if "call_at s k' = Some q" for k' q
      using that refused(2,4) by (auto simp: s' release_submission_def)
    ultimately show ?thesis using s' by simp
  qed (use assms(2) in simp_all)
qed

text \<open>An answer with an image that comes after the deadline.\<close>

lemma late_answer:
  "complete_submit 1 token_n PyNone (Inr (PyNone, [\<lparr>mi_kind = ''image'', mi_media_type = ''image/png'', mi_data = ''abc'', mi_metadata = PyNone\<rparr>])) 70 None
     (fold client_step [Open ''k'' (sample_request False) 0 60, Begin_Submit 1 ''k'' ''u'' 5 None] (client_tools_of (media_init (int 9)))) =
   Some (Inl (ClientToolError ''client tool request is expired''),
     snd (the (complete_submit 1 token_n PyNone (Inr (PyNone, [\<lparr>mi_kind = ''image'', mi_media_type = ''image/png'', mi_data = ''abc'', mi_metadata = PyNone\<rparr>])) 70 None
     (fold client_step [Open ''k'' (sample_request False) 0 60, Begin_Submit 1 ''k'' ''u'' 5 None] (client_tools_of (media_init (int 9)))))))"
  by (simp add: sample_request_def client_tools_of_def open_call_def begin_submit_def reserve_submission_def complete_submit_def
      prepared_output_def commit_output_def drop_output_def client_error_def stage_def media_init_def new_id.simps token_n_def lease_name_def
      transient_scope_def release_submission_def commit_leases_def Let_def)

lemma refused_answer_leaves_no_media_witness:
  "\<exists>s s'. complete_submit 1 token_n PyNone (Inr (PyNone, [\<lparr>mi_kind = ''image'', mi_media_type = ''image/png'', mi_data = ''abc'', mi_metadata = PyNone\<rparr>])) 70 None s =
      Some (Inl (ClientToolError ''client tool request is expired''), s') \<and>
    (\<forall>i. lease_at (ct_media s') i = lease_at (ct_media s) i) \<and> tm_total_bytes (ct_media s') = tm_total_bytes (ct_media s)"
  using refused_answer_leaves_no_media [OF refl late_answer] late_answer by blast

end
