(* ===== verification/Asset_Inspection.thy ===== *)
theory Asset_Inspection
  imports Continuation_Records "HOL-Library.Word"
begin

unbundle bit_operations_syntax

text \<open>
  Inspection of uploaded content (\<^verbatim>\<open>asset_inspection.py\<close>): the type is detected from the
  signature, the container is walked without decoding it, and hard server limits are applied to
  what the walk found. Content is a list of bytes, offsets are natural numbers.

  Slices are total as in Python (\<^verbatim>\<open>data[a:b]\<close> is shorter when the content is); an index outside the
  content is an \<open>IndexError\<close>, \<^verbatim>\<open>struct.unpack_from\<close> outside it a \<open>StructError\<close>, a division by
  zero a \<open>ZeroDivisionError\<close>, and the constructor of the metadata raises a \<open>ValueError\<close>. That
  none of them ever leaves \<open>inspect_asset\<close> is a theorem, not part of the model.
\<close>


section \<open>Bytes\<close>

type_synonym bytes = "8 word list"

definition ascii :: "string \<Rightarrow> bytes" where
  "ascii s = map of_char s"

definition bytes_slice :: "nat \<Rightarrow> nat \<Rightarrow> bytes \<Rightarrow> bytes" where
  "bytes_slice a b data = take (b - a) (drop a data)"

definition from_big :: "bytes \<Rightarrow> nat" where
  "from_big bs = foldl (\<lambda>n b. 256 * n + unat b) 0 bs"

definition from_little :: "bytes \<Rightarrow> nat" where
  "from_little bs = foldr (\<lambda>b n. 256 * n + unat b) bs 0"

definition byte_at :: "bytes \<Rightarrow> nat \<Rightarrow> exc + nat" where
  "byte_at data offset =
     (if offset < length data then Inr (unat (data ! offset)) else Inl (IndexError ''index out of range''))"

definition bytes_start_with :: "bytes \<Rightarrow> bytes \<Rightarrow> bool" where
  "bytes_start_with data signature \<longleftrightarrow> take (length signature) data = signature"

definition u16be :: "bytes \<Rightarrow> nat \<Rightarrow> nat" where
  "u16be data offset = from_big (bytes_slice offset (offset + 2) data)"

definition u16le :: "bytes \<Rightarrow> nat \<Rightarrow> nat" where
  "u16le data offset = from_little (bytes_slice offset (offset + 2) data)"

definition u32be :: "bytes \<Rightarrow> nat \<Rightarrow> nat" where
  "u32be data offset = from_big (bytes_slice offset (offset + 4) data)"

definition u32le :: "bytes \<Rightarrow> nat \<Rightarrow> nat" where
  "u32le data offset = from_little (bytes_slice offset (offset + 4) data)"

text \<open>\<^verbatim>\<open>struct.unpack_from\<close> needs the whole format inside the buffer.\<close>

definition unpack_from :: "nat \<Rightarrow> bytes \<Rightarrow> nat \<Rightarrow> exc + unit" where
  "unpack_from n data offset =
     guard_that (offset + n \<le> length data) (StructError ''unpack_from requires a larger buffer'')"

text \<open>
  A generator that is consumed in order: the values it yields, and the exception it raises
  after the last of them, if any. \<^verbatim>\<open>list(g)\<close> raises it at once; a loop over \<^verbatim>\<open>g\<close> first runs its
  body on the values.
\<close>

type_synonym 'a generator = "'a list \<times> exc option"

definition yields :: "'a \<Rightarrow> 'a generator \<Rightarrow> 'a generator" where
  "yields x g = (x # fst g, snd g)"

definition list_of :: "'a generator \<Rightarrow> exc + 'a list" where
  "list_of g = (case snd g of Some e \<Rightarrow> Inl e | None \<Rightarrow> Inr (fst g))"

fun for_each :: "('a \<Rightarrow> 's \<Rightarrow> exc + 's) \<Rightarrow> 'a list \<Rightarrow> 's \<Rightarrow> exc + 's" where
  "for_each body [] s = Inr s"
| "for_each body (x # xs) s = sum_bind (body x s) (for_each body xs)"

definition for_each_yielded :: "('a \<Rightarrow> 's \<Rightarrow> exc + 's) \<Rightarrow> 'a generator \<Rightarrow> 's \<Rightarrow> exc + 's" where
  "for_each_yielded body g s =
     sum_bind (for_each body (fst g) s) (\<lambda>s'. case snd g of Some e \<Rightarrow> Inl e | None \<Rightarrow> Inr s')"


section \<open>Metadata and errors\<close>

definition malformed :: exc where
  "malformed = AssetInspectionError ''asset content is malformed''"

definition no_duration :: exc where
  "no_duration = AssetInspectionError ''asset media duration could not be established''"

record media_metadata =
  md_width :: "int option"
  md_height :: "int option"
  md_duration_seconds :: "pyfloat option"
  md_page_count :: "int option"
  md_frame_count :: "int option"
  md_channel_count :: "int option"
  md_sample_rate_hz :: "int option"

definition no_metadata :: media_metadata where
  "no_metadata = \<lparr> md_width = None, md_height = None, md_duration_seconds = None, md_page_count = None,
     md_frame_count = None, md_channel_count = None, md_sample_rate_hz = None \<rparr>"

definition require_optional_positive_integer :: "int option \<Rightarrow> exc option" where
  "require_optional_positive_integer value =
     require (case value of None \<Rightarrow> True | Some n \<Rightarrow> 0 < n) (ValueError ''asset media integer metadata must be positive'')"

definition require_optional_nonnegative_float :: "pyfloat option \<Rightarrow> exc option" where
  "require_optional_nonnegative_float value =
     require (case value of None \<Rightarrow> True | Some x \<Rightarrow> isfinite x \<and> \<not> f_lt x (Fin 0))
       (ValueError ''asset media duration must be finite and non-negative'')"

definition check_metadata :: "media_metadata \<Rightarrow> exc option" where
  "check_metadata md = check_all
     (map require_optional_positive_integer
        [md_width md, md_height md, md_page_count md, md_frame_count md, md_channel_count md, md_sample_rate_hz md] @
      [require_optional_nonnegative_float (md_duration_seconds md)])"

text \<open>The constructor: the record, or the exception of \<^verbatim>\<open>__post_init__\<close>.\<close>

definition make_metadata :: "media_metadata \<Rightarrow> exc + media_metadata" where
  "make_metadata md = (case check_metadata md of Some e \<Rightarrow> Inl e | None \<Rightarrow> Inr md)"

definition image_metadata :: "nat \<Rightarrow> nat \<Rightarrow> nat \<Rightarrow> exc + media_metadata" where
  "image_metadata width height frames = make_metadata (no_metadata
     \<lparr> md_width := Some (int width), md_height := Some (int height), md_frame_count := Some (int frames) \<rparr>)"


section \<open>PNG\<close>

definition png_signature :: bytes where
  "png_signature = [0x89] @ ascii ''PNG'' @ [0x0D, 0x0A, 0x1A, 0x0A]"

definition png_dimensions :: "bytes \<Rightarrow> exc + nat \<times> nat" where
  "png_dimensions data =
     (if length data < 33 \<or> bytes_slice 12 16 data \<noteq> ascii ''IHDR'' \<or> u32be data 8 \<noteq> 13 then Inl malformed
      else sum_bind (unpack_from 8 data 16) (\<lambda>_.
        let width = u32be data 16; height = u32be data 20 in
        if width = 0 \<or> height = 0 then Inl malformed else Inr (width, height)))"

text \<open>The loop over the chunks, from the current offset and frame count.\<close>

function png_chunks :: "bytes \<Rightarrow> nat \<Rightarrow> nat \<Rightarrow> exc + nat" where
  "png_chunks data offset frame_count =
     (if offset + 12 \<le> length data then
        let chunk_size = u32be data offset;
            chunk_end = offset + 12 + chunk_size;
            chunk_type = bytes_slice (offset + 4) (offset + 8) data in
        if chunk_end > length data then Inl malformed
        else sum_bind
          (if chunk_type = ascii ''acTL'' then
             if chunk_size \<noteq> 8 then Inl malformed
             else let frames = u32be data (offset + 8) in
                  if frames = 0 then Inl malformed else Inr frames
           else Inr frame_count)
          (\<lambda>frames. if chunk_type = ascii ''IEND'' then
                       if chunk_size = 0 then Inr frames else Inl malformed
                     else png_chunks data chunk_end frames)
      else Inl malformed)"
  by pat_completeness auto
termination
  by (relation "measure (\<lambda>(data, offset, _). length data - offset)") auto

declare png_chunks.simps [simp del]

definition png_frame_count :: "bytes \<Rightarrow> exc + nat" where
  "png_frame_count data = png_chunks data 8 1"

definition inspect_png :: "bytes \<Rightarrow> exc + media_metadata" where
  "inspect_png data = sum_bind (png_dimensions data) (\<lambda>(width, height).
     sum_bind (png_frame_count data) (image_metadata width height))"


section \<open>JPEG\<close>

definition jpeg_sof_markers :: "nat list" where
  "jpeg_sof_markers = [0xC0, 0xC1, 0xC2, 0xC3, 0xC5, 0xC6, 0xC7, 0xC9, 0xCA, 0xCB, 0xCD, 0xCE, 0xCF]"

definition jpeg_standalone_markers :: "nat list" where
  "jpeg_standalone_markers = 0x01 # [0xD0..<0xD9]"

text \<open>The padding: the first offset at or after \<open>offset\<close> whose byte is not 0xFF.\<close>

function skip_padding :: "bytes \<Rightarrow> nat \<Rightarrow> nat" where
  "skip_padding data offset =
     (if offset < length data \<and> data ! offset = 0xFF then skip_padding data (offset + 1) else offset)"
  by pat_completeness auto
termination
  by (relation "measure (\<lambda>(data, offset). length data - offset)") auto

declare skip_padding.simps [simp del]

definition next_jpeg_marker :: "bytes \<Rightarrow> nat \<Rightarrow> exc + nat \<times> nat" where
  "next_jpeg_marker data offset =
     (if offset \<ge> length data \<or> data ! offset \<noteq> 0xFF then Inl malformed
      else let offset' = skip_padding data offset in
        if offset' \<ge> length data \<or> data ! offset' = 0 then Inl malformed
        else sum_bind (byte_at data offset') (\<lambda>marker. Inr (marker, offset' + 1)))"

definition skip_jpeg_segment :: "bytes \<Rightarrow> nat \<Rightarrow> exc + nat" where
  "skip_jpeg_segment data offset =
     (if offset + 2 > length data then Inl malformed
      else let size = u16be data offset in
        if size < 2 \<or> offset + size > length data then Inl malformed else Inr (offset + size))"

definition jpeg_dimensions :: "bytes \<Rightarrow> nat \<Rightarrow> exc + media_metadata" where
  "jpeg_dimensions data offset =
     (if offset + 7 > length data then Inl malformed
      else let segment_size = u16be data offset in
        if segment_size < 7 \<or> offset + segment_size > length data then Inl malformed
        else let height = u16be data (offset + 3); width = u16be data (offset + 5) in
          if width = 0 \<or> height = 0 then Inl malformed else image_metadata width height 1)"

lemma skip_padding_le: "offset \<le> skip_padding data offset"
  by (induction data offset rule: skip_padding.induct) (subst skip_padding.simps, auto)

lemma next_jpeg_marker_moves:
  "next_jpeg_marker data offset = Inr (marker, offset') \<Longrightarrow> offset < offset' \<and> offset' \<le> length data"
  using skip_padding_le [of offset data]
  by (auto simp: next_jpeg_marker_def byte_at_def Let_def split: if_splits)

lemma skip_jpeg_segment_moves: "skip_jpeg_segment data offset = Inr offset' \<Longrightarrow> offset < offset'"
  by (auto simp: skip_jpeg_segment_def Let_def split: if_splits)

function jpeg_segments :: "bytes \<Rightarrow> nat \<Rightarrow> exc + media_metadata" where
  "jpeg_segments data offset =
     (if offset < length data then
        sum_bind (next_jpeg_marker data offset) (\<lambda>(marker, offset').
          if marker \<in> set jpeg_sof_markers then jpeg_dimensions data offset'
          else if marker \<in> {0xD9, 0xDA} then Inl malformed
          else if marker \<in> set jpeg_standalone_markers then jpeg_segments data offset'
          else sum_bind (skip_jpeg_segment data offset') (jpeg_segments data))
      else Inl malformed)"
  by pat_completeness auto
termination
  by (relation "measure (\<lambda>(data, offset). length data - offset)")
    (auto dest!: next_jpeg_marker_moves skip_jpeg_segment_moves)

declare jpeg_segments.simps [simp del]

definition inspect_jpeg :: "bytes \<Rightarrow> exc + media_metadata" where
  "inspect_jpeg data = jpeg_segments data 2"


section \<open>GIF\<close>

definition gif_color_table_size :: "nat \<Rightarrow> nat" where
  "gif_color_table_size packed =
     (if packed AND 0x80 \<noteq> 0 then 3 * push_bit ((packed AND 0x07) + 1) 1 else 0)"

function skip_gif_sub_blocks :: "bytes \<Rightarrow> nat \<Rightarrow> exc + nat" where
  "skip_gif_sub_blocks data offset =
     (if offset < length data then
        sum_bind (byte_at data offset) (\<lambda>n.
          if n = 0 then Inr (offset + 1)
          else if offset + 1 + n > length data then Inl malformed
          else skip_gif_sub_blocks data (offset + 1 + n))
      else Inl malformed)"
  by pat_completeness auto
termination
  by (relation "measure (\<lambda>(data, offset). length data - offset)") auto

declare skip_gif_sub_blocks.simps [simp del]

definition skip_gif_extension :: "bytes \<Rightarrow> nat \<Rightarrow> exc + nat" where
  "skip_gif_extension data offset =
     (if offset \<ge> length data then Inl malformed else skip_gif_sub_blocks data (offset + 1))"

definition skip_gif_image :: "bytes \<Rightarrow> nat \<Rightarrow> nat \<Rightarrow> nat \<Rightarrow> exc + nat" where
  "skip_gif_image data offset canvas_width canvas_height =
     (if offset + 9 > length data then Inl malformed
      else sum_bind (unpack_from 8 data offset) (\<lambda>_.
        let left = u16le data offset; upper = u16le data (offset + 2);
            width = u16le data (offset + 4); height = u16le data (offset + 6) in
        if width = 0 \<or> height = 0 then Inl malformed
        else if left + width > canvas_width \<or> upper + height > canvas_height then Inl malformed
        else sum_bind (byte_at data (offset + 8)) (\<lambda>packed.
          let offset' = offset + 9 + gif_color_table_size packed in
          if offset' \<ge> length data then Inl malformed else skip_gif_sub_blocks data (offset' + 1))))"

lemma skip_gif_sub_blocks_moves:
  "skip_gif_sub_blocks data offset = Inr offset' \<Longrightarrow> offset < offset' \<and> offset' \<le> length data"
proof (induction data offset rule: skip_gif_sub_blocks.induct)
  case (1 data offset)
  from 1(2) have *: "sum_bind (byte_at data offset) (\<lambda>n.
          if n = 0 then Inr (offset + 1)
          else if offset + 1 + n > length data then Inl malformed
          else skip_gif_sub_blocks data (offset + 1 + n)) = Inr offset'" "offset < length data"
    by (subst (asm) skip_gif_sub_blocks.simps, simp split: if_splits)+
  then obtain n where n: "byte_at data offset = Inr n" "n = 0 \<longrightarrow> offset' = offset + 1"
      "n \<noteq> 0 \<longrightarrow> \<not> offset + 1 + n > length data \<and> skip_gif_sub_blocks data (offset + 1 + n) = Inr offset'"
    by (auto simp: sum_bind_Inr split: if_splits)
  with 1(1) [OF *(2) n(1)] *(2) show ?case by (cases "n = 0") auto
qed

lemma skip_gif_extension_moves: "skip_gif_extension data offset = Inr offset' \<Longrightarrow> offset < offset'"
  by (auto simp: skip_gif_extension_def dest: skip_gif_sub_blocks_moves split: if_splits)

lemma skip_gif_image_moves: "skip_gif_image data offset w h = Inr offset' \<Longrightarrow> offset < offset'"
  by (auto simp: skip_gif_image_def Let_def sum_bind_Inr dest!: skip_gif_sub_blocks_moves split: if_splits)

text \<open>The loop over the blocks, from the current offset and frame count.\<close>

function gif_blocks :: "bytes \<Rightarrow> nat \<Rightarrow> nat \<Rightarrow> nat \<Rightarrow> nat \<Rightarrow> exc + media_metadata" where
  "gif_blocks data width height offset frames =
     (if offset < length data then
        sum_bind (byte_at data offset) (\<lambda>introducer.
          if introducer = 0x3B then
            if frames = 0 then Inl malformed else image_metadata width height frames
          else if introducer = 0x21 then
            sum_bind (skip_gif_extension data (offset + 1))
              (\<lambda>offset'. gif_blocks data width height offset' frames)
          else if introducer = 0x2C then
            sum_bind (skip_gif_image data (offset + 1) width height)
              (\<lambda>offset'. gif_blocks data width height offset' (frames + 1))
          else Inl malformed)
      else Inl malformed)"
  by pat_completeness auto
termination
  by (relation "measure (\<lambda>(data, _, _, offset, _). length data - offset)")
    (auto dest!: skip_gif_extension_moves skip_gif_image_moves)

declare gif_blocks.simps [simp del]

definition inspect_gif :: "bytes \<Rightarrow> exc + media_metadata" where
  "inspect_gif data =
     (if length data < 13 then Inl malformed
      else sum_bind (unpack_from 4 data 6) (\<lambda>_.
        let width = u16le data 6; height = u16le data 8 in
        if width = 0 \<or> height = 0 then Inl malformed
        else sum_bind (byte_at data 10) (\<lambda>packed.
          gif_blocks data width height (13 + gif_color_table_size packed) 0)))"


section \<open>RIFF containers: WebP and WAV\<close>

text \<open>The chunk walk both RIFF readers share: \<open>stop\<close> is the declared end, or that of the content.\<close>

function riff_walk :: "bytes \<Rightarrow> nat \<Rightarrow> nat \<Rightarrow> (bytes \<times> bytes) generator" where
  "riff_walk data stop offset =
     (if offset + 8 \<le> stop then
        let n = u32le data (offset + 4);
            payload_start = offset + 8;
            payload_end = payload_start + n in
        if payload_end > stop then ([], Some malformed)
        else yields (bytes_slice offset (offset + 4) data, bytes_slice payload_start payload_end data)
               (riff_walk data stop (payload_end + (n AND 1)))
      else if offset \<noteq> stop then ([], Some malformed) else ([], None))"
  by pat_completeness auto
termination
  by (relation "measure (\<lambda>(data, stop, offset). stop - offset)") auto

declare riff_walk.simps [simp del]

definition webp_chunks :: "bytes \<Rightarrow> nat \<Rightarrow> (bytes \<times> bytes) generator" where
  "webp_chunks data stop = riff_walk data stop 12"

definition riff_chunks :: "bytes \<Rightarrow> (bytes \<times> bytes) generator" where
  "riff_chunks data = riff_walk data (length data) 12"

definition validate_webp_frame :: "nat \<Rightarrow> nat \<Rightarrow> bytes \<Rightarrow> unit \<Rightarrow> exc + unit" where
  "validate_webp_frame canvas_width canvas_height payload _ =
     (if length payload < 16 then Inl malformed
      else let left = 2 * from_little (bytes_slice 0 3 payload);
               upper = 2 * from_little (bytes_slice 3 6 payload);
               width = from_little (bytes_slice 6 9 payload) + 1;
               height = from_little (bytes_slice 9 12 payload) + 1 in
        guard_that (\<not> (left + width > canvas_width \<or> upper + height > canvas_height)) malformed)"

definition inspect_webp_extended :: "bytes \<Rightarrow> (bytes \<times> bytes) list \<Rightarrow> exc + media_metadata" where
  "inspect_webp_extended payload chunks =
     (if length payload \<noteq> 10 then Inl malformed
      else let width = from_little (bytes_slice 4 7 payload) + 1;
               height = from_little (bytes_slice 7 10 payload) + 1;
               frame_payloads = map snd (filter (\<lambda>(kind, body). kind = ascii ''ANMF'') chunks) in
        sum_bind (for_each (validate_webp_frame width height) frame_payloads ()) (\<lambda>_.
        sum_bind (byte_at payload 0) (\<lambda>flags.
          let animated = (flags AND 0x02 \<noteq> 0) in
          if animated \<noteq> (frame_payloads \<noteq> []) then Inl malformed
          else image_metadata width height (max 1 (length frame_payloads)))))"

definition inspect_webp_lossy :: "bytes \<Rightarrow> exc + media_metadata" where
  "inspect_webp_lossy payload =
     (if length payload < 10 \<or> bytes_slice 3 6 payload \<noteq> [0x9D, 0x01, 0x2A] then Inl malformed
      else let width = u16le payload 6 AND 0x3FFF; height = u16le payload 8 AND 0x3FFF in
        if width = 0 \<or> height = 0 then Inl malformed else image_metadata width height 1)"

definition inspect_webp_lossless :: "bytes \<Rightarrow> exc + media_metadata" where
  "inspect_webp_lossless payload =
     (if length payload < 5 then Inl malformed
      else sum_bind (byte_at payload 0) (\<lambda>signature.
        if signature \<noteq> 0x2F then Inl malformed
        else let packed = from_little (bytes_slice 1 5 payload);
                 width = (packed AND 0x3FFF) + 1;
                 height = (drop_bit 14 packed AND 0x3FFF) + 1 in
          image_metadata width height 1))"

fun webp_first :: "(bytes \<times> bytes) list \<Rightarrow> (bytes \<times> bytes) list \<Rightarrow> exc + media_metadata" where
  "webp_first chunks [] = Inl malformed"
| "webp_first chunks ((kind, payload) # rest) =
     (if kind = ascii ''VP8X'' then inspect_webp_extended payload chunks
      else if kind = ascii ''VP8 '' then inspect_webp_lossy payload
      else if kind = ascii ''VP8L'' then inspect_webp_lossless payload
      else webp_first chunks rest)"

definition inspect_webp :: "bytes \<Rightarrow> exc + media_metadata" where
  "inspect_webp data =
     (let riff_size = u32le data 4 in
      if riff_size + 8 > length data then Inl malformed
      else sum_bind (list_of (webp_chunks data (min (length data) (riff_size + 8))))
        (\<lambda>chunks. webp_first chunks chunks))"

type_synonym wav_format = "nat \<times> nat \<times> nat \<times> nat"

definition parse_wav_format :: "bytes \<Rightarrow> exc + wav_format" where
  "parse_wav_format payload =
     (if length payload < 16 then Inl malformed
      else sum_bind (unpack_from 14 payload 0) (\<lambda>_.
        let format_tag = u16le payload 0; channels = u16le payload 2;
            sample_rate = u32le payload 4; byte_rate = u32le payload 8; block_align = u16le payload 12 in
        if format_tag \<notin> {1, 3} \<or> min channels (min sample_rate (min byte_rate block_align)) \<le> 0
        then Inl no_duration
        else if byte_rate \<noteq> sample_rate * block_align then Inl malformed
        else Inr (channels, sample_rate, byte_rate, block_align)))"

definition wav_chunk :: "bytes \<times> bytes \<Rightarrow> wav_format option \<times> nat \<Rightarrow> exc + wav_format option \<times> nat" where
  "wav_chunk chunk st =
     (let (kind, payload) = chunk; (fmt, data_bytes) = st in
      if kind = ascii ''fmt '' then sum_bind (parse_wav_format payload) (\<lambda>f. Inr (Some f, data_bytes))
      else if kind = ascii ''data'' then Inr (fmt, data_bytes + length payload)
      else Inr st)"

definition int_divide :: "nat \<Rightarrow> nat \<Rightarrow> exc + pyfloat" where
  "int_divide a b = (if b = 0 then Inl (ZeroDivisionError ''division by zero'') else Inr (Fin (of_nat a / of_nat b)))"

definition int_modulo :: "nat \<Rightarrow> nat \<Rightarrow> exc + nat" where
  "int_modulo a b = (if b = 0 then Inl (ZeroDivisionError ''integer modulo by zero'') else Inr (a mod b))"

definition inspect_wav :: "bytes \<Rightarrow> exc + media_metadata" where
  "inspect_wav data =
     (if u32le data 4 + 8 \<noteq> length data then Inl malformed
      else sum_bind (for_each_yielded wav_chunk (riff_chunks data) (None, 0)) (\<lambda>(fmt, data_bytes).
        case fmt of None \<Rightarrow> Inl malformed | Some (channels, sample_rate, byte_rate, block_align) \<Rightarrow>
          if data_bytes = 0 then Inl malformed
          else sum_bind (int_modulo data_bytes block_align) (\<lambda>r.
            if r \<noteq> 0 then Inl malformed
            else sum_bind (int_divide data_bytes byte_rate) (\<lambda>duration.
              make_metadata (no_metadata \<lparr> md_duration_seconds := Some duration,
                md_channel_count := Some (int channels), md_sample_rate_hz := Some (int sample_rate) \<rparr>)))))"


section \<open>PDF and opaque content\<close>

definition inspect_pdf :: "bytes \<Rightarrow> exc + media_metadata" where
  "inspect_pdf data =
     (if \<not> sublist (ascii ''%%EOF'') (drop (length data - 1024) data) then Inl malformed
      else make_metadata no_metadata)"

definition inspect_opaque :: "bytes \<Rightarrow> exc + media_metadata" where
  "inspect_opaque _ = make_metadata no_metadata"

definition duration_unavailable :: "bytes \<Rightarrow> exc + media_metadata" where
  "duration_unavailable _ = Inl no_duration"


section \<open>ISO base media (MP4)\<close>

type_synonym box = "bytes \<times> nat \<times> nat"

text \<open>The size and the header size of the box at \<open>offset\<close>: 32 bits, 64 bits, or to the end.\<close>

definition mp4_box_size :: "bytes \<Rightarrow> nat \<Rightarrow> nat \<Rightarrow> exc + nat \<times> nat" where
  "mp4_box_size data offset stop =
     (let n = u32be data offset in
      if n = 1 then
        if stop - offset < 16 then Inl malformed
        else Inr (from_big (bytes_slice (offset + 8) (offset + 16) data), 16)
      else if n = 0 then Inr (stop - offset, 8)
      else Inr (n, 8))"

lemma mp4_box_size_header: "mp4_box_size data offset stop = Inr (n, header) \<Longrightarrow> 8 \<le> header"
  by (auto simp: mp4_box_size_def Let_def split: if_splits)

function mp4_boxes :: "bytes \<Rightarrow> nat \<Rightarrow> nat \<Rightarrow> box generator" where
  "mp4_boxes data offset stop =
     (if offset < stop then
        if stop - offset < 8 then ([], Some malformed)
        else case mp4_box_size data offset stop of
          Inl e \<Rightarrow> ([], Some e)
        | Inr (n, header) \<Rightarrow>
            if n < header \<or> offset + n > stop then ([], Some malformed)
            else yields (bytes_slice (offset + 4) (offset + 8) data, offset + header, offset + n)
                   (mp4_boxes data (offset + n) stop)
      else ([], None))"
  by pat_completeness auto
termination
  by (relation "measure (\<lambda>(data, offset, stop). stop - offset)") (auto dest: mp4_box_size_header)

declare mp4_boxes.simps [simp del]

definition boxes_of :: "string \<Rightarrow> box list \<Rightarrow> (nat \<times> nat) list" where
  "boxes_of name boxes = map snd (filter (\<lambda>(kind, start, stop). kind = ascii name) boxes)"

definition mp4_duration_fields ::
    "bytes \<Rightarrow> nat \<Rightarrow> nat \<Rightarrow> nat \<Rightarrow> nat \<Rightarrow> nat \<Rightarrow> nat \<Rightarrow> exc + pyfloat" where
  "mp4_duration_fields data start stop timescale_offset duration_offset minimum_size unknown_duration =
     (if stop - start < minimum_size then Inl malformed
      else let duration_size = if unknown_duration > 0xFFFFFFFF then 8 else 4;
               timescale = u32be data (start + timescale_offset);
               duration = from_big (bytes_slice (start + duration_offset) (start + duration_offset + duration_size) data) in
        if timescale = 0 \<or> duration = unknown_duration then Inl no_duration
        else int_divide duration timescale)"

definition parse_mp4_duration :: "bytes \<Rightarrow> nat \<Rightarrow> nat \<Rightarrow> exc + pyfloat" where
  "parse_mp4_duration data start stop =
     (if start \<ge> stop then Inl malformed
      else sum_bind (byte_at data start) (\<lambda>version.
        if version = 0 then mp4_duration_fields data start stop 12 16 100 0xFFFFFFFF
        else if version = 1 then mp4_duration_fields data start stop 20 24 112 0xFFFFFFFFFFFFFFFF
        else Inl no_duration))"

definition parse_mp4_track_dimensions :: "bytes \<Rightarrow> nat \<Rightarrow> nat \<Rightarrow> exc + (nat \<times> nat) option" where
  "parse_mp4_track_dimensions data start stop =
     (if start \<ge> stop then Inl malformed
      else sum_bind (byte_at data start) (\<lambda>version.
        case (if version = 0 then Some 84 else if version = 1 then Some (96 :: nat) else None) of
          None \<Rightarrow> Inl malformed
        | Some expected_size \<Rightarrow>
            if stop - start < expected_size then Inl malformed
            else let width_fixed = u32be data (start + expected_size - 8);
                     height_fixed = u32be data (start + expected_size - 4) in
              if width_fixed = 0 \<and> height_fixed = 0 then Inr None
              else if width_fixed = 0 \<or> height_fixed = 0 then Inl malformed
              else Inr (Some (drop_bit 16 (width_fixed + 0xFFFF), drop_bit 16 (height_fixed + 0xFFFF)))))"

definition inspect_mp4_track :: "bytes \<Rightarrow> nat \<Rightarrow> nat \<Rightarrow> exc + (nat \<times> nat) option" where
  "inspect_mp4_track data start stop =
     sum_bind (list_of (mp4_boxes data start stop)) (\<lambda>children.
       case boxes_of ''tkhd'' children of
         [(header_start, header_end)] \<Rightarrow> parse_mp4_track_dimensions data header_start header_end
       | _ \<Rightarrow> Inl malformed)"

definition track_step :: "bytes \<Rightarrow> box \<Rightarrow> (nat \<times> nat) list \<Rightarrow> exc + (nat \<times> nat) list" where
  "track_step data child dimensions =
     (case child of (kind, start, stop) \<Rightarrow>
        if kind \<noteq> ascii ''trak'' then Inr dimensions
        else sum_bind (inspect_mp4_track data start stop) (\<lambda>found.
          case found of None \<Rightarrow> Inr dimensions | Some d \<Rightarrow> Inr (dimensions @ [d])))"

text \<open>\<^verbatim>\<open>max(..., key=area)\<close> keeps the first of the largest.\<close>

definition largest :: "nat \<times> nat \<Rightarrow> (nat \<times> nat) list \<Rightarrow> nat \<times> nat" where
  "largest d ds = foldl (\<lambda>best e. if fst best * snd best < fst e * snd e then e else best) d ds"

definition mp4_track_dimensions :: "bytes \<Rightarrow> box list \<Rightarrow> exc + (nat \<times> nat) option" where
  "mp4_track_dimensions data movie_children =
     sum_bind (for_each (track_step data) movie_children []) (\<lambda>dimensions.
       case dimensions of [] \<Rightarrow> Inr None | d # ds \<Rightarrow> Inr (Some (largest d ds)))"

definition inspect_mp4_movie :: "bytes \<Rightarrow> nat \<Rightarrow> nat \<Rightarrow> exc + media_metadata" where
  "inspect_mp4_movie data start stop =
     sum_bind (list_of (mp4_boxes data start stop)) (\<lambda>children.
       if boxes_of ''mvex'' children \<noteq> [] then Inl no_duration
       else case boxes_of ''mvhd'' children of
         [(header_start, header_end)] \<Rightarrow>
           sum_bind (parse_mp4_duration data header_start header_end) (\<lambda>duration.
           sum_bind (mp4_track_dimensions data children) (\<lambda>dimensions.
             make_metadata (no_metadata
               \<lparr> md_width := map_option (int \<circ> fst) dimensions, md_height := map_option (int \<circ> snd) dimensions,
                 md_duration_seconds := Some duration \<rparr>)))
       | _ \<Rightarrow> Inl no_duration)"

definition inspect_mp4 :: "bytes \<Rightarrow> exc + media_metadata" where
  "inspect_mp4 data =
     sum_bind (list_of (mp4_boxes data 0 (length data))) (\<lambda>boxes.
       case boxes of
         [] \<Rightarrow> Inl malformed
       | (kind, start, stop) # _ \<Rightarrow>
           if kind \<noteq> ascii ''ftyp'' then Inl malformed
           else if stop - start < 8 then Inl malformed
           else if boxes_of ''moof'' boxes \<noteq> [] then Inl no_duration
           else case boxes_of ''moov'' boxes of
             [(movie_start, movie_end)] \<Rightarrow> inspect_mp4_movie data movie_start movie_end
           | _ \<Rightarrow> Inl no_duration)"


section \<open>Detection and policy\<close>

definition max_asset_bytes :: nat where
  "max_asset_bytes = 10 * 1024 * 1024"

definition max_image_pixels :: int where
  "max_image_pixels = 16000000"

definition max_media_duration_seconds :: rat where
  "max_media_duration_seconds = 300"

definition allowed_media_types :: "string list" where
  "allowed_media_types =
     [''application/pdf'', ''application/octet-stream'', ''audio/mpeg'', ''audio/wav'', ''image/gif'',
      ''image/jpeg'', ''image/png'', ''image/webp'', ''video/mp4'', ''video/webm'']"

definition is_png :: "bytes \<Rightarrow> bool" where
  "is_png data = bytes_start_with data png_signature"

definition is_jpeg :: "bytes \<Rightarrow> bool" where
  "is_jpeg data = bytes_start_with data [0xFF, 0xD8]"

definition is_gif :: "bytes \<Rightarrow> bool" where
  "is_gif data \<longleftrightarrow> bytes_start_with data (ascii ''GIF87a'') \<or> bytes_start_with data (ascii ''GIF89a'')"

definition is_webp :: "bytes \<Rightarrow> bool" where
  "is_webp data \<longleftrightarrow> 12 \<le> length data \<and> take 4 data = ascii ''RIFF'' \<and> bytes_slice 8 12 data = ascii ''WEBP''"

definition is_pdf :: "bytes \<Rightarrow> bool" where
  "is_pdf data = bytes_start_with data (ascii ''%PDF-'')"

definition is_wav :: "bytes \<Rightarrow> bool" where
  "is_wav data \<longleftrightarrow> 12 \<le> length data \<and> take 4 data = ascii ''RIFF'' \<and> bytes_slice 8 12 data = ascii ''WAVE''"

definition is_mp3 :: "bytes \<Rightarrow> bool" where
  "is_mp3 data \<longleftrightarrow> bytes_start_with data (ascii ''ID3'') \<or>
     2 \<le> length data \<and> data ! 0 = 0xFF \<and> data ! 1 AND 0xE0 = 0xE0"

definition is_mp4 :: "bytes \<Rightarrow> bool" where
  "is_mp4 data \<longleftrightarrow> 12 \<le> length data \<and> bytes_slice 4 8 data = ascii ''ftyp''"

definition is_webm :: "bytes \<Rightarrow> bool" where
  "is_webm data = bytes_start_with data [0x1A, 0x45, 0xDF, 0xA3]"

definition detectors :: "((bytes \<Rightarrow> bool) \<times> string \<times> (bytes \<Rightarrow> exc + media_metadata)) list" where
  "detectors =
     [(is_png, ''image/png'', inspect_png),
      (is_jpeg, ''image/jpeg'', inspect_jpeg),
      (is_gif, ''image/gif'', inspect_gif),
      (is_webp, ''image/webp'', inspect_webp),
      (is_pdf, ''application/pdf'', inspect_pdf),
      (is_wav, ''audio/wav'', inspect_wav),
      (is_mp3, ''audio/mpeg'', duration_unavailable),
      (is_mp4, ''video/mp4'', inspect_mp4),
      (is_webm, ''video/webm'', duration_unavailable)]"

definition detect_format :: "bytes \<Rightarrow> string \<Rightarrow> exc + string \<times> (bytes \<Rightarrow> exc + media_metadata)" where
  "detect_format data declared =
     (case find (\<lambda>(detector, _, _). detector data) detectors of
        Some (_, media_type, inspector) \<Rightarrow> Inr (media_type, inspector)
      | None \<Rightarrow>
          if declared = ''application/octet-stream'' then Inr (declared, inspect_opaque)
          else Inl (AssetInspectionError ''asset format is unsupported''))"

definition require_content :: "bytes \<Rightarrow> exc + unit" where
  "require_content data =
     (if data = [] then Inl (AssetInspectionError ''asset content is invalid'')
      else guard_that (\<not> length data > max_asset_bytes) (AssetInspectionError ''asset exceeds server size limit''))"

text \<open>\<^verbatim>\<open>str.lower()\<close> on the characters that can occur in a media type.\<close>

definition to_lower :: "string \<Rightarrow> string" where
  "to_lower s = map (\<lambda>c. if upper_case c then char_of (of_char c + 32 :: nat) else c) s"

definition media_type_part :: "string \<Rightarrow> bool" where
  "media_type_part s = matches (\<lambda>c. lower_case c \<or> digit c)
     (\<lambda>c. lower_case c \<or> digit c \<or> c \<in> set ''!#$&^_.+-'') 126 s"

definition media_type_pattern :: "string \<Rightarrow> bool" where
  "media_type_pattern s \<longleftrightarrow> media_type_part (takeWhile (\<lambda>c. c \<noteq> CHR ''/'') s) \<and>
     (case dropWhile (\<lambda>c. c \<noteq> CHR ''/'') s of [] \<Rightarrow> False | _ # subtype \<Rightarrow> media_type_part subtype)"

definition normalize_declared_media_type :: "string \<Rightarrow> exc + string" where
  "normalize_declared_media_type value =
     (let normalized = to_lower (strip (takeWhile (\<lambda>c. c \<noteq> CHR '';'') value)) in
      if media_type_pattern normalized then Inr normalized
      else Inl (AssetInspectionError ''asset media type is invalid''))"

definition enforce_pixel_policy :: "media_metadata \<Rightarrow> bool \<Rightarrow> exc + unit" where
  "enforce_pixel_policy md dimensions_required =
     (if md_width md = None \<and> md_height md = None \<and> \<not> dimensions_required then Inr ()
      else case (md_width md, md_height md) of
        (Some width, Some height) \<Rightarrow>
          guard_that (\<not> width * height > max_image_pixels)
            (AssetInspectionError ''asset image exceeds server pixel limit'')
      | _ \<Rightarrow> Inl malformed)"

definition enforce_metadata_policy :: "media_metadata \<Rightarrow> string \<Rightarrow> exc + unit" where
  "enforce_metadata_policy md media_type =
     sum_bind
       (if prefix ''image/'' media_type then enforce_pixel_policy md True
        else if prefix ''video/'' media_type then enforce_pixel_policy md False
        else Inr ())
       (\<lambda>_. if prefix ''audio/'' media_type \<or> prefix ''video/'' media_type then
              case md_duration_seconds md of
                None \<Rightarrow> Inl no_duration
              | Some duration \<Rightarrow>
                  guard_that (\<not> f_lt (Fin max_media_duration_seconds) duration)
                    (AssetInspectionError ''asset media exceeds server duration limit'')
            else Inr ())"

definition inspect_asset :: "bytes \<Rightarrow> string \<Rightarrow> exc + media_metadata \<times> string" where
  "inspect_asset content declared_media_type =
     sum_bind (require_content content) (\<lambda>_.
     sum_bind (normalize_declared_media_type declared_media_type) (\<lambda>declared.
     sum_bind (detect_format content declared) (\<lambda>(concrete, inspector).
       if concrete \<noteq> declared then
         Inl (AssetInspectionError ''asset type does not match declared media type'')
       else if concrete \<notin> set allowed_media_types then
         Inl (AssetInspectionError ''asset media type is not allowed'')
       else sum_bind (inspector content) (\<lambda>md.
            sum_bind (enforce_metadata_policy md concrete) (\<lambda>_. Inr (md, concrete))))))"

end
