(* ===== verification/Asset_Safety.thy ===== *)
theory Asset_Safety
  imports Asset_Inspection
begin

text \<open>
  No inspector lets an exception of the language escape: every walk either returns metadata the
  record accepts or raises one of two constant errors. \<open>safely P x\<close> says so of one step, with
  what its result satisfies.
\<close>

definition safely :: "('a \<Rightarrow> bool) \<Rightarrow> exc + 'a \<Rightarrow> bool" where
  "safely P x = (case x of Inl e \<Rightarrow> e = malformed \<or> e = no_duration | Inr v \<Rightarrow> P v)"

lemma safely_simps [simp]:
  "safely P (Inl e) \<longleftrightarrow> e = malformed \<or> e = no_duration" "safely P (Inr v) \<longleftrightarrow> P v"
  by (simp_all add: safely_def)

lemma safely_bind [intro]:
  "safely P x \<Longrightarrow> (\<And>v. P v \<Longrightarrow> x = Inr v \<Longrightarrow> safely Q (f v)) \<Longrightarrow> safely Q (sum_bind x f)"
  by (cases x) auto

lemma safely_mono: "safely P x \<Longrightarrow> (\<And>v. P v \<Longrightarrow> Q v) \<Longrightarrow> safely Q x"
  by (cases x) auto

lemma safely_if: "(b \<Longrightarrow> safely P x) \<Longrightarrow> (\<not> b \<Longrightarrow> safely P y) \<Longrightarrow> safely P (if b then x else y)"
  by simp

lemma for_each_safely:
  assumes "\<And>x s. x \<in> set xs \<Longrightarrow> P s \<Longrightarrow> safely P (body x s)" "P s"
  shows "safely P (for_each body xs s)"
  using assms by (induction xs arbitrary: s) (auto intro!: safely_bind)

definition generates :: "('a \<Rightarrow> bool) \<Rightarrow> 'a generator \<Rightarrow> bool" where
  "generates P g \<longleftrightarrow> list_all P (fst g) \<and> (case snd g of None \<Rightarrow> True | Some e \<Rightarrow> e = malformed \<or> e = no_duration)"

lemma generates_yields [simp]: "generates P (yields x g) \<longleftrightarrow> P x \<and> generates P g"
  by (auto simp: generates_def yields_def)

lemma generates_done [simp]:
  "generates P ([], None)" "generates P ([], Some e) \<longleftrightarrow> e = malformed \<or> e = no_duration"
  by (simp_all add: generates_def)

lemma list_of_safely: "generates P g \<Longrightarrow> safely (list_all P) (list_of g)"
  by (simp add: generates_def list_of_def split: option.splits)

lemma for_each_yielded_safely:
  assumes "\<And>x s. P s \<Longrightarrow> safely P (body x s)" "P s" "generates Q g"
  shows "safely P (for_each_yielded body g s)"
  unfolding for_each_yielded_def using assms
  by (intro safely_bind [of P] for_each_safely) (auto simp: generates_def split: option.splits)

lemma byte_at_in: "offset < length data \<Longrightarrow> byte_at data offset = Inr (unat (data ! offset))"
  by (simp add: byte_at_def)

lemma byte_at_first: "n < length data \<Longrightarrow> byte_at data 0 = Inr (unat (data ! 0))"
  by (simp add: byte_at_def) auto

lemma unpack_from_in: "offset + n \<le> length data \<Longrightarrow> unpack_from n data offset = Inr ()"
  by (simp add: unpack_from_def guard_that_def)

lemma check_metadata_None:
  "check_metadata md = None \<longleftrightarrow>
     (\<forall>f \<in> {md_width, md_height, md_page_count, md_frame_count, md_channel_count, md_sample_rate_hz}.
        \<forall>n. f md = Some n \<longrightarrow> 0 < n) \<and>
     (\<forall>x. md_duration_seconds md = Some x \<longrightarrow> isfinite x \<and> \<not> f_lt x (Fin 0))"
  by (auto simp: check_metadata_def require_optional_positive_integer_def
      require_optional_nonnegative_float_def split: option.splits)

lemma make_metadata_safely:
  assumes "check_metadata md = None"
  shows "safely (\<lambda>r. check_metadata r = None) (make_metadata md)"
  using assms by (simp add: make_metadata_def)

abbreviation sound :: "exc + media_metadata \<Rightarrow> bool" where
  "sound \<equiv> safely (\<lambda>md. check_metadata md = None)"

lemma image_metadata_sound [intro!]:
  "0 < width \<Longrightarrow> 0 < height \<Longrightarrow> 0 < frames \<Longrightarrow> sound (image_metadata width height frames)"
  unfolding image_metadata_def
  by (rule make_metadata_safely) (auto simp: check_metadata_None no_metadata_def)

lemma png_chunks_safely: "0 < frames \<Longrightarrow> safely (\<lambda>n. 0 < n) (png_chunks data offset frames)"
proof (induction data offset frames rule: png_chunks.induct)
  case (1 data offset frames)
  show ?case
    by (subst png_chunks.simps) (use 1 in \<open>auto simp: Let_def intro!: safely_bind [where P = "\<lambda>n. 0 < n"]\<close>)
qed

lemma inspect_png_sound: "sound (inspect_png data)"
proof -
  have "safely (\<lambda>(w, h). 0 < w \<and> 0 < h) (png_dimensions data)"
    by (auto simp: png_dimensions_def Let_def unpack_from_in)
  then show ?thesis
    unfolding inspect_png_def png_frame_count_def
    by (rule safely_bind) (auto intro!: safely_bind [OF png_chunks_safely])
qed

lemma jpeg_segments_sound: "sound (jpeg_segments data offset)"
proof (induction data offset rule: jpeg_segments.induct)
  case (1 data offset)
  have m: "safely (\<lambda>_. True) (next_jpeg_marker data n)" and s: "safely (\<lambda>_. True) (skip_jpeg_segment data n)"
    and d: "sound (jpeg_dimensions data n)" for n
    by (auto simp: next_jpeg_marker_def skip_jpeg_segment_def jpeg_dimensions_def Let_def byte_at_in)
  show ?case
    by (subst jpeg_segments.simps) (use 1 d in \<open>auto intro!: safely_bind [OF m] safely_bind [OF s]\<close>)
qed

lemma skip_gif_sub_blocks_safely: "safely (\<lambda>_. True) (skip_gif_sub_blocks data offset)"
proof (induction data offset rule: skip_gif_sub_blocks.induct)
  case (1 data offset)
  then show ?case
    by (subst skip_gif_sub_blocks.simps) (auto simp: byte_at_in)
qed

lemma skip_gif_image_safely: "safely (\<lambda>_. True) (skip_gif_image data offset w h)"
  using skip_gif_sub_blocks_safely by (auto simp: skip_gif_image_def Let_def unpack_from_in byte_at_in)

lemma skip_gif_extension_safely: "safely (\<lambda>_. True) (skip_gif_extension data offset)"
  using skip_gif_sub_blocks_safely by (auto simp: skip_gif_extension_def)

lemma gif_blocks_sound: "0 < width \<Longrightarrow> 0 < height \<Longrightarrow> sound (gif_blocks data width height offset frames)"
proof (induction data width height offset frames rule: gif_blocks.induct)
  case (1 data width height offset frames)
  show ?case
    by (subst gif_blocks.simps)
      (use 1 in \<open>auto simp: byte_at_in intro!: safely_bind [OF skip_gif_image_safely] safely_bind [OF skip_gif_extension_safely]\<close>)
qed

lemma inspect_gif_sound: "sound (inspect_gif data)"
  by (auto simp: inspect_gif_def Let_def unpack_from_in byte_at_in intro!: gif_blocks_sound)

lemma riff_walk_generates: "generates (\<lambda>_. True) (riff_walk data stop offset)"
proof (induction data stop offset rule: riff_walk.induct)
  case (1 data stop offset)
  then show ?case by (subst riff_walk.simps) (simp add: Let_def)
qed

lemma inspect_webp_sound: "sound (inspect_webp data)"
proof -
  have l: "sound (inspect_webp_lossy p)" "sound (inspect_webp_lossless p)" for p
    by (auto simp: inspect_webp_lossy_def inspect_webp_lossless_def Let_def byte_at_first [of 4])
  have v: "safely (\<lambda>_. True) (for_each (validate_webp_frame w h) ps ())" for w h ps
    by (rule for_each_safely) (auto simp: validate_webp_frame_def Let_def guard_that_def)
  have x: "sound (inspect_webp_extended p cs)" for p cs
    unfolding inspect_webp_extended_def Let_def
    by (auto intro!: safely_bind [OF v] simp: byte_at_first [of 9])
  have "sound (webp_first cs rest)" for cs rest
    by (induction cs rest rule: webp_first.induct) (auto simp: l x)
  then show ?thesis
    unfolding inspect_webp_def Let_def webp_chunks_def
    by (auto intro!: safely_bind [OF list_of_safely [OF riff_walk_generates]])
qed


text \<open>The state of the WAV loop: a format already read has no zero field.\<close>

definition format_ok :: "wav_format \<Rightarrow> bool" where
  "format_ok f = (case f of (channels, rate, byte_rate, block) \<Rightarrow>
     0 < channels \<and> 0 < rate \<and> 0 < byte_rate \<and> 0 < block)"

definition wav_ok :: "wav_format option \<times> nat \<Rightarrow> bool" where
  "wav_ok st = pred_option format_ok (fst st)"

lemma parse_wav_format_safely: "safely format_ok (parse_wav_format payload)"
  by (auto simp: parse_wav_format_def Let_def unpack_from_in format_ok_def)

lemma wav_chunk_safely: "wav_ok st \<Longrightarrow> safely wav_ok (wav_chunk chunk st)"
  unfolding wav_chunk_def wav_ok_def Let_def
  by (auto split: prod.splits intro!: safely_bind [OF parse_wav_format_safely])

lemma int_divide_safely:
  "b \<noteq> 0 \<Longrightarrow> safely (\<lambda>x. isfinite x \<and> \<not> f_lt x (Fin 0)) (int_divide a b)"
  by (auto simp: int_divide_def divide_less_0_iff)

lemma inspect_wav_sound: "sound (inspect_wav data)"
proof -
  have w: "safely wav_ok (for_each_yielded wav_chunk (riff_chunks data) (None, 0))"
    unfolding riff_chunks_def
    by (rule for_each_yielded_safely [OF wav_chunk_safely _ riff_walk_generates]) (auto simp: wav_ok_def)
  show ?thesis
    unfolding inspect_wav_def
  proof (rule safely_if, simp, rule safely_bind [OF w], goal_cases)
    case (1 st)
    obtain fmt n where st: "st = (fmt, n)" by (cases st)
    show ?case
    proof (cases fmt)
      case (Some f)
      obtain c r b a where f: "f = (c, r, b, a)" by (cases f)
      from 1 st Some f have pos: "0 < c" "0 < r" "0 < b" "0 < a" by (auto simp: wav_ok_def format_ok_def)
      then have "sound (sum_bind (int_divide n b) (\<lambda>duration. make_metadata (no_metadata
          \<lparr> md_duration_seconds := Some duration, md_channel_count := Some (int c), md_sample_rate_hz := Some (int r) \<rparr>)))"
        by (intro safely_bind [OF int_divide_safely] make_metadata_safely)
          (auto simp: check_metadata_None no_metadata_def)
      with st Some f pos show ?thesis by (simp add: int_modulo_def)
    qed (simp add: st)
  qed
qed

definition in_bounds :: "bytes \<Rightarrow> box \<Rightarrow> bool" where
  "in_bounds data b = (case b of (_, start, stop) \<Rightarrow> start \<le> stop \<and> stop \<le> length data)"

lemma in_bounds_simp [simp]: "in_bounds data (kind, start, stop) \<longleftrightarrow> start \<le> stop \<and> stop \<le> length data"
  by (simp add: in_bounds_def)

lemma mp4_boxes_generate: "stop \<le> length data \<Longrightarrow> generates (in_bounds data) (mp4_boxes data offset stop)"
proof (induction data offset stop rule: mp4_boxes.induct)
  case (1 data offset stop)
  have "safely (\<lambda>_. True) (mp4_box_size data offset stop)"
    by (auto simp: mp4_box_size_def Let_def)
  then show ?case
    by (subst mp4_boxes.simps) (use 1 in \<open>auto split: sum.splits\<close>)
qed

lemma mp4_boxes_safely: "stop \<le> length data \<Longrightarrow> safely (list_all (in_bounds data)) (list_of (mp4_boxes data offset stop))"
  by (rule list_of_safely) (rule mp4_boxes_generate)

lemma boxes_of_within:
  "list_all (in_bounds data) boxes \<Longrightarrow> boxes_of name boxes = (start, stop) # rest \<Longrightarrow> stop \<le> length data"
  by (auto simp: boxes_of_def in_bounds_def list_all_iff filter_eq_Cons_iff)

lemma parse_mp4_duration_safely:
  "stop \<le> length data \<Longrightarrow> safely (\<lambda>x. isfinite x \<and> \<not> f_lt x (Fin 0)) (parse_mp4_duration data start stop)"
  by (auto simp: parse_mp4_duration_def mp4_duration_fields_def Let_def byte_at_in intro!: int_divide_safely)

definition dimensions_ok :: "nat \<times> nat \<Rightarrow> bool" where
  "dimensions_ok d \<longleftrightarrow> 0 < fst d \<and> 0 < snd d"

lemma fixed_point_rounds_up: "n \<noteq> 0 \<Longrightarrow> 0 < drop_bit 16 (n + 0xFFFF :: nat)"
  by (simp add: drop_bit_eq_div)

lemma parse_mp4_track_dimensions_safely:
  assumes "stop \<le> length data"
  shows "safely (pred_option dimensions_ok) (parse_mp4_track_dimensions data start stop)"
proof -
  have *: "safely (pred_option dimensions_ok)
     (let w = u32be data (start + n - 8); h = u32be data (start + n - 4) in
      if w = 0 \<and> h = 0 then Inr None else if w = 0 \<or> h = 0 then Inl malformed
      else Inr (Some (drop_bit 16 (w + 0xFFFF), drop_bit 16 (h + 0xFFFF))))" for n
    unfolding Let_def dimensions_ok_def by (auto intro!: fixed_point_rounds_up simp del: drop_bit_of_nat)
  show ?thesis
    unfolding parse_mp4_track_dimensions_def
    using assms * [of 84] * [of 96] by (auto simp: byte_at_in)
qed

lemma inspect_mp4_track_safely:
  assumes "stop \<le> length data"
  shows "safely (pred_option dimensions_ok) (inspect_mp4_track data start stop)"
  unfolding inspect_mp4_track_def
  by (rule safely_bind [OF mp4_boxes_safely [OF assms]])
    (auto split: list.splits prod.splits intro!: parse_mp4_track_dimensions_safely dest: boxes_of_within)

lemma largest_ok: "dimensions_ok d \<Longrightarrow> list_all dimensions_ok ds \<Longrightarrow> dimensions_ok (largest d ds)"
  unfolding largest_def by (induction ds arbitrary: d) auto

lemma mp4_track_dimensions_safely:
  assumes "list_all (in_bounds data) children"
  shows "safely (pred_option dimensions_ok) (mp4_track_dimensions data children)"
proof -
  have "safely (list_all dimensions_ok) (track_step data child ds)"
    if "child \<in> set children" "list_all dimensions_ok ds" for child ds
    using that assms
    by (auto simp: track_step_def list_all_iff in_bounds_def split: prod.splits option.splits
        intro!: safely_bind [OF inspect_mp4_track_safely])
  then have "safely (list_all dimensions_ok) (for_each (track_step data) children [])"
    by (rule for_each_safely) simp_all
  then show ?thesis
    unfolding mp4_track_dimensions_def
    by (rule safely_bind) (auto split: list.splits intro!: largest_ok)
qed

lemma inspect_mp4_movie_sound:
  assumes "stop \<le> length data"
  shows "sound (inspect_mp4_movie data start stop)"
  unfolding inspect_mp4_movie_def
proof (rule safely_bind [OF mp4_boxes_safely [OF assms]], rule safely_if, simp, goal_cases)
  case (1 children)
  have "sound (sum_bind (parse_mp4_duration data a b) (\<lambda>duration.
     sum_bind (mp4_track_dimensions data children) (\<lambda>dimensions.
       make_metadata (no_metadata
         \<lparr> md_width := map_option (int \<circ> fst) dimensions, md_height := map_option (int \<circ> snd) dimensions,
           md_duration_seconds := Some duration \<rparr>))))"
    if "boxes_of ''mvhd'' children = [(a, b)]" for a b
    by (rule safely_bind [OF parse_mp4_duration_safely [OF boxes_of_within [OF 1(1) that]]],
        rule safely_bind [OF mp4_track_dimensions_safely [OF 1(1)]], rule make_metadata_safely)
      (auto simp: check_metadata_None no_metadata_def dimensions_ok_def)
  then show ?case by (auto split: list.splits)
qed

lemma inspect_mp4_sound: "sound (inspect_mp4 data)"
  unfolding inspect_mp4_def
  by (rule safely_bind [OF mp4_boxes_safely [OF order_refl]])
    (auto split: list.splits prod.splits dest!: boxes_of_within intro!: inspect_mp4_movie_sound)

lemma no_metadata_sound: "sound (make_metadata no_metadata)"
  by (rule make_metadata_safely) (simp add: check_metadata_None no_metadata_def)

lemma detectors_sound: "(detector, media_type, inspector) \<in> set detectors \<Longrightarrow> sound (inspector data)"
  by (auto simp: detectors_def inspect_png_sound inspect_jpeg_def jpeg_segments_sound inspect_gif_sound
      inspect_webp_sound inspect_pdf_def no_metadata_sound inspect_wav_sound inspect_mp4_sound
      duration_unavailable_def)

lemma detect_format_sound:
  "detect_format data declared = Inr (concrete, inspector) \<Longrightarrow> sound (inspector data)"
  by (auto simp: detect_format_def inspect_opaque_def no_metadata_sound find_Some_iff
      split: option.splits if_splits intro!: detectors_sound dest!: nth_mem)

end
