(* ===== verification/Asset_Props.thy ===== *)
theory Asset_Props
  imports Asset_Safety
begin

text \<open>What acceptance and rejection of an uploaded asset mean.\<close>

definition inspection_errors :: "exc list" where
  "inspection_errors = map AssetInspectionError
     [''asset content is invalid'', ''asset exceeds server size limit'', ''asset media type is invalid'',
      ''asset format is unsupported'', ''asset type does not match declared media type'',
      ''asset media type is not allowed'', ''asset content is malformed'',
      ''asset media duration could not be established'', ''asset image exceeds server pixel limit'',
      ''asset media exceeds server duration limit'']"

lemma constant_errors: "malformed \<in> set inspection_errors" "no_duration \<in> set inspection_errors"
  by (simp_all add: inspection_errors_def malformed_def no_duration_def)

lemma require_content_errors: "require_content data = Inl e \<Longrightarrow> e \<in> set inspection_errors"
  by (auto simp: require_content_def inspection_errors_def split: if_splits)

lemma normalize_errors: "normalize_declared_media_type t = Inl e \<Longrightarrow> e \<in> set inspection_errors"
  by (auto simp: normalize_declared_media_type_def inspection_errors_def Let_def split: if_splits)

lemma detect_errors: "detect_format data t = Inl e \<Longrightarrow> e \<in> set inspection_errors"
  by (auto simp: detect_format_def inspection_errors_def split: option.splits if_splits)

lemma pixel_errors: "enforce_pixel_policy md d = Inl e \<Longrightarrow> e \<in> set inspection_errors"
  using constant_errors
  by (auto simp: enforce_pixel_policy_def inspection_errors_def split: option.splits if_splits)

lemma policy_errors: "enforce_metadata_policy md t = Inl e \<Longrightarrow> e \<in> set inspection_errors"
  using constant_errors
  by (auto simp: enforce_metadata_policy_def sum_bind_Inl dest: pixel_errors split: option.splits if_splits)
    (simp_all add: inspection_errors_def)

lemma inspector_errors:
  assumes "detect_format data t = Inr (concrete, inspector)" "inspector data = Inl e"
  shows "e \<in> set inspection_errors"
  using detect_format_sound [OF assms(1)] assms(2) constant_errors by auto

text \<open>
  C13. Inspecting uploaded content never lets an exception of the parser escape, whatever the
  bytes: no index or \<^verbatim>\<open>struct\<close> error, no division by zero, no rejected metadata. Every refusal is an
  \<open>AssetInspectionError\<close> whose message is one of ten constants, so nothing of the content or of the
  declared type is reflected to the caller.
\<close>

theorem inspection_errors_are_constant:
  "case inspect_asset content declared_media_type of
     Inl e \<Rightarrow> e \<in> set inspection_errors
   | Inr _ \<Rightarrow> True"
proof (cases "inspect_asset content declared_media_type")
  case (Inl e)
  have "AssetInspectionError ''asset type does not match declared media type'' \<in> set inspection_errors"
    "AssetInspectionError ''asset media type is not allowed'' \<in> set inspection_errors"
    by (simp_all add: inspection_errors_def)
  with Inl have "e \<in> set inspection_errors"
    unfolding inspect_asset_def
    by (auto simp: sum_bind_Inl split: if_splits prod.splits
        dest: require_content_errors normalize_errors detect_errors policy_errors inspector_errors)
  with Inl show ?thesis by simp
qed simp









section \<open>A WAV file is read back as it was written\<close>

definition to_little :: "nat \<Rightarrow> nat \<Rightarrow> bytes" where
  "to_little k n = map (\<lambda>i. of_nat (n div 256 ^ i)) [0..<k]"

lemma length_to_little [simp]: "length (to_little k n) = k"
  by (simp add: to_little_def)

lemma length_ascii [simp]: "length (ascii s) = length s"
  by (simp add: ascii_def)



















end
