(* ===== verification/Asset_Store.thy ===== *)
theory Asset_Store
  imports Asset_Inspection
begin

text \<open>
  The bounded in-memory asset store (\<^verbatim>\<open>assets.py\<close>) and the declarative storage policy
  (\<^verbatim>\<open>asset_policy.py\<close>). An upload reserves capacity chunk by chunk and is published at its end;
  uploads of different callers interleave at the awaits of \<^verbatim>\<open>save\<close>, so an upload in flight is a value
  of its own and \<^verbatim>\<open>save\<close> is a sequence of steps. What the code reads from outside is an argument of
  the step: the clock's time (a rational number of seconds) and the tokens of the generator.
\<close>


section \<open>Records\<close>

record asset_scope =
  ac_user_id :: string
  ac_session_id :: string

definition check_asset_scope :: "asset_scope \<Rightarrow> exc option" where
  "check_asset_scope sc = check_all
     [require (\<not> blank (ac_user_id sc)) (ValueError ''asset user_id must be a non-empty string''),
      require (\<not> blank (ac_session_id sc)) (ValueError ''asset session_id must be a non-empty string'')]"

record asset_record =
  ar_asset_id :: string
  ar_scope :: asset_scope
  ar_media_type :: string
  ar_size_bytes :: int
  ar_created_at :: rat
  ar_expires_at :: "rat option"
  ar_metadata :: "media_metadata option"

definition require_media_type :: "string \<Rightarrow> exc + string" where
  "require_media_type value =
     (let normalized = to_lower (strip value) in
      if media_type_pattern normalized then Inr normalized
      else Inl (ValueError ''asset media_type must be a concrete MIME type''))"

definition check_asset_record :: "asset_record \<Rightarrow> exc option" where
  "check_asset_record r = check_all
     [require (\<not> blank (ar_asset_id r)) (ValueError ''asset_id must be a non-empty string''),
      (case require_media_type (ar_media_type r) of Inl e \<Rightarrow> Some e | Inr _ \<Rightarrow> None),
      require (0 \<le> ar_size_bytes r) (ValueError ''asset size_bytes must be a non-negative integer''),
      require (case ar_expires_at r of None \<Rightarrow> True | Some t \<Rightarrow> ar_created_at r \<le> t)
        (ValueError ''asset expires_at must not precede created_at'')]"

definition make_asset_record :: "asset_record \<Rightarrow> exc + asset_record" where
  "make_asset_record r = (case check_asset_record r of Some e \<Rightarrow> Inl e | None \<Rightarrow> Inr r)"

record stored_asset =
  sd_record :: asset_record
  sd_chunks :: "bytes list"

record asset_store =
  as_max_asset_bytes :: int
  as_max_total_bytes :: int
  as_read_chunk_bytes :: nat
  as_default_retention :: "pyfloat option"
  as_assets :: "(string \<times> stored_asset) list"
  as_total_bytes :: int
  as_reserved_bytes :: int


section \<open>Validation\<close>

definition require_positive_integer :: "int \<Rightarrow> string \<Rightarrow> exc option" where
  "require_positive_integer value name = require (0 < value) (ValueError (name @ '' must be a positive integer''))"

definition require_retention :: "pyfloat option \<Rightarrow> exc option" where
  "require_retention value =
     require (case value of None \<Rightarrow> True | Some x \<Rightarrow> isfinite x \<and> \<not> f_le x (Fin 0))
       (ValueError ''asset retention_seconds must be finite and positive'')"

fun split_at_slash :: "string \<Rightarrow> string list" where
  "split_at_slash [] = [[]]"
| "split_at_slash (c # cs) =
     (if c = CHR ''/'' then [] # split_at_slash cs
      else case split_at_slash cs of p # ps \<Rightarrow> (c # p) # ps | [] \<Rightarrow> [[c]])"

text \<open>\<^verbatim>\<open>PurePosixPath(value).parts\<close>: empty and single-dot components are dropped on construction.\<close>

definition path_parts :: "string \<Rightarrow> string list" where
  "path_parts value = filter (\<lambda>part. part \<noteq> [] \<and> part \<noteq> ''.'') (split_at_slash value)"

definition path_is_absolute :: "string \<Rightarrow> bool" where
  "path_is_absolute value = prefix ''/'' value"

definition require_storage_path :: "string option \<Rightarrow> exc option" where
  "require_storage_path path =
     (case path of None \<Rightarrow> None | Some value \<Rightarrow> check_all
       [require (\<not> blank value) (AssetValidationError ''asset path must be a non-empty relative path''),
        require (\<not> (path_is_absolute value \<or> (\<exists>part\<in>set (path_parts value). part \<in> {'''', ''.'', ''..''})))
          (AssetValidationError ''asset path must be a safe relative POSIX path'')])"

record stored_policy =
  sp_store :: string
  sp_path :: "string option"
  sp_expires_in :: pyfloat
  sp_retention :: "rat option"

definition positive_duration :: "pyfloat \<Rightarrow> string \<Rightarrow> exc option" where
  "positive_duration value name =
     require (isfinite value \<and> \<not> f_le value (Fin 0)) (ValueError (name @ '' must be finite and positive''))"

definition validate_policy_path :: "string \<Rightarrow> exc option" where
  "validate_policy_path value = check_all
     [require (\<not> blank value) (ValueError ''stored media path must be a non-empty relative path''),
      require (\<not> (path_is_absolute value \<or> (\<exists>part\<in>set (path_parts value). part \<in> {'''', ''.'', ''..''})))
        (ValueError ''stored media path must be a safe relative POSIX path'')]"

definition check_stored_policy :: "stored_policy \<Rightarrow> exc option" where
  "check_stored_policy p = check_all
     [require (matches (\<lambda>c. lower_case c \<or> upper_case c) (\<lambda>c. alnum c \<or> c \<in> set ''._~-'') 63 (sp_store p))
        (ValueError ''stored media store must be a valid storage identifier''),
      (case sp_path p of None \<Rightarrow> None | Some path \<Rightarrow> validate_policy_path path),
      positive_duration (sp_expires_in p) ''expires_in'',
      (case sp_retention p of None \<Rightarrow> None | Some r \<Rightarrow> positive_duration (Fin r) ''retention'')]"

definition new_asset_store :: "int \<Rightarrow> int \<Rightarrow> int \<Rightarrow> pyfloat option \<Rightarrow> exc + asset_store" where
  "new_asset_store max_asset max_total read_chunk default_retention =
     (case check_all
        [require_positive_integer max_asset ''max_asset_bytes'',
         require_positive_integer max_total ''max_total_bytes'',
         require_positive_integer read_chunk ''read_chunk_bytes'',
         require_retention default_retention] of
        Some e \<Rightarrow> Inl e
      | None \<Rightarrow> Inr \<lparr> as_max_asset_bytes = max_asset, as_max_total_bytes = max_total,
          as_read_chunk_bytes = nat read_chunk, as_default_retention = default_retention, as_assets = [],
          as_total_bytes = 0, as_reserved_bytes = 0 \<rparr>)"


section \<open>Operations under the lock\<close>

definition remove_locked :: "string \<Rightarrow> asset_store \<Rightarrow> asset_store" where
  "remove_locked asset_id st =
     (case map_of (as_assets st) asset_id of
        None \<Rightarrow> st
      | Some stored \<Rightarrow> st \<lparr> as_assets := AList.delete asset_id (as_assets st),
          as_total_bytes := as_total_bytes st - ar_size_bytes (sd_record stored) \<rparr>)"

definition asset_expired :: "rat \<Rightarrow> stored_asset \<Rightarrow> bool" where
  "asset_expired now stored = (case ar_expires_at (sd_record stored) of None \<Rightarrow> False | Some t \<Rightarrow> t \<le> now)"

definition expired_ids :: "rat \<Rightarrow> asset_store \<Rightarrow> string list" where
  "expired_ids now st = sort (map fst (filter (\<lambda>(_, stored). asset_expired now stored) (as_assets st)))"

definition cleanup_locked :: "rat \<Rightarrow> asset_store \<Rightarrow> nat \<times> asset_store" where
  "cleanup_locked now st = (length (expired_ids now st), fold remove_locked (expired_ids now st) st)"

definition owned_locked :: "asset_scope \<Rightarrow> string \<Rightarrow> asset_store \<Rightarrow> stored_asset option" where
  "owned_locked scope asset_id st =
     (case map_of (as_assets st) asset_id of
        None \<Rightarrow> None
      | Some stored \<Rightarrow> if ar_scope (sd_record stored) \<noteq> scope then None else Some stored)"

definition token_ok :: "string \<Rightarrow> bool" where
  "token_ok token \<longleftrightarrow> list_all (\<lambda>c. alnum c \<or> c \<in> set ''_-'') token \<and> 16 \<le> length token \<and> length token \<le> 128"

fun pick_asset_id :: "string list \<Rightarrow> (string \<times> stored_asset) list \<Rightarrow> exc + string" where
  "pick_asset_id [] assets = Inl (AssetStoreError ''asset identifier generation failed'')"
| "pick_asset_id (token # tokens) assets =
     (if \<not> token_ok token then Inl (AssetStoreError ''asset identifier generation failed'')
      else if map_of assets (''asset_'' @ token) = None then Inr (''asset_'' @ token)
      else pick_asset_id tokens assets)"

definition new_asset_id_locked :: "(nat \<Rightarrow> string) \<Rightarrow> asset_store \<Rightarrow> exc + string" where
  "new_asset_id_locked token_factory st = pick_asset_id (map token_factory [0..<32]) (as_assets st)"

definition stat_asset :: "asset_scope \<Rightarrow> string \<Rightarrow> rat \<Rightarrow> asset_store \<Rightarrow> asset_record option \<times> asset_store" where
  "stat_asset scope asset_id now st =
     (let st' = snd (cleanup_locked now st) in (map_option sd_record (owned_locked scope asset_id st'), st'))"

text \<open>The pieces of a chunk that a reader gets, in order; \<^verbatim>\<open>read_chunk_bytes\<close> is positive.\<close>

function pieces :: "nat \<Rightarrow> bytes \<Rightarrow> bytes list" where
  "pieces n chunk = (if n = 0 \<or> chunk = [] then [] else take n chunk # pieces n (drop n chunk))"
  by pat_completeness auto
termination
  by (relation "measure (\<lambda>(n, chunk). length chunk)") auto

declare pieces.simps [simp del]

definition open_asset :: "asset_scope \<Rightarrow> string \<Rightarrow> rat \<Rightarrow> asset_store \<Rightarrow> (asset_store, bytes list) outcome" where
  "open_asset scope asset_id now st =
     (let st' = snd (cleanup_locked now st) in
      case owned_locked scope asset_id st' of
        None \<Rightarrow> (Inl (AssetNotFoundError ''asset not found''), st')
      | Some stored \<Rightarrow> (Inr (concat (map (pieces (as_read_chunk_bytes st)) (sd_chunks stored))), st'))"

definition delete_asset :: "asset_scope \<Rightarrow> string \<Rightarrow> rat \<Rightarrow> asset_store \<Rightarrow> bool \<times> asset_store" where
  "delete_asset scope asset_id now st =
     (let st' = snd (cleanup_locked now st) in
      case owned_locked scope asset_id st' of
        None \<Rightarrow> (False, st')
      | Some stored \<Rightarrow> (True, remove_locked asset_id st'))"

definition delete_asset_scope :: "asset_scope \<Rightarrow> rat \<Rightarrow> asset_store \<Rightarrow> nat \<times> asset_store" where
  "delete_asset_scope scope now st =
     (let st' = snd (cleanup_locked now st);
          owned = sort (map fst (filter (\<lambda>(_, stored). ar_scope (sd_record stored) = scope) (as_assets st'))) in
      (length owned, fold remove_locked owned st'))"

definition cleanup_expired :: "rat \<Rightarrow> asset_store \<Rightarrow> nat \<times> asset_store" where
  "cleanup_expired now st = cleanup_locked now st"

definition clear_assets :: "asset_store \<Rightarrow> asset_store" where
  "clear_assets st = st \<lparr> as_assets := [], as_total_bytes := 0 \<rparr>"



section \<open>Uploads\<close>

record upload =
  up_scope :: asset_scope
  up_media_type :: string
  up_metadata :: "media_metadata option"
  up_retention :: "pyfloat option"
  up_buffered :: "bytes list"
  up_reserved :: int

text \<open>What an asynchronous source may yield: bytes, or a value of another type.\<close>

datatype upload_chunk = ByteChunk bytes | OtherChunk

definition require_chunk :: "upload_chunk \<Rightarrow> exc + bytes" where
  "require_chunk value = (case value of
     ByteChunk bs \<Rightarrow> Inr bs | OtherChunk \<Rightarrow> Inl (AssetValidationError ''asset chunks must contain bytes''))"

definition effective_retention :: "pyfloat option \<Rightarrow> asset_store \<Rightarrow> exc + pyfloat option" where
  "effective_retention retention st =
     (case retention of
        None \<Rightarrow> Inr (as_default_retention st)
      | Some r \<Rightarrow> (case require_retention (Some r) of Some e \<Rightarrow> Inl e | None \<Rightarrow> Inr (Some r)))"

definition begin_upload ::
    "asset_scope \<Rightarrow> string \<Rightarrow> media_metadata option \<Rightarrow> pyfloat option \<Rightarrow> string option \<Rightarrow> asset_store \<Rightarrow> exc + upload" where
  "begin_upload scope media_type metadata retention path st =
     (case require_storage_path path of Some e \<Rightarrow> Inl e | None \<Rightarrow>
        sum_bind (require_media_type media_type) (\<lambda>normalized.
        sum_bind (effective_retention retention st) (\<lambda>r.
          Inr \<lparr> up_scope = scope, up_media_type = normalized, up_metadata = metadata, up_retention = r,
                up_buffered = [], up_reserved = 0 \<rparr>)))"

definition reserve :: "int \<Rightarrow> rat \<Rightarrow> asset_store \<Rightarrow> (asset_store, unit) outcome" where
  "reserve n now st =
     (if n = 0 then (Inr (), st)
      else let st' = snd (cleanup_locked now st);
               projected = as_total_bytes st' + as_reserved_bytes st' + n in
        if projected > as_max_total_bytes st' then (Inl (AssetQuotaError ''asset store byte limit exceeded''), st')
        else (Inr (), st' \<lparr> as_reserved_bytes := as_reserved_bytes st' + n \<rparr>))"

definition release :: "int \<Rightarrow> asset_store \<Rightarrow> asset_store" where
  "release n st = (if n = 0 then st else st \<lparr> as_reserved_bytes := as_reserved_bytes st - n \<rparr>)"

definition append_reserved :: "upload \<Rightarrow> bytes \<Rightarrow> rat \<Rightarrow> asset_store \<Rightarrow> (asset_store, upload) outcome" where
  "append_reserved up chunk now st =
     (let next_size = up_reserved up + int (length chunk) in
      if next_size > as_max_asset_bytes st then (Inl (AssetQuotaError ''asset exceeds per-asset byte limit''), st)
      else case reserve (int (length chunk)) now st of
        (Inl e, st') \<Rightarrow> (Inl e, st')
      | (Inr _, st') \<Rightarrow>
          (Inr (up \<lparr> up_buffered := up_buffered up @ [chunk], up_reserved := next_size \<rparr>), st'))"

text \<open>The first instant after \<^verbatim>\<open>datetime.max\<close>, in seconds of the epoch.\<close>

definition datetime_limit :: rat where
  "datetime_limit = 253402300800"

definition expiration :: "rat \<Rightarrow> pyfloat option \<Rightarrow> exc + rat option" where
  "expiration now retention =
     (case retention of
        None \<Rightarrow> Inr None
      | Some (Fin r) \<Rightarrow>
          if now + r \<ge> datetime_limit then Inl (OverflowError ''date value out of range'') else Inr (Some (now + r))
      | Some NaN \<Rightarrow> Inl (ValueError ''cannot convert float NaN to integer'')
      | Some _ \<Rightarrow> Inl (OverflowError ''cannot convert float infinity to integer''))"

definition commit_upload :: "upload \<Rightarrow> rat \<Rightarrow> (nat \<Rightarrow> string) \<Rightarrow> asset_store \<Rightarrow> (asset_store, asset_record) outcome" where
  "commit_upload up now token_factory st =
     (let st' = snd (cleanup_locked now st) in
      case sum_bind (new_asset_id_locked token_factory st') (\<lambda>asset_id.
           sum_bind (expiration now (up_retention up)) (\<lambda>expires_at.
             make_asset_record
               \<lparr> ar_asset_id = asset_id, ar_scope = up_scope up, ar_media_type = up_media_type up,
                 ar_size_bytes = up_reserved up, ar_created_at = now, ar_expires_at = expires_at,
                 ar_metadata = up_metadata up \<rparr>)) of
        Inl e \<Rightarrow> (Inl e, st')
      | Inr r \<Rightarrow>
          (Inr r, st' \<lparr> as_assets := AList.update (ar_asset_id r) \<lparr> sd_record = r, sd_chunks = up_buffered up \<rparr> (as_assets st'),
                        as_reserved_bytes := as_reserved_bytes st' - up_reserved up,
                        as_total_bytes := as_total_bytes st' + up_reserved up \<rparr>))"

text \<open>The \<^verbatim>\<open>except\<close> clauses of \<^verbatim>\<open>save\<close>: the reservation is released, a foreign exception is replaced.\<close>

definition is_store_error :: "exc \<Rightarrow> bool" where
  "is_store_error e = (case e of
     AssetStoreError _ \<Rightarrow> True | AssetNotFoundError _ \<Rightarrow> True | AssetQuotaError _ \<Rightarrow> True
   | AssetValidationError _ \<Rightarrow> True | _ \<Rightarrow> False)"

definition upload_failure :: "exc \<Rightarrow> exc" where
  "upload_failure e =
     (if is_store_error e \<or> (case e of CancelledError _ \<Rightarrow> True | _ \<Rightarrow> False) then e
      else AssetStoreError ''asset upload failed'')"

definition fail_upload :: "upload \<Rightarrow> exc \<Rightarrow> asset_store \<Rightarrow> exc \<times> asset_store" where
  "fail_upload up e st = (upload_failure e, release (up_reserved up) st)"

text \<open>One turn of the loop over the source, and the end of the upload.\<close>

definition upload_step :: "upload \<Rightarrow> upload_chunk \<Rightarrow> rat \<Rightarrow> asset_store \<Rightarrow> (asset_store, upload) outcome" where
  "upload_step up chunk now st =
     (case require_chunk chunk of
        Inl e \<Rightarrow> (let (e', st') = fail_upload up e st in (Inl e', st'))
      | Inr bs \<Rightarrow>
          (case append_reserved up bs now st of
             (Inl e, st') \<Rightarrow> (let (e', st'') = fail_upload up e st' in (Inl e', st''))
           | (Inr up', st') \<Rightarrow> (Inr up', st')))"

definition finish_upload :: "upload \<Rightarrow> rat \<Rightarrow> (nat \<Rightarrow> string) \<Rightarrow> asset_store \<Rightarrow> (asset_store, asset_record) outcome" where
  "finish_upload up now token_factory st =
     (case commit_upload up now token_factory st of
        (Inl e, st') \<Rightarrow> (let (e', st'') = fail_upload up e st' in (Inl e', st''))
      | (Inr r, st') \<Rightarrow> (Inr r, st'))"

text \<open>\<^verbatim>\<open>save\<close> of a source that yields \<open>chunks\<close>, each at its time, when nothing else runs.\<close>

fun upload_all :: "upload \<Rightarrow> (upload_chunk \<times> rat) list \<Rightarrow> asset_store \<Rightarrow> (asset_store, upload) outcome" where
  "upload_all up [] st = (Inr up, st)"
| "upload_all up ((chunk, now) # rest) st =
     (case upload_step up chunk now st of
        (Inl e, st') \<Rightarrow> (Inl e, st')
      | (Inr up', st') \<Rightarrow> upload_all up' rest st')"

definition save_asset ::
    "asset_scope \<Rightarrow> string \<Rightarrow> media_metadata option \<Rightarrow> pyfloat option \<Rightarrow> string option \<Rightarrow>
     (upload_chunk \<times> rat) list \<Rightarrow> rat \<Rightarrow> (nat \<Rightarrow> string) \<Rightarrow> asset_store \<Rightarrow> (asset_store, asset_record) outcome" where
  "save_asset scope media_type metadata retention path chunks now token_factory st =
     (case begin_upload scope media_type metadata retention path st of
        Inl e \<Rightarrow> (Inl e, st)
      | Inr up \<Rightarrow>
          (case upload_all up chunks st of
             (Inl e, st') \<Rightarrow> (Inl e, st')
           | (Inr up', st') \<Rightarrow> finish_upload up' now token_factory st'))"


section \<open>Interleaved callers\<close>

text \<open>
  The store and the uploads in flight, each under the number its caller gave it. An event is one
  critical section of a caller, or the start or the failure of an upload.
\<close>

record asset_system =
  ay_store :: asset_store
  ay_uploads :: "(nat \<times> upload) list"

datatype asset_event =
    BeginUpload nat asset_scope string "media_metadata option" "pyfloat option" "string option"
  | UploadChunk nat upload_chunk rat
  | FinishUpload nat rat "nat \<Rightarrow> string"
  | FailUpload nat exc
  | StatAsset asset_scope string rat
  | OpenAsset asset_scope string rat
  | DeleteAsset asset_scope string rat
  | DeleteScope asset_scope rat
  | CleanupExpired rat
  | ClearAssets

fun asset_step :: "asset_event \<Rightarrow> asset_system \<Rightarrow> asset_system" where
  "asset_step (BeginUpload i scope media_type metadata retention path) s =
     (if map_of (ay_uploads s) i \<noteq> None then s
      else case begin_upload scope media_type metadata retention path (ay_store s) of
        Inl _ \<Rightarrow> s
      | Inr up \<Rightarrow> s \<lparr> ay_uploads := AList.update i up (ay_uploads s) \<rparr>)"
| "asset_step (UploadChunk i chunk now) s =
     (case map_of (ay_uploads s) i of None \<Rightarrow> s | Some up \<Rightarrow>
       (case upload_step up chunk now (ay_store s) of
          (Inl _, st) \<Rightarrow> \<lparr> ay_store = st, ay_uploads = AList.delete i (ay_uploads s) \<rparr>
        | (Inr up', st) \<Rightarrow> \<lparr> ay_store = st, ay_uploads = AList.update i up' (ay_uploads s) \<rparr>))"
| "asset_step (FinishUpload i now token_factory) s =
     (case map_of (ay_uploads s) i of None \<Rightarrow> s | Some up \<Rightarrow>
       \<lparr> ay_store = snd (finish_upload up now token_factory (ay_store s)), ay_uploads = AList.delete i (ay_uploads s) \<rparr>)"
| "asset_step (FailUpload i e) s =
     (case map_of (ay_uploads s) i of None \<Rightarrow> s | Some up \<Rightarrow>
       \<lparr> ay_store = snd (fail_upload up e (ay_store s)), ay_uploads = AList.delete i (ay_uploads s) \<rparr>)"
| "asset_step (StatAsset scope asset_id now) s = s \<lparr> ay_store := snd (stat_asset scope asset_id now (ay_store s)) \<rparr>"
| "asset_step (OpenAsset scope asset_id now) s = s \<lparr> ay_store := snd (open_asset scope asset_id now (ay_store s)) \<rparr>"
| "asset_step (DeleteAsset scope asset_id now) s = s \<lparr> ay_store := snd (delete_asset scope asset_id now (ay_store s)) \<rparr>"
| "asset_step (DeleteScope scope now) s = s \<lparr> ay_store := snd (delete_asset_scope scope now (ay_store s)) \<rparr>"
| "asset_step (CleanupExpired now) s = s \<lparr> ay_store := snd (cleanup_expired now (ay_store s)) \<rparr>"
| "asset_step ClearAssets s = s \<lparr> ay_store := clear_assets (ay_store s) \<rparr>"

end
