(* ===== verification/Asset_Store_Safety.thy ===== *)
theory Asset_Store_Safety
  imports Asset_Store
begin

text \<open>
  The accounting of the asset store: what is committed and what is reserved, kept equal to the
  bytes actually held by every operation, and what each operation does to the dictionary of assets.
\<close>

section \<open>Sums over a dictionary\<close>

definition sum_values :: "('v \<Rightarrow> int) \<Rightarrow> ('k \<times> 'v) list \<Rightarrow> int" where
  "sum_values f d = sum_list (map (f \<circ> snd) d)"

lemma sum_values_simps [simp]:
  "sum_values f [] = 0" "sum_values f ((k, v) # d) = f v + sum_values f d"
  by (simp_all add: sum_values_def)

lemma sum_values_delete:
  "dict_ok d \<Longrightarrow> map_of d k = Some v \<Longrightarrow> sum_values f (AList.delete k d) = sum_values f d - f v"
proof (induction d)
  case (Cons p d)
  have "k \<notin> fst ` set d \<Longrightarrow> AList.delete k d = d"
    by (simp add: delete_id)
  with Cons show ?case by (cases p) (auto split: if_splits)
qed simp

lemma sum_values_update:
  "dict_ok d \<Longrightarrow> sum_values f (AList.update k v d) =
     sum_values f d + f v - (case map_of d k of None \<Rightarrow> 0 | Some w \<Rightarrow> f w)"
proof (induction d)
  case (Cons p d)
  then show ?case by (cases p; cases "fst p = k"; cases "map_of d k") simp_all
qed simp

lemma sum_values_nonneg: "\<forall>p \<in> set d. 0 \<le> f (snd p) \<Longrightarrow> 0 \<le> sum_values f d"
  unfolding sum_values_def by (rule sum_list_nonneg) auto


section \<open>What a removal leaves\<close>

definition bytes_held :: "bytes list \<Rightarrow> int" where
  "bytes_held chunks = int (length (concat chunks))"

definition stored_size :: "stored_asset \<Rightarrow> int" where
  "stored_size sd = ar_size_bytes (sd_record sd)"

definition balanced :: "asset_store \<Rightarrow> bool" where
  "balanced st \<longleftrightarrow> dict_ok (as_assets st) \<and> as_total_bytes st = sum_values stored_size (as_assets st)"

definition same_limits :: "asset_store \<Rightarrow> asset_store \<Rightarrow> bool" where
  "same_limits st st' \<longleftrightarrow>
     as_max_asset_bytes st' = as_max_asset_bytes st \<and> as_max_total_bytes st' = as_max_total_bytes st \<and>
     as_read_chunk_bytes st' = as_read_chunk_bytes st \<and> as_default_retention st' = as_default_retention st"

lemma same_limits_refl [simp]: "same_limits st st"
  by (simp add: same_limits_def)

lemma remove_locked_assets: "as_assets (remove_locked k st) = filter (\<lambda>p. fst p \<noteq> k) (as_assets st)"
proof (cases "map_of (as_assets st) k")
  case None
  then have "filter (\<lambda>p. fst p \<noteq> k) (as_assets st) = as_assets st"
    by (auto simp: map_of_eq_None_iff filter_id_conv)
  with None show ?thesis by (simp add: remove_locked_def)
next
  case (Some v)
  then show ?thesis by (simp add: remove_locked_def AList.delete_eq case_prod_beta)
      (rule filter_cong, auto)
qed

lemma remove_locked_frame [simp]:
  "same_limits st (remove_locked k st)" "as_reserved_bytes (remove_locked k st) = as_reserved_bytes st"
  by (auto simp: same_limits_def remove_locked_def split: option.splits)

lemma remove_locked_balanced: "balanced st \<Longrightarrow> balanced (remove_locked k st)"
  by (auto simp: balanced_def remove_locked_def sum_values_delete stored_size_def split: option.splits)

lemma remove_all_assets: "as_assets (fold remove_locked ks st) = filter (\<lambda>p. fst p \<notin> set ks) (as_assets st)"
  by (induction ks arbitrary: st) (auto simp: remove_locked_assets intro!: filter_cong)

lemma remove_all_frame [simp]:
  "same_limits st (fold remove_locked ks st)" "as_reserved_bytes (fold remove_locked ks st) = as_reserved_bytes st"
proof (induction ks arbitrary: st)
  case (Cons k ks)
  { case 1 show ?case using Cons(1) [of "remove_locked k st"] remove_locked_frame(1) [of st k] by (simp add: same_limits_def) }
  { case 2 show ?case using Cons(2) [of "remove_locked k st"] by simp }
qed simp_all

lemma remove_all_balanced: "balanced st \<Longrightarrow> balanced (fold remove_locked ks st)"
  by (induction ks arbitrary: st) (auto intro: remove_locked_balanced)

lemma remove_selected:
  assumes "dict_ok (as_assets st)" "set ks = fst ` {p \<in> set (as_assets st). P (snd p)}"
  shows "as_assets (fold remove_locked ks st) = filter (\<lambda>p. \<not> P (snd p)) (as_assets st)"
  unfolding remove_all_assets
proof (rule filter_cong [OF refl])
  fix p assume p: "p \<in> set (as_assets st)"
  have "P (snd p)" if "fst p \<in> set ks"
  proof -
    obtain v where "(fst p, v) \<in> set (as_assets st)" "P v" using \<open>fst p \<in> set ks\<close> assms(2) by auto
    with p eq_key_imp_eq_value [OF assms(1), of "fst p" v "snd p"] show ?thesis by simp
  qed
  moreover have "fst p \<in> set ks" if "P (snd p)"
    unfolding assms(2) by (rule image_eqI [where x = p]) (use p that in simp_all)
  ultimately show "(fst p \<notin> set ks) = (\<not> P (snd p))" by blast
qed

lemma cleanup_assets:
  "dict_ok (as_assets st) \<Longrightarrow>
   as_assets (snd (cleanup_locked now st)) = filter (\<lambda>p. \<not> asset_expired now (snd p)) (as_assets st)"
  unfolding cleanup_locked_def snd_conv
  by (rule remove_selected) (auto simp: expired_ids_def)

lemma cleanup_frame [simp]:
  "same_limits st (snd (cleanup_locked now st))"
  "as_reserved_bytes (snd (cleanup_locked now st)) = as_reserved_bytes st"
  by (simp_all add: cleanup_locked_def)

lemma cleanup_balanced: "balanced st \<Longrightarrow> balanced (snd (cleanup_locked now st))"
  by (simp add: cleanup_locked_def remove_all_balanced)

lemma cleanup_lookup:
  assumes "dict_ok (as_assets st)"
  shows "map_of (as_assets (snd (cleanup_locked now st))) k =
     (case map_of (as_assets st) k of None \<Rightarrow> None | Some sd \<Rightarrow> if asset_expired now sd then None else Some sd)"
  using assms by (simp add: cleanup_assets map_of_filter_pred split: option.splits)


section \<open>The invariant of the store and the uploads in flight\<close>

text \<open>What the store keeps of its own fields: the last conjunct bounds every stored asset.\<close>

definition entry_ok :: "int \<Rightarrow> string \<times> stored_asset \<Rightarrow> bool" where
  "entry_ok limit p \<longleftrightarrow> (let r = sd_record (snd p) in
     ar_asset_id r = fst p \<and> ar_size_bytes r = bytes_held (sd_chunks (snd p)) \<and> ar_size_bytes r \<le> limit)"

definition store_ok :: "asset_store \<Rightarrow> bool" where
  "store_ok st \<longleftrightarrow> balanced st \<and> 0 < as_max_asset_bytes st \<and> 0 < as_read_chunk_bytes st \<and>
     (\<forall>p \<in> set (as_assets st). entry_ok (as_max_asset_bytes st) p)"

lemma store_ok_reserved [simp]: "store_ok (st \<lparr> as_reserved_bytes := n \<rparr>) = store_ok st"
  by (simp add: store_ok_def balanced_def)

definition upload_ok :: "asset_store \<Rightarrow> upload \<Rightarrow> bool" where
  "upload_ok st up \<longleftrightarrow> up_reserved up = bytes_held (up_buffered up) \<and> up_reserved up \<le> as_max_asset_bytes st"

definition asset_inv :: "asset_system \<Rightarrow> bool" where
  "asset_inv s \<longleftrightarrow> store_ok (ay_store s) \<and> dict_ok (ay_uploads s) \<and>
     (\<forall>p \<in> set (ay_uploads s). upload_ok (ay_store s) (snd p)) \<and>
     as_reserved_bytes (ay_store s) = sum_values up_reserved (ay_uploads s) \<and>
     as_total_bytes (ay_store s) + as_reserved_bytes (ay_store s) \<le> as_max_total_bytes (ay_store s)"

lemma stored_size_nonneg: "store_ok st \<Longrightarrow> (k, sd) \<in> set (as_assets st) \<Longrightarrow> 0 \<le> stored_size sd"
  by (force simp: store_ok_def entry_ok_def Let_def stored_size_def bytes_held_def)

lemma remove_locked_total:
  "store_ok st \<Longrightarrow> as_total_bytes (remove_locked k st) \<le> as_total_bytes st"
  by (auto simp: remove_locked_def stored_size_def [symmetric] split: option.splits
      dest!: map_of_SomeD intro: stored_size_nonneg)

lemma remove_locked_ok: "store_ok st \<Longrightarrow> store_ok (remove_locked k st)"
  using remove_locked_frame(1) [of st k]
  by (auto simp: store_ok_def remove_locked_balanced remove_locked_assets same_limits_def)

lemma remove_all_ok:
  "store_ok st \<Longrightarrow> store_ok (fold remove_locked ks st) \<and> as_total_bytes (fold remove_locked ks st) \<le> as_total_bytes st"
proof (induction ks arbitrary: st)
  case (Cons k ks)
  from Cons.IH [OF remove_locked_ok [OF Cons.prems, of k]] remove_locked_total [OF Cons.prems, of k]
  show ?case by simp
qed simp

lemma cleanup_ok:
  "store_ok st \<Longrightarrow> store_ok (snd (cleanup_locked now st)) \<and> as_total_bytes (snd (cleanup_locked now st)) \<le> as_total_bytes st"
  by (simp add: cleanup_locked_def remove_all_ok)

text \<open>A step of the store that only removes keeps the invariant of the whole.\<close>

definition only_removes :: "asset_store \<Rightarrow> asset_store \<Rightarrow> bool" where
  "only_removes st st' \<longleftrightarrow> store_ok st' \<and> same_limits st st' \<and>
     as_reserved_bytes st' = as_reserved_bytes st \<and> as_total_bytes st' \<le> as_total_bytes st"

lemma only_removes_inv:
  "asset_inv s \<Longrightarrow> only_removes (ay_store s) st' \<Longrightarrow> asset_inv (s \<lparr> ay_store := st' \<rparr>)"
  by (auto simp: asset_inv_def only_removes_def same_limits_def upload_ok_def)

lemma only_removes_trans: "only_removes a b \<Longrightarrow> only_removes b c \<Longrightarrow> only_removes a c"
  by (auto simp: only_removes_def same_limits_def)

lemma cleanup_only_removes: "store_ok st \<Longrightarrow> only_removes st (snd (cleanup_locked now st))"
  using cleanup_ok [of st now] by (simp add: only_removes_def)

lemma remove_only_removes: "store_ok st \<Longrightarrow> only_removes st (remove_locked k st)"
  by (simp add: only_removes_def remove_locked_ok remove_locked_total)

lemma remove_all_only_removes: "store_ok st \<Longrightarrow> only_removes st (fold remove_locked ks st)"
  by (simp add: only_removes_def remove_all_ok)

lemma only_removes_ok: "only_removes st st' \<Longrightarrow> store_ok st'"
  by (simp add: only_removes_def)

lemma total_nonneg: "store_ok st \<Longrightarrow> 0 \<le> as_total_bytes st"
  using stored_size_nonneg [of st]
  by (auto simp: store_ok_def balanced_def intro!: sum_values_nonneg)

lemma clear_only_removes: "store_ok st \<Longrightarrow> only_removes st (clear_assets st)"
  using total_nonneg [of st]
  by (simp add: only_removes_def clear_assets_def store_ok_def balanced_def same_limits_def)

lemma reads_only_remove:
  assumes "store_ok st"
  shows "only_removes st (snd (stat_asset scope k now st))"
    and "only_removes st (snd (open_asset scope k now st))"
    and "only_removes st (snd (delete_asset scope k now st))"
    and "only_removes st (snd (delete_asset_scope scope now st))"
    and "only_removes st (snd (cleanup_expired now st))"
proof -
  note c = cleanup_only_removes [OF assms, of now]
  note r = only_removes_trans [OF c remove_only_removes [OF only_removes_ok [OF c]]]
  note f = only_removes_trans [OF c remove_all_only_removes [OF only_removes_ok [OF c]]]
  show "only_removes st (snd (stat_asset scope k now st))"
    "only_removes st (snd (open_asset scope k now st))"
    "only_removes st (snd (delete_asset scope k now st))"
    "only_removes st (snd (delete_asset_scope scope now st))"
    "only_removes st (snd (cleanup_expired now st))"
    using c r f
    by (simp_all add: stat_asset_def open_asset_def delete_asset_def delete_asset_scope_def
        cleanup_expired_def Let_def split: option.splits)
qed



section \<open>Uploads keep the invariant\<close>

lemma bytes_held_append [simp]: "bytes_held (cs @ [c]) = bytes_held cs + int (length c)"
  and bytes_held_Nil [simp]: "bytes_held [] = 0"
  and bytes_held_nonneg [simp]: "0 \<le> bytes_held cs"
  by (simp_all add: bytes_held_def)

lemma reserve_effect:
  assumes "store_ok st" "reserve n now st = (r, st')"
  shows "store_ok st' \<and> same_limits st st' \<and> as_total_bytes st' \<le> as_total_bytes st \<and>
     (case r of Inl _ \<Rightarrow> as_reserved_bytes st' = as_reserved_bytes st
      | Inr _ \<Rightarrow> as_reserved_bytes st' = as_reserved_bytes st + n \<and>
          (n = 0 \<or> as_total_bytes st' + as_reserved_bytes st' \<le> as_max_total_bytes st))"
  using assms cleanup_ok [OF assms(1), of now] cleanup_frame [where st = st and now = now]
  by (auto simp: reserve_def Let_def same_limits_def split: if_splits)

lemma set_update_subset: "set (AList.update k v d) \<subseteq> insert (k, v) (set d)"
  by (induction d) auto

lemma update_all: "\<forall>p \<in> set d. P p \<Longrightarrow> P (k, v) \<Longrightarrow> \<forall>p \<in> set (AList.update k v d). P p"
  using set_update_subset [of k v d] by auto

lemma delete_all: "\<forall>p \<in> set d. P p \<Longrightarrow> \<forall>p \<in> set (AList.delete k d). P p"
  by (simp add: AList.delete_eq)

lemma release_inv:
  assumes "asset_inv s" "map_of (ay_uploads s) i = Some up"
  shows "asset_inv \<lparr> ay_store = release (up_reserved up) (ay_store s), ay_uploads = AList.delete i (ay_uploads s) \<rparr>"
proof -
  have d: "0 \<le> up_reserved up" "dict_ok (ay_uploads s)"
    using assms by (auto simp: asset_inv_def upload_ok_def dest!: map_of_SomeD)
  let ?st = "release (up_reserved up) (ay_store s)"
  have "store_ok ?st" "same_limits (ay_store s) ?st" "as_total_bytes ?st = as_total_bytes (ay_store s)"
    "as_reserved_bytes ?st = as_reserved_bytes (ay_store s) - up_reserved up"
    using assms by (auto simp: asset_inv_def release_def store_ok_def balanced_def same_limits_def)
  moreover from this have "\<forall>p \<in> set (AList.delete i (ay_uploads s)). upload_ok ?st (snd p)"
    using assms by (intro delete_all) (auto simp: asset_inv_def upload_ok_def same_limits_def)
  ultimately show ?thesis
    using assms d by (simp add: asset_inv_def sum_values_delete same_limits_def)
qed

text \<open>An upload that changed its reservation, with a store that accounts for the change.\<close>

lemma reserved_inv:
  assumes "asset_inv s" "map_of (ay_uploads s) i = Some up"
    and "store_ok st'" "same_limits (ay_store s) st'" "as_total_bytes st' \<le> as_total_bytes (ay_store s)"
    and "as_reserved_bytes st' = as_reserved_bytes (ay_store s) + (up_reserved up' - up_reserved up)"
    and "upload_ok (ay_store s) up'"
    and "as_total_bytes st' + as_reserved_bytes st' \<le> as_max_total_bytes st'"
  shows "asset_inv \<lparr> ay_store = st', ay_uploads = AList.update i up' (ay_uploads s) \<rparr>"
proof -
  have d: "dict_ok (ay_uploads s)" and ok: "\<forall>p \<in> set (ay_uploads s). upload_ok st' (snd p)" "upload_ok st' up'"
    using assms by (auto simp: asset_inv_def upload_ok_def same_limits_def)
  have "\<forall>p \<in> set (AList.update i up' (ay_uploads s)). upload_ok st' (snd p)"
    by (rule update_all) (use ok in simp_all)
  with assms d show ?thesis by (simp add: asset_inv_def sum_values_update)
qed

lemma upload_step_inv:
  assumes "asset_inv s"
  shows "asset_inv (asset_step (UploadChunk i chunk now) s)"
proof (cases "map_of (ay_uploads s) i")
  case (Some up)
  let ?st = "ay_store s"
  have failing: "asset_inv \<lparr> ay_store = snd (fail_upload up e st'), ay_uploads = AList.delete i (ay_uploads s) \<rparr>"
    if "only_removes ?st st'" for e st'
    using release_inv [OF only_removes_inv [OF assms that], of i up] Some by (simp add: fail_upload_def)
  have ok: "store_ok ?st" "upload_ok ?st up"
    using assms Some by (auto simp: asset_inv_def dest!: map_of_SomeD)
  show ?thesis
  proof (cases chunk)
    case OtherChunk
    with Some failing [of ?st] ok show ?thesis
      by (simp add: upload_step_def require_chunk_def only_removes_def case_prod_beta)
  next
    case (ByteChunk bs)
    let ?next = "up_reserved up + int (length bs)"
    show ?thesis
    proof (cases "?next > as_max_asset_bytes ?st")
      case True
      with Some ByteChunk failing [of ?st] ok show ?thesis
        by (simp add: upload_step_def require_chunk_def append_reserved_def only_removes_def case_prod_beta)
    next
      case False
      obtain r st' where r: "reserve (int (length bs)) now ?st = (r, st')" by fastforce
      note eff = reserve_effect [OF ok(1) r]
      show ?thesis
      proof (cases r)
        case (Inl e)
        then have "only_removes ?st st'" using eff by (simp add: only_removes_def)
        with Some ByteChunk False r Inl failing [of st'] show ?thesis
          by (simp add: upload_step_def require_chunk_def append_reserved_def case_prod_beta)
      next
        case (Inr u)
        let ?up = "up \<lparr> up_buffered := up_buffered up @ [bs], up_reserved := ?next \<rparr>"
        have total: "as_total_bytes st' + as_reserved_bytes st' \<le> as_max_total_bytes st'"
        proof (cases "length bs = 0")
          case True
          then have "st' = ?st" using r by (simp add: reserve_def)
          then show ?thesis using assms by (simp add: asset_inv_def)
        qed (use eff Inr in \<open>auto simp: same_limits_def\<close>)
        have "asset_inv \<lparr> ay_store = st', ay_uploads = AList.update i ?up (ay_uploads s) \<rparr>"
          by (rule reserved_inv [OF assms Some]) (use eff Inr False ok total in \<open>auto simp: upload_ok_def\<close>)
        with Some ByteChunk False r Inr show ?thesis
          by (simp add: upload_step_def require_chunk_def append_reserved_def)
      qed
    qed
  qed
qed (use assms in simp)

lemma pick_asset_id_fresh: "pick_asset_id tokens assets = Inr k \<Longrightarrow> map_of assets k = None"
  by (induction tokens) (auto split: if_splits)

lemma commit_success:
  assumes "commit_upload up now token_factory st = (Inr r, st')"
  shows "map_of (as_assets (snd (cleanup_locked now st))) (ar_asset_id r) = None"
    and "r = \<lparr> ar_asset_id = ar_asset_id r, ar_scope = up_scope up, ar_media_type = up_media_type up,
                ar_size_bytes = up_reserved up, ar_created_at = now, ar_expires_at = ar_expires_at r,
                ar_metadata = up_metadata up \<rparr>"
    and "expiration now (up_retention up) = Inr (ar_expires_at r)"
    and "let c = snd (cleanup_locked now st) in
      st' = c \<lparr> as_assets := AList.update (ar_asset_id r) \<lparr> sd_record = r, sd_chunks = up_buffered up \<rparr> (as_assets c),
                as_reserved_bytes := as_reserved_bytes c - up_reserved up,
                as_total_bytes := as_total_bytes c + up_reserved up \<rparr>"
  using assms pick_asset_id_fresh
  by (auto simp: commit_upload_def Let_def sum_bind_Inr new_asset_id_locked_def make_asset_record_def
      split: sum.splits option.splits)

lemma commit_failure: "commit_upload up now token_factory st = (Inl e, st') \<Longrightarrow> st' = snd (cleanup_locked now st)"
  by (auto simp: commit_upload_def Let_def split: sum.splits)

lemma finish_upload_inv:
  assumes "asset_inv s"
  shows "asset_inv (asset_step (FinishUpload i now token_factory) s)"
proof (cases "map_of (ay_uploads s) i")
  case (Some up)
  let ?st = "ay_store s"
  have ok: "store_ok ?st" "upload_ok ?st up"
    using assms Some by (auto simp: asset_inv_def dest!: map_of_SomeD)
  let ?c = "snd (cleanup_locked now ?st)"
  have c: "only_removes ?st ?c" by (rule cleanup_only_removes [OF ok(1)])
  obtain x st' where x: "commit_upload up now token_factory ?st = (x, st')" by fastforce
  show ?thesis
  proof (cases x)
    case (Inl e)
    with x have "st' = ?c" using commit_failure by blast
    with x Inl release_inv [OF only_removes_inv [OF assms c], of i up] Some show ?thesis
      by (simp add: finish_upload_def fail_upload_def)
  next
    case (Inr r)
    let ?sd = "\<lparr> sd_record = r, sd_chunks = up_buffered up \<rparr>"
    have eq: "map_of (as_assets ?c) (ar_asset_id r) = None" "ar_size_bytes r = up_reserved up"
      "st' = ?c \<lparr> as_assets := AList.update (ar_asset_id r) ?sd (as_assets ?c),
         as_reserved_bytes := as_reserved_bytes ?c - up_reserved up,
         as_total_bytes := as_total_bytes ?c + up_reserved up \<rparr>"
      using x Inr commit_success [of up now token_factory ?st r st'] by (simp_all add: Let_def) (metis asset_record.select_convs(4))
    have lim: "up_reserved up = bytes_held (up_buffered up)" "up_reserved up \<le> as_max_asset_bytes ?c"
      using ok c by (auto simp: upload_ok_def only_removes_def same_limits_def)
    have cb: "store_ok ?c" by (rule only_removes_ok [OF c])
    have "balanced st'"
      using cb eq by (simp add: store_ok_def balanced_def sum_values_update stored_size_def)
    moreover have "\<forall>p \<in> set (AList.update (ar_asset_id r) ?sd (as_assets ?c)). entry_ok (as_max_asset_bytes ?c) p"
      using cb lim eq by (intro update_all) (simp_all add: store_ok_def entry_ok_def)
    ultimately have "store_ok st'" using eq(3) cb by (simp add: store_ok_def)
    moreover have "as_total_bytes st' + as_reserved_bytes st' \<le> as_max_total_bytes st'"
      using assms c by (auto simp: eq(3) asset_inv_def only_removes_def same_limits_def)
    moreover have "same_limits (ay_store s) st'" "as_reserved_bytes st' = as_reserved_bytes (ay_store s) - up_reserved up"
      using c by (auto simp: eq(3) only_removes_def same_limits_def)
    moreover from this have "\<forall>p \<in> set (AList.delete i (ay_uploads s)). upload_ok st' (snd p)"
      using assms by (intro delete_all) (auto simp: asset_inv_def upload_ok_def same_limits_def)
    ultimately have "asset_inv \<lparr> ay_store = st', ay_uploads = AList.delete i (ay_uploads s) \<rparr>"
      using assms Some by (simp add: asset_inv_def sum_values_delete)
    then show ?thesis using x Inr Some by (simp add: finish_upload_def)
  qed
qed (use assms in simp)

end
