(* ===== verification/Asset_Store_Props.thy ===== *)
theory Asset_Store_Props
  imports Asset_Store_Safety
begin

text \<open>
  What the asset store promises: its capacity under any interleaving of callers, that an asset is
  its owner's alone, and that what was saved is what is read.
\<close>

lemma begin_upload_inv:
  assumes "asset_inv s"
  shows "asset_inv (asset_step (BeginUpload i scope media_type metadata retention path) s)"
proof (cases "begin_upload scope media_type metadata retention path (ay_store s)")
  case (Inr up)
  then have "up_reserved up = 0" "up_buffered up = []"
    by (auto simp: begin_upload_def sum_bind_Inr split: option.splits)
  then have "upload_ok (ay_store s) up"
    using assms by (simp add: upload_ok_def asset_inv_def store_ok_def)
  then have "\<forall>p \<in> set (AList.update i up (ay_uploads s)). upload_ok (ay_store s) (snd p)"
    using assms by (intro update_all) (simp_all add: asset_inv_def)
  with Inr assms \<open>up_reserved up = 0\<close> show ?thesis
    by (cases "map_of (ay_uploads s) i") (simp_all add: asset_inv_def sum_values_update)
qed (use assms in simp)

lemma asset_step_inv:
  assumes "asset_inv s"
  shows "asset_inv (asset_step ev s)"
proof -
  have ok: "store_ok (ay_store s)" using assms by (simp add: asset_inv_def)
  note removes = reads_only_remove [OF ok, THEN only_removes_inv [OF assms]]
    clear_only_removes [OF ok, THEN only_removes_inv [OF assms]]
  show ?thesis
  proof (cases ev)
    case (FailUpload i e)
    then show ?thesis
      using release_inv [OF assms, of i] assms by (simp add: fail_upload_def split: option.splits)
  next
    case (UploadChunk i chunk now)
    then show ?thesis using upload_step_inv [OF assms] by simp
  next
    case (FinishUpload i now token_factory)
    then show ?thesis using finish_upload_inv [OF assms] by simp
  next
    case (BeginUpload i scope media_type metadata retention path)
    then show ?thesis using begin_upload_inv [OF assms] by simp
  qed (use removes in simp_all)
qed

text \<open>The store as the constructor leaves it, with no upload in flight.\<close>

definition asset_start :: "asset_store \<Rightarrow> asset_system" where
  "asset_start st = \<lparr> ay_store = st, ay_uploads = [] \<rparr>"

lemma asset_start_inv:
  "new_asset_store max_asset max_total read_chunk retention = Inr st \<Longrightarrow> asset_inv (asset_start st)"
  by (auto simp: new_asset_store_def asset_start_def asset_inv_def store_ok_def balanced_def
      require_positive_integer_def require_def split: option.splits if_splits)

definition default_asset_store :: asset_store where
  "default_asset_store = projr (new_asset_store (10 * 1024 * 1024) (100 * 1024 * 1024) (64 * 1024) None)"

lemma default_asset_store_made:
  "new_asset_store (10 * 1024 * 1024) (100 * 1024 * 1024) (64 * 1024) None = Inr default_asset_store"
  by (simp add: default_asset_store_def new_asset_store_def require_positive_integer_def require_retention_def require_def)

interpretation assets: guarded_store "asset_start default_asset_store" asset_step "\<lambda>_. True" asset_inv
  by unfold_locales (rule asset_start_inv [OF default_asset_store_made], rule asset_step_inv)

lemma asset_run_inv:
  assumes "new_asset_store max_asset max_total read_chunk retention = Inr st"
  shows "asset_inv (fold asset_step events (asset_start st))"
  by (rule assets.inv_fold [OF asset_start_inv [OF assms]]) (simp add: list_all_iff)

lemma same_limits_trans: "same_limits a b \<Longrightarrow> same_limits b c \<Longrightarrow> same_limits a c"
  by (simp add: same_limits_def)

lemma cleanup_limits [simp]:
  "as_max_asset_bytes (snd (cleanup_locked now st)) = as_max_asset_bytes st"
  "as_max_total_bytes (snd (cleanup_locked now st)) = as_max_total_bytes st"
  "as_read_chunk_bytes (snd (cleanup_locked now st)) = as_read_chunk_bytes st"
  "as_default_retention (snd (cleanup_locked now st)) = as_default_retention st"
  using cleanup_frame(1) [of st now] by (simp_all add: same_limits_def)

lemma fail_limits: "same_limits st (snd (fail_upload up e st))"
  by (simp add: same_limits_def fail_upload_def release_def)

lemma upload_step_limits: "same_limits st (snd (upload_step up chunk now st))"
  by (auto simp: upload_step_def append_reserved_def reserve_def require_chunk_def Let_def same_limits_def
      fail_upload_def release_def split: upload_chunk.splits)

lemma finish_upload_limits: "same_limits st (snd (finish_upload up now token_factory st))"
  by (auto simp: finish_upload_def commit_upload_def Let_def same_limits_def fail_upload_def release_def
      split: sum.splits)

lemma same_limits_step:
  assumes "asset_inv s"
  shows "same_limits (ay_store s) (ay_store (asset_step ev s))"
proof -
  have ok: "store_ok (ay_store s)" using assms by (simp add: asset_inv_def)
  note l = reads_only_remove [OF ok] clear_only_removes [OF ok]
  show ?thesis
    using l fail_limits upload_step_limits finish_upload_limits
    by (cases ev) (auto simp: only_removes_def case_prod_beta split: option.splits sum.splits prod.splits)
qed

lemma same_limits_run: "asset_inv s \<Longrightarrow> same_limits (ay_store s) (ay_store (fold asset_step events s))"
proof (induction events arbitrary: s)
  case (Cons ev events)
  from same_limits_trans [OF same_limits_step [OF Cons.prems] Cons.IH [OF asset_step_inv [OF Cons.prems]]]
  show ?case by simp
qed simp



section \<open>Capacity\<close>

lemma sum_values_cong: "(\<And>p. p \<in> set d \<Longrightarrow> f (snd p) = g (snd p)) \<Longrightarrow> sum_values f d = sum_values g d"
  unfolding sum_values_def by (rule arg_cong [where f = sum_list]) simp

definition stored_bytes :: "asset_system \<Rightarrow> int" where
  "stored_bytes s = sum_values (\<lambda>sd. bytes_held (sd_chunks sd)) (as_assets (ay_store s))"

definition buffered_bytes :: "asset_system \<Rightarrow> int" where
  "buffered_bytes s = sum_values (\<lambda>up. bytes_held (up_buffered up)) (ay_uploads s)"

text \<open>
  C16. However callers interleave uploads, reads, deletions, failures and cancellations, the bytes
  the process really holds, stored and buffered by uploads in flight together, never exceed the
  configured total; the store's two counters are those amounts, and no asset exceeds the per-asset
  limit.
\<close>

theorem asset_capacity_respected:
  assumes "new_asset_store max_asset max_total read_chunk retention = Inr st"
  shows "let s = fold asset_step events (asset_start st) in
     stored_bytes s + buffered_bytes s \<le> max_total
   \<and> as_total_bytes (ay_store s) = stored_bytes s \<and> as_reserved_bytes (ay_store s) = buffered_bytes s
   \<and> (\<forall>p \<in> set (as_assets (ay_store s)). bytes_held (sd_chunks (snd p)) \<le> max_asset)"
proof -
  let ?s = "fold asset_step events (asset_start st)"
  have inv: "asset_inv ?s" by (rule asset_run_inv [OF assms])
  have lim: "as_max_asset_bytes (ay_store ?s) = max_asset" "as_max_total_bytes (ay_store ?s) = max_total"
    using same_limits_run [OF asset_start_inv [OF assms], of events] assms
    by (auto simp: same_limits_def asset_start_def new_asset_store_def split: option.splits)
  have e: "entry_ok max_asset p" if "p \<in> set (as_assets (ay_store ?s))" for p
    using inv that lim by (simp add: asset_inv_def store_ok_def)
  then have "sum_values stored_size (as_assets (ay_store ?s)) = stored_bytes ?s"
    unfolding stored_bytes_def by (intro sum_values_cong) (simp add: entry_ok_def stored_size_def Let_def)
  moreover have "sum_values up_reserved (ay_uploads ?s) = buffered_bytes ?s"
    unfolding buffered_bytes_def using inv by (intro sum_values_cong) (simp add: asset_inv_def upload_ok_def)
  ultimately show ?thesis
    using inv lim e by (auto simp: asset_inv_def store_ok_def balanced_def entry_ok_def Let_def)
qed

definition owner_a :: asset_scope where
  "owner_a = \<lparr> ac_user_id = ''u'', ac_session_id = ''s'' \<rparr>"

theorem asset_capacity_respected_witness:
  "stored_bytes (fold asset_step [BeginUpload 1 owner_a ''image/png'' None None None,
      UploadChunk 1 (ByteChunk [1, 2, 3]) 0, UploadChunk 2 (ByteChunk [4]) 0] (asset_start default_asset_store)) \<le> 100 * 1024 * 1024"
proof -
  have b: "0 \<le> buffered_bytes (fold asset_step evs (asset_start default_asset_store))" for evs
    using assets.inv_run [of evs]
    by (auto simp: buffered_bytes_def list_all_iff intro!: sum_values_nonneg)
  show ?thesis
    using asset_capacity_respected [OF default_asset_store_made, of "[BeginUpload 1 owner_a ''image/png'' None None None,
      UploadChunk 1 (ByteChunk [1, 2, 3]) 0, UploadChunk 2 (ByteChunk [4]) 0]"] b
    by (smt (verit))
qed


section \<open>Each owner has a map of its own\<close>

text \<open>
  The specification: at time \<open>now\<close>, an owner sees a partial map from identifiers to the record and
  the content of its unexpired assets, and nothing else.
\<close>

definition asset_view :: "asset_scope \<Rightarrow> rat \<Rightarrow> asset_store \<Rightarrow> string \<Rightarrow> (asset_record \<times> bytes) option" where
  "asset_view scope now st k =
     (case map_of (as_assets st) k of None \<Rightarrow> None
      | Some sd \<Rightarrow> if ar_scope (sd_record sd) = scope \<and> \<not> asset_expired now sd
                  then Some (sd_record sd, concat (sd_chunks sd)) else None)"

lemma asset_expired_mono: "asset_expired now sd \<Longrightarrow> now \<le> later \<Longrightarrow> asset_expired later sd"
  by (auto simp: asset_expired_def split: option.splits)

lemma owned_after_cleanup:
  assumes "dict_ok (as_assets st)"
  shows "owned_locked scope k (snd (cleanup_locked now st)) =
     (case map_of (as_assets st) k of None \<Rightarrow> None
      | Some sd \<Rightarrow> if ar_scope (sd_record sd) = scope \<and> \<not> asset_expired now sd then Some sd else None)"
  by (simp add: owned_locked_def cleanup_lookup [OF assms] split: option.splits)

lemma view_after_cleanup:
  assumes "dict_ok (as_assets st)" "now \<le> later"
  shows "asset_view scope later (snd (cleanup_locked now st)) = asset_view scope later st"
  using asset_expired_mono [OF _ assms(2)]
  by (rule_tac ext) (auto simp: asset_view_def cleanup_lookup [OF assms(1)] split: option.splits)

lemma dict_ok_cleanup: "dict_ok (as_assets st) \<Longrightarrow> dict_ok (as_assets (snd (cleanup_locked now st)))"
  by (simp add: cleanup_assets)

lemma remove_locked_lookup:
  "dict_ok (as_assets st) \<Longrightarrow>
   map_of (as_assets (remove_locked k st)) k' = (if k' = k then None else map_of (as_assets st) k')"
  by (simp add: remove_locked_assets map_of_filter_pred split: option.splits)

lemma view_remove:
  "dict_ok (as_assets st) \<Longrightarrow>
   asset_view scope now (remove_locked k st) = (asset_view scope now st) (k := None)"
  by (rule ext) (simp add: asset_view_def remove_locked_lookup)

lemma view_other: "owned_locked scope k st = Some sd \<Longrightarrow> scope' \<noteq> scope \<Longrightarrow> asset_view scope' now st k = None"
  by (auto simp: asset_view_def owned_locked_def split: option.splits if_splits)

lemma concat_pieces: "0 < n \<Longrightarrow> concat (pieces n chunk) = chunk"
  by (induction n chunk rule: pieces.induct) (subst pieces.simps, auto)

lemma length_pieces: "p \<in> set (pieces n chunk) \<Longrightarrow> length p \<le> n"
proof (induction n chunk rule: pieces.induct)
  case (1 n chunk)
  then show ?case by (subst (asm) (2) pieces.simps) (auto split: if_splits)
qed

lemma concat_map_pieces: "0 < n \<Longrightarrow> concat (concat (map (pieces n) chunks)) = concat chunks"
  by (induction chunks) (auto simp: concat_pieces)

text \<open>
  C17. Every operation of an owner is the operation on its map: \<^verbatim>\<open>stat\<close> is the lookup of the record,
  \<^verbatim>\<open>open\<close> streams exactly the content in bounded pieces or fails as for an unknown identifier,
  \<^verbatim>\<open>delete\<close> reports whether the identifier was there and removes it from the owner's map; the map of
  any other owner, at any later time, is left as it was. So an asset of another owner and an expired
  asset cannot be told from one that never existed.
\<close>

theorem asset_store_refines_owner_maps:
  assumes "store_ok st" "now \<le> later"
  shows "fst (stat_asset scope k now st) = map_option fst (asset_view scope now st k)
    \<and> asset_view other later (snd (stat_asset scope k now st)) = asset_view other later st
    \<and> (case asset_view scope now st k of
         None \<Rightarrow> fst (open_asset scope k now st) = Inl (AssetNotFoundError ''asset not found'')
       | Some (r, content) \<Rightarrow> (\<exists>ps. fst (open_asset scope k now st) = Inr ps \<and> concat ps = content \<and>
            (\<forall>p\<in>set ps. length p \<le> as_read_chunk_bytes st)))
    \<and> asset_view other later (snd (open_asset scope k now st)) = asset_view other later st
    \<and> fst (delete_asset scope k now st) = (asset_view scope now st k \<noteq> None)
    \<and> asset_view other later (snd (delete_asset scope k now st)) =
        (if other = scope then (asset_view other later st) (k := None) else asset_view other later st)"
proof -
  have d: "dict_ok (as_assets st)" and n: "0 < as_read_chunk_bytes st"
    using assms by (simp_all add: store_ok_def balanced_def)
  let ?c = "snd (cleanup_locked now st)"
  note v = view_after_cleanup [OF d assms(2)] and o = owned_after_cleanup [OF d]
  have view: "asset_view scope now st k = map_option (\<lambda>sd. (sd_record sd, concat (sd_chunks sd))) (owned_locked scope k ?c)"
    by (simp add: o asset_view_def split: option.splits)
  have stat: "fst (stat_asset scope k now st) = map_option fst (asset_view scope now st k)"
    by (simp add: stat_asset_def Let_def view option.map_comp comp_def)
  have opened: "case asset_view scope now st k of
         None \<Rightarrow> fst (open_asset scope k now st) = Inl (AssetNotFoundError ''asset not found'')
       | Some (r, content) \<Rightarrow> (\<exists>ps. fst (open_asset scope k now st) = Inr ps \<and> concat ps = content \<and>
            (\<forall>p\<in>set ps. length p \<le> as_read_chunk_bytes st))"
    using concat_map_pieces [OF n]
    by (auto simp: view open_asset_def Let_def intro: length_pieces split: option.splits)
  have gone: "asset_view other later (snd (delete_asset scope k now st)) =
        (if other = scope then (asset_view other later st) (k := None) else asset_view other later st)"
  proof (cases "owned_locked scope k ?c")
    case None
    then have "asset_view scope later ?c k = None"
      by (auto simp: asset_view_def owned_locked_def split: option.splits if_splits)
    with None show ?thesis by (auto simp: delete_asset_def Let_def v)
  next
    case (Some sd)
    with view_other [OF Some, of other later] show ?thesis
      by (auto simp: delete_asset_def Let_def view_remove [OF dict_ok_cleanup [OF d]] v)
  qed
  show ?thesis
    using stat opened gone v
    by (simp add: stat_asset_def open_asset_def delete_asset_def Let_def view split: option.splits)
qed


lemma default_store_ok: "store_ok default_asset_store"
  using asset_start_inv [OF default_asset_store_made] by (simp add: asset_inv_def asset_start_def)

theorem asset_store_refines_owner_maps_witness:
  "fst (delete_asset owner_a ''asset_x'' 5 default_asset_store) =
     (asset_view owner_a 5 default_asset_store ''asset_x'' \<noteq> None)"
  using asset_store_refines_owner_maps [OF default_store_ok, of 5 5 owner_a "''asset_x''" owner_a] by blast


section \<open>What was saved is what is read\<close>

fun chunk_bytes :: "upload_chunk \<Rightarrow> bytes" where
  "chunk_bytes (ByteChunk bs) = bs"
| "chunk_bytes OtherChunk = []"

lemma upload_step_frame:
  assumes "upload_step up chunk now st = (Inr up', st')"
  shows "up' = up \<lparr> up_buffered := up_buffered up @ [chunk_bytes chunk],
      up_reserved := up_reserved up + int (length (chunk_bytes chunk)) \<rparr>"
    and "dict_ok (as_assets st) \<Longrightarrow> dict_ok (as_assets st')"
  using assms cleanup_assets [of st now]
  by (auto simp: upload_step_def require_chunk_def append_reserved_def reserve_def Let_def
      split: upload_chunk.splits prod.splits sum.splits if_splits)

lemma upload_all_frame:
  assumes "upload_all up chunks st = (Inr up', st')"
  shows "up_buffered up' = up_buffered up @ map (chunk_bytes \<circ> fst) chunks \<and> up_scope up' = up_scope up
    \<and> (dict_ok (as_assets st) \<longrightarrow> dict_ok (as_assets st'))
    \<and> up_reserved up' = up_reserved up + bytes_held (map (chunk_bytes \<circ> fst) chunks)"
  using assms
proof (induction up chunks st rule: upload_all.induct)
  case (2 up chunk now rest st)
  obtain up1 st1 where s: "upload_step up chunk now st = (Inr up1, st1)" "upload_all up1 rest st1 = (Inr up', st')"
    using 2(2) by (auto split: prod.splits sum.splits)
  have "up_buffered up' = up_buffered up1 @ map (chunk_bytes \<circ> fst) rest \<and> up_scope up' = up_scope up1
    \<and> (dict_ok (as_assets st1) \<longrightarrow> dict_ok (as_assets st'))
    \<and> up_reserved up' = up_reserved up1 + bytes_held (map (chunk_bytes \<circ> fst) rest)"
    using 2(1) s by (auto simp: comp_def)
  with upload_step_frame [OF s(1)] show ?case by (simp add: bytes_held_def comp_def)
qed simp

lemma upload_all_limits: "upload_all up chunks st = (Inr up', st') \<Longrightarrow> same_limits st st'"
proof (induction up chunks st rule: upload_all.induct)
  case (2 up chunk now rest st)
  obtain upa sta where s: "upload_step up chunk now st = (Inr upa, sta)" "upload_all upa rest sta = (Inr up', st')"
    using 2(2) by (auto split: prod.splits sum.splits)
  show ?case using same_limits_trans [OF upload_step_limits] 2(1) s by (metis snd_conv)
qed simp

text \<open>
  A successful \<^verbatim>\<open>save\<close> returns a record of the saver with the exact size, and until the record's
  expiry the owner's \<^verbatim>\<open>open\<close> streams exactly the bytes the source yielded, in order.
\<close>

theorem saved_asset_reads_back:
  assumes "store_ok st" "save_asset scope media_type metadata retention path chunks now token_factory st = (Inr r, st')"
    and "\<forall>t. ar_expires_at r = Some t \<longrightarrow> later < t"
  shows "ar_scope r = scope \<and> ar_size_bytes r = bytes_held (map (chunk_bytes \<circ> fst) chunks) \<and>
     (\<exists>ps. fst (open_asset scope (ar_asset_id r) later st') = Inr ps \<and>
        concat ps = concat (map (chunk_bytes \<circ> fst) chunks))"
proof -
  obtain up0 up st1 where b: "begin_upload scope media_type metadata retention path st = Inr up0"
      and u: "upload_all up0 chunks st = (Inr up, st1)"
      and f: "finish_upload up now token_factory st1 = (Inr r, st')"
    using assms(2) by (auto simp: save_asset_def split: sum.splits prod.splits)
  have up0: "up_scope up0 = scope" "up_buffered up0 = []" "up_reserved up0 = 0"
    using b by (auto simp: begin_upload_def sum_bind_Inr split: option.splits)
  have d: "dict_ok (as_assets st)" and n: "0 < as_read_chunk_bytes st"
    using assms(1) by (simp_all add: store_ok_def balanced_def)
  note uf = upload_all_frame [OF u]
  have c: "commit_upload up now token_factory st1 = (Inr r, st')"
    using f by (cases "commit_upload up now token_factory st1")
      (auto simp: finish_upload_def case_prod_beta split: sum.splits)
  note cs = commit_success [OF c]
  have r: "ar_scope r = scope" "ar_size_bytes r = up_reserved up"
    using cs(2) uf up0 by (metis asset_record.select_convs(2,4))+
  have look: "map_of (as_assets st') (ar_asset_id r) = Some \<lparr> sd_record = r, sd_chunks = up_buffered up \<rparr>"
    and d': "dict_ok (as_assets st')"
    using cs(4) dict_ok_cleanup [of st1 now] uf d by (simp_all add: Let_def)
  have limits: "as_read_chunk_bytes st' = as_read_chunk_bytes st1" using cs(4) by (simp add: Let_def)
  have "same_limits st st1" by (rule upload_all_limits [OF u])
  with limits n have n': "0 < as_read_chunk_bytes st'" by (simp add: same_limits_def)
  have "\<not> asset_expired later \<lparr> sd_record = r, sd_chunks = up_buffered up \<rparr>"
    using assms(3) by (auto simp: asset_expired_def split: option.splits)
  then have "owned_locked scope (ar_asset_id r) (snd (cleanup_locked later st')) =
      Some \<lparr> sd_record = r, sd_chunks = up_buffered up \<rparr>"
    by (simp add: owned_after_cleanup [OF d'] look r)
  then show ?thesis
    using r uf up0 concat_map_pieces [OF n', of "map (chunk_bytes \<circ> fst) chunks"]
    by (simp add: open_asset_def Let_def)
qed


definition small_store :: asset_store where
  "small_store = \<lparr> as_max_asset_bytes = 10, as_max_total_bytes = 20, as_read_chunk_bytes = 2,
     as_default_retention = None, as_assets = [], as_total_bytes = 0, as_reserved_bytes = 0 \<rparr>"

definition small_record :: asset_record where
  "small_record = \<lparr> ar_asset_id = ''asset_aaaaaaaaaaaaaaaa'', ar_scope = owner_a, ar_media_type = ''image/png'',
     ar_size_bytes = 3, ar_created_at = 7, ar_expires_at = Some 67, ar_metadata = None \<rparr>"

lemma small_save:
  "\<exists>st'. save_asset owner_a ''Image/PNG '' None (Some (Fin 60)) (Some ''a/b'')
     [(ByteChunk [1, 2], 5), (ByteChunk [3], 6)] 7 (\<lambda>_. ''aaaaaaaaaaaaaaaa'') small_store = (Inr small_record, st')"
proof -
  have "fst (save_asset owner_a ''Image/PNG '' None (Some (Fin 60)) (Some ''a/b'')
     [(ByteChunk [1, 2], 5), (ByteChunk [3], 6)] 7 (\<lambda>_. ''aaaaaaaaaaaaaaaa'') small_store) = Inr small_record"
    by code_simp
  then show ?thesis by (metis prod.collapse)
qed

theorem saved_asset_reads_back_witness:
  "\<exists>st' ps. fst (open_asset owner_a ''asset_aaaaaaaaaaaaaaaa'' 66 st') = Inr ps \<and> concat ps = [1, 2, 3]"
proof -
  have ok: "store_ok small_store" by (simp add: store_ok_def balanced_def small_store_def)
  obtain st' where s: "save_asset owner_a ''Image/PNG '' None (Some (Fin 60)) (Some ''a/b'')
     [(ByteChunk [1, 2], 5), (ByteChunk [3], 6)] 7 (\<lambda>_. ''aaaaaaaaaaaaaaaa'') small_store = (Inr small_record, st')"
    using small_save by blast
  have "\<forall>t. ar_expires_at small_record = Some t \<longrightarrow> 66 < t" by (simp add: small_record_def)
  from saved_asset_reads_back [OF ok s this] show ?thesis
    by (auto simp: small_record_def)
qed

end
