(* ===== verification/Graph.thy ===== *)
theory Graph
  imports Prelude "HOL-Library.Char_ord"
begin

text \<open>
  Validation of a workflow graph (\<^verbatim>\<open>graph.py\<close>): the routes and events of nodes, the edges, and the
  worklist that checks that every node is reachable from the entry. The iteration order of a
  Python set is not specified, so the worklist takes it as an argument.
\<close>


section \<open>Names and routes\<close>

text \<open>\<^verbatim>\<open>str.isidentifier()\<close> on Latin-1.\<close>

definition identifier_start :: "char \<Rightarrow> bool" where
  "identifier_start c \<longleftrightarrow> (let n = of_char c :: nat in
     n = 95 \<or> 65 \<le> n \<and> n \<le> 90 \<or> 97 \<le> n \<and> n \<le> 122 \<or> n \<in> {0xAA, 0xB5, 0xBA} \<or>
     0xC0 \<le> n \<and> n \<noteq> 0xD7 \<and> n \<noteq> 0xF7)"

definition identifier_rest :: "char \<Rightarrow> bool" where
  "identifier_rest c \<longleftrightarrow> identifier_start c \<or> (let n = of_char c :: nat in 48 \<le> n \<and> n \<le> 57 \<or> n = 0xB7)"

definition is_identifier :: "string \<Rightarrow> bool" where
  "is_identifier s = (case s of [] \<Rightarrow> False | c # cs \<Rightarrow> identifier_start c \<and> list_all identifier_rest cs)"

definition quoted :: "string \<Rightarrow> string" where
  "quoted name = CHR 0x27 # name @ [CHR 0x27]"

definition start_node :: string where
  "start_node = ''START''"

fun route_value :: "pyval \<Rightarrow> bool" where
  "route_value (PyBool _) = True"
| "route_value (PyInt _) = True"
| "route_value (PyStr _) = True"
| "route_value _ = False"

text \<open>In a set, \<^verbatim>\<open>True\<close> and \<^verbatim>\<open>1\<close> are one element.\<close>

fun route_key :: "pyval \<Rightarrow> pyval" where
  "route_key (PyBool b) = PyInt (if b then 1 else 0)"
| "route_key v = v"

definition normalize_sequence :: "pyval list \<Rightarrow> string \<Rightarrow> exc + pyval" where
  "normalize_sequence route field_name =
     (if route = [] then Inl (ValueError (field_name @ '' cannot be an empty sequence''))
      else if \<not> list_all route_value route then
        Inl (TypeError (field_name @ '' values must be booleans, integers, or strings''))
      else if \<not> distinct (map route_key route) then
        Inl (ValueError (field_name @ '' cannot contain duplicate values''))
      else Inr (PyTuple route))"

fun normalize_route :: "pyval \<Rightarrow> string \<Rightarrow> exc + pyval" where
  "normalize_route PyNone field_name = Inr PyNone"
| "normalize_route (PyBool b) field_name = Inr (PyBool b)"
| "normalize_route (PyInt n) field_name = Inr (PyInt n)"
| "normalize_route (PyStr s) field_name = Inr (PyStr s)"
| "normalize_route (PyList vs) field_name = normalize_sequence vs field_name"
| "normalize_route (PyTuple vs) field_name = normalize_sequence vs field_name"
| "normalize_route _ field_name =
     Inl (TypeError (field_name @ '' must be a boolean, integer, string, sequence, or None''))"

record edge =
  e_source :: string
  e_target :: string
  e_route :: pyval

definition edge_end :: "pyval \<Rightarrow> string \<Rightarrow> exc + string" where
  "edge_end value field_name =
     (case value of
        PyStr s \<Rightarrow> if s = [] then Inl (TypeError (''edge '' @ field_name @ '' must be a non-empty string'')) else Inr s
      | _ \<Rightarrow> Inl (TypeError (''edge '' @ field_name @ '' must be a non-empty string'')))"

definition make_edge :: "pyval \<Rightarrow> pyval \<Rightarrow> pyval \<Rightarrow> exc + edge" where
  "make_edge source target route =
     sum_bind (edge_end source ''source'') (\<lambda>s.
     sum_bind (edge_end target ''target'') (\<lambda>t.
     sum_bind (normalize_route route ''edge route'') (\<lambda>r.
       Inr \<lparr> e_source = s, e_target = t, e_route = r \<rparr>)))"

record node_event =
  ev_output :: pyval
  ev_route :: pyval
  ev_message :: pyval
  ev_state_delta :: "(pyval \<times> pyval) list"

definition make_event :: "pyval \<Rightarrow> pyval \<Rightarrow> pyval \<Rightarrow> pyval \<Rightarrow> exc + node_event" where
  "make_event value route message state_delta =
     sum_bind (normalize_route route ''event route'') (\<lambda>r.
     sum_bind (guard_that (case message of PyNone \<Rightarrow> True | PyStr _ \<Rightarrow> True | _ \<Rightarrow> False)
       (TypeError ''event message must be a string or None'')) (\<lambda>_.
     sum_bind (case state_delta of PyDict d \<Rightarrow> Inr d | _ \<Rightarrow> Inl (TypeError ''event state_delta must be a mapping'')) (\<lambda>d.
     sum_bind (guard_that (\<not> (value = PyNone \<and> r = PyNone \<and> message = PyNone \<and> d = []))
       (ValueError ''event must provide output, route, message, or state_delta'')) (\<lambda>_.
       Inr \<lparr> ev_output = value, ev_route = r, ev_message = message, ev_state_delta = d \<rparr>))))"


section \<open>The graph\<close>

text \<open>The keys of the node mapping in order; what a node is does not matter to validation.\<close>

record graph =
  g_name :: pyval
  g_nodes :: "pyval list"
  g_edges :: "edge list"
  g_description :: pyval
  g_max_concurrency :: pyval

definition validate_metadata :: "graph \<Rightarrow> exc option" where
  "validate_metadata g =
     (case g_name g of
        PyStr name \<Rightarrow>
          if \<not> is_identifier name then Some (ValueError ''graph name must be a valid Python identifier'')
          else if name = ''user'' then Some (ValueError (''graph name cannot be '' @ quoted ''user''))
          else if \<not> (case g_description g of PyStr _ \<Rightarrow> True | _ \<Rightarrow> False) then
            Some (TypeError ''graph description must be a string'')
          else if \<not> (case g_max_concurrency g of PyNone \<Rightarrow> True | PyInt n \<Rightarrow> 1 \<le> n | _ \<Rightarrow> False) then
            Some (ValueError ''graph max_concurrency must be a positive integer'')
          else None
      | _ \<Rightarrow> Some (ValueError ''graph name must be a valid Python identifier''))"

fun normalize_names :: "pyval list \<Rightarrow> exc + string list" where
  "normalize_names [] = Inr []"
| "normalize_names (PyStr name # rest) =
     (if \<not> is_identifier name then Inl (ValueError ''graph node reference must be a Python identifier'')
      else if name \<in> {start_node, ''__START__''} then Inl (ValueError ''graph node reference is reserved'')
      else sum_bind (normalize_names rest) (\<lambda>names. Inr (name # names)))"
| "normalize_names (_ # rest) = Inl (ValueError ''graph node reference must be a Python identifier'')"

definition normalize_nodes :: "graph \<Rightarrow> exc + string list" where
  "normalize_nodes g =
     (if g_nodes g = [] then Inl (ValueError ''graph must define at least one node'') else normalize_names (g_nodes g))"

type_synonym adjacency = "(string \<times> string list) list"

text \<open>The loop over the edges: the pairs already seen and the successors of every node.\<close>

fun add_edges :: "string list \<Rightarrow> edge list \<Rightarrow> (string \<times> string) list \<Rightarrow> adjacency \<Rightarrow> exc + adjacency" where
  "add_edges names [] seen adj = Inr adj"
| "add_edges names (e # edges) seen adj =
     (if e_source e \<noteq> start_node \<and> e_source e \<notin> set names then
        Inl (ValueError ''graph edge references unknown source node'')
      else if e_target e \<notin> set names then
        Inl (ValueError ''graph edge references unknown target node'')
      else if (e_source e, e_target e) \<in> set seen then Inl (ValueError ''graph contains duplicate edge'')
      else case map_of adj (e_source e) of
        None \<Rightarrow> Inl (KeyError (e_source e))
      | Some targets \<Rightarrow>
          add_edges names edges ((e_source e, e_target e) # seen)
            (AList.update (e_source e) (List.insert (e_target e) targets) adj))"

definition validate_edges :: "edge list \<Rightarrow> string list \<Rightarrow> exc + adjacency" where
  "validate_edges edges names = add_edges names edges [] ((start_node, []) # map (\<lambda>name. (name, [])) names)"

text \<open>
  The iteration over a set of successors, when Python happens to go through it in the order
  \<open>order\<close> gives; whatever that function is, every element is visited and no other.
\<close>

definition in_order :: "(string list \<Rightarrow> string list) \<Rightarrow> string list \<Rightarrow> string list" where
  "in_order order xs =
     (let ys = filter (\<lambda>x. x \<in> set xs) (order xs) in ys @ filter (\<lambda>x. x \<notin> set ys) xs)"

lemma set_in_order [simp]: "set (in_order order xs) = set xs"
  by (auto simp: in_order_def Let_def)

text \<open>
  One turn of the worklist visits the successors of the popped node; the top of the stack is the
  head of the list. The loop ends because what is not yet reachable shrinks, or else the stack.
\<close>

fun visit :: "string list \<Rightarrow> string list \<times> string list \<Rightarrow> string list \<times> string list" where
  "visit [] st = st"
| "visit (target # targets) (reachable, pending) =
     visit targets (if target \<in> set reachable then (reachable, pending)
                    else (target # reachable, target # pending))"

definition all_targets :: "adjacency \<Rightarrow> string set" where
  "all_targets adj = (\<Union>p \<in> set adj. set (snd p))"

lemma visit_spec:
  "visit targets (reachable, pending) = (reachable', pending') \<Longrightarrow>
     set reachable' = set reachable \<union> set targets \<and>
     set pending' = set pending \<union> (set targets - set reachable) \<and>
     (set targets \<subseteq> set reachable \<longrightarrow> pending' = pending)"
proof (induction targets arbitrary: reachable pending)
  case (Cons t targets)
  show ?case
  proof (cases "t \<in> set reachable")
    case True
    with Cons.prems have "visit targets (reachable, pending) = (reachable', pending')" by simp
    from Cons.IH [OF this] True show ?thesis by auto
  next
    case False
    with Cons.prems have "visit targets (t # reachable, t # pending) = (reachable', pending')" by simp
    from Cons.IH [OF this] False show ?thesis by auto
  qed
qed simp

function explore :: "(string list \<Rightarrow> string list) \<Rightarrow> adjacency \<Rightarrow> string list \<Rightarrow> string list \<Rightarrow> exc + string list" where
  "explore order adj reachable pending =
     (case pending of
        [] \<Rightarrow> Inr reachable
      | current # rest \<Rightarrow>
          (case map_of adj current of
             None \<Rightarrow> Inl (KeyError current)
           | Some targets \<Rightarrow>
               (case visit (in_order order targets) (reachable, rest) of
                  (reachable', pending') \<Rightarrow> explore order adj reachable' pending')))"
  by pat_completeness auto
termination
proof (relation "measures [\<lambda>(order, adj, reachable, pending). card (all_targets adj - set reachable),
                            \<lambda>(order, adj, reachable, pending). length pending]", simp, goal_cases)
  case (1 order adj reachable pending current rest targets reachable' pending')
  let ?ts = "in_order order targets"
  from 1 have v: "visit ?ts (reachable, rest) = (reachable', pending')" by simp
  have "(current, targets) \<in> set adj" using 1(2) by (rule map_of_SomeD)
  then have sub: "set ?ts \<subseteq> all_targets adj" by (force simp: all_targets_def)
  have fin: "finite (all_targets adj)" by (simp add: all_targets_def)
  show ?case
  proof (cases "set ?ts \<subseteq> set reachable")
    case True
    then have "set reachable' = set reachable" "pending' = rest" using visit_spec [OF v] by auto
    then show ?thesis using 1(1) by (simp add: v)
  next
    case False
    then have "all_targets adj - set reachable' \<subset> all_targets adj - set reachable"
      using visit_spec [OF v] sub by blast
    then have "card (all_targets adj - set reachable') < card (all_targets adj - set reachable)"
      using fin by (intro psubset_card_mono) auto
    then show ?thesis by (simp add: v)
  qed
qed

declare explore.simps [simp del]

fun join_names :: "string list \<Rightarrow> string" where
  "join_names [] = []"
| "join_names [name] = quoted name"
| "join_names (name # names) = quoted name @ '', '' @ join_names names"

definition unreachable_nodes :: "string list \<Rightarrow> string list \<Rightarrow> string list" where
  "unreachable_nodes names reachable = sort (remdups (filter (\<lambda>name. name \<notin> set reachable) names))"

definition validate_reachability :: "(string list \<Rightarrow> string list) \<Rightarrow> adjacency \<Rightarrow> string list \<Rightarrow> exc option" where
  "validate_reachability order adj names =
     (case explore order adj [] [start_node] of
        Inl e \<Rightarrow> Some e
      | Inr reachable \<Rightarrow>
          (let unreachable = unreachable_nodes names reachable in
           if unreachable \<noteq> [] then
             Some (ValueError (''graph contains nodes unreachable from START: '' @ join_names unreachable))
           else None))"

definition make_graph :: "(string list \<Rightarrow> string list) \<Rightarrow> graph \<Rightarrow> exc + graph" where
  "make_graph order g =
     (case validate_metadata g of Some e \<Rightarrow> Inl e | None \<Rightarrow>
       sum_bind (normalize_nodes g) (\<lambda>names.
       sum_bind (validate_edges (g_edges g) names) (\<lambda>adj.
       (case validate_reachability order adj names of Some e \<Rightarrow> Inl e | None \<Rightarrow> Inr g))))"

end
