(* ===== verification/Graph_Props.thy ===== *)
theory Graph_Props
  imports Graph
begin

text \<open>The worklist computes reachability, in whatever order sets are iterated.\<close>

section \<open>The worklist\<close>

definition successor :: "adjacency \<Rightarrow> (string \<times> string) set" where
  "successor adj = {(a, b). \<exists>ts. map_of adj a = Some ts \<and> b \<in> set ts}"

definition closed_under :: "adjacency \<Rightarrow> bool" where
  "closed_under adj \<longleftrightarrow> start_node \<in> dom (map_of adj) \<and> (\<forall>a b. (a, b) \<in> successor adj \<longrightarrow> b \<in> dom (map_of adj))"

text \<open>
  What the loop keeps: only reachable nodes are collected and stacked, and the successors of a
  node that has left the stack are all collected.
\<close>

definition explore_inv :: "adjacency \<Rightarrow> string set \<Rightarrow> string set \<Rightarrow> bool" where
  "explore_inv adj reachable pending \<longleftrightarrow>
     reachable \<subseteq> (successor adj)\<^sup>+ `` {start_node} \<and> pending \<subseteq> insert start_node reachable \<and>
     (\<forall>a \<in> insert start_node reachable. a \<in> pending \<or> successor adj `` {a} \<subseteq> reachable)"

lemma explore_inv_step:
  assumes "explore_inv adj reachable pending" "map_of adj current = Some targets" "current \<in> pending"
    and "pending - {current} \<subseteq> pending'" "pending' \<subseteq> pending \<union> set targets"
    and "set targets - reachable \<subseteq> pending'"
  shows "explore_inv adj (reachable \<union> set targets) pending'"
proof -
  have s: "successor adj `` {current} = set targets" using assms(2) by (auto simp: successor_def)
  have "set targets \<subseteq> (successor adj)\<^sup>+ `` {start_node}"
  proof
    fix t assume "t \<in> set targets"
    then have "(current, t) \<in> successor adj" using s by auto
    moreover have "current = start_node \<or> (start_node, current) \<in> (successor adj)\<^sup>+"
      using assms(1,3) by (auto simp: explore_inv_def)
    ultimately show "t \<in> (successor adj)\<^sup>+ `` {start_node}" by (auto intro: trancl.intros)
  qed
  moreover have "a \<in> pending' \<or> successor adj `` {a} \<subseteq> reachable \<union> set targets"
    if "a \<in> insert start_node (reachable \<union> set targets)" for a
  proof (cases "a = current")
    case True
    then show ?thesis using s by auto
  next
    case False
    with that assms show ?thesis unfolding explore_inv_def by blast
  qed
  ultimately show ?thesis
    using assms unfolding explore_inv_def by auto
qed

lemma explore_inv_end:
  assumes "explore_inv adj reachable {}"
  shows "reachable = (successor adj)\<^sup>+ `` {start_node}"
proof -
  have "t \<in> reachable" if "(start_node, t) \<in> (successor adj)\<^sup>+" for t
    using that
  proof (induction rule: trancl_induct)
    case (base y)
    then show ?case using assms by (auto simp: explore_inv_def)
  next
    case (step y z)
    then show ?case using assms by (auto simp: explore_inv_def)
  qed
  with assms show ?thesis by (auto simp: explore_inv_def)
qed

lemma explore_reaches:
  assumes "closed_under adj" "explore_inv adj (set reachable) (set pending)"
    "insert start_node (set reachable) \<subseteq> dom (map_of adj)"
  shows "\<exists>r. explore order adj reachable pending = Inr r \<and> set r = (successor adj)\<^sup>+ `` {start_node}"
  using assms
proof (induction order adj reachable pending rule: explore.induct)
  case (1 order adj reachable pending)
  show ?case
  proof (cases pending)
    case Nil
    with 1(3) explore_inv_end show ?thesis by (subst explore.simps) simp
  next
    case (Cons current rest)
    have "current \<in> insert start_node (set reachable)"
      using 1(3) Cons by (auto simp: explore_inv_def)
    with 1(4) obtain targets where t: "map_of adj current = Some targets" by auto
    obtain r' p' where v: "visit (in_order order targets) (reachable, rest) = (r', p')" by fastforce
    note vs = visit_spec [OF v, simplified]
    have sub: "set targets \<subseteq> dom (map_of adj)"
      using 1(2) t by (auto simp: closed_under_def successor_def)
    have "explore_inv adj (set reachable \<union> set targets) (set p')"
      by (rule explore_inv_step [OF 1(3) t]) (use vs Cons in auto)
    then have "\<exists>r. explore order adj r' p' = Inr r \<and> set r = (successor adj)\<^sup>+ `` {start_node}"
      using 1(1) [OF Cons t v [symmetric] 1(2)] vs sub 1(4) by simp
    then show ?thesis using Cons t v by (subst explore.simps) simp
  qed
qed

lemma explore_from_start:
  assumes "closed_under adj"
  shows "\<exists>r. explore order adj [] [start_node] = Inr r \<and> set r = (successor adj)\<^sup>+ `` {start_node}"
  by (rule explore_reaches [OF assms]) (use assms in \<open>auto simp: explore_inv_def closed_under_def\<close>)


section \<open>The edges\<close>

definition edge_pair :: "edge \<Rightarrow> string \<times> string" where
  "edge_pair e = (e_source e, e_target e)"

lemma add_edges_spec:
  assumes "add_edges names edges seen adj = Inr adj'" "dom (map_of adj) = insert start_node (set names)"
  shows "dom (map_of adj') = insert start_node (set names)
    \<and> successor adj' = successor adj \<union> edge_pair ` set edges
    \<and> (\<forall>e \<in> set edges. (e_source e = start_node \<or> e_source e \<in> set names) \<and> e_target e \<in> set names)
    \<and> distinct (map edge_pair edges) \<and> set (map edge_pair edges) \<inter> set seen = {}"
  using assms
proof (induction names edges seen adj rule: add_edges.induct)
  case (2 names e edges seen adj)
  obtain targets where t: "map_of adj (e_source e) = Some targets"
    and ok: "e_source e = start_node \<or> e_source e \<in> set names" "e_target e \<in> set names" "edge_pair e \<notin> set seen"
    and rest: "add_edges names edges ((e_source e, e_target e) # seen)
      (AList.update (e_source e) (List.insert (e_target e) targets) adj) = Inr adj'"
    using 2(2) by (auto simp: edge_pair_def split: if_splits option.splits)
  let ?adj = "AList.update (e_source e) (List.insert (e_target e) targets) adj"
  have dom: "dom (map_of ?adj) = insert start_node (set names)" using 2(3) t by (auto simp: dom_def)
  have c: "\<not> (e_source e \<noteq> start_node \<and> e_source e \<notin> set names)" "\<not> e_target e \<notin> set names"
      "(e_source e, e_target e) \<notin> set seen"
    using ok by (auto simp: edge_pair_def)
  note ih = 2(1) [OF c t rest dom, folded edge_pair_def]
  have "successor ?adj = insert (edge_pair e) (successor adj)"
    using t by (auto simp: successor_def edge_pair_def split: if_splits)
  with ih ok show ?case by auto
qed simp

lemma validate_edges_spec:
  assumes "validate_edges edges names = Inr adj"
  shows "closed_under adj \<and> successor adj = edge_pair ` set edges
    \<and> (\<forall>e \<in> set edges. (e_source e = start_node \<or> e_source e \<in> set names) \<and> e_target e \<in> set names)
    \<and> distinct (map edge_pair edges)"
proof -
  let ?adj = "(start_node, []) # map (\<lambda>name. (name, [])) names"
  have dom: "dom (map_of ?adj) = insert start_node (set names)" by (auto simp: dom_map_of_conv_image_fst image_image)
  have "successor ?adj = {}" by (auto simp: successor_def split: if_splits dest!: map_of_SomeD)
  with add_edges_spec [OF assms [unfolded validate_edges_def] dom] show ?thesis
    by (auto simp: closed_under_def edge_pair_def)
qed


section \<open>Properties\<close>

text \<open>The nodes no path of edges from the entry leads to.\<close>

definition unreachable_from_start :: "edge list \<Rightarrow> string list \<Rightarrow> string set" where
  "unreachable_from_start edges names = {name \<in> set names. (start_node, name) \<notin> (edge_pair ` set edges)\<^sup>+}"

lemma reachability_decided:
  assumes "validate_edges edges names = Inr adj"
  shows "validate_reachability order adj names =
     (if unreachable_from_start edges names = {} then None
      else Some (ValueError (''graph contains nodes unreachable from START: '' @
        join_names (sorted_list_of_set (unreachable_from_start edges names)))))"
proof -
  note v = validate_edges_spec [OF assms]
  obtain r where r: "explore order adj [] [start_node] = Inr r" "set r = (edge_pair ` set edges)\<^sup>+ `` {start_node}"
    using explore_from_start [of adj order] v by auto
  have "set (filter (\<lambda>name. name \<notin> set r) names) = unreachable_from_start edges names"
    by (auto simp: r unreachable_from_start_def)
  then have "unreachable_nodes names r = sorted_list_of_set (unreachable_from_start edges names)"
    unfolding unreachable_nodes_def by (metis sorted_list_of_set_sort_remdups)
  moreover have "finite (unreachable_from_start edges names)" by (simp add: unreachable_from_start_def)
  ultimately show ?thesis
    unfolding validate_reachability_def by (simp add: r Let_def)
qed

text \<open>
  C18. Whatever order Python iterates its sets in, building a graph decides reachability exactly: once
  its metadata, nodes and edges are valid it is refused if and only if some node is not reachable
  from the entry along its edges, and the error then lists precisely those nodes, sorted. In
  particular the worklist ends and never looks up a missing key.
\<close>

theorem graph_check_is_reachability:
  "make_graph order g =
     (case validate_metadata g of Some e \<Rightarrow> Inl e | None \<Rightarrow>
       sum_bind (normalize_nodes g) (\<lambda>names.
       sum_bind (validate_edges (g_edges g) names) (\<lambda>_.
         if unreachable_from_start (g_edges g) names = {} then Inr g
         else Inl (ValueError (''graph contains nodes unreachable from START: '' @
                join_names (sorted_list_of_set (unreachable_from_start (g_edges g) names)))))))"
proof (cases "validate_metadata g")
  case None
  have "validate_edges (g_edges g) names = Inr adj \<Longrightarrow>
      (case validate_reachability order adj names of Some e \<Rightarrow> Inl e | None \<Rightarrow> Inr g) =
      (if unreachable_from_start (g_edges g) names = {} then Inr g
       else Inl (ValueError (''graph contains nodes unreachable from START: '' @
              join_names (sorted_list_of_set (unreachable_from_start (g_edges g) names)))))" for names adj
    by (simp add: reachability_decided)
  then show ?thesis
    using None unfolding make_graph_def by (simp cong: sum_bind_cong)
qed (simp add: make_graph_def)

lemma normalize_names_spec:
  "normalize_names vs = Inr names \<Longrightarrow>
     vs = map PyStr names \<and> (\<forall>name \<in> set names. is_identifier name \<and> name \<notin> {start_node, ''__START__''})"
proof (induction vs arbitrary: names)
  case (Cons v vs)
  show ?case
  proof (cases v)
    case (PyStr name)
    with Cons.prems obtain rest where n: "is_identifier name" "name \<notin> {start_node, ''__START__''}"
        "normalize_names vs = Inr rest" "names = name # rest"
      by (simp only: normalize_names.simps sum_bind_Inr split: if_splits) blast+
    from Cons.IH [OF n(3)] n PyStr show ?thesis by (simp only: list.set list.map ball_simps) blast
  qed (use Cons.prems in simp_all)
qed simp

definition path_from_start :: "edge list \<Rightarrow> string \<Rightarrow> bool" where
  "path_from_start edges name \<longleftrightarrow> (start_node, name) \<in> (edge_pair ` set edges)\<^sup>+"

text \<open>
  A graph that was built is well formed: at least one node, every node named by an identifier
  that is not reserved, every edge between the entry or a node and a node, no two edges between the
  same ends, and every node on a path from the entry.
\<close>

theorem built_graph_well_formed:
  assumes "make_graph order g = Inr h"
  shows "h = g \<and> (\<exists>names. names \<noteq> [] \<and> g_nodes g = map PyStr names
    \<and> (\<forall>name \<in> set names. is_identifier name \<and> name \<noteq> start_node \<and> path_from_start (g_edges g) name)
    \<and> (\<forall>e \<in> set (g_edges g). e_source e \<in> insert start_node (set names) \<and> e_target e \<in> set names)
    \<and> distinct (map edge_pair (g_edges g)))"
proof -
  obtain names adj where n: "normalize_nodes g = Inr names" "validate_edges (g_edges g) names = Inr adj"
      "unreachable_from_start (g_edges g) names = {}" "h = g"
    using assms unfolding graph_check_is_reachability
    by (auto simp: sum_bind_Inr split: option.splits if_splits)
  moreover have "names \<noteq> []" "g_nodes g = map PyStr names"
      "\<forall>name \<in> set names. is_identifier name \<and> name \<notin> {start_node, ''__START__''}"
    using n(1) normalize_names_spec [of "g_nodes g" names] by (auto simp: normalize_nodes_def split: if_splits)
  ultimately show ?thesis
    using validate_edges_spec [OF n(2)] by (auto simp: unreachable_from_start_def path_from_start_def)
qed

definition two_step_graph :: graph where
  "two_step_graph = \<lparr> g_name = PyStr ''flow'', g_nodes = [PyStr ''a'', PyStr ''b''],
     g_edges = [\<lparr> e_source = ''START'', e_target = ''a'', e_route = PyNone \<rparr>,
                \<lparr> e_source = ''a'', e_target = ''b'', e_route = PyStr ''ok'' \<rparr>],
     g_description = PyStr '''', g_max_concurrency = PyNone \<rparr>"

theorem built_graph_well_formed_witness:
  "path_from_start (g_edges two_step_graph) ''b''"
proof -
  have "make_graph rev two_step_graph = Inr two_step_graph" by code_simp
  from built_graph_well_formed [OF this] show ?thesis by (auto simp: two_step_graph_def)
qed

end
