(* ===== verification/Response_Status.thy ===== *)
theory Response_Status
  imports Prelude
begin

text \<open>
  The bounded store of response receipts (\<^verbatim>\<open>response_status.py\<close>): owner-scoped snapshots kept for
  retry and polling, in least-recently-used order. The clock's value is an argument of an
  operation. Values are immutable here, so the code's deep copies need no counterpart.
\<close>


section \<open>Receipts\<close>

type_synonym payload = "(string \<times> pyval) list"

definition terminal_statuses :: "string list" where
  "terminal_statuses = [''cancelled'', ''completed'', ''denied'', ''failed'']"

record receipt =
  rr_user_id :: string
  rr_session_id :: string
  rr_payload :: payload
  rr_updated_at :: rat

definition receipt_terminal :: "receipt \<Rightarrow> bool" where
  "receipt_terminal r =
     (case map_of (rr_payload r) ''status'' of Some (PyStr s) \<Rightarrow> s \<in> set terminal_statuses | _ \<Rightarrow> False)"

record response_store =
  rs_max_responses :: int
  rs_tombstone_seconds :: rat
  rs_items :: "(string \<times> receipt) list"

definition new_response_store :: "int \<Rightarrow> rat \<Rightarrow> exc + response_store" where
  "new_response_store max_responses tombstone_seconds =
     (if max_responses < 1 then Inl (ValueError ''response max_responses must be at least one'')
      else if tombstone_seconds < 0 then Inl (ValueError ''response tombstone_seconds cannot be negative'')
      else Inr \<lparr> rs_max_responses = max_responses, rs_tombstone_seconds = tombstone_seconds, rs_items = [] \<rparr>)"


section \<open>Operations\<close>

definition status_payload :: "payload \<Rightarrow> string \<Rightarrow> string \<Rightarrow> exc + payload" where
  "status_payload payload response_id session_id =
     (let cleaned = AList.delete ''responseId'' (AList.delete ''sequence'' (AList.delete ''type'' payload));
          normalized = AList.update ''sessionId'' (PyStr session_id) (AList.update ''id'' (PyStr response_id) cleaned) in
      case map_of normalized ''status'' of
        Some (PyStr _) \<Rightarrow> Inr normalized
      | _ \<Rightarrow> Inl (ValueError ''response status payload requires status''))"

definition move_to_end :: "'k \<Rightarrow> ('k \<times> 'v) list \<Rightarrow> ('k \<times> 'v) list" where
  "move_to_end k d = (case map_of d k of None \<Rightarrow> d | Some v \<Rightarrow> AList.delete k d @ [(k, v)])"

definition receipt_expired :: "response_store \<Rightarrow> rat \<Rightarrow> receipt \<Rightarrow> bool" where
  "receipt_expired s now r \<longleftrightarrow> receipt_terminal r \<and> rs_tombstone_seconds s \<le> now - rr_updated_at r"

definition prune_locked :: "rat \<Rightarrow> response_store \<Rightarrow> response_store" where
  "prune_locked now s = s \<lparr> rs_items :=
     fold AList.delete (map fst (filter (\<lambda>(_, r). receipt_expired s now r) (rs_items s))) (rs_items s) \<rparr>"

definition make_room_locked :: "response_store \<Rightarrow> (response_store, unit) outcome" where
  "make_room_locked s =
     (if int (length (rs_items s)) < rs_max_responses s then (Inr (), s)
      else case find (\<lambda>(_, r). receipt_terminal r) (rs_items s) of
        Some (response_id, _) \<Rightarrow> (Inr (), s \<lparr> rs_items := AList.delete response_id (rs_items s) \<rparr>)
      | None \<Rightarrow> (Inl (ResponseStatusCapacityError ''response status capacity is exhausted''), s))"

definition receipt_owner :: "receipt \<Rightarrow> string \<times> string" where
  "receipt_owner r = (rr_user_id r, rr_session_id r)"

definition record_response ::
    "string \<Rightarrow> string \<Rightarrow> string \<Rightarrow> payload \<Rightarrow> rat \<Rightarrow> response_store \<Rightarrow> (response_store, payload) outcome" where
  "record_response response_id user_id session_id payload now s =
     (case status_payload payload response_id session_id of
        Inl e \<Rightarrow> (Inl e, s)
      | Inr normalized \<Rightarrow>
          (let s1 = prune_locked now s in
           case map_of (rs_items s1) response_id of
             Some current \<Rightarrow>
               if receipt_owner current \<noteq> (user_id, session_id) then (Inl (KeyError ''response not found''), s1)
               else (Inr normalized, s1 \<lparr> rs_items := move_to_end response_id (AList.update response_id
                      (current \<lparr> rr_payload := normalized, rr_updated_at := now \<rparr>) (rs_items s1)) \<rparr>)
           | None \<Rightarrow>
               (case make_room_locked s1 of
                  (Inl e, s2) \<Rightarrow> (Inl e, s2)
                | (Inr _, s2) \<Rightarrow>
                    (Inr normalized, s2 \<lparr> rs_items := move_to_end response_id (AList.update response_id
                       \<lparr> rr_user_id = user_id, rr_session_id = session_id, rr_payload = normalized, rr_updated_at = now \<rparr>
                       (rs_items s2)) \<rparr>))))"

definition begin_payload :: "string \<Rightarrow> string \<Rightarrow> (pyval \<times> pyval) list \<Rightarrow> string option \<Rightarrow> payload" where
  "begin_payload response_id session_id metadata request_id =
     [(''id'', PyStr response_id), (''sessionId'', PyStr session_id), (''status'', PyStr ''in_progress''),
      (''outputText'', PyStr ''''), (''output'', PyList []), (''metadata'', PyDict metadata)] @
     (case request_id of None \<Rightarrow> [] | Some r \<Rightarrow> [(''requestId'', PyStr r)])"

definition begin_response ::
    "string \<Rightarrow> string \<Rightarrow> string \<Rightarrow> (pyval \<times> pyval) list \<Rightarrow> string option \<Rightarrow> rat \<Rightarrow> response_store \<Rightarrow>
     (response_store, payload) outcome" where
  "begin_response response_id user_id session_id metadata request_id now s =
     record_response response_id user_id session_id (begin_payload response_id session_id metadata request_id) now s"

definition get_response :: "string \<Rightarrow> string \<Rightarrow> string \<Rightarrow> rat \<Rightarrow> response_store \<Rightarrow> (response_store, payload) outcome" where
  "get_response response_id user_id session_id now s =
     (let s1 = prune_locked now s in
      case map_of (rs_items s1) response_id of
        None \<Rightarrow> (Inl (KeyError ''response not found''), s1)
      | Some current \<Rightarrow>
          if receipt_owner current \<noteq> (user_id, session_id) then (Inl (KeyError ''response not found''), s1)
          else (Inr (rr_payload current), s1 \<lparr> rs_items := move_to_end response_id (rs_items s1) \<rparr>))"

datatype response_event =
    RecordResponse string string string payload rat
  | BeginResponse string string string "(pyval \<times> pyval) list" "string option" rat
  | GetResponse string string string rat

fun response_step :: "response_event \<Rightarrow> response_store \<Rightarrow> response_store" where
  "response_step (RecordResponse k user session payload now) s = snd (record_response k user session payload now s)"
| "response_step (BeginResponse k user session metadata request now) s =
     snd (begin_response k user session metadata request now s)"
| "response_step (GetResponse k user session now) s = snd (get_response k user session now s)"


section \<open>What the operations do to a lookup\<close>

lemma move_to_end_lookup [simp]: "map_of (move_to_end k d) = map_of d"
  by (rule ext) (auto simp: move_to_end_def map_add_def split: option.splits)

lemma dict_ok_move_to_end [simp]: "dict_ok d \<Longrightarrow> dict_ok (move_to_end k d)"
  by (auto simp: move_to_end_def AList.delete_eq split: option.splits intro: distinct_map_filter)

lemma length_delete: "dict_ok d \<Longrightarrow> map_of d k = Some v \<Longrightarrow> Suc (length (AList.delete k d)) = length d"
proof (induction d)
  case (Cons p d)
  have "k \<notin> fst ` set d \<Longrightarrow> AList.delete k d = d" by (simp add: delete_id)
  with Cons show ?case by (cases p) (auto split: if_splits)
qed simp

lemma length_move_to_end [simp]: "dict_ok d \<Longrightarrow> length (move_to_end k d) = length d"
  by (auto simp: move_to_end_def dest: length_delete split: option.splits)

lemma fold_delete_lookup: "map_of (fold AList.delete ks d) k = (if k \<in> set ks then None else map_of d k)"
  by (induction ks arbitrary: d) auto

lemma fold_delete_ok [simp]: "dict_ok d \<Longrightarrow> dict_ok (fold AList.delete ks d)"
  by (induction ks arbitrary: d) auto

lemma fold_delete_length: "length (fold AList.delete ks d) \<le> length d"
proof (induction ks arbitrary: d)
  case (Cons k ks)
  have "length (AList.delete k d) \<le> length d" by (simp add: AList.delete_eq)
  with Cons [of "AList.delete k d"] show ?case by simp
qed simp

lemma prune_lookup:
  assumes "dict_ok (rs_items s)"
  shows "map_of (rs_items (prune_locked now s)) k =
     (case map_of (rs_items s) k of None \<Rightarrow> None
      | Some r \<Rightarrow> if receipt_expired s now r then None else Some r)"
proof (cases "map_of (rs_items s) k")
  case None
  then show ?thesis by (simp add: prune_locked_def fold_delete_lookup)
next
  case (Some r)
  have "k \<in> set (map fst (filter (\<lambda>(_, r). receipt_expired s now r) (rs_items s))) \<longleftrightarrow> receipt_expired s now r"
  proof
    assume "k \<in> set (map fst (filter (\<lambda>(_, r). receipt_expired s now r) (rs_items s)))"
    then obtain r' where "(k, r') \<in> set (rs_items s)" "receipt_expired s now r'" by auto
    with Some eq_key_imp_eq_value [OF assms, of k r' r] show "receipt_expired s now r" by (auto dest: map_of_SomeD)
  next
    assume "receipt_expired s now r"
    with map_of_SomeD [OF Some] show "k \<in> set (map fst (filter (\<lambda>(_, r). receipt_expired s now r) (rs_items s)))"
      by force
  qed
  with Some show ?thesis by (simp add: prune_locked_def fold_delete_lookup)
qed

lemma pruned_frame [simp]:
  "rs_max_responses (prune_locked now s) = rs_max_responses s"
  "rs_tombstone_seconds (prune_locked now s) = rs_tombstone_seconds s"
  "dict_ok (rs_items s) \<Longrightarrow> dict_ok (rs_items (prune_locked now s))"
  "length (rs_items (prune_locked now s)) \<le> length (rs_items s)"
  by (simp_all add: prune_locked_def fold_delete_length)

definition response_inv :: "response_store \<Rightarrow> bool" where
  "response_inv s \<longleftrightarrow> dict_ok (rs_items s) \<and> int (length (rs_items s)) \<le> rs_max_responses s"

lemma make_room_effect:
  assumes "dict_ok (rs_items s)" "int (length (rs_items s)) \<le> rs_max_responses s" "make_room_locked s = (Inr u, s')"
  shows "dict_ok (rs_items s') \<and> int (length (rs_items s')) < rs_max_responses s \<and>
     rs_max_responses s' = rs_max_responses s \<and> rs_tombstone_seconds s' = rs_tombstone_seconds s \<and>
     (\<forall>k r. map_of (rs_items s) k = Some r \<and> \<not> receipt_terminal r \<longrightarrow> map_of (rs_items s') k = Some r)"
proof (cases "int (length (rs_items s)) < rs_max_responses s")
  case True
  with assms show ?thesis by (simp add: make_room_locked_def)
next
  case False
  then obtain k v where f: "find (\<lambda>(_, r). receipt_terminal r) (rs_items s) = Some (k, v)"
    and s': "s' = s \<lparr> rs_items := AList.delete k (rs_items s) \<rparr>"
    using assms(3) by (auto simp: make_room_locked_def split: option.splits)
  have "(k, v) \<in> set (rs_items s)" "receipt_terminal v"
    using f by (auto simp: find_Some_iff) (metis nth_mem)
  moreover from this have "map_of (rs_items s) k = Some v" using assms(1) by simp
  ultimately show ?thesis
    using assms length_delete [of "rs_items s" k v] s' by auto
qed

lemma make_room_failure: "make_room_locked s = (Inl e, s') \<Longrightarrow> s' = s"
  by (auto simp: make_room_locked_def split: if_splits option.splits)

end
