(* ===== verification/Response_Props.thy ===== *)
theory Response_Props
  imports Response_Status
begin

text \<open>Receipts are bounded, an active one is never lost, and only its owner reads or writes it.\<close>

definition writes_receipt :: "response_event \<Rightarrow> string \<Rightarrow> string \<times> string \<Rightarrow> bool" where
  "writes_receipt ev k owner = (case ev of
     RecordResponse k' user session _ _ \<Rightarrow> k' = k \<and> owner = (user, session)
   | BeginResponse k' user session _ _ _ \<Rightarrow> k' = k \<and> owner = (user, session)
   | GetResponse _ _ _ _ \<Rightarrow> False)"

text \<open>The effect of recording: on the limits, on the recorded receipt and on an active one.\<close>

lemma record_effect:
  assumes inv: "response_inv s" and rec: "record_response k user session payload now s = (x, s')"
  shows "response_inv s' \<and> rs_max_responses s' = rs_max_responses s \<and> rs_tombstone_seconds s' = rs_tombstone_seconds s
    \<and> (\<forall>p. x = Inr p \<longrightarrow> status_payload payload k session = Inr p \<and>
         map_of (rs_items s') k = Some \<lparr> rr_user_id = user, rr_session_id = session, rr_payload = p, rr_updated_at = now \<rparr>)
    \<and> (\<forall>k' r. map_of (rs_items s) k' = Some r \<and> \<not> receipt_terminal r \<longrightarrow>
         map_of (rs_items s') k' = Some r \<or>
         k' = k \<and> receipt_owner r = (user, session) \<and>
           (\<exists>r'. map_of (rs_items s') k' = Some r' \<and> receipt_owner r' = receipt_owner r))"
proof (cases "status_payload payload k session")
  case (Inl e)
  with rec inv show ?thesis by (auto simp: record_response_def)
next
  case (Inr normalized)
  let ?s1 = "prune_locked now s"
  have d: "dict_ok (rs_items s)" and len: "int (length (rs_items ?s1)) \<le> rs_max_responses ?s1"
    using inv pruned_frame(4) [of now s] by (auto simp: response_inv_def simp del: pruned_frame(4))
  have active: "map_of (rs_items ?s1) k' = Some r"
    if "map_of (rs_items s) k' = Some r" "\<not> receipt_terminal r" for k' r
    using that by (simp add: prune_lookup [OF d] receipt_expired_def)
  show ?thesis
  proof (cases "map_of (rs_items ?s1) k")
    case (Some current)
    show ?thesis
    proof (cases "receipt_owner current = (user, session)")
      case False
      with rec Inr Some have "s' = ?s1" "\<exists>e. x = Inl e" by (auto simp: record_response_def Let_def)
      with d len active show ?thesis by (auto simp: response_inv_def)
    next
      case True
      let ?new = "current \<lparr> rr_payload := normalized, rr_updated_at := now \<rparr>"
      from rec Inr Some True have s': "x = Inr normalized"
        "s' = ?s1 \<lparr> rs_items := move_to_end k (AList.update k ?new (rs_items ?s1)) \<rparr>"
        by (auto simp: record_response_def Let_def)
      have "?new = \<lparr> rr_user_id = user, rr_session_id = session, rr_payload = normalized, rr_updated_at = now \<rparr>"
        using True by (cases current) (simp add: receipt_owner_def)
      moreover have "receipt_owner r = (user, session)" if "map_of (rs_items s) k = Some r" "\<not> receipt_terminal r" for r
        using active [OF that] Some True by simp
      ultimately show ?thesis
        using d len active s' Inr Some by (auto simp: response_inv_def length_update receipt_owner_def)
    qed
  next
    case None
    show ?thesis
    proof (cases "make_room_locked ?s1")
      case (Pair y s2)
      show ?thesis
      proof (cases y)
        case (Inl e)
        with rec Inr None Pair make_room_failure [of ?s1 e s2] have "s' = ?s1" "x = Inl e"
          by (auto simp: record_response_def Let_def)
        with d len active show ?thesis by (auto simp: response_inv_def)
      next
        case (Inr u)
        have room: "make_room_locked ?s1 = (Inr u, s2)" using Pair Inr by simp
        note m = make_room_effect [OF pruned_frame(3) [OF d] len room]
        let ?new = "\<lparr> rr_user_id = user, rr_session_id = session, rr_payload = normalized, rr_updated_at = now \<rparr>"
        have s': "x = Inr normalized" "s' = s2 \<lparr> rs_items := move_to_end k (AList.update k ?new (rs_items s2)) \<rparr>"
          using rec \<open>status_payload payload k session = Inr normalized\<close> None room
          by (auto simp: record_response_def Let_def)
        have "map_of (rs_items s) k = Some r \<Longrightarrow> receipt_terminal r" for r
          using active [of k r] None by auto
        then show ?thesis
          using m active s' \<open>status_payload payload k session = Inr normalized\<close>
          by (auto simp: response_inv_def length_update)
      qed
    qed
  qed
qed

lemma get_effect:
  assumes inv: "response_inv s" and get: "get_response k user session now s = (x, s')"
  shows "response_inv s' \<and> rs_max_responses s' = rs_max_responses s \<and> rs_tombstone_seconds s' = rs_tombstone_seconds s
    \<and> map_of (rs_items s') = map_of (rs_items (prune_locked now s))"
proof -
  have d: "dict_ok (rs_items s)" and len: "int (length (rs_items (prune_locked now s))) \<le> rs_max_responses s"
    using inv pruned_frame(4) [of now s] by (auto simp: response_inv_def simp del: pruned_frame(4))
  with get show ?thesis
    by (auto simp: get_response_def Let_def response_inv_def split: option.splits if_splits)
qed

lemma response_step_effect:
  assumes "response_inv s"
  shows "response_inv (response_step ev s)
    \<and> rs_max_responses (response_step ev s) = rs_max_responses s
    \<and> (\<forall>k r. map_of (rs_items s) k = Some r \<and> \<not> receipt_terminal r \<longrightarrow>
         map_of (rs_items (response_step ev s)) k = Some r \<or>
         writes_receipt ev k (receipt_owner r) \<and>
           (\<exists>r'. map_of (rs_items (response_step ev s)) k = Some r' \<and> receipt_owner r' = receipt_owner r))"
proof (cases ev)
  case (RecordResponse k user session payload now)
  obtain x s' where r: "record_response k user session payload now s = (x, s')" by fastforce
  from record_effect [OF assms r] RecordResponse r show ?thesis by (auto simp: writes_receipt_def)
next
  case (BeginResponse k user session metadata request now)
  obtain x s' where r: "record_response k user session (begin_payload k session metadata request) now s = (x, s')"
    by fastforce
  from record_effect [OF assms r] BeginResponse r show ?thesis
    by (auto simp: writes_receipt_def begin_response_def)
next
  case (GetResponse k user session now)
  obtain x s' where r: "get_response k user session now s = (x, s')" by fastforce
  have "dict_ok (rs_items s)" using assms by (simp add: response_inv_def)
  from get_effect [OF assms r] prune_lookup [OF this] GetResponse r show ?thesis
    by (auto simp: receipt_expired_def)
qed

definition default_response_store :: response_store where
  "default_response_store = \<lparr> rs_max_responses = 1024, rs_tombstone_seconds = 300, rs_items = [] \<rparr>"

lemma new_response_store_inv: "new_response_store m t = Inr s \<Longrightarrow> response_inv s \<and> rs_max_responses s = m"
  by (auto simp: new_response_store_def response_inv_def split: if_splits)

interpretation responses: guarded_store default_response_store response_step "\<lambda>_. True" response_inv
  by unfold_locales (simp add: default_response_store_def response_inv_def, simp add: response_step_effect)

lemma response_run_max:
  "response_inv s \<Longrightarrow> rs_max_responses (fold response_step events s) = rs_max_responses s"
proof (induction events arbitrary: s)
  case (Cons ev events)
  with response_step_effect [OF Cons.prems, of ev] show ?case by simp
qed simp

text \<open>
  Whatever callers record and read, at most the configured number of receipts is held, and a
  receipt whose work is not terminal is neither expired nor evicted to make room: the next
  operation leaves it as it is, unless its own owner records it again, and it stays its owner's.
\<close>

theorem active_receipts_kept:
  assumes "new_response_store max_responses tombstone = Inr s0"
    and "map_of (rs_items (fold response_step events s0)) k = Some r" "\<not> receipt_terminal r"
  shows "let s = fold response_step events s0; s' = response_step ev s in
     int (length (rs_items s')) \<le> max_responses
   \<and> (map_of (rs_items s') k = Some r \<or> writes_receipt ev k (receipt_owner r) \<and>
        (\<exists>r'. map_of (rs_items s') k = Some r' \<and> receipt_owner r' = receipt_owner r))"
proof -
  let ?s = "fold response_step events s0"
  note n = new_response_store_inv [OF assms(1)]
  have inv: "response_inv ?s" by (rule responses.inv_fold) (use n in \<open>simp_all add: list_all_iff\<close>)
  note e = response_step_effect [OF inv, of ev]
  have "int (length (rs_items (response_step ev ?s))) \<le> max_responses"
    using e response_run_max [of s0 events] n by (simp add: response_inv_def)
  with e assms(2,3) show ?thesis by (simp add: Let_def)
qed

theorem active_receipts_kept_witness:
  "\<exists>r. map_of (rs_items (fold response_step [BeginResponse ''r'' ''u'' ''s'' [] None 0,
        BeginResponse ''q'' ''v'' ''s'' [] None 1] (projr (new_response_store 1 0)))) ''r'' = Some r"
proof -
  have n: "new_response_store 1 0 = Inr (projr (new_response_store 1 0))" by (simp add: new_response_store_def)
  let ?s = "fold response_step [BeginResponse ''r'' ''u'' ''s'' [] None 0] (projr (new_response_store 1 0))"
  obtain r where r: "map_of (rs_items ?s) ''r'' = Some r" "\<not> receipt_terminal r"
    by (simp add: new_response_store_def begin_response_def record_response_def begin_payload_def
        status_payload_def Let_def prune_locked_def make_room_locked_def move_to_end_def receipt_terminal_def
        terminal_statuses_def)
  from active_receipts_kept [OF n r, of "BeginResponse ''q'' ''v'' ''s'' [] None 1"] show ?thesis
    by (auto simp: Let_def)
qed

text \<open>
  What a caller recorded is what it reads back, normalised and under its own identifiers, until
  a terminal receipt outlives its tombstone; any other user or session is told the same as for a
  response that never existed.
\<close>

theorem recorded_response_read_by_owner:
  assumes "response_inv s" "record_response k user session payload now s = (Inr p, s')"
    and "rs_tombstone_seconds s \<le> later - now \<Longrightarrow> \<not> receipt_terminal \<lparr> rr_user_id = user, rr_session_id = session,
          rr_payload = p, rr_updated_at = now \<rparr>"
  shows "fst (get_response k user session later s') = Inr p
    \<and> map_of p ''id'' = Some (PyStr k) \<and> map_of p ''sessionId'' = Some (PyStr session)
    \<and> ((user', session') \<noteq> (user, session) \<longrightarrow>
         fst (get_response k user' session' later s') = Inl (KeyError ''response not found''))"
proof -
  note r = record_effect [OF assms(1,2)]
  have d: "dict_ok (rs_items s')" using r by (simp add: response_inv_def)
  let ?r = "\<lparr> rr_user_id = user, rr_session_id = session, rr_payload = p, rr_updated_at = now \<rparr>"
  have "map_of (rs_items (prune_locked later s')) k = Some ?r"
    using r assms(3) by (auto simp: prune_lookup [OF d] receipt_expired_def)
  moreover have "map_of p ''id'' = Some (PyStr k) \<and> map_of p ''sessionId'' = Some (PyStr session)"
    using r by (auto simp: status_payload_def Let_def split: option.splits pyval.splits)
  ultimately show ?thesis by (auto simp: get_response_def Let_def receipt_owner_def)
qed

theorem recorded_response_read_by_owner_witness:
  "\<exists>p s'. fst (get_response ''r'' ''u'' ''s'' 5 s') = Inr p
     \<and> fst (get_response ''r'' ''u'' ''other'' 5 s') = Inl (KeyError ''response not found'')"
proof -
  have i: "response_inv default_response_store" by (simp add: default_response_store_def response_inv_def)
  obtain p s' where r: "record_response ''r'' ''u'' ''s'' (begin_payload ''r'' ''s'' [] None) 0 default_response_store = (Inr p, s')"
    by (simp add: default_response_store_def record_response_def begin_payload_def status_payload_def Let_def
        prune_locked_def make_room_locked_def)
  have "rs_tombstone_seconds default_response_store \<le> 5 - 0 \<Longrightarrow> \<not> receipt_terminal \<lparr> rr_user_id = ''u'',
      rr_session_id = ''s'', rr_payload = p, rr_updated_at = 0 \<rparr>"
    by (simp add: default_response_store_def)
  from recorded_response_read_by_owner [OF i r this, where user' = "''u''" and session' = "''other''"] show ?thesis by auto
qed

end
