(* ===== verification/Token_Policy.thy ===== *)
theory Token_Policy
  imports Continuation_Records "HOL-Library.Sublist"
begin

text \<open>
  Token policies: their validation and budgets (\<^verbatim>\<open>tokens.py\<close>), the reductions of a detached model
  request (\<^verbatim>\<open>token_reduction.py\<close>), and the preparation of one model call (\<^verbatim>\<open>token_runtime.py\<close>).

  Messages are the framework's dictionaries, so they are dynamic values and a malformed one raises
  what Python raises. A tool descriptor is its name with the rest of its dictionary. What authored
  strategies return for a call is an argument of the call; so is the length of the serialized
  request, which the default counter divides by four. The mark of a shortened text begins with a
  character outside Latin-1 and is therefore a parameter too.
\<close>


section \<open>Dynamic access\<close>

definition dict_get :: "pyval \<Rightarrow> string \<Rightarrow> exc + pyval" where
  "dict_get v k = (case v of
     PyDict d \<Rightarrow> Inr (case map_of d (PyStr k) of None \<Rightarrow> PyNone | Some x \<Rightarrow> x)
   | _ \<Rightarrow> Inl (AttributeError ''get''))"

definition dict_item :: "pyval \<Rightarrow> string \<Rightarrow> exc + pyval" where
  "dict_item v k = (case v of
     PyDict d \<Rightarrow> (case map_of d (PyStr k) of None \<Rightarrow> Inl (KeyError k) | Some x \<Rightarrow> Inr x)
   | _ \<Rightarrow> Inl (TypeError ''not subscriptable''))"

text \<open>The values a \<^verbatim>\<open>for\<close> loop goes through.\<close>

fun iterated :: "pyval \<Rightarrow> exc + pyval list" where
  "iterated (PyList vs) = Inr vs"
| "iterated (PyTuple vs) = Inr vs"
| "iterated (PyDict d) = Inr (map fst d)"
| "iterated (PyStr s) = Inr (map (\<lambda>c. PyStr [c]) s)"
| "iterated _ = Inl (TypeError ''object is not iterable'')"


section \<open>Policies\<close>

record token_count =
  tc_tokens :: int
  tc_estimated :: bool

record token_request =
  tr_framework :: string
  tr_model :: string
  tr_messages :: "pyval list"
  tr_system :: pyval
  tr_tools :: "(string \<times> pyval) list"
  tr_settings :: "(string \<times> pyval) list"
  tr_context_metadata :: "(string \<times> pyval) list"

record token_policy =
  tp_enabled :: bool
  tp_observe :: bool
  tp_enforce :: bool
  tp_max_input_tokens :: "int option"
  tp_max_output_tokens :: "int option"
  tp_output_token_parameter :: "string option"
  tp_max_model_calls :: "int option"
  tp_context_window :: "int option"
  tp_reserve_output_tokens :: int
  tp_keep_recent_turns :: "int option"
  tp_max_tool_result_chars :: "int option"

definition require_integer :: "int \<Rightarrow> string \<Rightarrow> int \<Rightarrow> exc option" where
  "require_integer value name minimum = require (minimum \<le> value) (ValueError (name @ '' must be an integer''))"

definition optional_integer :: "int option \<Rightarrow> string \<Rightarrow> exc option" where
  "optional_integer value name = (case value of None \<Rightarrow> None | Some n \<Rightarrow> require_integer n name 1)"

definition check_token_count :: "token_count \<Rightarrow> exc option" where
  "check_token_count c = require_integer (tc_tokens c) ''tokens'' 0"

definition check_token_policy :: "token_policy \<Rightarrow> exc option" where
  "check_token_policy p = check_all
     [optional_integer (tp_max_input_tokens p) ''max_input_tokens'',
      optional_integer (tp_max_output_tokens p) ''max_output_tokens'',
      optional_integer (tp_max_model_calls p) ''max_model_calls'',
      optional_integer (tp_context_window p) ''context_window'',
      optional_integer (tp_keep_recent_turns p) ''keep_recent_turns'',
      optional_integer (tp_max_tool_result_chars p) ''max_tool_result_chars'',
      require_integer (tp_reserve_output_tokens p) ''reserve_output_tokens'' 0,
      require (case tp_output_token_parameter p of None \<Rightarrow> True
        | Some n \<Rightarrow> n \<in> {''max_tokens'', ''max_completion_tokens'', ''max_output_tokens''})
        (ValueError ''output_token_parameter must name a supported output token parameter'')]"

text \<open>The first enabled policy of the overrides for the agent, for all agents, and the default.\<close>

definition policy_for :: "(string option \<times> token_policy option) list \<Rightarrow> token_policy \<Rightarrow> string \<Rightarrow> token_policy option" where
  "policy_for overrides fallback name =
     (let policy = (case map_of overrides (Some name) of Some p \<Rightarrow> p
                    | None \<Rightarrow> (case map_of overrides None of Some p \<Rightarrow> p | None \<Rightarrow> Some fallback)) in
      case policy of None \<Rightarrow> None | Some p \<Rightarrow> if tp_enabled p then Some p else None)"

text \<open>Entering a scope: the overrides seen inside it.\<close>

definition scoped_overrides ::
    "token_policy option \<Rightarrow> string option \<Rightarrow> (string option \<times> token_policy option) list \<Rightarrow>
     exc + (string option \<times> token_policy option) list" where
  "scoped_overrides policy agent_name overrides =
     (if agent_name = Some '''' then Inl (ValueError ''agent_name must be a non-empty string'')
      else Inr (AList.update agent_name policy overrides))"


section \<open>Budgets\<close>

type_synonym budget_state = "(string \<times> int) list"

text \<open>The exception of a budget carries its name, its limit and what was observed.\<close>

type_synonym exceeded = "string \<times> int \<times> int"

definition calls_of :: "budget_state \<Rightarrow> string \<Rightarrow> int" where
  "calls_of st name = (case map_of st name of None \<Rightarrow> 0 | Some n \<Rightarrow> n)"

definition reserve_call :: "string \<Rightarrow> token_policy \<Rightarrow> budget_state \<Rightarrow> (exceeded + int) \<times> budget_state" where
  "reserve_call name policy st =
     (let count = calls_of st name + 1 in
      case tp_max_model_calls policy of
        Some limit \<Rightarrow>
          if tp_enforce policy \<and> count > limit then (Inl (''model_calls'', limit, count), st)
          else (Inr count, AList.update name count st)
      | None \<Rightarrow> (Inr count, AList.update name count st))"


section \<open>Reductions\<close>

definition is_user_turn :: "pyval \<Rightarrow> string \<Rightarrow> exc + bool" where
  "is_user_turn message framework =
     (if framework = ''langgraph'' then sum_bind (dict_get message ''type'') (\<lambda>t. Inr (t = PyStr ''human''))
      else sum_bind (dict_get message ''role'') (\<lambda>role.
        if role \<noteq> PyStr ''user'' then Inr False
        else sum_bind (case message of
               PyDict d \<Rightarrow> (case map_of d (PyStr ''parts'') of None \<Rightarrow> Inr [] | Some parts \<Rightarrow> iterated parts)
             | _ \<Rightarrow> Inl (AttributeError ''get'')) (\<lambda>parts.
          sum_bind (any_each (\<lambda>part. sum_bind (dict_get part ''function_response'') (\<lambda>r. Inr (truthy r))) parts)
            (\<lambda>b. Inr (\<not> b)))))"

definition is_instruction :: "pyval \<Rightarrow> string \<Rightarrow> exc + bool" where
  "is_instruction message framework =
     sum_bind (dict_get message (if framework = ''langgraph'' then ''type'' else ''role'')) (\<lambda>role.
       if \<not> hashable role then Inl (TypeError ''unhashable type'')
       else Inr (role \<in> {PyStr ''system'', PyStr ''developer''}))"

definition turn_starts :: "bool list \<Rightarrow> nat list" where
  "turn_starts turns = map fst (filter snd (zip [0..<length turns] turns))"

text \<open>The second comprehension: a message at or after the boundary is kept without being asked.\<close>

fun kept_messages :: "nat \<Rightarrow> string \<Rightarrow> (nat \<times> pyval) list \<Rightarrow> exc + pyval list" where
  "kept_messages boundary framework [] = Inr []"
| "kept_messages boundary framework ((index, message) # rest) =
     sum_bind (if index \<ge> boundary then Inr True else is_instruction message framework) (\<lambda>keep.
     sum_bind (kept_messages boundary framework rest) (\<lambda>messages.
       Inr (if keep then message # messages else messages)))"

definition recent_turns :: "token_request \<Rightarrow> int \<Rightarrow> exc + token_request" where
  "recent_turns request keep =
     sum_bind (map_each (\<lambda>message. is_user_turn message (tr_framework request)) (tr_messages request)) (\<lambda>turns.
       let starts = turn_starts turns in
       if int (length starts) \<le> keep then Inr request
       else let boundary = starts ! (length starts - nat keep) in
         sum_bind (kept_messages boundary (tr_framework request) (zip [0..<length (tr_messages request)] (tr_messages request)))
           (\<lambda>messages. Inr (request \<lparr> tr_messages := messages \<rparr>)))"

definition short_text :: "string \<Rightarrow> nat \<Rightarrow> string \<Rightarrow> string" where
  "short_text marker limit value =
     (if length value \<le> limit then value
      else if limit < length marker then take limit marker
      else take (limit - length marker) value @ marker)"

fun short_strings :: "string \<Rightarrow> nat \<Rightarrow> pyval \<Rightarrow> pyval" where
  "short_strings marker limit (PyStr s) = PyStr (short_text marker limit s)"
| "short_strings marker limit (PyList vs) = PyList (map (short_strings marker limit) vs)"
| "short_strings marker limit (PyDict d) = PyDict (map (\<lambda>(k, v). (k, short_strings marker limit v)) d)"
| "short_strings marker limit v = v"

definition len_checked :: "string \<Rightarrow> nat \<Rightarrow> pyval \<Rightarrow> exc + pyval" where
  "len_checked marker limit v = (case v of
     PyStr s \<Rightarrow> Inr (PyStr (short_text marker limit s))
   | _ \<Rightarrow> Inl (TypeError ''text of a block is not a string''))"

definition short_block :: "string \<Rightarrow> nat \<Rightarrow> pyval \<Rightarrow> exc + pyval" where
  "short_block marker limit block =
     (case block of
        PyStr s \<Rightarrow> Inr (PyStr (short_text marker limit s))
      | PyDict d \<Rightarrow>
          if map_of d (PyStr ''type'') = Some (PyStr ''text'') then
            sum_bind (dict_item block ''text'') (\<lambda>text.
            sum_bind (len_checked marker limit text) (\<lambda>short. Inr (PyDict (AList.update (PyStr ''text'') short d))))
          else Inr block
      | _ \<Rightarrow> Inr block)"

definition langgraph_tool_text :: "string \<Rightarrow> nat \<Rightarrow> pyval \<Rightarrow> exc + pyval" where
  "langgraph_tool_text marker limit message =
     sum_bind (dict_get message ''type'') (\<lambda>t.
       if t \<noteq> PyStr ''tool'' then Inr message
       else sum_bind (dict_item message ''data'') (\<lambda>data.
         sum_bind (dict_get data ''content'') (\<lambda>content.
           case (message, data, content) of
             (PyDict m, PyDict d, PyStr s) \<Rightarrow>
               Inr (PyDict (AList.update (PyStr ''data'')
                 (PyDict (AList.update (PyStr ''content'') (PyStr (short_text marker limit s)) d)) m))
           | (PyDict m, PyDict d, PyList blocks) \<Rightarrow>
               sum_bind (map_each (short_block marker limit) blocks) (\<lambda>bs.
                 Inr (PyDict (AList.update (PyStr ''data'') (PyDict (AList.update (PyStr ''content'') (PyList bs) d)) m)))
           | _ \<Rightarrow> Inr message)))"

definition adk_part_text :: "string \<Rightarrow> nat \<Rightarrow> pyval \<Rightarrow> exc + pyval" where
  "adk_part_text marker limit part =
     sum_bind (dict_get part ''function_response'') (\<lambda>response.
       if \<not> truthy response then Inr part
       else case (part, response) of
         (PyDict p, PyDict r) \<Rightarrow>
           (let inner = (case map_of r (PyStr ''response'') of None \<Rightarrow> PyNone | Some v \<Rightarrow> v) in
            Inr (PyDict (AList.update (PyStr ''function_response'')
              (PyDict (AList.update (PyStr ''response'') (short_strings marker limit inner) r)) p)))
       | _ \<Rightarrow> Inl (AttributeError ''get''))"

definition adk_tool_text :: "string \<Rightarrow> nat \<Rightarrow> pyval \<Rightarrow> exc + pyval" where
  "adk_tool_text marker limit message =
     (case message of
        PyDict m \<Rightarrow>
          (case map_of m (PyStr ''parts'') of
             None \<Rightarrow> Inr message
           | Some (PyList parts) \<Rightarrow>
               sum_bind (map_each (adk_part_text marker limit) parts) (\<lambda>ps.
                 Inr (PyDict (AList.update (PyStr ''parts'') (PyList ps) m)))
           | Some (PyTuple parts) \<Rightarrow>
               sum_bind (map_each (adk_part_text marker limit) parts) (\<lambda>ps.
                 Inr (PyDict (AList.update (PyStr ''parts'') (PyTuple ps) m)))
           | Some parts \<Rightarrow> sum_bind (iterated parts) (\<lambda>ps. sum_bind (map_each (adk_part_text marker limit) ps) (\<lambda>_. Inr message)))
      | _ \<Rightarrow> Inl (AttributeError ''get''))"

definition tool_text :: "string \<Rightarrow> token_request \<Rightarrow> nat \<Rightarrow> exc + token_request" where
  "tool_text marker request limit =
     sum_bind (map_each (if tr_framework request = ''langgraph'' then langgraph_tool_text marker limit
                         else adk_tool_text marker limit) (tr_messages request))
       (\<lambda>messages. Inr (request \<lparr> tr_messages := messages \<rparr>))"

definition reduce_request :: "string \<Rightarrow> token_request \<Rightarrow> token_policy \<Rightarrow> exc + token_request" where
  "reduce_request marker request policy =
     sum_bind (case tp_keep_recent_turns policy of None \<Rightarrow> Inr request | Some keep \<Rightarrow> recent_turns request keep)
       (\<lambda>current. case tp_max_tool_result_chars policy of None \<Rightarrow> Inr current
                  | Some limit \<Rightarrow> tool_text marker current (nat limit))"

definition selected_tools :: "token_request \<Rightarrow> pyval \<Rightarrow> exc + token_request" where
  "selected_tools request names =
     sum_bind (case names of PyTuple vs \<Rightarrow> Inr vs | PyList vs \<Rightarrow> Inr vs
       | _ \<Rightarrow> Inl (TokenPolicyError ''tool_selector must return a list or tuple of tool names'')) (\<lambda>vs.
     if \<exists>v \<in> set vs. (case v of PyStr _ \<Rightarrow> False | _ \<Rightarrow> True)
     then Inl (TokenPolicyError ''tool_selector must return a list or tuple of tool names'')
     else if \<not> distinct vs \<or> \<not> (\<forall>v \<in> set vs. v \<in> PyStr ` fst ` set (tr_tools request))
     then Inl (TokenPolicyError ''tool_selector returned duplicate or unknown tools'')
     else Inr (request \<lparr> tr_tools := filter (\<lambda>t. PyStr (fst t) \<in> set vs) (tr_tools request) \<rparr>))"



section \<open>One model call\<close>

text \<open>
  What the authored strategies of a policy return for this call: a strategy that is not configured
  is \<open>None\<close>, a value of the wrong type is \<open>OtherCount\<close> or \<open>OtherRequest\<close>, an exception is on the
  left. The counter is asked before and after the reductions.
\<close>

datatype counted = Counted token_count | OtherCount

datatype transformed = Transformed token_request | OtherRequest

record strategies =
  sg_count :: "((exc + counted) \<times> (exc + counted)) option"
  sg_transform :: "(exc + transformed) option"
  sg_select :: "(exc + pyval) option"

definition estimate_tokens :: "(token_request \<Rightarrow> nat) \<Rightarrow> token_request \<Rightarrow> token_count" where
  "estimate_tokens text_size request = \<lparr> tc_tokens = int ((text_size request + 3) div 4), tc_estimated = True \<rparr>"

definition as_count :: "counted \<Rightarrow> exc + token_count" where
  "as_count value = (case value of
     Counted c \<Rightarrow> Inr c | OtherCount \<Rightarrow> Inl (TokenPolicyError ''count_tokens must return TokenCount''))"

definition validate_transform :: "token_request \<Rightarrow> transformed \<Rightarrow> exc + token_request" where
  "validate_transform original value =
     (case value of
        OtherRequest \<Rightarrow> Inl (TokenPolicyError ''request_transform must return TokenRequest'')
      | Transformed current \<Rightarrow>
          if (tr_framework current, tr_model current) \<noteq> (tr_framework original, tr_model original) then
            Inl (TokenPolicyError ''request_transform cannot change framework or model'')
          else if tr_context_metadata current \<noteq> tr_context_metadata original then
            Inl (TokenPolicyError ''request_transform cannot change context_metadata'')
          else if tr_tools current \<noteq> tr_tools original then
            Inl (TokenPolicyError ''use tool_selector to select existing tools'')
          else if \<not> list_all (\<lambda>m. case m of PyDict _ \<Rightarrow> True | _ \<Rightarrow> False) (tr_messages current) then
            Inl (TokenPolicyError ''request_transform messages must be a tuple of dictionaries'')
          else Inr current)"

definition count_before :: "(token_request \<Rightarrow> nat) \<Rightarrow> strategies \<Rightarrow> token_request \<Rightarrow> exc + counted" where
  "count_before text_size sg request =
     (case sg_count sg of None \<Rightarrow> Inr (Counted (estimate_tokens text_size request)) | Some (before, _) \<Rightarrow> before)"

definition count_after :: "(token_request \<Rightarrow> nat) \<Rightarrow> strategies \<Rightarrow> token_request \<Rightarrow> exc + counted" where
  "count_after text_size sg request =
     (case sg_count sg of None \<Rightarrow> Inr (Counted (estimate_tokens text_size request)) | Some (_, after) \<Rightarrow> after)"

definition policy_steps ::
    "string \<Rightarrow> (token_request \<Rightarrow> nat) \<Rightarrow> strategies \<Rightarrow> token_request \<Rightarrow> token_policy \<Rightarrow>
     exc + token_request \<times> token_count \<times> token_count" where
  "policy_steps marker text_size sg request policy =
     sum_bind (count_before text_size sg request) (\<lambda>before.
     sum_bind (reduce_request marker request policy) (\<lambda>reduced.
     sum_bind (case sg_transform sg of None \<Rightarrow> Inr reduced
               | Some answer \<Rightarrow> sum_bind answer (validate_transform request)) (\<lambda>transformed.
     sum_bind (case sg_select sg of None \<Rightarrow> Inr transformed
               | Some answer \<Rightarrow> sum_bind answer (selected_tools transformed)) (\<lambda>current.
     sum_bind (if current = request then Inr before else count_after text_size sg current) (\<lambda>after.
     sum_bind (as_count before) (\<lambda>b. sum_bind (as_count after) (\<lambda>a. Inr (current, b, a))))))))"

definition violations :: "int \<Rightarrow> token_policy \<Rightarrow> exceeded list" where
  "violations tokens policy =
     (let reserve = max (tp_reserve_output_tokens policy)
            (case tp_max_output_tokens policy of None \<Rightarrow> 0 | Some n \<Rightarrow> n);
          checks = [(''input_tokens'', tp_max_input_tokens policy, tokens),
                    (''context_window'', tp_context_window policy, tokens + reserve)] in
      concat (map (\<lambda>(name, limit, value). case limit of None \<Rightarrow> []
        | Some l \<Rightarrow> if value > l then [(name, l, value)] else []) checks))"

definition reserve_attempt ::
    "budget_state \<Rightarrow> string \<Rightarrow> token_policy \<Rightarrow> exceeded list \<Rightarrow> (int \<times> exceeded option) \<times> budget_state" where
  "reserve_attempt st name policy exceeding =
     (case exceeding of
        first # _ \<Rightarrow>
          if tp_enforce policy then ((calls_of st name, Some first), st)
          else (case reserve_call name policy st of
            (Inl (b, limit, observed), st') \<Rightarrow> ((observed, Some (b, limit, observed)), st')
          | (Inr count, st') \<Rightarrow> ((count, None), st'))
      | [] \<Rightarrow> (case reserve_call name policy st of
            (Inl (b, limit, observed), st') \<Rightarrow> ((observed, Some (b, limit, observed)), st')
          | (Inr count, st') \<Rightarrow> ((count, None), st')))"

record prepared_call =
  pc_request :: token_request
  pc_policy :: token_policy
  pc_name :: string
  pc_calls :: int
  pc_before :: token_count
  pc_after :: token_count
  pc_exceeded :: "string list"
  pc_messages_removed :: int
  pc_tools_removed :: int
  pc_failure :: "exceeded option"

text \<open>The shared state of the invocation is absent outside an invocation or a scope.\<close>

definition admit_call ::
    "token_request \<Rightarrow> token_request \<Rightarrow> token_count \<Rightarrow> token_count \<Rightarrow> token_policy \<Rightarrow> string \<Rightarrow> budget_state option \<Rightarrow>
     (exc + prepared_call) \<times> budget_state option" where
  "admit_call original current before after policy name state =
     (let exceeding = violations (tc_tokens after) policy in
      if state = None \<and> tp_max_model_calls policy \<noteq> None then
        (Inl (TokenPolicyError ''max_model_calls requires a Harnest invocation or token_policy_scope''), state)
      else case reserve_attempt (case state of None \<Rightarrow> [] | Some st \<Rightarrow> st) name policy exceeding of
        ((calls, failure), st') \<Rightarrow>
          (let all = exceeding @ (case tp_max_model_calls policy of None \<Rightarrow> []
                 | Some limit \<Rightarrow> if calls > limit then [(''model_calls'', limit, calls)] else []) in
           (Inr \<lparr> pc_request = current, pc_policy = policy, pc_name = name, pc_calls = calls,
                  pc_before = before, pc_after = after, pc_exceeded = map fst all,
                  pc_messages_removed = max 0 (int (length (tr_messages original)) - int (length (tr_messages current))),
                  pc_tools_removed = int (length (tr_tools original)) - int (length (tr_tools current)),
                  pc_failure = failure \<rparr>,
            if state = None then None else Some st')))"

text \<open>\<^verbatim>\<open>prepare\<close>: the call that may be dispatched, or the exception that stops it.\<close>

definition prepare_call ::
    "string \<Rightarrow> (token_request \<Rightarrow> nat) \<Rightarrow> strategies \<Rightarrow> token_request \<Rightarrow> token_policy \<Rightarrow> string \<Rightarrow>
     budget_state option \<Rightarrow> (exc + prepared_call) \<times> budget_state option" where
  "prepare_call marker text_size sg request policy name state =
     (case policy_steps marker text_size sg request policy of
        Inl e \<Rightarrow> (Inl e, state)
      | Inr (current, before, after) \<Rightarrow>
          (case admit_call request current before after policy name state of
             (Inl e, state') \<Rightarrow> (Inl e, state')
           | (Inr call, state') \<Rightarrow>
               (case pc_failure call of
                  Some (budget, limit, observed) \<Rightarrow> (Inl (TokenBudgetExceeded budget limit observed), state')
                | None \<Rightarrow> (Inr call, state'))))"

definition output_settings :: "(string \<times> pyval) list \<Rightarrow> token_policy \<Rightarrow> string \<Rightarrow> (string \<times> pyval) list" where
  "output_settings settings policy key =
     (case (tp_enforce policy, tp_max_output_tokens policy) of
        (True, Some limit) \<Rightarrow>
          AList.update key (case map_of settings key of
            Some (PyInt existing) \<Rightarrow> PyInt (min existing limit) | _ \<Rightarrow> PyInt limit) settings
      | _ \<Rightarrow> settings)"

end
