(* ===== verification/Token_Props.thy ===== *)
theory Token_Props
  imports Token_Policy
begin

text \<open>Budgets hold for every interleaving of calls, and reductions only leave out what they may.\<close>

section \<open>Budgets\<close>

lemma reserve_call_spec:
  "reserve_call name policy st = (x, st') \<Longrightarrow>
     (case x of
        Inl _ \<Rightarrow> st' = st
      | Inr count \<Rightarrow> count = calls_of st name + 1 \<and> st' = AList.update name count st \<and>
          (\<forall>limit. tp_enforce policy \<and> tp_max_model_calls policy = Some limit \<longrightarrow> count \<le> limit))"
  by (auto simp: reserve_call_def Let_def split: option.splits if_splits)

lemma reserve_attempt_spec:
  assumes "reserve_attempt st name policy exceeding = ((calls, failure), st')"
  shows "(failure = None \<longrightarrow> (tp_enforce policy \<longrightarrow> exceeding = []) \<and> calls = calls_of st name + 1 \<and>
            st' = AList.update name calls st \<and>
            (\<forall>limit. tp_enforce policy \<and> tp_max_model_calls policy = Some limit \<longrightarrow> calls \<le> limit))
    \<and> (failure \<noteq> None \<longrightarrow> st' = st)"
  using assms reserve_call_spec [of name policy st]
  by (auto simp: reserve_attempt_def split: list.splits if_splits prod.splits sum.splits)

text \<open>The outcome of a call: admitted with one more reservation, or refused with none.\<close>

lemma prepare_call_spec:
  assumes "prepare_call marker text_size sg request policy name (Some st) = (x, state')"
  shows "(\<exists>call current before after. x = Inr call \<and> state' = Some (AList.update name (calls_of st name + 1) st) \<and>
            policy_steps marker text_size sg request policy = Inr (current, before, after) \<and>
            pc_request call = current \<and> pc_after call = after \<and> pc_calls call = calls_of st name + 1 \<and>
            (tp_enforce policy \<longrightarrow> violations (tc_tokens after) policy = [] \<and>
               (\<forall>limit. tp_max_model_calls policy = Some limit \<longrightarrow> pc_calls call \<le> limit)))
       \<or> (\<exists>e. x = Inl e \<and> state' = Some st)"
proof (cases "policy_steps marker text_size sg request policy")
  case (Inl e)
  with assms show ?thesis by (auto simp: prepare_call_def)
next
  case (Inr r)
  obtain current before after where r: "r = (current, before, after)" by (cases r)
  obtain calls failure st' where a:
      "reserve_attempt st name policy (violations (tc_tokens after) policy) = ((calls, failure), st')"
    by (metis surj_pair)
  from reserve_attempt_spec [OF a] assms Inr r a show ?thesis
    by (cases failure) (auto simp: prepare_call_def admit_call_def Let_def split: prod.splits)
qed

text \<open>The calls of one invocation, in the order in which they are admitted or refused.\<close>

record attempt =
  at_strategies :: strategies
  at_request :: token_request
  at_policy :: token_policy
  at_name :: string

fun run_calls :: "string \<Rightarrow> (token_request \<Rightarrow> nat) \<Rightarrow> attempt list \<Rightarrow> budget_state option \<Rightarrow> (string \<times> (exc + prepared_call)) list" where
  "run_calls marker text_size [] state = []"
| "run_calls marker text_size (a # attempts) state =
     (case prepare_call marker text_size (at_strategies a) (at_request a) (at_policy a) (at_name a) state of
        (x, state') \<Rightarrow> (at_name a, x) # run_calls marker text_size attempts state')"

definition dispatched :: "string \<Rightarrow> (string \<times> (exc + prepared_call)) list \<Rightarrow> nat" where
  "dispatched name results = length (filter (\<lambda>(n, x). n = name \<and> (case x of Inr _ \<Rightarrow> True | Inl _ \<Rightarrow> False)) results)"

definition limited_to :: "string \<Rightarrow> int \<Rightarrow> attempt \<Rightarrow> bool" where
  "limited_to name limit a \<longleftrightarrow>
     at_name a \<noteq> name \<or> tp_enforce (at_policy a) \<and> tp_max_model_calls (at_policy a) = Some limit"

lemma calls_of_update: "calls_of (AList.update name n st) name' = (if name' = name then n else calls_of st name')"
  by (simp add: calls_of_def)

lemma dispatched_bounded:
  assumes "list_all (limited_to name limit) attempts" "calls_of st name \<le> limit"
  shows "calls_of st name + int (dispatched name (run_calls marker text_size attempts (Some st))) \<le> limit"
  using assms
proof (induction attempts arbitrary: st)
  case Nil
  then show ?case by (simp add: dispatched_def)
next
  case (Cons a attempts)
  obtain x state' where p: "prepare_call marker text_size (at_strategies a) (at_request a) (at_policy a) (at_name a) (Some st) =
      (x, state')" by fastforce
  from prepare_call_spec [OF p] show ?case
  proof (elim disjE exE conjE)
    fix e assume "x = Inl e" "state' = Some st"
    with p Cons show ?case by (simp add: dispatched_def)
  next
    fix call current before after
    assume x: "x = Inr call" "state' = Some (AList.update (at_name a) (calls_of st (at_name a) + 1) st)"
      "pc_calls call = calls_of st (at_name a) + 1"
      "tp_enforce (at_policy a) \<longrightarrow> violations (tc_tokens after) (at_policy a) = [] \<and>
         (\<forall>limit. tp_max_model_calls (at_policy a) = Some limit \<longrightarrow> pc_calls call \<le> limit)"
    let ?st = "AList.update (at_name a) (calls_of st (at_name a) + 1) st"
    have "at_name a = name \<Longrightarrow> calls_of st name + 1 \<le> limit"
      using Cons.prems(1) x by (auto simp: limited_to_def)
    then have "calls_of ?st name \<le> limit" using Cons.prems(2) by (auto simp: calls_of_update)
    with Cons have "calls_of ?st name + int (dispatched name (run_calls marker text_size attempts (Some ?st))) \<le> limit"
      by simp
    with p x show ?case by (auto simp: dispatched_def calls_of_update split: if_splits)
  qed
qed

text \<open>
  C19. In one invocation, whatever its agents and strategies do and in whatever order their model
  calls arrive, an agent whose policies enforce a limit on model calls is never admitted more often
  than that; refused calls use up nothing.
\<close>

theorem model_call_budget_respected:
  assumes "list_all (limited_to name limit) attempts" "0 \<le> limit"
  shows "int (dispatched name (run_calls marker text_size attempts (Some []))) \<le> limit"
  using dispatched_bounded [OF assms(1), of "[]"] assms(2) by (simp add: calls_of_def)

definition open_policy :: token_policy where
  "open_policy = \<lparr> tp_enabled = True, tp_observe = True, tp_enforce = True, tp_max_input_tokens = Some 10,
     tp_max_output_tokens = None, tp_output_token_parameter = None, tp_max_model_calls = Some 1,
     tp_context_window = Some 100, tp_reserve_output_tokens = 0, tp_keep_recent_turns = None,
     tp_max_tool_result_chars = None \<rparr>"

definition empty_request :: token_request where
  "empty_request = \<lparr> tr_framework = ''adk'', tr_model = ''m'', tr_messages = [], tr_system = PyNone, tr_tools = [],
     tr_settings = [], tr_context_metadata = [] \<rparr>"

definition no_strategies :: strategies where
  "no_strategies = \<lparr> sg_count = None, sg_transform = None, sg_select = None \<rparr>"

theorem model_call_budget_respected_witness:
  "int (dispatched ''a'' (run_calls '''' (\<lambda>_. 8) (replicate 3
     \<lparr> at_strategies = no_strategies, at_request = empty_request, at_policy = open_policy, at_name = ''a'' \<rparr>) (Some []))) \<le> 1"
  by (rule model_call_budget_respected) (simp_all add: limited_to_def open_policy_def list_all_iff)


section \<open>An admitted call\<close>

lemma reduce_request_frame:
  assumes "reduce_request marker request policy = Inr current"
  shows "tr_framework current = tr_framework request \<and> tr_model current = tr_model request \<and>
     tr_tools current = tr_tools request \<and> tr_context_metadata current = tr_context_metadata request \<and>
     tr_settings current = tr_settings request"
proof -
  have r: "recent_turns a keep = Inr b \<Longrightarrow> tr_framework b = tr_framework a \<and> tr_model b = tr_model a \<and>
     tr_tools b = tr_tools a \<and> tr_context_metadata b = tr_context_metadata a \<and> tr_settings b = tr_settings a" for a keep b
    by (auto simp: recent_turns_def Let_def sum_bind_Inr split: if_splits)
  have t: "tool_text marker a n = Inr b \<Longrightarrow> tr_framework b = tr_framework a \<and> tr_model b = tr_model a \<and>
     tr_tools b = tr_tools a \<and> tr_context_metadata b = tr_context_metadata a \<and> tr_settings b = tr_settings a" for a n b
    by (auto simp: tool_text_def sum_bind_Inr)
  show ?thesis
    using assms r t unfolding reduce_request_def sum_bind_Inr
    by (fastforce split: option.splits)
qed

lemma selected_tools_frame:
  assumes "selected_tools request names = Inr current"
  shows "tr_framework current = tr_framework request \<and> tr_model current = tr_model request \<and>
     subseq (tr_tools current) (tr_tools request) \<and> tr_context_metadata current = tr_context_metadata request"
  using assms by (auto simp: selected_tools_def sum_bind_Inr subseq_filter_left split: if_splits)

lemma policy_steps_frame:
  assumes "policy_steps marker text_size sg request policy = Inr (current, before, after)"
  shows "tr_framework current = tr_framework request \<and> tr_model current = tr_model request \<and>
     subseq (tr_tools current) (tr_tools request) \<and> tr_context_metadata current = tr_context_metadata request"
proof -
  obtain reduced transformed where
      r: "reduce_request marker request policy = Inr reduced"
    and t: "(case sg_transform sg of None \<Rightarrow> Inr reduced | Some answer \<Rightarrow> sum_bind answer (validate_transform request)) = Inr transformed"
    and s: "(case sg_select sg of None \<Rightarrow> Inr transformed | Some answer \<Rightarrow> sum_bind answer (selected_tools transformed)) = Inr current"
    using assms by (auto simp: policy_steps_def sum_bind_Inr)
  have "validate_transform request v = Inr transformed \<Longrightarrow>
      tr_framework transformed = tr_framework request \<and> tr_model transformed = tr_model request \<and>
      tr_tools transformed = tr_tools request \<and> tr_context_metadata transformed = tr_context_metadata request" for v
    by (auto simp: validate_transform_def split: transformed.splits if_splits)
  with t reduce_request_frame [OF r] have "tr_framework transformed = tr_framework request \<and> tr_model transformed = tr_model request \<and>
      tr_tools transformed = tr_tools request \<and> tr_context_metadata transformed = tr_context_metadata request"
    by (auto simp: sum_bind_Inr split: option.splits)
  with s selected_tools_frame [of transformed _ current] show ?thesis
    by (fastforce simp: sum_bind_Inr split: option.splits)
qed

lemma violations_Nil:
  "violations tokens policy = [] \<longleftrightarrow>
     (\<forall>limit. tp_max_input_tokens policy = Some limit \<longrightarrow> tokens \<le> limit) \<and>
     (\<forall>limit. tp_context_window policy = Some limit \<longrightarrow>
        tokens + max (tp_reserve_output_tokens policy) (case tp_max_output_tokens policy of None \<Rightarrow> 0 | Some n \<Rightarrow> n) \<le> limit)"
  by (auto simp: violations_def Let_def split: option.splits)

text \<open>
  A call that an enforcing policy lets through has been counted after its reductions within the
  input budget and, with room reserved for the answer, within the context window; it is within the
  call limit. No strategy has changed its framework, model or metadata, and its tools are some of
  the original tools in their order: nothing authored can add one.
\<close>

theorem admitted_call_within_budgets:
  assumes "prepare_call marker text_size sg request policy name (Some st) = (Inr call, state')" "tp_enforce policy"
  shows "(\<forall>limit. tp_max_input_tokens policy = Some limit \<longrightarrow> tc_tokens (pc_after call) \<le> limit)
    \<and> (\<forall>limit. tp_context_window policy = Some limit \<longrightarrow> tc_tokens (pc_after call) +
         max (tp_reserve_output_tokens policy) (case tp_max_output_tokens policy of None \<Rightarrow> 0 | Some n \<Rightarrow> n) \<le> limit)
    \<and> (\<forall>limit. tp_max_model_calls policy = Some limit \<longrightarrow> pc_calls call \<le> limit)
    \<and> tr_framework (pc_request call) = tr_framework request \<and> tr_model (pc_request call) = tr_model request
    \<and> tr_context_metadata (pc_request call) = tr_context_metadata request
    \<and> subseq (tr_tools (pc_request call)) (tr_tools request)"
proof -
  obtain current before after where c: "policy_steps marker text_size sg request policy = Inr (current, before, after)"
      "pc_request call = current" "pc_after call = after" "violations (tc_tokens after) policy = []"
      "\<forall>limit. tp_max_model_calls policy = Some limit \<longrightarrow> pc_calls call \<le> limit"
    using prepare_call_spec [OF assms(1)] assms(2) by auto
  with policy_steps_frame [OF c(1)] show ?thesis by (simp add: violations_Nil)
qed

theorem admitted_call_within_budgets_witness:
  "\<exists>call. fst (prepare_call '''' (\<lambda>_. 8) no_strategies empty_request open_policy ''a'' (Some [])) = Inr call \<and>
     tc_tokens (pc_after call) \<le> 10"
proof -
  obtain call state' where p: "prepare_call '''' (\<lambda>_. 8) no_strategies empty_request open_policy ''a'' (Some []) = (Inr call, state')"
    by (simp add: prepare_call_def policy_steps_def count_before_def no_strategies_def estimate_tokens_def
        reduce_request_def open_policy_def as_count_def admit_call_def violations_def reserve_attempt_def
        reserve_call_def calls_of_def)
  from admitted_call_within_budgets [OF p] show ?thesis by (simp add: p) (simp add: open_policy_def)
qed


section \<open>Reductions\<close>

lemma turn_starts_nth:
  "turn_starts turns = filter (\<lambda>i. turns ! i) [0..<length turns]"
proof -
  have "map fst (filter snd (zip xs (map f xs))) = filter f xs" for f :: "nat \<Rightarrow> bool" and xs
    by (induction xs) auto
  from this [of "[0..<length turns]" "\<lambda>i. turns ! i"] show ?thesis
    by (simp add: turn_starts_def map_nth)
qed

text \<open>Counting positions from the k-th last selected one on.\<close>

lemma filter_from_nth:
  fixes xs :: "nat list"
  assumes "sorted_wrt (<) xs" "i < length xs"
  shows "filter (\<lambda>x. xs ! i \<le> x) xs = drop i xs"
proof -
  have s: "sorted_wrt (<) (take i xs @ drop i xs)" using assms(1) by simp
  have d: "drop i xs = xs ! i # drop (Suc i) xs" using assms(2) by (simp add: Cons_nth_drop_Suc)
  have "\<forall>x \<in> set (take i xs). x < xs ! i"
    using s d unfolding sorted_wrt_append by (metis list.set_intros(1))
  then have "filter (\<lambda>x. xs ! i \<le> x) (take i xs) = []" unfolding filter_empty_conv by (metis leD)
  moreover have "\<forall>x \<in> set (drop i xs). xs ! i \<le> x"
    using s d unfolding sorted_wrt_append by (metis less_imp_le order_refl set_ConsD sorted_wrt.simps(2))
  then have "filter (\<lambda>x. xs ! i \<le> x) (drop i xs) = drop i xs" by (auto simp: filter_id_conv)
  ultimately show ?thesis by (metis append_Nil append_take_drop_id filter_append)
qed

lemma kept_messages_split:
  assumes "kept_messages boundary framework (zip [n..<n + length messages] messages) = Inr result"
  shows "\<exists>pinned. result = pinned @ drop (boundary - n) messages \<and> subseq pinned (take (boundary - n) messages) \<and>
     (\<forall>m \<in> set (take (boundary - n) messages). is_instruction m framework = Inr True \<longrightarrow> m \<in> set pinned) \<and>
     (\<forall>m \<in> set pinned. is_instruction m framework = Inr True)"
  using assms
proof (induction messages arbitrary: n result)
  case (Cons m messages)
  have z: "zip [n..<n + length (m # messages)] (m # messages) = (n, m) # zip [Suc n..<Suc n + length messages] messages"
    by (simp add: upt_conv_Cons del: upt_Suc)
  obtain keep rest where k: "(if n \<ge> boundary then Inr True else is_instruction m framework) = Inr keep"
      "kept_messages boundary framework (zip [Suc n..<Suc n + length messages] messages) = Inr rest"
      "result = (if keep then m # rest else rest)"
    using Cons.prems unfolding z by (auto simp: sum_bind_Inr)
  obtain pinned where p: "rest = pinned @ drop (boundary - Suc n) messages" "subseq pinned (take (boundary - Suc n) messages)"
      "\<forall>m \<in> set (take (boundary - Suc n) messages). is_instruction m framework = Inr True \<longrightarrow> m \<in> set pinned"
      "\<forall>m \<in> set pinned. is_instruction m framework = Inr True"
    using Cons.IH [OF k(2)] by blast
  show ?case
  proof (cases "n \<ge> boundary")
    case True
    with k p show ?thesis by (intro exI [of _ "[]"]) auto
  next
    case False
    then have s: "boundary - n = Suc (boundary - Suc n)" by simp
    show ?thesis
      using k p False unfolding s
      by (intro exI [of _ "if keep then m # pinned else pinned"]) (auto split: if_splits)
  qed
qed simp

definition user_turns :: "string \<Rightarrow> pyval list \<Rightarrow> nat" where
  "user_turns framework messages = length (filter (\<lambda>m. is_user_turn m framework = Inr True) messages)"

lemma user_turns_drop:
  assumes "map_each (\<lambda>m. is_user_turn m framework) messages = Inr turns" "b \<le> length messages"
  shows "user_turns framework (drop b messages) = length (filter (\<lambda>i. b \<le> i) (turn_starts turns))"
proof -
  note m = map_each_nth [OF assms(1)]
  have "drop b messages = map (\<lambda>i. messages ! i) [b..<length messages]"
    by (metis drop_map drop_upt map_nth add_0)
  then have "user_turns framework (drop b messages) =
      length (filter (\<lambda>i. is_user_turn (messages ! i) framework = Inr True) [b..<length messages])"
    by (simp add: user_turns_def filter_map comp_def)
  also have "filter (\<lambda>i. is_user_turn (messages ! i) framework = Inr True) [b..<length messages] =
      filter (\<lambda>i. turns ! i) [b..<length messages]"
    by (rule filter_cong) (use m in auto)
  also have "\<dots> = filter (\<lambda>i. b \<le> i) (filter (\<lambda>i. turns ! i) [0..<length messages])"
  proof -
    have u: "[0..<length messages] = [0..<b] @ [b..<length messages]"
      using assms(2) by (metis le0 upt_add_eq_append le_add_diff_inverse)
    have "filter (\<lambda>i. b \<le> i) (filter (\<lambda>i. turns ! i) [0..<b]) = []" by (auto simp: filter_empty_conv)
    moreover have "filter (\<lambda>i. b \<le> i) (filter (\<lambda>i. turns ! i) [b..<length messages]) = filter (\<lambda>i. turns ! i) [b..<length messages]"
      unfolding filter_id_conv by simp
    ultimately show ?thesis unfolding u by simp
  qed
  finally show ?thesis using m by (simp add: turn_starts_nth)
qed

text \<open>
  Keeping the recent turns drops only a prefix of the conversation and ends at a user turn: what
  is left is the instructions of that prefix, in order, followed by an unbroken tail, so a tool call
  and its result are never separated. When anything was dropped, the tail begins with a user turn and
  holds exactly the requested number of them.
\<close>

theorem recent_turns_keep_a_tail:
  assumes "recent_turns request keep = Inr reduced" "1 \<le> keep"
  shows "\<exists>cut pinned. let tail = drop cut (tr_messages request) in
     tr_messages reduced = pinned @ tail \<and> subseq pinned (take cut (tr_messages request))
   \<and> (\<forall>m \<in> set (take cut (tr_messages request)). is_instruction m (tr_framework request) = Inr True \<longrightarrow> m \<in> set pinned)
   \<and> (\<forall>m \<in> set pinned. is_instruction m (tr_framework request) = Inr True)
   \<and> (reduced \<noteq> request \<longrightarrow> tail \<noteq> [] \<and> is_user_turn (hd tail) (tr_framework request) = Inr True
        \<and> int (user_turns (tr_framework request) tail) = keep)"
proof -
  let ?ms = "tr_messages request" and ?f = "tr_framework request"
  obtain turns where t: "map_each (\<lambda>m. is_user_turn m ?f) ?ms = Inr turns"
    using assms(1) by (auto simp: recent_turns_def sum_bind_Inr)
  let ?starts = "turn_starts turns"
  show ?thesis
  proof (cases "int (length ?starts) \<le> keep")
    case True
    then have "reduced = request" using assms(1) t by (simp add: recent_turns_def Let_def)
    then show ?thesis by (intro exI [of _ 0] exI [of _ "[]"]) simp
  next
    case False
    let ?k = "length ?starts - nat keep"
    let ?b = "?starts ! ?k"
    have k: "?k < length ?starts" using False assms(2) by auto
    then have "?b \<in> set ?starts" by simp
    then have b: "?b < length ?ms" "turns ! ?b"
      using map_each_nth [OF t] by (auto simp: turn_starts_nth)
    obtain result where r: "kept_messages ?b ?f (zip [0..<length ?ms] ?ms) = Inr result" "tr_messages reduced = result"
      using assms(1) t False by (auto simp: recent_turns_def Let_def sum_bind_Inr)
    obtain pinned where p: "result = pinned @ drop ?b ?ms" "subseq pinned (take ?b ?ms)"
      "\<forall>m \<in> set (take ?b ?ms). is_instruction m ?f = Inr True \<longrightarrow> m \<in> set pinned"
      "\<forall>m \<in> set pinned. is_instruction m ?f = Inr True"
      using kept_messages_split [of ?b ?f 0 ?ms result] r by auto
    have "is_user_turn (hd (drop ?b ?ms)) ?f = Inr True"
      using map_each_nth [OF t] b by (simp add: hd_drop_conv_nth)
    moreover have "sorted_wrt (<) ?starts"
      unfolding turn_starts_nth by (intro sorted_wrt_filter) simp
    then have "user_turns ?f (drop ?b ?ms) = length ?starts - ?k"
      using user_turns_drop [OF t, of ?b] b filter_from_nth [of ?starts ?k] k by simp
    then have "int (user_turns ?f (drop ?b ?ms)) = keep" using False assms(2) by auto
    ultimately show ?thesis
      using p r b by (intro exI [of _ ?b] exI [of _ pinned]) (simp add: Let_def)
  qed
qed


definition adk_text :: "string \<Rightarrow> string \<Rightarrow> pyval" where
  "adk_text role text = PyDict [(PyStr ''role'', PyStr role), (PyStr ''parts'', PyList [PyDict [(PyStr ''text'', PyStr text)]])]"

definition adk_result :: pyval where
  "adk_result = PyDict [(PyStr ''role'', PyStr ''user''), (PyStr ''parts'', PyList [PyDict
     [(PyStr ''function_response'', PyDict [(PyStr ''name'', PyStr ''t''), (PyStr ''response'', PyStr ''ok'')])]])]"

definition long_request :: token_request where
  "long_request = empty_request \<lparr> tr_messages :=
     [adk_text ''system'' ''s'', adk_text ''user'' ''one'', adk_text ''model'' ''a'',
      adk_text ''user'' ''two'', adk_text ''model'' ''b'', adk_result] \<rparr>"

theorem recent_turns_keep_a_tail_witness:
  "\<exists>reduced cut. recent_turns long_request 1 = Inr reduced \<and>
     int (user_turns ''adk'' (drop cut (tr_messages long_request))) = 1"
proof -
  have r: "recent_turns long_request 1 = Inr (long_request \<lparr> tr_messages :=
     [adk_text ''system'' ''s'', adk_text ''user'' ''two'', adk_text ''model'' ''b'', adk_result] \<rparr>)" (is "_ = Inr ?reduced")
    by code_simp
  have "?reduced \<noteq> long_request" by (simp add: long_request_def empty_request_def)
  with recent_turns_keep_a_tail [OF r] r show ?thesis
    by (auto simp: Let_def long_request_def empty_request_def)
qed

text \<open>Shortened text is within its limit, and so is every text in a shortened tool response.\<close>

lemma short_text_length: "length (short_text marker limit value) \<le> limit"
  by (auto simp: short_text_def)

lemma short_text_kept: "length value \<le> limit \<Longrightarrow> short_text marker limit value = value"
  by (simp add: short_text_def)

fun texts_within :: "nat \<Rightarrow> pyval \<Rightarrow> bool" where
  "texts_within limit (PyStr s) = (length s \<le> limit)"
| "texts_within limit (PyList vs) = list_all (texts_within limit) vs"
| "texts_within limit (PyDict d) = list_all (\<lambda>(k, v). texts_within limit v) d"
| "texts_within limit v = True"

lemma short_strings_within: "texts_within limit (short_strings marker limit v)"
  by (induction marker limit v rule: short_strings.induct) (auto simp: short_text_length list_all_iff)

end
