(* ===== verification/Memory_Store.thy ===== *)
theory Memory_Store
  imports Continuation_Records
begin

text \<open>
  Explicit long-term memory: the validation every provider shares (\<^verbatim>\<open>memory_provider.py\<close>) and the
  reference store (\<^verbatim>\<open>memory_local.py\<close>). The clock is read several times by one operation, so an
  operation takes the clock as a function of the reading; the revision drawn by \<^verbatim>\<open>uuid\<close> is an
  argument of a write. The stored JSON text of a record is the record itself, since its metadata is
  normalized JSON and decoding gives it back.
\<close>


section \<open>Records and validation\<close>

record memory_scope =
  ms_application_id :: string
  ms_user_id :: string
  ms_namespace :: string

record memory_record =
  mr_scope :: memory_scope
  mr_key :: string
  mr_content :: string
  mr_metadata :: pyval
  mr_source :: pyval
  mr_revision :: string
  mr_created_at :: rat
  mr_updated_at :: rat
  mr_expires_at :: "pyfloat option"

type_synonym memory_page = "memory_record list \<times> string option"

definition utf8_size :: "string \<Rightarrow> nat" where
  "utf8_size s = sum_list (map (\<lambda>c. if (of_char c :: nat) < 128 then 1 else 2) s)"

definition text_field :: "string \<Rightarrow> string \<Rightarrow> nat \<Rightarrow> exc option" where
  "text_field value name maximum = check_all
     [require (value \<noteq> [] \<and> CHR 0x00 \<notin> set value) (ValueError (name @ '' must be nonempty text without NUL'')),
      require (utf8_size value \<le> maximum) (ValueError (name @ '' exceeds its byte limit''))]"

definition validate_scope :: "memory_scope \<Rightarrow> exc option" where
  "validate_scope scope = check_all
     [text_field (ms_application_id scope) ''application_id'' 512,
      text_field (ms_user_id scope) ''user_id'' 512,
      text_field (ms_namespace scope) ''namespace'' 512]"

definition validate_memory_page :: "memory_scope \<Rightarrow> int \<Rightarrow> string option \<Rightarrow> exc option" where
  "validate_memory_page scope limit after = check_all
     [validate_scope scope,
      require (1 \<le> limit \<and> limit \<le> 100) (ValueError ''limit must be an integer from 1 to 100''),
      (case after of None \<Rightarrow> None | Some a \<Rightarrow> text_field a ''after'' 256)]"

definition revision_check :: "string option \<Rightarrow> memory_record option \<Rightarrow> exc option" where
  "revision_check expected current =
     (case expected of
        None \<Rightarrow> None
      | Some wanted \<Rightarrow>
          (case current of
             None \<Rightarrow> Some (MemoryConflictError ''memory revision does not match'')
           | Some r \<Rightarrow> if mr_revision r \<noteq> wanted then Some (MemoryConflictError ''memory revision does not match'') else None))"

text \<open>The length of \<^verbatim>\<open>json.dumps\<close> with its default separators.\<close>

fun json_size :: "pylib \<Rightarrow> pyval \<Rightarrow> nat" where
  "json_size lib (PyBool b) = (if b then 4 else 5)"
| "json_size lib (PyInt i) = length (int_text i)"
| "json_size lib (PyFloat x) = (case x of Fin q \<Rightarrow> length (float_repr lib q) | _ \<Rightarrow> 0)"
| "json_size lib (PyStr s) = length (json_string s)"
| "json_size lib (PyList vs) = 2 + sum_list (map (json_size lib) vs) + 2 * (length vs - 1)"
| "json_size lib (PyDict kvs) =
     2 + sum_list (map (\<lambda>(k, v). json_size lib k + 2 + json_size lib v) kvs) + 2 * (length kvs - 1)"
| "json_size lib _ = 4"

definition string_items :: "pyval \<Rightarrow> bool" where
  "string_items v = (case v of
     PyDict kvs \<Rightarrow> list_all (\<lambda>(k, x). (case k of PyStr _ \<Rightarrow> True | _ \<Rightarrow> False) \<and> (case x of PyStr _ \<Rightarrow> True | _ \<Rightarrow> False)) kvs
   | _ \<Rightarrow> False)"

definition check_memory_metadata :: "pylib \<Rightarrow> memory_record \<Rightarrow> exc + memory_record" where
  "check_memory_metadata lib r =
     (case (mr_metadata r, mr_source r) of
        (PyDict _, PyDict _) \<Rightarrow>
          (case json_value (PyList [mr_metadata r, mr_source r]) of
             Inr (PyList [metadata, source]) \<Rightarrow>
               if json_size lib (PyList [metadata, source]) > 16384 then
                 Inl (ValueError ''metadata and source exceed their byte limit'')
               else if \<not> string_items (mr_source r) then Inl (ValueError ''source must contain string keys and values'')
               else Inr (r \<lparr> mr_metadata := metadata, mr_source := source \<rparr>)
           | _ \<Rightarrow> Inl (ValueError ''metadata and source must be JSON-safe''))
      | _ \<Rightarrow> Inl (TypeError ''metadata and source must be mappings''))"

definition prepare_record :: "pylib \<Rightarrow> memory_record \<Rightarrow> rat \<Rightarrow> string \<Rightarrow> exc + memory_record" where
  "prepare_record lib r now revision =
     (case check_all
        [validate_scope (mr_scope r), text_field (mr_key r) ''key'' 256, text_field (mr_content r) ''content'' 65536] of
        Some e \<Rightarrow> Inl e
      | None \<Rightarrow>
          sum_bind (check_memory_metadata lib r) (\<lambda>checked.
            if (case mr_expires_at checked of None \<Rightarrow> False
                | Some expiry \<Rightarrow> \<not> isfinite expiry \<or> f_le expiry (Fin now))
            then Inl (ValueError ''expires_at must be a finite future UTC timestamp'')
            else Inr (checked \<lparr> mr_revision := revision, mr_created_at := now, mr_updated_at := now \<rparr>)))"


section \<open>The reference store\<close>

text \<open>The dictionary of the records, keyed by scope and key.\<close>

type_synonym memory_store = "((memory_scope \<times> string) \<times> memory_record) list"

type_synonym clock = "nat \<Rightarrow> rat"

definition memory_expired :: "rat \<Rightarrow> memory_record \<Rightarrow> bool" where
  "memory_expired now r = (case mr_expires_at r of None \<Rightarrow> False | Some expiry \<Rightarrow> f_le expiry (Fin now))"

definition live_record :: "memory_scope \<Rightarrow> string \<Rightarrow> rat \<Rightarrow> memory_store \<Rightarrow> memory_record option \<times> memory_store" where
  "live_record scope key now st =
     (case map_of st (scope, key) of
        None \<Rightarrow> (None, st)
      | Some r \<Rightarrow> if memory_expired now r then (None, AList.delete (scope, key) st) else (Some r, st))"

definition put_memory :: "memory_record \<Rightarrow> string option \<Rightarrow> rat \<Rightarrow> memory_store \<Rightarrow> (memory_store, memory_record) outcome" where
  "put_memory r expected now st =
     (case live_record (mr_scope r) (mr_key r) now st of
        (current, st1) \<Rightarrow>
          (case revision_check expected current of
             Some e \<Rightarrow> (Inl e, st1)
           | None \<Rightarrow>
               (let stored = (case current of None \<Rightarrow> r | Some c \<Rightarrow> r \<lparr> mr_created_at := mr_created_at c \<rparr>) in
                (Inr stored, AList.update (mr_scope r, mr_key r) stored st1))))"

definition memory_matches :: "memory_record option \<Rightarrow> string option \<Rightarrow> string option \<Rightarrow> bool" where
  "memory_matches r key query =
     (case r of
        None \<Rightarrow> False
      | Some m \<Rightarrow> (key = None \<or> key = Some (mr_key m)) \<and>
          (case query of None \<Rightarrow> True | Some q \<Rightarrow> sublist q (mr_content m)))"

definition scope_keys :: "memory_scope \<Rightarrow> string option \<Rightarrow> memory_store \<Rightarrow> string list" where
  "scope_keys scope after st =
     sort (map (snd \<circ> fst) (filter (\<lambda>((s, k), _). s = scope \<and> (case after of None \<Rightarrow> True | Some a \<Rightarrow> a < k)) st))"

text \<open>The loop over the candidates: the matches so far, the readings of the clock so far.\<close>

fun collect_matches ::
    "memory_scope \<Rightarrow> string option \<Rightarrow> string option \<Rightarrow> int \<Rightarrow> clock \<Rightarrow> nat \<Rightarrow> string list \<Rightarrow>
     memory_record list \<Rightarrow> memory_store \<Rightarrow> memory_record list \<times> memory_store" where
  "collect_matches scope key query limit clock i [] items st = (items, st)"
| "collect_matches scope key query limit clock i (candidate # candidates) items st =
     (case live_record scope candidate (clock i) st of
        (r, st1) \<Rightarrow>
          (let items' = (if memory_matches r key query then items @ [the r] else items) in
           if int (length items') > limit then (items', st1)
           else collect_matches scope key query limit clock (Suc i) candidates items' st1))"

definition read_memory ::
    "memory_scope \<Rightarrow> string option \<Rightarrow> string option \<Rightarrow> int \<Rightarrow> string option \<Rightarrow> clock \<Rightarrow> memory_store \<Rightarrow>
     memory_page \<times> memory_store" where
  "read_memory scope key query limit after clock st =
     (case collect_matches scope key query limit clock 0 (scope_keys scope after st) [] st of
        (items, st1) \<Rightarrow>
          ((take (nat limit) items,
            if int (length items) > limit then Some (mr_key (items ! (nat limit - 1))) else None), st1))"

definition delete_memory :: "memory_scope \<Rightarrow> string \<Rightarrow> string option \<Rightarrow> rat \<Rightarrow> memory_store \<Rightarrow> (memory_store, bool) outcome" where
  "delete_memory scope key expected now st =
     (case live_record scope key now st of
        (current, st1) \<Rightarrow>
          (case revision_check expected current of
             Some e \<Rightarrow> (Inl e, st1)
           | None \<Rightarrow> (Inr (map_of st1 (scope, key) \<noteq> None), AList.delete (scope, key) st1)))"

definition erase_memory :: "(memory_scope \<Rightarrow> bool) \<Rightarrow> memory_store \<Rightarrow> nat \<times> memory_store" where
  "erase_memory selects st =
     (let identities = map fst (filter (\<lambda>((s, _), _). selects s) st) in
      (length identities, fold AList.delete identities st))"

definition delete_all_memory :: "memory_scope \<Rightarrow> memory_store \<Rightarrow> nat \<times> memory_store" where
  "delete_all_memory scope st = erase_memory (\<lambda>owner. owner = scope) st"

definition delete_user_memory :: "memory_scope \<Rightarrow> memory_store \<Rightarrow> nat \<times> memory_store" where
  "delete_user_memory scope st =
     erase_memory (\<lambda>owner. (ms_application_id owner, ms_user_id owner) = (ms_application_id scope, ms_user_id scope)) st"

fun purge_keys :: "memory_scope \<Rightarrow> clock \<Rightarrow> nat \<Rightarrow> string list \<Rightarrow> memory_store \<Rightarrow> nat \<times> memory_store" where
  "purge_keys scope clock i [] st = (0, st)"
| "purge_keys scope clock i (key # keys) st =
     (case live_record scope key (clock i) st of
        (r, st1) \<Rightarrow>
          (case purge_keys scope clock (Suc i) keys st1 of
             (n, st2) \<Rightarrow> (if r = None then Suc n else n, st2)))"

definition purge_expired_memory ::
    "memory_scope \<Rightarrow> int \<Rightarrow> string option \<Rightarrow> clock \<Rightarrow> memory_store \<Rightarrow> (nat \<times> string option) \<times> memory_store" where
  "purge_expired_memory scope limit after clock st =
     (let keys = scope_keys scope after st in
      case purge_keys scope clock 0 (take (nat limit) keys) st of
        (deleted, st1) \<Rightarrow> ((deleted, if int (length keys) > limit then Some (keys ! (nat limit - 1)) else None), st1))"


section \<open>The provider\<close>

text \<open>
  \<^verbatim>\<open>protected\<close>: a conflict stays a conflict, any other exception of the datastore is replaced.
\<close>

definition protected_error :: "string \<Rightarrow> exc \<Rightarrow> exc" where
  "protected_error operation e = (case e of
     MemoryConflictError _ \<Rightarrow> MemoryConflictError ''memory revision does not match''
   | _ \<Rightarrow> MemoryStorageError (''memory '' @ operation @ '' failed''))"

definition protected_outcome :: "string \<Rightarrow> (memory_store, 'a) outcome \<Rightarrow> (memory_store, 'a) outcome" where
  "protected_outcome operation r = (case r of
     (Inl e, st) \<Rightarrow> (Inl (protected_error operation e), st) | (Inr v, st) \<Rightarrow> (Inr v, st))"

definition checked_call :: "exc option \<Rightarrow> memory_store \<Rightarrow> (memory_store, 'a) outcome \<Rightarrow> (memory_store, 'a) outcome" where
  "checked_call check st call = (case check of Some e \<Rightarrow> (Inl e, st) | None \<Rightarrow> call)"

definition succeed :: "'a \<times> memory_store \<Rightarrow> (memory_store, 'a) outcome" where
  "succeed r = (Inr (fst r), snd r)"

definition optional_revision :: "string option \<Rightarrow> exc option" where
  "optional_revision expected = (case expected of None \<Rightarrow> None | Some r \<Rightarrow> text_field r ''expected_revision'' 128)"

definition memory_provider_put ::
    "pylib \<Rightarrow> memory_record \<Rightarrow> string option \<Rightarrow> rat \<Rightarrow> string \<Rightarrow> rat \<Rightarrow> memory_store \<Rightarrow> (memory_store, memory_record) outcome" where
  "memory_provider_put lib r expected prepared_at revision now st =
     (case prepare_record lib r prepared_at revision of
        Inl e \<Rightarrow> (Inl e, st)
      | Inr value \<Rightarrow>
          checked_call (optional_revision expected) st (protected_outcome ''put'' (put_memory value expected now st)))"

definition memory_provider_get :: "memory_scope \<Rightarrow> string \<Rightarrow> clock \<Rightarrow> memory_store \<Rightarrow> (memory_store, memory_record option) outcome" where
  "memory_provider_get scope key clock st =
     checked_call (check_all [validate_memory_page scope 1 None, text_field key ''key'' 256]) st
       (case read_memory scope (Some key) None 1 None clock st of
          ((items, _), st1) \<Rightarrow> (Inr (case items of [] \<Rightarrow> None | r # _ \<Rightarrow> Some r), st1))"

definition memory_provider_list :: "memory_scope \<Rightarrow> int \<Rightarrow> string option \<Rightarrow> clock \<Rightarrow> memory_store \<Rightarrow> (memory_store, memory_page) outcome" where
  "memory_provider_list scope limit after clock st =
     checked_call (validate_memory_page scope limit after) st (succeed (read_memory scope None None limit after clock st))"

definition memory_provider_search ::
    "memory_scope \<Rightarrow> string \<Rightarrow> int \<Rightarrow> string option \<Rightarrow> clock \<Rightarrow> memory_store \<Rightarrow> (memory_store, memory_page) outcome" where
  "memory_provider_search scope query limit after clock st =
     checked_call (check_all [validate_memory_page scope limit after, text_field query ''query'' 1024]) st
       (succeed (read_memory scope None (Some query) limit after clock st))"

definition memory_provider_delete :: "memory_scope \<Rightarrow> string \<Rightarrow> string option \<Rightarrow> rat \<Rightarrow> memory_store \<Rightarrow> (memory_store, bool) outcome" where
  "memory_provider_delete scope key expected now st =
     checked_call (check_all [validate_scope scope, text_field key ''key'' 256, optional_revision expected]) st
       (protected_outcome ''delete'' (delete_memory scope key expected now st))"

definition memory_provider_delete_all :: "memory_scope \<Rightarrow> memory_store \<Rightarrow> (memory_store, nat) outcome" where
  "memory_provider_delete_all scope st = checked_call (validate_scope scope) st (succeed (delete_all_memory scope st))"

definition memory_provider_delete_user :: "string \<Rightarrow> string \<Rightarrow> memory_store \<Rightarrow> (memory_store, nat) outcome" where
  "memory_provider_delete_user application_id user_id st =
     (let scope = \<lparr> ms_application_id = application_id, ms_user_id = user_id, ms_namespace = ''default'' \<rparr> in
      checked_call (validate_scope scope) st (succeed (delete_user_memory scope st)))"

definition memory_provider_purge ::
    "memory_scope \<Rightarrow> int \<Rightarrow> string option \<Rightarrow> clock \<Rightarrow> memory_store \<Rightarrow> (memory_store, nat \<times> string option) outcome" where
  "memory_provider_purge scope limit after clock st =
     checked_call (validate_memory_page scope limit after) st (succeed (purge_expired_memory scope limit after clock st))"

end
