(* ===== verification/Memory_Safety.thy ===== *)
theory Memory_Safety
  imports Memory_Store
begin

text \<open>What the operations of the memory store do to the records a caller can see.\<close>

section \<open>Forgetting expired records\<close>

text \<open>
  A read may drop expired records on its way: what it leaves is the store without some records
  that were expired at that time.
\<close>

definition forgets :: "rat \<Rightarrow> memory_store \<Rightarrow> memory_store \<Rightarrow> bool" where
  "forgets now st st' \<longleftrightarrow> (\<exists>P. st' = filter P st \<and> (\<forall>p \<in> set st. \<not> P p \<longrightarrow> memory_expired now (snd p)))"

lemma forgets_refl [simp]: "forgets now st st"
  unfolding forgets_def by (rule exI [of _ "\<lambda>_. True"]) simp

lemma forgets_trans:
  assumes "forgets now a b" "forgets now b c"
  shows "forgets now a c"
proof -
  obtain P Q where "b = filter P a" "\<forall>p \<in> set a. \<not> P p \<longrightarrow> memory_expired now (snd p)"
      "c = filter Q b" "\<forall>p \<in> set b. \<not> Q p \<longrightarrow> memory_expired now (snd p)"
    using assms unfolding forgets_def by blast
  then show ?thesis
    unfolding forgets_def by (intro exI [of _ "\<lambda>p. P p \<and> Q p"]) (auto simp: conj_commute)
qed

text \<open>Every record is stored under its own scope and key.\<close>

definition memories_inv :: "memory_store \<Rightarrow> bool" where
  "memories_inv st \<longleftrightarrow> dict_ok st \<and> (\<forall>p \<in> set st. fst p = (mr_scope (snd p), mr_key (snd p)))"

lemma memories_inv_filter: "memories_inv st \<Longrightarrow> memories_inv (filter P st)"
  by (auto simp: memories_inv_def distinct_map_filter)

lemma memories_inv_forgets: "memories_inv st \<Longrightarrow> forgets now st st' \<Longrightarrow> memories_inv st'"
  by (auto simp: forgets_def intro: memories_inv_filter)

lemma memories_inv_delete: "memories_inv st \<Longrightarrow> memories_inv (AList.delete k st)"
  by (simp add: AList.delete_eq memories_inv_filter)

lemma memories_inv_update:
  "memories_inv st \<Longrightarrow> k = (mr_scope r, mr_key r) \<Longrightarrow> memories_inv (AList.update k r st)"
proof -
  have "set (AList.update k r st) \<subseteq> insert (k, r) (set st)" by (induction st) auto
  then show "memories_inv st \<Longrightarrow> k = (mr_scope r, mr_key r) \<Longrightarrow> memories_inv (AList.update k r st)"
    by (auto simp: memories_inv_def)
qed

definition memory_view :: "memory_scope \<Rightarrow> rat \<Rightarrow> memory_store \<Rightarrow> string \<Rightarrow> memory_record option" where
  "memory_view scope now st k =
     (case map_of st (scope, k) of None \<Rightarrow> None | Some r \<Rightarrow> if memory_expired now r then None else Some r)"

lemma forgets_lookup:
  assumes "dict_ok st" "forgets now st st'"
  shows "map_of st' i = map_of st i \<or>
     map_of st' i = None \<and> (\<exists>r. map_of st i = Some r \<and> memory_expired now r)"
proof -
  obtain P where P: "st' = filter P st" "\<forall>p \<in> set st. \<not> P p \<longrightarrow> memory_expired now (snd p)"
    using assms(2) unfolding forgets_def by blast
  show ?thesis
  proof (cases "map_of st i")
    case (Some r)
    then have "(i, r) \<in> set st" by (rule map_of_SomeD)
    with P(2) have "\<not> P (i, r) \<Longrightarrow> memory_expired now r" by auto
    with Some show ?thesis by (auto simp: P(1) map_of_filter_pred [OF assms(1)])
  qed (simp add: P(1) map_of_filter_pred [OF assms(1)])
qed

lemma memory_expired_mono: "memory_expired now r \<Longrightarrow> now \<le> later \<Longrightarrow> memory_expired later r"
  by (auto simp: memory_expired_def f_le_def split: option.splits) (metis less_eq_pyfloat.simps(2) order_trans)

lemma view_forgets:
  assumes "dict_ok st" "forgets now st st'" "now \<le> later"
  shows "memory_view scope later st' k = memory_view scope later st k"
  using forgets_lookup [OF assms(1,2), of "(scope, k)"] memory_expired_mono [OF _ assms(3)]
  by (auto simp: memory_view_def)

lemma live_record_spec:
  assumes "dict_ok st"
  shows "fst (live_record scope k now st) = memory_view scope now st k"
    and "forgets now st (snd (live_record scope k now st))"
    and "map_of (snd (live_record scope k now st)) (scope, k) = memory_view scope now st k"
proof -
  show "fst (live_record scope k now st) = memory_view scope now st k"
    by (simp add: live_record_def memory_view_def split: option.splits)
  show "map_of (snd (live_record scope k now st)) (scope, k) = memory_view scope now st k"
    by (simp add: live_record_def memory_view_def split: option.splits)
  show "forgets now st (snd (live_record scope k now st))"
  proof (cases "map_of st (scope, k)")
    case (Some r)
    have "forgets now st (AList.delete (scope, k) st)" if "memory_expired now r"
    proof -
      have "memory_expired now (snd p)" if "p \<in> set st" "fst p = (scope, k)" for p
        using that Some \<open>memory_expired now r\<close> eq_key_imp_eq_value [OF assms, of "(scope, k)" "snd p" r]
        by (metis map_of_SomeD prod.collapse)
      then show ?thesis
        unfolding forgets_def AList.delete_eq
        by (intro exI [of _ "\<lambda>p. (scope, k) \<noteq> fst p"]) (auto simp: case_prod_beta intro!: filter_cong)
    qed
    with Some show ?thesis by (simp add: live_record_def)
  qed (simp add: live_record_def)
qed


section \<open>Reads\<close>

definition selected :: "memory_scope \<Rightarrow> string option \<Rightarrow> string option \<Rightarrow> rat \<Rightarrow> memory_store \<Rightarrow> string \<Rightarrow> memory_record option" where
  "selected scope key query now st k =
     (if memory_matches (memory_view scope now st k) key query then memory_view scope now st k else None)"

lemma collect_matches_spec:
  assumes "dict_ok st" "int (length items) \<le> limit"
  shows "fst (collect_matches scope key query limit (\<lambda>_. now) i ks items st) =
       take (Suc (nat limit)) (items @ List.map_filter (selected scope key query now st) ks)
     \<and> forgets now st (snd (collect_matches scope key query limit (\<lambda>_. now) i ks items st))"
  using assms
proof (induction ks arbitrary: i items st)
  case Nil
  then show ?case by (simp add: map_filter_simps)
next
  case (Cons k ks)
  obtain r st1 where l: "live_record scope k now st = (r, st1)" by fastforce
  have r: "r = memory_view scope now st k" and f: "forgets now st st1"
    using live_record_spec [OF Cons.prems(1), where scope = scope and k = k and now = now] l by simp_all
  have d1: "dict_ok st1" using f Cons.prems(1) by (auto simp: forgets_def)
  have sel: "selected scope key query now st1 = selected scope key query now st"
    by (rule ext) (simp add: selected_def view_forgets [OF Cons.prems(1) f])
  let ?items = "if memory_matches r key query then items @ [the r] else items"
  have split: "items @ List.map_filter (selected scope key query now st) (k # ks) =
      ?items @ List.map_filter (selected scope key query now st) ks"
    by (cases r) (simp_all add: map_filter_simps selected_def r [symmetric] memory_matches_def)
  show ?case
  proof (cases "int (length ?items) > limit")
    case True
    then have "length ?items = Suc (nat limit)" using Cons.prems(2) by (auto split: if_splits)
    then have "take (Suc (nat limit)) (?items @ List.map_filter (selected scope key query now st) ks) = ?items"
      by simp
    with True l f show ?thesis unfolding split by (simp add: Let_def)
  next
    case False
    then have len: "int (length ?items) \<le> limit" by simp
    from Cons.IH [OF d1 len, of "Suc i"] sel
    have "fst (collect_matches scope key query limit (\<lambda>_. now) (Suc i) ks ?items st1) =
         take (Suc (nat limit)) (?items @ List.map_filter (selected scope key query now st) ks)"
      "forgets now st1 (snd (collect_matches scope key query limit (\<lambda>_. now) (Suc i) ks ?items st1))"
      by simp_all
    with False l forgets_trans [OF f] show ?thesis unfolding split by (simp add: Let_def)
  qed
qed

text \<open>The records a read looks for, in the order of their keys.\<close>

definition found :: "memory_scope \<Rightarrow> string option \<Rightarrow> string option \<Rightarrow> string option \<Rightarrow> rat \<Rightarrow> memory_store \<Rightarrow> memory_record list" where
  "found scope key query after now st = List.map_filter (selected scope key query now st) (scope_keys scope after st)"

lemma read_memory_spec:
  assumes "dict_ok st" "0 \<le> limit"
  shows "fst (read_memory scope key query limit after (\<lambda>_. now) st) =
      (take (nat limit) (found scope key query after now st),
       if int (length (found scope key query after now st)) > limit
       then Some (mr_key (found scope key query after now st ! (nat limit - 1))) else None)"
    (is "?page = ?spec")
    and "forgets now st (snd (read_memory scope key query limit after (\<lambda>_. now) st))"
proof -
  let ?c = "collect_matches scope key query limit (\<lambda>_. now) 0 (scope_keys scope after st) [] st"
  let ?f = "found scope key query after now st"
  have c: "fst ?c = take (Suc (nat limit)) ?f" "forgets now st (snd ?c)"
    using collect_matches_spec [OF assms(1), of "[]" limit] assms(2) by (simp_all add: found_def)
  then show "forgets now st (snd (read_memory scope key query limit after (\<lambda>_. now) st))"
    by (simp add: read_memory_def case_prod_beta)
  have "limit < int (min (length ?f) (Suc (nat limit))) \<longleftrightarrow> limit < int (length ?f)" using assms(2) by auto
  moreover have "nat limit - 1 < Suc (nat limit)" by simp
  ultimately show "?page = ?spec"
    using c assms(2) by (simp add: read_memory_def case_prod_beta min_def)
qed

lemma selected_key:
  assumes "memories_inv st" "selected scope key query now st k = Some r"
  shows "mr_key r = k \<and> mr_scope r = scope"
  using assms by (auto simp: selected_def memory_view_def memories_inv_def dest!: map_of_SomeD split: if_splits option.splits)

end
