(* ===== verification/Memory_Props.thy ===== *)
theory Memory_Props
  imports Memory_Safety
begin

text \<open>What the reference memory store promises to its callers.\<close>

section \<open>The store as a machine\<close>

datatype memory_event =
    PutMemory memory_record "string option" rat string rat
  | GetMemory memory_scope string clock
  | ListMemory memory_scope int "string option" clock
  | SearchMemory memory_scope string int "string option" clock
  | DeleteMemory memory_scope string "string option" rat
  | DeleteAllMemory memory_scope
  | DeleteUserMemory string string
  | PurgeMemory memory_scope int "string option" clock

fun memory_event_step :: "pylib \<Rightarrow> memory_event \<Rightarrow> memory_store \<Rightarrow> memory_store" where
  "memory_event_step lib (PutMemory r expected t revision now) st = snd (memory_provider_put lib r expected t revision now st)"
| "memory_event_step lib (GetMemory scope key clock) st = snd (memory_provider_get scope key clock st)"
| "memory_event_step lib (ListMemory scope limit after clock) st = snd (memory_provider_list scope limit after clock st)"
| "memory_event_step lib (SearchMemory scope query limit after clock) st = snd (memory_provider_search scope query limit after clock st)"
| "memory_event_step lib (DeleteMemory scope key expected now) st = snd (memory_provider_delete scope key expected now st)"
| "memory_event_step lib (DeleteAllMemory scope) st = snd (memory_provider_delete_all scope st)"
| "memory_event_step lib (DeleteUserMemory application_id user_id) st = snd (memory_provider_delete_user application_id user_id st)"
| "memory_event_step lib (PurgeMemory scope limit after clock) st = snd (memory_provider_purge scope limit after clock st)"

text \<open>An operation only drops records, or writes the one of a \<^verbatim>\<open>put\<close>.\<close>

definition drops :: "memory_store \<Rightarrow> memory_store \<Rightarrow> bool" where
  "drops st st' \<longleftrightarrow> (\<exists>P. st' = filter P st)"

lemma drops_refl [simp]: "drops st st"
  unfolding drops_def by (rule exI [of _ "\<lambda>_. True"]) simp

lemma drops_trans: "drops a b \<Longrightarrow> drops b c \<Longrightarrow> drops a c"
  by (auto simp: drops_def)

lemma drops_delete [simp]: "drops st (AList.delete k st)"
  by (auto simp: drops_def AList.delete_eq)

lemma drops_fold_delete [simp]: "drops st (fold AList.delete ks st)"
proof (induction ks arbitrary: st)
  case (Cons k ks)
  from drops_trans [OF drops_delete Cons] show ?case by simp
qed simp

lemma drops_live [simp]: "drops st (snd (live_record scope k now st))"
  by (simp add: live_record_def split: option.splits)

lemma drops_collect: "drops st (snd (collect_matches scope key query limit clock i ks items st))"
proof (induction ks arbitrary: i items st)
  case (Cons k ks)
  obtain r st1 where l: "live_record scope k (clock i) st = (r, st1)" by fastforce
  have "drops st st1" using drops_live [of st scope k "clock i"] l by simp
  from drops_trans [OF this Cons.IH] l this show ?case by (simp add: Let_def)
qed simp

lemma drops_purge: "drops st (snd (purge_keys scope clock i ks st))"
proof (induction ks arbitrary: i st)
  case (Cons k ks)
  obtain r st1 where l: "live_record scope k (clock i) st = (r, st1)" by fastforce
  have "drops st st1" using drops_live [of st scope k "clock i"] l by simp
  from drops_trans [OF this Cons.IH] l show ?case by (simp add: case_prod_beta)
qed simp

lemma drops_read: "drops st (snd (read_memory scope key query limit after clock st))"
  using drops_collect [of st scope key query limit clock 0 "scope_keys scope after st" "[]"]
  by (simp add: read_memory_def case_prod_beta)

lemma drops_delete_memory: "drops st (snd (delete_memory scope key expected now st))"
  using drops_live [of st scope key now] drops_trans [OF drops_live drops_delete]
  by (auto simp: delete_memory_def case_prod_beta split: option.splits)

lemma put_memory_cases:
  assumes "put_memory r expected now st = (x, st')"
  shows "(\<exists>e. x = Inl e \<and> drops st st') \<or>
     (\<exists>stored st1. x = Inr stored \<and> drops st st1 \<and> st' = AList.update (mr_scope r, mr_key r) stored st1 \<and>
        mr_scope stored = mr_scope r \<and> mr_key stored = mr_key r \<and> mr_revision stored = mr_revision r)"
proof -
  obtain current st1 where l: "live_record (mr_scope r) (mr_key r) now st = (current, st1)" by fastforce
  then have "drops st st1" using drops_live [of st "mr_scope r" "mr_key r" now] by simp
  with assms l show ?thesis
    by (cases current; cases "revision_check expected current") (auto simp: put_memory_def Let_def)
qed

lemma prepared_fields:
  "prepare_record lib r t revision = Inr v \<Longrightarrow> mr_scope v = mr_scope r \<and> mr_key v = mr_key r \<and> mr_revision v = revision"
  by (auto simp: prepare_record_def check_memory_metadata_def sum_bind_Inr
      split: option.splits if_splits pyval.splits sum.splits list.splits)

lemma memory_event_cases:
  "drops st (memory_event_step lib ev st) \<or>
     (\<exists>r expected t revision now stored st1. ev = PutMemory r expected t revision now \<and> drops st st1 \<and>
        memory_event_step lib ev st = AList.update (mr_scope r, mr_key r) stored st1 \<and>
        mr_scope stored = mr_scope r \<and> mr_key stored = mr_key r \<and> mr_revision stored = revision)"
proof (cases ev)
  case (PutMemory r expected t revision now)
  show ?thesis
  proof (cases "prepare_record lib r t revision")
    case (Inr v)
    obtain x st' where p: "put_memory v expected now st = (x, st')" by fastforce
    from put_memory_cases [OF p] prepared_fields [OF Inr] Inr p PutMemory show ?thesis
      by (cases "optional_revision expected")
        (auto simp: memory_provider_put_def checked_call_def protected_outcome_def)
  qed (simp add: PutMemory memory_provider_put_def)
qed (use drops_read drops_delete_memory drops_purge drops_fold_delete in
    \<open>auto simp: memory_provider_get_def memory_provider_list_def memory_provider_search_def memory_provider_delete_def memory_provider_delete_all_def
      memory_provider_delete_user_def memory_provider_purge_def checked_call_def succeed_def protected_outcome_def
      delete_all_memory_def delete_user_memory_def erase_memory_def purge_expired_memory_def Let_def
      case_prod_beta split: option.splits sum.splits\<close>)

lemma memory_event_inv: "memories_inv st \<Longrightarrow> memories_inv (memory_event_step lib ev st)"
  using memory_event_cases [of st lib ev]
  by (auto simp: drops_def intro: memories_inv_filter intro!: memories_inv_update)

interpretation memories: guarded_store "[] :: memory_store" "memory_event_step lib" "\<lambda>_. True" memories_inv for lib
  by unfold_locales (simp add: memories_inv_def, rule memory_event_inv)


section \<open>Conditional writes\<close>

definition draws :: "string \<Rightarrow> memory_event \<Rightarrow> bool" where
  "draws revision ev = (case ev of PutMemory _ _ _ drawn _ \<Rightarrow> drawn = revision | _ \<Rightarrow> False)"

definition superseded :: "memory_scope \<Rightarrow> string \<Rightarrow> string \<Rightarrow> memory_store \<Rightarrow> bool" where
  "superseded scope key revision st \<longleftrightarrow> memories_inv st \<and> (\<forall>r. map_of st (scope, key) = Some r \<longrightarrow> mr_revision r \<noteq> revision)"

lemma drops_lookup: "dict_ok st \<Longrightarrow> drops st st' \<Longrightarrow> map_of st' k = Some r \<Longrightarrow> map_of st k = Some r"
  by (auto simp: drops_def map_of_filter_pred split: option.splits if_splits)

lemma superseded_step:
  assumes "superseded scope key revision st" "\<not> draws revision ev"
  shows "superseded scope key revision (memory_event_step lib ev st)"
proof -
  have d: "dict_ok st" using assms(1) by (simp add: superseded_def memories_inv_def)
  from memory_event_cases [of st lib ev] show ?thesis
    using assms memory_event_inv [of st lib ev] drops_lookup [OF d]
    by (auto simp: superseded_def draws_def split: if_splits)
qed

lemma superseded_run:
  "superseded scope key revision st \<Longrightarrow> list_all (\<lambda>ev. \<not> draws revision ev) events \<Longrightarrow>
   superseded scope key revision (fold (memory_event_step lib) events st)"
  by (induction events arbitrary: st) (auto intro: superseded_step)

lemma superseded_conflict:
  assumes "superseded scope key revision st"
  shows "revision_check (Some revision) (fst (live_record scope key now st)) = Some (MemoryConflictError ''memory revision does not match'')"
proof -
  have "dict_ok st" using assms by (simp add: superseded_def memories_inv_def)
  then show ?thesis
    using assms by (auto simp: revision_check_def live_record_spec superseded_def memory_view_def split: option.splits)
qed

text \<open>
  C20. Conditional writes compare and swap: after a write conditional on a revision succeeded, no
  write or deletion conditional on the same revision of the same memory ever succeeds again,
  whatever happens in between, as long as that revision is not drawn again. So of two callers that
  read the same revision only one replaces it.
\<close>

theorem stale_memory_revision_fenced:
  assumes "memories_inv st" "fst (memory_provider_put lib r (Some revision) t drawn now st) = Inr stored" "drawn \<noteq> revision"
    and "list_all (\<lambda>ev. \<not> draws revision ev) events"
    and "mr_scope r' = mr_scope r" "mr_key r' = mr_key r"
  shows "let st' = fold (memory_event_step lib) events (snd (memory_provider_put lib r (Some revision) t drawn now st)) in
     (\<exists>e. fst (memory_provider_put lib r' (Some revision) t' drawn' now' st') = Inl e)
   \<and> (\<exists>e. fst (memory_provider_delete (mr_scope r) (mr_key r) (Some revision) now' st') = Inl e)"
proof -
  let ?st1 = "snd (memory_provider_put lib r (Some revision) t drawn now st)"
  let ?st' = "fold (memory_event_step lib) events ?st1"
  have inv: "memories_inv ?st1"
    using memory_event_inv [OF assms(1), of lib "PutMemory r (Some revision) t drawn now"] by simp
  obtain v st0 where v: "prepare_record lib r t drawn = Inr v" "put_memory v (Some revision) now st = (Inr stored, ?st1)"
    using assms(2)
    by (auto simp: memory_provider_put_def checked_call_def protected_outcome_def split: sum.splits option.splits prod.splits)
  then have "map_of ?st1 (mr_scope r, mr_key r) = Some stored \<and> mr_revision stored = drawn"
    using put_memory_cases [OF v(2)] prepared_fields [OF v(1)] by auto
  then have "superseded (mr_scope r) (mr_key r) revision ?st1"
    using inv assms(3) by (auto simp: superseded_def)
  then have s: "superseded (mr_scope r) (mr_key r) revision ?st'"
    by (rule superseded_run [OF _ assms(4)])
  have "\<exists>e. fst (memory_provider_put lib r' (Some revision) t' drawn' now' ?st') = Inl e"
  proof (cases "prepare_record lib r' t' drawn'")
    case (Inr v')
    have "mr_scope v' = mr_scope r" "mr_key v' = mr_key r" using prepared_fields [OF Inr] assms(5,6) by auto
    then show ?thesis
      using superseded_conflict [OF s, of now'] Inr
      by (cases "optional_revision (Some revision)")
        (auto simp: memory_provider_put_def checked_call_def protected_outcome_def put_memory_def split: prod.splits)
  qed (simp add: memory_provider_put_def)
  moreover have "\<exists>e. fst (memory_provider_delete (mr_scope r) (mr_key r) (Some revision) now' ?st') = Inl e"
    using superseded_conflict [OF s, of now']
    by (auto simp: memory_provider_delete_def checked_call_def protected_outcome_def delete_memory_def split: prod.splits option.splits)
  ultimately show ?thesis by (simp add: Let_def)
qed


definition scope_m :: memory_scope where
  "scope_m = \<lparr> ms_application_id = ''app'', ms_user_id = ''u'', ms_namespace = ''default'' \<rparr>"

definition memory_m :: memory_record where
  "memory_m = \<lparr> mr_scope = scope_m, mr_key = ''k'', mr_content = ''text'', mr_metadata = PyDict [], mr_source = PyDict [],
     mr_revision = ''r1'', mr_created_at = 1, mr_updated_at = 1, mr_expires_at = None \<rparr>"

lemma memory_m_prepared:
  "prepare_record lib memory_m 2 ''r2'' = Inr (memory_m \<lparr> mr_revision := ''r2'', mr_created_at := 2, mr_updated_at := 2 \<rparr>)"
proof -
  have j: "json_value (PyList [PyDict [], PyDict []]) = Inr (PyList [PyDict [], PyDict []])" by code_simp
  have "check_memory_metadata lib memory_m = Inr memory_m"
    using j by (simp add: check_memory_metadata_def memory_m_def string_items_def)
  moreover have "validate_scope scope_m = None"
    by (simp add: validate_scope_def scope_m_def text_field_def utf8_size_def)
  moreover have "text_field ''k'' ''key'' 256 = None" "text_field ''text'' ''content'' 65536 = None"
    by (simp_all add: text_field_def utf8_size_def)
  ultimately show ?thesis by (simp add: prepare_record_def) (simp add: memory_m_def)
qed

lemma memory_m_put:
  "\<exists>stored. fst (memory_provider_put lib memory_m (Some ''r1'') 2 ''r2'' 2 [((scope_m, ''k''), memory_m)]) = Inr stored"
proof -
  have "text_field ''r1'' ''expected_revision'' 128 = None" by (simp add: text_field_def utf8_size_def)
  then show ?thesis
    by (simp add: memory_provider_put_def memory_m_prepared checked_call_def optional_revision_def protected_outcome_def
        put_memory_def live_record_def revision_check_def Let_def) (simp add: memory_m_def memory_expired_def)
qed

theorem stale_memory_revision_fenced_witness:
  "\<exists>st' e. fst (memory_provider_put sample_lib memory_m (Some ''r1'') 3 ''r3'' 3 st') = Inl e"
proof -
  have inv: "memories_inv [((scope_m, ''k''), memory_m)]" by (simp add: memories_inv_def memory_m_def)
  obtain stored where p: "fst (memory_provider_put sample_lib memory_m (Some ''r1'') 2 ''r2'' 2 [((scope_m, ''k''), memory_m)]) = Inr stored"
    using memory_m_put by blast
  have "\<exists>e. fst (memory_provider_put sample_lib memory_m (Some ''r1'') 3 ''r3'' 3
      (snd (memory_provider_put sample_lib memory_m (Some ''r1'') 2 ''r2'' 2 [((scope_m, ''k''), memory_m)]))) = Inl e"
    using stale_memory_revision_fenced [OF inv p, of "[]" memory_m, where t' = 3 and drawn' = "''r3''" and now' = 3]
    by (simp add: Let_def)
  then show ?thesis by blast
qed


section \<open>Each scope has a map of its own\<close>


lemma distinct_scope_keys: "dict_ok st \<Longrightarrow> distinct (scope_keys scope after st)"
  by (force simp: scope_keys_def distinct_map inj_on_def case_prod_beta)

lemma set_scope_keys:
  "k \<in> set (scope_keys scope after st) \<longleftrightarrow>
     map_of st (scope, k) \<noteq> None \<and> (case after of None \<Rightarrow> True | Some a \<Rightarrow> a < k)"
proof -
  have "k \<in> set (scope_keys scope after st) \<longleftrightarrow>
      (scope, k) \<in> fst ` set st \<and> (case after of None \<Rightarrow> True | Some a \<Rightarrow> a < k)"
    by (force simp: scope_keys_def image_iff)
  then show ?thesis by (simp add: map_of_eq_None_iff)
qed






section \<open>Pages\<close>

text \<open>A reader that follows the cursors, while nobody writes and no memory expires.\<close>

fun read_pages ::
    "nat \<Rightarrow> memory_scope \<Rightarrow> string option \<Rightarrow> int \<Rightarrow> rat \<Rightarrow> string option \<Rightarrow> memory_store \<Rightarrow> memory_record list" where
  "read_pages 0 scope query limit now after st = []"
| "read_pages (Suc fuel) scope query limit now after st =
     (case read_memory scope None query limit after (\<lambda>_. now) st of
        ((items, None), st') \<Rightarrow> items
      | ((items, Some cursor), st') \<Rightarrow> items @ read_pages fuel scope query limit now (Some cursor) st')"

lemma map_filter_alt: "List.map_filter f xs = map (the \<circ> f) (filter (\<lambda>x. f x \<noteq> None) xs)"
  by (induction xs) (auto simp: map_filter_simps)

lemma found_strict:
  assumes "memories_inv st"
  shows "sorted_wrt (\<lambda>a b. mr_key a < mr_key b) (found scope key query after now st)"
proof -
  have d: "dict_ok st" using assms by (simp add: memories_inv_def)
  let ?ks = "filter (\<lambda>k. selected scope key query now st k \<noteq> None) (scope_keys scope after st)"
  have "map mr_key (found scope key query after now st) = map (\<lambda>k. mr_key (the (selected scope key query now st k))) ?ks"
    by (simp add: found_def map_filter_alt comp_def)
  also have "\<dots> = map (\<lambda>k. k) ?ks"
    by (rule map_cong [OF refl]) (use selected_key [OF assms] in auto)
  finally have "map mr_key (found scope key query after now st) = ?ks" by simp
  moreover have "sorted (scope_keys scope after st)" by (simp add: scope_keys_def)
  then have "sorted_wrt (<) ?ks"
    using distinct_scope_keys [OF d, of scope after]
    by (intro sorted_wrt_filter) (simp add: strict_sorted_iff)
  ultimately show ?thesis by (metis sorted_wrt_map)
qed

text \<open>The records after a cursor are those of the whole selection with a larger key.\<close>

lemma scope_keys_after:
  assumes "\<And>a. after = Some a \<Longrightarrow> a < c"
  shows "scope_keys scope (Some c) st = filter (\<lambda>k. c < k) (scope_keys scope after st)"
proof -
  have f: "filter (\<lambda>k. c < k) (map (snd \<circ> fst) (filter (\<lambda>((s, k), _). s = scope \<and> (case after of None \<Rightarrow> True | Some a \<Rightarrow> a < k)) st))
      = map (snd \<circ> fst) (filter (\<lambda>((s, k), _). s = scope \<and> c < k) st)"
  proof -
    have e: "(s = scope \<and> (case after of None \<Rightarrow> True | Some a \<Rightarrow> a < k)) \<and> c < k \<longleftrightarrow> s = scope \<and> c < k" for s k
      using assms by (auto split: option.splits)
    show ?thesis
      unfolding filter_map comp_def filter_filter
      by (rule arg_cong [where f = "map (\<lambda>x. snd (fst x))"], rule filter_cong [OF refl])
        (use e in \<open>auto simp: case_prod_beta conj_commute\<close>)
  qed
  have "sort (filter P xs) = filter P (sort xs)" for P and xs :: "string list"
    using filter_sort [of P "\<lambda>x. x" xs] by simp
  then show ?thesis by (simp add: scope_keys_def f [symmetric])
qed

lemma found_after:
  assumes "memories_inv st" "\<And>a. after = Some a \<Longrightarrow> a < c"
  shows "found scope key query (Some c) now st = filter (\<lambda>r. c < mr_key r) (found scope key query after now st)"
proof -
  let ?sel = "selected scope key query now st"
  have "List.map_filter ?sel (filter (\<lambda>k. c < k) ks) = filter (\<lambda>r. c < mr_key r) (List.map_filter ?sel ks)" for ks
  proof (induction ks)
    case (Cons k ks)
    then show ?case
    proof (cases "?sel k")
      case (Some r)
      then have "mr_key r = k" using selected_key [OF assms(1)] by blast
      with Some Cons show ?thesis by (simp add: map_filter_simps)
    qed (simp add: map_filter_simps)
  qed (simp add: map_filter_simps)
  moreover have "scope_keys scope (Some c) st = filter (\<lambda>k. c < k) (scope_keys scope after st)"
    by (rule scope_keys_after) (rule assms(2))
  ultimately show ?thesis by (simp add: found_def)
qed

lemma found_key_after:
  assumes "memories_inv st" "r \<in> set (found scope key query (Some a) now st)"
  shows "a < mr_key r"
proof -
  obtain k where k: "k \<in> set (scope_keys scope (Some a) st)" "selected scope key query now st k = Some r"
    using assms(2) by (auto simp: found_def map_filter_alt)
  with selected_key [OF assms(1) k(2)] show ?thesis by (simp add: set_scope_keys)
qed

text \<open>Forgetting expired records does not change what is found.\<close>

lemma found_forgets:
  assumes "memories_inv st" "forgets now st st'"
  shows "found scope key query after now st' = found scope key query after now st"
proof -
  have d: "dict_ok st" using assms by (simp add: memories_inv_def)
  note inv' = memories_inv_forgets [OF assms]
  have sel: "selected scope key query now st' = selected scope key query now st"
    by (rule ext) (simp add: selected_def view_forgets [OF d assms(2)])
  have live: "k \<in> set (scope_keys scope after s) \<and> selected scope key query now s k \<noteq> None \<longleftrightarrow>
      selected scope key query now s k \<noteq> None \<and> (case after of None \<Rightarrow> True | Some a \<Rightarrow> a < k)" for s k
    by (auto simp: set_scope_keys selected_def memory_view_def split: option.splits)
  have "set (found scope key query after now st') = set (found scope key query after now st)"
    using live [of _ st] live [of _ st'] unfolding found_def map_filter_alt sel by (auto simp: image_iff)
  moreover have "sorted_wrt (<) (map mr_key (found scope key query after now s))" if "memories_inv s" for s
    using found_strict [OF that] by (simp add: sorted_wrt_map)
  ultimately have keys: "map mr_key (found scope key query after now st') = map mr_key (found scope key query after now st)"
    using assms(1) inv' by (metis list.set_map strict_sorted_equal)
  have "map (the \<circ> selected scope key query now s \<circ> mr_key) (found scope key query after now s) = found scope key query after now s"
    if "memories_inv s" for s
    by (rule map_idI) (use selected_key [OF that] in \<open>fastforce simp: found_def map_filter_alt\<close>)
  from this [OF assms(1)] this [OF inv'] keys show ?thesis unfolding sel by (metis map_map)
qed


lemma read_pages_found:
  assumes "memories_inv st" "1 \<le> limit" "length (found scope None query after now st) < fuel"
  shows "read_pages fuel scope query limit now after st = found scope None query after now st"
  using assms(1,3)
proof (induction fuel arbitrary: after st)
  case (Suc fuel)
  let ?f = "found scope None query after now st" and ?n = "nat limit"
  have d: "dict_ok st" using Suc.prems(1) by (simp add: memories_inv_def)
  obtain items cursor st' where r: "read_memory scope None query limit after (\<lambda>_. now) st = ((items, cursor), st')"
    by (metis surj_pair)
  have page: "items = take ?n ?f" "cursor = (if int (length ?f) > limit then Some (mr_key (?f ! (?n - 1))) else None)"
    and forgot: "forgets now st st'"
    using read_memory_spec [OF d, where limit = limit and scope = scope and key = None and query = query
        and after = after and now = now] r assms(2) by simp_all
  show ?case
  proof (cases "int (length ?f) > limit")
    case False
    with r page show ?thesis by simp
  next
    case True
    let ?c = "mr_key (?f ! (?n - 1))"
    have n: "0 < ?n" "?n < length ?f" using True assms(2) by auto
    then have last: "last (take ?n ?f) = ?f ! (?n - 1)" "?f ! (?n - 1) \<in> set ?f"
      by (subst last_conv_nth) (use n in \<open>auto simp: min_def\<close>)
    have "a < ?c" if "after = Some a" for a
      using found_key_after [OF Suc.prems(1), of "?f ! (?n - 1)" scope None query a now] last that by simp
    then have "found scope None query (Some ?c) now st = filter (\<lambda>r. ?c < mr_key r) ?f"
      by (rule found_after [OF Suc.prems(1)])
    also have "\<dots> = drop ?n ?f"
      using filter_after_take [OF found_strict [OF Suc.prems(1)] n(1), of scope None query after now] n last
      by fastforce
    finally have rest: "found scope None query (Some ?c) now st' = drop ?n ?f"
      using found_forgets [OF Suc.prems(1) forgot] by simp
    have "read_pages fuel scope query limit now (Some ?c) st' = drop ?n ?f"
      using Suc.IH [OF memories_inv_forgets [OF Suc.prems(1) forgot], of "Some ?c"] rest n Suc.prems(2) by simp
    with r page True show ?thesis by simp
  qed
qed simp

text \<open>
  While nothing is written, a reader that follows the cursors of a list or a search, with any
  page size, gets exactly the live memories of the scope that match, once each, in the order of their
  keys; one call more than there are memories is always enough.
\<close>

theorem memory_pages_complete:
  assumes "memories_inv st" "1 \<le> limit" "length st < fuel"
  shows "set (read_pages fuel scope query limit now None st) =
      {r. \<exists>k. memory_view scope now st k = Some r \<and> (case query of None \<Rightarrow> True | Some q \<Rightarrow> sublist q (mr_content r))}
    \<and> sorted_wrt (\<lambda>a b. mr_key a < mr_key b) (read_pages fuel scope query limit now None st)"
proof -
  have "length (found scope None query None now st) \<le> length st"
    unfolding found_def map_filter_alt scope_keys_def
    by simp (rule order_trans [OF length_filter_le], simp)
  then have pages: "read_pages fuel scope query limit now None st = found scope None query None now st"
    using read_pages_found [OF assms(1,2)] assms(3) by simp
  have "set (found scope None query None now st) =
      {r. \<exists>k. memory_view scope now st k = Some r \<and> (case query of None \<Rightarrow> True | Some q \<Rightarrow> sublist q (mr_content r))}"
    (is "_ = ?live")
  proof -
    have sel: "selected scope None query now st k = Some r \<longleftrightarrow>
        memory_view scope now st k = Some r \<and> (case query of None \<Rightarrow> True | Some q \<Rightarrow> sublist q (mr_content r))" for k r
      by (cases "memory_view scope now st k") (auto simp: selected_def memory_matches_def)
    have "k \<in> set (scope_keys scope None st)" if "selected scope None query now st k = Some r" for k r
      using that by (auto simp: set_scope_keys sel memory_view_def split: option.splits)
    then have "set (found scope None query None now st) = {r. \<exists>k. selected scope None query now st k = Some r}"
      by (force simp: found_def map_filter_alt image_iff)
    then show ?thesis by (simp only: sel)
  qed
  with pages found_strict [OF assms(1)] show ?thesis by simp
qed

theorem memory_pages_complete_witness:
  "set (read_pages 2 scope_m None 1 5 None [((scope_m, ''k''), memory_m)]) = {memory_m}"
proof -
  have inv: "memories_inv [((scope_m, ''k''), memory_m)]" by (simp add: memories_inv_def memory_m_def)
  have "\<not> memory_expired 5 memory_m" by (simp add: memory_m_def memory_expired_def)
  then have "{r. \<exists>k. memory_view scope_m 5 [((scope_m, ''k''), memory_m)] k = Some r} = {memory_m}"
    by (auto simp: memory_view_def split: if_splits)
  with memory_pages_complete [OF inv, of 1 2 scope_m None 5] show ?thesis by simp
qed

end
