(* ===== verification/Decision_Types.thy ===== *)
theory Decision_Types
  imports Continuation_Records
begin

text \<open>
  Bounded judgments: questions, answers and the validation of both (\<^verbatim>\<open>decision_types.py\<close>,
  \<^verbatim>\<open>decision_validation.py\<close>). A dataclass with a \<^verbatim>\<open>__post_init__\<close> is a datatype or a record with a
  \<open>check_...\<close> function giving the exception its constructor raises. Numbers are Python numbers,
  an \<^verbatim>\<open>int\<close> being the float of its value; the sum of a distribution is exact.
\<close>


section \<open>Identities and numbers\<close>

datatype question_kind = ChoiceKind | ScoreKind | PredicateKind

definition decision_identity :: "string \<Rightarrow> bool" where
  "decision_identity s = matches alnum (\<lambda>c. alnum c \<or> c \<in> set ''_.-'') 63 s"

definition require_identity :: "string \<Rightarrow> exc option" where
  "require_identity value = require (decision_identity value)
     (ValueError ''decision identities require 1 to 64 letters, digits, dots, underscores or hyphens'')"

definition finite_number :: "pyfloat \<Rightarrow> pyfloat \<Rightarrow> pyfloat \<Rightarrow> exc option" where
  "finite_number value minimum maximum =
     require (isfinite value \<and> f_le minimum value \<and> f_le value maximum) (ValueError ''decision value is outside its finite range'')"

definition probability :: "pyfloat \<Rightarrow> exc option" where
  "probability value = finite_number value (Fin 0) (Fin 1)"

fun float_sum :: "pyfloat list \<Rightarrow> pyfloat" where
  "float_sum [] = Fin 0"
| "float_sum (x # xs) = f_add x (float_sum xs)"

text \<open>\<^verbatim>\<open>math.isclose(sum(values), 1, rel_tol=0, abs_tol=1e-6)\<close>\<close>

definition near_one :: "pyfloat \<Rightarrow> bool" where
  "near_one x = (case x of Fin q \<Rightarrow> \<bar>q - 1\<bar> \<le> 1 / 1000000 | _ \<Rightarrow> False)"

definition distribution :: "pyfloat list \<Rightarrow> exc option" where
  "distribution values = check_all (map probability values @
     [require (near_one (float_sum values)) (ValueError ''decision probabilities must sum to one'')])"


section \<open>Questions\<close>

datatype question =
    Choice (question_name: string) string "(string \<times> string) list"
  | Score (question_name: string) string "string list"
  | Predicate (question_name: string) string

definition check_identity :: "string \<Rightarrow> string \<Rightarrow> exc option" where
  "check_identity name instructions = check_all
     [require_identity name, require (\<not> blank instructions) (ValueError ''decision question instructions must be nonempty text'')]"

fun check_question :: "question \<Rightarrow> exc option" where
  "check_question (Choice name instructions options) = check_all
     [check_identity name instructions,
      require (2 \<le> length options) (ValueError ''choice questions require at least two options''),
      check_all (map (\<lambda>(key, description). require_identity key) options)]"
| "check_question (Score name instructions levels) = check_all
     [check_identity name instructions,
      require (2 \<le> length levels) (ValueError ''score questions require a tuple of at least two levels''),
      require (\<forall>level \<in> set levels. \<not> blank level) (ValueError ''score levels must be nonempty text''),
      require (distinct levels) (ValueError ''score levels must be distinct'')]"
| "check_question (Predicate name instructions) = check_identity name instructions"

fun kind_of :: "question \<Rightarrow> question_kind" where
  "kind_of (Choice _ _ _) = ChoiceKind"
| "kind_of (Score _ _ _) = ScoreKind"
| "kind_of (Predicate _ _) = PredicateKind"

record decision_definition =
  dd_name :: string
  dd_version :: string
  dd_questions :: "question list"

definition check_definition :: "decision_definition \<Rightarrow> exc option" where
  "check_definition d = check_all
     [require_identity (dd_name d), require_identity (dd_version d),
      require (dd_questions d \<noteq> []) (ValueError ''decisions require a nonempty tuple of questions''),
      require (distinct (map question_name (dd_questions d))) (ValueError ''decision question names must be unique'')]"


section \<open>The state of a request\<close>

text \<open>
  The caller's value before it is frozen: each container has its identity, so that a container
  inside itself is a path on which an identity repeats.
\<close>

datatype live_value =
    Leaf pyval
  | Sequence nat "live_value list"
  | Table nat "(pyval \<times> live_value) list"

fun is_string :: "pyval \<Rightarrow> bool" where
  "is_string (PyStr _) = True"
| "is_string _ = False"

definition freeze_leaf :: "pyval \<Rightarrow> exc + pyval" where
  "freeze_leaf v = (case v of
     PyFloat x \<Rightarrow> (case finite_number x NegInf PosInf of Some e \<Rightarrow> Inl e | None \<Rightarrow> Inr v)
   | PyNone \<Rightarrow> Inr v | PyBool _ \<Rightarrow> Inr v | PyInt _ \<Rightarrow> Inr v | PyStr _ \<Rightarrow> Inr v
   | _ \<Rightarrow> Inl (TypeError ''decision state must contain only JSON-compatible values''))"

fun freeze_state :: "nat set \<Rightarrow> live_value \<Rightarrow> exc + pyval"
  and freeze_items :: "nat set \<Rightarrow> live_value list \<Rightarrow> exc + pyval list"
  and freeze_mapping :: "nat set \<Rightarrow> (pyval \<times> live_value) list \<Rightarrow> exc + (pyval \<times> pyval) list" where
  "freeze_state parents (Leaf v) = freeze_leaf v"
| "freeze_state parents (Sequence i items) =
     (if i \<in> parents then Inl (ValueError ''decision state cannot contain cycles'')
      else sum_bind (freeze_items (insert i parents) items) (\<lambda>vs. Inr (PyTuple vs)))"
| "freeze_state parents (Table i entries) =
     (if i \<in> parents then Inl (ValueError ''decision state cannot contain cycles'')
      else if \<not> list_all (\<lambda>(key, _). is_string key) entries then Inl (TypeError ''decision state keys must be strings'')
      else sum_bind (freeze_mapping (insert i parents) entries) (\<lambda>kvs. Inr (PyDict kvs)))"
| "freeze_items parents [] = Inr []"
| "freeze_items parents (v # vs) =
     sum_bind (freeze_state parents v) (\<lambda>w. sum_bind (freeze_items parents vs) (\<lambda>ws. Inr (w # ws)))"
| "freeze_mapping parents [] = Inr []"
| "freeze_mapping parents ((key, v) # entries) =
     sum_bind (freeze_state parents v) (\<lambda>w. sum_bind (freeze_mapping parents entries) (\<lambda>kvs. Inr ((key, w) # kvs)))"

record decision_request =
  dr_definition :: decision_definition
  dr_state :: pyval

definition make_request :: "decision_definition \<Rightarrow> live_value \<Rightarrow> exc + decision_request" where
  "make_request d state = (case state of
     Table _ _ \<Rightarrow> sum_bind (freeze_state {} state) (\<lambda>frozen. Inr \<lparr> dr_definition = d, dr_state = frozen \<rparr>)
   | _ \<Rightarrow> Inl (TypeError ''decision state must be a mapping''))"


section \<open>Answers\<close>

datatype answer =
    ChoiceResult string "(string \<times> pyfloat) list option" "pyfloat option"
  | ScoreResult pyfloat "pyfloat list option" "pyfloat option"
  | PredicateResult pyfloat

fun answer_probabilities :: "answer \<Rightarrow> bool" where
  "answer_probabilities (ChoiceResult _ p _) = (p \<noteq> None)"
| "answer_probabilities (ScoreResult _ p _) = (p \<noteq> None)"
| "answer_probabilities (PredicateResult _) = False"

fun answer_confidence :: "answer \<Rightarrow> bool" where
  "answer_confidence (ChoiceResult _ _ c) = (c \<noteq> None)"
| "answer_confidence (ScoreResult _ _ c) = (c \<noteq> None)"
| "answer_confidence (PredicateResult _) = False"

definition optional :: "('a \<Rightarrow> exc option) \<Rightarrow> 'a option \<Rightarrow> exc option" where
  "optional check value = (case value of None \<Rightarrow> None | Some v \<Rightarrow> check v)"

fun check_answer :: "answer \<Rightarrow> exc option" where
  "check_answer (ChoiceResult value probabilities confidence) = check_all
     [require_identity value, optional (\<lambda>p. distribution (map snd p)) probabilities, optional probability confidence]"
| "check_answer (ScoreResult value probabilities confidence) = check_all
     [finite_number value (Fin 0) PosInf, optional distribution probabilities, optional probability confidence]"
| "check_answer (PredicateResult p) = probability p"

type_synonym response = "(string \<times> answer) list"

definition check_response :: "response \<Rightarrow> exc option" where
  "check_response answers = check_all (map (\<lambda>(key, _). require_identity key) answers)"

record capabilities =
  cp_kinds :: "question_kind set"
  cp_batching :: bool
  cp_probabilities :: bool
  cp_confidence :: bool

definition check_capabilities :: "capabilities \<Rightarrow> exc option" where
  "check_capabilities c = require (cp_kinds c \<noteq> {}) (TypeError ''provider kinds must be a nonempty frozenset'')"


section \<open>Validation\<close>

definition validate_capabilities :: "decision_definition \<Rightarrow> capabilities \<Rightarrow> exc option" where
  "validate_capabilities d c = check_all
     [require (\<forall>q \<in> set (dd_questions d). kind_of q \<in> cp_kinds c)
        (ValueError ''decision provider does not support every declared question kind''),
      require (length (dd_questions d) \<le> 1 \<or> cp_batching c) (ValueError ''decision provider does not support batched questions'')]"

definition validate_choice :: "(string \<times> string) list \<Rightarrow> answer \<Rightarrow> exc option" where
  "validate_choice options a = (case a of
     ChoiceResult value probabilities _ \<Rightarrow> check_all
       [require (value \<in> fst ` set options) (DecisionValidationError ''choice result is outside the declared answer space''),
        optional (\<lambda>p. require (fst ` set p = fst ` set options)
          (DecisionValidationError ''choice distribution must cover exactly the declared options'')) probabilities]
   | _ \<Rightarrow> Some (DecisionValidationError ''choice result is outside the declared answer space''))"

definition validate_score :: "string list \<Rightarrow> answer \<Rightarrow> exc option" where
  "validate_score levels a = (case a of
     ScoreResult value probabilities _ \<Rightarrow> check_all
       [require (f_le (Fin 0) value \<and> f_le value (Fin (of_nat (length levels - 1))))
          (DecisionValidationError ''score result is outside the declared rubric''),
        optional (\<lambda>p. require (length p = length levels)
          (DecisionValidationError ''score distribution must cover exactly the declared levels'')) probabilities]
   | _ \<Rightarrow> Some (DecisionValidationError ''score result is outside the declared rubric''))"

definition validate_answer :: "question \<Rightarrow> answer \<Rightarrow> exc option" where
  "validate_answer q a = (case q of
     Choice _ _ options \<Rightarrow> validate_choice options a
   | Score _ _ levels \<Rightarrow> validate_score levels a
   | Predicate _ _ \<Rightarrow> (case a of PredicateResult _ \<Rightarrow> None
       | _ \<Rightarrow> Some (DecisionValidationError ''predicate questions require PredicateResult'')))"

definition validate_answer_metadata :: "answer \<Rightarrow> capabilities \<Rightarrow> exc option" where
  "validate_answer_metadata a c = (case a of
     PredicateResult _ \<Rightarrow> None
   | _ \<Rightarrow> check_all
       [require (answer_probabilities a = cp_probabilities c)
          (DecisionValidationError ''provider probabilities does not match its declared capabilities''),
        require (answer_confidence a = cp_confidence c)
          (DecisionValidationError ''provider confidence does not match its declared capabilities'')])"

definition validate_question :: "response \<Rightarrow> capabilities \<Rightarrow> question \<Rightarrow> exc option" where
  "validate_question answers c q = (case map_of answers (question_name q) of
     None \<Rightarrow> Some (KeyError (question_name q))
   | Some a \<Rightarrow> check_all [validate_answer q a, validate_answer_metadata a c])"

definition validate_response :: "decision_definition \<Rightarrow> response \<Rightarrow> capabilities \<Rightarrow> exc option" where
  "validate_response d answers c = check_all
     (require (fst ` set answers = question_name ` set (dd_questions d))
        (DecisionValidationError ''provider must answer exactly the requested questions'')
      # map (validate_question answers c) (dd_questions d))"

end
