(* ===== verification/Decision_Runtime.thy ===== *)
theory Decision_Runtime
  imports Decision_Types
begin

text \<open>
  Decision policies (\<^verbatim>\<open>decision_policy.py\<close>), the registry and the bounded evaluation of one decision
  (\<^verbatim>\<open>decision_runtime.py\<close>), and the output of disclosed results (\<^verbatim>\<open>decision_output.py\<close>). A provider
  is what its client does with a request: an answer, a value of another class, an exception, the
  deadline, or the cancellation of the caller. Constructors check in Python, so a value of one of
  these classes satisfies its check; \<open>built_...\<close> says so.
\<close>


section \<open>Policies\<close>

datatype decision_action = Route | Proceed | Block | Review | Reason | Abstain

record decision_outcome =
  do_action :: decision_action
  do_route :: "string option"

definition check_outcome :: "decision_outcome \<Rightarrow> exc option" where
  "check_outcome branch = (if do_action branch = Route
     then (case do_route branch of
             None \<Rightarrow> Some (ValueError ''decision identities require 1 to 64 letters, digits, dots, underscores or hyphens'')
           | Some r \<Rightarrow> require_identity r)
     else require (do_route branch = None) (ValueError ''only route outcomes may have a destination''))"

record choice_policy =
  cy_question :: string
  cy_routes :: "(string \<times> decision_outcome) list"
  cy_minimum_confidence :: "pyfloat option"
  cy_uncertain :: decision_outcome

definition check_choice_policy :: "choice_policy \<Rightarrow> exc option" where
  "check_choice_policy p = check_all
     [require_identity (cy_question p),
      require (cy_routes p \<noteq> []) (ValueError ''choice policy requires routes''),
      check_all (map (\<lambda>(key, _). require_identity key) (cy_routes p)),
      optional probability (cy_minimum_confidence p)]"

record threshold_policy =
  ty_question :: string
  ty_lower :: pyfloat
  ty_upper :: pyfloat
  ty_below :: decision_outcome
  ty_above :: decision_outcome
  ty_uncertain :: decision_outcome

definition check_threshold_policy :: "threshold_policy \<Rightarrow> exc option" where
  "check_threshold_policy p = check_all
     [require_identity (ty_question p),
      finite_number (ty_lower p) (Fin 0) PosInf, finite_number (ty_upper p) (Fin 0) PosInf,
      require (f_lt (ty_lower p) (ty_upper p)) (ValueError ''decision lower threshold must be less than upper'')]"

definition find_question :: "decision_definition \<Rightarrow> string \<Rightarrow> exc + question" where
  "find_question d name = (case find (\<lambda>q. question_name q = name) (dd_questions d) of
     Some q \<Rightarrow> Inr q | None \<Rightarrow> Inl (ValueError ''decision policy references an unknown question''))"

definition validate_choice_policy :: "choice_policy \<Rightarrow> decision_definition \<Rightarrow> capabilities \<Rightarrow> exc option" where
  "validate_choice_policy p d c = (case find_question d (cy_question p) of
     Inl e \<Rightarrow> Some e
   | Inr q \<Rightarrow> check_all
       [require (case q of Choice _ _ options \<Rightarrow> fst ` set (cy_routes p) = fst ` set options | _ \<Rightarrow> False)
          (ValueError ''choice policy routes must cover exactly the question options''),
        require (cy_minimum_confidence p = None \<or> cp_confidence c)
          (ValueError ''choice policy requires a provider with native confidence'')])"

definition validate_threshold_policy :: "threshold_policy \<Rightarrow> decision_definition \<Rightarrow> capabilities \<Rightarrow> exc option" where
  "validate_threshold_policy p d c = (case find_question d (ty_question p) of
     Inl e \<Rightarrow> Some e
   | Inr (Choice _ _ _) \<Rightarrow> Some (ValueError ''threshold policies require Score or Predicate questions'')
   | Inr (Score _ _ levels) \<Rightarrow> finite_number (ty_upper p) NegInf (Fin (of_nat (length levels - 1)))
   | Inr (Predicate _ _) \<Rightarrow> finite_number (ty_upper p) NegInf (Fin 1))"

definition apply_choice_policy :: "choice_policy \<Rightarrow> response \<Rightarrow> exc + decision_outcome" where
  "apply_choice_policy p answers = (case map_of answers (cy_question p) of
     None \<Rightarrow> Inl (KeyError (cy_question p))
   | Some (ChoiceResult value _ confidence) \<Rightarrow>
       if (case cy_minimum_confidence p of None \<Rightarrow> False
           | Some minimum \<Rightarrow> (case confidence of None \<Rightarrow> True | Some c \<Rightarrow> f_lt c minimum))
       then Inr (cy_uncertain p)
       else (case map_of (cy_routes p) value of None \<Rightarrow> Inl (KeyError value) | Some branch \<Rightarrow> Inr branch)
   | Some _ \<Rightarrow> Inl (TypeError ''choice policy requires ChoiceResult''))"

definition apply_threshold_policy :: "threshold_policy \<Rightarrow> response \<Rightarrow> exc + decision_outcome" where
  "apply_threshold_policy p answers = (case map_of answers (ty_question p) of
     None \<Rightarrow> Inl (KeyError (ty_question p))
   | Some (ChoiceResult _ _ _) \<Rightarrow> Inl (TypeError ''threshold policy requires ScoreResult or PredicateResult'')
   | Some a \<Rightarrow> (let value = (case a of PredicateResult p' \<Rightarrow> p' | ScoreResult v _ _ \<Rightarrow> v | ChoiceResult _ _ _ \<Rightarrow> NaN) in
       Inr (if f_le value (ty_lower p) then ty_below p
            else if f_le (ty_upper p) value then ty_above p else ty_uncertain p)))"

datatype policy = ByChoice choice_policy | ByThreshold threshold_policy

definition validate_policy :: "policy \<Rightarrow> decision_definition \<Rightarrow> capabilities \<Rightarrow> exc option" where
  "validate_policy p = (case p of ByChoice c \<Rightarrow> validate_choice_policy c | ByThreshold t \<Rightarrow> validate_threshold_policy t)"

definition apply_policy :: "policy \<Rightarrow> response \<Rightarrow> exc + decision_outcome" where
  "apply_policy p = (case p of ByChoice c \<Rightarrow> apply_choice_policy c | ByThreshold t \<Rightarrow> apply_threshold_policy t)"

record decision_binding =
  db_definition :: decision_definition
  db_provider :: string
  db_policy :: "policy option"
  db_on_error :: "decision_outcome option"

definition check_binding :: "decision_binding \<Rightarrow> exc option" where
  "check_binding b = check_all
     [require_identity (db_provider b),
      optional (\<lambda>branch. require (do_action branch \<in> {Abstain, Block, Review, Reason})
        (ValueError ''decision failures may only abstain, block, review or request reasoning'')) (db_on_error b)]"


section \<open>The registry\<close>

datatype provider_result =
    Answered response
  | OtherValue
  | TimedOut
  | ProviderFailed
  | CallerCancelled

record decision_provider =
  dp_evaluate :: "decision_request \<Rightarrow> provider_result"
  dp_capabilities :: capabilities
  dp_version :: string

type_synonym providers = "(string \<times> decision_provider) list"

definition check_providers :: "providers \<Rightarrow> exc option" where
  "check_providers values = check_all (map (\<lambda>(name, provider).
     check_all [require_identity name, require_identity (dp_version provider)]) values)"

definition check_registration :: "providers \<Rightarrow> decision_binding \<Rightarrow> (string \<times> decision_binding) list \<Rightarrow> exc option" where
  "check_registration providers b registered =
     (if map_of registered (dd_name (db_definition b)) \<noteq> None then Some (ValueError ''decision names must be unique'')
      else case map_of providers (db_provider b) of
        None \<Rightarrow> Some (ValueError ''decision binding references an unknown provider'')
      | Some provider \<Rightarrow> check_all
          [validate_capabilities (db_definition b) (dp_capabilities provider),
           optional (\<lambda>p. validate_policy p (db_definition b) (dp_capabilities provider)) (db_policy b)])"

fun register_bindings ::
    "providers \<Rightarrow> decision_binding list \<Rightarrow> (string \<times> decision_binding) list \<Rightarrow> exc + (string \<times> decision_binding) list" where
  "register_bindings providers [] registered = Inr registered"
| "register_bindings providers (b # bindings) registered =
     (case check_registration providers b registered of
        Some e \<Rightarrow> Inl e
      | None \<Rightarrow> register_bindings providers bindings (AList.update (dd_name (db_definition b)) b registered))"

record decisions =
  dn_timeout :: pyfloat
  dn_providers :: providers
  dn_bindings :: "(string \<times> decision_binding) list"

definition make_decisions :: "providers \<Rightarrow> decision_binding list \<Rightarrow> pyfloat \<Rightarrow> exc + decisions" where
  "make_decisions providers bindings timeout =
     (case check_all [finite_number timeout (Fin 0) PosInf,
        require (\<not> f_eq timeout (Fin 0)) (ValueError ''decision timeout must be positive''), check_providers providers] of
        Some e \<Rightarrow> Inl e
      | None \<Rightarrow> sum_bind (register_bindings providers bindings [])
          (\<lambda>registered. Inr \<lparr> dn_timeout = timeout, dn_providers = providers, dn_bindings = registered \<rparr>))"


section \<open>One evaluation\<close>

record decision_evaluation =
  de_decision :: string
  de_version :: string
  de_provider :: string
  de_provider_version :: string
  de_response :: "response option"
  de_outcome :: "decision_outcome option"
  de_duration_seconds :: rat
  de_error :: "string option"

text \<open>\<^verbatim>\<open>_call\<close>: cancellation is raised, everything else becomes an answer or a public error.\<close>

definition call_provider :: "decision_provider \<Rightarrow> decision_request \<Rightarrow> exc + response option \<times> exc option" where
  "call_provider provider request = (case dp_evaluate provider request of
     CallerCancelled \<Rightarrow> Inl (CancelledError '''')
   | TimedOut \<Rightarrow> Inr (None, Some (DecisionTimeoutError ''decision evaluation timed out''))
   | ProviderFailed \<Rightarrow> Inr (None, Some (DecisionProviderError ''decision provider evaluation failed''))
   | OtherValue \<Rightarrow> Inr (None, Some (DecisionValidationError ''decision provider returned an invalid response''))
   | Answered answers \<Rightarrow>
       (case validate_response (dr_definition request) answers (dp_capabilities provider) of
          None \<Rightarrow> Inr (Some answers, None)
        | Some (DecisionValidationError _) \<Rightarrow>
            Inr (None, Some (DecisionValidationError ''decision provider returned an invalid response''))
        | Some e \<Rightarrow> Inl e))"

definition error_category :: "exc option \<Rightarrow> exc + string option" where
  "error_category error = (case error of
     None \<Rightarrow> Inr None
   | Some (DecisionTimeoutError _) \<Rightarrow> Inr (Some ''timeout'')
   | Some (DecisionProviderError _) \<Rightarrow> Inr (Some ''provider_error'')
   | Some (DecisionValidationError _) \<Rightarrow> Inr (Some ''invalid_response'')
   | Some _ \<Rightarrow> Inl (KeyError ''error category''))"

definition evaluate_binding :: "decisions \<Rightarrow> decision_binding \<Rightarrow> live_value \<Rightarrow> rat \<Rightarrow> exc + decision_evaluation" where
  "evaluate_binding dn b state duration =
     sum_bind (make_request (db_definition b) state) (\<lambda>request.
     case map_of (dn_providers dn) (db_provider b) of
       None \<Rightarrow> Inl (KeyError (db_provider b))
     | Some provider \<Rightarrow>
         sum_bind (call_provider provider request) (\<lambda>(answers, error).
         sum_bind (error_category error) (\<lambda>category.
         sum_bind (case error of
             Some e \<Rightarrow> (case db_on_error b of None \<Rightarrow> Inl e | Some branch \<Rightarrow> Inr (Some branch))
           | None \<Rightarrow> (case db_policy b of None \<Rightarrow> Inr None
               | Some p \<Rightarrow> sum_bind (apply_policy p (case answers of None \<Rightarrow> [] | Some r \<Rightarrow> r)) (\<lambda>branch. Inr (Some branch))))
           (\<lambda>result. Inr \<lparr> de_decision = dd_name (db_definition b), de_version = dd_version (db_definition b),
              de_provider = db_provider b, de_provider_version = dp_version provider, de_response = answers,
              de_outcome = result, de_duration_seconds = duration, de_error = category \<rparr>))))"

definition evaluate :: "decisions \<Rightarrow> string \<Rightarrow> live_value \<Rightarrow> rat \<Rightarrow> exc + decision_evaluation" where
  "evaluate dn name state duration =
     (case require_identity name of
        Some e \<Rightarrow> Inl e
      | None \<Rightarrow> (case map_of (dn_bindings dn) name of
          None \<Rightarrow> Inl (KeyError ''decision is not registered'')
        | Some b \<Rightarrow> evaluate_binding dn b state duration))"

definition evaluate_definition ::
    "decisions \<Rightarrow> decision_definition \<Rightarrow> live_value \<Rightarrow> string option \<Rightarrow> rat \<Rightarrow> exc + decision_evaluation" where
  "evaluate_definition dn d state provider duration =
     sum_bind (case provider of
         Some name \<Rightarrow> Inr name
       | None \<Rightarrow> (case dn_providers dn of [(name, _)] \<Rightarrow> Inr name
           | _ \<Rightarrow> Inl (ValueError ''choose a provider when the registry does not contain exactly one''))) (\<lambda>name.
     let b = \<lparr> db_definition = d, db_provider = name, db_policy = None, db_on_error = None \<rparr> in
     case check_binding b of
       Some e \<Rightarrow> Inl e
     | None \<Rightarrow> sum_bind (register_bindings (dn_providers dn) [b] []) (\<lambda>_. evaluate_binding dn b state duration))"


section \<open>Disclosed results\<close>

definition action_text :: "decision_action \<Rightarrow> string" where
  "action_text a = (case a of Route \<Rightarrow> ''route'' | Proceed \<Rightarrow> ''proceed'' | Block \<Rightarrow> ''block''
     | Review \<Rightarrow> ''review'' | Reason \<Rightarrow> ''reason'' | Abstain \<Rightarrow> ''abstain'')"

definition float_or_none :: "pyfloat option \<Rightarrow> pyval" where
  "float_or_none x = (case x of None \<Rightarrow> PyNone | Some f \<Rightarrow> PyFloat f)"

definition text_or_none :: "string option \<Rightarrow> pyval" where
  "text_or_none x = (case x of None \<Rightarrow> PyNone | Some s \<Rightarrow> PyStr s)"

fun answer_value :: "answer \<Rightarrow> pyval" where
  "answer_value (PredicateResult p) = PyDict [(PyStr ''kind'', PyStr ''predicate''), (PyStr ''probability'', PyFloat p)]"
| "answer_value (ChoiceResult value probabilities confidence) = PyDict
     ([(PyStr ''kind'', PyStr ''choice''), (PyStr ''value'', PyStr value), (PyStr ''confidence'', float_or_none confidence)] @
      (case probabilities of None \<Rightarrow> []
       | Some p \<Rightarrow> [(PyStr ''probabilities'', PyDict (map (\<lambda>(k, x). (PyStr k, PyFloat x)) p))]))"
| "answer_value (ScoreResult value probabilities confidence) = PyDict
     ([(PyStr ''kind'', PyStr ''score''), (PyStr ''value'', PyFloat value), (PyStr ''confidence'', float_or_none confidence)] @
      (case probabilities of None \<Rightarrow> [] | Some p \<Rightarrow> [(PyStr ''probabilities'', PyList (map PyFloat p))]))"

definition evaluation_value :: "decision_evaluation \<Rightarrow> pyval" where
  "evaluation_value ev = PyDict
     [(PyStr ''decision'', PyStr (de_decision ev)),
      (PyStr ''version'', PyStr (de_version ev)),
      (PyStr ''provider'', PyStr (de_provider ev)),
      (PyStr ''providerVersion'', PyStr (de_provider_version ev)),
      (PyStr ''answers'', (case de_response ev of None \<Rightarrow> PyNone
         | Some answers \<Rightarrow> PyDict (map (\<lambda>(name, a). (PyStr name, answer_value a)) answers))),
      (PyStr ''outcome'', (case de_outcome ev of None \<Rightarrow> PyNone
         | Some branch \<Rightarrow> PyDict [(PyStr ''action'', PyStr (action_text (do_action branch))), (PyStr ''route'', text_or_none (do_route branch))])),
      (PyStr ''durationSeconds'', PyFloat (Fin (de_duration_seconds ev))),
      (PyStr ''error'', text_or_none (de_error ev))]"

record decision_output =
  ou_enabled :: bool
  ou_events :: "pyval list"

definition record_result :: "decision_evaluation \<Rightarrow> string \<Rightarrow> decision_output \<Rightarrow> decision_output" where
  "record_result ev agent q =
     (if ou_enabled q then q \<lparr> ou_events := ou_events q @ [PyDict
        [(PyStr ''type'', PyStr ''decision_result''), (PyStr ''agent'', PyStr agent), (PyStr ''value'', evaluation_value ev)]] \<rparr>
      else q)"

definition drain_output :: "decision_output \<Rightarrow> pyval list \<times> decision_output" where
  "drain_output q = (ou_events q, q \<lparr> ou_events := [] \<rparr>)"

text \<open>
  The stream of an invocation: each advance of the native iterator first records the judgments made
  meanwhile and then gives an event, the last one ends it. The result is what a consumer that takes
  everything is given, with the queue that is left.
\<close>

definition record_all :: "(decision_evaluation \<times> string) list \<Rightarrow> decision_output \<Rightarrow> decision_output" where
  "record_all made q = fold (\<lambda>(ev, agent). record_result ev agent) made q"

fun stream_events ::
    "((decision_evaluation \<times> string) list \<times> pyval) list \<Rightarrow> (decision_evaluation \<times> string) list \<Rightarrow> decision_output \<Rightarrow>
     pyval list \<times> decision_output" where
  "stream_events [] final q = drain_output (record_all final q)"
| "stream_events ((made, event) # rest) final q =
     (case drain_output (record_all made q) of
        (judgments, q1) \<Rightarrow> (case stream_events rest final q1 of
          (given, q2) \<Rightarrow> (judgments @ event # given, q2)))"

text \<open>\<^verbatim>\<open>DecisionContext.evaluate\<close>: the scope is tested before the evaluation and again after it.\<close>

definition require_scope :: "bool \<Rightarrow> bool \<Rightarrow> exc option" where
  "require_scope active is_current = check_all
     [require active (ContextUnavailableError ''context is no longer active''),
      require is_current (ContextUnavailableError ''decision access belongs to the invocation and agent that obtained it'')]"

definition context_evaluate ::
    "decisions \<Rightarrow> string \<Rightarrow> string \<Rightarrow> live_value \<Rightarrow> rat \<Rightarrow> bool \<times> bool \<Rightarrow> bool \<times> bool \<Rightarrow> decision_output \<Rightarrow>
     (decision_output, decision_evaluation) outcome" where
  "context_evaluate dn agent name state duration before after q =
     (case require_scope (fst before) (snd before) of
        Some e \<Rightarrow> (Inl e, q)
      | None \<Rightarrow> (case evaluate dn name state duration of
          Inl e \<Rightarrow> (Inl e, q)
        | Inr ev \<Rightarrow> (case require_scope (fst after) (snd after) of
            Some e \<Rightarrow> (Inl e, q)
          | None \<Rightarrow> (Inr ev, record_result ev agent q))))"

end
