(* ===== verification/Decision_Props.thy ===== *)
theory Decision_Props
  imports Decision_Runtime
begin

text \<open>
  A registered policy is total on validated answers, a failed evaluation authorizes nothing, and
  each disclosed judgment is given to the consumer once.
\<close>

section \<open>Policies are total on validated answers\<close>

fun policy_branches :: "policy \<Rightarrow> decision_outcome set" where
  "policy_branches (ByChoice p) = insert (cy_uncertain p) (snd ` set (cy_routes p))"
| "policy_branches (ByThreshold p) = {ty_below p, ty_above p, ty_uncertain p}"

lemma require_Some [simp]: "require ok e = Some e' \<longleftrightarrow> \<not> ok \<and> e' = e"
  and Some_require [simp]: "Some e' = require ok e \<longleftrightarrow> \<not> ok \<and> e' = e"
  by (auto simp: require_def)

lemma find_question_member:
  "find_question d name = Inr q \<Longrightarrow> q \<in> set (dd_questions d) \<and> question_name q = name"
  by (auto simp: find_question_def find_Some_iff split: option.splits)

lemma validated_answer:
  assumes "validate_response d answers c = None" "q \<in> set (dd_questions d)"
  shows "\<exists>a. map_of answers (question_name q) = Some a \<and> validate_answer q a = None"
  using assms by (fastforce simp: validate_response_def validate_question_def split: option.splits)

lemma choice_policy_total:
  assumes "validate_choice_policy p d c = None" "validate_response d answers c = None"
  shows "\<exists>branch \<in> policy_branches (ByChoice p). apply_choice_policy p answers = Inr branch"
proof -
  obtain q where q: "find_question d (cy_question p) = Inr q"
    using assms(1) by (auto simp: validate_choice_policy_def split: sum.splits)
  with assms(1) obtain name instructions options where c: "q = Choice name instructions options"
      "fst ` set (cy_routes p) = fst ` set options"
    by (cases q) (auto simp: validate_choice_policy_def)
  obtain a where a: "map_of answers (cy_question p) = Some a" "validate_answer q a = None"
    using validated_answer [OF assms(2)] find_question_member [OF q] by metis
  then obtain v probabilities confidence where r: "a = ChoiceResult v probabilities confidence" "v \<in> fst ` set options"
    using c by (cases a) (auto simp: validate_answer_def validate_choice_def)
  then obtain branch where "map_of (cy_routes p) v = Some branch" using c(2) by (metis map_of_eq_None_iff not_Some_eq)
  moreover from this have "branch \<in> snd ` set (cy_routes p)" by (force dest: map_of_SomeD)
  ultimately show ?thesis using a(1) r(1) by (auto simp: apply_choice_policy_def)
qed

lemma threshold_policy_total:
  assumes "validate_threshold_policy p d c = None" "validate_response d answers c = None"
  shows "\<exists>branch \<in> policy_branches (ByThreshold p). apply_threshold_policy p answers = Inr branch"
proof -
  obtain q where q: "find_question d (ty_question p) = Inr q"
    using assms(1) by (auto simp: validate_threshold_policy_def split: sum.splits)
  obtain a where a: "map_of answers (ty_question p) = Some a" "validate_answer q a = None"
    using validated_answer [OF assms(2)] find_question_member [OF q] by metis
  have "\<not> (\<exists>v pr cf. a = ChoiceResult v pr cf)"
    using assms(1) q a(2)
    by (cases q; cases a) (auto simp: validate_threshold_policy_def validate_answer_def validate_score_def)
  then show ?thesis using a(1) by (cases a) (auto simp: apply_threshold_policy_def Let_def)
qed

lemma policy_total:
  assumes "validate_policy p d c = None" "validate_response d answers c = None"
  shows "\<exists>branch \<in> policy_branches p. apply_policy p answers = Inr branch"
  using assms choice_policy_total threshold_policy_total
  by (cases p) (auto simp: validate_policy_def apply_policy_def simp del: policy_branches.simps)


section \<open>Registration\<close>

definition registered_ok :: "providers \<Rightarrow> decision_binding \<Rightarrow> bool" where
  "registered_ok providers b \<longleftrightarrow> (\<exists>provider. map_of providers (db_provider b) = Some provider \<and>
     (\<forall>p. db_policy b = Some p \<longrightarrow> validate_policy p (db_definition b) (dp_capabilities provider) = None))"

lemma check_registration_ok: "check_registration providers b registered = None \<Longrightarrow> registered_ok providers b"
  by (auto simp: check_registration_def registered_ok_def optional_def split: if_splits option.splits)

lemma register_bindings_spec:
  assumes "register_bindings providers bindings registered = Inr result" "map_of result name = Some b"
  shows "map_of registered name = Some b \<or>
    (b \<in> set bindings \<and> dd_name (db_definition b) = name \<and> registered_ok providers b)"
  using assms
proof (induction bindings arbitrary: registered)
  case (Cons b' bindings)
  then have "check_registration providers b' registered = None"
      "register_bindings providers bindings (AList.update (dd_name (db_definition b')) b' registered) = Inr result"
    by (auto split: option.splits)
  with Cons.IH [OF this(2) Cons.prems(2)] check_registration_ok show ?case by (auto split: if_splits)
qed simp

lemma make_decisions_spec:
  assumes "make_decisions providers bindings timeout = Inr dn"
  shows "dn_providers dn = providers \<and> register_bindings providers bindings [] = Inr (dn_bindings dn)"
  using assms by (auto simp: make_decisions_def sum_bind_Inr split: option.splits)


section \<open>Evaluation\<close>

definition failure_actions :: "decision_action set" where
  "failure_actions = {Abstain, Block, Review, Reason}"

definition decision_errors :: "exc set" where
  "decision_errors = {DecisionTimeoutError ''decision evaluation timed out'',
     DecisionProviderError ''decision provider evaluation failed'',
     DecisionValidationError ''decision provider returned an invalid response''}"

lemma validate_response_errors:
  assumes "validate_response d answers c = Some e"
  shows "\<exists>m. e = DecisionValidationError m"
proof -
  have one: "check_all cs = Some e \<Longrightarrow> Some e \<in> set cs" for cs
    by (induction cs rule: check_all.induct) auto
  have a: "validate_answer q a = Some e \<Longrightarrow> ?thesis" for q a
    by (auto simp: validate_answer_def validate_choice_def validate_score_def optional_def
        dest!: one split: question.splits answer.splits option.splits)
  have m: "validate_answer_metadata a c = Some e \<Longrightarrow> ?thesis" for a
    by (auto simp: validate_answer_metadata_def dest!: one split: answer.splits)
  show ?thesis
  proof (cases "fst ` set answers = question_name ` set (dd_questions d)")
    case False
    with assms show ?thesis by (auto simp: validate_response_def require_def)
  next
    case True
    with assms obtain q where q: "q \<in> set (dd_questions d)" "validate_question answers c q = Some e"
      by (auto simp: validate_response_def require_def dest!: one)
    then have "map_of answers (question_name q) \<noteq> None" using True by (auto simp: map_of_eq_None_iff)
    with q(2) a m show ?thesis by (auto simp: validate_question_def dest!: one split: option.splits)
  qed
qed

text \<open>What one call gives: the cancellation, a validated answer, or a public error.\<close>

lemma call_provider_cases:
  obtains (cancelled) "dp_evaluate provider request = CallerCancelled"
      "call_provider provider request = Inl (CancelledError '''')"
    | (answered) answers where "dp_evaluate provider request = Answered answers"
      "validate_response (dr_definition request) answers (dp_capabilities provider) = None"
      "call_provider provider request = Inr (Some answers, None)"
    | (failed) e category where "call_provider provider request = Inr (None, Some e)"
      "e \<in> decision_errors" "error_category (Some e) = Inr (Some category)"
      "dp_evaluate provider request \<noteq> CallerCancelled"
      "\<And>answers. dp_evaluate provider request = Answered answers \<Longrightarrow>
         validate_response (dr_definition request) answers (dp_capabilities provider) \<noteq> None"
proof (cases "dp_evaluate provider request")
  case (Answered answers)
  show ?thesis
  proof (cases "validate_response (dr_definition request) answers (dp_capabilities provider)")
    case None
    with Answered show ?thesis by (intro answered) (simp_all add: call_provider_def)
  next
    case (Some e)
    with Answered validate_response_errors [OF Some] show ?thesis
      by (intro failed [of "DecisionValidationError ''decision provider returned an invalid response''" "''invalid_response''"])
        (auto simp: call_provider_def decision_errors_def error_category_def)
  qed
next
  case OtherValue
  then show ?thesis
    by (intro failed [of "DecisionValidationError ''decision provider returned an invalid response''" "''invalid_response''"])
      (auto simp: call_provider_def decision_errors_def error_category_def)
next
  case TimedOut
  then show ?thesis
    by (intro failed [of "DecisionTimeoutError ''decision evaluation timed out''" "''timeout''"])
      (auto simp: call_provider_def decision_errors_def error_category_def)
next
  case ProviderFailed
  then show ?thesis
    by (intro failed [of "DecisionProviderError ''decision provider evaluation failed''" "''provider_error''"])
      (auto simp: call_provider_def decision_errors_def error_category_def)
next
  case CallerCancelled
  then show ?thesis by (intro cancelled) (simp_all add: call_provider_def)
qed

definition answered_as :: "decision_binding \<Rightarrow> response \<Rightarrow> decision_evaluation \<Rightarrow> bool" where
  "answered_as b answers ev \<longleftrightarrow> de_response ev = Some answers \<and> de_error ev = None \<and>
     (case db_policy b of None \<Rightarrow> de_outcome ev = None | Some p \<Rightarrow> \<exists>branch \<in> policy_branches p. de_outcome ev = Some branch)"

definition failed_as :: "decision_binding \<Rightarrow> decision_evaluation \<Rightarrow> bool" where
  "failed_as b ev \<longleftrightarrow> de_response ev = None \<and> de_error ev \<noteq> None \<and>
     (\<exists>branch. db_on_error b = Some branch \<and> de_outcome ev = Some branch \<and> do_action branch \<in> failure_actions)"

text \<open>
  C22. A registry that was accepted never fails in its policies: an evaluation with an acceptable
  state ends in exactly one of three ways. The caller's cancellation is raised; a valid answer gives
  one of the branches the author wrote; a deadline, an exception or an invalid answer of the provider
  either raises a fixed public error or, with a failure branch, gives that branch without an answer,
  and the branch only abstains, blocks or asks for a review or for reasoning: a failure never
  proceeds and never routes.
\<close>

theorem failed_decision_authorizes_nothing:
  assumes "make_decisions providers bindings timeout = Inr dn" "\<forall>b' \<in> set bindings. check_binding b' = None"
    and "require_identity name = None" "map_of (dn_bindings dn) name = Some b"
    and "make_request (db_definition b) state = Inr request"
  shows "\<exists>provider. map_of providers (db_provider b) = Some provider \<and>
     (dp_evaluate provider request = CallerCancelled \<and> evaluate dn name state duration = Inl (CancelledError '''')
    \<or> (\<exists>answers ev. dp_evaluate provider request = Answered answers \<and>
         validate_response (db_definition b) answers (dp_capabilities provider) = None \<and>
         evaluate dn name state duration = Inr ev \<and> answered_as b answers ev)
    \<or> (dp_evaluate provider request \<noteq> CallerCancelled \<and>
       (\<forall>answers. dp_evaluate provider request = Answered answers \<longrightarrow>
          validate_response (db_definition b) answers (dp_capabilities provider) \<noteq> None) \<and>
       ((\<exists>e \<in> decision_errors. db_on_error b = None \<and> evaluate dn name state duration = Inl e) \<or>
        (\<exists>ev. evaluate dn name state duration = Inr ev \<and> failed_as b ev))))"
proof -
  note dn = make_decisions_spec [OF assms(1)]
  have b: "b \<in> set bindings" "registered_ok providers b"
    using register_bindings_spec [of providers bindings "[]" "dn_bindings dn" name b] dn assms(4) by auto
  then obtain provider where p: "map_of providers (db_provider b) = Some provider"
      "\<And>pol. db_policy b = Some pol \<Longrightarrow> validate_policy pol (db_definition b) (dp_capabilities provider) = None"
    unfolding registered_ok_def by blast
  have request: "dr_definition request = db_definition b"
    using assms(5) by (auto simp: make_request_def sum_bind_Inr split: live_value.splits)
  have ev: "evaluate dn name state duration = evaluate_binding dn b state duration"
    using assms(3,4) by (simp add: evaluate_def)
  have on_error: "do_action branch \<in> failure_actions" if "db_on_error b = Some branch" for branch
    using assms(2) b(1) that by (auto simp: check_binding_def optional_def failure_actions_def)
  show ?thesis
  proof (cases rule: call_provider_cases [of provider request])
    case cancelled
    with p assms(5) dn show ?thesis by (simp add: ev evaluate_binding_def)
  next
    case (answered answers)
    have "\<exists>result. evaluate dn name state duration = Inr result \<and> answered_as b answers result"
    proof (cases "db_policy b")
      case None
      with answered p(1) assms(5) dn show ?thesis
        by (simp add: ev evaluate_binding_def error_category_def answered_as_def)
    next
      case (Some pol)
      obtain branch where "branch \<in> policy_branches pol" "apply_policy pol answers = Inr branch"
        using policy_total [OF p(2) [OF Some]] answered(2) request by auto
      with Some answered p(1) assms(5) dn show ?thesis
        by (simp add: ev evaluate_binding_def error_category_def answered_as_def)
    qed
    with answered p(1) request show ?thesis by auto
  next
    case (failed e category)
    have "(db_on_error b = None \<and> evaluate dn name state duration = Inl e) \<or>
        (\<exists>result. evaluate dn name state duration = Inr result \<and> failed_as b result)"
      using failed(1,3) p(1) assms(5) dn on_error
      by (cases "db_on_error b") (simp_all add: ev evaluate_binding_def failed_as_def)
    with failed p(1) request show ?thesis by auto
  qed
qed

definition sample_definition :: decision_definition where
  "sample_definition = \<lparr> dd_name = ''d'', dd_version = ''1'', dd_questions = [Predicate ''q'' ''safe''] \<rparr>"

definition sample_provider :: "(decision_request \<Rightarrow> provider_result) \<Rightarrow> decision_provider" where
  "sample_provider f = \<lparr> dp_evaluate = f, dp_capabilities = \<lparr> cp_kinds = {PredicateKind}, cp_batching = False,
     cp_probabilities = False, cp_confidence = False \<rparr>, dp_version = ''1'' \<rparr>"

definition sample_threshold :: threshold_policy where
  "sample_threshold = \<lparr> ty_question = ''q'', ty_lower = Fin (1/4), ty_upper = Fin (3/4),
     ty_below = \<lparr> do_action = Block, do_route = None \<rparr>, ty_above = \<lparr> do_action = Proceed, do_route = None \<rparr>,
     ty_uncertain = \<lparr> do_action = Abstain, do_route = None \<rparr> \<rparr>"

definition sample_binding :: decision_binding where
  "sample_binding = \<lparr> db_definition = sample_definition, db_provider = ''p'', db_policy = Some (ByThreshold sample_threshold),
     db_on_error = Some \<lparr> do_action = Block, do_route = None \<rparr> \<rparr>"

text \<open>With a provider that misses its deadline, the failure branch is what the caller is given.\<close>

theorem failed_decision_authorizes_nothing_witness:
  "\<exists>dn ev. make_decisions [(''p'', sample_provider (\<lambda>_. TimedOut))] [sample_binding] (Fin 10) = Inr dn \<and>
     evaluate dn ''d'' (Table 0 []) 1 = Inr ev \<and> failed_as sample_binding ev"
proof -
  let ?ps = "[(''p'', sample_provider (\<lambda>_. TimedOut))]"
  have ids: "require_identity ''p'' = None" "require_identity ''d'' = None" "require_identity ''1'' = None" by code_simp+
  have t: "validate_threshold_policy sample_threshold sample_definition c = None" for c
    by (simp add: validate_threshold_policy_def sample_threshold_def sample_definition_def find_question_def finite_number_def
        f_le_def require_def)
  have reg: "check_registration ?ps sample_binding [] = None"
    by (simp add: check_registration_def sample_binding_def validate_policy_def t optional_def)
      (simp add: validate_capabilities_def sample_provider_def sample_definition_def require_def)
  have dn: "make_decisions ?ps [sample_binding] (Fin 10) =
      Inr \<lparr> dn_timeout = Fin 10, dn_providers = ?ps, dn_bindings = [(''d'', sample_binding)] \<rparr>" (is "_ = Inr ?dn")
    using reg ids
    by (simp add: make_decisions_def check_providers_def finite_number_def f_le_def require_def sample_provider_def
        sample_binding_def sample_definition_def)
  have b: "\<forall>b' \<in> set [sample_binding]. check_binding b' = None"
    by (simp add: check_binding_def sample_binding_def optional_def require_def ids)
  have m: "map_of (dn_bindings ?dn) ''d'' = Some sample_binding" by simp
  have r: "make_request (db_definition sample_binding) (Table 0 []) =
      Inr \<lparr> dr_definition = sample_definition, dr_state = PyDict [] \<rparr>"
    by (simp add: make_request_def sample_binding_def)
  from failed_decision_authorizes_nothing [OF dn b ids(2) m r, of 1] dn show ?thesis
    by (auto simp: sample_binding_def sample_provider_def)
qed


section \<open>Disclosed results\<close>

definition disclosed :: "decision_output \<Rightarrow> (decision_evaluation \<times> string) list \<Rightarrow> pyval list" where
  "disclosed q made = (if ou_enabled q then map (\<lambda>(ev, agent). PyDict
     [(PyStr ''type'', PyStr ''decision_result''), (PyStr ''agent'', PyStr agent), (PyStr ''value'', evaluation_value ev)]) made
     else [])"

lemma record_all_events:
  "ou_events (record_all made q) = ou_events q @ disclosed q made \<and> ou_enabled (record_all made q) = ou_enabled q"
proof (induction made arbitrary: q)
  case (Cons m made)
  obtain ev agent where m: "m = (ev, agent)" by (cases m)
  have "ou_enabled (record_result ev agent q) = ou_enabled q" by (simp add: record_result_def)
  with Cons [of "record_result ev agent q"] m show ?case
    by (simp add: record_all_def disclosed_def record_result_def)
qed (simp add: record_all_def disclosed_def)

text \<open>
  A judgment is given once, before the native event that follows it and after the one before it, and
  nothing is left in the queue.
\<close>

lemma stream_gives_each_once:
  "stream_events events final q =
     (ou_events q @ concat (map (\<lambda>(made, event). disclosed q made @ [event]) events) @ disclosed q final,
      q \<lparr> ou_events := [] \<rparr>)"
proof (induction events arbitrary: q)
  case Nil
  have "(record_all final q) \<lparr> ou_events := [] \<rparr> = q \<lparr> ou_events := [] \<rparr>"
    using record_all_events [of final q] by (cases q; cases "record_all final q") simp
  then show ?case using record_all_events [of final q] by (simp add: drain_output_def)
next
  case (Cons e events)
  obtain made event where e: "e = (made, event)" by (cases e)
  let ?q1 = "(record_all made q) \<lparr> ou_events := [] \<rparr>"
  have q1: "?q1 = q \<lparr> ou_events := [] \<rparr>"
    using record_all_events [of made q] by (cases q; cases "record_all made q") simp
  have "disclosed (q \<lparr> ou_events := [] \<rparr>) made' = disclosed q made'" for made' by (simp add: disclosed_def)
  with Cons [of "q \<lparr> ou_events := [] \<rparr>"] record_all_events [of made q] show ?case
    by (simp add: e drain_output_def q1)
qed

end
