(* ===== verification/Skill_Search.thy ===== *)
theory Skill_Search
  imports Continuation_Records
begin

text \<open>
  The metadata of skills and the lexical search over it (the value classes and the ranking functions
  of \<^verbatim>\<open>skills.py\<close>). Characters are Latin-1. \<^verbatim>\<open>casefold\<close> of the micro sign is the Greek letter, which is
  outside Latin-1 and which nothing else folds to: here it stays as it is. The similarity of two words
  is \<^verbatim>\<open>difflib.SequenceMatcher.ratio\<close>, whose words are far below the length from which it drops popular
  characters; its value is kept as a fraction, and the rounding of ten times that value is Python's,
  to the nearest integer with halves going to the even one.
\<close>


section \<open>Values\<close>

definition skill_text :: "string \<Rightarrow> string \<Rightarrow> nat \<Rightarrow> exc option" where
  "skill_text v name maximum = check_all
     [require (\<not> blank v) (SkillValidationError (name @ '' must be a non-empty string'')),
      require (length v \<le> maximum) (SkillValidationError (name @ '' has too many characters''))]"

definition optional_text :: "string option \<Rightarrow> string \<Rightarrow> nat \<Rightarrow> exc option" where
  "optional_text v name maximum = (case v of None \<Rightarrow> None | Some s \<Rightarrow> skill_text s name maximum)"

definition text_bytes :: "string \<Rightarrow> nat" where
  "text_bytes s = sum_list (map (\<lambda>c. if (of_char c :: nat) < 128 then 1 else 2) s)"

record skill_descriptor =
  sk_id :: string
  sk_name :: string
  sk_description :: string
  sk_version :: string

definition check_descriptor :: "skill_descriptor \<Rightarrow> exc option" where
  "check_descriptor d = check_all
     [skill_text (sk_id d) ''skill id'' 256, skill_text (sk_name d) ''skill name'' 128,
      skill_text (sk_description d) ''skill description'' 1024, skill_text (sk_version d) ''skill version'' 256]"

definition max_text_bytes :: nat where
  "max_text_bytes = 1024 * 1024"

record skill_document =
  sd_descriptor :: skill_descriptor
  sd_instructions :: string

definition check_document :: "skill_document \<Rightarrow> exc option" where
  "check_document d = check_all
     [skill_text (sd_instructions d) ''skill instructions'' max_text_bytes,
      require (text_bytes (sd_instructions d) \<le> max_text_bytes) (SkillValidationError ''skill instructions exceed the size limit'')]"

record skill_resource =
  sr_skill_id :: string
  sr_version :: string
  sr_path :: string
  sr_content :: string

definition check_resource :: "skill_resource \<Rightarrow> exc option" where
  "check_resource r = check_all
     [skill_text (sr_skill_id r) ''skill id'' 256, skill_text (sr_version r) ''skill version'' 256,
      skill_text (sr_path r) ''skill resource path'' 1024,
      require (text_bytes (sr_content r) \<le> max_text_bytes) (SkillValidationError ''skill resource content exceeds the size limit'')]"

record skill_page =
  sp_items :: "skill_descriptor list"
  sp_next_cursor :: "string option"

definition check_page :: "skill_page \<Rightarrow> exc option" where
  "check_page p = optional_text (sp_next_cursor p) ''skill page cursor'' 1024"

definition source_name :: "string \<Rightarrow> bool" where
  "source_name s = matches (\<lambda>c. lower_case c \<or> upper_case c) (\<lambda>c. alnum c \<or> c \<in> set ''._~-'') 63 s"

definition validate_source_name :: "string \<Rightarrow> exc option" where
  "validate_source_name name = require (source_name name) (ValueError ''skill source name must be a valid source identifier'')"

record catalog_skill =
  cs_source :: string
  cs_descriptor :: skill_descriptor

definition catalog_dict :: "catalog_skill \<Rightarrow> pyval" where
  "catalog_dict c = PyDict
     [(PyStr ''name'', PyStr (sk_name (cs_descriptor c))), (PyStr ''description'', PyStr (sk_description (cs_descriptor c))),
      (PyStr ''source'', PyStr (cs_source c)), (PyStr ''id'', PyStr (sk_id (cs_descriptor c))),
      (PyStr ''version'', PyStr (sk_version (cs_descriptor c)))]"

record catalog_page =
  cg_items :: "catalog_skill list"
  cg_next_cursors :: "(string \<times> string) list"
  cg_truncated :: bool

definition check_catalog_page :: "catalog_page \<Rightarrow> exc option" where
  "check_catalog_page p = check_all (map (\<lambda>(source, cursor).
     check_all [validate_source_name source, skill_text cursor ''skill page cursor'' 1024]) (cg_next_cursors p))"

definition catalog_page_dict :: "catalog_page \<Rightarrow> pyval" where
  "catalog_page_dict p = PyDict
     ([(PyStr ''skills'', PyList (map catalog_dict (cg_items p)))] @
      (if cg_next_cursors p = [] then []
       else [(PyStr ''nextCursors'', PyDict (map (\<lambda>(s, c). (PyStr s, PyStr c)) (cg_next_cursors p)))]) @
      (if cg_truncated p then [(PyStr ''truncated'', PyBool True)] else []))"


section \<open>Words\<close>

definition fold_char :: "char \<Rightarrow> string" where
  "fold_char c = (let n = of_char c :: nat in
     if upper_case c \<or> (192 \<le> n \<and> n \<le> 222 \<and> n \<noteq> 215) then [char_of (n + 32)]
     else if n = 223 then ''ss'' else [c])"

definition casefold :: "string \<Rightarrow> string" where
  "casefold s = concat (map fold_char s)"

definition word_char :: "char \<Rightarrow> bool" where
  "word_char c \<longleftrightarrow> lower_case c \<or> digit c"

text \<open>\<^verbatim>\<open>findall\<close> of \<^verbatim>\<open>[a-z0-9]+\<close>: the maximal runs.\<close>

function (sequential) words :: "string \<Rightarrow> string list" where
  "words [] = []"
| "words (c # cs) = (if word_char c then takeWhile word_char (c # cs) # words (dropWhile word_char cs) else words cs)"
  by pat_completeness auto
termination
  by (relation "measure length") (auto simp: le_imp_less_Suc length_dropWhile_le)

definition stop_words :: "string list" where
  "stop_words = [''a'', ''an'', ''and'', ''find'', ''for'', ''get'', ''how'', ''in'', ''of'', ''on'', ''the'', ''to'', ''use'', ''with'']"

definition max_search_terms :: nat where
  "max_search_terms = 32"

definition max_search_word :: nat where
  "max_search_word = 64"

fun collect_terms :: "string list \<Rightarrow> string list \<Rightarrow> string list" where
  "collect_terms [] terms = terms"
| "collect_terms (w # ws) terms =
     (let normalized = take max_search_word w in
      if normalized \<in> set stop_words \<or> normalized \<in> set terms then collect_terms ws terms
      else let terms' = terms @ [normalized] in
        if length terms' = max_search_terms then terms' else collect_terms ws terms')"

definition search_terms :: "string \<Rightarrow> string list" where
  "search_terms v = collect_terms (words (casefold v)) []"


section \<open>Similarity\<close>

text \<open>The length of the common prefix, and the first of the longest blocks two words share.\<close>

fun common_prefix :: "string \<Rightarrow> string \<Rightarrow> nat" where
  "common_prefix (x # xs) (y # ys) = (if x = y then Suc (common_prefix xs ys) else 0)"
| "common_prefix _ _ = 0"

definition blocks :: "string \<Rightarrow> string \<Rightarrow> (nat \<times> nat \<times> nat) list" where
  "blocks a b = concat (map (\<lambda>i. map (\<lambda>j. (i, j, common_prefix (drop i a) (drop j b))) [0..<length b]) [0..<length a])"

definition longest_match :: "string \<Rightarrow> string \<Rightarrow> nat \<times> nat \<times> nat" where
  "longest_match a b = fold (\<lambda>(i, j, k) (i0, j0, k0). if k0 < k then (i, j, k) else (i0, j0, k0)) (blocks a b) (0, 0, 0)"

lemma fold_best_in:
  "fold (\<lambda>(i, j, k) (i0, j0, k0). if (k0 :: nat) < k then (i, j, k) else (i0, j0, k0)) xs best = best \<or>
   fold (\<lambda>(i, j, k) (i0, j0, k0). if k0 < k then (i, j, k) else (i0, j0, k0)) xs best \<in> set xs"
proof (induction xs arbitrary: best)
  case (Cons x xs)
  show ?case
  proof (cases x; cases best)
    fix i j k i0 j0 k0 assume b: "x = (i, j, k)" "best = (i0, j0, k0)"
    show ?thesis using Cons [of "if k0 < k then (i, j, k) else (i0, j0, k0)"] by (auto simp: b split: if_splits)
  qed
qed simp

lemma common_prefix_le: "common_prefix a b \<le> length a \<and> common_prefix a b \<le> length b"
  by (induction a b rule: common_prefix.induct) auto

lemma longest_match_bounds:
  assumes "longest_match a b = (i, j, k)"
  shows "i + k \<le> length a \<and> j + k \<le> length b"
proof -
  have "(i, j, k) = (0, 0, 0) \<or> (i, j, k) \<in> set (blocks a b)"
    using fold_best_in [of "blocks a b" "(0, 0, 0)"] assms unfolding longest_match_def by metis
  then show ?thesis
  proof
    assume "(i, j, k) \<in> set (blocks a b)"
    then have "i < length a" "j < length b" "k = common_prefix (drop i a) (drop j b)" by (auto simp: blocks_def)
    with common_prefix_le [of "drop i a" "drop j b"] show ?thesis by (simp add: le_diff_conv2 add.commute)
  qed simp
qed

text \<open>The total size of the matching blocks: the longest one, and recursively what is left and right of it.\<close>

function matching_size :: "string \<Rightarrow> string \<Rightarrow> nat" where
  "matching_size a b = (case longest_match a b of (i, j, k) \<Rightarrow>
     if k = 0 then 0
     else matching_size (take i a) (take j b) + k + matching_size (drop (i + k) a) (drop (j + k) b))"
  by pat_completeness auto
termination
proof (relation "measure (\<lambda>(a, b). length a)", simp_all)
  fix a b :: string and i y j k
  assume m: "(i, y) = longest_match a b" "(j, k) = y" "0 < k"
  then have "longest_match a b = (i, j, k)" by simp
  with longest_match_bounds [of a b i j k] m(3) show "min (length a) i < length a" "length a - (i + k) < length a"
    by auto
qed

declare matching_size.simps [simp del]

definition similarity :: "string \<Rightarrow> string \<Rightarrow> rat" where
  "similarity a b = (if length a + length b = 0 then 1
     else 2 * of_nat (matching_size a b) / of_nat (length a + length b))"

definition round_half_even :: "rat \<Rightarrow> int" where
  "round_half_even q = (let n = \<lfloor>q\<rfloor>; r = q - of_int n in
     if r < 1 / 2 then n else if r > 1 / 2 then n + 1 else if even n then n else n + 1)"


section \<open>Scores\<close>

definition starts_prefix :: "string \<Rightarrow> string \<Rightarrow> bool" where
  "starts_prefix a b \<longleftrightarrow> take (length b) a = b"

definition shares_word_root :: "string \<Rightarrow> string \<Rightarrow> bool" where
  "shares_word_root a b \<longleftrightarrow> starts_prefix a b \<or> starts_prefix b a"

definition word_score :: "string \<Rightarrow> string \<Rightarrow> int" where
  "word_score a b =
     (if a = b then 30
      else if 4 \<le> min (length a) (length b) \<and> shares_word_root a b then 20
      else let s = similarity a b in if s \<ge> 3 / 4 then round_half_even (s * 10) else 0)"

definition best_word_score :: "string \<Rightarrow> string list \<Rightarrow> int" where
  "best_word_score word candidates = fold max (map (word_score word) candidates) 0"

definition phrase_score :: "string \<Rightarrow> string \<Rightarrow> string \<Rightarrow> int" where
  "phrase_score needle name description =
     (if needle = [] then 0 else if needle = name then 100 else if sublist needle name then 60
      else if sublist needle description then 40 else 0)"

definition skill_query_score :: "skill_descriptor \<Rightarrow> string \<Rightarrow> int" where
  "skill_query_score d query =
     (let needle = strip (casefold query); name = casefold (sk_name d); description = casefold (sk_description d);
          requested = search_terms needle; available = search_terms (name @ '' '' @ description) in
      phrase_score needle name description + sum_list (map (\<lambda>w. best_word_score w available) requested))"

text \<open>Sorting by falling score and then by position: the sort is stable, so the key is the score.\<close>

definition rank_skill_descriptors :: "skill_descriptor list \<Rightarrow> string \<Rightarrow> skill_descriptor list" where
  "rank_skill_descriptors ds query = map snd (filter (\<lambda>(score, d). 0 < score)
     (sort_key (\<lambda>(score, d). - score) (map (\<lambda>d. (skill_query_score d query, d)) ds)))"

definition rank_catalog_skills :: "catalog_skill list \<Rightarrow> string \<Rightarrow> catalog_skill list" where
  "rank_catalog_skills items query = sort_key (\<lambda>item. - skill_query_score (cs_descriptor item) query) items"

end
