(* ===== verification/Skill_Catalog.thy ===== *)
theory Skill_Catalog
  imports Skill_Search Task_Records
begin

text \<open>
  Skill sources, the scope of one agent, the access of one invocation and the model tools over it
  (\<^verbatim>\<open>skills.py\<close>). A dynamic source is authored code: what its calls return is a function of their
  arguments. The filesystem source is modelled over its validated entries; the directory is read
  through a parameter that gives the present version and the text of a directory.
\<close>


section \<open>Sources\<close>

text \<open>
  What a call into a source gives: a value of the expected class, a value of another class (its
  name), an exception of the skill family, or any other exception (its class name).
\<close>

datatype 'a source_result =
    Returned 'a
  | OtherClass string
  | RaisedSkill exc
  | RaisedOther string

record skill_source =
  so_list :: "string option \<Rightarrow> string option \<Rightarrow> int \<Rightarrow> skill_page source_result"
  so_load :: "string \<Rightarrow> string option \<Rightarrow> skill_document source_result"
  so_load_resource :: "string \<Rightarrow> string \<Rightarrow> string option \<Rightarrow> skill_resource source_result"

definition source_failure :: "string \<Rightarrow> string \<Rightarrow> string \<Rightarrow> exc" where
  "source_failure source operation class = SkillSourceExecutionError
     (''skill source '' @ source @ '' '' @ operation @ '' failed with '' @ class)"

definition governed :: "string \<Rightarrow> string \<Rightarrow> 'a source_result \<Rightarrow> exc + 'a" where
  "governed source operation result = (case result of
     Returned v \<Rightarrow> Inr v
   | RaisedSkill e \<Rightarrow> Inl e
   | RaisedOther class \<Rightarrow> Inl (source_failure source operation class)
   | OtherClass class \<Rightarrow> Inl (SkillSourceExecutionError
       (''skill source '' @ source @ '' '' @ operation @ '' returned '' @ class)))"


section \<open>The filesystem source\<close>

text \<open>\<^verbatim>\<open>str.isdigit\<close> holds of the three superscripts of Latin-1, which \<^verbatim>\<open>int\<close> rejects.\<close>

definition isdigit :: "string \<Rightarrow> bool" where
  "isdigit s \<longleftrightarrow> s \<noteq> [] \<and> list_all (\<lambda>c. digit c \<or> c \<in> {CHR 0xB2, CHR 0xB3, CHR 0xB9}) s"

definition digit_value :: "char \<Rightarrow> nat" where
  "digit_value c = of_char c - 48"

definition decimal :: "string \<Rightarrow> exc + int" where
  "decimal s = (if s \<noteq> [] \<and> list_all digit s then Inr (int (foldl (\<lambda>n c. 10 * n + digit_value c) 0 s))
     else Inl (ValueError ''invalid literal for int''))"

definition filesystem_cursor :: "string option \<Rightarrow> exc + int" where
  "filesystem_cursor cursor = (case cursor of
     None \<Rightarrow> Inr 0
   | Some s \<Rightarrow> if \<not> isdigit s then Inl (SkillValidationError ''filesystem skill cursor is invalid'') else decimal s)"

definition page_size :: "int \<Rightarrow> exc + int" where
  "page_size limit = (if limit < 1 \<or> 100 < limit then Inl (ValueError ''skill page limit must be between 1 and 100'') else Inr limit)"

type_synonym filesystem_skill = "skill_descriptor \<times> string"

text \<open>The present state of a directory: its content version, its manifest and its resources.\<close>

record skill_directories =
  dir_version :: "string \<Rightarrow> string"
  dir_manifest :: "string \<Rightarrow> exc + string"
  dir_resource :: "string \<Rightarrow> string \<Rightarrow> exc + string"

definition make_filesystem_source :: "filesystem_skill list \<Rightarrow> exc + filesystem_skill list" where
  "make_filesystem_source entries =
     (if distinct (map (sk_id \<circ> fst) entries) then Inr entries
      else Inl (SkillValidationError ''filesystem skill ids must be unique''))"

definition filesystem_list :: "filesystem_skill list \<Rightarrow> string option \<Rightarrow> string option \<Rightarrow> int \<Rightarrow> exc + skill_page" where
  "filesystem_list entries query cursor limit =
     sum_bind (page_size limit) (\<lambda>size.
     sum_bind (filesystem_cursor cursor) (\<lambda>offset.
       let candidates = (case query of
             None \<Rightarrow> map fst entries
           | Some q \<Rightarrow> if q = [] then map fst entries else rank_skill_descriptors (map fst entries) q);
           items = take (nat size) (drop (nat offset) candidates);
           next_offset = offset + int (length items);
           p = \<lparr> sp_items = items,
                 sp_next_cursor = (if next_offset < int (length candidates) then Some (int_text next_offset) else None) \<rparr> in
       case check_page p of Some e \<Rightarrow> Inl e | None \<Rightarrow> Inr p))"

definition filesystem_entry :: "skill_directories \<Rightarrow> filesystem_skill list \<Rightarrow> string \<Rightarrow> string option \<Rightarrow> exc + filesystem_skill" where
  "filesystem_entry disk entries skill_id version =
     (case skill_text skill_id ''skill id'' 256 of
        Some e \<Rightarrow> Inl e
      | None \<Rightarrow> (case find (\<lambda>(d, _). sk_id d = skill_id) entries of
          None \<Rightarrow> Inl (SkillNotFoundError (''skill '' @ skill_id @ '' is not available''))
        | Some (d, directory) \<Rightarrow>
            if dir_version disk directory \<noteq> sk_version d then
              Inl (SkillValidationError (''skill '' @ skill_id @ '' content changed after compilation''))
            else if version \<noteq> None \<and> version \<noteq> Some (sk_version d) then
              Inl (SkillNotFoundError (''skill '' @ skill_id @ '' version is not available''))
            else Inr (d, directory)))"

definition filesystem_load :: "skill_directories \<Rightarrow> filesystem_skill list \<Rightarrow> string \<Rightarrow> string option \<Rightarrow> exc + skill_document" where
  "filesystem_load disk entries skill_id version =
     sum_bind (filesystem_entry disk entries skill_id version) (\<lambda>(d, directory).
     sum_bind (dir_manifest disk directory) (\<lambda>contents.
       let document = \<lparr> sd_descriptor = d, sd_instructions = contents \<rparr> in
       case check_document document of Some e \<Rightarrow> Inl e | None \<Rightarrow> Inr document))"

definition filesystem_load_resource ::
    "skill_directories \<Rightarrow> filesystem_skill list \<Rightarrow> string \<Rightarrow> string \<Rightarrow> string option \<Rightarrow> exc + skill_resource" where
  "filesystem_load_resource disk entries skill_id path version =
     sum_bind (filesystem_entry disk entries skill_id version) (\<lambda>(d, directory).
     sum_bind (dir_resource disk directory path) (\<lambda>contents.
       let r = \<lparr> sr_skill_id = skill_id, sr_version = sk_version d, sr_path = path, sr_content = contents \<rparr> in
       case check_resource r of Some e \<Rightarrow> Inl e | None \<Rightarrow> Inr r))"

text \<open>The exceptions of the skill family, which pass the governed boundary unchanged.\<close>

fun skill_error :: "exc \<Rightarrow> bool" where
  "skill_error (SkillValidationError _) = True"
| "skill_error (SkillNotFoundError _) = True"
| "skill_error (SkillResourceNotSupported _) = True"
| "skill_error (SkillSourceExecutionError _) = True"
| "skill_error _ = False"

fun class_name :: "exc \<Rightarrow> string" where
  "class_name (ValueError _) = ''ValueError''"
| "class_name (TypeError _) = ''TypeError''"
| "class_name (KeyError _) = ''KeyError''"
| "class_name _ = ''Exception''"

definition as_source_result :: "exc + 'a \<Rightarrow> 'a source_result" where
  "as_source_result r = (case r of
     Inr v \<Rightarrow> Returned v
   | Inl e \<Rightarrow> if skill_error e then RaisedSkill e else RaisedOther (class_name e))"

definition filesystem_source :: "skill_directories \<Rightarrow> filesystem_skill list \<Rightarrow> skill_source" where
  "filesystem_source disk entries =
     \<lparr> so_list = (\<lambda>query cursor limit. as_source_result (filesystem_list entries query cursor limit)),
       so_load = (\<lambda>skill_id version. as_source_result (filesystem_load disk entries skill_id version)),
       so_load_resource = (\<lambda>skill_id path version. as_source_result (filesystem_load_resource disk entries skill_id path version)) \<rparr>"


section \<open>The scope of an agent\<close>

type_synonym skill_scope = "(string \<times> skill_source) list"

definition make_scope :: "skill_scope \<Rightarrow> exc + skill_scope" where
  "make_scope sources = (case check_all (map (validate_source_name \<circ> fst) sources) of Some e \<Rightarrow> Inl e | None \<Rightarrow> Inr sources)"

definition scoped_skill_sources :: "(string \<times> skill_source) list \<Rightarrow> skill_source option \<Rightarrow> exc + skill_scope" where
  "scoped_skill_sources dynamic filesystem =
     (if \<exists>(name, _) \<in> set dynamic. name = ''filesystem'' then
        Inl (SkillValidationError ''dynamic skill source name filesystem is reserved'')
      else make_scope ((case filesystem of None \<Rightarrow> [] | Some s \<Rightarrow> [(''filesystem'', s)]) @ dynamic))"

definition scope_source :: "skill_scope \<Rightarrow> string \<Rightarrow> exc + skill_source" where
  "scope_source sources name = (case validate_source_name name of
     Some e \<Rightarrow> Inl e
   | None \<Rightarrow> (case map_of sources name of
       None \<Rightarrow> Inl (SkillNotFoundError (''skill source '' @ name @ '' is not available'')) | Some s \<Rightarrow> Inr s))"

definition selected_source :: "skill_scope \<Rightarrow> string option \<Rightarrow> exc + string" where
  "selected_source sources source = (case source of
     Some name \<Rightarrow> sum_bind (scope_source sources name) (\<lambda>_. Inr name)
   | None \<Rightarrow>
       if map_of sources ''filesystem'' \<noteq> None then Inr ''filesystem''
       else (case sources of [(name, _)] \<Rightarrow> Inr name
         | _ \<Rightarrow> Inl (SkillNotFoundError ''skill source is required'')))"

definition list_one :: "skill_scope \<Rightarrow> string \<Rightarrow> string option \<Rightarrow> string option \<Rightarrow> int \<Rightarrow> exc + skill_page" where
  "list_one sources name query cursor limit =
     sum_bind (scope_source sources name) (\<lambda>provider.
     sum_bind (governed name ''list'' (so_list provider query cursor limit)) (\<lambda>p.
       if int (length (sp_items p)) > limit then
         Inl (SkillSourceExecutionError (''skill source '' @ name @ '' exceeded the requested page size''))
       else Inr p))"

definition merge_pages :: "(string \<times> skill_page) list \<Rightarrow> int \<Rightarrow> string option \<Rightarrow> exc + catalog_page" where
  "merge_pages pages limit query =
     (let all_items = concat (map (\<lambda>(source, p). map (\<lambda>d. \<lparr> cs_source = source, cs_descriptor = d \<rparr>) (sp_items p)) pages);
          ranked = (case query of None \<Rightarrow> all_items | Some q \<Rightarrow> if q = [] then all_items else rank_catalog_skills all_items q);
          p = \<lparr> cg_items = take (nat limit) ranked,
                cg_next_cursors = concat (map (\<lambda>(source, p). case sp_next_cursor p of None \<Rightarrow> [] | Some c \<Rightarrow> [(source, c)]) pages),
                cg_truncated = (int (length ranked) > limit) \<rparr> in
      case check_catalog_page p of Some e \<Rightarrow> Inl e | None \<Rightarrow> Inr p)"

fun list_pages :: "skill_scope \<Rightarrow> string list \<Rightarrow> string option \<Rightarrow> int \<Rightarrow> exc + (string \<times> skill_page) list" where
  "list_pages sources [] query limit = Inr []"
| "list_pages sources (name # names) query limit =
     sum_bind (list_one sources name query None limit) (\<lambda>p.
     sum_bind (list_pages sources names query limit) (\<lambda>pages. Inr ((name, p) # pages)))"

definition scope_list ::
    "skill_scope \<Rightarrow> string option \<Rightarrow> string option \<Rightarrow> string option \<Rightarrow> int \<Rightarrow> exc + catalog_page" where
  "scope_list sources source query cursor limit =
     sum_bind (page_size limit) (\<lambda>size.
     case check_all [optional_text query ''skill query'' 512, optional_text cursor ''skill page cursor'' 1024] of
       Some e \<Rightarrow> Inl e
     | None \<Rightarrow> (case source of
         Some name \<Rightarrow> sum_bind (list_one sources name query cursor size) (\<lambda>p. merge_pages [(name, p)] size query)
       | None \<Rightarrow>
           if cursor \<noteq> None then Inl (ValueError ''a skill cursor requires an explicit source'')
           else sum_bind (list_pages sources (map fst sources) query size) (\<lambda>pages. merge_pages pages size query)))"

definition scope_load :: "skill_scope \<Rightarrow> string \<Rightarrow> string option \<Rightarrow> string option \<Rightarrow> exc + skill_document" where
  "scope_load sources skill_id source version =
     (case check_all [skill_text skill_id ''skill id'' 256, optional_text version ''skill version'' 256] of
        Some e \<Rightarrow> Inl e
      | None \<Rightarrow>
          sum_bind (selected_source sources source) (\<lambda>selected.
          sum_bind (scope_source sources selected) (\<lambda>provider.
          sum_bind (governed selected ''load'' (so_load provider skill_id version)) (\<lambda>document.
            if sk_id (sd_descriptor document) \<noteq> skill_id then
              Inl (SkillSourceExecutionError (''skill source '' @ selected @ '' returned a different skill id''))
            else if version \<noteq> None \<and> version \<noteq> Some (sk_version (sd_descriptor document)) then
              Inl (SkillSourceExecutionError (''skill source '' @ selected @ '' returned a different skill version''))
            else Inr document))))"

definition scope_load_resource ::
    "skill_scope \<Rightarrow> string \<Rightarrow> string \<Rightarrow> string option \<Rightarrow> string option \<Rightarrow> exc + skill_resource" where
  "scope_load_resource sources skill_id path source version =
     (case check_all [skill_text skill_id ''skill id'' 256, skill_text path ''skill resource path'' 1024,
         optional_text version ''skill version'' 256] of
        Some e \<Rightarrow> Inl e
      | None \<Rightarrow>
          sum_bind (selected_source sources source) (\<lambda>selected.
          sum_bind (scope_source sources selected) (\<lambda>provider.
          sum_bind (governed selected ''load_resource'' (so_load_resource provider skill_id path version)) (\<lambda>r.
            if sr_skill_id r \<noteq> skill_id then
              Inl (SkillSourceExecutionError (''skill source '' @ selected @ '' returned a different skill id''))
            else if version \<noteq> None \<and> version \<noteq> Some (sr_version r) then
              Inl (SkillSourceExecutionError (''skill source '' @ selected @ '' returned a different skill version''))
            else Inr r))))"


section \<open>The access of an invocation\<close>

text \<open>
  The pins of an invocation: the version of a skill an agent of it has loaded from a source. A load
  reads the pin, awaits the source, and records the version; another task of the same invocation may
  record one in between, so the two halves are separate steps.
\<close>

type_synonym skill_pins = "((string \<times> string \<times> string) \<times> string) list"

definition pinned_version :: "skill_pins \<Rightarrow> string \<Rightarrow> string \<Rightarrow> string \<Rightarrow> string option \<Rightarrow> bool \<Rightarrow> exc + string option" where
  "pinned_version pins agent source skill_id requested active =
     (if \<not> active then Inl (ContextUnavailableError ''context is no longer active'')
      else (case map_of pins (agent, source, skill_id) of
        None \<Rightarrow> Inr requested
      | Some pinned \<Rightarrow>
          if requested \<noteq> None \<and> requested \<noteq> Some pinned then
            Inl (SkillValidationError ''a skill version cannot change during an active invocation'')
          else Inr (Some pinned)))"

definition pin_skill :: "string \<Rightarrow> string \<Rightarrow> string \<Rightarrow> string \<Rightarrow> skill_pins \<Rightarrow> (exc + unit) \<times> skill_pins" where
  "pin_skill agent source skill_id version pins =
     (case map_of pins (agent, source, skill_id) of
        None \<Rightarrow> (Inr (), AList.update (agent, source, skill_id) version pins)
      | Some existing \<Rightarrow>
          if existing \<noteq> version then
            (Inl (SkillSourceExecutionError ''a skill source changed version during an active invocation''), pins)
          else (Inr (), pins))"

text \<open>The first half of a load: the source it goes to and the version it asks for.\<close>

definition begin_access ::
    "skill_scope \<Rightarrow> string \<Rightarrow> bool \<Rightarrow> string \<Rightarrow> string option \<Rightarrow> string option \<Rightarrow> skill_pins \<Rightarrow> exc + string \<times> string option" where
  "begin_access sources agent active skill_id source version pins =
     sum_bind (selected_source sources source) (\<lambda>selected.
     sum_bind (pinned_version pins agent selected skill_id version active) (\<lambda>pinned. Inr (selected, pinned)))"

definition end_load ::
    "skill_scope \<Rightarrow> string \<Rightarrow> string \<Rightarrow> string \<times> string option \<Rightarrow> skill_pins \<Rightarrow> (exc + skill_document) \<times> skill_pins" where
  "end_load sources agent skill_id begun pins =
     (case scope_load sources skill_id (Some (fst begun)) (snd begun) of
        Inl e \<Rightarrow> (Inl e, pins)
      | Inr document \<Rightarrow> (case pin_skill agent (fst begun) skill_id (sk_version (sd_descriptor document)) pins of
          (Inl e, pins') \<Rightarrow> (Inl e, pins') | (Inr _, pins') \<Rightarrow> (Inr document, pins')))"

definition end_load_resource ::
    "skill_scope \<Rightarrow> string \<Rightarrow> string \<Rightarrow> string \<Rightarrow> string \<times> string option \<Rightarrow> skill_pins \<Rightarrow> (exc + skill_resource) \<times> skill_pins" where
  "end_load_resource sources agent skill_id path begun pins =
     (case scope_load_resource sources skill_id path (Some (fst begun)) (snd begun) of
        Inl e \<Rightarrow> (Inl e, pins)
      | Inr r \<Rightarrow> (case pin_skill agent (fst begun) skill_id (sr_version r) pins of
          (Inl e, pins') \<Rightarrow> (Inl e, pins') | (Inr _, pins') \<Rightarrow> (Inr r, pins')))"

definition access_load ::
    "skill_scope \<Rightarrow> string \<Rightarrow> bool \<Rightarrow> string \<Rightarrow> string option \<Rightarrow> string option \<Rightarrow> skill_pins \<Rightarrow> (exc + skill_document) \<times> skill_pins" where
  "access_load sources agent active skill_id source version pins =
     (case begin_access sources agent active skill_id source version pins of
        Inl e \<Rightarrow> (Inl e, pins) | Inr begun \<Rightarrow> end_load sources agent skill_id begun pins)"

definition access_list ::
    "skill_scope \<Rightarrow> bool \<Rightarrow> string option \<Rightarrow> string option \<Rightarrow> string option \<Rightarrow> int \<Rightarrow> exc + catalog_page" where
  "access_list sources active source query cursor limit =
     (if \<not> active then Inl (ContextUnavailableError ''context is no longer active'')
      else scope_list sources source query cursor limit)"

text \<open>The catalog tool of the model: a query without a result falls back to one ranked page.\<close>

definition model_catalog ::
    "skill_scope \<Rightarrow> string option \<Rightarrow> string option \<Rightarrow> string option \<Rightarrow> int \<Rightarrow> exc + pyval" where
  "model_catalog sources source query cursor limit =
     sum_bind (scope_list sources source query cursor limit) (\<lambda>p.
     case query of
       None \<Rightarrow> Inr (catalog_page_dict p)
     | Some q \<Rightarrow>
         if q = [] \<or> cursor \<noteq> None \<or> cg_items p \<noteq> [] then Inr (catalog_page_dict p)
         else sum_bind (scope_list sources source None None 100) (\<lambda>fallback.
           let ranked = rank_catalog_skills (cg_items fallback) q in
           Inr (PyDict ([(PyStr ''skills'', PyList (map catalog_dict (take (nat limit) ranked))), (PyStr ''queryFallback'', PyBool True)] @
             (if cg_truncated fallback \<or> int (length ranked) > limit then [(PyStr ''truncated'', PyBool True)] else [])))))"

text \<open>The registry: the scope of each agent.\<close>

type_synonym skill_registry = "(string \<times> skill_scope) list"

definition registry_scope :: "skill_registry \<Rightarrow> string \<Rightarrow> exc + skill_scope" where
  "registry_scope scopes agent = (case skill_text agent ''agent name'' 128 of
     Some e \<Rightarrow> Inl e | None \<Rightarrow> Inr (case map_of scopes agent of None \<Rightarrow> [] | Some s \<Rightarrow> s))"

definition registry_access :: "skill_registry \<Rightarrow> bool \<Rightarrow> string \<Rightarrow> exc + skill_scope" where
  "registry_access scopes active agent =
     (if \<not> active then Inl (ContextUnavailableError ''context is no longer active'')
      else (case map_of scopes agent of
        None \<Rightarrow> Inl (SkillNotFoundError (''skills are not configured for agent '' @ agent)) | Some s \<Rightarrow> Inr s))"

end
