(* ===== verification/Skill_Props.thy ===== *)
theory Skill_Props
  imports Skill_Selection Decision_Props "HOL-Library.Multiset"
begin

text \<open>
  An invocation sees one version of each skill, whatever its tasks do concurrently; automatic selection
  only ever picks visible skills, the ones the task names first; and the ranking of a search is the
  catalog, sorted by score.
\<close>

section \<open>One version per invocation\<close>

text \<open>
  The second half of a load or of a resource read, with whatever its first half had begun with. First
  halves leave the pins alone, so any interleaving of the calls of an invocation is a sequence of these.
  The sources are given anew to each, because what they return may change in between.
\<close>

datatype access_end =
    EndLoad skill_scope string string "string \<times> string option"
  | EndResource skill_scope string string string "string \<times> string option"

type_synonym skill_key = "string \<times> string \<times> string"

fun end_access :: "access_end \<Rightarrow> skill_pins \<Rightarrow> (skill_key \<times> string) list \<times> skill_pins" where
  "end_access (EndLoad sources agent skill_id begun) pins =
     (case end_load sources agent skill_id begun pins of
        (Inl _, pins') \<Rightarrow> ([], pins')
      | (Inr document, pins') \<Rightarrow> ([((agent, fst begun, skill_id), sk_version (sd_descriptor document))], pins'))"
| "end_access (EndResource sources agent skill_id path begun) pins =
     (case end_load_resource sources agent skill_id path begun pins of
        (Inl _, pins') \<Rightarrow> ([], pins')
      | (Inr r, pins') \<Rightarrow> ([((agent, fst begun, skill_id), sr_version r)], pins'))"

fun run_access :: "access_end list \<Rightarrow> skill_pins \<Rightarrow> (skill_key \<times> string) list \<times> skill_pins" where
  "run_access [] pins = ([], pins)"
| "run_access (e # es) pins = (case end_access e pins of
     (seen, pins1) \<Rightarrow> (case run_access es pins1 of (later, pins2) \<Rightarrow> (seen @ later, pins2)))"

lemma pin_skill_effect:
  assumes "pin_skill agent source skill_id version pins = (x, pins')"
  shows "map_of pins \<subseteq>\<^sub>m map_of pins' \<and> (\<forall>u. x = Inr u \<longrightarrow> map_of pins' (agent, source, skill_id) = Some version)"
  using assms by (auto simp: pin_skill_def map_le_def split: option.splits if_splits)

lemma end_access_effect:
  assumes "end_access e pins = (seen, pins')"
  shows "map_of pins \<subseteq>\<^sub>m map_of pins' \<and> (\<forall>(k, v) \<in> set seen. map_of pins' k = Some v)"
proof (cases e)
  case (EndLoad sources agent skill_id begun)
  with assms show ?thesis
    by (auto simp: end_load_def split: sum.splits prod.splits dest: pin_skill_effect)
next
  case (EndResource sources agent skill_id path begun)
  with assms show ?thesis
    by (auto simp: end_load_resource_def split: sum.splits prod.splits dest: pin_skill_effect)
qed

lemma run_access_effect:
  assumes "run_access es pins = (seen, pins')"
  shows "map_of pins \<subseteq>\<^sub>m map_of pins' \<and> (\<forall>(k, v) \<in> set seen. map_of pins' k = Some v)"
  using assms
proof (induction es arbitrary: pins seen pins')
  case (Cons e es)
  obtain first pins1 where e: "end_access e pins = (first, pins1)" by (cases "end_access e pins")
  obtain later where l: "run_access es pins1 = (later, pins')" "seen = first @ later"
    using Cons.prems e by (auto split: prod.splits)
  have a: "map_of pins \<subseteq>\<^sub>m map_of pins1" "\<forall>(k, v) \<in> set first. map_of pins1 k = Some v"
    using end_access_effect [OF e] by auto
  have b: "map_of pins1 \<subseteq>\<^sub>m map_of pins'" "\<forall>(k, v) \<in> set later. map_of pins' k = Some v"
    using Cons.IH [OF l(1)] by auto
  have "map_of pins' k = Some v" if "map_of pins1 k = Some v" for k v
    using b(1) that by (auto simp: map_le_def dest: bspec [where x = k])
  with a b l(2) show ?case by (auto intro: map_le_trans)
qed simp

text \<open>
  C23. However the loads and resource reads of the tasks of one invocation interleave, and even if a
  source changes meanwhile, two that succeed for the same agent, source and skill are of the same
  version.
\<close>

theorem skill_version_stable:
  assumes "(k, v) \<in> set (fst (run_access ends []))" "(k, v') \<in> set (fst (run_access ends []))"
  shows "v = v'"
proof -
  obtain seen pins where r: "run_access ends [] = (seen, pins)" by (cases "run_access ends []")
  then have "map_of pins k = Some v" "map_of pins k = Some v'"
    using run_access_effect [OF r] assms by auto
  then show ?thesis by simp
qed

definition one_version :: "string \<Rightarrow> skill_scope" where
  "one_version version = [(''s'', \<lparr> so_list = (\<lambda>_ _ _. OtherClass ''''),
     so_load = (\<lambda>skill_id _. Returned \<lparr> sd_descriptor = \<lparr> sk_id = skill_id, sk_name = ''n'', sk_description = ''d'',
        sk_version = version \<rparr>, sd_instructions = ''do'' \<rparr>),
     so_load_resource = (\<lambda>_ _ _. OtherClass '''') \<rparr>)]"

text \<open>Two loads begun without a pin while the source changes its version: only the first succeeds.\<close>

theorem skill_version_stable_witness:
  "{v. ((''a'', ''s'', ''k''), v) \<in> set (fst (run_access
      [EndLoad (one_version ''1'') ''a'' ''k'' (''s'', None), EndLoad (one_version ''2'') ''a'' ''k'' (''s'', None)] []))} = {''1''}"
    (is "{v. (?k, v) \<in> set (fst (run_access ?ends []))} = _")
proof -
  have "fst (run_access ?ends []) = [(?k, ''1'')]" by code_simp
  then have first: "(?k, ''1'') \<in> set (fst (run_access ?ends []))" by simp
  show ?thesis using first skill_version_stable [OF _ first] by blast
qed


section \<open>Automatic selection\<close>

text \<open>A decision built at run time has no failure branch, so a result carries validated answers.\<close>

lemma evaluate_definition_answers:
  assumes "evaluate_definition dn d state provider duration = Inr ev"
  shows "\<exists>answers c. de_response ev = Some answers \<and> validate_response d answers c = None"
proof -
  obtain name where e: "evaluate_binding dn \<lparr> db_definition = d, db_provider = name, db_policy = None, db_on_error = None \<rparr>
      state duration = Inr ev"
    using assms by (auto simp: evaluate_definition_def sum_bind_Inr Let_def split: option.splits)
  then obtain request provider where r: "make_request d state = Inr request" "map_of (dn_providers dn) name = Some provider"
      "sum_bind (call_provider provider request) (\<lambda>(answers, error).
         sum_bind (error_category error) (\<lambda>category.
         sum_bind (case error of Some e \<Rightarrow> Inl e | None \<Rightarrow> Inr None)
           (\<lambda>result. Inr \<lparr> de_decision = dd_name d, de_version = dd_version d, de_provider = name,
              de_provider_version = dp_version provider, de_response = answers, de_outcome = result,
              de_duration_seconds = duration, de_error = category \<rparr>))) = Inr ev"
    by (auto simp: evaluate_binding_def sum_bind_Inr split: option.splits)
  have d: "dr_definition request = d"
    using r(1) by (auto simp: make_request_def sum_bind_Inr split: live_value.splits)
  show ?thesis
  proof (cases rule: call_provider_cases [of provider request])
    case (answered answers)
    with r(3) d show ?thesis by (auto simp: sum_bind_Inr)
  qed (use r(3) in \<open>auto simp: sum_bind_Inr\<close>)
qed

lemma picked_total:
  assumes "\<forall>(i, item) \<in> set xs. \<exists>v p c. map_of answers (''skill_'' @ int_text (int i)) = Some (ChoiceResult v p c)"
  shows "\<exists>items. picked answers xs = Inr items \<and> subseq items (map snd xs)"
  using assms
proof (induction xs)
  case (Cons x xs)
  obtain i item where x: "x = (i, item)" by (cases x)
  obtain items where i: "picked answers xs = Inr items" "subseq items (map snd xs)" using Cons by auto
  obtain v p c where "map_of answers (''skill_'' @ int_text (int i)) = Some (ChoiceResult v p c)"
    using Cons.prems x by auto
  with i x show ?case by auto
qed simp

lemma skill_answers_total:
  assumes "validate_response (skill_definition dump digest s items) answers c = None"
  shows "\<exists>chosen. picked answers (zip [0..<length items] items) = Inr chosen \<and> subseq chosen items"
proof -
  have "\<exists>v p c. map_of answers (''skill_'' @ int_text (int i)) = Some (ChoiceResult v p c)"
    if "(i, item) \<in> set (zip [0..<length items] items)" for i item
  proof -
    have "skill_question dump s i item \<in> set (dd_questions (skill_definition dump digest s items))"
      using that by (force simp: skill_definition_def)
    from validated_answer [OF assms this] obtain a where
        "map_of answers (''skill_'' @ int_text (int i)) = Some a" "validate_choice
          [(''select'', ''This skill is needed''), (''skip'', ''This skill is not needed'')] a = None"
      by (auto simp: skill_question_def validate_answer_def)
    then show ?thesis by (cases a) (auto simp: validate_choice_def)
  qed
  then have "\<forall>(i, item) \<in> set (zip [0..<length items] items).
      \<exists>v p c. map_of answers (''skill_'' @ int_text (int i)) = Some (ChoiceResult v p c)" by blast
  from picked_total [OF this] show ?thesis by (simp only: map_snd_zip length_upt diff_zero)
qed

lemma explicit_subseq: "subseq (take n (explicit_skills candidates task)) candidates"
  unfolding explicit_skills_def Let_def
  by (rule subseq_order.order_trans [OF prefix_imp_subseq [OF take_is_prefix] subseq_filter_left])

lemma subseq_set: "subseq xs ys \<Longrightarrow> set xs \<subseteq> set ys"
  by (induction rule: list_emb.induct) auto

lemma count_list_subseq: "subseq xs ys \<Longrightarrow> count_list xs x \<le> count_list ys x"
  by (induction rule: list_emb.induct) auto

lemma count_list_filter: "count_list (filter P xs) x = (if P x then count_list xs x else 0)"
  by (induction xs) auto

text \<open>
  When a selection chooses, it chooses at most the configured number of skills, each of them a
  candidate the agent can see and none more often than it is one; the skills the task mentions come
  first, and none of them gives way to a model's choice. When it fails, it fails before its answers are
  read: in the resource, in building the decision or in its evaluation.
\<close>

theorem selection_stays_in_catalog:
  "let explicit = take (nat (sl_max_skills s)) (explicit_skills candidates task) in
   case choose_skills dump digest s resource candidates payload task duration of
     Inr chosen \<Rightarrow> length chosen \<le> nat (sl_max_skills s) \<and> set chosen \<subseteq> set candidates \<and>
       (\<forall>x. count_list chosen x \<le> count_list candidates x) \<and> take (length explicit) chosen = explicit
   | Inl e \<Rightarrow> resource = Inl e \<or> (\<exists>dn remaining. resource = Inr dn \<and>
       (check_all (map check_question (dd_questions (skill_definition dump digest s remaining)) @
           [check_definition (skill_definition dump digest s remaining)]) = Some e \<or>
        evaluate_definition dn (skill_definition dump digest s remaining) (Table 0 [(PyStr ''input'', live_of 1 payload)])
           (sl_provider s) duration = Inl e))"
proof -
  let ?limit = "nat (sl_max_skills s)"
  let ?explicit = "take ?limit (explicit_skills candidates task)"
  let ?remaining = "filter (\<lambda>item. item \<notin> set ?explicit) candidates"
  let ?d = "skill_definition dump digest s ?remaining"
  have ex: "set ?explicit \<subseteq> set candidates" "\<And>x. count_list ?explicit x \<le> count_list candidates x"
    by (rule subseq_set [OF explicit_subseq], rule count_list_subseq [OF explicit_subseq])
  show ?thesis
  proof (cases "length ?explicit = ?limit \<or> length ?explicit = length candidates")
    case True
    then have c: "choose_skills dump digest s resource candidates payload task duration = Inr ?explicit"
      by (simp add: choose_skills_def Let_def)
    show ?thesis unfolding c Let_def sum.case using ex by (auto simp: min_def)
  next
    case False
    then have c: "choose_skills dump digest s resource candidates payload task duration =
        sum_bind resource (\<lambda>dn. case check_all (map check_question (dd_questions ?d) @ [check_definition ?d]) of
          Some e \<Rightarrow> Inl e
        | None \<Rightarrow> sum_bind (evaluate_definition dn ?d (Table 0 [(PyStr ''input'', live_of 1 payload)]) (sl_provider s) duration)
            (\<lambda>ev. case de_response ev of None \<Rightarrow> Inl (AttributeError ''answers'')
             | Some answers \<Rightarrow> sum_bind (picked answers (zip [0..<length ?remaining] ?remaining)) (\<lambda>selected.
                 Inr (take ?limit (?explicit @ selected)))))"
      unfolding choose_skills_def Let_def by (simp only: if_False simp_thms)
    show ?thesis
    proof (cases resource)
      case (Inl e)
      show ?thesis unfolding c unfolding Inl by simp
    next
      case res: (Inr dn)
      note c' = c [unfolded res sum_bind_simps]
      show ?thesis
      proof (cases "check_all (map check_question (dd_questions ?d) @ [check_definition ?d])")
        case (Some e)
        show ?thesis unfolding res c' Some option.case Let_def sum.case using Some by blast
      next
        case None
        show ?thesis
        proof (cases "evaluate_definition dn ?d (Table 0 [(PyStr ''input'', live_of 1 payload)]) (sl_provider s) duration")
          case (Inl e)
          show ?thesis
            unfolding res c' None option.case Inl sum_bind_simps Let_def sum.case using Inl by blast
        next
          case ev: (Inr ev)
          obtain answers c where a: "de_response ev = Some answers" "validate_response ?d answers c = None"
            using evaluate_definition_answers [OF ev] by blast
          obtain selected where p: "picked answers (zip [0..<length ?remaining] ?remaining) = Inr selected"
              "subseq selected ?remaining"
            using skill_answers_total [OF a(2)] by blast
          have r: "set selected \<subseteq> set candidates"
            using subseq_set [OF p(2)] by auto
          have count: "count_list selected x \<le> (if x \<in> set ?explicit then 0 else count_list candidates x)" for x
            using count_list_subseq [OF p(2), of x] unfolding count_list_filter by (auto split: if_splits)
          have "count_list (?explicit @ selected) x \<le> count_list candidates x" for x
            using ex(2) [of x] count [of x] count_list_0_iff [of ?explicit x]
            unfolding count_list_append by (split if_split_asm) linarith+
          moreover have "count_list (take n xs) x \<le> count_list xs x" for n and xs :: "catalog_skill list" and x
            by (rule count_list_subseq) (rule prefix_imp_subseq [OF take_is_prefix])
          ultimately have "count_list (take ?limit (?explicit @ selected)) x \<le> count_list candidates x" for x
            by (meson order_trans)
          moreover have "set (take ?limit (?explicit @ selected)) \<subseteq> set candidates"
            using ex(1) r set_take_subset [of ?limit "?explicit @ selected"] unfolding set_append by blast
          moreover have "length (take ?limit (?explicit @ selected)) \<le> ?limit" by simp
          moreover have "take (length ?explicit) (take ?limit (?explicit @ selected)) = ?explicit" by (simp add: min_def)
          ultimately show ?thesis
            unfolding res c' None option.case ev sum_bind_simps a(1) p(1) Let_def sum.case by blast
        qed
      qed
    qed
  qed
qed


section \<open>Searching\<close>

text \<open>A similarity is a fraction of one, so a typo is worth less than a root and a root less than the word.\<close>

lemma matching_size_le: "matching_size a b \<le> length a \<and> matching_size a b \<le> length b"
proof (induction a b rule: matching_size.induct)
  case (1 a b)
  obtain i j k where m: "longest_match a b = (i, j, k)" by (cases "longest_match a b")
  note bound = longest_match_bounds [OF m]
  show ?case
  proof (cases "k = 0")
    case True
    then show ?thesis by (simp add: matching_size.simps m)
  next
    case False
    with "1.IH" [OF m [symmetric] refl False] bound show ?thesis
      by (auto simp: matching_size.simps [of a b] m)
  qed
qed

lemma rank_catalog_sorted:
  "mset (rank_catalog_skills items query) = mset items \<and>
   sorted_wrt (\<lambda>a b. skill_query_score (cs_descriptor b) query \<le> skill_query_score (cs_descriptor a) query)
     (rank_catalog_skills items query)"
proof -
  have "sorted (map (\<lambda>item. - skill_query_score (cs_descriptor item) query) (rank_catalog_skills items query))"
    by (simp add: rank_catalog_skills_def)
  then show ?thesis by (simp add: rank_catalog_skills_def sorted_wrt_map)
qed

end
