(* ===== verification/Server_Config.thy ===== *)
theory Server_Config
  imports Continuation_Records
begin

text \<open>
  The configuration of the compiled server (\<^verbatim>\<open>server_config.py\<close>): the strict decoding of a parsed
  document, with environment references resolved at startup or replaced by placeholders when a
  template is only validated. A document is a dynamic value, as the YAML parser returns it; reading
  the file and parsing YAML are not modelled. The text of a number in the environment is read by
  Python's \<^verbatim>\<open>float\<close>, a parameter.
\<close>

definition config_error :: "string \<Rightarrow> string \<Rightarrow> exc" where
  "config_error name problem = ServerConfigError (name @ problem)"


section \<open>Scalars\<close>

definition config_text :: "pyval \<Rightarrow> string \<Rightarrow> exc + string" where
  "config_text v name = (case v of
     PyStr s \<Rightarrow> if blank s then Inl (config_error name '' must be a non-empty string'') else Inr (strip s)
   | _ \<Rightarrow> Inl (config_error name '' must be a non-empty string''))"

definition config_boolean :: "pyval \<Rightarrow> string \<Rightarrow> exc + bool" where
  "config_boolean v name = (case v of PyBool b \<Rightarrow> Inr b | _ \<Rightarrow> Inl (config_error name '' must be boolean''))"

definition config_integer :: "int \<Rightarrow> int \<Rightarrow> pyval \<Rightarrow> string \<Rightarrow> exc + int" where
  "config_integer minimum maximum v name = (case v of
     PyInt n \<Rightarrow> if n < minimum \<or> n > maximum then Inl (config_error name '' must be between its bounds'') else Inr n
   | _ \<Rightarrow> Inl (config_error name '' must be an integer''))"

text \<open>An integer whose nearest float is beyond the largest one cannot be converted.\<close>

definition float_overflow :: "int \<Rightarrow> bool" where
  "float_overflow n \<longleftrightarrow> \<bar>n\<bar> \<ge> 2 ^ 1024 - 2 ^ 970"

definition config_number :: "rat \<Rightarrow> pyval \<Rightarrow> string \<Rightarrow> exc + rat" where
  "config_number maximum v name =
     (case (case v of
          PyInt n \<Rightarrow> if float_overflow n then Inl (OverflowError ''int too large to convert to float'') else Inr (Fin (of_int n))
        | PyFloat x \<Rightarrow> Inr x
        | _ \<Rightarrow> Inl (config_error name '' must be a number'')) of
        Inl e \<Rightarrow> Inl e
      | Inr (Fin q) \<Rightarrow>
          if q \<le> 0 \<or> q > maximum then Inl (config_error name '' must be greater than zero and at most its maximum'') else Inr q
      | Inr _ \<Rightarrow> Inl (config_error name '' must be greater than zero and at most its maximum''))"

definition decimal_value :: "string \<Rightarrow> int" where
  "decimal_value s = foldl (\<lambda>n c. 10 * n + (of_char c - 48)) 0 s"

text \<open>Python converts at most this many digits.\<close>

definition max_int_digits :: nat where
  "max_int_digits = 4300"

text \<open>\<^verbatim>\<open>fullmatch\<close> of a decimal without leading zero and an optional binary unit.\<close>

definition size_units :: "(string \<times> int) list" where
  "size_units = [('''', 1), (''B'', 1), (''KiB'', 1024), (''MiB'', 1024 * 1024), (''GiB'', 1024 * 1024 * 1024)]"

definition size_pattern :: "string \<Rightarrow> (string \<times> string) option" where
  "size_pattern s = (let digits = takeWhile digit s; unit = dropWhile digit s in
     if digits = [] \<or> hd digits = CHR ''0'' \<or> map_of size_units unit = None then None else Some (digits, unit))"

definition byte_size :: "pyval \<Rightarrow> string \<Rightarrow> exc + int" where
  "byte_size v name =
     sum_bind (case v of
         PyInt n \<Rightarrow> Inr n
       | PyStr s \<Rightarrow> (case size_pattern s of
             Some (digits, unit) \<Rightarrow>
               if length digits > max_int_digits then Inl (ValueError ''Exceeds the limit for integer string conversion'')
               else Inr (decimal_value digits * the (map_of size_units unit))
           | None \<Rightarrow> Inl (config_error name '' must be bytes or a binary size such as 10MiB''))
       | _ \<Rightarrow> Inl (config_error name '' must be bytes or a binary size such as 10MiB'')) (\<lambda>result.
     if result < 1024 \<or> result > 1073741824 then Inl (config_error name '' must be between 1KiB and 1GiB'') else Inr result)"

definition format_byte_size :: "int \<Rightarrow> string" where
  "format_byte_size n =
     (if n mod 1073741824 = 0 then int_text (n div 1073741824) @ ''GiB''
      else if n mod 1048576 = 0 then int_text (n div 1048576) @ ''MiB''
      else if n mod 1024 = 0 then int_text (n div 1024) @ ''KiB''
      else int_text n @ ''B'')"


section \<open>Environment references\<close>

type_synonym environment = "(string \<times> string) list"

definition name_start :: "char \<Rightarrow> bool" where
  "name_start c \<longleftrightarrow> lower_case c \<or> upper_case c \<or> c = CHR ''_''"

definition name_rest :: "char \<Rightarrow> bool" where
  "name_rest c \<longleftrightarrow> name_start c \<or> digit c"

text \<open>The variable of a value that is exactly \<^verbatim>\<open>${NAME}\<close>.\<close>

definition environment_reference :: "pyval \<Rightarrow> string option" where
  "environment_reference v = (case v of
     PyStr s \<Rightarrow>
       (if 4 \<le> length s \<and> take 2 s = [CHR ''$'', CHR 0x7B] \<and> last s = CHR 0x7D then
          (let name = butlast (drop 2 s) in
           if name_start (hd name) \<and> list_all name_rest name then Some name else None)
        else None)
   | _ \<Rightarrow> None)"

text \<open>
  A parser is told whether its value comes from the environment. Every error class it raises there is
  a \<^verbatim>\<open>ValueError\<close>, so that the error never carries the value.
\<close>

definition resolve_scalar ::
    "pyval \<Rightarrow> string \<Rightarrow> environment option \<Rightarrow> 'a \<Rightarrow> (pyval \<Rightarrow> bool \<Rightarrow> exc + 'a) \<Rightarrow> exc + 'a" where
  "resolve_scalar v name env placeholder parser =
     (case environment_reference v of
        None \<Rightarrow>
          if (case v of PyStr s \<Rightarrow> CHR ''$'' \<in> set s | _ \<Rightarrow> False) then
            Inl (config_error name '' environment references must use the exact syntax'')
          else parser v False
      | Some variable \<Rightarrow> (case env of
          None \<Rightarrow> Inr placeholder
        | Some e \<Rightarrow> (case map_of e variable of
            None \<Rightarrow> Inl (config_error (''environment variable '' @ variable @ '' required by '' @ name) '' is unset'')
          | Some raw \<Rightarrow>
              if blank raw then Inl (config_error (''environment variable '' @ variable @ '' required by '' @ name) '' is empty'')
              else (case parser (PyStr (strip raw)) True of
                Inr x \<Rightarrow> Inr x
              | Inl _ \<Rightarrow> Inl (config_error (''environment variable '' @ variable @ '' is invalid for '' @ name) '''')))))"

definition environment_boolean :: "pyval \<Rightarrow> exc + pyval" where
  "environment_boolean v =
     (if v = PyStr ''true'' then Inr (PyBool True) else if v = PyStr ''false'' then Inr (PyBool False)
      else Inl (ValueError ''invalid environment boolean''))"

definition environment_integer :: "pyval \<Rightarrow> exc + pyval" where
  "environment_integer v = (case v of
     PyStr s \<Rightarrow> if s \<noteq> [] \<and> list_all digit s \<and> length s \<le> max_int_digits then Inr (PyInt (decimal_value s))
       else Inl (ValueError ''invalid environment integer'')
   | _ \<Rightarrow> Inl (ValueError ''invalid environment integer''))"

definition environment_number :: "(string \<Rightarrow> pyfloat option) \<Rightarrow> pyval \<Rightarrow> exc + pyval" where
  "environment_number float_of v = (case v of
     PyStr s \<Rightarrow> (case float_of s of Some x \<Rightarrow> Inr (PyFloat x) | None \<Rightarrow> Inl (ValueError ''could not convert string to float''))
   | _ \<Rightarrow> Inl (ValueError ''invalid environment number''))"

definition converted :: "(pyval \<Rightarrow> exc + pyval) \<Rightarrow> (pyval \<Rightarrow> string \<Rightarrow> exc + 'a) \<Rightarrow> string \<Rightarrow> pyval \<Rightarrow> bool \<Rightarrow> exc + 'a" where
  "converted convert check name v from_environment =
     (if from_environment then sum_bind (convert v) (\<lambda>w. check w name) else check v name)"

definition resolved_text :: "pyval \<Rightarrow> string \<Rightarrow> environment option \<Rightarrow> exc + string" where
  "resolved_text v name env = resolve_scalar v name env ''environment-reference'' (\<lambda>item _. config_text item name)"

definition resolved_boolean :: "pyval \<Rightarrow> string \<Rightarrow> environment option \<Rightarrow> exc + bool" where
  "resolved_boolean v name env = resolve_scalar v name env False (converted environment_boolean config_boolean name)"

definition resolved_integer :: "pyval \<Rightarrow> string \<Rightarrow> environment option \<Rightarrow> int \<Rightarrow> int \<Rightarrow> exc + int" where
  "resolved_integer v name env minimum maximum =
     resolve_scalar v name env minimum (converted environment_integer (config_integer minimum maximum) name)"

definition resolved_number :: "(string \<Rightarrow> pyfloat option) \<Rightarrow> pyval \<Rightarrow> string \<Rightarrow> environment option \<Rightarrow> rat \<Rightarrow> exc + rat" where
  "resolved_number float_of v name env maximum =
     resolve_scalar v name env 1 (converted (environment_number float_of) (config_number maximum) name)"

definition resolved_byte_size :: "pyval \<Rightarrow> string \<Rightarrow> environment option \<Rightarrow> exc + int" where
  "resolved_byte_size v name env = resolve_scalar v name env 1024 (\<lambda>item _. byte_size item name)"


section \<open>Documents\<close>

record http_config =
  hc_host :: string
  hc_port :: int
  hc_allow_remote :: bool
  hc_request_timeout_seconds :: rat
  hc_max_concurrent_requests :: int

record server_config =
  vc_http :: http_config
  vc_max_request_bytes :: int
  vc_playground_enabled :: bool
  vc_live :: bool
  vc_agent_principal :: string
  vc_openapi :: bool
  vc_agui :: bool

definition default_http :: http_config where
  "default_http = \<lparr> hc_host = ''127.0.0.1'', hc_port = 1907, hc_allow_remote = False, hc_request_timeout_seconds = 300,
     hc_max_concurrent_requests = 8 \<rparr>"

definition default_server_config :: server_config where
  "default_server_config = \<lparr> vc_http = default_http, vc_max_request_bytes = 1024 * 1024, vc_playground_enabled = True,
     vc_live = False, vc_agent_principal = ''optional'', vc_openapi = True, vc_agui = True \<rparr>"

type_synonym mapping = "(string \<times> pyval) list"

definition config_mapping :: "pyval \<Rightarrow> string \<Rightarrow> exc + mapping" where
  "config_mapping v name = (case v of
     PyDict kvs \<Rightarrow>
       (if list_all (\<lambda>(k, _). case k of PyStr _ \<Rightarrow> True | _ \<Rightarrow> False) kvs
        then Inr (map (\<lambda>(k, x). (case k of PyStr s \<Rightarrow> s | _ \<Rightarrow> [], x)) kvs)
        else Inl (config_error name '' must be a mapping with string keys''))
   | _ \<Rightarrow> Inl (config_error name '' must be a mapping with string keys''))"

definition require_keys :: "mapping \<Rightarrow> string list \<Rightarrow> string \<Rightarrow> exc + unit" where
  "require_keys m expected name = guard_that (fst ` set m = set expected) (config_error name '' fields are invalid'')"

definition field :: "mapping \<Rightarrow> string \<Rightarrow> exc + pyval" where
  "field m name = (case map_of m name of Some v \<Rightarrow> Inr v | None \<Rightarrow> Inl (KeyError name))"

definition validate_http :: "http_config \<Rightarrow> exc + http_config" where
  "validate_http c =
     sum_bind (config_text (PyStr (hc_host c)) ''http.host'') (\<lambda>host.
     sum_bind (config_integer 1 65535 (PyInt (hc_port c)) ''http.port'') (\<lambda>port.
     sum_bind (config_number 86400 (PyFloat (Fin (hc_request_timeout_seconds c))) ''http.requestTimeoutSeconds'') (\<lambda>timeout.
     sum_bind (config_integer 1 100000 (PyInt (hc_max_concurrent_requests c)) ''http.maxConcurrentRequests'') (\<lambda>concurrency.
       Inr \<lparr> hc_host = host, hc_port = port, hc_allow_remote = hc_allow_remote c, hc_request_timeout_seconds = timeout,
             hc_max_concurrent_requests = concurrency \<rparr>))))"

definition decode_http :: "(string \<Rightarrow> pyfloat option) \<Rightarrow> pyval \<Rightarrow> environment option \<Rightarrow> exc + http_config" where
  "decode_http float_of v env =
     sum_bind (config_mapping v ''http'') (\<lambda>data.
     sum_bind (require_keys data [''host'', ''port'', ''allowRemote'', ''requestTimeoutSeconds'', ''maxConcurrentRequests''] ''http'') (\<lambda>_.
     sum_bind (sum_bind (field data ''host'') (\<lambda>x. resolved_text x ''http.host'' env)) (\<lambda>host.
     sum_bind (sum_bind (field data ''port'') (\<lambda>x. resolved_integer x ''http.port'' env 1 65535)) (\<lambda>port.
     sum_bind (sum_bind (field data ''allowRemote'') (\<lambda>x. resolved_boolean x ''http.allowRemote'' env)) (\<lambda>remote.
     sum_bind (sum_bind (field data ''requestTimeoutSeconds'')
        (\<lambda>x. resolved_number float_of x ''http.requestTimeoutSeconds'' env 86400)) (\<lambda>timeout.
     sum_bind (sum_bind (field data ''maxConcurrentRequests'')
        (\<lambda>x. resolved_integer x ''http.maxConcurrentRequests'' env 1 100000)) (\<lambda>concurrency.
       validate_http \<lparr> hc_host = host, hc_port = port, hc_allow_remote = remote, hc_request_timeout_seconds = timeout,
         hc_max_concurrent_requests = concurrency \<rparr>)))))))"

definition decode_limits :: "pyval \<Rightarrow> environment option \<Rightarrow> exc + int" where
  "decode_limits v env =
     sum_bind (config_mapping v ''limits'') (\<lambda>data.
     sum_bind (require_keys data [''maxRequestBytes''] ''limits'') (\<lambda>_.
     sum_bind (field data ''maxRequestBytes'') (\<lambda>x. resolved_byte_size x ''limits.maxRequestBytes'' env)))"

definition decode_playground :: "pyval \<Rightarrow> environment option \<Rightarrow> exc + bool" where
  "decode_playground v env =
     sum_bind (config_mapping v ''playground'') (\<lambda>data.
     sum_bind (require_keys data [''enabled''] ''playground'') (\<lambda>_.
     sum_bind (field data ''enabled'') (\<lambda>x. resolved_boolean x ''playground.enabled'' env)))"

text \<open>\<^verbatim>\<open>value not in {...}\<close> hashes the value: a list or a dictionary raises before it is compared.\<close>

definition agent_principal_mode :: "pyval \<Rightarrow> exc + string" where
  "agent_principal_mode v =
     (if \<not> hashable v then Inl (TypeError ''unhashable type'')
      else (case v of
        PyStr s \<Rightarrow> if s \<in> {''optional'', ''required''} then Inr s
                   else Inl (config_error ''agentPrincipal'' '' must be either optional or required'')
      | _ \<Rightarrow> Inl (config_error ''agentPrincipal'' '' must be either optional or required'')))"

definition root_sections :: "string list" where
  "root_sections = [''apiVersion'', ''kind'', ''http'', ''limits'', ''playground'', ''live'', ''agentPrincipal'', ''openapi'', ''agui'']"

definition legacy_defaults :: mapping where
  "legacy_defaults = [(''live'', PyBool True), (''agentPrincipal'', PyStr ''optional''), (''openapi'', PyBool True), (''agui'', PyBool True)]"

definition merge_mapping :: "mapping \<Rightarrow> mapping \<Rightarrow> mapping" where
  "merge_mapping old new = fold (\<lambda>(k, v) d. AList.update k v d) new old"

definition decode_config :: "(string \<Rightarrow> pyfloat option) \<Rightarrow> pyval \<Rightarrow> environment option \<Rightarrow> exc + server_config" where
  "decode_config float_of v env =
     sum_bind (config_mapping v ''server.yaml'') (\<lambda>document.
     let root = merge_mapping legacy_defaults document in
     sum_bind (require_keys root root_sections ''server.yaml'') (\<lambda>_.
     if map_of root ''apiVersion'' \<noteq> Some (PyStr ''harnest.dev/v1alpha1'') \<or> map_of root ''kind'' \<noteq> Some (PyStr ''Server'') then
       Inl (ServerConfigError ''unsupported apiVersion/kind'')
     else
       sum_bind (sum_bind (field root ''http'') (\<lambda>x. decode_http float_of x env)) (\<lambda>http.
       sum_bind (sum_bind (field root ''limits'') (\<lambda>x. decode_limits x env)) (\<lambda>limit.
       sum_bind (sum_bind (field root ''playground'') (\<lambda>x. decode_playground x env)) (\<lambda>playground.
       sum_bind (sum_bind (field root ''live'') (\<lambda>x. resolved_boolean x ''live'' env)) (\<lambda>live.
       sum_bind (sum_bind (field root ''agentPrincipal'') agent_principal_mode) (\<lambda>principal.
       sum_bind (sum_bind (field root ''openapi'') (\<lambda>x. resolved_boolean x ''openapi'' env)) (\<lambda>openapi.
       sum_bind (sum_bind (field root ''agui'') (\<lambda>x. resolved_boolean x ''agui'' env)) (\<lambda>agui.
         Inr \<lparr> vc_http = http, vc_max_request_bytes = limit, vc_playground_enabled = playground, vc_live = live,
               vc_agent_principal = principal, vc_openapi = openapi, vc_agui = agui \<rparr>)))))))))"

text \<open>The launcher's overrides, validated again.\<close>

definition with_overrides ::
    "string option \<Rightarrow> int option \<Rightarrow> rat option \<Rightarrow> int option \<Rightarrow> bool option \<Rightarrow> server_config \<Rightarrow> exc + server_config" where
  "with_overrides host port timeout concurrency remote c =
     (let http = vc_http c in
      sum_bind (validate_http \<lparr> hc_host = (case host of None \<Rightarrow> hc_host http | Some v \<Rightarrow> v),
          hc_port = (case port of None \<Rightarrow> hc_port http | Some v \<Rightarrow> v),
          hc_allow_remote = (case remote of None \<Rightarrow> hc_allow_remote http | Some v \<Rightarrow> v),
          hc_request_timeout_seconds = (case timeout of None \<Rightarrow> hc_request_timeout_seconds http | Some v \<Rightarrow> v),
          hc_max_concurrent_requests = (case concurrency of None \<Rightarrow> hc_max_concurrent_requests http | Some v \<Rightarrow> v) \<rparr>)
        (\<lambda>http'. Inr (c \<lparr> vc_http := http' \<rparr>)))"


section \<open>The section of a project file\<close>

definition default_document :: mapping where
  "default_document =
     [(''apiVersion'', PyStr ''harnest.dev/v1alpha1''), (''kind'', PyStr ''Server''), (''openapi'', PyBool True),
      (''agui'', PyBool True), (''live'', PyBool False), (''agentPrincipal'', PyStr ''optional''),
      (''http'', PyDict [(PyStr ''host'', PyStr ''127.0.0.1''), (PyStr ''port'', PyInt 1907), (PyStr ''allowRemote'', PyBool False),
         (PyStr ''requestTimeoutSeconds'', PyInt 300), (PyStr ''maxConcurrentRequests'', PyInt 8)]),
      (''limits'', PyDict [(PyStr ''maxRequestBytes'', PyStr ''1MiB'')]),
      (''playground'', PyDict [(PyStr ''enabled'', PyBool True)])]"

definition merge_section :: "pyval \<Rightarrow> mapping \<Rightarrow> pyval" where
  "merge_section old overrides = (case old of
     PyDict kvs \<Rightarrow> PyDict (fold (\<lambda>(k, v) d. AList.update (PyStr k) v d) overrides kvs) | _ \<Rightarrow> old)"

fun fill_sections :: "mapping \<Rightarrow> mapping \<Rightarrow> exc + mapping" where
  "fill_sections [] document = Inr document"
| "fill_sections ((name, v) # settings) document =
     (if name \<in> {''live'', ''agentPrincipal'', ''openapi'', ''agui''} then fill_sections settings (AList.update name v document)
      else sum_bind (config_mapping v (''server.'' @ name)) (\<lambda>overrides.
        sum_bind (field document name) (\<lambda>old.
        fill_sections settings (AList.update name (merge_section old overrides) document))))"

definition project_server_document :: "pyval \<Rightarrow> exc + mapping" where
  "project_server_document v =
     sum_bind (config_mapping v ''config.yaml server'') (\<lambda>settings.
     let sections = [''http'', ''limits'', ''playground'', ''live'', ''agentPrincipal'', ''openapi'', ''agui''] in
     sum_bind (require_keys (merge_mapping (map (\<lambda>s. (s, PyNone)) sections) settings) sections ''server'') (\<lambda>_.
       fill_sections settings default_document))"

end
