(* ===== verification/Server_Limits.thy ===== *)
theory Server_Limits
  imports Server_Config "HOL-Library.Sublist"
begin

text \<open>
  The middlewares in front of the server: the cap on requests in flight (\<^verbatim>\<open>server_concurrency.py\<close>) and
  the limits on request bodies and frames (\<^verbatim>\<open>server_limits.py\<close>). A request in flight is an event when
  it arrives and an event when its application returns or raises; events of different requests come in
  any order. An application reads some messages of a body, and what it does is an argument.
\<close>


section \<open>Requests in flight\<close>

datatype scope_kind = Http | Websocket | OtherScope

record asgi_scope =
  as_kind :: scope_kind
  as_method :: string
  as_path :: string
  as_headers :: "(string \<times> string) list"
  as_http_response :: bool

record concurrency_gate =
  gt_limit :: int
  gt_active :: int

definition make_gate :: "int \<Rightarrow> exc + concurrency_gate" where
  "make_gate limit = (if limit < 1 then Inl (ValueError ''max concurrent requests must be a positive integer'')
     else Inr \<lparr> gt_limit = limit, gt_active = 0 \<rparr>)"

definition never_exempt :: "asgi_scope \<Rightarrow> bool" where
  "never_exempt scope = False"

definition playground_page_request :: "asgi_scope \<Rightarrow> bool" where
  "playground_page_request scope =
     (as_kind scope = Http \<and> as_method scope \<in> {''GET'', ''HEAD''} \<and>
      (as_path scope = ''/'' \<or> take 10 (as_path scope) = ''/_harnest/''))"

definition installed_exempt :: "bool \<Rightarrow> asgi_scope \<Rightarrow> bool" where
  "installed_exempt playground_enabled = (if playground_enabled then playground_page_request else never_exempt)"

datatype sent =
    ResponseStart int "(string \<times> string) list"
  | ResponseBody string
  | WebsocketClose int
  | WebsocketResponseStart int "(string \<times> string) list"
  | WebsocketResponseBody string

definition rejection_body :: string where
  "rejection_body = ''Service Unavailable''"

definition reject_websocket :: "asgi_scope \<Rightarrow> sent list" where
  "reject_websocket scope =
     (if \<not> as_http_response scope then [WebsocketClose 1013]
      else [WebsocketResponseStart 503 [(''content-type'', ''text/plain; charset=utf-8'')], WebsocketResponseBody rejection_body])"

definition reject_request :: "asgi_scope \<Rightarrow> sent list" where
  "reject_request scope =
     (if as_kind scope = Websocket then reject_websocket scope
      else [ResponseStart 503 [(''content-type'', ''text/plain; charset=utf-8''),
              (''content-length'', int_text (int (length rejection_body)))], ResponseBody rejection_body])"

datatype admission = Bypassed | Rejected "sent list" | Admitted

definition arrive :: "(asgi_scope \<Rightarrow> bool) \<Rightarrow> asgi_scope \<Rightarrow> concurrency_gate \<Rightarrow> admission \<times> concurrency_gate" where
  "arrive exempt scope g =
     (if as_kind scope = OtherScope \<or> exempt scope then (Bypassed, g)
      else if gt_active g \<ge> gt_limit g then (Rejected (reject_request scope), g)
      else (Admitted, g \<lparr> gt_active := gt_active g + 1 \<rparr>))"

text \<open>The \<^verbatim>\<open>finally\<close> of an admitted request, however its application ends.\<close>

definition leave :: "concurrency_gate \<Rightarrow> concurrency_gate" where
  "leave g = g \<lparr> gt_active := gt_active g - 1 \<rparr>"


section \<open>Sizes of requests\<close>

text \<open>\<^verbatim>\<open>int\<close> of a header: white space around, a sign, digits with single underscores between them.\<close>

definition header_space :: "char \<Rightarrow> bool" where
  "header_space c \<longleftrightarrow> of_char c \<in> {9, 10, 11, 12, 13, 32 :: nat}"

definition header_strip :: "string \<Rightarrow> string" where
  "header_strip s = rev (dropWhile header_space (rev (dropWhile header_space s)))"

fun grouped_digits :: "string \<Rightarrow> bool" where
  "grouped_digits [] = False"
| "grouped_digits [c] = digit c"
| "grouped_digits (c # d # cs) = (digit c \<and> (if d = CHR ''_'' then grouped_digits cs else grouped_digits (d # cs)))"

definition header_integer :: "string \<Rightarrow> int option" where
  "header_integer s =
     (let t = header_strip s;
          negative = (t \<noteq> [] \<and> hd t = CHR ''-'');
          body = (if t \<noteq> [] \<and> hd t \<in> {CHR ''-'', CHR ''+''} then tl t else t) in
      if grouped_digits body \<and> length (filter digit body) \<le> max_int_digits
      then Some ((if negative then - 1 else 1) * decimal_value (filter digit body))
      else None)"

definition content_length :: "asgi_scope \<Rightarrow> int" where
  "content_length scope = (case map_of (rev (as_headers scope)) ''content-length'' of
     None \<Rightarrow> 0 | Some v \<Rightarrow> (case header_integer v of None \<Rightarrow> 0 | Some n \<Rightarrow> n))"

definition strip_slashes :: "string \<Rightarrow> string" where
  "strip_slashes s = rev (dropWhile (\<lambda>c. c = CHR ''/'') (rev (dropWhile (\<lambda>c. c = CHR ''/'') s)))"

fun split_slashes :: "string \<Rightarrow> string list" where
  "split_slashes [] = [[]]"
| "split_slashes (c # cs) = (if c = CHR ''/'' then [] # split_slashes cs
     else (case split_slashes cs of p # ps \<Rightarrow> (c # p) # ps | [] \<Rightarrow> [[c]]))"

definition upper_char :: "char \<Rightarrow> char" where
  "upper_char c = (if lower_case c then char_of ((of_char c :: nat) - 32) else c)"

definition http_maximum :: "asgi_scope \<Rightarrow> int \<Rightarrow> int \<Rightarrow> int" where
  "http_maximum scope request_maximum asset_maximum =
     (case split_slashes (strip_slashes (as_path scope)) of
        [a, b, c] \<Rightarrow> if map upper_char (as_method scope) = ''POST'' \<and> a = ''sessions'' \<and> b \<noteq> [] \<and> c = ''assets''
                     then asset_maximum else request_maximum
      | _ \<Rightarrow> request_maximum)"

datatype message =
    HttpRequest string
  | WebsocketReceive "string option" "string option"
  | OtherMessage string

definition limited_http :: "int \<Rightarrow> int \<Rightarrow> message \<Rightarrow> message option \<times> int" where
  "limited_http maximum read m = (case m of
     HttpRequest body \<Rightarrow>
       (let total = read + int (length body) in (if total > maximum then None else Some m, total))
   | _ \<Rightarrow> (Some m, read))"

definition frame_size :: "string option \<Rightarrow> string option \<Rightarrow> int" where
  "frame_size bytes text = int (case bytes of None \<Rightarrow> 0 | Some b \<Rightarrow> length b) +
     int (case text of None \<Rightarrow> 0 | Some t \<Rightarrow> sum_list (map (\<lambda>c. if (of_char c :: nat) < 128 then 1 else 2) t))"

definition limited_websocket :: "int \<Rightarrow> message \<Rightarrow> message option" where
  "limited_websocket maximum m = (case m of
     WebsocketReceive bytes text \<Rightarrow> if frame_size bytes text > maximum then None else Some m
   | _ \<Rightarrow> Some m)"

text \<open>
  An application that reads the given messages in order and lets the exception of the limit pass: what
  it was given, and whether it was stopped.
\<close>

fun read_http :: "int \<Rightarrow> int \<Rightarrow> message list \<Rightarrow> message list \<times> bool" where
  "read_http maximum read [] = ([], False)"
| "read_http maximum read (m # ms) =
     (case limited_http maximum read m of
        (None, _) \<Rightarrow> ([], True)
      | (Some given, read') \<Rightarrow> (case read_http maximum read' ms of (rest, stopped) \<Rightarrow> (given # rest, stopped)))"

fun read_websocket :: "int \<Rightarrow> message list \<Rightarrow> message list \<times> bool" where
  "read_websocket maximum [] = ([], False)"
| "read_websocket maximum (m # ms) =
     (case limited_websocket maximum m of
        None \<Rightarrow> ([], True)
      | Some given \<Rightarrow> (case read_websocket maximum ms of (rest, stopped) \<Rightarrow> (given # rest, stopped)))"

definition too_large_body :: "int \<Rightarrow> string" where
  "too_large_body maximum = [CHR 0x7B, CHR 0x22] @ ''detail'' @ [CHR 0x22, CHR '':'', CHR 0x22] @
     ''Request body exceeds '' @ format_byte_size maximum @ [CHR 0x22, CHR 0x7D]"

definition reject_http :: "int \<Rightarrow> sent list" where
  "reject_http maximum =
     [ResponseStart 413 [(''content-type'', ''application/json''),
        (''content-length'', int_text (int (length (too_large_body maximum))))], ResponseBody (too_large_body maximum)]"

datatype served =
    NotCalled "sent list"
  | Called "message list"
  | Stopped "message list" "sent list"

definition serve_http :: "int \<Rightarrow> int \<Rightarrow> asgi_scope \<Rightarrow> message list \<Rightarrow> served" where
  "serve_http request_maximum asset_maximum scope messages =
     (let maximum = http_maximum scope request_maximum asset_maximum in
      if content_length scope > maximum then NotCalled (reject_http maximum)
      else (case read_http maximum 0 messages of
        (given, True) \<Rightarrow> Stopped given (reject_http maximum) | (given, False) \<Rightarrow> Called given))"

definition serve_websocket :: "int \<Rightarrow> message list \<Rightarrow> served" where
  "serve_websocket maximum messages = (case read_websocket maximum messages of
     (given, True) \<Rightarrow> Stopped given [WebsocketClose 1009] | (given, False) \<Rightarrow> Called given)"

definition serve_limited :: "int \<Rightarrow> int \<Rightarrow> asgi_scope \<Rightarrow> message list \<Rightarrow> served" where
  "serve_limited request_maximum asset_maximum scope messages = (case as_kind scope of
     Http \<Rightarrow> serve_http request_maximum asset_maximum scope messages
   | Websocket \<Rightarrow> serve_websocket request_maximum messages
   | OtherScope \<Rightarrow> Called messages)"

end
