(* ===== verification/Server_Props.thy ===== *)
theory Server_Props
  imports Server_Limits
begin

text \<open>
  What the server's configuration and its middlewares guarantee: decoded settings within their
  bounds, sizes that are read back as they are written, errors that do not depend on the value of a
  variable, and limits that hold whatever the requests and their order.
\<close>

section \<open>Decoded settings\<close>

definition http_within :: "http_config \<Rightarrow> bool" where
  "http_within c \<longleftrightarrow> hc_host c \<noteq> [] \<and> 1 \<le> hc_port c \<and> hc_port c \<le> 65535 \<and>
     0 < hc_request_timeout_seconds c \<and> hc_request_timeout_seconds c \<le> 86400 \<and>
     1 \<le> hc_max_concurrent_requests c \<and> hc_max_concurrent_requests c \<le> 100000"

definition config_within :: "server_config \<Rightarrow> bool" where
  "config_within c \<longleftrightarrow> http_within (vc_http c) \<and> 1024 \<le> vc_max_request_bytes c \<and> vc_max_request_bytes c \<le> 1073741824 \<and>
     vc_agent_principal c \<in> {''optional'', ''required''}"

lemma validate_http_within: "validate_http c = Inr c' \<Longrightarrow> http_within c'"
  by (auto simp: validate_http_def sum_bind_Inr http_within_def config_text_def config_integer_def config_number_def
      strip_empty_iff split: if_splits)

lemma byte_size_within: "byte_size v name = Inr n \<Longrightarrow> 1024 \<le> n \<and> n \<le> 1073741824"
  by (auto simp: byte_size_def sum_bind_Inr split: if_splits)

lemma resolve_scalar_cases:
  assumes "resolve_scalar v name env placeholder parser = Inr x"
  shows "x = placeholder \<or> (\<exists>w b. parser w b = Inr x)"
  using assms by (auto simp: resolve_scalar_def split: option.splits if_splits sum.splits)

lemma decode_limits_within: "decode_limits v env = Inr n \<Longrightarrow> 1024 \<le> n \<and> n \<le> 1073741824"
  by (auto simp: decode_limits_def sum_bind_Inr resolved_byte_size_def dest!: resolve_scalar_cases byte_size_within)

lemma decode_config_within:
  assumes "decode_config float_of v env = Inr c"
  shows "config_within c"
  using assms
  by (auto simp: decode_config_def Let_def sum_bind_Inr config_within_def decode_http_def agent_principal_mode_def
      dest: validate_http_within decode_limits_within split: if_splits pyval.splits)

text \<open>
  C24. A configuration that decodes, from any document and any environment, is within its bounds: a port,
  a timeout and a number of requests in their ranges, a host that is not blank, a body limit between
  1KiB and 1GiB and one of the two principal modes; and so is it after any overrides that are accepted.
\<close>

theorem accepted_config_within_bounds:
  assumes "decode_config float_of v env = Inr c" "with_overrides host port timeout concurrency remote c = Inr c'"
  shows "config_within c \<and> config_within c'"
proof -
  have "config_within c" by (rule decode_config_within [OF assms(1)])
  with assms(2) show ?thesis
    by (auto simp: with_overrides_def sum_bind_Inr Let_def config_within_def dest: validate_http_within)
qed

text \<open>The document of a project that configures nothing decodes to the defaults, in any environment.\<close>

definition as_document :: "mapping \<Rightarrow> pyval" where
  "as_document m = PyDict (map (\<lambda>(k, v). (PyStr k, v)) m)"

lemma default_document_decodes:
  "decode_config float_of (as_document default_document) env = Inr default_server_config"
  by code_simp

text \<open>With a reference in place of the port, the value of the variable is what counts.\<close>

definition sample_document :: pyval where
  "sample_document = as_document (AList.update ''http''
     (PyDict [(PyStr ''host'', PyStr '' 0.0.0.0 ''), (PyStr ''port'', PyStr ''${PORT}''), (PyStr ''allowRemote'', PyBool True),
        (PyStr ''requestTimeoutSeconds'', PyInt 30), (PyStr ''maxConcurrentRequests'', PyInt 2)]) default_document)"

theorem accepted_config_within_bounds_witness:
  "\<exists>c c'. decode_config (\<lambda>_. None) sample_document (Some [(''PORT'', ''8080'')]) = Inr c \<and>
     with_overrides None (Some 9090) None None None c = Inr c' \<and> hc_port (vc_http c) = 8080 \<and>
     config_within c \<and> config_within c'"
proof -
  let ?c = "default_server_config \<lparr> vc_http := \<lparr> hc_host = ''0.0.0.0'', hc_port = 8080, hc_allow_remote = True,
     hc_request_timeout_seconds = 30, hc_max_concurrent_requests = 2 \<rparr> \<rparr>"
  let ?c' = "default_server_config \<lparr> vc_http := \<lparr> hc_host = ''0.0.0.0'', hc_port = 9090, hc_allow_remote = True,
     hc_request_timeout_seconds = 30, hc_max_concurrent_requests = 2 \<rparr> \<rparr>"
  have d: "decode_config (\<lambda>_. None) sample_document (Some [(''PORT'', ''8080'')]) = Inr ?c" by code_simp
  have o: "with_overrides None (Some 9090) None None None ?c = Inr ?c'" by code_simp
  have "hc_port (vc_http ?c) = 8080" by simp
  with d o accepted_config_within_bounds [OF d o] show ?thesis by blast
qed


section \<open>Sizes\<close>

lemma char_digit [simp]: "d < 10 \<Longrightarrow> digit (char_of (48 + d :: nat))"
  by (simp add: digit_def Let_def)

lemma digits_of_digits: "list_all digit (digits_of n) \<and> digits_of n \<noteq> []"
proof (induction n rule: digits_of.induct)
  case (1 n)
  then show ?case
    by (cases "n < 10") (simp_all add: digits_of.simps [of n] del: of_char_of)
qed

lemma of_char_digit [simp]: "d < 10 \<Longrightarrow> (of_char (char_of (48 + d :: nat)) :: int) = 48 + int d"
  by (subst of_nat_of_char [symmetric]) simp

lemma decimal_value_append: "decimal_value (s @ [c]) = 10 * decimal_value s + (of_char c - 48)"
  by (simp add: decimal_value_def)

lemma decimal_value_digits: "decimal_value (digits_of n) = int n"
proof (induction n rule: digits_of.induct)
  case (1 n)
  show ?case
  proof (cases "n < 10")
    case True
    then show ?thesis by (simp add: digits_of.simps [of n] decimal_value_def)
  next
    case False
    have "int n = 10 * int (n div 10) + int (n mod 10)" by presburger
    with 1 [OF False] False show ?thesis by (subst digits_of.simps) (simp add: decimal_value_append)
  qed
qed

lemma digits_of_first: "0 < n \<Longrightarrow> hd (digits_of n) \<noteq> CHR ''0''"
proof (induction n rule: digits_of.induct)
  case (1 n)
  show ?case
  proof (cases "n < 10")
    case True
    then have "(of_char (char_of (48 + n)) :: nat) \<noteq> of_char CHR ''0''" using 1 by simp
    then have "char_of (48 + n) \<noteq> CHR ''0''" by metis
    with True show ?thesis by (simp add: digits_of.simps [of n])
  next
    case False
    with 1 digits_of_digits [of "n div 10"] show ?thesis by (simp add: digits_of.simps [of n] del: of_char_of)
  qed
qed

lemma length_digits_of: "n < 10 ^ Suc k \<Longrightarrow> length (digits_of n) \<le> Suc k"
proof (induction k arbitrary: n)
  case 0
  then show ?case by (simp add: digits_of.simps [of n])
next
  case (Suc k)
  then have "n div 10 < 10 ^ Suc k" by (simp add: less_mult_imp_div_less)
  with Suc.IH show ?case by (simp add: digits_of.simps [of n])
qed

lemma size_text:
  assumes "0 < n" "n < 10 ^ 10" "map_of size_units unit = Some factor" "unit = [] \<or> \<not> digit (hd unit)"
    and "1024 \<le> int n * factor" "int n * factor \<le> 1073741824"
  shows "byte_size (PyStr (digits_of n @ unit)) name = Inr (int n * factor)"
proof -
  have d: "\<forall>c \<in> set (digits_of n). digit c" "digits_of n \<noteq> []"
    using digits_of_digits [of n] by (auto simp: list_all_iff)
  have "takeWhile digit unit = []" "dropWhile digit unit = unit" using assms(4) by (cases unit; simp)+
  with d have t: "takeWhile digit (digits_of n @ unit) = digits_of n" "dropWhile digit (digits_of n @ unit) = unit"
    by (simp_all add: takeWhile_append dropWhile_append)
  have "length (digits_of n) \<le> 10" using length_digits_of [of n 9] assms(2) by simp
  then have l: "\<not> length (digits_of n) > max_int_digits" by (simp add: max_int_digits_def)
  have "size_pattern (digits_of n @ unit) = Some (digits_of n, unit)"
    unfolding size_pattern_def Let_def t using d(2) digits_of_first [OF assms(1)] assms(3) by simp
  with l assms(3,5,6) show ?thesis by (simp add: byte_size_def decimal_value_digits)
qed

text \<open>
  A size that is a legal limit is read back from the text it is reported with, whichever unit the
  text uses.
\<close>

theorem reported_size_reads_back:
  assumes "1024 \<le> n" "n \<le> 1073741824"
  shows "byte_size (PyStr (format_byte_size n)) name = Inr n"
proof -
  have piece: "byte_size (PyStr (int_text (n div u) @ unit)) name = Inr n"
    if "n mod u = 0" "0 < u" "map_of size_units unit = Some u" "unit = [] \<or> \<not> digit (hd unit)" for u unit
  proof -
    have n: "n = n div u * u" using that(1) by (metis mult_div_mod_eq add.right_neutral mult.commute)
    have pos: "0 < n div u"
    proof (rule ccontr)
      assume "\<not> 0 < n div u"
      then have "n div u * u \<le> 0" using that(2) by (simp add: mult_nonpos_nonneg)
      with n assms(1) show False by linarith
    qed
    have "n div u * 1 \<le> n div u * u" using pos that(2) by (intro mult_left_mono) simp_all
    with n have "n div u \<le> n" by linarith
    with assms(2) pos have small: "nat (n div u) < 10 ^ 10" by (simp add: nat_less_iff)
    have "byte_size (PyStr (digits_of (nat (n div u)) @ unit)) name = Inr (int (nat (n div u)) * u)"
      using size_text [of "nat (n div u)" unit u name] small pos that(3,4) assms n by simp
    with pos n show ?thesis by (simp add: int_text_def)
  qed
  have units: "\<not> digit CHR ''G''" "\<not> digit CHR ''M''" "\<not> digit CHR ''K''" "\<not> digit CHR ''B''" by code_simp+
  show ?thesis
    unfolding format_byte_size_def
    using piece [of 1073741824 "''GiB''"] piece [of 1048576 "''MiB''"] piece [of 1024 "''KiB''"] piece [of 1 "''B''"]
    by (simp add: size_units_def units)
qed

theorem reported_size_reads_back_witness:
  "byte_size (PyStr (format_byte_size 3145728)) ''limit'' = Inr 3145728"
  by (rule reported_size_reads_back) simp_all

section \<open>Errors do not carry values of the environment\<close>

lemma resolve_scalar_hides_value:
  assumes "resolve_scalar v name (Some (AList.update variable raw env)) placeholder parser = Inl e"
    and "resolve_scalar v name (Some (AList.update variable raw' env)) placeholder parser = Inl e'"
    and "blank raw = blank raw'"
  shows "e = e'"
  using assms by (auto simp: resolve_scalar_def split: option.splits if_splits sum.splits)


section \<open>Requests in flight\<close>

datatype gate_event = Arrives nat asgi_scope | Returns nat

fun gate_step :: "(asgi_scope \<Rightarrow> bool) \<Rightarrow> gate_event \<Rightarrow> concurrency_gate \<times> nat list \<Rightarrow> concurrency_gate \<times> nat list" where
  "gate_step exempt (Arrives i scope) (g, held) = (case arrive exempt scope g of
     (Admitted, g') \<Rightarrow> (g', i # held) | (_, g') \<Rightarrow> (g', held))"
| "gate_step exempt (Returns i) (g, held) = (if i \<in> set held then (leave g, remove1 i held) else (g, held))"

definition gate_ok :: "int \<Rightarrow> concurrency_gate \<times> nat list \<Rightarrow> bool" where
  "gate_ok limit s \<longleftrightarrow> gt_active (fst s) = int (length (snd s)) \<and> gt_active (fst s) \<le> limit \<and> gt_limit (fst s) = limit"

lemma gate_step_ok: "gate_ok limit s \<Longrightarrow> gate_ok limit (gate_step exempt e s)"
proof (cases e)
  case (Arrives i scope)
  assume "gate_ok limit s"
  with Arrives show ?thesis by (cases s) (auto simp: gate_ok_def arrive_def)
next
  case (Returns i)
  assume ok: "gate_ok limit s"
  show ?thesis
  proof (cases "i \<in> set (snd s)")
    case True
    then have "int (length (snd s) - 1) = int (length (snd s)) - 1" by (cases "snd s") auto
    with True ok Returns show ?thesis by (cases s) (simp add: gate_ok_def leave_def length_remove1)
  next
    case False
    with ok Returns show ?thesis by (cases s) simp
  qed
qed

lemma gate_run_ok: "gate_ok limit s \<Longrightarrow> gate_ok limit (fold (gate_step exempt) events s)"
  by (induction events arbitrary: s) (simp_all add: gate_step_ok)

text \<open>
  C25. Whatever the order in which requests arrive and return, the gate counts exactly the requests it
  has admitted that have not returned, there are never more of them than the limit, and the next
  request that counts is rejected exactly when the limit is reached: nothing is lost and no slot leaks.
\<close>

theorem requests_in_flight_bounded:
  assumes "make_gate limit = Inr g" "fold (gate_step exempt) events (g, []) = (g', held)"
  shows "gt_active g' = int (length held) \<and> int (length held) \<le> limit \<and>
     (fst (arrive exempt scope g') = Rejected (reject_request scope) \<longleftrightarrow>
        as_kind scope \<noteq> OtherScope \<and> \<not> exempt scope \<and> int (length held) = limit)"
proof -
  have "gate_ok limit (g, [])" using assms(1) by (auto simp: make_gate_def gate_ok_def split: if_splits)
  from gate_run_ok [OF this, of exempt events] assms(2) show ?thesis by (auto simp: gate_ok_def arrive_def)
qed

definition any_request :: asgi_scope where
  "any_request = \<lparr> as_kind = Http, as_method = ''POST'', as_path = ''/invoke'', as_headers = [], as_http_response = False \<rparr>"

theorem requests_in_flight_bounded_witness:
  "\<exists>g g' held. make_gate 1 = Inr g \<and>
     fold (gate_step never_exempt) [Arrives 0 any_request, Arrives 1 any_request] (g, []) = (g', held) \<and>
     int (length held) \<le> 1"
proof -
  let ?g = "\<lparr> gt_limit = 1, gt_active = 0 \<rparr>" and ?g' = "\<lparr> gt_limit = 1, gt_active = 1 \<rparr>"
  have m: "make_gate 1 = Inr ?g" by (simp add: make_gate_def)
  have f: "fold (gate_step never_exempt) [Arrives 0 any_request, Arrives 1 any_request] (?g, []) = (?g', [0])"
    by (simp add: arrive_def never_exempt_def any_request_def)
  from m f requests_in_flight_bounded [OF m f, of any_request] show ?thesis by blast
qed


section \<open>Bodies\<close>

definition body_bytes :: "message list \<Rightarrow> int" where
  "body_bytes ms = sum_list (map (\<lambda>m. case m of HttpRequest b \<Rightarrow> int (length b) | _ \<Rightarrow> 0) ms)"

lemma body_bytes_simps [simp]:
  "body_bytes [] = 0" "body_bytes (m # ms) = (case m of HttpRequest b \<Rightarrow> int (length b) | _ \<Rightarrow> 0) + body_bytes ms"
  by (simp_all add: body_bytes_def)

lemma body_bytes_nonneg: "0 \<le> body_bytes ms"
  by (induction ms) (auto split: message.splits)

lemma read_http_spec:
  assumes "read_http maximum read ms = (given, stopped)"
  shows "prefix given ms \<and> (read \<le> maximum \<longrightarrow> read + body_bytes given \<le> maximum) \<and>
     (stopped \<longrightarrow> maximum < read + body_bytes ms) \<and> (\<not> stopped \<longrightarrow> given = ms)"
  using assms
proof (induction ms arbitrary: read given)
  case (Cons m ms)
  show ?case
  proof (cases "limited_http maximum read m")
    case (Pair x read')
    show ?thesis
    proof (cases x)
      case None
      with Pair Cons.prems have "given = []" "stopped" by auto
      moreover have "maximum < read + body_bytes (m # ms)"
        using None Pair body_bytes_nonneg [of ms] by (auto simp: limited_http_def Let_def split: message.splits if_splits)
      ultimately show ?thesis by simp
    next
      case (Some y)
      then have m: "y = m" "read' = read + (case m of HttpRequest b \<Rightarrow> int (length b) | _ \<Rightarrow> 0)"
          "(case m of HttpRequest b \<Rightarrow> True | _ \<Rightarrow> False) \<longrightarrow> read' \<le> maximum"
        using Pair by (auto simp: limited_http_def Let_def split: message.splits if_splits)
      obtain rest where r: "read_http maximum read' ms = (rest, stopped)" "given = m # rest"
        using Cons.prems Pair Some m(1) by (auto split: prod.splits)
      from Cons.IH [OF r(1)] m r(2) show ?thesis by (cases m) auto
    qed
  qed
qed simp

text \<open>
  An application never gets more bytes of a body than the limit of its route, gets the messages
  unchanged and in order, and is stopped only when the body is too long; it is not called at all when
  the declared length is. The larger limit of uploads is that of no other route.
\<close>

theorem request_body_bounded:
  "let maximum = http_maximum scope request_maximum asset_maximum in
   (case serve_http request_maximum asset_maximum scope messages of
      NotCalled _ \<Rightarrow> maximum < content_length scope
    | Called given \<Rightarrow> given = messages \<and> body_bytes messages \<le> max 0 maximum
    | Stopped given _ \<Rightarrow> prefix given messages \<and> body_bytes given \<le> max 0 maximum \<and> maximum < body_bytes messages)
   \<and> (maximum = request_maximum \<or> maximum = asset_maximum \<and> map upper_char (as_method scope) = ''POST'' \<and>
        (\<exists>session. session \<noteq> [] \<and> split_slashes (strip_slashes (as_path scope)) = [''sessions'', session, ''assets'']))"
proof -
  let ?maximum = "http_maximum scope request_maximum asset_maximum"
  obtain given stopped where r: "read_http ?maximum 0 messages = (given, stopped)"
    by (cases "read_http ?maximum 0 messages")
  have zero: "?maximum < 0 \<Longrightarrow> body_bytes given \<le> 0"
  proof -
    assume neg: "?maximum < 0"
    have "read_http maximum n ms = (given', stopped') \<Longrightarrow> maximum < n \<Longrightarrow> body_bytes given' \<le> 0" for maximum n ms given' stopped'
    proof (induction ms arbitrary: n given')
      case (Cons m ms)
      then show ?case
        by (cases m) (fastforce simp: limited_http_def Let_def split: prod.splits if_splits)+
    qed simp
    from this [OF r] neg show ?thesis by simp
  qed
  note spec = read_http_spec [OF r]
  have bound: "body_bytes given \<le> max 0 ?maximum"
    using spec zero by (cases "0 \<le> ?maximum") auto
  have route: "?maximum = request_maximum \<or> ?maximum = asset_maximum \<and> map upper_char (as_method scope) = ''POST'' \<and>
      (\<exists>session. session \<noteq> [] \<and> split_slashes (strip_slashes (as_path scope)) = [''sessions'', session, ''assets''])"
    by (auto simp: http_maximum_def split: list.splits)
  show ?thesis
  proof (cases "content_length scope > ?maximum")
    case True
    with route show ?thesis by (simp add: serve_http_def Let_def)
  next
    case False
    with spec bound route r show ?thesis by (cases stopped) (auto simp: serve_http_def Let_def)
  qed
qed

end
