(* ===== verification/External_Responses.thy ===== *)
theory External_Responses
  imports Continuation_Provider Response_Status
begin

text \<open>
  The state one process keeps about invocations that wait for external work
  (\<^verbatim>\<open>external_continuation.py\<close>): the bounded table of responses a client polls, the futures of the
  tool frames that stay attached to a live transport, the queues of notifications, and the
  registered validators and cancellation hooks. Response states, runs and futures are Python objects
  that several coroutines hold at once, so they live in heaps, by a number that stands for the
  object's identity. The monotonic clock is read several times by one operation, so an operation
  takes the readings it makes.
\<close>

section \<open>Waits, requests and responses\<close>

record pending_wait =
  xp_id :: string
  xp_capability :: string

definition pending_public :: "pending_wait \<Rightarrow> (string \<times> string) list" where
  "pending_public p = [(''type'', ''external_continuation''), (''id'', xp_id p), (''capability'', xp_capability p)]"

text \<open>\<open>iq_resumes\<close>: the input is a \<^verbatim>\<open>NativeResumeInput\<close>.\<close>

record wait_request =
  iq_user_id :: string
  iq_session_id :: string
  iq_invocation_id :: string
  iq_transport :: string
  iq_resumes :: bool
  iq_principal :: "principal option"

record response_state =
  xr_request :: wait_request
  xr_run :: nat
  xr_provider :: string
  xr_pending :: pending_wait
  xr_final :: "payload option"
  xr_waiter :: "nat option"
  xr_updated_at :: rat
  xr_lock :: "nat option"

datatype notification = PlainEvent | ExternalWait pending_wait | Notice string pyval

datatype waiter_future = Unresolved | Resolved pyval | CancelledFuture

text \<open>A validator is a callable: its identity, compared by registration, and what it does.\<close>

record validator =
  vd_identity :: nat
  vd_call :: "pyval \<Rightarrow> pyval option"

record ext_runtime =
  er_application_id :: string
  er_max_responses :: int
  er_tombstone_seconds :: rat
  er_providers :: "(string \<times> provider) list"
  er_validators :: "((string \<times> string) \<times> validator) list"
  er_cancel_handlers :: "(string \<times> nat) list"
  er_responses :: "(string \<times> nat) list"
  er_states :: "(nat \<times> response_state) list"
  er_futures :: "(nat \<times> waiter_future) list"
  er_queues :: "(nat \<times> notification list) list"
  er_next :: nat
  er_driver :: "nat option"
  er_closed :: bool

definition new_ext_runtime :: "string \<Rightarrow> int \<Rightarrow> rat \<Rightarrow> exc + ext_runtime" where
  "new_ext_runtime application_id max_responses tombstone_seconds =
     (if max_responses < 1 then Inl (ValueError ''continuation max_responses must be at least one'')
      else if tombstone_seconds < 0 then Inl (ValueError ''continuation tombstone_seconds cannot be negative'')
      else Inr \<lparr>er_application_id = application_id, er_max_responses = max_responses,
        er_tombstone_seconds = tombstone_seconds, er_providers = [], er_validators = [], er_cancel_handlers = [],
        er_responses = [], er_states = [], er_futures = [], er_queues = [], er_next = 0, er_driver = None,
        er_closed = False\<rparr>)"

definition unavailable :: "string \<Rightarrow> exc" where
  "unavailable what = ExternalContinuationUnavailableError (''external continuation '' @ what)"

definition response_not_found :: exc where
  "response_not_found = KeyError ''continuation response not found''"

definition require_open :: "ext_runtime \<Rightarrow> exc option" where
  "require_open rt = require (\<not> er_closed rt) (unavailable ''runtime is closed'')"


section \<open>Registration\<close>

text \<open>\<open>invokes\<close>: the driver has a callable \<^verbatim>\<open>invoke\<close>.\<close>

definition bind_driver :: "nat \<Rightarrow> bool \<Rightarrow> ext_runtime \<Rightarrow> (ext_runtime, unit) outcome" where
  "bind_driver driver invokes rt =
     (if er_driver rt \<noteq> None \<and> er_driver rt \<noteq> Some driver
      then (Inl (RuntimeError ''continuation runtime driver is already bound''), rt)
      else if \<not> invokes then (Inl (TypeError ''continuation runtime driver must implement invoke''), rt)
      else (Inr (), rt\<lparr>er_driver := Some driver\<rparr>))"

definition register_schema :: "string \<Rightarrow> string \<Rightarrow> validator \<Rightarrow> ext_runtime \<Rightarrow> (ext_runtime, unit) outcome" where
  "register_schema provider schema_id validate rt =
     (let key = (provider, schema_id); existing = map_of (er_validators rt) key in
      if (case existing of None \<Rightarrow> False | Some v \<Rightarrow> vd_identity v \<noteq> vd_identity validate)
      then (Inl (RuntimeError ''continuation schema validator is already registered''), rt)
      else (Inr (), rt\<lparr>er_validators := AList.update key validate (er_validators rt)\<rparr>))"

definition provider_named :: "string \<Rightarrow> ext_runtime \<Rightarrow> (ext_runtime, provider) outcome" where
  "provider_named name rt = (case map_of (er_providers rt) name of
     Some p \<Rightarrow> (Inr p, rt)
   | None \<Rightarrow> (case provider_of (er_application_id rt) name of
       Inl e \<Rightarrow> (Inl e, rt)
     | Inr p \<Rightarrow> (Inr p, rt\<lparr>er_providers := AList.update name p (er_providers rt)\<rparr>)))"

definition register_cancel_handler :: "string \<Rightarrow> nat \<Rightarrow> ext_runtime \<Rightarrow> (ext_runtime, unit) outcome" where
  "register_cancel_handler provider handler rt =
     (if (case map_of (er_cancel_handlers rt) provider of None \<Rightarrow> False | Some h \<Rightarrow> h \<noteq> handler)
      then (Inl (RuntimeError ''continuation cancel handler is already registered''), rt)
      else case provider_named provider rt of
        (Inl e, rt1) \<Rightarrow> (Inl e, rt1)
      | (Inr _, rt1) \<Rightarrow> (Inr (), rt1\<lparr>er_cancel_handlers := AList.update provider handler (er_cancel_handlers rt1)\<rparr>))"

definition schema_validator :: "string \<Rightarrow> string \<Rightarrow> ext_runtime \<Rightarrow> exc + validator" where
  "schema_validator provider schema_id rt = (case map_of (er_validators rt) (provider, schema_id) of
     None \<Rightarrow> Inl (unavailable ''schema is not registered'') | Some v \<Rightarrow> Inr v)"


section \<open>The table of responses\<close>

definition state_of :: "ext_runtime \<Rightarrow> string \<Rightarrow> (nat \<times> response_state) option" where
  "state_of rt response_id = (case map_of (er_responses rt) response_id of None \<Rightarrow> None
     | Some i \<Rightarrow> map_option (Pair i) (map_of (er_states rt) i))"

definition put_state :: "nat \<Rightarrow> response_state \<Rightarrow> ext_runtime \<Rightarrow> ext_runtime" where
  "put_state i st rt = rt\<lparr>er_states := AList.update i st (er_states rt)\<rparr>"

definition state_final :: "ext_runtime \<Rightarrow> nat \<Rightarrow> bool" where
  "state_final rt i = (case map_of (er_states rt) i of None \<Rightarrow> False | Some st \<Rightarrow> xr_final st \<noteq> None)"

definition state_expired :: "ext_runtime \<Rightarrow> rat \<Rightarrow> nat \<Rightarrow> bool" where
  "state_expired rt now i = (case map_of (er_states rt) i of None \<Rightarrow> False
     | Some st \<Rightarrow> xr_final st \<noteq> None \<and> xr_updated_at st \<le> now - er_tombstone_seconds rt)"

definition prune_responses_locked :: "rat \<Rightarrow> ext_runtime \<Rightarrow> ext_runtime" where
  "prune_responses_locked now rt = rt\<lparr>er_responses :=
     fold AList.delete (map fst (filter (\<lambda>(_, i). state_expired rt now i) (er_responses rt))) (er_responses rt)\<rparr>"

definition table_full :: "ext_runtime \<Rightarrow> bool" where
  "table_full rt \<longleftrightarrow> er_max_responses rt \<le> int (length (er_responses rt))"

definition evict_oldest_terminal_locked :: "ext_runtime \<Rightarrow> ext_runtime" where
  "evict_oldest_terminal_locked rt =
     (if \<not> table_full rt then rt
      else case find (\<lambda>(_, i). state_final rt i) (er_responses rt) of
        Some (response_id, _) \<Rightarrow> rt\<lparr>er_responses := AList.delete response_id (er_responses rt)\<rparr>
      | None \<Rightarrow> rt)"

text \<open>A new state object under a response identifier.\<close>

definition add_state :: "string \<Rightarrow> response_state \<Rightarrow> ext_runtime \<Rightarrow> ext_runtime" where
  "add_state response_id st rt = rt\<lparr>er_states := AList.update (er_next rt) st (er_states rt),
     er_responses := AList.update response_id (er_next rt) (er_responses rt), er_next := Suc (er_next rt)\<rparr>"

definition fresh_run :: "ext_runtime \<Rightarrow> nat \<times> ext_runtime" where
  "fresh_run rt = (er_next rt, rt\<lparr>er_queues := AList.update (er_next rt) [] (er_queues rt), er_next := Suc (er_next rt)\<rparr>)"

definition reserve_response :: "rat \<Rightarrow> rat \<Rightarrow> nat \<Rightarrow> wait_request \<Rightarrow> string \<Rightarrow> string \<Rightarrow> ext_runtime \<Rightarrow> (ext_runtime, bool) outcome" where
  "reserve_response now created run request provider capability rt =
     (let rt1 = prune_responses_locked now rt in
      if map_of (er_responses rt1) (iq_invocation_id request) \<noteq> None then (Inr False, rt1)
      else if table_full rt1 then (Inl (unavailable ''response capacity is exhausted''), rt1)
      else (Inr True, add_state (iq_invocation_id request)
        \<lparr>xr_request = request, xr_run = run, xr_provider = provider,
         xr_pending = \<lparr>xp_id = ''reserved'', xp_capability = capability\<rparr>, xr_final = None, xr_waiter = None,
         xr_updated_at = created, xr_lock = None\<rparr> rt1))"

definition discard_response :: "string \<Rightarrow> nat \<Rightarrow> ext_runtime \<Rightarrow> ext_runtime" where
  "discard_response response_id run rt = (case state_of rt response_id of None \<Rightarrow> rt
     | Some (_, st) \<Rightarrow> if xr_run st = run then rt\<lparr>er_responses := AList.delete response_id (er_responses rt)\<rparr> else rt)"

definition set_pending_response :: "rat \<Rightarrow> string \<Rightarrow> pending_wait \<Rightarrow> ext_runtime \<Rightarrow> (ext_runtime, unit) outcome" where
  "set_pending_response now response_id pending rt = (case state_of rt response_id of
     None \<Rightarrow> (Inl (unavailable ''response reservation was lost''), rt)
   | Some (i, st) \<Rightarrow> (Inr (), (put_state i (st\<lparr>xr_pending := pending, xr_updated_at := now\<rparr>) rt)
       \<lparr>er_responses := move_to_end response_id (er_responses rt)\<rparr>))"

definition response_owner :: "response_state \<Rightarrow> string \<times> string" where
  "response_owner st = (iq_user_id (xr_request st), iq_session_id (xr_request st))"

text \<open>\<^verbatim>\<open>_response\<close>: the state object, for its owner only.\<close>

definition response_for :: "rat \<Rightarrow> string \<Rightarrow> string \<Rightarrow> string \<Rightarrow> ext_runtime \<Rightarrow> (nat \<times> response_state) option \<times> ext_runtime" where
  "response_for now response_id user_id session_id rt =
     (let rt1 = prune_responses_locked now rt in
      case state_of rt1 response_id of None \<Rightarrow> (None, rt1)
      | Some (i, st) \<Rightarrow> if response_owner st \<noteq> (user_id, session_id) then (None, rt1)
          else (Some (i, st), rt1\<lparr>er_responses := move_to_end response_id (er_responses rt1)\<rparr>))"

text \<open>\<^verbatim>\<open>_poll_response_state\<close> builds a request and a run of its own.\<close>

definition poll_response_state :: "rat \<Rightarrow> string \<Rightarrow> string \<Rightarrow> string \<Rightarrow> pending_wait \<Rightarrow> nat \<Rightarrow> response_state" where
  "poll_response_state now response_id user_id session_id pending run =
     \<lparr>xr_request = \<lparr>iq_user_id = user_id, iq_session_id = session_id, iq_invocation_id = response_id,
        iq_transport = ''continuation_poll'', iq_resumes = False, iq_principal = None\<rparr>,
      xr_run = run, xr_provider = '''', xr_pending = pending, xr_final = None, xr_waiter = None,
      xr_updated_at = now, xr_lock = None\<rparr>"

definition add_poll_state :: "rat \<Rightarrow> string \<Rightarrow> string \<Rightarrow> string \<Rightarrow> pending_wait \<Rightarrow> ext_runtime \<Rightarrow> ext_runtime" where
  "add_poll_state now response_id user_id session_id pending rt =
     (let (run, rt1) = fresh_run rt in add_state response_id (poll_response_state now response_id user_id session_id pending run) rt1)"

definition remember_durable_pending :: "rat \<Rightarrow> rat \<Rightarrow> string \<Rightarrow> string \<Rightarrow> string \<Rightarrow> pending_wait \<Rightarrow> ext_runtime \<Rightarrow> ext_runtime" where
  "remember_durable_pending now created response_id user_id session_id pending rt =
     (let rt1 = prune_responses_locked now rt in
      if map_of (er_responses rt1) response_id \<noteq> None then rt1
      else let rt2 = evict_oldest_terminal_locked rt1 in
        if table_full rt2 then rt2
        else add_poll_state created response_id user_id session_id pending rt2)"

definition terminal_response_state :: "rat \<Rightarrow> string \<Rightarrow> string \<Rightarrow> string \<Rightarrow> ext_runtime \<Rightarrow> (nat \<times> response_state) option \<times> ext_runtime" where
  "terminal_response_state now response_id user_id session_id rt =
     (let rt1 = evict_oldest_terminal_locked rt in
      if table_full rt1 then (None, rt1)
      else let rt2 = add_poll_state now response_id user_id session_id \<lparr>xp_id = ''terminal'', xp_capability = ''terminal''\<rparr> rt1
           in (state_of rt2 response_id, rt2))"

definition retain_final :: "rat \<Rightarrow> rat \<Rightarrow> rat \<Rightarrow> string \<Rightarrow> string \<Rightarrow> string \<Rightarrow> payload \<Rightarrow> ext_runtime \<Rightarrow> (ext_runtime, unit) outcome" where
  "retain_final now updated later response_id user_id session_id payload rt =
     (let rt1 = prune_responses_locked now rt; state = state_of rt1 response_id in
      if (case state of None \<Rightarrow> False | Some (_, st) \<Rightarrow> response_owner st \<noteq> (user_id, session_id))
      then (Inl response_not_found, rt1)
      else case (case state of None \<Rightarrow> terminal_response_state now response_id user_id session_id rt1 | _ \<Rightarrow> (state, rt1)) of
        (None, rt2) \<Rightarrow> (Inr (), rt2)
      | (Some (i, st), rt2) \<Rightarrow>
          (Inr (), prune_responses_locked later
            ((put_state i (st\<lparr>xr_final := Some payload, xr_updated_at := updated\<rparr>) rt2)
             \<lparr>er_responses := move_to_end response_id (er_responses rt2)\<rparr>)))"


section \<open>Attached frames and notifications\<close>

definition future_done :: "ext_runtime \<Rightarrow> nat \<Rightarrow> bool" where
  "future_done rt w \<longleftrightarrow> map_of (er_futures rt) w \<noteq> Some Unresolved"

definition prepare_local_waiter :: "wait_request \<Rightarrow> resume_artifact \<Rightarrow> string \<Rightarrow> ext_runtime \<Rightarrow> (ext_runtime, nat option) outcome" where
  "prepare_local_waiter request artifact provider rt =
     (if ra_framework artifact \<noteq> ''adk'' \<or> iq_transport request \<noteq> ''live'' then (Inr None, rt)
      else let w = er_next rt;
               rt1 = rt\<lparr>er_futures := AList.update w Unresolved (er_futures rt), er_next := Suc w\<rparr> in
        case state_of rt1 (iq_invocation_id request) of
          None \<Rightarrow> (Inl (unavailable ''response reservation was lost''), rt1)
        | Some (i, st) \<Rightarrow>
            if (case xr_waiter st of None \<Rightarrow> False | Some previous \<Rightarrow> \<not> future_done rt1 previous)
            then (Inl (unavailable ''already has an attached live waiter''), rt1)
            else (Inr (Some w), put_state i (st\<lparr>xr_provider := provider, xr_waiter := Some w\<rparr>) rt1))"

definition cancel_future :: "nat \<Rightarrow> ext_runtime \<Rightarrow> ext_runtime" where
  "cancel_future w rt = (if future_done rt w then rt
     else rt\<lparr>er_futures := AList.update w CancelledFuture (er_futures rt)\<rparr>)"

definition discard_local_waiter :: "string \<Rightarrow> nat option \<Rightarrow> ext_runtime \<Rightarrow> ext_runtime" where
  "discard_local_waiter response_id waiter rt = (case waiter of None \<Rightarrow> rt
     | Some w \<Rightarrow> cancel_future w (case state_of rt response_id of
         Some (i, st) \<Rightarrow> if xr_waiter st = Some w then put_state i (st\<lparr>xr_waiter := None\<rparr>) rt else rt
       | None \<Rightarrow> rt))"

definition failure_key :: string where
  "failure_key = ''__harnest_external_failure_v1__''"

definition local_resume_value :: "continuation \<Rightarrow> pyval" where
  "local_resume_value c = (case k_failure c of None \<Rightarrow> k_result c
     | Some f \<Rightarrow> PyDict [(PyStr failure_key, PyStr (f_code f))])"

definition resume_value :: "continuation \<Rightarrow> pyval" where
  "resume_value c = (case k_failure c of None \<Rightarrow> k_result c
     | Some f \<Rightarrow>
         if (case k_resume c of None \<Rightarrow> False | Some a \<Rightarrow> ra_framework a = ''langgraph'')
         then PyDict [(PyStr failure_key, PyStr (f_code f))]
         else PyDict [(PyStr ''error'', PyDict [(PyStr ''code'', PyStr (f_code f)), (PyStr ''retryable'', PyBool (f_retryable f))])])"

text \<open>
  \<^verbatim>\<open>ContinuationHandle.result\<close>, given the value the frame was resumed with: \<open>Inl code\<close> is the raise
  of \<^verbatim>\<open>ExternalContinuationFailed\<close> with that code.
\<close>

definition handle_result :: "pyval \<Rightarrow> pyval + pyval" where
  "handle_result v = (case v of
     PyDict kvs \<Rightarrow> if map fst kvs = [PyStr failure_key] then Inl (snd (hd kvs)) else Inr v
   | _ \<Rightarrow> Inr v)"

definition deliver_local_waiter :: "rat \<Rightarrow> continuation \<Rightarrow> ext_runtime \<Rightarrow> bool \<times> ext_runtime" where
  "deliver_local_waiter now c rt = (case state_of rt (k_run_id c) of None \<Rightarrow> (False, rt)
     | Some (i, st) \<Rightarrow> (case xr_waiter st of None \<Rightarrow> (False, rt)
       | Some w \<Rightarrow>
           if xr_provider st \<noteq> k_provider c \<or> future_done rt w then (False, rt)
           else (True, (put_state i (st\<lparr>xr_waiter := None, xr_updated_at := now\<rparr>) rt)
             \<lparr>er_futures := AList.update w (Resolved (local_resume_value c)) (er_futures rt)\<rparr>)))"

definition queue_of :: "ext_runtime \<Rightarrow> nat \<Rightarrow> notification list" where
  "queue_of rt run = (case map_of (er_queues rt) run of None \<Rightarrow> [] | Some q \<Rightarrow> q)"

definition notify :: "nat \<Rightarrow> notification \<Rightarrow> ext_runtime \<Rightarrow> ext_runtime" where
  "notify run n rt = rt\<lparr>er_queues := AList.update run
     (queue_of rt run @ [n]) (er_queues rt)\<rparr>"

definition notify_result :: "string \<Rightarrow> pyval \<Rightarrow> ext_runtime \<Rightarrow> ext_runtime" where
  "notify_result response_id result rt = (case state_of rt response_id of None \<Rightarrow> rt
     | Some (_, st) \<Rightarrow> notify (xr_run st) (Notice ''result'' result) rt)"

datatype boundary =
    WaitBoundary pending_wait
  | NoticeBoundary string pyval
  | FinalBoundary payload
  | TerminalBoundary run_record

text \<open>
  \<^verbatim>\<open>_local_boundary\<close> takes notifications off the queue up to the first that ends the response: the
  boundary, the latest wait, whether one was announced on the way, and what is left of the queue.
\<close>

fun drain :: "notification list \<Rightarrow> pending_wait \<Rightarrow> bool \<Rightarrow> boundary \<times> (pending_wait \<times> bool) \<times> notification list" where
  "drain [] p announced = (WaitBoundary p, (p, announced), [])"
| "drain (PlainEvent # q) p announced = drain q p announced"
| "drain (ExternalWait p' # q) p announced = drain q p' True"
| "drain (Notice k v # q) p announced = (NoticeBoundary k v, (p, announced), q)"

definition local_boundary :: "rat \<Rightarrow> nat \<Rightarrow> response_state \<Rightarrow> ext_runtime \<Rightarrow> boundary \<times> ext_runtime" where
  "local_boundary now i st rt = (case drain (queue_of rt (xr_run st)) (xr_pending st) False of
     (b, (p, announced), rest) \<Rightarrow>
       (b, put_state i (if announced then st\<lparr>xr_pending := p, xr_updated_at := now\<rparr> else st)
             (rt\<lparr>er_queues := AList.update (xr_run st) rest (er_queues rt)\<rparr>)))"

definition close_runtime :: "ext_runtime \<Rightarrow> ext_runtime" where
  "close_runtime rt = (if er_closed rt then rt
     else let waiters = List.map_filter (\<lambda>(_, i). case map_of (er_states rt) i of None \<Rightarrow> None | Some st \<Rightarrow> xr_waiter st)
                (er_responses rt)
          in fold cancel_future waiters (rt\<lparr>er_closed := True, er_cancel_handlers := [], er_responses := []\<rparr>))"

end
