(* ===== verification/External_Runtime.thy ===== *)
theory External_Runtime
  imports External_Responses
begin

text \<open>
  The coordinator of durable waits (\<^verbatim>\<open>ExternalContinuationRuntime\<close>). Several processes share one
  store; each has a runtime of its own. A call of the runtime is an activity: its phase says at which
  \<^verbatim>\<open>await\<close> it stands, with the local variables the rest of the call uses. One step takes the activity
  over that \<^verbatim>\<open>await\<close> and runs it to the next. Between two steps every other activity, every other
  process and the rest of the application may move. What the code hands out, a frame resumed with a
  value or an invocation of the driver, is recorded as an effect. The store has runs (\<^verbatim>\<open>get_run\<close>), as
  every store of the program; the fallbacks for a custom store without them are not modelled.
\<close>

section \<open>Activities\<close>

text \<open>What a step reads from outside: the store's time, the token generator, the clock, a fresh identity.\<close>

record stamps =
  sm_now :: string
  sm_token :: string
  sm_clock :: "nat \<Rightarrow> rat"
  sm_ident :: string

record suspension =
  su_request :: wait_request
  su_run :: nat
  su_external_id :: string
  su_capability :: string
  su_schema_id :: string
  su_artifact :: resume_artifact

datatype ext_answer =
    GotRecord continuation
  | GotHandle pending_wait "nat option"
  | GotBool bool
  | GotBoundary boundary

text \<open>The two transport APIs over \<^verbatim>\<open>_pending_response_wait\<close>.\<close>

datatype cancel_mode = CancelTask | CancelResponse

datatype ext_phase =
    Completing string pyval
  | Failing string string
  | Resolving continuation string pyval validator
  | FailResolving continuation string cont_failure
  | Suspending suspension
  | SuspendStore suspension bool "nat option"
  | SuspendPublish suspension continuation "nat option"
  | ArmLookup string string string string
  | Arming continuation
  | ArmReload continuation exc
  | Rearming continuation
  | Claiming continuation
  | ClaimReload continuation exc
  | Delivering continuation
  | Invoking continuation
  | Cancelling continuation cont_failure bool
  | CancelReload continuation cont_failure bool exc
  | CancelConfirm continuation continuation cont_failure bool exc
  | TransportRun cancel_mode run_scope
  | TransportRecord cancel_mode run_scope string
  | TransportPending cancel_mode run_scope string
  | HandlerCalled cancel_mode nat continuation
  | TransportCancel continuation
  | BoundaryRemote run_scope
  | BoundaryLocking run_scope nat
  | BoundaryDurable run_scope nat boundary
  | Finished "exc + ext_answer"

text \<open>
  \<open>ea_attached\<close> is the frame that \<^verbatim>\<open>_continuation_handle\<close> releases when its arming raises, with the
  handle it returns otherwise; \<open>ea_resumed\<close> is the record the outermost call returns once the
  invocation it dispatched is over.
\<close>

record ext_activity =
  ea_replica :: nat
  ea_facade :: provider
  ea_attached :: "(string \<times> pending_wait \<times> nat) option"
  ea_resumed :: "continuation option"
  ea_phase :: ext_phase

datatype ext_effect =
    Delivered continuation pyval
  | Invoked continuation wait_request resume_artifact pyval

fun effect_record :: "ext_effect \<Rightarrow> continuation" where
  "effect_record (Delivered c v) = c"
| "effect_record (Invoked c q a v) = c"

type_synonym 's ext_step = "ext_activity \<times> 's \<times> ext_effect list"

definition go :: "ext_phase \<Rightarrow> ext_activity \<Rightarrow> 's \<Rightarrow> 's ext_step" where
  "go phase a s = (a\<lparr>ea_phase := phase\<rparr>, s, [])"

definition emitting :: "ext_effect list \<Rightarrow> 's ext_step \<Rightarrow> 's ext_step" where
  "emitting effects step = (fst step, fst (snd step), effects)"

text \<open>The end of a call.\<close>

definition end_call :: "exc + ext_answer \<Rightarrow> ext_activity \<Rightarrow> ext_runtime \<Rightarrow> ext_runtime ext_step" where
  "end_call result a rt = (case result of
     Inl e \<Rightarrow> go (Finished (Inl e)) a
       (case ea_attached a of None \<Rightarrow> rt | Some (run_id, _, w) \<Rightarrow> discard_local_waiter run_id (Some w) rt)
   | Inr answer \<Rightarrow> go (Finished (Inr (case ea_attached a of
         Some (_, pending, w) \<Rightarrow> GotHandle pending (Some w)
       | None \<Rightarrow> (case ea_resumed a of Some c \<Rightarrow> GotRecord c | None \<Rightarrow> answer)))) a rt)"

text \<open>The facade's lookups and writes of a record, through its owner's scope.\<close>

definition reload :: "provider \<Rightarrow> continuation \<Rightarrow> memory_state \<Rightarrow> exc + continuation option" where
  "reload p c s = provider_get p (k_user_id c) (k_session_id c) (k_run_id c) (k_continuation_id c) s"


section \<open>Arming, claiming and resuming\<close>

text \<open>\<^verbatim>\<open>_resume_if_ready\<close> up to its claim.\<close>

definition resume_if_ready :: "continuation \<Rightarrow> ext_activity \<Rightarrow> ext_runtime \<Rightarrow> ext_runtime ext_step" where
  "resume_if_ready c a rt =
     (if \<not> k_ready c \<or> k_status c \<notin> {''completed'', ''failed''} then end_call (Inr (GotRecord c)) a rt
      else go (Claiming c) a rt)"

definition claim_step :: "stamps \<Rightarrow> continuation \<Rightarrow> ext_activity \<Rightarrow> memory_state \<Rightarrow> ext_runtime \<Rightarrow> memory_state \<times> ext_runtime ext_step" where
  "claim_step sm c a s rt = (case provider_claim claim_continuation (ea_facade a) (sm_now sm) (k_user_id c) (k_session_id c)
       (k_run_id c) (k_continuation_id c) (k_revision c) s of
     (Inr claimed, s') \<Rightarrow> (s', go (Delivering claimed) a rt)
   | (Inl e, s') \<Rightarrow> (s', case e of ContinuationConflictError _ \<Rightarrow> go (ClaimReload c e) a rt | _ \<Rightarrow> end_call (Inl e) a rt))"

definition claim_reload_step :: "continuation \<Rightarrow> exc \<Rightarrow> ext_activity \<Rightarrow> memory_state \<Rightarrow> ext_runtime \<Rightarrow> ext_runtime ext_step" where
  "claim_reload_step c e a s rt = (case reload (ea_facade a) c s of
     Inl e' \<Rightarrow> end_call (Inl e') a rt
   | Inr None \<Rightarrow> end_call (Inl e) a rt
   | Inr (Some latest) \<Rightarrow> end_call (if k_status latest = ''claimed'' then Inr (GotRecord latest) else Inl e) a rt)"

text \<open>The request \<^verbatim>\<open>_resume\<close> builds, with the grants the wait kept.\<close>

definition restored_principal :: "string \<Rightarrow> continuation \<Rightarrow> exc + principal option" where
  "restored_principal ident c = (case k_principal_grants c of None \<Rightarrow> Inr None
     | Some g \<Rightarrow> map_sum id Some (restore_principal ident g))"

definition resume_request :: "continuation \<Rightarrow> principal option \<Rightarrow> wait_request" where
  "resume_request c restored = \<lparr>iq_user_id = k_user_id c, iq_session_id = k_session_id c, iq_invocation_id = k_run_id c,
     iq_transport = ''continuation'', iq_resumes = True, iq_principal = restored\<rparr>"

definition deliver_step :: "stamps \<Rightarrow> continuation \<Rightarrow> ext_activity \<Rightarrow> ext_runtime \<Rightarrow> ext_runtime ext_step" where
  "deliver_step sm c a rt = (case deliver_local_waiter (sm_clock sm 0) c rt of
     (True, rt1) \<Rightarrow> emitting [Delivered c (local_resume_value c)] (end_call (Inr (GotRecord c)) a rt1)
   | (False, rt1) \<Rightarrow>
       if er_driver rt1 = None then end_call (Inl (unavailable ''resume driver is unavailable'')) a rt1
       else (case k_resume c of
         None \<Rightarrow> end_call (Inl (unavailable ''has no framework resume identity'')) a rt1
       | Some artifact \<Rightarrow> (case restored_principal (sm_ident sm) c of
           Inl e \<Rightarrow> end_call (Inl e) a rt1
         | Inr restored \<Rightarrow>
             (a\<lparr>ea_phase := Invoking c, ea_resumed := (case ea_resumed a of None \<Rightarrow> Some c | Some r \<Rightarrow> Some r)\<rparr>, rt1,
              [Invoked c (resume_request c restored) artifact (resume_value c)]))))"

text \<open>\<^verbatim>\<open>arm\<close> up to its lookup.\<close>

definition start_arm :: "rat \<Rightarrow> string \<Rightarrow> string \<Rightarrow> string \<Rightarrow> ext_activity \<Rightarrow> ext_runtime \<Rightarrow> ext_runtime ext_step" where
  "start_arm now response_id user_id session_id a rt = (case response_for now response_id user_id session_id rt of
     (None, rt1) \<Rightarrow> end_call (Inl response_not_found) a rt1
   | (Some (_, st), rt1) \<Rightarrow> (case provider_named (xr_provider st) rt1 of
       (Inl e, rt2) \<Rightarrow> end_call (Inl e) a rt2
     | (Inr p, rt2) \<Rightarrow> go (ArmLookup response_id user_id session_id (xp_id (xr_pending st))) (a\<lparr>ea_facade := p\<rparr>) rt2))"

definition arm_lookup_step :: "string \<Rightarrow> string \<Rightarrow> string \<Rightarrow> string \<Rightarrow> ext_activity \<Rightarrow> memory_state \<Rightarrow> ext_runtime \<Rightarrow> ext_runtime ext_step" where
  "arm_lookup_step response_id user_id session_id cid a s rt = (case provider_get (ea_facade a) user_id session_id response_id cid s of
     Inl e \<Rightarrow> end_call (Inl e) a rt
   | Inr None \<Rightarrow> end_call (Inl (KeyError ''continuation record not found'')) a rt
   | Inr (Some c) \<Rightarrow> go (Arming c) a rt)"

definition arm_step :: "stamps \<Rightarrow> continuation \<Rightarrow> ext_activity \<Rightarrow> memory_state \<Rightarrow> ext_runtime \<Rightarrow> memory_state \<times> ext_runtime ext_step" where
  "arm_step sm c a s rt = (case provider_arm arm_continuation (ea_facade a) (sm_now sm) c s of
     (Inr armed, s') \<Rightarrow> (s', resume_if_ready armed a rt)
   | (Inl e, s') \<Rightarrow> (s', case e of ContinuationConflictError _ \<Rightarrow> go (ArmReload c e) a rt | _ \<Rightarrow> end_call (Inl e) a rt))"

definition arm_reload_step :: "continuation \<Rightarrow> exc \<Rightarrow> ext_activity \<Rightarrow> memory_state \<Rightarrow> ext_runtime \<Rightarrow> ext_runtime ext_step" where
  "arm_reload_step c e a s rt = (case reload (ea_facade a) c s of
     Inl e' \<Rightarrow> end_call (Inl e') a rt
   | Inr None \<Rightarrow> end_call (Inl e) a rt
   | Inr (Some latest) \<Rightarrow> if k_ready latest then resume_if_ready latest a rt else go (Rearming latest) a rt)"

definition rearm_step :: "stamps \<Rightarrow> continuation \<Rightarrow> ext_activity \<Rightarrow> memory_state \<Rightarrow> ext_runtime \<Rightarrow> memory_state \<times> ext_runtime ext_step" where
  "rearm_step sm c a s rt = (case provider_arm arm_continuation (ea_facade a) (sm_now sm) c s of
     (Inr armed, s') \<Rightarrow> (s', resume_if_ready armed a rt)
   | (Inl e, s') \<Rightarrow> (s', end_call (Inl e) a rt))"


section \<open>Completion and failure\<close>

definition record_for_external :: "pylib \<Rightarrow> provider \<Rightarrow> string \<Rightarrow> memory_state \<Rightarrow> exc + continuation" where
  "record_for_external lib p external_id s = (case provider_lookup lib p external_id s of
     Inl e \<Rightarrow> Inl e
   | Inr None \<Rightarrow> Inl (KeyError ''external continuation was not found'')
   | Inr (Some (c, _)) \<Rightarrow> Inr c)"

definition complete_step :: "pylib \<Rightarrow> string \<Rightarrow> pyval \<Rightarrow> ext_activity \<Rightarrow> memory_state \<Rightarrow> ext_runtime \<Rightarrow> ext_runtime ext_step" where
  "complete_step lib external_id result a s rt = (case record_for_external lib (ea_facade a) external_id s of
     Inl e \<Rightarrow> end_call (Inl e) a rt
   | Inr c \<Rightarrow> (case schema_validator (pv_provider (ea_facade a)) (k_schema_id c) rt of
       Inl e \<Rightarrow> end_call (Inl e) a rt
     | Inr validate \<Rightarrow> go (Resolving c external_id result validate) a rt))"

definition resolve_step :: "pylib \<Rightarrow> stamps \<Rightarrow> continuation \<Rightarrow> string \<Rightarrow> pyval \<Rightarrow> validator \<Rightarrow> ext_activity \<Rightarrow> memory_state \<Rightarrow> ext_runtime
    \<Rightarrow> memory_state \<times> ext_runtime ext_step" where
  "resolve_step lib sm c external_id result validate a s rt =
     (case provider_complete (resolve_continuation lib) (ea_facade a) (sm_now sm) (k_user_id c) (k_session_id c) (k_run_id c)
        external_id (k_schema_id c) result (vd_call validate) s of
      (Inl e, s') \<Rightarrow> (s', end_call (Inl e) a rt)
    | (Inr resolved, s') \<Rightarrow> (s', resume_if_ready resolved a rt))"

definition fail_step :: "pylib \<Rightarrow> string \<Rightarrow> string \<Rightarrow> ext_activity \<Rightarrow> memory_state \<Rightarrow> ext_runtime \<Rightarrow> ext_runtime ext_step" where
  "fail_step lib external_id error_code a s rt = (case record_for_external lib (ea_facade a) external_id s of
     Inl e \<Rightarrow> end_call (Inl e) a rt
   | Inr c \<Rightarrow> (let f = \<lparr>f_code = error_code, f_retryable = False\<rparr> in case check_cont_failure f of
       Some e \<Rightarrow> end_call (Inl e) a rt
     | None \<Rightarrow> go (FailResolving c external_id f) a rt))"

definition fail_resolve_step :: "pylib \<Rightarrow> stamps \<Rightarrow> continuation \<Rightarrow> string \<Rightarrow> cont_failure \<Rightarrow> ext_activity \<Rightarrow> memory_state \<Rightarrow> ext_runtime
    \<Rightarrow> memory_state \<times> ext_runtime ext_step" where
  "fail_resolve_step lib sm c external_id f a s rt =
     (case provider_fail (resolve_continuation lib) (ea_facade a) (sm_now sm) (k_user_id c) (k_session_id c) (k_run_id c)
        external_id (k_schema_id c) f s of
      (Inl e, s') \<Rightarrow> (s', end_call (Inl e) a rt)
    | (Inr resolved, s') \<Rightarrow> (s', resume_if_ready resolved a rt))"


section \<open>Suspension\<close>

text \<open>\<^verbatim>\<open>_continuation_handle\<close> up to its arming.\<close>

definition continuation_handle :: "continuation \<Rightarrow> pending_wait \<Rightarrow> nat option \<Rightarrow> ext_activity \<Rightarrow> ext_runtime \<Rightarrow> ext_runtime ext_step" where
  "continuation_handle c pending waiter a rt = (case waiter of
     None \<Rightarrow> end_call (Inr (GotHandle pending None)) a rt
   | Some w \<Rightarrow> go (Arming c) (a\<lparr>ea_attached := Some (k_run_id c, pending, w)\<rparr>) rt)"

definition matches_replay :: "string \<Rightarrow> continuation \<Rightarrow> suspension \<Rightarrow> string \<Rightarrow> string \<Rightarrow> exc + bool" where
  "matches_replay ident c su application_id provider =
     (let q = su_request su in
      if \<not> (k_application_id c = application_id \<and> k_user_id c = iq_user_id q \<and> k_session_id c = iq_session_id q \<and>
            k_run_id c = iq_invocation_id q \<and> k_provider c = provider \<and> k_capability c = su_capability su \<and>
            k_schema_id c = su_schema_id su \<and> k_resume c = Some (su_artifact su))
      then Inr False
      else map_sum id (\<lambda>g. k_principal_grants c = g) (capture_grants ident (iq_principal q)))"

definition suspended_wait :: "continuation \<Rightarrow> suspension \<Rightarrow> pending_wait" where
  "suspended_wait c su = \<lparr>xp_id = k_continuation_id c, xp_capability = su_capability su\<rparr>"

definition restore_wait :: "stamps \<Rightarrow> suspension \<Rightarrow> continuation \<Rightarrow> ext_activity \<Rightarrow> ext_runtime \<Rightarrow> ext_runtime ext_step" where
  "restore_wait sm su c a rt =
     (let q = su_request su; p = pv_provider (ea_facade a) in
      case matches_replay (sm_ident sm) c su (er_application_id rt) p of
        Inl e \<Rightarrow> end_call (Inl e) a rt
      | Inr False \<Rightarrow> end_call (Inl (ContinuationConflictError ''external continuation ownership changed'')) a rt
      | Inr True \<Rightarrow> (case reserve_response (sm_clock sm 0) (sm_clock sm 1) (su_run su) q p (su_capability su) rt of
          (Inl e, rt1) \<Rightarrow> end_call (Inl e) a rt1
        | (Inr _, rt1) \<Rightarrow> (case prepare_local_waiter q (su_artifact su) p rt1 of
            (Inl e, rt2) \<Rightarrow> end_call (Inl e) a rt2
          | (Inr waiter, rt2) \<Rightarrow> (case set_pending_response (sm_clock sm 2) (iq_invocation_id q) (suspended_wait c su) rt2 of
              (Inl e, rt3) \<Rightarrow> end_call (Inl e) a rt3
            | (Inr _, rt3) \<Rightarrow> continuation_handle c (suspended_wait c su) waiter a
                (if iq_resumes q then rt3 else notify (su_run su) (ExternalWait (suspended_wait c su)) rt3)))))"

definition suspend_lookup_step :: "pylib \<Rightarrow> stamps \<Rightarrow> suspension \<Rightarrow> ext_activity \<Rightarrow> memory_state \<Rightarrow> ext_runtime \<Rightarrow> ext_runtime ext_step" where
  "suspend_lookup_step lib sm su a s rt = (case provider_lookup lib (ea_facade a) (su_external_id su) s of
     Inl e \<Rightarrow> end_call (Inl e) a rt
   | Inr (Some (c, _)) \<Rightarrow> restore_wait sm su c a rt
   | Inr None \<Rightarrow>
       (case reserve_response (sm_clock sm 0) (sm_clock sm 1) (su_run su) (su_request su) (pv_provider (ea_facade a)) (su_capability su) rt of
          (Inl e, rt1) \<Rightarrow> end_call (Inl e) a rt1
        | (Inr reserved, rt1) \<Rightarrow> (case prepare_local_waiter (su_request su) (su_artifact su) (pv_provider (ea_facade a)) rt1 of
            (Inl e, rt2) \<Rightarrow> end_call (Inl e) a rt2
          | (Inr waiter, rt2) \<Rightarrow> go (SuspendStore su reserved waiter) a rt2)))"

definition undo_suspend :: "suspension \<Rightarrow> bool \<Rightarrow> nat option \<Rightarrow> ext_runtime \<Rightarrow> ext_runtime" where
  "undo_suspend su reserved waiter rt =
     (let run_id = iq_invocation_id (su_request su); rt1 = discard_local_waiter run_id waiter rt
      in if reserved then discard_response run_id (su_run su) rt1 else rt1)"

definition suspend_store_step :: "pylib \<Rightarrow> stamps \<Rightarrow> suspension \<Rightarrow> bool \<Rightarrow> nat option \<Rightarrow> ext_activity \<Rightarrow> memory_state \<Rightarrow> ext_runtime
    \<Rightarrow> memory_state \<times> ext_runtime ext_step" where
  "suspend_store_step lib sm su reserved waiter a s rt =
     (let q = su_request su; undo = (\<lambda>e. end_call (Inl e) a (undo_suspend su reserved waiter rt)) in
      case capture_grants (sm_ident sm) (iq_principal q) of
        Inl e \<Rightarrow> (s, undo e)
      | Inr grants \<Rightarrow> (case provider_suspend (suspend_continuation lib) (ea_facade a) (sm_now sm) (sm_token sm) (iq_user_id q)
            (iq_session_id q) (iq_invocation_id q) (su_external_id su) (su_capability su) (su_schema_id su) (su_artifact su) grants s of
          (Inl e, s') \<Rightarrow> (s', undo e)
        | (Inr c, s') \<Rightarrow> (s', go (SuspendPublish su c waiter) a rt)))"

definition suspend_publish_step :: "stamps \<Rightarrow> suspension \<Rightarrow> continuation \<Rightarrow> nat option \<Rightarrow> ext_activity \<Rightarrow> ext_runtime \<Rightarrow> ext_runtime ext_step" where
  "suspend_publish_step sm su c waiter a rt =
     (case set_pending_response (sm_clock sm 0) (iq_invocation_id (su_request su)) (suspended_wait c su) rt of
        (Inl e, rt1) \<Rightarrow> end_call (Inl e) a rt1
      | (Inr _, rt1) \<Rightarrow> continuation_handle c (suspended_wait c su) waiter a
          (notify (su_run su) (ExternalWait (suspended_wait c su)) rt1))"


section \<open>Cancellation\<close>

text \<open>\<open>last\<close>: this is the second of the two attempts.\<close>

definition cancel_step :: "stamps \<Rightarrow> continuation \<Rightarrow> cont_failure \<Rightarrow> bool \<Rightarrow> ext_activity \<Rightarrow> memory_state \<Rightarrow> ext_runtime
    \<Rightarrow> memory_state \<times> ext_runtime ext_step" where
  "cancel_step sm c f final a s rt = (case provider_cancel cancel_continuation (ea_facade a) (sm_now sm) c f s of
     (Inr d, s') \<Rightarrow> (s', end_call (Inr (GotRecord d)) a rt)
   | (Inl e, s') \<Rightarrow> (s', case e of ContinuationConflictError _ \<Rightarrow> go (CancelReload c f final e) a rt | _ \<Rightarrow> end_call (Inl e) a rt))"

definition cancel_again :: "continuation \<Rightarrow> continuation \<Rightarrow> cont_failure \<Rightarrow> bool \<Rightarrow> exc \<Rightarrow> ext_activity \<Rightarrow> ext_runtime \<Rightarrow> ext_runtime ext_step" where
  "cancel_again c latest f final e a rt =
     (if k_status latest \<noteq> ''pending'' \<or> k_revision latest = k_revision c then end_call (Inl e) a rt
      else if final then end_call (Inl (ContinuationConflictError ''continuation cancellation kept changing'')) a rt
      else go (Cancelling latest f True) a rt)"

definition cancel_reload_step :: "continuation \<Rightarrow> cont_failure \<Rightarrow> bool \<Rightarrow> exc \<Rightarrow> ext_activity \<Rightarrow> memory_state \<Rightarrow> ext_runtime
    \<Rightarrow> ext_runtime ext_step" where
  "cancel_reload_step c f final e a s rt = (case reload (ea_facade a) c s of
     Inl e' \<Rightarrow> end_call (Inl e') a rt
   | Inr None \<Rightarrow> end_call (Inl e) a rt
   | Inr (Some latest) \<Rightarrow>
       if k_status latest \<noteq> ''failed'' \<or> k_failure latest \<noteq> Some f then cancel_again c latest f final e a rt
       else go (CancelConfirm c latest f final e) a rt)"

definition cancel_confirm_step :: "continuation \<Rightarrow> continuation \<Rightarrow> cont_failure \<Rightarrow> bool \<Rightarrow> exc \<Rightarrow> ext_activity \<Rightarrow> memory_state \<Rightarrow> ext_runtime
    \<Rightarrow> ext_runtime ext_step" where
  "cancel_confirm_step c latest f final e a s rt = (case get_run (k_scope latest) s of
     Some r \<Rightarrow> if r_status r = Cancelled \<and> r_pending_action r = None then end_call (Inr (GotRecord latest)) a rt
       else cancel_again c latest f final e a rt
   | None \<Rightarrow> cancel_again c latest f final e a rt)"

definition no_wait :: "ext_activity \<Rightarrow> ext_runtime \<Rightarrow> ext_runtime ext_step" where
  "no_wait a rt = end_call (Inr (GotBool False)) a rt"

definition transport_run_step :: "cancel_mode \<Rightarrow> run_scope \<Rightarrow> ext_activity \<Rightarrow> memory_state \<Rightarrow> ext_runtime \<Rightarrow> ext_runtime ext_step" where
  "transport_run_step mode sc a s rt = (case get_run sc s of None \<Rightarrow> no_wait a rt
     | Some r \<Rightarrow> (case r_pending_action r of None \<Rightarrow> no_wait a rt
       | Some action \<Rightarrow> if r_status r \<noteq> Waiting \<or> pa_type action \<noteq> ''external_continuation'' then no_wait a rt
           else go (TransportRecord mode sc (pa_action_id action)) a rt))"

definition transport_record_step :: "cancel_mode \<Rightarrow> run_scope \<Rightarrow> string \<Rightarrow> ext_activity \<Rightarrow> memory_state \<Rightarrow> ext_runtime \<Rightarrow> ext_runtime ext_step" where
  "transport_record_step mode sc cid a s rt = (case get_continuation sc cid s of None \<Rightarrow> no_wait a rt
     | Some c \<Rightarrow> (case provider_named (k_provider c) rt of
         (Inl e, rt1) \<Rightarrow> end_call (Inl e) a rt1
       | (Inr p, rt1) \<Rightarrow> go (TransportPending mode sc (k_continuation_id c)) (a\<lparr>ea_facade := p\<rparr>) rt1))"

definition transport_pending_step :: "cancel_mode \<Rightarrow> run_scope \<Rightarrow> string \<Rightarrow> ext_activity \<Rightarrow> memory_state \<Rightarrow> ext_runtime \<Rightarrow> ext_runtime ext_step" where
  "transport_pending_step mode sc cid a s rt =
     (case provider_get_pending (ea_facade a) (sc_user_id sc) (sc_session_id sc) (sc_run_id sc) cid s of
        Inl e \<Rightarrow> end_call (Inl e) a rt
      | Inr None \<Rightarrow> no_wait a rt
      | Inr (Some (c, _)) \<Rightarrow> (case map_of (er_cancel_handlers rt) (k_provider c) of
          Some h \<Rightarrow> go (HandlerCalled mode h c) a rt
        | None \<Rightarrow> (case mode of CancelTask \<Rightarrow> no_wait a rt | CancelResponse \<Rightarrow> go (TransportCancel c) a rt)))"

definition handler_answered :: "exc + bool \<Rightarrow> cancel_mode \<Rightarrow> continuation \<Rightarrow> ext_activity \<Rightarrow> ext_runtime \<Rightarrow> ext_runtime ext_step" where
  "handler_answered answer mode c a rt = (case answer of
     Inl e \<Rightarrow> end_call (Inl e) a rt
   | Inr stopped \<Rightarrow> if stopped \<or> mode = CancelTask then end_call (Inr (GotBool stopped)) a rt else go (TransportCancel c) a rt)"

definition transport_cancel_step :: "stamps \<Rightarrow> continuation \<Rightarrow> ext_activity \<Rightarrow> memory_state \<Rightarrow> ext_runtime \<Rightarrow> memory_state \<times> ext_runtime ext_step" where
  "transport_cancel_step sm c a s rt =
     (case provider_cancel cancel_continuation (ea_facade a) (sm_now sm) c \<lparr>f_code = ''transport_cancelled'', f_retryable = False\<rparr> s of
        (Inr _, s') \<Rightarrow> (s', end_call (Inr (GotBool True)) a rt)
      | (Inl e, s') \<Rightarrow> (s', case e of ContinuationConflictError _ \<Rightarrow> no_wait a rt | _ \<Rightarrow> end_call (Inl e) a rt))"


section \<open>What a poll reports\<close>

text \<open>\<^verbatim>\<open>_durable_boundary\<close>, given the scope it reads.\<close>

definition durable_boundary :: "run_scope \<Rightarrow> memory_state \<Rightarrow> boundary option" where
  "durable_boundary sc s = (case get_run sc s of None \<Rightarrow> None
     | Some r \<Rightarrow> (case r_pending_action r of
         Some action \<Rightarrow> if r_status r = Waiting \<and> pa_type action = ''external_continuation''
           then Some (WaitBoundary \<lparr>xp_id = pa_action_id action, xp_capability = pa_capability action\<rparr>)
           else if terminal_run (r_status r) then Some (TerminalBoundary r) else None
       | None \<Rightarrow> if terminal_run (r_status r) then Some (TerminalBoundary r) else None))"

definition start_boundary :: "stamps \<Rightarrow> string \<Rightarrow> string \<Rightarrow> string \<Rightarrow> ext_activity \<Rightarrow> ext_runtime \<Rightarrow> ext_runtime ext_step" where
  "start_boundary sm response_id user_id session_id a rt =
     (let sc = \<lparr>sc_application_id = er_application_id rt, sc_user_id = user_id, sc_session_id = session_id, sc_run_id = response_id\<rparr> in
      case response_for (sm_clock sm 0) response_id user_id session_id rt of
        (Some (i, _), rt1) \<Rightarrow> go (BoundaryLocking sc i) a rt1
      | (None, rt1) \<Rightarrow> (case check_run_scope sc of
          Some e \<Rightarrow> end_call (Inl e) a rt1
        | None \<Rightarrow> go (BoundaryRemote sc) a rt1))"

definition boundary_remote_step :: "stamps \<Rightarrow> run_scope \<Rightarrow> ext_activity \<Rightarrow> memory_state \<Rightarrow> ext_runtime \<Rightarrow> ext_runtime ext_step" where
  "boundary_remote_step sm sc a s rt = (case durable_boundary sc s of
     None \<Rightarrow> end_call (Inl response_not_found) a rt
   | Some b \<Rightarrow> end_call (Inr (GotBoundary b)) a (case b of
       WaitBoundary p \<Rightarrow> remember_durable_pending (sm_clock sm 0) (sm_clock sm 1) (sc_run_id sc) (sc_user_id sc) (sc_session_id sc) p rt
     | _ \<Rightarrow> rt))"

definition unlock_state :: "nat \<Rightarrow> ext_runtime \<Rightarrow> ext_runtime" where
  "unlock_state i rt = (case map_of (er_states rt) i of None \<Rightarrow> rt | Some st \<Rightarrow> put_state i (st\<lparr>xr_lock := None\<rparr>) rt)"

text \<open>Nothing happens while another coroutine holds the lock of the response; \<open>me\<close> is this activity.\<close>

definition boundary_lock_step :: "stamps \<Rightarrow> nat \<Rightarrow> run_scope \<Rightarrow> nat \<Rightarrow> ext_activity \<Rightarrow> ext_runtime \<Rightarrow> ext_runtime ext_step" where
  "boundary_lock_step sm me sc i a rt = (case map_of (er_states rt) i of
     None \<Rightarrow> (a, rt, [])
   | Some st \<Rightarrow>
       if xr_lock st \<noteq> None then (a, rt, [])
       else (case xr_final st of
         Some payload \<Rightarrow> end_call (Inr (GotBoundary (FinalBoundary payload))) a rt
       | None \<Rightarrow> (case local_boundary (sm_clock sm 0) i st rt of
           (WaitBoundary p, rt1) \<Rightarrow> (case check_run_scope sc of
               Some e \<Rightarrow> end_call (Inl e) a rt1
             | None \<Rightarrow> go (BoundaryDurable sc i (WaitBoundary p)) a
                 (case map_of (er_states rt1) i of None \<Rightarrow> rt1 | Some st1 \<Rightarrow> put_state i (st1\<lparr>xr_lock := Some me\<rparr>) rt1))
         | (b, rt1) \<Rightarrow> end_call (Inr (GotBoundary b)) a rt1)))"

definition boundary_durable_step :: "stamps \<Rightarrow> run_scope \<Rightarrow> nat \<Rightarrow> boundary \<Rightarrow> ext_activity \<Rightarrow> memory_state \<Rightarrow> ext_runtime \<Rightarrow> ext_runtime ext_step" where
  "boundary_durable_step sm sc i local a s rt =
     (let rt1 = unlock_state i rt in case durable_boundary sc s of
        None \<Rightarrow> end_call (Inr (GotBoundary local)) a rt1
      | Some b \<Rightarrow> end_call (Inr (GotBoundary b)) a (case (b, map_of (er_states rt1) i) of
          (WaitBoundary p, Some st) \<Rightarrow> put_state i (st\<lparr>xr_pending := p, xr_updated_at := sm_clock sm 0\<rparr>) rt1
        | _ \<Rightarrow> rt1))"


section \<open>One step of an activity\<close>

text \<open>The phases that await the driver or a cancellation hook are answered by the environment.\<close>

fun advance_phase :: "pylib \<Rightarrow> stamps \<Rightarrow> nat \<Rightarrow> ext_phase \<Rightarrow> ext_activity \<Rightarrow> memory_state \<Rightarrow> ext_runtime \<Rightarrow> memory_state \<times> ext_runtime ext_step" where
  "advance_phase lib sm me (Completing ext result) a s rt = (s, complete_step lib ext result a s rt)"
| "advance_phase lib sm me (Failing ext code) a s rt = (s, fail_step lib ext code a s rt)"
| "advance_phase lib sm me (Resolving c ext result v) a s rt = resolve_step lib sm c ext result v a s rt"
| "advance_phase lib sm me (FailResolving c ext f) a s rt = fail_resolve_step lib sm c ext f a s rt"
| "advance_phase lib sm me (Suspending su) a s rt = (s, suspend_lookup_step lib sm su a s rt)"
| "advance_phase lib sm me (SuspendStore su reserved w) a s rt = suspend_store_step lib sm su reserved w a s rt"
| "advance_phase lib sm me (SuspendPublish su c w) a s rt = (s, suspend_publish_step sm su c w a rt)"
| "advance_phase lib sm me (ArmLookup k user sess cid) a s rt = (s, arm_lookup_step k user sess cid a s rt)"
| "advance_phase lib sm me (Arming c) a s rt = arm_step sm c a s rt"
| "advance_phase lib sm me (ArmReload c e) a s rt = (s, arm_reload_step c e a s rt)"
| "advance_phase lib sm me (Rearming c) a s rt = rearm_step sm c a s rt"
| "advance_phase lib sm me (Claiming c) a s rt = claim_step sm c a s rt"
| "advance_phase lib sm me (ClaimReload c e) a s rt = (s, claim_reload_step c e a s rt)"
| "advance_phase lib sm me (Delivering c) a s rt = (s, deliver_step sm c a rt)"
| "advance_phase lib sm me (Invoking c) a s rt = (s, a, rt, [])"
| "advance_phase lib sm me (Cancelling c f final) a s rt = cancel_step sm c f final a s rt"
| "advance_phase lib sm me (CancelReload c f final e) a s rt = (s, cancel_reload_step c f final e a s rt)"
| "advance_phase lib sm me (CancelConfirm c l f final e) a s rt = (s, cancel_confirm_step c l f final e a s rt)"
| "advance_phase lib sm me (TransportRun mode sc) a s rt = (s, transport_run_step mode sc a s rt)"
| "advance_phase lib sm me (TransportRecord mode sc cid) a s rt = (s, transport_record_step mode sc cid a s rt)"
| "advance_phase lib sm me (TransportPending mode sc cid) a s rt = (s, transport_pending_step mode sc cid a s rt)"
| "advance_phase lib sm me (HandlerCalled mode h c) a s rt = (s, a, rt, [])"
| "advance_phase lib sm me (TransportCancel c) a s rt = transport_cancel_step sm c a s rt"
| "advance_phase lib sm me (BoundaryRemote sc) a s rt = (s, boundary_remote_step sm sc a s rt)"
| "advance_phase lib sm me (BoundaryLocking sc i) a s rt = (s, boundary_lock_step sm me sc i a rt)"
| "advance_phase lib sm me (BoundaryDurable sc i b) a s rt = (s, boundary_durable_step sm sc i b a s rt)"
| "advance_phase lib sm me (Finished result) a s rt = (s, a, rt, [])"

datatype driver_answer = DriverReturned pyval | DriverSuspended | DriverRaised exc

definition driver_answered :: "stamps \<Rightarrow> driver_answer \<Rightarrow> continuation \<Rightarrow> ext_activity \<Rightarrow> ext_runtime \<Rightarrow> ext_runtime ext_step" where
  "driver_answered sm answer c a rt = (case answer of
     DriverReturned result \<Rightarrow> end_call (Inr (GotRecord c)) a (notify_result (k_run_id c) result rt)
   | DriverSuspended \<Rightarrow> start_arm (sm_clock sm 0) (k_run_id c) (k_user_id c) (k_session_id c) a rt
   | DriverRaised e \<Rightarrow> end_call (Inl e) a rt)"


text \<open>A task that is cancelled leaves through its exception handlers, wherever it stands.\<close>

definition interrupted :: "ext_activity \<Rightarrow> ext_runtime \<Rightarrow> ext_runtime ext_step" where
  "interrupted a rt = (case ea_phase a of
     Finished result \<Rightarrow> (a, rt, [])
   | SuspendStore su reserved waiter \<Rightarrow> end_call (Inl (CancelledError '''')) a (undo_suspend su reserved waiter rt)
   | BoundaryDurable sc i b \<Rightarrow> end_call (Inl (CancelledError '''')) a (unlock_state i rt)
   | _ \<Rightarrow> end_call (Inl (CancelledError '''')) a rt)"


section \<open>Calls\<close>

text \<open>
  A call of the runtime or of one of its ports, with what it runs before its first \<^verbatim>\<open>await\<close>. A
  suspension names the artifact of the native durable call it stands in, if any, and whether the
  plugin runs inside a managed invocation of this runtime; without an artifact the preflight has raised.
\<close>

datatype ext_call =
    CompleteCall string string pyval
  | FailCall string string string
  | SuspendCall string bool wait_request nat string string string "resume_artifact option" validator
  | ArmCall string string string
  | CancelCall string continuation string
  | TransportCall cancel_mode string string string
  | BoundaryCall string string string

definition idle :: "nat \<Rightarrow> provider \<Rightarrow> ext_activity" where
  "idle replica p = \<lparr>ea_replica = replica, ea_facade = p, ea_attached = None, ea_resumed = None, ea_phase = Finished (Inr (GotBool False))\<rparr>"

text \<open>A guard and the facade of a provider, before anything else.\<close>

definition open_with :: "nat \<Rightarrow> string \<Rightarrow> exc option \<Rightarrow> ext_runtime \<Rightarrow> (ext_activity \<Rightarrow> ext_runtime \<Rightarrow> ext_runtime ext_step) \<Rightarrow> ext_runtime ext_step" where
  "open_with replica name guard rt k =
     (let p0 = \<lparr>pv_application_id = er_application_id rt, pv_provider = name\<rparr> in case guard of
        Some e \<Rightarrow> end_call (Inl e) (idle replica p0) rt
      | None \<Rightarrow> (case provider_named name rt of
          (Inl e, rt1) \<Rightarrow> end_call (Inl e) (idle replica p0) rt1
        | (Inr p, rt1) \<Rightarrow> k (idle replica p) rt1))"

definition preflight :: "bool \<Rightarrow> resume_artifact option \<Rightarrow> ext_runtime \<Rightarrow> exc option" where
  "preflight managed native rt = check_all
     [require managed (ExternalContinuationUnavailableError ''external continuations require a managed invocation''),
      require_open rt,
      require (native \<noteq> None) (ExternalContinuationUnavailableError ''unfinished external work requires @tool(durable=True)'')]"

fun start_call :: "stamps \<Rightarrow> nat \<Rightarrow> ext_call \<Rightarrow> ext_runtime \<Rightarrow> ext_runtime ext_step" where
  "start_call sm r (CompleteCall name ext result) rt = open_with r name (require_open rt) rt (go (Completing ext result))"
| "start_call sm r (FailCall name ext code) rt = open_with r name (require_open rt) rt (go (Failing ext code))"
| "start_call sm r (SuspendCall name managed request run ext cap schema native validate) rt =
     open_with r name (preflight managed native rt) rt (\<lambda>a rt1. case native of
       None \<Rightarrow> end_call (Inl (RuntimeError '''')) a rt1
     | Some artifact \<Rightarrow> (case register_schema name schema validate rt1 of
         (Inl e, rt2) \<Rightarrow> end_call (Inl e) a rt2
       | (Inr _, rt2) \<Rightarrow> go (Suspending \<lparr>su_request = request, su_run = run, su_external_id = ext, su_capability = cap,
           su_schema_id = schema, su_artifact = artifact\<rparr>) a rt2))"
| "start_call sm r (ArmCall k user sess) rt =
     start_arm (sm_clock sm 0) k user sess (idle r \<lparr>pv_application_id = er_application_id rt, pv_provider = ''''\<rparr>) rt"
| "start_call sm r (CancelCall name c code) rt =
     (let f = \<lparr>f_code = code, f_retryable = False\<rparr> in
      open_with r name (check_all [require_open rt,
        require (k_application_id c = er_application_id rt \<and> k_provider c = name)
          (ContinuationConflictError ''continuation cancellation ownership changed''), check_cont_failure f])
        rt (go (Cancelling c f False)))"
| "start_call sm r (TransportCall mode k user sess) rt =
     (let sc = \<lparr>sc_application_id = er_application_id rt, sc_user_id = user, sc_session_id = sess, sc_run_id = k\<rparr>;
          a = idle r \<lparr>pv_application_id = er_application_id rt, pv_provider = ''''\<rparr> in
      case check_all [require_open rt, check_run_scope sc] of
        Some e \<Rightarrow> end_call (Inl e) a rt
      | None \<Rightarrow> go (TransportRun mode sc) a rt)"
| "start_call sm r (BoundaryCall k user sess) rt =
     start_boundary sm k user sess (idle r \<lparr>pv_application_id = er_application_id rt, pv_provider = ''''\<rparr>) rt"


section \<open>Several processes over one store\<close>

record ext_world =
  ew_store :: memory_state
  ew_runtimes :: "nat \<Rightarrow> ext_runtime"
  ew_activities :: "nat \<Rightarrow> ext_activity option"
  ew_trace :: "ext_effect list"

text \<open>
  \<open>RuntimeOp\<close> is a synchronous call on a runtime, \<open>StoreOp\<close> an operation of the rest of the
  application on the shared store.
\<close>

datatype runtime_op =
    BindDriver nat bool
  | RegisterSchema string string validator
  | RegisterCancelHandler string nat
  | RetainFinal rat rat rat string string string payload
  | NotifyRun nat notification
  | CloseRuntime

fun runtime_step :: "runtime_op \<Rightarrow> ext_runtime \<Rightarrow> ext_runtime" where
  "runtime_step (BindDriver d invokes) rt = snd (bind_driver d invokes rt)"
| "runtime_step (RegisterSchema p schema v) rt = snd (register_schema p schema v rt)"
| "runtime_step (RegisterCancelHandler p h) rt = snd (register_cancel_handler p h rt)"
| "runtime_step (RetainFinal t1 t2 t3 k user sess payload) rt = snd (retain_final t1 t2 t3 k user sess payload rt)"
| "runtime_step (NotifyRun run n) rt = notify run n rt"
| "runtime_step CloseRuntime rt = close_runtime rt"

datatype ext_op =
    StartCall nat nat stamps ext_call
  | Advance nat stamps
  | DriverAnswers nat stamps driver_answer
  | HandlerAnswers nat "exc + bool"
  | Interrupt nat
  | RuntimeOp nat runtime_op
  | StoreOp memory_op

definition settle_call :: "nat \<Rightarrow> nat \<Rightarrow> memory_state \<times> ext_runtime ext_step \<Rightarrow> ext_world \<Rightarrow> ext_world" where
  "settle_call me replica result w = (case result of (s, a, rt, effects) \<Rightarrow>
     w\<lparr>ew_store := s, ew_runtimes := (ew_runtimes w)(replica := rt), ew_activities := (ew_activities w)(me \<mapsto> a),
       ew_trace := ew_trace w @ effects\<rparr>)"

text \<open>A new call gets an unused number.\<close>

fun ext_step :: "pylib \<Rightarrow> iso_parser \<Rightarrow> ext_op \<Rightarrow> ext_world \<Rightarrow> ext_world" where
  "ext_step lib parse (StartCall me replica sm c) w =
     (if ew_activities w me \<noteq> None then w
      else settle_call me replica (ew_store w, start_call sm replica c (ew_runtimes w replica)) w)"
| "ext_step lib parse (Advance me sm) w = (case ew_activities w me of None \<Rightarrow> w
     | Some a \<Rightarrow> settle_call me (ea_replica a) (advance_phase lib sm me (ea_phase a) a (ew_store w) (ew_runtimes w (ea_replica a))) w)"
| "ext_step lib parse (DriverAnswers me sm answer) w = (case ew_activities w me of None \<Rightarrow> w
     | Some a \<Rightarrow> (case ea_phase a of
         Invoking c \<Rightarrow> settle_call me (ea_replica a) (ew_store w, driver_answered sm answer c a (ew_runtimes w (ea_replica a))) w
       | _ \<Rightarrow> w))"
| "ext_step lib parse (HandlerAnswers me answer) w = (case ew_activities w me of None \<Rightarrow> w
     | Some a \<Rightarrow> (case ea_phase a of
         HandlerCalled mode h c \<Rightarrow> settle_call me (ea_replica a) (ew_store w, handler_answered answer mode c a (ew_runtimes w (ea_replica a))) w
       | _ \<Rightarrow> w))"
| "ext_step lib parse (Interrupt me) w = (case ew_activities w me of None \<Rightarrow> w
     | Some a \<Rightarrow> settle_call me (ea_replica a) (ew_store w, interrupted a (ew_runtimes w (ea_replica a))) w)"
| "ext_step lib parse (RuntimeOp replica op) w =
     w\<lparr>ew_runtimes := (ew_runtimes w)(replica := runtime_step op (ew_runtimes w replica))\<rparr>"
| "ext_step lib parse (StoreOp op) w = w\<lparr>ew_store := memory_step lib parse op (ew_store w)\<rparr>"

end
