(* ===== verification/External_Safety.thy ===== *)
theory External_Safety
  imports External_Runtime
begin

text \<open>
  What one step of an activity does: to the table of responses of its process, to the shared
  store, and to the effects. The table keeps its bound and its active responses under every
  operation but the three that give a response up; the store moves by its own operations; an effect
  needs a claim.
\<close>

section \<open>The table of responses\<close>

definition table_ok :: "ext_runtime \<Rightarrow> bool" where
  "table_ok rt \<longleftrightarrow> dict_ok (er_responses rt) \<and> int (length (er_responses rt)) \<le> er_max_responses rt \<and>
     (\<forall>k i. map_of (er_responses rt) k = Some i \<longrightarrow> i < er_next rt)"

text \<open>A response is active under an identifier, as one object, for one owner.\<close>

definition active_response :: "ext_runtime \<Rightarrow> string \<Rightarrow> nat \<Rightarrow> string \<times> string \<Rightarrow> bool" where
  "active_response rt k i owner \<longleftrightarrow> map_of (er_responses rt) k = Some i \<and>
     (\<exists>st. map_of (er_states rt) i = Some st \<and> xr_final st = None \<and> response_owner st = owner)"

definition bounds_table :: "ext_runtime \<Rightarrow> ext_runtime \<Rightarrow> bool" where
  "bounds_table rt rt' \<longleftrightarrow> (table_ok rt \<longrightarrow> table_ok rt' \<and> er_max_responses rt' = er_max_responses rt)"

definition keeps_table :: "ext_runtime \<Rightarrow> ext_runtime \<Rightarrow> bool" where
  "keeps_table rt rt' \<longleftrightarrow> bounds_table rt rt' \<and>
     (table_ok rt \<longrightarrow> (\<forall>k i owner. active_response rt k i owner \<longrightarrow> active_response rt' k i owner))"

lemma keeps_bounds: "keeps_table rt rt' \<Longrightarrow> bounds_table rt rt'"
  by (simp add: keeps_table_def)

lemma bounds_refl [simp]: "bounds_table rt rt"
  by (simp add: bounds_table_def)

lemma keeps_refl [simp]: "keeps_table rt rt"
  by (simp add: keeps_table_def)

lemma bounds_trans [trans]: "bounds_table a b \<Longrightarrow> bounds_table b c \<Longrightarrow> bounds_table a c"
  by (simp add: bounds_table_def)

lemma keeps_trans [trans]: "keeps_table a b \<Longrightarrow> keeps_table b c \<Longrightarrow> keeps_table a c"
  by (auto simp: keeps_table_def bounds_table_def)

text \<open>Operations that leave the table alone, or only reorder it.\<close>

lemma keeps_reorder:
  assumes "er_responses rt' = er_responses rt \<or> er_responses rt' = move_to_end k (er_responses rt)"
    and "er_max_responses rt' = er_max_responses rt" "er_next rt \<le> er_next rt'"
    and "\<And>i st. map_of (er_states rt) i = Some st \<Longrightarrow>
      \<exists>st'. map_of (er_states rt') i = Some st' \<and> (xr_final st = None \<longrightarrow> xr_final st' = None \<and> response_owner st' = response_owner st)"
  shows "keeps_table rt rt'"
proof -
  have same: "map_of (er_responses rt') = map_of (er_responses rt)" using assms(1) by auto
  have "active_response rt' j i owner" if "active_response rt j i owner" for j i owner
    using that assms(4) unfolding active_response_def same by metis
  moreover have "table_ok rt'" if "table_ok rt"
    using that assms(1-3) unfolding table_ok_def same by fastforce
  ultimately show ?thesis using assms(2) by (simp add: keeps_table_def bounds_table_def)
qed

lemma keeps_put_state:
  assumes "map_of (er_states rt) i = Some st" "xr_final st' = xr_final st" "xr_request st' = xr_request st"
  shows "keeps_table rt (put_state i st' rt)"
  by (rule keeps_reorder [where k = undefined]) (use assms in \<open>auto simp: put_state_def response_owner_def\<close>)

lemma keeps_frame:
  assumes "er_responses rt' = er_responses rt" "er_max_responses rt' = er_max_responses rt" "er_next rt \<le> er_next rt'"
    "er_states rt' = er_states rt"
  shows "keeps_table rt rt'"
  by (rule keeps_reorder [where k = undefined]) (use assms in auto)

lemma keeps_add:
  assumes "map_of (er_responses rt) k = None" "\<not> table_full rt"
  shows "keeps_table rt (add_state k st rt)"
proof -
  have "length (AList.update k i d) = Suc (length d)" if "map_of d k = None" for i and d :: "(string \<times> nat) list"
    using that by (induction d) auto
  then show ?thesis using assms
    by (auto simp: keeps_table_def bounds_table_def table_ok_def active_response_def add_state_def table_full_def split: if_splits
        intro: less_SucI)
qed

lemma keeps_drop:
  assumes "table_ok rt \<Longrightarrow> \<forall>k \<in> set ks. \<exists>i. map_of (er_responses rt) k = Some i \<and> state_final rt i"
  shows "keeps_table rt (rt\<lparr>er_responses := fold AList.delete ks (er_responses rt)\<rparr>)"
  using assms fold_delete_length [of ks "er_responses rt"]
  by (fastforce simp: keeps_table_def bounds_table_def table_ok_def active_response_def fold_delete_lookup state_final_def
      split: if_splits option.splits)

lemma bounds_delete: "bounds_table rt (rt\<lparr>er_responses := AList.delete k (er_responses rt)\<rparr>)"
  using fold_delete_length [of "[k]" "er_responses rt"] by (auto simp: bounds_table_def table_ok_def split: if_splits)

lemma keeps_prune: "keeps_table rt (prune_responses_locked now rt)"
  unfolding prune_responses_locked_def
  by (rule keeps_drop) (auto simp: table_ok_def state_expired_def state_final_def split: option.splits)

lemma keeps_evict: "keeps_table rt (evict_oldest_terminal_locked rt)"
proof (cases "find (\<lambda>(_, i). state_final rt i) (er_responses rt)")
  case (Some p)
  obtain k i where p: "p = (k, i)" by (cases p)
  with Some have f: "(k, i) \<in> set (er_responses rt)" "state_final rt i"
    by (auto simp: find_Some_iff) (metis nth_mem)
  from keeps_drop [of rt "[k]"] f show ?thesis
    by (auto simp: evict_oldest_terminal_locked_def Some p table_ok_def)
qed (auto simp: evict_oldest_terminal_locked_def)

lemma prune_same [simp]:
  "er_max_responses (prune_responses_locked now rt) = er_max_responses rt"
  "er_states (prune_responses_locked now rt) = er_states rt" "er_next (prune_responses_locked now rt) = er_next rt"
  by (simp_all add: prune_responses_locked_def)

lemma evict_absent: "map_of (er_responses rt) k = None \<Longrightarrow> map_of (er_responses (evict_oldest_terminal_locked rt)) k = None"
  by (auto simp: evict_oldest_terminal_locked_def split: option.splits)

lemma keeps_reserve: "keeps_table rt (snd (reserve_response now created run q p cap rt))"
proof -
  let ?rt1 = "prune_responses_locked now rt"
  have "keeps_table ?rt1 (add_state (iq_invocation_id q) st ?rt1)"
    if "map_of (er_responses ?rt1) (iq_invocation_id q) = None" "\<not> table_full ?rt1" for st
    by (rule keeps_add [OF that])
  with keeps_prune [of rt now] show ?thesis
    by (auto simp: reserve_response_def Let_def intro: keeps_trans)
qed

lemma keeps_fresh_run: "keeps_table rt (snd (fresh_run rt))"
  by (rule keeps_frame) (simp_all add: fresh_run_def)

lemma fresh_run_same [simp]: "er_responses (snd (fresh_run rt)) = er_responses rt" "er_max_responses (snd (fresh_run rt)) = er_max_responses rt"
  by (simp_all add: fresh_run_def)

lemma keeps_poll:
  assumes "map_of (er_responses rt) k = None" "\<not> table_full rt"
  shows "keeps_table rt (add_poll_state now k user sess p rt)"
proof -
  let ?rt1 = "snd (fresh_run rt)"
  have "keeps_table ?rt1 (add_state k (poll_response_state now k user sess p (fst (fresh_run rt))) ?rt1)"
    by (rule keeps_add) (use assms in \<open>simp_all add: table_full_def\<close>)
  with keeps_fresh_run [of rt] show ?thesis
    by (auto simp: add_poll_state_def case_prod_beta intro: keeps_trans)
qed

lemma keeps_remember: "keeps_table rt (remember_durable_pending now created k user sess p rt)"
proof -
  let ?rt1 = "prune_responses_locked now rt" let ?rt2 = "evict_oldest_terminal_locked ?rt1"
  have "keeps_table rt ?rt2" using keeps_prune keeps_evict keeps_trans by blast
  then show ?thesis
    using keeps_prune [of rt now] keeps_poll [of ?rt2 k created user sess p]
    by (auto simp: remember_durable_pending_def Let_def evict_absent intro: keeps_trans)
qed

lemma state_of_at: "state_of rt k = Some (i, st) \<Longrightarrow> map_of (er_responses rt) k = Some i \<and> map_of (er_states rt) i = Some st"
  by (auto simp: state_of_def split: option.splits)

lemma keeps_set_pending: "keeps_table rt (snd (set_pending_response now k p rt))"
proof (cases "state_of rt k")
  case (Some x)
  obtain i st where x: "x = (i, st)" by (cases x)
  with Some have at: "map_of (er_states rt) i = Some st" using state_of_at by blast
  show ?thesis
    by (rule keeps_reorder [where k = k])
      (use at in \<open>auto simp: set_pending_response_def Some x put_state_def response_owner_def\<close>)
qed (simp add: set_pending_response_def)

lemma keeps_response_for: "keeps_table rt (snd (response_for now k user sess rt))"
proof -
  let ?rt1 = "prune_responses_locked now rt"
  have "keeps_table ?rt1 (?rt1\<lparr>er_responses := move_to_end k (er_responses ?rt1)\<rparr>)"
    by (rule keeps_reorder [where k = k]) auto
  with keeps_prune [of rt now] show ?thesis
    by (auto simp: response_for_def Let_def split: option.split intro: keeps_trans)
qed

lemma keeps_prepare: "keeps_table rt (snd (prepare_local_waiter q art p rt))"
proof -
  let ?rt1 = "rt\<lparr>er_futures := AList.update (er_next rt) Unresolved (er_futures rt), er_next := Suc (er_next rt)\<rparr>"
  have rt1: "keeps_table rt ?rt1" by (rule keeps_frame) simp_all
  have "keeps_table ?rt1 (put_state i (st\<lparr>xr_provider := p, xr_waiter := Some (er_next rt)\<rparr>) ?rt1)"
    if "state_of ?rt1 k = Some (i, st)" for k i st
    by (rule keeps_put_state) (use state_of_at [OF that] in simp_all)
  with rt1 show ?thesis
    unfolding prepare_local_waiter_def Let_def by (auto split: option.split intro: keeps_trans)
qed

lemma keeps_cancel_future: "keeps_table rt (cancel_future w rt)"
  unfolding cancel_future_def by (simp, intro impI keeps_frame) simp_all

lemma keeps_discard_waiter: "keeps_table rt (discard_local_waiter k w rt)"
proof (cases w)
  case (Some v)
  have "keeps_table rt (put_state i (st\<lparr>xr_waiter := None\<rparr>) rt)" if "state_of rt k = Some (i, st)" for i st
    by (rule keeps_put_state) (use state_of_at [OF that] in simp_all)
  then show ?thesis
    by (auto simp: discard_local_waiter_def Some split: option.split intro: keeps_trans keeps_cancel_future)
qed (simp add: discard_local_waiter_def)

lemma keeps_deliver: "keeps_table rt (snd (deliver_local_waiter now c rt))"
proof (cases "state_of rt (k_run_id c)")
  case (Some x)
  obtain i st where x: "x = (i, st)" by (cases x)
  with Some have at: "map_of (er_states rt) i = Some st" using state_of_at by blast
  have "keeps_table rt ((put_state i (st\<lparr>xr_waiter := None, xr_updated_at := now\<rparr>) rt)\<lparr>er_futures := fs\<rparr>)" for fs
    by (rule keeps_reorder [where k = undefined]) (use at in \<open>auto simp: put_state_def response_owner_def\<close>)
  then show ?thesis by (auto simp: deliver_local_waiter_def Some x split: option.split)
qed (simp add: deliver_local_waiter_def)

lemma keeps_notify: "keeps_table rt (notify run n rt)"
  by (rule keeps_frame) (simp_all add: notify_def)

lemma keeps_notify_result: "keeps_table rt (notify_result k v rt)"
  by (auto simp: notify_result_def keeps_notify split: option.split)

lemma keeps_provider: "keeps_table rt (snd (provider_named name rt))"
  by (auto simp: provider_named_def split: option.split sum.split intro: keeps_frame)

lemma keeps_register_schema: "keeps_table rt (snd (register_schema p schema v rt))"
  by (auto simp: register_schema_def Let_def intro: keeps_frame)

lemma keeps_unlock: "keeps_table rt (unlock_state i rt)"
  by (auto simp: unlock_state_def split: option.split intro: keeps_put_state)

lemma keeps_local_boundary:
  assumes "map_of (er_states rt) i = Some st"
  shows "keeps_table rt (snd (local_boundary now i st rt))"
  by (rule keeps_reorder [where k = undefined])
    (use assms in \<open>auto simp: local_boundary_def put_state_def response_owner_def split: prod.split\<close>)

lemmas table_keepers = keeps_reserve keeps_remember keeps_set_pending keeps_response_for keeps_prepare keeps_discard_waiter
  keeps_deliver keeps_notify keeps_notify_result keeps_provider keeps_register_schema keeps_unlock

lemma bounds_discard: "bounds_table rt (discard_response k run rt)"
  by (auto simp: discard_response_def split: option.split intro: bounds_delete)

lemma bounds_undo: "bounds_table rt (undo_suspend su reserved w rt)"
  unfolding undo_suspend_def Let_def
  by (auto intro: bounds_trans [OF keeps_bounds [OF keeps_discard_waiter] bounds_discard] keeps_bounds [OF keeps_discard_waiter])

lemma bounds_add:
  assumes "\<not> table_full rt"
  shows "bounds_table rt (add_state k st rt)"
proof -
  have "length (AList.update k i d) \<le> Suc (length d)" for i and d :: "(string \<times> nat) list"
    by (induction d) auto
  from this [of "er_next rt" "er_responses rt"] assms show ?thesis
    by (auto simp: bounds_table_def table_ok_def add_state_def table_full_def split: if_splits intro: less_SucI)
qed

lemma bounds_terminal: "bounds_table rt (snd (terminal_response_state now k user sess rt))"
proof -
  let ?rt1 = "evict_oldest_terminal_locked rt"
  let ?rt2 = "snd (fresh_run ?rt1)"
  have "bounds_table ?rt1 (add_poll_state now k user sess p ?rt1)" if "\<not> table_full ?rt1" for p
    using keeps_bounds [OF keeps_fresh_run [of ?rt1]] bounds_add [of ?rt2 k] that
    by (auto simp: add_poll_state_def case_prod_beta table_full_def intro: bounds_trans)
  then show ?thesis
    using keeps_bounds [OF keeps_evict [of rt]] unfolding terminal_response_state_def Let_def
    by (auto intro: bounds_trans)
qed

section \<open>The parts of a step\<close>

lemma go_parts [simp]: "fst (go p a s) = a\<lparr>ea_phase := p\<rparr>" "fst (snd (go p a s)) = s" "snd (snd (go p a s)) = []"
  by (simp_all add: go_def)

lemma emitting_parts [simp]: "fst (emitting es x) = fst x" "fst (snd (emitting es x)) = fst (snd x)" "snd (snd (emitting es x)) = es"
  by (simp_all add: emitting_def)

lemma leave_finished: "\<exists>x. ea_phase (fst (end_call r a rt)) = Finished x"
  by (cases r) (simp_all add: end_call_def)

lemma leave_parts [simp]: "ea_phase (fst (end_call r a rt)) \<noteq> Delivering c" "ea_phase (fst (end_call r a rt)) \<noteq> Claiming c"
    "snd (snd (end_call r a rt)) = []" "ea_replica (fst (end_call r a rt)) = ea_replica a"
  using leave_finished [of r a rt] by (auto simp: end_call_def split: sum.split)

lemma keeps_leave: "keeps_table rt (fst (snd (end_call r a rt)))"
  by (auto simp: end_call_def intro: keeps_discard_waiter split: sum.split option.split)

lemma keeps_then_leave: "keeps_table rt rt' \<Longrightarrow> keeps_table rt (fst (snd (end_call r a rt')))"
  using keeps_leave keeps_trans by blast

lemma bounds_then_leave: "bounds_table rt rt' \<Longrightarrow> bounds_table rt (fst (snd (end_call r a rt')))"
  using keeps_bounds [OF keeps_leave] bounds_trans by blast

lemma keeps_resume_if_ready: "keeps_table rt (fst (snd (resume_if_ready c a rt)))"
  by (simp add: resume_if_ready_def keeps_leave)

lemma keeps_deliver_step: "keeps_table rt (fst (snd (deliver_step sm c a rt)))"
  using keeps_deliver [of rt "sm_clock sm 0" c]
  by (cases "deliver_local_waiter (sm_clock sm 0) c rt")
    (auto simp: deliver_step_def intro: keeps_then_leave split: bool.split option.split sum.split)

lemma keeps_start_arm: "keeps_table rt (fst (snd (start_arm now k user sess a rt)))"
proof -
  obtain x rt1 where x: "response_for now k user sess rt = (x, rt1)" by fastforce
  with keeps_response_for [of rt now k user sess] have rt1: "keeps_table rt rt1" by simp
  show ?thesis
  proof (cases x)
    case (Some y)
    obtain i st where y: "y = (i, st)" by (cases y)
    obtain z rt2 where z: "provider_named (xr_provider st) rt1 = (z, rt2)" by fastforce
    with keeps_provider [of rt1 "xr_provider st"] rt1 have "keeps_table rt rt2" by (auto intro: keeps_trans)
    then show ?thesis by (auto simp: start_arm_def x Some y z intro: keeps_then_leave split: sum.split)
  qed (simp add: start_arm_def x keeps_then_leave rt1)
qed

lemma keeps_continuation_handle: "keeps_table rt rt1 \<Longrightarrow> keeps_table rt (fst (snd (continuation_handle c p w a rt1)))"
  by (auto simp: continuation_handle_def intro: keeps_then_leave split: option.split)

lemma keeps_restore_wait: "keeps_table rt (fst (snd (restore_wait sm su c a rt)))"
proof -
  let ?q = "su_request su" and ?p = "pv_provider (ea_facade a)" and ?w = "suspended_wait c su"
  obtain x1 rt1 where r1: "reserve_response (sm_clock sm 0) (sm_clock sm 1) (su_run su) ?q ?p (su_capability su) rt = (x1, rt1)" by fastforce
  obtain x2 rt2 where r2: "prepare_local_waiter ?q (su_artifact su) ?p rt1 = (x2, rt2)" by fastforce
  obtain x3 rt3 where r3: "set_pending_response (sm_clock sm 2) (iq_invocation_id ?q) ?w rt2 = (x3, rt3)" by fastforce
  have k1: "keeps_table rt rt1"
    using keeps_reserve [of rt "sm_clock sm 0" "sm_clock sm 1" "su_run su" ?q ?p "su_capability su"] r1 by simp
  have k2: "keeps_table rt rt2" using keeps_prepare [of rt1 ?q "su_artifact su" ?p] r2 k1 by (auto intro: keeps_trans)
  have k3: "keeps_table rt rt3"
    using keeps_set_pending [of rt2 "sm_clock sm 2" "iq_invocation_id ?q" ?w] r3 k2 by (auto intro: keeps_trans)
  have "keeps_table rt (if iq_resumes ?q then rt3 else notify (su_run su) (ExternalWait ?w) rt3)"
    using k3 keeps_notify by (auto intro: keeps_trans)
  with k1 k2 k3 show ?thesis
    by (auto simp: restore_wait_def Let_def r1 r2 r3 simp del: One_nat_def intro!: keeps_then_leave keeps_continuation_handle split: sum.split bool.split)
qed

lemma keeps_suspend_lookup: "keeps_table rt (fst (snd (suspend_lookup_step lib sm su a s rt)))"
proof -
  let ?q = "su_request su" and ?p = "pv_provider (ea_facade a)"
  obtain x1 rt1 where r1: "reserve_response (sm_clock sm 0) (sm_clock sm 1) (su_run su) ?q ?p (su_capability su) rt = (x1, rt1)" by fastforce
  obtain x2 rt2 where r2: "prepare_local_waiter ?q (su_artifact su) ?p rt1 = (x2, rt2)" by fastforce
  have k1: "keeps_table rt rt1"
    using keeps_reserve [of rt "sm_clock sm 0" "sm_clock sm 1" "su_run su" ?q ?p "su_capability su"] r1 by simp
  have k2: "keeps_table rt rt2" using keeps_prepare [of rt1 ?q "su_artifact su" ?p] r2 k1 by (auto intro: keeps_trans)
  from k1 k2 show ?thesis
    by (auto simp: suspend_lookup_step_def r1 r2 keeps_restore_wait simp del: One_nat_def intro!: keeps_then_leave split: sum.split option.split)
qed

lemma keeps_suspend_publish: "keeps_table rt (fst (snd (suspend_publish_step sm su c w a rt)))"
proof -
  obtain x rt1 where x: "set_pending_response (sm_clock sm 0) (iq_invocation_id (su_request su)) (suspended_wait c su) rt = (x, rt1)" by fastforce
  with keeps_set_pending [of rt "sm_clock sm 0" "iq_invocation_id (su_request su)" "suspended_wait c su"]
  have "keeps_table rt rt1" by simp
  then show ?thesis
    by (auto simp: suspend_publish_step_def x intro!: keeps_then_leave keeps_continuation_handle keeps_trans [OF _ keeps_notify] split: sum.split)
qed

lemma keeps_boundary_lock: "keeps_table rt (fst (snd (boundary_lock_step sm me sc i a rt)))"
proof (cases "map_of (er_states rt) i")
  case (Some st)
  obtain b rt1 where b: "local_boundary (sm_clock sm 0) i st rt = (b, rt1)" by fastforce
  with keeps_local_boundary [OF Some, of "sm_clock sm 0"] have rt1: "keeps_table rt rt1" by simp
  have "keeps_table rt (put_state i (st1\<lparr>xr_lock := Some me\<rparr>) rt1)" if "map_of (er_states rt1) i = Some st1" for st1
    using rt1 keeps_put_state [OF that, of "st1\<lparr>xr_lock := Some me\<rparr>"] by (auto intro: keeps_trans)
  then show ?thesis using rt1
    by (auto simp: boundary_lock_step_def Some b intro!: keeps_then_leave split: option.split boundary.split)
qed (simp add: boundary_lock_step_def)

lemma keeps_boundary_durable: "keeps_table rt (fst (snd (boundary_durable_step sm sc i b a s rt)))"
proof -
  let ?rt1 = "unlock_state i rt"
  have "keeps_table rt (put_state i (st\<lparr>xr_pending := p, xr_updated_at := sm_clock sm 0\<rparr>) ?rt1)"
    if "map_of (er_states ?rt1) i = Some st" for st p
    using keeps_unlock [of rt i] keeps_put_state [OF that, of "st\<lparr>xr_pending := p, xr_updated_at := sm_clock sm 0\<rparr>"]
    by (auto intro: keeps_trans)
  then show ?thesis using keeps_unlock [of rt i]
    by (auto simp: boundary_durable_step_def Let_def intro!: keeps_then_leave split: option.split boundary.split)
qed

lemma keeps_boundary_remote: "keeps_table rt (fst (snd (boundary_remote_step sm sc a s rt)))"
  by (auto simp: boundary_remote_step_def intro!: keeps_then_leave keeps_remember split: option.split boundary.split)

lemma keeps_transport_record: "keeps_table rt (fst (snd (transport_record_step mode sc cid a s rt)))"
proof (cases "get_continuation sc cid s")
  case (Some c)
  obtain x rt1 where x: "provider_named (k_provider c) rt = (x, rt1)" by fastforce
  with keeps_provider [of rt "k_provider c"] have "keeps_table rt rt1" by simp
  then show ?thesis by (auto simp: transport_record_step_def Some x intro!: keeps_then_leave split: sum.split)
qed (simp add: transport_record_step_def no_wait_def keeps_leave)

text \<open>Steps that only look at the runtime, or leave through \<open>end_call\<close>.\<close>

lemmas plain_steps = complete_step_def fail_step_def resolve_step_def fail_resolve_step_def arm_lookup_step_def arm_step_def
  arm_reload_step_def rearm_step_def claim_step_def claim_reload_step_def cancel_step_def cancel_again_def cancel_reload_step_def
  cancel_confirm_step_def transport_run_step_def transport_pending_step_def transport_cancel_step_def handler_answered_def no_wait_def

lemma advance_keeps_table:
  assumes "\<And>su reserved w. ph \<noteq> SuspendStore su reserved w"
  shows "keeps_table rt (fst (snd (snd (advance_phase lib sm me ph a s rt))))"
  using assms
  by (cases ph) (auto simp: keeps_deliver_step keeps_suspend_lookup keeps_suspend_publish keeps_boundary_lock keeps_boundary_durable
      keeps_boundary_remote keeps_transport_record plain_steps keeps_leave keeps_resume_if_ready Let_def
      split: sum.split option.split prod.split exc.split cancel_mode.split)


lemma advance_bounds_table: "bounds_table rt (fst (snd (snd (advance_phase lib sm me ph a s rt))))"
proof (cases "\<exists>su reserved w. ph = SuspendStore su reserved w")
  case True
  then obtain su reserved w where ph: "ph = SuspendStore su reserved w" by blast
  have "bounds_table rt (fst (snd (end_call (Inl e) a (undo_suspend su reserved w rt))))" for e
    by (rule bounds_then_leave [OF bounds_undo])
  then show ?thesis
    by (simp add: ph suspend_store_step_def Let_def split: sum.split prod.split)
next
  case False
  then have "keeps_table rt (fst (snd (snd (advance_phase lib sm me ph a s rt))))" by (intro advance_keeps_table) blast
  then show ?thesis by (rule keeps_bounds)
qed

lemma keeps_open_with:
  assumes "\<And>a rt1. keeps_table rt1 (fst (snd (k a rt1)))"
  shows "keeps_table rt (fst (snd (open_with r name guard rt k)))"
proof -
  obtain x rt1 where x: "provider_named name rt = (x, rt1)" by fastforce
  with keeps_provider [of rt name] have "keeps_table rt rt1" by simp
  with assms show ?thesis
    by (auto simp: open_with_def Let_def x keeps_leave intro: keeps_then_leave keeps_trans split: option.split sum.split)
qed

lemma keeps_start_boundary: "keeps_table rt (fst (snd (start_boundary sm k user sess a rt)))"
proof -
  obtain x rt1 where x: "response_for (sm_clock sm 0) k user sess rt = (x, rt1)" by fastforce
  with keeps_response_for [of rt "sm_clock sm 0" k user sess] have "keeps_table rt rt1" by simp
  then show ?thesis
    by (auto simp: start_boundary_def Let_def x intro: keeps_then_leave split: option.split)
qed

lemma keeps_start_suspend:
  "keeps_table rt (fst (snd (case native of None \<Rightarrow> end_call (Inl e0) a rt
     | Some artifact \<Rightarrow> (case register_schema name schema v rt of
         (Inl e, rt2) \<Rightarrow> end_call (Inl e) a rt2 | (Inr _, rt2) \<Rightarrow> go (f artifact) a rt2))))"
proof -
  obtain x rt2 where x: "register_schema name schema v rt = (x, rt2)" by fastforce
  with keeps_register_schema [of rt name schema v] have "keeps_table rt rt2" by simp
  then show ?thesis by (auto simp: x keeps_leave intro: keeps_then_leave split: option.split sum.split)
qed

lemma start_keeps_table: "keeps_table rt (fst (snd (start_call sm r c rt)))"
  by (cases c) (auto simp: keeps_start_arm keeps_start_boundary keeps_leave Let_def keeps_start_suspend intro!: keeps_open_with split: option.split)

lemma driver_keeps_table: "keeps_table rt (fst (snd (driver_answered sm answer c a rt)))"
  by (auto simp: driver_answered_def keeps_start_arm keeps_leave intro: keeps_then_leave keeps_notify_result split: driver_answer.split)

lemma handler_keeps_table: "keeps_table rt (fst (snd (handler_answered answer mode c a rt)))"
  by (auto simp: handler_answered_def keeps_leave split: sum.split)

lemma interrupted_table:
  "bounds_table rt (fst (snd (interrupted a rt)))"
  "(\<And>su reserved w. ea_phase a \<noteq> SuspendStore su reserved w) \<Longrightarrow> keeps_table rt (fst (snd (interrupted a rt)))"
  by (auto simp: interrupted_def keeps_leave intro: keeps_bounds keeps_then_leave keeps_unlock bounds_then_leave bounds_undo split: ext_phase.split)

lemma fold_cancel_futures: "keeps_table rt (fold cancel_future ws rt)"
  by (induction ws arbitrary: rt) (auto intro: keeps_trans keeps_cancel_future)

lemma retain_bounds: "bounds_table rt (snd (retain_final t1 t2 t3 k user sess payload rt))"
proof -
  let ?rt1 = "prune_responses_locked t1 rt"
  have k1: "bounds_table rt ?rt1" by (rule keeps_bounds [OF keeps_prune])
  have last: "bounds_table rt2 (prune_responses_locked t3 ((put_state i st rt2)\<lparr>er_responses := move_to_end k (er_responses rt2)\<rparr>))"
    for i st rt2
  proof -
    have "bounds_table rt2 ((put_state i st rt2)\<lparr>er_responses := move_to_end k (er_responses rt2)\<rparr>)"
      by (auto simp: bounds_table_def table_ok_def put_state_def)
    then show ?thesis using keeps_bounds [OF keeps_prune] bounds_trans by blast
  qed
  show ?thesis
  proof (cases "state_of ?rt1 k")
    case None
    obtain x rt2 where x: "terminal_response_state t1 k user sess ?rt1 = (x, rt2)" by fastforce
    have "bounds_table ?rt1 rt2" using bounds_terminal [of ?rt1 t1 k user sess] x by simp
    with k1 last show ?thesis
      by (auto simp: retain_final_def Let_def None x intro: bounds_trans split: option.split)
  next
    case (Some y)
    with k1 last show ?thesis
      by (cases y) (auto simp: retain_final_def Let_def intro: bounds_trans)
  qed
qed


lemma runtime_bounds_table: "bounds_table rt (runtime_step op rt)"
proof (cases op)
  case (BindDriver d invokes)
  then show ?thesis by (auto simp: bind_driver_def intro!: keeps_bounds keeps_frame)
next
  case (RegisterCancelHandler p h)
  obtain x rt1 where x: "provider_named p rt = (x, rt1)" by fastforce
  with keeps_provider [of rt p] have rt1: "bounds_table rt rt1" by (auto intro: keeps_bounds)
  have "bounds_table rt1 (rt1\<lparr>er_cancel_handlers := hs\<rparr>)" for hs by (rule keeps_bounds [OF keeps_frame]) simp_all
  with rt1 show ?thesis
    by (auto simp: RegisterCancelHandler register_cancel_handler_def x intro: bounds_trans split: sum.split)
next
  case CloseRuntime
  have "bounds_table rt (rt\<lparr>er_closed := True, er_cancel_handlers := [], er_responses := []\<rparr>)"
    by (auto simp: bounds_table_def table_ok_def)
  with keeps_bounds [OF fold_cancel_futures] show ?thesis
    by (auto simp: CloseRuntime close_runtime_def Let_def intro: bounds_trans)
qed (auto intro: retain_bounds keeps_bounds table_keepers)



section \<open>The shared store\<close>

text \<open>A step leaves the store alone or makes one operation on a wait.\<close>

definition wait_op :: "memory_op \<Rightarrow> bool" where
  "wait_op op \<longleftrightarrow> valid_op op \<and> (case op of Suspend_Wait _ _ _ \<Rightarrow> True | Resolve_Wait _ _ _ _ _ _ _ \<Rightarrow> True
     | Cancel_Wait _ _ _ _ _ _ \<Rightarrow> True | Claim_Wait _ _ _ _ _ \<Rightarrow> True | Arm_Wait _ _ _ _ _ \<Rightarrow> True | _ \<Rightarrow> False)"

lemma wait_op_keeps_run: "wait_op op \<Longrightarrow> keeps_run sc op"
  by (cases op) (simp_all add: wait_op_def keeps_run_def)

definition store_moved :: "pylib \<Rightarrow> iso_parser \<Rightarrow> memory_state \<Rightarrow> memory_state \<Rightarrow> bool" where
  "store_moved lib parse s s' \<longleftrightarrow> s' = s \<or> (\<exists>op. wait_op op \<and> s' = memory_step lib parse op s)"

lemma store_moved_refl [simp]: "store_moved lib parse s s"
  by (simp add: store_moved_def)

lemma moved_by:
  "check_continuation c = None \<Longrightarrow> store_moved lib parse s (snd (suspend_continuation lib now c ext s))"
  "store_moved lib parse s (snd (resolve_continuation lib now sc p ext schema res f s))"
  "store_moved lib parse s (snd (cancel_continuation now sc p cid v fl s))"
  "store_moved lib parse s (snd (claim_continuation now sc p cid v s))"
  "store_moved lib parse s (snd (arm_continuation now sc p cid v s))"
  unfolding store_moved_def
  subgoal by (rule disjI2, rule exI [of _ "Suspend_Wait now c ext"]) (simp add: wait_op_def valid_op_def)
  subgoal by (rule disjI2, rule exI [of _ "Resolve_Wait now sc p ext schema res f"]) (simp add: wait_op_def valid_op_def)
  subgoal by (rule disjI2, rule exI [of _ "Cancel_Wait now sc p cid v fl"]) (simp add: wait_op_def valid_op_def)
  subgoal by (rule disjI2, rule exI [of _ "Claim_Wait now sc p cid v"]) (simp add: wait_op_def valid_op_def)
  subgoal by (rule disjI2, rule exI [of _ "Arm_Wait now sc p cid v"]) (simp add: wait_op_def valid_op_def)
  done

lemma provider_moves:
  "store_moved lib parse s (snd (provider_suspend (suspend_continuation lib) p now tok us se r ext cap sch art g s))"
  "store_moved lib parse s (snd (provider_complete (resolve_continuation lib) p now us se r ext sch res val s))"
  "store_moved lib parse s (snd (provider_fail (resolve_continuation lib) p now us se r ext sch fl s))"
  "store_moved lib parse s (snd (provider_claim claim_continuation p now us se r cid v s))"
  "store_moved lib parse s (snd (provider_arm arm_continuation p now c s))"
  "store_moved lib parse s (snd (provider_cancel cancel_continuation p now c fl s))"
  by (auto simp: provider_suspend_def provider_complete_def provider_fail_def provider_resolve_def provider_claim_def
      provider_arm_def provider_cancel_def moved_by split: option.split sum.split)

lemma step_stores:
  "fst (claim_step sm c a s rt) = snd (provider_claim claim_continuation (ea_facade a) (sm_now sm) (k_user_id c) (k_session_id c)
       (k_run_id c) (k_continuation_id c) (k_revision c) s)"
  "fst (arm_step sm c a s rt) = snd (provider_arm arm_continuation (ea_facade a) (sm_now sm) c s)"
  "fst (rearm_step sm c a s rt) = snd (provider_arm arm_continuation (ea_facade a) (sm_now sm) c s)"
  "fst (resolve_step lib sm c ext res v a s rt) = snd (provider_complete (resolve_continuation lib) (ea_facade a) (sm_now sm) (k_user_id c)
       (k_session_id c) (k_run_id c) ext (k_schema_id c) res (vd_call v) s)"
  "fst (fail_resolve_step lib sm c ext fl a s rt) = snd (provider_fail (resolve_continuation lib) (ea_facade a) (sm_now sm) (k_user_id c)
       (k_session_id c) (k_run_id c) ext (k_schema_id c) fl s)"
  "fst (cancel_step sm c fl final a s rt) = snd (provider_cancel cancel_continuation (ea_facade a) (sm_now sm) c fl s)"
  "fst (transport_cancel_step sm c a s rt) = snd (provider_cancel cancel_continuation (ea_facade a) (sm_now sm) c
       \<lparr>f_code = ''transport_cancelled'', f_retryable = False\<rparr> s)"
  by (auto simp: claim_step_def arm_step_def rearm_step_def resolve_step_def fail_resolve_step_def cancel_step_def
      transport_cancel_step_def split: prod.split sum.split)

lemma suspend_store_moved: "store_moved lib parse s (fst (suspend_store_step lib sm su reserved w a s rt))"
proof (cases "capture_grants (sm_ident sm) (iq_principal (su_request su))")
  case (Inr g)
  have "fst (suspend_store_step lib sm su reserved w a s rt) =
      snd (provider_suspend (suspend_continuation lib) (ea_facade a) (sm_now sm) (sm_token sm) (iq_user_id (su_request su))
        (iq_session_id (su_request su)) (iq_invocation_id (su_request su)) (su_external_id su) (su_capability su) (su_schema_id su) (su_artifact su) g s)"
    by (auto simp: suspend_store_step_def Let_def Inr split: prod.split sum.split)
  then show ?thesis by (simp add: provider_moves)
qed (simp add: suspend_store_step_def Let_def)

lemma advance_store: "store_moved lib parse s (fst (advance_phase lib sm me ph a s rt))"
  by (cases ph) (simp_all add: step_stores provider_moves suspend_store_moved)

lemma store_moved_inv: "memory_inv lib s \<Longrightarrow> store_moved lib parse s s' \<Longrightarrow> memory_inv lib s'"
  by (auto simp: store_moved_def wait_op_def memory_step_inv)

lemma store_moved_wait:
  assumes "memory_inv lib s" "cont_at s k = Some c" "store_moved lib parse s s'"
  shows "\<exists>d. cont_at s' k = Some d \<and> wait_move c d"
  using assms(3) wait_step [OF assms(1,2)] wait_op_keeps_run [where sc = "k_scope c"]
  unfolding store_moved_def keeps_run_def
  by (metis assms(2) wait_move.stay)


section \<open>Effects follow a claim\<close>

text \<open>A step that has no effect and does not bring an activity to a delivery.\<close>

definition quiet :: "ext_activity \<Rightarrow> 's ext_step \<Rightarrow> bool" where
  "quiet a step \<longleftrightarrow> snd (snd step) = [] \<and> (\<forall>d. ea_phase (fst step) = Delivering d \<longrightarrow> ea_phase a = Delivering d)"

lemma quiet_ends: "quiet b (end_call r a rt)" "(\<And>d. p \<noteq> Delivering d) \<Longrightarrow> quiet b (go p a s)" "quiet a (a, s, [])"
  by (simp_all add: quiet_def)

lemma quiet_splits:
  "(\<And>x y. quiet a (f x y)) \<Longrightarrow> quiet a (case p of (x, y) \<Rightarrow> f x y)"
  "(\<And>x. quiet a (g x)) \<Longrightarrow> (\<And>y. quiet a (h y)) \<Longrightarrow> quiet a (case z of Inl x \<Rightarrow> g x | Inr y \<Rightarrow> h y)"
  "quiet a u \<Longrightarrow> (\<And>x. quiet a (v x)) \<Longrightarrow> quiet a (case w of None \<Rightarrow> u | Some x \<Rightarrow> v x)"
  "quiet a s1 \<Longrightarrow> quiet a s2 \<Longrightarrow> quiet a (if b then s1 else s2)"
  "quiet a s1 \<Longrightarrow> quiet a s2 \<Longrightarrow> quiet a (case b of True \<Rightarrow> s1 | False \<Rightarrow> s2)"
  "quiet a s1 \<Longrightarrow> quiet a s2 \<Longrightarrow> quiet a (case mode of CancelTask \<Rightarrow> s1 | CancelResponse \<Rightarrow> s2)"
  "(\<And>p. quiet a (b1 p)) \<Longrightarrow> (\<And>k v. quiet a (b2 k v)) \<Longrightarrow> (\<And>p. quiet a (b3 p)) \<Longrightarrow> (\<And>r. quiet a (b4 r)) \<Longrightarrow>
     quiet a (case bd of WaitBoundary p \<Rightarrow> b1 p | NoticeBoundary k v \<Rightarrow> b2 k v | FinalBoundary q \<Rightarrow> b3 q | TerminalBoundary r \<Rightarrow> b4 r)"
  by (simp_all split: prod.split sum.split option.split bool.split cancel_mode.split boundary.split)

lemmas quiet_intros = quiet_ends quiet_splits

lemma quiet_resume_if_ready: "quiet b (resume_if_ready c a rt)"
  unfolding resume_if_ready_def by (intro quiet_intros) simp

lemma quiet_start_arm: "quiet b (start_arm now k user sess a rt)"
  unfolding start_arm_def by (intro quiet_intros) simp

lemma quiet_continuation_handle: "quiet b (continuation_handle c p w a rt)"
  unfolding continuation_handle_def by (intro quiet_intros) simp

lemma quiet_suspend:
  "quiet b (suspend_lookup_step lib sm su a s rt)" "quiet b (suspend_publish_step sm su c w a rt)"
  unfolding suspend_lookup_step_def restore_wait_def suspend_publish_step_def Let_def
  by (intro quiet_intros quiet_continuation_handle; simp)+

text \<open>The steps that write the store, without their next store.\<close>

lemma quiet_writes:
  "quiet b (snd (suspend_store_step lib sm su reserved w a s rt))"
  "quiet b (snd (resolve_step lib sm c ext res v a s rt))" "quiet b (snd (fail_resolve_step lib sm c ext fl a s rt))"
  "quiet b (snd (arm_step sm c a s rt))" "quiet b (snd (rearm_step sm c a s rt))"
  "quiet b (snd (cancel_step sm c fl final a s rt))" "quiet b (snd (transport_cancel_step sm c a s rt))"
  by (auto simp: suspend_store_step_def resolve_step_def fail_resolve_step_def arm_step_def rearm_step_def cancel_step_def
      transport_cancel_step_def no_wait_def Let_def quiet_ends quiet_resume_if_ready split: prod.split sum.split exc.split)

lemma quiet_reads:
  "quiet b (complete_step lib ext res a s rt)" "quiet b (fail_step lib ext code a s rt)"
  "quiet b (arm_lookup_step k us se cid a s rt)" "quiet b (arm_reload_step c e a s rt)" "quiet b (claim_reload_step c e a s rt)"
  "quiet b (cancel_reload_step c fl final e a s rt)" "quiet b (cancel_confirm_step c l fl final e a s rt)"
  unfolding complete_step_def fail_step_def arm_lookup_step_def arm_reload_step_def claim_reload_step_def cancel_reload_step_def
    cancel_confirm_step_def cancel_again_def Let_def
  by (intro quiet_intros quiet_resume_if_ready; simp)+

lemma quiet_boundary:
  "quiet b (boundary_remote_step sm sc a s rt)" "quiet b (boundary_durable_step sm sc i bd a s rt)"
  "quiet a (boundary_lock_step sm me sc i a rt)"
  unfolding boundary_remote_step_def boundary_durable_step_def boundary_lock_step_def Let_def
  by (intro quiet_intros; simp)+

lemma quiet_transport:
  "quiet b (transport_run_step mode sc a s rt)" "quiet b (transport_record_step mode sc cid a s rt)"
  "quiet b (transport_pending_step mode sc cid a s rt)"
  unfolding transport_run_step_def transport_record_step_def transport_pending_step_def no_wait_def
  by (intro quiet_intros; simp)+

lemma claim_step_delivering:
  assumes "ea_phase (fst (snd (claim_step sm c a s rt))) = Delivering d"
  shows "cont_at (fst (claim_step sm c a s rt)) (k_continuation_id c) = Some d \<and> k_status d = ''claimed'' \<and>
    (\<exists>q. cont_at s (k_continuation_id c) = Some q \<and> k_status q \<noteq> ''claimed'' \<and> k_scope q = k_scope d)"
proof -
  let ?x = "provider_claim claim_continuation (ea_facade a) (sm_now sm) (k_user_id c) (k_session_id c)
       (k_run_id c) (k_continuation_id c) (k_revision c) s"
  obtain s' where x: "?x = (Inr d, s')"
    using assms by (cases ?x; cases "fst ?x") (auto simp: claim_step_def split: exc.splits)
  then obtain sc p where claim: "claim_continuation (sm_now sm) sc p (k_continuation_id c) (k_revision c) s = (Inr d, s')"
    by (auto simp: provider_claim_def split: if_splits sum.splits)
  have s': "fst (claim_step sm c a s rt) = s'" by (simp add: step_stores x)
  show ?thesis
    unfolding s'
  proof (cases rule: claim_cases [of "sm_now sm" sc p "k_continuation_id c" "k_revision c" s])
    case (claimed q r e r')
    then show "cont_at s' (k_continuation_id c) = Some d \<and> k_status d = ''claimed'' \<and>
        (\<exists>q. cont_at s (k_continuation_id c) = Some q \<and> k_status q \<noteq> ''claimed'' \<and> k_scope q = k_scope d)"
      using claim by (auto simp: valid_continuation_claim_def k_scope_def)
  qed (use claim in simp)
qed


lemma claim_step_effects: "snd (snd (snd (claim_step sm c a s rt))) = []"
  by (auto simp: claim_step_def split: prod.split sum.split exc.split)

lemma deliver_step_leaves: "ea_phase (fst (deliver_step sm c a rt)) \<noteq> Delivering d"
  by (auto simp: deliver_step_def split: prod.split sum.split option.split bool.split)

text \<open>What a step hands out is the value of the record it claimed before.\<close>

definition resumed_with :: "ext_effect \<Rightarrow> bool" where
  "resumed_with x \<longleftrightarrow> (case x of
     Delivered c v \<Rightarrow> v = local_resume_value c
   | Invoked c q art v \<Rightarrow> v = resume_value c \<and> k_resume c = Some art \<and> (\<exists>p. q = resume_request c p \<and>
       (\<exists>ident. restored_principal ident c = Inr p)))"

lemma deliver_step_effects:
  "snd (snd (deliver_step sm c a rt)) = [] \<or> (\<exists>x. snd (snd (deliver_step sm c a rt)) = [x] \<and> effect_record x = c \<and> resumed_with x)"
  by (auto simp: deliver_step_def resumed_with_def split: prod.split sum.split option.split bool.split)

lemma advance_quiet:
  assumes "\<And>c. ph \<noteq> Claiming c" "\<And>c. ph \<noteq> Delivering c"
  shows "quiet a (snd (advance_phase lib sm me ph a s rt))"
  using assms by (cases ph) (auto simp: quiet_reads quiet_writes quiet_suspend quiet_boundary quiet_transport quiet_ends)

lemma quiet_open_with:
  assumes "\<And>a rt1. quiet b (k a rt1)"
  shows "quiet b (open_with r name guard rt k)"
  unfolding open_with_def Let_def by (intro quiet_intros assms)

lemma start_quiet: "quiet b (start_call sm r c rt)"
proof (cases c)
  case (SuspendCall name managed q run ext cap schema native v)
  show ?thesis
    unfolding SuspendCall start_call.simps by (intro quiet_open_with quiet_intros; simp)
next
  case (BoundaryCall k us se)
  show ?thesis
    unfolding BoundaryCall start_call.simps start_boundary_def Let_def by (intro quiet_intros; simp)
qed (auto simp: quiet_start_arm quiet_ends Let_def intro!: quiet_open_with split: option.split)

lemma driver_quiet: "quiet b (driver_answered sm answer c a rt)"
  by (cases answer) (simp_all add: driver_answered_def quiet_ends quiet_start_arm)

lemma handler_quiet: "quiet b (handler_answered answer mode c a rt)"
  by (cases answer) (simp_all add: handler_answered_def quiet_ends)

lemma interrupted_quiet: "quiet a (interrupted a rt)"
  by (cases "ea_phase a") (simp_all add: interrupted_def quiet_ends)

end
