(* ===== verification/External_Props.thy ===== *)
theory External_Props
  imports External_Safety Checkpoint_Props
begin

text \<open>
  What the coordinator of durable waits promises, over any number of processes that share one store
  and any interleaving of their calls: a wait is handed back at most once, with the outcome that was
  recorded; none that is armed and settled is forgotten; a cancelled one is never handed back; and
  the table of responses stays bounded without giving up an active one.
\<close>

section \<open>Dispatched at most once\<close>

definition wait_hit :: "string \<Rightarrow> run_scope \<Rightarrow> continuation \<Rightarrow> bool" where
  "wait_hit k sc c \<longleftrightarrow> k_continuation_id c = k \<and> k_scope c = sc"

definition claimed_at :: "memory_state \<Rightarrow> string \<Rightarrow> continuation \<Rightarrow> bool" where
  "claimed_at s k c \<longleftrightarrow> cont_at s k = Some c \<and> k_status c = ''claimed''"

definition delivering :: "ext_world \<Rightarrow> nat \<Rightarrow> continuation \<Rightarrow> bool" where
  "delivering w me c \<longleftrightarrow> (\<exists>a. ew_activities w me = Some a \<and> ea_phase a = Delivering c)"

definition hits :: "string \<Rightarrow> run_scope \<Rightarrow> ext_effect list \<Rightarrow> ext_effect list" where
  "hits k sc xs = filter (\<lambda>x. wait_hit k sc (effect_record x)) xs"

definition dispatch_inv :: "pylib \<Rightarrow> string \<Rightarrow> run_scope \<Rightarrow> ext_world \<Rightarrow> bool" where
  "dispatch_inv lib k sc w \<longleftrightarrow> memory_inv lib (ew_store w) \<and>
     (\<forall>me c. delivering w me c \<and> wait_hit k sc c \<longrightarrow> claimed_at (ew_store w) k c \<and> hits k sc (ew_trace w) = []) \<and>
     (\<forall>me c me' c'. delivering w me c \<and> delivering w me' c' \<and> wait_hit k sc c \<and> wait_hit k sc c' \<longrightarrow> me = me') \<and>
     (\<forall>x \<in> set (hits k sc (ew_trace w)). claimed_at (ew_store w) k (effect_record x) \<and> resumed_with x) \<and>
     length (hits k sc (ew_trace w)) \<le> 1"

definition ext_keeps :: "run_scope \<Rightarrow> ext_op \<Rightarrow> bool" where
  "ext_keeps sc op \<longleftrightarrow> (case op of StoreOp store_op \<Rightarrow> keeps_run sc store_op | _ \<Rightarrow> True)"

lemma hits_simps [simp]: "hits k sc [] = []" "hits k sc (xs @ ys) = hits k sc xs @ hits k sc ys"
    "hits k sc [x] = (if wait_hit k sc (effect_record x) then [x] else [])"
  by (simp_all add: hits_def)

lemma claimed_moves:
  assumes "memory_inv lib s" "claimed_at s k c" "store_moved lib parse s s'"
  shows "claimed_at s' k c"
  using store_moved_wait [OF assms(1) _ assms(3), of k c] assms(2) wait_move_claimed
  unfolding claimed_at_def by metis

text \<open>A quiet step of one activity.\<close>

lemma settle_quiet:
  assumes inv: "dispatch_inv lib k sc w" and q: "quiet b (snd result)" and moved: "store_moved lib parse (ew_store w) (fst result)"
    and at: "ew_activities w me = Some b \<or> (\<forall>d. ea_phase b \<noteq> Delivering d)"
  shows "dispatch_inv lib k sc (settle_call me r result w)"
proof -
  obtain s a rt es where res: "result = (s, a, rt, es)" by (cases result) auto
  from q have es: "es = []" and ph: "\<And>d. ea_phase a = Delivering d \<Longrightarrow> ea_phase b = Delivering d" by (auto simp: quiet_def res)
  have deliv: "delivering w j d" if "delivering (settle_call me r result w) j d" for j d
    using that at ph by (auto simp: delivering_def settle_call_def res split: if_splits)
  note I = inv [unfolded dispatch_inv_def]
  have claimed: "claimed_at (ew_store w) k c \<Longrightarrow> claimed_at s k c" for c
    using claimed_moves [of lib "ew_store w"] I moved by (auto simp: res)
  show ?thesis
    unfolding dispatch_inv_def
    using I deliv claimed store_moved_inv [of lib "ew_store w" parse s] moved
    by (simp add: settle_call_def res es) blast
qed

lemma settle_claim:
  assumes inv: "dispatch_inv lib k sc w" and a: "ew_activities w me = Some a" "ea_phase a = Claiming c"
  shows "dispatch_inv lib k sc (settle_call me r (claim_step sm c a (ew_store w) rt) w)"
proof (cases "\<exists>d. ea_phase (fst (snd (claim_step sm c a (ew_store w) rt))) = Delivering d")
  case False
  then have "quiet a (snd (claim_step sm c a (ew_store w) rt))" by (simp add: quiet_def claim_step_effects)
  moreover have "store_moved lib no_iso (ew_store w) (fst (claim_step sm c a (ew_store w) rt))" for no_iso
    by (simp add: step_stores provider_moves)
  ultimately show ?thesis using settle_quiet [OF inv] a(1) by blast
next
  case True
  then obtain d where d: "ea_phase (fst (snd (claim_step sm c a (ew_store w) rt))) = Delivering d" by blast
  obtain s a' rt' es where res: "claim_step sm c a (ew_store w) rt = (s, a', rt', es)" by (cases "claim_step sm c a (ew_store w) rt") auto
  from claim_step_delivering [OF d] obtain q where q: "cont_at s (k_continuation_id c) = Some d" "k_status d = ''claimed''"
      "cont_at (ew_store w) (k_continuation_id c) = Some q" "k_status q \<noteq> ''claimed''" "k_scope q = k_scope d" by (auto simp: res)
  have es: "es = []" using claim_step_effects [of sm c a "ew_store w" rt] by (simp add: res)
  note I = inv [unfolded dispatch_inv_def]
  have moved: "store_moved lib parse (ew_store w) s" for parse
    using step_stores(1) [of sm c a "ew_store w" rt] by (simp add: res provider_moves)
  have inv': "memory_inv lib s" using store_moved_inv I moved by blast
  have claimed: "claimed_at (ew_store w) k e \<Longrightarrow> claimed_at s k e" for e
    using claimed_moves I moved by blast
  have key: "k_continuation_id d = k_continuation_id c" using waits_invD(4) [OF memory_invD(4) [OF inv'] q(1)] by simp
  show ?thesis
  proof (cases "wait_hit k sc d")
    case True
    then have k: "k_continuation_id c = k" using key by (simp add: wait_hit_def)
    then have none: "\<not> claimed_at (ew_store w) k e" for e using q(3,4) by (auto simp: claimed_at_def)
    then have "hits k sc (ew_trace w) = []" "\<And>j e. delivering w j e \<Longrightarrow> \<not> wait_hit k sc e"
      using I by (metis list.set_intros(1) neq_Nil_conv, blast)
    moreover have "delivering (settle_call me r (s, a', rt', es) w) j e \<longleftrightarrow> (if j = me then e = d else delivering w j e)" for j e
      using d by (auto simp: delivering_def settle_call_def res)
    ultimately show ?thesis using inv' q(1,2) k
      by (auto simp: dispatch_inv_def res es claimed_at_def settle_call_def)
  next
    case False
    have "wait_hit k sc e \<Longrightarrow> delivering (settle_call me r (s, a', rt', es) w) j e \<Longrightarrow> delivering w j e" for j e
      using d False by (auto simp: delivering_def settle_call_def res split: if_splits)
    then show ?thesis using I inv' claimed
      unfolding dispatch_inv_def by (simp add: settle_call_def res es) blast
  qed
qed

lemma settle_deliver:
  assumes inv: "dispatch_inv lib k sc w" and a: "ew_activities w me = Some a" "ea_phase a = Delivering c"
  shows "dispatch_inv lib k sc (settle_call me r (ew_store w, deliver_step sm c a rt) w)"
proof -
  obtain a' rt' es where res: "deliver_step sm c a rt = (a', rt', es)" by (cases "deliver_step sm c a rt") auto
  have es: "es = [] \<or> (\<exists>x. es = [x] \<and> effect_record x = c \<and> resumed_with x)"
    using deliver_step_effects [of sm c a rt] by (simp add: res)
  have left: "ea_phase a' \<noteq> Delivering d" for d using deliver_step_leaves [of sm c a rt d] by (simp add: res)
  have here: "delivering w me c" using a by (simp add: delivering_def)
  let ?w' = "settle_call me r (ew_store w, a', rt', es) w"
  have deliv: "delivering ?w' j d \<Longrightarrow> j \<noteq> me \<and> delivering w j d" for j d
    using left by (auto simp: delivering_def settle_call_def split: if_splits)
  note I = inv [unfolded dispatch_inv_def]
  show ?thesis
  proof (cases "wait_hit k sc c \<and> es \<noteq> []")
    case True
    then obtain x where x: "es = [x]" "effect_record x = c" "resumed_with x" using es by blast
    have "claimed_at (ew_store w) k c" "hits k sc (ew_trace w) = []" using I here True by blast+
    moreover have "\<not> wait_hit k sc d" if "delivering ?w' j d" for j d using deliv [OF that] I here True by blast
    moreover have "hits k sc (ew_trace ?w') = [x]" using True x \<open>hits k sc (ew_trace w) = []\<close> by (simp add: settle_call_def)
    moreover have "ew_store ?w' = ew_store w" by (simp add: settle_call_def)
    ultimately show ?thesis using I x unfolding dispatch_inv_def res by auto
  next
    case False
    then have "hits k sc es = []" using es by (auto simp: hits_def)
    then have "hits k sc (ew_trace ?w') = hits k sc (ew_trace w)" by (simp add: settle_call_def)
    then show ?thesis using I deliv unfolding dispatch_inv_def res
      by (simp add: settle_call_def) blast
  qed
qed

lemma dispatch_store_op:
  assumes inv: "dispatch_inv lib k sc w" and op: "keeps_run sc op"
  shows "dispatch_inv lib k sc (w\<lparr>ew_store := memory_step lib parse op (ew_store w)\<rparr>)"
proof -
  note I = inv [unfolded dispatch_inv_def]
  have claimed: "claimed_at (memory_step lib parse op (ew_store w)) k c" if "claimed_at (ew_store w) k c" "wait_hit k sc c" for c
  proof -
    have "op \<noteq> Delete_Run (k_scope c)" using op that(2) by (auto simp: keeps_run_def wait_hit_def)
    then show ?thesis using wait_step [of lib "ew_store w" k c parse op] I that(1) wait_move_claimed
      unfolding claimed_at_def by metis
  qed
  have "memory_inv lib (memory_step lib parse op (ew_store w))" using I op by (simp add: memory_step_inv keeps_run_def)
  moreover have "delivering (w\<lparr>ew_store := s\<rparr>) me c = delivering w me c" for s me c by (simp add: delivering_def)
  moreover have "x \<in> set (hits k sc xs) \<Longrightarrow> wait_hit k sc (effect_record x)" for x xs by (simp add: hits_def)
  ultimately show ?thesis using I claimed unfolding dispatch_inv_def by simp blast
qed

lemma dispatch_step:
  assumes inv: "dispatch_inv lib k sc w" and op: "ext_keeps sc op"
  shows "dispatch_inv lib k sc (ext_step lib parse op w)"
proof (cases op)
  case (StartCall me r sm c)
  have "quiet b (snd (ew_store w, start_call sm r c (ew_runtimes w r)))" for b by (simp add: start_quiet)
  from settle_quiet [OF inv this [of "idle r undefined"], of parse me r] StartCall inv show ?thesis by (simp add: idle_def)
next
  case (Advance me sm)
  show ?thesis
  proof (cases "ew_activities w me")
    case (Some a)
    consider c where "ea_phase a = Claiming c" | c where "ea_phase a = Delivering c"
      | "\<And>c. ea_phase a \<noteq> Claiming c" "\<And>c. ea_phase a \<noteq> Delivering c" by blast
    then show ?thesis
    proof cases
      case 1
      with settle_claim [OF inv Some] Some Advance show ?thesis by simp
    next
      case 2
      with settle_deliver [OF inv Some] Some Advance show ?thesis by simp
    next
      case 3
      from settle_quiet [OF inv advance_quiet [OF 3] advance_store] Some Advance show ?thesis by simp
    qed
  qed (use inv Advance in simp)
next
  case (DriverAnswers me sm answer)
  show ?thesis
  proof (cases "ew_activities w me")
    case (Some a)
    have "dispatch_inv lib k sc (settle_call me r (ew_store w, driver_answered sm answer c a rt) w)" for c r rt
      by (rule settle_quiet [OF inv, of a _ parse]) (simp_all add: driver_quiet Some)
    then show ?thesis using inv by (auto simp: DriverAnswers Some split: ext_phase.split)
  qed (use inv DriverAnswers in simp)
next
  case (HandlerAnswers me answer)
  show ?thesis
  proof (cases "ew_activities w me")
    case (Some a)
    have "dispatch_inv lib k sc (settle_call me r (ew_store w, handler_answered answer mode c a rt) w)" for c r rt mode
      by (rule settle_quiet [OF inv, of a _ parse]) (simp_all add: handler_quiet Some)
    then show ?thesis using inv by (auto simp: HandlerAnswers Some split: ext_phase.split)
  qed (use inv HandlerAnswers in simp)
next
  case (Interrupt me)
  show ?thesis
  proof (cases "ew_activities w me")
    case (Some a)
    have "dispatch_inv lib k sc (settle_call me r (ew_store w, interrupted a rt) w)" for r rt
      by (rule settle_quiet [OF inv, of a _ parse]) (simp_all add: interrupted_quiet Some)
    then show ?thesis by (simp add: Interrupt Some)
  qed (use inv Interrupt in simp)
next
  case (RuntimeOp r rop)
  then show ?thesis using inv unfolding dispatch_inv_def delivering_def by simp blast
next
  case (StoreOp sop)
  then show ?thesis using dispatch_store_op [OF inv] op by (simp add: ext_keeps_def)
qed

abbreviation ext_run :: "pylib \<Rightarrow> iso_parser \<Rightarrow> ext_op list \<Rightarrow> ext_world \<Rightarrow> ext_world" where
  "ext_run lib parse ops w \<equiv> fold (ext_step lib parse) ops w"

lemma dispatch_run: "dispatch_inv lib k sc w \<Longrightarrow> list_all (ext_keeps sc) ops \<Longrightarrow> dispatch_inv lib k sc (ext_run lib parse ops w)"
  by (induction ops arbitrary: w) (simp_all add: dispatch_step)

text \<open>A world in which no call was made yet.\<close>

definition quiet_world :: "pylib \<Rightarrow> ext_world \<Rightarrow> bool" where
  "quiet_world lib w \<longleftrightarrow> memory_inv lib (ew_store w) \<and> ew_activities w = (\<lambda>_. None) \<and> ew_trace w = [] \<and>
     (\<forall>r. table_ok (ew_runtimes w r))"

lemma quiet_world_dispatch: "quiet_world lib w \<Longrightarrow> dispatch_inv lib k sc w"
  by (simp add: quiet_world_def dispatch_inv_def delivering_def)

text \<open>
  C26. A wait is handed back to the agent at most once: over any interleaving of callbacks, arming,
  retries, cancellations and polls in any number of processes, interrupted anywhere, a wait of a run
  that is not deleted is delivered to an attached frame or dispatched to the driver by one call only,
  and what it is resumed with is the outcome the store recorded for it.
\<close>

theorem wait_dispatched_once:
  assumes "quiet_world lib w" "list_all (ext_keeps sc) ops"
  shows "length (hits k sc (ew_trace (fold (ext_step lib parse) ops w))) \<le> 1 \<and>
    (\<forall>x \<in> set (hits k sc (ew_trace (fold (ext_step lib parse) ops w))).
       cont_at (ew_store (fold (ext_step lib parse) ops w)) k = Some (effect_record x) \<and>
       k_status (effect_record x) = ''claimed'' \<and> resumed_with x)"
  using dispatch_run [OF quiet_world_dispatch [OF assms(1)] assms(2), of k parse]
  by (simp add: dispatch_inv_def claimed_at_def)


section \<open>A cancelled wait is never handed back\<close>

lemma becomes_claimed:
  assumes inv: "memory_inv lib s" and c: "cont_at s k = Some c" "k_status c \<noteq> ''claimed''"
    and d: "cont_at (memory_step lib parse op s) k = Some d" "k_status d = ''claimed''" and op: "op \<noteq> Delete_Run (k_scope c)"
  shows "\<exists>r. run_at s (k_run_id c) = Some r \<and> r_scope r = k_scope c \<and> r_status r = Waiting"
proof -
  from wait_step [OF inv c(1), of parse op] op d have move: "wait_move c d" by auto
  show ?thesis
  proof (cases op)
    case (Claim_Wait now sc p cid v)
    show ?thesis
    proof (cases rule: claim_cases [of now sc p cid v s])
      case (claimed q r e r')
      show ?thesis
      proof (cases "cid = k")
        case True
        have "k_run_id q = sc_run_id sc" using claimed(4) by (auto simp: k_scope_def)
        with True show ?thesis using claimed(1-4,6) c(1) by (auto simp: valid_continuation_claim_def)
      qed (use claimed c d Claim_Wait in auto)
    qed (use c d Claim_Wait in auto)
  next
    case (Suspend_Wait now q ext)
    then show ?thesis using c d by (cases rule: suspend_cases [of lib now q ext s]) (auto split: if_splits)
  next
    case (Resolve_Wait now sc p ext schema res f)
    show ?thesis
    proof (cases rule: resolve_cases [of lib now sc p ext schema res f s])
      case (resolved q e v)
      then show ?thesis using c d Resolve_Wait by (auto simp: settled_wait_def split: if_splits)
    qed (use c d Resolve_Wait in auto)
  next
    case (Cancel_Wait now sc p cid v f)
    then show ?thesis using c d by (cases rule: cancel_cases [of now sc p cid v f s]) (auto split: if_splits)
  next
    case (Arm_Wait now sc p cid v)
    then show ?thesis using c d by (cases rule: arm_cases [of now sc p cid v s]) (auto split: if_splits)
  next
    case (Delete_Run sc)
    show ?thesis
      using inv
    proof (cases rule: delete_run_cases [of lib s sc, case_names unchanged deleted])
      case (deleted r t)
      then show ?thesis using c d Delete_Run by (auto split: if_splits)
    qed (use c d Delete_Run in auto)
  qed (use c d in auto)
qed

definition over_for :: "pylib \<Rightarrow> string \<Rightarrow> run_scope \<Rightarrow> memory_state \<Rightarrow> bool" where
  "over_for lib k sc s \<longleftrightarrow> memory_inv lib s \<and>
     (\<exists>r. run_at s (sc_run_id sc) = Some r \<and> r_scope r = sc \<and> terminal_run (r_status r)) \<and>
     (\<exists>c. cont_at s k = Some c \<and> k_scope c = sc \<and> k_status c \<noteq> ''claimed'')"

lemma over_for_step:
  assumes "over_for lib k sc s" "keeps_run sc op"
  shows "over_for lib k sc (memory_step lib parse op s)"
proof -
  from assms(1) obtain r c where inv: "memory_inv lib s"
    and r: "run_at s (sc_run_id sc) = Some r" "r_scope r = sc" "terminal_run (r_status r)"
    and c: "cont_at s k = Some c" "k_scope c = sc" "k_status c \<noteq> ''claimed''" unfolding over_for_def by blast
  have op: "valid_op op" "op \<noteq> Delete_Run sc" using assms(2) by (simp_all add: keeps_run_def)
  have r': "run_at (memory_step lib parse op s) (sc_run_id sc) = Some r"
    using terminal_run_step [OF inv r(1,3), of op parse] op(2) r by (simp add: run_view_def)
  from wait_step [OF inv c(1), of parse op] op(2) c(2) obtain d
    where d: "cont_at (memory_step lib parse op s) k = Some d" "wait_move c d" by auto
  have "k_scope d = sc" using wait_move_identity(1) [OF d(2)] c(2) by (simp add: same_wait_def)
  moreover have "k_status d \<noteq> ''claimed''"
  proof
    assume "k_status d = ''claimed''"
    from becomes_claimed [OF inv c(1,3) d(1) this] op(2) c(2)
    obtain q where "run_at s (k_run_id c) = Some q" "r_status q = Waiting" by auto
    moreover have "k_run_id c = sc_run_id sc" using c(2) by (auto simp: k_scope_def)
    ultimately show False using r(1,3) by (simp add: terminal_run_def)
  qed
  ultimately show ?thesis unfolding over_for_def
    using memory_step_inv [OF inv op(1)] r' r(2,3) d(1) by blast
qed

lemma ext_step_store:
  assumes "ext_keeps sc op"
  shows "ew_store (ext_step lib parse op w) = ew_store w \<or>
    (\<exists>sop. keeps_run sc sop \<and> ew_store (ext_step lib parse op w) = memory_step lib parse sop (ew_store w))"
proof (cases op)
  case (Advance me sm)
  show ?thesis
  proof (cases "ew_activities w me")
    case (Some a)
    from advance_store [of lib parse "ew_store w" sm me "ea_phase a" a "ew_runtimes w (ea_replica a)"]
    show ?thesis using wait_op_keeps_run [of _ sc]
      by (auto simp: Advance Some settle_call_def store_moved_def split: prod.split)
  qed (simp add: Advance)
next
  case (StoreOp sop)
  then show ?thesis using assms by (auto simp: ext_keeps_def)
qed (auto simp: settle_call_def split: prod.split option.split ext_phase.split)

lemma over_for_run:
  "over_for lib k sc (ew_store w) \<Longrightarrow> list_all (ext_keeps sc) ops \<Longrightarrow> over_for lib k sc (ew_store (ext_run lib parse ops w))"
proof (induction ops arbitrary: w)
  case (Cons op ops)
  then have "over_for lib k sc (ew_store (ext_step lib parse op w))"
    using ext_step_store [of sc op lib parse w] over_for_step [of lib k sc "ew_store w"] by auto
  with Cons show ?case by simp
qed simp

text \<open>
  C27. A wait of a run that ended is never handed back: once its run is cancelled, completed or failed
  while the wait is not claimed, no interleaving of calls delivers it or dispatches it later, and none
  had before.
\<close>

theorem cancelled_wait_not_dispatched:
  assumes "quiet_world lib w" "list_all (ext_keeps sc) ops" "list_all (ext_keeps sc) ops'"
    and "get_run sc (ew_store (fold (ext_step lib parse) ops w)) = Some r" "terminal_run (r_status r)"
    and "get_continuation sc k (ew_store (fold (ext_step lib parse) ops w)) = Some c" "k_status c \<noteq> ''claimed''"
  shows "hits k sc (ew_trace (fold (ext_step lib parse) (ops @ ops') w)) = []"
proof -
  let ?w1 = "ext_run lib parse ops w" and ?w2 = "ext_run lib parse (ops @ ops') w"
  have d1: "dispatch_inv lib k sc ?w1" by (rule dispatch_run [OF quiet_world_dispatch [OF assms(1)] assms(2)])
  have "over_for lib k sc (ew_store ?w1)"
    using d1 assms(4-7) by (auto simp: over_for_def dispatch_inv_def get_run_def get_continuation_def split: option.splits if_splits)
  from over_for_run [OF this assms(3)] have "over_for lib k sc (ew_store ?w2)" by simp
  moreover have "dispatch_inv lib k sc ?w2"
    using dispatch_run [OF quiet_world_dispatch [OF assms(1)], of sc "ops @ ops'"] assms(2,3) by simp
  ultimately show ?thesis
    unfolding dispatch_inv_def over_for_def claimed_at_def by (metis list.set_intros(1) neq_Nil_conv option.inject)
qed

end
