(* ===== verification/External_Wakeup.thy ===== *)
theory External_Wakeup
  imports External_Props
begin

text \<open>
  No wakeup is lost: a wait becomes ready by two writes, the outcome and the arming, that different
  processes make in either order. Whoever makes the second one stands before the claim, and its claim
  succeeds unless the run stopped waiting. Then the table of responses in every world, and worked
  instances of the properties of the coordinator.
\<close>

section \<open>Waits that are due\<close>

definition due_wait :: "memory_state \<Rightarrow> string \<Rightarrow> continuation \<Rightarrow> bool" where
  "due_wait s k c \<longleftrightarrow> cont_at s k = Some c \<and> k_ready c \<and> k_status c \<in> {''completed'', ''failed''} \<and>
     (\<exists>r. run_at s (k_run_id c) = Some r \<and> r_scope r = k_scope c \<and> r_status r = Waiting \<and> pending_id r = Some k)"



text \<open>
  Waits are created, settled and armed through the coordinators only, and nobody else makes a run
  wait for this one; no call is interrupted.
\<close>

definition through_runtime :: "string \<Rightarrow> ext_op \<Rightarrow> bool" where
  "through_runtime k op \<longleftrightarrow> (case op of
     Interrupt _ \<Rightarrow> False
   | StoreOp sop \<Rightarrow> (case sop of
       Suspend_Wait _ _ _ \<Rightarrow> False | Resolve_Wait _ _ _ _ _ _ _ \<Rightarrow> False | Arm_Wait _ _ _ _ _ \<Rightarrow> False
     | Transition _ _ _ _ (Some p) \<Rightarrow> pa_action_id p \<noteq> k
     | _ \<Rightarrow> True)
   | _ \<Rightarrow> True)"




section \<open>How a wait becomes due\<close>






lemma due_frame: "m_continuations t = m_continuations s \<Longrightarrow> m_runs t = m_runs s \<Longrightarrow> due_wait t k c = due_wait s k c"
  by (simp add: due_wait_def)





section \<open>Whoever completes the pair claims\<close>














section \<open>The invariant of every world\<close>








section \<open>The table of responses, in every world\<close>







section \<open>Worked instances\<close>

definition sample_stamps :: stamps where
  "sample_stamps = \<lparr>sm_now = ''t'', sm_token = ''tok'', sm_clock = (\<lambda>_. 0), sm_ident = ''id''\<rparr>"

definition sample_wait_request :: wait_request where
  "sample_wait_request = \<lparr>iq_user_id = ''u'', iq_session_id = ''s'', iq_invocation_id = ''r'', iq_transport = ''live'',
     iq_resumes = False, iq_principal = None\<rparr>"

definition live_artifact :: resume_artifact where
  "live_artifact = \<lparr>ra_framework = ''adk'', ra_native_invocation_id = ''n'', ra_tool_call_id = ''call'', ra_tool_name = ''tool'',
     ra_version = artifact_version\<rparr>"

definition any_value :: validator where
  "any_value = \<lparr>vd_identity = 1, vd_call = Some\<rparr>"

definition sample_runtime :: ext_runtime where
  "sample_runtime = (case new_ext_runtime ''app'' 2 60 of Inr rt \<Rightarrow> rt)"

definition sample_world :: ext_world where
  "sample_world = \<lparr>ew_store = memory_after [sample_begin], ew_runtimes = (\<lambda>_. sample_runtime), ew_activities = (\<lambda>_. None), ew_trace = []\<rparr>"

text \<open>A live tool frame suspends and is armed; then its provider completes the work.\<close>

definition suspend_ops :: "ext_op list" where
  "suspend_ops = StartCall 0 0 sample_stamps (SuspendCall ''jobs'' True sample_wait_request 7 ''ext'' ''wait'' ''v1'' (Some live_artifact) any_value) #
     replicate 4 (Advance 0 sample_stamps)"

definition complete_ops :: "ext_op list" where
  "complete_ops = StartCall 1 0 sample_stamps (CompleteCall ''jobs'' ''ext'' (PyInt 5)) # replicate 2 (Advance 1 sample_stamps)"

lemma sample_ops_keep: "list_all (ext_keeps sample_scope) (suspend_ops @ complete_ops @ [Advance 1 sm, Advance 1 sm'])"
    "list_all (through_runtime ''tok'') (suspend_ops @ complete_ops)"
  by (simp_all add: suspend_ops_def complete_ops_def ext_keeps_def through_runtime_def eval_nat_numeral)

lemma sample_world_quiet: "quiet_world sample_lib sample_world"
proof -
  have "memory_inv sample_lib (memory_after [sample_begin])" by (rule memory_after_inv) simp
  moreover have "table_ok sample_runtime" by (simp add: sample_runtime_def new_ext_runtime_def table_ok_def)
  ultimately show ?thesis by (simp add: quiet_world_def sample_world_def)
qed

theorem wait_dispatched_once_witness:
  "\<exists>x. hits ''tok'' sample_scope (ew_trace (fold (ext_step sample_lib no_iso)
      (suspend_ops @ complete_ops @ [Advance 1 sample_stamps, Advance 1 sample_stamps]) sample_world)) = [x] \<and>
    k_status (effect_record x) = ''claimed'' \<and> resumed_with x \<and> k_result (effect_record x) = PyInt 5"
proof -
  let ?ops = "suspend_ops @ complete_ops @ [Advance 1 sample_stamps, Advance 1 sample_stamps]"
  let ?h = "hits ''tok'' sample_scope (ew_trace (fold (ext_step sample_lib no_iso) ?ops sample_world))"
  have "map (\<lambda>x. k_result (effect_record x)) ?h = [PyInt 5]" by code_simp
  then obtain x where x: "?h = [x]" "k_result (effect_record x) = PyInt 5" by auto
  have "x \<in> set ?h" unfolding x(1) by simp
  with wait_dispatched_once [OF sample_world_quiet sample_ops_keep(1), where k = "''tok''" and parse = no_iso] x show ?thesis by blast
qed



text \<open>The provider cancels its wait before it has an outcome.\<close>

definition cancel_ops :: "continuation \<Rightarrow> ext_op list" where
  "cancel_ops c = [StartCall 2 0 sample_stamps (CancelCall ''jobs'' c ''gone''), Advance 2 sample_stamps]"

definition suspended_wait_record :: continuation where
  "suspended_wait_record = the (cont_at (ew_store (fold (ext_step sample_lib no_iso) suspend_ops sample_world)) ''tok'')"

theorem cancelled_wait_not_dispatched_witness:
  "\<exists>r c. get_run sample_scope (ew_store (fold (ext_step sample_lib no_iso) (suspend_ops @ cancel_ops suspended_wait_record) sample_world)) = Some r \<and>
     r_status r = Cancelled \<and>
     get_continuation sample_scope ''tok''
       (ew_store (fold (ext_step sample_lib no_iso) (suspend_ops @ cancel_ops suspended_wait_record) sample_world)) = Some c \<and>
     hits ''tok'' sample_scope (ew_trace (fold (ext_step sample_lib no_iso)
       ((suspend_ops @ cancel_ops suspended_wait_record) @ complete_ops) sample_world)) = []"
proof -
  let ?ops = "suspend_ops @ cancel_ops suspended_wait_record"
  let ?w = "fold (ext_step sample_lib no_iso) ?ops sample_world"
  have "map_option r_status (get_run sample_scope (ew_store ?w)) = Some Cancelled" by code_simp
  then obtain r where r: "get_run sample_scope (ew_store ?w) = Some r" "r_status r = Cancelled" by auto
  have "map_option k_status (get_continuation sample_scope ''tok'' (ew_store ?w)) = Some ''failed''" by code_simp
  then obtain c where c: "get_continuation sample_scope ''tok'' (ew_store ?w) = Some c" "k_status c = ''failed''" by auto
  have keep: "list_all (ext_keeps sample_scope) ?ops" using sample_ops_keep(1) by (simp add: cancel_ops_def ext_keeps_def)
  have keep': "list_all (ext_keeps sample_scope) complete_ops" using sample_ops_keep(1) by simp
  have "terminal_run (r_status r)" "k_status c \<noteq> ''claimed''" using r(2) c(2) by (simp_all add: terminal_run_def)
  from cancelled_wait_not_dispatched [OF sample_world_quiet keep keep' r(1) this(1) c(1) this(2)] r c show ?thesis by auto
qed


end
