(* ===== verification/Provision_Config.thy ===== *)
theory Provision_Config
  imports Continuation_Records
begin

text \<open>
  Deployment declarations (\<^verbatim>\<open>provisioner_config.py\<close>): containers, agents and services, the constraints
  their fields declare and the validators of the classes, the order in which dependencies come up,
  and the overlay of one environment. Parsing YAML and building the classes from the parsed document
  (pydantic) are parameters of \<open>parse_manifest\<close>.
\<close>

section \<open>Declarations\<close>

datatype env_value = Plain string | SecretReference string

record persistence =
  pe_mount :: string
  pe_size :: string
  pe_storage_class :: "string option"

record healthcheck =
  hk_command :: "string list"
  hk_interval :: int
  hk_timeout :: int
  hk_retries :: int

record resource_limits =
  rl_cpus :: rat
  rl_memory :: string

record network =
  nt_hosts :: "(string \<times> string) list"
  nt_dns :: "string list"

type_synonym env_values = "(string \<times> env_value) list"

record container =
  cn_image :: string
  cn_command :: "string list"
  cn_ports :: "(string \<times> int) list"
  cn_publish :: "(string \<times> int) list"
  cn_environment :: env_values
  cn_depends_on :: "string list"
  cn_healthcheck :: healthcheck
  cn_persistence :: "persistence option"
  cn_resources :: resource_limits
  cn_network :: network

record agent =
  ag_container :: container
  ag_replicas :: int

text \<open>The two classes of a service: its type, what it provides, and the container or the connection.\<close>

datatype service =
    ProvisionedService string env_values container
  | ConnectedService string env_values "env_value option" "string option"

datatype backend_kind = Local | Kubernetes

record deployment =
  dy_name :: string
  dy_release :: "string option"
  dy_backend :: backend_kind
  dy_context :: "string option"
  dy_namespace :: "string option"
  dy_services :: "(string \<times> service) list"
  dy_agents :: "(string \<times> agent) list"


section \<open>Constraints of the fields\<close>

definition lower_or_digit :: "char \<Rightarrow> bool" where
  "lower_or_digit c \<longleftrightarrow> lower_case c \<or> digit c \<or> c = CHR ''-''"

text \<open>\<^verbatim>\<open>^[a-z][a-z0-9-]{0,n}$\<close>\<close>

definition label_pattern :: "nat \<Rightarrow> string \<Rightarrow> bool" where
  "label_pattern n s = (case s of [] \<Rightarrow> False | c # cs \<Rightarrow> lower_case c \<and> list_all lower_or_digit cs \<and> length cs \<le> n)"

definition upper_letter :: "char \<Rightarrow> bool" where
  "upper_letter c \<longleftrightarrow> CHR ''A'' \<le> c \<and> c \<le> CHR ''Z''"

definition letter :: "char \<Rightarrow> bool" where
  "letter c \<longleftrightarrow> lower_case c \<or> upper_letter c"

definition env_name :: "string \<Rightarrow> bool" where
  "env_name s = (case s of [] \<Rightarrow> False | c # cs \<Rightarrow> (letter c \<or> c = CHR ''_'') \<and>
     list_all (\<lambda>c. letter c \<or> digit c \<or> c = CHR ''_'') cs)"

definition host_name :: "string \<Rightarrow> bool" where
  "host_name s = (case s of [] \<Rightarrow> False | c # cs \<Rightarrow> (letter c \<or> digit c) \<and>
     list_all (\<lambda>c. letter c \<or> digit c \<or> c = CHR ''.'' \<or> c = CHR ''-'') cs \<and> length cs \<le> 252)"

definition image_name :: "string \<Rightarrow> bool" where
  "image_name s = (case s of [] \<Rightarrow> False | c # cs \<Rightarrow> (letter c \<or> digit c) \<and>
     list_all (\<lambda>c. letter c \<or> digit c \<or> c \<in> set ''._/:@-'') cs \<and> length s \<le> 300)"

definition mount_path :: "string \<Rightarrow> bool" where
  "mount_path s = (case s of [] \<Rightarrow> False | c # cs \<Rightarrow> c = CHR ''/'' \<and> cs \<noteq> [] \<and>
     list_all (\<lambda>c. c \<noteq> CHR '':'' \<and> c \<noteq> CHR 0x00) cs \<and> length s \<le> 512)"

text \<open>\<^verbatim>\<open>^[1-9][0-9]*(units)$\<close>\<close>

definition quantity :: "string list \<Rightarrow> string \<Rightarrow> bool" where
  "quantity units s = (let unit = dropWhile digit s; n = takeWhile digit s in
     n \<noteq> [] \<and> hd n \<noteq> CHR ''0'' \<and> unit \<in> set units)"

definition storage_class :: "string \<Rightarrow> bool" where
  "storage_class s = (case s of [] \<Rightarrow> False | c # cs \<Rightarrow> (lower_case c \<or> digit c) \<and>
     list_all (\<lambda>c. lower_or_digit c \<or> c = CHR ''.'') cs)"

definition valid_values :: "env_values \<Rightarrow> bool" where
  "valid_values env \<longleftrightarrow> dict_ok env \<and> length env \<le> 64 \<and>
     list_all (\<lambda>(k, v). env_name k \<and> (case v of Plain _ \<Rightarrow> True | SecretReference s \<Rightarrow> env_name s)) env"

definition valid_persistence :: "persistence \<Rightarrow> bool" where
  "valid_persistence p \<longleftrightarrow> mount_path (pe_mount p) \<and> quantity [''Mi'', ''Gi'', ''Ti''] (pe_size p) \<and>
     (case pe_storage_class p of None \<Rightarrow> True | Some c \<Rightarrow> storage_class c)"

definition valid_healthcheck :: "healthcheck \<Rightarrow> bool" where
  "valid_healthcheck h \<longleftrightarrow> 1 \<le> length (hk_command h) \<and> length (hk_command h) \<le> 32 \<and>
     1 \<le> hk_interval h \<and> hk_interval h \<le> 300 \<and> 1 \<le> hk_timeout h \<and> hk_timeout h \<le> 300 \<and>
     1 \<le> hk_retries h \<and> hk_retries h \<le> 120"

definition valid_resources :: "resource_limits \<Rightarrow> bool" where
  "valid_resources r \<longleftrightarrow> 0 < rl_cpus r \<and> rl_cpus r \<le> 128 \<and> quantity [''Mi'', ''Gi''] (rl_memory r)"

text \<open>\<open>is_ip\<close> is \<^verbatim>\<open>ip_address\<close>, of the standard library: whether the text is an address.\<close>

definition check_addresses :: "(string \<Rightarrow> bool) \<Rightarrow> network \<Rightarrow> bool" where
  "check_addresses is_ip n \<longleftrightarrow> list_all (\<lambda>(_, a). a = ''host-gateway'' \<or> is_ip a) (nt_hosts n) \<and> list_all is_ip (nt_dns n)"

definition valid_network :: "(string \<Rightarrow> bool) \<Rightarrow> network \<Rightarrow> bool" where
  "valid_network is_ip n \<longleftrightarrow> dict_ok (nt_hosts n) \<and> length (nt_hosts n) \<le> 32 \<and> list_all (\<lambda>(h, _). host_name h) (nt_hosts n) \<and>
     length (nt_dns n) \<le> 3 \<and> check_addresses is_ip n"

definition keys_within :: "('k \<times> 'v) list \<Rightarrow> ('k \<times> 'w) list \<Rightarrow> bool" where
  "keys_within a b = list_all (\<lambda>(k, _). map_of b k \<noteq> None) a"

definition check_ports :: "container \<Rightarrow> exc option" where
  "check_ports c = check_all
     [require (keys_within (cn_publish c) (cn_ports c)) (ValueError ''publish references an undeclared port''),
      require (distinct (map snd (cn_ports c))) (ValueError ''duplicate container ports'')]"

definition valid_container :: "(string \<Rightarrow> bool) \<Rightarrow> container \<Rightarrow> bool" where
  "valid_container is_ip c \<longleftrightarrow> image_name (cn_image c) \<and> length (cn_command c) \<le> 32 \<and>
     dict_ok (cn_ports c) \<and> length (cn_ports c) \<le> 16 \<and> list_all (\<lambda>(k, p). label_pattern 14 k \<and> 1 \<le> p \<and> p \<le> 65535) (cn_ports c) \<and>
     dict_ok (cn_publish c) \<and> length (cn_publish c) \<le> 16 \<and> list_all (\<lambda>(k, p). label_pattern 14 k \<and> 1024 \<le> p \<and> p \<le> 65535) (cn_publish c) \<and>
     valid_values (cn_environment c) \<and> length (cn_depends_on c) \<le> 32 \<and> list_all (label_pattern 39) (cn_depends_on c) \<and>
     valid_healthcheck (cn_healthcheck c) \<and> (case cn_persistence c of None \<Rightarrow> True | Some p \<Rightarrow> valid_persistence p) \<and>
     valid_resources (cn_resources c) \<and> valid_network is_ip (cn_network c) \<and> check_ports c = None"

definition check_replicas :: "agent \<Rightarrow> exc option" where
  "check_replicas a = require (\<not> (ag_replicas a > 1 \<and> (cn_persistence (ag_container a) \<noteq> None \<or> cn_publish (ag_container a) \<noteq> [])))
     (ValueError ''replicated agents cannot use persistence or fixed published ports'')"

definition check_connection :: "env_values \<Rightarrow> env_value option \<Rightarrow> string option \<Rightarrow> exc option" where
  "check_connection provides url variable = check_all
     [require ((url = None) = (variable = None)) (ValueError ''url and variable must be supplied together''),
      require (\<not> (url = None \<and> provides = [])) (ValueError ''connected services require url/variable or provides''),
      require (case variable of None \<Rightarrow> True | Some v \<Rightarrow> map_of provides v = None) (ValueError ''duplicate connection binding'')]"

definition service_bindings :: "service \<Rightarrow> env_values" where
  "service_bindings s = (case s of
     ProvisionedService _ provides _ \<Rightarrow> provides
   | ConnectedService _ provides url variable \<Rightarrow> (case (variable, url) of
       (Some v, Some u) \<Rightarrow> AList.update v u provides
     | _ \<Rightarrow> provides))"

definition valid_service :: "(string \<Rightarrow> bool) \<Rightarrow> service \<Rightarrow> bool" where
  "valid_service is_ip s = (case s of
     ProvisionedService t provides c \<Rightarrow> length t \<le> 64 \<and> valid_values provides \<and> valid_container is_ip c
   | ConnectedService t provides url variable \<Rightarrow> length t \<le> 64 \<and> valid_values provides \<and>
       (case variable of None \<Rightarrow> True | Some v \<Rightarrow> env_name v) \<and>
       (case url of Some (SecretReference r) \<Rightarrow> env_name r | _ \<Rightarrow> True) \<and> check_connection provides url variable = None)"


section \<open>The order of dependencies\<close>

type_synonym dependency_map = "(string \<times> string list) list"

definition container_of :: "service \<Rightarrow> container option" where
  "container_of s = (case s of ProvisionedService _ _ c \<Rightarrow> Some c | ConnectedService _ _ _ _ \<Rightarrow> None)"

definition merge_dicts :: "('k \<times> 'v) list \<Rightarrow> ('k \<times> 'v) list \<Rightarrow> ('k \<times> 'v) list" where
  "merge_dicts a b = fold (\<lambda>(k, v). AList.update k v) b a"

text \<open>\<^verbatim>\<open>workloads\<close>: what is provisioned; the agents are their containers here, with \<open>agent_replicas\<close> beside.\<close>

definition workloads :: "deployment \<Rightarrow> (string \<times> container) list" where
  "workloads d = merge_dicts (List.map_filter (\<lambda>(k, s). map_option (Pair k) (container_of s)) (dy_services d))
     (map (\<lambda>(k, a). (k, ag_container a)) (dy_agents d))"

definition agent_replicas :: "deployment \<Rightarrow> string \<Rightarrow> int" where
  "agent_replicas d name = (case map_of (dy_agents d) name of None \<Rightarrow> 1 | Some a \<Rightarrow> ag_replicas a)"

definition dependency_graph :: "deployment \<Rightarrow> dependency_map" where
  "dependency_graph d = merge_dicts
     (map (\<lambda>(k, s). (k, case container_of s of None \<Rightarrow> [] | Some c \<Rightarrow> cn_depends_on c)) (dy_services d))
     (map (\<lambda>(k, a). (k, cn_depends_on (ag_container a))) (dy_agents d))"

text \<open>
  \<^verbatim>\<open>TopologicalSorter\<close> of the standard library. A node is recorded when it first appears, as a key or
  as a predecessor, with the number of its predecessors and the list of its successors. All ready
  nodes are handed out, then marked done in that order, which appends those that become ready: one
  queue. A cycle is found first; it is what leaves nodes that never become ready.
\<close>

definition first_seen :: "string list \<Rightarrow> string list" where
  "first_seen xs = rev (remdups (rev xs))"

definition graph_nodes :: "dependency_map \<Rightarrow> string list" where
  "graph_nodes g = first_seen (concat (map (\<lambda>(n, ps). n # ps) g))"

definition predecessors :: "dependency_map \<Rightarrow> string \<Rightarrow> string list" where
  "predecessors g n = (case map_of g n of None \<Rightarrow> [] | Some ps \<Rightarrow> ps)"

definition successors :: "dependency_map \<Rightarrow> string \<Rightarrow> string list" where
  "successors g p = concat (map (\<lambda>(n, ps). replicate (length (filter (\<lambda>q. q = p) ps)) n) g)"

type_synonym counts = "(string \<times> nat) list"

definition decrement :: "string \<Rightarrow> counts \<times> string list \<Rightarrow> counts \<times> string list" where
  "decrement s x = (case x of (counts, ready) \<Rightarrow> (case map_of counts s of
     None \<Rightarrow> (counts, ready)
   | Some c \<Rightarrow> (AList.update s (c - 1) counts, if c = 1 then ready @ [s] else ready)))"

text \<open>The nodes that still wait for a predecessor.\<close>

definition held_back :: "counts \<Rightarrow> string set" where
  "held_back counts = {n. \<exists>c. map_of counts n = Some c \<and> 0 < c}"

lemma finite_held_back [simp]: "finite (held_back counts)"
  by (rule finite_subset [of _ "fst ` set counts"]) (auto simp: held_back_def dest: map_of_SomeD intro: rev_image_eqI)

lemma decrement_held_back:
  "card (held_back (fst (decrement s (counts, ready)))) + length (snd (decrement s (counts, ready))) =
   card (held_back counts) + length ready"
proof (cases "map_of counts s = Some 1")
  case True
  have "held_back (AList.update s 0 counts) = held_back counts - {s}" by (auto simp: held_back_def split: if_splits)
  moreover have "s \<in> held_back counts" using True by (auto simp: held_back_def)
  ultimately have "Suc (card (held_back (AList.update s 0 counts))) = card (held_back counts)"
    by (metis card_Suc_Diff1 finite_held_back)
  with True show ?thesis by (simp add: decrement_def)
next
  case False
  have "held_back (AList.update s (c - 1) counts) = held_back counts" if "map_of counts s = Some c" for c
    using that False by (auto simp: held_back_def split: if_splits)
  with False show ?thesis by (auto simp: decrement_def split: option.split)
qed

lemma decrements_held_back:
  "card (held_back (fst (fold decrement ss (counts, ready)))) + length (snd (fold decrement ss (counts, ready))) =
   card (held_back counts) + length ready"
proof (induction ss arbitrary: counts ready)
  case (Cons s ss)
  obtain c r where cr: "decrement s (counts, ready) = (c, r)" by (cases "decrement s (counts, ready)")
  with Cons [of c r] decrement_held_back [of s counts ready] show ?case by simp
qed simp

function drain_queue :: "dependency_map \<Rightarrow> string list \<Rightarrow> counts \<Rightarrow> string list" where
  "drain_queue g [] counts = []"
| "drain_queue g (n # q) counts = (let x = fold decrement (successors g n) (counts, []) in n # drain_queue g (q @ snd x) (fst x))"
  by pat_completeness auto
termination
proof (relation "measure (\<lambda>(g, q, counts). card (held_back counts) + length q)")
  fix g n q counts x
  assume "x = fold decrement (successors g n) (counts, [])"
  with decrements_held_back [of "successors g n" counts "[]"]
  show "((g, q @ snd x, fst x), g, n # q, counts) \<in> measure (\<lambda>(g, q, counts). card (held_back counts) + length q)" by simp
qed simp

definition initial_counts :: "dependency_map \<Rightarrow> counts" where
  "initial_counts g = map (\<lambda>n. (n, length (predecessors g n))) (graph_nodes g)"

text \<open>\<^verbatim>\<open>static_order\<close>, \<open>None\<close> is the \<^verbatim>\<open>CycleError\<close>.\<close>

definition static_order :: "dependency_map \<Rightarrow> string list option" where
  "static_order g = (let counts = initial_counts g;
       out = drain_queue g (filter (\<lambda>n. map_of counts n = Some 0) (graph_nodes g)) counts
     in if length out < length (graph_nodes g) then None else Some out)"

definition deployment_order :: "deployment \<Rightarrow> exc + string list" where
  "deployment_order d = (let g = dependency_graph d in
     if list_ex (\<lambda>(_, ps). list_ex (\<lambda>p. map_of g p = None) ps) g then Inl (ValueError ''unknown dependency'')
     else case static_order g of None \<Rightarrow> Inl (ValueError ''dependency cycle'') | Some xs \<Rightarrow> Inr xs)"

definition given :: "string option \<Rightarrow> bool" where
  "given x \<longleftrightarrow> (case x of None \<Rightarrow> False | Some s \<Rightarrow> s \<noteq> [])"

definition check_network_target :: "deployment \<Rightarrow> exc option" where
  "check_network_target d = require (\<not> (dy_backend d = Kubernetes \<and>
       list_ex (\<lambda>(_, c). ''host-gateway'' \<in> snd ` set (nt_hosts (cn_network c))) (workloads d)))
     (ValueError ''host-gateway is local-only; use a reachable IP address for Kubernetes'')"

definition check_graph :: "deployment \<Rightarrow> exc option" where
  "check_graph d = check_all
     [require (\<not> (dy_backend d = Kubernetes \<and> \<not> (given (dy_context d) \<and> given (dy_namespace d))))
        (ValueError ''Kubernetes requires an explicit context and existing namespace''),
      require (\<not> (dy_backend d = Local \<and> (given (dy_context d) \<or> given (dy_namespace d))))
        (ValueError ''local deployments cannot select a Kubernetes target''),
      require (list_all (\<lambda>(k, _). map_of (dy_agents d) k = None) (dy_services d))
        (ValueError ''agent and service names must be unique''),
      check_network_target d,
      (case deployment_order d of Inl e \<Rightarrow> Some e | Inr _ \<Rightarrow> None)]"

definition valid_deployment :: "(string \<Rightarrow> bool) \<Rightarrow> deployment \<Rightarrow> bool" where
  "valid_deployment is_ip d \<longleftrightarrow> label_pattern 39 (dy_name d) \<and>
     (case dy_release d of None \<Rightarrow> True | Some r \<Rightarrow> 1 \<le> length r \<and> length r \<le> 100) \<and>
     (case dy_context d of None \<Rightarrow> True | Some c \<Rightarrow> 1 \<le> length c \<and> length c \<le> 200) \<and>
     (case dy_namespace d of None \<Rightarrow> True | Some n \<Rightarrow> label_pattern 39 n) \<and>
     dict_ok (dy_services d) \<and> length (dy_services d) \<le> 32 \<and>
     list_all (\<lambda>(k, s). label_pattern 39 k \<and> valid_service is_ip s) (dy_services d) \<and>
     dict_ok (dy_agents d) \<and> length (dy_agents d) \<le> 32 \<and>
     list_all (\<lambda>(k, a). label_pattern 39 k \<and> valid_container is_ip (ag_container a) \<and> 1 \<le> ag_replicas a \<and> ag_replicas a \<le> 100 \<and>
       check_replicas a = None) (dy_agents d) \<and>
     check_graph d = None"


section \<open>Manifests\<close>

text \<open>
  \<^verbatim>\<open>_merge\<close>: an object is merged into an object unless it changes the \<^verbatim>\<open>mode\<close>; anything else replaces.
\<close>

definition mode_of :: "(pyval \<times> pyval) list \<Rightarrow> pyval option" where
  "mode_of kvs = map_of kvs (PyStr ''mode'')"

definition same_mode :: "(pyval \<times> pyval) list \<Rightarrow> (pyval \<times> pyval) list \<Rightarrow> bool" where
  "same_mode previous new \<longleftrightarrow> (case mode_of new of None \<Rightarrow> True
     | Some m \<Rightarrow> (case mode_of previous of None \<Rightarrow> m = PyNone | Some m' \<Rightarrow> m = m'))"

fun merge_overlay :: "(pyval \<times> pyval) list \<Rightarrow> (pyval \<times> pyval) list \<Rightarrow> (pyval \<times> pyval) list" where
  "merge_overlay base [] = base"
| "merge_overlay base ((k, PyDict new) # rest) =
     merge_overlay (AList.update k (case map_of base k of
         Some (PyDict previous) \<Rightarrow> if same_mode previous new then PyDict (merge_overlay previous new) else PyDict new
       | _ \<Rightarrow> PyDict new) base) rest"
| "merge_overlay base ((k, v) # rest) = merge_overlay (AList.update k v base) rest"

definition environment_pattern :: "string \<Rightarrow> bool" where
  "environment_pattern s = label_pattern 19 s"

datatype loading = LoadedYaml pyval | YamlFailed | RecursionFailed

text \<open>
  \<open>load\<close> is \<^verbatim>\<open>yaml.load\<close> with the loader that refuses duplicate keys; \<open>build\<close> is \<^verbatim>\<open>model_validate\<close>, which
  gives the deployment or the locations of the invalid fields.
\<close>

definition invalid_fields :: "string list \<Rightarrow> exc" where
  "invalid_fields locs = ProvisionError (''Invalid deployment configuration at: '' @ join_with '', '' locs)"

definition bad_manifest :: exc where
  "bad_manifest = ProvisionError ''Invalid deployment manifest or environment''"

definition parse_manifest :: "(string \<Rightarrow> loading) \<Rightarrow> (pyval \<Rightarrow> string list + deployment) \<Rightarrow> string \<Rightarrow> string \<Rightarrow> exc + deployment" where
  "parse_manifest load build text environment =
     (if \<not> environment_pattern environment then Inl (ProvisionError ''Invalid deployment environment name'')
      else case load text of
        LoadedYaml (PyDict data) \<Rightarrow>
          (let key = PyStr ''environments'' in
           case (case map_of data key of None \<Rightarrow> PyDict [] | Some v \<Rightarrow> v) of
             PyDict overrides \<Rightarrow>
               if environment \<noteq> ''local'' \<and> map_of overrides (PyStr environment) = None then Inl bad_manifest
               else (case (case map_of overrides (PyStr environment) of None \<Rightarrow> PyDict [] | Some v \<Rightarrow> v) of
                 PyDict overlay \<Rightarrow> (case build (PyDict (merge_overlay (AList.delete key data) overlay)) of
                   Inl locs \<Rightarrow> Inl (invalid_fields locs) | Inr d \<Rightarrow> Inr d)
               | _ \<Rightarrow> Inl bad_manifest)
           | _ \<Rightarrow> Inl bad_manifest)
      | _ \<Rightarrow> Inl bad_manifest)"

end
