(* ===== verification/Provision_Order.thy ===== *)
theory Provision_Order
  imports Provision_Config
begin

text \<open>
  The order of dependencies is right: the queue of \<open>drain_queue\<close> holds the nodes whose predecessors
  have all been handed out, so that what it hands out is topologically sorted and what it never reaches lies behind a cycle.
\<close>

section \<open>Counting predecessors\<close>

definition preds_left :: "dependency_map \<Rightarrow> string set \<Rightarrow> string \<Rightarrow> nat" where
  "preds_left g E n = length (filter (\<lambda>p. p \<notin> E) (predecessors g n))"

lemma preds_left_zero: "preds_left g E n = 0 \<longleftrightarrow> set (predecessors g n) \<subseteq> E"
  by (auto simp: preds_left_def filter_empty_conv)

lemma preds_left_insert:
  assumes "p \<notin> E"
  shows "preds_left g E n = preds_left g (insert p E) n + count_list (predecessors g n) p"
proof -
  have "length (filter (\<lambda>q. q \<notin> E) ps) = length (filter (\<lambda>q. q \<notin> insert p E) ps) + count_list ps p" for ps
    using assms by (induction ps) auto
  then show ?thesis by (simp add: preds_left_def)
qed

lemma successors_absent: "n \<notin> fst ` set g \<Longrightarrow> count_list (successors g p) n = 0"
  by (induction g) (auto simp: successors_def count_list_0_iff)

lemma count_list_replicate [simp]: "count_list (replicate k x) y = (if x = y then k else 0)"
  by (induction k) auto

lemma filter_count_list: "length (filter (\<lambda>q. q = p) ps) = count_list ps p"
  by (induction ps) auto

text \<open>A node is a successor as often as the other is its predecessor.\<close>

lemma count_successors:
  assumes "dict_ok g"
  shows "count_list (successors g p) n = count_list (predecessors g n) p"
  using assms
proof (induction g)
  case (Cons x g)
  obtain m ps where x: "x = (m, ps)" by (cases x)
  have c: "count_list (successors (x # g) p) n = (if m = n then count_list ps p else 0) + count_list (successors g p) n"
    by (simp add: successors_def x filter_count_list)
  show ?case
  proof (cases "m = n")
    case True
    with Cons.prems x have "n \<notin> fst ` set g" by auto
    with c True x successors_absent show ?thesis by (simp add: predecessors_def)
  next
    case False
    with Cons c x show ?thesis by (simp add: predecessors_def)
  qed
qed (simp add: successors_def predecessors_def)


section \<open>Decrements\<close>

lemma decrements:
  assumes "\<And>n. count_list ss n \<le> (case map_of counts n of None \<Rightarrow> 0 | Some c \<Rightarrow> c)"
  shows "\<exists>r. snd (fold decrement ss (counts, ready)) = ready @ r \<and> distinct r \<and>
      set r = {n. \<exists>c. map_of counts n = Some c \<and> 0 < c \<and> count_list ss n = c} \<and>
      map_of (fst (fold decrement ss (counts, ready))) = (\<lambda>n. map_option (\<lambda>c. c - count_list ss n) (map_of counts n))"
  using assms
proof (induction ss arbitrary: counts ready)
  case Nil
  then show ?case by (auto simp: option.map_ident)
next
  case (Cons s ss)
  obtain c where c: "map_of counts s = Some c" "0 < c"
    using Cons.prems [of s] by (auto split: option.splits)
  let ?counts = "AList.update s (c - 1) counts"
  have "count_list ss n \<le> (case map_of ?counts n of None \<Rightarrow> 0 | Some c \<Rightarrow> c)" for n
    using Cons.prems [of n] c by (auto split: option.splits if_splits)
  from Cons.IH [OF this, of "if c = 1 then ready @ [s] else ready"] obtain r where
    r: "snd (fold decrement ss (?counts, if c = 1 then ready @ [s] else ready)) = (if c = 1 then ready @ [s] else ready) @ r"
      "distinct r" "set r = {n. \<exists>c. map_of ?counts n = Some c \<and> 0 < c \<and> count_list ss n = c}"
      "map_of (fst (fold decrement ss (?counts, if c = 1 then ready @ [s] else ready))) =
        (\<lambda>n. map_option (\<lambda>c. c - count_list ss n) (map_of ?counts n))"
    by blast
  have d: "fold decrement (s # ss) (counts, ready) = fold decrement ss (?counts, if c = 1 then ready @ [s] else ready)"
    using c by (simp add: decrement_def)
  have cs: "count_list (s # ss) s = Suc (count_list ss s)" by simp
  have "map_of (fst (fold decrement (s # ss) (counts, ready))) = (\<lambda>n. map_option (\<lambda>c. c - count_list (s # ss) n) (map_of counts n))"
    unfolding d r(4) using c by (auto simp: fun_eq_iff)
  moreover have "set (if c = 1 then s # r else r) = {n. \<exists>c. map_of counts n = Some c \<and> 0 < c \<and> count_list (s # ss) n = c}"
  proof (rule set_eqI)
    fix n
    have le: "count_list ss s \<le> c - 1" using Cons.prems [of s] c by simp
    show "n \<in> set (if c = 1 then s # r else r) \<longleftrightarrow> n \<in> {n. \<exists>c. map_of counts n = Some c \<and> 0 < c \<and> count_list (s # ss) n = c}"
    proof (cases "n = s")
      case True
      have "n \<in> set r \<longleftrightarrow> 0 < c - 1 \<and> count_list ss s = c - 1" using True by (auto simp: r(3))
      with True le c show ?thesis by auto
    next
      case False
      with r(3) show ?thesis by simp
    qed
  qed
  moreover have "snd (fold decrement (s # ss) (counts, ready)) = ready @ (if c = 1 then s # r else r)" unfolding d r(1) by simp
  moreover have "distinct (if c = 1 then s # r else r)" using r(2,3) by auto
  ultimately show ?case by (intro exI [of _ "if c = 1 then s # r else r"] conjI)
qed


section \<open>The queue\<close>

lemma graph_nodes: "set (graph_nodes g) = fst ` set g \<union> \<Union> (set ` snd ` set g)" "distinct (graph_nodes g)"
  by (auto simp: graph_nodes_def first_seen_def) force+

lemma predecessors_entry: "p \<in> set (predecessors g n) \<Longrightarrow> \<exists>ps. (n, ps) \<in> set g \<and> p \<in> set ps"
  by (auto simp: predecessors_def split: option.splits dest!: map_of_SomeD [OF sym])

lemma predecessors_nodes: "p \<in> set (predecessors g n) \<Longrightarrow> p \<in> set (graph_nodes g)"
  using predecessors_entry by (force simp: graph_nodes)

lemma successor_nodes: "p \<in> set (predecessors g n) \<Longrightarrow> n \<in> set (graph_nodes g)"
  using predecessors_entry by (force simp: graph_nodes)

definition queue_ok :: "dependency_map \<Rightarrow> string set \<Rightarrow> string list \<Rightarrow> counts \<Rightarrow> bool" where
  "queue_ok g E q counts \<longleftrightarrow>
     map_of counts = (\<lambda>n. if n \<in> set (graph_nodes g) then Some (preds_left g E n) else None) \<and>
     distinct q \<and> set q \<subseteq> set (graph_nodes g) \<and> set q \<inter> E = {} \<and>
     (\<forall>n \<in> set (graph_nodes g). preds_left g E n = 0 \<longleftrightarrow> n \<in> E \<or> n \<in> set q)"

lemma queue_step:
  assumes "queue_ok g E (n # q) counts" "dict_ok g"
  shows "queue_ok g (insert n E) (q @ snd (fold decrement (successors g n) (counts, []))) (fst (fold decrement (successors g n) (counts, [])))"
proof -
  have m: "map_of counts = (\<lambda>n. if n \<in> set (graph_nodes g) then Some (preds_left g E n) else None)"
    and q: "distinct (n # q)" "set (n # q) \<subseteq> set (graph_nodes g)" "set (n # q) \<inter> E = {}"
    and z: "\<forall>k \<in> set (graph_nodes g). preds_left g E k = 0 \<longleftrightarrow> k \<in> E \<or> k \<in> set (n # q)"
    using assms(1) by (auto simp: queue_ok_def)
  have n: "n \<notin> E" using q by simp
  note left = preds_left_insert [OF n, of g]
  note cs = count_successors [OF assms(2), of n]
  have le: "count_list (successors g n) k \<le> (case map_of counts k of None \<Rightarrow> 0 | Some c \<Rightarrow> c)" for k
  proof (cases "k \<in> set (graph_nodes g)")
    case True
    with left [of k] show ?thesis by (simp add: cs m)
  next
    case False
    then have "predecessors g k = []" using successor_nodes by (metis list.set_intros(1) neq_Nil_conv)
    with False show ?thesis by (simp add: cs m)
  qed
  obtain r where r: "snd (fold decrement (successors g n) (counts, [])) = r" "distinct r"
      "set r = {k. \<exists>c. map_of counts k = Some c \<and> 0 < c \<and> count_list (successors g n) k = c}"
      "map_of (fst (fold decrement (successors g n) (counts, []))) = (\<lambda>k. map_option (\<lambda>c. c - count_list (successors g n) k) (map_of counts k))"
    using decrements [OF le, of "[]"] by auto
  have sr: "set r = {k \<in> set (graph_nodes g). 0 < preds_left g E k \<and> preds_left g (insert n E) k = 0}"
    using left by (auto simp: r(3) m cs)
  have "map_of (fst (fold decrement (successors g n) (counts, []))) =
      (\<lambda>k. if k \<in> set (graph_nodes g) then Some (preds_left g (insert n E) k) else None)"
    unfolding r(4) using left by (auto simp: m cs fun_eq_iff)
  moreover have "distinct (q @ r)" using q r(2) z by (auto simp: sr)
  moreover have "set (q @ r) \<subseteq> set (graph_nodes g)" using q by (auto simp: sr)
  moreover have "set (q @ r) \<inter> insert n E = {}" using q z by (auto simp: sr)
  moreover have "preds_left g (insert n E) k = 0 \<longleftrightarrow> k \<in> insert n E \<or> k \<in> set (q @ r)" if "k \<in> set (graph_nodes g)" for k
  proof (cases "preds_left g E k = 0")
    case True
    with left [of k] z that show ?thesis by auto
  next
    case False
    with z that have "k \<notin> E" "k \<noteq> n" "k \<notin> set q" by auto
    with False that show ?thesis by (simp add: sr)
  qed
  ultimately show ?thesis unfolding queue_ok_def r(1) by (intro conjI ballI)
qed

text \<open>What comes out: each node once, after its predecessors, and nothing ready is left.\<close>

definition drained :: "dependency_map \<Rightarrow> string set \<Rightarrow> string list \<Rightarrow> bool" where
  "drained g E out \<longleftrightarrow> distinct out \<and> set out \<subseteq> set (graph_nodes g) \<and> set out \<inter> E = {} \<and>
     (\<forall>i < length out. set (predecessors g (out ! i)) \<subseteq> E \<union> set (take i out)) \<and>
     (\<forall>n \<in> set (graph_nodes g). n \<notin> E \<longrightarrow> n \<notin> set out \<longrightarrow> \<not> set (predecessors g n) \<subseteq> E \<union> set out)"

lemma drained_Cons:
  assumes "drained g (insert n E) out" "n \<in> set (graph_nodes g)" "n \<notin> E" "set (predecessors g n) \<subseteq> E"
  shows "drained g E (n # out)"
proof -
  have "set (predecessors g ((n # out) ! i)) \<subseteq> E \<union> set (take i (n # out))" if "i < length (n # out)" for i
    using assms(1,4) that by (cases i) (auto simp: drained_def)
  with assms show ?thesis by (auto simp: drained_def)
qed

lemma drain_queue_drained:
  "queue_ok g E q counts \<Longrightarrow> dict_ok g \<Longrightarrow> drained g E (drain_queue g q counts)"
proof (induction g q counts arbitrary: E rule: drain_queue.induct)
  case (1 g counts)
  then show ?case by (auto simp: drained_def queue_ok_def preds_left_zero)
next
  case (2 g n q counts)
  have n: "n \<in> set (graph_nodes g)" "n \<notin> E" "set (predecessors g n) \<subseteq> E"
    using 2(2) by (auto simp: queue_ok_def preds_left_zero)
  from 2(1) [OF refl queue_step [OF 2(2,3)] 2(3)] n show ?case by (simp add: Let_def drained_Cons)
qed

lemma queue_ok_init: "queue_ok g {} (filter (\<lambda>n. map_of (initial_counts g) n = Some 0) (graph_nodes g)) (initial_counts g)"
proof -
  have "map_of (initial_counts g) = (\<lambda>n. if n \<in> set (graph_nodes g) then Some (preds_left g {} n) else None)"
    by (auto simp: initial_counts_def preds_left_def fun_eq_iff map_of_eq_None_iff comp_def map_of_map_restrict restrict_map_def)
  then show ?thesis by (auto simp: queue_ok_def graph_nodes(2))
qed


section \<open>Topological order\<close>

definition depends :: "dependency_map \<Rightarrow> (string \<times> string) set" where
  "depends g = {(p, n). p \<in> set (predecessors g n)}"

definition topological :: "dependency_map \<Rightarrow> string list \<Rightarrow> bool" where
  "topological g xs \<longleftrightarrow> distinct xs \<and> (\<forall>i < length xs. set (predecessors g (xs ! i)) \<subseteq> set (take i xs))"

lemma topological_acyclic:
  assumes "topological g xs" "set (graph_nodes g) \<subseteq> set xs"
  shows "acyclic (depends g)"
proof -
  have ch: "\<exists>i j. i < j \<and> j < length xs \<and> p = xs ! i \<and> n = xs ! j" if "(p, n) \<in> (depends g)\<^sup>+" for p n
    using that
  proof (induction rule: trancl_induct)
    case (base n)
    then have "p \<in> set (predecessors g n)" by (simp add: depends_def)
    then have "n \<in> set (graph_nodes g)" by (rule successor_nodes)
    then obtain j where j: "j < length xs" "n = xs ! j" using assms(2) by (metis in_set_conv_nth subsetD)
    with assms(1) \<open>p \<in> _\<close> have "p \<in> set (take j xs)" by (auto simp: topological_def)
    then obtain i where "i < j" "p = xs ! i" by (auto simp: in_set_conv_nth)
    with j show ?case by blast
  next
    case (step m n)
    then have "m \<in> set (predecessors g n)" by (simp add: depends_def)
    then have "n \<in> set (graph_nodes g)" by (rule successor_nodes)
    then obtain j where j: "j < length xs" "n = xs ! j" using assms(2) by (metis in_set_conv_nth subsetD)
    with assms(1) \<open>m \<in> _\<close> have "m \<in> set (take j xs)" by (auto simp: topological_def)
    then obtain k where k: "k < j" "m = xs ! k" by (auto simp: in_set_conv_nth)
    from step.IH obtain i k' where i: "i < k'" "k' < length xs" "p = xs ! i" "m = xs ! k'" by blast
    have "k' = k" using i k j assms(1) by (simp add: topological_def nth_eq_iff_index_eq)
    have "i < j" using i(1) k(1) \<open>k' = k\<close> by simp
    with i(3) j show ?case by blast
  qed
  show ?thesis
  proof (rule acyclicI, intro allI notI)
    fix x assume "(x, x) \<in> (depends g)\<^sup>+"
    then obtain i j where "i < j" "j < length xs" "xs ! i = xs ! j" using ch by metis
    then show False using assms(1) by (simp add: topological_def nth_eq_iff_index_eq)
  qed
qed

lemma stuck_cyclic:
  assumes "n0 \<in> S" "S \<subseteq> set (graph_nodes g)" "\<And>n. n \<in> S \<Longrightarrow> \<exists>p \<in> set (predecessors g n). p \<in> S"
  shows "\<not> acyclic (depends g)"
proof
  assume a: "acyclic (depends g)"
  let ?r = "depends g \<inter> (set (graph_nodes g) \<times> set (graph_nodes g))"
  have "acyclic ?r" using a by (rule acyclic_subset) auto
  then have "wf ?r" by (intro finite_acyclic_wf) simp_all
  then obtain m where "m \<in> S" "\<And>y. (y, m) \<in> ?r \<Longrightarrow> y \<notin> S" using assms(1) by (metis wf_eq_minimal)
  then show False using assms(2,3) by (force simp: depends_def)
qed

lemma static_order_correct:
  assumes "dict_ok g"
  shows "case static_order g of None \<Rightarrow> \<not> acyclic (depends g)
    | Some xs \<Rightarrow> topological g xs \<and> set xs = set (graph_nodes g) \<and> acyclic (depends g)"
proof -
  define out where "out = drain_queue g (filter (\<lambda>n. map_of (initial_counts g) n = Some 0) (graph_nodes g)) (initial_counts g)"
  have d: "drained g {} out" unfolding out_def by (rule drain_queue_drained [OF queue_ok_init assms])
  have len: "length out = card (set out)" "length (graph_nodes g) = card (set (graph_nodes g))"
    using d graph_nodes(2) by (simp_all add: drained_def distinct_card)
  show ?thesis
  proof (cases "length out < length (graph_nodes g)")
    case True
    then obtain n0 where "n0 \<in> set (graph_nodes g) - set out" using len by (metis card_mono Diff_eq_empty_iff equals0I leD List.finite_set)
    then have "\<not> acyclic (depends g)"
    proof (rule stuck_cyclic)
      show "\<exists>p \<in> set (predecessors g n). p \<in> set (graph_nodes g) - set out" if "n \<in> set (graph_nodes g) - set out" for n
      proof -
        have "\<not> set (predecessors g n) \<subseteq> set out" using d that by (auto simp: drained_def)
        then show ?thesis using predecessors_nodes by blast
      qed
    qed auto
    with True show ?thesis by (simp add: static_order_def out_def Let_def)
  next
    case False
    have "set out \<subseteq> set (graph_nodes g)" using d by (simp add: drained_def)
    with False len have s: "set out = set (graph_nodes g)" by (metis card_subset_eq List.finite_set card_mono le_antisym not_less)
    have t: "topological g out" using d by (simp add: drained_def topological_def)
    from topological_acyclic [OF t] s have "acyclic (depends g)" by simp
    with False s t show ?thesis by (simp add: static_order_def out_def Let_def)
  qed
qed

end
