(* ===== verification/Provision_Plan.thy ===== *)
theory Provision_Plan
  imports Provision_Config Task_Records
begin

text \<open>
  From a deployment to what the backends get (\<^verbatim>\<open>provisioner_plan.py\<close>, \<^verbatim>\<open>provisioner_access.py\<close>): references
  between components, the environment of a container, the preview, the Compose document, the
  Kubernetes objects and the access instructions. Documents are dynamic values. \<open>secrets\<close> is \<open>None\<close> in a
  preview. Base64, \<^verbatim>\<open>shlex.join\<close> and the text of a list of pairs are parameters of the language's library.
\<close>

record plan =
  pl_deployment :: deployment
  pl_environment :: string
  pl_revision :: "int option"
  pl_identity :: string

record render_lib =
  rn_base64 :: "string \<Rightarrow> string"
  rn_quote :: "string list \<Rightarrow> string"
  rn_pairs :: "(string \<times> string) list \<Rightarrow> string"

type_synonym secrets = "string \<Rightarrow> string option"

definition owner_label :: string where
  "owner_label = ''harnest.dev/deployment''"

definition pl_workloads :: "plan \<Rightarrow> (string \<times> container) list" where
  "pl_workloads p = workloads (pl_deployment p)"

definition resource_name :: "plan \<Rightarrow> string \<Rightarrow> string" where
  "resource_name p name = pl_identity p @ ''-'' @ name"

definition text_dict :: "(string \<times> string) list \<Rightarrow> pyval" where
  "text_dict kvs = PyDict (map (\<lambda>(k, v). (PyStr k, PyStr v)) kvs)"

definition object_of :: "(string \<times> pyval) list \<Rightarrow> pyval" where
  "object_of kvs = PyDict (map (\<lambda>(k, v). (PyStr k, v)) kvs)"

definition plan_labels :: "plan \<Rightarrow> string option \<Rightarrow> (string \<times> string) list" where
  "plan_labels p name = (owner_label, pl_identity p) # (case name of
     Some n \<Rightarrow> if n \<noteq> [] then [(''harnest.dev/component'', n)] else [] | None \<Rightarrow> [])"

definition revision_metadata :: "plan \<Rightarrow> (string \<times> string) list" where
  "revision_metadata p = (case pl_revision p of None \<Rightarrow> [] | Some r \<Rightarrow> [(''harnest.dev/revision'', int_text r)])"

definition workload_revision :: "plan \<Rightarrow> string \<Rightarrow> container \<Rightarrow> (string \<times> string) list" where
  "workload_revision p name node =
     (if map_of (dy_services (pl_deployment p)) name \<noteq> None \<and> cn_persistence node \<noteq> None then [] else revision_metadata p)"


section \<open>References\<close>

text \<open>
  A match of \<^verbatim>\<open>${services.NAME.host}\<close>, \<^verbatim>\<open>${agents.NAME.ports.PORT}\<close> and so on at the start of a text: the
  group, the name, the field, and what follows. Names have no dot, so there is only one way to match.
\<close>

definition reference_name :: "string \<Rightarrow> (string \<times> string) option" where
  "reference_name s = (let n = takeWhile lower_or_digit s in
     if n \<noteq> [] \<and> lower_case (hd n) then Some (n, drop (length n) s) else None)"

definition strip_prefix :: "string \<Rightarrow> string \<Rightarrow> string option" where
  "strip_prefix p s = (if take (length p) s = p then Some (drop (length p) s) else None)"

datatype reference_group = Services | Agents

datatype reference_field = HostField | PortField string

definition reference_group_of :: "string \<Rightarrow> (reference_group \<times> string) option" where
  "reference_group_of s = (case strip_prefix ''${services.'' s of Some r \<Rightarrow> Some (Services, r)
     | None \<Rightarrow> map_option (Pair Agents) (strip_prefix ''${agents.'' s))"

definition reference_field_of :: "string \<Rightarrow> (reference_field \<times> string) option" where
  "reference_field_of s = (case strip_prefix ''host}'' s of Some r \<Rightarrow> Some (HostField, r)
     | None \<Rightarrow> (case strip_prefix ''ports.'' s of None \<Rightarrow> None
       | Some r \<Rightarrow> (case reference_name r of None \<Rightarrow> None
         | Some (n, r') \<Rightarrow> map_option (Pair (PortField n)) (strip_prefix ''}'' r'))))"

definition reference_at :: "string \<Rightarrow> ((reference_group \<times> string \<times> reference_field) \<times> string) option" where
  "reference_at s = (case reference_group_of s of None \<Rightarrow> None
     | Some (g, r) \<Rightarrow> (case reference_name r of None \<Rightarrow> None
       | Some (n, r1) \<Rightarrow> (case strip_prefix ''.'' r1 of None \<Rightarrow> None
         | Some r2 \<Rightarrow> map_option (\<lambda>(f, r3). ((g, n, f), r3)) (reference_field_of r2))))"

lemma strip_prefix_append: "strip_prefix p s = Some r \<Longrightarrow> s = p @ r"
  by (metis append_take_drop_id option.distinct(1) option.inject strip_prefix_def)

lemma strip_prefix_length: "strip_prefix p s = Some r \<Longrightarrow> length r + length p = length s"
  by (auto dest!: strip_prefix_append)

lemma reference_name_length: "reference_name s = Some (n, r) \<Longrightarrow> length r \<le> length s"
  by (auto simp: reference_name_def Let_def simp del: drop_eq_Nil split: if_splits)

lemma reference_group_length: "reference_group_of s = Some (g, r) \<Longrightarrow> length r < length s"
  using strip_prefix_length [of "''${services.''" s r] strip_prefix_length [of "''${agents.''" s r]
  by (auto simp: reference_group_of_def split: option.splits)

lemma reference_field_length:
  assumes "reference_field_of s = Some (f, r)"
  shows "length r \<le> length s"
proof (cases "strip_prefix ''host}'' s")
  case None
  then obtain r1 n r2 where "strip_prefix ''ports.'' s = Some r1" "reference_name r1 = Some (n, r2)" "strip_prefix ''}'' r2 = Some r"
    using assms by (auto simp: reference_field_of_def split: option.splits)
  then have "length r1 \<le> length s" "length r2 \<le> length r1" "length r \<le> length r2"
    using strip_prefix_length [of "''ports.''" s r1] reference_name_length strip_prefix_length [of "''}''" r2 r] by fastforce+
  then show ?thesis by simp
next
  case (Some r1)
  then show ?thesis using assms strip_prefix_length [OF Some] by (simp add: reference_field_of_def)
qed

lemma reference_at_length:
  assumes "reference_at s = Some (m, r)"
  shows "length r < length s"
proof -
  obtain g r0 n r1 r2 f where "reference_group_of s = Some (g, r0)" "reference_name r0 = Some (n, r1)"
      "strip_prefix ''.'' r1 = Some r2" "reference_field_of r2 = Some (f, r)"
    using assms by (auto simp: reference_at_def split: option.splits)
  then have "length r0 < length s" "length r1 \<le> length r0" "length r2 \<le> length r1" "length r \<le> length r2"
    using reference_group_length reference_name_length strip_prefix_length [of "''.''" r1 r2] reference_field_length by fastforce+
  then show ?thesis by simp
qed

text \<open>\<^verbatim>\<open>_reference\<close>: the container a reference names, by its group.\<close>

definition referenced :: "deployment \<Rightarrow> reference_group \<Rightarrow> string \<Rightarrow> container option" where
  "referenced d g name = (case g of
     Services \<Rightarrow> (case map_of (dy_services d) name of None \<Rightarrow> None | Some s \<Rightarrow> container_of s)
   | Agents \<Rightarrow> map_option ag_container (map_of (dy_agents d) name))"

definition resolve_reference :: "plan \<Rightarrow> reference_group \<times> string \<times> reference_field \<Rightarrow> exc + string" where
  "resolve_reference p m = (case m of (g, name, field) \<Rightarrow> (case referenced (pl_deployment p) g name of
     None \<Rightarrow> Inl (ProvisionError ''Connection placeholder must reference a provisioned component'')
   | Some node \<Rightarrow> (case field of
       HostField \<Rightarrow>
         if cn_ports node = [] then Inl (ProvisionError ''Connection host references require a declared service port'')
         else Inr (if dy_backend (pl_deployment p) = Local then name else resource_name p name)
     | PortField port \<Rightarrow> (case map_of (cn_ports node) port of
         None \<Rightarrow> Inl (ProvisionError ''Connection placeholder references an undeclared port'')
       | Some n \<Rightarrow> Inr (int_text n)))))"

text \<open>\<^verbatim>\<open>_REFERENCE.sub\<close>: matches from left to right; the replacement is not scanned again.\<close>

function substitute :: "plan \<Rightarrow> string \<Rightarrow> exc + string" where
  "substitute p s = (case reference_at s of
     Some (m, r) \<Rightarrow> sum_bind (resolve_reference p m) (\<lambda>t. map_sum id (\<lambda>u. t @ u) (substitute p r))
   | None \<Rightarrow> (case s of [] \<Rightarrow> Inr [] | c # cs \<Rightarrow> map_sum id (\<lambda>u. c # u) (substitute p cs)))"
  by pat_completeness auto
termination
  by (relation "measure (\<lambda>(p, s). length s)") (auto dest: reference_at_length)

declare substitute.simps [simp del]

definition contains_open :: "string \<Rightarrow> bool" where
  "contains_open s \<longleftrightarrow> sublist ''${'' s"

fun resolve_value :: "plan \<Rightarrow> env_value \<Rightarrow> secrets option \<Rightarrow> exc + string" where
  "resolve_value p (SecretReference name) None = Inr (''<secret:'' @ name @ ''>'')"
| "resolve_value p (SecretReference name) (Some secrets) = (case secrets name of
     Some v \<Rightarrow> if v \<noteq> [] then Inr v else Inl (ProvisionError (''Missing required secret: '' @ name))
   | None \<Rightarrow> Inl (ProvisionError (''Missing required secret: '' @ name)))"
| "resolve_value p (Plain s) secrets = sum_bind (substitute p s) (\<lambda>t.
     if contains_open t then Inl (ProvisionError ''Unknown connection placeholder; use services.NAME.host or services.NAME.ports.PORT'')
     else Inr t)"

definition resolve_all :: "plan \<Rightarrow> env_values \<Rightarrow> secrets option \<Rightarrow> exc + (string \<times> string) list" where
  "resolve_all p env secrets = map_each (\<lambda>(k, v). map_sum id (Pair k) (resolve_value p v secrets)) env"

definition keys_meet :: "('k \<times> 'v) list \<Rightarrow> ('k \<times> 'w) list \<Rightarrow> bool" where
  "keys_meet a b \<longleftrightarrow> list_ex (\<lambda>(k, _). map_of b k \<noteq> None) a"

text \<open>What a dependency provides: an agent provides nothing.\<close>

definition provided :: "deployment \<Rightarrow> string \<Rightarrow> env_values" where
  "provided d dependency = (case map_of (dy_services d) dependency of None \<Rightarrow> [] | Some s \<Rightarrow> service_bindings s)"

fun dependency_environment :: "plan \<Rightarrow> secrets option \<Rightarrow> string list \<Rightarrow> (string \<times> string) list \<Rightarrow> exc + (string \<times> string) list" where
  "dependency_environment p secrets [] result = Inr result"
| "dependency_environment p secrets (dep # deps) result =
     (let new = provided (pl_deployment p) dep in
      if keys_meet result new then Inl (ProvisionError ''Dependencies provide duplicate environment variables'')
      else sum_bind (resolve_all p new secrets) (\<lambda>values. dependency_environment p secrets deps (merge_dicts result values)))"

definition container_environment :: "plan \<Rightarrow> container \<Rightarrow> secrets option \<Rightarrow> exc + (string \<times> string) list" where
  "container_environment p c secrets = sum_bind (dependency_environment p secrets (cn_depends_on c) []) (\<lambda>result.
     if keys_meet result (cn_environment c) then Inl (ProvisionError ''A dependency binding conflicts with container environment'')
     else sum_bind (resolve_all p (cn_environment c) secrets) (\<lambda>values. Inr (merge_dicts result values)))"

definition environment_for :: "plan \<Rightarrow> string \<Rightarrow> secrets option \<Rightarrow> exc + (string \<times> string) list" where
  "environment_for p name secrets = (case map_of (pl_workloads p) name of
     None \<Rightarrow> Inl (KeyError name) | Some c \<Rightarrow> container_environment p c secrets)"

definition make_plan :: "pylib \<Rightarrow> deployment \<Rightarrow> string \<Rightarrow> string \<Rightarrow> exc + plan" where
  "make_plan lib d environment owner =
     (let p = \<lparr>pl_deployment = d, pl_environment = environment, pl_revision = None,
        pl_identity = ''harnest-'' @ take 14 (sha256_hex lib (owner @ '':'' @ dy_name d @ '':'' @ environment))\<rparr>
      in sum_bind (map_each (\<lambda>(name, _). environment_for p name None) (pl_workloads p)) (\<lambda>_. Inr p))"


section \<open>The preview\<close>

definition opt_text :: "string option \<Rightarrow> pyval" where
  "opt_text x = (case x of None \<Rightarrow> PyNone | Some s \<Rightarrow> PyStr s)"

definition text_list :: "string list \<Rightarrow> pyval" where
  "text_list xs = PyList (map PyStr xs)"

definition component_summary :: "plan \<Rightarrow> string \<Rightarrow> exc + pyval" where
  "component_summary p name = (let d = pl_deployment p in
     case (map_of (dy_agents d) name, map_of (dy_services d) name) of
       (None, Some (ConnectedService t provides url variable)) \<Rightarrow>
         Inr (object_of [(''name'', PyStr name), (''mode'', PyStr ''connect''),
           (''variables'', text_list (sort (map fst (service_bindings (ConnectedService t provides url variable))))), (''managed'', PyBool False)])
     | (None, None) \<Rightarrow> Inl (KeyError name)
     | _ \<Rightarrow> (case map_of (pl_workloads p) name of None \<Rightarrow> Inl (KeyError name)
         | Some node \<Rightarrow> sum_bind (environment_for p name None) (\<lambda>env.
             Inr (object_of [(''name'', PyStr name), (''mode'', PyStr ''provision''), (''image'', PyStr (cn_image node)),
               (''kind'', PyStr (if map_of (dy_agents d) name \<noteq> None then ''agent'' else ''service'')),
               (''replicas'', PyInt (agent_replicas d name)), (''persistent'', PyBool (cn_persistence node \<noteq> None)),
               (''depends_on'', text_list (cn_depends_on node)), (''variables'', text_list (sort (map fst env)))]))))"

definition opt_int :: "int option \<Rightarrow> pyval" where
  "opt_int x = (case x of None \<Rightarrow> PyNone | Some i \<Rightarrow> PyInt i)"

text \<open>A Kubernetes target has a context and a namespace (\<open>check_graph\<close>).\<close>

definition target_text :: "string option \<Rightarrow> string" where
  "target_text x = (case x of None \<Rightarrow> [] | Some s \<Rightarrow> s)"

text \<open>\<^verbatim>\<open>_port\<close> of the access instructions.\<close>

definition port_access :: "render_lib \<Rightarrow> plan \<Rightarrow> string \<Rightarrow> string \<Rightarrow> int \<Rightarrow> int option \<Rightarrow> pyval" where
  "port_access rn p name label container_port host_port =
     (let d = pl_deployment p;
          protocol = (if label = ''http'' \<or> label = ''https'' then Some label else None);
          entry = (\<lambda>scope host port url command note. object_of [(''name'', PyStr label), (''container_port'', PyInt container_port),
            (''protocol'', opt_text protocol), (''url'', opt_text url), (''host'', opt_text host), (''port'', opt_int port),
            (''command'', opt_text command), (''scope'', PyStr scope), (''note'', PyStr note)]);
          url_at = (\<lambda>n. map_option (\<lambda>pr. pr @ ''://127.0.0.1:'' @ int_text n) protocol) in
      if dy_backend d = Local then (case host_port of
          None \<Rightarrow> entry ''internal'' None None None None
            (''Publish the '' @ label @ '' port in harnest-deployment.yaml to access it from this computer.'')
        | Some n \<Rightarrow> entry ''local'' (Some ''127.0.0.1'') (Some n) (url_at n) None
            ''Available on the computer running Docker. Routes and authentication are defined by the agent image.'')
      else let local_port = (if container_port \<ge> 1024 then container_port else 10000 + container_port) in
        entry ''port-forward'' (Some ''127.0.0.1'') (Some local_port) (url_at local_port)
          (Some (rn_quote rn [''kubectl'', ''--context'', target_text (dy_context d), ''--namespace'', target_text (dy_namespace d), ''port-forward'',
             ''--address'', ''127.0.0.1'', ''service/'' @ resource_name p name, int_text local_port @ '':'' @ int_text container_port]))
          (''Run this command on your computer and keep it running, then use the local endpoint. Change the left-hand port '' @
           ''if it is occupied. No public ingress is created.''))"

definition agent_access :: "render_lib \<Rightarrow> plan \<Rightarrow> pyval" where
  "agent_access rn p = PyList (map (\<lambda>(name, a). let c = ag_container a;
       ports = map (\<lambda>(label, port). port_access rn p name label port (map_of (cn_publish c) label)) (cn_ports c) in
     object_of [(''name'', PyStr name), (''ports'', PyList ports),
       (''note'', PyStr (if ports = [] then ''No network ports configured. Add a port to expose this agent.'' else ''''))])
     (dy_agents (pl_deployment p)))"

definition backend_text :: "backend_kind \<Rightarrow> string" where
  "backend_text b = (case b of Local \<Rightarrow> ''local'' | Kubernetes \<Rightarrow> ''kubernetes'')"

definition plan_summary :: "render_lib \<Rightarrow> plan \<Rightarrow> exc + (string \<times> pyval) list" where
  "plan_summary rn p = (let d = pl_deployment p in sum_bind (deployment_order d) (\<lambda>order.
     sum_bind (map_each (component_summary p) order) (\<lambda>components.
       Inr [(''name'', PyStr (dy_name d)), (''identity'', PyStr (pl_identity p)), (''release'', opt_text (dy_release d)),
         (''environment'', PyStr (pl_environment p)), (''backend'', PyStr (backend_text (dy_backend d))),
         (''context'', opt_text (dy_context d)), (''namespace'', opt_text (dy_namespace d)), (''components'', PyList components),
         (''access'', agent_access rn p), (''data_policy'', PyStr ''Persistent volumes are retained when workloads are removed.'')])))"

end
