(* ===== verification/Provision_Render.thy ===== *)
theory Provision_Render
  imports Provision_Plan
begin

text \<open>
  The documents the backends get (\<^verbatim>\<open>provisioner_plan.py\<close>): the Compose project and the Kubernetes objects of
  one component. A value of a dictionary literal keeps the order of the code.
\<close>

section \<open>Compose\<close>

text \<open>\<^verbatim>\<open>_escape_compose\<close>: only values, never keys.\<close>

definition escape_text :: "string \<Rightarrow> string" where
  "escape_text s = concat (map (\<lambda>c. if c = CHR ''$'' then ''$$'' else [c]) s)"

fun escape_compose :: "pyval \<Rightarrow> pyval" where
  "escape_compose (PyStr s) = PyStr (escape_text s)"
| "escape_compose (PyList vs) = PyList (map escape_compose vs)"
| "escape_compose (PyDict kvs) = PyDict (map (\<lambda>(k, v). (k, escape_compose v)) kvs)"
| "escape_compose v = v"

definition no_i :: "string \<Rightarrow> string" where
  "no_i s = filter (\<lambda>c. c \<noteq> CHR ''i'') s"

definition seconds_text :: "int \<Rightarrow> pyval" where
  "seconds_text n = PyStr (int_text n @ ''s'')"

definition volume_name :: "plan \<Rightarrow> string \<Rightarrow> string" where
  "volume_name p name = resource_name p name @ ''-data''"

text \<open>The entry of one workload, with its volume if it has one.\<close>

definition compose_container :: "pylib \<Rightarrow> plan \<Rightarrow> string \<Rightarrow> container \<Rightarrow> (string \<times> string) list \<Rightarrow> (string \<times> pyval) list" where
  "compose_container lib p name node env =
     (let h = cn_healthcheck node; n = cn_network node in
      [(''image'', PyStr (cn_image node)), (''restart'', PyStr ''unless-stopped''),
       (''labels'', text_dict (merge_dicts (plan_labels p (Some name)) (workload_revision p name node))),
       (''environment'', text_dict env),
       (''ports'', text_list (map (\<lambda>(port, host). ''127.0.0.1:'' @ int_text host @ '':'' @
          (case map_of (cn_ports node) port of None \<Rightarrow> [] | Some n \<Rightarrow> int_text n)) (cn_publish node))),
       (''healthcheck'', object_of [(''test'', text_list (''CMD'' # hk_command h)), (''interval'', seconds_text (hk_interval h)),
          (''timeout'', seconds_text (hk_timeout h)), (''retries'', PyInt (hk_retries h))]),
       (''deploy'', object_of [(''replicas'', PyInt (agent_replicas (pl_deployment p) name)), (''resources'', object_of [(''limits'', object_of
          [(''cpus'', PyStr (float_repr lib (rl_cpus (cn_resources node)))), (''memory'', PyStr (no_i (rl_memory (cn_resources node))))])])]),
       (''depends_on'', object_of (map (\<lambda>k. (k, object_of [(''condition'', PyStr ''service_healthy'')]))
          (first_seen (filter (\<lambda>k. map_of (pl_workloads p) k \<noteq> None) (cn_depends_on node)))))] @
      (if cn_command node = [] then [] else [(''command'', text_list (cn_command node))]) @
      (if nt_hosts n = [] then [] else [(''extra_hosts'', text_dict (nt_hosts n))]) @
      (if nt_dns n = [] then [] else [(''dns'', text_list (nt_dns n))]) @
      (case cn_persistence node of None \<Rightarrow> []
       | Some v \<Rightarrow> [(''volumes'', text_list [volume_name p name @ '':'' @ pe_mount v])]))"

definition compose_volumes :: "plan \<Rightarrow> (string \<times> pyval) list" where
  "compose_volumes p = List.map_filter (\<lambda>(name, node). map_option (\<lambda>_. (volume_name p name,
     object_of [(''name'', PyStr (volume_name p name)), (''labels'', text_dict (plan_labels p (Some name)))])) (cn_persistence node)) (pl_workloads p)"

definition compose :: "pylib \<Rightarrow> plan \<Rightarrow> secrets \<Rightarrow> exc + pyval" where
  "compose lib p secrets = sum_bind
     (map_each (\<lambda>(name, node). map_sum id (\<lambda>env. (name, object_of (compose_container lib p name node env)))
        (environment_for p name (Some secrets))) (pl_workloads p))
     (\<lambda>services. Inr (escape_compose (object_of [(''name'', PyStr (pl_identity p)), (''services'', object_of services),
        (''volumes'', object_of (compose_volumes p))])))"


section \<open>Kubernetes\<close>

definition kube_object :: "plan \<Rightarrow> string \<Rightarrow> string \<Rightarrow> string \<Rightarrow> (string \<times> pyval) list \<Rightarrow> pyval" where
  "kube_object p version kind name attributes = object_of ([(''apiVersion'', PyStr version), (''kind'', PyStr kind),
     (''metadata'', object_of [(''name'', PyStr (resource_name p name)), (''namespace'', opt_text (dy_namespace (pl_deployment p))),
        (''labels'', text_dict (plan_labels p (Some name))), (''annotations'', text_dict (revision_metadata p))])] @ attributes)"

definition secret_object :: "render_lib \<Rightarrow> plan \<Rightarrow> string \<Rightarrow> (string \<times> string) list \<Rightarrow> pyval" where
  "secret_object rn p name env = kube_object p ''v1'' ''Secret'' name
     [(''type'', PyStr ''Opaque''), (''data'', text_dict (map (\<lambda>(k, v). (k, rn_base64 rn v)) env))]"

definition volume_object :: "plan \<Rightarrow> string \<Rightarrow> persistence \<Rightarrow> pyval" where
  "volume_object p name v = kube_object p ''v1'' ''PersistentVolumeClaim'' name [(''spec'', object_of
     ([(''accessModes'', text_list [''ReadWriteOnce'']),
       (''resources'', object_of [(''requests'', object_of [(''storage'', PyStr (pe_size v))])])] @
      (case pe_storage_class v of None \<Rightarrow> [] | Some c \<Rightarrow> [(''storageClassName'', PyStr c)])))]"

definition service_object :: "plan \<Rightarrow> string \<Rightarrow> container \<Rightarrow> pyval" where
  "service_object p name node = kube_object p ''v1'' ''Service'' name [(''spec'', object_of
     [(''selector'', text_dict (plan_labels p (Some name))),
      (''ports'', PyList (map (\<lambda>(port, n). object_of [(''name'', PyStr port), (''port'', PyInt n), (''targetPort'', PyInt n)]) (cn_ports node)))])]"

definition pod_network :: "container \<Rightarrow> (string \<times> pyval) list" where
  "pod_network node = (let n = cn_network node in
     (if nt_hosts n = [] then [] else [(''hostAliases'', PyList (map (\<lambda>(host, address).
        object_of [(''ip'', PyStr address), (''hostnames'', text_list [host])]) (sort_key fst (nt_hosts n))))]) @
     (if nt_dns n = [] then [] else [(''dnsPolicy'', PyStr ''None''), (''dnsConfig'', object_of [(''nameservers'', text_list (nt_dns n))])]))"

definition container_object :: "pylib \<Rightarrow> plan \<Rightarrow> string \<Rightarrow> container \<Rightarrow> string list \<Rightarrow> pyval" where
  "container_object lib p name node variables = (let h = cn_healthcheck node in object_of
     ([(''name'', PyStr name), (''image'', PyStr (cn_image node)),
       (''env'', PyList (map (\<lambda>key. object_of [(''name'', PyStr key), (''valueFrom'', object_of [(''secretKeyRef'',
          object_of [(''name'', PyStr (resource_name p name)), (''key'', PyStr key)])])]) (sort variables))),
       (''readinessProbe'', object_of [(''exec'', object_of [(''command'', text_list (hk_command h))]),
          (''periodSeconds'', PyInt (hk_interval h)), (''timeoutSeconds'', PyInt (hk_timeout h)), (''failureThreshold'', PyInt (hk_retries h))]),
       (''resources'', object_of [(''limits'', object_of [(''cpu'', PyStr (float_repr lib (rl_cpus (cn_resources node)))),
          (''memory'', PyStr (rl_memory (cn_resources node)))])]),
       (''securityContext'', object_of [(''allowPrivilegeEscalation'', PyBool False), (''capabilities'', object_of [(''drop'', text_list [''NET_RAW''])])])] @
      (if cn_command node = [] then [] else [(''args'', text_list (cn_command node))]) @
      (case cn_persistence node of None \<Rightarrow> []
       | Some v \<Rightarrow> [(''volumeMounts'', PyList [object_of [(''name'', PyStr ''data''), (''mountPath'', PyStr (pe_mount v))]])])))"

definition workload_object :: "pylib \<Rightarrow> render_lib \<Rightarrow> plan \<Rightarrow> string \<Rightarrow> container \<Rightarrow> (string \<times> string) list \<Rightarrow> pyval" where
  "workload_object lib rn p name node env =
     (let revision = sha256_hex lib (rn_pairs rn (sort env));
          pod = [(''automountServiceAccountToken'', PyBool False), (''containers'', PyList [container_object lib p name node (map fst env)])] @
            pod_network node @
            (case cn_persistence node of None \<Rightarrow> []
             | Some _ \<Rightarrow> [(''volumes'', PyList [object_of [(''name'', PyStr ''data''),
                 (''persistentVolumeClaim'', object_of [(''claimName'', PyStr (resource_name p name))])]])])
      in kube_object p ''apps/v1'' ''Deployment'' name [(''spec'', object_of
        [(''replicas'', PyInt (agent_replicas (pl_deployment p) name)),
         (''selector'', object_of [(''matchLabels'', text_dict (plan_labels p (Some name)))]),
         (''strategy'', object_of [(''type'', PyStr (if cn_persistence node \<noteq> None then ''Recreate'' else ''RollingUpdate''))]),
         (''template'', object_of [(''metadata'', object_of [(''labels'', text_dict (plan_labels p (Some name))),
            (''annotations'', text_dict (merge_dicts [(''harnest.dev/environment'', revision)] (workload_revision p name node)))]),
            (''spec'', object_of pod)])])])"

definition kubernetes :: "pylib \<Rightarrow> render_lib \<Rightarrow> plan \<Rightarrow> string \<Rightarrow> secrets \<Rightarrow> exc + (string \<times> pyval) list" where
  "kubernetes lib rn p name secrets = (case map_of (pl_workloads p) name of
     None \<Rightarrow> Inl (KeyError name)
   | Some node \<Rightarrow> sum_bind (environment_for p name (Some secrets)) (\<lambda>env. Inr
       ([(''Secret'', secret_object rn p name env)] @
        (case cn_persistence node of None \<Rightarrow> [] | Some v \<Rightarrow> [(''PersistentVolumeClaim'', volume_object p name v)]) @
        (if cn_ports node = [] then [] else [(''Service'', service_object p name node)]) @
        [(''Deployment'', workload_object lib rn p name node env)])))"

end
