(* ===== verification/Provision_Backend.thy ===== *)
theory Provision_Backend
  imports Provision_Render
begin

text \<open>
  What the provisioner does to a backend (\<^verbatim>\<open>Backend\<close> of \<^verbatim>\<open>provisioner.py\<close>, \<^verbatim>\<open>provisioner_images.py\<close>): every call
  of \<^verbatim>\<open>docker\<close> or \<^verbatim>\<open>kubectl\<close> is a command with its arguments and its input. The process runner is a
  parameter that answers from the commands run so far, so that the world behind it may be anything;
  the commands are recorded in order, the one that fails included.
\<close>

section \<open>Commands\<close>

record command =
  cm_argv :: "string list"
  cm_payload :: pyval

type_synonym runner = "command list \<Rightarrow> command \<Rightarrow> exc + string"

type_synonym 'a io = "command list \<Rightarrow> (command list, 'a) outcome"

definition io_ret :: "'a \<Rightarrow> 'a io" where
  "io_ret v h = (Inr v, h)"

definition io_lift :: "exc + 'a \<Rightarrow> 'a io" where
  "io_lift x h = (x, h)"

definition io_bind :: "'a io \<Rightarrow> ('a \<Rightarrow> 'b io) \<Rightarrow> 'b io" where
  "io_bind m f h = (case m h of (Inl e, h') \<Rightarrow> (Inl e, h') | (Inr v, h') \<Rightarrow> f v h')"

definition io_run :: "runner \<Rightarrow> string list \<Rightarrow> pyval \<Rightarrow> string io" where
  "io_run rn argv payload h = (let c = \<lparr>cm_argv = argv, cm_payload = payload\<rparr> in (rn h c, h @ [c]))"

fun io_each :: "('a \<Rightarrow> unit io) \<Rightarrow> 'a list \<Rightarrow> unit io" where
  "io_each f [] = io_ret ()"
| "io_each f (x # xs) = io_bind (f x) (\<lambda>_. io_each f xs)"

text \<open>The library around a process: JSON parsing of its output, and the rendering library.\<close>

record process_lib =
  px_lib :: pylib
  px_render :: render_lib
  px_json :: "string \<Rightarrow> exc + pyval"

definition mapping_get :: "pyval \<Rightarrow> string \<Rightarrow> pyval \<Rightarrow> exc + pyval" where
  "mapping_get v key default_value = (case v of
     PyDict kvs \<Rightarrow> Inr (case map_of kvs (PyStr key) of None \<Rightarrow> default_value | Some x \<Rightarrow> x)
   | _ \<Rightarrow> Inl (AttributeError ''get''))"

definition not_owned :: exc where
  "not_owned = ProvisionError ''Refusing to modify a resource not owned by this deployment''"


section \<open>Kubernetes\<close>

definition kubectl_args :: "plan \<Rightarrow> string list \<Rightarrow> string list" where
  "kubectl_args p arguments = [''kubectl'', ''--context'', target_text (dy_context (pl_deployment p)), ''--namespace'',
     target_text (dy_namespace (pl_deployment p)), ''--request-timeout=30s''] @ arguments"

definition kubectl :: "runner \<Rightarrow> plan \<Rightarrow> string list \<Rightarrow> pyval \<Rightarrow> string io" where
  "kubectl rn p arguments payload = io_run rn (kubectl_args p arguments) payload"

definition get_args :: "string \<Rightarrow> string \<Rightarrow> string list" where
  "get_args kind name = [''get'', kind, name, ''--ignore-not-found'', ''-o'', ''json'']"

text \<open>What an answer to \<^verbatim>\<open>get\<close> says: absent, owned, or a raise.\<close>

definition answer_owned :: "process_lib \<Rightarrow> plan \<Rightarrow> string \<Rightarrow> exc + bool" where
  "answer_owned px p text = (if blank text then Inr False
     else sum_bind (px_json px text) (\<lambda>item. sum_bind (mapping_get item ''metadata'' (PyDict [])) (\<lambda>metadata.
       sum_bind (mapping_get metadata ''labels'' (PyDict [])) (\<lambda>labels. sum_bind (mapping_get labels owner_label PyNone) (\<lambda>owner.
         if owner \<noteq> PyStr (pl_identity p) then Inl not_owned else Inr True)))))"

definition owned_resource :: "process_lib \<Rightarrow> runner \<Rightarrow> plan \<Rightarrow> string \<Rightarrow> string \<Rightarrow> bool io" where
  "owned_resource px rn p kind name = io_bind (kubectl rn p (get_args kind name) PyNone) (\<lambda>text. io_lift (answer_owned px p text))"

definition apply_args :: "string list" where
  "apply_args = [''apply'', ''--server-side'', ''--field-manager=harnest-provisioner'', ''-f'', ''-'']"

definition io_unit :: "'a io \<Rightarrow> unit io" where
  "io_unit m = io_bind m (\<lambda>_. io_ret ())"

definition apply_component :: "process_lib \<Rightarrow> runner \<Rightarrow> plan \<Rightarrow> secrets \<Rightarrow> string \<Rightarrow> unit io" where
  "apply_component px rn p secrets name = io_bind (io_lift (kubernetes (px_lib px) (px_render px) p name secrets)) (\<lambda>objects.
     io_bind (io_each (\<lambda>(kind, _). io_unit (owned_resource px rn p kind (resource_name p name))) objects) (\<lambda>_.
     io_bind (io_each (\<lambda>(_, object). io_unit (kubectl rn p apply_args object)) objects) (\<lambda>_.
     io_bind (kubectl rn p [''rollout'', ''status'', ''deployment/'' @ resource_name p name, ''--timeout=600s''] PyNone) (\<lambda>_.
       case map_of (pl_workloads p) name of
         Some node \<Rightarrow> if cn_ports node \<noteq> [] then io_ret ()
           else io_bind (owned_resource px rn p ''Service'' (resource_name p name)) (\<lambda>owned.
             if owned then io_unit (kubectl rn p [''delete'', ''Service'', resource_name p name, ''--ignore-not-found''] PyNone) else io_ret ())
       | None \<Rightarrow> io_ret ()))))"

datatype control_operation = Stop | Remove

definition control_kinds :: "control_operation \<Rightarrow> string list" where
  "control_kinds operation = (case operation of Stop \<Rightarrow> [''Deployment''] | Remove \<Rightarrow> [''Deployment'', ''Service'', ''Secret''])"

definition control_args :: "control_operation \<Rightarrow> string \<Rightarrow> string \<Rightarrow> string list" where
  "control_args operation kind resource = (case operation of
     Stop \<Rightarrow> [''scale'', ''deployment'', resource, ''--replicas=0'']
   | Remove \<Rightarrow> [''delete'', kind, resource, ''--ignore-not-found'', ''--wait=true'', ''--timeout=60s''])"

definition control_component :: "process_lib \<Rightarrow> runner \<Rightarrow> plan \<Rightarrow> control_operation \<Rightarrow> string \<Rightarrow> unit io" where
  "control_component px rn p operation name = io_each (\<lambda>kind.
     io_bind (owned_resource px rn p kind (resource_name p name)) (\<lambda>owned.
       if \<not> owned then io_ret () else io_unit (kubectl rn p (control_args operation kind (resource_name p name)) PyNone))) (control_kinds operation)"


section \<open>Compose\<close>

text \<open>\<^verbatim>\<open>str.splitlines()\<close> on Latin-1; a carriage return before a line feed ends one line.\<close>

definition line_break :: "char \<Rightarrow> bool" where
  "line_break c \<longleftrightarrow> of_char c \<in> {10, 11, 12, 13, 28, 29, 30, 133 :: nat}"

fun splitlines_from :: "string \<Rightarrow> string \<Rightarrow> string list" where
  "splitlines_from line [] = (if line = [] then [] else [line])"
| "splitlines_from line (c # cs) = (if line_break c
     then line # (case cs of d # ds \<Rightarrow> if c = CHR 0x0D \<and> d = CHR 0x0A then splitlines_from [] ds else splitlines_from [] cs | [] \<Rightarrow> [])
     else splitlines_from (line @ [c]) cs)"

definition splitlines :: "string \<Rightarrow> string list" where
  "splitlines s = splitlines_from [] s"

definition compose_args :: "plan \<Rightarrow> string list \<Rightarrow> string list" where
  "compose_args p arguments = [''docker'', ''compose'', ''--env-file'', ''/dev/null'', ''--project-name'', pl_identity p, ''--file'', ''-''] @ arguments"

definition run_compose :: "runner \<Rightarrow> plan \<Rightarrow> string list \<Rightarrow> pyval \<Rightarrow> string io" where
  "run_compose rn p arguments document = io_run rn (compose_args p arguments) document"

text \<open>\<^verbatim>\<open>_check_labels\<close>, of the labels of one container or volume.\<close>

definition check_labels :: "plan \<Rightarrow> pyval \<Rightarrow> exc + unit" where
  "check_labels p labels = (if \<not> truthy labels then Inl not_owned
     else sum_bind (mapping_get labels owner_label PyNone) (\<lambda>owner. if owner \<noteq> PyStr (pl_identity p) then Inl not_owned else Inr ()))"

definition check_labels_text :: "process_lib \<Rightarrow> plan \<Rightarrow> string \<Rightarrow> exc + unit" where
  "check_labels_text px p text = sum_bind (px_json px text) (check_labels p)"

definition check_local_volume :: "process_lib \<Rightarrow> runner \<Rightarrow> plan \<Rightarrow> string \<Rightarrow> unit io" where
  "check_local_volume px rn p name = io_bind
     (io_run rn [''docker'', ''volume'', ''ls'', ''--filter'', ''name='' @ volume_name p name, ''--format'', ''{{.Name}}''] PyNone) (\<lambda>text.
     if volume_name p name \<in> set (splitlines text)
     then io_bind (io_run rn [''docker'', ''volume'', ''inspect'', ''--format'', ''{{json .Labels}}'', volume_name p name] PyNone)
       (\<lambda>labels. io_lift (check_labels_text px p labels))
     else io_ret ())"

definition check_local_ownership :: "process_lib \<Rightarrow> runner \<Rightarrow> plan \<Rightarrow> unit io" where
  "check_local_ownership px rn p = io_bind
     (io_run rn [''docker'', ''ps'', ''--all'', ''--filter'', ''label=com.docker.compose.project='' @ pl_identity p, ''--format'', ''{{.ID}}''] PyNone) (\<lambda>text.
     io_bind (let identities = split_spaces text in if identities = [] then io_ret ()
       else io_bind (io_run rn ([''docker'', ''inspect'', ''--format'', ''{{json .Config.Labels}}''] @ identities) PyNone)
         (\<lambda>labels. io_each (\<lambda>line. io_lift (check_labels_text px p line)) (splitlines labels))) (\<lambda>_.
     io_each (\<lambda>(name, node). if cn_persistence node = None then io_ret () else check_local_volume px rn p name) (pl_workloads p)))"

definition compose_inventory :: "plan \<Rightarrow> (string \<times> string) list \<Rightarrow> pyval" where
  "compose_inventory p resources = object_of [(''name'', PyStr (pl_identity p)),
     (''services'', object_of (map (\<lambda>(name, image). (name, object_of [(''image'', PyStr image)])) resources))]"


section \<open>Apply and control\<close>

definition backend_control :: "process_lib \<Rightarrow> runner \<Rightarrow> plan \<Rightarrow> control_operation \<Rightarrow> (string \<times> string) list \<Rightarrow> unit io" where
  "backend_control px rn p operation resources =
     (if resources = [] then io_ret ()
      else if dy_backend (pl_deployment p) = Local
      then io_bind (check_local_ownership px rn p) (\<lambda>_. io_unit (run_compose rn p
        (case operation of Stop \<Rightarrow> [''stop''] | Remove \<Rightarrow> [''down'', ''--remove-orphans'']) (compose_inventory p resources)))
      else io_each (\<lambda>(name, _). control_component px rn p operation name) resources)"

text \<open>The iteration over the set of obsolete names is in whatever order Python gives: \<open>arrange\<close>.\<close>

definition backend_apply :: "process_lib \<Rightarrow> runner \<Rightarrow> (string list \<Rightarrow> string list) \<Rightarrow> plan \<Rightarrow> secrets \<Rightarrow> (string \<times> string) list \<Rightarrow> unit io" where
  "backend_apply px rn arrange p secrets previous =
     (if dy_backend (pl_deployment p) = Local
      then io_bind (check_local_ownership px rn p) (\<lambda>_.
        if pl_workloads p \<noteq> [] then io_bind (io_lift (compose (px_lib px) p secrets)) (\<lambda>document.
          io_unit (run_compose rn p [''up'', ''--detach'', ''--wait'', ''--wait-timeout'', ''600'', ''--remove-orphans''] document))
        else if previous \<noteq> [] then backend_control px rn p Remove previous
        else io_ret ())
      else io_bind (io_lift (deployment_order (pl_deployment p))) (\<lambda>order.
        io_bind (io_each (\<lambda>name. if map_of (pl_workloads p) name \<noteq> None then apply_component px rn p secrets name else io_ret ()) order) (\<lambda>_.
          backend_control px rn p Remove (List.map_filter (\<lambda>name. map_option (Pair name) (map_of previous name))
            (arrange (map fst (filter (\<lambda>(name, _). map_of (pl_workloads p) name = None) previous)))))))"


section \<open>Status\<close>

definition item_get :: "pyval \<Rightarrow> string \<Rightarrow> exc + pyval" where
  "item_get item key = mapping_get item key PyNone"

definition local_component :: "pyval \<Rightarrow> exc + pyval" where
  "local_component item = sum_bind (item_get item ''Service'') (\<lambda>name. sum_bind (item_get item ''State'') (\<lambda>state.
     sum_bind (item_get item ''Health'') (\<lambda>health. Inr (object_of [(''name'', name), (''state'', state), (''health'', health)]))))"

text \<open>\<^verbatim>\<open>item["metadata"]["name"]\<close> raises on an absent key.\<close>

definition dict_at :: "pyval \<Rightarrow> string \<Rightarrow> exc + pyval" where
  "dict_at v key = (case v of
     PyDict kvs \<Rightarrow> (case map_of kvs (PyStr key) of None \<Rightarrow> Inl (KeyError key) | Some x \<Rightarrow> Inr x)
   | _ \<Rightarrow> Inl (TypeError ''subscript''))"

definition kube_component :: "pyval \<Rightarrow> exc + pyval" where
  "kube_component item = sum_bind (dict_at item ''metadata'') (\<lambda>metadata. sum_bind (dict_at metadata ''name'') (\<lambda>name.
     sum_bind (mapping_get item ''spec'' (PyDict [])) (\<lambda>spec. sum_bind (mapping_get spec ''replicas'' (PyInt 0)) (\<lambda>desired.
     sum_bind (mapping_get item ''status'' (PyDict [])) (\<lambda>status. sum_bind (mapping_get status ''readyReplicas'' (PyInt 0)) (\<lambda>ready.
       Inr (object_of [(''name'', name), (''desired'', desired), (''ready'', ready)])))))))"

definition list_items :: "pyval \<Rightarrow> exc + pyval list" where
  "list_items v = (case v of PyList vs \<Rightarrow> Inr vs | _ \<Rightarrow> Inl (TypeError ''iterable''))"

definition backend_status :: "process_lib \<Rightarrow> runner \<Rightarrow> plan \<Rightarrow> (string \<times> string) list \<Rightarrow> pyval list io" where
  "backend_status px rn p resources =
     (if resources = [] then io_ret []
      else if dy_backend (pl_deployment p) = Local
      then io_bind (run_compose rn p [''ps'', ''--all'', ''--format'', ''json''] (compose_inventory p resources)) (\<lambda>raw.
        let text = strip raw in io_lift (sum_bind
          (if take 1 text = ''['' then sum_bind (px_json px text) list_items else map_each (px_json px) (splitlines text))
          (map_each local_component)))
      else io_bind (kubectl rn p [''get'', ''deployments'', ''-l'', owner_label @ ''='' @ pl_identity p, ''-o'', ''json''] PyNone) (\<lambda>text.
        io_lift (sum_bind (px_json px text) (\<lambda>v. sum_bind (mapping_get v ''items'' (PyList [])) (\<lambda>items.
          sum_bind (list_items items) (map_each kube_component))))))"


section \<open>Pinned images\<close>

definition hex_char :: "char \<Rightarrow> bool" where
  "hex_char c \<longleftrightarrow> digit c \<or> CHR ''a'' \<le> c \<and> c \<le> CHR ''f''"

definition digest_pattern :: "string \<Rightarrow> bool" where
  "digest_pattern s = (case strip_prefix ''sha256:'' s of None \<Rightarrow> False | Some r \<Rightarrow> length r = 64 \<and> list_all hex_char r)"

text \<open>\<^verbatim>\<open>img.rsplit("@", 1)[1]\<close>\<close>

definition after_last_at :: "string \<Rightarrow> string" where
  "after_last_at s = rev (takeWhile (\<lambda>c. c \<noteq> CHR ''@'') (rev s))"

definition local_image :: "process_lib \<Rightarrow> runner \<Rightarrow> string \<Rightarrow> string io" where
  "local_image px rn img h =
     (let args = [''docker'', ''image'', ''inspect'', ''--format'', ''{{json .Id}}'', img];
          inspect = io_run rn args PyNone;
          pulled = io_bind (io_run rn [''docker'', ''pull'', img] PyNone) (\<lambda>_. inspect);
          identity = (\<lambda>text. case px_json px text of
             Inl _ \<Rightarrow> Inl (ProvisionError ''Cannot resolve the local image ID'')
           | Inr (PyStr s) \<Rightarrow> if digest_pattern s then Inr s else Inl (ProvisionError ''Docker returned an invalid image ID'')
           | Inr _ \<Rightarrow> Inl (ProvisionError ''Docker returned an invalid image ID'')) in
      case inspect h of
        (Inr text, h1) \<Rightarrow> (identity text, h1)
      | (Inl (ProvisionError _), h1) \<Rightarrow> io_bind pulled (\<lambda>text. io_lift (identity text)) h1
      | (Inl e, h1) \<Rightarrow> (Inl e, h1))"

text \<open>\<^verbatim>\<open>except (ValueError, KeyError, TypeError)\<close>, which a failure of the process is as well.\<close>

definition unresolved :: "exc \<Rightarrow> exc" where
  "unresolved e = (case e of
     AttributeError m \<Rightarrow> AttributeError m
   | _ \<Rightarrow> ProvisionError ''Cannot resolve image digest; configure a registry image@sha256:digest'')"

definition registry_image :: "process_lib \<Rightarrow> runner \<Rightarrow> string \<Rightarrow> string io" where
  "registry_image px rn img h =
     (case io_run rn [''docker'', ''buildx'', ''imagetools'', ''inspect'', ''--format'', ''{{json .Manifest}}'', img] PyNone h of
        (Inl e, h1) \<Rightarrow> (Inl (unresolved e), h1)
      | (Inr text, h1) \<Rightarrow> ((case sum_bind (px_json px text) (\<lambda>v. dict_at v ''digest'') of
            Inl e \<Rightarrow> Inl (unresolved e)
          | Inr (PyStr s) \<Rightarrow> if digest_pattern s then Inr (img @ ''@'' @ s) else Inl (ProvisionError ''Registry returned an invalid image digest'')
          | Inr _ \<Rightarrow> Inl (ProvisionError ''Registry returned an invalid image digest'')), h1))"

definition pin_image :: "process_lib \<Rightarrow> runner \<Rightarrow> string \<Rightarrow> backend_kind \<Rightarrow> string io" where
  "pin_image px rn img backend =
     (if CHR ''@'' \<in> set img
      then (if digest_pattern (after_last_at img) then io_ret img
            else io_lift (Inl (ProvisionError ''Image references must use a valid sha256 digest'')))
      else if digest_pattern img
      then (if backend \<noteq> Local then io_lift (Inl (ProvisionError ''Kubernetes requires registry image digests, not local image IDs'')) else io_ret img)
      else if backend = Local then local_image px rn img
      else registry_image px rn img)"

text \<open>Every workload in turn; an image already resolved is not resolved again.\<close>

fun pin_images :: "process_lib \<Rightarrow> runner \<Rightarrow> backend_kind \<Rightarrow> (string \<times> container) list \<Rightarrow> (string \<times> string) list \<Rightarrow> (string \<times> string \<times> string) list io" where
  "pin_images px rn backend [] resolved = io_ret []"
| "pin_images px rn backend ((name, node) # rest) resolved =
     io_bind (case map_of resolved (cn_image node) of Some i \<Rightarrow> io_ret i | None \<Rightarrow> pin_image px rn (cn_image node) backend) (\<lambda>img.
     io_bind (pin_images px rn backend rest (AList.update (cn_image node) img resolved)) (\<lambda>images.
       io_ret ((name, cn_image node, img) # images)))"

definition set_image :: "(string \<times> string \<times> string) list \<Rightarrow> string \<Rightarrow> container \<Rightarrow> container" where
  "set_image images name c = (case map_of images name of None \<Rightarrow> c | Some (_, img) \<Rightarrow> c\<lparr>cn_image := img\<rparr>)"

definition pinned_deployment :: "(string \<times> string \<times> string) list \<Rightarrow> deployment \<Rightarrow> deployment" where
  "pinned_deployment images d = d
     \<lparr>dy_services := map (\<lambda>(k, s). (k, case s of
        ProvisionedService t provides c \<Rightarrow> ProvisionedService t provides (set_image images k c) | _ \<Rightarrow> s)) (dy_services d),
      dy_agents := map (\<lambda>(k, a). (k, a\<lparr>ag_container := set_image images k (ag_container a)\<rparr>)) (dy_agents d)\<rparr>"

definition pin_plan :: "process_lib \<Rightarrow> runner \<Rightarrow> plan \<Rightarrow> (plan \<times> (string \<times> string \<times> string) list) io" where
  "pin_plan px rn p = io_bind (pin_images px rn (dy_backend (pl_deployment p)) (pl_workloads p) []) (\<lambda>images.
     io_bind (io_lift (make_plan (px_lib px) (pinned_deployment images (pl_deployment p)) (pl_environment p) '''')) (\<lambda>pinned.
       io_ret (pinned\<lparr>pl_identity := pl_identity p\<rparr>, images)))"

end
