(* ===== verification/Provision_Safety.thy ===== *)
theory Provision_Safety
  imports Provision_Backend
begin

text \<open>
  What the backend commands are: whatever the processes answer, every command of an operation is a
  query, or changes a resource that has just been found absent or owned.
\<close>

section \<open>Runs of commands\<close>

text \<open>
  From a history that satisfies \<open>P\<close>, the run only appends, each command it adds is allowed after the
  commands before it, and a result leaves a history that satisfies \<open>R\<close>.
\<close>

definition runs :: "(command list \<Rightarrow> command \<Rightarrow> bool) \<Rightarrow> (command list \<Rightarrow> bool) \<Rightarrow> 'a io \<Rightarrow> ('a \<Rightarrow> command list \<Rightarrow> bool) \<Rightarrow> bool" where
  "runs ok P m R \<longleftrightarrow> (\<forall>h. P h \<longrightarrow> prefix h (snd (m h)) \<and>
     (\<forall>i. length h \<le> i \<longrightarrow> i < length (snd (m h)) \<longrightarrow> ok (take i (snd (m h))) (snd (m h) ! i)) \<and>
     (case fst (m h) of Inl _ \<Rightarrow> True | Inr v \<Rightarrow> R v (snd (m h))))"

definition always :: "'a \<Rightarrow> command list \<Rightarrow> bool" where
  "always _ _ = True"

lemma runs_ret: "(\<And>h. P h \<Longrightarrow> R v h) \<Longrightarrow> runs ok P (io_ret v) R"
  by (simp add: runs_def io_ret_def)

lemma runs_lift: "(\<And>h v. P h \<Longrightarrow> x = Inr v \<Longrightarrow> R v h) \<Longrightarrow> runs ok P (io_lift x) R"
  by (auto simp: runs_def io_lift_def split: sum.split)

lemma runs_run:
  assumes "\<And>h. P h \<Longrightarrow> ok h \<lparr>cm_argv = argv, cm_payload = payload\<rparr>"
    and "\<And>h v. P h \<Longrightarrow> rn h \<lparr>cm_argv = argv, cm_payload = payload\<rparr> = Inr v \<Longrightarrow> R v (h @ [\<lparr>cm_argv = argv, cm_payload = payload\<rparr>])"
  shows "runs ok P (io_run rn argv payload) R"
  using assms by (auto simp: runs_def io_run_def Let_def nth_append less_Suc_eq split: sum.split)

lemma runs_bind:
  assumes m: "runs ok P m R" and f: "\<And>v. runs ok (R v) (f v) S"
  shows "runs ok P (io_bind m f) S"
  unfolding runs_def
proof (intro allI impI)
  fix h assume P: "P h"
  obtain x h1 where mh: "m h = (x, h1)" by (cases "m h")
  note r1 = m [unfolded runs_def, rule_format, OF P, unfolded mh, simplified]
  show "prefix h (snd (io_bind m f h)) \<and>
     (\<forall>i. length h \<le> i \<longrightarrow> i < length (snd (io_bind m f h)) \<longrightarrow> ok (take i (snd (io_bind m f h))) (snd (io_bind m f h) ! i)) \<and>
     (case fst (io_bind m f h) of Inl _ \<Rightarrow> True | Inr v \<Rightarrow> S v (snd (io_bind m f h)))"
  proof (cases x)
    case (Inl e)
    with r1 show ?thesis by (simp add: io_bind_def mh)
  next
    case (Inr v)
    then have "R v h1" using r1 by simp
    note r2 = f [of v, unfolded runs_def, rule_format, OF this]
    have b: "io_bind m f h = f v h1" by (simp add: io_bind_def mh Inr)
    have "ok (take i (snd (f v h1))) (snd (f v h1) ! i)" if "length h \<le> i" "i < length (snd (f v h1))" for i
    proof (cases "i < length h1")
      case True
      then have "take i (snd (f v h1)) = take i h1" "snd (f v h1) ! i = h1 ! i"
        using r2 by (auto simp: prefix_def nth_append)
      then show ?thesis using r1 that True by simp
    next
      case False
      then show ?thesis using r2 that by simp
    qed
    moreover have "prefix h (snd (f v h1))" using r1 r2 by (auto intro: prefix_order.trans)
    ultimately show ?thesis using conjunct2 [OF conjunct2 [OF r2]] unfolding b by blast
  qed
qed

lemma runs_weaken:
  assumes "runs ok P m R" "\<And>h. Q h \<Longrightarrow> P h" "\<And>v h. R v h \<Longrightarrow> S v h"
  shows "runs ok Q m S"
  using assms unfolding runs_def by (fastforce split: sum.splits)

lemma runs_mono:
  assumes "runs ok P m R" "\<And>h c. ok h c \<Longrightarrow> ok' h c"
  shows "runs ok' P m R"
  using assms unfolding runs_def by blast

text \<open>A condition that further commands keep.\<close>

definition kept :: "(command list \<Rightarrow> bool) \<Rightarrow> bool" where
  "kept P \<longleftrightarrow> (\<forall>h h'. prefix h h' \<longrightarrow> P h \<longrightarrow> P h')"

lemma runs_kept:
  assumes "runs ok P m R" "kept P"
  shows "runs ok P m (\<lambda>v h. P h \<and> R v h)"
  using assms unfolding runs_def kept_def by (fastforce split: sum.splits)

lemma runs_each:
  assumes "\<And>x. x \<in> set xs \<Longrightarrow> runs ok P (f x) (\<lambda>_. P)"
  shows "runs ok P (io_each f xs) (\<lambda>_. P)"
  using assms
proof (induction xs)
  case (Cons x xs)
  then show ?case by (auto intro: runs_bind)
qed (simp add: runs_ret)

text \<open>A loop that establishes, of each element, a condition that lasts.\<close>

lemma runs_each_collect:
  assumes "\<And>x. x \<in> set xs \<Longrightarrow> runs ok P (f x) (\<lambda>_. Q x)" "kept P" "\<And>x. kept (Q x)"
  shows "runs ok P (io_each f xs) (\<lambda>_ h. \<forall>x \<in> set xs. Q x h)"
  using assms(1)
proof (induction xs)
  case (Cons x xs)
  have a: "runs ok P (f x) (\<lambda>_ h. P h \<and> Q x h)" using Cons.prems assms(2) by (auto intro: runs_kept)
  have "runs ok P (io_each f xs) (\<lambda>_ h. \<forall>x \<in> set xs. Q x h)" using Cons by simp
  then have "runs ok (\<lambda>h. P h \<and> Q x h) (io_each f xs) (\<lambda>_ h. \<forall>x \<in> set xs. Q x h)" by (rule runs_weaken) auto
  moreover have "kept (\<lambda>h. P h \<and> Q x h)" using assms(2,3) unfolding kept_def by blast
  ultimately have "runs ok (\<lambda>h. P h \<and> Q x h) (io_each f xs) (\<lambda>_ h. (P h \<and> Q x h) \<and> (\<forall>x \<in> set xs. Q x h))" by (rule runs_kept)
  then have "runs ok (\<lambda>h. P h \<and> Q x h) (io_each f xs) (\<lambda>_ h. \<forall>y \<in> set (x # xs). Q y h)" by (rule runs_weaken) auto
  with a show ?case by (auto intro: runs_bind)
qed (simp add: runs_ret)

lemma runs_unit: "runs ok P m (\<lambda>_. Q) \<Longrightarrow> runs ok P (io_unit m) (\<lambda>_. Q)"
  unfolding io_unit_def by (erule runs_bind) (simp add: runs_ret)


section \<open>Kubernetes commands\<close>

text \<open>The resource was absent or owned when it was looked at, at some point of the history, or right before.\<close>

definition was_checked :: "process_lib \<Rightarrow> runner \<Rightarrow> plan \<Rightarrow> string \<Rightarrow> string \<Rightarrow> command list \<Rightarrow> bool" where
  "was_checked px rn p kind name h \<longleftrightarrow> (\<exists>h0 b. fst (owned_resource px rn p kind name h0) = Inr b \<and> prefix (snd (owned_resource px rn p kind name h0)) h)"

definition just_owned :: "process_lib \<Rightarrow> runner \<Rightarrow> plan \<Rightarrow> string \<Rightarrow> string \<Rightarrow> command list \<Rightarrow> bool" where
  "just_owned px rn p kind name h \<longleftrightarrow> (\<exists>h0. owned_resource px rn p kind name h0 = (Inr True, h))"

definition kube_query :: "plan \<Rightarrow> command \<Rightarrow> bool" where
  "kube_query p c \<longleftrightarrow> (\<exists>args. cm_argv c = kubectl_args p args \<and> hd args \<in> {''get'', ''rollout''})"

definition object_field :: "pyval \<Rightarrow> string \<Rightarrow> pyval option" where
  "object_field v key = (case v of PyDict kvs \<Rightarrow> map_of kvs (PyStr key) | _ \<Rightarrow> None)"

text \<open>An object is applied whose resource was checked; a workload is deleted or scaled right after it proved to be owned.\<close>

definition kube_apply :: "process_lib \<Rightarrow> runner \<Rightarrow> plan \<Rightarrow> command list \<Rightarrow> command \<Rightarrow> bool" where
  "kube_apply px rn p h c \<longleftrightarrow> (\<exists>kind name metadata. cm_argv c = kubectl_args p apply_args \<and> object_field (cm_payload c) ''kind'' = Some (PyStr kind) \<and>
        object_field (cm_payload c) ''metadata'' = Some metadata \<and> object_field metadata ''name'' = Some (PyStr (resource_name p name)) \<and>
        was_checked px rn p kind (resource_name p name) h)"

definition kube_withdraw :: "process_lib \<Rightarrow> runner \<Rightarrow> plan \<Rightarrow> command list \<Rightarrow> command \<Rightarrow> bool" where
  "kube_withdraw px rn p h c \<longleftrightarrow> (\<exists>kind name. cm_argv c \<in> {kubectl_args p (control_args Stop kind (resource_name p name)), kubectl_args p (control_args Remove kind (resource_name p name)),
          kubectl_args p [''delete'', kind, resource_name p name, ''--ignore-not-found'']} \<and>
        kind \<in> {''Deployment'', ''Service'', ''Secret''} \<and> just_owned px rn p kind (resource_name p name) h)"

definition kube_allowed :: "process_lib \<Rightarrow> runner \<Rightarrow> plan \<Rightarrow> command list \<Rightarrow> command \<Rightarrow> bool" where
  "kube_allowed px rn p h c \<longleftrightarrow> kube_query p c \<or> kube_apply px rn p h c \<or> kube_withdraw px rn p h c"

lemma kube_allowed_get: "kube_allowed px rn p h \<lparr>cm_argv = kubectl_args p (get_args kind name), cm_payload = x\<rparr>"
  by (auto simp: kube_allowed_def kube_query_def get_args_def)

lemma owned_runs:
  "runs (kube_allowed px rn p) P (owned_resource px rn p kind name)
     (\<lambda>b h. was_checked px rn p kind name h \<and> (b \<longrightarrow> just_owned px rn p kind name h))"
proof -
  have "owned_resource px rn p kind name h = (sum_bind (rn h c) (answer_owned px p), h @ [c])"
    if "c = \<lparr>cm_argv = kubectl_args p (get_args kind name), cm_payload = PyNone\<rparr>" for h c
    by (simp add: that owned_resource_def io_bind_def kubectl_def io_run_def io_lift_def Let_def split: sum.split)
  then have e: "owned_resource px rn p kind name h = (sum_bind (rn h c) (answer_owned px p), h @ [c])"
    if "c = \<lparr>cm_argv = kubectl_args p (get_args kind name), cm_payload = PyNone\<rparr>" for h c
    using that by blast
  show ?thesis
    unfolding runs_def
  proof (intro allI impI)
    fix h
    define c where "c = \<lparr>cm_argv = kubectl_args p (get_args kind name), cm_payload = PyNone\<rparr>"
    note eq = e [OF c_def, of h]
    have last: "was_checked px rn p kind name (h @ [c]) \<and> (b \<longrightarrow> just_owned px rn p kind name (h @ [c]))"
      if "sum_bind (rn h c) (answer_owned px p) = Inr b" for b
    proof -
      have o: "owned_resource px rn p kind name h = (Inr b, h @ [c])" using that eq by simp
      have "was_checked px rn p kind name (h @ [c])"
        unfolding was_checked_def by (rule exI [of _ h], rule exI [of _ b]) (simp add: o)
      moreover have "just_owned px rn p kind name (h @ [c])" if b
        unfolding just_owned_def by (rule exI [of _ h]) (use o that in simp)
      ultimately show ?thesis by blast
    qed
    have "kube_allowed px rn p (take i (h @ [c])) ((h @ [c]) ! i)" if "length h \<le> i" "i < length (h @ [c])" for i
      using that kube_allowed_get [of px rn p h kind name PyNone, folded c_def] by (simp add: nth_append less_Suc_eq)
    moreover have "case sum_bind (rn h c) (answer_owned px p) of Inl _ \<Rightarrow> True
        | Inr b \<Rightarrow> was_checked px rn p kind name (h @ [c]) \<and> (b \<longrightarrow> just_owned px rn p kind name (h @ [c]))"
      using last by (cases "sum_bind (rn h c) (answer_owned px p)") simp_all
    ultimately show "prefix h (snd (owned_resource px rn p kind name h)) \<and>
       (\<forall>i. length h \<le> i \<longrightarrow> i < length (snd (owned_resource px rn p kind name h)) \<longrightarrow>
         kube_allowed px rn p (take i (snd (owned_resource px rn p kind name h))) (snd (owned_resource px rn p kind name h) ! i)) \<and>
       (case fst (owned_resource px rn p kind name h) of Inl _ \<Rightarrow> True
        | Inr b \<Rightarrow> was_checked px rn p kind name (snd (owned_resource px rn p kind name h)) \<and>
            (b \<longrightarrow> just_owned px rn p kind name (snd (owned_resource px rn p kind name h))))"
      unfolding eq fst_conv snd_conv by (intro conjI allI impI) simp_all
  qed
qed

lemma kept_checked: "kept (was_checked px rn p kind name)"
  unfolding kept_def was_checked_def by (blast intro: prefix_order.trans)

lemma kept_True: "kept (\<lambda>h. True)"
  by (simp add: kept_def)

text \<open>A change right after the resource was found to be owned.\<close>

lemma owned_then:
  assumes "kind \<in> {''Deployment'', ''Service'', ''Secret''}"
    and "args \<in> {control_args Stop kind (resource_name p name), control_args Remove kind (resource_name p name),
      [''delete'', kind, resource_name p name, ''--ignore-not-found'']}"
  shows "runs (kube_allowed px rn p) P (io_bind (owned_resource px rn p kind (resource_name p name))
     (\<lambda>owned. if owned then io_unit (kubectl rn p args PyNone) else io_ret ())) (\<lambda>_ _. True)"
proof (rule runs_bind [OF owned_runs])
  fix owned
  show "runs (kube_allowed px rn p) (\<lambda>h. was_checked px rn p kind (resource_name p name) h \<and> (owned \<longrightarrow> just_owned px rn p kind (resource_name p name) h))
     (if owned then io_unit (kubectl rn p args PyNone) else io_ret ()) (\<lambda>_ _. True)"
  proof (cases owned)
    case True
    have "kube_allowed px rn p h \<lparr>cm_argv = kubectl_args p args, cm_payload = PyNone\<rparr>" if "just_owned px rn p kind (resource_name p name) h" for h
    proof -
      have "kube_withdraw px rn p h \<lparr>cm_argv = kubectl_args p args, cm_payload = PyNone\<rparr>"
        unfolding kube_withdraw_def by (rule exI [of _ kind], rule exI [of _ name]) (use assms that in auto)
      then show ?thesis by (simp add: kube_allowed_def)
    qed
    then have "runs (kube_allowed px rn p) (\<lambda>h. was_checked px rn p kind (resource_name p name) h \<and> (owned \<longrightarrow> just_owned px rn p kind (resource_name p name) h))
        (kubectl rn p args PyNone) (\<lambda>_ _. True)"
      unfolding kubectl_def using True by (intro runs_run) auto
    with True show ?thesis by (simp add: runs_unit)
  qed (simp add: runs_ret)
qed

lemma control_component_runs: "runs (kube_allowed px rn p) (\<lambda>_. True) (control_component px rn p operation name) (\<lambda>_ _. True)"
  unfolding control_component_def
proof (rule runs_each)
  fix kind assume k: "kind \<in> set (control_kinds operation)"
  have eq: "(\<lambda>owned. if \<not> owned then io_ret () else io_unit (kubectl rn p (control_args operation kind (resource_name p name)) PyNone)) =
      (\<lambda>owned. if owned then io_unit (kubectl rn p (control_args operation kind (resource_name p name)) PyNone) else io_ret ())"
    by auto
  show "runs (kube_allowed px rn p) (\<lambda>_. True) (io_bind (owned_resource px rn p kind (resource_name p name))
     (\<lambda>owned. if \<not> owned then io_ret () else io_unit (kubectl rn p (control_args operation kind (resource_name p name)) PyNone))) (\<lambda>_ _. True)"
    unfolding eq by (rule owned_then) (use k in \<open>cases operation; auto simp: control_kinds_def\<close>)+
qed

text \<open>Every object of a component says which resource it is.\<close>

lemma kubernetes_objects:
  assumes "kubernetes lib rn p name secrets = Inr objects" "(kind, object) \<in> set objects"
  shows "object_field object ''kind'' = Some (PyStr kind) \<and>
    (\<exists>m. object_field object ''metadata'' = Some m \<and> object_field m ''name'' = Some (PyStr (resource_name p name)))"
proof -
  have "object_field (kube_object p version kind name attributes) ''kind'' = Some (PyStr kind) \<and>
    (\<exists>m. object_field (kube_object p version kind name attributes) ''metadata'' = Some m \<and> object_field m ''name'' = Some (PyStr (resource_name p name)))"
    for version kind attributes
    by (simp add: kube_object_def object_field_def object_of_def)
  with assms show ?thesis
    by (auto simp: kubernetes_def sum_bind_Inr secret_object_def volume_object_def service_object_def workload_object_def Let_def
        split: option.splits if_splits)
qed

lemma apply_component_runs: "runs (kube_allowed px rn p) (\<lambda>_. True) (apply_component px rn p secrets name) (\<lambda>_ _. True)"
  unfolding apply_component_def
proof (rule runs_bind, rule runs_lift [where R = "\<lambda>objects _. kubernetes (px_lib px) (px_render px) p name secrets = Inr objects"])
  fix objects
  let ?ok = "kube_allowed px rn p" and ?k = "kubernetes (px_lib px) (px_render px) p name secrets = Inr objects"
  let ?checked = "\<lambda>h. \<forall>x \<in> set objects. was_checked px rn p (fst x) (resource_name p name) h"
  have checks: "runs ?ok (\<lambda>_. ?k) (io_each (\<lambda>(kind, _). io_unit (owned_resource px rn p kind (resource_name p name))) objects) (\<lambda>_ h. ?k \<and> ?checked h)"
  proof -
    have "runs ?ok (\<lambda>_. ?k) (io_each (\<lambda>(kind, _). io_unit (owned_resource px rn p kind (resource_name p name))) objects) (\<lambda>_ h. ?checked h)"
    proof (rule runs_each_collect)
      show "runs ?ok (\<lambda>_. ?k) (case x of (kind, _) \<Rightarrow> io_unit (owned_resource px rn p kind (resource_name p name)))
          (\<lambda>_. was_checked px rn p (fst x) (resource_name p name))" for x
        by (cases x, simp, rule runs_unit, rule runs_weaken [OF owned_runs]) auto
    qed (simp_all add: kept_checked kept_def [of "\<lambda>_. kubernetes (px_lib px) (px_render px) p name secrets = Inr objects"])
    from runs_kept [OF this] show ?thesis by (simp add: kept_def)
  qed
  have applies: "runs ?ok (\<lambda>h. ?k \<and> ?checked h) (io_each (\<lambda>(_, object). io_unit (kubectl rn p apply_args object)) objects) (\<lambda>_ h. ?k \<and> ?checked h)"
  proof (rule runs_each)
    fix x assume x: "x \<in> set objects"
    obtain kind object where xo: "x = (kind, object)" by (cases x)
    have "?ok h \<lparr>cm_argv = kubectl_args p apply_args, cm_payload = object\<rparr>" if "?k \<and> ?checked h" for h
    proof -
      from kubernetes_objects [of "px_lib px" "px_render px" p name secrets objects kind object] that x xo
      obtain m where "object_field object ''kind'' = Some (PyStr kind)" "object_field object ''metadata'' = Some m"
        "object_field m ''name'' = Some (PyStr (resource_name p name))" by auto
      moreover have "was_checked px rn p kind (resource_name p name) h" using that x xo by auto
      ultimately show ?thesis unfolding kube_allowed_def kube_apply_def by auto
    qed
    moreover have "?k \<and> ?checked (h @ [c])" if "?k \<and> ?checked h" for h c
      using that kept_checked unfolding kept_def by (metis prefixI)
    ultimately have "runs ?ok (\<lambda>h. ?k \<and> ?checked h) (kubectl rn p apply_args object) (\<lambda>_ h. ?k \<and> ?checked h)"
      unfolding kubectl_def by (intro runs_run) blast+
    then show "runs ?ok (\<lambda>h. ?k \<and> ?checked h) (case x of (_, object) \<Rightarrow> io_unit (kubectl rn p apply_args object)) (\<lambda>_ h. ?k \<and> ?checked h)"
      by (simp add: xo runs_unit)
  qed
  have rollout: "runs ?ok P (kubectl rn p [''rollout'', ''status'', ''deployment/'' @ resource_name p name, ''--timeout=600s''] PyNone) (\<lambda>_ _. True)" for P
    unfolding kubectl_def by (rule runs_run) (auto simp: kube_allowed_def kube_query_def)
  have service: "runs ?ok (\<lambda>_. True) (case map_of (pl_workloads p) name of
         Some node \<Rightarrow> if cn_ports node \<noteq> [] then io_ret ()
           else io_bind (owned_resource px rn p ''Service'' (resource_name p name)) (\<lambda>owned.
             if owned then io_unit (kubectl rn p [''delete'', ''Service'', resource_name p name, ''--ignore-not-found''] PyNone) else io_ret ())
       | None \<Rightarrow> io_ret ()) (\<lambda>_ _. True)"
    by (auto split: option.split intro: runs_ret owned_then)
  show "runs ?ok (\<lambda>_. ?k) (io_bind (io_each (\<lambda>(kind, _). io_unit (owned_resource px rn p kind (resource_name p name))) objects) (\<lambda>_.
     io_bind (io_each (\<lambda>(_, object). io_unit (kubectl rn p apply_args object)) objects) (\<lambda>_.
     io_bind (kubectl rn p [''rollout'', ''status'', ''deployment/'' @ resource_name p name, ''--timeout=600s''] PyNone) (\<lambda>_.
       case map_of (pl_workloads p) name of
         Some node \<Rightarrow> if cn_ports node \<noteq> [] then io_ret ()
           else io_bind (owned_resource px rn p ''Service'' (resource_name p name)) (\<lambda>owned.
             if owned then io_unit (kubectl rn p [''delete'', ''Service'', resource_name p name, ''--ignore-not-found''] PyNone) else io_ret ())
       | None \<Rightarrow> io_ret ())))) (\<lambda>_ _. True)"
    by (rule runs_bind [OF checks], rule runs_bind [OF applies], rule runs_bind [OF rollout], rule service)
qed simp


section \<open>Compose commands\<close>

text \<open>The containers and the volumes of the project have just been found to be this deployment's.\<close>

definition project_owned :: "process_lib \<Rightarrow> runner \<Rightarrow> plan \<Rightarrow> command list \<Rightarrow> bool" where
  "project_owned px rn p h \<longleftrightarrow> (\<exists>h0. check_local_ownership px rn p h0 = (Inr (), h))"

definition docker_query :: "command \<Rightarrow> bool" where
  "docker_query c \<longleftrightarrow> take 2 (cm_argv c) \<in> {[''docker'', ''ps''], [''docker'', ''inspect'']} \<or>
     take 3 (cm_argv c) \<in> {[''docker'', ''volume'', ''ls''], [''docker'', ''volume'', ''inspect'']}"

definition compose_change :: "process_lib \<Rightarrow> runner \<Rightarrow> plan \<Rightarrow> command list \<Rightarrow> command \<Rightarrow> bool" where
  "compose_change px rn p h c \<longleftrightarrow> (\<exists>args. cm_argv c = compose_args p args \<and> hd args \<in> {''up'', ''stop'', ''down''}) \<and> project_owned px rn p h"

definition local_allowed :: "process_lib \<Rightarrow> runner \<Rightarrow> plan \<Rightarrow> command list \<Rightarrow> command \<Rightarrow> bool" where
  "local_allowed px rn p h c \<longleftrightarrow> docker_query c \<or> compose_change px rn p h c"

lemma query_runs: "docker_query \<lparr>cm_argv = argv, cm_payload = payload\<rparr> \<Longrightarrow> runs (local_allowed px rn p) P (io_run rn argv payload) (\<lambda>_ _. True)"
  by (rule runs_run) (simp_all add: local_allowed_def)

lemma lift_runs: "runs ok P (io_lift x) (\<lambda>_ _. True)"
  by (rule runs_lift) simp

lemma ret_runs: "runs ok P (io_ret x) (\<lambda>_ _. True)"
  by (rule runs_ret) simp

lemma check_volume_runs: "runs (local_allowed px rn p) (\<lambda>_. True) (check_local_volume px rn p name) (\<lambda>_ _. True)"
proof -
  have "runs (local_allowed px rn p) (\<lambda>_. True) (io_bind (io_run rn [''docker'', ''volume'', ''inspect'', ''--format'', ''{{json .Labels}}'', volume_name p name] PyNone)
       (\<lambda>labels. io_lift (check_labels_text px p labels))) (\<lambda>_ _. True)"
    by (rule runs_bind [OF query_runs lift_runs]) (simp add: docker_query_def)
  then show ?thesis
    unfolding check_local_volume_def
    by (intro runs_bind [OF query_runs]) (auto simp: docker_query_def numeral_3_eq_3 numeral_2_eq_2 intro: ret_runs)
qed

lemma check_local_runs: "runs (local_allowed px rn p) P (check_local_ownership px rn p) (\<lambda>_. project_owned px rn p)"
proof -
  let ?ok = "local_allowed px rn p"
  have lines: "runs ?ok (\<lambda>_. True) (io_each (\<lambda>line. io_lift (check_labels_text px p line)) ls) (\<lambda>_ _. True)" for ls
    by (rule runs_each) (rule lift_runs)
  have inspect: "runs ?ok (\<lambda>_. True) (let identities = split_spaces t in if identities = [] then io_ret ()
       else io_bind (io_run rn ([''docker'', ''inspect'', ''--format'', ''{{json .Config.Labels}}''] @ identities) PyNone)
         (\<lambda>labels. io_each (\<lambda>line. io_lift (check_labels_text px p line)) (splitlines labels))) (\<lambda>_ _. True)" for t
    unfolding Let_def by (auto intro!: ret_runs runs_bind [OF query_runs lines] simp: docker_query_def numeral_2_eq_2)
  have volumes: "runs ?ok (\<lambda>_. True) (io_each (\<lambda>(name, node). if cn_persistence node = None then io_ret () else check_local_volume px rn p name)
      (pl_workloads p)) (\<lambda>_ _. True)"
    by (rule runs_each) (auto intro: ret_runs check_volume_runs)
  have r: "runs ?ok P (check_local_ownership px rn p) (\<lambda>_ _. True)"
    unfolding check_local_ownership_def
    by (rule runs_bind [OF query_runs], simp add: docker_query_def numeral_2_eq_2, rule runs_bind [OF inspect volumes])
  have "project_owned px rn p (snd (check_local_ownership px rn p h))" if "fst (check_local_ownership px rn p h) = Inr ()" for h
    using that unfolding project_owned_def by (metis prod.collapse)
  with r show ?thesis unfolding runs_def by (auto split: sum.splits)
qed

lemma compose_runs:
  assumes "hd args \<in> {''up'', ''stop'', ''down''}"
  shows "runs (local_allowed px rn p) (project_owned px rn p) (run_compose rn p args document) (\<lambda>_ _. True)"
  unfolding run_compose_def by (rule runs_run) (use assms in \<open>auto simp: local_allowed_def compose_change_def\<close>)


section \<open>Operations\<close>

definition backend_allowed :: "process_lib \<Rightarrow> runner \<Rightarrow> plan \<Rightarrow> command list \<Rightarrow> command \<Rightarrow> bool" where
  "backend_allowed px rn p h c \<longleftrightarrow> (case dy_backend (pl_deployment p) of
     Local \<Rightarrow> local_allowed px rn p h c | Kubernetes \<Rightarrow> kube_allowed px rn p h c)"

lemma backend_control_runs: "runs (backend_allowed px rn p) (\<lambda>_. True) (backend_control px rn p operation resources) (\<lambda>_ _. True)"
proof (cases "dy_backend (pl_deployment p)")
  case Local
  have ok: "backend_allowed px rn p = local_allowed px rn p" by (simp add: fun_eq_iff backend_allowed_def Local)
  have "runs (local_allowed px rn p) (\<lambda>_. True) (io_bind (check_local_ownership px rn p) (\<lambda>_. io_unit (run_compose rn p
        (case operation of Stop \<Rightarrow> [''stop''] | Remove \<Rightarrow> [''down'', ''--remove-orphans'']) (compose_inventory p resources)))) (\<lambda>_ _. True)"
    by (rule runs_bind [OF check_local_runs], rule runs_unit, rule compose_runs) (cases operation; simp)
  then show ?thesis by (simp add: ok backend_control_def Local ret_runs)
next
  case Kubernetes
  have ok: "backend_allowed px rn p = kube_allowed px rn p" by (simp add: fun_eq_iff backend_allowed_def Kubernetes)
  have "runs (kube_allowed px rn p) (\<lambda>_. True) (io_each (\<lambda>(name, _). control_component px rn p operation name) resources) (\<lambda>_ _. True)"
    by (rule runs_each) (auto intro: control_component_runs)
  then show ?thesis by (simp add: ok backend_control_def Kubernetes ret_runs)
qed

lemma backend_apply_runs: "runs (backend_allowed px rn p) (\<lambda>_. True) (backend_apply px rn arrange p secrets previous) (\<lambda>_ _. True)"
proof (cases "dy_backend (pl_deployment p)")
  case Local
  have ok: "backend_allowed px rn p = local_allowed px rn p" by (simp add: fun_eq_iff backend_allowed_def Local)
  let ?up = "io_bind (io_lift (compose (px_lib px) p secrets)) (\<lambda>document.
          io_unit (run_compose rn p [''up'', ''--detach'', ''--wait'', ''--wait-timeout'', ''600'', ''--remove-orphans''] document))"
  have up: "runs (local_allowed px rn p) (project_owned px rn p) ?up (\<lambda>_ _. True)"
  proof (rule runs_bind)
    show "runs (local_allowed px rn p) (project_owned px rn p) (io_lift (compose (px_lib px) p secrets)) (\<lambda>_. project_owned px rn p)"
      by (rule runs_lift)
    show "runs (local_allowed px rn p) (project_owned px rn p)
        (io_unit (run_compose rn p [''up'', ''--detach'', ''--wait'', ''--wait-timeout'', ''600'', ''--remove-orphans''] document)) (\<lambda>_ _. True)" for document
      by (rule runs_unit, rule compose_runs) simp
  qed
  have remove: "runs (local_allowed px rn p) (project_owned px rn p) (backend_control px rn p Remove previous) (\<lambda>_ _. True)"
    using backend_control_runs [of px rn p Remove previous] unfolding ok by (rule runs_weaken) auto
  have "runs (local_allowed px rn p) (project_owned px rn p) (if pl_workloads p \<noteq> [] then ?up
        else if previous \<noteq> [] then backend_control px rn p Remove previous else io_ret ()) (\<lambda>_ _. True)"
    using up remove by (simp add: ret_runs)
  from runs_bind [OF check_local_runs this] show ?thesis by (simp add: ok backend_apply_def Local)
next
  case Kubernetes
  have ok: "backend_allowed px rn p = kube_allowed px rn p" by (simp add: fun_eq_iff backend_allowed_def Kubernetes)
  have each: "runs (kube_allowed px rn p) (\<lambda>_. True)
      (io_each (\<lambda>name. if map_of (pl_workloads p) name \<noteq> None then apply_component px rn p secrets name else io_ret ()) order) (\<lambda>_ _. True)" for order
    by (rule runs_each) (auto intro: apply_component_runs ret_runs)
  have control: "runs (kube_allowed px rn p) (\<lambda>_. True) (backend_control px rn p Remove r) (\<lambda>_ _. True)" for r
    using backend_control_runs [of px rn p Remove r] unfolding ok .
  have "runs (kube_allowed px rn p) (\<lambda>_. True) (backend_apply px rn arrange p secrets previous) (\<lambda>_ _. True)"
    unfolding backend_apply_def
    by (simp only: Kubernetes backend_kind.distinct if_False, rule runs_bind [OF lift_runs], rule runs_bind [OF each control])
  then show ?thesis by (simp add: ok)
qed

end
