(* ===== verification/Provision_Control.thy ===== *)
theory Provision_Control
  imports Provision_Backend
begin

text \<open>
  The journal of a deployment and the operations over it (\<^verbatim>\<open>provisioner_history.py\<close>, \<^verbatim>\<open>Provisioner\<close> of
  \<^verbatim>\<open>provisioner.py\<close>). An operation runs under the lock of the deployment: it recovers, validates, records
  its attempt, runs the backend and commits the outcome. A process that dies leaves what it had
  committed. The rows hold JSON text; the summary and the images are kept as values here, since they are read back
  as they were written, and the snapshot as the text, because its fingerprint is checked. The text
  of a deployment and its validation (pydantic) are parameters. The import of a journal older than the database,
  its file permissions and a failure of SQLite itself are not modelled.
\<close>

section \<open>The journal\<close>

datatype mutation = ApplyDeployment | RollbackDeployment | ControlDeployment control_operation

datatype journal_status = JApplying | JInterrupted | JReady | JFailed | JStopped | JRemoved | JPending control_operation

record intent =
  it_summary :: "(string \<times> pyval) list"
  it_resources :: "(string \<times> string) list"
  it_desired :: "(string \<times> string) list option"
  it_active :: "int option"

record journal = intent +
  jo_attempt :: "int option"
  jo_operation :: mutation
  jo_status :: journal_status

datatype attempt_status = Applying | Succeeded | Failed | Interrupted

record revision_row =
  rv_number :: int
  rv_created :: string
  rv_completed :: "string option"
  rv_operation :: mutation
  rv_status :: attempt_status
  rv_rollback_of :: "int option"
  rv_fingerprint :: string
  rv_snapshot :: string
  rv_summary :: "(string \<times> pyval) list"
  rv_images :: "(string \<times> string \<times> string) list"

text \<open>\<open>db_last\<close> is the number \<^verbatim>\<open>AUTOINCREMENT\<close> gave last. No journal is \<^verbatim>\<open>{}\<close>.\<close>

record revision_db =
  db_state :: "journal option"
  db_rows :: "revision_row list"
  db_last :: int

definition empty_db :: revision_db where
  "empty_db = \<lparr>db_state = None, db_rows = [], db_last = 0\<rparr>"

definition recover_row :: "string \<Rightarrow> revision_row \<Rightarrow> revision_row" where
  "recover_row now r = (if rv_status r = Applying then r\<lparr>rv_status := Interrupted, rv_completed := Some now\<rparr> else r)"

definition recover_db :: "string \<Rightarrow> revision_db \<Rightarrow> revision_db" where
  "recover_db now db = db\<lparr>db_rows := map (recover_row now) (db_rows db),
     db_state := map_option (\<lambda>s. if jo_status s = JApplying then s\<lparr>jo_status := JInterrupted\<rparr> else s) (db_state db)\<rparr>"

text \<open>How a deployment becomes the text of a snapshot, and what validating that text gives.\<close>

record codec =
  cd_dump :: "deployment \<Rightarrow> string"
  cd_load :: "string \<Rightarrow> exc + deployment"

definition begin_attempt :: "process_lib \<Rightarrow> codec \<Rightarrow> string \<Rightarrow> plan \<Rightarrow> (string \<times> pyval) list \<Rightarrow> intent \<Rightarrow> mutation \<Rightarrow>
    (string \<times> string \<times> string) list \<Rightarrow> int option \<Rightarrow> revision_db \<Rightarrow> journal \<times> revision_db" where
  "begin_attempt px cd now p summary i operation images rollback_of db =
     (let snapshot = cd_dump cd (pl_deployment p); n = db_last db + 1;
          row = \<lparr>rv_number = n, rv_created = now, rv_completed = None, rv_operation = operation, rv_status = Applying,
            rv_rollback_of = rollback_of, rv_fingerprint = sha256_hex (px_lib px) snapshot, rv_snapshot = snapshot,
            rv_summary = summary, rv_images = images\<rparr>;
          state = intent.extend i \<lparr>jo_attempt = Some n, jo_operation = operation, jo_status = JApplying\<rparr>
      in (state, db\<lparr>db_rows := db_rows db @ [row], db_last := n, db_state := Some state\<rparr>))"

definition attempt_outcome :: "journal_status \<Rightarrow> attempt_status option" where
  "attempt_outcome s = (case s of JReady \<Rightarrow> Some Succeeded | JFailed \<Rightarrow> Some Failed | _ \<Rightarrow> None)"

definition deploys :: "mutation \<Rightarrow> bool" where
  "deploys operation = (case operation of ControlDeployment _ \<Rightarrow> False | _ \<Rightarrow> True)"

definition close_row :: "string \<Rightarrow> attempt_status \<Rightarrow> int \<Rightarrow> revision_row \<Rightarrow> revision_row" where
  "close_row now outcome n r = (if rv_number r = n then r\<lparr>rv_status := outcome, rv_completed := Some now\<rparr> else r)"

definition write_state :: "string \<Rightarrow> journal \<Rightarrow> revision_db \<Rightarrow> revision_db" where
  "write_state now state db = (let saved = db\<lparr>db_state := Some state\<rparr> in
     if \<not> deploys (jo_operation state) then saved
     else case (attempt_outcome (jo_status state), jo_attempt state) of
       (Some outcome, Some n) \<Rightarrow> if n \<noteq> 0 then saved\<lparr>db_rows := map (close_row now outcome n) (db_rows db)\<rparr> else saved
     | _ \<Rightarrow> saved)"

definition mutation_text :: "mutation \<Rightarrow> string" where
  "mutation_text operation = (case operation of ApplyDeployment \<Rightarrow> ''apply'' | RollbackDeployment \<Rightarrow> ''rollback''
     | ControlDeployment Stop \<Rightarrow> ''stop'' | ControlDeployment Remove \<Rightarrow> ''remove'')"

definition journal_status_text :: "journal_status \<Rightarrow> string" where
  "journal_status_text s = (case s of JApplying \<Rightarrow> ''applying'' | JInterrupted \<Rightarrow> ''interrupted'' | JReady \<Rightarrow> ''ready'' | JFailed \<Rightarrow> ''failed''
     | JStopped \<Rightarrow> ''stopped'' | JRemoved \<Rightarrow> ''removed'' | JPending Stop \<Rightarrow> ''stop-pending'' | JPending Remove \<Rightarrow> ''remove-pending'')"

definition outcome_text :: "attempt_status \<Rightarrow> string" where
  "outcome_text s = (case s of Applying \<Rightarrow> ''applying'' | Succeeded \<Rightarrow> ''succeeded'' | Failed \<Rightarrow> ''failed'' | Interrupted \<Rightarrow> ''interrupted'')"

text \<open>\<^verbatim>\<open>_metadata\<close>: a row without its snapshot, and with the release of its summary.\<close>

definition images_value :: "(string \<times> string \<times> string) list \<Rightarrow> pyval" where
  "images_value images = object_of (map (\<lambda>(name, requested, resolved).
     (name, object_of [(''requested'', PyStr requested), (''resolved'', PyStr resolved)])) images)"

definition row_metadata :: "revision_row \<Rightarrow> pyval" where
  "row_metadata r = object_of [(''revision'', PyInt (rv_number r)), (''created_at'', PyStr (rv_created r)), (''completed_at'', opt_text (rv_completed r)),
     (''operation'', PyStr (mutation_text (rv_operation r))), (''status'', PyStr (outcome_text (rv_status r))),
     (''rollback_of'', opt_int (rv_rollback_of r)), (''fingerprint'', PyStr (rv_fingerprint r)), (''images'', images_value (rv_images r)),
     (''release'', case map_of (rv_summary r) ''release'' of None \<Rightarrow> PyNone | Some v \<Rightarrow> v)]"

definition history_rows :: "int option \<Rightarrow> revision_db \<Rightarrow> revision_row list" where
  "history_rows before db = rev (sort_key rv_number (filter (\<lambda>r.
     rv_number r < (case before of None \<Rightarrow> 9223372036854775807 | Some b \<Rightarrow> b)) (db_rows db)))"

definition history_page :: "int \<Rightarrow> int option \<Rightarrow> revision_db \<Rightarrow> exc + revision_row list \<times> int option" where
  "history_page limit before db =
     (if \<not> (1 \<le> limit \<and> limit \<le> 100) \<or> (case before of None \<Rightarrow> False | Some b \<Rightarrow> b < 1)
      then Inl (ProvisionError ''History requires a limit from 1 to 100 and a positive revision cursor'')
      else let n = nat limit; rows = take (n + 1) (history_rows before db) in
        Inr (take n rows, if length rows > n then Some (rv_number (rows ! (n - 1))) else None))"

definition load_snapshot :: "process_lib \<Rightarrow> codec \<Rightarrow> int \<Rightarrow> bool \<Rightarrow> revision_db \<Rightarrow> exc + deployment" where
  "load_snapshot px cd revision successful db = (case find (\<lambda>r. rv_number r = revision) (db_rows db) of
     None \<Rightarrow> Inl (ProvisionError ''Deployment revision does not exist'')
   | Some r \<Rightarrow> if successful \<and> rv_status r \<noteq> Succeeded then Inl (ProvisionError ''Rollback requires a successfully deployed revision'')
       else if sha256_hex (px_lib px) (rv_snapshot r) \<noteq> rv_fingerprint r
       then Inl (ProvisionError ''Deployment snapshot does not match its recorded fingerprint'')
       else cd_load cd (rv_snapshot r))"


section \<open>What an operation decides\<close>

definition previous_resources :: "journal option \<Rightarrow> (string \<times> string) list" where
  "previous_resources previous = (case previous of None \<Rightarrow> [] | Some s \<Rightarrow> it_resources s)"

definition target_changed :: "(string \<times> pyval) list \<Rightarrow> (string \<times> pyval) list \<Rightarrow> bool" where
  "target_changed summary recorded \<longleftrightarrow>
     list_ex (\<lambda>key. map_of summary key \<noteq> map_of recorded key) [''identity'', ''backend'', ''context'', ''namespace'']"

definition next_state :: "process_lib \<Rightarrow> plan \<Rightarrow> journal option \<Rightarrow> exc + intent" where
  "next_state px p previous = sum_bind (plan_summary (px_render px) p) (\<lambda>summary.
     if previous_resources previous \<noteq> [] \<and> (case previous of None \<Rightarrow> False | Some s \<Rightarrow> target_changed summary (it_summary s))
     then Inl (ProvisionError ''Remove the previous deployment before changing its name or target'')
     else let desired = map (\<lambda>(name, node). (name, cn_image node)) (pl_workloads p) in
       Inr \<lparr>it_summary = summary, it_resources = merge_dicts (previous_resources previous) desired, it_desired = Some desired,
         it_active = (case previous of None \<Rightarrow> None | Some s \<Rightarrow> it_active s)\<rparr>)"

text \<open>The target of a recorded deployment: the fields of a summary are texts, or null.\<close>

definition summary_text :: "(string \<times> pyval) list \<Rightarrow> string \<Rightarrow> string option" where
  "summary_text summary key = (case map_of summary key of Some (PyStr s) \<Rightarrow> Some s | _ \<Rightarrow> None)"

definition recorded_plan :: "(string \<times> pyval) list \<Rightarrow> plan" where
  "recorded_plan summary = \<lparr>pl_deployment = \<lparr>dy_name = target_text (summary_text summary ''name''), dy_release = None,
       dy_backend = (if summary_text summary ''backend'' = Some ''kubernetes'' then Kubernetes else Local),
       dy_context = summary_text summary ''context'', dy_namespace = summary_text summary ''namespace'', dy_services = [], dy_agents = []\<rparr>,
     pl_environment = target_text (summary_text summary ''environment''), pl_revision = None,
     pl_identity = target_text (summary_text summary ''identity'')\<rparr>"

definition committed_state :: "mutation \<Rightarrow> journal \<Rightarrow> journal" where
  "committed_state operation state = (case operation of
     ControlDeployment Stop \<Rightarrow> state\<lparr>jo_status := JStopped, jo_operation := operation\<rparr>
   | ControlDeployment Remove \<Rightarrow> state\<lparr>jo_status := JRemoved, jo_operation := operation, it_resources := [], it_active := None\<rparr>
   | _ \<Rightarrow> state\<lparr>jo_status := JReady, jo_operation := operation,
       it_resources := (case it_desired state of None \<Rightarrow> [] | Some d \<Rightarrow> d), it_desired := None, it_active := jo_attempt state\<rparr>)"

definition service_persistent :: "service \<Rightarrow> bool" where
  "service_persistent s \<longleftrightarrow> (case container_of s of None \<Rightarrow> False | Some c \<Rightarrow> cn_persistence c \<noteq> None)"

definition persistent_names :: "deployment \<Rightarrow> string list" where
  "persistent_names d = map fst (filter (\<lambda>(_, s). service_persistent s) (dy_services d))"

definition check_persistent_rollback :: "deployment \<Rightarrow> deployment \<Rightarrow> exc option" where
  "check_persistent_rollback current target = require
     (list_all (\<lambda>name. map_of (dy_services current) name = map_of (dy_services target) name) (persistent_names current @ persistent_names target))
     (ProvisionError ''Rollback changes a persistent service; reconcile database compatibility explicitly first'')"


section \<open>Operations\<close>

record provisioner =
  pv_process :: process_lib
  pv_run :: runner
  pv_arrange :: "string list \<Rightarrow> string list"
  pv_codec :: codec
  pv_environment :: string
  pv_root :: string

text \<open>The database of one deployment and the commands run so far.\<close>

type_synonym site = "revision_db \<times> command list"

text \<open>What the request brings from outside: the manifest of the project as loaded, and the secrets.\<close>

datatype request =
    Apply "exc + deployment" secrets
  | Rollback int secrets
  | Control control_operation

text \<open>Either the answer, or an attempt that is journaled and has its backend work to do.\<close>

datatype prepared = Finished "exc + pyval" | Attempt mutation journal "unit io"

record times =
  tm_recovered :: string
  tm_begun :: string
  tm_completed :: string

definition check_environments :: "plan \<Rightarrow> secrets \<Rightarrow> exc + unit" where
  "check_environments p secrets = sum_bind (map_each (\<lambda>(name, _). environment_for p name (Some secrets)) (pl_workloads p)) (\<lambda>_. Inr ())"

definition start_deploy :: "provisioner \<Rightarrow> times \<Rightarrow> plan \<Rightarrow> secrets \<Rightarrow> (string \<times> string \<times> string) list \<Rightarrow> int option \<Rightarrow> site \<Rightarrow> prepared \<times> site" where
  "start_deploy pv t p secrets images rollback_of s = (let previous = db_state (fst s); px = pv_process pv in
     case next_state px p previous of Inl e \<Rightarrow> (Finished (Inl e), s)
   | Inr i \<Rightarrow> (let operation = (if rollback_of = None then ApplyDeployment else RollbackDeployment);
         (state, db) = begin_attempt px (pv_codec pv) (tm_begun t) p (it_summary i) i operation images rollback_of (fst s) in
       (Attempt operation state (backend_apply px (pv_run pv) (pv_arrange pv) (p\<lparr>pl_revision := jo_attempt state\<rparr>) secrets (previous_resources previous)),
        db, snd s)))"

definition prepare_apply :: "provisioner \<Rightarrow> times \<Rightarrow> exc + deployment \<Rightarrow> secrets \<Rightarrow> site \<Rightarrow> prepared \<times> site" where
  "prepare_apply pv t manifest secrets s = (let px = pv_process pv in
     case sum_bind manifest (\<lambda>d. sum_bind (make_plan (px_lib px) d (pv_environment pv) (pv_root pv)) (\<lambda>p.
       sum_bind (check_environments p secrets) (\<lambda>_. sum_bind (next_state px p (db_state (fst s))) (\<lambda>_. Inr p)))) of
       Inl e \<Rightarrow> (Finished (Inl e), s)
     | Inr p \<Rightarrow> (case pin_plan px (pv_run pv) p (snd s) of
         (Inl e, h) \<Rightarrow> (Finished (Inl e), fst s, h)
       | (Inr (pinned, images), h) \<Rightarrow> start_deploy pv t pinned secrets images None (fst s, h)))"

definition rollback_plan :: "provisioner \<Rightarrow> int \<Rightarrow> revision_db \<Rightarrow> exc + plan" where
  "rollback_plan pv revision db = (let px = pv_process pv in
     if revision < 1 then Inl (ProvisionError ''Choose a positive deployment revision'')
     else case db_state db of None \<Rightarrow> Inl (ProvisionError ''Rollback requires an existing deployment'')
     | Some previous \<Rightarrow> if jo_status previous = JRemoved then Inl (ProvisionError ''Rollback requires an existing deployment'')
         else sum_bind (load_snapshot px (pv_codec pv) revision True db) (\<lambda>d.
           sum_bind (make_plan (px_lib px) d (pv_environment pv) (pv_root pv)) (\<lambda>p.
           sum_bind (next_state px p (Some previous)) (\<lambda>_. case jo_attempt previous of
             None \<Rightarrow> Inl (ProvisionError ''Apply once to record a versioned deployment before rolling back'')
           | Some latest \<Rightarrow> sum_bind (load_snapshot px (pv_codec pv) latest False db) (\<lambda>current.
               case check_persistent_rollback current d of Some e \<Rightarrow> Inl e | None \<Rightarrow> Inr p)))))"

definition prepare_rollback :: "provisioner \<Rightarrow> times \<Rightarrow> int \<Rightarrow> secrets \<Rightarrow> site \<Rightarrow> prepared \<times> site" where
  "prepare_rollback pv t revision secrets s =
     (case sum_bind (rollback_plan pv revision (fst s)) (\<lambda>p. sum_bind (check_environments p secrets) (\<lambda>_. Inr p)) of
       Inl e \<Rightarrow> (Finished (Inl e), s)
     | Inr p \<Rightarrow> start_deploy pv t p secrets (map (\<lambda>(name, node). (name, cn_image node, cn_image node)) (pl_workloads p)) (Some revision) s)"

definition prepare_control :: "provisioner \<Rightarrow> times \<Rightarrow> control_operation \<Rightarrow> site \<Rightarrow> prepared \<times> site" where
  "prepare_control pv t operation s = (case db_state (fst s) of
     None \<Rightarrow> (Finished (Inr (object_of [(''status'', PyStr ''not-deployed'')])), s)
   | Some state \<Rightarrow> if jo_status state = JRemoved then (Finished (Inr (object_of [(''status'', PyStr ''not-deployed'')])), s)
       else (Attempt (ControlDeployment operation) state
           (backend_control (pv_process pv) (pv_run pv) (recorded_plan (it_summary state)) operation (it_resources state)),
         write_state (tm_begun t) (state\<lparr>jo_status := JPending operation, jo_operation := ControlDeployment operation\<rparr>) (fst s), snd s))"

text \<open>Under the lock, after the recovery.\<close>

definition prepare :: "provisioner \<Rightarrow> times \<Rightarrow> request \<Rightarrow> site \<Rightarrow> prepared \<times> site" where
  "prepare pv t r s = (let s' = (recover_db (tm_recovered t) (fst s), snd s) in case r of
     Apply manifest secrets \<Rightarrow> prepare_apply pv t manifest secrets s'
   | Rollback revision secrets \<Rightarrow> prepare_rollback pv t revision secrets s'
   | Control operation \<Rightarrow> prepare_control pv t operation s')"

definition mutation_reply :: "journal \<Rightarrow> pyval" where
  "mutation_reply final = object_of [(''status'', PyStr (journal_status_text (jo_status final))), (''deployment'', object_of (it_summary final)),
     (''revision'', opt_int (jo_attempt final)), (''active_revision'', opt_int (it_active final))]"

definition mutate :: "times \<Rightarrow> mutation \<Rightarrow> journal \<Rightarrow> unit io \<Rightarrow> site \<Rightarrow> (site, pyval) outcome" where
  "mutate t operation state work s = (case work (snd s) of
     (Inr _, h) \<Rightarrow> (let final = committed_state operation state in (Inr (mutation_reply final), write_state (tm_completed t) final (fst s), h))
   | (Inl e, h) \<Rightarrow> (Inl e, write_state (tm_completed t) (state\<lparr>jo_status := JFailed, jo_operation := operation\<rparr>) (fst s), h))"

definition perform_request :: "provisioner \<Rightarrow> times \<Rightarrow> request \<Rightarrow> site \<Rightarrow> (site, pyval) outcome" where
  "perform_request pv t r s = (case prepare pv t r s of
     (Finished answer, s') \<Rightarrow> (answer, s')
   | (Attempt operation state work, s') \<Rightarrow> mutate t operation state work s')"

text \<open>
  The process dies after \<open>k\<close> commands of the operation: before the attempt is journaled, or after it, in the backend's work.
\<close>

definition die_before :: "provisioner \<Rightarrow> times \<Rightarrow> request \<Rightarrow> nat \<Rightarrow> site \<Rightarrow> site" where
  "die_before pv t r k s = (recover_db (tm_recovered t) (fst s), take (length (snd s) + k) (snd (snd (prepare pv t r s))))"

definition die_after :: "provisioner \<Rightarrow> times \<Rightarrow> request \<Rightarrow> nat \<Rightarrow> site \<Rightarrow> site" where
  "die_after pv t r k s = (case prepare pv t r s of
     (Finished _, s') \<Rightarrow> s'
   | (Attempt _ _ work, (db, h)) \<Rightarrow> (db, take (length h + k) (snd (work h))))"


section \<open>Reading\<close>

definition recorded :: "times \<Rightarrow> site \<Rightarrow> pyval \<times> site" where
  "recorded t s = (let db = recover_db (tm_recovered t) (fst s) in
     (object_of (case db_state db of
        None \<Rightarrow> [(''status'', PyStr ''not-deployed''), (''deployment'', PyNone), (''active_revision'', PyNone), (''attempt_revision'', PyNone)]
      | Some j \<Rightarrow> [(''status'', PyStr (journal_status_text (jo_status j))), (''deployment'', object_of (it_summary j)),
          (''active_revision'', opt_int (it_active j)), (''attempt_revision'', opt_int (jo_attempt j))]), db, snd s))"

definition revision_history :: "times \<Rightarrow> int \<Rightarrow> int option \<Rightarrow> site \<Rightarrow> (site, pyval) outcome" where
  "revision_history t limit before s = (let db = recover_db (tm_recovered t) (fst s) in
     (sum_bind (history_page limit before db) (\<lambda>(rows, next_before). Inr (object_of
        [(''active_revision'', opt_int (case db_state db of None \<Rightarrow> None | Some j \<Rightarrow> it_active j)),
         (''revisions'', PyList (map row_metadata rows)), (''next_before'', opt_int next_before)])), db, snd s))"

definition preview :: "provisioner \<Rightarrow> exc + deployment \<Rightarrow> exc + (string \<times> pyval) list" where
  "preview pv manifest = sum_bind manifest (\<lambda>d.
     sum_bind (make_plan (px_lib (pv_process pv)) d (pv_environment pv) (pv_root pv)) (plan_summary (px_render (pv_process pv))))"

definition preview_rollback :: "provisioner \<Rightarrow> times \<Rightarrow> int \<Rightarrow> site \<Rightarrow> (site, (string \<times> pyval) list) outcome" where
  "preview_rollback pv t revision s = (let db = recover_db (tm_recovered t) (fst s) in
     (sum_bind (rollback_plan pv revision db) (\<lambda>p. sum_bind (plan_summary (px_render (pv_process pv)) p) (\<lambda>summary.
        Inr (summary @ [(''rollback_of'', PyInt revision)]))), db, snd s))"


subsection \<open>The status of what runs\<close>

definition has_key :: "pyval \<Rightarrow> string \<Rightarrow> bool" where
  "has_key v key \<longleftrightarrow> (case v of PyDict kvs \<Rightarrow> map_of kvs (PyStr key) \<noteq> None | _ \<Rightarrow> False)"

text \<open>An entry made by \<open>kube_component\<close> has \<^verbatim>\<open>desired\<close>; a count that is not a number raises.\<close>

definition entry :: "pyval \<Rightarrow> string \<Rightarrow> pyval" where
  "entry v key = (case v of PyDict kvs \<Rightarrow> (case map_of kvs (PyStr key) of None \<Rightarrow> PyNone | Some x \<Rightarrow> x) | _ \<Rightarrow> PyNone)"

fun numeric :: "pyval \<Rightarrow> pyfloat option" where
  "numeric (PyInt i) = Some (Fin (of_int i))"
| "numeric (PyBool b) = Some (Fin (if b then 1 else 0))"
| "numeric (PyFloat f) = Some f"
| "numeric _ = None"

definition same_value :: "pyval \<Rightarrow> pyval \<Rightarrow> bool" where
  "same_value a b \<longleftrightarrow> (case (numeric a, numeric b) of (Some x, Some y) \<Rightarrow> f_eq x y | (None, None) \<Rightarrow> a = b | _ \<Rightarrow> False)"

definition component_ready :: "pyval \<Rightarrow> exc + bool" where
  "component_ready item = (if has_key item ''desired'' then (case numeric (entry item ''desired'') of
       None \<Rightarrow> Inl (TypeError ''not supported between instances'')
     | Some d \<Rightarrow> Inr (f_lt (Fin 0) d \<and> same_value (entry item ''ready'') (entry item ''desired'')))
     else Inr (entry item ''state'' = PyStr ''running'' \<and> entry item ''health'' = PyStr ''healthy''))"

definition component_stopped :: "pyval \<Rightarrow> exc + bool" where
  "component_stopped item = (if has_key item ''desired'' then Inr (same_value (entry item ''desired'') (PyInt 0))
     else if \<not> hashable (entry item ''state'') then Inl (TypeError ''unhashable type'')
     else Inr (entry item ''state'' \<in> {PyStr ''exited'', PyStr ''stopped''}))"

fun all_components :: "(pyval \<Rightarrow> exc + bool) \<Rightarrow> pyval list \<Rightarrow> exc + bool" where
  "all_components f [] = Inr True"
| "all_components f (x # xs) = sum_bind (f x) (\<lambda>ok. if ok then all_components f xs else Inr False)"

definition component_names :: "pyval list \<Rightarrow> pyval list" where
  "component_names components = map (\<lambda>item. entry item ''name'') components"

text \<open>What a local deployment must show: the replicas of every provisioned component of the summary.\<close>

definition expected_replicas :: "(string \<times> pyval) list \<Rightarrow> (pyval \<times> pyval) list" where
  "expected_replicas summary = (case map_of summary ''components'' of
     Some (PyList items) \<Rightarrow> map (\<lambda>item. (entry item ''name'', if has_key item ''replicas'' then entry item ''replicas'' else PyInt 1))
       (filter (\<lambda>item. entry item ''mode'' = PyStr ''provision'') items)
   | _ \<Rightarrow> [])"

definition complete_inventory :: "pyval list \<Rightarrow> journal \<Rightarrow> exc + bool" where
  "complete_inventory components j = (let names = component_names components; summary = it_summary j in
     if \<not> list_all hashable names then Inl (TypeError ''unhashable type'')
     else if summary_text summary ''backend'' = Some ''kubernetes''
     then Inr (set names = set (map (\<lambda>(name, _). PyStr (target_text (summary_text summary ''identity'') @ ''-'' @ name)) (it_resources j)))
     else let expected = expected_replicas summary in
       Inr (set names = set (map fst expected) \<and>
         list_all (\<lambda>(name, n). same_value (PyInt (int (length (filter (\<lambda>m. m = name) names)))) n) expected))"

definition runtime_status :: "pyval list \<Rightarrow> journal \<Rightarrow> exc + string" where
  "runtime_status components j =
     (if it_resources j = [] then Inr (journal_status_text (jo_status j))
      else if components = [] then Inr ''missing''
      else sum_bind (complete_inventory components j) (\<lambda>complete.
        if \<not> complete then Inr ''degraded''
        else sum_bind (all_components component_ready components) (\<lambda>ready.
          if ready then Inr (if jo_status j = JReady then ''ready'' else ''incomplete'')
          else sum_bind (all_components component_stopped components) (\<lambda>stopped.
            Inr (if stopped then ''stopped'' else ''degraded'')))))"

definition deployment_status :: "provisioner \<Rightarrow> times \<Rightarrow> site \<Rightarrow> (site, pyval) outcome" where
  "deployment_status pv t s = (let db = recover_db (tm_recovered t) (fst s);
       absent = object_of [(''status'', PyStr ''not-deployed''), (''components'', PyList [])] in
     case db_state db of None \<Rightarrow> (Inr absent, db, snd s)
   | Some j \<Rightarrow> if jo_status j = JRemoved then (Inr absent, db, snd s)
       else (case backend_status (pv_process pv) (pv_run pv) (recorded_plan (it_summary j)) (it_resources j) (snd s) of
         (Inl e, h) \<Rightarrow> (Inl e, db, h)
       | (Inr components, h) \<Rightarrow> (sum_bind (runtime_status components j) (\<lambda>status. Inr (object_of
           [(''status'', PyStr status), (''last_operation_status'', PyStr (journal_status_text (jo_status j))), (''deployment'', object_of (it_summary j)),
            (''components'', PyList components), (''active_revision'', opt_int (it_active j)), (''attempt_revision'', opt_int (jo_attempt j))])), db, h)))"

end
