(* ===== verification/Provision_History.thy ===== *)
theory Provision_History
  imports Provision_Control
begin

text \<open>
  What the journal keeps: over any sequence of operations, of processes that died in one, and of
  readings, the revisions are numbered without gaps, a finished one never changes, at most one is being applied,
  and the active revision names one that succeeded.
\<close>

section \<open>The invariant\<close>

definition applying_row :: "revision_db \<Rightarrow> revision_row \<Rightarrow> bool" where
  "applying_row db r \<longleftrightarrow> (\<exists>j. db_state db = Some j \<and> jo_status j = JApplying \<and> jo_attempt j = Some (rv_number r))"

definition active_ok :: "revision_db \<Rightarrow> int \<Rightarrow> bool" where
  "active_ok db n \<longleftrightarrow> (\<exists>r \<in> set (db_rows db). rv_number r = n \<and> rv_status r = Succeeded)"

definition state_ok :: "revision_db \<Rightarrow> journal \<Rightarrow> bool" where
  "state_ok db j \<longleftrightarrow> (case it_active j of None \<Rightarrow> True | Some n \<Rightarrow> active_ok db n) \<and>
     (\<exists>n. jo_attempt j = Some n \<and> n = db_last db \<and> 1 \<le> n) \<and>
     (jo_status j = JReady \<longrightarrow> it_active j = jo_attempt j)"

definition db_inv :: "pylib \<Rightarrow> revision_db \<Rightarrow> bool" where
  "db_inv lib db \<longleftrightarrow> map rv_number (db_rows db) = map int [1..<Suc (length (db_rows db))] \<and>
     db_last db = int (length (db_rows db)) \<and>
     (\<forall>r \<in> set (db_rows db). (rv_status r = Applying \<longrightarrow> applying_row db r) \<and> sha256_hex lib (rv_snapshot r) = rv_fingerprint r) \<and>
     (case db_state db of None \<Rightarrow> True | Some j \<Rightarrow> state_ok db j)"

text \<open>Finished rows stay, and every row of before is still there under its number with its snapshot.\<close>

definition rows_kept :: "revision_db \<Rightarrow> revision_db \<Rightarrow> bool" where
  "rows_kept db db' \<longleftrightarrow> (\<forall>r \<in> set (db_rows db). \<exists>r' \<in> set (db_rows db'). rv_number r' = rv_number r \<and> rv_snapshot r' = rv_snapshot r \<and>
     (rv_status r \<noteq> Applying \<longrightarrow> r' = r))"

lemma rows_kept_refl [simp]: "rows_kept db db"
  by (auto simp: rows_kept_def)

lemma rows_kept_trans [trans]: "rows_kept a b \<Longrightarrow> rows_kept b c \<Longrightarrow> rows_kept a c"
  unfolding rows_kept_def by metis

lemma db_inv_empty: "db_inv lib empty_db"
  by (simp add: db_inv_def empty_db_def)


section \<open>The writes of the journal\<close>

lemma recover_row_fields [simp]:
  "rv_number (recover_row now r) = rv_number r" "rv_snapshot (recover_row now r) = rv_snapshot r"
  "rv_fingerprint (recover_row now r) = rv_fingerprint r" "rv_status (recover_row now r) \<noteq> Applying"
  "rv_status (recover_row now r) = Succeeded \<longleftrightarrow> rv_status r = Succeeded"
  by (auto simp: recover_row_def)

lemma close_row_fields [simp]:
  "rv_number (close_row now x n r) = rv_number r" "rv_snapshot (close_row now x n r) = rv_snapshot r"
  "rv_fingerprint (close_row now x n r) = rv_fingerprint r"
  "rv_status (close_row now x n r) = (if rv_number r = n then x else rv_status r)"
  by (auto simp: close_row_def)

lemma recover_active [simp]: "active_ok (recover_db now db) n \<longleftrightarrow> active_ok db n"
  by (auto simp: active_ok_def recover_db_def)

lemma active_state [simp]: "active_ok (db\<lparr>db_state := x\<rparr>) n \<longleftrightarrow> active_ok db n"
  by (simp add: active_ok_def)

lemma recover_inv: "db_inv lib db \<Longrightarrow> db_inv lib (recover_db now db)"
  unfolding db_inv_def
  by (cases "db_state db") (auto simp: comp_def state_ok_def recover_db_def active_ok_def split: option.splits)

lemma recover_kept: "rows_kept db (recover_db now db)"
  unfolding rows_kept_def
proof
  fix r assume "r \<in> set (db_rows db)"
  then show "\<exists>r' \<in> set (db_rows (recover_db now db)). rv_number r' = rv_number r \<and> rv_snapshot r' = rv_snapshot r \<and> (rv_status r \<noteq> Applying \<longrightarrow> r' = r)"
    by (intro bexI [of _ "recover_row now r"]) (auto simp: recover_db_def recover_row_def)
qed

lemma recover_rows_finished: "r \<in> set (db_rows (recover_db now db)) \<Longrightarrow> rv_status r \<noteq> Applying"
  by (auto simp: recover_db_def)

lemma recover_state_finished: "db_state (recover_db now db) = Some j \<Longrightarrow> jo_status j \<noteq> JApplying"
  by (auto simp: recover_db_def split: if_splits dest: arg_cong [of _ _ jo_status])

lemma numbers_bound:
  assumes "db_inv lib db" "r \<in> set (db_rows db)"
  shows "1 \<le> rv_number r \<and> rv_number r \<le> db_last db"
proof -
  have "rv_number r \<in> set (map rv_number (db_rows db))" using assms(2) by simp
  also have "\<dots> = int ` {1..<Suc (length (db_rows db))}" using assms(1) unfolding db_inv_def by (metis set_map set_upt)
  finally show ?thesis using assms(1) by (auto simp: db_inv_def)
qed

text \<open>A finished database: nothing is being applied, as after a recovery.\<close>

definition finished_db :: "revision_db \<Rightarrow> bool" where
  "finished_db db \<longleftrightarrow> (\<forall>r \<in> set (db_rows db). rv_status r \<noteq> Applying) \<and> (\<forall>j. db_state db = Some j \<longrightarrow> jo_status j \<noteq> JApplying)"

lemma recover_finished: "finished_db (recover_db now db)"
  by (simp add: finished_db_def recover_rows_finished recover_state_finished)

lemma begin_attempt_inv:
  assumes "begin_attempt px cd now p summary i operation images rb db = (state, db')"
    and "db_inv (px_lib px) db" "finished_db db" "deploys operation"
    and "it_active i = (case db_state db of None \<Rightarrow> None | Some s \<Rightarrow> it_active s)"
  shows "db_inv (px_lib px) db' \<and> rows_kept db db' \<and> db_state db' = Some state \<and> jo_status state = JApplying \<and>
     jo_attempt state = Some (db_last db') \<and> it_active state = it_active i \<and> jo_operation state = operation"
proof -
  have s: "state = intent.extend i \<lparr>jo_attempt = Some (db_last db + 1), jo_operation = operation, jo_status = JApplying\<rparr>"
    and d: "db_state db' = Some state" "db_last db' = db_last db + 1" "set (db_rows db) \<subseteq> set (db_rows db')"
    using assms(1) by (auto simp: begin_attempt_def Let_def)
  have a: "it_active state = it_active i" by (simp add: s intent.defs)
  have "active_ok db n \<Longrightarrow> active_ok db' n" for n using d(3) by (auto simp: active_ok_def)
  then have st: "state_ok db' state"
    using assms(2,5) a d by (auto simp: state_ok_def db_inv_def s intent.defs split: option.splits)
  have "map rv_number (db_rows db') = map int [1..<Suc (length (db_rows db'))]"
    using assms(1,2) by (auto simp: begin_attempt_def Let_def db_inv_def)
  moreover have "db_last db' = int (length (db_rows db'))" using assms(1,2) by (auto simp: begin_attempt_def Let_def db_inv_def)
  moreover have "(rv_status r = Applying \<longrightarrow> applying_row db' r) \<and> sha256_hex (px_lib px) (rv_snapshot r) = rv_fingerprint r"
    if "r \<in> set (db_rows db')" for r
    using that assms(1-3) d(1) s by (auto simp: begin_attempt_def Let_def db_inv_def finished_db_def applying_row_def intent.defs)
  ultimately have "db_inv (px_lib px) db'" using st d(1) by (simp add: db_inv_def)
  then show ?thesis using d a by (auto simp: s rows_kept_def intent.defs)
qed

text \<open>What may be written over a database: the outcome of the attempt, or a control operation.\<close>

lemma write_control_inv:
  assumes "db_inv lib db" "finished_db db" "db_state db = Some j" "\<not> deploys (jo_operation j')"
    and "it_active j' = it_active j \<or> it_active j' = None" "jo_attempt j' = jo_attempt j" "jo_status j' \<notin> {JReady, JApplying}"
  shows "db_inv lib (write_state now j' db) \<and> rows_kept db (write_state now j' db) \<and> finished_db (write_state now j' db) \<and>
    db_state (write_state now j' db) = Some j'"
  using assms by (auto simp: write_state_def Let_def db_inv_def state_ok_def finished_db_def rows_kept_def applying_row_def
      split: option.splits)

lemma write_outcome_inv:
  assumes inv: "db_inv lib db" and j: "db_state db = Some j" "jo_status j = JApplying" "jo_attempt j = Some (db_last db)"
    and j': "deploys (jo_operation j')" "jo_attempt j' = jo_attempt j"
    and out: "jo_status j' = JReady \<and> it_active j' = jo_attempt j' \<or> jo_status j' = JFailed \<and> it_active j' = it_active j"
    and ap: "\<forall>r \<in> set (db_rows db). rv_number r = db_last db \<longrightarrow> rv_status r = Applying"
  shows "db_inv lib (write_state now j' db) \<and> rows_kept db (write_state now j' db) \<and> finished_db (write_state now j' db) \<and>
    db_state (write_state now j' db) = Some j'"
proof -
  obtain x where x: "attempt_outcome (jo_status j') = Some x" "x \<noteq> Applying" "jo_status j' = JReady \<longleftrightarrow> x = Succeeded"
    using out by (auto simp: attempt_outcome_def)
  have st: "state_ok db j" using inv j(1) by (simp add: db_inv_def)
  have pos: "db_last db \<noteq> 0" using st j by (auto simp: state_ok_def)
  let ?db = "write_state now j' db"
  have w: "?db = db\<lparr>db_state := Some j', db_rows := map (close_row now x (db_last db)) (db_rows db)\<rparr>"
    using j' j x pos by (simp add: write_state_def Let_def)
  have only: "rv_status r = Applying \<Longrightarrow> rv_number r = db_last db" if "r \<in> set (db_rows db)" for r
    using inv j that by (auto simp: db_inv_def applying_row_def)
  have last: "\<exists>r \<in> set (db_rows db). rv_number r = db_last db"
  proof -
    have n: "length (db_rows db) > 0" using inv pos by (auto simp: db_inv_def)
    then have "rv_number (last (db_rows db)) = last (map rv_number (db_rows db))" by (simp add: last_map)
    also have "\<dots> = db_last db" using inv n by (auto simp: db_inv_def last_map)
    finally show ?thesis using n by auto
  qed
  have act: "active_ok ?db n" if a: "active_ok db n" for n
  proof -
    obtain r where r: "r \<in> set (db_rows db)" "rv_number r = n" "rv_status r = Succeeded" using a by (auto simp: active_ok_def)
    then have "n \<noteq> db_last db" using ap by auto
    then show ?thesis using r unfolding active_ok_def by (intro bexI [of _ "close_row now x (db_last db) r"]) (auto simp: w)
  qed
  have "active_ok ?db (db_last db)" if "x = Succeeded" using last that by (auto simp: active_ok_def w)
  then have "state_ok ?db j'"
    using st out x j j' act by (auto simp: state_ok_def w split: option.splits)
  moreover have fin: "rv_status r \<noteq> Applying" if "r \<in> set (db_rows ?db)" for r using that only x by (auto simp: w split: if_splits)
  moreover have "sha256_hex lib (rv_snapshot r) = rv_fingerprint r" if "r \<in> set (db_rows ?db)" for r using that inv by (auto simp: w db_inv_def)
  moreover have "map rv_number (db_rows ?db) = map rv_number (db_rows db)" "db_last ?db = db_last db" by (simp_all add: w comp_def)
  moreover have "length (db_rows ?db) = length (db_rows db)" "db_state ?db = Some j'" by (simp_all add: w)
  ultimately have "db_inv lib ?db" using inv unfolding db_inv_def by simp
  moreover have "rows_kept db ?db"
    unfolding rows_kept_def
  proof
    fix r assume r: "r \<in> set (db_rows db)"
    have "close_row now x (db_last db) r = r" if "rv_status r \<noteq> Applying" using ap r that by (auto simp: close_row_def)
    then show "\<exists>r' \<in> set (db_rows ?db). rv_number r' = rv_number r \<and> rv_snapshot r' = rv_snapshot r \<and> (rv_status r \<noteq> Applying \<longrightarrow> r' = r)"
      using r by (intro bexI [of _ "close_row now x (db_last db) r"]) (auto simp: w)
  qed
  moreover have "finished_db ?db" using fin out by (auto simp: finished_db_def w)
  ultimately show ?thesis by (simp add: w)
qed


section \<open>Operations\<close>

definition recovered :: "times \<Rightarrow> site \<Rightarrow> revision_db" where
  "recovered t s = recover_db (tm_recovered t) (fst s)"

definition active_revision :: "revision_db \<Rightarrow> int option" where
  "active_revision db = (case db_state db of None \<Rightarrow> None | Some j \<Rightarrow> it_active j)"

lemma next_state_active: "next_state px p previous = Inr i \<Longrightarrow> it_active i = (case previous of None \<Rightarrow> None | Some s \<Rightarrow> it_active s)"
  by (auto simp: next_state_def sum_bind_Inr Let_def split: if_splits)

lemma start_deploy_cases:
  assumes "start_deploy pv t p secrets images rb s = (w, s')"
  shows "(\<exists>e. w = Finished (Inl e) \<and> s' = s) \<or>
    (\<exists>i operation state work. w = Attempt operation state work \<and> deploys operation \<and> snd s' = snd s \<and>
       next_state (pv_process pv) p (db_state (fst s)) = Inr i \<and>
       begin_attempt (pv_process pv) (pv_codec pv) (tm_begun t) p (it_summary i) i operation images rb (fst s) = (state, fst s') \<and>
       work = backend_apply (pv_process pv) (pv_run pv) (pv_arrange pv) (p\<lparr>pl_revision := jo_attempt state\<rparr>) secrets (previous_resources (db_state (fst s))))"
proof (cases "next_state (pv_process pv) p (db_state (fst s))")
  case (Inr i)
  let ?op = "if rb = None then ApplyDeployment else RollbackDeployment"
  obtain state db where b: "begin_attempt (pv_process pv) (pv_codec pv) (tm_begun t) p (it_summary i) i ?op images rb (fst s) = (state, db)"
    by fastforce
  have "deploys ?op" by (simp add: deploys_def)
  then show ?thesis using assms Inr b by (auto simp: start_deploy_def Let_def)
qed (use assms in \<open>auto simp: start_deploy_def Let_def\<close>)

lemma prepare_apply_cases:
  assumes "prepare_apply pv t manifest secrets s = (w, s')"
  shows "(\<exists>e. w = Finished (Inl e) \<and> fst s' = fst s) \<or>
    (\<exists>p images h. start_deploy pv t p secrets images None (fst s, h) = (w, s'))"
  using assms by (auto simp: prepare_apply_def Let_def split: sum.splits prod.splits)

lemma prepare_rollback_cases:
  assumes "prepare_rollback pv t revision secrets s = (w, s')"
  shows "(\<exists>e. w = Finished (Inl e) \<and> s' = s) \<or>
    (\<exists>p images. rollback_plan pv revision (fst s) = Inr p \<and> start_deploy pv t p secrets images (Some revision) s = (w, s'))"
proof (cases "sum_bind (rollback_plan pv revision (fst s)) (\<lambda>p. sum_bind (check_environments p secrets) (\<lambda>_. Inr p))")
  case (Inr p)
  then have "rollback_plan pv revision (fst s) = Inr p" by (auto simp: sum_bind_Inr)
  with Inr assms show ?thesis by (auto simp: prepare_rollback_def)
qed (use assms in \<open>auto simp: prepare_rollback_def\<close>)

text \<open>An attempt is over the recovered database: a deployment is begun there, a control operation is pending.\<close>

definition attempt_begun :: "provisioner \<Rightarrow> revision_db \<Rightarrow> mutation \<Rightarrow> journal \<Rightarrow> revision_db \<Rightarrow> bool" where
  "attempt_begun pv db operation state db' \<longleftrightarrow>
     (deploys operation \<and> (\<exists>now p i images rb. begin_attempt (pv_process pv) (pv_codec pv) now p (it_summary i) i operation images rb db = (state, db') \<and>
        it_active i = active_revision db)) \<or>
     (\<exists>c now. operation = ControlDeployment c \<and> db_state db = Some state \<and>
        db' = write_state now (state\<lparr>jo_status := JPending c, jo_operation := operation\<rparr>) db)"

lemma prepare_cases:
  assumes "prepare pv t r s = (w, s')"
  shows "(case w of Finished _ \<Rightarrow> fst s' = recovered t s | Attempt operation state _ \<Rightarrow> attempt_begun pv (recovered t s) operation state (fst s'))"
proof -
  let ?s = "(recovered t s, snd s)"
  have d: "case w of Finished _ \<Rightarrow> fst s' = recovered t s | Attempt operation state _ \<Rightarrow> attempt_begun pv (recovered t s) operation state (fst s')"
    if "start_deploy pv t p secrets images rb (recovered t s, h) = (w, s')" for p secrets images rb h
    using start_deploy_cases [OF that]
  proof (elim disjE exE conjE)
    fix i operation state work
    assume *: "w = Attempt operation state work" "deploys operation" "next_state (pv_process pv) p (db_state (fst (recovered t s, h))) = Inr i"
      "begin_attempt (pv_process pv) (pv_codec pv) (tm_begun t) p (it_summary i) i operation images rb (fst (recovered t s, h)) = (state, fst s')"
    have "it_active i = active_revision (recovered t s)" using next_state_active [OF *(3)] by (simp add: active_revision_def)
    then have "attempt_begun pv (recovered t s) operation state (fst s')"
      using *(2,4) unfolding attempt_begun_def fst_conv by blast
    with *(1) show ?thesis by simp
  qed simp
  show ?thesis
  proof (cases r)
    case (Apply manifest secrets)
    then have "prepare_apply pv t manifest secrets ?s = (w, s')" using assms by (simp add: prepare_def recovered_def)
    from prepare_apply_cases [OF this] d show ?thesis by fastforce
  next
    case (Rollback revision secrets)
    then have "prepare_rollback pv t revision secrets ?s = (w, s')" using assms by (simp add: prepare_def recovered_def)
    from prepare_rollback_cases [OF this] d show ?thesis by fastforce
  next
    case (Control c)
    then have "prepare_control pv t c ?s = (w, s')" using assms by (simp add: prepare_def recovered_def)
    then show ?thesis by (auto simp: prepare_control_def attempt_begun_def split: option.splits if_splits)
  qed
qed

lemma attempt_begun_inv:
  assumes "attempt_begun pv db operation state db'" "db_inv (px_lib (pv_process pv)) db" "finished_db db"
  shows "db_inv (px_lib (pv_process pv)) db' \<and> rows_kept db db'"
  using assms(1) unfolding attempt_begun_def
proof (elim disjE exE conjE)
  fix now p i images rb
  assume b: "begin_attempt (pv_process pv) (pv_codec pv) now p (it_summary i) i operation images rb db = (state, db')" "it_active i = active_revision db"
    and o: "deploys operation"
  from begin_attempt_inv [OF b(1) assms(2,3) o] b(2) show ?thesis by (simp add: active_revision_def)
next
  fix c now
  assume "operation = ControlDeployment c" "db_state db = Some state"
    "db' = write_state now (state\<lparr>jo_status := JPending c, jo_operation := operation\<rparr>) db"
  with write_control_inv [OF assms(2,3), of state "state\<lparr>jo_status := JPending c, jo_operation := operation\<rparr>" now]
  show ?thesis by (simp add: deploys_def)
qed

text \<open>Both outcomes of the work can be written.\<close>

lemma mutate_inv:
  assumes b: "attempt_begun pv db operation state db'" and i: "db_inv (px_lib (pv_process pv)) db" "finished_db db"
    and m: "mutate t operation state work (db', h) = (x, s')"
  shows "db_inv (px_lib (pv_process pv)) (fst s') \<and> rows_kept db (fst s') \<and> finished_db (fst s')"
proof -
  obtain final where w: "fst s' = write_state (tm_completed t) final db'"
    and final: "final = committed_state operation state \<or> final = state\<lparr>jo_status := JFailed, jo_operation := operation\<rparr>"
    using m by (auto simp: mutate_def Let_def split: prod.splits sum.splits)
  note k = attempt_begun_inv [OF b i]
  from b show ?thesis unfolding attempt_begun_def
  proof (elim disjE exE conjE)
    fix now p ii images rb
    assume a: "begin_attempt (pv_process pv) (pv_codec pv) now p (it_summary ii) ii operation images rb db = (state, db')"
      "it_active ii = active_revision db" and o: "deploys operation"
    from begin_attempt_inv [OF a(1) i o] a(2)
    have s: "db_state db' = Some state" "jo_status state = JApplying" "jo_attempt state = Some (db_last db')" "it_active state = it_active ii"
      "jo_operation state = operation"
      by (simp_all add: active_revision_def)
    have f: "deploys (jo_operation final)" "jo_attempt final = jo_attempt state"
      "jo_status final = JReady \<and> it_active final = jo_attempt final \<or> jo_status final = JFailed \<and> it_active final = it_active state"
      using final o by (cases operation; auto simp: committed_state_def deploys_def)+
    have "\<forall>r \<in> set (db_rows db'). rv_number r = db_last db' \<longrightarrow> rv_status r = Applying"
      using a(1) numbers_bound [OF i(1)] by (fastforce simp: begin_attempt_def Let_def)
    from write_outcome_inv [OF conjunct1 [OF k] s(1-3) f this, of "tm_completed t"] conjunct2 [OF k]
    show ?thesis by (auto simp: w intro: rows_kept_trans)
  next
    fix c now
    let ?p = "state\<lparr>jo_status := JPending c, jo_operation := operation\<rparr>"
    assume a: "operation = ControlDeployment c" "db_state db = Some state" "db' = write_state now ?p db"
    from write_control_inv [OF i a(2), of ?p now] a
    have p: "db_inv (px_lib (pv_process pv)) db'" "finished_db db'" "db_state db' = Some ?p" by (simp_all add: deploys_def)
    have f: "\<not> deploys (jo_operation final)" "it_active final = it_active ?p \<or> it_active final = None" "jo_attempt final = jo_attempt ?p"
      "jo_status final \<notin> {JReady, JApplying}"
      using final a(1) by (cases c; auto simp: committed_state_def deploys_def)+
    from write_control_inv [OF p f, of "tm_completed t"] conjunct2 [OF k] show ?thesis by (auto simp: w intro: rows_kept_trans)
  qed
qed


section \<open>Events\<close>

text \<open>
  A run is a list of events, each with the provisioner it goes through: its runner, its manifest and its secrets
  may be others every time; what they share is the digest.
\<close>

datatype deployment_event =
    Performed request times
  | DiedBefore request times nat
  | DiedAfter request times nat
  | Read times

definition deployment_step :: "provisioner \<times> deployment_event \<Rightarrow> site \<Rightarrow> site" where
  "deployment_step e s = (case e of
     (pv, Performed r t) \<Rightarrow> snd (perform_request pv t r s)
   | (pv, DiedBefore r t k) \<Rightarrow> die_before pv t r k s
   | (pv, DiedAfter r t k) \<Rightarrow> die_after pv t r k s
   | (pv, Read t) \<Rightarrow> snd (deployment_status pv t s))"

definition same_digest :: "pylib \<Rightarrow> provisioner \<times> deployment_event \<Rightarrow> bool" where
  "same_digest lib e \<longleftrightarrow> px_lib (pv_process (fst e)) = lib"

lemma status_db: "fst (snd (deployment_status pv t s)) = recovered t s"
  by (auto simp: deployment_status_def recovered_def Let_def split: option.splits prod.splits sum.splits)

lemma recovered_inv:
  assumes "db_inv lib (fst s)"
  shows "db_inv lib (recovered t s) \<and> finished_db (recovered t s) \<and> rows_kept (fst s) (recovered t s)"
  by (simp add: recovered_def recover_inv [OF assms] recover_finished recover_kept)

text \<open>Every event keeps the invariant and the finished rows, and only one that dies leaves an attempt open.\<close>

lemma deployment_step_inv:
  assumes i: "db_inv lib (fst s)" and e: "same_digest lib e"
  shows "db_inv lib (fst (deployment_step e s)) \<and> rows_kept (fst s) (fst (deployment_step e s))"
proof -
  obtain pv ev where pv: "e = (pv, ev)" by (cases e)
  have l: "px_lib (pv_process pv) = lib" using e by (simp add: pv same_digest_def)
  have prep: "db_inv lib (fst s') \<and> rows_kept (fst s) (fst s')" if p: "prepare pv t r s = (w, s')" for t r w s'
  proof (cases w)
    case (Finished a)
    with prepare_cases [OF p] recovered_inv [OF i, of t] show ?thesis by simp
  next
    case (Attempt operation state work)
    with prepare_cases [OF p] have "attempt_begun pv (recovered t s) operation state (fst s')" by simp
    from attempt_begun_inv [OF this] recovered_inv [OF i, of t] l show ?thesis by (auto intro: rows_kept_trans)
  qed
  show ?thesis
  proof (cases ev)
    case (Performed r t)
    obtain w s' where p: "prepare pv t r s = (w, s')" by (cases "prepare pv t r s")
    show ?thesis
    proof (cases w)
      case (Finished a)
      with prep [OF p] p Performed show ?thesis by (simp add: pv deployment_step_def perform_request_def)
    next
      case (Attempt operation state work)
      with prepare_cases [OF p] have a: "attempt_begun pv (recovered t s) operation state (fst s')" by simp
      obtain x s'' where m: "mutate t operation state work (fst s', snd s') = (x, s'')" by (meson surj_pair)
      have "db_inv lib (fst s'') \<and> rows_kept (recovered t s) (fst s'')"
        using mutate_inv [OF a _ _ m] recovered_inv [OF i, of t] l by simp
      moreover have "deployment_step e s = s''" using p Attempt Performed m by (simp add: pv deployment_step_def perform_request_def)
      ultimately show ?thesis using recovered_inv [OF i, of t] by (auto intro: rows_kept_trans)
    qed
  next
    case (DiedBefore r t k)
    with recovered_inv [OF i, of t] show ?thesis by (simp add: pv deployment_step_def die_before_def recovered_def)
  next
    case (DiedAfter r t k)
    obtain w s' where p: "prepare pv t r s = (w, s')" by (cases "prepare pv t r s")
    have "fst (die_after pv t r k s) = fst s'" using p by (auto simp: die_after_def split: prepared.splits prod.splits)
    with prep [OF p] DiedAfter show ?thesis by (simp add: pv deployment_step_def)
  next
    case (Read t)
    with recovered_inv [OF i, of t] show ?thesis by (simp add: pv deployment_step_def status_db)
  qed
qed

interpretation deployments: guarded_store "(empty_db, [])" deployment_step "same_digest lib" "\<lambda>s. db_inv lib (fst s)" for lib
  by unfold_locales (simp add: db_inv_empty, simp add: deployment_step_inv)

lemma rows_kept_fold:
  "db_inv lib (fst s) \<Longrightarrow> list_all (same_digest lib) es \<Longrightarrow> rows_kept (fst s) (fst (fold deployment_step es s))"
proof (induction es arbitrary: s)
  case (Cons e es)
  then have "same_digest lib e" by simp
  note st = deployment_step_inv [OF Cons.prems(1) this]
  from Cons.IH [of "deployment_step e s"] Cons.prems(2) st show ?case by (auto intro: rows_kept_trans)
qed simp

end
