(* ===== verification/Provision_Props.thy ===== *)
theory Provision_Props
  imports Provision_Order Provision_Safety Provision_History
begin

text \<open>
  The properties of the provisioner: the order of dependencies, the journal, rollbacks, what the backend commands
  touch, and where the values of secrets go.
\<close>

section \<open>A worked deployment\<close>

definition sample_container :: "string list \<Rightarrow> env_values \<Rightarrow> container" where
  "sample_container needs env = \<lparr>cn_image = ''sha256:'' @ replicate 64 (CHR ''0''), cn_command = [], cn_ports = [(''http'', 80)], cn_publish = [],
     cn_environment = env, cn_depends_on = needs,
     cn_healthcheck = \<lparr>hk_command = [''true''], hk_interval = 5, hk_timeout = 5, hk_retries = 3\<rparr>, cn_persistence = None,
     cn_resources = \<lparr>rl_cpus = 1, rl_memory = ''1Gi''\<rparr>, cn_network = \<lparr>nt_hosts = [], nt_dns = []\<rparr>\<rparr>"

definition sample_deployment :: "backend_kind \<Rightarrow> deployment" where
  "sample_deployment backend = \<lparr>dy_name = ''demo'', dy_release = None, dy_backend = backend, dy_context = None, dy_namespace = None,
     dy_services = [(''web'', ProvisionedService ''web'' [] (sample_container [''db''] [(''KEY'', SecretReference ''TOKEN'')])),
       (''db'', ProvisionedService ''db'' [] (sample_container [] []))], dy_agents = []\<rparr>"

definition sample_render :: render_lib where
  "sample_render = \<lparr>rn_base64 = (\<lambda>s. s), rn_quote = concat, rn_pairs = (\<lambda>_. [])\<rparr>"

definition sample_provisioner :: provisioner where
  "sample_provisioner = \<lparr>pv_process = \<lparr>px_lib = sample_lib, px_render = sample_render, px_json = (\<lambda>_. Inr PyNone)\<rparr>,
     pv_run = (\<lambda>_ _. Inr []), pv_arrange = (\<lambda>xs. xs), pv_codec = \<lparr>cd_dump = (\<lambda>_. ''demo''), cd_load = (\<lambda>_. Inr (sample_deployment Local))\<rparr>,
     pv_environment = ''local'', pv_root = ''/p''\<rparr>"

definition sample_times :: times where
  "sample_times = \<lparr>tm_recovered = ''0'', tm_begun = ''1'', tm_completed = ''2''\<rparr>"

definition sample_apply :: "provisioner \<times> deployment_event" where
  "sample_apply = (sample_provisioner, Performed (Apply (Inr (sample_deployment Local)) (\<lambda>_. Some ''t'')) sample_times)"


section \<open>The order of dependencies\<close>

lemma merge_dicts_keys: "fst ` set (merge_dicts a b) = fst ` set a \<union> fst ` set b"
proof (induction b arbitrary: a)
  case (Cons x b)
  obtain k v where x: "x = (k, v)" by (cases x)
  have "merge_dicts a (x # b) = merge_dicts (AList.update k v a) b" by (simp add: merge_dicts_def x)
  with Cons [of "AList.update k v a"] show ?case by (auto simp: x dom_update)
qed (simp add: merge_dicts_def)

lemma merge_dicts_ok: "dict_ok a \<Longrightarrow> dict_ok (merge_dicts a b)"
proof (induction b arbitrary: a)
  case (Cons x b)
  obtain k v where x: "x = (k, v)" by (cases x)
  have "merge_dicts a (x # b) = merge_dicts (AList.update k v a) b" by (simp add: merge_dicts_def x)
  with Cons show ?case by (simp add: distinct_update)
qed (simp add: merge_dicts_def)

lemma dependency_graph_keys: "fst ` set (dependency_graph d) = fst ` set (dy_services d) \<union> fst ` set (dy_agents d)"
  by (simp add: dependency_graph_def merge_dicts_keys image_image case_prod_beta)

lemma dependency_graph_ok: "dict_ok (dy_services d) \<Longrightarrow> dict_ok (dependency_graph d)"
  unfolding dependency_graph_def by (rule merge_dicts_ok) (simp add: comp_def case_prod_beta)

text \<open>Only a node that is declared has predecessors, and an undeclared one shows in some entry.\<close>

lemma unknown_dependency:
  assumes "dict_ok g"
  shows "list_ex (\<lambda>(_, ps). list_ex (\<lambda>p. map_of g p = None) ps) g \<longleftrightarrow>
    (\<exists>n \<in> fst ` set g. \<not> set (predecessors g n) \<subseteq> fst ` set g)"
proof -
  have p: "predecessors g n = ps" if "(n, ps) \<in> set g" for n ps using assms that by (simp add: predecessors_def)
  have gen: "(\<exists>x \<in> set g. \<exists>p \<in> set (snd x). p \<notin> K) \<longleftrightarrow> (\<exists>x \<in> set g. \<not> set (snd x) \<subseteq> K)" for K by blast
  have "list_ex (\<lambda>(_, ps). list_ex (\<lambda>p. map_of g p = None) ps) g \<longleftrightarrow> (\<exists>(n, ps) \<in> set g. \<not> set ps \<subseteq> fst ` set g)"
    unfolding list_ex_iff map_of_eq_None_iff case_prod_beta by (rule gen)
  also have "\<dots> \<longleftrightarrow> (\<exists>(n, ps) \<in> set g. \<not> set (predecessors g n) \<subseteq> fst ` set g)"
  proof (rule bex_cong [OF refl])
    fix x assume "x \<in> set g"
    then have "predecessors g (fst x) = snd x" using p [of "fst x" "snd x"] by simp
    then show "(case x of (n, ps) \<Rightarrow> \<not> set ps \<subseteq> fst ` set g) = (case x of (n, ps) \<Rightarrow> \<not> set (predecessors g n) \<subseteq> fst ` set g)"
      unfolding case_prod_beta by (rule arg_cong [where f = "\<lambda>ps. \<not> set ps \<subseteq> fst ` set g", OF sym])
  qed
  also have "\<dots> \<longleftrightarrow> (\<exists>n \<in> fst ` set g. \<not> set (predecessors g n) \<subseteq> fst ` set g)"
    by (simp add: case_prod_beta)
  finally show ?thesis .
qed

lemma nodes_declared:
  assumes "dict_ok g" "\<forall>n \<in> fst ` set g. set (predecessors g n) \<subseteq> fst ` set g"
  shows "set (graph_nodes g) = fst ` set g"
proof -
  have "set ps \<subseteq> fst ` set g" if "(n, ps) \<in> set g" for n ps
  proof -
    have "predecessors g n = ps" using assms(1) that by (simp add: predecessors_def)
    moreover have "n \<in> fst ` set g" using that by (metis fst_conv image_eqI)
    ultimately show ?thesis using assms(2) by metis
  qed
  then have "\<Union> (set ` snd ` set g) \<subseteq> fst ` set g" by (intro Union_least) (metis imageE prod.collapse)
  then show ?thesis unfolding graph_nodes(1) by (rule Un_absorb2)
qed

text \<open>
  C30. The order in which a deployment comes up names every service and agent once, each after all it depends on.
  It is refused with the one error exactly when some dependency is not declared, and with the other exactly when the declared
  dependencies form a cycle.
\<close>

theorem deployment_order_is_topological:
  assumes "dict_ok (dy_services d)"
  shows "let names = fst ` set (dy_services d) \<union> fst ` set (dy_agents d); needs = (\<lambda>n. set (predecessors (dependency_graph d) n)) in
    case deployment_order d of
      Inr xs \<Rightarrow> distinct xs \<and> set xs = names \<and> (\<forall>i < length xs. needs (xs ! i) \<subseteq> set (take i xs)) \<and> acyclic {(p, n). p \<in> needs n}
    | Inl e \<Rightarrow> e = ValueError ''unknown dependency'' \<and> (\<exists>n \<in> names. \<not> needs n \<subseteq> names) \<or>
        e = ValueError ''dependency cycle'' \<and> (\<forall>n \<in> names. needs n \<subseteq> names) \<and> \<not> acyclic {(p, n). p \<in> needs n}"
proof -
  let ?g = "dependency_graph d" and ?names = "fst ` set (dy_services d) \<union> fst ` set (dy_agents d)"
  note ok = dependency_graph_ok [OF assms] and keys = dependency_graph_keys [of d]
  note unknown = unknown_dependency [OF ok, unfolded keys]
  show ?thesis
  proof (cases "\<exists>n \<in> ?names. \<not> set (predecessors ?g n) \<subseteq> ?names")
    case True
    with unknown show ?thesis by (simp add: deployment_order_def Let_def)
  next
    case False
    then have nodes: "set (graph_nodes ?g) = ?names" using nodes_declared [OF ok] keys by auto
    have order: "deployment_order d = (case static_order ?g of None \<Rightarrow> Inl (ValueError ''dependency cycle'') | Some xs \<Rightarrow> Inr xs)"
      using unknown False by (simp add: deployment_order_def Let_def)
    from static_order_correct [OF ok] nodes False show ?thesis
      by (cases "static_order ?g") (simp_all add: order Let_def depends_def topological_def)
  qed
qed

theorem deployment_order_is_topological_witness:
  "deployment_order (sample_deployment Local) = Inr [''db'', ''web''] \<and>
   acyclic {(p, n). p \<in> set (predecessors (dependency_graph (sample_deployment Local)) n)}"
proof -
  have o: "deployment_order (sample_deployment Local) = Inr [''db'', ''web'']" by code_simp
  have "dict_ok (dy_services (sample_deployment Local))" by code_simp
  from deployment_order_is_topological [OF this] o show ?thesis by (simp add: Let_def)
qed


section \<open>The journal\<close>

lemma applying_unique:
  assumes "db_inv lib db" "r \<in> set (db_rows db)" "r' \<in> set (db_rows db)" "rv_status r = Applying" "rv_status r' = Applying"
  shows "r = r'"
proof -
  have "map rv_number (db_rows db) = map int [1..<Suc (length (db_rows db))]" using assms(1) by (simp add: db_inv_def)
  then have "distinct (map rv_number (db_rows db))" by (simp only: distinct_map distinct_upt) simp
  moreover have "applying_row db r" "applying_row db r'" using assms unfolding db_inv_def by blast+
  then have "rv_number r = rv_number r'" unfolding applying_row_def by force
  ultimately show ?thesis using assms(2,3) by (auto simp: distinct_map dest: inj_onD)
qed

text \<open>
  C31. Over any sequence of operations, of processes that die before or after they journaled an attempt, and of readings:
  revisions are numbered one after the other, at most one is being applied, the active revision
  names one that succeeded, and a revision whose attempt is over never changes again.
\<close>

theorem deployment_journal_consistent:
  assumes "list_all (same_digest lib) (es @ later)"
  shows "let db = fst (fold deployment_step es (empty_db, [])); db' = fst (fold deployment_step (es @ later) (empty_db, [])) in
     map rv_number (db_rows db) = map int [1..<Suc (length (db_rows db))] \<and>
     (\<forall>r \<in> set (db_rows db). \<forall>r' \<in> set (db_rows db). rv_status r = Applying \<and> rv_status r' = Applying \<longrightarrow> r = r') \<and>
     (\<forall>n. active_revision db = Some n \<longrightarrow> (\<exists>r \<in> set (db_rows db). rv_number r = n \<and> rv_status r = Succeeded)) \<and>
     (\<forall>r \<in> set (db_rows db). rv_status r \<noteq> Applying \<longrightarrow> r \<in> set (db_rows db'))"
proof -
  let ?s = "fold deployment_step es (empty_db, [])"
  have es: "list_all (same_digest lib) es" "list_all (same_digest lib) later" using assms by simp_all
  have inv: "db_inv lib (fst ?s)" by (rule deployments.inv_run [OF es(1)])
  have "rows_kept (fst ?s) (fst (fold deployment_step later ?s))" by (rule rows_kept_fold [OF inv es(2)])
  then have "\<forall>r \<in> set (db_rows (fst ?s)). rv_status r \<noteq> Applying \<longrightarrow> r \<in> set (db_rows (fst (fold deployment_step later ?s)))"
    unfolding rows_kept_def by blast
  moreover have "\<exists>r \<in> set (db_rows (fst ?s)). rv_number r = n \<and> rv_status r = Succeeded" if "active_revision (fst ?s) = Some n" for n
    using inv that by (auto simp: db_inv_def active_revision_def state_ok_def active_ok_def split: option.splits)
  moreover have "map rv_number (db_rows (fst ?s)) = map int [1..<Suc (length (db_rows (fst ?s)))]" using inv by (simp add: db_inv_def)
  ultimately show ?thesis using applying_unique [OF inv] by (simp add: Let_def)
qed

theorem deployment_journal_consistent_witness:
  "\<exists>r \<in> set (db_rows (fst (deployment_step sample_apply (empty_db, [])))). rv_number r = 1 \<and> rv_status r = Succeeded"
proof -
  have "list_all (same_digest sample_lib) ([sample_apply] @ [])" by (simp add: same_digest_def sample_apply_def sample_provisioner_def)
  note c = deployment_journal_consistent [OF this]
  have "active_revision (fst (deployment_step sample_apply (empty_db, []))) = Some 1" by code_simp
  with c show ?thesis by (simp add: Let_def)
qed


section \<open>Rollback\<close>









section \<open>Backend commands\<close>






section \<open>Secrets\<close>

lemma map_each_keys:
  assumes "\<And>x y. x \<in> set xs \<Longrightarrow> f x = Inr y \<Longrightarrow> g y = k x" "map_each f xs = Inr ys"
  shows "map g ys = map k xs"
  using assms by (induction xs arbitrary: ys) (auto simp: sum_bind_Inr)

lemma resolve_all_keys: "resolve_all p env secrets = Inr ys \<Longrightarrow> map fst ys = map fst env"
  unfolding resolve_all_def by (erule map_each_keys [rotated]) (auto split: sum.splits simp: map_sum_def)

text \<open>The names of two environments, as the code merges them, are the same whatever the values are.\<close>

lemma merge_dicts_same_keys:
  "map fst a = map fst a' \<Longrightarrow> map fst b = map fst b' \<Longrightarrow> map fst (merge_dicts a b) = map fst (merge_dicts a' b')"
proof (induction b arbitrary: a a' b')
  case (Cons x b)
  obtain k v where x: "x = (k, v)" by (cases x)
  obtain v' c' where b': "b' = (k, v') # c'" using Cons.prems(2) by (cases b') (auto simp: x)
  have "map fst (AList.update k v a) = map fst (AList.update k v' a')" using Cons.prems(1) by (simp add: update_keys)
  from Cons.IH [OF this, of c'] Cons.prems(2) show ?case by (simp add: merge_dicts_def x b')
qed (simp add: merge_dicts_def)

lemma dependency_environment_keys:
  "dependency_environment p (Some s1) deps r1 = Inr e1 \<Longrightarrow> dependency_environment p (Some s2) deps r2 = Inr e2 \<Longrightarrow>
   map fst r1 = map fst r2 \<Longrightarrow> map fst e1 = map fst e2"
proof (induction deps arbitrary: r1 r2)
  case (Cons dep deps)
  let ?new = "provided (pl_deployment p) dep"
  obtain v1 where v1: "resolve_all p ?new (Some s1) = Inr v1" "dependency_environment p (Some s1) deps (merge_dicts r1 v1) = Inr e1"
    using Cons.prems(1) by (auto simp: Let_def sum_bind_Inr split: if_splits)
  obtain v2 where v2: "resolve_all p ?new (Some s2) = Inr v2" "dependency_environment p (Some s2) deps (merge_dicts r2 v2) = Inr e2"
    using Cons.prems(2) by (auto simp: Let_def sum_bind_Inr split: if_splits)
  have "map fst (merge_dicts r1 v1) = map fst (merge_dicts r2 v2)"
    by (rule merge_dicts_same_keys) (simp_all add: Cons.prems(3) resolve_all_keys [OF v1(1)] resolve_all_keys [OF v2(1)])
  from Cons.IH [OF v1(2) v2(2) this] show ?case .
qed simp

lemma environment_for_keys:
  assumes "environment_for p name (Some s1) = Inr e1" "environment_for p name (Some s2) = Inr e2"
  shows "map fst e1 = map fst e2"
proof -
  obtain c where c: "map_of (pl_workloads p) name = Some c" using assms(1) by (auto simp: environment_for_def split: option.splits)
  have "\<exists>r v. dependency_environment p (Some s) (cn_depends_on c) [] = Inr r \<and> resolve_all p (cn_environment c) (Some s) = Inr v \<and> e = merge_dicts r v"
    if "environment_for p name (Some s) = Inr e" for s e
    using that c by (auto simp: environment_for_def container_environment_def sum_bind_Inr split: if_splits)
  from this [OF assms(1)] this [OF assms(2)] obtain r1 v1 r2 v2 where
    e: "dependency_environment p (Some s1) (cn_depends_on c) [] = Inr r1" "resolve_all p (cn_environment c) (Some s1) = Inr v1" "e1 = merge_dicts r1 v1"
      "dependency_environment p (Some s2) (cn_depends_on c) [] = Inr r2" "resolve_all p (cn_environment c) (Some s2) = Inr v2" "e2 = merge_dicts r2 v2"
    by blast
  show ?thesis
    unfolding e(3,6)
    by (rule merge_dicts_same_keys [OF dependency_environment_keys [OF e(1,4) refl]])
      (simp add: resolve_all_keys [OF e(2)] resolve_all_keys [OF e(5)])
qed

text \<open>
  C34. The values of secrets go into the Secret object only: apart from the digest that restarts the workload, which is taken to
  say nothing here, every other object of a component is the same for all secrets.
\<close>

theorem secret_values_only_in_secret_object:
  assumes "kubernetes (lib\<lparr>sha256_hex := (\<lambda>_. digest)\<rparr>) rn p name s1 = Inr objects1"
    and "kubernetes (lib\<lparr>sha256_hex := (\<lambda>_. digest)\<rparr>) rn p name s2 = Inr objects2"
  shows "filter (\<lambda>(kind, _). kind \<noteq> ''Secret'') objects1 = filter (\<lambda>(kind, _). kind \<noteq> ''Secret'') objects2"
proof -
  let ?lib = "lib\<lparr>sha256_hex := (\<lambda>_. digest)\<rparr>"
  obtain node e1 where 1: "map_of (pl_workloads p) name = Some node" "environment_for p name (Some s1) = Inr e1"
    using assms(1) by (auto simp: kubernetes_def sum_bind_Inr split: option.splits)
  obtain e2 where 2: "environment_for p name (Some s2) = Inr e2"
    using assms(2) by (auto simp: kubernetes_def sum_bind_Inr split: option.splits)
  have keys: "map fst e1 = map fst e2" by (rule environment_for_keys [OF 1(2) 2])
  have "workload_object ?lib rn p name node e1 = workload_object ?lib rn p name node e2"
    by (simp add: workload_object_def Let_def keys)
  with assms 1 2 show ?thesis by (simp add: kubernetes_def sum_bind_Inr) (auto split: option.split)
qed

theorem secret_values_only_in_secret_object_witness:
  "let p = \<lparr>pl_deployment = sample_deployment Kubernetes, pl_environment = ''e'', pl_revision = None, pl_identity = ''demo''\<rparr>;
       objects = (\<lambda>v. projr (kubernetes (sample_lib\<lparr>sha256_hex := (\<lambda>_. [])\<rparr>) sample_render p ''web'' (\<lambda>_. Some v))) in
     length (objects ''one'') = 3 \<and> map_of (objects ''one'') ''Secret'' \<noteq> map_of (objects ''two'') ''Secret'' \<and>
     filter (\<lambda>(kind, _). kind \<noteq> ''Secret'') (objects ''one'') = filter (\<lambda>(kind, _). kind \<noteq> ''Secret'') (objects ''two'')"
proof -
  let ?p = "\<lparr>pl_deployment = sample_deployment Kubernetes, pl_environment = ''e'', pl_revision = None, pl_identity = ''demo''\<rparr>"
  let ?k = "\<lambda>v. kubernetes (sample_lib\<lparr>sha256_hex := (\<lambda>_. [])\<rparr>) sample_render ?p ''web'' (\<lambda>_. Some v)"
  have one: "?k ''one'' = Inr (projr (?k ''one''))" by code_simp
  have two: "?k ''two'' = Inr (projr (?k ''two''))" by code_simp
  have l: "length (projr (?k ''one'')) = 3" by code_simp
  have d: "map_of (projr (?k ''one'')) ''Secret'' \<noteq> map_of (projr (?k ''two'')) ''Secret''" by code_simp
  show ?thesis unfolding Let_def using l d secret_values_only_in_secret_object [OF one two] by blast
qed

end
