(* ===== verification/Cron_Policy.thy ===== *)
theory Cron_Policy
  imports Continuation_Records Json_Value
begin

text \<open>
  What may be queued and scheduled (\<^verbatim>\<open>task.py\<close>, \<^verbatim>\<open>cron.py\<close>): the options of a task, the binding of its arguments, the
  values that may be persisted, the five columns of a schedule, and the records that cross into the runtime. A message that
  quotes the value it refuses is kept without the quotation.
\<close>

section \<open>Options\<close>

definition queue_pattern :: "string \<Rightarrow> bool" where
  "queue_pattern s = matches (\<lambda>c. lower_case c \<or> upper_case c) (\<lambda>c. alnum c \<or> c \<in> set ''._~-'') 63 s"

definition validate_task_options :: "pyval \<Rightarrow> pyval \<Rightarrow> exc option" where
  "validate_task_options queue max_retries = check_all
     [require (case queue of PyStr s \<Rightarrow> queue_pattern s | _ \<Rightarrow> False) (ValueError ''task queue must be a valid storage-style identifier''),
      require (case max_retries of PyInt n \<Rightarrow> 0 \<le> n \<and> n \<le> 100 | _ \<Rightarrow> False) (ValueError ''task max_retries must be an integer from 0 to 100'')]"

text \<open>An integer too large for a float raises in \<^verbatim>\<open>math.isfinite\<close>.\<close>

definition valid_delay :: "pyval \<Rightarrow> exc + bool" where
  "valid_delay v = (case v of
     PyNone \<Rightarrow> Inr True
   | PyInt n \<Rightarrow> if \<bar>n\<bar> \<ge> 2 ^ 1024 then Inl (OverflowError ''int too large to convert to float'') else Inr (0 \<le> n)
   | PyFloat x \<Rightarrow> Inr (isfinite x \<and> f_le (Fin 0) x)
   | _ \<Rightarrow> Inr False)"

definition validate_defer_options :: "pyval \<Rightarrow> pyval \<Rightarrow> exc option" where
  "validate_defer_options idempotency_key schedule_in =
     (if \<not> (case idempotency_key of PyNone \<Rightarrow> True | PyStr s \<Rightarrow> \<not> blank s \<and> length s \<le> 512 | _ \<Rightarrow> False)
      then Some (ValueError ''task idempotency_key must be non-empty text of at most 512 characters'')
      else case valid_delay schedule_in of Inl e \<Rightarrow> Some e
       | Inr ok \<Rightarrow> require ok (ValueError ''task schedule_in must be a finite non-negative number''))"


section \<open>Signatures\<close>

datatype parameter_kind = PositionalOnly | PositionalOrKeyword | VarPositional | KeywordOnly | VarKeyword

record parameter =
  pm_name :: string
  pm_kind :: parameter_kind
  pm_default :: bool

type_synonym kwargs = "(string \<times> pyval) list"

definition validate_signature :: "bool \<Rightarrow> string \<Rightarrow> parameter list \<Rightarrow> exc option" where
  "validate_signature is_callable doc parameters = check_all
     [require is_callable (TypeError ''@task can only decorate callables''),
      require (\<not> blank doc) (ValueError ''tasks need a docstring''),
      require (\<not> list_ex (\<lambda>p. pm_kind p \<in> {PositionalOnly, VarPositional}) parameters)
        (TypeError ''deferred tasks cannot declare positional-only or *args parameters'')]"

text \<open>
  \<^verbatim>\<open>Signature.bind\<close> for the signatures that pass: positional arguments in order, then keywords by name, and what is
  left over goes to the parameter that takes any keyword. The result is in the order of the parameters.
\<close>

fun bind_keywords :: "parameter list \<Rightarrow> kwargs \<Rightarrow> exc + (string \<times> pyval) list \<times> kwargs" where
  "bind_keywords [] kwargs = Inr ([], kwargs)"
| "bind_keywords (p # ps) kwargs =
     (if pm_kind p = VarKeyword then bind_keywords ps kwargs
      else case map_of kwargs (pm_name p) of
        Some v \<Rightarrow> map_sum id (\<lambda>(bound, rest). ((pm_name p, v) # bound, rest)) (bind_keywords ps (AList.delete (pm_name p) kwargs))
      | None \<Rightarrow> if pm_default p then bind_keywords ps kwargs else Inl (TypeError ''missing a required argument''))"

fun bind_positional :: "parameter list \<Rightarrow> pyval list \<Rightarrow> kwargs \<Rightarrow> exc + (string \<times> pyval) list \<times> kwargs" where
  "bind_positional ps [] kwargs = bind_keywords ps kwargs"
| "bind_positional [] (v # vs) kwargs = Inl (TypeError ''too many positional arguments'')"
| "bind_positional (p # ps) (v # vs) kwargs =
     (if pm_kind p \<noteq> PositionalOrKeyword then Inl (TypeError ''too many positional arguments'')
      else if map_of kwargs (pm_name p) \<noteq> None then Inl (TypeError ''multiple values for argument'')
      else map_sum id (\<lambda>(bound, rest). ((pm_name p, v) # bound, rest)) (bind_positional ps vs kwargs))"

definition variadic :: "parameter list \<Rightarrow> string option" where
  "variadic ps = map_option pm_name (find (\<lambda>p. pm_kind p = VarKeyword) ps)"

definition bind_call :: "parameter list \<Rightarrow> pyval list \<Rightarrow> kwargs \<Rightarrow> exc + (string \<times> pyval) list \<times> kwargs" where
  "bind_call ps args kwargs = sum_bind (bind_positional ps args kwargs) (\<lambda>(bound, rest).
     if rest \<noteq> [] \<and> variadic ps = None then Inl (TypeError ''got an unexpected keyword argument'') else Inr (bound, rest))"


section \<open>Values that may be persisted\<close>

text \<open>A cyclic container is not a value here.\<close>

fun text_key :: "pyval \<Rightarrow> bool" where
  "text_key (PyStr _) = True"
| "text_key _ = False"

fun safe_value :: "pyval \<Rightarrow> exc + pyval" and safe_list :: "pyval list \<Rightarrow> exc + pyval list"
  and safe_items :: "(pyval \<times> pyval) list \<Rightarrow> exc + (pyval \<times> pyval) list" where
  "safe_value (PyFloat x) = (if isfinite x then Inr (PyFloat x) else Inl (TypeError ''task argument numbers must be finite''))"
| "safe_value (PyDict kvs) = (if list_ex (\<lambda>(k, _). \<not> text_key k) kvs then Inl (TypeError ''task argument object keys must be strings'')
     else map_sum id PyDict (safe_items kvs))"
| "safe_value (PyList vs) = map_sum id PyList (safe_list vs)"
| "safe_value (PyTuple vs) = map_sum id PyList (safe_list vs)"
| "safe_value (PyObject n) = Inl (TypeError (''task arguments must contain only JSON values; got '' @ n))"
| "safe_value v = Inr v"
| "safe_list [] = Inr []"
| "safe_list (v # vs) = sum_bind (safe_value v) (\<lambda>w. sum_bind (safe_list vs) (\<lambda>ws. Inr (w # ws)))"
| "safe_items [] = Inr []"
| "safe_items ((k, v) # kvs) = sum_bind (safe_value v) (\<lambda>w. sum_bind (safe_items kvs) (\<lambda>ws. Inr ((k, w) # ws)))"

definition safe_task_arguments :: "pyval \<Rightarrow> exc + pyval" where
  "safe_task_arguments v = (case v of PyDict _ \<Rightarrow> safe_value v | _ \<Rightarrow> Inl (TypeError ''task arguments must be a mapping''))"

definition named :: "kwargs \<Rightarrow> pyval" where
  "named kwargs = PyDict (map (\<lambda>(k, v). (PyStr k, v)) kwargs)"

text \<open>
  \<^verbatim>\<open>_bound_arguments\<close>: what the variadic parameter collected is merged into the other arguments.
\<close>

definition bound_arguments :: "parameter list \<Rightarrow> pyval list \<Rightarrow> kwargs \<Rightarrow> exc + pyval" where
  "bound_arguments ps args kwargs = sum_bind (bind_call ps args kwargs) (\<lambda>(bound, rest).
     safe_task_arguments (named (fold (\<lambda>(k, v). AList.update k v) rest bound)))"

text \<open>\<^verbatim>\<open>_validate_task_call\<close>: a key that is not a text is a \<^verbatim>\<open>TypeError\<close> of the call, translated as well.\<close>

definition keyword_arguments :: "pyval \<Rightarrow> kwargs option" where
  "keyword_arguments v = (case v of
     PyDict kvs \<Rightarrow> those (map (\<lambda>(k, v). case k of PyStr s \<Rightarrow> Some (s, v) | _ \<Rightarrow> None) kvs)
   | _ \<Rightarrow> None)"

definition validate_task_call :: "parameter list \<Rightarrow> pyval \<Rightarrow> exc option" where
  "validate_task_call ps arguments = (case keyword_arguments arguments of
     None \<Rightarrow> Some (TypeError ''cron arguments do not match task signature'')
   | Some kwargs \<Rightarrow> (case bind_call ps [] kwargs of
       Inl _ \<Rightarrow> Some (TypeError ''cron arguments do not match task signature'') | Inr _ \<Rightarrow> None))"


section \<open>Schedules\<close>

definition is_decimal :: "string \<Rightarrow> bool" where
  "is_decimal s \<longleftrightarrow> s \<noteq> [] \<and> list_all digit s"

text \<open>\<^verbatim>\<open>int(text)\<close> refuses more than 4300 digits, with a \<^verbatim>\<open>ValueError\<close> as well.\<close>

definition int_of_digits :: "string \<Rightarrow> exc + int" where
  "int_of_digits s = (if length s > 4300 then Inl (ValueError ''Exceeds the limit for integer string conversion'')
     else Inr (foldl (\<lambda>n c. 10 * n + (of_char c - 48)) 0 s))"

definition partition_at :: "char \<Rightarrow> string \<Rightarrow> string \<times> bool \<times> string" where
  "partition_at c s = (takeWhile (\<lambda>d. d \<noteq> c) s, c \<in> set s, tl (dropWhile (\<lambda>d. d \<noteq> c) s))"

fun split_on :: "char \<Rightarrow> string \<Rightarrow> string list" where
  "split_on c [] = [[]]"
| "split_on c (d # ds) = (if d = c then [] # split_on c ds else (case split_on c ds of
     [] \<Rightarrow> [[d]] | w # ws \<Rightarrow> (d # w) # ws))"

definition valid_step :: "string \<Rightarrow> exc + bool" where
  "valid_step s = (if CHR ''/'' \<in> set s \<or> \<not> is_decimal s then Inr False else map_sum id (\<lambda>n. 1 \<le> n) (int_of_digits s))"

definition validate_range :: "string \<Rightarrow> int \<times> int \<Rightarrow> exc option" where
  "validate_range base limits = (case partition_at (CHR ''-'') base of (start, ranged, finish) \<Rightarrow>
     if \<not> is_decimal start \<or> (ranged \<and> \<not> is_decimal finish) then Some (ValueError ''invalid cron field component'')
     else case int_of_digits start of Inl e \<Rightarrow> Some e
      | Inr lower \<Rightarrow> (case (if ranged then int_of_digits finish else Inr lower) of Inl e \<Rightarrow> Some e
         | Inr upper \<Rightarrow> require (fst limits \<le> lower \<and> lower \<le> upper \<and> upper \<le> snd limits)
             (ValueError ''cron field component is out of range'')))"

definition validate_field_part :: "int \<times> int \<Rightarrow> string \<Rightarrow> exc option" where
  "validate_field_part limits part = (case partition_at (CHR ''/'') part of (base, stepped, step) \<Rightarrow>
     (case (if stepped then valid_step step else Inr True) of Inl e \<Rightarrow> Some e
      | Inr False \<Rightarrow> Some (ValueError ''invalid cron step'')
      | Inr True \<Rightarrow> if base = ''*'' then None else validate_range base limits))"

definition validate_field :: "int \<times> int \<Rightarrow> string \<Rightarrow> exc option" where
  "validate_field limits field = (let parts = split_on (CHR '','') field in
     if list_ex (\<lambda>p. p = []) parts then Some (ValueError ''invalid cron field'')
     else check_all (map (validate_field_part limits) parts))"

definition cron_limits :: "(int \<times> int) list" where
  "cron_limits = [(0, 59), (0, 23), (1, 31), (1, 12), (0, 7)]"

definition validate_schedule :: "string \<Rightarrow> exc option" where
  "validate_schedule schedule =
     (if schedule \<noteq> strip schedule then Some (ValueError ''cron schedule must be non-empty text without outer whitespace'')
      else let columns = split_spaces schedule in
        if length columns \<noteq> length cron_limits then Some (ValueError ''cron schedule must contain exactly five columns'')
        else check_all (map (\<lambda>(column, limits). validate_field limits column) (zip columns cron_limits)))"

definition schedule_key_pattern :: "string \<Rightarrow> bool" where
  "schedule_key_pattern s = matches alnum (\<lambda>c. alnum c \<or> c \<in> set ''._:~-'') 127 s"

definition schedule_id_pattern :: "string \<Rightarrow> bool" where
  "schedule_id_pattern s \<longleftrightarrow> take 5 s = ''cron_'' \<and> length s = 37 \<and>
     list_all (\<lambda>c. digit c \<or> c \<in> set ''abcdef'') (drop 5 s)"

definition validate_schedule_key :: "string \<Rightarrow> exc option" where
  "validate_schedule_key s = require (schedule_key_pattern s)
     (ValueError ''cron schedule key must start with a letter or number'')"

definition validate_schedule_id :: "string \<Rightarrow> exc option" where
  "validate_schedule_id s = require (schedule_id_pattern s) (ValueError ''cron schedule id is invalid'')"

definition validate_positive_limit :: "string \<Rightarrow> int option \<Rightarrow> exc option" where
  "validate_positive_limit name value = (case value of None \<Rightarrow> None
     | Some n \<Rightarrow> require (1 \<le> n \<and> n \<le> 1000000) (ValueError (''cron '' @ name @ '' must be an integer from 1 to 1000000'')))"


section \<open>Bindings\<close>

text \<open>
  \<^verbatim>\<open>bind_task_runtime\<close>, \<^verbatim>\<open>release_task_runtime\<close>, \<^verbatim>\<open>_runtime_for\<close>: which runtime a callable is bound to, by the identities of both.
\<close>

type_synonym task_bindings = "(nat \<times> nat) list"

definition bind_task_runtime :: "nat \<Rightarrow> nat \<Rightarrow> task_bindings \<Rightarrow> (task_bindings, unit) outcome" where
  "bind_task_runtime task runtime b = (if map_of b task \<noteq> None \<and> map_of b task \<noteq> Some runtime
     then (Inl (RuntimeError ''compiled task is already active in another runtime''), b)
     else (Inr (), AList.update task runtime b))"

definition release_task_runtime :: "nat \<Rightarrow> nat \<Rightarrow> task_bindings \<Rightarrow> task_bindings" where
  "release_task_runtime task runtime b = (if map_of b task = Some runtime then AList.delete task b else b)"

definition runtime_for :: "nat \<Rightarrow> task_bindings \<Rightarrow> exc + nat" where
  "runtime_for task b = (case map_of b task of Some r \<Rightarrow> Inr r
     | None \<Rightarrow> Inl (TaskUnavailableError ''task defer requires an active compiled Harnest runtime''))"

text \<open>A runtime never takes over or drops the binding of another one.\<close>

lemma bindings_kept:
  assumes "map_of b t = Some r" "r \<noteq> r'"
  shows "map_of (snd (bind_task_runtime t' r' b)) t = Some r" "map_of (release_task_runtime t' r' b) t = Some r"
  using assms by (auto simp: bind_task_runtime_def release_task_runtime_def)


section \<open>Declarations\<close>

text \<open>A task as authored: its identity as an object, its signature, and whether \<^verbatim>\<open>@cron\<close> made it.\<close>

record authored_task =
  au_id :: nat
  au_signature :: "parameter list"
  au_cron :: bool

record compiled_task =
  ct_name :: string
  ct_queue :: string
  ct_max_retries :: int
  ct_authored :: authored_task

record compiled_cron =
  cc_name :: string
  cc_source :: string
  cc_schedule :: string
  cc_timezone :: string
  cc_task :: compiled_task
  cc_arguments :: pyval

text \<open>\<^verbatim>\<open>Cron\<close> and \<^verbatim>\<open>CompiledCron\<close>: the checks of their constructors; \<open>task\<close> is \<open>None\<close> for a value without a registration.\<close>

definition check_cron_declaration :: "string \<Rightarrow> string \<Rightarrow> authored_task option \<Rightarrow> pyval \<Rightarrow> exc option" where
  "check_cron_declaration schedule timezone task arguments = check_all
     [validate_schedule schedule,
      require (timezone = ''UTC'') (ValueError ''cron timezone must be UTC''),
      (case task of None \<Rightarrow> Some (TypeError ''cron task must be a Harnest @task callable'')
       | Some t \<Rightarrow> (case safe_task_arguments arguments of Inl e \<Rightarrow> Some e | Inr v \<Rightarrow> validate_task_call (au_signature t) v))]"

text \<open>
  The decorators. \<open>decorated\<close> says that the function is a task already; the identity of the new callable is given.
\<close>

definition decorate_task :: "nat \<Rightarrow> bool \<Rightarrow> string \<Rightarrow> parameter list \<Rightarrow> pyval \<Rightarrow> pyval \<Rightarrow> exc + authored_task" where
  "decorate_task ident is_callable doc parameters queue max_retries =
     (case check_all [validate_task_options queue max_retries, validate_signature is_callable doc parameters] of
        Some e \<Rightarrow> Inl e | None \<Rightarrow> Inr \<lparr>au_id = ident, au_signature = parameters, au_cron = False\<rparr>)"

definition decorate_cron :: "nat \<Rightarrow> bool \<Rightarrow> bool \<Rightarrow> string \<Rightarrow> parameter list \<Rightarrow> string option \<Rightarrow> pyval option \<Rightarrow> string \<Rightarrow> pyval \<Rightarrow> pyval
    \<Rightarrow> exc + authored_task" where
  "decorate_cron ident decorated is_callable doc parameters schedule arguments timezone queue max_retries =
     (if decorated then Inl (TypeError ''@cron creates its own task; decorate an undecorated function'')
      else sum_bind (decorate_task ident is_callable doc parameters queue max_retries) (\<lambda>authored.
        case (case schedule of
                None \<Rightarrow> require (arguments = None \<and> timezone = ''UTC'') (ValueError ''@cron arguments and timezone require a fixed schedule'')
              | Some s \<Rightarrow> check_cron_declaration s timezone (Some authored) (case arguments of None \<Rightarrow> PyDict [] | Some v \<Rightarrow> v)) of
          Some e \<Rightarrow> Inl e | None \<Rightarrow> Inr (authored\<lparr>au_cron := True\<rparr>)))"

text \<open>Frozen arguments: lists become tuples. Made safe again they are what they were.\<close>

fun freeze_value :: "pyval \<Rightarrow> pyval" where
  "freeze_value (PyDict kvs) = PyDict (map (\<lambda>(k, v). (k, freeze_value v)) kvs)"
| "freeze_value (PyList vs) = PyTuple (map freeze_value vs)"
| "freeze_value v = v"

lemma safe_frozen:
  "safe_value v = Inr w \<Longrightarrow> safe_value (freeze_value w) = Inr w"
  "safe_list vs = Inr ws \<Longrightarrow> safe_list (map freeze_value ws) = Inr ws"
  "safe_items kvs = Inr kws \<Longrightarrow> safe_items (map (\<lambda>(k, v). (k, freeze_value v)) kws) = Inr kws \<and> map fst kws = map fst kvs"
proof (induction v and vs and kvs arbitrary: w and ws and kws rule: safe_value_safe_list_safe_items.induct)
  case (2 kvs)
  then obtain kws where k: "safe_items kvs = Inr kws" "w = PyDict kws" and keys: "\<not> list_ex (\<lambda>(k, _). \<not> text_key k) kvs"
    by (cases "safe_items kvs") (auto split: if_splits)
  have ih: "safe_items (map (\<lambda>(k, v). (k, freeze_value v)) kws) = Inr kws" "map fst kws = map fst kvs" using 2 k keys by blast+
  have "list_ex (\<lambda>(k, _). \<not> text_key k) xs = list_ex (\<lambda>k. \<not> text_key k) (map fst xs)" for xs :: "(pyval \<times> pyval) list"
    by (induction xs) auto
  then have "\<not> list_ex (\<lambda>(k, _). \<not> text_key k) (map (\<lambda>(k, v). (k, freeze_value v)) kws)"
    using keys ih(2) by (simp add: o_def case_prod_beta)
  then show ?case using ih(1) k(2) by simp
next
  case (3 vs)
  then show ?case by (cases "safe_list vs") auto
next
  case (4 vs)
  then show ?case by (cases "safe_list vs") auto
qed (auto simp: sum_bind_Inr split: if_splits)

definition check_compiled_cron :: "compiled_cron \<Rightarrow> exc option" where
  "check_compiled_cron c = check_all
     [require (\<not> blank (cc_name c)) (ValueError ''compiled cron name must be non-empty text''),
      require (take 5 (cc_source c) = ''cron/'') (ValueError ''compiled cron source must be below cron/''),
      validate_schedule (cc_schedule c),
      require (cc_timezone c = ''UTC'') (ValueError ''compiled cron timezone must be UTC''),
      (case safe_task_arguments (cc_arguments c) of Inl e \<Rightarrow> Some e
       | Inr v \<Rightarrow> validate_task_call (au_signature (ct_authored (cc_task c))) v)]"

text \<open>The record a tool sees: \<^verbatim>\<open>_job\<close> of a stored schedule, through the constructor of \<^verbatim>\<open>CronJob\<close>.\<close>

definition cron_job_of :: "cron_record \<Rightarrow> exc + cron_record" where
  "cron_job_of r = (case check_all
     [validate_schedule_id (c_schedule_id r), validate_schedule_key (c_key r), validate_schedule (c_expression r),
      require (c_timezone r = ''UTC'') (ValueError ''cron timezone must be UTC''),
      require (\<not> blank (c_task_name r)) (ValueError ''cron task name must be non-empty text''),
      require (c_status r \<in> {''active'', ''paused'', ''cancelled''}) (ValueError ''cron job status must be active, paused, or cancelled'')] of
       Some e \<Rightarrow> Inl e | None \<Rightarrow> sum_bind (safe_task_arguments (c_arguments r)) (\<lambda>v. Inr (r\<lparr>c_arguments := v\<rparr>)))"

text \<open>The public functions check their arguments, then ask for a runtime inside an invocation.\<close>

definition schedule_runtime :: "bool \<Rightarrow> nat option \<Rightarrow> nat option \<Rightarrow> exc + nat" where
  "schedule_runtime in_invocation active expected =
     (if \<not> in_invocation then Inl (CronUnavailableError ''dynamic cron requires an active managed Harnest invocation'')
      else case active of None \<Rightarrow> Inl (CronUnavailableError ''dynamic cron requires a cron-enabled durable task runtime'')
       | Some r \<Rightarrow> if expected \<noteq> None \<and> expected \<noteq> Some r
           then Inl (CronUnavailableError ''cron schedule belongs to a different runtime'') else Inr r)"

definition check_create :: "string \<Rightarrow> string \<Rightarrow> authored_task option \<Rightarrow> bool \<Rightarrow> pyval \<Rightarrow> int option \<Rightarrow> int option \<Rightarrow> exc + pyval" where
  "check_create key expression task by_name arguments max_runs max_failures =
     (case check_all [validate_schedule_key key, validate_schedule expression, validate_positive_limit ''max_runs'' max_runs,
        validate_positive_limit ''max_consecutive_failures'' max_failures,
        require (by_name \<or> task \<noteq> None) (TypeError ''dynamic cron task must be a Harnest @task or @cron callable, or a cron function name'')] of
       Some e \<Rightarrow> Inl e
     | None \<Rightarrow> sum_bind (safe_task_arguments arguments) (\<lambda>v.
         case (if by_name then None else Option.bind task (\<lambda>t. validate_task_call (au_signature t) v)) of Some e \<Rightarrow> Inl e | None \<Rightarrow> Inr v))"

definition check_schedule_page :: "string option \<Rightarrow> int \<Rightarrow> exc option" where
  "check_schedule_page after limit = check_all
     [(case after of None \<Rightarrow> None | Some a \<Rightarrow> validate_schedule_id a),
      require (1 \<le> limit \<and> limit \<le> 100) (ValueError ''cron schedule limit must be between 1 and 100'')]"

end
