(* ===== verification/Cron_Runtime.thy ===== *)
theory Cron_Runtime
  imports Cron_Policy Task_Props
begin

text \<open>
  Schedules over the task store (\<^verbatim>\<open>runtime_cron_store.py\<close>) and the records the task runtime derives
  (\<^verbatim>\<open>runtime_task_store.py\<close>). An operation that reads a schedule and then writes it is two steps of the store: it takes
  the store \<open>s\<close> at the reading and the store \<open>s'\<close> at the writing, so that anything may happen in between. The audit log
  is not modelled.
\<close>

section \<open>The application and the library around it\<close>

text \<open>
  \<^verbatim>\<open>croniter\<close>, \<^verbatim>\<open>uuid.uuid5\<close> and the digest are arguments; \<^verbatim>\<open>croniter(expression, after).get_next(float)\<close> may raise.
\<close>

record cron_lib =
  cl_py :: pylib
  cl_uuid5_hex :: "string \<Rightarrow> string"
  cl_croniter :: "string \<Rightarrow> pyfloat \<Rightarrow> exc + pyfloat"

record application =
  ap_name :: string
  ap_framework :: string
  ap_tasks :: "compiled_task list"
  ap_crons :: "compiled_cron list"
  ap_automation :: string
  ap_cron_store :: bool

definition next_occurrence :: "cron_lib \<Rightarrow> string \<Rightarrow> pyfloat \<Rightarrow> exc + pyfloat" where
  "next_occurrence cl expression after =
     (case validate_schedule expression of Some e \<Rightarrow> Inl e | None \<Rightarrow> cl_croniter cl expression after)"

definition task_by_name :: "application \<Rightarrow> string \<Rightarrow> compiled_task option" where
  "task_by_name ap name = map_of (rev (map (\<lambda>c. (ct_name c, c)) (ap_tasks ap))) name"

definition compiled_for :: "application \<Rightarrow> authored_task \<Rightarrow> exc + compiled_task" where
  "compiled_for ap t = (case find (\<lambda>c. au_id (ct_authored c) = au_id t) (ap_tasks ap) of
     Some c \<Rightarrow> Inr c | None \<Rightarrow> Inl (TaskRuntimeError ''task callable does not belong to this runtime''))"

text \<open>\<^verbatim>\<open>repr\<close> of a text and of a tuple of texts.\<close>

definition printable :: "nat \<Rightarrow> bool" where
  "printable n \<longleftrightarrow> (32 \<le> n \<and> n \<le> 126) \<or> (161 \<le> n \<and> n \<noteq> 173)"

definition repr_char :: "char \<Rightarrow> char \<Rightarrow> string" where
  "repr_char quote c = (let n = of_char c :: nat in
     if c = quote \<or> n = 92 then [CHR 0x5C, c]
     else if n = 9 then [CHR 0x5C, CHR ''t''] else if n = 10 then [CHR 0x5C, CHR ''n''] else if n = 13 then [CHR 0x5C, CHR ''r'']
     else if printable n then [c] else [CHR 0x5C, CHR ''x'', hex_digit (n div 16), hex_digit (n mod 16)])"

definition repr_text :: "string \<Rightarrow> string" where
  "repr_text s = (let quote = (if CHR 0x27 \<in> set s \<and> CHR 0x22 \<notin> set s then CHR 0x22 else CHR 0x27) in
     [quote] @ concat (map (repr_char quote) s) @ [quote])"

definition repr_tuple :: "string list \<Rightarrow> string" where
  "repr_tuple ws = ''('' @ join_with '', '' (map repr_text ws) @ '')''"

definition float_text :: "pylib \<Rightarrow> pyfloat \<Rightarrow> string" where
  "float_text lib x = (case x of Fin q \<Rightarrow> float_repr lib q | PosInf \<Rightarrow> ''inf'' | NegInf \<Rightarrow> ''-inf'' | NaN \<Rightarrow> ''nan'')"


section \<open>Invocation snapshots\<close>

record snapshot =
  sn_framework :: string
  sn_agent_name :: string
  sn_invocation_id :: string
  sn_user_id :: string
  sn_session_id :: string
  sn_metadata :: pyval

definition snapshot_value :: "snapshot \<Rightarrow> pyval" where
  "snapshot_value sn = named [(''framework'', PyStr (sn_framework sn)), (''agent_name'', PyStr (sn_agent_name sn)),
     (''invocation_id'', PyStr (sn_invocation_id sn)), (''user_id'', PyStr (sn_user_id sn)),
     (''session_id'', PyStr (sn_session_id sn)), (''metadata'', sn_metadata sn)]"

definition snapshot_fields :: "string list" where
  "snapshot_fields = [''framework'', ''agent_name'', ''invocation_id'', ''user_id'', ''session_id'', ''metadata'']"

definition snapshot_text :: "kwargs \<Rightarrow> string \<Rightarrow> exc + string" where
  "snapshot_text kvs f = (case map_of kvs f of Some (PyStr s) \<Rightarrow> if s = [] then Inl (ValueError (''task invocation '' @ f @ '' is invalid'')) else Inr s
     | _ \<Rightarrow> Inl (ValueError (''task invocation '' @ f @ '' is invalid'')))"

text \<open>The four texts are tested in the order of a set, which is not fixed: the first invalid field in the order of the names here.\<close>

definition validated_snapshot :: "pyval \<Rightarrow> exc + snapshot option" where
  "validated_snapshot v = (case v of
     PyNone \<Rightarrow> Inr None
   | PyDict items \<Rightarrow> (case keyword_arguments (PyDict items) of
       None \<Rightarrow> Inl (ValueError ''task invocation snapshot fields are invalid'')
     | Some kvs \<Rightarrow>
         if \<not> (set (map fst kvs) = set snapshot_fields) then Inl (ValueError ''task invocation snapshot fields are invalid'')
         else if map_of kvs ''framework'' \<notin> {Some (PyStr ''adk''), Some (PyStr ''langgraph'')}
         then Inl (ValueError ''task invocation framework is invalid'')
         else sum_bind (snapshot_text kvs ''framework'') (\<lambda>framework. sum_bind (snapshot_text kvs ''agent_name'') (\<lambda>agent.
           sum_bind (snapshot_text kvs ''invocation_id'') (\<lambda>invocation. sum_bind (snapshot_text kvs ''user_id'') (\<lambda>user.
           sum_bind (snapshot_text kvs ''session_id'') (\<lambda>session.
           sum_bind (safe_task_arguments (the (map_of kvs ''metadata''))) (\<lambda>metadata.
             Inr (Some \<lparr>sn_framework = framework, sn_agent_name = agent, sn_invocation_id = invocation, sn_user_id = user,
                        sn_session_id = session, sn_metadata = metadata\<rparr>))))))))
   | _ \<Rightarrow> Inl (TypeError ''task invocation snapshot must be an object''))"

definition record_snapshot :: "string \<Rightarrow> task_record \<Rightarrow> exc + snapshot option" where
  "record_snapshot application_id r = sum_bind (validated_snapshot (t_invocation r)) (\<lambda>sn.
     if t_application_id r \<noteq> application_id then Inl (TaskRuntimeError ''task application scope does not match'')
     else if (case sn of None \<Rightarrow> False | Some q \<Rightarrow> sn_user_id q \<noteq> t_user_id r)
     then Inl (TaskRuntimeError ''task owner scope does not match'') else Inr sn)"


section \<open>Task records\<close>

text \<open>\<open>uuid\<close> and \<open>now\<close> are what \<^verbatim>\<open>uuid.uuid4()\<close> and the clock give.\<close>

definition task_record_of :: "cron_lib \<Rightarrow> application \<Rightarrow> compiled_task \<Rightarrow> pyval \<Rightarrow> snapshot option \<Rightarrow> string list option \<Rightarrow> string
    \<Rightarrow> string option \<Rightarrow> pyfloat \<Rightarrow> string \<Rightarrow> pyfloat \<Rightarrow> exc + task_record" where
  "task_record_of cl ap compiled arguments snapshot permissions trigger key scheduled_at uuid now =
     (let owner = (case snapshot of None \<Rightarrow> ap_automation ap | Some sn \<Rightarrow> sn_user_id sn) in
      sum_bind (safe_task_arguments arguments) (\<lambda>values. Inr
        \<lparr>t_job_id = (case key of None \<Rightarrow> uuid | Some k \<Rightarrow> sha256_hex (cl_py cl) (repr_tuple [ap_name ap, owner, ct_name compiled, k])),
         t_application_id = ap_name ap, t_user_id = owner, t_task_name = ct_name compiled, t_queue = ct_queue compiled,
         t_arguments = values, t_invocation = (case snapshot of None \<Rightarrow> PyNone | Some sn \<Rightarrow> snapshot_value sn),
         t_agent_permissions = map_option sort permissions, t_trigger = trigger, t_status = ''pending'',
         t_scheduled_at = scheduled_at, t_max_retries = ct_max_retries compiled, t_attempt = 0, t_lease_token = None,
         t_lease_expires_at = None, t_result = PyNone, t_failure_code = None, t_idempotency_key = key,
         t_created_at = now, t_updated_at = now, t_cron_schedule_id = None\<rparr>))"

definition occurrence_text :: "cron_lib \<Rightarrow> cron_record \<Rightarrow> string" where
  "occurrence_text cl r = c_schedule_id r @ '':'' @ float_text (cl_py cl) (c_next_run_at r)"

definition occurrence_snapshot :: "cron_lib \<Rightarrow> application \<Rightarrow> cron_record \<Rightarrow> snapshot" where
  "occurrence_snapshot cl ap r = \<lparr>sn_framework = ap_framework ap, sn_agent_name = ap_name ap,
     sn_invocation_id = occurrence_text cl r, sn_user_id = c_user_id r, sn_session_id = occurrence_text cl r,
     sn_metadata = PyDict []\<rparr>"

definition cron_task_record :: "cron_lib \<Rightarrow> application \<Rightarrow> compiled_task \<Rightarrow> cron_record \<Rightarrow> pyfloat \<Rightarrow> exc + task_record" where
  "cron_task_record cl ap compiled r now = map_sum id (\<lambda>t. t\<lparr>t_cron_schedule_id := Some (c_schedule_id r)\<rparr>)
     (task_record_of cl ap compiled (c_arguments r) (Some (occurrence_snapshot cl ap r)) (Some []) ''cron''
        (Some (occurrence_text cl r)) (c_next_run_at r) [] now)"


section \<open>The authored operations on schedules\<close>

text \<open>
  What a call finds when it starts: whether the manager is ready, the user of the invocation, the clock and a fresh identifier.
  \<open>cr_owner\<close> is the user an administrator acts for.
\<close>

record cron_runtime =
  cr_app :: application
  cr_enabled :: bool
  cr_owner :: "string option"

record call_context =
  cx_ready :: "exc option"
  cx_user :: "string option"
  cx_now :: pyfloat
  cx_uuid :: string

definition owner_of :: "cron_runtime \<Rightarrow> call_context \<Rightarrow> exc + string" where
  "owner_of cr cx = (case cx_ready cx of Some e \<Rightarrow> Inl e | None \<Rightarrow>
     if \<not> cr_enabled cr \<or> \<not> ap_cron_store (cr_app cr)
     then Inl (CronUnavailableError ''configure lifecycle.storage.cron and use harnest serve'')
     else case cr_owner cr of Some u \<Rightarrow> Inr u
      | None \<Rightarrow> (case cx_user cx of Some u \<Rightarrow> Inr u | None \<Rightarrow> Inl (ContextUnavailableError ''no active invocation'')))"

definition cron_call :: "exc + 'a \<Rightarrow> exc + 'a" where
  "cron_call res = (case res of Inr v \<Rightarrow> Inr v
     | Inl (CronStoreConflictError _) \<Rightarrow> Inl (CronConflictError ''cron definition or revision conflicts with stored state'')
     | Inl (KeyError _) \<Rightarrow> Inl (CronNotFoundError ''cron job was not found'')
     | Inl (CancelledError m) \<Rightarrow> Inl (CancelledError m)
     | Inl _ \<Rightarrow> Inl (CronRuntimeError ''cron storage operation failed''))"

definition save_schedule :: "cron_record \<Rightarrow> task_store \<Rightarrow> (task_store, cron_record) outcome" where
  "save_schedule r s = (case update_cron r (c_revision r) s of (res, s') \<Rightarrow> (sum_bind (cron_call res) cron_job_of, s'))"

definition read_schedule :: "cron_runtime \<Rightarrow> call_context \<Rightarrow> string \<Rightarrow> task_store \<Rightarrow> exc + cron_record option" where
  "read_schedule cr cx schedule_id s = sum_bind (owner_of cr cx) (\<lambda>owner.
     Inr (get_cron (ap_name (cr_app cr)) owner schedule_id s))"

definition required_schedule :: "cron_runtime \<Rightarrow> call_context \<Rightarrow> string \<Rightarrow> task_store \<Rightarrow> exc + cron_record" where
  "required_schedule cr cx schedule_id s = sum_bind (read_schedule cr cx schedule_id s) (\<lambda>r.
     case r of None \<Rightarrow> Inl (CronNotFoundError ''cron job was not found'') | Some c \<Rightarrow> Inr c)"

datatype target = ByName string | ByCallable authored_task

definition resolve_target :: "application \<Rightarrow> target \<Rightarrow> exc + compiled_task" where
  "resolve_target ap t = (case t of ByCallable a \<Rightarrow> compiled_for ap a
     | ByName n \<Rightarrow> (case task_by_name ap (''harnest.'' @ ap_name ap @ ''.tasks.cron.'' @ n) of
         Some c \<Rightarrow> if au_cron (ct_authored c) then Inr c else Inl (ValueError ''cron function is not registered in this application'')
       | None \<Rightarrow> Inl (ValueError ''cron function is not registered in this application'')))"

definition some_error :: "exc option \<Rightarrow> exc + unit" where
  "some_error e = (case e of Some x \<Rightarrow> Inl x | None \<Rightarrow> Inr ())"

definition schedule_record :: "cron_lib \<Rightarrow> cron_runtime \<Rightarrow> call_context \<Rightarrow> string \<Rightarrow> string \<Rightarrow> target \<Rightarrow> pyval \<Rightarrow> int option \<Rightarrow> int option
    \<Rightarrow> exc + cron_record" where
  "schedule_record cl cr cx key expression target arguments max_runs max_failures = sum_bind (owner_of cr cx) (\<lambda>owner.
     sum_bind (some_error (validate_positive_limit ''max_runs'' max_runs)) (\<lambda>_.
     sum_bind (some_error (validate_positive_limit ''max_consecutive_failures'' max_failures)) (\<lambda>_.
     sum_bind (resolve_target (cr_app cr) target) (\<lambda>compiled.
     sum_bind (some_error (validate_task_call (au_signature (ct_authored compiled)) arguments)) (\<lambda>_.
     sum_bind (safe_task_arguments arguments) (\<lambda>values.
     sum_bind (next_occurrence cl expression (cx_now cx)) (\<lambda>next_run. Inr
       \<lparr>c_schedule_id = ''cron_'' @ cx_uuid cx, c_application_id = ap_name (cr_app cr), c_user_id = owner, c_key = key,
        c_expression = expression, c_task_name = ct_name compiled, c_arguments = values, c_next_run_at = next_run,
        c_status = ''active'', c_revision = 0, c_timezone = ''UTC'', c_created_at = cx_now cx, c_updated_at = cx_now cx,
        c_max_runs = max_runs, c_max_consecutive_failures = max_failures, c_run_count = 0, c_consecutive_failures = 0\<rparr>)))))))"

definition create_schedule :: "cron_lib \<Rightarrow> cron_runtime \<Rightarrow> call_context \<Rightarrow> string \<Rightarrow> string \<Rightarrow> target \<Rightarrow> pyval \<Rightarrow> int option \<Rightarrow> int option
    \<Rightarrow> task_store \<Rightarrow> (task_store, cron_record) outcome" where
  "create_schedule cl cr cx key expression target arguments max_runs max_failures s =
     (case schedule_record cl cr cx key expression target arguments max_runs max_failures of Inl e \<Rightarrow> (Inl e, s)
      | Inr r \<Rightarrow> (case create_cron (cl_py cl) r s of (res, s') \<Rightarrow> (sum_bind (cron_call res) cron_job_of, s')))"

definition get_schedule :: "cron_runtime \<Rightarrow> call_context \<Rightarrow> string \<Rightarrow> task_store \<Rightarrow> exc + cron_record option" where
  "get_schedule cr cx schedule_id s = sum_bind (read_schedule cr cx schedule_id s) (\<lambda>r.
     case r of None \<Rightarrow> Inr None | Some c \<Rightarrow> map_sum id Some (cron_job_of c))"

definition list_schedules :: "cron_runtime \<Rightarrow> call_context \<Rightarrow> string option \<Rightarrow> int \<Rightarrow> task_store \<Rightarrow> exc + cron_record list" where
  "list_schedules cr cx after limit s = sum_bind (owner_of cr cx) (\<lambda>owner.
     sum_bind (cron_call (list_crons (ap_name (cr_app cr)) owner after limit s)) (map_each cron_job_of))"

text \<open>\<open>None\<close> for an expression or arguments keeps the stored ones.\<close>

definition updated_schedule :: "cron_lib \<Rightarrow> application \<Rightarrow> pyfloat \<Rightarrow> string option \<Rightarrow> pyval option \<Rightarrow> int option \<Rightarrow> cron_record
    \<Rightarrow> exc + cron_record" where
  "updated_schedule cl ap now expression arguments expected_revision current =
     (if expected_revision \<noteq> None \<and> expected_revision \<noteq> Some (c_revision current)
      then Inl (CronConflictError ''cron schedule changed; refresh before editing'')
      else if c_status current = ''cancelled'' then Inl (CronConflictError ''cancelled cron jobs cannot be updated'')
      else case task_by_name ap (c_task_name current) of
        None \<Rightarrow> Inl (CronConflictError ''cron target is unavailable in this deployment'')
      | Some compiled \<Rightarrow>
          sum_bind (safe_task_arguments (case arguments of None \<Rightarrow> c_arguments current | Some v \<Rightarrow> v)) (\<lambda>values.
          sum_bind (some_error (validate_task_call (au_signature (ct_authored compiled)) values)) (\<lambda>_.
          (let expr = (case expression of None \<Rightarrow> c_expression current | Some x \<Rightarrow> x) in
           sum_bind (some_error (validate_schedule expr)) (\<lambda>_.
           sum_bind (if expr = c_expression current then Inr (c_next_run_at current) else next_occurrence cl expr now) (\<lambda>next_run.
             Inr (current\<lparr>c_expression := expr, c_arguments := values, c_updated_at := now, c_next_run_at := next_run\<rparr>)))))))"

definition update_schedule :: "cron_lib \<Rightarrow> cron_runtime \<Rightarrow> call_context \<Rightarrow> string \<Rightarrow> string option \<Rightarrow> pyval option \<Rightarrow> int option
    \<Rightarrow> task_store \<Rightarrow> task_store \<Rightarrow> (task_store, cron_record) outcome" where
  "update_schedule cl cr cx schedule_id expression arguments expected_revision s s' =
     (case sum_bind (required_schedule cr cx schedule_id s)
             (updated_schedule cl (cr_app cr) (cx_now cx) expression arguments expected_revision) of
        Inl e \<Rightarrow> (Inl e, s') | Inr r \<Rightarrow> save_schedule r s')"

definition limit_reached :: "cron_record \<Rightarrow> bool" where
  "limit_reached r \<longleftrightarrow> \<not> below_limit (c_run_count r) (c_max_runs r) \<or>
     \<not> below_limit (c_consecutive_failures r) (c_max_consecutive_failures r)"

definition restated_schedule :: "cron_lib \<Rightarrow> pyfloat \<Rightarrow> string \<Rightarrow> cron_record \<Rightarrow> exc + cron_record option" where
  "restated_schedule cl now status current =
     (if status \<notin> {''active'', ''paused'', ''cancelled''} then Inl (ValueError ''invalid cron status'')
      else if c_status current = ''cancelled'' \<and> status \<noteq> ''cancelled''
      then Inl (CronConflictError ''cancelled cron jobs cannot be resumed or paused'')
      else if status = ''active'' \<and> limit_reached current
      then Inl (CronConflictError ''cron schedule has reached its run or failure limit'')
      else if c_status current = status then Inr None
      else sum_bind (if status = ''active'' then next_occurrence cl (c_expression current) now else Inr (c_next_run_at current))
        (\<lambda>next_run. Inr (Some (current\<lparr>c_status := status, c_updated_at := now, c_next_run_at := next_run\<rparr>))))"

definition set_schedule_status :: "cron_lib \<Rightarrow> cron_runtime \<Rightarrow> call_context \<Rightarrow> string \<Rightarrow> string
    \<Rightarrow> task_store \<Rightarrow> task_store \<Rightarrow> (task_store, cron_record) outcome" where
  "set_schedule_status cl cr cx schedule_id status s s' = (case required_schedule cr cx schedule_id s of Inl e \<Rightarrow> (Inl e, s')
     | Inr current \<Rightarrow> (case restated_schedule cl (cx_now cx) status current of Inl e \<Rightarrow> (Inl e, s')
        | Inr None \<Rightarrow> (cron_job_of current, s')
        | Inr (Some r) \<Rightarrow> save_schedule r s'))"

definition delete_schedule :: "cron_runtime \<Rightarrow> call_context \<Rightarrow> string \<Rightarrow> task_store \<Rightarrow> (task_store, bool) outcome" where
  "delete_schedule cr cx schedule_id s = (case owner_of cr cx of Inl e \<Rightarrow> (Inl e, s)
     | Inr owner \<Rightarrow> (case delete_cron (ap_name (cr_app cr)) owner schedule_id s of (res, s') \<Rightarrow> (cron_call res, s')))"


section \<open>Dispatch\<close>

text \<open>
  What the worker asks of the store for one due schedule: a pause when the target is gone or its signature has changed, else the
  occurrence. Only the \<^verbatim>\<open>TypeError\<close> of a changed signature is caught there.
\<close>

definition valid_call :: "compiled_task \<Rightarrow> pyval \<Rightarrow> bool" where
  "valid_call compiled arguments = (validate_task_call (au_signature (ct_authored compiled)) arguments = None)"

definition dispatch_request :: "cron_lib \<Rightarrow> application \<Rightarrow> pyfloat \<Rightarrow> cron_record \<Rightarrow> exc + task_op" where
  "dispatch_request cl ap now r = (case task_by_name ap (c_task_name r) of
     None \<Rightarrow> Inr (Update_Cron (r\<lparr>c_status := ''paused'', c_updated_at := now\<rparr>) (c_revision r))
   | Some compiled \<Rightarrow>
       if \<not> valid_call compiled (c_arguments r)
       then Inr (Update_Cron (r\<lparr>c_status := ''paused'', c_updated_at := now\<rparr>) (c_revision r))
       else sum_bind (cron_task_record cl ap compiled r now) (\<lambda>task.
         sum_bind (next_occurrence cl (c_expression r) (c_next_run_at r)) (\<lambda>next_run.
           Inr (Commit_Occurrence (c_application_id r) (c_user_id r) (c_schedule_id r) (c_revision r) (c_next_run_at r) next_run task))))"

text \<open>The exception the request raises in the worker, if any. A conflict of a pause is dropped; nothing else is.\<close>

definition dispatch_failure :: "cron_lib \<Rightarrow> task_op \<Rightarrow> task_store \<Rightarrow> exc option" where
  "dispatch_failure cl op s = (case op of
     Update_Cron r v \<Rightarrow> (case cron_call (fst (update_cron r v s)) of
        Inl (CronConflictError _) \<Rightarrow> None | Inl e \<Rightarrow> Some e | Inr _ \<Rightarrow> None)
   | Commit_Occurrence app user sid v due nxt t \<Rightarrow> (case fst (commit_cron_occurrence (cl_py cl) app user sid v due nxt t s) of
        Inl e \<Rightarrow> Some e | Inr _ \<Rightarrow> None)
   | _ \<Rightarrow> None)"


section \<open>Compiled declarations\<close>

definition static_schedule_id :: "cron_lib \<Rightarrow> compiled_cron \<Rightarrow> string" where
  "static_schedule_id cl c = ''cron_'' @ cl_uuid5_hex cl (repr_tuple [cc_name c, ct_name (cc_task c)])"

definition static_record :: "cron_lib \<Rightarrow> application \<Rightarrow> compiled_cron \<Rightarrow> pyfloat \<Rightarrow> exc + cron_record" where
  "static_record cl ap c now = sum_bind (safe_task_arguments (cc_arguments c)) (\<lambda>values.
     sum_bind (next_occurrence cl (cc_schedule c) now) (\<lambda>next_run. Inr
       \<lparr>c_schedule_id = static_schedule_id cl c, c_application_id = ap_name ap, c_user_id = ap_automation ap,
        c_key = ''static:'' @ sha256_hex (cl_py cl) (repr_tuple [cc_name c, ct_name (cc_task c)]),
        c_expression = cc_schedule c, c_task_name = ct_name (cc_task c), c_arguments = values, c_next_run_at = next_run,
        c_status = ''active'', c_revision = 0, c_timezone = ''UTC'', c_created_at = now, c_updated_at = now,
        c_max_runs = None, c_max_consecutive_failures = None, c_run_count = 0, c_consecutive_failures = 0\<rparr>))"

text \<open>What is written over a stored declaration, if anything; a cancelled one stays.\<close>

definition static_update :: "cron_record \<Rightarrow> cron_record \<Rightarrow> cron_record option" where
  "static_update record current =
     (if c_status current = ''cancelled'' then None
      else let next_run = (if c_expression current = c_expression record \<and> c_status current = ''active''
                           then c_next_run_at current else c_next_run_at record);
               updated = record\<lparr>c_revision := c_revision current, c_next_run_at := next_run, c_created_at := c_created_at current\<rparr>
           in if c_expression current \<noteq> c_expression updated \<or> \<not> py_eq (c_arguments current) (c_arguments updated)
                 \<or> c_status current \<noteq> c_status updated then Some updated else None)"

text \<open>The three steps of one registration: create, read after a conflict, write.\<close>

datatype registration = Registered | Read_Back cron_record | Write_Over cron_record

definition cron_conflict :: "exc \<Rightarrow> bool" where
  "cron_conflict e = (case e of CronStoreConflictError _ \<Rightarrow> True | _ \<Rightarrow> False)"

definition register_create :: "cron_lib \<Rightarrow> cron_record \<Rightarrow> task_store \<Rightarrow> (task_store, registration) outcome" where
  "register_create cl record s = (case create_cron (cl_py cl) record s of
     (Inl e, s') \<Rightarrow> (if cron_conflict e then Inr (Read_Back record) else Inl e, s')
   | (Inr current, s') \<Rightarrow> (Inr (case static_update record current of None \<Rightarrow> Registered | Some u \<Rightarrow> Write_Over u), s'))"

definition register_read :: "cron_record \<Rightarrow> task_store \<Rightarrow> exc + registration" where
  "register_read record s = (case get_cron (c_application_id record) (c_user_id record) (c_schedule_id record) s of
     None \<Rightarrow> Inl (CronStoreConflictError ''cron identity has a different definition'')
   | Some current \<Rightarrow> Inr (case static_update record current of None \<Rightarrow> Registered | Some u \<Rightarrow> Write_Over u))"

definition register_write :: "cron_record \<Rightarrow> task_store \<Rightarrow> (task_store, registration) outcome" where
  "register_write updated s = (case update_cron updated (c_revision updated) s of (res, s') \<Rightarrow> (map_sum id (\<lambda>_. Registered) res, s'))"

text \<open>One registration that nothing interrupts.\<close>

definition register_static :: "cron_lib \<Rightarrow> application \<Rightarrow> compiled_cron \<Rightarrow> pyfloat \<Rightarrow> task_store \<Rightarrow> (task_store, registration) outcome" where
  "register_static cl ap c now s = (case static_record cl ap c now of Inl e \<Rightarrow> (Inl e, s)
     | Inr record \<Rightarrow> (case register_create cl record s of (Inl e, s') \<Rightarrow> (Inl e, s')
       | (Inr (Read_Back q), s') \<Rightarrow> (case register_read q s' of Inl e \<Rightarrow> (Inl e, s')
           | Inr (Write_Over u) \<Rightarrow> register_write u s' | Inr res \<Rightarrow> (Inr res, s'))
       | (Inr (Write_Over u), s') \<Rightarrow> register_write u s'
       | (Inr res, s') \<Rightarrow> (Inr res, s')))"

definition retired_schedules :: "string list \<Rightarrow> cron_record list \<Rightarrow> cron_record list" where
  "retired_schedules expected rs =
     filter (\<lambda>r. take 7 (c_key r) = ''static:'' \<and> c_schedule_id r \<notin> set expected \<and> c_status r = ''active'') rs"

end
