(* ===== verification/Task_Runtime.thy ===== *)
theory Task_Runtime
  imports Cron_Runtime
begin

text \<open>
  The task worker (\<^verbatim>\<open>runtime_task.py\<close>, \<^verbatim>\<open>runtime_task_store.py\<close>). Several processes, each with its worker loop, its running attempts
  and the calls on its handles, share one task store. Every \<^verbatim>\<open>await\<close> is a point where the others move: a phase says at which
  one a loop, an attempt or a call stands, and resuming it runs the code up to the next. What authored code, the session
  store and the continuation port answer comes with the event; what the runtime asks of them is recorded as effects. A process that
  dies or is closed loses its loop, attempts and calls; the provider may still have performed what they were
  awaiting, which is then an event of the store. Messages of exceptions that quote a class name are kept without it.
\<close>

section \<open>Outcomes\<close>

datatype task_outcome = Completed pyval | Failed_With string | Unfinished

definition outcome_of :: "task_record \<Rightarrow> task_outcome" where
  "outcome_of r = (if t_status r = ''completed'' then Completed (t_result r)
     else if t_status r = ''cancelled'' then Failed_With ''task_cancelled''
     else if t_status r = ''failed'' then Failed_With (case t_failure_code r of Some c \<Rightarrow> if c = [] then ''task_failed'' else c | None \<Rightarrow> ''task_failed'')
     else Unfinished)"

definition task_result_of :: "task_outcome \<Rightarrow> exc + pyval" where
  "task_result_of x = (case x of Completed v \<Rightarrow> Inr v
     | Failed_With c \<Rightarrow> Inl (TaskExecutionError (''task result failed: '' @ c))
     | Unfinished \<Rightarrow> Inl (TaskExecutionError ''task result failed: None''))"

definition validate_continuation_result :: "pyval \<Rightarrow> exc + pyval" where
  "validate_continuation_result v = (case v of PyDict [(PyStr f, r)] \<Rightarrow>
       if f = ''value'' then safe_value r else Inl (TypeError ''task continuation result envelope is invalid'')
     | _ \<Rightarrow> Inl (TypeError ''task continuation result envelope is invalid''))"

definition status_name :: "string \<Rightarrow> string" where
  "status_name st = (if st = ''pending'' then ''todo'' else if st = ''running'' then ''doing'' else if st = ''completed'' then ''succeeded''
     else if st = ''cancelled'' then ''aborted'' else st)"

definition task_provider_call :: "exc + 'a \<Rightarrow> exc + 'a" where
  "task_provider_call res = (case res of Inr v \<Rightarrow> Inr v
     | Inl (TaskStoreConflictError _) \<Rightarrow> Inl (TaskRuntimeError ''task definition conflicts with stored identity'')
     | Inl (CancelledError m) \<Rightarrow> Inl (CancelledError m)
     | Inl _ \<Rightarrow> Inl (TaskRuntimeError ''task storage operation failed''))"

definition lease_seconds :: pyfloat where
  "lease_seconds = Fin 30"

definition retry_delay :: "int \<Rightarrow> pyfloat" where
  "retry_delay task_attempt = Fin (of_int (min 60 (2 ^ nat (min task_attempt 6))))"


section \<open>Attempts\<close>

text \<open>
  \<open>Fresh\<close>: the coroutine has not run yet. \<open>Sessions\<close>: it asks the session store for the occurrence's session. \<open>Authored\<close>: the task's
  code runs, after \<open>Leasing\<close> has taken the session's lease for it. \<open>Finishing\<close>: it writes an outcome. \<open>Publishing\<close>: the outcome is stored and the waiter is told.
\<close>

datatype attempt_phase =
    Fresh
  | Sessions snapshot
  | Leasing snapshot "string list option"
  | Authored "snapshot option" "string list option"
  | Finishing string pyval "string option" "pyfloat option"
  | Publishing task_outcome

record task_attempt =
  a_worker :: nat
  a_record :: task_record
  a_phase :: attempt_phase

text \<open>What the environment answers: a value, an exception, or a cancellation of the awaiting task.\<close>

datatype task_answer = Given pyval | Raises exc | Cancels

definition failed_attempt :: "task_record \<Rightarrow> pyfloat \<Rightarrow> attempt_phase" where
  "failed_attempt r now = (if t_attempt r \<le> t_max_retries r
     then Finishing ''pending'' PyNone None (Some (f_add now (retry_delay (t_attempt r))))
     else Finishing ''failed'' PyNone (Some ''task_failed'') None)"

definition validated_permissions :: "string list option \<Rightarrow> exc + string list option" where
  "validated_permissions ps = (case ps of None \<Rightarrow> Inr None
     | Some names \<Rightarrow> map_sum id (\<lambda>p. Some (p_permissions p)) (create_principal ''principal'' names))"

text \<open>
  Up to the call of authored code: the snapshot restores the owner's context, the grants a fresh principal. A scheduled occurrence
  first makes sure of its session, when the application has a session store; a snapshot's session is leased while the code runs.
\<close>

definition before_authored :: "snapshot option \<Rightarrow> task_record \<Rightarrow> pyfloat \<Rightarrow> attempt_phase" where
  "before_authored sn r now =
     (case sum_bind (safe_task_arguments (t_arguments r)) (\<lambda>_. validated_permissions (t_agent_permissions r)) of
        Inl _ \<Rightarrow> failed_attempt r now
      | Inr grants \<Rightarrow> (case sn of None \<Rightarrow> Authored None grants | Some q \<Rightarrow> Leasing q grants))"

definition start_attempt :: "application \<Rightarrow> bool \<Rightarrow> task_record \<Rightarrow> pyfloat \<Rightarrow> attempt_phase" where
  "start_attempt ap sessions r now = (case task_by_name ap (t_task_name r) of
     None \<Rightarrow> failed_attempt r now
   | Some compiled \<Rightarrow> (case record_snapshot (ap_name ap) r of
       Inl _ \<Rightarrow> failed_attempt r now
     | Inr None \<Rightarrow> before_authored None r now
     | Inr (Some sn) \<Rightarrow> if t_trigger r \<noteq> ''cron'' \<or> \<not> sessions then before_authored (Some sn) r now else Sessions sn))"

text \<open>The session exists, or is created, or another attempt has created it.\<close>

definition after_sessions :: "snapshot \<Rightarrow> task_record \<Rightarrow> task_answer \<Rightarrow> pyfloat \<Rightarrow> attempt_phase option" where
  "after_sessions sn r ans now = (case ans of
     Cancels \<Rightarrow> None
   | Raises (SessionConflictError _) \<Rightarrow> Some (before_authored (Some sn) r now)
   | Raises _ \<Rightarrow> Some (failed_attempt r now)
   | Given _ \<Rightarrow> Some (before_authored (Some sn) r now))"

definition after_lease :: "snapshot \<Rightarrow> string list option \<Rightarrow> task_record \<Rightarrow> task_answer \<Rightarrow> pyfloat \<Rightarrow> attempt_phase option" where
  "after_lease sn grants r ans now = (case ans of
     Cancels \<Rightarrow> None
   | Raises _ \<Rightarrow> Some (failed_attempt r now)
   | Given _ \<Rightarrow> Some (Authored (Some sn) grants))"

definition after_authored :: "task_record \<Rightarrow> task_answer \<Rightarrow> pyfloat \<Rightarrow> attempt_phase option" where
  "after_authored r ans now = (case ans of
     Cancels \<Rightarrow> None
   | Raises _ \<Rightarrow> Some (failed_attempt r now)
   | Given v \<Rightarrow> (case safe_value v of Inl _ \<Rightarrow> Some (failed_attempt r now)
       | Inr w \<Rightarrow> Some (Finishing ''completed'' w None None)))"

text \<open>After the outcome is written: a completion or a final failure is published, a retry or a lost lease is not.\<close>

definition after_finish :: "string \<Rightarrow> pyval \<Rightarrow> exc + bool \<Rightarrow> attempt_phase option" where
  "after_finish status result res = (case res of
     Inr True \<Rightarrow> if status = ''completed'' then Some (Publishing (Completed result))
                else if status = ''failed'' then Some (Publishing (Failed_With ''task_failed'')) else None
   | _ \<Rightarrow> None)"


section \<open>The worker loop\<close>

datatype loop_phase =
    Off
  | Opening
  | Retiring "string option"
  | Pausing "cron_record list" "string option"
  | Registering "compiled_cron list"
  | Registration registration "compiled_cron list"
  | Due
  | Dispatching "cron_record list"
  | Claiming nat
  | Reconciling "string option"
  | Reconcile_Read "string list" "string option"
  | Reconcile_Tell string task_outcome "string list" "string option"
  | Sleeping

datatype worker_state = New | Started | Failed | Closed

record worker =
  wk_state :: worker_state
  wk_failure :: "exc option"
  wk_loop :: loop_phase

text \<open>A process: its application and options, fixed; the continuation port is there when the application has a durable checkpointer.\<close>

record process =
  ps_app :: application
  ps_enable_cron :: bool
  ps_sessions :: bool
  ps_port :: bool

definition require_ready :: "worker \<Rightarrow> exc option" where
  "require_ready wk = (if wk_state wk \<noteq> Started then Some (TaskRuntimeError ''task runtime is not started'') else wk_failure wk)"

text \<open>
  The calls on a handle, and the cancellation of a wait. \<open>Reading\<close> reads the job for a cancellation or a result, \<open>Cancelling\<close> writes
  the cancellation, \<open>Suspending\<close> registers the wait, and \<open>Reading_Again\<close> closes the race with the worker.
\<close>

datatype purpose = For_Cancel | For_Result

datatype call_phase =
    Submitting task_record
  | Reading purpose
  | Cancelling task_record
  | Suspending
  | Reading_Again
  | Telling task_outcome
  | Wait_Reading
  | Wait_Cancelling task_record
  | Wait_Telling

record handle_call =
  h_worker :: nat
  h_task :: string
  h_payload :: string
  h_user :: "string option"
  h_phase :: call_phase

text \<open>
  \<open>Ran\<close>: authored code of an attempt begins, under the context and the grants restored for it. \<open>Told\<close> and \<open>Cancelled_Wait\<close>: the continuation
  port is given an outcome. \<open>Suspended\<close>: a wait for a job's result is registered.
\<close>

datatype worker_effect =
    Ran nat task_record "snapshot option" "string list option"
  | Told nat string task_outcome
  | Cancelled_Wait nat string
  | Suspended nat string

record world =
  w_store :: task_store
  w_workers :: "nat \<Rightarrow> worker"
  w_attempts :: "(nat \<times> task_attempt) list"
  w_calls :: "(nat \<times> handle_call) list"
  w_effects :: "worker_effect list"

definition initial_world :: "task_store \<Rightarrow> world" where
  "initial_world s = \<lparr>w_store = s, w_workers = (\<lambda>_. \<lparr>wk_state = New, wk_failure = None, wk_loop = Off\<rparr>),
     w_attempts = [], w_calls = [], w_effects = []\<rparr>"

definition active_attempts :: "nat \<Rightarrow> world \<Rightarrow> nat" where
  "active_attempts i w = length (filter (\<lambda>(_, a). a_worker a = i) (w_attempts w))"

definition set_loop :: "nat \<Rightarrow> loop_phase \<Rightarrow> world \<Rightarrow> world" where
  "set_loop i ph w = w\<lparr>w_workers := (w_workers w)(i := (w_workers w i)\<lparr>wk_loop := ph\<rparr>)\<rparr>"

abbreviation emit :: "worker_effect \<Rightarrow> world \<Rightarrow> world" where
  "emit e w \<equiv> w\<lparr>w_effects := w_effects w @ [e]\<rparr>"

definition set_attempt :: "nat \<Rightarrow> attempt_phase \<Rightarrow> world \<Rightarrow> world" where
  "set_attempt i ph w = w\<lparr>w_attempts := map (\<lambda>(j, a). (j, if j = i then a\<lparr>a_phase := ph\<rparr> else a)) (w_attempts w)\<rparr>"

definition drop_attempt :: "nat \<Rightarrow> world \<Rightarrow> world" where
  "drop_attempt i w = w\<lparr>w_attempts := filter (\<lambda>(j, _). j \<noteq> i) (w_attempts w)\<rparr>"

definition set_call :: "nat \<Rightarrow> call_phase \<Rightarrow> world \<Rightarrow> world" where
  "set_call i ph w = w\<lparr>w_calls := map (\<lambda>(j, h). (j, if j = i then h\<lparr>h_phase := ph\<rparr> else h)) (w_calls w)\<rparr>"

definition drop_call :: "nat \<Rightarrow> world \<Rightarrow> world" where
  "drop_call i w = w\<lparr>w_calls := filter (\<lambda>(j, _). j \<noteq> i) (w_calls w)\<rparr>"

definition next_id :: "(nat \<times> 'a) list \<Rightarrow> nat" where
  "next_id xs = Suc (foldr (\<lambda>x. max (fst x)) xs 0)"


section \<open>Steps of the loop\<close>

definition start_failed :: "nat \<Rightarrow> world \<Rightarrow> world" where
  "start_failed i w = w\<lparr>w_workers := (w_workers w)(i := (w_workers w i)\<lparr>wk_state := Failed, wk_loop := Off\<rparr>)\<rparr>"

definition loop_died :: "nat \<Rightarrow> world \<Rightarrow> world" where
  "loop_died i w = w\<lparr>w_workers := (w_workers w)(i := (w_workers w i)\<lparr>wk_loop := Off,
     wk_failure := Some (TaskRuntimeError ''task worker stopped'')\<rparr>)\<rparr>"

definition pausing :: "cron_record list \<Rightarrow> string option \<Rightarrow> loop_phase" where
  "pausing rs after = (if rs = [] then Retiring after else Pausing rs after)"

definition registering :: "nat \<Rightarrow> compiled_cron list \<Rightarrow> world \<Rightarrow> world" where
  "registering i cs w = (if cs = []
     then w\<lparr>w_workers := (w_workers w)(i := (w_workers w i)\<lparr>wk_state := Started, wk_loop := Due\<rparr>)\<rparr>
     else set_loop i (Registering cs) w)"

definition registered :: "nat \<Rightarrow> exc + registration \<Rightarrow> compiled_cron list \<Rightarrow> world \<Rightarrow> world" where
  "registered i res cs w = (case res of Inl _ \<Rightarrow> start_failed i w
     | Inr Registered \<Rightarrow> registering i cs w
     | Inr q \<Rightarrow> set_loop i (Registration q cs) w)"

definition task_capacity :: nat where
  "task_capacity = 10"

definition reconcile_next :: "nat \<Rightarrow> string list \<Rightarrow> string option \<Rightarrow> world \<Rightarrow> world" where
  "reconcile_next i ids later w = set_loop i (if ids \<noteq> [] then Reconcile_Read ids later
     else if later = None then Sleeping else Reconciling later) w"

text \<open>One wait of the sweep: its job is read, and an outcome that is there is told.\<close>

definition reconcile_read :: "process \<Rightarrow> nat \<Rightarrow> string \<Rightarrow> string list \<Rightarrow> string option \<Rightarrow> world \<Rightarrow> world" where
  "reconcile_read ps i x xs later w = (case get_task (ap_name (ps_app ps)) x None (w_store w) of
     None \<Rightarrow> reconcile_next i xs later w
   | Some r \<Rightarrow> if outcome_of r = Unfinished then reconcile_next i xs later w
       else set_loop i (Reconcile_Tell x (outcome_of r) xs later) w)"

definition reconcile_tell :: "nat \<Rightarrow> string \<Rightarrow> task_outcome \<Rightarrow> string list \<Rightarrow> string option \<Rightarrow> world \<Rightarrow> world" where
  "reconcile_tell i x oc xs later w = reconcile_next i xs later
     (emit (if oc = Failed_With ''task_cancelled'' then Cancelled_Wait i x else Told i x oc) w)"

text \<open>Without a continuation port nobody is told. What the port answers changes nothing: no waiter is normal, other failures are logged.\<close>

definition publish_outcome :: "process \<Rightarrow> nat \<Rightarrow> string \<Rightarrow> task_outcome \<Rightarrow> world \<Rightarrow> world" where
  "publish_outcome ps k payload oc w = (if ps_port ps then emit (Told k payload oc) w else w)"

declare reconcile_read_def [simp] reconcile_tell_def [simp] publish_outcome_def [simp]

definition after_claim :: "process \<Rightarrow> nat \<Rightarrow> bool \<Rightarrow> world \<Rightarrow> world" where
  "after_claim ps i sweep w = set_loop i (if sweep \<and> ps_port ps then Reconciling None else Sleeping) w"

definition to_claim :: "process \<Rightarrow> nat \<Rightarrow> bool \<Rightarrow> world \<Rightarrow> world" where
  "to_claim ps i sweep w = (let capacity = task_capacity - active_attempts i w in
     if capacity > 0 then set_loop i (Claiming capacity) w else after_claim ps i sweep w)"

definition dispatching :: "process \<Rightarrow> nat \<Rightarrow> bool \<Rightarrow> cron_record list \<Rightarrow> world \<Rightarrow> world" where
  "dispatching ps i sweep rs w = (if rs = [] then to_claim ps i sweep w else set_loop i (Dispatching rs) w)"

definition spawn_attempts :: "nat \<Rightarrow> task_record list \<Rightarrow> world \<Rightarrow> world" where
  "spawn_attempts i rs w = w\<lparr>w_attempts := w_attempts w @
     map (\<lambda>(j, r). (next_id (w_attempts w) + j, \<lparr>a_worker = i, a_record = r, a_phase = Fresh\<rparr>)) (enumerate 0 rs)\<rparr>"

definition worker_queues :: "application \<Rightarrow> string list" where
  "worker_queues ap = sort (remdups (map ct_queue (ap_tasks ap)))"

text \<open>
  What a resumed loop is given: the clock, the tokens of a claim, whether the sweep of the waits is due, the answer of what it
  awaited, and the page of waits (the job and the wait) the continuation port lists, if it lists one.
\<close>

record wake =
  wa_now :: pyfloat
  wa_uuid :: "nat \<Rightarrow> string"
  wa_sweep :: bool
  wa_answer :: task_answer
  wa_page :: "(string \<times> string) list option"

definition cron_enabled :: "process \<Rightarrow> bool" where
  "cron_enabled ps \<longleftrightarrow> ps_enable_cron ps \<and> ap_cron_store (ps_app ps)"

definition start_step :: "cron_lib \<Rightarrow> process \<Rightarrow> nat \<Rightarrow> wake \<Rightarrow> loop_phase \<Rightarrow> world \<Rightarrow> world" where
  "start_step cl ps i wa ph w = (let ap = ps_app ps; s = w_store w in case ph of
     Opening \<Rightarrow> (case wa_answer wa of
        Given _ \<Rightarrow> if cron_enabled ps then set_loop i (Retiring None) w else registering i [] w
      | _ \<Rightarrow> start_failed i w)
   | Retiring after \<Rightarrow> (case list_crons (ap_name ap) (ap_automation ap) after 100 s of
        Inl _ \<Rightarrow> start_failed i w
      | Inr rs \<Rightarrow> if rs = [] then registering i (ap_crons ap) w
          else set_loop i (pausing (retired_schedules (map (static_schedule_id cl) (ap_crons ap)) rs)
                             (Some (c_schedule_id (last rs)))) w)
   | Pausing (r # rs) after \<Rightarrow>
       (case update_cron (r\<lparr>c_status := ''paused'', c_updated_at := wa_now wa\<rparr>) (c_revision r) s of
          (Inl _, s') \<Rightarrow> start_failed i (w\<lparr>w_store := s'\<rparr>)
        | (Inr _, s') \<Rightarrow> set_loop i (pausing rs after) (w\<lparr>w_store := s'\<rparr>))
   | Registering (c # cs) \<Rightarrow> (case static_record cl ap c (wa_now wa) of
          Inl _ \<Rightarrow> start_failed i w
        | Inr r \<Rightarrow> (case register_create cl r s of (res, s') \<Rightarrow> registered i res cs (w\<lparr>w_store := s'\<rparr>)))
   | Registration (Read_Back r) cs \<Rightarrow> registered i (register_read r s) cs w
   | Registration (Write_Over u) cs \<Rightarrow> (case register_write u s of (res, s') \<Rightarrow> registered i res cs (w\<lparr>w_store := s'\<rparr>))
   | _ \<Rightarrow> w)"

definition work_step :: "cron_lib \<Rightarrow> process \<Rightarrow> nat \<Rightarrow> wake \<Rightarrow> loop_phase \<Rightarrow> world \<Rightarrow> world" where
  "work_step cl ps i wa ph w = (let ap = ps_app ps; s = w_store w in case ph of
     Due \<Rightarrow> if \<not> cron_enabled ps then to_claim ps i (wa_sweep wa) w
       else (case list_due_crons (ap_name ap) (wa_now wa) None 100 s of
          Inl _ \<Rightarrow> loop_died i w
        | Inr rs \<Rightarrow> dispatching ps i (wa_sweep wa) rs w)
   | Dispatching (r # rs) \<Rightarrow> (case dispatch_request cl ap (wa_now wa) r of
          Inl _ \<Rightarrow> loop_died i w
        | Inr op \<Rightarrow> (let w' = w\<lparr>w_store := task_step (cl_py cl) op s\<rparr> in
            if dispatch_failure cl op s = None then dispatching ps i (wa_sweep wa) rs w' else loop_died i w'))
   | Claiming capacity \<Rightarrow> (case claim_tasks (wa_uuid wa) (ap_name ap) (worker_queues ap) (wa_now wa) lease_seconds (int capacity) s of
          (Inl _, s') \<Rightarrow> loop_died i (w\<lparr>w_store := s'\<rparr>)
        | (Inr rs, s') \<Rightarrow> after_claim ps i (wa_sweep wa) (spawn_attempts i rs (w\<lparr>w_store := s'\<rparr>)))
   | Reconciling after \<Rightarrow> (case wa_page wa of None \<Rightarrow> set_loop i Sleeping w
        | Some listed \<Rightarrow> reconcile_next i (map fst listed) (if length listed < 100 then None else Some (snd (last listed))) w)
   | Reconcile_Read (x # xs) later \<Rightarrow> reconcile_read ps i x xs later w
   | Reconcile_Tell x oc xs later \<Rightarrow> reconcile_tell i x oc xs later w
   | Sleeping \<Rightarrow> set_loop i Due w
   | _ \<Rightarrow> w)"

definition loop_step :: "cron_lib \<Rightarrow> process \<Rightarrow> nat \<Rightarrow> wake \<Rightarrow> world \<Rightarrow> world" where
  "loop_step cl ps i wa w = (let ph = wk_loop (w_workers w i) in
     if wk_state (w_workers w i) = New then start_step cl ps i wa ph w else work_step cl ps i wa ph w)"


section \<open>Steps of attempts\<close>

definition enter_phase :: "nat \<Rightarrow> task_attempt \<Rightarrow> attempt_phase option \<Rightarrow> world \<Rightarrow> world" where
  "enter_phase i a next w = (case next of None \<Rightarrow> drop_attempt i w
     | Some (Authored sn grants) \<Rightarrow> emit (Ran (a_worker a) (a_record a) sn grants) (set_attempt i (Authored sn grants) w)
     | Some ph \<Rightarrow> set_attempt i ph w)"

definition lease_token :: "task_record \<Rightarrow> string" where
  "lease_token r = (case t_lease_token r of Some tok \<Rightarrow> tok | None \<Rightarrow> [])"

definition attempt_step :: "process \<Rightarrow> nat \<Rightarrow> task_attempt \<Rightarrow> pyfloat \<Rightarrow> task_answer \<Rightarrow> world \<Rightarrow> world" where
  "attempt_step ps i a now ans w = (let r = a_record a in case a_phase a of
     Fresh \<Rightarrow> enter_phase i a (Some (start_attempt (ps_app ps) (ps_sessions ps) r now)) w
   | Sessions sn \<Rightarrow> enter_phase i a (after_sessions sn r ans now) w
   | Leasing sn grants \<Rightarrow> enter_phase i a (after_lease sn grants r ans now) w
   | Authored sn grants \<Rightarrow> enter_phase i a (after_authored r ans now) w
   | Finishing status result code retry_at \<Rightarrow>
       (case finish_task (t_application_id r) (t_job_id r) (lease_token r) now status result code retry_at (w_store w) of
          (res, s') \<Rightarrow> enter_phase i a (after_finish status result res) (w\<lparr>w_store := s'\<rparr>))
   | Publishing oc \<Rightarrow> drop_attempt i (publish_outcome ps (a_worker a) (t_job_id r) oc w))"

text \<open>The heartbeat: an attempt that has lost its lease is cancelled.\<close>

definition renew_step :: "nat \<Rightarrow> task_attempt \<Rightarrow> pyfloat \<Rightarrow> world \<Rightarrow> world" where
  "renew_step i a now w = (let r = a_record a in
     case renew_task_lease (t_application_id r) (t_job_id r) (lease_token r) now lease_seconds (w_store w) of
       (Inr True, s') \<Rightarrow> w\<lparr>w_store := s'\<rparr> | (_, s') \<Rightarrow> drop_attempt i (w\<lparr>w_store := s'\<rparr>))"


section \<open>Steps of calls\<close>

text \<open>\<^verbatim>\<open>defer\<close>: what is submitted. \<open>artifact\<close> is the durable tool call it is made in, \<open>sn\<close> the invocation.\<close>

definition native_idempotency_key :: "pylib \<Rightarrow> application \<Rightarrow> compiled_task \<Rightarrow> pyval \<Rightarrow> snapshot option \<Rightarrow> resume_artifact option
    \<Rightarrow> exc + string option" where
  "native_idempotency_key lib ap compiled arguments sn artifact = (case (artifact, sn) of
     (Some a, Some q) \<Rightarrow> sum_bind (json_dumps lib arguments) (\<lambda>encoded. Inr (Some (submission_key lib a
       \<lparr>sc_application_id = ap_name ap, sc_user_id = sn_user_id q, sc_session_id = sn_session_id q, sc_run_id = sn_invocation_id q\<rparr>
       ''harnest.task'' (''task.defer:'' @ ct_name compiled @ '':'' @ sha256_hex lib encoded))))
   | _ \<Rightarrow> Inr None)"

definition defer_request :: "cron_lib \<Rightarrow> application \<Rightarrow> worker \<Rightarrow> authored_task \<Rightarrow> pyval \<Rightarrow> snapshot option \<Rightarrow> string list option
    \<Rightarrow> resume_artifact option \<Rightarrow> string option \<Rightarrow> pyfloat \<Rightarrow> string \<Rightarrow> pyfloat \<Rightarrow> exc + task_record" where
  "defer_request cl ap wk task arguments sn permissions artifact key delay uuid now =
     sum_bind (some_error (require_ready wk)) (\<lambda>_. sum_bind (compiled_for ap task) (\<lambda>compiled.
     sum_bind (if key = None then native_idempotency_key (cl_py cl) ap compiled arguments sn artifact else Inr key) (\<lambda>key'.
       task_record_of cl ap compiled arguments sn permissions (if sn = None then ''user'' else ''agent'') key' (f_add now delay) uuid now)))"

definition read_handle :: "process \<Rightarrow> handle_call \<Rightarrow> task_store \<Rightarrow> task_record option" where
  "read_handle ps h s = (case get_task (ap_name (ps_app ps)) (h_payload h) (h_user h) s of None \<Rightarrow> None
     | Some r \<Rightarrow> if t_task_name r \<noteq> h_task h then None else Some r)"

definition next_call :: "nat \<Rightarrow> call_phase option \<Rightarrow> world \<Rightarrow> world" where
  "next_call i next w = (case next of None \<Rightarrow> drop_call i w | Some ph \<Rightarrow> set_call i ph w)"

definition cancelled_then :: "call_phase \<Rightarrow> exc + bool \<Rightarrow> call_phase option" where
  "cancelled_then ph res = (case res of Inr True \<Rightarrow> Some ph | _ \<Rightarrow> None)"

text \<open>
  A result that is not there yet needs a durable tool and a checkpointer: \<open>ans\<close> says whether the caller has one. A call that ends
  without a further phase has returned or raised.
\<close>

definition result_read :: "process \<Rightarrow> task_answer \<Rightarrow> task_record \<Rightarrow> call_phase option" where
  "result_read ps ans r = (if outcome_of r = Unfinished \<and> ps_port ps \<and> (case ans of Given _ \<Rightarrow> True | _ \<Rightarrow> False)
     then Some Suspending else None)"

definition cancel_wait_read :: "process \<Rightarrow> nat \<Rightarrow> handle_call \<Rightarrow> world \<Rightarrow> world" where
  "cancel_wait_read ps i h w = (case get_task (ap_name (ps_app ps)) (h_payload h) None (w_store w) of None \<Rightarrow> drop_call i w
     | Some r \<Rightarrow> next_call i (Some (if t_status r = ''cancelled'' then Wait_Telling else Wait_Cancelling r)) w)"

declare result_read_def [simp] cancel_wait_read_def [simp]

definition call_step :: "cron_lib \<Rightarrow> process \<Rightarrow> nat \<Rightarrow> handle_call \<Rightarrow> pyfloat \<Rightarrow> task_answer \<Rightarrow> world \<Rightarrow> world" where
  "call_step cl ps i h now ans w = (let s = w_store w; wk = h_worker h in case h_phase h of
     Submitting r \<Rightarrow> drop_call i (w\<lparr>w_store := task_step (cl_py cl) (Enqueue r) s\<rparr>)
   | Reading p \<Rightarrow> (case read_handle ps h s of None \<Rightarrow> drop_call i w
      | Some r \<Rightarrow> next_call i (case p of For_Cancel \<Rightarrow> Some (Cancelling r)
          | For_Result \<Rightarrow> result_read ps ans r) w)
   | Cancelling r \<Rightarrow> (case cancel_task (t_application_id r) (t_user_id r) (t_job_id r) now s of
        (res, s') \<Rightarrow> next_call i (cancelled_then (Telling (Failed_With ''task_cancelled'')) res) (w\<lparr>w_store := s'\<rparr>))
   | Suspending \<Rightarrow> (case ans of
        Given _ \<Rightarrow> next_call i (if require_ready (w_workers w wk) = None then Some Reading_Again else None)
                    (emit (Suspended wk (h_payload h)) w)
      | _ \<Rightarrow> drop_call i w)
   | Reading_Again \<Rightarrow> (case read_handle ps h s of None \<Rightarrow> drop_call i w
      | Some r \<Rightarrow> next_call i (if outcome_of r = Unfinished then None else Some (Telling (outcome_of r))) w)
   | Telling oc \<Rightarrow> drop_call i (publish_outcome ps wk (h_payload h) oc w)
   | Wait_Reading \<Rightarrow> cancel_wait_read ps i h w
   | Wait_Cancelling r \<Rightarrow> (case cancel_task (t_application_id r) (t_user_id r) (t_job_id r) now s of
        (res, s') \<Rightarrow> next_call i (cancelled_then Wait_Telling res) (w\<lparr>w_store := s'\<rparr>))
   | Wait_Telling \<Rightarrow> drop_call i (emit (Cancelled_Wait wk (h_payload h)) w))"


section \<open>The world\<close>

text \<open>
  \<open>Store_Event\<close> is an operation of anyone else on the store. \<open>Stop\<close> is the end of a process, by \<^verbatim>\<open>close\<close> or by its death.
\<close>

datatype event =
    Store_Event task_op
  | Start nat
  | Loop nat wake
  | Attempt nat pyfloat task_answer
  | Heartbeat nat pyfloat
  | Cancel_Attempt nat
  | Defer nat authored_task pyval "snapshot option" "string list option" "resume_artifact option" "string option" pyfloat string pyfloat
  | Call nat purpose string string "string option"
  | Cancel_Wait nat string
  | Call_Step nat pyfloat task_answer
  | Abandon_Call nat
  | Stop nat

definition open_handle :: "nat \<Rightarrow> string \<Rightarrow> string \<Rightarrow> string option \<Rightarrow> call_phase \<Rightarrow> world \<Rightarrow> world" where
  "open_handle k name payload user ph w = w\<lparr>w_calls := w_calls w @
     [(next_id (w_calls w), \<lparr>h_worker = k, h_task = name, h_payload = payload, h_user = user, h_phase = ph\<rparr>)]\<rparr>"

definition stop_process :: "nat \<Rightarrow> world \<Rightarrow> world" where
  "stop_process k w = w\<lparr>w_workers := (w_workers w)(k := (w_workers w k)\<lparr>wk_state := Closed, wk_loop := Off\<rparr>),
     w_attempts := filter (\<lambda>(_, a). a_worker a \<noteq> k) (w_attempts w),
     w_calls := filter (\<lambda>(_, h). h_worker h \<noteq> k) (w_calls w)\<rparr>"

definition start_process :: "nat \<Rightarrow> world \<Rightarrow> world" where
  "start_process k w = (if wk_state (w_workers w k) = New \<and> wk_loop (w_workers w k) = Off then set_loop k Opening w else w)"

fun world_step :: "cron_lib \<Rightarrow> (nat \<Rightarrow> process) \<Rightarrow> event \<Rightarrow> world \<Rightarrow> world" where
  "world_step cl P (Store_Event op) w = w\<lparr>w_store := task_step (cl_py cl) op (w_store w)\<rparr>"
| "world_step cl P (Start k) w = start_process k w"
| "world_step cl P (Loop k wa) w = loop_step cl (P k) k wa w"
| "world_step cl P (Attempt i now ans) w = (case map_of (w_attempts w) i of None \<Rightarrow> w
     | Some a \<Rightarrow> attempt_step (P (a_worker a)) i a now ans w)"
| "world_step cl P (Heartbeat i now) w = (case map_of (w_attempts w) i of None \<Rightarrow> w | Some a \<Rightarrow> renew_step i a now w)"
| "world_step cl P (Cancel_Attempt i) w = drop_attempt i w"
| "world_step cl P (Defer k task arguments sn permissions artifact key delay uuid now) w =
     (case defer_request cl (ps_app (P k)) (w_workers w k) task arguments sn permissions artifact key delay uuid now of
        Inl _ \<Rightarrow> w | Inr r \<Rightarrow> open_handle k (t_task_name r) (t_job_id r) None (Submitting r) w)"
| "world_step cl P (Call k p name payload user) w =
     (if task_by_name (ps_app (P k)) name = None \<or> require_ready (w_workers w k) \<noteq> None then w
      else open_handle k name payload user (Reading p) w)"
| "world_step cl P (Cancel_Wait k payload) w =
     (if \<not> ps_port (P k) \<or> require_ready (w_workers w k) \<noteq> None then w else open_handle k [] payload None Wait_Reading w)"
| "world_step cl P (Call_Step i now ans) w = (case map_of (w_calls w) i of None \<Rightarrow> w
     | Some h \<Rightarrow> call_step cl (P (h_worker h)) i h now ans w)"
| "world_step cl P (Abandon_Call i) w = drop_call i w"
| "world_step cl P (Stop k) w = stop_process k w"

end
