(* ===== verification/Worker_Safety.thy ===== *)
theory Worker_Safety
  imports Task_Runtime
begin

text \<open>
  Invariants of the task workers. Whatever steps, the store takes at most one of its own operations (\<open>evolves\<close>), so that what
  \<open>Task_Machine\<close> shows of a job carries over to every interleaving of processes. \<open>worker_inv\<close> says that every outcome on its way to a waiter is the
  stored one and that every attempt belongs to a stored job; \<open>starts_inv\<close> that no claim of a job runs twice; \<open>capacity_inv\<close> bounds a
  process's attempts.
\<close>

section \<open>What a step does to the store\<close>

definition evolves :: "pylib \<Rightarrow> task_store \<Rightarrow> task_store \<Rightarrow> bool" where
  "evolves lib s s' \<longleftrightarrow> s' = s \<or> (\<exists>op. fresh_op op \<and> s' = task_step lib op s)"

lemma evolves_refl [simp, intro]: "evolves lib s s"
  by (simp add: evolves_def)

lemma evolves_step [intro]: "fresh_op op \<Longrightarrow> evolves lib s (task_step lib op s)"
  by (auto simp: evolves_def)

lemma evolves_jobs: "evolves lib s s' \<Longrightarrow> jobs_ok s \<Longrightarrow> jobs_ok s'"
  by (auto simp: evolves_def intro: jobs_ok_step)

lemma evolves_move:
  assumes "evolves lib s s'" "jobs_ok s" "task_at s k = Some r"
  shows "\<exists>r'. task_at s' k = Some r' \<and> task_move r r'"
  using assms task_step_refines [of s k r lib] by (auto simp: evolves_def jobs_ok_def intro: task_move.stay)

lemma fresh_ops [simp]:
  "fresh_op (Claim u app qs now l n)" "fresh_op (Renew app job tok now l)" "fresh_op (Finish app job tok now st v c ra)"
  "fresh_op (Cancel app user job now)" "fresh_op (Create_Cron c')" "fresh_op (Update_Cron c' n')" "fresh_op (Delete_Cron app user sid)"
  by (simp_all add: fresh_op_def submitted_def)

lemma op_evolves:
  "claim_tasks u app qs now l n s = (res, s') \<Longrightarrow> evolves lib s s'"
  "renew_task_lease app job tok now l s = (res', s') \<Longrightarrow> evolves lib s s'"
  "finish_task app job tok now st v c ra s = (res', s') \<Longrightarrow> evolves lib s s'"
  "cancel_task app user job now s = (res', s') \<Longrightarrow> evolves lib s s'"
  "update_cron c' n' s = (res'', s') \<Longrightarrow> evolves lib s s'"
  by (metis evolves_step fresh_ops(1) snd_conv task_step.simps(2), metis evolves_step fresh_ops(2) snd_conv task_step.simps(3),
      metis evolves_step fresh_ops(3) snd_conv task_step.simps(4), metis evolves_step fresh_ops(4) snd_conv task_step.simps(5),
      metis evolves_step fresh_ops(6) snd_conv task_step.simps(7))

lemma register_evolves:
  "register_create cl q s = (res, s') \<Longrightarrow> evolves (cl_py cl) s s'"
  "register_write q s = (res, s') \<Longrightarrow> evolves lib s s'"
proof -
  assume "register_create cl q s = (res, s')"
  then have "s' = task_step (cl_py cl) (Create_Cron q) s"
    by (auto simp: register_create_def split: prod.splits sum.splits)
  then show "evolves (cl_py cl) s s'" using evolves_step [OF fresh_ops(5)] by metis
next
  assume "register_write q s = (res, s')"
  then have "update_cron q (c_revision q) s = (fst (update_cron q (c_revision q) s), s')"
    by (auto simp: register_write_def split: prod.splits)
  then show "evolves lib s s'" by (rule op_evolves(5))
qed


section \<open>The records the runtime submits\<close>

definition tasks_ok :: "application \<Rightarrow> bool" where
  "tasks_ok ap \<longleftrightarrow> list_all (\<lambda>c. 0 \<le> ct_max_retries c) (ap_tasks ap)"

lemma task_by_name_tasks: "task_by_name ap n = Some c \<Longrightarrow> c \<in> set (ap_tasks ap) \<and> ct_name c = n"
  by (auto simp: task_by_name_def dest!: map_of_SomeD)

lemma compiled_for_tasks: "compiled_for ap a = Inr c \<Longrightarrow> c \<in> set (ap_tasks ap)"
  by (auto simp: compiled_for_def find_Some_iff split: option.splits)

lemma task_record_of_fields:
  assumes "task_record_of cl ap c args sn perms trig key sched uuid now = Inr t"
  shows "t_application_id t = ap_name ap" "t_user_id t = (case sn of None \<Rightarrow> ap_automation ap | Some q \<Rightarrow> sn_user_id q)"
    "t_task_name t = ct_name c" "safe_task_arguments args = Inr (t_arguments t)"
    "t_invocation t = (case sn of None \<Rightarrow> PyNone | Some q \<Rightarrow> snapshot_value q)" "t_agent_permissions t = map_option sort perms"
    "t_trigger t = trig" "t_status t = ''pending''" "t_attempt t = 0" "t_lease_token t = None" "t_lease_expires_at t = None"
    "t_max_retries t = ct_max_retries c" "t_scheduled_at t = sched" "t_queue t = ct_queue c" "t_idempotency_key t = key"
  using assms unfolding task_record_of_def Let_def sum_bind_Inr by auto

lemma task_record_of_fresh:
  "task_record_of cl ap c args sn perms trig key sched uuid now = Inr t \<Longrightarrow> tasks_ok ap \<Longrightarrow> c \<in> set (ap_tasks ap) \<Longrightarrow> fresh_task t"
  using task_record_of_fields [of cl ap c args sn perms trig key sched uuid now t]
  by (simp add: fresh_task_def tasks_ok_def list_all_iff)

lemma cron_task_record_cases:
  assumes "cron_task_record cl ap c r now = Inr t"
  obtains q where "task_record_of cl ap c (c_arguments r) (Some (occurrence_snapshot cl ap r)) (Some []) ''cron''
      (Some (occurrence_text cl r)) (c_next_run_at r) [] now = Inr q" "t = q\<lparr>t_cron_schedule_id := Some (c_schedule_id r)\<rparr>"
  using assms by (cases "task_record_of cl ap c (c_arguments r) (Some (occurrence_snapshot cl ap r)) (Some []) ''cron''
      (Some (occurrence_text cl r)) (c_next_run_at r) [] now") (auto simp: cron_task_record_def)

lemma dispatch_request_fresh:
  assumes "dispatch_request cl ap now r = Inr op" "tasks_ok ap"
  shows "fresh_op op"
proof (cases "task_by_name ap (c_task_name r)")
  case None
  with assms(1) show ?thesis by (auto simp: dispatch_request_def)
next
  case (Some c)
  show ?thesis
  proof (cases "valid_call c (c_arguments r)")
    case False
    with assms(1) Some show ?thesis by (auto simp: dispatch_request_def)
  next
    case True
    with assms(1) Some obtain t nxt where t: "cron_task_record cl ap c r now = Inr t"
      and op: "op = Commit_Occurrence (c_application_id r) (c_user_id r) (c_schedule_id r) (c_revision r) (c_next_run_at r) nxt t"
      by (auto simp: dispatch_request_def sum_bind_Inr)
    obtain q where q: "task_record_of cl ap c (c_arguments r) (Some (occurrence_snapshot cl ap r)) (Some []) ''cron''
        (Some (occurrence_text cl r)) (c_next_run_at r) [] now = Inr q" "t = q\<lparr>t_cron_schedule_id := Some (c_schedule_id r)\<rparr>"
      using cron_task_record_cases [OF t] .
    have "fresh_task q" using task_record_of_fresh [OF q(1) assms(2)] task_by_name_tasks [OF Some] by simp
    then show ?thesis using q(2) by (simp add: op fresh_op_def submitted_def fresh_task_def)
  qed
qed

lemma defer_request_fresh:
  "defer_request cl ap wk a args sn perms art key delay uuid now = Inr t \<Longrightarrow> tasks_ok ap \<Longrightarrow> fresh_task t"
  using task_record_of_fresh by (auto simp: defer_request_def sum_bind_Inr dest!: compiled_for_tasks)


section \<open>What is told is stored\<close>

definition told :: "task_store \<Rightarrow> string \<times> string \<Rightarrow> task_outcome \<Rightarrow> bool" where
  "told s k oc \<longleftrightarrow> oc \<noteq> Unfinished \<and> (\<exists>q. task_at s k = Some q \<and> outcome_of q = oc)"

definition same_job :: "task_store \<Rightarrow> task_record \<Rightarrow> bool" where
  "same_job s r \<longleftrightarrow> 1 \<le> t_attempt r \<and> (\<exists>q. task_at s (task_key r) = Some q \<and> t_user_id q = t_user_id r \<and>
     t_max_retries q = t_max_retries r \<and> t_attempt r \<le> t_attempt q)"

lemma outcome_terminal: "outcome_of q \<noteq> Unfinished \<longleftrightarrow> terminal_status (t_status q)"
  by (auto simp: outcome_of_def terminal_status_def)

lemma told_evolves: "told s k oc \<Longrightarrow> jobs_ok s \<Longrightarrow> evolves lib s s' \<Longrightarrow> told s' k oc"
  using evolves_move [of lib s s' k] task_move_terminal unfolding told_def by (metis outcome_terminal)

lemma same_job_evolves:
  assumes "same_job s r" "jobs_ok s" "evolves lib s s'"
  shows "same_job s' r"
proof -
  obtain q where q: "task_at s (task_key r) = Some q" "t_user_id q = t_user_id r" "t_max_retries q = t_max_retries r"
    "t_attempt r \<le> t_attempt q" "1 \<le> t_attempt r" using assms(1) by (auto simp: same_job_def)
  obtain q' where "task_at s' (task_key r) = Some q'" "task_move q q'" using evolves_move [OF assms(3,2) q(1)] by blast
  with task_move_identity [of q q'] task_move_attempt [of q q'] q show ?thesis by (auto simp: same_job_def)
qed

text \<open>An outcome that is written while the lease holds is the stored one.\<close>

lemma finish_told:
  assumes "finish_task app job tok now st v c ra s = (Inr True, s')" "st = ''completed'' \<or> (st = ''failed'' \<and> c = Some ''task_failed'')"
  shows "told s' (app, job) (if st = ''completed'' then Completed v else Failed_With ''task_failed'')"
proof -
  obtain q where q: "task_at s (app, job) = Some q" and s': "s_tasks s' = AList.update (app, job) (finish_record q st now v c ra) (s_tasks s)"
    using assms(1) by (auto simp: finish_task_def Let_def owns_lease_def split: option.splits if_splits)
  have "outcome_of (finish_record q st now v c ra) = (if st = ''completed'' then Completed v else Failed_With ''task_failed'')"
    using assms(2) by (auto simp: outcome_of_def finish_record_def terminal_task_def)
  then show ?thesis using s' by (auto simp: told_def)
qed

lemma cancel_told:
  assumes "cancel_task app user job now s = (Inr True, s')"
  shows "told s' (app, job) (Failed_With ''task_cancelled'')"
proof -
  obtain r where "s_tasks s' = AList.update (app, job) (terminal_task r ''cancelled'' now PyNone (Some ''task_cancelled'')) (s_tasks s)"
    using assms by (auto simp: cancel_task_def Let_def split: option.splits if_splits)
  then show ?thesis by (simp add: told_def outcome_of_def terminal_task_def)
qed

lemma get_task_at: "get_task app job user s = Some r \<Longrightarrow> task_at s (app, job) = Some r"
  by (auto simp: get_task_def split: option.splits if_splits)

lemma get_task_told: "get_task app job user s = Some r \<Longrightarrow> outcome_of r \<noteq> Unfinished \<Longrightarrow> told s (app, job) (outcome_of r)"
  by (auto simp: told_def dest: get_task_at)

lemma get_task_key: "jobs_ok s \<Longrightarrow> get_task app job user s = Some r \<Longrightarrow> task_key r = (app, job)"
  using store_invD(3) get_task_at unfolding jobs_ok_def by blast


section \<open>Claims\<close>

lemma claimed_records:
  assumes inv: "store_inv s" and claim: "claim_tasks u app qs now l n s = (Inr rs, s')"
  shows "distinct (map task_key rs)" "int (length rs) \<le> n"
    and "r \<in> set rs \<Longrightarrow> \<exists>q. task_at s (task_key r) = Some q \<and> t_attempt r = t_attempt q + 1 \<and>
           task_at s' (task_key r) = Some r \<and> t_application_id r = app"
proof -
  note c = claim_tasks_result [OF claim]
  let ?cs = "due_candidates app qs now s"
  let ?sel = "take (nat n) (filter attempts_left ?cs)"
  have rs: "rs = map (\<lambda>(i, r). claim_record r (u i) now l) (enumerate 0 ?sel)"
    using c(2) by (simp add: c(3) claim_candidates_claimed)
  have "map task_key rs = map task_key ?sel"
    unfolding rs using map_enumerate_snd [of task_key 0 ?sel] by (simp add: case_prod_beta o_def)
  moreover have "distinct (map task_key ?sel)"
    using due_candidates_distinct [OF inv, of app qs now] by (simp add: take_map distinct_map_filter flip: take_map)
  ultimately show "distinct (map task_key rs)" by simp
  show "int (length rs) \<le> n" using c(2) by (simp add: rs)
  assume r: "r \<in> set rs"
  then obtain p where p: "p \<in> set (enumerate 0 ?sel)" "r = claim_record (snd p) (u (fst p)) now l"
    unfolding rs set_map case_prod_beta by (elim imageE)
  then have "snd p \<in> set (map snd (enumerate 0 ?sel))" unfolding set_map by (intro imageI)
  then have "snd p \<in> set ?sel" by simp
  then have "snd p \<in> set ?cs" by (auto dest!: in_set_takeD)
  note d = due_candidates_member [OF inv this]
  have "task_at s' (task_key r) = Some r"
    using claim_candidates_stored [OF due_candidates_distinct [OF inv], of "[]"] r by (simp add: c(3,4))
  then show "\<exists>q. task_at s (task_key r) = Some q \<and> t_attempt r = t_attempt q + 1 \<and>
      task_at s' (task_key r) = Some r \<and> t_application_id r = app"
    using d(1,3) by (intro exI [of _ "snd p"]) (simp add: p(2) claim_record_def task_key_def)
qed

lemma claimed_same_job:
  assumes ok: "jobs_ok s" and claim: "claim_tasks u app qs now l n s = (Inr rs, s')" and r: "r \<in> set rs"
  shows "same_job s' r" "t_application_id r = app"
proof -
  obtain q where q: "task_at s (task_key r) = Some q" "t_attempt r = t_attempt q + 1" "task_at s' (task_key r) = Some r"
    "t_application_id r = app" using claimed_records(3) [OF _ claim r] ok by (auto simp: jobs_ok_def)
  have "task_wf q" using ok q(1) unfolding jobs_ok_def by blast
  then have "0 \<le> t_attempt q" by (simp add: task_wf_def)
  with q show "same_job s' r" "t_application_id r = app" by (simp_all add: same_job_def)
qed


section \<open>The invariant of the attempts, the calls and the effects\<close>

abbreviation app_of :: "(nat \<Rightarrow> process) \<Rightarrow> nat \<Rightarrow> string" where
  "app_of P k \<equiv> ap_name (ps_app (P k))"

definition restores :: "string \<Rightarrow> task_record \<Rightarrow> snapshot option \<Rightarrow> string list option \<Rightarrow> bool" where
  "restores app r sn grants \<longleftrightarrow> record_snapshot app r = Inr sn \<and> validated_permissions (t_agent_permissions r) = Inr grants"

definition phase_ok :: "string \<Rightarrow> task_store \<Rightarrow> task_record \<Rightarrow> attempt_phase \<Rightarrow> bool" where
  "phase_ok app s r ph = (case ph of
     Fresh \<Rightarrow> True
   | Sessions sn \<Rightarrow> record_snapshot app r = Inr (Some sn)
   | Leasing sn grants \<Rightarrow> restores app r (Some sn) grants
   | Authored sn grants \<Rightarrow> restores app r sn grants
   | Finishing st v c ra \<Rightarrow> st = ''pending'' \<or> st = ''completed'' \<or> (st = ''failed'' \<and> c = Some ''task_failed'')
   | Publishing oc \<Rightarrow> told s (task_key r) oc)"

lemma phase_ok_simps [simp]:
  "phase_ok app s r Fresh" "phase_ok app s r (Sessions sn) = (record_snapshot app r = Inr (Some sn))"
  "phase_ok app s r (Leasing sn grants) = restores app r (Some sn) grants"
  "phase_ok app s r (Authored sn' grants) = restores app r sn' grants"
  "phase_ok app s r (Finishing st v c ra) = (st = ''pending'' \<or> st = ''completed'' \<or> (st = ''failed'' \<and> c = Some ''task_failed''))"
  "phase_ok app s r (Publishing oc) = told s (task_key r) oc"
  by (simp_all add: phase_ok_def)

definition attempt_ok :: "(nat \<Rightarrow> process) \<Rightarrow> task_store \<Rightarrow> task_attempt \<Rightarrow> bool" where
  "attempt_ok P s a \<longleftrightarrow> t_application_id (a_record a) = app_of P (a_worker a) \<and> same_job s (a_record a) \<and>
     phase_ok (app_of P (a_worker a)) s (a_record a) (a_phase a)"

definition call_ok :: "(nat \<Rightarrow> process) \<Rightarrow> task_store \<Rightarrow> handle_call \<Rightarrow> bool" where
  "call_ok P s h = (let k = (app_of P (h_worker h), h_payload h) in case h_phase h of
     Submitting r \<Rightarrow> fresh_task r
   | Cancelling r \<Rightarrow> task_key r = k
   | Telling oc \<Rightarrow> told s k oc
   | Wait_Cancelling r \<Rightarrow> task_key r = k
   | Wait_Telling \<Rightarrow> told s k (Failed_With ''task_cancelled'')
   | _ \<Rightarrow> True)"

definition loop_ok :: "(nat \<Rightarrow> process) \<Rightarrow> task_store \<Rightarrow> nat \<Rightarrow> loop_phase \<Rightarrow> bool" where
  "loop_ok P s k ph = (case ph of Reconcile_Tell x oc xs later \<Rightarrow> told s (app_of P k, x) oc | _ \<Rightarrow> True)"

definition worker_effect_ok :: "(nat \<Rightarrow> process) \<Rightarrow> task_store \<Rightarrow> worker_effect \<Rightarrow> bool" where
  "worker_effect_ok P s e = (case e of
     Ran k r sn grants \<Rightarrow> same_job s r \<and> restores (app_of P k) r sn grants
   | Told k p oc \<Rightarrow> told s (app_of P k, p) oc
   | Cancelled_Wait k p \<Rightarrow> told s (app_of P k, p) (Failed_With ''task_cancelled'')
   | Suspended k p \<Rightarrow> True)"

definition worker_inv :: "(nat \<Rightarrow> process) \<Rightarrow> world \<Rightarrow> bool" where
  "worker_inv P w \<longleftrightarrow> jobs_ok (w_store w) \<and> dict_ok (w_attempts w) \<and> dict_ok (w_calls w) \<and>
     (\<forall>x\<in>set (w_attempts w). attempt_ok P (w_store w) (snd x)) \<and> (\<forall>x\<in>set (w_calls w). call_ok P (w_store w) (snd x)) \<and>
     (\<forall>k. loop_ok P (w_store w) k (wk_loop (w_workers w k))) \<and> (\<forall>e\<in>set (w_effects w). worker_effect_ok P (w_store w) e)"

lemma worker_invD:
  assumes "worker_inv P w"
  shows "jobs_ok (w_store w)" "dict_ok (w_attempts w)" "dict_ok (w_calls w)"
    "map_of (w_attempts w) i = Some a \<Longrightarrow> attempt_ok P (w_store w) a"
    "map_of (w_calls w) i = Some h \<Longrightarrow> call_ok P (w_store w) h"
    "loop_ok P (w_store w) k (wk_loop (w_workers w k))"
    "e \<in> set (w_effects w) \<Longrightarrow> worker_effect_ok P (w_store w) e"
proof -
  show "map_of (w_attempts w) i = Some a \<Longrightarrow> attempt_ok P (w_store w) a"
    "map_of (w_calls w) i = Some h \<Longrightarrow> call_ok P (w_store w) h"
    using assms map_of_SomeD unfolding worker_inv_def by fastforce+
qed (use assms in \<open>auto simp: worker_inv_def\<close>)

lemma parts_evolve:
  assumes "jobs_ok s" "evolves lib s s'"
  shows "attempt_ok P s a \<Longrightarrow> attempt_ok P s' a" "call_ok P s h \<Longrightarrow> call_ok P s' h"
    "loop_ok P s k ph \<Longrightarrow> loop_ok P s' k ph" "worker_effect_ok P s e \<Longrightarrow> worker_effect_ok P s' e"
  using told_evolves [OF _ assms] same_job_evolves [OF _ assms]
  by (auto simp: attempt_ok_def phase_ok_def call_ok_def loop_ok_def worker_effect_ok_def Let_def
      split: attempt_phase.splits call_phase.splits loop_phase.splits worker_effect.splits)

named_theorems keeps \<open>a change of the world keeps the invariant of the workers\<close>

lemma inv_store: "worker_inv P w \<Longrightarrow> evolves lib (w_store w) s' \<Longrightarrow> worker_inv P (w\<lparr>w_store := s'\<rparr>)"
  using parts_evolve [of "w_store w" lib s'] evolves_jobs [of lib "w_store w" s'] by (auto simp: worker_inv_def)

lemma inv_workers:
  "worker_inv P w \<Longrightarrow> (\<And>k. loop_ok P (w_store w) k (wk_loop (f k))) \<Longrightarrow> worker_inv P (w\<lparr>w_workers := f\<rparr>)"
  by (simp add: worker_inv_def)

lemma inv_worker_at:
  "worker_inv P w \<Longrightarrow> loop_ok P (w_store w) k (wk_loop q) \<Longrightarrow> worker_inv P (w\<lparr>w_workers := (w_workers w)(k := q)\<rparr>)"
  by (rule inv_workers) (simp_all add: worker_invD(6))

lemma loop_ok_others [simp]:
  "loop_ok P s k Off" "loop_ok P s k Opening" "loop_ok P s k (Retiring after)" "loop_ok P s k (Pausing rs after)"
  "loop_ok P s k (Registering cs)" "loop_ok P s k (Registration q cs)" "loop_ok P s k Due" "loop_ok P s k (Dispatching rs)"
  "loop_ok P s k (Claiming n)" "loop_ok P s k (Reconciling after)" "loop_ok P s k (Reconcile_Read xs after)" "loop_ok P s k Sleeping"
  by (simp_all add: loop_ok_def)

lemma inv_set_loop [keeps]: "worker_inv P w \<Longrightarrow> loop_ok P (w_store w) k ph \<Longrightarrow> worker_inv P (set_loop k ph w)"
  unfolding set_loop_def by (rule inv_worker_at) simp_all

lemma inv_off [keeps]:
  "worker_inv P w \<Longrightarrow> worker_inv P (start_failed k w)" "worker_inv P w \<Longrightarrow> worker_inv P (loop_died k w)"
  unfolding start_failed_def loop_died_def by (rule inv_worker_at; simp)+

lemma inv_registering [keeps]: "worker_inv P w \<Longrightarrow> worker_inv P (registering k cs w)"
  unfolding registering_def by (auto intro!: inv_worker_at inv_set_loop)

lemma inv_registered [keeps]: "worker_inv P w \<Longrightarrow> worker_inv P (registered k res cs w)"
  unfolding registered_def by (auto intro!: keeps split: sum.split registration.split)

lemma inv_loop_moves [keeps]:
  "worker_inv P w \<Longrightarrow> worker_inv P (reconcile_next k ids later w)"
  "worker_inv P w \<Longrightarrow> worker_inv P (after_claim ps k sweep w)"
  "worker_inv P w \<Longrightarrow> worker_inv P (to_claim ps k sweep w)"
  "worker_inv P w \<Longrightarrow> worker_inv P (dispatching ps k sweep rs w)"
  unfolding reconcile_next_def after_claim_def to_claim_def dispatching_def Let_def
  by (auto intro!: keeps split: if_splits)

lemma inv_emit [keeps]: "worker_inv P w \<Longrightarrow> worker_effect_ok P (w_store w) e \<Longrightarrow> worker_inv P (emit e w)"
  by (auto simp: worker_inv_def)

lemma inv_drop [keeps]:
  "worker_inv P w \<Longrightarrow> worker_inv P (drop_attempt i w)" "worker_inv P w \<Longrightarrow> worker_inv P (drop_call i w)"
  by (auto simp: worker_inv_def drop_attempt_def drop_call_def)

lemma map_values_keys [simp]: "map (fst \<circ> (\<lambda>(j, a). (j, f j a))) d = map fst d"
  by (induction d) auto

lemma inv_set_attempt [keeps]:
  assumes inv: "worker_inv P w" and a: "map_of (w_attempts w) i = Some a"
    and ph: "phase_ok (app_of P (a_worker a)) (w_store w) (a_record a) ph"
  shows "worker_inv P (set_attempt i ph w)"
proof -
  have "attempt_ok P (w_store w) (snd y)" if y: "y \<in> set (w_attempts (set_attempt i ph w))" for y
  proof -
    obtain j b where b: "(j, b) \<in> set (w_attempts w)" "y = (j, if j = i then b\<lparr>a_phase := ph\<rparr> else b)"
      using y by (auto simp: set_attempt_def)
    show ?thesis
    proof (cases "j = i")
      case True
      then have "b = a" using b(1) a worker_invD(2) [OF inv] by (metis map_of_is_SomeI option.inject)
      with True b(2) ph worker_invD(4) [OF inv a] show ?thesis by (simp add: attempt_ok_def)
    next
      case False
      then show ?thesis using b inv unfolding worker_inv_def by auto
    qed
  qed
  moreover have "dict_ok (w_attempts (set_attempt i ph w))"
    using worker_invD(2) [OF inv] by (simp add: set_attempt_def)
  ultimately show ?thesis using inv by (simp add: worker_inv_def set_attempt_def)
qed

lemma inv_set_call [keeps]:
  assumes inv: "worker_inv P w" and h: "map_of (w_calls w) i = Some h" and ph: "call_ok P (w_store w) (h\<lparr>h_phase := ph\<rparr>)"
  shows "worker_inv P (set_call i ph w)"
proof -
  have "call_ok P (w_store w) (snd y)" if y: "y \<in> set (w_calls (set_call i ph w))" for y
  proof -
    obtain j b where b: "(j, b) \<in> set (w_calls w)" "y = (j, if j = i then b\<lparr>h_phase := ph\<rparr> else b)"
      using y by (auto simp: set_call_def)
    show ?thesis
    proof (cases "j = i")
      case True
      then have "b = h" using b(1) h worker_invD(3) [OF inv] by (metis map_of_is_SomeI option.inject)
      with True b(2) ph show ?thesis by simp
    next
      case False
      then show ?thesis using b inv unfolding worker_inv_def by auto
    qed
  qed
  moreover have "dict_ok (w_calls (set_call i ph w))"
    using worker_invD(3) [OF inv] by (simp add: set_call_def)
  ultimately show ?thesis using inv by (simp add: worker_inv_def set_call_def)
qed

lemma next_id_fresh: "x \<in> set xs \<Longrightarrow> fst x < next_id xs"
  unfolding next_id_def by (induction xs) auto

lemma spawn_keys: "map fst (w_attempts (spawn_attempts k rs w)) =
    map fst (w_attempts w) @ map (\<lambda>j. next_id (w_attempts w) + j) [0..<length rs]"
proof -
  have e: "fst \<circ> (\<lambda>(j, r). (n + j, f r)) = (+) n \<circ> fst" for n and f :: "task_record \<Rightarrow> task_attempt"
    by (auto simp: fun_eq_iff)
  have "map (fst \<circ> (\<lambda>(j, r). (n + j, f r))) (enumerate 0 rs) = map ((+) n) (map fst (enumerate 0 rs))"
    for n and f :: "task_record \<Rightarrow> task_attempt" by (simp only: map_map e)
  then show ?thesis by (simp add: spawn_attempts_def)
qed

lemma inv_spawn [keeps]:
  assumes inv: "worker_inv P w" and rs: "\<And>r. r \<in> set rs \<Longrightarrow> same_job (w_store w) r \<and> t_application_id r = app_of P k"
  shows "worker_inv P (spawn_attempts k rs w)"
proof -
  let ?n = "next_id (w_attempts w)"
  have "distinct (map (\<lambda>j. ?n + j) [0..<length rs])" by (simp add: distinct_map)
  moreover have "fst ` set (w_attempts w) \<inter> (\<lambda>j. ?n + j) ` {0..<length rs} = {}"
  proof (rule ccontr)
    assume "\<not> ?thesis"
    then obtain x j where "x \<in> set (w_attempts w)" "fst x = ?n + j" by blast
    then show False using next_id_fresh [of x "w_attempts w"] by simp
  qed
  ultimately have "dict_ok (w_attempts (spawn_attempts k rs w))"
    using worker_invD(2) [OF inv] unfolding spawn_keys distinct_append by simp
  moreover have "attempt_ok P (w_store w) (snd y)" if y: "y \<in> set (w_attempts (spawn_attempts k rs w))" for y
  proof (cases "y \<in> set (w_attempts w)")
    case True
    then show ?thesis using inv by (auto simp: worker_inv_def)
  next
    case False
    then obtain j r where "(j, r) \<in> set (enumerate 0 rs)" and y: "snd y = \<lparr>a_worker = k, a_record = r, a_phase = Fresh\<rparr>"
      using y by (auto simp: spawn_attempts_def)
    then have "r \<in> set (map snd (enumerate 0 rs))" unfolding set_map by (metis imageI snd_conv)
    then have "r \<in> set rs" by simp
    then show ?thesis using rs y by (simp add: attempt_ok_def phase_ok_def)
  qed
  ultimately show ?thesis using inv by (simp add: worker_inv_def spawn_attempts_def)
qed

lemma inv_open_call [keeps]:
  assumes inv: "worker_inv P w"
    and ok: "call_ok P (w_store w) \<lparr>h_worker = k, h_task = name, h_payload = payload, h_user = user, h_phase = ph\<rparr>"
  shows "worker_inv P (open_handle k name payload user ph w)"
proof -
  have "next_id (w_calls w) \<notin> fst ` set (w_calls w)" using next_id_fresh [of _ "w_calls w"] by (metis imageE less_irrefl)
  then show ?thesis using inv ok by (auto simp: worker_inv_def open_handle_def)
qed

lemma inv_stop [keeps]: "worker_inv P w \<Longrightarrow> worker_inv P (stop_process k w)"
  by (auto simp: worker_inv_def stop_process_def)

lemma inv_start [keeps]: "worker_inv P w \<Longrightarrow> worker_inv P (start_process k w)"
  by (simp add: start_process_def keeps)


section \<open>Every event keeps it\<close>

text \<open>
  Clients of the store submit fresh jobs only, and a compiled task never has a negative number of retries.
\<close>

fun event_ok :: "event \<Rightarrow> bool" where
  "event_ok (Store_Event op) = fresh_op op"
| "event_ok _ = True"

lemma inv_start_step:
  assumes inv: "worker_inv P w"
  shows "worker_inv P (start_step cl (P k) k wa ph w)"
proof -
  have upd: "worker_inv P (w\<lparr>w_store := s'\<rparr>)" if "update_cron c v (w_store w) = (res, s')" for c v res s'
    using inv_store [OF inv op_evolves(5) [OF that]] .
  have cre: "worker_inv P (w\<lparr>w_store := s'\<rparr>)" if "register_create cl q (w_store w) = (res, s')" for q res s'
    using inv_store [OF inv register_evolves(1) [OF that]] .
  have wri: "worker_inv P (w\<lparr>w_store := s'\<rparr>)" if "register_write q (w_store w) = (res, s')" for q res s'
    using inv_store [OF inv register_evolves(2) [OF that]] .
  show ?thesis
  proof (cases ph)
    case Opening
    then show ?thesis by (auto simp: start_step_def Let_def inv keeps split: task_answer.split)
  next
    case (Retiring after)
    then show ?thesis by (auto simp: start_step_def Let_def inv keeps pausing_def split: sum.split)
  next
    case (Pausing rs after)
    then show ?thesis by (auto simp: start_step_def Let_def inv pausing_def intro!: keeps dest: upd split: list.split prod.split sum.split)
  next
    case (Registering cs)
    then show ?thesis by (auto simp: start_step_def Let_def inv intro!: keeps dest: cre split: list.split prod.split sum.split)
  next
    case (Registration q cs)
    then show ?thesis by (auto simp: start_step_def Let_def inv intro!: keeps dest: wri split: registration.split prod.split)
  qed (auto simp: start_step_def Let_def inv)
qed

lemma inv_work_step:
  assumes inv: "worker_inv P w" and ok: "tasks_ok (ps_app (P k))" and loop: "loop_ok P (w_store w) k ph"
  shows "worker_inv P (work_step cl (P k) k wa ph w)"
proof (cases ph)
  case Due
  then show ?thesis by (auto simp: work_step_def Let_def inv keeps split: sum.split)
next
  case (Dispatching rs)
  show ?thesis
  proof (cases rs)
    case Nil
    then show ?thesis using Dispatching inv by (simp add: work_step_def)
  next
    case (Cons r rs')
    show ?thesis
    proof (cases "dispatch_request cl (ps_app (P k)) (wa_now wa) r")
      case (Inl e)
      then show ?thesis using Dispatching Cons inv by (simp add: work_step_def keeps)
    next
      case (Inr op)
      have "worker_inv P (w\<lparr>w_store := task_step (cl_py cl) op (w_store w)\<rparr>)"
        by (rule inv_store [OF inv evolves_step]) (rule dispatch_request_fresh [OF Inr ok])
      then show ?thesis using Dispatching Cons Inr by (simp add: work_step_def Let_def keeps)
    qed
  qed
next
  case (Claiming n)
  obtain res s' where c: "claim_tasks (wa_uuid wa) (app_of P k) (worker_queues (ps_app (P k))) (wa_now wa) lease_seconds (int n) (w_store w) = (res, s')"
    by (meson surj_pair)
  have inv': "worker_inv P (w\<lparr>w_store := s'\<rparr>)" by (rule inv_store [OF inv op_evolves(1) [OF c]])
  show ?thesis
  proof (cases res)
    case (Inl e)
    then show ?thesis using Claiming c inv' by (simp add: work_step_def Let_def keeps)
  next
    case (Inr rs)
    have "worker_inv P (spawn_attempts k rs (w\<lparr>w_store := s'\<rparr>))"
      using claimed_same_job [OF worker_invD(1) [OF inv] c [unfolded Inr]] by (intro inv_spawn [OF inv']) auto
    then show ?thesis using Claiming c Inr by (simp add: work_step_def Let_def keeps)
  qed
next
  case (Reconciling after)
  then show ?thesis by (auto simp: work_step_def Let_def inv keeps split: option.split)
next
  case (Reconcile_Read xs later)
  then show ?thesis
    by (auto simp: work_step_def Let_def inv loop_ok_def intro!: keeps dest: get_task_told split: list.split option.split)
next
  case (Reconcile_Tell x oc xs later)
  then have "told (w_store w) (app_of P k, x) oc" using loop by (simp add: loop_ok_def)
  then show ?thesis using Reconcile_Tell by (auto simp: work_step_def Let_def inv worker_effect_ok_def intro!: keeps)
qed (auto simp: work_step_def Let_def inv keeps)

lemma failed_attempt_ok [simp]: "phase_ok app s r (failed_attempt r now)"
  by (simp add: failed_attempt_def)

lemma before_authored_ok: "record_snapshot app r = Inr sn \<Longrightarrow> phase_ok app s r (before_authored sn r now)"
  by (auto simp: before_authored_def sum_bind_Inr restores_def split: sum.split option.split)

lemma start_attempt_ok: "phase_ok (ap_name ap) s r (start_attempt ap sessions r now)"
  by (auto simp: start_attempt_def before_authored_ok split: option.split sum.split)

lemma inv_enter_phase:
  assumes inv: "worker_inv P w" and a: "map_of (w_attempts w) i = Some a"
    and ph: "\<And>q. next = Some q \<Longrightarrow> phase_ok (app_of P (a_worker a)) (w_store w) (a_record a) q"
  shows "worker_inv P (enter_phase i a next w)"
proof (cases "next")
  case None
  then show ?thesis by (simp add: enter_phase_def inv keeps)
next
  case (Some q)
  note set = inv_set_attempt [OF inv a ph [OF Some]]
  show ?thesis
  proof (cases "\<exists>sn grants. q = Authored sn grants")
    case True
    then obtain sn grants where q: "q = Authored sn grants" by blast
    have "same_job (w_store w) (a_record a)" using worker_invD(4) [OF inv a] by (simp add: attempt_ok_def)
    then have "worker_effect_ok P (w_store (set_attempt i q w)) (Ran (a_worker a) (a_record a) sn grants)"
      using ph [OF Some] by (simp add: q worker_effect_ok_def set_attempt_def)
    from inv_emit [OF set this] show ?thesis by (simp add: enter_phase_def Some q)
  next
    case False
    then show ?thesis using set by (auto simp: enter_phase_def Some split: attempt_phase.split)
  qed
qed

lemma inv_attempt_step:
  assumes inv: "worker_inv P w" and a: "map_of (w_attempts w) i = Some a"
  shows "worker_inv P (attempt_step (P (a_worker a)) i a now ans w)"
proof -
  let ?r = "a_record a"
  have ok: "phase_ok (app_of P (a_worker a)) (w_store w) ?r (a_phase a)" and app: "t_application_id ?r = app_of P (a_worker a)"
    using worker_invD(4) [OF inv a] by (simp_all add: attempt_ok_def)
  note enter = inv_enter_phase [OF inv a]
  show ?thesis
  proof (cases "a_phase a")
    case Fresh
    then show ?thesis by (auto simp: attempt_step_def Let_def start_attempt_ok intro: enter)
  next
    case (Sessions sn)
    then have "record_snapshot (app_of P (a_worker a)) ?r = Inr (Some sn)" using ok by simp
    then show ?thesis using Sessions before_authored_ok
      by (auto simp: attempt_step_def Let_def after_sessions_def intro!: enter split: task_answer.splits exc.splits)
  next
    case (Leasing sn grants)
    then have "restores (app_of P (a_worker a)) ?r (Some sn) grants" using ok by simp
    then show ?thesis using Leasing
      by (auto simp: attempt_step_def Let_def after_lease_def intro!: enter split: task_answer.splits)
  next
    case (Authored sn grants)
    then show ?thesis
      by (auto simp: attempt_step_def Let_def after_authored_def intro!: enter
          split: task_answer.splits sum.splits)
  next
    case (Finishing st v c ra)
    obtain res s' where f: "finish_task (t_application_id ?r) (t_job_id ?r) (lease_token ?r) now st v c ra (w_store w) = (res, s')"
      by (meson surj_pair)
    have inv': "worker_inv P (w\<lparr>w_store := s'\<rparr>)" by (rule inv_store [OF inv op_evolves(3) [OF f]])
    have st: "st = ''pending'' \<or> st = ''completed'' \<or> (st = ''failed'' \<and> c = Some ''task_failed'')"
      using ok Finishing by simp
    have "phase_ok (app_of P (a_worker a)) s' ?r q" if "after_finish st v res = Some q" for q
    proof -
      have res: "res = Inr True" and q: "(st = ''completed'' \<and> q = Publishing (Completed v)) \<or> (st = ''failed'' \<and> q = Publishing (Failed_With ''task_failed''))"
        using that by (auto simp: after_finish_def split: sum.splits bool.splits if_splits)
      then show ?thesis using finish_told [OF f [unfolded res]] st by (auto simp: task_key_def)
    qed
    then show ?thesis using inv_enter_phase [OF inv'] a Finishing f by (simp add: attempt_step_def)
  next
    case (Publishing oc)
    then have "told (w_store w) (app_of P (a_worker a), t_job_id ?r) oc" using ok app by (simp add: task_key_def)
    then show ?thesis using Publishing by (auto simp: attempt_step_def Let_def inv worker_effect_ok_def intro!: keeps)
  qed
qed

lemma inv_renew_step: "worker_inv P w \<Longrightarrow> worker_inv P (renew_step i a now w)"
  using inv_store [OF _ op_evolves(2)] by (auto simp: renew_step_def Let_def intro!: keeps split: prod.split sum.split bool.split)

lemma call_ok_simps [simp]:
  "call_ok P s (h\<lparr>h_phase := Submitting r\<rparr>) = fresh_task r" "call_ok P s (h\<lparr>h_phase := Reading p\<rparr>)"
  "call_ok P s (h\<lparr>h_phase := Cancelling r\<rparr>) = (task_key r = (app_of P (h_worker h), h_payload h))"
  "call_ok P s (h\<lparr>h_phase := Suspending\<rparr>)" "call_ok P s (h\<lparr>h_phase := Reading_Again\<rparr>)" "call_ok P s (h\<lparr>h_phase := Wait_Reading\<rparr>)"
  "call_ok P s (h\<lparr>h_phase := Telling oc\<rparr>) = told s (app_of P (h_worker h), h_payload h) oc"
  "call_ok P s (h\<lparr>h_phase := Wait_Cancelling r\<rparr>) = (task_key r = (app_of P (h_worker h), h_payload h))"
  "call_ok P s (h\<lparr>h_phase := Wait_Telling\<rparr>) = told s (app_of P (h_worker h), h_payload h) (Failed_With ''task_cancelled'')"
  by (simp_all add: call_ok_def)

lemma inv_next_call:
  assumes "worker_inv P w" "map_of (w_calls w) i = Some h" "\<And>q. next = Some q \<Longrightarrow> call_ok P (w_store w) (h\<lparr>h_phase := q\<rparr>)"
  shows "worker_inv P (next_call i next w)"
  using assms by (auto simp: next_call_def intro!: keeps split: option.split)

lemma read_handle_get: "read_handle ps h s = Some r \<Longrightarrow> get_task (ap_name (ps_app ps)) (h_payload h) (h_user h) s = Some r"
  by (auto simp: read_handle_def split: option.splits if_splits)

lemma inv_cancelling:
  assumes inv: "worker_inv P w" and h: "map_of (w_calls w) i = Some h" and key: "task_key r = (app_of P (h_worker h), h_payload h)"
    and c: "cancel_task (t_application_id r) (t_user_id r) (t_job_id r) now (w_store w) = (res, s')"
    and ph: "\<And>s. told s (app_of P (h_worker h), h_payload h) (Failed_With ''task_cancelled'') \<Longrightarrow> call_ok P s (h\<lparr>h_phase := ph\<rparr>)"
  shows "worker_inv P (next_call i (cancelled_then ph res) (w\<lparr>w_store := s'\<rparr>))"
proof (rule inv_next_call [OF inv_store [OF inv op_evolves(4) [OF c]]])
  show "map_of (w_calls (w\<lparr>w_store := s'\<rparr>)) i = Some h" using h by simp
  fix q assume "cancelled_then ph res = Some q"
  then have "res = Inr True" "q = ph" by (auto simp: cancelled_then_def split: sum.splits bool.splits)
  then show "call_ok P (w_store (w\<lparr>w_store := s'\<rparr>)) (h\<lparr>h_phase := q\<rparr>)"
    using cancel_told c ph key by (simp add: task_key_def)
qed

lemma inv_call_step:
  assumes inv: "worker_inv P w" and h: "map_of (w_calls w) i = Some h"
  shows "worker_inv P (call_step cl (P (h_worker h)) i h now ans w)"
proof -
  note step = call_step_def Let_def
  have ok: "call_ok P (w_store w) (h\<lparr>h_phase := h_phase h\<rparr>)" using worker_invD(5) [OF inv h] by simp
  note jobs = worker_invD(1) [OF inv]
  show ?thesis
  proof (cases "h_phase h")
    case (Submitting r)
    then have "fresh_op (Enqueue r)" using ok by (simp add: fresh_op_def submitted_def)
    from inv_store [OF inv evolves_step [OF this]] have "worker_inv P (w\<lparr>w_store := task_step (cl_py cl) (Enqueue r) (w_store w)\<rparr>)" .
    then show ?thesis using Submitting by (simp add: step keeps)
  next
    case (Reading p)
    then show ?thesis
      by (auto simp: step inv intro!: keeps inv_next_call [OF inv h] dest!: read_handle_get dest: get_task_key [OF jobs]
          split: option.split purpose.splits if_splits)
  next
    case (Cancelling r)
    then have "task_key r = (app_of P (h_worker h), h_payload h)" using ok by simp
    from inv_cancelling [OF inv h this] show ?thesis using Cancelling by (auto simp: step split: prod.split)
  next
    case Suspending
    then show ?thesis
      by (auto simp: step inv worker_effect_ok_def intro!: keeps inv_next_call h split: task_answer.split if_splits)
  next
    case Reading_Again
    then show ?thesis
      by (auto simp: step inv intro!: keeps inv_next_call [OF inv h] dest!: read_handle_get dest: get_task_told
          split: option.split if_splits)
  next
    case (Telling oc)
    then have "told (w_store w) (app_of P (h_worker h), h_payload h) oc" using ok by simp
    then show ?thesis using Telling by (auto simp: step inv worker_effect_ok_def intro!: keeps)
  next
    case Wait_Reading
    have "told (w_store w) (app_of P (h_worker h), h_payload h) (Failed_With ''task_cancelled'')"
      if "get_task (app_of P (h_worker h)) (h_payload h) None (w_store w) = Some r" "t_status r = ''cancelled''" for r
    proof -
      have "outcome_of r = Failed_With ''task_cancelled''" using that(2) by (simp add: outcome_of_def)
      with get_task_told [OF that(1)] show ?thesis by simp
    qed
    then show ?thesis using Wait_Reading
      by (auto simp: step inv intro!: keeps inv_next_call [OF inv h] dest: get_task_key [OF jobs] split: option.split if_splits)
  next
    case (Wait_Cancelling r)
    then have "task_key r = (app_of P (h_worker h), h_payload h)" using ok by simp
    from inv_cancelling [OF inv h this] show ?thesis using Wait_Cancelling by (auto simp: step split: prod.split)
  next
    case Wait_Telling
    then have "told (w_store w) (app_of P (h_worker h), h_payload h) (Failed_With ''task_cancelled'')" using ok by simp
    then show ?thesis using Wait_Telling by (auto simp: step inv worker_effect_ok_def intro!: keeps)
  qed
qed

lemma inv_loop_step: "worker_inv P w \<Longrightarrow> tasks_ok (ps_app (P k)) \<Longrightarrow> worker_inv P (loop_step cl (P k) k wa w)"
  by (simp add: loop_step_def Let_def inv_start_step inv_work_step worker_invD(6))

lemma inv_world_step:
  assumes inv: "worker_inv P w" and ev: "event_ok e" and ok: "\<And>k. tasks_ok (ps_app (P k))"
  shows "worker_inv P (world_step cl P e w)"
proof (cases e)
  case (Store_Event op)
  then show ?thesis using inv_store [OF inv evolves_step] ev by simp
next
  case (Defer k task args sn perms art key delay uuid now)
  then show ?thesis using defer_request_fresh [OF _ ok [of k]]
    by (auto simp: inv call_ok_def intro!: keeps split: sum.split)
qed (auto simp: inv inv_loop_step ok inv_attempt_step inv_renew_step inv_call_step call_ok_def intro!: keeps split: option.split)

lemma inv_initial: "jobs_ok s \<Longrightarrow> worker_inv P (initial_world s)"
  by (simp add: worker_inv_def initial_world_def)

end
