(* ===== verification/Worker_Pace.thy ===== *)
theory Worker_Pace
  imports Worker_Safety "HOL-Library.Multiset"
begin

text \<open>
  How often and how much the workers run: no claim of a job starts authored code twice, over all processes (\<open>code_starts\<close>), and no process holds more
  than ten attempts, the ones it is about to claim included (\<open>load_of\<close>).
\<close>

definition claim_key :: "task_record \<Rightarrow> (string \<times> string) \<times> int" where
  "claim_key r = (task_key r, t_attempt r)"

definition ran :: "worker_effect \<Rightarrow> task_record option" where
  "ran e = (case e of Ran k r sn grants \<Rightarrow> Some r | _ \<Rightarrow> None)"

definition code_runs :: "world \<Rightarrow> task_record list" where
  "code_runs w = List.map_filter ran (w_effects w)"

fun before_run :: "attempt_phase \<Rightarrow> bool" where
  "before_run Fresh = True"
| "before_run (Sessions sn) = True"
| "before_run (Leasing sn grants) = True"
| "before_run _ = False"

definition share :: "task_attempt \<Rightarrow> ((string \<times> string) \<times> int) multiset" where
  "share a = (if before_run (a_phase a) then {#claim_key (a_record a)#} else {#})"

definition shares :: "(nat \<times> task_attempt) list \<Rightarrow> ((string \<times> string) \<times> int) multiset" where
  "shares xs = (\<Sum>x\<leftarrow>xs. share (snd x))"

definition code_starts :: "world \<Rightarrow> ((string \<times> string) \<times> int) multiset" where
  "code_starts w = mset (map claim_key (code_runs w)) + shares (w_attempts w)"

definition load_of :: "nat \<Rightarrow> world \<Rightarrow> nat" where
  "load_of k w = active_attempts k w + (case wk_loop (w_workers w k) of Claiming n \<Rightarrow> n | _ \<Rightarrow> 0)"

definition pace_inv :: "world \<Rightarrow> bool" where
  "pace_inv w \<longleftrightarrow> (\<forall>x. count (code_starts w) x \<le> 1) \<and> (\<forall>k. load_of k w \<le> task_capacity)"

lemma pace_invD: "pace_inv w \<Longrightarrow> count (code_starts w) x \<le> 1" "pace_inv w \<Longrightarrow> load_of k w \<le> task_capacity"
  unfolding pace_inv_def by blast+

lemma pace_mono:
  assumes "pace_inv w" "code_starts w' \<subseteq># code_starts w" "\<And>k. load_of k w' \<le> load_of k w \<or> load_of k w' \<le> task_capacity"
  shows "pace_inv w'"
  unfolding pace_inv_def
  using pace_invD [OF assms(1)] mset_subset_eq_count [OF assms(2)] assms(3) le_trans by metis

section \<open>Changes of the world\<close>

named_theorems paced \<open>a change of the world keeps the pace of the workers\<close>

lemma load_simps [simp]:
  "load_of k (w\<lparr>w_store := s\<rparr>) = load_of k w" "code_starts (w\<lparr>w_store := s\<rparr>) = code_starts w"
  "load_of k (w\<lparr>w_calls := cs\<rparr>) = load_of k w" "code_starts (w\<lparr>w_calls := cs\<rparr>) = code_starts w"
  "load_of k (w\<lparr>w_effects := es\<rparr>) = load_of k w" "code_starts (w\<lparr>w_workers := f\<rparr>) = code_starts w"
  "active_attempts k (w\<lparr>w_store := s\<rparr>) = active_attempts k w" "active_attempts k (w\<lparr>w_workers := f\<rparr>) = active_attempts k w"
  by (simp_all add: load_of_def code_starts_def active_attempts_def code_runs_def)

lemma pace_store [simp]: "pace_inv (w\<lparr>w_store := s\<rparr>) = pace_inv w"
  by (simp add: pace_inv_def)

lemma pace_calls [simp]: "pace_inv (set_call i ph w) = pace_inv w" "pace_inv (drop_call i w) = pace_inv w"
  "pace_inv (open_handle k name payload user ph w) = pace_inv w" "pace_inv (next_call i next w) = pace_inv w"
  by (simp_all add: pace_inv_def set_call_def drop_call_def open_handle_def next_call_def split: option.split)

lemma pace_emit [simp]: "ran e = None \<Longrightarrow> pace_inv (emit e w) = pace_inv w"
  by (simp add: pace_inv_def code_starts_def code_runs_def map_filter_def)

lemma ran_others [simp]: "ran (Told k p oc) = None" "ran (Cancelled_Wait k p) = None" "ran (Suspended k p) = None"
  by (simp_all add: ran_def)

lemma load_worker_at: "load_of k (w\<lparr>w_workers := (w_workers w)(j := q)\<rparr>) =
    (if k = j then active_attempts k w + (case wk_loop q of Claiming n \<Rightarrow> n | _ \<Rightarrow> 0) else load_of k w)"
  by (simp add: load_of_def)

lemma active_load: "active_attempts k w \<le> load_of k w"
  by (simp add: load_of_def)

lemma pace_worker_at:
  assumes "pace_inv w" "\<And>n. wk_loop q = Claiming n \<Longrightarrow> active_attempts k w + n \<le> task_capacity"
  shows "pace_inv (w\<lparr>w_workers := (w_workers w)(k := q)\<rparr>)"
proof (rule pace_mono [OF assms(1)])
  fix j
  show "load_of j (w\<lparr>w_workers := (w_workers w)(k := q)\<rparr>) \<le> load_of j w \<or>
      load_of j (w\<lparr>w_workers := (w_workers w)(k := q)\<rparr>) \<le> task_capacity"
    unfolding load_worker_at using assms(2) active_load [of k w] by (cases "wk_loop q") auto
qed simp

lemma pace_set_loop:
  "pace_inv w \<Longrightarrow> (\<And>n. ph = Claiming n \<Longrightarrow> active_attempts k w + n \<le> task_capacity) \<Longrightarrow> pace_inv (set_loop k ph w)"
  unfolding set_loop_def by (rule pace_worker_at) simp_all

lemma pace_loops [paced]:
  assumes "pace_inv w"
  shows "pace_inv (start_failed k w)" "pace_inv (loop_died k w)" "pace_inv (registering k cs w)" "pace_inv (registered k res cs w)"
    "pace_inv (reconcile_next k ids later w)" "pace_inv (after_claim ps k sweep w)" "pace_inv (to_claim ps k sweep w)"
    "pace_inv (dispatching ps k sweep rs w)" "pace_inv (start_process k w)"
    "pace_inv (set_loop k (pausing rs after) w)"
proof -
  show "pace_inv (start_failed k w)" "pace_inv (loop_died k w)"
    unfolding start_failed_def loop_died_def by (rule pace_worker_at [OF assms]; simp)+
  show reg: "pace_inv (registering k cs w)" for cs
    unfolding registering_def by (auto intro!: pace_set_loop pace_worker_at assms)
  show "pace_inv (registered k res cs w)"
    unfolding registered_def start_failed_def
    by (auto intro!: pace_set_loop pace_worker_at assms reg split: sum.split registration.split)
  show "pace_inv (reconcile_next k ids later w)"
    unfolding reconcile_next_def by (rule pace_set_loop [OF assms]) (auto split: if_splits)
  show after: "pace_inv (after_claim ps k sweep w)"
    unfolding after_claim_def by (rule pace_set_loop [OF assms]) (auto split: if_splits)
  have "active_attempts k w \<le> task_capacity" using active_load [of k w] pace_invD(2) [OF assms, of k] by simp
  then show claim: "pace_inv (to_claim ps k sweep w)"
    unfolding to_claim_def Let_def by (auto intro!: pace_set_loop assms after)
  show "pace_inv (dispatching ps k sweep rs w)"
    unfolding dispatching_def by (auto intro!: pace_set_loop assms claim)
  show "pace_inv (start_process k w)" unfolding start_process_def by (auto intro!: pace_set_loop assms)
  show "pace_inv (set_loop k (pausing rs after) w)" by (rule pace_set_loop [OF assms]) (auto simp: pausing_def split: if_splits)
qed

lemma shares_Cons [simp]: "shares [] = {#}" "shares (x # xs) = share (snd x) + shares xs" "shares (xs @ ys) = shares xs + shares ys"
  by (simp_all add: shares_def)

lemma shares_filter: "shares (filter Q xs) \<subseteq># shares xs"
  by (induction xs) (auto intro: subset_mset.order_trans mset_subset_eq_add_right subset_mset.add_mono)

lemma pace_attempts:
  assumes "pace_inv w" "shares xs \<subseteq># shares (w_attempts w)" "\<And>k. length (filter (\<lambda>(_, a). a_worker a = k) xs) \<le> active_attempts k w"
  shows "pace_inv (w\<lparr>w_attempts := xs\<rparr>)"
proof (rule pace_mono [OF assms(1)])
  show "code_starts (w\<lparr>w_attempts := xs\<rparr>) \<subseteq># code_starts w" using assms(2) by (simp add: code_starts_def code_runs_def)
  show "load_of k (w\<lparr>w_attempts := xs\<rparr>) \<le> load_of k w \<or> load_of k (w\<lparr>w_attempts := xs\<rparr>) \<le> task_capacity" for k
    using assms(3) [of k] by (simp add: load_of_def active_attempts_def)
qed

lemma length_filter_filter: "length (filter R (filter Q xs)) \<le> length (filter R xs)"
  by (induction xs) auto

lemma pace_drop [paced]: "pace_inv w \<Longrightarrow> pace_inv (drop_attempt i w)"
  unfolding drop_attempt_def by (rule pace_attempts) (auto simp: active_attempts_def shares_filter length_filter_filter simp del: filter_filter)

lemma pace_stop [paced]:
  assumes "pace_inv w"
  shows "pace_inv (stop_process k w)"
proof -
  have "pace_inv (w\<lparr>w_attempts := filter (\<lambda>(_, a). a_worker a \<noteq> k) (w_attempts w)\<rparr>)" (is "pace_inv ?v")
    by (rule pace_attempts [OF assms]) (auto simp: active_attempts_def shares_filter length_filter_filter simp del: filter_filter)
  then have "pace_inv (?v\<lparr>w_workers := (w_workers ?v)(k := (w_workers ?v k)\<lparr>wk_state := Closed, wk_loop := Off\<rparr>)\<rparr>)"
    by (rule pace_worker_at) simp
  then show ?thesis by (simp add: pace_inv_def stop_process_def load_of_def code_starts_def code_runs_def active_attempts_def)
qed


section \<open>An attempt that moves\<close>

lemma active_set_attempt [simp]: "active_attempts k (set_attempt i ph w) = active_attempts k w"
proof -
  have "length (filter (\<lambda>(_, a). a_worker a = k) (map (\<lambda>(j, a). (j, if j = i then a\<lparr>a_phase := ph\<rparr> else a)) xs)) =
      length (filter (\<lambda>(_, a). a_worker a = k) xs)" for xs :: "(nat \<times> task_attempt) list"
    by (induction xs) (auto split: if_splits)
  then show ?thesis by (simp add: active_attempts_def set_attempt_def)
qed

lemma set_attempt_frame [simp]:
  "w_workers (set_attempt i ph w) = w_workers w" "w_effects (set_attempt i ph w) = w_effects w" "w_store (set_attempt i ph w) = w_store w"
  "code_runs (set_attempt i ph w) = code_runs w" "load_of k (set_attempt i ph w) = load_of k w"
proof -
  show w: "w_workers (set_attempt i ph w) = w_workers w" "w_effects (set_attempt i ph w) = w_effects w" "w_store (set_attempt i ph w) = w_store w"
    by (simp_all add: set_attempt_def)
  show "code_runs (set_attempt i ph w) = code_runs w" "load_of k (set_attempt i ph w) = load_of k w"
    by (simp_all add: code_runs_def load_of_def w)
qed

lemma shares_set:
  assumes "distinct (map fst xs)" "map_of xs i = Some a"
  shows "shares (map (\<lambda>(j, a). (j, if j = i then a\<lparr>a_phase := ph\<rparr> else a)) xs) + share a = shares xs + share (a\<lparr>a_phase := ph\<rparr>)"
  using assms
proof (induction xs)
  case (Cons x xs)
  obtain j b where x: "x = (j, b)" by (cases x)
  show ?case
  proof (cases "j = i")
    case True
    then have "map (\<lambda>(j, a). (j, if j = i then a\<lparr>a_phase := ph\<rparr> else a)) xs = xs"
      using Cons.prems(1) x by (auto simp: rev_image_eqI intro!: map_idI)
    then show ?thesis using True Cons.prems x by simp
  next
    case False
    then show ?thesis using Cons x by (simp add: add.assoc)
  qed
qed simp

lemma pace_move:
  assumes pace: "pace_inv w" and dict: "dict_ok (w_attempts w)" and a: "map_of (w_attempts w) i = Some a"
    and ph: "before_run ph \<Longrightarrow> before_run (a_phase a)"
  shows "pace_inv (set_attempt i ph w)"
proof (rule pace_mono [OF pace])
  let ?A = "shares (w_attempts (set_attempt i ph w))"
  have "share (a\<lparr>a_phase := ph\<rparr>) \<subseteq># share a" using ph by (simp add: share_def)
  then have "shares (w_attempts w) + share (a\<lparr>a_phase := ph\<rparr>) \<subseteq># shares (w_attempts w) + share a" by simp
  then have "?A + share a \<subseteq># shares (w_attempts w) + share a"
    using shares_set [OF dict a, of ph] by (simp add: set_attempt_def)
  then have "?A \<subseteq># shares (w_attempts w)" by simp
  then show "code_starts (set_attempt i ph w) \<subseteq># code_starts w" by (simp add: code_starts_def)
qed simp

text \<open>Authored code begins only for an attempt that has not begun it.\<close>

lemma pace_run:
  assumes pace: "pace_inv w" and dict: "dict_ok (w_attempts w)" and a: "map_of (w_attempts w) i = Some a" and pre: "before_run (a_phase a)"
  shows "pace_inv (emit (Ran k (a_record a) sn grants) (set_attempt i (Authored sn grants) w))"
proof (rule pace_mono [OF pace])
  let ?v = "set_attempt i (Authored sn grants) w"
  have "shares (w_attempts ?v) + {#claim_key (a_record a)#} = shares (w_attempts w)"
    using shares_set [OF dict a, of "Authored sn grants"] pre by (simp add: set_attempt_def share_def)
  then have "code_starts (emit (Ran k (a_record a) sn grants) ?v) = code_starts w"
    by (simp add: code_starts_def code_runs_def map_filter_def ran_def flip: add.assoc)
  then show "code_starts (emit (Ran k (a_record a) sn grants) ?v) \<subseteq># code_starts w" by simp
qed simp


section \<open>A claim\<close>

lemma shares_member: "x \<in># shares xs \<Longrightarrow> \<exists>y\<in>set xs. x = claim_key (a_record (snd y))"
  by (induction xs) (auto simp: share_def split: if_splits)

lemma runs_member: "r \<in> set (code_runs w) \<Longrightarrow> \<exists>k sn grants. Ran k r sn grants \<in> set (w_effects w)"
  by (auto simp: code_runs_def map_filter_def ran_def split: worker_effect.splits) blast

text \<open>Whatever has been claimed is at most the stored attempt.\<close>

lemma starts_stored:
  assumes inv: "worker_inv P w" and x: "x \<in># code_starts w"
  obtains q where "task_at (w_store w) (fst x) = Some q" "snd x \<le> t_attempt q"
proof -
  have "\<exists>r. x = claim_key r \<and> same_job (w_store w) r"
  proof (cases "x \<in># shares (w_attempts w)")
    case True
    then obtain y where "y \<in> set (w_attempts w)" "x = claim_key (a_record (snd y))" using shares_member by blast
    then show ?thesis using inv by (auto simp: worker_inv_def attempt_ok_def)
  next
    case False
    then obtain r where r: "r \<in> set (code_runs w)" "x = claim_key r" using x by (auto simp: code_starts_def)
    then obtain k sn grants where "Ran k r sn grants \<in> set (w_effects w)" using runs_member by blast
    then have "worker_effect_ok P (w_store w) (Ran k r sn grants)" by (rule worker_invD(7) [OF inv])
    then show ?thesis using r(2) by (auto simp: worker_effect_ok_def)
  qed
  then show thesis using that by (auto simp: claim_key_def same_job_def)
qed

lemma shares_spawn: "shares (map (\<lambda>(j, r). (n + j, \<lparr>a_worker = k, a_record = r, a_phase = Fresh\<rparr>)) xs) = mset (map (claim_key \<circ> snd) xs)"
  by (induction xs) (auto simp: share_def)

lemma active_spawn: "active_attempts j (spawn_attempts k rs w) = active_attempts j w + (if j = k then length rs else 0)"
proof -
  have "length (filter (\<lambda>(_, a). a_worker a = j) (map (\<lambda>(m, r). (n + m, \<lparr>a_worker = k, a_record = r, a_phase = Fresh\<rparr>)) xs)) =
      (if j = k then length xs else 0)" for n and xs :: "(nat \<times> task_record) list"
    by (cases "j = k") (simp_all add: filter_map o_def case_prod_beta)
  then show ?thesis by (simp add: active_attempts_def spawn_attempts_def)
qed

lemma pace_spawn:
  assumes pace: "pace_inv w" and load: "load_of k w + length rs \<le> task_capacity"
    and new: "distinct (map claim_key rs)" "\<And>r. r \<in> set rs \<Longrightarrow> claim_key r \<notin># code_starts w"
  shows "pace_inv (spawn_attempts k rs w)"
proof -
  have code_starts: "code_starts (spawn_attempts k rs w) = code_starts w + mset (map claim_key rs)"
    using map_map [of claim_key snd "enumerate 0 rs"]
    by (simp add: code_starts_def code_runs_def spawn_attempts_def shares_spawn add.assoc)
  have "count (code_starts (spawn_attempts k rs w)) x \<le> 1" for x
  proof (cases "x \<in> set (map claim_key rs)")
    case True
    then have "count (code_starts w) x = 0" using new(2) by (auto simp: not_in_iff)
    moreover have "count (mset (map claim_key rs)) x = 1" using new(1) True by (metis distinct_count_atmost_1)
    ultimately show ?thesis unfolding code_starts by simp
  next
    case False
    then have "count (mset (map claim_key rs)) x = 0" by (metis count_mset_0_iff)
    then show ?thesis using pace_invD(1) [OF pace, of x] unfolding code_starts by simp
  qed
  moreover have "load_of j (spawn_attempts k rs w) \<le> task_capacity" for j
    using pace_invD(2) [OF pace, of j] load by (simp add: load_of_def active_spawn) (simp add: spawn_attempts_def)
  ultimately show ?thesis by (simp add: pace_inv_def)
qed

lemma pace_claim:
  assumes pace: "pace_inv w" and inv: "worker_inv P w" and loop: "wk_loop (w_workers w k) = Claiming n"
    and claim: "claim_tasks u app qs now l (int n) (w_store w) = (Inr rs, s')"
  shows "pace_inv (after_claim ps k sweep (spawn_attempts k rs (w\<lparr>w_store := s'\<rparr>)))"
proof -
  let ?v = "after_claim ps k sweep (w\<lparr>w_store := s'\<rparr>)"
  have store: "store_inv (w_store w)" using worker_invD(1) [OF inv] by (simp add: jobs_ok_def)
  note c = claimed_records [OF store claim]
  have "length rs + active_attempts k w \<le> task_capacity"
    using c(2) pace_invD(2) [OF pace, of k] by (simp add: load_of_def loop)
  then have load: "load_of k ?v + length rs \<le> task_capacity"
    by (simp add: after_claim_def set_loop_def load_of_def active_attempts_def)
  have same: "code_starts ?v = code_starts w" by (simp add: after_claim_def set_loop_def)
  have new: "claim_key r \<notin># code_starts ?v" if r: "r \<in> set rs" for r
  proof
    assume "claim_key r \<in># code_starts ?v"
    then obtain q where q: "task_at (w_store w) (task_key r) = Some q" "t_attempt r \<le> t_attempt q"
      using starts_stored [OF inv, of "claim_key r"] same by (metis fst_conv snd_conv claim_key_def)
    then show False using c(3) [OF r] by auto
  qed
  have "distinct (map claim_key rs)" using c(1) by (auto simp: distinct_map inj_on_def claim_key_def)
  from pace_spawn [OF _ load this new] have "pace_inv (spawn_attempts k rs ?v)"
    using pace by (simp add: pace_loops(6))
  moreover have "after_claim ps k sweep (spawn_attempts k rs (w\<lparr>w_store := s'\<rparr>)) = spawn_attempts k rs ?v"
    by (cases w) (simp add: after_claim_def set_loop_def spawn_attempts_def)
  ultimately show ?thesis by simp
qed


section \<open>Every event\<close>

lemma pace_start_step: "pace_inv w \<Longrightarrow> pace_inv (start_step cl ps k wa ph w)"
  by (cases ph) (auto simp: start_step_def Let_def intro!: paced pace_set_loop split: task_answer.split sum.split list.split prod.split registration.split)

lemma pace_work_step:
  assumes "pace_inv w" "worker_inv P w" "wk_loop (w_workers w k) = ph"
  shows "pace_inv (work_step cl ps k wa ph w)"
proof (cases ph)
  case (Claiming n)
  then show ?thesis using assms pace_claim
    by (auto simp: work_step_def Let_def intro!: paced split: sum.split prod.split)
qed (use assms(1) in \<open>auto simp: work_step_def Let_def intro!: paced pace_set_loop split: sum.split list.split option.split\<close>)

lemma pace_enter:
  assumes "pace_inv w" "dict_ok (w_attempts w)" "map_of (w_attempts w) i = Some a"
    and "\<And>ph. next = Some ph \<Longrightarrow> before_run ph \<Longrightarrow> before_run (a_phase a)"
    and "\<And>sn grants. next = Some (Authored sn grants) \<Longrightarrow> before_run (a_phase a)"
  shows "pace_inv (enter_phase i a next w)"
proof (cases "next")
  case None
  then show ?thesis by (simp add: enter_phase_def paced assms(1))
next
  case (Some ph)
  show ?thesis
  proof (cases "\<exists>sn grants. ph = Authored sn grants")
    case True
    then show ?thesis using Some assms(5) pace_run [OF assms(1-3)] by (auto simp: enter_phase_def)
  next
    case False
    have "pace_inv (set_attempt i ph w)" by (rule pace_move [OF assms(1-3)]) (rule assms(4) [OF Some])
    then show ?thesis using Some False by (cases ph) (simp_all add: enter_phase_def)
  qed
qed

lemma failed_attempt_later [simp]: "\<not> before_run (failed_attempt r now)" "failed_attempt r now \<noteq> Authored sn grants"
  by (simp_all add: failed_attempt_def)

lemma pace_attempt_step:
  assumes "pace_inv w" "dict_ok (w_attempts w)" "map_of (w_attempts w) i = Some a"
  shows "pace_inv (attempt_step ps i a now ans w)"
proof -
  have early: "pace_inv (enter_phase i a next w)" if "before_run (a_phase a)" for "next"
    by (rule pace_enter [OF assms]) (simp_all add: that)
  have later: "pace_inv (enter_phase i a next w)" if "\<And>ph. next = Some ph \<Longrightarrow> \<not> before_run ph \<and> (\<forall>sn grants. ph \<noteq> Authored sn grants)" for "next"
    by (rule pace_enter [OF assms]) (use that in blast)+
  have finish: "pace_inv (enter_phase i a (after_finish st v res) (w\<lparr>w_store := s'\<rparr>))" for st v res s'
    by (rule pace_enter) (use assms in \<open>auto simp: after_finish_def split: sum.splits bool.splits if_splits\<close>)
  show ?thesis
  proof (cases "a_phase a")
    case (Authored sn grants)
    then show ?thesis by (simp add: attempt_step_def Let_def) (rule later, auto simp: after_authored_def split: task_answer.splits sum.splits)
  next
    case (Finishing st v c ra)
    then show ?thesis by (simp add: attempt_step_def Let_def finish split: prod.split)
  next
    case (Publishing oc)
    then show ?thesis using assms(1) by (simp add: attempt_step_def Let_def paced)
  qed (simp_all add: attempt_step_def Let_def early)
qed

lemma pace_call_step: "pace_inv w \<Longrightarrow> pace_inv (call_step cl ps i h now ans w)"
  by (auto simp: call_step_def Let_def split: call_phase.split option.split prod.split task_answer.split)

lemma pace_world_step:
  assumes "pace_inv w" "worker_inv P w"
  shows "pace_inv (world_step cl P e w)"
proof (cases e)
  case (Attempt i now ans)
  then show ?thesis using assms pace_attempt_step worker_invD(2) [OF assms(2)] by (auto split: option.split)
qed (use assms in \<open>auto simp: loop_step_def Let_def renew_step_def pace_call_step pace_start_step pace_work_step
    intro!: paced split: option.split sum.split prod.split bool.split\<close>)

lemma pace_initial: "pace_inv (initial_world s)"
  by (simp add: pace_inv_def initial_world_def code_starts_def code_runs_def map_filter_def load_of_def active_attempts_def)


section \<open>The interpretation\<close>

definition world_ok :: "(nat \<Rightarrow> process) \<Rightarrow> world \<Rightarrow> bool" where
  "world_ok P w \<longleftrightarrow> worker_inv P w \<and> pace_inv w"

text \<open>What a run of the world needs: fresh submissions by the other clients of the store, tasks as the compiler makes them.\<close>

definition admissible :: "(nat \<Rightarrow> process) \<Rightarrow> event \<Rightarrow> bool" where
  "admissible P e \<longleftrightarrow> event_ok e \<and> (\<forall>k. tasks_ok (ps_app (P k)))"

interpretation workers: guarded_store "initial_world empty_task_store" "world_step cl P" "admissible P" "world_ok P" for cl P
  by unfold_locales
    (auto simp: world_ok_def admissible_def pace_initial intro!: inv_initial inv_world_step pace_world_step jobs.inv_init)

end
