(* ===== verification/Cron_Props.thy ===== *)
theory Cron_Props
  imports Worker_Safety
begin

text \<open>
  Schedules: an authored operation stays with its user, an occurrence acts for the schedule's owner and without grants, and registering
  the compiled declarations again changes nothing.
\<close>

section \<open>Values that have been made safe\<close>




section \<open>Compiled declarations\<close>






















section \<open>Occurrences\<close>

text \<open>A snapshot of an invocation survives its way through the store.\<close>

lemma validated_snapshot_value:
  assumes "sn_framework sn = ''adk'' \<or> sn_framework sn = ''langgraph''" "sn_agent_name sn \<noteq> []" "sn_invocation_id sn \<noteq> []"
    "sn_user_id sn \<noteq> []" "sn_session_id sn \<noteq> []" "safe_task_arguments (sn_metadata sn) = Inr (sn_metadata sn)"
  shows "validated_snapshot (snapshot_value sn) = Inr (Some sn)"
proof -
  have keys: "keyword_arguments (snapshot_value sn) = Some [(''framework'', PyStr (sn_framework sn)), (''agent_name'', PyStr (sn_agent_name sn)),
     (''invocation_id'', PyStr (sn_invocation_id sn)), (''user_id'', PyStr (sn_user_id sn)),
     (''session_id'', PyStr (sn_session_id sn)), (''metadata'', sn_metadata sn)]"
    by (simp add: snapshot_value_def named_def keyword_arguments_def)
  obtain kvs where kvs: "snapshot_value sn = PyDict kvs" by (simp add: snapshot_value_def named_def)
  have "sn_framework sn \<noteq> []" using assms(1) by auto
  then show ?thesis
    using assms keys unfolding validated_snapshot_def kvs
    by (simp add: snapshot_text_def snapshot_fields_def)
qed

lemma dispatch_occurrence:
  assumes "dispatch_request cl ap now r = Inr (Commit_Occurrence app user sid v due nxt t)"
  obtains c q where "task_by_name ap (c_task_name r) = Some c"
    "task_record_of cl ap c (c_arguments r) (Some (occurrence_snapshot cl ap r)) (Some []) ''cron'' (Some (occurrence_text cl r)) (c_next_run_at r) [] now = Inr q"
    "t = q\<lparr>t_cron_schedule_id := Some (c_schedule_id r)\<rparr>" "app = c_application_id r" "user = c_user_id r" "sid = c_schedule_id r"
    "v = c_revision r" "due = c_next_run_at r"
proof (cases "task_by_name ap (c_task_name r)")
  case None
  then show thesis using assms by (simp add: dispatch_request_def)
next
  case (Some c)
  then have "cron_task_record cl ap c r now = Inr t" "app = c_application_id r" "user = c_user_id r" "sid = c_schedule_id r"
    "v = c_revision r" "due = c_next_run_at r"
    using assms by (auto simp: dispatch_request_def sum_bind_Inr split: if_splits)
  with cron_task_record_cases [of cl ap c r now t] that Some show thesis by metis
qed

text \<open>
  The job of a due schedule acts for the schedule's owner: it carries the owner, the schedule's target and arguments, and when its code runs
  it finds an invocation of that owner in a session of its own and a principal without any grant.
\<close>

theorem occurrence_acts_for_owner:
  assumes dispatch: "dispatch_request cl ap now r = Inr (Commit_Occurrence app user sid v due nxt t)"
    and names: "ap_framework ap = ''adk'' \<or> ap_framework ap = ''langgraph''" "ap_name ap \<noteq> []" "c_user_id r \<noteq> []"
  shows "t_user_id t = c_user_id r \<and> t_task_name t = c_task_name r \<and> safe_task_arguments (c_arguments r) = Inr (t_arguments t) \<and>
    t_cron_schedule_id t = Some (c_schedule_id r) \<and> t_idempotency_key t = Some (occurrence_text cl r) \<and>
    (\<exists>sn. record_snapshot (ap_name ap) t = Inr (Some sn) \<and> sn_user_id sn = c_user_id r \<and> sn_session_id sn = occurrence_text cl r) \<and>
    validated_permissions (t_agent_permissions t) = Inr (Some [])"
proof -
  obtain c q where c: "task_by_name ap (c_task_name r) = Some c" and q: "task_record_of cl ap c (c_arguments r)
      (Some (occurrence_snapshot cl ap r)) (Some []) ''cron'' (Some (occurrence_text cl r)) (c_next_run_at r) [] now = Inr q"
    and t: "t = q\<lparr>t_cron_schedule_id := Some (c_schedule_id r)\<rparr>"
    using dispatch_occurrence [OF dispatch] by metis
  note f = task_record_of_fields [OF q]
  have nonempty: "occurrence_text cl r \<noteq> []" by (simp add: occurrence_text_def)
  have "validated_snapshot (t_invocation t) = Inr (Some (occurrence_snapshot cl ap r))"
    unfolding t using f(5) validated_snapshot_value [of "occurrence_snapshot cl ap r"] names nonempty
    by (simp add: occurrence_snapshot_def safe_task_arguments_def)
  then have "record_snapshot (ap_name ap) t = Inr (Some (occurrence_snapshot cl ap r))"
    using f(1,2) by (simp add: record_snapshot_def t occurrence_snapshot_def)
  moreover have "validated_permissions (t_agent_permissions t) = Inr (Some [])"
    using f(6) by (simp add: t validated_permissions_def create_principal_def blank_def is_space_def)
  ultimately show ?thesis
    using f task_by_name_tasks [OF c] by (simp add: t occurrence_snapshot_def)
qed


section \<open>Isolation of users\<close>













section \<open>Worked instances\<close>

definition daily_task :: authored_task where
  "daily_task = \<lparr>au_id = 7, au_signature = [], au_cron = True\<rparr>"

definition daily_compiled :: compiled_task where
  "daily_compiled = \<lparr>ct_name = ''harnest.desk.tasks.cron.daily'', ct_queue = ''default'', ct_max_retries = 3, ct_authored = daily_task\<rparr>"

definition daily_cron :: compiled_cron where
  "daily_cron = \<lparr>cc_name = ''daily'', cc_source = ''cron/daily.py'', cc_schedule = ''0 9 * * *'', cc_timezone = ''UTC'',
     cc_task = daily_compiled, cc_arguments = PyDict []\<rparr>"

definition desk :: application where
  "desk = \<lparr>ap_name = ''desk'', ap_framework = ''adk'', ap_tasks = [daily_compiled], ap_crons = [daily_cron],
     ap_automation = ''_harnest_automation'', ap_cron_store = True\<rparr>"

text \<open>A library in which the next occurrence is a day later.\<close>

definition sample_cron_lib :: cron_lib where
  "sample_cron_lib = \<lparr>cl_py = sample_lib, cl_uuid5_hex = (\<lambda>s. s), cl_croniter = (\<lambda>e after. Inr (f_add after (Fin 86400)))\<rparr>"

definition daily_record :: cron_record where
  "daily_record = (case static_record sample_cron_lib desk daily_cron (Fin 10) of Inr q \<Rightarrow> q | Inl e \<Rightarrow> undefined)"

lemma daily_schedule_valid: "validate_schedule ''0 9 * * *'' = None"
  by code_simp



lemma dispatch_daily: "\<exists>t. dispatch_request sample_cron_lib desk (Fin 20) (daily_record\<lparr>c_user_id := ''ann''\<rparr>) =
    Inr (Commit_Occurrence ''desk'' ''ann'' (c_schedule_id daily_record) 0 (Fin 86410) (Fin 172810) t)"
proof -
  have v: "validate_task_call [] (PyDict []) = None" by code_simp
  have n: "daily_record = \<lparr>c_schedule_id = static_schedule_id sample_cron_lib daily_cron, c_application_id = ''desk'',
      c_user_id = ''_harnest_automation'', c_key = ''static:'' @ sha256_hex sample_lib (repr_tuple [''daily'', ct_name daily_compiled]),
      c_expression = ''0 9 * * *'', c_task_name = ct_name daily_compiled, c_arguments = PyDict [], c_next_run_at = Fin 86410,
      c_status = ''active'', c_revision = 0, c_timezone = ''UTC'', c_created_at = Fin 10, c_updated_at = Fin 10,
      c_max_runs = None, c_max_consecutive_failures = None, c_run_count = 0, c_consecutive_failures = 0\<rparr>"
    by (simp add: daily_record_def static_record_def next_occurrence_def daily_cron_def daily_schedule_valid safe_task_arguments_def
        sample_cron_lib_def desk_def)
  let ?r = "daily_record\<lparr>c_user_id := ''ann''\<rparr>"
  have f: "c_task_name ?r = ct_name daily_compiled" "c_arguments ?r = PyDict []" "c_expression ?r = ''0 9 * * *''" "c_next_run_at ?r = Fin 86410"
    "c_application_id ?r = ''desk''" "c_user_id ?r = ''ann''" "c_revision ?r = 0" "c_schedule_id ?r = c_schedule_id daily_record"
    by (simp_all add: n)
  have c: "task_by_name desk (ct_name daily_compiled) = Some daily_compiled" by (simp add: task_by_name_def desk_def)
  have "valid_call daily_compiled (PyDict [])" by (simp add: valid_call_def daily_compiled_def daily_task_def v)
  moreover have "next_occurrence sample_cron_lib ''0 9 * * *'' (Fin 86410) = Inr (Fin 172810)"
    by (simp add: next_occurrence_def daily_schedule_valid sample_cron_lib_def)
  moreover have "\<exists>t. cron_task_record sample_cron_lib desk daily_compiled ?r (Fin 20) = Inr t"
    unfolding cron_task_record_def task_record_of_def Let_def f(2) by (simp add: safe_task_arguments_def)
  ultimately show ?thesis unfolding dispatch_request_def f c by auto
qed

theorem occurrence_acts_for_owner_witness:
  "\<exists>t. dispatch_request sample_cron_lib desk (Fin 20) (daily_record\<lparr>c_user_id := ''ann''\<rparr>) =
      Inr (Commit_Occurrence ''desk'' ''ann'' (c_schedule_id daily_record) 0 (Fin 86410) (Fin 172810) t) \<and>
    t_user_id t = ''ann'' \<and> validated_permissions (t_agent_permissions t) = Inr (Some [])"
proof -
  obtain t where t: "dispatch_request sample_cron_lib desk (Fin 20) (daily_record\<lparr>c_user_id := ''ann''\<rparr>) =
      Inr (Commit_Occurrence ''desk'' ''ann'' (c_schedule_id daily_record) 0 (Fin 86410) (Fin 172810) t)"
    using dispatch_daily by blast
  have "ap_framework desk = ''adk'' \<or> ap_framework desk = ''langgraph''" "ap_name desk \<noteq> []"
    "c_user_id (daily_record\<lparr>c_user_id := ''ann''\<rparr>) \<noteq> []"
    by (simp_all add: desk_def)
  with occurrence_acts_for_owner [OF t this] t show ?thesis by (intro exI [of _ t]) simp
qed




end
