(* ===== verification/Worker_Props.thy ===== *)
theory Worker_Props
  imports Worker_Pace Cron_Props
begin

text \<open>
  The task workers: what a waiter is told, how often and as whom authored code runs, how much a process takes on, and the sweep that
  tells what nobody told.
\<close>

lemma run_ok: "list_all (admissible P) es \<Longrightarrow> world_ok P (fold (world_step cl P) es (initial_world empty_task_store))"
  by (rule workers.inv_run)

text \<open>An outcome handed to the continuation port, under the application it is stored in.\<close>

definition announces :: "(nat \<Rightarrow> process) \<Rightarrow> worker_effect \<Rightarrow> ((string \<times> string) \<times> task_outcome) option" where
  "announces P e = (case e of
     Told k p oc \<Rightarrow> Some ((ap_name (ps_app (P k)), p), oc)
   | Cancelled_Wait k p \<Rightarrow> Some ((ap_name (ps_app (P k)), p), Failed_With ''task_cancelled'')
   | _ \<Rightarrow> None)"

text \<open>
  C35. Whatever is told to a waiter about a job, by the worker that ran it, a caller that cancelled it, a caller that read it again or the
  sweep of any process, is the outcome stored for it, and the job is terminal: with processes that die, lost leases and other clients of the
  store, no waiter is told of an attempt that did not count, and no two waiters are told differently.
\<close>

theorem waiters_told_stored_outcome:
  assumes "list_all (admissible P) es" and "w = fold (world_step cl P) es (initial_world empty_task_store)"
    and "e \<in> set (w_effects w)" and "announces P e = Some (k, oc)"
  shows "\<exists>r. task_at (w_store w) k = Some r \<and> terminal_status (t_status r) \<and> outcome_of r = oc"
proof -
  have "worker_inv P w" using run_ok [OF assms(1), of cl] assms(2) by (simp add: world_ok_def)
  from worker_invD(7) [OF this assms(3)] have "told (w_store w) k oc"
    using assms(4) by (cases e) (auto simp: announces_def worker_effect_ok_def)
  then show ?thesis by (auto simp: told_def outcome_terminal [symmetric])
qed

text \<open>
  C36. The code of a job starts at most \<^verbatim>\<open>max_retries + 1\<close> times, over all processes together: every start belongs to another claim, however
  leases expire, attempts are cancelled and processes die.
\<close>

theorem code_starts_bounded:
  assumes "list_all (admissible P) es" and "w = fold (world_step cl P) es (initial_world empty_task_store)"
  shows "int (length (filter (\<lambda>r. task_key r = k) (code_runs w))) \<le>
    (case task_at (w_store w) k of None \<Rightarrow> 0 | Some q \<Rightarrow> t_max_retries q + 1)"
proof -
  let ?rs = "filter (\<lambda>r. task_key r = k) (code_runs w)"
  have inv: "worker_inv P w" and pace: "pace_inv w" using run_ok [OF assms(1), of cl] assms(2) by (simp_all add: world_ok_def)
  have same: "same_job (w_store w) r" if "r \<in> set (code_runs w)" for r
    using runs_member [OF that] worker_invD(7) [OF inv] by (fastforce simp: worker_effect_ok_def)
  have "count (mset (map claim_key (code_runs w))) x = (if x \<in> set (map claim_key (code_runs w)) then 1 else 0)" for x
  proof -
    have "count (mset (map claim_key (code_runs w))) x \<le> 1" using pace_invD(1) [OF pace, of x] by (simp add: code_starts_def)
    then show ?thesis by (metis count_greater_zero_iff count_mset_0_iff less_one linorder_not_le nat_less_le set_mset_mset)
  qed
  then have "distinct (map claim_key (code_runs w))" unfolding distinct_count_atmost_1 by blast
  then have "distinct (map claim_key ?rs)" by (rule distinct_map_filter)
  then have distinct: "distinct (map t_attempt ?rs)"
    by (auto simp: distinct_map inj_on_def claim_key_def)
  show ?thesis
  proof (cases "task_at (w_store w) k")
    case None
    then have "?rs = []" unfolding filter_empty_conv using same unfolding same_job_def by (metis option.distinct(1))
    then show ?thesis using None by simp
  next
    case (Some q)
    have "task_wf q" using worker_invD(1) [OF inv] Some unfolding jobs_ok_def by blast
    then have q: "0 \<le> t_attempt q" "t_attempt q \<le> t_max_retries q + 1" by (simp_all add: task_wf_def)
    have "set (map t_attempt ?rs) \<subseteq> {1..t_attempt q}" using same Some by (fastforce simp: same_job_def)
    then have "card (set (map t_attempt ?rs)) \<le> card {1..t_attempt q}" by (intro card_mono) simp_all
    then have "int (length ?rs) \<le> t_attempt q" using distinct_card [OF distinct] q(1) by simp
    then show ?thesis using Some q(2) by simp
  qed
qed

text \<open>
  No process ever holds more than ten attempts.
\<close>

theorem attempts_within_capacity:
  assumes "list_all (admissible P) es"
  shows "active_attempts k (fold (world_step cl P) es (initial_world empty_task_store)) \<le> 10"
  using run_ok [OF assms, of cl] pace_invD(2) [of _ k] active_load [of k] le_trans
  by (fastforce simp: world_ok_def task_capacity_def)



section \<open>The sweep\<close>

lemma reconcile_next_frame [simp]:
  "reconcile_next k ids later (set_loop k ph v) = reconcile_next k ids later v"
  "w_store (reconcile_next k ids later v) = w_store v" "w_effects (reconcile_next k ids later v) = w_effects v"
  "w_store (set_loop k ph v) = w_store v" "w_effects (set_loop k ph v) = w_effects v"
  "wk_state (w_workers (reconcile_next k ids later v) k) = wk_state (w_workers v k)"
  "wk_state (w_workers (set_loop k ph v) k) = wk_state (w_workers v k)" "wk_loop (w_workers (set_loop k ph v) k) = ph"
  by (simp_all add: reconcile_next_def set_loop_def)







section \<open>Worked instances\<close>

definition desk_process :: "nat \<Rightarrow> process" where
  "desk_process k = \<lparr>ps_app = desk, ps_enable_cron = False, ps_sessions = False, ps_port = True\<rparr>"

definition queued_job :: task_record where
  "queued_job = (new_task ''j1'' ''desk'' ''ann'' ''harnest.desk.tasks.cron.daily'' ''default'' (PyDict []))\<lparr>t_agent_permissions := Some [''mail.read'']\<rparr>"

definition wake_at :: "rat \<Rightarrow> wake" where
  "wake_at t = \<lparr>wa_now = Fin t, wa_uuid = (\<lambda>n. ''tok''), wa_sweep = False, wa_answer = Given PyNone, wa_page = None\<rparr>"

definition sample_run :: "event list" where
  "sample_run = [Store_Event (Enqueue queued_job), Start 0, Loop 0 (wake_at 1), Loop 0 (wake_at 1), Loop 0 (wake_at 2),
     Attempt 1 (Fin 3) Cancels, Attempt 1 (Fin 4) (Given (PyInt 5)), Attempt 1 (Fin 5) Cancels, Attempt 1 (Fin 6) Cancels]"

definition worked_world :: world where
  "worked_world = fold (world_step sample_cron_lib desk_process) sample_run (initial_world empty_task_store)"

lemma sample_admissible: "list_all (admissible desk_process) sample_run"
  by (simp add: sample_run_def admissible_def desk_process_def tasks_ok_def desk_def daily_compiled_def fresh_op_def submitted_def
      fresh_task_def queued_job_def new_task_def)

lemma worked_effects: "map (announces desk_process) (w_effects worked_world) = [None, Some ((''desk'', ''j1''), Completed (PyInt 5))]"
  by code_simp

lemma sample_told: "\<exists>e\<in>set (w_effects worked_world). announces desk_process e = Some ((''desk'', ''j1''), Completed (PyInt 5))"
proof -
  have "Some ((''desk'', ''j1''), Completed (PyInt 5)) \<in> set (map (announces desk_process) (w_effects worked_world))"
    unfolding worked_effects by simp
  then obtain e where e: "Some ((''desk'', ''j1''), Completed (PyInt 5)) = announces desk_process e" "e \<in> set (w_effects worked_world)"
    unfolding set_map by (elim imageE)
  show ?thesis by (rule bexI [OF _ e(2)]) (rule e(1) [symmetric])
qed

theorem waiters_told_stored_outcome_witness:
  "\<exists>r. task_at (w_store worked_world) (''desk'', ''j1'') = Some r \<and> outcome_of r = Completed (PyInt 5)"
  using sample_told waiters_told_stored_outcome [OF sample_admissible worked_world_def] by blast

theorem code_starts_bounded_witness:
  "int (length (filter (\<lambda>r. task_key r = (''desk'', ''j1'')) (code_runs worked_world))) \<le> 4"
proof -
  have "map_option t_max_retries (task_at (w_store worked_world) (''desk'', ''j1'')) = Some 3" by code_simp
  then obtain q where "task_at (w_store worked_world) (''desk'', ''j1'') = Some q" "t_max_retries q = 3" by auto
  with code_starts_bounded [OF sample_admissible worked_world_def, of "(''desk'', ''j1'')"] show ?thesis by simp
qed

theorem attempts_within_capacity_witness: "active_attempts 0 worked_world \<le> 10"
  unfolding worked_world_def by (rule attempts_within_capacity [OF sample_admissible])






end
