(* ===== verification/Task_Driver.thy ===== *)
theory Task_Driver
  imports Task_Runtime
begin

text \<open>
  The driver around a framework's driver that owns the task manager (\<^verbatim>\<open>TaskRuntimeDriver\<close> of \<^verbatim>\<open>runtime_task.py\<close>): it starts the framework first
  and the workers second, and closes in the opposite order whatever fails on the way. What the parts answer is given; the calls it makes are recorded.
\<close>

datatype driver_state = DriverNew | DriverStarted | DriverFailed | DriverClosed

datatype driver_call = StartFramework | StartManager | Reconcile | CloseManager | CloseContinuations | CloseFramework | Forward

record driver_answers =
  da_has_start :: bool
  da_start :: "exc option"
  da_manager :: "exc option"
  da_reconcile :: "exc option"
  da_close_manager :: "exc option"
  da_close_continuations :: "exc option"
  da_close_framework :: "exc option"

text \<open>A failure with the later cleanup failures noted on it.\<close>

type_synonym noted = "exc \<times> exc list"

definition merge_failure :: "noted option \<Rightarrow> exc option \<Rightarrow> noted option" where
  "merge_failure failure cleanup = (case cleanup of None \<Rightarrow> failure
     | Some c \<Rightarrow> (case failure of None \<Rightarrow> Some (c, []) | Some (e, notes) \<Rightarrow> Some (e, notes @ [c])))"

lemma merge_failure_raises [simp]: "merge_failure (Some x) c \<noteq> None"
  by (simp add: merge_failure_def split: option.split prod.split)

definition start_parts :: "driver_answers \<Rightarrow> exc option \<times> driver_call list \<times> bool" where
  "start_parts da = (let fw = (if da_has_start da then [StartFramework] else []) in
     case (if da_has_start da then da_start da else None) of
       Some e \<Rightarrow> (Some e, fw, False)
     | None \<Rightarrow> (case da_manager da of
         Some e \<Rightarrow> (Some e, fw @ [StartManager], False)
       | None \<Rightarrow> (da_reconcile da, fw @ [StartManager, Reconcile], True)))"

definition driver_start :: "driver_answers \<Rightarrow> driver_state \<Rightarrow> noted option \<times> driver_state \<times> driver_call list" where
  "driver_start da st = (case st of
     DriverStarted \<Rightarrow> (None, st, [])
   | DriverNew \<Rightarrow> (case start_parts da of
       (None, calls, _) \<Rightarrow> (None, DriverStarted, calls)
     | (Some e, calls, _) \<Rightarrow> (merge_failure (Some (e, [])) (da_close_framework da), DriverFailed, calls @ [CloseFramework]))
   | _ \<Rightarrow> (Some (TaskRuntimeError ''task runtime driver cannot be restarted'', []), st, []))"

definition driver_close :: "bool \<Rightarrow> driver_answers \<Rightarrow> driver_state \<Rightarrow> noted option \<times> driver_state \<times> driver_call list" where
  "driver_close owns_continuations da st = (if st = DriverClosed then (None, st, [])
     else (merge_failure (merge_failure (merge_failure None (da_close_manager da))
             (if owns_continuations then da_close_continuations da else None)) (da_close_framework da),
           DriverClosed,
           [CloseManager] @ (if owns_continuations then [CloseContinuations] else []) @ [CloseFramework]))"

text \<open>Sessions, invocations and streams start the driver first; a driver that cannot be started forwards nothing.\<close>

definition forward :: "driver_answers \<Rightarrow> driver_state \<Rightarrow> noted option \<times> driver_state \<times> driver_call list" where
  "forward da st = (case driver_start da st of
     (None, st', calls) \<Rightarrow> (None, st', calls @ [Forward]) | (Some e, st', calls) \<Rightarrow> (Some e, st', calls))"

text \<open>
  Closing closes every part the driver owns, in order and once, whatever the parts raise; the first failure is raised and the others are noted on it.
\<close>

lemma close_closes_all:
  assumes "st \<noteq> DriverClosed"
  shows "snd (snd (driver_close owns da st)) = [CloseManager] @ (if owns then [CloseContinuations] else []) @ [CloseFramework]"
    and "(case fst (driver_close owns da st) of None \<Rightarrow> [] | Some (e, notes) \<Rightarrow> e # notes) =
      List.map_filter id ([da_close_manager da] @ (if owns then [da_close_continuations da] else []) @ [da_close_framework da])"
    and "driver_close owns da (fst (snd (driver_close owns da st))) = (None, DriverClosed, [])"
  using assms by (auto simp: driver_close_def merge_failure_def map_filter_simps split: option.split)

text \<open>A request reaches the framework only behind a started framework and manager, and a driver that failed or was closed never forwards again.\<close>

lemma forward_after_start:
  "Forward \<in> set (snd (snd (forward da st))) \<Longrightarrow> fst (snd (forward da st)) = DriverStarted"
  "st = DriverFailed \<or> st = DriverClosed \<Longrightarrow> fst (snd (forward da st)) = st \<and> snd (snd (forward da st)) = []"
  by (auto simp: forward_def driver_start_def start_parts_def Let_def split: driver_state.splits option.splits prod.splits if_splits)

end
